(* ===== verification/Prelude.thy ===== *)
theory Prelude
  imports Main "HOL-Library.Word"
begin

text \<open>
  Shared material of the ProxyLane development: the machine types of the Windows sources
  (\<open>BYTE\<close>, \<open>WORD\<close>, \<open>DWORD\<close>, \<open>ULONGLONG\<close>), the Winsock and Win32 error numbers the
  sources compare with, the wrap-around clock arithmetic on \<open>GetTickCount()\<close> values, the
  byte orders, the C string comparison, and the generic facts on lists and words that the
  component theories use. The named collections below are what the component proofs pass
  to the simplifier.
\<close>

named_theorems sockaddr_simps \<open>field equations of the socket address operations\<close>
named_theorems policy_defs \<open>definitions of the small decision functions\<close>
named_theorems layer_simps \<open>field equations of the proxy layer primitives\<close>
named_theorems udp_simps \<open>field equations of the UDP task primitives\<close>
named_theorems peer_simps \<open>field equations of the TCP peer primitives\<close>

unbundle bit_operations_syntax

section \<open>Machine types\<close>

type_synonym byte = "8 word"
type_synonym word16 = "16 word"
type_synonym dword = "32 word"
type_synonym qword = "64 word"
type_synonym bytes = "byte list"
type_synonym cstr = string

text \<open>\<open>SOCKET_ERROR\<close> and the error numbers of \<open>winerror.h\<close> that the sources use.\<close>

abbreviation (input) "SOCKET_ERROR \<equiv> (-1 :: int)"
abbreviation (input) "ERROR_NOT_ENOUGH_MEMORY \<equiv> (8 :: int)"
abbreviation (input) "WSAEACCES \<equiv> (10013 :: int)"
abbreviation (input) "WSAEFAULT \<equiv> (10014 :: int)"
abbreviation (input) "WSAEINVAL \<equiv> (10022 :: int)"
abbreviation (input) "WSAEWOULDBLOCK \<equiv> (10035 :: int)"
abbreviation (input) "WSAENOTSOCK \<equiv> (10038 :: int)"
abbreviation (input) "WSAEMSGSIZE \<equiv> (10040 :: int)"
abbreviation (input) "WSAEPROTONOSUPPORT \<equiv> (10043 :: int)"
abbreviation (input) "WSAEOPNOTSUPP \<equiv> (10045 :: int)"
abbreviation (input) "WSAEAFNOSUPPORT \<equiv> (10047 :: int)"
abbreviation (input) "WSAECONNABORTED \<equiv> (10053 :: int)"
abbreviation (input) "WSAECONNRESET \<equiv> (10054 :: int)"
abbreviation (input) "WSAENOBUFS \<equiv> (10055 :: int)"
abbreviation (input) "WSAENOTCONN \<equiv> (10057 :: int)"
abbreviation (input) "WSAETIMEDOUT \<equiv> (10060 :: int)"
abbreviation (input) "WSAECONNREFUSED \<equiv> (10061 :: int)"
abbreviation (input) "WSAEHOSTUNREACH \<equiv> (10065 :: int)"
abbreviation (input) "WSAHOST_NOT_FOUND \<equiv> (11001 :: int)"

section \<open>The millisecond clock\<close>

text \<open>
  \<open>GetTickCount()\<close> is a 32-bit counter that wraps every 49.7 days. The sources compare
  it in two ways: \<open>(LONG)(now - t) >= 0\<close>, a signed difference, and
  \<open>(DWORD)(now - t) >= timeout\<close>, an unsigned one.
\<close>

definition tick_reached :: "dword \<Rightarrow> dword \<Rightarrow> bool" where
  "tick_reached now t \<longleftrightarrow> 0 \<le> sint (now - t)"

definition tick_elapsed :: "dword \<Rightarrow> dword \<Rightarrow> dword" where
  "tick_elapsed now t = now - t"

lemma tick_elapsed_add [simp]: "tick_elapsed (t + d) t = d"
  by (simp add: tick_elapsed_def)

lemma tick_elapsed_self [simp]: "tick_elapsed t t = 0"
  by (simp add: tick_elapsed_def)

lemma sint_nonneg_iff: "0 \<le> sint (w :: dword) \<longleftrightarrow> unat w < 2 ^ 31"
proof -
  have "sint w = (uint w + 2 ^ 31) mod 2 ^ 32 - 2 ^ 31"
    using int_word_sint [where 'a = 32, of "uint w"] by simp
  moreover have "0 \<le> uint w" "uint w < 2 ^ 32"
    using uint_lt2p [of w] by simp_all
  ultimately have "0 \<le> sint w \<longleftrightarrow> uint w < 2 ^ 31"
    using minus_mod_self2 [of "uint w + 2 ^ 31" "2 ^ 32"]
    by (cases "uint w < 2 ^ 31") (simp_all add: mod_pos_pos_trivial)
  then show ?thesis
    by (simp only: unat_eq_nat_uint nat_less_iff [OF uint_ge_0] of_nat_power of_nat_numeral)
qed

lemma tick_reached_iff: "tick_reached now t \<longleftrightarrow> unat (now - t) < 2 ^ 31"
  by (simp add: tick_reached_def sint_nonneg_iff)

lemma tick_reached_self [simp]: "tick_reached t t"
  by (simp add: tick_reached_iff)

section \<open>Byte order\<close>

text \<open>The build targets are little-endian, so \<open>htons\<close> and \<open>ntohs\<close> swap the two bytes.\<close>

definition htons :: "word16 \<Rightarrow> word16" where
  "htons w = push_bit 8 w OR drop_bit 8 w"

abbreviation "ntohs \<equiv> htons"

lemma htons_htons [simp]: "htons (htons w) = w"
  by (rule bit_word_eqI) (auto simp: htons_def bit_simps)

lemma htons_eq_iff [simp]: "htons a = htons b \<longleftrightarrow> a = b"
  by (metis htons_htons)

text \<open>The bytes of an integer in memory, lowest first, and back.\<close>

definition word16_bytes :: "word16 \<Rightarrow> bytes" where
  "word16_bytes w = [ucast w, ucast (drop_bit 8 w)]"

fun bytes_word16 :: "bytes \<Rightarrow> word16" where
  "bytes_word16 (a # b # _) = ucast a OR push_bit 8 (ucast b)"
| "bytes_word16 _ = 0"

definition dword_bytes :: "dword \<Rightarrow> bytes" where
  "dword_bytes w = [ucast w, ucast (drop_bit 8 w), ucast (drop_bit 16 w), ucast (drop_bit 24 w)]"

fun bytes_dword :: "bytes \<Rightarrow> dword" where
  "bytes_dword (a # b # c # d # _) =
     ucast a OR push_bit 8 (ucast b) OR push_bit 16 (ucast c) OR push_bit 24 (ucast d)"
| "bytes_dword _ = 0"

lemma length_word16_bytes [simp]: "length (word16_bytes w) = 2"
  by (simp add: word16_bytes_def)

lemma length_dword_bytes [simp]: "length (dword_bytes w) = 4"
  by (simp add: dword_bytes_def)

lemma bytes_word16_word16_bytes [simp]: "bytes_word16 (word16_bytes w @ xs) = w"
  by (rule bit_word_eqI) (auto simp: word16_bytes_def bit_simps)

lemma bytes_dword_dword_bytes [simp]: "bytes_dword (dword_bytes w @ xs) = w"
proof (rule bit_word_eqI)
  fix n :: nat
  assume "n < LENGTH(32)"
  then consider "n < 8" | "8 \<le> n" "n < 16" | "16 \<le> n" "n < 24" | "24 \<le> n" "n < 32"
    by fastforce
  then show "bit (bytes_dword (dword_bytes w @ xs)) n = bit w n"
    by cases (auto simp: dword_bytes_def bit_simps)
qed

lemma bytes_word16_word16_bytes_Nil [simp]: "bytes_word16 (word16_bytes w) = w"
  using bytes_word16_word16_bytes [of w "[]"] by simp

lemma bytes_dword_dword_bytes_Nil [simp]: "bytes_dword (dword_bytes w) = w"
  using bytes_dword_dword_bytes [of w "[]"] by simp

definition ntohl :: "dword \<Rightarrow> dword" where
  "ntohl w = bytes_dword (rev (dword_bytes w))"

lemma bit_bytes_dword:
  "bit (bytes_dword [a, b, c, d]) n \<longleftrightarrow>
     n < 32 \<and> (if n < 8 then bit a n else if n < 16 then bit b (n - 8)
       else if n < 24 then bit c (n - 16) else bit d (n - 24))"
  by (auto simp: bit_simps dest: bit_imp_le_length)

lemma dword_bytes_bytes_dword [simp]: "dword_bytes (bytes_dword [a, b, c, d]) = [a, b, c, d]"
  unfolding dword_bytes_def
  by (auto intro!: bit_word_eqI simp: bit_simps simp del: bytes_dword.simps simp: bit_bytes_dword)

lemma ntohl_ntohl [simp]: "ntohl (ntohl w) = w"
proof -
  obtain a b c d where w: "dword_bytes w = [a, b, c, d]"
    by (simp add: dword_bytes_def)
  then have "w = bytes_dword [a, b, c, d]"
    by (metis bytes_dword_dword_bytes_Nil)
  then show ?thesis
    by (simp add: ntohl_def del: bytes_dword.simps)
qed

lemma drop_bit_24_ntohl: "drop_bit 24 (ntohl w) = ucast (hd (dword_bytes w))"
  by (rule bit_word_eqI)
    (auto simp: ntohl_def dword_bytes_def bit_simps bit_bytes_dword simp del: bytes_dword.simps)

section \<open>C strings\<close>

text \<open>
  A NUL-terminated \<open>char\<close> array is the string before its terminator. \<open>cstr_bytes\<close> is
  what is copied to the wire, \<open>bytes_cstr\<close> reads a byte range up to the first NUL, and
  \<open>stricmp_eq a b\<close> is \<open>_stricmp(a, b) == 0\<close> in the C locale the processes run in.
\<close>

definition byte_of_char :: "char \<Rightarrow> byte" where
  "byte_of_char c = word_of_nat (of_char c)"

definition char_of_byte :: "byte \<Rightarrow> char" where
  "char_of_byte b = char_of (unat b)"

definition cstr_bytes :: "cstr \<Rightarrow> bytes" where
  "cstr_bytes s = map byte_of_char s"

definition bytes_cstr :: "bytes \<Rightarrow> cstr" where
  "bytes_cstr bs = map char_of_byte (takeWhile (\<lambda>b. b \<noteq> 0) bs)"

definition cstr_ok :: "cstr \<Rightarrow> bool" where
  "cstr_ok s \<longleftrightarrow> list_all (\<lambda>c. byte_of_char c \<noteq> 0) s"

definition char_between :: "char \<Rightarrow> char \<Rightarrow> char \<Rightarrow> bool" where
  "char_between lo hi c \<longleftrightarrow> (of_char lo :: nat) \<le> of_char c \<and> (of_char c :: nat) \<le> of_char hi"

definition tolower :: "char \<Rightarrow> char" where
  "tolower c = (let n = of_char c :: nat in
     if 65 \<le> n \<and> n \<le> 90 then char_of (n + 32) else c)"

definition stricmp_eq :: "cstr \<Rightarrow> cstr \<Rightarrow> bool" where
  "stricmp_eq a b \<longleftrightarrow> map tolower a = map tolower b"

lemma char_of_byte_of_char [simp]: "char_of_byte (byte_of_char c) = c"
proof -
  have "(of_char c :: nat) < 256" by (rule nat_of_char_less_256)
  then have "unat (word_of_nat (of_char c) :: byte) = of_char c"
    by (simp add: unat_of_nat)
  then show ?thesis
    by (simp add: char_of_byte_def byte_of_char_def)
qed

lemma byte_of_char_of_byte [simp]: "byte_of_char (char_of_byte b) = b"
proof -
  have "unat b < 256" using unsigned_less [of b] by simp
  then show ?thesis
    by (simp add: char_of_byte_def byte_of_char_def)
qed

lemma length_cstr_bytes [simp]: "length (cstr_bytes s) = length s"
  by (simp add: cstr_bytes_def)

lemma cstr_bytes_Nil [simp]: "cstr_bytes [] = []"
  by (simp add: cstr_bytes_def)

lemma cstr_bytes_eq_Nil [simp]: "cstr_bytes s = [] \<longleftrightarrow> s = []"
  by (simp add: cstr_bytes_def)

lemma bytes_cstr_cstr_bytes:
  assumes "cstr_ok s"
  shows "bytes_cstr (cstr_bytes s) = s"
proof -
  have "takeWhile (\<lambda>b. b \<noteq> 0) (cstr_bytes s) = cstr_bytes s"
    using assms by (simp add: cstr_ok_def cstr_bytes_def takeWhile_eq_all_conv list_all_iff)
  then have "bytes_cstr (cstr_bytes s) = map char_of_byte (cstr_bytes s)"
    by (simp only: bytes_cstr_def)
  then show ?thesis
    by (simp add: cstr_bytes_def comp_def)
qed

lemma stricmp_eq_refl [simp, intro]: "stricmp_eq a a"
  by (simp add: stricmp_eq_def)

lemma stricmp_eq_sym: "stricmp_eq a b \<Longrightarrow> stricmp_eq b a"
  by (simp add: stricmp_eq_def)

lemma stricmp_eq_trans [trans]: "stricmp_eq a b \<Longrightarrow> stricmp_eq b c \<Longrightarrow> stricmp_eq a c"
  by (simp add: stricmp_eq_def)

section \<open>Numbers as text\<close>

text \<open>The conversions \<open>%u\<close>, \<open>%d\<close> and \<open>%08lx\<close> of the C library.\<close>

fun show_nat :: "nat \<Rightarrow> cstr" where
  "show_nat n = (if n < 10 then [char_of (48 + n)] else show_nat (n div 10) @ [char_of (48 + n mod 10)])"

declare show_nat.simps [simp del]

definition show_int :: "int \<Rightarrow> cstr" where
  "show_int i = (if i < 0 then CHR ''-'' # show_nat (nat (- i)) else show_nat (nat i))"

definition hex_digit :: "nat \<Rightarrow> char" where
  "hex_digit n = (if n < 10 then char_of (48 + n) else char_of (87 + n))"

definition show_hex8 :: "dword \<Rightarrow> cstr" where
  "show_hex8 w = map (\<lambda>i. hex_digit (unat w div 16 ^ i mod 16)) [7, 6, 5, 4, 3, 2, 1, 0]"

section \<open>The first matching element\<close>

fun map_first :: "('a \<Rightarrow> bool) \<Rightarrow> ('a \<Rightarrow> 'a) \<Rightarrow> 'a list \<Rightarrow> 'a list" where
  "map_first P f [] = []"
| "map_first P f (x # xs) = (if P x then f x # xs else x # map_first P f xs)"

fun remove_first :: "('a \<Rightarrow> bool) \<Rightarrow> 'a list \<Rightarrow> 'a list" where
  "remove_first P [] = []"
| "remove_first P (x # xs) = (if P x then xs else x # remove_first P xs)"

lemma set_map_first: "y \<in> set (map_first P f xs) \<Longrightarrow> y \<in> set xs \<or> (\<exists>x \<in> set xs. P x \<and> y = f x)"
  by (induction xs) (auto split: if_splits)

lemma set_remove_first: "y \<in> set (remove_first P xs) \<Longrightarrow> y \<in> set xs"
  by (induction xs) (auto split: if_splits)

lemma sorted_wrt_map_first:
  assumes "sorted_wrt R xs" and "\<And>x y. P x \<Longrightarrow> R x y \<Longrightarrow> R c y" and "\<And>x y. P x \<Longrightarrow> R y x \<Longrightarrow> R y c"
  shows "sorted_wrt R (map_first P (\<lambda>_. c) xs)"
  using assms(1)
proof (induction xs)
  case (Cons x xs)
  then show ?case using assms(2,3) set_map_first [of _ P "\<lambda>_. c" xs] by auto blast
qed simp

lemma sorted_wrt_remove_first: "sorted_wrt R xs \<Longrightarrow> sorted_wrt R (remove_first P xs)"
  by (induction xs) (auto dest: set_remove_first)

end
