(* ===== verification/SockAddr.thy ===== *)
theory SockAddr
  imports Prelude
begin

text \<open>
  The socket address class \<open>_SockAddr\<close> of \<open>structinfo.h\<close> and the text conversions of
  \<open>InetCompat.h\<close> it calls. The class is a 28-byte buffer read as \<open>sockaddr_in\<close> or as
  \<open>sockaddr_in6\<close>; the record lists the buffer's fields by offset, so that a write through
  one view is seen through the other exactly as in memory. The address parser of Winsock
  (\<open>WSAStringToAddressA\<close>) is a parameter.
\<close>

abbreviation (input) "AF_UNSPEC \<equiv> (0 :: word16)"
abbreviation (input) "AF_INET \<equiv> (2 :: word16)"
abbreviation (input) "AF_INET6 \<equiv> (23 :: word16)"
abbreviation (input) "INADDR_ANY \<equiv> (0 :: dword)"

record sockaddr =
  sa_family :: word16 \<comment> \<open>bytes 0-1\<close>
  sin_port :: word16 \<comment> \<open>bytes 2-3, network order, both views\<close>
  sin_addr :: dword \<comment> \<open>bytes 4-7: \<open>sin_addr.s_addr\<close> or \<open>sin6_flowinfo\<close>\<close>
  sin6_addr :: bytes \<comment> \<open>bytes 8-23: \<open>sin6_addr\<close>, or \<open>sin_zero\<close> and the start of the tail\<close>
  sin6_scope :: dword \<comment> \<open>bytes 24-27\<close>

definition sa_wf :: "sockaddr \<Rightarrow> bool" where
  "sa_wf a \<longleftrightarrow> length (sin6_addr a) = 16"

definition sa_Clear :: sockaddr where
  "sa_Clear = \<lparr>sa_family = 0, sin_port = 0, sin_addr = 0, sin6_addr = replicate 16 0, sin6_scope = 0\<rparr>"

section \<open>Classification\<close>

definition IN6_IS_ADDR_V4MAPPED :: "bytes \<Rightarrow> bool" where
  "IN6_IS_ADDR_V4MAPPED b \<longleftrightarrow> take 12 b = replicate 10 0 @ [255, 255]"

definition IN6_IS_ADDR_UNSPECIFIED :: "bytes \<Rightarrow> bool" where
  "IN6_IS_ADDR_UNSPECIFIED b \<longleftrightarrow> b = replicate 16 0"

definition IN6_IS_ADDR_LOOPBACK :: "bytes \<Rightarrow> bool" where
  "IN6_IS_ADDR_LOOPBACK b \<longleftrightarrow> b = replicate 15 0 @ [1]"

definition sa_Size :: "sockaddr \<Rightarrow> int" where
  "sa_Size a = (if sa_family a = AF_INET6 then 28 else 16)"

definition sa_IsIPv4 :: "sockaddr \<Rightarrow> bool" where
  "sa_IsIPv4 a \<longleftrightarrow> sa_family a = AF_INET"

definition sa_IsIPv6 :: "sockaddr \<Rightarrow> bool" where
  "sa_IsIPv6 a \<longleftrightarrow> sa_family a = AF_INET6"

definition sa_IsIPv4Mapped :: "sockaddr \<Rightarrow> bool" where
  "sa_IsIPv4Mapped a \<longleftrightarrow> sa_IsIPv6 a \<and> IN6_IS_ADDR_V4MAPPED (sin6_addr a)"

definition sa_IsAny :: "sockaddr \<Rightarrow> bool" where
  "sa_IsAny a =
     (if sa_IsIPv6 a then IN6_IS_ADDR_UNSPECIFIED (sin6_addr a)
      else sa_IsIPv4 a \<and> sin_addr a = INADDR_ANY)"

definition sa_IsLoopback :: "sockaddr \<Rightarrow> bool" where
  "sa_IsLoopback a =
     (if sa_IsIPv6 a then IN6_IS_ADDR_LOOPBACK (sin6_addr a)
      else sa_IsIPv4 a \<and> drop_bit 24 (ntohl (sin_addr a)) = 127)"

definition sa_GetdwIP :: "sockaddr \<Rightarrow> dword" where
  "sa_GetdwIP a =
     (if sa_IsIPv4 a then sin_addr a
      else if sa_IsIPv4Mapped a then bytes_dword (drop 12 (sin6_addr a))
      else 0)"

definition sa_GetAddr6 :: "sockaddr \<Rightarrow> bytes option" where
  "sa_GetAddr6 a = (if sa_IsIPv6 a then Some (sin6_addr a) else None)"

section \<open>Updates and comparison\<close>

text \<open>\<open>Set\<close> reports failure (\<open>None\<close>) without changing the object.\<close>

definition sa_Set :: "sockaddr option \<Rightarrow> int \<Rightarrow> sockaddr option" where
  "sa_Set address addressLength =
     (case address of None \<Rightarrow> None
      | Some a \<Rightarrow>
        (let required = (if sa_family a = AF_INET6 then 28 else 16) in
         if (sa_family a \<noteq> AF_INET \<and> sa_family a \<noteq> AF_INET6) \<or> addressLength < required then None
         else if sa_family a = AF_INET6 then Some a
         else Some (sa_Clear\<lparr>sa_family := sa_family a, sin_port := sin_port a, sin_addr := sin_addr a,
                       sin6_addr := take 8 (sin6_addr a) @ replicate 8 0\<rparr>)))"

definition sa_SetIPLong :: "dword \<Rightarrow> sockaddr \<Rightarrow> sockaddr" where
  "sa_SetIPLong nIP a =
     (let a' = (if \<not> sa_IsIPv4 a then sa_Clear\<lparr>sa_family := AF_INET\<rparr> else a)
      in a'\<lparr>sin_addr := nIP\<rparr>)"

definition sa_GetPort :: "sockaddr \<Rightarrow> word16" where
  "sa_GetPort a = ntohs (sin_port a)"

definition sa_SetPort :: "word16 \<Rightarrow> sockaddr \<Rightarrow> sockaddr" where
  "sa_SetPort p a = a\<lparr>sin_port := htons p\<rparr>"

definition sa_SameAddress :: "sockaddr \<Rightarrow> sockaddr \<Rightarrow> bool" where
  "sa_SameAddress a d =
     (if sa_family a \<noteq> sa_family d then False
      else if sa_IsIPv6 a then sa_GetAddr6 a = sa_GetAddr6 d
      else sa_IsIPv4 a \<and> sa_GetdwIP a = sa_GetdwIP d)"

definition sa_eq :: "sockaddr \<Rightarrow> sockaddr \<Rightarrow> bool" where
  "sa_eq a d \<longleftrightarrow> sa_SameAddress a d \<and> sa_GetPort a = sa_GetPort d"

section \<open>Address text (InetCompat.h)\<close>

text \<open>
  \<open>conv initialised family text\<close> is \<open>WSAStringToAddressA\<close>: the address bytes or an error
  number; \<open>initialised\<close> says whether this call has started Winsock. \<open>startup\<close> is the
  result of \<open>WSAStartup\<close>.
\<close>

abbreviation (input) "WSANOTINITIALISED \<equiv> (10093 :: int)"

type_synonym addr_conv = "bool \<Rightarrow> word16 \<Rightarrow> cstr \<Rightarrow> int + bytes"

definition ProxyStringToAddressA :: "addr_conv \<Rightarrow> int \<Rightarrow> word16 \<Rightarrow> cstr \<Rightarrow> int + bytes" where
  "ProxyStringToAddressA conv startup family text =
     (case conv False family text of
        Inr b \<Rightarrow> Inr b
      | Inl e \<Rightarrow>
          if e \<noteq> WSANOTINITIALISED then Inl e
          else if startup \<noteq> 0 then Inl startup
          else conv True family text)"

definition numeric4_char :: "char \<Rightarrow> bool" where
  "numeric4_char ch \<longleftrightarrow> char_between CHR ''0'' CHR ''9'' ch \<or> ch = CHR ''.''"

definition numeric6_char :: "char \<Rightarrow> bool" where
  "numeric6_char ch \<longleftrightarrow>
     (char_between CHR ''0'' CHR ''9'' ch \<or> char_between CHR ''a'' CHR ''f'' ch \<or>
      char_between CHR ''A'' CHR ''F'' ch) \<or> ch = CHR '':'' \<or> ch = CHR ''.''"

definition ProxyIsNumericAddressTextA :: "word16 \<Rightarrow> cstr option \<Rightarrow> bool" where
  "ProxyIsNumericAddressTextA family text =
     (case text of None \<Rightarrow> False
      | Some t \<Rightarrow> t \<noteq> [] \<and>
          (if family = AF_INET then list_all numeric4_char t
           else if family = AF_INET6 then list_all numeric6_char t
           else False))"

definition ProxyInetPtonA :: "addr_conv \<Rightarrow> int \<Rightarrow> word16 \<Rightarrow> cstr option \<Rightarrow> bytes option" where
  "ProxyInetPtonA conv startup family text =
     (if \<not> ProxyIsNumericAddressTextA family text then None
      else if 64 \<le> length (the text) then None
      else case ProxyStringToAddressA conv startup family (the text) of
             Inl _ \<Rightarrow> None
           | Inr b \<Rightarrow> Some (if family = AF_INET then take 4 b else take 16 b))"

definition sa_SetIP :: "addr_conv \<Rightarrow> int \<Rightarrow> cstr option \<Rightarrow> sockaddr \<Rightarrow> bool \<times> sockaddr" where
  "sa_SetIP conv startup lpszIP a =
     (case lpszIP of None \<Rightarrow> (False, a)
      | Some _ \<Rightarrow>
        (let port = (if sa_IsIPv4 a \<or> sa_IsIPv6 a then sa_GetPort a else 0) in
         case ProxyInetPtonA conv startup AF_INET lpszIP of
           Some b \<Rightarrow> (True, sa_SetPort port (sa_Clear\<lparr>sa_family := AF_INET, sin_addr := bytes_dword b\<rparr>))
         | None \<Rightarrow>
           (case ProxyInetPtonA conv startup AF_INET6 lpszIP of
              Some b \<Rightarrow> (True, sa_SetPort port (sa_Clear\<lparr>sa_family := AF_INET6, sin6_addr := b\<rparr>))
            | None \<Rightarrow> (False, a))))"

text \<open>
  \<open>ProxyCopyAddressTextA\<close> strips the port that \<open>WSAAddressToStringA\<close> may append: the text
  between the brackets of an IPv6 socket address, or before the last colon of an IPv4 one.
  \<open>capacity\<close> is the size of the output buffer, \<open>None\<close> a null one.
\<close>

fun before_last_colon :: "cstr \<Rightarrow> cstr option" where
  "before_last_colon [] = None"
| "before_last_colon (c # cs) =
     (case before_last_colon cs of
        Some p \<Rightarrow> Some (c # p)
      | None \<Rightarrow> if c = CHR '':'' then Some [] else None)"

definition ProxyCopyAddressTextA :: "word16 \<Rightarrow> cstr \<Rightarrow> nat option \<Rightarrow> cstr option" where
  "ProxyCopyAddressTextA family socketText capacity =
     (let part =
        (if family = AF_INET6 \<and> take 1 socketText = ''['' then
           (if CHR '']'' \<in> set socketText then Some (takeWhile (\<lambda>c. c \<noteq> CHR '']'') (tl socketText))
            else None)
         else if family = AF_INET then
           (case before_last_colon socketText of Some p \<Rightarrow> Some p | None \<Rightarrow> Some socketText)
         else Some socketText)
      in case (part, capacity) of
           (None, _) \<Rightarrow> None
         | (Some p, None) \<Rightarrow> None
         | (Some p, Some n) \<Rightarrow> if n \<le> length p then None else Some p)"

section \<open>Facts\<close>

lemma sa_wf_Clear [simp]: "sa_wf sa_Clear"
  by (simp add: sa_wf_def sa_Clear_def)

lemma sa_Clear_fields [sockaddr_simps, simp]:
  "sa_family sa_Clear = 0" "sin_port sa_Clear = 0" "sin_addr sa_Clear = 0"
  "sin6_addr sa_Clear = replicate 16 0" "sin6_scope sa_Clear = 0"
  by (simp_all add: sa_Clear_def)

lemma sa_GetPort_SetPort [sockaddr_simps, simp]: "sa_GetPort (sa_SetPort p a) = p"
  by (simp add: sa_GetPort_def sa_SetPort_def)

lemma sa_SetPort_fields [sockaddr_simps, simp]:
  "sa_family (sa_SetPort p a) = sa_family a" "sin_addr (sa_SetPort p a) = sin_addr a"
  "sin6_addr (sa_SetPort p a) = sin6_addr a" "sin6_scope (sa_SetPort p a) = sin6_scope a"
  "sin_port (sa_SetPort p a) = htons p"
  by (simp_all add: sa_SetPort_def)

lemmas sa_class_defs = sa_IsIPv4_def sa_IsIPv6_def sa_IsIPv4Mapped_def sa_IsAny_def
  sa_IsLoopback_def sa_GetdwIP_def sa_GetAddr6_def IN6_IS_ADDR_V4MAPPED_def
  IN6_IS_ADDR_UNSPECIFIED_def IN6_IS_ADDR_LOOPBACK_def

lemma sa_class_SetPort [sockaddr_simps, simp]:
  "sa_IsIPv4 (sa_SetPort p a) = sa_IsIPv4 a" "sa_IsIPv6 (sa_SetPort p a) = sa_IsIPv6 a"
  "sa_IsAny (sa_SetPort p a) = sa_IsAny a" "sa_IsLoopback (sa_SetPort p a) = sa_IsLoopback a"
  "sa_GetdwIP (sa_SetPort p a) = sa_GetdwIP a" "sa_GetAddr6 (sa_SetPort p a) = sa_GetAddr6 a"
  by (simp_all add: sa_class_defs)

lemma sa_SameAddress_SetPort [sockaddr_simps, simp]:
  "sa_SameAddress (sa_SetPort p a) d = sa_SameAddress a d"
  "sa_SameAddress d (sa_SetPort p a) = sa_SameAddress d a"
  by (simp_all add: sa_SameAddress_def)

lemma sa_eq_sym: "sa_eq a b \<Longrightarrow> sa_eq b a"
  by (auto simp: sa_eq_def sa_SameAddress_def sa_IsIPv6_def sa_IsIPv4_def split: if_splits)

lemma sa_eq_trans: "sa_eq a b \<Longrightarrow> sa_eq b c \<Longrightarrow> sa_eq a c"
  by (auto simp: sa_eq_def sa_SameAddress_def sa_IsIPv6_def sa_IsIPv4_def split: if_splits)

lemma sa_eq_refl_iff: "sa_eq a a \<longleftrightarrow> sa_IsIPv4 a \<or> sa_IsIPv6 a"
  by (simp add: sa_eq_def sa_SameAddress_def sa_IsIPv6_def sa_IsIPv4_def)

lemma sa_Set_eq: "sa_Set (Some a) n = Some a' \<Longrightarrow> sa_eq a' a"
  by (auto simp: sa_Set_def Let_def sa_eq_def sa_SameAddress_def sa_GetPort_def sa_class_defs
      split: if_splits)

lemma sa_Set_wf: "sa_wf a \<Longrightarrow> sa_Set (Some a) n = Some a' \<Longrightarrow> sa_wf a'"
  by (auto simp: sa_Set_def Let_def sa_wf_def split: if_splits)

lemma sa_SetIP_port:
  "sa_IsIPv4 a \<or> sa_IsIPv6 a \<Longrightarrow> sa_GetPort (snd (sa_SetIP conv st ip a)) = sa_GetPort a"
  by (auto simp: sa_SetIP_def Let_def split: option.splits)

lemma before_last_colon_Some_iff:
  "(\<exists>p. before_last_colon cs = Some p) \<longleftrightarrow> CHR '':'' \<in> set cs"
  by (induction cs) (auto split: option.splits)

lemma before_last_colon_append:
  "before_last_colon cs = Some p \<Longrightarrow> \<exists>r. cs = p @ CHR '':'' # r \<and> CHR '':'' \<notin> set r"
proof (induction cs arbitrary: p)
  case (Cons c cs)
  show ?case
  proof (cases "before_last_colon cs")
    case None
    then have "CHR '':'' \<notin> set cs"
      using before_last_colon_Some_iff [of cs] by auto
    with Cons.prems None show ?thesis by (auto split: if_splits)
  next
    case (Some q)
    with Cons show ?thesis by fastforce
  qed
qed simp

end
