(* ===== verification/Structs.thy ===== *)
theory Structs
  imports SockAddr
begin

text \<open>
  The shared records of \<open>structinfo.h\<close>: the bounded string template, the proxy profile
  \<open>ProxyInfo\<close> with \<open>GetProxyType\<close>, the settings \<open>ProxySettingsInfo\<close> and the registered
  client \<open>PRCClient\<close> with its effective destination. \<open>char\<close> arrays are kept as the
  string before their terminator; their capacities are in the well-formedness predicates.
\<close>

section \<open>Proxy profile\<close>

text \<open>
  \<open>string<N>::operator=\<close> copies characters while there is room for the terminator and the
  source has not ended; \<open>lpsz\<close> is a terminated wide string, so its characters are read
  up to the first NUL and each is narrowed to its low byte.
\<close>

fun bounded_copy :: "nat \<Rightarrow> 16 word list \<Rightarrow> bytes" where
  "bounded_copy 0 _ = []"
| "bounded_copy (Suc k) [] = []"
| "bounded_copy (Suc k) (c # cs) = (if c = 0 then [] else ucast c # bounded_copy k cs)"

definition string_assign :: "nat \<Rightarrow> 16 word list \<Rightarrow> cstr" where
  "string_assign N lpsz = bytes_cstr (bounded_copy (N - 1) lpsz)"

record ProxyInfo =
  szItemName :: cstr
  strProxyType :: cstr
  strProxyHost :: cstr
  nProxyPort :: int
  strProxyUser :: cstr
  strProxyPass :: cstr
  pi_reserved :: dword \<comment> \<open>\<open>PROXY_TRANSPORT_*\<close>\<close>
  strTransportPsk :: cstr

definition ProxyInfo_wf :: "ProxyInfo \<Rightarrow> bool" where
  "ProxyInfo_wf p \<longleftrightarrow> length (szItemName p) < 128 \<and> length (strProxyType p) < 32 \<and>
     length (strProxyHost p) < 128 \<and> length (strProxyUser p) < 128 \<and>
     length (strProxyPass p) < 128 \<and> length (strTransportPsk p) < 256"

abbreviation (input) "PROXY_TRANSPORT_PLAIN \<equiv> (0 :: dword)"
abbreviation (input) "PROXY_TRANSPORT_GONC_TLS_PSK \<equiv> (1 :: dword)"

datatype proxytype = PROXYTYPE_NOPROXY | PROXYTYPE_SOCKS4 | PROXYTYPE_SOCKS4A
  | PROXYTYPE_SOCKS5 | PROXYTYPE_HTTP10 | PROXYTYPE_HTTP11

definition proxytype_of_name :: "cstr \<Rightarrow> proxytype" where
  "proxytype_of_name t =
     (if stricmp_eq t ''SOCKS4'' then PROXYTYPE_SOCKS4
      else if stricmp_eq t ''SOCKS4A'' then PROXYTYPE_SOCKS4A
      else if stricmp_eq t ''SOCKS5'' then PROXYTYPE_SOCKS5
      else if stricmp_eq t ''HTTP10'' then PROXYTYPE_HTTP10
      else if stricmp_eq t ''HTTP'' \<or> stricmp_eq t ''HTTP11'' then PROXYTYPE_HTTP11
      else PROXYTYPE_NOPROXY)"

definition GetProxyType :: "ProxyInfo \<Rightarrow> proxytype" where
  "GetProxyType p = proxytype_of_name (strProxyType p)"

section \<open>Settings and registered clients\<close>

record ProxySettingsInfo =
  bHookTCP :: bool
  bHookUDP :: bool
  nDNSOption :: int
  bHookCreateProcess :: bool
  bHookLanIP :: bool
  bDisableLLMNR :: bool
  bDisableMDNS :: bool
  bBlockUDP :: bool
  bBlockIPv6 :: bool
  bRedirectPrivateDNS :: bool
  redirectDNSAddr :: sockaddr

abbreviation (input) "PSI_DNSOPT_LOCAL \<equiv> (0 :: int)"
abbreviation (input) "PSI_DNSOPT_REMOTE \<equiv> (1 :: int)"

abbreviation (input) "PRC_CLIENT_FLAG_DNS_REDIRECT \<equiv> (1 :: dword)"
abbreviation (input) "UAF_SET_ADDR \<equiv> (1 :: dword)"
abbreviation (input) "UAF_SET_PORT \<equiv> (2 :: dword)"

record PRCClient =
  dwPid :: dword
  dwTid :: dword
  processCreateTime :: qword
  socketGeneration :: qword
  sType :: int
  c_s :: qword
  sAccept :: qword
  szDomainName :: cstr
  srcAddr :: sockaddr
  dstAddr :: sockaddr
  proxyDstAddr :: sockaddr
  routingFlags :: dword
  uaFlag :: dword
  udpAddr :: sockaddr
  c_reserved :: dword

definition PRCClient_wf :: "PRCClient \<Rightarrow> bool" where
  "PRCClient_wf c \<longleftrightarrow> length (szDomainName c) < 256 \<and> sa_wf (srcAddr c) \<and> sa_wf (dstAddr c) \<and>
     sa_wf (proxyDstAddr c) \<and> sa_wf (udpAddr c)"

definition IsDNValid :: "PRCClient \<Rightarrow> bool" where
  "IsDNValid c \<longleftrightarrow> szDomainName c \<noteq> []"

definition HasProxyDestination :: "PRCClient \<Rightarrow> bool" where
  "HasProxyDestination c \<longleftrightarrow> routingFlags c AND PRC_CLIENT_FLAG_DNS_REDIRECT \<noteq> 0"

definition GetProxyDestination :: "PRCClient \<Rightarrow> sockaddr" where
  "GetProxyDestination c = (if HasProxyDestination c then proxyDstAddr c else dstAddr c)"

definition ProxyInfo_zero :: ProxyInfo where
  "ProxyInfo_zero = \<lparr>szItemName = [], strProxyType = [], strProxyHost = [], nProxyPort = 0, strProxyUser = [],
     strProxyPass = [], pi_reserved = 0, strTransportPsk = []\<rparr>"

definition PRCClient_zero :: PRCClient where
  "PRCClient_zero = \<lparr>dwPid = 0, dwTid = 0, processCreateTime = 0, socketGeneration = 0, sType = 0,
     c_s = 0, sAccept = 0, szDomainName = [], srcAddr = sa_Clear, dstAddr = sa_Clear,
     proxyDstAddr = sa_Clear, routingFlags = 0, uaFlag = 0, udpAddr = sa_Clear, c_reserved = 0\<rparr>"

section \<open>Facts\<close>

lemma length_bounded_copy: "length (bounded_copy k cs) \<le> k"
  by (induction k cs rule: bounded_copy.induct) auto

lemma length_bytes_cstr: "length (bytes_cstr bs) \<le> length bs"
  by (simp add: bytes_cstr_def length_takeWhile_le)

lemma string_assign_fits: "0 < N \<Longrightarrow> length (string_assign N lpsz) < N"
  unfolding string_assign_def
  by (rule le_less_trans [OF length_bytes_cstr])
    (use length_bounded_copy [of "N - 1" lpsz] in linarith)

lemma bounded_copy_terminated:
  "length cs \<le> k \<Longrightarrow> \<forall>c \<in> set cs. c \<noteq> 0 \<Longrightarrow> bounded_copy k (cs @ [0]) = map ucast cs"
proof (induction cs arbitrary: k)
  case Nil
  then show ?case by (cases k) simp_all
next
  case (Cons c cs)
  then show ?case by (cases k) simp_all
qed

lemma proxytype_of_name_cong: "stricmp_eq a b \<Longrightarrow> proxytype_of_name a = proxytype_of_name b"
  by (simp add: proxytype_of_name_def stricmp_eq_def)

lemma GetProxyDestination_simps [simp]:
  "HasProxyDestination c \<Longrightarrow> GetProxyDestination c = proxyDstAddr c"
  "\<not> HasProxyDestination c \<Longrightarrow> GetProxyDestination c = dstAddr c"
  by (simp_all add: GetProxyDestination_def)

end
