(* ===== verification/Policies.thy ===== *)
theory Policies
  imports Structs
begin

text \<open>
  The pure decision headers of \<open>ProxyLaneHook\<close>: UDP payload limits
  (\<open>UdpPayloadPolicy.h\<close>), DNS name, query, address-family and redirection policies
  (\<open>DnsNamePolicy.h\<close>, \<open>DnsQueryPolicy.h\<close>, \<open>DnsAddressFamilyPolicy.h\<close>,
  \<open>DnsRedirectPolicy.h\<close>), the IPv6 block (\<open>Ipv6BlockPolicy.h\<close>), the transport policy
  (\<open>ProxyTransportPolicy.h\<close>) and the direct IPv6 route check (\<open>DirectIpv6Route.h\<close>). A null
  pointer argument is \<open>None\<close>.
\<close>

section \<open>UdpPayloadPolicy.h\<close>

definition MAX_IPV4_UDP_PAYLOAD :: nat where
  [policy_defs]: "MAX_IPV4_UDP_PAYLOAD = 65507"

definition SOCKS5_IPV4_HEADER_SIZE :: nat where
  [policy_defs]: "SOCKS5_IPV4_HEADER_SIZE = 10"

definition SOCKS5_IPV6_HEADER_SIZE :: nat where
  [policy_defs]: "SOCKS5_IPV6_HEADER_SIZE = 22"

definition Socks5HeaderSize :: "cstr option \<Rightarrow> nat" where
  [policy_defs]: "Socks5HeaderSize domain =
     (case domain of None \<Rightarrow> SOCKS5_IPV4_HEADER_SIZE
      | Some d \<Rightarrow> if d = [] then SOCKS5_IPV4_HEADER_SIZE
                  else if 255 < length d then MAX_IPV4_UDP_PAYLOAD + 1
                  else 7 + length d)"

definition MaxPayload :: "bool \<Rightarrow> cstr option \<Rightarrow> bool \<Rightarrow> nat" where
  [policy_defs]: "MaxPayload usesSocks5 domain isIPv6 =
     (if \<not> usesSocks5 then MAX_IPV4_UDP_PAYLOAD
      else let headerSize = (if isIPv6 then SOCKS5_IPV6_HEADER_SIZE else Socks5HeaderSize domain)
           in if headerSize \<le> MAX_IPV4_UDP_PAYLOAD then MAX_IPV4_UDP_PAYLOAD - headerSize else 0)"

definition IsAllowed :: "nat \<Rightarrow> bool \<Rightarrow> cstr option \<Rightarrow> bool \<Rightarrow> bool" where
  [policy_defs]: "IsAllowed payloadLength usesSocks5 domain isIPv6 \<longleftrightarrow>
     payloadLength \<le> MaxPayload usesSocks5 domain isIPv6"

section \<open>DNS policies\<close>

datatype dns_decision = KEEP_REQUESTED_FAMILY | FORCE_IPV4 | REJECT_IPV6

definition Decide :: "word16 \<Rightarrow> bool \<Rightarrow> dns_decision" where
  [policy_defs]: "Decide requestedFamily blockIPv6 =
     (if requestedFamily = AF_UNSPEC then FORCE_IPV4
      else if requestedFamily = AF_INET6 \<and> blockIPv6 then REJECT_IPV6
      else KEEP_REQUESTED_FAMILY)"

definition EqualsDnsName :: "cstr option \<Rightarrow> cstr option \<Rightarrow> bool" where
  [policy_defs]: "EqualsDnsName left right =
     (case (left, right) of
        (Some l, Some r) \<Rightarrow> l \<noteq> [] \<and> r \<noteq> [] \<and> stricmp_eq l r
      | _ \<Rightarrow> False)"

definition IsLocalhost :: "cstr option \<Rightarrow> bool" where
  [policy_defs]: "IsLocalhost name = EqualsDnsName name (Some ''localhost'')"

definition IsPassiveLookup :: "dword option \<Rightarrow> bool" where
  [policy_defs]: "IsPassiveLookup hints = (case hints of None \<Rightarrow> False | Some ai_flags \<Rightarrow> ai_flags AND 1 \<noteq> 0)"

definition IsPrivateDnsAddress :: "sockaddr \<Rightarrow> bool" where
  "IsPrivateDnsAddress a =
     (if sa_IsIPv4 a \<or> sa_IsIPv4Mapped a then
        (let b = dword_bytes (sa_GetdwIP a) in
         b ! 0 = 10 \<or> (b ! 0 = 172 \<and> 16 \<le> b ! 1 \<and> b ! 1 \<le> 31) \<or>
         (b ! 0 = 192 \<and> b ! 1 = 168) \<or> (b ! 0 = 169 \<and> b ! 1 = 254))
      else case sa_GetAddr6 a of
             Some b \<Rightarrow> b ! 0 AND 254 = 252 \<or> (b ! 0 = 254 \<and> b ! 1 AND 192 = 128)
           | None \<Rightarrow> False)"

definition IsValidPublicResolver :: "sockaddr \<Rightarrow> bool" where
  "IsValidPublicResolver a =
     (if sa_IsAny a \<or> sa_IsLoopback a \<or> sa_IsIPv4Mapped a \<or> IsPrivateDnsAddress a then False
      else if sa_IsIPv4 a \<or> sa_IsIPv4Mapped a then dword_bytes (sa_GetdwIP a) ! 0 < 224
      else case sa_GetAddr6 a of Some b \<Rightarrow> b ! 0 \<noteq> 255 | None \<Rightarrow> False)"

definition ShouldRedirect :: "PRCClient \<Rightarrow> ProxySettingsInfo \<Rightarrow> ProxyInfo \<Rightarrow> bool" where
  "ShouldRedirect client settings proxy \<longleftrightarrow>
     nDNSOption settings = PSI_DNSOPT_REMOTE \<and>
     bRedirectPrivateDNS settings \<and>
     GetProxyType proxy \<noteq> PROXYTYPE_NOPROXY \<and>
     sa_GetPort (dstAddr client) = 53 \<and>
     szDomainName client = [] \<and>
     IsPrivateDnsAddress (dstAddr client) \<and>
     IsValidPublicResolver (redirectDNSAddr settings)"

definition DnsRedirect_Apply ::
    "PRCClient \<Rightarrow> ProxySettingsInfo \<Rightarrow> ProxyInfo \<Rightarrow> bool \<times> PRCClient" where
  "DnsRedirect_Apply client settings proxy =
     (let c = client\<lparr>routingFlags := routingFlags client AND NOT PRC_CLIENT_FLAG_DNS_REDIRECT,
                     proxyDstAddr := sa_Clear\<rparr> in
      if \<not> ShouldRedirect c settings proxy then (False, c)
      else (True, c\<lparr>proxyDstAddr := sa_SetPort 53 (redirectDNSAddr settings),
                    routingFlags := routingFlags c OR PRC_CLIENT_FLAG_DNS_REDIRECT\<rparr>))"

section \<open>IPv6 block and transport policies\<close>

definition Ipv6_ShouldBlock :: "sockaddr \<Rightarrow> bool" where
  "Ipv6_ShouldBlock destination =
     (case sa_GetAddr6 destination of
        None \<Rightarrow> False
      | Some b \<Rightarrow> \<not> IN6_IS_ADDR_LOOPBACK b \<and> \<not> IN6_IS_ADDR_V4MAPPED b)"

definition UseDirectConnection :: "ProxyInfo \<Rightarrow> ProxyInfo" where
  "UseDirectConnection info =
     info\<lparr>strProxyType := [], pi_reserved := PROXY_TRANSPORT_PLAIN, strTransportPsk := []\<rparr>"

definition UsesGoncTlsPsk :: "ProxyInfo option \<Rightarrow> bool" where
  "UsesGoncTlsPsk info =
     (case info of None \<Rightarrow> False
      | Some i \<Rightarrow> GetProxyType i \<noteq> PROXYTYPE_NOPROXY \<and> pi_reserved i = PROXY_TRANSPORT_GONC_TLS_PSK)"

definition SupportsGoncTlsPsk :: "proxytype \<Rightarrow> bool" where
  "SupportsGoncTlsPsk t \<longleftrightarrow> t = PROXYTYPE_SOCKS5 \<or> t = PROXYTYPE_HTTP10 \<or> t = PROXYTYPE_HTTP11"

definition SupportsUdpProxy :: "proxytype \<Rightarrow> bool" where
  "SupportsUdpProxy t \<longleftrightarrow> t = PROXYTYPE_NOPROXY \<or> t = PROXYTYPE_SOCKS5"

text \<open>
  \<open>query\<close> is the route query of \<open>DirectIpv6Route.cpp\<close> (\<open>GetBestRoute2\<close>), a null
  function pointer being \<open>None\<close>; \<open>ERROR_NETWORK_UNREACHABLE\<close> is 1231.
\<close>

definition IN6_IS_ADDR_MULTICAST :: "bytes \<Rightarrow> bool" where
  "IN6_IS_ADDR_MULTICAST b \<longleftrightarrow> b ! 0 = 255"

definition IN6_IS_ADDR_LINKLOCAL :: "bytes \<Rightarrow> bool" where
  "IN6_IS_ADDR_LINKLOCAL b \<longleftrightarrow> b ! 0 = 254 \<and> b ! 1 AND 192 = 128"

definition NeedsQuery :: "PRCClient \<Rightarrow> bool" where
  "NeedsQuery client =
     (if sType client \<noteq> 1 \<or> (szDomainName client \<noteq> [] \<and> \<not> HasProxyDestination client) then False
      else let d = GetProxyDestination client in
        if \<not> sa_IsIPv6 d \<or> sa_IsIPv4Mapped d \<or> sa_IsLoopback d \<or> sa_IsAny d then False
        else \<not> IN6_IS_ADDR_MULTICAST (sin6_addr d) \<and>
             (\<not> IN6_IS_ADDR_LINKLOCAL (sin6_addr d) \<or> sin6_scope d \<noteq> 0))"

definition Route_ShouldReject :: "PRCClient \<Rightarrow> ProxyInfo \<Rightarrow> (sockaddr \<Rightarrow> dword) option \<Rightarrow> bool" where
  "Route_ShouldReject client route query \<longleftrightarrow>
     GetProxyType route = PROXYTYPE_NOPROXY \<and> NeedsQuery client \<and>
     (case query of None \<Rightarrow> False | Some q \<Rightarrow> q (GetProxyDestination client) = 1231)"

section \<open>Properties\<close>

lemma flag_cleared: "(w AND - 2) AND 1 = (0 :: dword)"
  by (simp add: and.assoc)

lemma flag_set: "(w OR 1) AND 1 = (1 :: dword)"
  by (rule bit_word_eqI) (auto simp: bit_simps)

lemma HasProxyDestination_Apply:
  "HasProxyDestination (snd (DnsRedirect_Apply c st p)) \<longleftrightarrow> fst (DnsRedirect_Apply c st p)"
  by (simp add: DnsRedirect_Apply_def Let_def HasProxyDestination_def flag_cleared flag_set)

lemma IsPrivateDnsAddress_SetPort [simp]:
  "IsPrivateDnsAddress (sa_SetPort p a) = IsPrivateDnsAddress a"
  by (simp add: IsPrivateDnsAddress_def sa_IsIPv4Mapped_def)

lemma IsValidPublicResolver_SetPort [simp]:
  "IsValidPublicResolver (sa_SetPort p a) = IsValidPublicResolver a"
  by (simp add: IsValidPublicResolver_def sa_IsIPv4Mapped_def)

lemma IsValidPublicResolver_not_private:
  "IsValidPublicResolver a \<Longrightarrow> \<not> IsPrivateDnsAddress a \<and> \<not> sa_IsLoopback a \<and> \<not> sa_IsAny a"
  by (simp add: IsValidPublicResolver_def split: if_splits)

lemma proxytype_of_name_Nil [simp]: "proxytype_of_name [] = PROXYTYPE_NOPROXY"
  by (simp add: proxytype_of_name_def stricmp_eq_def)

text \<open>
  C22. Redirecting private DNS (\<open>DnsRedirectPolicy::Apply\<close>), whatever the client held
  before: the application's own destination, socket and domain are untouched; when the call
  reports a redirect, the effective destination is the configured resolver on port 53 and
  is neither private, loopback nor unspecified, and the original destination was a private
  address on port 53 reached through a real proxy; when it reports none, the effective
  destination is the original one, so no stale redirect survives.
\<close>

theorem dns_redirect_effective_destination:
  assumes "DnsRedirect_Apply client settings proxy = (redirected, c)"
  shows "dstAddr c = dstAddr client \<and> srcAddr c = srcAddr client \<and> szDomainName c = szDomainName client \<and>
    (redirected \<longrightarrow>
       GetProxyDestination c = sa_SetPort 53 (redirectDNSAddr settings) \<and>
       sa_GetPort (GetProxyDestination c) = 53 \<and>
       \<not> IsPrivateDnsAddress (GetProxyDestination c) \<and>
       \<not> sa_IsLoopback (GetProxyDestination c) \<and> \<not> sa_IsAny (GetProxyDestination c) \<and>
       IsPrivateDnsAddress (dstAddr client) \<and> sa_GetPort (dstAddr client) = 53 \<and>
       GetProxyType proxy \<noteq> PROXYTYPE_NOPROXY) \<and>
    (\<not> redirected \<longrightarrow> GetProxyDestination c = dstAddr client)"
proof -
  have has: "HasProxyDestination c \<longleftrightarrow> redirected"
    using HasProxyDestination_Apply [of client settings proxy] assms by simp
  show ?thesis
  proof (cases redirected)
    case True
    with assms have "IsValidPublicResolver (redirectDNSAddr settings)"
      by (auto simp: DnsRedirect_Apply_def Let_def ShouldRedirect_def split: if_splits)
    from IsValidPublicResolver_not_private [OF this] has True assms show ?thesis
      by (auto simp: DnsRedirect_Apply_def Let_def ShouldRedirect_def split: if_splits)
  next
    case False
    with has assms show ?thesis
      by (auto simp: DnsRedirect_Apply_def Let_def split: if_splits)
  qed
qed

definition example_sa4 :: "dword \<Rightarrow> word16 \<Rightarrow> sockaddr" where
  "example_sa4 ip port = sa_SetPort port (sa_Clear\<lparr>sa_family := AF_INET, sin_addr := ip\<rparr>)"

definition example_settings :: ProxySettingsInfo where
  "example_settings = \<lparr>bHookTCP = True, bHookUDP = True, nDNSOption = PSI_DNSOPT_REMOTE,
     bHookCreateProcess = True, bHookLanIP = False, bDisableLLMNR = True, bDisableMDNS = True,
     bBlockUDP = False, bBlockIPv6 = False, bRedirectPrivateDNS = True,
     redirectDNSAddr = example_sa4 0x08080808 0\<rparr>"

definition example_proxy :: ProxyInfo where
  "example_proxy = \<lparr>szItemName = ''Test'', strProxyType = ''SOCKS5'', strProxyHost = ''10.0.0.1'',
     nProxyPort = 1080, strProxyUser = ''u'', strProxyPass = ''p'',
     pi_reserved = PROXY_TRANSPORT_PLAIN, strTransportPsk = []\<rparr>"

lemma example_redirects:
  "fst (DnsRedirect_Apply (PRCClient_zero\<lparr>dstAddr := example_sa4 0x0101A8C0 53\<rparr>)
     example_settings example_proxy)"
  by code_simp

theorem dns_redirect_effective_destination_witness:
  "\<exists>c. DnsRedirect_Apply (PRCClient_zero\<lparr>dstAddr := example_sa4 0x0101A8C0 53\<rparr>)
     example_settings example_proxy = (True, c) \<and> sa_GetPort (GetProxyDestination c) = 53"
proof -
  obtain c where c: "DnsRedirect_Apply (PRCClient_zero\<lparr>dstAddr := example_sa4 0x0101A8C0 53\<rparr>)
     example_settings example_proxy = (True, c)"
    using example_redirects by (metis (full_types) eq_fst_iff)
  from dns_redirect_effective_destination [OF c] c show ?thesis by blast
qed

text \<open>
  The direct-connection normalisation (\<open>UseDirectConnection\<close>) always yields a profile that
  connects without a proxy, never asks for the TLS-PSK transport and carries no key.
\<close>

lemma UseDirectConnection_type [simp]:
  "GetProxyType (UseDirectConnection p) = PROXYTYPE_NOPROXY"
  "\<not> UsesGoncTlsPsk (Some (UseDirectConnection p))"
  by (simp_all add: UseDirectConnection_def GetProxyType_def UsesGoncTlsPsk_def)

end
