(* ===== verification/Socks5UdpCodec.thy ===== *)
theory Socks5UdpCodec
  imports Policies
begin

text \<open>
  \<open>Socks5UdpCodec.cpp\<close>: the SOCKS5 UDP request header in front of every datagram that goes
  through a SOCKS5 association. An encoder returns the bytes written to the output buffer,
  \<open>None\<close> standing for \<open>SOCKET_ERROR\<close>; \<open>output\<close> says whether the output pointer is non-null
  and \<open>outputCapacity\<close> is the room behind it. A payload pointer is its readable bytes.
  \<open>Decode\<close> reads a packet of exactly \<open>packetLength\<close> bytes.
\<close>

abbreviation (input) "MAX_HEADER_SIZE \<equiv> (262 :: int)"

section \<open>Encoders\<close>

definition encode_guard :: "bool \<Rightarrow> bool \<Rightarrow> bytes option \<Rightarrow> int \<Rightarrow> bool" where
  "encode_guard output destination payload payloadLength \<longleftrightarrow>
     \<not> output \<or> \<not> destination \<or> payloadLength < 0 \<or> (payloadLength \<noteq> 0 \<and> payload = None)"

definition payload_copy :: "bytes option \<Rightarrow> int \<Rightarrow> bytes" where
  "payload_copy payload payloadLength =
     (case payload of None \<Rightarrow> [] | Some p \<Rightarrow> take (nat payloadLength) p)"

definition EncodeIPv4 ::
    "bool \<Rightarrow> int \<Rightarrow> sockaddr option \<Rightarrow> bytes option \<Rightarrow> int \<Rightarrow> bytes option" where
  "EncodeIPv4 output outputCapacity destination payload payloadLength =
     (if encode_guard output (destination \<noteq> None) payload payloadLength \<or>
         outputCapacity < 10 + payloadLength then None
      else Some ([0, 0, 0, 1] @ dword_bytes (sin_addr (the destination)) @
             word16_bytes (sin_port (the destination)) @ payload_copy payload payloadLength))"

definition EncodeIPv6 ::
    "bool \<Rightarrow> int \<Rightarrow> sockaddr option \<Rightarrow> bytes option \<Rightarrow> int \<Rightarrow> bytes option" where
  "EncodeIPv6 output outputCapacity destination payload payloadLength =
     (if encode_guard output (destination \<noteq> None) payload payloadLength \<or>
         outputCapacity < 22 + payloadLength then None
      else Some ([0, 0, 0, 4] @ sin6_addr (the destination) @
             word16_bytes (sin_port (the destination)) @ payload_copy payload payloadLength))"

definition EncodeDomain ::
    "bool \<Rightarrow> int \<Rightarrow> cstr option \<Rightarrow> word16 \<Rightarrow> bytes option \<Rightarrow> int \<Rightarrow> bytes option" where
  "EncodeDomain output outputCapacity domain port payload payloadLength =
     (if encode_guard output (domain \<noteq> None) payload payloadLength then None
      else let d = the domain in
        if d = [] \<or> 255 < length d then None
        else if outputCapacity < 7 + int (length d) + payloadLength then None
        else Some ([0, 0, 0, 3, word_of_nat (length d)] @ cstr_bytes d @
               word16_bytes (htons port) @ payload_copy payload payloadLength))"

section \<open>Decoder\<close>

record DecodedPacket =
  dp_source :: sockaddr
  dp_source6 :: sockaddr
  dp_sourceLength :: int
  dp_domain :: cstr
  dp_payload :: bytes

definition DecodedPacket_Clear :: DecodedPacket where
  "DecodedPacket_Clear = \<lparr>dp_source = sa_Clear, dp_source6 = sa_Clear, dp_sourceLength = 0,
     dp_domain = [], dp_payload = []\<rparr>"

definition HasDomain :: "DecodedPacket \<Rightarrow> bool" where
  "HasDomain d \<longleftrightarrow> dp_domain d \<noteq> []"

definition Decode :: "bytes option \<Rightarrow> DecodedPacket option" where
  "Decode packet =
     (case packet of None \<Rightarrow> None
      | Some p \<Rightarrow>
        if length p < 4 then None
        else if p ! 0 \<noteq> 0 \<or> p ! 1 \<noteq> 0 \<or> p ! 2 \<noteq> 0 then None
        else
          (let d = DecodedPacket_Clear\<lparr>dp_source := sa_Clear\<lparr>sa_family := AF_INET\<rparr>\<rparr> in
           if p ! 3 = 1 then
             (if length p < 10 then None
              else Some (d\<lparr>dp_source := (dp_source d)\<lparr>sin_addr := bytes_dword (drop 4 p),
                             sin_port := bytes_word16 (drop 8 p)\<rparr>,
                           dp_sourceLength := 16, dp_payload := drop 10 p\<rparr>))
           else if p ! 3 = 3 then
             (if length p < 7 then None
              else let domainLength = unat (p ! 4); headerLength = 7 + domainLength in
                if domainLength = 0 \<or> length p < headerLength then None
                else Some (d\<lparr>dp_domain := bytes_cstr (take domainLength (drop 5 p)),
                             dp_source := (dp_source d)\<lparr>sin_port := bytes_word16 (drop (5 + domainLength) p)\<rparr>,
                             dp_sourceLength := 16, dp_payload := drop headerLength p\<rparr>))
           else if p ! 3 = 4 then
             (if length p < 22 then None
              else Some (d\<lparr>dp_source6 := sa_Clear\<lparr>sa_family := AF_INET6, sin6_addr := take 16 (drop 4 p),
                             sin_port := bytes_word16 (drop 20 p)\<rparr>,
                           dp_sourceLength := 28, dp_payload := drop 22 p\<rparr>))
           else None))"

section \<open>Facts on the encoders\<close>

lemma payload_copy_full [simp]: "payload_copy (Some p) (int (length p)) = p"
  by (simp add: payload_copy_def)

lemma encode_guard_full [simp]: "\<not> encode_guard True True (Some p) (int (length p))"
  by (simp add: encode_guard_def)

lemma EncodeIPv4_full:
  "10 + int (length p) \<le> cap \<Longrightarrow>
   EncodeIPv4 True cap (Some d) (Some p) (int (length p)) =
     Some (0 # 0 # 0 # 1 # dword_bytes (sin_addr d) @ word16_bytes (sin_port d) @ p)"
  by (simp add: EncodeIPv4_def)

lemma EncodeIPv6_full:
  "22 + int (length p) \<le> cap \<Longrightarrow>
   EncodeIPv6 True cap (Some d) (Some p) (int (length p)) =
     Some (0 # 0 # 0 # 4 # sin6_addr d @ word16_bytes (sin_port d) @ p)"
  by (simp add: EncodeIPv6_def)

lemma EncodeDomain_full:
  "d \<noteq> [] \<Longrightarrow> length d \<le> 255 \<Longrightarrow> 7 + int (length d) + int (length p) \<le> cap \<Longrightarrow>
   EncodeDomain True cap (Some d) port (Some p) (int (length p)) =
     Some (0 # 0 # 0 # 3 # word_of_nat (length d) # cstr_bytes d @ word16_bytes (htons port) @ p)"
  by (simp add: EncodeDomain_def Let_def)

lemma bytes_word16_append: "bytes_word16 (word16_bytes w @ xs) = w"
  by (rule bytes_word16_word16_bytes)

section \<open>Properties\<close>

text \<open>
  Address round trip: a datagram encoded for an IPv4 or IPv6 destination (any payload,
  any buffer with room for the header) decodes to that address and port with the payload
  unchanged and no domain.
\<close>

theorem socks5_udp_address_roundtrip:
  assumes "10 + int (length p) \<le> cap4" and "22 + int (length p) \<le> cap6"
    and "length (sin6_addr dst) = 16"
  shows "(\<exists>pkt d. EncodeIPv4 True cap4 (Some dst) (Some p) (int (length p)) = Some pkt \<and>
       length pkt = 10 + length p \<and> Decode (Some pkt) = Some d \<and> dp_payload d = p \<and> \<not> HasDomain d \<and>
       sin_addr (dp_source d) = sin_addr dst \<and> sin_port (dp_source d) = sin_port dst \<and>
       sa_IsIPv4 (dp_source d) \<and> dp_sourceLength d = sa_Size (dp_source d)) \<and>
    (\<exists>pkt d. EncodeIPv6 True cap6 (Some dst) (Some p) (int (length p)) = Some pkt \<and>
       length pkt = 22 + length p \<and> Decode (Some pkt) = Some d \<and> dp_payload d = p \<and> \<not> HasDomain d \<and>
       sin6_addr (dp_source6 d) = sin6_addr dst \<and> sin_port (dp_source6 d) = sin_port dst \<and>
       sa_IsIPv6 (dp_source6 d) \<and> dp_sourceLength d = sa_Size (dp_source6 d))"
  using assms
  by (simp add: EncodeIPv4_full EncodeIPv6_full Decode_def Let_def DecodedPacket_Clear_def
      HasDomain_def sa_IsIPv4_def sa_IsIPv6_def sa_Size_def)

theorem socks5_udp_address_roundtrip_witness:
  "\<exists>pkt d. EncodeIPv4 True 272 (Some (example_sa4 0x0101A8C0 53)) (Some [7]) 1 = Some pkt \<and>
     Decode (Some pkt) = Some d \<and> dp_payload d = [7]"
  using socks5_udp_address_roundtrip [of "[7]" 272 272 "example_sa4 0x0101A8C0 53"]
  by (auto simp: example_sa4_def)

text \<open>
  Domain round trip: for every non-empty NUL-free domain of at most 255 bytes the
  datagram decodes to that domain, the port in network order and the payload.
\<close>

theorem socks5_udp_domain_roundtrip:
  assumes dom: "cstr_ok d" "d \<noteq> []" "length d \<le> 255"
    and cap: "7 + int (length d) + int (length p) \<le> cap"
  shows "\<exists>pkt dp. EncodeDomain True cap (Some d) port (Some p) (int (length p)) = Some pkt \<and>
    length pkt = 7 + length d + length p \<and> Decode (Some pkt) = Some dp \<and> HasDomain dp \<and>
    dp_domain dp = d \<and> sa_GetPort (dp_source dp) = port \<and> dp_payload dp = p"
proof -
  let ?pkt = "0 # 0 # 0 # 3 # word_of_nat (length d) # cstr_bytes d @ word16_bytes (htons port) @ p"
  have len: "unat (word_of_nat (length d) :: byte) = length d"
    using dom(3) by (simp add: unat_of_nat)
  have enc: "EncodeDomain True cap (Some d) port (Some p) (int (length p)) = Some ?pkt"
    using EncodeDomain_full [OF dom(2,3) cap] .
  have "drop (length d + 5) ?pkt = word16_bytes (htons port) @ p"
    and "drop (length d + 7) ?pkt = p"
    by (simp_all flip: drop_drop)
  then have drops: "drop (5 + length d) ?pkt = word16_bytes (htons port) @ p"
    "drop (7 + length d) ?pkt = p"
    by (simp_all only: add.commute)
  have "Decode (Some ?pkt) = Some (DecodedPacket_Clear\<lparr>
      dp_source := sa_Clear\<lparr>sa_family := AF_INET, sin_port := htons port\<rparr>,
      dp_sourceLength := 16, dp_domain := d, dp_payload := p\<rparr>)"
    using dom len drops by (simp add: Decode_def Let_def DecodedPacket_Clear_def bytes_cstr_cstr_bytes)
  with enc dom(2) show ?thesis
    by (simp add: HasDomain_def sa_GetPort_def)
qed

theorem socks5_udp_domain_roundtrip_witness:
  "\<exists>pkt dp. EncodeDomain True 300 (Some ''a.b'') 53 (Some [1, 2]) 2 = Some pkt \<and>
     Decode (Some pkt) = Some dp \<and> dp_domain dp = ''a.b''"
  using socks5_udp_domain_roundtrip [of "''a.b''" "[1, 2]" 300 53]
  by (auto simp: cstr_ok_def byte_of_char_def)

definition header_length :: "bytes \<Rightarrow> nat" where
  "header_length p = (if p ! 3 = 1 then 10 else if p ! 3 = 3 then 7 + unat (p ! 4) else 22)"

lemma Decode_Some_iff:
  "(\<exists>d. Decode (Some p) = Some d) \<longleftrightarrow>
     4 \<le> length p \<and> take 3 p = [0, 0, 0] \<and>
     (p ! 3 = 1 \<or> p ! 3 = 3 \<and> 7 \<le> length p \<and> p ! 4 \<noteq> 0 \<or> p ! 3 = 4) \<and> header_length p \<le> length p"
proof -
  have "unat (p ! 4) = 0 \<longleftrightarrow> p ! 4 = 0" by (simp add: unat_eq_0)
  moreover have "4 \<le> length p \<Longrightarrow>
      take 3 p = [0, 0, 0] \<longleftrightarrow> p ! 0 = 0 \<and> p ! 1 = 0 \<and> p ! 2 = 0"
    by (cases p; cases "tl p"; cases "tl (tl p)") (auto simp: numeral_eq_Suc)
  ultimately show ?thesis
    by (auto simp: Decode_def Let_def header_length_def split: if_splits)
qed

lemma Decode_payload:
  "Decode (Some p) = Some d \<Longrightarrow>
   dp_payload d = drop (header_length p) p \<and> header_length p \<le> length p"
  by (auto simp: Decode_def Let_def header_length_def split: if_splits)

text \<open>
  C28. The decoder never reads past the packet and never drops bytes: a decoded packet is
  exactly a header of 10, 22 or \<open>7 + n\<close> bytes (\<open>n\<close> the length byte, not 0) followed by the
  payload, with zero reserved and fragment bytes; every fragmented packet, unknown address
  type and truncated header is refused.
\<close>

theorem socks5_udp_decode_exact:
  "((\<exists>d. Decode (Some p) = Some d) \<longleftrightarrow>
     4 \<le> length p \<and> take 3 p = [0, 0, 0] \<and>
     (p ! 3 = 1 \<or> p ! 3 = 3 \<and> 7 \<le> length p \<and> p ! 4 \<noteq> 0 \<or> p ! 3 = 4) \<and>
     header_length p \<le> length p) \<and>
   (\<forall>d. Decode (Some p) = Some d \<longrightarrow>
     take (header_length p) p @ dp_payload d = p \<and> header_length p + length (dp_payload d) = length p)"
  using Decode_Some_iff [of p] Decode_payload [of p] by auto

theorem socks5_udp_decode_exact_witness:
  "Decode (Some [0, 0, 0, 1, 8, 8, 8, 8, 0, 53, 9]) \<noteq> None \<and>
   Decode (Some [0, 0, 1, 1, 8, 8, 8, 8, 0, 53, 9]) = None"
  using socks5_udp_decode_exact [of "[0, 0, 0, 1, 8, 8, 8, 8, 0, 53, 9]"]
    socks5_udp_decode_exact [of "[0, 0, 1, 1, 8, 8, 8, 8, 0, 53, 9]"]
  by (auto simp: header_length_def)

text \<open>
  C16. The payload policy and the codec agree: a payload the policy admits for a SOCKS5 route
  is encodable into a buffer of the payload size plus \<open>MAX_HEADER_SIZE\<close>, and the resulting
  datagram fits an IPv4 UDP datagram (65507 bytes), for IPv4, IPv6 and domain destinations.
\<close>

theorem admitted_payload_fits:
  assumes "IsAllowed (length p) True (Some d) v6" and "length (sin6_addr dst) = 16" and "length d \<le> 255"
  shows "\<exists>pkt. (if v6 then EncodeIPv6 True (int (length p) + 262) (Some dst) (Some p) (int (length p))
      else if d = [] then EncodeIPv4 True (int (length p) + 262) (Some dst) (Some p) (int (length p))
      else EncodeDomain True (int (length p) + 262) (Some d) port (Some p) (int (length p))) = Some pkt \<and>
    length pkt \<le> MAX_IPV4_UDP_PAYLOAD"
  using assms
  by (auto simp: EncodeIPv4_full EncodeIPv6_full EncodeDomain_full policy_defs Let_def split: if_splits)

theorem admitted_payload_fits_witness:
  "\<exists>pkt. EncodeDomain True 264 (Some ''a.b'') 53 (Some [1, 2]) 2 = Some pkt \<and> length pkt \<le> 65507"
  using admitted_payload_fits [of "[1, 2]" "''a.b''" False sa_Clear 53]
  by (simp add: policy_defs Let_def)

end
