(* ===== verification/UdpAssociationPolicy.thy ===== *)
theory UdpAssociationPolicy
  imports Structs
begin

text \<open>
  \<open>UdpAssociationPolicy.h\<close>: the capability circuit breaker of the UDP path, the identity of
  a UDP destination, when two destinations may share one SOCKS5 association, the dormancy test
  and the mDNS test. \<open>CanAttempt\<close> and \<open>ReportFailure\<close> return the result and the new circuit.
\<close>

datatype UpstreamState = UPSTREAM_ROUTE_RESERVED | UPSTREAM_ASSOCIATING | UPSTREAM_READY
  | UPSTREAM_RECONNECT_WAIT | UPSTREAM_DORMANT | UPSTREAM_CLOSING

datatype CapabilityState = CAPABILITY_UNKNOWN | CAPABILITY_SUPPORTED | CAPABILITY_UNSUPPORTED
  | CAPABILITY_TEMPORARILY_UNAVAILABLE

record CapabilityCircuit =
  cc_state :: CapabilityState
  consecutiveFailures :: dword
  blockedUntil :: dword
  suppressedAttempts :: dword

section \<open>The circuit\<close>

definition Circuit_Reset :: CapabilityCircuit where
  "Circuit_Reset = \<lparr>cc_state = CAPABILITY_UNKNOWN, consecutiveFailures = 0, blockedUntil = 0,
     suppressedAttempts = 0\<rparr>"

definition CanAttempt :: "dword \<Rightarrow> CapabilityCircuit \<Rightarrow> bool \<times> CapabilityCircuit" where
  "CanAttempt now c =
     (let c' = (if cc_state c = CAPABILITY_TEMPORARILY_UNAVAILABLE \<and> tick_reached now (blockedUntil c)
                then c\<lparr>cc_state := CAPABILITY_UNKNOWN, consecutiveFailures := 0, blockedUntil := 0\<rparr>
                else c)
      in (cc_state c' \<noteq> CAPABILITY_UNSUPPORTED \<and> cc_state c' \<noteq> CAPABILITY_TEMPORARILY_UNAVAILABLE, c'))"

definition ReportFailure ::
    "dword \<Rightarrow> bool \<Rightarrow> dword \<Rightarrow> dword \<Rightarrow> CapabilityCircuit \<Rightarrow> bool \<times> CapabilityCircuit" where
  "ReportFailure now permanent threshold cooldown c =
     (if permanent then (True, c\<lparr>cc_state := CAPABILITY_UNSUPPORTED, blockedUntil := 0\<rparr>)
      else if cc_state c = CAPABILITY_UNSUPPORTED then (True, c)
      else let c' = c\<lparr>consecutiveFailures := consecutiveFailures c + 1\<rparr> in
        if consecutiveFailures c' < threshold then (False, c'\<lparr>cc_state := CAPABILITY_UNKNOWN\<rparr>)
        else (True, c'\<lparr>cc_state := CAPABILITY_TEMPORARILY_UNAVAILABLE, blockedUntil := now + cooldown\<rparr>))"

definition ReportSuccess :: "CapabilityCircuit \<Rightarrow> CapabilityCircuit" where
  "ReportSuccess c = c\<lparr>cc_state := CAPABILITY_SUPPORTED, consecutiveFailures := 0, blockedUntil := 0\<rparr>"

text \<open>The default arguments: three failures, sixty seconds.\<close>

abbreviation "DEFAULT_THRESHOLD \<equiv> (3 :: dword)"
abbreviation "DEFAULT_COOLDOWN \<equiv> (60000 :: dword)"

definition ShouldActivateUpstream :: "UpstreamState \<Rightarrow> bool" where
  "ShouldActivateUpstream s \<longleftrightarrow> s = UPSTREAM_ROUTE_RESERVED \<or> s = UPSTREAM_DORMANT"

section \<open>Destinations\<close>

record Destination =
  d_hasDomain :: bool
  d_domain :: "cstr option" \<comment> \<open>\<open>None\<close> is a null pointer\<close>
  d_family :: word16
  d_ipv4 :: dword
  d_ipv6 :: bytes
  d_port :: word16

definition IsSameDestination :: "Destination \<Rightarrow> Destination \<Rightarrow> bool" where
  "IsSameDestination l r =
     (if d_hasDomain l \<noteq> d_hasDomain r \<or> d_port l \<noteq> d_port r then False
      else if d_hasDomain l then
        (case (d_domain l, d_domain r) of (Some a, Some b) \<Rightarrow> stricmp_eq a b | _ \<Rightarrow> False)
      else if d_family l \<noteq> d_family r then False
      else if d_family l = AF_INET6 then d_ipv6 l = d_ipv6 r
      else d_ipv4 l = d_ipv4 r)"

definition CanShareAssociation :: "Destination \<Rightarrow> Destination \<Rightarrow> bool" where
  "CanShareAssociation l r =
     (if IsSameDestination l r then True
      else if d_port l = d_port r \<and> (d_hasDomain l \<or> d_hasDomain r) then False
      else True)"

definition ShouldEnterDormant :: "dword \<Rightarrow> dword \<Rightarrow> dword \<Rightarrow> bool \<Rightarrow> bool" where
  "ShouldEnterDormant now lastActivity idleTimeout hasPendingWork \<longleftrightarrow>
     \<not> hasPendingWork \<and> idleTimeout \<le> tick_elapsed now lastActivity"

definition IsMdnsDestination :: "word16 \<Rightarrow> dword \<Rightarrow> bytes option \<Rightarrow> word16 \<Rightarrow> bool" where
  "IsMdnsDestination family ipv4 ipv6 port =
     (if port \<noteq> 5353 then False
      else if family = AF_INET then dword_bytes ipv4 = [224, 0, 0, 251]
      else family = AF_INET6 \<and> ipv6 = Some ([255, 2] @ replicate 13 0 @ [251]))"

section \<open>The circuit as a state machine\<close>

text \<open>
  The events the task manager feeds to the circuit, each with the clock it reads, and the
  runs of the circuit. Default threshold and cooldown are those of the header.
\<close>

datatype circuit_event = Attempt dword | Failure dword bool | Success

fun circuit_step :: "CapabilityCircuit \<Rightarrow> circuit_event \<Rightarrow> CapabilityCircuit" where
  "circuit_step c (Attempt now) = snd (CanAttempt now c)"
| "circuit_step c (Failure now permanent) =
     snd (ReportFailure now permanent DEFAULT_THRESHOLD DEFAULT_COOLDOWN c)"
| "circuit_step c Success = ReportSuccess c"

inductive circuit_reachable :: "CapabilityCircuit \<Rightarrow> bool" where
  start: "circuit_reachable Circuit_Reset"
| step: "circuit_reachable c \<Longrightarrow> circuit_reachable (circuit_step c e)"

definition circuit_inv :: "CapabilityCircuit \<Rightarrow> bool" where
  "circuit_inv c \<longleftrightarrow>
     (cc_state c = CAPABILITY_UNKNOWN \<longrightarrow> consecutiveFailures c < DEFAULT_THRESHOLD) \<and>
     (cc_state c = CAPABILITY_SUPPORTED \<longrightarrow> consecutiveFailures c = 0) \<and>
     (cc_state c = CAPABILITY_TEMPORARILY_UNAVAILABLE \<longrightarrow> DEFAULT_THRESHOLD \<le> consecutiveFailures c)"

lemma circuit_inv_step: "circuit_inv c \<Longrightarrow> circuit_inv (circuit_step c e)"
  by (cases e) (auto simp: circuit_inv_def CanAttempt_def ReportFailure_def ReportSuccess_def Let_def
      not_less split: if_splits)

lemma circuit_reachable_inv: "circuit_reachable c \<Longrightarrow> circuit_inv c"
proof (induction rule: circuit_reachable.induct)
  case start
  show ?case by (simp add: circuit_inv_def Circuit_Reset_def)
next
  case (step c e)
  then show ?case by (blast intro: circuit_inv_step)
qed

lemma cooldown_blocks:
  assumes "d < (60000 :: dword)"
  shows "\<not> tick_reached (t + d) (t + 60000)"
proof -
  have "unat d < 60000" using assms by (simp add: word_less_nat_alt)
  then have "unat (d - 60000) = unat d + 2 ^ 32 - 60000"
    by (simp add: unat_sub_if')
  then show ?thesis
    by (simp add: tick_reached_iff)
qed

text \<open>
  The circuit breaker, across the wrap of the clock: from any reachable circuit whose
  failure count is zero and that is not blocked, the first two transient failures block
  nothing and the third one blocks; every attempt in the next 60000 milliseconds is refused,
  and at 60000 milliseconds, and for the following 2^31 ones, attempts are admitted again with
  the failure count cleared.
\<close>

theorem circuit_blocks_after_three_failures:
  assumes "circuit_reachable c" and "consecutiveFailures c = 0" and "cc_state c \<noteq> CAPABILITY_UNSUPPORTED"
    and "ReportFailure t1 False DEFAULT_THRESHOLD DEFAULT_COOLDOWN c = (b1, c1)"
    and "ReportFailure t2 False DEFAULT_THRESHOLD DEFAULT_COOLDOWN c1 = (b2, c2)"
    and "ReportFailure t3 False DEFAULT_THRESHOLD DEFAULT_COOLDOWN c2 = (b3, c3)"
  shows "\<not> b1 \<and> \<not> b2 \<and> b3 \<and> fst (CanAttempt t1' c1) \<and> fst (CanAttempt t2' c2) \<and>
    (d < 60000 \<longrightarrow> CanAttempt (t3 + d) c3 = (False, c3)) \<and>
    (unat e < 2 ^ 31 \<longrightarrow> fst (CanAttempt (t3 + 60000 + e) c3) \<and>
       consecutiveFailures (snd (CanAttempt (t3 + 60000 + e) c3)) = 0)"
proof -
  have c3: "cc_state c3 = CAPABILITY_TEMPORARILY_UNAVAILABLE" "blockedUntil c3 = t3 + 60000"
    and "\<not> b1" "\<not> b2" "b3" "cc_state c1 = CAPABILITY_UNKNOWN" "cc_state c2 = CAPABILITY_UNKNOWN"
    using assms by (auto simp: ReportFailure_def Let_def split: if_splits)
  then show ?thesis
    using cooldown_blocks [of d t3]
    by (auto simp: CanAttempt_def Let_def tick_reached_iff)
qed

theorem circuit_blocks_after_three_failures_witness:
  "CanAttempt (10 + 5)
     (snd (ReportFailure 10 False 3 60000 (snd (ReportFailure 10 False 3 60000
       (snd (ReportFailure 10 False 3 60000 Circuit_Reset)))))) =
   (False, snd (ReportFailure 10 False 3 60000 (snd (ReportFailure 10 False 3 60000
       (snd (ReportFailure 10 False 3 60000 Circuit_Reset))))))"
  using circuit_blocks_after_three_failures [OF circuit_reachable.start,
      of 10 False _ 10 False _ 10 True _ 0 0 5 0]
  by (simp add: Circuit_Reset_def ReportFailure_def)

text \<open>
  A permanent verdict stays: once a failure is reported as permanent, no sequence of
  attempts and failures, transient or permanent, admits another attempt; only a reported
  success or a reset reopens the path.
\<close>

theorem unsupported_is_absorbing:
  assumes "\<forall>e \<in> set es. e \<noteq> Success"
  shows "fst (CanAttempt now (foldl circuit_step (circuit_step c (Failure t True)) es)) = False"
proof -
  have "cc_state (foldl circuit_step c' es) = CAPABILITY_UNSUPPORTED"
    if "cc_state c' = CAPABILITY_UNSUPPORTED" for c'
    using that assms
  proof (induction es arbitrary: c')
    case (Cons e es)
    have "cc_state (circuit_step c' e) = CAPABILITY_UNSUPPORTED"
      using Cons.prems by (cases e) (auto simp: CanAttempt_def ReportFailure_def)
    with Cons show ?case by simp
  qed simp
  then show ?thesis
    by (simp add: CanAttempt_def ReportFailure_def)
qed

theorem unsupported_is_absorbing_witness:
  "fst (CanAttempt 9 (foldl circuit_step (circuit_step Circuit_Reset (Failure 1 True))
     [Attempt 2, Failure 3 False])) = False"
  by (rule unsupported_is_absorbing) simp

section \<open>Destination identity\<close>

text \<open>A destination as the UDP task builds it: the domain pointer is never null.\<close>

definition dest_ok :: "Destination \<Rightarrow> bool" where
  "dest_ok d \<longleftrightarrow> d_domain d \<noteq> None"

lemma IsSameDestination_refl: "dest_ok d \<Longrightarrow> IsSameDestination d d"
  by (auto simp: IsSameDestination_def dest_ok_def)

lemma IsSameDestination_sym: "IsSameDestination a b \<Longrightarrow> IsSameDestination b a"
  by (auto simp: IsSameDestination_def stricmp_eq_def split: if_splits option.splits)

lemma IsSameDestination_trans:
  "IsSameDestination a b \<Longrightarrow> IsSameDestination b c \<Longrightarrow> IsSameDestination a c"
  by (auto simp: IsSameDestination_def stricmp_eq_def split: if_splits option.splits)

lemma CanShareAssociation_sym: "CanShareAssociation a b \<Longrightarrow> CanShareAssociation b a"
  using IsSameDestination_sym by (auto simp: CanShareAssociation_def split: if_splits)

lemma CanShareAssociation_distinct:
  assumes "CanShareAssociation a b" and "\<not> IsSameDestination a b" and "d_port a = d_port b"
  shows "\<not> d_hasDomain a \<and> \<not> d_hasDomain b \<and>
    (d_family a \<noteq> d_family b \<or>
     (if d_family a = AF_INET6 then d_ipv6 a \<noteq> d_ipv6 b else d_ipv4 a \<noteq> d_ipv4 b))"
  using assms by (auto simp: CanShareAssociation_def IsSameDestination_def split: if_splits)

end
