(* ===== verification/Monitoring.thy ===== *)
theory Monitoring
  imports Structs "HOL-Library.Sublist"
begin

text \<open>
  The bounded buffers and counters of the monitoring path: the log queue of the GUI
  (\<open>BoundedLogQueue.h\<close>), the monitor event queue (\<open>ProxyMonitor.cpp\<close>), the traffic totals
  (\<open>TrafficStatistics.h\<close>) and the timeout monitor (\<open>TimeoutMonitor.h\<close>). Every operation
  holds the object's lock for its whole body, so each one is a single step here. The locale
  \<open>bounded_fifo\<close> is the drop-oldest contract that both queues keep; its lemmas describe any
  burst of insertions.
\<close>

section \<open>The drop-oldest contract\<close>

locale bounded_fifo =
  fixes items :: "'s \<Rightarrow> 'a list"
    and capacity :: "'s \<Rightarrow> nat"
    and lost :: "'s \<Rightarrow> 'd :: semiring_1"
    and insert_item :: "'a \<Rightarrow> 's \<Rightarrow> 's"
    and ok :: "'s \<Rightarrow> bool"
  assumes capacity_pos: "ok s \<Longrightarrow> 0 < capacity s"
    and items_bounded: "ok s \<Longrightarrow> length (items s) \<le> capacity s"
    and insert_ok: "ok s \<Longrightarrow> ok (insert_item x s)"
    and insert_capacity: "ok s \<Longrightarrow> capacity (insert_item x s) = capacity s"
    and insert_items: "ok s \<Longrightarrow>
      items (insert_item x s) = drop (Suc (length (items s)) - capacity s) (items s @ [x])"
    and insert_lost: "ok s \<Longrightarrow>
      lost (insert_item x s) = lost s + of_nat (Suc (length (items s)) - capacity s)"
begin

lemma burst:
  "ok s \<Longrightarrow> ok (fold insert_item xs s) \<and> capacity (fold insert_item xs s) = capacity s \<and>
     items (fold insert_item xs s) = drop (length (items s) + length xs - capacity s) (items s @ xs) \<and>
     lost (fold insert_item xs s) = lost s + of_nat (length (items s) + length xs - capacity s)"
proof (induction xs arbitrary: s)
  case Nil
  then show ?case using items_bounded [of s] by simp
next
  case (Cons x xs)
  let ?s = "insert_item x s"
  have ok: "ok ?s" and cap: "capacity ?s = capacity s"
    using Cons.prems insert_ok insert_capacity by simp_all
  have bound: "length (items s) \<le> capacity s" "0 < capacity s"
    using Cons.prems items_bounded capacity_pos by simp_all
  have it: "items ?s = drop (Suc (length (items s)) - capacity s) (items s @ [x])"
    and lo: "lost ?s = lost s + of_nat (Suc (length (items s)) - capacity s)"
    using Cons.prems insert_items insert_lost by simp_all
  note IH = Cons.IH [OF ok]
  have "items (fold insert_item xs ?s) =
      drop (length (items s) + length (x # xs) - capacity s) (items s @ x # xs)"
  proof (cases "length (items s) < capacity s")
    case True
    with IH it cap show ?thesis by (simp add: Suc_diff_le)
  next
    case False
    with bound have full: "length (items s) = capacity s" by simp
    with bound have "items s \<noteq> []" by auto
    then obtain y ys where ys: "items s = y # ys" by (cases "items s") auto
    with full it have "items ?s = ys @ [x]" by simp
    moreover from full ys have "capacity s = Suc (length ys)" by simp
    ultimately show ?thesis using IH cap ys by simp
  qed
  moreover have "lost (fold insert_item xs ?s) =
      lost s + of_nat (length (items s) + length (x # xs) - capacity s)"
  proof (cases "length (items s) < capacity s")
    case True
    with IH it lo cap show ?thesis by (simp add: Suc_diff_le)
  next
    case False
    with bound obtain k where "length (items s) = Suc k" "capacity s = Suc k"
      by (cases "capacity s") simp_all
    with IH it lo cap show ?thesis by (simp add: add.assoc)
  qed
  ultimately show ?case using IH cap by simp
qed

lemma burst_keeps_latest:
  assumes "ok s" and "items s = []"
  shows "items (fold insert_item xs s) = drop (length xs - capacity s) xs"
  using burst [OF assms(1), of xs] assms(2) by simp

end

section \<open>CBoundedLogQueue\<close>

record 'a LogQueue =
  q_entries :: "'a list"
  q_capacity :: nat
  q_batchSize :: nat
  q_dropped :: qword
  q_notificationPending :: bool

record 'a Batch =
  b_entries :: "'a list"
  b_dropped :: qword
  b_hasMore :: bool

definition LogQueue_new :: "nat \<Rightarrow> nat \<Rightarrow> 'a LogQueue" where
  "LogQueue_new capacity batchSize = \<lparr>q_entries = [], q_capacity = capacity, q_batchSize = batchSize,
     q_dropped = 0, q_notificationPending = False\<rparr>"

definition LogQueue_Push :: "'a \<Rightarrow> 'a LogQueue \<Rightarrow> bool \<times> 'a LogQueue" where
  "LogQueue_Push value q =
     (let q = (if q_capacity q \<le> length (q_entries q)
               then q\<lparr>q_entries := tl (q_entries q), q_dropped := q_dropped q + 1\<rparr> else q);
          q = q\<lparr>q_entries := q_entries q @ [value]\<rparr>
      in if q_notificationPending q then (False, q)
         else (True, q\<lparr>q_notificationPending := True\<rparr>))"

definition LogQueue_TakeBatch :: "'a LogQueue \<Rightarrow> 'a Batch \<times> 'a LogQueue" where
  "LogQueue_TakeBatch q =
     (let taken = take (q_batchSize q) (q_entries q);
          rest = drop (q_batchSize q) (q_entries q);
          batch = \<lparr>b_entries = taken, b_dropped = q_dropped q, b_hasMore = (rest \<noteq> [])\<rparr>;
          q' = q\<lparr>q_entries := rest, q_dropped := 0\<rparr>
      in (batch, if \<not> b_hasMore batch then q'\<lparr>q_notificationPending := False\<rparr> else q'))"

definition LogQueue_OnNotificationPostFailed :: "'a LogQueue \<Rightarrow> 'a LogQueue" where
  "LogQueue_OnNotificationPostFailed q = q\<lparr>q_notificationPending := False\<rparr>"

definition LogQueue_Size :: "'a LogQueue \<Rightarrow> nat" where
  "LogQueue_Size q = length (q_entries q)"

definition LogQueue_Clear :: "'a LogQueue \<Rightarrow> 'a LogQueue" where
  "LogQueue_Clear q = q\<lparr>q_entries := [], q_dropped := 0, q_notificationPending := False\<rparr>"

definition LogQueue_ok :: "'a LogQueue \<Rightarrow> bool" where
  "LogQueue_ok q \<longleftrightarrow> 0 < q_capacity q \<and> 0 < q_batchSize q \<and> length (q_entries q) \<le> q_capacity q"

interpretation lq: bounded_fifo q_entries q_capacity q_dropped "\<lambda>x q. snd (LogQueue_Push x q)" LogQueue_ok
proof (unfold_locales, goal_cases)
  case (5 s x)
  then show ?case
    by (cases "q_entries s") (auto simp: LogQueue_ok_def LogQueue_Push_def Let_def Suc_diff_le le_Suc_eq)
next
  case (6 s x)
  then show ?case
    by (auto simp: LogQueue_ok_def LogQueue_Push_def Let_def Suc_diff_le le_Suc_eq)
qed (auto simp: LogQueue_ok_def LogQueue_Push_def Let_def)

section \<open>CProxyMonitor\<close>

record ProxyMonitorEvent =
  ev_connection :: qword
  ev_client :: PRCClient
  ev_kind :: dword
  ev_data :: bytes \<comment> \<open>\<open>data\<close> up to \<open>length\<close>, at most 8192 bytes\<close>

record ProxyMonitor =
  m_enabled :: bool
  m_events :: "ProxyMonitorEvent list"
  m_dropped :: dword

definition Monitor_SetEnabled :: "bool \<Rightarrow> ProxyMonitor \<Rightarrow> ProxyMonitor" where
  "Monitor_SetEnabled enabled m =
     (let m = m\<lparr>m_enabled := enabled\<rparr> in
      if \<not> enabled then m\<lparr>m_events := [], m_dropped := 0\<rparr> else m)"

definition Monitor_Poll :: "bool \<Rightarrow> ProxyMonitor \<Rightarrow> ProxyMonitorEvent option \<times> ProxyMonitor" where
  "Monitor_Poll have_buffer m =
     (if \<not> have_buffer then (None, m)
      else case m_events m of [] \<Rightarrow> (None, m) | e # es \<Rightarrow> (Some e, m\<lparr>m_events := es\<rparr>))"

definition Monitor_TakeDroppedCount :: "ProxyMonitor \<Rightarrow> dword \<times> ProxyMonitor" where
  "Monitor_TakeDroppedCount m = (m_dropped m, m\<lparr>m_dropped := 0\<rparr>)"

definition Monitor_Clear :: "ProxyMonitor \<Rightarrow> ProxyMonitor" where
  "Monitor_Clear m = m\<lparr>m_events := [], m_dropped := 0\<rparr>"

definition monitor_push :: "ProxyMonitorEvent \<Rightarrow> ProxyMonitor \<Rightarrow> ProxyMonitor" where
  "monitor_push e m =
     (let m = (if 512 \<le> length (m_events m)
               then m\<lparr>m_events := tl (m_events m), m_dropped := m_dropped m + 1\<rparr> else m)
      in m\<lparr>m_events := m_events m @ [e]\<rparr>)"

text \<open>The loop of \<open>Record\<close>: one event per 8192 bytes, the last one shorter.\<close>

function record_loop :: "qword \<Rightarrow> PRCClient \<Rightarrow> dword \<Rightarrow> bytes \<Rightarrow> ProxyMonitor \<Rightarrow> ProxyMonitor" where
  "record_loop connection client kind data m =
     (if data = [] then m
      else record_loop connection client kind (drop 8192 data)
        (monitor_push \<lparr>ev_connection = connection, ev_client = client, ev_kind = kind,
           ev_data = take 8192 data\<rparr> m))"
  by pat_completeness auto
termination
  by (relation "measure (\<lambda>(_, _, _, data, _). length data)") auto

declare record_loop.simps [simp del]

definition Monitor_Record ::
    "qword \<Rightarrow> PRCClient \<Rightarrow> dword \<Rightarrow> bytes option \<Rightarrow> ProxyMonitor \<Rightarrow> ProxyMonitor" where
  "Monitor_Record connection client kind data m =
     (case data of None \<Rightarrow> m
      | Some d \<Rightarrow> if \<not> m_enabled m then m else record_loop connection client kind d m)"

text \<open>A packet of the forwarding path: its client (if known), its data and claimed length.\<close>

definition Monitor_RecordPacket ::
    "(PRCClient option \<times> bytes option \<times> int) option \<Rightarrow> dword \<Rightarrow> cstr option \<Rightarrow> ProxyMonitor \<Rightarrow> ProxyMonitor" where
  "Monitor_RecordPacket packet kind status m =
     (if \<not> m_enabled m then m
      else case packet of None \<Rightarrow> m
      | Some (client, pData, datalen) \<Rightarrow>
        (case client of None \<Rightarrow> m
         | Some c \<Rightarrow>
           (case status of
              Some s \<Rightarrow> Monitor_Record 0 c kind (Some (cstr_bytes s)) m
            | None \<Rightarrow> Monitor_Record 0 c kind
                (map_option (take (if 0 < datalen then nat datalen else 0)) pData) m)))"

section \<open>CTrafficStatistics and CTimeoutMonitor\<close>

record TrafficStatistics =
  t_upload :: qword
  t_download :: qword

definition RecordTransfer :: "bool \<Rightarrow> int \<Rightarrow> TrafficStatistics \<Rightarrow> TrafficStatistics" where
  "RecordTransfer download n t =
     (if n \<le> 0 then t
      else if download then t\<lparr>t_download := t_download t + word_of_int n\<rparr>
      else t\<lparr>t_upload := t_upload t + word_of_int n\<rparr>)"

definition GetTotals :: "TrafficStatistics \<Rightarrow> qword \<times> qword" where
  "GetTotals t = (t_upload t, t_download t)"

definition Traffic_Reset :: TrafficStatistics where
  "Traffic_Reset = \<lparr>t_upload = 0, t_download = 0\<rparr>"

record TimeoutMonitor =
  tm_Time :: dword
  tm_timeout :: dword
  tm_bValid :: bool

definition TimeoutMonitor_new :: "dword \<Rightarrow> TimeoutMonitor" where
  "TimeoutMonitor_new now = \<lparr>tm_Time = now, tm_timeout = 20 * 1000, tm_bValid = True\<rparr>"

definition SetTimeoutVal :: "dword \<Rightarrow> TimeoutMonitor \<Rightarrow> TimeoutMonitor" where
  "SetTimeoutVal val t = t\<lparr>tm_timeout := val\<rparr>"

definition tm_Enable :: "TimeoutMonitor \<Rightarrow> TimeoutMonitor" where
  "tm_Enable t = t\<lparr>tm_bValid := True\<rparr>"

definition tm_Disable :: "TimeoutMonitor \<Rightarrow> TimeoutMonitor" where
  "tm_Disable t = t\<lparr>tm_bValid := False\<rparr>"

definition tm_Update :: "dword \<Rightarrow> TimeoutMonitor \<Rightarrow> TimeoutMonitor" where
  "tm_Update now t = t\<lparr>tm_Time := now\<rparr>"

definition tm_Get :: "TimeoutMonitor \<Rightarrow> dword" where
  "tm_Get t = tm_Time t"

definition IsTimeout :: "dword \<Rightarrow> TimeoutMonitor \<Rightarrow> bool" where
  "IsTimeout now t \<longleftrightarrow> tm_bValid t \<and> tm_timeout t < tick_elapsed now (tm_Time t)"

section \<open>Facts and properties\<close>

interpretation mon: bounded_fifo m_events "\<lambda>_. 512" m_dropped monitor_push
  "\<lambda>m. length (m_events m) \<le> 512"
proof (unfold_locales, goal_cases)
  case (5 s x)
  then show ?case
    by (cases "m_events s") (auto simp: monitor_push_def Let_def Suc_diff_le le_Suc_eq)
next
  case (6 s x)
  then show ?case
    by (auto simp: monitor_push_def Let_def Suc_diff_le le_Suc_eq)
qed (auto simp: monitor_push_def Let_def)

text \<open>The events of one call of \<open>Record\<close>, and that the loop inserts exactly these.\<close>

function chunk_events :: "qword \<Rightarrow> PRCClient \<Rightarrow> dword \<Rightarrow> bytes \<Rightarrow> ProxyMonitorEvent list" where
  "chunk_events connection client kind data =
     (if data = [] then []
      else \<lparr>ev_connection = connection, ev_client = client, ev_kind = kind, ev_data = take 8192 data\<rparr>
        # chunk_events connection client kind (drop 8192 data))"
  by pat_completeness auto
termination
  by (relation "measure (\<lambda>(_, _, _, data). length data)") auto

declare chunk_events.simps [simp del]

lemma record_loop_Nil [simp]: "record_loop connection client kind [] m = m"
  by (simp add: record_loop.simps)

lemma chunk_events_Nil [simp]: "chunk_events connection client kind [] = []"
  by (simp add: chunk_events.simps)

lemma record_loop_fold:
  "record_loop connection client kind data m =
     fold monitor_push (chunk_events connection client kind data) m"
proof (induction connection client kind data m rule: record_loop.induct)
  case (1 connection client kind data m)
  then show ?case
    by (cases "data = []") (simp_all add: record_loop.simps [of connection client kind data]
        chunk_events.simps [of connection client kind data])
qed

lemma chunk_events_data: "concat (map ev_data (chunk_events connection client kind data)) = data"
proof (induction connection client kind data rule: chunk_events.induct)
  case (1 connection client kind data)
  then show ?case
    by (cases "data = []") (simp_all add: chunk_events.simps [of connection client kind data])
qed

lemma chunk_events_bounded:
  "e \<in> set (chunk_events connection client kind data) \<Longrightarrow>
   length (ev_data e) \<le> 8192 \<and> ev_data e \<noteq> [] \<and> ev_connection e = connection \<and> ev_kind e = kind"
proof (induction connection client kind data rule: chunk_events.induct)
  case (1 connection client kind data)
  show ?case
  proof (cases "data = []")
    case True
    with 1 show ?thesis by simp
  next
    case False
    with 1 show ?thesis by (auto simp: chunk_events.simps [of connection client kind data])
  qed
qed

text \<open>
  C19. When monitoring is on, one \<open>Record\<close> call cuts the transferred data into events of at
  most 8192 non-empty bytes whose concatenation is the data, appends them in order, keeps
  the newest 512 events and adds the number of evicted ones to the dropped counter.
\<close>

theorem monitor_record_exact:
  assumes "m_enabled m" and "length (m_events m) \<le> 512"
  shows "\<exists>evs. concat (map ev_data evs) = data \<and>
     list_all (\<lambda>e. ev_data e \<noteq> [] \<and> length (ev_data e) \<le> 8192 \<and>
        ev_connection e = connection \<and> ev_kind e = kind) evs \<and>
     m_events (Monitor_Record connection client kind (Some data) m) =
       drop (length (m_events m) + length evs - 512) (m_events m @ evs) \<and>
     m_dropped (Monitor_Record connection client kind (Some data) m) =
       m_dropped m + of_nat (length (m_events m) + length evs - 512)"
  using mon.burst [of m "chunk_events connection client kind data"] assms
  by (intro exI [of _ "chunk_events connection client kind data"])
    (simp add: Monitor_Record_def record_loop_fold chunk_events_data list_all_iff chunk_events_bounded)

definition monitor_on :: ProxyMonitor where
  "monitor_on = Monitor_SetEnabled True \<lparr>m_enabled = False, m_events = [], m_dropped = 0\<rparr>"

theorem monitor_record_exact_witness:
  "\<exists>evs. concat (map ev_data evs) = [1, 2, 3] \<and>
     list_all (\<lambda>e. ev_data e \<noteq> [] \<and> length (ev_data e) \<le> 8192 \<and>
        ev_connection e = 7 \<and> ev_kind e = 1) evs \<and>
     m_events (Monitor_Record 7 PRCClient_zero 1 (Some [1, 2, 3]) monitor_on) =
       drop (length (m_events monitor_on) + length evs - 512) (m_events monitor_on @ evs) \<and>
     m_dropped (Monitor_Record 7 PRCClient_zero 1 (Some [1, 2, 3]) monitor_on) =
       m_dropped monitor_on + of_nat (length (m_events monitor_on) + length evs - 512)"
  by (rule monitor_record_exact) (simp_all add: monitor_on_def Monitor_SetEnabled_def)

section \<open>Runs of the log queue\<close>

text \<open>
  A run of the queue between producers and the window that drains it: each operation, the
  entries it hands to the window, the losses it reports and the notifications it asks for.
\<close>

datatype 'a queue_op = OpPush 'a | OpTake

record 'a queue_trace =
  tr_queue :: "'a LogQueue"
  tr_delivered :: "'a list"
  tr_reported :: qword

fun queue_exec :: "'a queue_op \<Rightarrow> 'a queue_trace \<Rightarrow> 'a queue_trace" where
  "queue_exec (OpPush x) t = t\<lparr>tr_queue := snd (LogQueue_Push x (tr_queue t))\<rparr>"
| "queue_exec OpTake t =
     (let (b, q) = LogQueue_TakeBatch (tr_queue t)
      in t\<lparr>tr_queue := q, tr_delivered := tr_delivered t @ b_entries b,
           tr_reported := tr_reported t + b_dropped b\<rparr>)"

definition queue_run :: "nat \<Rightarrow> nat \<Rightarrow> 'a queue_op list \<Rightarrow> 'a queue_trace" where
  "queue_run capacity batchSize ops = fold queue_exec ops
     \<lparr>tr_queue = LogQueue_new capacity batchSize, tr_delivered = [], tr_reported = 0\<rparr>"

fun pushed :: "'a queue_op list \<Rightarrow> 'a list" where
  "pushed [] = []"
| "pushed (OpPush x # ops) = x # pushed ops"
| "pushed (OpTake # ops) = pushed ops"

text \<open>What a run keeps: order, the exact count of what was lost, and a pending wake-up.\<close>

definition trace_inv :: "'a list \<Rightarrow> 'a queue_trace \<Rightarrow> bool" where
  "trace_inv xs t \<longleftrightarrow> LogQueue_ok (tr_queue t) \<and>
     subseq (tr_delivered t @ q_entries (tr_queue t)) xs \<and>
     of_nat (length xs) = of_nat (length (tr_delivered t)) + tr_reported t +
       q_dropped (tr_queue t) + of_nat (length (q_entries (tr_queue t))) \<and>
     (q_entries (tr_queue t) \<noteq> [] \<longrightarrow> q_notificationPending (tr_queue t))"

lemma subseq_drop_one: "subseq (xs @ y # ys) zs \<Longrightarrow> subseq (xs @ ys) zs"
  by (meson subseq_Cons' subseq_append' subseq_order.order_trans subseq_order.order_refl)

lemma trace_inv_push: "trace_inv xs t \<Longrightarrow> trace_inv (xs @ [x]) (queue_exec (OpPush x) t)"
  by (cases "q_entries (tr_queue t)")
    (auto simp: trace_inv_def LogQueue_ok_def LogQueue_Push_def Let_def algebra_simps
      simp flip: append_assoc dest: subseq_drop_one)

lemma trace_inv_take: "trace_inv xs t \<Longrightarrow> trace_inv xs (queue_exec OpTake t)"
  by (auto simp: trace_inv_def LogQueue_ok_def LogQueue_TakeBatch_def Let_def algebra_simps)

lemma trace_inv_run:
  "trace_inv xs t \<Longrightarrow> trace_inv (xs @ pushed ops) (fold queue_exec ops t)"
proof (induction ops arbitrary: xs t rule: pushed.induct)
  case (2 x ops)
  from 2(1) [OF trace_inv_push [OF 2(2)]] show ?case by simp
next
  case (3 ops)
  from 3(1) [OF trace_inv_take [OF 3(2)]] show ?case by simp
qed simp

text \<open>
  In every run of pushes and batch reads on a queue of positive capacity and batch size:
  the entries handed to the window followed by the queued ones are a subsequence of the
  pushed ones in order, every push is accounted for as delivered, reported dropped, waiting
  to be reported or still queued, the queue never exceeds its capacity, and whenever it is
  non-empty a notification is pending, so no entry is stranded.
\<close>

theorem log_queue_run_conserves:
  assumes "0 < capacity" and "0 < batchSize" and "t = queue_run capacity batchSize ops"
  shows "subseq (tr_delivered t @ q_entries (tr_queue t)) (pushed ops) \<and>
     of_nat (length (pushed ops)) = of_nat (length (tr_delivered t)) + tr_reported t +
       q_dropped (tr_queue t) + of_nat (LogQueue_Size (tr_queue t)) \<and>
     LogQueue_Size (tr_queue t) \<le> q_capacity (tr_queue t) \<and>
     (q_notificationPending (tr_queue t) \<or> q_entries (tr_queue t) = [])"
proof -
  have "trace_inv [] \<lparr>tr_queue = LogQueue_new capacity batchSize, tr_delivered = [], tr_reported = 0\<rparr>"
    using assms by (simp add: trace_inv_def LogQueue_ok_def LogQueue_new_def)
  from trace_inv_run [OF this, of ops] have "trace_inv (pushed ops) t"
    by (simp add: queue_run_def assms(3))
  then show ?thesis
    by (auto simp: trace_inv_def LogQueue_Size_def LogQueue_ok_def)
qed

theorem log_queue_run_conserves_witness:
  "tr_delivered (queue_run 2 1 [OpPush 1, OpPush 2, OpPush (3::nat), OpTake]) = [2] \<and>
   subseq (tr_delivered (queue_run 2 1 [OpPush 1, OpPush 2, OpPush (3::nat), OpTake]) @
      q_entries (tr_queue (queue_run 2 1 [OpPush 1, OpPush 2, OpPush 3, OpTake]))) [1, 2, 3]"
  using log_queue_run_conserves [of 2 1 _ "[OpPush 1, OpPush 2, OpPush (3::nat), OpTake]", OF _ _ refl]
  by (simp add: queue_run_def LogQueue_new_def LogQueue_Push_def LogQueue_TakeBatch_def)

end
