(* ===== verification/UdpBlockLogLimiter.thy ===== *)
theory UdpBlockLogLimiter
  imports SockAddr
begin

text \<open>
  The rate limiter of the UDP block log (\<open>UdpBlockLogLimiter.h\<close>). Every injected process
  owns one: 64 destination slots with a cooldown of 5000 ms each and a budget of ten log
  lines per window of 5000 ms. \<open>Allow\<close> holds the lock for its whole body, so it is one
  step. The lemmas show that the budget holds in every window and that a logged destination
  stays silent for the whole cooldown, whatever the other callers ask for meanwhile.
\<close>

section \<open>State and operation\<close>

abbreviation (input) "IntervalMs \<equiv> (5000 :: dword)"
abbreviation (input) "MaxPerInterval \<equiv> (10 :: dword)"
abbreviation (input) "Capacity \<equiv> (64 :: nat)"

record LimiterEntry =
  le_used :: bool
  le_destination :: sockaddr
  le_lastLogged :: dword

record UdpBlockLogLimiter =
  l_entries :: "LimiterEntry list"
  l_windowStart :: dword
  l_windowCount :: dword

definition Limiter_new :: UdpBlockLogLimiter where
  "Limiter_new = \<lparr>l_entries = replicate Capacity \<lparr>le_used = False, le_destination = sa_Clear, le_lastLogged = 0\<rparr>,
     l_windowStart = 0, l_windowCount = 0\<rparr>"

definition same_destination :: "sockaddr \<Rightarrow> sockaddr \<Rightarrow> bool" where
  "same_destination a b \<longleftrightarrow> sa_eq a b \<or> sa_family a = AF_UNSPEC \<and> sa_family b = AF_UNSPEC"

text \<open>The scan of the slots: \<open>None\<close> is the early \<open>return false\<close> on a live cooldown.\<close>

fun slot_scan :: "sockaddr \<Rightarrow> dword \<Rightarrow> nat \<Rightarrow> LimiterEntry list \<Rightarrow> nat option \<Rightarrow> nat option option" where
  "slot_scan destination now i [] slot = Some slot"
| "slot_scan destination now i (entry # es) slot =
     (if le_used entry \<and> same_destination (le_destination entry) destination then
        (if tick_elapsed now (le_lastLogged entry) < IntervalMs then None else Some (Some i))
      else slot_scan destination now (Suc i) es
        (if slot = None \<and> (\<not> le_used entry \<or> IntervalMs \<le> tick_elapsed now (le_lastLogged entry))
         then Some i else slot))"

definition AllowLocked :: "sockaddr \<Rightarrow> dword \<Rightarrow> UdpBlockLogLimiter \<Rightarrow> bool \<times> UdpBlockLogLimiter" where
  "AllowLocked destination now l =
     (let l = (if IntervalMs \<le> tick_elapsed now (l_windowStart l)
               then l\<lparr>l_windowStart := now, l_windowCount := 0\<rparr> else l)
      in if MaxPerInterval \<le> l_windowCount l then (False, l)
         else case slot_scan destination now 0 (l_entries l) None of
           None \<Rightarrow> (False, l)
         | Some None \<Rightarrow> (False, l)
         | Some (Some slot) \<Rightarrow>
             (True, l\<lparr>l_entries := (l_entries l)[slot :=
                        \<lparr>le_used = True, le_destination = destination, le_lastLogged = now\<rparr>],
                      l_windowCount := l_windowCount l + 1\<rparr>))"

section \<open>The scan\<close>

lemma same_destination_sym: "same_destination a b \<Longrightarrow> same_destination b a"
  by (auto simp: same_destination_def sa_eq_sym)

lemma same_destination_trans:
  "same_destination a b \<Longrightarrow> same_destination b c \<Longrightarrow> same_destination a c"
  by (auto simp: same_destination_def sa_eq_def sa_SameAddress_def sa_IsIPv6_def sa_IsIPv4_def dest: sa_eq_trans split: if_splits)

abbreviation entry_same :: "sockaddr \<Rightarrow> LimiterEntry \<Rightarrow> bool" where
  "entry_same d e \<equiv> le_used e \<and> same_destination (le_destination e) d"

abbreviation entry_free :: "dword \<Rightarrow> LimiterEntry \<Rightarrow> bool" where
  "entry_free now e \<equiv> \<not> le_used e \<or> IntervalMs \<le> tick_elapsed now (le_lastLogged e)"

text \<open>
  A slot the scan returns is free or expired, and either the slot of this very destination
  or one that is taken because no slot has this destination.
\<close>

lemma slot_scan_Some:
  assumes "slot_scan d now i es slot = Some (Some k)"
  shows "slot = Some k \<and> (\<forall>e \<in> set es. \<not> entry_same d e) \<or>
    (i \<le> k \<and> k < i + length es \<and> entry_free now (es ! (k - i)) \<and>
      (entry_same d (es ! (k - i)) \<or> (\<forall>e \<in> set es. \<not> entry_same d e)))"
  using assms
proof (induction d now i es slot rule: slot_scan.induct)
  case (2 d now i entry es slot)
  show ?case
  proof (cases "entry_same d entry")
    case True
    with 2(2) show ?thesis by (auto simp: not_less split: if_splits)
  next
    case False
    let ?slot = "if slot = None \<and> entry_free now entry then Some i else slot"
    have "slot_scan d now (Suc i) es ?slot = Some (Some k)"
      using 2(2) False by auto
    note IH = 2(1) [OF False this]
    show ?thesis
    proof (cases "?slot = Some k \<and> (\<forall>e \<in> set es. \<not> entry_same d e)")
      case True
      with False show ?thesis by (auto split: if_splits)
    next
      case no: False
      with IH have "Suc i \<le> k" "k < Suc i + length es" "entry_free now (es ! (k - Suc i))"
        "entry_same d (es ! (k - Suc i)) \<or> (\<forall>e \<in> set es. \<not> entry_same d e)"
        by blast+
      with False show ?thesis by (auto simp: nth_Cons')
    qed
  qed
qed simp

lemma slot_scan_live:
  assumes "slot_scan d now i es slot = Some r" and "k < length es" and "entry_same d (es ! k)"
    and "\<forall>j < k. \<not> entry_same d (es ! j)"
  shows "\<not> tick_elapsed now (le_lastLogged (es ! k)) < IntervalMs"
  using assms
proof (induction d now i es slot arbitrary: k rule: slot_scan.induct)
  case (2 d now i entry es slot)
  show ?case
  proof (cases k)
    case 0
    with 2 show ?thesis by (auto split: if_splits)
  next
    case (Suc m)
    with 2(5) have "\<not> entry_same d entry" by force
    moreover from 2(5) Suc have "\<forall>j < m. \<not> entry_same d (es ! j)" by force
    ultimately show ?thesis using 2 Suc by (auto split: if_splits)
  qed
qed simp

section \<open>Runs of the limiter\<close>

text \<open>
  At most one used slot per destination, 64 slots, and a window count within the budget.
\<close>

definition limiter_ok :: "UdpBlockLogLimiter \<Rightarrow> bool" where
  "limiter_ok l \<longleftrightarrow> length (l_entries l) = Capacity \<and> l_windowCount l \<le> MaxPerInterval \<and>
     (\<forall>i < Capacity. \<forall>j < Capacity. i \<noteq> j \<longrightarrow> le_used (l_entries l ! i) \<longrightarrow> le_used (l_entries l ! j) \<longrightarrow>
        \<not> same_destination (le_destination (l_entries l ! i)) (le_destination (l_entries l ! j)))"

fun limiter_run :: "(sockaddr \<times> dword) list \<Rightarrow> UdpBlockLogLimiter \<Rightarrow> nat \<times> UdpBlockLogLimiter" where
  "limiter_run [] l = (0, l)"
| "limiter_run ((d, now) # cs) l =
     (let (allowed, l) = AllowLocked d now l; (n, l) = limiter_run cs l
      in ((if allowed then Suc n else n), l))"

lemma AllowLocked_refused:
  "\<not> fst (AllowLocked d now l) \<Longrightarrow> l_entries (snd (AllowLocked d now l)) = l_entries l"
  by (auto simp: AllowLocked_def Let_def split: option.splits if_splits)

lemma AllowLocked_logged:
  "fst (AllowLocked d now l) \<Longrightarrow> \<exists>slot. slot_scan d now 0 (l_entries l) None = Some (Some slot) \<and>
     l_entries (snd (AllowLocked d now l)) =
       (l_entries l)[slot := \<lparr>le_used = True, le_destination = d, le_lastLogged = now\<rparr>]"
  by (auto simp: AllowLocked_def Let_def split: option.splits if_splits)

lemma AllowLocked_cases:
  obtains (refused) l' where "AllowLocked d now l = (False, l')" and "l_entries l' = l_entries l"
  | (logged) l' slot where "AllowLocked d now l = (True, l')"
      and "slot_scan d now 0 (l_entries l) None = Some (Some slot)"
      and "l_entries l' = (l_entries l)[slot := \<lparr>le_used = True, le_destination = d, le_lastLogged = now\<rparr>]"
proof (cases "fst (AllowLocked d now l)")
  case True
  with AllowLocked_logged [OF this] show thesis
    by (metis (full_types) logged prod.collapse)
next
  case False
  with AllowLocked_refused [OF this] show thesis
    by (metis (full_types) refused prod.collapse)
qed

lemma slot_scan_result:
  assumes "slot_scan d now 0 es None = Some (Some k)"
  shows "k < length es \<and> entry_free now (es ! k) \<and>
    (entry_same d (es ! k) \<or> (\<forall>e \<in> set es. \<not> entry_same d e))"
  using slot_scan_Some [OF assms] by auto

lemma limiter_ok_count:
  "limiter_ok l \<Longrightarrow> l_windowCount (snd (AllowLocked d now l)) \<le> MaxPerInterval"
  by (auto simp: AllowLocked_def limiter_ok_def Let_def inc_le split: option.splits)

lemma limiter_ok_new [simp]: "limiter_ok Limiter_new"
  by (simp add: limiter_ok_def Limiter_new_def)

lemma unique_update:
  assumes ok: "limiter_ok l" and slot: "slot_scan d now 0 (l_entries l) None = Some (Some k)"
    and "i < Capacity" "i \<noteq> k" "le_used (l_entries l ! i)"
  shows "\<not> same_destination (le_destination (l_entries l ! i)) d"
proof
  assume same: "same_destination (le_destination (l_entries l ! i)) d"
  have len: "length (l_entries l) = Capacity" using ok by (simp add: limiter_ok_def)
  with assms same have "l_entries l ! i \<in> set (l_entries l)" "entry_same d (l_entries l ! i)"
    by simp_all
  with slot_scan_result [OF slot] have k: "entry_same d (l_entries l ! k)" "k < Capacity"
    using len slot_scan_result [OF slot] by (blast, simp)
  then have "same_destination (le_destination (l_entries l ! i)) (le_destination (l_entries l ! k))"
    using same same_destination_sym same_destination_trans by blast
  with ok assms k show False by (simp add: limiter_ok_def)
qed

lemma limiter_ok_step:
  assumes ok: "limiter_ok l"
  shows "limiter_ok (snd (AllowLocked d now l))"
proof (cases d now l rule: AllowLocked_cases)
  case (refused l')
  with ok limiter_ok_count [OF ok, of d now] show ?thesis by (simp add: limiter_ok_def)
next
  case (logged l' k)
  have len: "length (l_entries l) = Capacity" using ok by (simp add: limiter_ok_def)
  have old: "\<not> same_destination (le_destination (l_entries l ! i)) (le_destination (l_entries l ! j))"
    if "i < Capacity" "j < Capacity" "i \<noteq> j" "le_used (l_entries l ! i)" "le_used (l_entries l ! j)" for i j
    using ok that by (simp add: limiter_ok_def)
  have new: "\<not> same_destination (le_destination (l_entries l ! i)) d"
    "\<not> same_destination d (le_destination (l_entries l ! i))"
    if "i < Capacity" "i \<noteq> k" "le_used (l_entries l ! i)" for i
    using unique_update [OF ok logged(2) that] same_destination_sym by blast+
  show ?thesis
    using limiter_ok_count [OF ok, of d now] slot_scan_result [OF logged(2)] logged len old new
    by (auto simp: limiter_ok_def nth_list_update split: if_splits)
qed

text \<open>
  The budget: in every sequence of requests whose clock readings stay within 5000
  milliseconds of the current window's start, at most ten minus the lines already counted
  are admitted, so no window ever logs more than ten lines.
\<close>

theorem limiter_window_budget:
  assumes "limiter_ok l" and "\<forall>(d, now) \<in> set cs. tick_elapsed now (l_windowStart l) < IntervalMs"
  shows "fst (limiter_run cs l) + unat (l_windowCount l) \<le> 10"
  using assms
proof (induction cs arbitrary: l)
  case Nil
  then show ?case by (simp add: limiter_ok_def word_le_nat_alt)
next
  case (Cons c cs)
  obtain d now where c: "c = (d, now)" by (cases c)
  let ?l = "snd (AllowLocked d now l)"
  have live: "\<not> IntervalMs \<le> tick_elapsed now (l_windowStart l)"
    using Cons.prems c by auto
  then have start: "l_windowStart ?l = l_windowStart l"
    by (simp add: AllowLocked_def Let_def split: option.splits)
  have "unat (l_windowCount ?l) = unat (l_windowCount l) + of_bool (fst (AllowLocked d now l))"
    using live Cons.prems(1)
    by (auto simp: AllowLocked_def Let_def limiter_ok_def unat_word_ariths word_le_nat_alt
        split: option.splits)
  moreover have "fst (limiter_run cs ?l) + unat (l_windowCount ?l) \<le> 10"
    using Cons.IH [OF limiter_ok_step [OF Cons.prems(1)]] Cons.prems(2) start by simp
  ultimately show ?case
    by (cases "fst (AllowLocked d now l)") (simp_all add: c split_beta)
qed

text \<open>A live cooldown entry: it blocks its destination and nobody evicts it.\<close>

definition cooling :: "sockaddr \<Rightarrow> dword \<Rightarrow> UdpBlockLogLimiter \<Rightarrow> bool" where
  "cooling d t l \<longleftrightarrow> (\<exists>i < Capacity. entry_same d (l_entries l ! i) \<and> le_lastLogged (l_entries l ! i) = t)"

lemma cooling_blocks:
  assumes "limiter_ok l" and "cooling d t l" and "tick_elapsed now t < IntervalMs"
    and same: "same_destination d d'"
  shows "\<not> fst (AllowLocked d' now l)"
proof
  assume "fst (AllowLocked d' now l)"
  then obtain k where k: "slot_scan d' now 0 (l_entries l) None = Some (Some k)"
    by (cases d' now l rule: AllowLocked_cases) auto
  obtain i where i: "i < Capacity" "entry_same d (l_entries l ! i)" "le_lastLogged (l_entries l ! i) = t"
    using assms by (auto simp: cooling_def)
  have "same_destination (le_destination (l_entries l ! i)) d'"
    using i(2) same same_destination_trans by blast
  with unique_update [OF assms(1) k i(1)] i(2) have "i = k" by blast
  with slot_scan_result [OF k] i assms(3) show False by auto
qed

lemma cooling_step:
  assumes "limiter_ok l" and cool: "cooling d t l" and "tick_elapsed now t < IntervalMs"
  shows "cooling d t (snd (AllowLocked d' now l))"
proof (cases d' now l rule: AllowLocked_cases)
  case (refused l')
  with cool show ?thesis by (simp add: cooling_def)
next
  case (logged l' k)
  obtain i where i: "i < Capacity" "entry_same d (l_entries l ! i)" "le_lastLogged (l_entries l ! i) = t"
    using cool by (auto simp: cooling_def)
  with slot_scan_result [OF logged(2)] assms(3) have "i \<noteq> k" by auto
  with logged i show ?thesis by (auto simp: cooling_def)
qed

text \<open>
  The cooldown: once a destination has been logged, it stays silent for 5000
  milliseconds, across the wrap of the clock and whatever requests for other destinations
  come in between, since a live cooldown slot is never given away.
\<close>

theorem limiter_cooldown:
  assumes "limiter_ok l" and "AllowLocked d t l = (True, l')" and "same_destination d d"
    and "\<forall>(d', now) \<in> set cs. tick_elapsed now t < IntervalMs"
    and "tick_elapsed now t < IntervalMs" and "same_destination d d'"
  shows "\<not> fst (AllowLocked d' now (snd (limiter_run cs l')))"
proof -
  have ok': "limiter_ok l'"
    using limiter_ok_step [OF assms(1), of d t] assms(2) by simp
  have "cooling d t l'"
  proof (cases d t l rule: AllowLocked_cases)
    case (logged l'' k)
    moreover have "length (l_entries l) = Capacity" using assms(1) by (simp add: limiter_ok_def)
    ultimately show ?thesis
      using assms(2,3) slot_scan_result [OF logged(2)] by (auto simp: cooling_def)
  qed (use assms(2) in simp)
  with ok' assms(4) have "limiter_ok (snd (limiter_run cs l')) \<and> cooling d t (snd (limiter_run cs l'))"
  proof (induction cs arbitrary: l')
    case (Cons c cs)
    obtain d'' n where c: "c = (d'', n)" by (cases c)
    have "limiter_ok (snd (AllowLocked d'' n l'))" "cooling d t (snd (AllowLocked d'' n l'))"
      using Cons.prems c limiter_ok_step cooling_step by auto
    with Cons.IH Cons.prems(2) c show ?case by (simp add: split_beta)
  qed simp
  then show ?thesis
    using cooling_blocks assms(5,6) by blast
qed

lemma slot_scan_unused:
  "\<not> le_used e \<Longrightarrow> slot_scan d now i (replicate n e) slot =
     Some (if slot = None \<and> 0 < n then Some i else slot)"
  by (induction n arbitrary: i slot) auto

definition block_dest :: sockaddr where
  "block_dest = sa_SetPort 443 \<lparr>sa_family = AF_INET, sin_port = 0, sin_addr = 1, sin6_addr = [], sin6_scope = 0\<rparr>"

theorem limiter_window_budget_witness:
  "fst (limiter_run [(block_dest, 10), (block_dest, 20)] Limiter_new) + unat (l_windowCount Limiter_new) \<le> 10"
proof (rule limiter_window_budget)
  show "limiter_ok Limiter_new" by simp
qed (simp add: Limiter_new_def tick_elapsed_def)

theorem limiter_cooldown_witness:
  "\<not> fst (AllowLocked block_dest 300 (snd (limiter_run [(block_dest, 200)] (snd (AllowLocked block_dest 100 Limiter_new)))))"
proof (rule limiter_cooldown)
  show "limiter_ok Limiter_new" by simp
  show "AllowLocked block_dest 100 Limiter_new = (True, snd (AllowLocked block_dest 100 Limiter_new))"
    by (simp add: AllowLocked_def Limiter_new_def tick_elapsed_def slot_scan_unused Let_def)
  show "same_destination block_dest block_dest"
    by (simp add: same_destination_def block_dest_def sa_eq_refl_iff sa_IsIPv4_def)
  show "same_destination block_dest block_dest"
    by (simp add: same_destination_def block_dest_def sa_eq_refl_iff sa_IsIPv4_def)
qed (simp_all add: tick_elapsed_def)

end
