(* ===== verification/ProcessRegistry.thy ===== *)
theory ProcessRegistry
  imports Prelude
begin

text \<open>
  The registry of hooked processes (\<open>ProcessRegistry.h\<close>) and the reading of the system
  process list that tells which of them have exited (\<open>ProcessIdentity.h\<close>, 64-bit layout).
  A process is identified by its id together with its creation time, since Windows reuses
  ids. \<open>std::map\<close> is an association list in ascending key order. Each method holds the lock
  for its whole body, except \<open>PruneExited\<close>, which takes it once for the copy and once per
  erased entry: its steps are separate here so that other calls can come in between.
\<close>

section \<open>Ordered maps\<close>

type_synonym ('k, 'v) omap = "('k \<times> 'v) list"

fun omap_find :: "('k :: linorder, 'v) omap \<Rightarrow> 'k \<Rightarrow> 'v option" where
  "omap_find [] k = None"
| "omap_find ((k', v) # m) k = (if k = k' then Some v else omap_find m k)"

fun omap_put :: "'k :: linorder \<Rightarrow> 'v \<Rightarrow> ('k, 'v) omap \<Rightarrow> ('k, 'v) omap" where
  "omap_put k v [] = [(k, v)]"
| "omap_put k v ((k', v') # m) =
     (if k < k' then (k, v) # (k', v') # m
      else if k = k' then (k, v) # m
      else (k', v') # omap_put k v m)"

definition omap_erase :: "'k :: linorder \<Rightarrow> ('k, 'v) omap \<Rightarrow> ('k, 'v) omap" where
  "omap_erase k m = filter (\<lambda>(k', _). k' \<noteq> k) m"

definition omap_ok :: "('k :: linorder, 'v) omap \<Rightarrow> bool" where
  "omap_ok m \<longleftrightarrow> sorted (map fst m) \<and> distinct (map fst m)"

lemma omap_find_put [simp]: "omap_find (omap_put k v m) k' = (if k' = k then Some v else omap_find m k')"
  by (induction k v m rule: omap_put.induct) auto

lemma omap_find_erase [simp]: "omap_find (omap_erase k m) k' = (if k' = k then None else omap_find m k')"
  by (induction m) (auto simp: omap_erase_def)

lemma omap_put_keys: "set (map fst (omap_put k v m)) = insert k (set (map fst m))"
  by (induction k v m rule: omap_put.induct) auto

lemma omap_ok_put: "omap_ok m \<Longrightarrow> omap_ok (omap_put k v m)"
proof (induction k v m rule: omap_put.induct)
  case (2 k v k' v' m)
  then show ?case
    using omap_put_keys [of k v m] by (auto simp: omap_ok_def)
qed (simp add: omap_ok_def)

lemma omap_ok_erase: "omap_ok m \<Longrightarrow> omap_ok (omap_erase k m)"
  by (induction m) (auto simp: omap_ok_def omap_erase_def)

lemma omap_find_in: "omap_ok m \<Longrightarrow> omap_find m k = Some v \<longleftrightarrow> (k, v) \<in> set m"
  by (induction m) (force simp: omap_ok_def)+

section \<open>Records and lifetimes\<close>

abbreviation (input) "PROCESS_HOOK_STATE_PENDING \<equiv> (0 :: dword)"
abbreviation (input) "PROCESS_HOOK_STATE_SUCCEEDED \<equiv> (1 :: dword)"
abbreviation (input) "PROCESS_HOOK_STATE_FAILED \<equiv> (2 :: dword)"
abbreviation (input) "MAX_PATH \<equiv> (260 :: nat)"

record HookProcessIdentityInfo =
  dwProcessId :: dword
  processCreateTime :: qword
  szAppPath :: "16 word list" \<comment> \<open>up to the terminator\<close>
  hookState :: dword
  hookError :: dword

type_synonym Registry = "(dword, HookProcessIdentityInfo) omap"

definition identity_zero :: HookProcessIdentityInfo where
  "identity_zero = \<lparr>dwProcessId = 0, processCreateTime = 0, szAppPath = [], hookState = 0, hookError = 0\<rparr>"

text \<open>\<open>m_processes[pid]\<close>, which creates a zeroed record.\<close>

definition registry_entry :: "dword \<Rightarrow> Registry \<Rightarrow> HookProcessIdentityInfo" where
  "registry_entry pid m = (case omap_find m pid of Some e \<Rightarrow> e | None \<Rightarrow> identity_zero)"

definition Register :: "HookProcessIdentityInfo option \<Rightarrow> Registry \<Rightarrow> bool \<times> Registry" where
  "Register identity m =
     (case identity of None \<Rightarrow> (False, m)
      | Some i \<Rightarrow>
        if dwProcessId i = 0 \<or> processCreateTime i = 0 \<or> szAppPath i = [] then (False, m)
        else let entry = registry_entry (dwProcessId i) m in
          if processCreateTime i < processCreateTime entry
          then (False, omap_put (dwProcessId i) entry m)
          else let entry = (if processCreateTime entry \<noteq> processCreateTime i
                            then identity_zero\<lparr>dwProcessId := dwProcessId i,
                                   processCreateTime := processCreateTime i\<rparr>
                            else entry);
                   entry = entry\<lparr>szAppPath := take (MAX_PATH - 1) (szAppPath i)\<rparr>
               in (True, omap_put (dwProcessId i) entry m))"

definition Update :: "dword \<Rightarrow> qword \<Rightarrow> dword \<Rightarrow> Registry \<Rightarrow> bool \<times> Registry" where
  "Update pid creationTime error m =
     (if pid = 0 \<or> creationTime = 0 then (False, m)
      else let entry = registry_entry pid m in
        if creationTime < processCreateTime entry then (False, omap_put pid entry m)
        else let entry = (if processCreateTime entry \<noteq> creationTime
                          then identity_zero\<lparr>dwProcessId := pid, processCreateTime := creationTime\<rparr>
                          else entry);
                 entry = (if hookState entry \<noteq> PROCESS_HOOK_STATE_SUCCEEDED
                          then entry\<lparr>hookState := (if error \<noteq> 0 then PROCESS_HOOK_STATE_FAILED
                                                   else PROCESS_HOOK_STATE_SUCCEEDED),
                                     hookError := error\<rparr>
                          else entry)
             in (True, omap_put pid entry m))"

definition Registry_Get :: "dword \<Rightarrow> qword \<Rightarrow> Registry \<Rightarrow> HookProcessIdentityInfo option" where
  "Registry_Get pid creationTime m =
     (if pid = 0 then None
      else case omap_find m pid of None \<Rightarrow> None
        | Some e \<Rightarrow> if creationTime \<noteq> 0 \<and> processCreateTime e \<noteq> creationTime then None else Some e)"

definition SnapshotHooked :: "nat option \<Rightarrow> Registry \<Rightarrow> nat \<times> HookProcessIdentityInfo list" where
  "SnapshotHooked capacity m =
     (let hooked = filter (\<lambda>e. hookState e = PROCESS_HOOK_STATE_SUCCEEDED) (map snd m);
          count = length hooked
      in case capacity of None \<Rightarrow> (count, [])
         | Some c \<Rightarrow> if c < count then (count, []) else (count, hooked))"

section \<open>The system process list\<close>

record Process =
  p_pid :: dword
  p_parentPid :: dword
  p_creationTime :: qword
  p_name :: "16 word list"
  p_sessionId :: dword

record ProcessSnapshot =
  s_complete :: bool
  s_processes :: "Process list"
  s_creationTimes :: "(dword, qword) omap"

definition Snapshot_HasExited :: "ProcessSnapshot \<Rightarrow> HookProcessIdentityInfo \<Rightarrow> bool" where
  "Snapshot_HasExited s i =
     (if \<not> s_complete s \<or> dwProcessId i = 0 \<or> processCreateTime i = 0 then False
      else case omap_find (s_creationTimes s) (dwProcessId i) of
        None \<Rightarrow> True
      | Some t \<Rightarrow> t \<noteq> 0 \<and> t \<noteq> processCreateTime i)"

text \<open>One locked step of the pruning loop, and the loop.\<close>

definition prune_step :: "ProcessSnapshot \<Rightarrow> dword \<times> HookProcessIdentityInfo \<Rightarrow> Registry \<Rightarrow> Registry" where
  "prune_step s it m =
     (if \<not> Snapshot_HasExited s (snd it) then m
      else case omap_find m (fst it) of None \<Rightarrow> m
        | Some current \<Rightarrow> if processCreateTime current = processCreateTime (snd it)
                          then omap_erase (fst it) m else m)"

definition PruneExited :: "ProcessSnapshot option \<Rightarrow> Registry \<Rightarrow> Registry" where
  "PruneExited queried m =
     (if m = [] then m
      else case queried of None \<Rightarrow> m | Some s \<Rightarrow> fold (prune_step s) m m)"

text \<open>
  \<open>SystemProcessPrefix\<close>, 104 bytes on 64-bit Windows, little-endian: next entry offset at
  0, creation time at 32, image name length, maximum length and pointer at 56, 58 and 64,
  process and parent id at 80 and 88, session id at 100.
\<close>

abbreviation (input) "SIZEOF_PREFIX \<equiv> (104 :: qword)"

record SystemProcessPrefix =
  sp_nextEntryOffset :: dword
  sp_createTime :: "64 word"
  sp_imageLength :: word16
  sp_imageMaximumLength :: word16
  sp_imageBuffer :: qword
  sp_processId :: qword
  sp_parentProcessId :: qword
  sp_sessionId :: dword

definition bytes_qword :: "bytes \<Rightarrow> qword" where
  "bytes_qword b = ucast (bytes_dword b) OR push_bit 32 (ucast (bytes_dword (drop 4 b)))"

definition decode_prefix :: "bytes \<Rightarrow> SystemProcessPrefix" where
  "decode_prefix b = \<lparr>sp_nextEntryOffset = bytes_dword b, sp_createTime = bytes_qword (drop 32 b),
     sp_imageLength = bytes_word16 (drop 56 b), sp_imageMaximumLength = bytes_word16 (drop 58 b),
     sp_imageBuffer = bytes_qword (drop 64 b), sp_processId = bytes_qword (drop 80 b),
     sp_parentProcessId = bytes_qword (drop 88 b), sp_sessionId = bytes_dword (drop 100 b)\<rparr>"

fun wchars :: "bytes \<Rightarrow> 16 word list" where
  "wchars (a # b # bs) = bytes_word16 [a, b] # wchars bs"
| "wchars _ = []"

text \<open>
  A read of \<open>n\<close> bytes at an offset of the buffer; \<open>None\<close> is an access outside it. The
  result of the scan keeps that fault apart from the \<open>return FALSE\<close> of the code.
\<close>

definition buffer_read :: "bytes \<Rightarrow> nat \<Rightarrow> nat \<Rightarrow> bytes option" where
  "buffer_read buffer off n =
     (if off + n \<le> length buffer then Some (take n (drop off buffer)) else None)"

datatype scan_result = Fault | Failed | Complete "(dword, qword) omap" "Process list"

definition entry_time :: "SystemProcessPrefix \<Rightarrow> qword" where
  "entry_time e = (if 0 < sint (sp_createTime e) then sp_createTime e else 0)"

text \<open>The image name of an entry: the bounds checks and the copy.\<close>

definition image_name :: "qword \<Rightarrow> bytes \<Rightarrow> qword \<Rightarrow> SystemProcessPrefix \<Rightarrow> 16 word list option option" where
  "image_name base buffer len e =
     (if sp_imageLength e = 0 then Some (Some [])
      else let name = sp_imageBuffer e in
        if name < base \<or> len < name - base \<or> len - (name - base) < ucast (sp_imageLength e)
        then Some None
        else case buffer_read buffer (unat (name - base)) (unat (sp_imageLength e)) of
          None \<Rightarrow> None | Some b \<Rightarrow> Some (Some (wchars b)))"

text \<open>
  The scan from one entry on. Each further entry starts at least 104 bytes later, so fuel
  of one more than the buffer's length is never used up; the lemmas below show it.
\<close>

fun read_entries :: "nat \<Rightarrow> qword \<Rightarrow> bytes \<Rightarrow> qword \<Rightarrow> qword \<Rightarrow> (dword, qword) omap \<Rightarrow> Process list \<Rightarrow> scan_result" where
  "read_entries 0 base buffer len offset ts processes = Fault"
| "read_entries (Suc fuel) base buffer len offset ts processes =
     (if len - offset < SIZEOF_PREFIX then Failed
      else case buffer_read buffer (unat offset) 104 of None \<Rightarrow> Fault
      | Some raw \<Rightarrow>
        let entry = decode_prefix raw; pid = sp_processId entry; parentPid = sp_parentProcessId entry in
        if 4294967295 < pid \<or> 4294967295 < parentPid then Failed
        else let time = entry_time entry in
        if omap_find ts (ucast pid) \<noteq> None then Failed
        else let ts = omap_put (ucast pid) time ts in
        if sp_imageLength entry mod 2 \<noteq> 0 \<or> sp_imageMaximumLength entry < sp_imageLength entry then Failed
        else case image_name base buffer len entry of None \<Rightarrow> Fault | Some None \<Rightarrow> Failed
        | Some (Some name) \<Rightarrow>
          let processes = processes @ [\<lparr>p_pid = ucast pid, p_parentPid = ucast parentPid,
                p_creationTime = time, p_name = name, p_sessionId = sp_sessionId entry\<rparr>] in
          if sp_nextEntryOffset entry = 0 then Complete ts processes
          else if ucast (sp_nextEntryOffset entry) < SIZEOF_PREFIX \<or>
                  len - offset < ucast (sp_nextEntryOffset entry) then Failed
          else read_entries fuel base buffer len (offset + ucast (sp_nextEntryOffset entry)) ts processes)"

definition ReadSnapshot :: "qword \<Rightarrow> bytes option \<Rightarrow> qword \<Rightarrow> bool \<times> ProcessSnapshot" where
  "ReadSnapshot base buffer len =
     (case buffer of None \<Rightarrow> (False, \<lparr>s_complete = False, s_processes = [], s_creationTimes = []\<rparr>)
      | Some b \<Rightarrow>
        case read_entries (Suc (length b)) base b len 0 [] [] of
          Complete ts processes \<Rightarrow>
            (True, \<lparr>s_complete = True, s_processes = processes, s_creationTimes = ts\<rparr>)
        | _ \<Rightarrow> (False, \<lparr>s_complete = False, s_processes = [], s_creationTimes = []\<rparr>))"

text \<open>
  The growing query. \<open>query size\<close> is \<open>NtQuerySystemInformation\<close>: its status, the length it
  returns and the buffer's content (with its address).
\<close>

type_synonym sys_query = "dword \<Rightarrow> int \<times> dword \<times> qword \<times> bytes"

abbreviation (input) "STATUS_INFO_LENGTH_MISMATCH \<equiv> (-1073741820 :: int)"

fun query_loop :: "nat \<Rightarrow> sys_query \<Rightarrow> dword \<Rightarrow> bool \<times> ProcessSnapshot" where
  "query_loop 0 query sz = (False, \<lparr>s_complete = False, s_processes = [], s_creationTimes = []\<rparr>)"
| "query_loop (Suc attempts) query sz =
     (if \<not> sz \<le> 67108864 then (False, \<lparr>s_complete = False, s_processes = [], s_creationTimes = []\<rparr>)
      else let (status, returned, base, content) = query sz in
        if status \<noteq> STATUS_INFO_LENGTH_MISMATCH then
          (if 0 \<le> status \<and> returned \<le> sz then ReadSnapshot base (Some content) (ucast returned)
           else (False, \<lparr>s_complete = False, s_processes = [], s_creationTimes = []\<rparr>))
        else if 67043328 < returned
          then (False, \<lparr>s_complete = False, s_processes = [], s_creationTimes = []\<rparr>)
        else query_loop attempts query (if sz < returned then returned + 65536 else sz * 2))"

definition QuerySnapshot :: "sys_query option \<Rightarrow> bool \<times> ProcessSnapshot" where
  "QuerySnapshot query =
     (case query of None \<Rightarrow> (False, \<lparr>s_complete = False, s_processes = [], s_creationTimes = []\<rparr>)
      | Some q \<Rightarrow> query_loop 8 q 65536)"

definition HasExited :: "sys_query option \<Rightarrow> HookProcessIdentityInfo \<Rightarrow> bool" where
  "HasExited query identity =
     (let (ok, s) = QuerySnapshot query in ok \<and> Snapshot_HasExited s identity)"

section \<open>Facts of the scan\<close>

lemma buffer_read_ok: "off + n \<le> length buffer \<Longrightarrow> buffer_read buffer off n \<noteq> None"
  by (simp add: buffer_read_def)

lemma image_name_no_fault:
  assumes "unat len \<le> length buffer"
  shows "image_name base buffer len e \<noteq> None"
proof -
  have "unat (sp_imageBuffer e - base) + unat (sp_imageLength e) \<le> length buffer"
    if "\<not> len < sp_imageBuffer e - base" "\<not> len - (sp_imageBuffer e - base) < ucast (sp_imageLength e)"
  proof -
    have "unat (ucast (sp_imageLength e) :: qword) = unat (sp_imageLength e)"
      using unsigned_less [of "sp_imageLength e", where 'a = nat]
      by (simp add: unsigned_ucast_eq take_bit_nat_eq_self)
    moreover have "unat (len - (sp_imageBuffer e - base)) = unat len - unat (sp_imageBuffer e - base)"
      using that(1) by (simp add: unat_sub not_less)
    ultimately show ?thesis
      using that assms by (auto simp: word_less_nat_alt not_less)
  qed
  then show ?thesis
    by (auto simp: image_name_def Let_def buffer_read_def split: option.splits)
qed

text \<open>The fuel, the bounds and what a completed scan has collected.\<close>

definition scan_collected :: "(dword, qword) omap \<Rightarrow> Process list \<Rightarrow> bool" where
  "scan_collected ts ps \<longleftrightarrow> distinct (map p_pid ps) \<and>
     (\<forall>pid. omap_find ts pid = map_of (map (\<lambda>p. (p_pid p, p_creationTime p)) ps) pid)"

lemma scan_collected_add:
  assumes "scan_collected ts ps" and "omap_find ts (p_pid p) = None"
  shows "scan_collected (omap_put (p_pid p) (p_creationTime p) ts) (ps @ [p])"
proof -
  have "map_of (map (\<lambda>p. (p_pid p, p_creationTime p)) ps) (p_pid p) = None"
    using assms by (simp add: scan_collected_def)
  moreover from this have "p_pid p \<notin> p_pid ` set ps"
    by (auto simp: map_of_eq_None_iff image_image)
  ultimately show ?thesis
    using assms by (auto simp: scan_collected_def map_add_def split: option.splits)
qed

lemmas scan_collected_added = scan_collected_add [where p = "\<lparr>p_pid = i, p_parentPid = pp, p_creationTime = t,
  p_name = n, p_sessionId = si\<rparr>" for i pp t n si, simplified]

definition scan_good :: "scan_result \<Rightarrow> bool" where
  "scan_good r \<longleftrightarrow> (case r of Fault \<Rightarrow> False | Failed \<Rightarrow> True | Complete ts ps \<Rightarrow> scan_collected ts ps \<and> ps \<noteq> [])"

lemma read_entries_good:
  assumes "unat len \<le> length buffer" and "unat offset \<le> unat len" and "unat len - unat offset < fuel"
    and "scan_collected ts ps"
  shows "scan_good (read_entries fuel base buffer len offset ts ps)"
  using assms
proof (induction fuel arbitrary: offset ts ps)
  case (Suc fuel)
  note 2 = Suc.IH Suc.prems
  have sub: "unat (len - offset) = unat len - unat offset"
    using 2(3) by (simp add: unat_sub word_le_nat_alt)
  show ?case
  proof (cases "len - offset < SIZEOF_PREFIX")
    case False
    then have room: "unat offset + 104 \<le> unat len"
      using sub 2(3) by (simp add: word_less_nat_alt)
    with 2(2) obtain raw where raw: "buffer_read buffer (unat offset) 104 = Some raw"
      using buffer_read_ok [of "unat offset" 104 buffer] by auto
    obtain nm where nm: "image_name base buffer len (decode_prefix raw) = Some nm"
      using image_name_no_fault [OF 2(2)] by blast
    let ?e = "decode_prefix raw"
    let ?next = "offset + ucast (sp_nextEntryOffset ?e)"
    have advance: "unat ?next \<le> unat len \<and> unat len - unat ?next < fuel"
      if "\<not> ucast (sp_nextEntryOffset ?e) < SIZEOF_PREFIX"
        "\<not> len - offset < ucast (sp_nextEntryOffset ?e)"
    proof -
      have "unat (ucast (sp_nextEntryOffset ?e) :: qword) \<le> unat len - unat offset"
        using that(2) sub by (simp add: word_less_nat_alt not_less)
      moreover have "104 \<le> unat (ucast (sp_nextEntryOffset ?e) :: qword)"
        using that(1) by (simp add: word_less_nat_alt not_less)
      moreover have "unat len < 2 ^ 64" using unsigned_less [of len] by simp
      ultimately have "unat ?next = unat offset + unat (ucast (sp_nextEntryOffset ?e) :: qword)"
        using 2(3) by (subst unat_plus_if') simp
      with \<open>unat _ \<le> unat len - unat offset\<close> \<open>104 \<le> _\<close> 2(3,4) show ?thesis by linarith
    qed
    have good: "scan_good Failed" "scan_good (Complete ts' ps') \<longleftrightarrow> scan_collected ts' ps' \<and> ps' \<noteq> []" for ts' ps'
      by (simp_all add: scan_good_def)
    show ?thesis
      using 2(1,2,5) advance
      by (auto simp: raw nm False Let_def good scan_collected_added split: option.splits)
  qed (simp add: scan_good_def)
qed simp

text \<open>
  Reading the system process list is memory safe for every buffer content and length:
  neither an entry header nor an image name is read outside the buffer, the scan always
  ends, and a snapshot is complete only when it lists pairwise distinct process ids, with
  the creation time index agreeing with the list.
\<close>

theorem read_snapshot_safe:
  assumes "unat len \<le> length b" and "ReadSnapshot base (Some b) len = (ok, s)"
  shows "read_entries (Suc (length b)) base b len 0 [] [] \<noteq> Fault \<and>
    s_complete s = ok \<and> scan_collected (s_creationTimes s) (s_processes s) \<and> (ok \<longrightarrow> s_processes s \<noteq> [])"
proof -
  have good: "scan_good (read_entries (Suc (length b)) base b len 0 [] [])"
    by (rule read_entries_good) (use assms in \<open>simp_all add: scan_collected_def\<close>)
  then have "read_entries (Suc (length b)) base b len 0 [] [] \<noteq> Fault"
    by (auto simp: scan_good_def)
  with good assms(2) show ?thesis
    by (auto simp: ReadSnapshot_def scan_good_def scan_collected_def simp del: read_entries.simps
        split: scan_result.splits)
qed

definition example_entry :: bytes where
  "example_entry = (replicate 32 0 @ [5] @ replicate 47 0 @ [9] @ replicate 23 0)"

theorem read_snapshot_safe_witness:
  "read_entries (Suc (length example_entry)) 0 example_entry 104 0 [] [] \<noteq> Fault \<and>
   s_complete (snd (ReadSnapshot 0 (Some example_entry) 104)) = fst (ReadSnapshot 0 (Some example_entry) 104)"
proof -
  have "unat (104 :: qword) \<le> length example_entry" by (simp add: example_entry_def)
  from read_snapshot_safe [OF this surjective_pairing, of 0] show ?thesis by simp
qed

section \<open>Facts of the registry\<close>

datatype registry_op = OpRegister "HookProcessIdentityInfo option" | OpUpdate dword qword dword
  | OpPrune ProcessSnapshot "dword \<times> HookProcessIdentityInfo"

fun registry_step :: "registry_op \<Rightarrow> Registry \<Rightarrow> Registry" where
  "registry_step (OpRegister i) m = snd (Register i m)"
| "registry_step (OpUpdate pid t e) m = snd (Update pid t e m)"
| "registry_step (OpPrune s it) m = prune_step s it m"

definition hooked_as :: "dword \<Rightarrow> qword \<Rightarrow> Registry \<Rightarrow> bool" where
  "hooked_as pid t m \<longleftrightarrow> (\<exists>e. omap_find m pid = Some e \<and>
     (t < processCreateTime e \<or>
      processCreateTime e = t \<and> hookState e = PROCESS_HOOK_STATE_SUCCEEDED))"

text \<open>What a step may do to an installed hook: nothing but replace it by a later lifetime.\<close>

definition prunes_lifetime :: "dword \<Rightarrow> qword \<Rightarrow> registry_op \<Rightarrow> bool" where
  "prunes_lifetime pid t op = (case op of OpPrune s it \<Rightarrow>
      fst it = pid \<and> t \<le> processCreateTime (snd it) \<and> Snapshot_HasExited s (snd it) | _ \<Rightarrow> False)"

lemma hooked_as_step:
  assumes "hooked_as pid t m" and "\<not> prunes_lifetime pid t op"
  shows "hooked_as pid t (registry_step op m)"
proof (cases op)
  case (OpRegister i)
  with assms show ?thesis
    by (auto simp: hooked_as_def Register_def registry_entry_def identity_zero_def Let_def
        split: option.splits)
next
  case (OpUpdate p t' e)
  with assms show ?thesis
    by (auto simp: hooked_as_def Update_def registry_entry_def identity_zero_def Let_def
        split: option.splits)
next
  case (OpPrune s it)
  with assms show ?thesis
    by (auto simp: hooked_as_def prune_step_def prunes_lifetime_def split: option.splits)
qed

text \<open>
  An installed hook is never forgotten: once the success of a process lifetime has been
  reported, no interleaving of registrations, hook reports (failed retries and stale
  lifetimes included) and pruning steps loses it, unless a scan found that very lifetime,
  or a later one of the same process id, to have exited; at any time the record either still
  says that the hook succeeded or belongs to a later process with this id.
\<close>

theorem hook_success_is_sticky:
  assumes "Update pid t 0 m = (True, m')"
    and "\<forall>op \<in> set ops. \<not> prunes_lifetime pid t op"
  shows "hooked_as pid t (fold registry_step ops m')"
proof -
  have "hooked_as pid t m'"
    using assms(1) by (auto simp: Update_def hooked_as_def Let_def split: if_splits)
  then show ?thesis
    using assms(2)
  proof (induction ops arbitrary: m')
    case (Cons op ops)
    then show ?case using hooked_as_step [of pid t m' op] by simp
  qed simp
qed

definition example_identity :: HookProcessIdentityInfo where
  "example_identity = \<lparr>dwProcessId = 8, processCreateTime = 50, szAppPath = [67], hookState = 0, hookError = 0\<rparr>"

theorem hook_success_is_sticky_witness:
  "hooked_as 8 50 (fold registry_step [OpUpdate 8 50 1460, OpRegister (Some example_identity)]
     (snd (Update 8 50 0 [])))"
  by (rule hook_success_is_sticky [of 8 50 "[]"])
    (simp_all add: Update_def registry_entry_def identity_zero_def prunes_lifetime_def)

text \<open>The records a registry holds: sorted, and every record filed under its own process id.\<close>

definition registry_ok :: "Registry \<Rightarrow> bool" where
  "registry_ok m \<longleftrightarrow> omap_ok m \<and> (\<forall>(pid, e) \<in> set m. dwProcessId e = pid)"

lemma registry_okI:
  assumes "registry_ok m" and "dwProcessId e = pid"
  shows "registry_ok (omap_put pid e m)"
proof -
  have "set (omap_put pid e m) \<subseteq> insert (pid, e) (set m)"
    by (induction pid e m rule: omap_put.induct) auto
  with assms show ?thesis
    by (fastforce simp: registry_ok_def omap_ok_put)
qed

lemma registry_ok_entry:
  "registry_ok m \<Longrightarrow> omap_find m pid = Some e \<Longrightarrow> dwProcessId e = pid"
  by (auto simp: registry_ok_def omap_find_in)

lemma registry_ok_erase: "registry_ok m \<Longrightarrow> registry_ok (omap_erase pid m)"
  by (auto simp: registry_ok_def omap_ok_erase) (auto simp: omap_erase_def)

lemma registry_ok_step: "registry_ok m \<Longrightarrow> registry_ok (registry_step op m)"
proof (cases op)
  case (OpRegister i)
  moreover assume "registry_ok m"
  ultimately show ?thesis
    by (auto simp: Register_def registry_entry_def identity_zero_def Let_def registry_okI registry_ok_entry
        intro!: registry_okI split: option.splits)
next
  case (OpUpdate p t e)
  moreover assume "registry_ok m"
  ultimately show ?thesis
    by (auto simp: Update_def registry_entry_def identity_zero_def Let_def registry_okI registry_ok_entry
        intro!: registry_okI split: option.splits)
next
  case (OpPrune s it)
  moreover assume "registry_ok m"
  ultimately show ?thesis
    by (auto simp: prune_step_def registry_ok_erase split: option.splits)
qed

lemma prune_fold_find:
  "omap_find (fold (prune_step s) xs m) pid =
     (case omap_find m pid of None \<Rightarrow> None
      | Some e \<Rightarrow> if \<exists>it \<in> set xs. fst it = pid \<and> processCreateTime (snd it) = processCreateTime e \<and>
                    Snapshot_HasExited s (snd it) then None else Some e)"
proof (induction xs arbitrary: m)
  case Nil
  show ?case by (simp split: option.splits)
next
  case (Cons it xs)
  show ?case
    unfolding fold_simps comp_apply Cons.IH
    by (cases it) (auto simp: prune_step_def split: option.splits)
qed

text \<open>
  C21. Pruning is exact: in a registry built by any sequence of operations, an undisturbed
  \<open>PruneExited\<close> with a successful system scan keeps precisely the records whose process
  has not exited, unchanged, and a failed scan removes nothing.
\<close>

theorem prune_keeps_exactly_the_living:
  "omap_find (PruneExited (Some s) (fold registry_step ops [])) pid =
     (case omap_find (fold registry_step ops []) pid of None \<Rightarrow> None
      | Some e \<Rightarrow> if Snapshot_HasExited s e then None else Some e) \<and>
   PruneExited None (fold registry_step ops []) = fold registry_step ops []"
proof -
  let ?m = "fold registry_step ops []"
  have ok: "registry_ok ?m"
  proof -
    have "registry_ok m \<Longrightarrow> registry_ok (fold registry_step ops m)" for m
      by (induction ops arbitrary: m) (simp_all add: registry_ok_step)
    moreover have "registry_ok []" by (simp add: registry_ok_def omap_ok_def)
    ultimately show ?thesis by blast
  qed
  have same: "Snapshot_HasExited s (snd it) = Snapshot_HasExited s e \<and> snd it = e"
    if "it \<in> set ?m" "fst it = pid" "omap_find ?m pid = Some e" for it e
  proof -
    have "omap_find ?m (fst it) = Some (snd it)"
      using ok that(1) by (simp add: registry_ok_def omap_find_in)
    with that show ?thesis by simp
  qed
  have exited: "(\<exists>it \<in> set ?m. fst it = pid \<and> processCreateTime (snd it) = processCreateTime e \<and>
      Snapshot_HasExited s (snd it)) \<longleftrightarrow> Snapshot_HasExited s e" if "omap_find ?m pid = Some e" for e
  proof -
    have "(pid, e) \<in> set ?m"
      using ok that by (simp add: registry_ok_def omap_find_in)
    moreover have "snd it = e" if "it \<in> set ?m" "fst it = pid" for it
      using same [OF that \<open>omap_find ?m pid = Some e\<close>] by (rule conjunct2)
    ultimately show ?thesis
      by (metis fst_conv snd_conv)
  qed
  have "omap_find (PruneExited (Some s) ?m) pid =
       (case omap_find ?m pid of None \<Rightarrow> None
        | Some e \<Rightarrow> if Snapshot_HasExited s e then None else Some e)"
  proof (cases "omap_find ?m pid")
    case None
    then show ?thesis by (simp add: PruneExited_def prune_fold_find)
  next
    case (Some e)
    then have "?m \<noteq> []" by auto
    with Some exited [OF Some] show ?thesis
      by (simp only: PruneExited_def prune_fold_find if_False option.case)
  qed
  moreover have "PruneExited None ?m = ?m"
    by (simp add: PruneExited_def)
  ultimately show ?thesis ..
qed

end
