(* ===== verification/Base64.thy ===== *)
theory Base64
  imports Prelude
begin

text \<open>
  The two Base64 codecs: \<open>CBase64Coding\<close> (\<open>asynsocket/CBase64Coding.cpp\<close>), which the HTTP proxy
  authentication uses, and \<open>CBase64\<close> (\<open>ProxyLane/Base64.cpp\<close>), encoder and decoder with a
  standard and a private table. Both work on 24-bit groups held in a \<open>DWORD\<close>; the lemmas show
  that the decoder inverts both encoders, whatever line breaks and padding they insert.
\<close>

section \<open>Tables\<close>

definition s_chBase64EncodingTable :: cstr where
  "s_chBase64EncodingTable = ''CkEzO+J/X61itgSsvmoVT9nAeBqYNhMLD0U3uy8GbjQ2RHZFfWrc5PIwaxlp47Kd''"

definition s_chBase64EncodingTable_std :: cstr where
  "s_chBase64EncodingTable_std = ''ABCDEFGHIJKLMNOPQRSTUVWXYZabcdefghijklmnopqrstuvwxyz0123456789+/''"

definition CBase64_table :: "bool \<Rightarrow> cstr" where
  "CBase64_table bStd = (if bStd then s_chBase64EncodingTable_std else s_chBase64EncodingTable)"

definition BASE64_FLAG_NOPAD :: dword where "BASE64_FLAG_NOPAD = 1"
definition BASE64_FLAG_NOCRLF :: dword where "BASE64_FLAG_NOCRLF = 2"

section \<open>CBase64\<close>

text \<open>The group accumulator: three times or-and-shift, and the characters from the top bits.\<close>

definition pack_group :: "bytes \<Rightarrow> dword" where
  "pack_group bs = fold (\<lambda>b dwCurr. push_bit 8 (dwCurr OR ucast b)) bs 0"

fun emit_chars :: "nat \<Rightarrow> cstr \<Rightarrow> dword \<Rightarrow> cstr" where
  "emit_chars 0 table dwCurr = []"
| "emit_chars (Suc k) table dwCurr =
     table ! unat (ucast (drop_bit 26 dwCurr) :: byte) # emit_chars k table (push_bit 6 dwCurr)"

fun encode_groups :: "nat \<Rightarrow> cstr \<Rightarrow> bytes \<Rightarrow> cstr \<times> bytes" where
  "encode_groups 0 table src = ([], src)"
| "encode_groups (Suc j) table src =
     (let (out, rest) = encode_groups j table (drop 3 src)
      in (emit_chars 4 table (pack_group (take 3 src)) @ out, rest))"

text \<open>The outer loop over the lines \<open>i, ..., nLen2\<close>; a full line has 19 groups.\<close>

fun encode_lines :: "nat \<Rightarrow> nat \<Rightarrow> cstr \<Rightarrow> bool \<Rightarrow> bytes \<Rightarrow> cstr \<times> bytes" where
  "encode_lines lines lastGroups table crlf src =
     (let (out, rest) = encode_groups (if lines = 0 then lastGroups else 19) table src;
          out = out @ (if crlf then [CHR 0x0D, CHR 0x0A] else [])
      in case lines of 0 \<Rightarrow> (out, rest)
         | Suc more \<Rightarrow> (let (out', rest') = encode_lines more lastGroups table crlf rest
                        in (out @ out', rest')))"

declare encode_lines.simps [simp del]

definition CBase64_Encode :: "bool \<Rightarrow> bytes \<Rightarrow> dword \<Rightarrow> cstr" where
  "CBase64_Encode bStd src dwFlags =
     (let table = CBase64_table bStd; nSrcLen = length src;
          crlf = (dwFlags AND BASE64_FLAG_NOCRLF = 0);
          nLen1 = (nSrcLen div 3) * 4; nLen2 = nLen1 div 76;
          (out, rest) = encode_lines nLen2 ((nLen1 mod 76) div 4) table crlf src;
          out = (if out \<noteq> [] \<and> crlf then take (length out - 2) out else out);
          tailLen = (if nSrcLen mod 3 \<noteq> 0 then nSrcLen mod 3 + 1 else 0)
      in if tailLen = 0 then out
         else out @ emit_chars tailLen table (pack_group (take (nSrcLen mod 3) rest @ replicate (3 - nSrcLen mod 3) 0)) @
              (if dwFlags AND BASE64_FLAG_NOPAD = 0 then replicate (4 - tailLen) (CHR ''='') else []))"

text \<open>\<open>DecodeChar\<close>: the first table index with this character, \<open>None\<close> for \<open>-1\<close>.\<close>

fun table_index :: "cstr \<Rightarrow> char \<Rightarrow> nat \<Rightarrow> nat option" where
  "table_index [] ch i = None"
| "table_index (c # cs) ch i = (if ch = c then Some i else table_index cs ch (Suc i))"

definition DecodeChar :: "cstr \<Rightarrow> char \<Rightarrow> nat option" where
  "DecodeChar table ch = table_index (take 64 table) ch 0"

text \<open>The inner loop: up to four table characters, everything else skipped.\<close>

fun collect_group :: "cstr \<Rightarrow> nat \<Rightarrow> dword \<Rightarrow> nat \<Rightarrow> cstr \<Rightarrow> cstr \<times> dword \<times> nat" where
  "collect_group table 0 dwCurr nBits src = (src, dwCurr, nBits)"
| "collect_group table (Suc i) dwCurr nBits [] = ([], dwCurr, nBits)"
| "collect_group table (Suc i) dwCurr nBits (c # src) =
     (case DecodeChar table c of
        None \<Rightarrow> collect_group table (Suc i) dwCurr nBits src
      | Some nCh \<Rightarrow> collect_group table i (push_bit 6 dwCurr OR of_nat nCh) (nBits + 6) src)"

fun emit_bytes :: "nat \<Rightarrow> dword \<Rightarrow> bytes" where
  "emit_bytes 0 dwCurr = []"
| "emit_bytes (Suc i) dwCurr = ucast (drop_bit 16 (dwCurr AND 0x00ff0000)) # emit_bytes i (push_bit 8 dwCurr)"

lemma collect_group_length: "length (fst (collect_group table i dwCurr nBits src)) \<le> length src"
  by (induction table i dwCurr nBits src rule: collect_group.induct)
    (auto simp: le_SucI split: option.splits)

lemma collect_group_shrinks:
  "src \<noteq> [] \<Longrightarrow> length (fst (collect_group table (Suc i) dwCurr nBits src)) < length src"
  by (cases src) (auto simp: less_Suc_eq_le collect_group_length split: option.splits)

function decode_loop :: "cstr \<Rightarrow> cstr \<Rightarrow> bytes" where
  "decode_loop table src =
     (if src = [] then []
      else let (rest, dwCurr, nBits) = collect_group table 4 0 0 src
           in emit_bytes (nBits div 8) (push_bit (24 - nBits) dwCurr) @ decode_loop table rest)"
  by pat_completeness auto
termination
proof (relation "measure (\<lambda>(_, src). length src)", goal_cases)
  case (2 table src x rest y dwCurr nBits)
  have "fst (collect_group table 4 0 0 src) = rest"
    using 2 by (metis fst_conv)
  with 2(1) show ?case
    using collect_group_shrinks [of src table 3 0 0] by simp
qed simp

declare decode_loop.simps [simp del]

definition CBase64_Decode :: "bool \<Rightarrow> cstr \<Rightarrow> bytes" where
  "CBase64_Decode bStd src = decode_loop (CBase64_table bStd) src"

definition EncodeGetRequiredLength :: "int \<Rightarrow> dword \<Rightarrow> int" where
  "EncodeGetRequiredLength nSrcLen dwFlags =
     (let nRet = nSrcLen * 4 div 3;
          nRet = (if dwFlags AND BASE64_FLAG_NOPAD = 0 then nRet + nSrcLen mod 3 else nRet);
          nCRLFs = nRet div 76 + 1; nOnLastLine = nRet mod 76;
          nRet = (if nOnLastLine \<noteq> 0 \<and> nOnLastLine mod 4 \<noteq> 0 then nRet + (4 - nOnLastLine mod 4) else nRet)
      in if dwFlags AND BASE64_FLAG_NOCRLF = 0 then nRet + nCRLFs * 2 else nRet)"

section \<open>CBase64Coding\<close>

text \<open>
  The loop of \<open>CBase64Coding::Encode\<close>. \<open>n\<close> is the number of characters written so far, which
  decides the line breaks; the trailing \<open>=\<close> of complete groups is written after the loop.
\<close>

definition alphabet :: cstr where
  "alphabet = ''ABCDEFGHIJKLMNOPQRSTUVWXYZabcdefghijklmnopqrstuvwxyz0123456789+/''"

definition alpha :: "byte \<Rightarrow> char" where
  "alpha b = alphabet ! unat b"

fun coding_loop :: "nat \<Rightarrow> bytes \<Rightarrow> cstr" where
  "coding_loop n [] = ''=''"
| "coding_loop n [byte_1] =
     [alpha (drop_bit 2 byte_1), alpha (push_bit 4 (byte_1 AND 0x03)), CHR ''='', CHR ''='']"
| "coding_loop n [byte_1, byte_2] =
     [alpha (drop_bit 2 byte_1),
      alpha (push_bit 4 (byte_1 AND 0x03) OR drop_bit 4 (byte_2 AND 0xF0)),
      alpha (push_bit 2 (byte_2 AND 0x0F)), CHR ''='']"
| "coding_loop n (byte_1 # byte_2 # byte_3 # src) =
     [alpha (drop_bit 2 byte_1),
      alpha (push_bit 4 (byte_1 AND 0x03) OR drop_bit 4 (byte_2 AND 0xF0)),
      alpha (push_bit 2 (byte_2 AND 0x0F) OR drop_bit 6 (byte_3 AND 0xC0)),
      alpha (byte_3 AND 0x3F)] @
     (if (n + 4) mod 72 = 0 then [CHR 0x0D, CHR 0x0A] @ coding_loop (n + 6) src
      else coding_loop (n + 4) src)"

definition CBase64Coding_Encode :: "bytes \<Rightarrow> cstr" where
  "CBase64Coding_Encode source = coding_loop 0 source"

section \<open>Skipped characters\<close>

definition valid :: "cstr \<Rightarrow> char \<Rightarrow> bool" where
  "valid table c \<longleftrightarrow> DecodeChar table c \<noteq> None"

lemma collect_group_filter:
  "collect_group table i dwCurr nBits (filter (valid table) src) =
     apfst (filter (valid table)) (collect_group table i dwCurr nBits src)"
proof (induction table i dwCurr nBits src rule: collect_group.induct)
  case (3 table i dwCurr nBits c src)
  then show ?case by (cases "DecodeChar table c") (auto simp: valid_def)
qed simp_all

lemma collect_group_none:
  "filter (valid table) src = [] \<Longrightarrow> collect_group table (Suc i) dwCurr nBits src = ([], dwCurr, nBits)"
  by (induction src) (auto simp: valid_def split: option.splits if_splits)

lemma decode_loop_Nil [simp]: "decode_loop table [] = []"
  by (simp add: decode_loop.simps)

lemma decode_loop_filter: "decode_loop table (filter (valid table) src) = decode_loop table src"
proof (induction table src rule: decode_loop.induct)
  case (1 table src)
  obtain rest cur bits where r: "collect_group table 4 0 0 src = (rest, cur, bits)"
    by (cases "collect_group table 4 0 0 src") auto
  have f: "collect_group table 4 0 0 (filter (valid table) src) = (filter (valid table) rest, cur, bits)"
    using collect_group_filter [of table 4 0 0 src] r by simp
  show ?case
  proof (cases "filter (valid table) src = []")
    case True
    then have "rest = []" "bits = 0"
      using r collect_group_none [of table src 3 0 0] by (simp_all add: numeral_eq_Suc)
    then show ?thesis
      using True r by (simp add: decode_loop.simps [of table src])
  next
    case False
    then have "src \<noteq> []" by auto
    with 1 r have "decode_loop table (filter (valid table) rest) = decode_loop table rest" by simp
    with False \<open>src \<noteq> []\<close> r f show ?thesis
      by (simp add: decode_loop.simps [of table src] decode_loop.simps [of table "filter (valid table) src"])
  qed
qed

section \<open>One group\<close>

definition table_ok :: "cstr \<Rightarrow> bool" where
  "table_ok table \<longleftrightarrow> length table = 64 \<and> distinct table \<and> CHR ''='' \<notin> set table \<and>
     CHR 0x0D \<notin> set table \<and> CHR 0x0A \<notin> set table"

lemma table_ok_std [simp]: "table_ok s_chBase64EncodingTable_std"
  by code_simp

lemma table_ok_private [simp]: "table_ok s_chBase64EncodingTable"
  by code_simp

lemma table_ok_CBase64 [simp]: "table_ok (CBase64_table bStd)"
  by (simp add: CBase64_table_def)

lemma table_index_nth:
  "distinct cs \<Longrightarrow> k < length cs \<Longrightarrow> table_index cs (cs ! k) i = Some (i + k)"
proof (induction cs arbitrary: k i)
  case (Cons c cs)
  then show ?case by (cases k) auto
qed simp

lemma table_index_None: "c \<notin> set cs \<Longrightarrow> table_index cs c i = None"
  by (induction cs arbitrary: i) auto

lemma DecodeChar_nth: "table_ok table \<Longrightarrow> k < 64 \<Longrightarrow> DecodeChar table (table ! k) = Some k"
  by (simp add: DecodeChar_def table_ok_def table_index_nth)

lemma DecodeChar_skip:
  assumes "table_ok table"
  shows "DecodeChar table (CHR ''='') = None" "DecodeChar table (CHR 0x0D) = None"
    "DecodeChar table (CHR 0x0A) = None"
  using assms by (simp_all add: DecodeChar_def table_ok_def table_index_None)

lemma valid_skip:
  assumes "table_ok table"
  shows "\<not> valid table (CHR ''='')" "\<not> valid table (CHR 0x0D)" "\<not> valid table (CHR 0x0A)"
  using DecodeChar_skip [OF assms] by (simp_all add: valid_def)

lemma top_bits_less: "unat (ucast (drop_bit 26 (w :: dword)) :: byte) < 64"
proof -
  have "unat (drop_bit 26 w) < 64"
    using unsigned_less [of w, where 'a = nat] by (simp add: drop_bit_eq_div unat_div)
  moreover have "unat (ucast (drop_bit 26 w) :: byte) \<le> unat (drop_bit 26 w)"
    by (simp add: unsigned_ucast_eq take_bit_nat_less_eq_self)
  ultimately show ?thesis by simp
qed

lemma valid_emit_chars:
  "table_ok table \<Longrightarrow> filter (valid table) (emit_chars k table w) = emit_chars k table w"
  by (induction k arbitrary: w) (simp_all add: valid_def DecodeChar_nth top_bits_less)

lemma collect_emit:
  assumes "table_ok table"
  shows "collect_group table (Suc i) cur bits (emit_chars (Suc k) table w @ s) =
    collect_group table i (push_bit 6 cur OR drop_bit 26 w) (bits + 6) (emit_chars k table (push_bit 6 w) @ s)"
proof -
  have "(of_nat (unat (ucast (drop_bit 26 w) :: byte)) :: dword) = drop_bit 26 w"
    by (rule bit_word_eqI) (auto simp: bit_simps dest: bit_imp_le_length)
  then show ?thesis
    using assms by (simp add: DecodeChar_nth top_bits_less)
qed

lemma pack_group_3: "pack_group [a, b, c] =
    push_bit 8 (push_bit 8 (push_bit 8 (ucast a) OR ucast b) OR ucast c)"
  by (simp add: pack_group_def)

text \<open>Collecting characters rebuilds the top bits of the accumulator.\<close>

lemma collected_2: "push_bit 6 (drop_bit 26 w) OR drop_bit 26 (push_bit 6 w) = drop_bit 20 (w :: dword)"
proof (rule bit_word_eqI)
  fix n assume "n < LENGTH(32)"
  consider "n < 6" | "6 \<le> n" by linarith
  then show "bit (push_bit 6 (drop_bit 26 w) OR drop_bit 26 (push_bit 6 w)) n = bit (drop_bit 20 w) n"
    by cases (auto simp: bit_simps dest: bit_imp_le_length)
qed

lemma collected_3: "push_bit 6 (drop_bit 20 w) OR drop_bit 26 (push_bit 12 w) = drop_bit 14 (w :: dword)"
proof (rule bit_word_eqI)
  fix n assume "n < LENGTH(32)"
  consider "n < 6" | "6 \<le> n" by linarith
  then show "bit (push_bit 6 (drop_bit 20 w) OR drop_bit 26 (push_bit 12 w)) n = bit (drop_bit 14 w) n"
    by cases (auto simp: bit_simps dest: bit_imp_le_length)
qed

lemma collected_4: "push_bit 6 (drop_bit 14 w) OR drop_bit 26 (push_bit 18 w) = drop_bit 8 (w :: dword)"
proof (rule bit_word_eqI)
  fix n assume "n < LENGTH(32)"
  consider "n < 6" | "6 \<le> n" by linarith
  then show "bit (push_bit 6 (drop_bit 14 w) OR drop_bit 26 (push_bit 18 w)) n = bit (drop_bit 8 w) n"
    by cases (auto simp: bit_simps dest: bit_imp_le_length)
qed

lemmas collected = collected_2 collected_3 collected_4

lemma third_byte: "(ucast (drop_bit 16 (w AND 0x00ff0000)) :: byte) = ucast (drop_bit 16 (w :: dword))"
proof -
  have m: "(0x00ff0000 :: dword) = push_bit 16 (mask 8)" by (simp add: mask_eq_exp_minus_1)
  show ?thesis
    unfolding m by (rule bit_word_eqI) (auto simp: bit_simps)
qed

lemma pack_bytes:
  "(ucast (drop_bit 16 (drop_bit 8 (pack_group [a, b, c]))) :: byte) = a"
  "(ucast (drop_bit 16 (push_bit 8 (drop_bit 8 (pack_group [a, b, c])))) :: byte) = b"
  "(ucast (drop_bit 16 (push_bit 8 (push_bit 8 (drop_bit 8 (pack_group [a, b, c]))))) :: byte) = c"
  unfolding pack_group_3
  by (rule bit_word_eqI; auto simp: bit_simps dest: bit_imp_le_length)+

lemma tail_bytes:
  "(ucast (drop_bit 16 (push_bit 12 (drop_bit 20 (pack_group [a, b, c])))) :: byte) = a"
  "(ucast (drop_bit 16 (push_bit 6 (drop_bit 14 (pack_group [a, b, c])))) :: byte) = a"
  "(ucast (drop_bit 16 (push_bit 8 (push_bit 6 (drop_bit 14 (pack_group [a, b, c]))))) :: byte) = b"
  unfolding pack_group_3
  by (rule bit_word_eqI; auto simp: bit_simps dest: bit_imp_le_length)+

section \<open>The plain encoding\<close>

fun b64 :: "cstr \<Rightarrow> bytes \<Rightarrow> cstr" where
  "b64 table (a # b # c # src) = emit_chars 4 table (pack_group [a, b, c]) @ b64 table src"
| "b64 table [a, b] = emit_chars 3 table (pack_group [a, b, 0])"
| "b64 table [a] = emit_chars 2 table (pack_group [a, 0, 0])"
| "b64 table [] = []"

lemma collect_group_Nil [simp]: "collect_group table i cur bits [] = ([], cur, bits)"
  by (cases i) simp_all

lemma shift_twice: "push_bit 6 (push_bit 6 w) = push_bit 12 (w :: dword)"
  "push_bit 6 (push_bit 12 w) = push_bit 18 (w :: dword)"
  by (simp_all only: push_bit_push_bit) simp_all

lemma small_nats: "(4 :: nat) = Suc (Suc (Suc (Suc 0)))" "(3 :: nat) = Suc (Suc (Suc 0))" "(2 :: nat) = Suc (Suc 0)"
  by simp_all

lemma collect_emits:
  assumes "table_ok table"
  shows "collect_group table 4 0 0 (emit_chars 2 table w @ []) = ([], drop_bit 20 w, 12)"
    and "collect_group table 4 0 0 (emit_chars 3 table w @ []) = ([], drop_bit 14 w, 18)"
    and "collect_group table 4 0 0 (emit_chars 4 table w @ s) = (s, drop_bit 8 w, 24)"
  by (simp_all only: small_nats collect_emit [OF assms] emit_chars.simps(1) collect_group.simps(1) append.simps
      collect_group_Nil shift_twice push_bit_of_0 or.left_neutral collected)
    simp_all

lemma emit_chars_eq_Nil [simp]: "emit_chars k table w = [] \<longleftrightarrow> k = 0"
  by (cases k) simp_all

lemma decode_b64: "table_ok table \<Longrightarrow> decode_loop table (b64 table src) = src"
proof (induction table src rule: b64.induct)
  case (1 table a b c src)
  have "emit_bytes 3 (drop_bit 8 (pack_group [a, b, c])) = [a, b, c]"
    by (simp only: small_nats emit_bytes.simps third_byte pack_bytes)
  with 1 show ?case
    by (simp add: decode_loop.simps [of table "emit_chars _ _ _ @ _"] collect_emits)
next
  case (2 table a b)
  have "emit_bytes 2 (push_bit 6 (drop_bit 14 (pack_group [a, b, 0]))) = [a, b]"
    by (simp only: small_nats emit_bytes.simps third_byte tail_bytes)
  with 2 show ?case
    using collect_emits(2) [OF 2, of "pack_group [a, b, 0]"]
    by (simp add: decode_loop.simps [of table "emit_chars _ _ _"])
next
  case (3 table a)
  have "emit_bytes 1 (push_bit 12 (drop_bit 20 (pack_group [a, 0, 0]))) = [a]"
    by (simp only: One_nat_def emit_bytes.simps third_byte tail_bytes)
  with 3 show ?case
    using collect_emits(1) [OF 3, of "pack_group [a, 0, 0]"]
    by (simp add: decode_loop.simps [of table "emit_chars _ _ _"])
qed simp

lemma encode_groups_b64:
  assumes "table_ok table" and "3 * j \<le> length src"
  shows "snd (encode_groups j table src) = drop (3 * j) src \<and>
    fst (encode_groups j table src) @ b64 table (drop (3 * j) src) = b64 table src \<and>
    filter (valid table) (fst (encode_groups j table src)) = fst (encode_groups j table src)"
  using assms(2)
proof (induction j arbitrary: src)
  case (Suc j)
  then obtain a b c rest where src: "src = a # b # c # rest"
    by (cases src; cases "tl src"; cases "tl (tl src)") auto
  have "drop (3 * Suc j) src = drop (3 * j) rest" "take 3 src = [a, b, c]" "drop 3 src = rest"
    by (simp_all add: src drop_Cons' take_Cons')
  with Suc.IH [of rest] Suc.prems assms(1) src show ?case
    by (simp add: split_beta valid_emit_chars)
qed simp

lemma encode_lines_b64:
  assumes ok: "table_ok table" and "3 * (19 * lines + g) \<le> length src"
  shows "snd (encode_lines lines g table crlf src) = drop (3 * (19 * lines + g)) src \<and>
    filter (valid table) (fst (encode_lines lines g table crlf src)) @
      b64 table (drop (3 * (19 * lines + g)) src) = b64 table src \<and>
    (crlf \<longrightarrow> (\<exists>out. fst (encode_lines lines g table crlf src) = out @ [CHR 0x0D, CHR 0x0A]))"
  using assms(2)
proof (induction lines arbitrary: src)
  case 0
  then show ?case
    using encode_groups_b64 [OF ok, of g src]
    by (auto simp: encode_lines.simps split_beta valid_skip [OF ok])
next
  case (Suc lines)
  have h: "snd (encode_groups 19 table src) = drop 57 src"
    "fst (encode_groups 19 table src) @ b64 table (drop 57 src) = b64 table src"
    "filter (valid table) (fst (encode_groups 19 table src)) = fst (encode_groups 19 table src)"
    using encode_groups_b64 [OF ok, of 19 src] Suc.prems by simp_all
  have d: "drop (3 * (19 * lines + g)) (drop 57 src) = drop (3 * (19 * Suc lines + g)) src"
    by (simp add: algebra_simps)
  have IH: "snd (encode_lines lines g table crlf (drop 57 src)) = drop (3 * (19 * Suc lines + g)) src"
    "filter (valid table) (fst (encode_lines lines g table crlf (drop 57 src))) @
      b64 table (drop (3 * (19 * Suc lines + g)) src) = b64 table (drop 57 src)"
    "crlf \<longrightarrow> (\<exists>out. fst (encode_lines lines g table crlf (drop 57 src)) = out @ [CHR 0x0D, CHR 0x0A])"
    using Suc.IH [of "drop 57 src"] Suc.prems unfolding d by auto
  show ?case
    unfolding encode_lines.simps [of "Suc lines"]
    using h IH by (auto simp: split_beta valid_skip [OF ok])
qed

lemma b64_tail:
  assumes "length src < 3"
  shows "b64 table src = (if src = [] then [] else
    emit_chars (length src + 1) table (pack_group (src @ replicate (3 - length src) 0)))"
proof -
  consider "src = []" | a where "src = [a]" | a b where "src = [a, b]"
    using assms by (cases src; cases "tl src"; cases "tl (tl src)") auto
  then show ?thesis
    by cases (simp_all add: numeral_eq_Suc del: emit_chars.simps)
qed

lemma CBase64_Encode_b64:
  "filter (valid (CBase64_table bStd)) (CBase64_Encode bStd src dwFlags) = b64 (CBase64_table bStd) src"
proof -
  let ?t = "CBase64_table bStd" and ?n = "length src" and ?crlf = "dwFlags AND BASE64_FLAG_NOCRLF = 0"
  let ?lines = "(?n div 3) * 4 div 76" and ?g = "((?n div 3) * 4 mod 76) div 4"
  have ok: "table_ok ?t" by simp
  have groups: "19 * ?lines + ?g = ?n div 3"
  proof -
    have "?n div 3 * 4 div (19 * 4) = ?n div 3 div 19" "?n div 3 * 4 mod (19 * 4) = (?n div 3 mod 19) * 4"
      by (simp_all only: div_mult_mult2 mod_mult_mult2)
    then show ?thesis by simp
  qed
  obtain out rest where e: "encode_lines ?lines ?g ?t ?crlf src = (out, rest)"
    by fastforce
  have "3 * (19 * ?lines + ?g) \<le> ?n" unfolding groups by simp
  note E = encode_lines_b64 [OF ok this, of ?crlf, unfolded e groups]
  let ?out = "if out \<noteq> [] \<and> ?crlf then take (length out - 2) out else out"
  have out: "filter (valid ?t) ?out = filter (valid ?t) out"
    using E by (auto simp: valid_skip [OF ok])
  have rest: "rest = drop (3 * (?n div 3)) src" "length rest = ?n mod 3"
    using E by (simp_all add: minus_mult_div_eq_mod)
  have tail: "b64 ?t rest = (if rest = [] then [] else
      emit_chars (length rest + 1) ?t (pack_group (rest @ replicate (3 - length rest) 0)))"
    by (rule b64_tail) (simp add: rest(2))
  have "filter (valid ?t) (CBase64_Encode bStd src dwFlags) = filter (valid ?t) out @ b64 ?t rest"
    using out rest(2) unfolding tail CBase64_Encode_def Let_def e
    by (auto simp: valid_emit_chars [OF ok] valid_skip [OF ok])
  then show ?thesis
    using E rest by simp
qed

text \<open>
  The decoder inverts the encoder for both tables, for every input and every combination
  of the no-padding and no-line-break flags: line breaks and padding are skipped and the
  trailing group of one or two bytes is rebuilt exactly.
\<close>

theorem cbase64_roundtrip: "CBase64_Decode bStd (CBase64_Encode bStd src dwFlags) = src"
  using decode_loop_filter [of "CBase64_table bStd" "CBase64_Encode bStd src dwFlags"]
    decode_b64 [of "CBase64_table bStd" src]
  by (simp add: CBase64_Decode_def CBase64_Encode_b64)

lemma coding_chars:
  "alpha (drop_bit 2 a) = alphabet ! unat (ucast (drop_bit 26 (pack_group [a, b, c])) :: byte)"
  "alpha (push_bit 4 (a AND 0x03) OR drop_bit 4 (b AND 0xF0)) =
     alphabet ! unat (ucast (drop_bit 26 (push_bit 6 (pack_group [a, b, c]))) :: byte)"
  "alpha (push_bit 2 (b AND 0x0F) OR drop_bit 6 (c AND 0xC0)) =
     alphabet ! unat (ucast (drop_bit 26 (push_bit 12 (pack_group [a, b, c]))) :: byte)"
  "alpha (c AND 0x3F) = alphabet ! unat (ucast (drop_bit 26 (push_bit 18 (pack_group [a, b, c]))) :: byte)"
proof -
  have m: "(0x03 :: byte) = mask 2" "(0xF0 :: byte) = push_bit 4 (mask 4)" "(0x0F :: byte) = mask 4"
    "(0xC0 :: byte) = push_bit 6 (mask 2)" "(0x3F :: byte) = mask 6"
    by (simp_all add: mask_eq_exp_minus_1)
  have "drop_bit 2 a = ucast (drop_bit 26 (pack_group [a, b, c]))"
    unfolding pack_group_3 by (rule bit_word_eqI) (auto simp: bit_simps dest: bit_imp_le_length)
  moreover have "push_bit 4 (a AND 0x03) OR drop_bit 4 (b AND 0xF0) =
      ucast (drop_bit 26 (push_bit 6 (pack_group [a, b, c])))"
    unfolding pack_group_3 m by (rule bit_word_eqI) (auto simp: bit_simps dest: bit_imp_le_length)
  moreover have "push_bit 2 (b AND 0x0F) OR drop_bit 6 (c AND 0xC0) =
      ucast (drop_bit 26 (push_bit 12 (pack_group [a, b, c])))"
    unfolding pack_group_3 m by (rule bit_word_eqI) (auto simp: bit_simps dest: bit_imp_le_length)
  moreover have "c AND 0x3F = ucast (drop_bit 26 (push_bit 18 (pack_group [a, b, c])))"
    unfolding pack_group_3 m by (rule bit_word_eqI) (auto simp: bit_simps dest: bit_imp_le_length)
  ultimately show
    "alpha (drop_bit 2 a) = alphabet ! unat (ucast (drop_bit 26 (pack_group [a, b, c])) :: byte)"
    "alpha (push_bit 4 (a AND 0x03) OR drop_bit 4 (b AND 0xF0)) =
       alphabet ! unat (ucast (drop_bit 26 (push_bit 6 (pack_group [a, b, c]))) :: byte)"
    "alpha (push_bit 2 (b AND 0x0F) OR drop_bit 6 (c AND 0xC0)) =
       alphabet ! unat (ucast (drop_bit 26 (push_bit 12 (pack_group [a, b, c]))) :: byte)"
    "alpha (c AND 0x3F) = alphabet ! unat (ucast (drop_bit 26 (push_bit 18 (pack_group [a, b, c]))) :: byte)"
    by (simp_all only: alpha_def)
qed

lemma alphabet_std: "alphabet = s_chBase64EncodingTable_std"
  by (simp add: alphabet_def s_chBase64EncodingTable_std_def)

lemma emit_4: "emit_chars 4 table w =
    [table ! unat (ucast (drop_bit 26 w) :: byte), table ! unat (ucast (drop_bit 26 (push_bit 6 w)) :: byte),
     table ! unat (ucast (drop_bit 26 (push_bit 12 w)) :: byte), table ! unat (ucast (drop_bit 26 (push_bit 18 w)) :: byte)]"
  and emit_3: "emit_chars 3 table w =
    [table ! unat (ucast (drop_bit 26 w) :: byte), table ! unat (ucast (drop_bit 26 (push_bit 6 w)) :: byte),
     table ! unat (ucast (drop_bit 26 (push_bit 12 w)) :: byte)]"
  and emit_2: "emit_chars 2 table w =
    [table ! unat (ucast (drop_bit 26 w) :: byte), table ! unat (ucast (drop_bit 26 (push_bit 6 w)) :: byte)]"
  by (simp_all only: small_nats emit_chars.simps shift_twice)

lemma group_coding:
  "[alpha (drop_bit 2 a), alpha (push_bit 4 (a AND 0x03) OR drop_bit 4 (b AND 0xF0)),
    alpha (push_bit 2 (b AND 0x0F) OR drop_bit 6 (c AND 0xC0)), alpha (c AND 0x3F)] =
   emit_chars 4 s_chBase64EncodingTable_std (pack_group [a, b, c])"
  by (simp only: emit_4 coding_chars [where a = a and b = b and c = c] alphabet_std)

lemma coding_loop_b64:
  "filter (valid s_chBase64EncodingTable_std) (coding_loop n src) = b64 s_chBase64EncodingTable_std src"
proof (induction n src rule: coding_loop.induct)
  case (2 n a)
  have "filter (valid s_chBase64EncodingTable_std) (coding_loop n [a]) =
      filter (valid s_chBase64EncodingTable_std) (emit_chars 2 s_chBase64EncodingTable_std (pack_group [a, 0, 0]))"
    using coding_chars(1,2) [where a = a and b = 0 and c = 0]
    by (simp add: emit_2 alphabet_std valid_skip [OF table_ok_std])
  then show ?case by (simp only: valid_emit_chars [OF table_ok_std] b64.simps)
next
  case (3 n a b)
  have "filter (valid s_chBase64EncodingTable_std) (coding_loop n [a, b]) =
      filter (valid s_chBase64EncodingTable_std) (emit_chars 3 s_chBase64EncodingTable_std (pack_group [a, b, 0]))"
    using coding_chars(1,2,3) [where a = a and b = b and c = 0]
    by (simp add: emit_3 alphabet_std valid_skip [OF table_ok_std])
  then show ?case by (simp only: valid_emit_chars [OF table_ok_std] b64.simps)
next
  case (4 n a b c src)
  have "filter (valid s_chBase64EncodingTable_std) (coding_loop n (a # b # c # src)) =
      filter (valid s_chBase64EncodingTable_std) (emit_chars 4 s_chBase64EncodingTable_std (pack_group [a, b, c])) @
      b64 s_chBase64EncodingTable_std src"
    using 4 unfolding coding_loop.simps group_coding
    by (cases "(n + 4) mod 72 = 0") (simp_all add: valid_skip [OF table_ok_std])
  then show ?case by (simp only: valid_emit_chars [OF table_ok_std] b64.simps)
qed (simp add: valid_skip [OF table_ok_std])

text \<open>
  Whatever the encoder of the HTTP proxy authentication writes, a decoder that skips the
  characters outside the alphabet recovers the credentials exactly: the surplus padding
  character and the line breaks never change the encoded data.
\<close>

theorem coding_encode_decodes: "CBase64_Decode True (CBase64Coding_Encode src) = src"
  using decode_loop_filter [of s_chBase64EncodingTable_std "CBase64Coding_Encode src"]
    decode_b64 [of s_chBase64EncodingTable_std src]
  by (simp add: CBase64_Decode_def CBase64_table_def CBase64Coding_Encode_def coding_loop_b64)

text \<open>
  C27. The encoder departs from RFC 4648: credentials whose length is a multiple of three get
  a surplus \<open>=\<close>, so the text is never a whole number of four-character groups, and from 54
  bytes on a line break is inserted after 72 characters, which ends the HTTP header line.
\<close>

theorem coding_encode_malformed:
  "if length src < 54 then length src mod 3 = 0 \<longrightarrow> length (CBase64Coding_Encode src) mod 4 = 1
   else CBase64Coding_Encode src ! 72 = CHR 0x0D \<and> CBase64Coding_Encode src ! 73 = CHR 0x0A"
proof (cases "length src < 54")
  case True
  have "n + 4 * (length s div 3) < 72 \<Longrightarrow> length s mod 3 = 0 \<Longrightarrow> length (coding_loop n s) mod 4 = 1" for n s
  proof (induction n s rule: coding_loop.induct)
    case (4 n a b c src)
    have len: "length (a # b # c # src) div 3 = Suc (length src div 3)" by simp
    with 4(3) have n: "(n + 4) mod 72 \<noteq> 0" "n + 4 + 4 * (length src div 3) < 72" by simp_all
    from 4(4) have "length src mod 3 = 0" by simp
    with 4(2) n have "length (coding_loop (n + 4) src) mod 4 = 1" by simp
    with n(1) show ?case by (simp only: coding_loop.simps if_False length_append) simp
  qed simp_all
  from this [of 0 src] True show ?thesis
    by (simp add: CBase64Coding_Encode_def)
next
  case False
  have "n mod 4 = 0 \<Longrightarrow> n < 72 \<Longrightarrow> 3 * (72 - n) \<le> 4 * length s \<Longrightarrow>
      coding_loop n s ! (72 - n) = CHR 0x0D \<and> coding_loop n s ! (73 - n) = CHR 0x0A" for n s
  proof (induction n s rule: coding_loop.induct)
    case (4 n a b c src)
    show ?case
    proof (cases "n = 68")
      case True
      then show ?thesis by (simp add: numeral_eq_Suc)
    next
      case False
      with 4(3,4) have n: "n + 4 < 72" by presburger
      then have "(n + 4) mod 72 \<noteq> 0" by simp
      with 4 n have IH: "coding_loop (n + 4) src ! (68 - n) = CHR 0x0D \<and> coding_loop (n + 4) src ! (69 - n) = CHR 0x0A"
        by simp
      have "xs = [w, x, y, z] @ zs \<Longrightarrow> xs ! (72 - n) = zs ! (68 - n) \<and> xs ! (73 - n) = zs ! (69 - n)"
        for w x y z :: char and xs zs
        using n by (simp add: nth_append)
      from this [OF coding_loop.simps(4) [of n a b c src]] show ?thesis
        using IH \<open>(n + 4) mod 72 \<noteq> 0\<close> by simp
    qed
  qed auto
  from this [of 0 src] False show ?thesis
    by (simp add: CBase64Coding_Encode_def)
qed

theorem coding_encode_malformed_witness:
  "length (CBase64Coding_Encode [97, 58, 98]) mod 4 = 1"
  using coding_encode_malformed [of "[97, 58, 98]"] by simp

end
