(* ===== verification/ProxyLayer.thy ===== *)
theory ProxyLayer
  imports Structs Socks5UdpCodec Base64
begin

text \<open>
  The client side of the proxy protocols: \<open>CAsyncProxySocketLayer\<close>
  (\<open>asynsocket/AsyncProxySocketLayer.cpp\<close>), an event-driven layer between the application's
  socket and the network that speaks SOCKS4, SOCKS4A, SOCKS5 (connect, bind and UDP
  associate) and HTTP CONNECT. Its members are the fields of \<open>Layer\<close>. What the next lower
  layer answers is a script of results in the same record: an exhausted script blocks
  (\<open>WSAEWOULDBLOCK\<close>), a received segment is handed out in the portions the reader asks for,
  and what the layer sends, the events it triggers and the callbacks it makes are recorded in
  order. The functions of the operating system are the fields of \<open>LayerEnv\<close>.
\<close>

section \<open>State\<close>

datatype fd = FD_READ | FD_WRITE | FD_ACCEPT | FD_CONNECT | FD_CLOSE

datatype proxy_code = PROXYERROR_NOCONN | PROXYERROR_REQUESTFAILED | PROXYERROR_AUTHREQUIRED
  | PROXYERROR_AUTHTYPEUNKNOWN | PROXYERROR_AUTHFAILED | PROXYERROR_AUTHNOLOGON
  | PROXYERROR_CANTRESOLVEHOST | PROXYSTATUS_LISTENSOCKETCREATED | PROXYERROR_UDP_UNSUPPORTED
  | PROXYERROR_SECURE_UNAVAILABLE | PROXYERROR_SECURE_HANDSHAKE

datatype layer_event =
    TriggerEvent fd int
  | DoLayerCallback proxy_code int cstr
  | ListenSocketCreated dword word16

datatype recv_result = RecvError int | RecvData bytes \<comment> \<open>no bytes: the peer closed\<close>
datatype send_result = SendError int | SendCount nat

datatype layer_state = notsock | unconnected | connecting | listening | connected | closed | aborted

abbreviation (input) "PROXYOP_CONNECT \<equiv> (1 :: nat)"
abbreviation (input) "PROXYOP_BIND \<equiv> (2 :: nat)"
abbreviation (input) "PROXYOP_UDPASSOCIATE \<equiv> (3 :: nat)"

abbreviation (input) "PROXYLANE_SECURE_LOAD_FAILED \<equiv> (20001 :: int)"
abbreviation (input) "PROXYLANE_SECURE_HANDSHAKE_FAILED \<equiv> (20002 :: int)"

text \<open>The control connection of a UDP association: no object, a live one, or a pointer to a deleted one.\<close>

datatype control_conn = NullConn | LiveConn | DeletedConn

record t_proxydata =
  nProxyType :: proxytype
  pd_strProxyHost :: cstr
  pd_nProxyPort :: int
  pd_strProxyUser :: cstr
  pd_strProxyPass :: cstr
  bUseLogon :: bool

record Layer =
  ly_ProxyData :: t_proxydata
  ly_nProxyOpID :: nat
  ly_nProxyOpState :: nat
  ly_pRecvBuffer :: "(nat \<times> bytes) option" \<comment> \<open>allocated size, bytes up to \<open>m_nRecvBufferPos\<close>\<close>
  ly_pStrBuffer :: bytes
  ly_pSendBuffer :: "(bytes \<times> nat) option" \<comment> \<open>the request and \<open>m_nSendBufferPos\<close>\<close>
  ly_pAppRecvBuffer :: "(bytes \<times> nat) option"
  ly_nProxyPeerPort :: word16
  ly_nProxyPeerIP :: dword
  ly_proxyPeerAddress :: sockaddr
  ly_pProxyPeerHost :: "cstr option"
  ly_udpcltAddr :: sockaddr
  ly_udpsrvAddr :: sockaddr
  ly_securePsk :: cstr
  ly_hasSecure :: bool
  ly_pS5UC :: control_conn
  ly_state :: layer_state
  \<comment> \<open>the next layer and what is observed\<close>
  nx_sendScript :: "send_result list"
  nx_recvScript :: "recv_result list"
  nx_sent :: bytes
  nx_events :: "layer_event list"
  nx_lastError :: int

text \<open>
  The functions the layer calls outside the sources: address text conversions, name
  resolution, the result of connecting the next layer (\<open>None\<close> is TRUE, otherwise the error
  number), the peer of the control connection, what the secure layer does to datagrams, the
  datagram calls of the socket, and the memory behind the HTTP buffer, which the C library
  scanner may run into.
\<close>

record LayerEnv =
  e_inet_addr :: "cstr \<Rightarrow> dword"
  e_gethostbyname :: "cstr \<Rightarrow> dword option"
  e_connect :: "cstr \<Rightarrow> int \<Rightarrow> int option"
  e_connectAddr :: "sockaddr option \<Rightarrow> int \<Rightarrow> int option"
  e_peername :: "sockaddr option"
  e_ntop6 :: "bytes \<Rightarrow> cstr option"
  e_afterBuffer :: bytes
  e_uninitStatus :: dword
  e_optionalModules :: bool
  e_alloc :: "nat \<Rightarrow> bool"
  e_hasUdpKey :: bool
  e_EncryptUdp :: "bytes \<Rightarrow> bytes option"
  e_DecryptUdp :: "nat \<Rightarrow> bytes \<Rightarrow> bytes option"
  e_sendto :: "bytes \<Rightarrow> sockaddr \<Rightarrow> int \<times> int" \<comment> \<open>result and error number\<close>
  e_WSASendTo :: "bytes list \<Rightarrow> sockaddr \<Rightarrow> int \<times> dword \<times> int" \<comment> \<open>result, bytes sent, error number\<close>
  e_WSARecvFrom :: "nat list \<Rightarrow> int \<times> bytes \<times> int" \<comment> \<open>result, bytes scattered over the buffers, error number\<close>
  e_getsockname :: "sockaddr option"
  e_recvfrom :: "nat \<Rightarrow> (bytes \<times> sockaddr, int) sum"

section \<open>Primitives of the layer\<close>

definition trigger :: "fd \<Rightarrow> int \<Rightarrow> Layer \<Rightarrow> Layer" where
  "trigger ev err l = l\<lparr>nx_events := nx_events l @ [TriggerEvent ev err]\<rparr>"

definition callback :: "proxy_code \<Rightarrow> int \<Rightarrow> cstr \<Rightarrow> Layer \<Rightarrow> Layer" where
  "callback code w txt l = l\<lparr>nx_events := nx_events l @ [DoLayerCallback code w txt]\<rparr>"

definition SetLastError :: "int \<Rightarrow> Layer \<Rightarrow> Layer" where
  "SetLastError e l = l\<lparr>nx_lastError := e\<rparr>"

definition SendNext :: "bytes \<Rightarrow> Layer \<Rightarrow> int \<times> Layer" where
  "SendNext data l =
     (case nx_sendScript l of
        [] \<Rightarrow> (SOCKET_ERROR, SetLastError WSAEWOULDBLOCK l)
      | SendError e # rs \<Rightarrow> (SOCKET_ERROR, SetLastError e (l\<lparr>nx_sendScript := rs\<rparr>))
      | SendCount n # rs \<Rightarrow>
          (int (min n (length data)),
           l\<lparr>nx_sendScript := rs, nx_sent := nx_sent l @ take n data\<rparr>))"

text \<open>\<open>None\<close> is \<open>SOCKET_ERROR\<close>; a segment longer than the reader's buffer stays for the next call.\<close>

definition ReceiveNext :: "nat \<Rightarrow> Layer \<Rightarrow> bytes option \<times> Layer" where
  "ReceiveNext n l =
     (case nx_recvScript l of
        [] \<Rightarrow> (None, SetLastError WSAEWOULDBLOCK l)
      | RecvError e # rs \<Rightarrow> (None, SetLastError e (l\<lparr>nx_recvScript := rs\<rparr>))
      | RecvData d # rs \<Rightarrow>
          (Some (take n d),
           l\<lparr>nx_recvScript := (if n < length d then RecvData (drop n d) # rs else rs)\<rparr>))"

definition Layer_ClearBuffer :: "Layer \<Rightarrow> Layer" where
  "Layer_ClearBuffer l = l\<lparr>ly_pStrBuffer := [], ly_pRecvBuffer := None\<rparr>"

definition Layer_Reset :: "Layer \<Rightarrow> Layer" where
  "Layer_Reset l = l\<lparr>ly_nProxyOpState := 0, ly_nProxyOpID := 0\<rparr>"

definition ClearSendBuffer :: "Layer \<Rightarrow> Layer" where
  "ClearSendBuffer l = l\<lparr>ly_pSendBuffer := None\<rparr>"

text \<open>The event that ends a pending operation: connect and associate report through \<open>FD_CONNECT\<close>.\<close>

definition op_event :: "Layer \<Rightarrow> fd" where
  "op_event l = (if ly_nProxyOpID l = PROXYOP_CONNECT \<or> ly_nProxyOpID l = PROXYOP_UDPASSOCIATE
                 then FD_CONNECT else FD_ACCEPT)"

definition connect_event :: "Layer \<Rightarrow> fd" where
  "connect_event l = (if ly_nProxyOpID l = PROXYOP_CONNECT then FD_CONNECT else FD_ACCEPT)"

definition FailPendingProxyOperation :: "int \<Rightarrow> Layer \<Rightarrow> Layer" where
  "FailPendingProxyOperation errorCode l =
     (if ly_nProxyOpID l = 0 then l
      else let errorCode = (if errorCode = 0 then WSAECONNABORTED else errorCode);
               event = op_event l
           in trigger event errorCode (ClearSendBuffer (Layer_ClearBuffer (Layer_Reset
                (callback PROXYERROR_REQUESTFAILED errorCode [] l)))))"

section \<open>Sending a request\<close>

function FlushProxyRequest :: "Layer \<Rightarrow> bool \<times> Layer" where
  "FlushProxyRequest l =
     (case ly_pSendBuffer l of None \<Rightarrow> (True, l)
      | Some (buf, pos) \<Rightarrow>
        if pos < length buf then
          (let (sent, l') = SendNext (drop pos buf) l in
           if sent = SOCKET_ERROR then
             (if nx_lastError l' = WSAEWOULDBLOCK then (True, l') else (False, ClearSendBuffer l'))
           else if sent \<le> 0 then (False, ClearSendBuffer (SetLastError WSAECONNRESET l'))
           else FlushProxyRequest (l'\<lparr>ly_pSendBuffer := Some (buf, pos + nat sent)\<rparr>))
        else if pos = length buf then (True, ClearSendBuffer l)
        else (True, l))"
  by pat_completeness auto
termination
  by (relation "measure (\<lambda>l. case ly_pSendBuffer l of None \<Rightarrow> 0 | Some (buf, pos) \<Rightarrow> length buf - pos)") auto

declare FlushProxyRequest.simps [simp del]

definition QueueProxyRequest :: "LayerEnv \<Rightarrow> bytes \<Rightarrow> Layer \<Rightarrow> bool \<times> Layer" where
  "QueueProxyRequest env data l =
     (if data = [] \<or> ly_pSendBuffer l \<noteq> None then (False, SetLastError WSAEINVAL l)
      else if \<not> e_alloc env (length data) then (False, SetLastError WSAENOBUFS l)
      else FlushProxyRequest (l\<lparr>ly_pSendBuffer := Some (data, 0)\<rparr>))"

section \<open>Configuration\<close>

definition SetProxy_none :: "Layer \<Rightarrow> Layer" where
  "SetProxy_none l = l\<lparr>ly_ProxyData := (ly_ProxyData l)\<lparr>nProxyType := PROXYTYPE_NOPROXY\<rparr>\<rparr>"

definition SetProxy :: "proxytype \<Rightarrow> cstr \<Rightarrow> int \<Rightarrow> Layer \<Rightarrow> Layer" where
  "SetProxy ty host port l =
     l\<lparr>ly_ProxyData := (ly_ProxyData l)\<lparr>nProxyType := ty, pd_strProxyHost := host, pd_nProxyPort := port,
        bUseLogon := False\<rparr>\<rparr>"

definition SetProxy_logon :: "proxytype \<Rightarrow> cstr \<Rightarrow> int \<Rightarrow> cstr \<Rightarrow> cstr \<Rightarrow> Layer \<Rightarrow> Layer" where
  "SetProxy_logon ty host port user pass l =
     l\<lparr>ly_ProxyData := \<lparr>nProxyType = ty, pd_strProxyHost = host, pd_nProxyPort = port,
        pd_strProxyUser = user, pd_strProxyPass = pass, bUseLogon = True\<rparr>\<rparr>"

definition SetSecureTransport :: "LayerEnv \<Rightarrow> cstr \<Rightarrow> Layer \<Rightarrow> bool \<times> Layer" where
  "SetSecureTransport env psk l =
     (if \<not> e_optionalModules env then (False, SetLastError WSAEOPNOTSUPP l)
      else if psk = [] \<or> nProxyType (ly_ProxyData l) \<noteq> PROXYTYPE_SOCKS5 then (False, SetLastError WSAEINVAL l)
      else (True, l\<lparr>ly_securePsk := psk\<rparr>))"

definition Layer_Close :: "Layer \<Rightarrow> Layer" where
  "Layer_Close l =
     Layer_Reset ((ClearSendBuffer (Layer_ClearBuffer
       (l\<lparr>ly_ProxyData := (ly_ProxyData l)\<lparr>pd_strProxyHost := [], pd_strProxyUser := [], pd_strProxyPass := []\<rparr>,
          ly_pProxyPeerHost := None\<rparr>)))\<lparr>ly_pAppRecvBuffer := None\<rparr>)"

section \<open>Texts\<close>

definition quoted :: "cstr \<Rightarrow> cstr" where
  "quoted s = [CHR 0x27] @ s @ [CHR 0x27]"

definition GetSocks4Error :: "nat \<Rightarrow> nat \<Rightarrow> cstr" where
  "GetSocks4Error ver cd =
     (if ver \<noteq> 0 then ''Unknown protocol version: '' @ show_nat ver
      else if cd = 90 then []
      else if cd = 91 then ''Request rejected or failed''
      else if cd = 92 then ''Failed to connect to '' @ quoted ''identd''
      else if cd = 93 then quoted ''identd'' @ '' user-id error''
      else ''Unknown command: '' @ show_nat cd)"

definition GetSocks5Error :: "nat \<Rightarrow> cstr" where
  "GetSocks5Error rep =
     (if rep = 0 then []
      else if rep = 1 then ''General SOCKS server failure''
      else if rep = 2 then ''Connection not allowed by ruleset''
      else if rep = 3 then ''Network unreachable''
      else if rep = 4 then ''Host unreachable''
      else if rep = 5 then ''Connection refused''
      else if rep = 6 then ''TTL expired''
      else if rep = 7 then ''Command not supported''
      else if rep = 8 then ''Address type not supported''
      else ''Unknown reply: '' @ show_nat rep)"

text \<open>A \<open>char\<close> passed as \<open>UINT\<close> is sign-extended.\<close>

definition char_uint :: "byte \<Rightarrow> nat" where
  "char_uint b = unat (scast b :: dword)"

section \<open>Events other than receive\<close>

definition Layer_OnClose :: "int \<Rightarrow> Layer \<Rightarrow> Layer" where
  "Layer_OnClose nErrorCode l =
     (if ly_nProxyOpID l \<noteq> 0 then FailPendingProxyOperation nErrorCode l
      else trigger FD_CLOSE nErrorCode l)"

definition Layer_OnAccept :: "int \<Rightarrow> Layer \<Rightarrow> Layer" where
  "Layer_OnAccept nErrorCode l = trigger FD_ACCEPT nErrorCode l"

definition send_failed :: "int \<Rightarrow> Layer \<Rightarrow> Layer" where
  "send_failed nErrorCode l =
     (let errorCode = (if nErrorCode \<noteq> 0 then nErrorCode else nx_lastError l);
          l = callback PROXYERROR_REQUESTFAILED errorCode [] l
      in Layer_ClearBuffer (Layer_Reset
           (trigger (op_event l) (if errorCode \<noteq> 0 then errorCode else WSAECONNABORTED) l)))"

definition Layer_OnSend :: "int \<Rightarrow> Layer \<Rightarrow> Layer" where
  "Layer_OnSend nErrorCode l =
     (if ly_pSendBuffer l \<noteq> None then
        (if nErrorCode \<noteq> 0 then send_failed nErrorCode l
         else let (ok, l) = FlushProxyRequest l in if \<not> ok then send_failed 0 l else l)
      else if ly_nProxyOpID l \<noteq> 0 then l
      else trigger FD_WRITE nErrorCode l)"

section \<open>Receiving: SOCKS4\<close>

text \<open>The end of a failed read, shared by the reply handlers; SOCKS5 keeps the buffer.\<close>

definition read_failed :: "bool \<Rightarrow> Layer \<Rightarrow> Layer" where
  "read_failed clear l =
     (let err = nx_lastError l in
      if err = WSAEWOULDBLOCK then l
      else let l' = Layer_Reset (trigger (op_event l) err (callback PROXYERROR_REQUESTFAILED err [] l))
           in if clear then Layer_ClearBuffer l' else l')"

definition abort_op :: "fd \<Rightarrow> proxy_code \<Rightarrow> int \<Rightarrow> cstr \<Rightarrow> int \<Rightarrow> Layer \<Rightarrow> Layer" where
  "abort_op ev code w txt err l =
     Layer_ClearBuffer (Layer_Reset (trigger ev err (callback code w txt l)))"

definition recv_bytes :: "Layer \<Rightarrow> bytes" where
  "recv_bytes l = (case ly_pRecvBuffer l of None \<Rightarrow> [] | Some (_, b) \<Rightarrow> b)"

definition alloc_recv :: "nat \<Rightarrow> Layer \<Rightarrow> Layer" where
  "alloc_recv n l = (if ly_pRecvBuffer l = None then l\<lparr>ly_pRecvBuffer := Some (n, [])\<rparr> else l)"

definition append_recv :: "bytes \<Rightarrow> Layer \<Rightarrow> Layer" where
  "append_recv d l = (case ly_pRecvBuffer l of None \<Rightarrow> l
     | Some (n, b) \<Rightarrow> l\<lparr>ly_pRecvBuffer := Some (n, b @ d)\<rparr>)"

definition opened :: "fd \<Rightarrow> Layer \<Rightarrow> Layer" where
  "opened ev l = trigger FD_WRITE 0 (trigger FD_READ 0 (trigger ev 0 l))"

definition Layer_GetPeerName :: "LayerEnv \<Rightarrow> int option \<Rightarrow> Layer \<Rightarrow> sockaddr option \<times> Layer" where
  "Layer_GetPeerName env len l =
     (if nProxyType (ly_ProxyData l) = PROXYTYPE_NOPROXY then (e_peername env, l)
      else if ly_state l = notsock then (None, SetLastError WSAENOTSOCK l)
      else if ly_state l \<noteq> connected then (None, SetLastError WSAENOTCONN l)
      else if (\<not> sa_IsIPv4 (ly_proxyPeerAddress l) \<and> \<not> sa_IsIPv6 (ly_proxyPeerAddress l)) \<or> ly_nProxyPeerPort l = 0
        then (None, SetLastError WSAENOTCONN l)
      else case len of None \<Rightarrow> (None, SetLastError WSAEFAULT l)
        | Some n \<Rightarrow> if n < sa_Size (ly_proxyPeerAddress l) then (None, SetLastError WSAEFAULT l)
                    else (Some (ly_proxyPeerAddress l), l))"

definition socks4_bound :: "LayerEnv \<Rightarrow> bytes \<Rightarrow> Layer \<Rightarrow> Layer" where
  "socks4_bound env reply l =
     (let l = l\<lparr>ly_nProxyOpState := 2\<rparr>; ip = bytes_dword (drop 4 reply); port = bytes_word16 (drop 2 reply) in
      if ip = 0 then
        (case Layer_GetPeerName env (Some 16) l of
           (None, l) \<Rightarrow> abort_op (connect_event l) PROXYERROR_REQUESTFAILED 0 [] WSAECONNABORTED l
         | (Some peer, l) \<Rightarrow>
             Layer_ClearBuffer (l\<lparr>nx_events := nx_events l @ [ListenSocketCreated (sin_addr peer) port]\<rparr>))
      else Layer_ClearBuffer (l\<lparr>nx_events := nx_events l @ [ListenSocketCreated ip port]\<rparr>))"

definition socks4_complete :: "LayerEnv \<Rightarrow> Layer \<Rightarrow> Layer" where
  "socks4_complete env l =
     (let b = recv_bytes l in
      if b ! 0 \<noteq> 0 \<or> b ! 1 \<noteq> 90 then
        abort_op (op_event l) PROXYERROR_REQUESTFAILED 0 (GetSocks4Error (char_uint (b ! 0)) (char_uint (b ! 1)))
          WSAECONNABORTED l
      else if (ly_nProxyOpID l = PROXYOP_CONNECT \<and> ly_nProxyOpState l = 1) \<or>
              (ly_nProxyOpID l = PROXYOP_BIND \<and> ly_nProxyOpState l = 2)
        then opened (connect_event l) (Layer_Reset (Layer_ClearBuffer l))
      else if ly_nProxyOpID l = PROXYOP_BIND \<and> ly_nProxyOpState l = 1 then socks4_bound env b l
      else Layer_ClearBuffer l)"

definition socks4_receive :: "LayerEnv \<Rightarrow> Layer \<Rightarrow> Layer" where
  "socks4_receive env l =
     (if ly_nProxyOpState l = 1 \<or> ly_nProxyOpState l = 2 then
        (let l = alloc_recv 8 l in
         case ReceiveNext (8 - length (recv_bytes l)) l of
           (None, l) \<Rightarrow> read_failed True l
         | (Some d, l) \<Rightarrow>
             if d = [] then FailPendingProxyOperation WSAECONNABORTED l
             else let l = append_recv d l in
               if length (recv_bytes l) = 8 then socks4_complete env l else l)
      else l)"

section \<open>Receiving: SOCKS5\<close>

text \<open>
  The authentication request: \<open>_snprintf\<close> into 513 bytes gives \<open>-1\<close>, and then no request, when
  the text does not fit; the length bytes are the lengths modulo 256.
\<close>

definition auth_request :: "t_proxydata \<Rightarrow> bytes" where
  "auth_request pd =
     (let req = [1, of_nat (length (pd_strProxyUser pd))] @ cstr_bytes (pd_strProxyUser pd) @
                [of_nat (length (pd_strProxyPass pd))] @ cstr_bytes (pd_strProxyPass pd)
      in if length req > 513 then [] else req)"

text \<open>The failure of a queued handshake request; the receive buffer stays until the next connect.\<close>

definition queue_failed :: "Layer \<Rightarrow> Layer" where
  "queue_failed l =
     (let err = nx_lastError l
      in Layer_Reset (trigger (op_event l) err (callback PROXYERROR_REQUESTFAILED err [] l)))"

definition socks5_authenticate :: "LayerEnv \<Rightarrow> Layer \<Rightarrow> Layer" where
  "socks5_authenticate env l =
     (let (ok, l) = QueueProxyRequest env (auth_request (ly_ProxyData l)) l in
      if \<not> ok then queue_failed l
      else (Layer_ClearBuffer l)\<lparr>ly_nProxyOpState := 2\<rparr>)"

definition socks5_needs_host :: "Layer \<Rightarrow> bool" where
  "socks5_needs_host l \<longleftrightarrow> \<not> sa_IsIPv6 (ly_proxyPeerAddress l) \<and> ly_nProxyPeerIP l = 0 \<and>
     ly_nProxyOpID l \<noteq> PROXYOP_UDPASSOCIATE"

definition socks5_request :: "Layer \<Rightarrow> cstr \<Rightarrow> bytes" where
  "socks5_request l host =
     [5, of_nat (ly_nProxyOpID l), 0] @
     (if ly_nProxyOpID l = PROXYOP_UDPASSOCIATE then
        [1] @ dword_bytes (sin_addr (ly_udpcltAddr l)) @ word16_bytes (sin_port (ly_udpcltAddr l))
      else
        (if sa_IsIPv6 (ly_proxyPeerAddress l) then [4] @ sin6_addr (ly_proxyPeerAddress l)
         else if ly_nProxyPeerIP l \<noteq> 0 then [1] @ dword_bytes (ly_nProxyPeerIP l)
         else [3, of_nat (length host)] @ cstr_bytes host) @
        word16_bytes (ly_nProxyPeerPort l))"

definition socks5_send_request :: "LayerEnv \<Rightarrow> Layer \<Rightarrow> Layer" where
  "socks5_send_request env l =
     (if socks5_needs_host l \<and> ly_pProxyPeerHost l = None then
        Layer_Reset (trigger FD_CONNECT WSAEINVAL (callback PROXYERROR_REQUESTFAILED WSAEINVAL [] l))
      else
        let (ok, l) = QueueProxyRequest env
              (socks5_request l (case ly_pProxyPeerHost l of Some h \<Rightarrow> h | None \<Rightarrow> [])) l in
        if \<not> ok then queue_failed l
        else Layer_ClearBuffer (l\<lparr>ly_nProxyOpState := 3\<rparr>))"

definition socks5_method_complete :: "LayerEnv \<Rightarrow> Layer \<Rightarrow> Layer" where
  "socks5_method_complete env l =
     (let b = recv_bytes l;
          bIniReqFailed = (ly_nProxyOpState l = 1 \<and> b ! 0 \<noteq> 5);
          bAuthReqFailed = (ly_nProxyOpState l = 2 \<and> b ! 1 \<noteq> 0)
      in if bIniReqFailed \<or> bAuthReqFailed then
           abort_op (op_event l) (if bAuthReqFailed then PROXYERROR_AUTHFAILED else PROXYERROR_REQUESTFAILED)
             0 [] WSAECONNABORTED l
         else if ly_nProxyOpState l = 1 \<and> b ! 1 \<noteq> 0 then
           (if b ! 1 \<noteq> 2 then abort_op (op_event l) PROXYERROR_AUTHTYPEUNKNOWN 0 [] WSAECONNABORTED l
            else if \<not> bUseLogon (ly_ProxyData l) then
              abort_op (op_event l) PROXYERROR_AUTHNOLOGON 0 [] WSAECONNABORTED l
            else socks5_authenticate env l)
         else socks5_send_request env l)"

definition socks5_method_receive :: "LayerEnv \<Rightarrow> Layer \<Rightarrow> Layer" where
  "socks5_method_receive env l =
     (let l = alloc_recv 2 l in
      case ReceiveNext (2 - length (recv_bytes l)) l of
        (None, l) \<Rightarrow> read_failed False l
      | (Some d, l) \<Rightarrow>
          if d = [] then FailPendingProxyOperation WSAECONNABORTED l
          else let l = append_recv d l in
            if length (recv_bytes l) = 2 then socks5_method_complete env l else l)"

text \<open>How long the reply is, as far as its bytes tell; \<open>None\<close> for an unknown address type.\<close>

definition reply_length :: "bytes \<Rightarrow> nat option" where
  "reply_length b =
     (if length b < 4 then Some 4
      else if b ! 3 = 1 then Some 10
      else if b ! 3 = 3 then Some (if length b < 5 then 5 else 7 + unat (b ! 4))
      else if b ! 3 = 4 then Some 22
      else None)"

text \<open>The relay address of a UDP ASSOCIATE reply; \<open>None\<close> when its name does not resolve.\<close>

definition relay_address :: "LayerEnv \<Rightarrow> bytes \<Rightarrow> sockaddr option" where
  "relay_address env b =
     (let base = sa_Clear\<lparr>sa_family := AF_INET\<rparr> in
      map_option (\<lambda>a. if sin_addr a = INADDR_ANY then
          (case e_peername env of Some peer \<Rightarrow> a\<lparr>sin_addr := sin_addr peer\<rparr> | None \<Rightarrow> a) else a)
        (if b ! 3 = 1 then Some (base\<lparr>sin_port := bytes_word16 (drop 8 b), sin_addr := bytes_dword (drop 4 b)\<rparr>)
         else let n = unat (b ! 4) in
           map_option (\<lambda>ip. base\<lparr>sin_port := bytes_word16 (drop (5 + n) b), sin_addr := ip\<rparr>)
             (e_gethostbyname env (bytes_cstr (take n (drop 5 b))))))"

definition socks5_associated :: "LayerEnv \<Rightarrow> Layer \<Rightarrow> Layer" where
  "socks5_associated env l =
     (let b = recv_bytes l in
      if b ! 3 \<noteq> 1 \<and> b ! 3 \<noteq> 3 then
        abort_op FD_CONNECT PROXYERROR_REQUESTFAILED WSAEAFNOSUPPORT ''UDP ASSOCIATE returned a non-IPv4 relay''
          WSAEAFNOSUPPORT l
      else case relay_address env b of
        None \<Rightarrow> Layer_ClearBuffer (Layer_Reset (trigger FD_CONNECT WSAHOST_NOT_FOUND
           (l\<lparr>ly_udpsrvAddr := sa_Clear\<lparr>sa_family := AF_INET,
                sin_port := bytes_word16 (drop (5 + unat (b ! 4)) b)\<rparr>\<rparr>)))
      | Some a \<Rightarrow> trigger FD_CONNECT 0 (Layer_ClearBuffer (Layer_Reset (l\<lparr>ly_udpsrvAddr := a\<rparr>))))"

definition socks5_reply_complete :: "LayerEnv \<Rightarrow> Layer \<Rightarrow> Layer" where
  "socks5_reply_complete env l =
     (let b = recv_bytes l in
      if b ! 0 \<noteq> 5 \<or> b ! 1 \<noteq> 0 then
        (let udpUnsupported = (ly_nProxyOpID l = PROXYOP_UDPASSOCIATE \<and> b ! 1 = 7);
             operationError = (if udpUnsupported then WSAEOPNOTSUPP else WSAECONNABORTED)
         in abort_op (op_event l) (if udpUnsupported then PROXYERROR_UDP_UNSUPPORTED else PROXYERROR_REQUESTFAILED)
              operationError (GetSocks5Error (char_uint (b ! 1))) operationError l)
      else if (ly_nProxyOpID l = PROXYOP_CONNECT \<and> ly_nProxyOpState l = 3) \<or>
              (ly_nProxyOpID l = PROXYOP_BIND \<and> ly_nProxyOpState l = 4) then
        opened (connect_event l) (Layer_ClearBuffer (Layer_Reset l))
      else if ly_nProxyOpID l = PROXYOP_BIND \<and> ly_nProxyOpState l = 3 then
        (if b ! 3 \<noteq> 1 then
           abort_op (connect_event l) PROXYERROR_REQUESTFAILED 0 ''Unexpected ATYP received'' WSAECONNABORTED l
         else Layer_ClearBuffer (l\<lparr>ly_nProxyOpState := 4,
                nx_events := nx_events l @ [ListenSocketCreated (bytes_dword (drop 4 b)) (bytes_word16 (drop 8 b))]\<rparr>))
      else if ly_nProxyOpID l = PROXYOP_UDPASSOCIATE \<and> ly_nProxyOpState l = 3 then
        socks5_associated env l
      else Layer_ClearBuffer l)"

definition socks5_reply_receive :: "LayerEnv \<Rightarrow> Layer \<Rightarrow> Layer" where
  "socks5_reply_receive env l =
     (let l = alloc_recv 262 l; b = recv_bytes l;
          responseLength = (case reply_length b of Some n \<Rightarrow> n | None \<Rightarrow> 4)
      in case ReceiveNext (responseLength - length b) l of
        (None, l) \<Rightarrow> read_failed False l
      | (Some d, l) \<Rightarrow>
          if d = [] then FailPendingProxyOperation WSAECONNABORTED l
          else let l = append_recv d l; b = recv_bytes l in
            if length b < 4 then l
            else case reply_length b of
              None \<Rightarrow> abort_op (op_event l) PROXYERROR_REQUESTFAILED WSAEAFNOSUPPORT ''Unexpected ATYP received''
                        WSAEAFNOSUPPORT l
            | Some n \<Rightarrow> if length b = n then socks5_reply_complete env l else l)"

section \<open>Receiving: HTTP\<close>

definition CRLFCRLF :: bytes where
  "CRLFCRLF = [13, 10, 13, 10]"

text \<open>The search for the end of the header: the offset behind the first blank line.\<close>

fun find_eoh :: "nat \<Rightarrow> bytes \<Rightarrow> nat option" where
  "find_eoh i [] = None"
| "find_eoh i (b # bs) = (if take 4 (b # bs) = CRLFCRLF then Some (i + 4) else find_eoh (Suc i) bs)"

text \<open>
  \<open>sscanf(buffer, "HTTP/%*u.%*u %u", ...)\<close>: literal bytes, unsigned numbers (white space and a
  sign before the digits are accepted), and the blank of the format, which skips any white
  space, line breaks included. The scan runs on into the memory behind the buffer. The result
  is the converted number when exactly one conversion is stored.
\<close>

definition is_space :: "byte \<Rightarrow> bool" where
  "is_space b \<longleftrightarrow> b = 32 \<or> (9 \<le> b \<and> b \<le> 13)"

definition is_digit :: "byte \<Rightarrow> bool" where
  "is_digit b \<longleftrightarrow> 48 \<le> b \<and> b \<le> 57"

definition scan_unsigned :: "bytes \<Rightarrow> (dword \<times> bytes) option" where
  "scan_unsigned bs =
     (let bs = dropWhile is_space bs;
          neg = (bs \<noteq> [] \<and> hd bs = 45);
          bs = (if bs \<noteq> [] \<and> (hd bs = 43 \<or> hd bs = 45) then tl bs else bs);
          ds = takeWhile is_digit bs
      in if ds = [] then None
         else let v = foldl (\<lambda>v d. 10 * v + ucast d - 48) 0 ds
              in Some (if neg then - v else v, dropWhile is_digit bs))"

definition http_status :: "bytes \<Rightarrow> dword option" where
  "http_status bs =
     (if take 5 bs \<noteq> [72, 84, 84, 80, 47] then None
      else case scan_unsigned (drop 5 bs) of None \<Rightarrow> None
      | Some (_, bs) \<Rightarrow>
        (case bs of [] \<Rightarrow> None
         | c # bs \<Rightarrow> if c \<noteq> 46 then None
           else case scan_unsigned bs of None \<Rightarrow> None
           | Some (_, bs) \<Rightarrow>
             (case scan_unsigned (dropWhile is_space bs) of None \<Rightarrow> None
              | Some (v, _) \<Rightarrow> Some v)))"

text \<open>The first line of the buffer, as the error text shows it.\<close>

definition first_line :: "bytes \<Rightarrow> cstr" where
  "first_line b =
     (let line = takeWhile (\<lambda>c. c \<noteq> 10) b
      in bytes_cstr (if line \<noteq> [] \<and> last line = 13 then butlast line else line))"

definition http_refused :: "LayerEnv \<Rightarrow> Layer \<Rightarrow> Layer" where
  "http_refused env l =
     (let b = ly_pStrBuffer l;
          status = (case http_status (b @ e_afterBuffer env) of Some v \<Rightarrow> v | None \<Rightarrow> e_uninitStatus env);
          l = (if take 4 b = [72, 84, 84, 80] then
                 (if status = 407 then callback PROXYERROR_AUTHREQUIRED 0 [] l
                  else callback PROXYERROR_REQUESTFAILED 0 (first_line b) l)
               else callback PROXYERROR_REQUESTFAILED 0 ''Invalid HTTP response'' l)
      in trigger FD_CONNECT WSAECONNABORTED (Layer_ClearBuffer (Layer_Reset l)))"

definition http_complete :: "LayerEnv \<Rightarrow> nat \<Rightarrow> Layer \<Rightarrow> Layer" where
  "http_complete env iHeaderEnd l =
     (if http_status (ly_pStrBuffer l @ e_afterBuffer env) \<noteq> Some 200 then http_refused env l
      else let surplus = drop iHeaderEnd (ly_pStrBuffer l);
               l = (if surplus \<noteq> [] then l\<lparr>ly_pAppRecvBuffer := Some (surplus, 0)\<rparr> else l)
           in opened FD_CONNECT (Layer_ClearBuffer (Layer_Reset l)))"

definition http_too_large :: "Layer \<Rightarrow> Layer" where
  "http_too_large l = trigger FD_CONNECT WSAECONNABORTED (Layer_ClearBuffer (Layer_Reset
     (callback PROXYERROR_REQUESTFAILED 0 ''Invalid HTTP response - Header size exceeds limit'' l)))"

definition http_read_failed :: "Layer \<Rightarrow> Layer" where
  "http_read_failed l =
     (let err = nx_lastError l in
      if err = WSAEWOULDBLOCK then l
      else trigger FD_CONNECT err (Layer_ClearBuffer (Layer_Reset (callback PROXYERROR_REQUESTFAILED err [] l))))"

lemma ReceiveNext_str: "ReceiveNext n l = (r, l') \<Longrightarrow> ly_pStrBuffer l' = ly_pStrBuffer l"
  by (auto simp: ReceiveNext_def SetLastError_def split: list.splits recv_result.splits)

function http_receive :: "LayerEnv \<Rightarrow> Layer \<Rightarrow> Layer" where
  "http_receive env l =
     (case ReceiveNext 4096 l of
        (None, l') \<Rightarrow> http_read_failed l'
      | (Some d, l') \<Rightarrow>
          if d = [] then FailPendingProxyOperation WSAECONNABORTED l'
          else if 4096 < length (ly_pStrBuffer l') + length d \<or>
                  \<not> e_alloc env (length (ly_pStrBuffer l') + length d) then http_too_large l'
          else let l' = l'\<lparr>ly_pStrBuffer := ly_pStrBuffer l' @ d\<rparr> in
            case find_eoh 0 (ly_pStrBuffer l') of
              Some iHeaderEnd \<Rightarrow> http_complete env iHeaderEnd l'
            | None \<Rightarrow> http_receive env l')"
  by pat_completeness auto

termination
  by (relation "measure (\<lambda>(env, l). 4097 - length (ly_pStrBuffer l))") (auto dest!: ReceiveNext_str [OF sym] simp flip: length_greater_0_conv)

declare http_receive.simps [simp del]

section \<open>The receive handler\<close>

definition Layer_OnReceive :: "LayerEnv \<Rightarrow> int \<Rightarrow> Layer \<Rightarrow> Layer" where
  "Layer_OnReceive env nErrorCode l =
     (if ly_nProxyOpID l = 0 then trigger FD_READ nErrorCode l
      else if nErrorCode \<noteq> 0 then FailPendingProxyOperation nErrorCode l
      else if ly_nProxyOpState l = 0 then l
      else case nProxyType (ly_ProxyData l) of
        PROXYTYPE_SOCKS4 \<Rightarrow> socks4_receive env l
      | PROXYTYPE_SOCKS4A \<Rightarrow> socks4_receive env l
      | PROXYTYPE_SOCKS5 \<Rightarrow>
          (if ly_nProxyOpState l = 1 \<or> ly_nProxyOpState l = 2 then socks5_method_receive env l
           else if ly_nProxyOpState l = 3 \<or> ly_nProxyOpState l = 4 then socks5_reply_receive env l
           else l)
      | PROXYTYPE_HTTP10 \<Rightarrow> http_receive env l
      | PROXYTYPE_HTTP11 \<Rightarrow> http_receive env l
      | PROXYTYPE_NOPROXY \<Rightarrow> l)"

section \<open>Connecting\<close>

definition ConnectNext :: "int option \<Rightarrow> Layer \<Rightarrow> bool \<times> Layer" where
  "ConnectNext result l = (case result of None \<Rightarrow> (True, l) | Some e \<Rightarrow> (False, SetLastError e l))"

definition connect_proxy :: "LayerEnv \<Rightarrow> Layer \<Rightarrow> bool \<times> Layer" where
  "connect_proxy env l =
     ConnectNext (e_connect env (pd_strProxyHost (ly_ProxyData l)) (pd_nProxyPort (ly_ProxyData l))) l"

definition Connect_addr :: "LayerEnv \<Rightarrow> sockaddr option \<Rightarrow> int \<Rightarrow> Layer \<Rightarrow> bool \<times> Layer" where
  "Connect_addr env addr len l =
     (if nProxyType (ly_ProxyData l) = PROXYTYPE_NOPROXY then ConnectNext (e_connectAddr env addr len) l
      else case sa_Set addr len of
        None \<Rightarrow> (False, SetLastError WSAEAFNOSUPPORT l)
      | Some a \<Rightarrow>
        let l = l\<lparr>ly_proxyPeerAddress := a, ly_nProxyPeerIP := sa_GetdwIP a, ly_nProxyPeerPort := sin_port a\<rparr> in
        if sa_IsAny a then (False, l)
        else let (res, l) = connect_proxy env (l\<lparr>ly_pProxyPeerHost := None, ly_nProxyOpID := PROXYOP_CONNECT\<rparr>) in
          if \<not> res \<and> nx_lastError l \<noteq> WSAEWOULDBLOCK
          then (False, callback PROXYERROR_NOCONN (nx_lastError l) [] l)
          else (res, l))"

definition Connect_host :: "LayerEnv \<Rightarrow> cstr \<Rightarrow> nat \<Rightarrow> Layer \<Rightarrow> bool \<times> Layer" where
  "Connect_host env host port l =
     (if nProxyType (ly_ProxyData l) = PROXYTYPE_NOPROXY then ConnectNext (e_connect env host (int port)) l
      else
        let addr = e_inet_addr env host; nport = htons (of_nat port) in
        if addr = 0xFFFFFFFF \<and> nProxyType (ly_ProxyData l) \<noteq> PROXYTYPE_SOCKS4 then
          (let (res, l) = connect_proxy env l in
           if \<not> res \<and> nx_lastError l \<noteq> WSAEWOULDBLOCK
           then (False, callback PROXYERROR_NOCONN (nx_lastError l) [] l)
           else (True, l\<lparr>ly_nProxyPeerPort := nport, ly_nProxyPeerIP := 0, ly_proxyPeerAddress := sa_Clear,
                        ly_pProxyPeerHost := Some host, ly_nProxyOpID := PROXYOP_CONNECT\<rparr>))
        else
          case (if addr = 0xFFFFFFFF then e_gethostbyname env host else Some addr) of
            None \<Rightarrow> (False, SetLastError WSAEINVAL (callback PROXYERROR_CANTRESOLVEHOST 0 [] l))
          | Some ip \<Rightarrow>
            let (res, l) = Connect_addr env
                  (Some (sa_Clear\<lparr>sa_family := AF_INET, sin_port := nport, sin_addr := ip\<rparr>)) 16 l
            in (res, if res \<or> nx_lastError l = WSAEWOULDBLOCK then l\<lparr>ly_pProxyPeerHost := Some host\<rparr> else l))"

section \<open>The connection to the proxy is open: sending the first request\<close>

text \<open>
  The handlers read \<open>m_pProxyPeerHost\<close> only when no address is known; a missing host is empty
  here, and the connect operations always set the one or the other.
\<close>

text \<open>The end of a first request that could not be queued.\<close>

definition request_failed :: "Layer \<Rightarrow> Layer" where
  "request_failed l =
     (let err = nx_lastError l
      in abort_op (connect_event l) PROXYERROR_REQUESTFAILED err []
           (if ly_nProxyOpID l = PROXYOP_CONNECT \<and> err = WSAEWOULDBLOCK then WSAECONNABORTED else err) l)"

definition queue_first :: "LayerEnv \<Rightarrow> bytes \<Rightarrow> Layer \<Rightarrow> Layer" where
  "queue_first env req l =
     (let (ok, l) = QueueProxyRequest env req l
      in if ok then l\<lparr>ly_nProxyOpState := ly_nProxyOpState l + 1\<rparr> else request_failed l)"

definition socks4_request :: "Layer \<Rightarrow> bytes" where
  "socks4_request l =
     [4, if ly_nProxyOpID l = PROXYOP_CONNECT then 1 else 2] @ word16_bytes (ly_nProxyPeerPort l) @
     (if ly_nProxyPeerIP l = 0 then
        [0, 0, 0, 1, 0] @ cstr_bytes (case ly_pProxyPeerHost l of Some h \<Rightarrow> h | None \<Rightarrow> []) @ [0]
      else dword_bytes (ly_nProxyPeerIP l) @ [0])"

definition socks5_greeting :: "Layer \<Rightarrow> bytes" where
  "socks5_greeting l = (if bUseLogon (ly_ProxyData l) then [5, 2, 2, 0] else [5, 1, 0])"

definition inet_ntoa :: "dword \<Rightarrow> cstr" where
  "inet_ntoa ip = (case dword_bytes ip of
     a # b # c # d # _ \<Rightarrow> show_nat (unat a) @ ''.'' @ show_nat (unat b) @ ''.'' @ show_nat (unat c) @ ''.'' @ show_nat (unat d)
   | _ \<Rightarrow> [])"

definition http_host :: "LayerEnv \<Rightarrow> Layer \<Rightarrow> cstr option" where
  "http_host env l =
     (case ly_pProxyPeerHost l of
        Some h \<Rightarrow> if h \<noteq> [] then Some h
                  else if sa_IsIPv6 (ly_proxyPeerAddress l) then e_ntop6 env (sin6_addr (ly_proxyPeerAddress l))
                  else Some (inet_ntoa (ly_nProxyPeerIP l))
      | None \<Rightarrow> if sa_IsIPv6 (ly_proxyPeerAddress l) then e_ntop6 env (sin6_addr (ly_proxyPeerAddress l))
                else Some (inet_ntoa (ly_nProxyPeerIP l)))"

definition CRLF :: cstr where "CRLF = [CHR 0x0D, CHR 0x0A]"

definition http_credentials :: "t_proxydata \<Rightarrow> cstr" where
  "http_credentials pd =
     (let userPass = pd_strProxyUser pd @ '':'' @ pd_strProxyPass pd
      in CBase64Coding_Encode (if 512 < length userPass then [] else cstr_bytes userPass))"

definition http_request :: "Layer \<Rightarrow> cstr \<Rightarrow> cstr" where
  "http_request l host =
     (let v6 = sa_IsIPv6 (ly_proxyPeerAddress l);
          target = (if v6 then ''['' else []) @ host @ (if v6 then '']'' else []) @ '':'' @
                   show_nat (unat (ntohs (ly_nProxyPeerPort l)));
          pd = ly_ProxyData l;
          auth = (if bUseLogon pd then ''Authorization: Basic '' @ http_credentials pd @ CRLF @
                    ''Proxy-Authorization: Basic '' @ http_credentials pd @ CRLF else [])
      in if nProxyType pd = PROXYTYPE_HTTP10 then
           ''CONNECT '' @ target @ '' HTTP/1.0'' @ CRLF @ auth @
           (if bUseLogon pd then ''Proxy-Connection: Keep-Alive'' @ CRLF else []) @ CRLF
         else
           ''CONNECT '' @ target @ '' HTTP/1.1'' @ CRLF @ ''Host: '' @ target @ CRLF @ auth @
           ''Proxy-Connection: Keep-Alive'' @ CRLF @ CRLF)"

definition http_send_request :: "LayerEnv \<Rightarrow> Layer \<Rightarrow> Layer" where
  "http_send_request env l =
     (case http_host env l of
        None \<Rightarrow> abort_op (connect_event l) PROXYERROR_REQUESTFAILED WSAEINVAL [] WSAEINVAL l
      | Some host \<Rightarrow>
        let req = http_request l host in
        if 4096 \<le> length req then abort_op (connect_event l) PROXYERROR_REQUESTFAILED WSAEINVAL [] WSAEINVAL l
        else queue_first env (cstr_bytes req) l)"

definition Layer_OnConnect :: "LayerEnv \<Rightarrow> int \<Rightarrow> Layer \<Rightarrow> Layer" where
  "Layer_OnConnect env nErrorCode l =
     (if nProxyType (ly_ProxyData l) = PROXYTYPE_NOPROXY then trigger FD_CONNECT nErrorCode l
      else if ly_nProxyOpID l = 0 then l
      else if nErrorCode \<noteq> 0 then
        abort_op (op_event l)
          (if nErrorCode = PROXYLANE_SECURE_LOAD_FAILED then PROXYERROR_SECURE_UNAVAILABLE
           else if nErrorCode = PROXYLANE_SECURE_HANDSHAKE_FAILED then PROXYERROR_SECURE_HANDSHAKE
           else PROXYERROR_NOCONN) nErrorCode [] nErrorCode l
      else if ly_nProxyOpID l \<notin> {PROXYOP_CONNECT, PROXYOP_BIND, PROXYOP_UDPASSOCIATE} then l
      else if ly_nProxyOpState l \<noteq> 0 then l
      else let l = Layer_ClearBuffer l in
        case nProxyType (ly_ProxyData l) of
          PROXYTYPE_SOCKS5 \<Rightarrow> queue_first env (socks5_greeting l) l
        | PROXYTYPE_HTTP10 \<Rightarrow> http_send_request env l
        | PROXYTYPE_HTTP11 \<Rightarrow> http_send_request env l
        | _ \<Rightarrow>
          (if sa_IsIPv6 (ly_proxyPeerAddress l) then
             Layer_Reset (trigger FD_CONNECT WSAEAFNOSUPPORT
               (callback PROXYERROR_REQUESTFAILED WSAEAFNOSUPPORT [] l))
           else queue_first env (socks4_request l) l))"

section \<open>Listening and the stream interface\<close>

definition Layer_Listen :: "LayerEnv \<Rightarrow> int option \<Rightarrow> nat \<Rightarrow> Layer \<Rightarrow> bool \<times> Layer" where
  "Layer_Listen env listenNext backlog l =
     (if nProxyType (ly_ProxyData l) = PROXYTYPE_NOPROXY then ConnectNext listenNext l
      else let (res, l) = connect_proxy env l in
        if \<not> res \<and> nx_lastError l \<noteq> WSAEWOULDBLOCK
        then (False, callback PROXYERROR_NOCONN (nx_lastError l) [] l)
        else (True, l\<lparr>ly_nProxyPeerPort := 0, ly_nProxyPeerIP := of_nat backlog, ly_nProxyOpID := PROXYOP_BIND\<rparr>))"

definition PrepareListen :: "dword \<Rightarrow> Layer \<Rightarrow> bool \<times> Layer" where
  "PrepareListen ip l =
     (if ly_state l \<noteq> notsock \<and> ly_state l \<noteq> unconnected then (False, l)
      else (True, l\<lparr>ly_nProxyPeerIP := ip\<rparr>))"

definition Layer_Send :: "bytes \<Rightarrow> Layer \<Rightarrow> int \<times> Layer" where
  "Layer_Send data l =
     (if ly_nProxyOpID l \<noteq> 0 then (SOCKET_ERROR, SetLastError WSAEWOULDBLOCK l)
      else SendNext data l)"

text \<open>\<open>have_buf\<close> says that the caller's buffer pointer is not null.\<close>

definition Layer_Receive :: "bool \<Rightarrow> int \<Rightarrow> Layer \<Rightarrow> bytes option \<times> Layer" where
  "Layer_Receive have_buf nBufLen l =
     (if nBufLen < 0 \<or> (0 < nBufLen \<and> \<not> have_buf) then (None, SetLastError WSAEFAULT l)
      else if nBufLen = 0 then (Some [], l)
      else if ly_nProxyOpID l \<noteq> 0 then (None, SetLastError WSAEWOULDBLOCK l)
      else case ly_pAppRecvBuffer l of
        Some (buf, pos) \<Rightarrow>
          if pos < length buf then
            (let copied = min (nat nBufLen) (length buf - pos)
             in (Some (take copied (drop pos buf)),
                 l\<lparr>ly_pAppRecvBuffer := (if pos + copied = length buf then None else Some (buf, pos + copied))\<rparr>))
          else ReceiveNext (nat nBufLen) l
      | None \<Rightarrow> ReceiveNext (nat nBufLen) l)"

section \<open>The datagram interface\<close>

text \<open>
  A sent datagram is the encoded packet, encrypted when the secure layer is present; it goes
  to the relay address. The result is the number of payload bytes when the whole packet went
  out, and otherwise what the socket said.
\<close>

definition udp_wire :: "LayerEnv \<Rightarrow> bytes \<Rightarrow> Layer \<Rightarrow> bytes option" where
  "udp_wire env pkt l =
     (if \<not> ly_hasSecure l then Some pkt
      else if \<not> e_hasUdpKey env \<or> \<not> e_alloc env (length pkt + 16) then None
      else e_EncryptUdp env pkt)"

definition udp_send :: "LayerEnv \<Rightarrow> bytes option \<Rightarrow> nat \<Rightarrow> Layer \<Rightarrow> int \<times> Layer" where
  "udp_send env encoded nBufLen l =
     (case encoded of None \<Rightarrow> (SOCKET_ERROR, SetLastError WSAEINVAL l)
      | Some pkt \<Rightarrow>
        (case udp_wire env pkt l of None \<Rightarrow> (SOCKET_ERROR, SetLastError WSAEPROTONOSUPPORT l)
         | Some wire \<Rightarrow>
           let (sent, err) = e_sendto env wire (ly_udpsrvAddr l);
               l = (if sent = SOCKET_ERROR then SetLastError err l else l)
           in (if sent = int (length wire) then int nBufLen else sent, l)))"

definition Layer_SendTo_addr :: "LayerEnv \<Rightarrow> bytes option \<Rightarrow> int \<Rightarrow> sockaddr option \<Rightarrow> int \<Rightarrow> Layer \<Rightarrow> int \<times> Layer" where
  "Layer_SendTo_addr env buf nBufLen addr len l =
     (if ly_nProxyOpID l \<noteq> 0 then (SOCKET_ERROR, SetLastError WSAEWOULDBLOCK l)
      else case sa_Set addr len of
        None \<Rightarrow> (SOCKET_ERROR, SetLastError WSAEAFNOSUPPORT l)
      | Some a \<Rightarrow>
        if nBufLen < 0 \<or> 65507 - (if sa_IsIPv6 a then 22 else 10) < nBufLen
        then (SOCKET_ERROR, SetLastError WSAEMSGSIZE l)
        else if \<not> e_alloc env (nat nBufLen + 262) then (SOCKET_ERROR, SetLastError ERROR_NOT_ENOUGH_MEMORY l)
        else udp_send env
          (if sa_IsIPv6 a then EncodeIPv6 True (nBufLen + 262) (Some a) buf nBufLen
           else EncodeIPv4 True (nBufLen + 262) (Some a) buf nBufLen)
          (nat nBufLen) l)"

definition Layer_SendTo_host :: "LayerEnv \<Rightarrow> addr_conv \<Rightarrow> int \<Rightarrow> bytes option \<Rightarrow> int \<Rightarrow> nat \<Rightarrow> cstr \<Rightarrow> Layer \<Rightarrow> int \<times> Layer" where
  "Layer_SendTo_host env conv startup buf nBufLen nHostPort host l =
     (if ly_nProxyOpID l \<noteq> 0 then (SOCKET_ERROR, SetLastError WSAEWOULDBLOCK l)
      else if e_inet_addr env host \<noteq> 0xFFFFFFFF then
        Layer_SendTo_addr env buf nBufLen
          (Some (sa_SetPort (of_nat nHostPort)
            (snd (sa_SetIP conv startup (Some host) (sa_Clear\<lparr>sa_family := AF_INET\<rparr>))))) 28 l
      else if host = [] \<or> 255 < length host \<or> nBufLen < 0 \<or> 65507 - (7 + int (length host)) < nBufLen
        then (SOCKET_ERROR, SetLastError WSAEMSGSIZE l)
      else if \<not> e_alloc env (nat nBufLen + 262) then (SOCKET_ERROR, SetLastError ERROR_NOT_ENOUGH_MEMORY l)
      else udp_send env (EncodeDomain True (nBufLen + 262) (Some host) (of_nat nHostPort) buf nBufLen) (nat nBufLen) l)"

definition udp_plain :: "LayerEnv \<Rightarrow> nat \<Rightarrow> bytes \<Rightarrow> Layer \<Rightarrow> bytes option" where
  "udp_plain env capacity wire l =
     (if \<not> ly_hasSecure l then Some wire
      else if \<not> e_hasUdpKey env then None
      else e_DecryptUdp env capacity wire)"

definition Layer_ReceiveFrom ::
    "LayerEnv \<Rightarrow> nat \<Rightarrow> int option \<Rightarrow> Layer \<Rightarrow> (bytes \<times> DecodedPacket) option \<times> Layer" where
  "Layer_ReceiveFrom env nBufLen addrCapacity l =
     (if ly_nProxyOpID l \<noteq> 0 then (None, SetLastError WSAEWOULDBLOCK l)
      else
        let plainCapacity = nBufLen + 262; wireCapacity = plainCapacity + (if ly_hasSecure l then 16 else 0) in
        if \<not> e_alloc env plainCapacity \<or> (ly_hasSecure l \<and> \<not> e_alloc env wireCapacity)
        then (None, SetLastError ERROR_NOT_ENOUGH_MEMORY l)
        else case e_recvfrom env wireCapacity of
          Inr e \<Rightarrow> (None, SetLastError e l)
        | Inl (wire, relay) \<Rightarrow>
          if sa_family relay \<noteq> AF_INET \<or> sin_addr relay \<noteq> sin_addr (ly_udpsrvAddr l) \<or>
             sin_port relay \<noteq> sin_port (ly_udpsrvAddr l)
          then (None, SetLastError WSAEACCES l)
          else case udp_plain env plainCapacity wire l of
            None \<Rightarrow> (None, SetLastError WSAEPROTONOSUPPORT l)
          | Some plain \<Rightarrow>
            (case Decode (Some plain) of
               None \<Rightarrow> (None, SetLastError WSAEPROTONOSUPPORT l)
             | Some decoded \<Rightarrow>
               if nBufLen < length (dp_payload decoded) then (None, SetLastError WSAEMSGSIZE l)
               else if (case addrCapacity of Some c \<Rightarrow> c < dp_sourceLength decoded | None \<Rightarrow> False)
                 then (None, SetLastError WSAEFAULT l)
               else (Some (dp_payload decoded, decoded), l)))"

text \<open>
  The overlapped variants gather a header and at most 31 of the caller's buffers. The domain
  header is built in an array of 259 bytes: \<open>None\<close> is a write behind its end.
\<close>

definition wsa_buffers :: "bytes \<Rightarrow> bytes list \<Rightarrow> bytes list" where
  "wsa_buffers hdr bufs = hdr # take 31 bufs"

definition wsa_send :: "LayerEnv \<Rightarrow> bytes \<Rightarrow> bytes list \<Rightarrow> Layer \<Rightarrow> (int \<times> dword) \<times> Layer" where
  "wsa_send env hdr bufs l =
     (let (ret, sent, err) = e_WSASendTo env (wsa_buffers hdr bufs) (ly_udpsrvAddr l)
      in if ret = 0
         then ((ret, if of_nat (length hdr) \<le> sent then sent - of_nat (length hdr) else sent), l)
         else ((ret, sent), SetLastError err l))"

definition WSASendTo_addr :: "LayerEnv \<Rightarrow> bytes list \<Rightarrow> sockaddr \<Rightarrow> Layer \<Rightarrow> (int \<times> dword) \<times> Layer" where
  "WSASendTo_addr env bufs lpTo l =
     (if ly_nProxyOpID l \<noteq> 0 then ((SOCKET_ERROR, 0), SetLastError WSAEWOULDBLOCK l)
      else wsa_send env ([0, 0, 0, 1] @ dword_bytes (sin_addr lpTo) @ word16_bytes (sin_port lpTo)) bufs l)"

definition wsa_domain_header :: "cstr \<Rightarrow> nat \<Rightarrow> bytes option" where
  "wsa_domain_header host nHostPort =
     (let hdr = [0, 0, 0, 3, of_nat (length host)] @ cstr_bytes host @ word16_bytes (htons (of_nat nHostPort))
      in if 259 < length hdr then None else Some hdr)"

definition WSASendTo_host ::
    "LayerEnv \<Rightarrow> addr_conv \<Rightarrow> int \<Rightarrow> bytes list \<Rightarrow> nat \<Rightarrow> cstr \<Rightarrow> Layer \<Rightarrow> ((int \<times> dword) \<times> Layer) option" where
  "WSASendTo_host env conv startup bufs nHostPort host l =
     (if ly_nProxyOpID l \<noteq> 0 then Some ((SOCKET_ERROR, 0), SetLastError WSAEWOULDBLOCK l)
      else if e_inet_addr env host \<noteq> 0xFFFFFFFF then
        Some (WSASendTo_addr env bufs
          (sa_SetPort (of_nat nHostPort) (snd (sa_SetIP conv startup (Some host) (sa_Clear\<lparr>sa_family := AF_INET\<rparr>)))) l)
      else map_option (\<lambda>hdr. wsa_send env hdr bufs l) (wsa_domain_header host nHostPort))"

text \<open>The result, the payload bytes after the ten-byte header, and the source it names.\<close>

definition Layer_WSARecvFrom :: "LayerEnv \<Rightarrow> nat list \<Rightarrow> Layer \<Rightarrow> (int \<times> bytes \<times> sockaddr option) \<times> Layer" where
  "Layer_WSARecvFrom env bufs l =
     (if ly_nProxyOpID l \<noteq> 0 then ((SOCKET_ERROR, [], None), SetLastError WSAEWOULDBLOCK l)
      else let (ret, data, err) = e_WSARecvFrom env (10 # take 31 bufs) in
        if ret \<noteq> 0 then ((ret, data, None), SetLastError err l)
        else if 10 \<le> length data then
          ((ret, drop 10 data, Some (sa_Clear\<lparr>sa_family := AF_INET,
             sin_addr := bytes_dword (drop 4 data), sin_port := bytes_word16 (drop 8 data)\<rparr>)), l)
        else ((ret, data, None), l))"

section \<open>Opening a UDP association\<close>

definition SetUdpLocalAddr :: "sockaddr \<Rightarrow> Layer \<Rightarrow> Layer" where
  "SetUdpLocalAddr a l = l\<lparr>ly_udpcltAddr := a\<rparr>"

definition GetUdpLocalAddr :: "Layer \<Rightarrow> sockaddr" where
  "GetUdpLocalAddr l = ly_udpcltAddr l"

text \<open>
  How far the control socket got: the connection object, its layers and its socket are
  created in this order. A failed secure layer clears the pointer, the two other failures
  delete the object and keep the pointer.
\<close>

datatype control_setup = NoMemory | AddLayerFailed | SecureLayerFailed | CreateFailed | ControlCreated

definition control_failed :: "control_setup \<Rightarrow> Layer \<Rightarrow> Layer option" where
  "control_failed stage l =
     (let secure = ly_securePsk l \<noteq> [] in
      case stage of
        NoMemory \<Rightarrow> Some (l\<lparr>ly_pS5UC := NullConn\<rparr>)
      | AddLayerFailed \<Rightarrow> Some (l\<lparr>ly_pS5UC := DeletedConn\<rparr>)
      | SecureLayerFailed \<Rightarrow> if secure then Some (l\<lparr>ly_pS5UC := NullConn, ly_hasSecure := False\<rparr>) else None
      | CreateFailed \<Rightarrow> Some (l\<lparr>ly_pS5UC := DeletedConn, ly_hasSecure := (secure \<or> ly_hasSecure l)\<rparr>)
      | ControlCreated \<Rightarrow> None)"

definition GetUdpProxyAddr :: "LayerEnv \<Rightarrow> control_setup \<Rightarrow> Layer \<Rightarrow> bool \<times> Layer" where
  "GetUdpProxyAddr env stage l =
     (if nProxyType (ly_ProxyData l) \<noteq> PROXYTYPE_SOCKS5 then
        (False, SetLastError WSAEINVAL (callback PROXYERROR_REQUESTFAILED 0 [] l))
      else case control_failed stage l of
        Some l \<Rightarrow> (False, l)
      | None \<Rightarrow>
        let l = l\<lparr>ly_pS5UC := LiveConn, ly_hasSecure := (ly_securePsk l \<noteq> [] \<or> ly_hasSecure l),
                  ly_nProxyOpID := PROXYOP_UDPASSOCIATE\<rparr>;
            (res, l) = connect_proxy env l
        in if \<not> res \<and> nx_lastError l \<noteq> WSAEWOULDBLOCK
           then (False, callback PROXYERROR_NOCONN (nx_lastError l) [] l)
           else (True, l\<lparr>ly_nProxyOpID := PROXYOP_UDPASSOCIATE\<rparr>))"

definition Layer_Bind :: "LayerEnv \<Rightarrow> int option \<Rightarrow> bool \<Rightarrow> control_setup \<Rightarrow> Layer \<Rightarrow> bool \<times> Layer" where
  "Layer_Bind env bindNext isDatagram stage l =
     (let (ok, l) = ConnectNext bindNext l in
      if \<not> ok then (False, l)
      else if \<not> isDatagram \<or> nProxyType (ly_ProxyData l) \<noteq> PROXYTYPE_SOCKS5 then (True, l)
      else case e_getsockname env of
        None \<Rightarrow> (False, l)
      | Some a \<Rightarrow> GetUdpProxyAddr env stage (l\<lparr>ly_udpcltAddr := a\<rparr>))"

text \<open>The destructor; \<open>None\<close> is a second deletion of the control connection.\<close>

definition Layer_delete :: "Layer \<Rightarrow> Layer option" where
  "Layer_delete l =
     (if ly_pS5UC l = DeletedConn then None
      else Some ((ClearSendBuffer (Layer_ClearBuffer l))\<lparr>ly_pProxyPeerHost := None, ly_pS5UC := NullConn,
             ly_hasSecure := False, ly_securePsk := [], ly_pAppRecvBuffer := None\<rparr>))"

end
