(* ===== verification/LayerReceive.thy ===== *)
theory LayerReceive
  imports LayerSend
begin

text \<open>
  The receiving side of the proxy layer. TCP delivers the proxy's answers in arbitrary
  portions. The locale \<open>framed_reader\<close> states what the three SOCKS readers have in common: one
  call consumes at most what the message is still known to need, and finishes when it is
  complete. Its lemma gives the independence of the portions for all of them.
\<close>

section \<open>Readers of one message\<close>

text \<open>The receive event repeats as long as data is there.\<close>

fun drain :: "(Layer \<Rightarrow> Layer) \<Rightarrow> nat \<Rightarrow> Layer \<Rightarrow> Layer" where
  "drain handler 0 l = l"
| "drain handler (Suc n) l = (if nx_recvScript l = [] then l else drain handler n (handler l))"

definition accumulate :: "nat \<Rightarrow> bytes \<Rightarrow> recv_result list \<Rightarrow> Layer \<Rightarrow> Layer" where
  "accumulate cap b rs l = l\<lparr>ly_pRecvBuffer := Some (cap, b), nx_recvScript := rs\<rparr>"

lemma accumulate_simps [simp]:
  "recv_bytes (accumulate cap b rs l) = b"
  "nx_recvScript (accumulate cap b rs l) = rs"
  "accumulate cap b rs (accumulate cap' b' rs' l) = accumulate cap b rs l"
  by (simp_all add: accumulate_def recv_bytes_def)

lemma drain_empty [simp]: "nx_recvScript l = [] \<Longrightarrow> drain handler n l = l"
  by (cases n) simp_all

lemma drain_add: "drain handler (m + n) l = drain handler n (drain handler m l)"
  by (induction m arbitrary: l) auto

lemma drain_mono: "nx_recvScript (drain handler k l) = [] \<Longrightarrow> k \<le> n \<Longrightarrow> drain handler n l = drain handler k l"
  using drain_add [of handler k "n - k" l] by simp

locale framed_reader =
  fixes handler :: "Layer \<Rightarrow> Layer"
    and target :: "bytes \<Rightarrow> nat"
    and well :: "bytes \<Rightarrow> bool"
    and finish :: "Layer \<Rightarrow> Layer"
    and ready :: "Layer \<Rightarrow> bool"
    and cap :: nat
  assumes handler_reads: "ready l \<Longrightarrow> d \<noteq> [] \<Longrightarrow> nx_recvScript l = RecvData d # rs \<Longrightarrow>
      k = target (recv_bytes l) - length (recv_bytes l) \<Longrightarrow> 0 < k \<Longrightarrow>
      b = recv_bytes l @ take k d \<Longrightarrow> well b \<Longrightarrow>
      l' = accumulate cap b (if k < length d then RecvData (drop k d) # rs else rs) l \<Longrightarrow>
      handler l = (if length b = target b then finish l' else l')"
    and ready_accumulate: "ready l \<Longrightarrow> ready (accumulate cap b rs l)"
begin

definition frame :: "bytes \<Rightarrow> bool" where
  "frame r \<longleftrightarrow> target r = length r \<and> (\<forall>k \<le> length r. well (take k r)) \<and>
     (\<forall>k < length r. k < target (take k r) \<and> target (take k r) \<le> length r)"

lemma one_portion:
  assumes frame: "frame r" and "ready l" and "recv_bytes l = take m r" and "m < length r"
    and "d \<noteq> []" and script: "nx_recvScript l = RecvData d # rs"
    and rest: "\<exists>more. drop m r @ surplus = d @ more"
  shows "\<exists>k > 0. k \<le> length d \<and> m + k \<le> length r \<and>
    handler l = (if m + k = length r then finish else id)
      (accumulate cap (take (m + k) r) (if k < length d then RecvData (drop k d) # rs else rs) l)"
proof -
  define k where "k = target (take m r) - m"
  define n where "n = min k (length d)"
  define b where "b = take m r @ take k d"
  have F: "target r = length r" "\<And>j. j \<le> length r \<Longrightarrow> well (take j r)"
    "\<And>j. j < length r \<Longrightarrow> j < target (take j r)" "\<And>j. j < length r \<Longrightarrow> target (take j r) \<le> length r"
    using frame by (simp_all add: frame_def)
  have pos: "0 < k" and bound: "m + k \<le> length r"
    using F(3,4) [OF assms(4)] by (simp_all add: k_def)
  from rest obtain more where more: "drop m r @ surplus = d @ more" ..
  have n: "0 < n" "n \<le> length d" "m + n \<le> length r" "k < length d \<longleftrightarrow> n < length d"
      "n < length d \<longrightarrow> n = k"
    using pos bound assms(4,5) by (auto simp: n_def)
  have "take n (drop m r @ surplus) = take n (d @ more)" using more by simp
  then have "take n (drop m r) = take n d" using n(2,3) by simp
  moreover have "take k d = take n d" by (simp add: n_def min_def)
  ultimately have b: "b = take (m + n) r"
    by (simp add: b_def take_add)
  have "well b" unfolding b using F(2) n(3) by blast
  have complete: "length b = target b \<longleftrightarrow> m + n = length r"
  proof (cases "m + n = length r")
    case True
    then show ?thesis using F(1) by (simp add: b)
  next
    case False
    then have "m + n < length r" using n(3) by simp
    from F(3) [OF this] False n(3) show ?thesis by (simp add: b)
  qed
  have "handler l = (if length b = target b then finish
        (accumulate cap b (if k < length d then RecvData (drop k d) # rs else rs) l)
      else accumulate cap b (if k < length d then RecvData (drop k d) # rs else rs) l)"
    by (rule handler_reads [OF assms(2,5) script _ pos _ \<open>well b\<close> refl])
      (use assms(3,4) in \<open>simp_all add: k_def b_def\<close>)
  also have "(if k < length d then RecvData (drop k d) # rs else rs) =
      (if n < length d then RecvData (drop n d) # rs else rs)"
    using n(4,5) by auto
  finally show ?thesis
    using n(1-3) complete by (intro exI [of _ n]) (simp add: b)
qed

lemma portions:
  assumes "frame r" and "ready l" and "recv_bytes l = take m r" and "m < length r"
    and "[] \<notin> set segs" and "concat segs = drop m r @ surplus" and "nx_recvScript l = map RecvData segs"
  shows "\<exists>k \<le> length r - m. \<exists>left. drain handler k l = finish (accumulate cap r (map RecvData left) l) \<and>
    [] \<notin> set left \<and> concat left = surplus"
  using assms
proof (induction "length r - m" arbitrary: l m segs rule: less_induct)
  case less
  then obtain d ds where segs: "segs = d # ds" by (cases segs) auto
  have "\<exists>more. drop m r @ surplus = d @ more" using less.prems(6) segs by (metis concat.simps(2))
  moreover have "d \<noteq> []" "nx_recvScript l = RecvData d # map RecvData ds"
    using less.prems(5,7) segs by auto
  ultimately obtain k where k: "0 < k" "k \<le> length d" "m + k \<le> length r"
    "handler l = (if m + k = length r then finish else id)
      (accumulate cap (take (m + k) r) (if k < length d then RecvData (drop k d) # map RecvData ds else map RecvData ds) l)"
    using one_portion [OF less.prems(1-4), of d "map RecvData ds" surplus] by blast
  let ?segs = "if k < length d then drop k d # ds else ds"
  have c: "concat ?segs = drop (m + k) r @ surplus"
  proof -
    have "drop k (concat segs) = drop (m + k) r @ surplus"
      unfolding less.prems(6) using k(3) by (simp add: add.commute)
    with k(2) segs show ?thesis by auto
  qed
  have s: "(if k < length d then RecvData (drop k d) # map RecvData ds else map RecvData ds) = map RecvData ?segs"
    by simp
  have ne: "[] \<notin> set ?segs" using less.prems(5) segs by auto
  have first: "drain handler (Suc j) l = drain handler j (handler l)" for j
    using less.prems(7) segs by simp
  show ?case
  proof (cases "m + k = length r")
    case True
    with k(4) s have "drain handler (Suc 0) l = finish (accumulate cap r (map RecvData ?segs) l)"
      by (simp add: first del: drain.simps(2))
    with True c ne less.prems(4) show ?thesis by (intro exI [of _ "Suc 0"] conjI exI [of _ ?segs]) simp_all
  next
    case False
    with k(4) s have h: "handler l = accumulate cap (take (m + k) r) (map RecvData ?segs) l" by simp
    have "\<exists>j \<le> length r - (m + k). \<exists>left.
        drain handler j (handler l) = finish (accumulate cap r (map RecvData left) (handler l)) \<and>
        [] \<notin> set left \<and> concat left = surplus"
    proof (rule less.hyps)
      show "ready (handler l)" unfolding h by (rule ready_accumulate [OF less.prems(2)])
      show "recv_bytes (handler l) = take (m + k) r" "nx_recvScript (handler l) = map RecvData ?segs"
        unfolding h by simp_all
      show "m + k < length r" "length r - (m + k) < length r - m"
        using False k by simp_all
    qed (rule less.prems(1) c ne)+
    then obtain j left where "j \<le> length r - (m + k)" "[] \<notin> set left" "concat left = surplus"
        "drain handler j (handler l) = finish (accumulate cap r (map RecvData left) l)"
      using h by auto
    moreover from this k False have "Suc j \<le> length r - m" by simp
    ultimately show ?thesis using first by metis
  qed
qed

end

section \<open>The three SOCKS readers\<close>

definition buffer_is :: "nat \<Rightarrow> Layer \<Rightarrow> bool" where
  "buffer_is cap l \<longleftrightarrow> (case ly_pRecvBuffer l of None \<Rightarrow> True | Some (n, _) \<Rightarrow> n = cap)"

definition waiting :: "proxytype set \<Rightarrow> nat set \<Rightarrow> nat \<Rightarrow> Layer \<Rightarrow> bool" where
  "waiting types states cap l \<longleftrightarrow> nProxyType (ly_ProxyData l) \<in> types \<and> ly_nProxyOpID l \<noteq> 0 \<and>
     ly_nProxyOpState l \<in> states \<and> buffer_is cap l"

lemma waiting_accumulate: "waiting types states cap l \<Longrightarrow> waiting types states cap (accumulate cap b rs l)"
  by (simp add: waiting_def accumulate_def buffer_is_def)

lemma read_portion:
  assumes "buffer_is cap l" and "nx_recvScript l = RecvData d # rs"
  shows "ReceiveNext k (alloc_recv cap l) = (Some (take k d),
      accumulate cap (recv_bytes l) (if k < length d then RecvData (drop k d) # rs else rs) l)"
    and "recv_bytes (alloc_recv cap l) = recv_bytes l"
    and "append_recv e (accumulate cap b rs' l) = accumulate cap (b @ e) rs' l"
  using assms
  by (cases "ly_pRecvBuffer l"; cases "the (ly_pRecvBuffer l)";
      simp add: buffer_is_def alloc_recv_def ReceiveNext_def accumulate_def recv_bytes_def append_recv_def)+

lemma FlushProxyRequest_script [simp]: "nx_recvScript (snd (FlushProxyRequest l)) = nx_recvScript l"
proof (induction l rule: FlushProxyRequest.induct)
  case (1 l)
  have s: "nx_recvScript (snd (SendNext data l)) = nx_recvScript l" for data
    by (simp add: SendNext_def layer_simps split: list.splits send_result.splits)
  show ?case
  proof (cases "ly_pSendBuffer l")
    case None
    then show ?thesis by (simp add: FlushProxyRequest.simps [of l])
  next
    case (Some bp)
    obtain buf pos where bp: "bp = (buf, pos)" by fastforce
    obtain n l' where n: "SendNext (drop pos buf) l = (n, l')" by fastforce
    show ?thesis
      using 1 [OF Some bp [symmetric]] Some bp n s [of "drop pos buf"]
      by (auto simp: FlushProxyRequest.simps [of l] layer_simps)
  qed
qed

lemma QueueProxyRequest_script [simp]: "nx_recvScript (snd (QueueProxyRequest env req l)) = nx_recvScript l"
  by (simp add: QueueProxyRequest_def layer_simps)

lemma script_prims [simp]:
  "nx_recvScript (Layer_Reset l) = nx_recvScript l" "nx_recvScript (Layer_ClearBuffer l) = nx_recvScript l"
  "nx_recvScript (trigger ev err l) = nx_recvScript l" "nx_recvScript (callback c w t l) = nx_recvScript l"
  "nx_recvScript (SetLastError e l) = nx_recvScript l" "nx_recvScript (ClearSendBuffer l) = nx_recvScript l"
  "nx_recvScript (abort_op ev code w t err l) = nx_recvScript l"
  "nx_recvScript (opened ev l) = nx_recvScript l"
  "nx_recvScript (queue_failed l) = nx_recvScript l"
  by (simp_all add: layer_simps abort_op_def opened_def queue_failed_def Let_def)

lemma GetPeerName_script: "Layer_GetPeerName env len l = (r, l') \<Longrightarrow> nx_recvScript l' = nx_recvScript l"
  by (auto simp: Layer_GetPeerName_def split: option.splits if_splits)

lemma finish_scripts:
  "nx_recvScript (socks4_complete env l) = nx_recvScript l"
  "nx_recvScript (socks5_method_complete env l) = nx_recvScript l"
  "nx_recvScript (socks5_reply_complete env l) = nx_recvScript l"
proof -
  have "nx_recvScript (socks4_bound env b l) = nx_recvScript l" for b
    by (auto simp: socks4_bound_def Let_def dest!: GetPeerName_script split: prod.splits option.splits)
  then show "nx_recvScript (socks4_complete env l) = nx_recvScript l"
    by (simp add: socks4_complete_def Let_def)
  have "nx_recvScript (socks5_authenticate env l) = nx_recvScript l"
    using QueueProxyRequest_script [of env "auth_request (ly_ProxyData l)" l]
    by (simp add: socks5_authenticate_def split_beta)
  moreover have "nx_recvScript (socks5_send_request env l) = nx_recvScript l"
    by (simp add: socks5_send_request_def split_beta)
  ultimately show "nx_recvScript (socks5_method_complete env l) = nx_recvScript l"
    by (simp add: socks5_method_complete_def Let_def)
  show "nx_recvScript (socks5_reply_complete env l) = nx_recvScript l"
    by (simp add: socks5_reply_complete_def socks5_associated_def Let_def split: option.splits)
qed

interpretation s4: framed_reader "Layer_OnReceive env 0" "\<lambda>_. 8" "\<lambda>_. True" "socks4_complete env"
  "waiting {PROXYTYPE_SOCKS4, PROXYTYPE_SOCKS4A} {1, 2} 8" 8 for env
proof (unfold_locales, goal_cases)
  case (1 l d rs k b l')
  then have "buffer_is 8 l" by (simp add: waiting_def)
  note R = read_portion [OF this 1(3)]
  have "take k d \<noteq> []" using 1(2,5) by simp
  have state: "(ly_nProxyOpState l = 1 \<or> ly_nProxyOpState l = 2) = True"
    using 1(1) by (auto simp: waiting_def)
  have "Layer_OnReceive env 0 l = socks4_receive env l"
    using 1(1) by (auto simp: waiting_def Layer_OnReceive_def)
  also have "socks4_receive env l = (if length b = 8 then socks4_complete env l' else l')"
    unfolding socks4_receive_def Let_def state if_True R(2) 1(4) [symmetric] R(1)
    using \<open>take k d \<noteq> []\<close> 1(6,8) by (simp add: R(3))
  finally show ?case .
qed (simp_all add: waiting_accumulate finish_scripts)

interpretation s5m: framed_reader "Layer_OnReceive env 0" "\<lambda>_. 2" "\<lambda>_. True" "socks5_method_complete env"
  "waiting {PROXYTYPE_SOCKS5} {1, 2} 2" 2 for env
proof (unfold_locales, goal_cases)
  case (1 l d rs k b l')
  then have "buffer_is 2 l" by (simp add: waiting_def)
  note R = read_portion [OF this 1(3)]
  have "take k d \<noteq> []" using 1(2,5) by simp
  have state: "(ly_nProxyOpState l = 1 \<or> ly_nProxyOpState l = 2) = True"
    using 1(1) by (auto simp: waiting_def)
  have "Layer_OnReceive env 0 l = socks5_method_receive env l"
    using 1(1) by (auto simp: waiting_def Layer_OnReceive_def)
  also have "socks5_method_receive env l = (if length b = 2 then socks5_method_complete env l' else l')"
    unfolding socks5_method_receive_def Let_def state if_True R(2) 1(4) [symmetric] R(1)
    using \<open>take k d \<noteq> []\<close> 1(6,8) by (simp add: R(3))
  finally show ?case .
qed (simp_all add: waiting_accumulate finish_scripts)

definition reply_target :: "bytes \<Rightarrow> nat" where
  "reply_target b = (case reply_length b of Some n \<Rightarrow> n | None \<Rightarrow> 4)"

interpretation s5r: framed_reader "Layer_OnReceive env 0" reply_target "\<lambda>b. reply_length b \<noteq> None"
  "socks5_reply_complete env" "waiting {PROXYTYPE_SOCKS5} {3, 4} 262" 262 for env
proof (unfold_locales, goal_cases)
  case (1 l d rs k b l')
  then have "buffer_is 262 l" by (simp add: waiting_def)
  note R = read_portion [OF this 1(3)]
  from 1(7) obtain n where n: "reply_length b = Some n" by blast
  then have target: "reply_target b = n" "length b < 4 \<Longrightarrow> length b \<noteq> n"
    by (auto simp: reply_target_def reply_length_def split: if_splits)
  have "take k d \<noteq> []" using 1(2,5) by simp
  have "Layer_OnReceive env 0 l = socks5_reply_receive env l"
    using 1(1) by (auto simp: waiting_def Layer_OnReceive_def)
  also have "\<dots> = (if length b < 4 then l' else if length b = n then socks5_reply_complete env l' else l')"
    unfolding socks5_reply_receive_def Let_def R(2) reply_target_def [symmetric] 1(4) [symmetric] R(1)
    using \<open>take k d \<noteq> []\<close> n 1(6,8) by (simp add: R(3))
  finally show ?case
    using target by auto
qed (simp_all add: waiting_accumulate finish_scripts)

section \<open>Independence of the portions\<close>

text \<open>A complete SOCKS5 reply: version, status, reserved, and an address of a known type.\<close>

definition reply_frame :: "bytes \<Rightarrow> bool" where
  "reply_frame r \<longleftrightarrow> 4 \<le> length r \<and> reply_length r = Some (length r)"

lemma reply_length_prefix:
  assumes "reply_frame r" and "k < length r"
  shows "\<exists>n. reply_length (take k r) = Some n \<and> k < n \<and> n \<le> length r"
proof (cases "k < 4")
  case True
  with assms show ?thesis by (simp add: reply_frame_def reply_length_def)
next
  case False
  then have t: "take k r ! 3 = r ! 3" "4 < k \<Longrightarrow> take k r ! 4 = r ! 4" by simp_all
  have "r ! 3 = 3 \<Longrightarrow> 5 \<le> length r"
    using assms False by (auto simp: reply_frame_def reply_length_def split: if_splits)
  then show ?thesis
    using assms False t by (auto simp: reply_frame_def reply_length_def split: if_splits)
qed

lemma reply_frame_frame: "reply_frame r \<Longrightarrow> s5r.frame r"
  unfolding s5r.frame_def
proof (intro conjI allI impI)
  assume r: "reply_frame r"
  then show "reply_target r = length r" by (simp add: reply_frame_def reply_target_def)
  show "reply_length (take k r) \<noteq> None" if "k \<le> length r" for k
    using reply_length_prefix [OF r, of k] r that
    by (cases "k < length r") (auto simp: reply_frame_def)
  show "k < reply_target (take k r)" "reply_target (take k r) \<le> length r" if "k < length r" for k
    using reply_length_prefix [OF r that] by (auto simp: reply_target_def)
qed

lemma reply_segments:
  assumes "waiting {PROXYTYPE_SOCKS5} {3, 4} 262 l" and "ly_pRecvBuffer l = None"
    and "reply_frame reply" and "[] \<notin> set segs" and "nx_recvScript l = map RecvData segs"
    and "concat segs = reply @ surplus"
  shows "\<exists>k \<le> length reply. \<exists>left. [] \<notin> set left \<and> concat left = surplus \<and>
    drain (Layer_OnReceive env 0) k l = socks5_reply_complete env
      (l\<lparr>ly_pRecvBuffer := Some (262, reply), nx_recvScript := map RecvData left\<rparr>)"
proof -
  have "recv_bytes l = take 0 reply" using assms(2) by (simp add: recv_bytes_def)
  moreover have "0 < length reply" using assms(3) unfolding reply_frame_def by linarith
  ultimately show ?thesis
    using s5r.portions [OF reply_frame_frame [OF assms(3)] assms(1), of 0 segs surplus env] assms(4-6)
    by (auto simp: accumulate_def)
qed

text \<open>
  C26. The SOCKS5 reply handler does not depend on how TCP cuts the reply: for every valid
  reply of any address type, followed by any further bytes, and every division of both into
  non-empty segments, after at most as many receive events as the reply has bytes the handler
  has acted on it once, as if it had arrived in one piece, and all further bytes, and nothing
  else, are still to be read.
\<close>

theorem socks5_reply_any_segments:
  assumes "waiting {PROXYTYPE_SOCKS5} {3, 4} 262 l" and "ly_pRecvBuffer l = None"
    and "reply_frame reply" and "[] \<notin> set segs" and "nx_recvScript l = map RecvData segs"
    and "concat segs = reply @ surplus"
  shows "\<exists>k \<le> length reply. \<exists>left. [] \<notin> set left \<and> concat left = surplus \<and>
    drain (Layer_OnReceive env 0) k l = socks5_reply_complete env
      (l\<lparr>ly_pRecvBuffer := Some (262, reply), nx_recvScript := map RecvData left\<rparr>)"
  using assms by (rule reply_segments)

text \<open>
  The same for the two-byte answers of the SOCKS5 greeting and authentication and for
  the eight-byte SOCKS4 reply.
\<close>

theorem socks_short_any_segments:
  assumes "ly_pRecvBuffer l = None" and "[] \<notin> set segs" and "nx_recvScript l = map RecvData segs"
    and "concat segs = reply @ surplus"
  shows "(waiting {PROXYTYPE_SOCKS5} {1, 2} 2 l \<and> length reply = 2 \<longrightarrow>
      (\<exists>k \<le> 2. \<exists>left. [] \<notin> set left \<and> concat left = surplus \<and> drain (Layer_OnReceive env 0) k l =
        socks5_method_complete env (l\<lparr>ly_pRecvBuffer := Some (2, reply), nx_recvScript := map RecvData left\<rparr>))) \<and>
    (waiting {PROXYTYPE_SOCKS4, PROXYTYPE_SOCKS4A} {1, 2} 8 l \<and> length reply = 8 \<longrightarrow>
      (\<exists>k \<le> 8. \<exists>left. [] \<notin> set left \<and> concat left = surplus \<and> drain (Layer_OnReceive env 0) k l =
        socks4_complete env (l\<lparr>ly_pRecvBuffer := Some (8, reply), nx_recvScript := map RecvData left\<rparr>)))"
proof (intro conjI impI; elim conjE)
  have b: "recv_bytes l = take 0 reply" using assms(1) by (simp add: recv_bytes_def)
  {
    assume "waiting {PROXYTYPE_SOCKS5} {1, 2} 2 l" and len: "length reply = 2"
    moreover have "s5m.frame reply" using len by (simp add: s5m.frame_def)
    ultimately show "\<exists>k \<le> 2. \<exists>left. [] \<notin> set left \<and> concat left = surplus \<and> drain (Layer_OnReceive env 0) k l =
        socks5_method_complete env (l\<lparr>ly_pRecvBuffer := Some (2, reply), nx_recvScript := map RecvData left\<rparr>)"
      using s5m.portions [of reply l 0 segs surplus env] assms b by (auto simp: accumulate_def)
  next
    assume "waiting {PROXYTYPE_SOCKS4, PROXYTYPE_SOCKS4A} {1, 2} 8 l" and len: "length reply = 8"
    moreover have "s4.frame reply" using len by (simp add: s4.frame_def)
    ultimately show "\<exists>k \<le> 8. \<exists>left. [] \<notin> set left \<and> concat left = surplus \<and> drain (Layer_OnReceive env 0) k l =
        socks4_complete env (l\<lparr>ly_pRecvBuffer := Some (8, reply), nx_recvScript := map RecvData left\<rparr>)"
      using s4.portions [of reply l 0 segs surplus env] assms b by (auto simp: accumulate_def)
  }
qed

definition layer_socks5 :: "nat \<Rightarrow> Layer" where
  "layer_socks5 st = (SetProxy PROXYTYPE_SOCKS5 ''proxy'' 1080 layer_fresh)\<lparr>ly_nProxyOpID := PROXYOP_CONNECT,
     ly_nProxyOpState := st, ly_nProxyPeerIP := 0x08080808, ly_nProxyPeerPort := htons 53\<rparr>"

lemma layer_socks5_simps [simp]:
  "nProxyType (ly_ProxyData (layer_socks5 st)) = PROXYTYPE_SOCKS5" "ly_nProxyOpID (layer_socks5 st) = PROXYOP_CONNECT"
  "ly_nProxyOpState (layer_socks5 st) = st" "ly_pRecvBuffer (layer_socks5 st) = None"
  "ly_pSendBuffer (layer_socks5 st) = None" "ly_nProxyPeerIP (layer_socks5 st) = 0x08080808"
  "ly_proxyPeerAddress (layer_socks5 st) = sa_Clear"
  by (simp_all add: layer_socks5_def SetProxy_def layer_fresh_def)

theorem socks5_reply_any_segments_witness:
  "\<exists>k \<le> length [5, 0, 0, 1, 1, 2, 3, 4, 0, 80 :: byte]. \<exists>left. [] \<notin> set left \<and> concat left = [9, 8] \<and>
     drain (Layer_OnReceive env_plain 0) k
       ((layer_socks5 3)\<lparr>nx_recvScript := map RecvData [[5, 0], [0, 1, 1, 2, 3], [4, 0, 80, 9], [8]]\<rparr>) =
     socks5_reply_complete env_plain
       ((layer_socks5 3)\<lparr>nx_recvScript := map RecvData [[5, 0], [0, 1, 1, 2, 3], [4, 0, 80, 9], [8]],
          ly_pRecvBuffer := Some (262, [5, 0, 0, 1, 1, 2, 3, 4, 0, 80]), nx_recvScript := map RecvData left\<rparr>)"
  by (rule socks5_reply_any_segments [where segs = "[[5, 0], [0, 1, 1, 2, 3], [4, 0, 80, 9], [8]]"])
    (simp_all add: waiting_def buffer_is_def reply_frame_def reply_length_def)

theorem socks_short_any_segments_witness:
  "\<exists>k \<le> 2. \<exists>left. [] \<notin> set left \<and> concat left = [7] \<and>
     drain (Layer_OnReceive env_plain 0) k ((layer_socks5 1)\<lparr>nx_recvScript := map RecvData [[5], [0, 7]]\<rparr>) =
     socks5_method_complete env_plain
       ((layer_socks5 1)\<lparr>nx_recvScript := map RecvData [[5], [0, 7]],
          ly_pRecvBuffer := Some (2, [5, 0]), nx_recvScript := map RecvData left\<rparr>)"
  using socks_short_any_segments [of "(layer_socks5 1)\<lparr>nx_recvScript := map RecvData [[5], [0, 7]]\<rparr>" "[[5], [0, 7]]" "[5, 0]" "[7]" env_plain]
  by (simp add: waiting_def buffer_is_def)

section \<open>A whole SOCKS5 connect\<close>

lemma queue_all:
  assumes "req \<noteq> []" and "ly_pSendBuffer l = None" and "e_alloc env (length req)"
    and "nx_sendScript l = SendCount n # sends" and "length req \<le> n"
  shows "QueueProxyRequest env req l = (True, l\<lparr>nx_sendScript := sends, nx_sent := nx_sent l @ req\<rparr>)"
proof -
  let ?m = "l\<lparr>nx_sendScript := sends, nx_sent := nx_sent l @ req, ly_pSendBuffer := Some (req, length req)\<rparr>"
  have "FlushProxyRequest ?m = (True, ClearSendBuffer ?m)"
    by (simp add: FlushProxyRequest.simps [of ?m])
  moreover have "ClearSendBuffer ?m = l\<lparr>nx_sendScript := sends, nx_sent := nx_sent l @ req\<rparr>"
    using assms(2) by (cases l) (simp add: ClearSendBuffer_def)
  ultimately show ?thesis
    using assms by (simp add: QueueProxyRequest_def SendNext_def
        FlushProxyRequest.simps [of "l\<lparr>ly_pSendBuffer := Some (req, 0)\<rparr>"])
qed

definition socks5_host :: "Layer \<Rightarrow> cstr" where
  "socks5_host l = (case ly_pProxyPeerHost l of Some h \<Rightarrow> h | None \<Rightarrow> [])"

text \<open>The request of RFC 1928: version, command, a reserved zero, then address type, address and port.\<close>

datatype s5_address = S5_IPv4 dword | S5_Domain cstr | S5_IPv6 bytes

fun rfc1928_address :: "s5_address \<Rightarrow> bytes" where
  "rfc1928_address (S5_IPv4 a) = 1 # dword_bytes a"
| "rfc1928_address (S5_Domain name) = 3 # of_nat (length name) # cstr_bytes name"
| "rfc1928_address (S5_IPv6 b) = 4 # b"

definition rfc1928_request :: "byte \<Rightarrow> s5_address \<Rightarrow> word16 \<Rightarrow> bytes" where
  "rfc1928_request cmd a port = [5, cmd, 0] @ rfc1928_address a @ word16_bytes port"

definition peer_address :: "Layer \<Rightarrow> s5_address" where
  "peer_address l =
     (if sa_IsIPv6 (ly_proxyPeerAddress l) then S5_IPv6 (sin6_addr (ly_proxyPeerAddress l))
      else if ly_nProxyPeerIP l \<noteq> 0 then S5_IPv4 (ly_nProxyPeerIP l) else S5_Domain (socks5_host l))"

lemma socks5_request_rfc1928:
  "ly_nProxyOpID l = PROXYOP_CONNECT \<Longrightarrow>
   socks5_request l (socks5_host l) = rfc1928_request 1 (peer_address l) (ly_nProxyPeerPort l)"
  by (simp add: socks5_request_def rfc1928_request_def peer_address_def)

text \<open>The three stages of the handshake: the greeting, the answer to it, the reply.\<close>

lemma greeting_sent:
  assumes "nProxyType (ly_ProxyData l) = PROXYTYPE_SOCKS5" and "ly_nProxyOpID l = PROXYOP_CONNECT"
    and "ly_nProxyOpState l = 0" and "ly_pSendBuffer l = None" and "\<forall>n. e_alloc env n"
    and "nx_sendScript l = SendCount room # sends" and "4 \<le> room"
  shows "Layer_OnConnect env 0 l = (Layer_ClearBuffer l)\<lparr>nx_sendScript := sends,
    nx_sent := nx_sent l @ (if bUseLogon (ly_ProxyData l) then [5, 2, 2, 0] else [5, 1, 0]), ly_nProxyOpState := 1\<rparr>"
proof -
  let ?l = "Layer_ClearBuffer l"
  have "QueueProxyRequest env (socks5_greeting ?l) ?l =
      (True, ?l\<lparr>nx_sendScript := sends, nx_sent := nx_sent ?l @ socks5_greeting ?l\<rparr>)"
    by (rule queue_all [where n = room]) (use assms in \<open>simp_all add: socks5_greeting_def Layer_ClearBuffer_def\<close>)
  moreover have "socks5_greeting ?l = (if bUseLogon (ly_ProxyData l) then [5, 2, 2, 0] else [5, 1, 0])"
    by (simp add: socks5_greeting_def Layer_ClearBuffer_def)
  ultimately show ?thesis
    using assms(1-3) by (simp add: Layer_OnConnect_def queue_first_def Layer_ClearBuffer_def)
qed

lemma request_sent:
  assumes l: "ly_nProxyOpState l = 1" "ly_nProxyOpID l = PROXYOP_CONNECT" "recv_bytes l = [5, 0]"
      "ly_pSendBuffer l = None" "socks5_needs_host l \<longrightarrow> ly_pProxyPeerHost l \<noteq> None" "\<forall>n. e_alloc env n"
    and script: "nx_sendScript l = SendCount room # sends"
      "length (rfc1928_request 1 (peer_address l) (ly_nProxyPeerPort l)) \<le> room"
  shows "socks5_method_complete env l = Layer_ClearBuffer (l\<lparr>nx_sendScript := sends,
    nx_sent := nx_sent l @ rfc1928_request 1 (peer_address l) (ly_nProxyPeerPort l), ly_nProxyOpState := 3\<rparr>)"
proof -
  note rfc = socks5_request_rfc1928 [OF l(2)]
  have "QueueProxyRequest env (socks5_request l (socks5_host l)) l =
      (True, l\<lparr>nx_sendScript := sends, nx_sent := nx_sent l @ socks5_request l (socks5_host l)\<rparr>)"
    by (rule queue_all [where n = room])
      (use l(4,6) script [folded rfc] in \<open>simp_all add: socks5_request_def\<close>)
  moreover have "\<not> (socks5_needs_host l \<and> ly_pProxyPeerHost l = None)" using l(5) by blast
  ultimately have "socks5_send_request env l = Layer_ClearBuffer (l\<lparr>nx_sendScript := sends,
      nx_sent := nx_sent l @ rfc1928_request 1 (peer_address l) (ly_nProxyPeerPort l), ly_nProxyOpState := 3\<rparr>)"
    unfolding socks5_send_request_def rfc [symmetric]
    by (simp only: if_False Let_def prod.case not_True_eq_False socks5_host_def [symmetric])
  then show ?thesis using l(1,3) by (simp add: socks5_method_complete_def)
qed

lemma peer_address_cong:
  "ly_proxyPeerAddress l = ly_proxyPeerAddress l' \<Longrightarrow> ly_nProxyPeerIP l = ly_nProxyPeerIP l' \<Longrightarrow>
   ly_pProxyPeerHost l = ly_pProxyPeerHost l' \<Longrightarrow> peer_address l = peer_address l'"
  by (simp add: peer_address_def socks5_host_def)

text \<open>
  C1. The whole SOCKS5 connect without authentication, from the moment the connection to the
  proxy is open and when the network takes each request in one write: the greeting goes out; the
  proxy sends \<open>05 00\<close>, a success reply and any further bytes, all cut into arbitrary
  segments. After at most as many receive events as the two answers have bytes, exactly
  the greeting and the connect request for the destination have been sent, the connect event with
  error 0 was raised once, followed by the read and the write event, no operation is pending
  and nothing waits to be sent, and the further bytes, and nothing else, are still to be read.
\<close>

theorem socks5_connect_handshake:
  assumes l: "nProxyType (ly_ProxyData l) = PROXYTYPE_SOCKS5" "ly_nProxyOpID l = PROXYOP_CONNECT" "ly_nProxyOpState l = 0"
      "ly_pSendBuffer l = None" "socks5_needs_host l \<longrightarrow> ly_pProxyPeerHost l \<noteq> None" "\<forall>n. e_alloc env n"
    and script: "nx_sendScript l = SendCount room # SendCount room' # sends" "4 \<le> room"
      "length (rfc1928_request 1 (peer_address l) (ly_nProxyPeerPort l)) \<le> room'"
    and segs: "[] \<notin> set segs" "concat segs = [5, 0] @ reply @ surplus" "reply_frame reply" "take 2 reply = [5, 0]"
    and start: "start = (Layer_OnConnect env 0 l)\<lparr>nx_recvScript := map RecvData segs\<rparr>"
  shows "\<exists>k \<le> 2 + length reply. \<exists>left l'. l' = drain (Layer_OnReceive env 0) k start \<and>
    nx_sent l' = nx_sent l @ (if bUseLogon (ly_ProxyData l) then [5, 2, 2, 0] else [5, 1, 0]) @
      rfc1928_request 1 (peer_address l) (ly_nProxyPeerPort l) \<and>
    nx_events l' = nx_events l @ [TriggerEvent FD_CONNECT 0, TriggerEvent FD_READ 0, TriggerEvent FD_WRITE 0] \<and>
    ly_nProxyOpID l' = 0 \<and> ly_nProxyOpState l' = 0 \<and> ly_pRecvBuffer l' = None \<and> ly_pSendBuffer l' = None \<and>
    nx_recvScript l' = map RecvData left \<and> [] \<notin> set left \<and> concat left = surplus"
proof -
  let ?h = "Layer_OnReceive env 0"
  note start = start [unfolded greeting_sent [OF l(1-4,6) script(1,2)]]
  have w: "waiting {PROXYTYPE_SOCKS5} {1, 2} 2 start" "ly_pRecvBuffer start = None"
    using l by (simp_all add: start waiting_def buffer_is_def Layer_ClearBuffer_def)
  then obtain i left where i: "i \<le> 2" "[] \<notin> set left" "concat left = reply @ surplus"
      "drain ?h i start = socks5_method_complete env (start\<lparr>ly_pRecvBuffer := Some (2, [5, 0]), nx_recvScript := map RecvData left\<rparr>)"
    using socks_short_any_segments [of start segs "[5, 0]" "reply @ surplus" env] segs(1,2)
    by (auto simp: start)
  let ?m = "start\<lparr>ly_pRecvBuffer := Some (2, [5, 0]), nx_recvScript := map RecvData left\<rparr>"
  have addr: "peer_address ?m = peer_address l" "ly_nProxyPeerPort ?m = ly_nProxyPeerPort l"
    by (auto intro!: peer_address_cong simp: start Layer_ClearBuffer_def)
  have "socks5_needs_host ?m = socks5_needs_host l"
    by (simp add: start socks5_needs_host_def Layer_ClearBuffer_def)
  then have m: "socks5_method_complete env ?m = Layer_ClearBuffer (?m\<lparr>nx_sendScript := sends,
      nx_sent := nx_sent ?m @ rfc1928_request 1 (peer_address l) (ly_nProxyPeerPort l), ly_nProxyOpState := 3\<rparr>)"
    unfolding addr [symmetric]
    by (intro request_sent [where room = room'])
      (use l script addr in \<open>simp_all add: start recv_bytes_def Layer_ClearBuffer_def\<close>)
  let ?n = "drain ?h i start"
  have "waiting {PROXYTYPE_SOCKS5} {3, 4} 262 ?n" "ly_pRecvBuffer ?n = None" "nx_recvScript ?n = map RecvData left"
    using l unfolding i(4) m by (simp_all add: start waiting_def buffer_is_def Layer_ClearBuffer_def)
  then obtain j rest where j: "j \<le> length reply" "[] \<notin> set rest" "concat rest = surplus"
      "drain ?h j ?n = socks5_reply_complete env (?n\<lparr>ly_pRecvBuffer := Some (262, reply), nx_recvScript := map RecvData rest\<rparr>)"
    using reply_segments [OF _ _ segs(3) i(2) _ i(3)] by blast
  have "reply ! 0 = 5" "reply ! 1 = 0"
    using segs(4) by (metis nth_take nth_Cons_0 zero_less_numeral, metis nth_take One_nat_def nth_Cons_0 nth_Cons_Suc one_less_numeral_iff semiring_norm(76))
  then have "drain ?h (i + j) start = opened FD_CONNECT (Layer_ClearBuffer (Layer_Reset
      (?n\<lparr>ly_pRecvBuffer := Some (262, reply), nx_recvScript := map RecvData rest\<rparr>)))"
    using l(2) unfolding drain_add j(4) unfolding i(4) m
    by (simp add: socks5_reply_complete_def recv_bytes_def connect_event_def start Layer_ClearBuffer_def)
  then show ?thesis
    using i(1) j(1-3) l(4) unfolding i(4) m
    by (intro exI [of _ "i + j"] conjI exI [of _ rest] exI [of _ "drain ?h (i + j) start"])
      (simp_all add: opened_def layer_simps start)
qed

theorem socks5_connect_handshake_witness:
  "\<exists>k \<le> 2 + length [5, 0, 0, 1, 0, 0, 0, 0, 0, 0 :: byte]. \<exists>left l'. l' = drain (Layer_OnReceive env_plain 0) k
      ((Layer_OnConnect env_plain 0 ((layer_socks5 0)\<lparr>nx_sendScript := [SendCount 4, SendCount 100]\<rparr>))
        \<lparr>nx_recvScript := map RecvData [[5], [0, 5, 0, 0], [1, 0, 0, 0, 0, 0, 0, 9]]\<rparr>) \<and>
    nx_sent l' = [5, 1, 0, 5, 1, 0, 1, 8, 8, 8, 8, 0, 53] \<and> ly_nProxyOpID l' = 0 \<and>
    nx_recvScript l' = map RecvData left \<and> concat left = [9]"
proof -
  let ?l = "(layer_socks5 0)\<lparr>nx_sendScript := [SendCount 4, SendCount 100]\<rparr>"
  let ?req = "rfc1928_request 1 (peer_address ?l) (ly_nProxyPeerPort ?l)"
  have req: "?req = [5, 1, 0, 1, 8, 8, 8, 8, 0, 53]"
    by (simp add: rfc1928_request_def peer_address_def sa_IsIPv6_def sa_Clear_def layer_socks5_def SetProxy_def
        layer_fresh_def dword_bytes_def word16_bytes_def htons_def)
  have l: "\<not> bUseLogon (ly_ProxyData ?l)" "nx_sent ?l = []" "\<forall>n. e_alloc env_plain n" "\<not> socks5_needs_host ?l"
    by (simp_all add: layer_socks5_def SetProxy_def layer_fresh_def env_plain_def socks5_needs_host_def)
  show ?thesis
    using socks5_connect_handshake [of ?l env_plain 4 100 "[]" "[[5], [0, 5, 0, 0], [1, 0, 0, 0, 0, 0, 0, 9]]"
        "[5, 0, 0, 1, 0, 0, 0, 0, 0, 0]" "[9]", OF _ _ _ _ _ _ _ _ _ _ _ _ _ refl] l req
    by (simp add: reply_frame_def reply_length_def) blast
qed

section \<open>The HTTP tunnel\<close>

lemma find_eoh_le: "find_eoh i b = Some k \<Longrightarrow> k \<le> i + length b"
proof (induction i b rule: find_eoh.induct)
  case (2 i c b)
  show ?case
  proof (cases "take 4 (c # b) = CRLFCRLF")
    case True
    then have "length (take 4 (c # b)) = 4" by (simp only:) (simp add: CRLFCRLF_def)
    then have "4 \<le> length (c # b)" by simp
    with 2(2) True show ?thesis by (simp split: if_splits)
  qed (use 2 in auto)
qed simp

lemma find_eoh_append: "find_eoh i a = Some k \<Longrightarrow> find_eoh i (a @ b) = Some k"
proof (induction i a rule: find_eoh.induct)
  case (2 i c a)
  have long: "take 4 (c # a @ b) = take 4 (c # a)" if "4 \<le> length (c # a)"
    using that by (simp add: take_Cons')
  have short: "find_eoh j x = None" if "length x < 4" for j x
    using that
  proof (induction j x rule: find_eoh.induct)
    case (2 j y x)
    then have "length (take 4 (y # x)) \<noteq> length CRLFCRLF" by (simp add: CRLFCRLF_def)
    then have "take 4 (y # x) \<noteq> CRLFCRLF" by metis
    with 2 show ?case by simp
  qed simp
  show ?case
  proof (cases "4 \<le> length (c # a)")
    case True
    with 2 long show ?thesis by (auto split: if_splits)
  next
    case False
    with short [of "c # a" i] 2(2) show ?thesis by simp
  qed
qed simp

text \<open>A complete response header: the first blank line ends it.\<close>

definition header_of :: "bytes \<Rightarrow> bool" where
  "header_of hdr \<longleftrightarrow> find_eoh 0 hdr = Some (length hdr)"

lemma header_prefix_none:
  assumes "header_of hdr" and "b @ y = hdr @ z" and "length b < length hdr"
  shows "find_eoh 0 b = None"
proof (rule ccontr)
  assume "find_eoh 0 b \<noteq> None"
  then obtain k where k: "find_eoh 0 b = Some k" by blast
  have "find_eoh 0 (hdr @ z) = Some k" using find_eoh_append [OF k] assms(2) by metis
  moreover have "find_eoh 0 (hdr @ z) = Some (length hdr)"
    using find_eoh_append [of 0 hdr] assms(1) by (simp add: header_of_def)
  ultimately show False using find_eoh_le [OF k] assms(3) by simp
qed

fun script_bytes :: "recv_result list \<Rightarrow> bytes" where
  "script_bytes [] = []"
| "script_bytes (RecvData d # rs) = d @ script_bytes rs"
| "script_bytes (RecvError e # rs) = script_bytes rs"

definition app_stream :: "Layer \<Rightarrow> bytes" where
  "app_stream l = (case ly_pAppRecvBuffer l of None \<Rightarrow> [] | Some (b, pos) \<Rightarrow> drop pos b) @ script_bytes (nx_recvScript l)"

lemma script_bytes_map [simp]: "script_bytes (map RecvData segs) = concat segs"
  by (induction segs) simp_all

lemma http_receive_stream:
  assumes hdr: "header_of hdr" "\<And>x. http_status (hdr @ x) = Some 200"
    and "[] \<notin> set segs" and "nx_recvScript l = map RecvData segs" and "ly_pAppRecvBuffer l = None"
    and "ly_pStrBuffer l @ concat segs = hdr @ rest" and "length (hdr @ rest) \<le> 4096"
    and "\<And>n. e_alloc env n" and "length (ly_pStrBuffer l) < length hdr" and "ly_nProxyOpID l \<noteq> 0"
  shows "ly_nProxyOpID (http_receive env l) = 0 \<and> app_stream (http_receive env l) = rest \<and>
    nx_events (http_receive env l) =
      nx_events l @ [TriggerEvent FD_CONNECT 0, TriggerEvent FD_READ 0, TriggerEvent FD_WRITE 0]"
  using assms(3-7,9,10)
proof (induction segs arbitrary: l)
  case Nil
  then show ?case by (metis append_Nil2 concat.simps(1) length_append not_add_less1)
next
  case (Cons d segs)
  let ?b = "ly_pStrBuffer l @ d"
  let ?l = "l\<lparr>nx_recvScript := map RecvData segs, ly_pStrBuffer := ?b\<rparr>"
  have len: "length ?b \<le> 4096"
    using arg_cong [OF Cons.prems(4), of length] Cons.prems(5) by simp
  then have "length d \<le> 4096" by simp
  moreover have "d \<noteq> []" using Cons.prems(1) by auto
  ultimately have R: "ReceiveNext 4096 l = (Some d, l\<lparr>nx_recvScript := map RecvData segs\<rparr>)"
    using Cons.prems(2) by (simp add: ReceiveNext_def)
  have step: "http_receive env l = (case find_eoh 0 ?b of Some n \<Rightarrow> http_complete env n ?l | None \<Rightarrow> http_receive env ?l)"
    using R \<open>d \<noteq> []\<close> len assms(8) by (simp add: http_receive.simps [of env l] Let_def)
  show ?case
  proof (cases "length ?b < length hdr")
    case True
    have "find_eoh 0 ?b = None"
      by (rule header_prefix_none [OF hdr(1) _ True, of "concat segs" rest]) (use Cons.prems(4) in simp)
    with step have "http_receive env l = http_receive env ?l" by simp
    moreover have "ly_nProxyOpID (http_receive env ?l) = 0 \<and> app_stream (http_receive env ?l) = rest \<and>
      nx_events (http_receive env ?l) =
        nx_events ?l @ [TriggerEvent FD_CONNECT 0, TriggerEvent FD_READ 0, TriggerEvent FD_WRITE 0]"
      by (rule Cons.IH) (use Cons.prems True in auto)
    ultimately show ?thesis by simp
  next
    case False
    have all: "?b @ concat segs = hdr @ rest" using Cons.prems(4) by simp
    define x where "x = drop (length hdr) ?b"
    have "take (length hdr) ?b = hdr" "x @ concat segs = rest"
      using arg_cong [OF all, of "take (length hdr)"] arg_cong [OF all, of "drop (length hdr)"] False
      by (simp_all add: x_def del: append_assoc)
    then have x: "?b = hdr @ x" "rest = x @ concat segs"
      using append_take_drop_id [of "length hdr" ?b] by (simp_all add: x_def)
    then have "find_eoh 0 ?b = Some (length hdr)"
      using find_eoh_append [of 0 hdr] hdr(1) by (simp add: header_of_def)
    with step have "http_receive env l = http_complete env (length hdr) ?l" by simp
    then show ?thesis
      using x hdr(2) Cons.prems(3)
      by (auto simp: http_complete_def opened_def app_stream_def layer_simps)
  qed
qed

text \<open>As long as the header is incomplete, everything is kept and the next event goes on.\<close>

lemma http_receive_waits:
  assumes hdr: "header_of hdr" and "[] \<notin> set segs" and "nx_recvScript l = map RecvData segs"
    and "ly_pStrBuffer l @ concat segs @ tail = hdr @ surplus" and "length (ly_pStrBuffer l @ concat segs) < length hdr"
    and "length (hdr @ surplus) \<le> 4096" and "\<And>n. e_alloc env n"
  shows "http_receive env l = SetLastError WSAEWOULDBLOCK
    (l\<lparr>nx_recvScript := [], ly_pStrBuffer := ly_pStrBuffer l @ concat segs\<rparr>)"
  using assms(2-5)
proof (induction segs arbitrary: l)
  case Nil
  then have "ReceiveNext 4096 l = (None, SetLastError WSAEWOULDBLOCK l)" by (simp add: ReceiveNext_def)
  moreover have "l\<lparr>nx_recvScript := [], ly_pStrBuffer := ly_pStrBuffer l @ concat []\<rparr> = l"
    using Nil.prems(2) by (cases l) simp
  ultimately show ?case
    by (simp add: http_receive.simps [of env l] http_read_failed_def layer_simps)
next
  case (Cons d segs)
  let ?b = "ly_pStrBuffer l @ d"
  let ?l = "l\<lparr>nx_recvScript := map RecvData segs, ly_pStrBuffer := ?b\<rparr>"
  have len: "length ?b < length hdr" "length ?b \<le> 4096" "length d \<le> 4096"
    using Cons.prems(4) assms(6) by simp_all
  have "d \<noteq> []" using Cons.prems(1) by auto
  moreover have "ReceiveNext 4096 l = (Some d, l\<lparr>nx_recvScript := map RecvData segs\<rparr>)"
    using Cons.prems(2) len(3) by (simp add: ReceiveNext_def)
  moreover have "find_eoh 0 ?b = None"
    by (rule header_prefix_none [OF hdr _ len(1), of "concat segs @ tail" surplus]) (use Cons.prems(3) in simp)
  ultimately have "http_receive env l = http_receive env ?l"
    using len(2) assms(7) by (simp add: http_receive.simps [of env l] Let_def)
  also have "\<dots> = SetLastError WSAEWOULDBLOCK (?l\<lparr>nx_recvScript := [], ly_pStrBuffer := ly_pStrBuffer ?l @ concat segs\<rparr>)"
    by (rule Cons.IH) (use Cons.prems in auto)
  finally show ?case by simp
qed

text \<open>Receive events, each after further segments arrived.\<close>

fun receive_events :: "LayerEnv \<Rightarrow> bytes list list \<Rightarrow> Layer \<Rightarrow> Layer" where
  "receive_events env [] l = l"
| "receive_events env (segs # events) l = receive_events env events
     (Layer_OnReceive env 0 (l\<lparr>nx_recvScript := nx_recvScript l @ map RecvData segs\<rparr>))"

definition http_waiting :: "Layer \<Rightarrow> bool" where
  "http_waiting l \<longleftrightarrow> (nProxyType (ly_ProxyData l) = PROXYTYPE_HTTP10 \<or> nProxyType (ly_ProxyData l) = PROXYTYPE_HTTP11) \<and>
     ly_nProxyOpID l \<noteq> 0 \<and> ly_nProxyOpState l \<noteq> 0 \<and> ly_pAppRecvBuffer l = None \<and> nx_recvScript l = []"

lemma receive_events_append:
  "receive_events env (xs @ ys) l = receive_events env ys (receive_events env xs l)"
  by (induction env xs l rule: receive_events.induct) simp_all

lemma receive_events_early:
  assumes "http_waiting l" and "header_of hdr" and "\<forall>segs \<in> set early. [] \<notin> set segs"
    and "ly_pStrBuffer l @ concat (concat early) @ tail = hdr @ surplus"
    and "length (ly_pStrBuffer l @ concat (concat early)) < length hdr"
    and "length (hdr @ surplus) \<le> 4096" and "\<And>n. e_alloc env n"
  shows "\<exists>l'. l' = receive_events env early l \<and> http_waiting l' \<and>
    ly_pStrBuffer l' = ly_pStrBuffer l @ concat (concat early) \<and> nx_events l' = nx_events l"
  using assms(1,3-5)
proof (induction early arbitrary: l)
  case (Cons segs early)
  let ?l = "l\<lparr>nx_recvScript := nx_recvScript l @ map RecvData segs\<rparr>"
  let ?m = "SetLastError WSAEWOULDBLOCK (?l\<lparr>nx_recvScript := [], ly_pStrBuffer := ly_pStrBuffer ?l @ concat segs\<rparr>)"
  have "http_receive env ?l = ?m"
    by (rule http_receive_waits [OF assms(2), where tail = "concat (concat early) @ tail" and surplus = surplus])
      (use Cons.prems assms(6,7) in \<open>auto simp: http_waiting_def\<close>)
  then have "Layer_OnReceive env 0 ?l = ?m"
    using Cons.prems(1) by (auto simp: http_waiting_def Layer_OnReceive_def)
  moreover have "http_waiting ?m" using Cons.prems(1) by (simp add: http_waiting_def layer_simps)
  moreover have "ly_pStrBuffer ?m = ly_pStrBuffer l @ concat segs" "nx_events ?m = nx_events l"
    by (simp_all add: layer_simps)
  ultimately show ?case using Cons.IH [of ?m] Cons.prems by simp
qed simp

lemma receive_events_later:
  "ly_nProxyOpID l = 0 \<Longrightarrow> ly_nProxyOpID (receive_events env later l) = 0 \<and>
   app_stream (receive_events env later l) = app_stream l @ concat (concat later) \<and>
   nx_events (receive_events env later l) = nx_events l @ replicate (length later) (TriggerEvent FD_READ 0)"
proof (induction later arbitrary: l)
  case (Cons segs later)
  let ?m = "Layer_OnReceive env 0 (l\<lparr>nx_recvScript := nx_recvScript l @ map RecvData segs\<rparr>)"
  have bytes: "script_bytes (rs @ rs') = script_bytes rs @ script_bytes rs'" for rs rs'
    by (induction rs rule: script_bytes.induct) simp_all
  have "ly_nProxyOpID ?m = 0" "app_stream ?m = app_stream l @ concat segs"
      "nx_events ?m = nx_events l @ [TriggerEvent FD_READ 0]"
    using Cons.prems by (simp_all add: Layer_OnReceive_def app_stream_def trigger_def bytes)
  with Cons.IH [of ?m] show ?case by simp
qed simp

text \<open>The application reads with buffers of the given sizes, as long as data is there.\<close>

fun read_run :: "nat list \<Rightarrow> Layer \<Rightarrow> bytes \<times> Layer" where
  "read_run [] l = ([], l)"
| "read_run (n # ns) l =
     (case Layer_Receive True (int n) l of
        (None, l') \<Rightarrow> ([], l')
      | (Some d, l') \<Rightarrow> (let (ds, l'') = read_run ns l' in (d @ ds, l'')))"

lemma Layer_Receive_stream:
  assumes "Layer_Receive True (int n) l = (Some d, l')"
  shows "app_stream l = d @ app_stream l'"
proof (cases "ly_pAppRecvBuffer l")
  case None
  with assms show ?thesis
    by (auto simp: Layer_Receive_def ReceiveNext_def app_stream_def layer_simps split: if_splits list.splits recv_result.splits)
next
  case (Some bp)
  obtain b pos where bp: "bp = (b, pos)" by fastforce
  show ?thesis
  proof (cases "pos < length b")
    case True
    then have "take (min n (length b - pos)) (drop pos b) @ drop (pos + min n (length b - pos)) b = drop pos b"
      by (simp add: add.commute [of pos] flip: drop_drop)
    with assms Some bp True show ?thesis
      by (auto simp: Layer_Receive_def app_stream_def Let_def split: if_splits)
  next
    case False
    with assms Some bp show ?thesis
      by (auto simp: Layer_Receive_def ReceiveNext_def app_stream_def layer_simps split: if_splits list.splits recv_result.splits)
  qed
qed

lemma Layer_Receive_fail: "Layer_Receive True (int n) l = (None, l') \<Longrightarrow> app_stream l' = app_stream l"
  by (auto simp: Layer_Receive_def ReceiveNext_def app_stream_def layer_simps Let_def
      split: if_splits list.splits recv_result.splits option.splits prod.splits)

lemma read_run_stream: "fst (read_run ns l) @ app_stream (snd (read_run ns l)) = app_stream l"
proof (induction ns l rule: read_run.induct)
  case (2 n ns l)
  show ?case
  proof (cases "Layer_Receive True (int n) l")
    case (Pair r l')
    show ?thesis
    proof (cases r)
      case None
      with Pair show ?thesis using Layer_Receive_fail by simp
    next
      case (Some d)
      with Pair 2 have "fst (read_run ns l') @ app_stream (snd (read_run ns l')) = app_stream l'" by simp
      with Pair Some Layer_Receive_stream [of n l d l'] show ?thesis by (simp add: split_beta)
    qed
  qed
qed simp

text \<open>
  C4. The HTTP tunnel is transparent: the response header may be spread over any number of receive
  events and segments, with further bytes behind it. When the bytes that have arrived by the
  event that completes the header are at most 4096, which is the limit of the
  buffer, and the header's status is 200, the connect is completed
  exactly once, every later event only announces data, and whatever sizes the application
  then reads with, it receives the bytes after the header in order, none lost and none
  twice, also those that arrived together with the header.
\<close>

theorem http_tunnel_transparent:
  assumes "http_waiting l" and "ly_pStrBuffer l = []"
    and "header_of hdr" and "\<forall>x. http_status (hdr @ x) = Some 200" and "\<forall>n. e_alloc env n"
    and "\<forall>segs \<in> set (early @ [final]). [] \<notin> set segs"
    and "concat (concat early) @ concat final = hdr @ surplus"
    and "length (concat (concat early)) < length hdr" and "length (hdr @ surplus) \<le> 4096"
    and "l' = receive_events env (early @ final # later) l"
  shows "ly_nProxyOpID l' = 0 \<and>
    nx_events l' = nx_events l @ [TriggerEvent FD_CONNECT 0, TriggerEvent FD_READ 0, TriggerEvent FD_WRITE 0] @
      replicate (length later) (TriggerEvent FD_READ 0) \<and>
    fst (read_run ns l') @ app_stream (snd (read_run ns l')) = surplus @ concat (concat later)"
proof -
  obtain m where m: "m = receive_events env early l" "http_waiting m"
      "ly_pStrBuffer m = concat (concat early)" "nx_events m = nx_events l"
    using receive_events_early [OF assms(1,3), of early "concat final" surplus env] assms(2,5-9) by auto
  let ?m = "m\<lparr>nx_recvScript := nx_recvScript m @ map RecvData final\<rparr>"
  have "ly_nProxyOpID (http_receive env ?m) = 0 \<and> app_stream (http_receive env ?m) = surplus \<and>
    nx_events (http_receive env ?m) =
      nx_events ?m @ [TriggerEvent FD_CONNECT 0, TriggerEvent FD_READ 0, TriggerEvent FD_WRITE 0]"
    by (rule http_receive_stream [of hdr final]) (use assms m(2,3) in \<open>auto simp: http_waiting_def\<close>)
  moreover have "Layer_OnReceive env 0 ?m = http_receive env ?m"
    using m(2) by (auto simp: Layer_OnReceive_def http_waiting_def)
  moreover have "l' = receive_events env later (Layer_OnReceive env 0 ?m)"
    using assms(10) m(1) by (simp add: receive_events_append)
  ultimately show ?thesis
    using receive_events_later [of "http_receive env ?m" env later] read_run_stream [of ns l'] m(4) by simp
qed

definition ok_header :: bytes where
  "ok_header = cstr_bytes (''HTTP/1.1 200'' @ CRLF @ CRLF)"

lemma ok_header_bytes: "ok_header = [72, 84, 84, 80, 47, 49, 46, 49, 32, 50, 48, 48, 13, 10, 13, 10]"
  by (simp add: ok_header_def CRLF_def cstr_bytes_def byte_of_char_def)

definition layer_http :: Layer where
  "layer_http = (SetProxy PROXYTYPE_HTTP11 ''proxy'' 8080 layer_fresh)\<lparr>ly_nProxyOpID := PROXYOP_CONNECT,
     ly_nProxyOpState := 1\<rparr>"

theorem http_tunnel_transparent_witness:
  "fst (read_run [1, 8] (receive_events env_plain [[take 7 ok_header], [drop 7 ok_header, [1, 2]], [[3]]] layer_http)) @
   app_stream (snd (read_run [1, 8]
     (receive_events env_plain [[take 7 ok_header], [drop 7 ok_header, [1, 2]], [[3]]] layer_http))) = [1, 2, 3]"
proof -
  have "header_of ok_header" by (simp add: header_of_def ok_header_bytes CRLFCRLF_def)
  moreover have "\<forall>x. http_status (ok_header @ x) = Some 200"
    by (simp add: http_status_def ok_header_bytes scan_unsigned_def is_space_def is_digit_def)
  moreover have "http_waiting layer_http" "ly_pStrBuffer layer_http = []"
    by (simp_all add: http_waiting_def layer_http_def SetProxy_def layer_fresh_def)
  ultimately show ?thesis
    using http_tunnel_transparent [of layer_http ok_header env_plain "[[take 7 ok_header]]" "[drop 7 ok_header, [1, 2]]"
        "[1, 2]" _ "[[[3]]]", OF _ _ _ _ _ _ _ _ _ refl, of "[1, 8]"]
    by (simp add: env_plain_def ok_header_bytes)
qed

end
