(* ===== verification/LayerOutcome.thy ===== *)
theory LayerOutcome
  imports LayerReceive
begin

text \<open>
  What the socket's owner sees of a proxy operation: while a connect or a UDP associate is
  pending it sees no completion, and every socket event either leaves the operation pending
  or ends it with exactly one completion event. The lemmas go through the handlers one by one.
\<close>

section \<open>Completions\<close>

fun is_completion :: "layer_event \<Rightarrow> bool" where
  "is_completion (TriggerEvent FD_CONNECT e) = True"
| "is_completion (TriggerEvent FD_ACCEPT e) = True"
| "is_completion _ = False"

definition completions :: "layer_event list \<Rightarrow> layer_event list" where
  "completions = filter is_completion"

definition quiet :: "Layer \<Rightarrow> Layer \<Rightarrow> bool" where
  "quiet l l' \<longleftrightarrow> nx_events l' = nx_events l \<and> ly_nProxyOpID l' = ly_nProxyOpID l \<and>
     ly_nProxyOpState l' = ly_nProxyOpState l \<and> ly_ProxyData l' = ly_ProxyData l"

text \<open>The operation is still pending without a completion, or it ended with exactly one.\<close>

definition outcome :: "bool \<Rightarrow> Layer \<Rightarrow> Layer \<Rightarrow> bool" where
  "outcome may_succeed l l' \<longleftrightarrow> (\<exists>new. nx_events l' = nx_events l @ new \<and>
     (if ly_nProxyOpID l' \<noteq> 0 then ly_nProxyOpID l' = ly_nProxyOpID l \<and> completions new = []
      else \<exists>e. completions new = [TriggerEvent FD_CONNECT e] \<and> (e = 0 \<longrightarrow> may_succeed)))"

lemma outcome_quiet: "quiet l l1 \<Longrightarrow> outcome s l1 l2 \<Longrightarrow> outcome s l l2"
  by (auto simp: outcome_def quiet_def)

lemma quiet_trans: "quiet l l1 \<Longrightarrow> quiet l1 l2 \<Longrightarrow> quiet l l2"
  by (simp add: quiet_def)

lemma quiet_refl [simp]: "quiet l l"
  by (simp add: quiet_def)

lemma quiet_outcome: "quiet l l' \<Longrightarrow> ly_nProxyOpID l \<noteq> 0 \<Longrightarrow> outcome s l l'"
  by (simp add: outcome_def quiet_def completions_def)

lemma quiet_prims [simp]:
  "quiet l (SetLastError e l')  = quiet l l'" "quiet l (ClearSendBuffer l') = quiet l l'"
  "quiet l (Layer_ClearBuffer l') = quiet l l'"
  "quiet l (accumulate cap b rs l') = quiet l l'"
  "quiet l (l'\<lparr>ly_pSendBuffer := sb\<rparr>) = quiet l l'"
  "quiet l (l'\<lparr>nx_recvScript := rs\<rparr>) = quiet l l'"
  "quiet l (l'\<lparr>ly_pStrBuffer := b\<rparr>) = quiet l l'"
  by (simp_all add: quiet_def layer_simps accumulate_def)

lemma quiet_alloc_recv [simp]: "quiet l (alloc_recv n l') = quiet l l'"
  by (simp add: quiet_def alloc_recv_def)

lemma quiet_append_recv [simp]: "quiet l (append_recv d l') = quiet l l'"
  by (simp add: quiet_def append_recv_def split: option.splits prod.splits)

section \<open>Error numbers of the next layer\<close>

definition scripts_ok :: "Layer \<Rightarrow> bool" where
  "scripts_ok l \<longleftrightarrow> SendError 0 \<notin> set (nx_sendScript l) \<and> RecvError 0 \<notin> set (nx_recvScript l)"

lemma ReceiveNext_quiet: "ReceiveNext n l = (r, l') \<Longrightarrow> quiet l l'"
  by (auto simp: ReceiveNext_def quiet_def layer_simps split: list.splits recv_result.splits)

lemma ReceiveNext_scripts_ok:
  "ReceiveNext n l = (r, l') \<Longrightarrow> scripts_ok l \<Longrightarrow> scripts_ok l' \<and> (r = None \<longrightarrow> nx_lastError l' \<noteq> 0)"
  by (auto simp: ReceiveNext_def scripts_ok_def layer_simps split: list.splits recv_result.splits if_splits)

lemma SendNext_quiet: "SendNext d l = (n, l') \<Longrightarrow> quiet l l'"
  by (auto simp: SendNext_def quiet_def layer_simps split: list.splits send_result.splits)

lemma SendNext_scripts_ok:
  "SendNext d l = (n, l') \<Longrightarrow> scripts_ok l \<Longrightarrow> scripts_ok l' \<and> (n = SOCKET_ERROR \<longrightarrow> nx_lastError l' \<noteq> 0)"
  by (auto simp: SendNext_def scripts_ok_def layer_simps min_def split: list.splits send_result.splits)

lemma scripts_ok_prims [simp]:
  "scripts_ok (SetLastError e l) = scripts_ok l" "scripts_ok (ClearSendBuffer l) = scripts_ok l"
  "scripts_ok (l\<lparr>ly_pSendBuffer := sb\<rparr>) = scripts_ok l" "scripts_ok (alloc_recv n l) = scripts_ok l"
  "scripts_ok (l\<lparr>ly_pStrBuffer := b\<rparr>) = scripts_ok l"
  by (simp_all add: scripts_ok_def layer_simps alloc_recv_def)

lemma scripts_ok_append_recv [simp]: "scripts_ok (append_recv d l) = scripts_ok l"
  by (simp add: scripts_ok_def append_recv_def split: option.splits prod.splits)

lemma nx_lastError_prims [simp]:
  "nx_lastError (SetLastError e l) = e" "nx_lastError (ClearSendBuffer l) = nx_lastError l"
  by (simp_all add: layer_simps)

lemma FlushProxyRequest_quiet:
  "FlushProxyRequest l = (ok, l') \<Longrightarrow> quiet l l' \<and> (scripts_ok l \<longrightarrow> scripts_ok l' \<and> (\<not> ok \<longrightarrow> nx_lastError l' \<noteq> 0))"
proof (induction l rule: FlushProxyRequest.induct)
  case (1 l)
  show ?case
  proof (cases "\<exists>buf pos. ly_pSendBuffer l = Some (buf, pos) \<and> pos < length buf")
    case False
    with 1(2) show ?thesis
      by (auto simp: FlushProxyRequest.simps [of l] split: option.splits prod.splits if_splits)
  next
    case True
    then obtain buf pos where bp: "ly_pSendBuffer l = Some (buf, pos)" "pos < length buf" by blast
    obtain n l1 where n: "SendNext (drop pos buf) l = (n, l1)" by fastforce
    note S = SendNext_quiet [OF n] SendNext_scripts_ok [OF n]
    show ?thesis
    proof (cases "n = SOCKET_ERROR \<or> n \<le> 0")
      case True
      with 1(2) bp n S show ?thesis
        by (auto simp: FlushProxyRequest.simps [of l] split: if_splits)
    next
      case False
      let ?l = "l1\<lparr>ly_pSendBuffer := Some (buf, pos + nat n)\<rparr>"
      have "FlushProxyRequest ?l = (ok, l')"
        using 1(2) bp n False by (simp add: FlushProxyRequest.simps [of l])
      with 1(1) [OF bp(1) refl bp(2) n [symmetric] refl] False
      have "quiet ?l l' \<and> (scripts_ok ?l \<longrightarrow> scripts_ok l' \<and> (\<not> ok \<longrightarrow> nx_lastError l' \<noteq> 0))" by simp
      then show ?thesis
        using S by (auto simp: quiet_def)
    qed
  qed
qed

lemma QueueProxyRequest_quiet:
  assumes "QueueProxyRequest env req l = (ok, l')"
  shows "quiet l l' \<and> (scripts_ok l \<longrightarrow> scripts_ok l' \<and> (\<not> ok \<longrightarrow> nx_lastError l' \<noteq> 0))"
proof (cases "req = [] \<or> ly_pSendBuffer l \<noteq> None \<or> \<not> e_alloc env (length req)")
  case True
  with assms show ?thesis by (auto simp: QueueProxyRequest_def split: if_splits)
next
  case False
  with assms have "FlushProxyRequest (l\<lparr>ly_pSendBuffer := Some (req, 0)\<rparr>) = (ok, l')"
    by (simp add: QueueProxyRequest_def)
  from FlushProxyRequest_quiet [OF this] show ?thesis by (simp add: quiet_def)
qed

section \<open>The handlers\<close>

definition connecting_op :: "Layer \<Rightarrow> bool" where
  "connecting_op l \<longleftrightarrow> ly_nProxyOpID l = PROXYOP_CONNECT \<or> ly_nProxyOpID l = PROXYOP_UDPASSOCIATE"

lemma connecting_quiet: "quiet l l' \<Longrightarrow> connecting_op l \<Longrightarrow> connecting_op l'"
  by (simp add: quiet_def connecting_op_def)

lemma op_event_connecting [simp]: "connecting_op l \<Longrightarrow> op_event l = FD_CONNECT"
  by (auto simp: op_event_def connecting_op_def)

lemma connecting_nonzero: "connecting_op l \<Longrightarrow> ly_nProxyOpID l \<noteq> 0"
  by (auto simp: connecting_op_def)

lemma completions_simps [simp]:
  "completions [] = []" "completions (xs @ ys) = completions xs @ completions ys"
  "completions (DoLayerCallback c w t # es) = completions es"
  "completions (ListenSocketCreated ip port # es) = completions es"
  "completions (TriggerEvent FD_CONNECT e # es) = TriggerEvent FD_CONNECT e # completions es"
  "completions (TriggerEvent FD_READ e # es) = completions es"
  "completions (TriggerEvent FD_WRITE e # es) = completions es"
  by (simp_all add: completions_def)

lemma end_outcome:
  assumes "nx_events l' = nx_events l @ new" and "ly_nProxyOpID l' = 0"
    and "completions new = [TriggerEvent FD_CONNECT e]" and "e = 0 \<longrightarrow> s"
  shows "outcome s l l'"
  using assms by (auto simp: outcome_def)

lemma fail_outcomes:
  "err \<noteq> 0 \<Longrightarrow> outcome s l (abort_op FD_CONNECT code w t err l)"
  "connecting_op l \<Longrightarrow> outcome s l (FailPendingProxyOperation err l)"
  "nx_lastError l \<noteq> 0 \<Longrightarrow> connecting_op l \<Longrightarrow> outcome s l (queue_failed l)"
  "nx_lastError l \<noteq> 0 \<Longrightarrow> connecting_op l \<Longrightarrow> outcome s l (read_failed clear l)"
  "nx_lastError l \<noteq> 0 \<Longrightarrow> connecting_op l \<Longrightarrow> outcome s l (http_read_failed l)"
  "connecting_op l \<Longrightarrow> outcome s l (http_refused env l)"
  "outcome s l (http_too_large l)"
proof -
  show "err \<noteq> 0 \<Longrightarrow> outcome s l (abort_op FD_CONNECT code w t err l)"
    by (rule end_outcome [where e = err and new = "[DoLayerCallback code w t, TriggerEvent FD_CONNECT err]"])
      (simp_all add: abort_op_def layer_simps)
  show "connecting_op l \<Longrightarrow> outcome s l (FailPendingProxyOperation err l)"
    by (rule end_outcome [where e = "if err = 0 then WSAECONNABORTED else err" and
          new = "[DoLayerCallback PROXYERROR_REQUESTFAILED (if err = 0 then WSAECONNABORTED else err) [],
            TriggerEvent FD_CONNECT (if err = 0 then WSAECONNABORTED else err)]"])
      (simp_all add: FailPendingProxyOperation_def Let_def layer_simps connecting_nonzero)
  let ?new = "[DoLayerCallback PROXYERROR_REQUESTFAILED (nx_lastError l) [], TriggerEvent FD_CONNECT (nx_lastError l)]"
  show "nx_lastError l \<noteq> 0 \<Longrightarrow> connecting_op l \<Longrightarrow> outcome s l (queue_failed l)"
    by (rule end_outcome [where e = "nx_lastError l" and new = ?new])
      (simp_all add: queue_failed_def Let_def layer_simps)
  show "nx_lastError l \<noteq> 0 \<Longrightarrow> connecting_op l \<Longrightarrow> outcome s l (read_failed clear l)"
    by (cases "nx_lastError l = WSAEWOULDBLOCK")
      (simp add: read_failed_def quiet_outcome connecting_nonzero,
       rule end_outcome [where e = "nx_lastError l" and new = ?new], simp_all add: read_failed_def Let_def layer_simps)
  show "nx_lastError l \<noteq> 0 \<Longrightarrow> connecting_op l \<Longrightarrow> outcome s l (http_read_failed l)"
    by (cases "nx_lastError l = WSAEWOULDBLOCK")
      (simp add: http_read_failed_def quiet_outcome connecting_nonzero,
       rule end_outcome [where e = "nx_lastError l" and new = ?new], simp_all add: http_read_failed_def Let_def layer_simps)
  show "connecting_op l \<Longrightarrow> outcome s l (http_refused env l)"
    unfolding outcome_def
    by (simp add: http_refused_def Let_def layer_simps)
  show "outcome s l (http_too_large l)"
    by (rule end_outcome [where e = WSAECONNABORTED and new = "[DoLayerCallback PROXYERROR_REQUESTFAILED 0
          ''Invalid HTTP response - Header size exceeds limit'', TriggerEvent FD_CONNECT WSAECONNABORTED]"])
      (simp_all add: http_too_large_def layer_simps)
qed

lemma opened_outcome:
  shows "outcome True l (opened FD_CONNECT (Layer_ClearBuffer (Layer_Reset l)))"
    and "outcome True l (opened FD_CONNECT (Layer_Reset (Layer_ClearBuffer l)))"
  by (auto intro!: end_outcome [where e = 0] simp: opened_def layer_simps)

lemma state_outcome:
  "outcome s l (l'\<lparr>ly_nProxyOpState := st\<rparr>) = outcome s l l'"
  "outcome s l (Layer_ClearBuffer l') = outcome s l l'"
  by (simp_all add: outcome_def layer_simps)

lemma socks4_complete_outcome:
  assumes "connecting_op l"
  shows "outcome True l (socks4_complete env l)"
proof -
  have "connect_event l = FD_CONNECT" if "ly_nProxyOpID l = PROXYOP_CONNECT"
    using that by (simp add: connect_event_def)
  with assms show ?thesis
    by (auto simp: socks4_complete_def Let_def fail_outcomes opened_outcome state_outcome connecting_op_def
        intro: quiet_outcome)
qed

lemma queue_outcome:
  assumes "connecting_op l" and "scripts_ok l" and "QueueProxyRequest env req l = (ok, l')"
    and "\<And>l'. quiet l l' \<Longrightarrow> outcome s l (f l')"
  shows "outcome s l (if \<not> ok then queue_failed l' else f l')"
proof -
  have q: "quiet l l'" "\<not> ok \<longrightarrow> nx_lastError l' \<noteq> 0"
    using QueueProxyRequest_quiet [OF assms(3)] assms(2) by blast+
  then show ?thesis
    using assms(1,4) outcome_quiet [OF q(1) fail_outcomes(3)] connecting_quiet [OF q(1)] by simp
qed

lemma socks5_method_complete_outcome:
  assumes "connecting_op l" and "scripts_ok l"
  shows "outcome True l (socks5_method_complete env l)"
proof -
  have "outcome True l (socks5_authenticate env l)"
  proof -
    obtain ok l' where q: "QueueProxyRequest env (auth_request (ly_ProxyData l)) l = (ok, l')" by fastforce
    show ?thesis
      using queue_outcome [OF assms q, of True "\<lambda>l. (Layer_ClearBuffer l)\<lparr>ly_nProxyOpState := 2\<rparr>"] q
      by (simp add: socks5_authenticate_def state_outcome quiet_outcome connecting_nonzero [OF assms(1)])
  qed
  moreover have "outcome True l (socks5_send_request env l)"
  proof (cases "socks5_needs_host l \<and> ly_pProxyPeerHost l = None")
    case True
    then show ?thesis
      unfolding socks5_send_request_def
      by (auto intro!: end_outcome [where e = WSAEINVAL] simp: layer_simps)
  next
    case False
    obtain ok l' where q: "QueueProxyRequest env
        (socks5_request l (case ly_pProxyPeerHost l of Some h \<Rightarrow> h | None \<Rightarrow> [])) l = (ok, l')" by fastforce
    show ?thesis
      unfolding socks5_send_request_def if_not_P [OF False]
      using queue_outcome [OF assms q, of True "\<lambda>l. Layer_ClearBuffer (l\<lparr>ly_nProxyOpState := 3\<rparr>)"] q
      by (simp add: state_outcome quiet_outcome connecting_nonzero [OF assms(1)])
  qed
  ultimately show ?thesis
    using assms(1) by (simp add: socks5_method_complete_def Let_def fail_outcomes)
qed

lemma socks5_reply_complete_outcome:
  assumes "connecting_op l"
  shows "outcome True l (socks5_reply_complete env l)"
proof -
  have "outcome True l (socks5_associated env l)"
  proof (cases "relay_address env (recv_bytes l)")
    case None
    then show ?thesis
      unfolding socks5_associated_def Let_def
      by (auto simp: fail_outcomes layer_simps intro!: end_outcome [where e = WSAHOST_NOT_FOUND])
  next
    case (Some a)
    then show ?thesis
      unfolding socks5_associated_def Let_def
      by (auto simp: fail_outcomes layer_simps intro!: end_outcome [where e = 0])
  qed
  moreover have "connect_event l = FD_CONNECT" if "ly_nProxyOpID l = PROXYOP_CONNECT"
    using that by (simp add: connect_event_def)
  ultimately show ?thesis
    using assms
    by (auto simp: socks5_reply_complete_def Let_def fail_outcomes opened_outcome state_outcome connecting_op_def
        intro: quiet_outcome)
qed

lemma http_receive_outcome:
  assumes "connecting_op l" and "scripts_ok l"
  shows "outcome True l (http_receive env l)"
  using assms
proof (induction env l rule: http_receive.induct)
  case (1 env l)
  obtain r l1 where r: "ReceiveNext 4096 l = (r, l1)" by fastforce
  note q = ReceiveNext_quiet [OF r]
  have c: "connecting_op l1" "scripts_ok l1" "r = None \<longrightarrow> nx_lastError l1 \<noteq> 0"
    using connecting_quiet [OF q] ReceiveNext_scripts_ok [OF r] 1(2,3) by auto
  show ?case
  proof (cases r)
    case None
    then show ?thesis
      using r outcome_quiet [OF q fail_outcomes(5)] c by (simp add: http_receive.simps [of env l])
  next
    case (Some d)
    let ?l = "l1\<lparr>ly_pStrBuffer := ly_pStrBuffer l1 @ d\<rparr>"
    have q': "quiet l ?l" "connecting_op ?l" "scripts_ok ?l"
      using q c by (simp_all add: connecting_op_def)
    consider "d = []" | "d \<noteq> []" "4096 < length (ly_pStrBuffer l1) + length d \<or> \<not> e_alloc env (length (ly_pStrBuffer l1) + length d)"
      | n where "d \<noteq> []" "\<not> (4096 < length (ly_pStrBuffer l1) + length d \<or> \<not> e_alloc env (length (ly_pStrBuffer l1) + length d))"
          "find_eoh 0 (ly_pStrBuffer ?l) = Some n"
      | "d \<noteq> []" "\<not> (4096 < length (ly_pStrBuffer l1) + length d \<or> \<not> e_alloc env (length (ly_pStrBuffer l1) + length d))"
          "find_eoh 0 (ly_pStrBuffer ?l) = None"
      by (cases "find_eoh 0 (ly_pStrBuffer ?l)") auto
    then show ?thesis
    proof cases
      case 1
      then show ?thesis
        using r Some outcome_quiet [OF q fail_outcomes(2)] c by (simp add: http_receive.simps [of env l])
    next
      case 2
      then show ?thesis
        using r Some outcome_quiet [OF q fail_outcomes(7)] by (simp add: http_receive.simps [of env l])
    next
      case (3 n)
      have "outcome True ?l (http_complete env n ?l)"
        using fail_outcomes(6) [OF q'(2)] opened_outcome(1) [of ?l]
        by (auto simp: http_complete_def Let_def outcome_def opened_def layer_simps)
      then have "outcome True l (http_complete env n ?l)" by (rule outcome_quiet [OF q'(1)])
      with 3 r Some show ?thesis by (simp add: http_receive.simps [of env l] Let_def)
    next
      case 4
      have "http_receive env l = http_receive env ?l"
        using 4 r Some by (simp add: http_receive.simps [of env l] Let_def)
      moreover have "outcome True ?l (http_receive env ?l)"
        by (rule 1(1) [OF r [symmetric] Some 4(1,2) refl 4(3) q'(2,3)])
      ultimately show ?thesis using outcome_quiet [OF q'(1)] by simp
    qed
  qed
qed

lemma read_outcome:
  assumes "connecting_op l" and "scripts_ok l" and "quiet l l0" and "scripts_ok l0"
    and r: "ReceiveNext n l0 = (r, l1)"
    and f: "\<And>d l'. quiet l l' \<Longrightarrow> scripts_ok l' \<Longrightarrow> d \<noteq> [] \<Longrightarrow> outcome True l (f d l')"
  shows "outcome True l (case r of None \<Rightarrow> read_failed clear l1
    | Some d \<Rightarrow> if d = [] then FailPendingProxyOperation WSAECONNABORTED l1 else f d l1)"
proof -
  have q: "quiet l l1" using quiet_trans [OF assms(3) ReceiveNext_quiet [OF r]] .
  have c: "connecting_op l1" "scripts_ok l1" "r = None \<longrightarrow> nx_lastError l1 \<noteq> 0"
    using connecting_quiet [OF q assms(1)] ReceiveNext_scripts_ok [OF r assms(4)] by auto
  show ?thesis
    using c f [OF q] outcome_quiet [OF q fail_outcomes(2)] outcome_quiet [OF q fail_outcomes(4)]
    by (cases r) auto
qed

lemma OnReceive_outcome:
  assumes c: "connecting_op l" and ok: "scripts_ok l"
  shows "outcome (nErrorCode = 0) l (Layer_OnReceive env nErrorCode l)"
proof (cases "nErrorCode = 0 \<and> ly_nProxyOpState l \<noteq> 0")
  case False
  then show ?thesis
    using fail_outcomes(2) [OF c] connecting_nonzero [OF c]
    by (auto simp: Layer_OnReceive_def intro: quiet_outcome)
next
  case True
  have "outcome True l (socks4_receive env l)"
  proof -
    define f where "f d l' = (let l' = append_recv d l' in if length (recv_bytes l') = 8 then socks4_complete env l' else l')" for d l'
    let ?l = "alloc_recv 8 l"
    obtain r l1 where r: "ReceiveNext (8 - length (recv_bytes ?l)) ?l = (r, l1)" by fastforce
    have F: "outcome True l (f d l')" if "quiet l l'" "scripts_ok l'" "d \<noteq> []" for d l'
    proof -
      have q: "quiet l (append_recv d l')" using that by simp
      note C = connecting_quiet [OF q c]
      show ?thesis
        using that outcome_quiet [OF q socks4_complete_outcome [OF C]] quiet_outcome [OF q connecting_nonzero [OF c]]
          outcome_quiet [OF q fail_outcomes(1), of WSAEAFNOSUPPORT True] op_event_connecting [OF C]
        by (simp add: f_def Let_def split: option.splits)
    qed
    from read_outcome [OF c ok _ _ r, of f True] F ok show ?thesis
      using r quiet_outcome [of l l True] connecting_nonzero [OF c]
      by (auto simp: socks4_receive_def f_def Let_def split: option.splits)
  qed
  moreover have "outcome True l (socks5_method_receive env l)"
  proof -
    define f where "f d l' = (let l' = append_recv d l' in if length (recv_bytes l') = 2 then socks5_method_complete env l' else l')" for d l'
    let ?l = "alloc_recv 2 l"
    obtain r l1 where r: "ReceiveNext (2 - length (recv_bytes ?l)) ?l = (r, l1)" by fastforce
    have F: "outcome True l (f d l')" if "quiet l l'" "scripts_ok l'" "d \<noteq> []" for d l'
    proof -
      have q: "quiet l (append_recv d l')" using that by simp
      note C = connecting_quiet [OF q c]
      show ?thesis
        using that outcome_quiet [OF q socks5_method_complete_outcome [OF C]] quiet_outcome [OF q connecting_nonzero [OF c]]
          outcome_quiet [OF q fail_outcomes(1), of WSAEAFNOSUPPORT True] op_event_connecting [OF C]
        by (simp add: f_def Let_def split: option.splits)
    qed
    from read_outcome [OF c ok _ _ r, of f False] F ok show ?thesis
      using r quiet_outcome [of l l True] connecting_nonzero [OF c]
      by (auto simp: socks5_method_receive_def f_def Let_def split: option.splits)
  qed
  moreover have "outcome True l (socks5_reply_receive env l)"
  proof -
    define f where "f d l' = (let l' = append_recv d l'; b = recv_bytes l' in if length b < 4 then l'
        else case reply_length b of
          None \<Rightarrow> abort_op (op_event l') PROXYERROR_REQUESTFAILED WSAEAFNOSUPPORT ''Unexpected ATYP received'' WSAEAFNOSUPPORT l'
        | Some n \<Rightarrow> if length b = n then socks5_reply_complete env l' else l')" for d l'
    let ?l = "alloc_recv 262 l"
    obtain r l1 where r: "ReceiveNext ((case reply_length (recv_bytes ?l) of Some n \<Rightarrow> n | None \<Rightarrow> 4) - length (recv_bytes ?l)) ?l = (r, l1)" by fastforce
    have F: "outcome True l (f d l')" if "quiet l l'" "scripts_ok l'" "d \<noteq> []" for d l'
    proof -
      have q: "quiet l (append_recv d l')" using that by simp
      note C = connecting_quiet [OF q c]
      show ?thesis
        using that outcome_quiet [OF q socks5_reply_complete_outcome [OF C]] quiet_outcome [OF q connecting_nonzero [OF c]]
          outcome_quiet [OF q fail_outcomes(1), of WSAEAFNOSUPPORT True] op_event_connecting [OF C]
        by (simp add: f_def Let_def split: option.splits)
    qed
    have "socks5_reply_receive env l = (case r of None \<Rightarrow> read_failed False l1
        | Some d \<Rightarrow> if d = [] then FailPendingProxyOperation WSAECONNABORTED l1 else f d l1)"
      unfolding socks5_reply_receive_def Let_def r f_def by (cases r) simp_all
    then show ?thesis
      using read_outcome [OF c ok _ _ r, of f False] F ok by simp
  qed
  moreover have "outcome True l (http_receive env l)" by (rule http_receive_outcome [OF c ok])
  moreover have "outcome True l l" by (rule quiet_outcome [OF _ connecting_nonzero [OF c]]) simp
  ultimately show ?thesis
    using True connecting_nonzero [OF c] by (auto simp: Layer_OnReceive_def split: proxytype.splits)
qed

section \<open>Every socket event\<close>

datatype sock_event = EvConnect int | EvReceive int | EvSend int | EvClose int

fun layer_dispatch :: "LayerEnv \<Rightarrow> sock_event \<Rightarrow> Layer \<Rightarrow> Layer" where
  "layer_dispatch env (EvConnect e) l = Layer_OnConnect env e l"
| "layer_dispatch env (EvReceive e) l = Layer_OnReceive env e l"
| "layer_dispatch env (EvSend e) l = Layer_OnSend e l"
| "layer_dispatch env (EvClose e) l = Layer_OnClose e l"

lemma OnSend_outcome:
  assumes c: "connecting_op l" and ok: "scripts_ok l"
  shows "outcome False l (Layer_OnSend e l)"
proof -
  have fail: "outcome False l (send_failed err l')" if "quiet l l'" for err l'
  proof -
    have "outcome False l' (send_failed err l')"
      using connecting_quiet [OF that c]
      by (intro end_outcome [where e = "if err \<noteq> 0 then err else if nx_lastError l' \<noteq> 0 then nx_lastError l' else WSAECONNABORTED"
            and new = "[DoLayerCallback PROXYERROR_REQUESTFAILED (if err \<noteq> 0 then err else nx_lastError l') [],
              TriggerEvent FD_CONNECT (if err \<noteq> 0 then err else if nx_lastError l' \<noteq> 0 then nx_lastError l' else WSAECONNABORTED)]"])
        (auto simp: send_failed_def Let_def layer_simps op_event_def connecting_op_def)
    then show ?thesis by (rule outcome_quiet [OF that])
  qed
  obtain b l' where f: "FlushProxyRequest l = (b, l')" by fastforce
  have q: "quiet l l'" using FlushProxyRequest_quiet [OF f] by blast
  show ?thesis
    using fail [of l] fail [OF q] quiet_outcome [OF q connecting_nonzero [OF c]] f
      quiet_outcome [of l l False] connecting_nonzero [OF c]
    by (simp add: Layer_OnSend_def)
qed

lemma OnConnect_outcome:
  assumes c: "ly_nProxyOpID l = PROXYOP_CONNECT" and ok: "scripts_ok l"
    and proxied: "nProxyType (ly_ProxyData l) \<noteq> PROXYTYPE_NOPROXY"
  shows "outcome False l (Layer_OnConnect env e l)"
proof (cases "e = 0 \<and> ly_nProxyOpState l = 0")
  case False
  have "e \<noteq> 0 \<Longrightarrow> outcome False l (abort_op FD_CONNECT code e [] e l)" for code
    by (rule fail_outcomes(1))
  then show ?thesis
    using False c proxied quiet_outcome [of l l False]
    by (auto simp: Layer_OnConnect_def op_event_def)
next
  case True
  let ?l = "Layer_ClearBuffer l"
  have q: "quiet l ?l" "connecting_op ?l" "connect_event ?l = FD_CONNECT" "scripts_ok ?l"
    using c ok by (simp_all add: quiet_def connecting_op_def connect_event_def scripts_ok_def layer_simps)
  have queue: "outcome False l (queue_first env req ?l)" for req
  proof -
    obtain b l' where b: "QueueProxyRequest env req ?l = (b, l')" by fastforce
    have q': "quiet l l'" "\<not> b \<longrightarrow> nx_lastError l' \<noteq> 0"
      using QueueProxyRequest_quiet [OF b] quiet_trans [OF q(1)] q(4) by blast+
    have id': "ly_nProxyOpID l' = PROXYOP_CONNECT" using q'(1) c by (simp add: quiet_def)
    have "\<not> b \<Longrightarrow> outcome False l' (request_failed l')"
      using q'(2) id' fail_outcomes(1) [of WSAECONNABORTED] fail_outcomes(1) [of "nx_lastError l'"]
      by (simp add: request_failed_def Let_def connect_event_def)
    then show ?thesis
      using outcome_quiet [OF q'(1)] quiet_outcome [OF q'(1)] c b
      by (simp add: queue_first_def state_outcome)
  qed
  have "outcome False l (http_send_request env ?l)"
    using queue outcome_quiet [OF q(1) fail_outcomes(1), of WSAEINVAL False] q(3)
    by (simp add: http_send_request_def Let_def split: option.splits)
  moreover have "outcome False l (Layer_Reset (trigger FD_CONNECT WSAEAFNOSUPPORT
      (callback PROXYERROR_REQUESTFAILED WSAEAFNOSUPPORT [] ?l)))"
    by (rule end_outcome [where e = WSAEAFNOSUPPORT and new = "[DoLayerCallback PROXYERROR_REQUESTFAILED WSAEAFNOSUPPORT [],
        TriggerEvent FD_CONNECT WSAEAFNOSUPPORT]"]) (simp_all add: layer_simps)
  moreover have "nProxyType (ly_ProxyData ?l) = nProxyType (ly_ProxyData l)" by (simp add: layer_simps)
  ultimately show ?thesis
    using True c proxied queue by (simp add: Layer_OnConnect_def Let_def split: proxytype.splits)
qed

lemma connect_event_outcome:
  assumes "ly_nProxyOpID l = PROXYOP_CONNECT" and "nProxyType (ly_ProxyData l) \<noteq> PROXYTYPE_NOPROXY" and "scripts_ok l"
  shows "outcome (ev = EvReceive 0) l (layer_dispatch env ev l)"
proof -
  have c: "connecting_op l" using assms(1) by (simp add: connecting_op_def)
  show ?thesis
  proof (cases ev)
    case (EvConnect e)
    with OnConnect_outcome [OF assms(1,3,2), of env e] show ?thesis by simp
  next
    case (EvReceive e)
    with OnReceive_outcome [OF c assms(3), of e env] show ?thesis by simp
  next
    case (EvSend e)
    with OnSend_outcome [OF c assms(3), of e] show ?thesis by simp
  next
    case (EvClose e)
    with fail_outcomes(2) [OF c, of False e] assms(1) show ?thesis by (simp add: Layer_OnClose_def)
  qed
qed

section \<open>Runs of socket events\<close>

text \<open>What no handler changes: the proxy settings, and that failures have an error number.\<close>

definition calm :: "Layer \<Rightarrow> Layer \<Rightarrow> bool" where
  "calm l l' \<longleftrightarrow> ly_ProxyData l' = ly_ProxyData l \<and> (scripts_ok l \<longrightarrow> scripts_ok l')"

lemma calm_refl [simp]: "calm l l"
  by (simp add: calm_def)

lemma calm_trans: "calm l l1 \<Longrightarrow> calm l1 l2 \<Longrightarrow> calm l l2"
  by (simp add: calm_def)

lemma calm_prims [simp]:
  "calm l (SetLastError e l') = calm l l'" "calm l (ClearSendBuffer l') = calm l l'"
  "calm l (Layer_ClearBuffer l') = calm l l'" "calm l (Layer_Reset l') = calm l l'"
  "calm l (trigger ev err l') = calm l l'" "calm l (callback c w t l') = calm l l'"
  "calm l (alloc_recv n l') = calm l l'" "calm l (abort_op ev code w t err l') = calm l l'"
  "calm l (opened ev l') = calm l l'" "calm l (queue_failed l') = calm l l'"
  "calm l (l'\<lparr>ly_nProxyOpState := st\<rparr>) = calm l l'" "calm l (l'\<lparr>ly_pStrBuffer := b\<rparr>) = calm l l'"
  "calm l (l'\<lparr>nx_events := evs\<rparr>) = calm l l'" "calm l (l'\<lparr>ly_udpsrvAddr := a\<rparr>) = calm l l'"
  "calm l (l'\<lparr>ly_pAppRecvBuffer := ab\<rparr>) = calm l l'" "calm l (l'\<lparr>ly_pSendBuffer := sb\<rparr>) = calm l l'"
  by (simp_all add: calm_def scripts_ok_def layer_simps alloc_recv_def abort_op_def opened_def queue_failed_def Let_def)

lemma calm_more [simp]:
  "calm l (append_recv d l') = calm l l'" "calm l (FailPendingProxyOperation e l') = calm l l'"
  "calm l (read_failed clear l') = calm l l'" "calm l (http_read_failed l') = calm l l'"
  "calm l (http_too_large l') = calm l l'" "calm l (http_refused env l') = calm l l'"
  "calm l (request_failed l') = calm l l'" "calm l (send_failed e l') = calm l l'"
  "calm l (http_complete env n l') = calm l l'" "calm l (socks5_associated env l') = calm l l'"
  "calm l (socks5_reply_complete env l') = calm l l'"
  by (simp_all add: append_recv_def FailPendingProxyOperation_def read_failed_def http_read_failed_def
      http_too_large_def http_refused_def request_failed_def send_failed_def http_complete_def
      socks5_associated_def socks5_reply_complete_def Let_def split: option.splits prod.splits)
    (simp_all add: calm_def scripts_ok_def)

lemma calm_calls:
  "ReceiveNext n l = (r, l') \<Longrightarrow> calm l l'" "FlushProxyRequest l = (ok, l') \<Longrightarrow> calm l l'"
  "QueueProxyRequest env req l = (ok, l') \<Longrightarrow> calm l l'" "Layer_GetPeerName env len l = (a, l') \<Longrightarrow> calm l l'"
proof -
  show "ReceiveNext n l = (r, l') \<Longrightarrow> calm l l'"
    using ReceiveNext_quiet ReceiveNext_scripts_ok by (simp add: calm_def quiet_def)
  show "FlushProxyRequest l = (ok, l') \<Longrightarrow> calm l l'"
    using FlushProxyRequest_quiet [of l ok l'] by (auto simp: calm_def quiet_def)
  show "QueueProxyRequest env req l = (ok, l') \<Longrightarrow> calm l l'"
    using QueueProxyRequest_quiet [of env req l ok l'] by (auto simp: calm_def quiet_def)
  show "Layer_GetPeerName env len l = (a, l') \<Longrightarrow> calm l l'"
    by (auto simp: Layer_GetPeerName_def split: if_splits option.splits)
qed

lemma calm_ReceiveNext: "ReceiveNext n l' = (r, l1) \<Longrightarrow> calm l l' \<Longrightarrow> calm l l1"
  using calm_trans calm_calls(1) by blast

lemma calm_socks4: "calm l (socks4_receive env l)"
proof -
  have "calm l (socks4_bound env b l')" if "calm l l'" for b l'
    using that calm_calls(4) [of env "Some 16" "l'\<lparr>ly_nProxyOpState := 2\<rparr>"] calm_trans [of l "l'\<lparr>ly_nProxyOpState := 2\<rparr>"]
    by (auto simp: socks4_bound_def Let_def split: prod.splits option.splits)
  then have "calm l (socks4_complete env l')" if "calm l l'" for l'
    using that by (simp add: socks4_complete_def Let_def)
  then show ?thesis
    by (auto simp: socks4_receive_def Let_def dest!: calm_ReceiveNext [where l = l] split: prod.splits option.splits)
qed

lemma calm_socks5_method: "calm l (socks5_method_receive env l)"
proof -
  have q: "calm l l2" if "calm l l'" "QueueProxyRequest env req l' = (ok, l2)" for req ok l' l2
    using calm_trans [OF that(1) calm_calls(3) [OF that(2)]] .
  have "calm l (socks5_method_complete env l')" if "calm l l'" for l'
    using that q [OF that]
    by (auto simp: socks5_method_complete_def socks5_authenticate_def socks5_send_request_def Let_def split: prod.splits)
  then show ?thesis
    by (auto simp: socks5_method_receive_def Let_def dest!: calm_ReceiveNext [where l = l] split: prod.splits option.splits)
qed

lemma calm_socks5_reply: "calm l (socks5_reply_receive env l)"
  by (auto simp: socks5_reply_receive_def Let_def dest!: calm_ReceiveNext [where l = l] split: prod.splits option.splits)

lemma calm_http: "calm l (http_receive env l)"
proof (induction env l rule: http_receive.induct)
  case (1 env l)
  obtain r l1 where r: "ReceiveNext 4096 l = (r, l1)" by fastforce
  let ?b = "\<lambda>d. l1\<lparr>ly_pStrBuffer := ly_pStrBuffer l1 @ d\<rparr>"
  have l1: "calm l l1" by (rule calm_calls(1) [OF r])
  have "calm l (http_receive env (?b d))"
    if "r = Some d" "d \<noteq> []" "\<not> (4096 < length (ly_pStrBuffer l1) + length d \<or> \<not> e_alloc env (length (ly_pStrBuffer l1) + length d))"
      "find_eoh 0 (ly_pStrBuffer (?b d)) = None" for d
    by (rule calm_trans [OF _ 1 [OF r [symmetric] that(1-3) refl that(4)]]) (use l1 in simp)
  with r l1 show ?case
    by (auto simp: http_receive.simps [of env l] Let_def split: option.splits)
qed

lemma calm_dispatch: "calm l (layer_dispatch env ev l)"
proof (cases ev)
  case (EvConnect e)
  have q: "calm l (queue_first env req (Layer_ClearBuffer l))" for req
    using calm_calls(3) [of env req "Layer_ClearBuffer l"] calm_trans [of l "Layer_ClearBuffer l"]
    by (auto simp: queue_first_def split: prod.splits)
  then show ?thesis
    using EvConnect by (auto simp: Layer_OnConnect_def http_send_request_def Let_def split: proxytype.splits option.splits)
next
  case (EvReceive e)
  then show ?thesis
    by (simp add: Layer_OnReceive_def calm_socks4 calm_socks5_method calm_socks5_reply calm_http split: proxytype.splits)
next
  case (EvSend e)
  then show ?thesis
    using calm_calls(2) [of l] by (auto simp: Layer_OnSend_def split: prod.splits)
next
  case (EvClose e)
  then show ?thesis by (simp add: Layer_OnClose_def)
qed

text \<open>
  A run: before each event some further results of the next layer become available, behind
  those that have not been asked for yet.
\<close>

fun layer_run :: "LayerEnv \<Rightarrow> (sock_event \<times> recv_result list \<times> send_result list) list \<Rightarrow> Layer \<Rightarrow> Layer" where
  "layer_run env [] l = l"
| "layer_run env ((ev, rs, ss) # run) l = layer_run env run (layer_dispatch env ev
     (l\<lparr>nx_recvScript := nx_recvScript l @ rs, nx_sendScript := nx_sendScript l @ ss\<rparr>))"

fun is_connect :: "layer_event \<Rightarrow> bool" where
  "is_connect (TriggerEvent FD_CONNECT e) = True"
| "is_connect _ = False"

lemma completions_connects:
  "completions new = [TriggerEvent FD_CONNECT e] \<Longrightarrow> filter is_connect new = [TriggerEvent FD_CONNECT e]"
proof -
  assume "completions new = [TriggerEvent FD_CONNECT e]"
  moreover have "is_connect x \<Longrightarrow> is_completion x" for x by (cases x rule: is_connect.cases) simp_all
  then have "filter is_connect new = filter is_connect (completions new)"
    unfolding completions_def filter_filter by (intro filter_cong) auto
  ultimately show ?thesis by simp
qed

text \<open>Once the operation has ended, no event raises another connect event.\<close>

lemma idle_dispatch:
  assumes "ly_nProxyOpID l = 0" and "nProxyType (ly_ProxyData l) \<noteq> PROXYTYPE_NOPROXY"
  shows "ly_nProxyOpID (layer_dispatch env ev l) = 0 \<and>
    (\<exists>new. nx_events (layer_dispatch env ev l) = nx_events l @ new \<and> filter is_connect new = [])"
proof (cases ev)
  case (EvSend e)
  obtain ok l' where f: "FlushProxyRequest l = (ok, l')" by fastforce
  then have "nx_events l' = nx_events l" "ly_nProxyOpID l' = 0"
    using FlushProxyRequest_quiet [OF f] assms(1) by (simp_all add: quiet_def)
  with EvSend f assms(1) show ?thesis
    by (simp add: Layer_OnSend_def send_failed_def op_event_def Let_def layer_simps)
qed (use assms in \<open>simp_all add: Layer_OnConnect_def Layer_OnReceive_def Layer_OnClose_def trigger_def\<close>)

lemma idle_run:
  assumes "ly_nProxyOpID l = 0" and "nProxyType (ly_ProxyData l) \<noteq> PROXYTYPE_NOPROXY"
  shows "ly_nProxyOpID (layer_run env run l) = 0 \<and>
    (\<exists>new. nx_events (layer_run env run l) = nx_events l @ new \<and> filter is_connect new = [])"
  using assms
proof (induction env run l rule: layer_run.induct)
  case (2 env ev rs ss run l)
  let ?l = "l\<lparr>nx_recvScript := nx_recvScript l @ rs, nx_sendScript := nx_sendScript l @ ss\<rparr>"
  have "ly_ProxyData (layer_dispatch env ev ?l) = ly_ProxyData l" using calm_dispatch [of ?l env ev] by (simp add: calm_def)
  with 2 idle_dispatch [of ?l env ev] show ?case by fastforce
qed simp

text \<open>
  C2. A proxied connect completes exactly once: after any sequence of socket events, with
  whatever data, portions and errors the next layer gives (a failure always with an error
  number), either the connect is still pending and no completion of any kind has been raised, or
  it has ended and exactly one connect event was raised in the whole run, however long the
  run goes on after the end; it reports success only in a run with a receive event without
  an error.
\<close>

theorem connect_completes_once:
  assumes "ly_nProxyOpID l = PROXYOP_CONNECT" and "nProxyType (ly_ProxyData l) \<noteq> PROXYTYPE_NOPROXY"
    and "scripts_ok l" and "\<forall>(ev, rs, ss) \<in> set run. RecvError 0 \<notin> set rs \<and> SendError 0 \<notin> set ss"
    and "l' = layer_run env run l"
  shows "\<exists>new. nx_events l' = nx_events l @ new \<and>
    (if ly_nProxyOpID l' \<noteq> 0 then ly_nProxyOpID l' = PROXYOP_CONNECT \<and> completions new = []
     else \<exists>e. filter is_connect new = [TriggerEvent FD_CONNECT e] \<and>
       (e = 0 \<longrightarrow> (\<exists>rs ss. (EvReceive 0, rs, ss) \<in> set run)))"
  using assms
proof (induction env run l rule: layer_run.induct)
  case (2 env ev rs ss run l)
  let ?l = "l\<lparr>nx_recvScript := nx_recvScript l @ rs, nx_sendScript := nx_sendScript l @ ss\<rparr>"
  let ?m = "layer_dispatch env ev ?l"
  have ok: "scripts_ok ?l" using 2(4,5) by (simp add: scripts_ok_def)
  have m: "scripts_ok ?m" "nProxyType (ly_ProxyData ?m) \<noteq> PROXYTYPE_NOPROXY"
    using calm_dispatch [of ?l env ev] ok 2(3) by (simp_all add: calm_def)
  have l': "l' = layer_run env run ?m" using 2(6) by simp
  have "outcome (ev = EvReceive 0) ?l ?m" by (rule connect_event_outcome [OF _ _ ok]) (use 2(2,3) in simp_all)
  then obtain new where step: "nx_events ?m = nx_events ?l @ new"
    "if ly_nProxyOpID ?m \<noteq> 0 then ly_nProxyOpID ?m = ly_nProxyOpID ?l \<and> completions new = []
     else \<exists>e. completions new = [TriggerEvent FD_CONNECT e] \<and> (e = 0 \<longrightarrow> ev = EvReceive 0)"
    unfolding outcome_def by blast
  then have new: "nx_events ?m = nx_events l @ new"
    "if ly_nProxyOpID ?m \<noteq> 0 then ly_nProxyOpID ?m = PROXYOP_CONNECT \<and> completions new = []
     else \<exists>e. completions new = [TriggerEvent FD_CONNECT e] \<and> (e = 0 \<longrightarrow> ev = EvReceive 0)"
    using 2(2) by (simp_all split: if_splits)
  show ?case
  proof (cases "ly_nProxyOpID ?m = 0")
    case True
    then obtain e where "filter is_connect new = [TriggerEvent FD_CONNECT e]" "e = 0 \<longrightarrow> ev = EvReceive 0"
      using new(2) completions_connects by auto
    moreover obtain rest where "nx_events l' = nx_events ?m @ rest" "filter is_connect rest = []" "ly_nProxyOpID l' = 0"
      using idle_run [OF True m(2), of env run] l' by auto
    ultimately show ?thesis using new(1) by auto
  next
    case False
    then have pending: "ly_nProxyOpID ?m = PROXYOP_CONNECT" "completions new = []" using new(2) by simp_all
    then have "filter is_connect new = []"
      unfolding completions_def filter_empty_conv using is_completion.simps(1) is_connect.elims(2) by metis
    moreover obtain rest where "nx_events l' = nx_events ?m @ rest"
      "if ly_nProxyOpID l' \<noteq> 0 then ly_nProxyOpID l' = PROXYOP_CONNECT \<and> completions rest = []
       else \<exists>e. filter is_connect rest = [TriggerEvent FD_CONNECT e] \<and> (e = 0 \<longrightarrow> (\<exists>rs ss. (EvReceive 0, rs, ss) \<in> set run))"
      using 2(1) [OF pending(1) m(2,1)] 2(5) l' by auto
    ultimately show ?thesis using new(1) pending(2) by (intro exI [of _ "new @ rest"]) (auto split: if_splits)
  qed
qed (simp add: completions_def)

theorem connect_completes_once_witness:
  "\<exists>new. nx_events (layer_run env_plain [(EvReceive 0, [], []), (EvClose 0, [], []), (EvClose 0, [], [])] (layer_socks5 1)) =
      nx_events (layer_socks5 1) @ new \<and> (\<exists>e. filter is_connect new = [TriggerEvent FD_CONNECT e])"
proof -
  let ?run = "[(EvReceive 0, [], []), (EvClose 0, [], []), (EvClose 0, [], [])]"
  have "ly_nProxyOpID (layer_run env_plain ?run (layer_socks5 1)) = 0"
    by (simp add: Layer_OnReceive_def socks5_method_receive_def ReceiveNext_def read_failed_def Layer_OnClose_def
        FailPendingProxyOperation_def Let_def layer_simps alloc_recv_def layer_socks5_def SetProxy_def layer_fresh_def)
  then show ?thesis
    using connect_completes_once [of "layer_socks5 1" ?run _ env_plain, OF _ _ _ _ refl]
    by (auto simp: scripts_ok_def layer_socks5_def SetProxy_def layer_fresh_def)
qed

lemma FlushProxyRequest_error:
  assumes "ly_pSendBuffer m = Some (req, 0)" and "req \<noteq> []" and "nx_sendScript m = [SendError e]" and "e \<noteq> WSAEWOULDBLOCK"
  shows "FlushProxyRequest m = (False, ClearSendBuffer (SetLastError e (m\<lparr>nx_sendScript := []\<rparr>)))"
  using assms by (subst FlushProxyRequest.simps) (simp add: SendNext_def)

text \<open>
  C29. A UDP associate whose greeting cannot be sent is reported on the wrong channel: the
  connection to the proxy is open, the first write fails, and the layer raises \<open>FD_ACCEPT\<close>,
  while the owner of an association waits for \<open>FD_CONNECT\<close>, which every other failure of an
  associate raises.
\<close>

theorem associate_greeting_failure_event:
  assumes "ly_nProxyOpID l = PROXYOP_UDPASSOCIATE" and "ly_nProxyOpState l = 0"
    and "nProxyType (ly_ProxyData l) = PROXYTYPE_SOCKS5" and "ly_pSendBuffer l = None" and "\<forall>n. e_alloc env n"
    and "nx_sendScript l = [SendError e]" and "e \<noteq> WSAEWOULDBLOCK"
  shows "nx_events (Layer_OnConnect env 0 l) =
    nx_events l @ [DoLayerCallback PROXYERROR_REQUESTFAILED e [], TriggerEvent FD_ACCEPT e]"
proof -
  let ?l = "Layer_ClearBuffer l"
  let ?m = "?l\<lparr>ly_pSendBuffer := Some (socks5_greeting ?l, 0)\<rparr>"
  have "socks5_greeting ?l \<noteq> []" by (simp add: socks5_greeting_def)
  then have "FlushProxyRequest ?m = (False, ClearSendBuffer (SetLastError e (?m\<lparr>nx_sendScript := []\<rparr>)))"
    using assms(6,7) by (intro FlushProxyRequest_error) (simp_all add: Layer_ClearBuffer_def)
  moreover have "ly_pSendBuffer ?l = None" using assms(4) by (simp add: Layer_ClearBuffer_def)
  ultimately have "QueueProxyRequest env (socks5_greeting ?l) ?l = (False, ClearSendBuffer (SetLastError e (?m\<lparr>nx_sendScript := []\<rparr>)))"
    using assms(5) \<open>socks5_greeting ?l \<noteq> []\<close> by (simp add: QueueProxyRequest_def)
  then show ?thesis
    using assms(1-3)
    by (simp add: Layer_OnConnect_def queue_first_def request_failed_def abort_op_def connect_event_def Let_def layer_simps)
qed

theorem associate_greeting_failure_event_witness:
  "nx_events (Layer_OnConnect env_plain 0 ((layer_socks5 0)\<lparr>ly_nProxyOpID := PROXYOP_UDPASSOCIATE, nx_sendScript := [SendError WSAECONNRESET]\<rparr>)) =
   [DoLayerCallback PROXYERROR_REQUESTFAILED WSAECONNRESET [], TriggerEvent FD_ACCEPT WSAECONNRESET]"
  using associate_greeting_failure_event [of "(layer_socks5 0)\<lparr>ly_nProxyOpID := PROXYOP_UDPASSOCIATE, nx_sendScript := [SendError WSAECONNRESET]\<rparr>"
      env_plain WSAECONNRESET]
  by (simp add: env_plain_def layer_socks5_def SetProxy_def layer_fresh_def)

section \<open>Datagrams through the relay\<close>

text \<open>
  The hypothesis on the secure layer: what it encrypted, it decrypts to the same packet when
  the packet fits.
\<close>

definition secure_inverse :: "LayerEnv \<Rightarrow> bool" where
  "secure_inverse env \<longleftrightarrow> (\<forall>p w n. e_EncryptUdp env p = Some w \<longrightarrow> length p \<le> n \<longrightarrow> e_DecryptUdp env n w = Some p)"

text \<open>
  C27. A datagram survives the relay. \<open>SendTo\<close> with a payload for an IPv4 or IPv6 destination
  hands one packet to the socket, addressed to the relay: whatever the socket's \<open>sendto\<close> does, the
  call answers what it answers for this packet, and the payload's size when the whole
  packet went out. When this very packet comes back from the relay's address,
  \<open>ReceiveFrom\<close> with a buffer of the payload's size hands out the same payload, with the destination
  as the source; when it comes from any other address, it is refused. Assumed are memory and, with
  a secure layer, a key, an encryption that succeeds and a decryption that inverts it.
\<close>

theorem relay_echo_roundtrip:
  assumes idle: "ly_nProxyOpID l = 0"
    and dest: "sa_Set (Some a) len = Some a" "sa_wf a"
    and size: "int (length p) \<le> 65507 - (if sa_IsIPv6 a then 22 else 10)"
    and env: "\<forall>n. e_alloc env n" "ly_hasSecure l \<longrightarrow> e_hasUdpKey env" "\<forall>b. e_EncryptUdp env b \<noteq> None" "secure_inverse env"
  shows "\<exists>w. (\<forall>sendto. fst (Layer_SendTo_addr (env\<lparr>e_sendto := sendto\<rparr>) (Some p) (int (length p)) (Some a) len l) =
      (let sent = fst (sendto w (ly_udpsrvAddr l)) in if sent = int (length w) then int (length p) else sent)) \<and>
    (\<forall>relay. let r = Layer_ReceiveFrom (env\<lparr>e_recvfrom := \<lambda>_. Inl (w, relay)\<rparr>) (length p) None l in
     if sa_family relay = AF_INET \<and> sin_addr relay = sin_addr (ly_udpsrvAddr l) \<and> sin_port relay = sin_port (ly_udpsrvAddr l)
     then (\<exists>d. fst r = Some (p, d) \<and>
       (if sa_IsIPv6 a then sin6_addr (dp_source6 d) = sin6_addr a \<and> sin_port (dp_source6 d) = sin_port a
        else sin_addr (dp_source d) = sin_addr a \<and> sin_port (dp_source d) = sin_port a))
     else r = (None, SetLastError WSAEACCES l))"
proof -
  let ?pkt = "if sa_IsIPv6 a then [0, 0, 0, 4] @ sin6_addr a @ word16_bytes (sin_port a) @ p
        else [0, 0, 0, 1] @ dword_bytes (sin_addr a) @ word16_bytes (sin_port a) @ p"
  obtain w where wire: "udp_wire env ?pkt l = Some w"
    using env(1-3) by (cases "ly_hasSecure l") (auto simp: udp_wire_def)
  have enc: "(if sa_IsIPv6 a then EncodeIPv6 True (int (length p) + 262) (Some a) (Some p) (int (length p))
      else EncodeIPv4 True (int (length p) + 262) (Some a) (Some p) (int (length p))) = Some ?pkt"
    by (simp add: EncodeIPv4_def EncodeIPv6_def encode_guard_def payload_copy_def)
  have "udp_wire (env\<lparr>e_sendto := sendto\<rparr>) x l = udp_wire env x l" for sendto x by (simp add: udp_wire_def)
  then have "udp_wire (env\<lparr>e_sendto := sendto\<rparr>) ?pkt l = Some w" for sendto using wire by metis
  then have send: "fst (Layer_SendTo_addr (env\<lparr>e_sendto := sendto\<rparr>) (Some p) (int (length p)) (Some a) len l) =
      (let sent = fst (sendto w (ly_udpsrvAddr l)) in if sent = int (length w) then int (length p) else sent)" for sendto
    using size by (simp add: Layer_SendTo_addr_def idle dest(1) env(1) enc udp_send_def Let_def split_beta)
  have len16: "length (sin6_addr a) = 16" using dest(2) by (simp add: sa_wf_def)
  have "length ?pkt \<le> length p + 262" using len16 by simp
  then have "udp_plain env (length p + 262) w l = Some ?pkt"
    using wire env(2,4) by (auto simp: udp_plain_def udp_wire_def secure_inverse_def split: if_splits)
  moreover have "udp_plain (env\<lparr>e_recvfrom := f\<rparr>) n w l = udp_plain env n w l" for f n by (simp add: udp_plain_def)
  ultimately have plain: "udp_plain (env\<lparr>e_recvfrom := f\<rparr>) (length p + 262) w l = Some ?pkt" for f by metis
  obtain d where d: "Decode (Some ?pkt) = Some d" "dp_payload d = p"
    "if sa_IsIPv6 a then sin6_addr (dp_source6 d) = sin6_addr a \<and> sin_port (dp_source6 d) = sin_port a
        else sin_addr (dp_source d) = sin_addr a \<and> sin_port (dp_source d) = sin_port a"
    using len16 by (cases "sa_IsIPv6 a") (simp_all add: Decode_def Let_def DecodedPacket_Clear_def)
  have "Layer_ReceiveFrom (env\<lparr>e_recvfrom := \<lambda>_. Inl (w, relay)\<rparr>) (length p) None l =
      (if sa_family relay = AF_INET \<and> sin_addr relay = sin_addr (ly_udpsrvAddr l) \<and> sin_port relay = sin_port (ly_udpsrvAddr l)
       then (Some (p, d), l) else (None, SetLastError WSAEACCES l))" for relay
    by (simp add: Layer_ReceiveFrom_def Let_def idle env(1) plain d(1,2))
  with send d(3) show ?thesis by (intro exI [of _ w] conjI allI) (simp_all add: Let_def)
qed

definition dest_sa4 :: sockaddr where
  "dest_sa4 = sa_Clear\<lparr>sa_family := AF_INET, sin_addr := 0x08080808, sin_port := htons 53\<rparr>"

theorem relay_echo_roundtrip_witness:
  "\<exists>w. fst (Layer_SendTo_addr (env_plain\<lparr>e_sendto := \<lambda>b _. (int (length b), 0)\<rparr>) (Some [7]) 1 (Some dest_sa4) 16 layer_fresh) = 1 \<and>
   (\<exists>d. fst (Layer_ReceiveFrom (env_plain\<lparr>e_recvfrom := \<lambda>_. Inl (w, sa_Clear\<lparr>sa_family := AF_INET\<rparr>)\<rparr>) 1 None layer_fresh) =
        Some ([7], d) \<and> sin_addr (dp_source d) = 0x08080808 \<and> sin_port (dp_source d) = htons 53)"
proof -
  have l: "ly_nProxyOpID layer_fresh = 0" "\<not> ly_hasSecure layer_fresh" "ly_udpsrvAddr layer_fresh = sa_Clear"
    by (simp_all add: layer_fresh_def)
  have r: "take 8 (replicate 16 (0 :: byte)) @ replicate 8 0 = replicate 16 0" by (simp add: numeral_eq_Suc)
  have d: "sa_Set (Some dest_sa4) 16 = Some dest_sa4" "sa_wf dest_sa4" "\<not> sa_IsIPv6 dest_sa4"
      "sin_addr dest_sa4 = 0x08080808" "sin_port dest_sa4 = htons 53"
    using r by (simp_all add: dest_sa4_def sa_Clear_def sa_Set_def sa_wf_def sa_IsIPv6_def)
  have e: "\<forall>n. e_alloc env_plain n" "\<forall>b. e_EncryptUdp env_plain b \<noteq> None" "secure_inverse env_plain"
    by (simp_all add: env_plain_def secure_inverse_def)
  let ?R = "\<lambda>w relay. Layer_ReceiveFrom (env_plain\<lparr>e_recvfrom := \<lambda>_. Inl (w, relay)\<rparr>) (length [7 :: byte]) None layer_fresh"
  obtain w where w: "\<forall>sendto. fst (Layer_SendTo_addr (env_plain\<lparr>e_sendto := sendto\<rparr>) (Some [7]) (int (length [7 :: byte])) (Some dest_sa4) 16 layer_fresh) =
      (let sent = fst (sendto w (ly_udpsrvAddr layer_fresh)) in if sent = int (length w) then int (length [7 :: byte]) else sent)"
    "\<forall>relay. let r = ?R w relay in
     if sa_family relay = AF_INET \<and> sin_addr relay = sin_addr (ly_udpsrvAddr layer_fresh) \<and> sin_port relay = sin_port (ly_udpsrvAddr layer_fresh)
     then (\<exists>d. fst r = Some ([7], d) \<and>
       (if sa_IsIPv6 dest_sa4 then sin6_addr (dp_source6 d) = sin6_addr dest_sa4 \<and> sin_port (dp_source6 d) = sin_port dest_sa4
        else sin_addr (dp_source d) = sin_addr dest_sa4 \<and> sin_port (dp_source d) = sin_port dest_sa4))
     else r = (None, SetLastError WSAEACCES layer_fresh)"
    using relay_echo_roundtrip [OF l(1) d(1,2) _ e(1) _ e(2,3), of "[7]"] l(2) d(3) by auto
  have "fst (Layer_SendTo_addr (env_plain\<lparr>e_sendto := \<lambda>b _. (int (length b), 0)\<rparr>) (Some [7]) 1 (Some dest_sa4) 16 layer_fresh) = 1"
    using spec [OF w(1), of "\<lambda>b _. (int (length b), 0)"] by (simp add: Let_def)
  moreover have "\<exists>d. fst (?R w (sa_Clear\<lparr>sa_family := AF_INET\<rparr>)) = Some ([7], d) \<and>
      sin_addr (dp_source d) = 0x08080808 \<and> sin_port (dp_source d) = htons 53"
    using spec [OF w(2), of "sa_Clear\<lparr>sa_family := AF_INET\<rparr>"] l(3) d(3-5) by (simp add: Let_def)
  ultimately show ?thesis by auto
qed

text \<open>
  The overlapped send to a host name builds its header in an array of 259 bytes, while a
  SOCKS5 name of up to 255 bytes needs up to 262: the header is written inside the array
  exactly for names of at most 252 bytes, so the valid names of 253 to 255 bytes overflow it.
\<close>

theorem wsa_domain_header_overflow:
  "(wsa_domain_header host port = None \<longleftrightarrow> 252 < length host) \<and>
   (wsa_domain_header host port \<noteq> None \<longleftrightarrow>
      wsa_domain_header host port = Some ([0, 0, 0, 3, of_nat (length host)] @ cstr_bytes host @ word16_bytes (htons (of_nat port))))"
  by (simp add: wsa_domain_header_def Let_def)

text \<open>
  C31. A failed set-up of the control connection ends in a double deletion: when the first
  layer cannot be added or the socket cannot be created, \<open>GetUdpProxyAddr\<close> fails and keeps
  the pointer to the deleted connection, which the destructor deletes again. A failed secure
  layer and a successful set-up are destroyed safely.
\<close>

theorem control_setup_double_delete:
  assumes "nProxyType (ly_ProxyData l) = PROXYTYPE_SOCKS5" and "ly_pS5UC l = NullConn"
  shows "Layer_delete (snd (GetUdpProxyAddr env stage l)) = None \<longleftrightarrow> stage \<in> {AddLayerFailed, CreateFailed}"
  using assms
  by (cases stage) (auto simp: GetUdpProxyAddr_def control_failed_def Layer_delete_def connect_proxy_def ConnectNext_def
      callback_def SetLastError_def Let_def split: option.splits)

theorem control_setup_double_delete_witness:
  "Layer_delete (snd (GetUdpProxyAddr env_plain CreateFailed (SetProxy PROXYTYPE_SOCKS5 ''proxy'' 1080 layer_fresh))) = None"
  using control_setup_double_delete [of "SetProxy PROXYTYPE_SOCKS5 ''proxy'' 1080 layer_fresh" env_plain CreateFailed]
  by (simp add: SetProxy_def layer_fresh_def)

end
