(* ===== verification/UdpTask.thy ===== *)
theory UdpTask
  imports UdpAssociationPolicy
begin

text \<open>
  \<open>UdpProxyTask.cpp\<close>: one task forwards the datagrams of an application socket. It owns the
  application-facing route sockets, one upstream peer (a SOCKS5 association or a direct
  socket), a queue of datagrams that wait for the upstream and a queue of replies that wait
  for a route. The capability methods of the task manager that the task calls
  (\<open>ProxyTaskMgr.cpp\<close>) are here too.

  Peers live in a store indexed by their address; the world also holds the clock, the
  results the socket calls are going to give, the capability circuit of the manager, and the
  effects observed. A handler runs at one value of the clock. Log and trace output is left
  out. The QUIC bridge is a parameter: a state type and its six methods.
\<close>

section \<open>Data\<close>

record CSAddrInfo =
  ci_srcAddr :: sockaddr
  ci_szDomainName :: cstr
  ci_dstAddr :: sockaddr

definition CSAddrInfo_zero :: CSAddrInfo where
  "CSAddrInfo_zero = \<lparr>ci_srcAddr = sa_Clear, ci_szDomainName = [], ci_dstAddr = sa_Clear\<rparr>"

definition ci_IsDNValid :: "CSAddrInfo \<Rightarrow> bool" where
  "ci_IsDNValid i \<longleftrightarrow> ci_szDomainName i \<noteq> []"

record UdpPeer =
  pe_identity :: nat \<comment> \<open>1 client, 2 server\<close>
  pe_open :: bool \<comment> \<open>the socket handle is valid\<close>
  pe_partner :: "nat option"
  pe_info :: CSAddrInfo

record 'q UdpRoute =
  rt_client :: PRCClient
  rt_peer :: nat
  rt_applicationEndpoint :: sockaddr
  rt_hasApplicationEndpoint :: bool
  rt_firstDatagramLogged :: bool
  rt_capture :: bool
  rt_quic :: "'q option"
  rt_quicRetired :: bool
  rt_quicTarget :: CSAddrInfo

record PendingDatagram =
  pd_target :: CSAddrInfo
  pd_data :: bytes
  pd_queuedAt :: dword

record PendingReply =
  pr_routePeer :: nat
  pr_application :: sockaddr
  pr_data :: bytes
  pr_queuedAt :: dword

record 'q UdpTask =
  tk_PRCClient :: PRCClient
  tk_ProxyInfo :: ProxyInfo
  tk_LocalProxyUdpPort :: word16
  tk_routes :: "'q UdpRoute list"
  tk_pending :: "PendingDatagram list"
  tk_pendingBytes :: dword
  tk_pendingReplies :: "PendingReply list"
  tk_pendingReplyBytes :: dword
  tk_pServer :: "nat option"
  tk_upstreamState :: UpstreamState
  tk_lastActivity :: dword
  tk_nextServerReconnect :: dword
  tk_serverReconnectDelay :: dword
  tk_lastServerError :: int

datatype sendto_result = SendToError int | SendToCount nat

datatype udp_event =
    UpstreamSent CSAddrInfo bytes | ReplySent nat sockaddr bytes
  | RecordTraffic bool int | CaptureData nat nat bytes
  | TriggerWrite nat | LogUdpFirstDatagram nat

record UdpWorld =
  uw_now :: dword
  uw_peers :: "nat \<Rightarrow> UdpPeer option"
  uw_nextPeer :: nat
  uw_sendtoScript :: "sendto_result list"
  uw_bindScript :: "sockaddr option list" \<comment> \<open>\<open>CreateUDPSocket\<close>: the bound address\<close>
  uw_connectScript :: "int option list" \<comment> \<open>\<open>ConnectProxy\<close>: \<open>None\<close> is success\<close>
  uw_lastError :: int
  uw_tapEnabled :: bool
  uw_events :: "udp_event list"
  uw_udpCapability :: CapabilityCircuit
  uw_udpCapabilityKey :: cstr

type_synonym 'q udp_state = "'q UdpTask \<times> UdpWorld"

record 'q UdpEnv =
  ue_conv :: addr_conv
  ue_startup :: int
  ue_QuicOpen :: "PRCClient \<Rightarrow> bytes \<Rightarrow> 'q option"
  ue_Feed :: "nat \<Rightarrow> bytes \<Rightarrow> 'q \<Rightarrow> bool \<times> 'q"
  ue_Peek :: "nat \<Rightarrow> 'q \<Rightarrow> bytes" \<comment> \<open>no bytes: a result of 0 or less\<close>
  ue_Consume :: "nat \<Rightarrow> 'q \<Rightarrow> 'q"
  ue_Passthrough :: "'q \<Rightarrow> bool"
  ue_Drained :: "'q \<Rightarrow> bool"
  ue_WasMitm :: "'q \<Rightarrow> bool"

abbreviation (input) "UDP_ASSOCIATION_IDLE_TIMEOUT \<equiv> (300000 :: dword)"
abbreviation (input) "maxPackets \<equiv> (128 :: nat)"
abbreviation (input) "maxBytes \<equiv> (1048576 :: dword)"

section \<open>Peers\<close>

definition peer_open :: "UdpWorld \<Rightarrow> nat \<Rightarrow> bool" where
  "peer_open w p = (case uw_peers w p of None \<Rightarrow> False | Some pe \<Rightarrow> pe_open pe)"

definition update_peer :: "nat \<Rightarrow> (UdpPeer \<Rightarrow> UdpPeer) \<Rightarrow> UdpWorld \<Rightarrow> UdpWorld" where
  "update_peer p f w = w\<lparr>uw_peers := (uw_peers w)(p := map_option f (uw_peers w p))\<rparr>"

definition Peer_Close :: "nat \<Rightarrow> UdpWorld \<Rightarrow> UdpWorld" where
  "Peer_Close p = update_peer p (\<lambda>pe. pe\<lparr>pe_open := False\<rparr>)"

definition SetPartner :: "nat option \<Rightarrow> nat \<Rightarrow> UdpWorld \<Rightarrow> UdpWorld" where
  "SetPartner q p = update_peer p (\<lambda>pe. pe\<lparr>pe_partner := q\<rparr>)"

definition delete_peer :: "nat \<Rightarrow> UdpWorld \<Rightarrow> UdpWorld" where
  "delete_peer p w = w\<lparr>uw_peers := (uw_peers w)(p := None)\<rparr>"

definition emit :: "udp_event \<Rightarrow> UdpWorld \<Rightarrow> UdpWorld" where
  "emit e w = w\<lparr>uw_events := uw_events w @ [e]\<rparr>"

text \<open>\<open>SetAddrInfo\<close> replaces a missing address by the loopback address.\<close>

definition SetAddrInfo :: "'q UdpEnv \<Rightarrow> CSAddrInfo \<Rightarrow> CSAddrInfo" where
  "SetAddrInfo env i =
     (let fill = (\<lambda>a. if sa_family a = 0
        then snd (sa_SetIP (ue_conv env) (ue_startup env) (Some ''127.0.0.1'') a) else a)
      in i\<lparr>ci_dstAddr := fill (ci_dstAddr i), ci_srcAddr := fill (ci_srcAddr i)\<rparr>)"

definition new_peer :: "nat \<Rightarrow> nat option \<Rightarrow> CSAddrInfo \<Rightarrow> UdpWorld \<Rightarrow> nat \<times> UdpWorld" where
  "new_peer ident partner info w =
     (uw_nextPeer w,
      w\<lparr>uw_nextPeer := Suc (uw_nextPeer w),
        uw_peers := (uw_peers w)(uw_nextPeer w := Some \<lparr>pe_identity = ident, pe_open = False,
          pe_partner = partner, pe_info = info\<rparr>)\<rparr>)"

text \<open>A send on a closed socket fails; otherwise the script says what the socket does.\<close>

definition Peer_SendTo :: "nat \<Rightarrow> UdpWorld \<Rightarrow> int \<times> UdpWorld" where
  "Peer_SendTo p w =
     (if \<not> peer_open w p then (SOCKET_ERROR, w\<lparr>uw_lastError := WSAENOTSOCK\<rparr>)
      else case uw_sendtoScript w of
        [] \<Rightarrow> (SOCKET_ERROR, w\<lparr>uw_lastError := WSAEWOULDBLOCK\<rparr>)
      | SendToError e # rs \<Rightarrow> (SOCKET_ERROR, w\<lparr>uw_lastError := e, uw_sendtoScript := rs\<rparr>)
      | SendToCount n # rs \<Rightarrow> (int n, w\<lparr>uw_sendtoScript := rs\<rparr>))"

definition send_upstream :: "nat \<Rightarrow> CSAddrInfo \<Rightarrow> bytes \<Rightarrow> UdpWorld \<Rightarrow> int \<times> UdpWorld" where
  "send_upstream s target data w =
     (let (sent, w) = Peer_SendTo s w
      in (sent, if sent = SOCKET_ERROR then w else emit (UpstreamSent target data) w))"

definition send_reply :: "nat \<Rightarrow> sockaddr \<Rightarrow> bytes \<Rightarrow> UdpWorld \<Rightarrow> int \<times> UdpWorld" where
  "send_reply p application data w =
     (let (sent, w) = Peer_SendTo p w
      in (sent, if sent = int (length data) then emit (ReplySent p application data) w else w))"

section \<open>The capability methods of the manager\<close>

fun hash_loop :: "dword \<Rightarrow> cstr \<Rightarrow> dword" where
  "hash_loop hash [] = hash"
| "hash_loop hash (c # cs) = hash_loop ((hash XOR ucast (byte_of_char c)) * 16777619) cs"

definition HashUdpCapabilityCredential :: "cstr \<Rightarrow> dword" where
  "HashUdpCapabilityCredential value = hash_loop 2166136261 value"

fun proxytype_number :: "proxytype \<Rightarrow> int" where
  "proxytype_number PROXYTYPE_NOPROXY = 0"
| "proxytype_number PROXYTYPE_SOCKS4 = 1"
| "proxytype_number PROXYTYPE_SOCKS4A = 2"
| "proxytype_number PROXYTYPE_SOCKS5 = 3"
| "proxytype_number PROXYTYPE_HTTP10 = 4"
| "proxytype_number PROXYTYPE_HTTP11 = 5"

definition capability_key :: "ProxyInfo option \<Rightarrow> cstr" where
  "capability_key pi =
     (case pi of None \<Rightarrow> []
      | Some p \<Rightarrow> show_int (proxytype_number (GetProxyType p)) @ ''|'' @ show_int (nProxyPort p) @ ''|'' @
          show_int (sint (pi_reserved p)) @ ''|'' @ strProxyHost p @ ''|'' @ strProxyUser p @ ''|'' @
          show_hex8 (HashUdpCapabilityCredential (strProxyPass p)) @ ''|'' @
          show_hex8 (HashUdpCapabilityCredential (strTransportPsk p)))"

definition FlushUdpCapabilitySummary :: "UdpWorld \<Rightarrow> UdpWorld" where
  "FlushUdpCapabilitySummary w =
     w\<lparr>uw_udpCapability := (uw_udpCapability w)\<lparr>suppressedAttempts := 0\<rparr>\<rparr>"

definition EnsureUdpCapabilityProfile :: "ProxyInfo option \<Rightarrow> UdpWorld \<Rightarrow> UdpWorld" where
  "EnsureUdpCapabilityProfile pi w =
     (if capability_key pi = uw_udpCapabilityKey w then w
      else (FlushUdpCapabilitySummary w)\<lparr>uw_udpCapability := Circuit_Reset, uw_udpCapabilityKey := capability_key pi\<rparr>)"

definition ReportUdpAssociationFailure :: "ProxyInfo \<Rightarrow> int \<Rightarrow> UdpWorld \<Rightarrow> bool \<times> UdpWorld" where
  "ReportUdpAssociationFailure pi errorCode w =
     (let w = EnsureUdpCapabilityProfile (Some pi) w;
          (blocked, c) = ReportFailure (uw_now w) (errorCode = WSAEOPNOTSUPP) DEFAULT_THRESHOLD DEFAULT_COOLDOWN
            (uw_udpCapability w)
      in (blocked, w\<lparr>uw_udpCapability := c\<rparr>))"

definition ReportUdpAssociationReady :: "ProxyInfo \<Rightarrow> UdpWorld \<Rightarrow> UdpWorld" where
  "ReportUdpAssociationReady pi w =
     (let w = FlushUdpCapabilitySummary (EnsureUdpCapabilityProfile (Some pi) w)
      in w\<lparr>uw_udpCapability := ReportSuccess (uw_udpCapability w)\<rparr>)"

definition IsUdpPermanentlyUnsupported :: "UdpWorld \<Rightarrow> bool" where
  "IsUdpPermanentlyUnsupported w \<longleftrightarrow> cc_state (uw_udpCapability w) = CAPABILITY_UNSUPPORTED"

section \<open>Destinations and construction\<close>

definition GetUdpDestination :: "PRCClient \<Rightarrow> Destination" where
  "GetUdpDestination c = \<lparr>d_hasDomain = szDomainName c \<noteq> [], d_domain = Some (szDomainName c),
     d_family = sa_family (dstAddr c), d_ipv4 = sa_GetdwIP (dstAddr c),
     d_ipv6 = (case sa_GetAddr6 (dstAddr c) of Some b \<Rightarrow> b | None \<Rightarrow> replicate 16 0),
     d_port = sa_GetPort (dstAddr c)\<rparr>"

definition UdpTask_new :: "dword \<Rightarrow> 'q UdpTask" where
  "UdpTask_new now = \<lparr>tk_PRCClient = PRCClient_zero, tk_ProxyInfo = ProxyInfo_zero, tk_LocalProxyUdpPort = 0,
     tk_routes = [], tk_pending = [], tk_pendingBytes = 0, tk_pendingReplies = [], tk_pendingReplyBytes = 0,
     tk_pServer = None, tk_upstreamState = UPSTREAM_ROUTE_RESERVED, tk_lastActivity = now,
     tk_nextServerReconnect = 0, tk_serverReconnectDelay = 250, tk_lastServerError = 0\<rparr>"

definition Udp_IsClosed :: "'q udp_state \<Rightarrow> bool" where
  "Udp_IsClosed = (\<lambda>(t, w). \<not> list_ex (\<lambda>r. peer_open w (rt_peer r)) (tk_routes t) \<and>
     (case tk_pServer t of None \<Rightarrow> True | Some s \<Rightarrow> \<not> peer_open w s))"

section \<open>Routes\<close>

definition route_of :: "Destination \<Rightarrow> 'q UdpRoute list \<Rightarrow> 'q UdpRoute option" where
  "route_of d rs = find (\<lambda>r. IsSameDestination (GetUdpDestination (rt_client r)) d) rs"

definition HasRoute :: "PRCClient \<Rightarrow> 'q UdpTask \<Rightarrow> bool" where
  "HasRoute c t \<longleftrightarrow> route_of (GetUdpDestination c) (tk_routes t) \<noteq> None"

definition CanAcceptRoute :: "PRCClient \<Rightarrow> 'q UdpTask \<Rightarrow> bool" where
  "CanAcceptRoute c t \<longleftrightarrow> list_all (\<lambda>r.
     \<not> HasProxyDestination (rt_client r) \<and> \<not> HasProxyDestination c \<and>
     CanShareAssociation (GetUdpDestination (rt_client r)) (GetUdpDestination c)) (tk_routes t)"

definition MatchesAssociation :: "PRCClient \<Rightarrow> ProxyInfo \<Rightarrow> 'q UdpTask \<Rightarrow> bool" where
  "MatchesAssociation c pi t \<longleftrightarrow>
     dwPid (tk_PRCClient t) = dwPid c \<and> processCreateTime (tk_PRCClient t) = processCreateTime c \<and>
     socketGeneration (tk_PRCClient t) = socketGeneration c \<and> c_s (tk_PRCClient t) = c_s c \<and>
     GetProxyType (tk_ProxyInfo t) = GetProxyType pi \<and> nProxyPort (tk_ProxyInfo t) = nProxyPort pi \<and>
     pi_reserved (tk_ProxyInfo t) = pi_reserved pi \<and>
     strTransportPsk (tk_ProxyInfo t) = strTransportPsk pi \<and>
     stricmp_eq (strProxyHost (tk_ProxyInfo t)) (strProxyHost pi)"

text \<open>\<open>AddRoute\<close> returns the result, the client record with the route address, and the state.\<close>

definition route_info :: "PRCClient \<Rightarrow> CSAddrInfo" where
  "route_info c = CSAddrInfo_zero\<lparr>ci_srcAddr := srcAddr c, ci_dstAddr := GetProxyDestination c,
     ci_szDomainName := (if HasProxyDestination c then [] else take 255 (szDomainName c))\<rparr>"

definition open_route :: "'q UdpEnv \<Rightarrow> PRCClient \<Rightarrow> 'q udp_state \<Rightarrow> bool \<times> PRCClient \<times> 'q udp_state" where
  "open_route env c st =
     (let (t, w) = st; (p, w) = new_peer 1 (tk_pServer t) (SetAddrInfo env (route_info c)) w in
      case uw_bindScript w of
        Some a # bs \<Rightarrow>
          let w = update_peer p (\<lambda>pe. pe\<lparr>pe_open := True\<rparr>) (w\<lparr>uw_bindScript := bs\<rparr>);
              c = c\<lparr>udpAddr := a\<rparr>;
              r = \<lparr>rt_client = c, rt_peer = p, rt_applicationEndpoint = sa_Clear, rt_hasApplicationEndpoint = False,
                   rt_firstDatagramLogged = False, rt_capture = False, rt_quic = None, rt_quicRetired = False,
                   rt_quicTarget = CSAddrInfo_zero\<rparr>;
              first = (tk_routes t = []);
              w = (case tk_pServer t of Some s \<Rightarrow> if first then SetPartner (Some p) s w else w | None \<Rightarrow> w);
              t = t\<lparr>tk_routes := tk_routes t @ [r],
                    tk_LocalProxyUdpPort := (if first then sa_GetPort a else tk_LocalProxyUdpPort t)\<rparr>
          in (True, c, (t, w))
      | bs \<Rightarrow> (False, c, (t, delete_peer p (w\<lparr>uw_bindScript := tl bs\<rparr>))))"

definition AddRoute :: "'q UdpEnv \<Rightarrow> PRCClient \<Rightarrow> 'q udp_state \<Rightarrow> bool \<times> PRCClient \<times> 'q udp_state" where
  "AddRoute env c st =
     (let (t, w) = st in
      case route_of (GetUdpDestination c) (tk_routes t) of
        None \<Rightarrow> open_route env c (t, w)
      | Some r \<Rightarrow>
          if peer_open w (rt_peer r) then
            (True, c\<lparr>udpAddr := udpAddr (rt_client r)\<rparr>, (t\<lparr>tk_routes := map_first (\<lambda>x. IsSameDestination (GetUdpDestination (rt_client x)) (GetUdpDestination c))
                (\<lambda>x. x\<lparr>rt_client := c\<lparr>udpAddr := udpAddr (rt_client r)\<rparr>\<rparr>) (tk_routes t)\<rparr>, w))
          else open_route env c
            (t\<lparr>tk_routes := remove_first (\<lambda>x. IsSameDestination (GetUdpDestination (rt_client x)) (GetUdpDestination c)) (tk_routes t)\<rparr>,
             delete_peer (rt_peer r) w))"

definition SetTaskInfo :: "'q UdpEnv \<Rightarrow> PRCClient \<Rightarrow> ProxyInfo \<Rightarrow> 'q udp_state \<Rightarrow> bool \<times> PRCClient \<times> 'q udp_state" where
  "SetTaskInfo env c pi st =
     (let (t, w) = st;
          (ok, c, (t, w)) = AddRoute env c (t\<lparr>tk_PRCClient := c, tk_ProxyInfo := pi\<rparr>, w)
      in if ok then (True, c, (t\<lparr>tk_upstreamState := UPSTREAM_ROUTE_RESERVED\<rparr>, w))
         else (False, c, (t\<lparr>tk_pServer := None\<rparr>,
           case tk_pServer t of None \<Rightarrow> w | Some s \<Rightarrow> delete_peer s w)))"

section \<open>Closing\<close>

definition close_all :: "nat list \<Rightarrow> UdpWorld \<Rightarrow> UdpWorld" where
  "close_all ps w = fold Peer_Close ps w"

definition CloseTask :: "'q udp_state \<Rightarrow> 'q udp_state" where
  "CloseTask st =
     (let (t, w) = st;
          w = close_all (map rt_peer (tk_routes t)) w;
          w = (case tk_pServer t of None \<Rightarrow> w | Some s \<Rightarrow> Peer_Close s w)
      in (t\<lparr>tk_upstreamState := UPSTREAM_CLOSING, tk_pendingReplies := [], tk_pendingReplyBytes := 0,
            tk_routes := map (\<lambda>r. r\<lparr>rt_capture := False\<rparr>) (tk_routes t)\<rparr>, w))"

definition EndTask :: "'q udp_state \<Rightarrow> 'q udp_state" where
  "EndTask st =
     (let (t, w) = st;
          w = fold delete_peer (map rt_peer (tk_routes t)) w;
          w = (case tk_pServer t of None \<Rightarrow> w | Some s \<Rightarrow> delete_peer s w)
      in (t\<lparr>tk_upstreamState := UPSTREAM_CLOSING, tk_routes := [], tk_pending := [], tk_pendingBytes := 0,
            tk_pendingReplies := [], tk_pendingReplyBytes := 0, tk_pServer := None\<rparr>, w))"

section \<open>The queues\<close>

fun drop_oldest :: "('a \<Rightarrow> bytes) \<Rightarrow> dword \<Rightarrow> 'a list \<Rightarrow> dword \<Rightarrow> 'a list \<times> dword" where
  "drop_oldest dat len [] bytes = ([], bytes)"
| "drop_oldest dat len (p # ps) bytes =
     (if maxPackets \<le> length (p # ps) \<or> maxBytes < bytes + len
      then drop_oldest dat len ps (bytes - of_nat (length (dat p)))
      else (p # ps, bytes))"

definition QueueDatagram :: "CSAddrInfo \<Rightarrow> bytes \<Rightarrow> 'q udp_state \<Rightarrow> bool \<times> 'q udp_state" where
  "QueueDatagram target data st =
     (let (t, w) = st; len = of_nat (length data);
          (ps, bytes) = drop_oldest pd_data len (tk_pending t) (tk_pendingBytes t)
      in if maxBytes < len then (False, (t\<lparr>tk_pending := ps, tk_pendingBytes := bytes\<rparr>, w))
         else (True, (t\<lparr>tk_pending := ps @ [\<lparr>pd_target = target, pd_data = data, pd_queuedAt = uw_now w\<rparr>],
                        tk_pendingBytes := bytes + len\<rparr>, w)))"

definition QueueReply :: "nat \<Rightarrow> sockaddr \<Rightarrow> bytes \<Rightarrow> 'q udp_state \<Rightarrow> bool \<times> 'q udp_state" where
  "QueueReply p application data st =
     (let (t, w) = st; len = of_nat (length data);
          (rs, bytes) = drop_oldest pr_data len (tk_pendingReplies t) (tk_pendingReplyBytes t)
      in if maxBytes < len then (False, (t\<lparr>tk_pendingReplies := rs, tk_pendingReplyBytes := bytes\<rparr>, w))
         else (True, (t\<lparr>tk_pendingReplies := rs @ [\<lparr>pr_routePeer = p, pr_application = application, pr_data = data,
                          pr_queuedAt = uw_now w\<rparr>],
                        tk_pendingReplyBytes := bytes + len\<rparr>, w)))"

definition stale :: "dword \<Rightarrow> dword \<Rightarrow> bool" where
  "stale now queuedAt \<longleftrightarrow> 5000 < tick_elapsed now queuedAt"

fun expire :: "dword \<Rightarrow> PendingDatagram list \<Rightarrow> dword \<Rightarrow> PendingDatagram list \<times> dword" where
  "expire now [] bytes = ([], bytes)"
| "expire now (p # ps) bytes =
     (if stale now (pd_queuedAt p) then expire now ps (bytes - of_nat (length (pd_data p))) else (p # ps, bytes))"

definition ExpirePendingDatagrams :: "'q udp_state \<Rightarrow> 'q udp_state" where
  "ExpirePendingDatagrams st =
     (let (t, w) = st; (ps, bytes) = expire (uw_now w) (tk_pending t) (tk_pendingBytes t)
      in (t\<lparr>tk_pending := ps, tk_pendingBytes := bytes\<rparr>, w))"

fun flush_replies :: "nat option \<Rightarrow> PendingReply list \<Rightarrow> dword \<Rightarrow> UdpWorld \<Rightarrow> PendingReply list \<times> dword \<times> UdpWorld" where
  "flush_replies rp [] bytes w = ([], bytes, w)"
| "flush_replies rp (r # rs) bytes w =
     (if stale (uw_now w) (pr_queuedAt r) \<or> \<not> peer_open w (pr_routePeer r)
      then flush_replies rp rs (bytes - of_nat (length (pr_data r))) w
      else if rp \<noteq> None \<and> rp \<noteq> Some (pr_routePeer r) then
        (let (rs, bytes, w) = flush_replies rp rs bytes w in (r # rs, bytes, w))
      else let (sent, w) = send_reply (pr_routePeer r) (pr_application r) (pr_data r) w in
        if sent \<noteq> int (length (pr_data r)) then
          (let (rs, bytes, w) = flush_replies rp rs bytes w in (r # rs, bytes, w))
        else flush_replies rp rs (bytes - of_nat (length (pr_data r))) (emit (RecordTraffic True sent) w))"

definition FlushPendingReplies :: "nat option \<Rightarrow> 'q udp_state \<Rightarrow> 'q udp_state" where
  "FlushPendingReplies rp st =
     (let (t, w) = st; (rs, bytes, w) = flush_replies rp (tk_pendingReplies t) (tk_pendingReplyBytes t) w
      in (t\<lparr>tk_pendingReplies := rs, tk_pendingReplyBytes := bytes\<rparr>, w))"

fun flush_pending ::
    "nat \<Rightarrow> PendingDatagram list \<Rightarrow> dword \<Rightarrow> UdpWorld \<Rightarrow> PendingDatagram list \<times> dword \<times> UdpWorld \<times> int option" where
  "flush_pending s [] bytes w = ([], bytes, w, None)"
| "flush_pending s (p # ps) bytes w =
     (if stale (uw_now w) (pd_queuedAt p) then flush_pending s ps (bytes - of_nat (length (pd_data p))) w
      else let (sent, w) = send_upstream s (pd_target p) (pd_data p) w in
        if sent = SOCKET_ERROR then (p # ps, bytes, w, Some (uw_lastError w))
        else flush_pending s ps (bytes - of_nat (length (pd_data p))) (emit (RecordTraffic False sent) w))"

section \<open>The upstream\<close>

definition link_route :: "nat \<Rightarrow> nat \<Rightarrow> UdpWorld \<Rightarrow> UdpWorld" where
  "link_route s p w =
     (if \<not> peer_open w p then w
      else let w = SetPartner (Some s) p w in if peer_open w s then SetPartner (Some p) s w else w)"

definition CreateServerPeer :: "'q UdpEnv \<Rightarrow> 'q udp_state \<Rightarrow> bool \<times> 'q udp_state" where
  "CreateServerPeer env st =
     (let (t, w) = st; c = tk_PRCClient t;
          (s, w) = new_peer 2 None
            (SetAddrInfo env (CSAddrInfo_zero\<lparr>ci_srcAddr := GetProxyDestination c, ci_dstAddr := srcAddr c\<rparr>)) w
      in case uw_connectScript w of
           None # cs \<Rightarrow>
             let w = update_peer s (\<lambda>pe. pe\<lparr>pe_open := True\<rparr>) (w\<lparr>uw_connectScript := cs\<rparr>);
                 direct = (GetProxyType (tk_ProxyInfo t) = PROXYTYPE_NOPROXY);
                 t = t\<lparr>tk_pServer := Some s,
                       tk_upstreamState := (if direct then UPSTREAM_READY else UPSTREAM_ASSOCIATING)\<rparr>;
                 w = fold (link_route s) (map rt_peer (tk_routes t)) w
             in (True, (if direct then t\<lparr>tk_serverReconnectDelay := 250, tk_lastServerError := 0\<rparr> else t), w)
         | Some e # cs \<Rightarrow> (False, (t, delete_peer s (w\<lparr>uw_connectScript := cs, uw_lastError := e\<rparr>)))
         | [] \<Rightarrow> (False, (t, delete_peer s (w\<lparr>uw_lastError := WSAENOBUFS\<rparr>))))"

definition ScheduleServerReconnect :: "int \<Rightarrow> 'q udp_state \<Rightarrow> 'q udp_state" where
  "ScheduleServerReconnect errorCode st =
     (let (t, w) = st in
      if tk_upstreamState t = UPSTREAM_CLOSING then (t, w)
      else (if tk_upstreamState t \<noteq> UPSTREAM_RECONNECT_WAIT
            then t\<lparr>tk_upstreamState := UPSTREAM_RECONNECT_WAIT,
                   tk_nextServerReconnect := uw_now w + tk_serverReconnectDelay t, tk_lastServerError := errorCode\<rparr>
            else t,
            case tk_pServer t of None \<Rightarrow> w | Some s \<Rightarrow> Peer_Close s w))"

definition association_failed :: "int \<Rightarrow> 'q udp_state \<Rightarrow> 'q udp_state" where
  "association_failed errorCode st =
     (let (t, w) = st; (blocked, w) = ReportUdpAssociationFailure (tk_ProxyInfo t) errorCode w in
      if blocked then
        if IsUdpPermanentlyUnsupported w then CloseTask (t, w)
        else let (t, w) = ScheduleServerReconnect errorCode (t, w)
             in (t\<lparr>tk_nextServerReconnect := uw_now w + 60000\<rparr>, w)
      else ScheduleServerReconnect errorCode (t, w))"

definition create_error :: "UdpWorld \<Rightarrow> int" where
  "create_error w = (if uw_lastError w = 0 then WSAECONNREFUSED else uw_lastError w)"

text \<open>The reconnect part of \<open>OnServerWritable\<close>; the result says whether the handler goes on.\<close>

definition drop_server :: "'q udp_state \<Rightarrow> 'q udp_state" where
  "drop_server st =
     (let (t, w) = st; w = fold (SetPartner None) (map rt_peer (tk_routes t)) w
      in (t\<lparr>tk_pServer := None\<rparr>, case tk_pServer t of None \<Rightarrow> w | Some s \<Rightarrow> delete_peer s w))"

definition reconnect :: "'q UdpEnv \<Rightarrow> 'q udp_state \<Rightarrow> bool \<times> 'q udp_state" where
  "reconnect env st =
     (let (ok, t, w) = CreateServerPeer env (drop_server st) in
      if ok then (True, (t, w))
      else let (blocked, w) = ReportUdpAssociationFailure (tk_ProxyInfo t) (create_error w) w in
        (False,
         if blocked then
           if IsUdpPermanentlyUnsupported w then CloseTask (t, w)
           else (t\<lparr>tk_upstreamState := UPSTREAM_RECONNECT_WAIT, tk_nextServerReconnect := uw_now w + 60000\<rparr>, w)
         else let d = min (tk_serverReconnectDelay t * 2) 5000 in
           (t\<lparr>tk_upstreamState := UPSTREAM_RECONNECT_WAIT, tk_serverReconnectDelay := d,
              tk_nextServerReconnect := uw_now w + d\<rparr>, w)))"

definition handle_send_error :: "int option \<Rightarrow> 'q udp_state \<Rightarrow> 'q udp_state" where
  "handle_send_error err st =
     (case err of None \<Rightarrow> st | Some e \<Rightarrow> if e \<noteq> WSAEWOULDBLOCK then ScheduleServerReconnect e st else st)"

definition wake_quic :: "'q udp_state \<Rightarrow> 'q udp_state" where
  "wake_quic st =
     (fst st, fold (\<lambda>r. if rt_quic r \<noteq> None then emit (TriggerWrite (rt_peer r)) else id) (tk_routes (fst st)) (snd st))"

definition flush_upstream :: "'q udp_state \<Rightarrow> 'q udp_state" where
  "flush_upstream st =
     (let (t, w) = st in
      case tk_pServer t of
        Some s \<Rightarrow>
          if tk_upstreamState t = UPSTREAM_READY \<and> peer_open w s then
            let (ps, bytes, w, err) = flush_pending s (tk_pending t) (tk_pendingBytes t) w
            in wake_quic (FlushPendingReplies None
                 (handle_send_error err (t\<lparr>tk_pending := ps, tk_pendingBytes := bytes\<rparr>, w)))
          else (t, w)
      | None \<Rightarrow> (t, w))"

definition OnServerWritable :: "'q UdpEnv \<Rightarrow> 'q udp_state \<Rightarrow> 'q udp_state" where
  "OnServerWritable env st =
     (if tk_upstreamState (fst st) = UPSTREAM_CLOSING then st
      else let (t, w) = FlushPendingReplies None (ExpirePendingDatagrams st) in
        if tk_upstreamState t = UPSTREAM_RECONNECT_WAIT then
          if \<not> tick_reached (uw_now w) (tk_nextServerReconnect t) then (t, w)
          else let (go, st) = reconnect env (t, w) in if go then flush_upstream st else st
        else flush_upstream (t, w))"

definition EnterServerDormant :: "'q udp_state \<Rightarrow> 'q udp_state" where
  "EnterServerDormant st =
     (let (t, w) = st in
      if tk_upstreamState t \<in> {UPSTREAM_CLOSING, UPSTREAM_DORMANT, UPSTREAM_ROUTE_RESERVED} \<or>
         tk_pending t \<noteq> [] \<or> tk_pendingReplies t \<noteq> [] then (t, w)
      else drop_server (t\<lparr>tk_upstreamState := UPSTREAM_DORMANT, tk_serverReconnectDelay := 250,
                          tk_lastServerError := 0\<rparr>, w))"

definition OnMaintenanceTimer :: "'q UdpEnv \<Rightarrow> 'q udp_state \<Rightarrow> 'q udp_state" where
  "OnMaintenanceTimer env st =
     (if tk_upstreamState (fst st) = UPSTREAM_CLOSING then st
      else let (t, w) = FlushPendingReplies None (ExpirePendingDatagrams st) in
        if tk_upstreamState t \<in> {UPSTREAM_DORMANT, UPSTREAM_ROUTE_RESERVED} then (t, w)
        else if ShouldEnterDormant (uw_now w) (tk_lastActivity t) UDP_ASSOCIATION_IDLE_TIMEOUT
                  (tk_pending t \<noteq> [] \<or> tk_pendingReplies t \<noteq> [])
        then EnterServerDormant (t, w)
        else OnServerWritable env (t, w))"

definition WakeServerAssociation :: "'q UdpEnv \<Rightarrow> 'q udp_state \<Rightarrow> 'q udp_state" where
  "WakeServerAssociation env st =
     (let (t, w) = st in
      if tk_upstreamState t = UPSTREAM_CLOSING \<or> \<not> ShouldActivateUpstream (tk_upstreamState t) then (t, w)
      else let t = t\<lparr>tk_upstreamState := UPSTREAM_ASSOCIATING, tk_serverReconnectDelay := 250\<rparr>;
               (ok, t, w) = CreateServerPeer env (t, w)
        in if \<not> ok then association_failed (create_error w) (t, w)
           else if tk_upstreamState t = UPSTREAM_READY then OnServerWritable env (t, w)
           else (t, w))"

definition OnPeerClosed :: "nat \<Rightarrow> int \<Rightarrow> 'q udp_state \<Rightarrow> 'q udp_state" where
  "OnPeerClosed p errorCode st =
     (let (t, w) = st in
      if Some p = tk_pServer t then
        if tk_upstreamState t \<in> {UPSTREAM_CLOSING, UPSTREAM_DORMANT, UPSTREAM_ROUTE_RESERVED} then (t, w)
        else association_failed errorCode (t, w)
      else CloseTask (t, w))"

definition OnServerReady :: "'q UdpEnv \<Rightarrow> nat \<Rightarrow> 'q udp_state \<Rightarrow> 'q udp_state" where
  "OnServerReady env p st =
     (let (t, w) = st in
      if tk_upstreamState t \<noteq> UPSTREAM_ASSOCIATING \<or> Some p \<noteq> tk_pServer t then (t, w)
      else OnServerWritable env
        (t\<lparr>tk_upstreamState := UPSTREAM_READY, tk_serverReconnectDelay := 250, tk_lastServerError := 0\<rparr>,
         ReportUdpAssociationReady (tk_ProxyInfo t) w))"

section \<open>Forwarding\<close>

definition ForwardUpstreamDatagram :: "'q UdpEnv \<Rightarrow> CSAddrInfo \<Rightarrow> bytes \<Rightarrow> 'q udp_state \<Rightarrow> bool \<times> 'q udp_state" where
  "ForwardUpstreamDatagram env target data st =
     (let (t, w) = st in
      if ShouldActivateUpstream (tk_upstreamState t) then
        let (queued, st) = QueueDatagram target data (t, w)
        in (queued, if queued then WakeServerAssociation env st else st)
      else case tk_pServer t of
        Some s \<Rightarrow>
          if tk_upstreamState t = UPSTREAM_READY \<and> peer_open w s \<and> tk_pending t = [] then
            let (sent, w) = send_upstream s target data w in
            if sent \<noteq> SOCKET_ERROR then (True, (t, emit (RecordTraffic False sent) w))
            else QueueDatagram target data
              (if uw_lastError w \<noteq> WSAEWOULDBLOCK then ScheduleServerReconnect (uw_lastError w) (t, w) else (t, w))
          else QueueDatagram target data (t, w)
      | None \<Rightarrow> QueueDatagram target data (t, w))"

definition find_route :: "nat \<Rightarrow> 'q UdpTask \<Rightarrow> 'q UdpRoute option" where
  "find_route p t = find (\<lambda>r. rt_peer r = p) (tk_routes t)"

definition update_route :: "nat \<Rightarrow> ('q UdpRoute \<Rightarrow> 'q UdpRoute) \<Rightarrow> 'q udp_state \<Rightarrow> 'q udp_state" where
  "update_route p f st =
     (let (t, w) = st in (t\<lparr>tk_routes := map (\<lambda>r. if rt_peer r = p then f r else r) (tk_routes t)\<rparr>, w))"

definition reply_endpoint :: "'q UdpEnv \<Rightarrow> 'q UdpRoute \<Rightarrow> sockaddr" where
  "reply_endpoint env r =
     (let a = (if rt_hasApplicationEndpoint r then rt_applicationEndpoint r else srcAddr (rt_client r))
      in if sa_IsAny a
         then snd (sa_SetIP (ue_conv env) (ue_startup env) (Some (if sa_IsIPv6 a then ''::1'' else ''127.0.0.1'')) a)
         else a)"

definition DeliverServerDatagram :: "'q UdpEnv \<Rightarrow> 'q UdpRoute \<Rightarrow> bytes \<Rightarrow> 'q udp_state \<Rightarrow> bool \<times> 'q udp_state" where
  "DeliverServerDatagram env r data st =
     (let (t, w) = st; application = reply_endpoint env r;
          (sent, w) = send_reply (rt_peer r) application data w
      in if sent = int (length data) then (True, (t, emit (RecordTraffic True sent) w))
         else QueueReply (rt_peer r) application data (t, w))"

text \<open>The capture of a route, created on the first datagram while the tap is enabled.\<close>

definition capture_data :: "nat \<Rightarrow> nat \<Rightarrow> bytes \<Rightarrow> 'q udp_state \<Rightarrow> 'q udp_state" where
  "capture_data p side data st =
     (let (t, w) = update_route p (\<lambda>r. r\<lparr>rt_capture := True\<rparr>) st in (t, emit (CaptureData p side data) w))"

fun pump_side :: "'q UdpEnv \<Rightarrow> nat \<Rightarrow> nat \<Rightarrow> nat \<Rightarrow> 'q udp_state \<Rightarrow> 'q udp_state" where
  "pump_side env side p 0 st = st"
| "pump_side env side p (Suc n) st =
     (case find_route p (fst st) of None \<Rightarrow> st
      | Some r \<Rightarrow>
        (case rt_quic r of None \<Rightarrow> st
         | Some q \<Rightarrow>
           (case take 65536 (ue_Peek env side q) of [] \<Rightarrow> st
            | data \<Rightarrow>
              (let (ok, st) = (if side = 1 then ForwardUpstreamDatagram env (rt_quicTarget r) data st
                               else DeliverServerDatagram env r data st)
               in if \<not> ok then st
                  else let st = (if ue_Passthrough env q \<and> uw_tapEnabled (snd st) then capture_data p 0 data st else st);
                           (t, w) = update_route p (\<lambda>x. x\<lparr>rt_quic := map_option (ue_Consume env side) (rt_quic x)\<rparr>) st;
                           t = t\<lparr>tk_lastActivity := uw_now w\<rparr>;
                           w = (if n = 0 then emit (TriggerWrite p) w else w)
                    in pump_side env side p n (t, w)))))"

definition PumpQuic :: "'q UdpEnv \<Rightarrow> nat \<Rightarrow> 'q udp_state \<Rightarrow> 'q udp_state" where
  "PumpQuic env p st =
     (let st = pump_side env 1 p 64 (pump_side env 0 p 64 st) in
      case find_route p (fst st) of
        Some r \<Rightarrow> (case rt_quic r of
            Some q \<Rightarrow> if ue_Drained env q
              then update_route p (\<lambda>x. x\<lparr>rt_quicRetired := ue_WasMitm env q, rt_quic := None\<rparr>) st else st
          | None \<Rightarrow> st)
      | None \<Rightarrow> st)"

definition has_quic :: "nat \<Rightarrow> 'q udp_state \<Rightarrow> bool" where
  "has_quic p st = (case find_route p (fst st) of Some r \<Rightarrow> rt_quic r \<noteq> None | None \<Rightarrow> False)"

definition OnRouteWritable :: "'q UdpEnv \<Rightarrow> nat \<Rightarrow> 'q udp_state \<Rightarrow> 'q udp_state" where
  "OnRouteWritable env p st =
     (let st = FlushPendingReplies (Some p) st in if has_quic p st then PumpQuic env p st else st)"

definition fresh_initial :: "bytes \<Rightarrow> bool" where
  "fresh_initial b \<longleftrightarrow>
     (b ! 0 AND 0xF0 = 0xC0 \<and> b ! 1 = 0 \<and> b ! 2 = 0 \<and> b ! 3 = 0 \<and> b ! 4 = 1) \<or>
     (b ! 0 AND 0xF0 = 0xD0 \<and> b ! 1 = 0x6B \<and> b ! 2 = 0x33 \<and> b ! 3 = 0x43 \<and> b ! 4 = 0xCF)"

definition forward_first :: "'q UdpEnv \<Rightarrow> nat \<Rightarrow> CSAddrInfo \<Rightarrow> bytes \<Rightarrow> 'q UdpRoute \<Rightarrow> 'q udp_state \<Rightarrow> bool \<times> 'q udp_state" where
  "forward_first env p target data r st =
     (let (t, w) = update_route p (\<lambda>x. x\<lparr>rt_firstDatagramLogged := True, rt_quicTarget := target,
            rt_quic := ue_QuicOpen env (rt_client r) data\<rparr>) st
      in (ue_QuicOpen env (rt_client r) data \<noteq> None, (t, emit (LogUdpFirstDatagram p) w)))"

definition capture_client :: "nat \<Rightarrow> bytes \<Rightarrow> 'q udp_state \<Rightarrow> 'q udp_state" where
  "capture_client p data st =
     (if uw_tapEnabled (snd st) then capture_data p 0 data st
      else update_route p (\<lambda>r. r\<lparr>rt_capture := False\<rparr>) st)"

text \<open>What happens on the datagram's own route; \<open>Some\<close> is the result of an early return.\<close>

definition forward_on_route ::
    "'q UdpEnv \<Rightarrow> nat \<Rightarrow> CSAddrInfo \<Rightarrow> bytes \<Rightarrow> 'q UdpRoute \<Rightarrow> 'q udp_state \<Rightarrow> bool option \<times> 'q udp_state" where
  "forward_on_route env p target data r st =
     (if rt_quicRetired r \<and> (length data < 1200 \<or> \<not> fresh_initial data) then (Some True, st)
      else
        let st = (if rt_quicRetired r
                  then update_route p (\<lambda>x. x\<lparr>rt_quicRetired := False, rt_firstDatagramLogged := False\<rparr>) st else st) in
        case rt_quic r of
          Some q \<Rightarrow>
            let (retained, q') = ue_Feed env 0 data q;
                st = PumpQuic env p (update_route p (\<lambda>x. x\<lparr>rt_quic := Some q'\<rparr>) st)
            in if retained then (Some True, st) else map_prod Some id (ForwardUpstreamDatagram env target data st)
        | None \<Rightarrow>
            let (opened, st) = (if rt_quicRetired r \<or> \<not> rt_firstDatagramLogged r
                                then forward_first env p target data r st else (False, st))
            in if opened then (Some True, PumpQuic env p st) else (None, capture_client p data st))"

definition ForwardClientDatagram ::
    "'q UdpEnv \<Rightarrow> nat \<Rightarrow> CSAddrInfo \<Rightarrow> sockaddr \<Rightarrow> bytes option \<Rightarrow> 'q udp_state \<Rightarrow> bool \<times> 'q udp_state" where
  "ForwardClientDatagram env p target application data st =
     (case data of None \<Rightarrow> (False, st)
      | Some d \<Rightarrow>
        let (t, w) = st;
            st = update_route p (\<lambda>r. r\<lparr>rt_applicationEndpoint := application, rt_hasApplicationEndpoint := True\<rparr>)
              (t\<lparr>tk_lastActivity := uw_now w\<rparr>, w);
            st = (if has_quic p st then PumpQuic env p st else st)
        in case find_route p (fst st) of
             None \<Rightarrow> ForwardUpstreamDatagram env target d st
           | Some r \<Rightarrow>
               (case forward_on_route env p target d r st of
                  (Some result, st) \<Rightarrow> (result, st)
                | (None, st) \<Rightarrow> ForwardUpstreamDatagram env target d st))"

text \<open>The route scan of a reply: the selected route, the last domain candidate and their number.\<close>

fun scan_routes :: "UdpWorld \<Rightarrow> sockaddr \<Rightarrow> 'q UdpRoute list \<Rightarrow> 'q UdpRoute option \<Rightarrow> nat \<Rightarrow>
    'q UdpRoute option \<times> 'q UdpRoute option \<times> nat" where
  "scan_routes w source [] cand count = (None, cand, count)"
| "scan_routes w source (r # rs) cand count =
     (let dest = GetProxyDestination (rt_client r) in
      if \<not> peer_open w (rt_peer r) \<or> sa_GetPort dest \<noteq> sa_GetPort source then scan_routes w source rs cand count
      else if \<not> IsDNValid (rt_client r) \<and> sa_SameAddress dest source then (Some r, cand, count)
      else if IsDNValid (rt_client r) then scan_routes w source rs (Some r) (Suc count)
      else scan_routes w source rs cand count)"

definition select_route :: "UdpWorld \<Rightarrow> sockaddr \<Rightarrow> 'q UdpRoute list \<Rightarrow> 'q UdpRoute option" where
  "select_route w source rs =
     (case scan_routes w source rs None 0 of
        (Some r, _) \<Rightarrow> Some r
      | (None, cand, count) \<Rightarrow>
          if count = 1 then cand
          else if count = 0 \<and> length rs = 1 \<and> peer_open w (rt_peer (hd rs)) then Some (hd rs)
          else None)"

definition ForwardServerDatagram :: "'q UdpEnv \<Rightarrow> sockaddr \<Rightarrow> bytes option \<Rightarrow> 'q udp_state \<Rightarrow> bool \<times> 'q udp_state" where
  "ForwardServerDatagram env source data st =
     (let (t, w) = st in
      case (data, select_route w source (tk_routes t)) of
        (Some d, Some r) \<Rightarrow>
          let st = (t\<lparr>tk_lastActivity := uw_now w\<rparr>, w); p = rt_peer r in
          (case rt_quic r of
             Some q \<Rightarrow> (True, PumpQuic env p (update_route p (\<lambda>x. x\<lparr>rt_quic := Some (snd (ue_Feed env 1 d q))\<rparr>) st))
           | None \<Rightarrow>
             if rt_quicRetired r then (True, st)
             else let st = (if \<not> uw_tapEnabled w then update_route p (\<lambda>x. x\<lparr>rt_capture := False\<rparr>) st
                            else if rt_capture r then (fst st, emit (CaptureData p 1 d) (snd st)) else st)
               in DeliverServerDatagram env r d st)
      | _ \<Rightarrow> (False, st))"

section \<open>The handlers of the peers (PRCUdpPeer.cpp)\<close>

text \<open>
  What \<open>ReceiveFrom\<close> returns: an error, a datagram with its sender, or a truncated datagram,
  for which the peer forwards the whole buffer of 65507 bytes. The packet observers are left out.
\<close>

datatype recvfrom_result = RecvFromError int | RecvFromData bytes sockaddr | RecvFromTruncated bytes sockaddr

fun received :: "recvfrom_result \<Rightarrow> (bytes \<times> sockaddr) option" where
  "received (RecvFromError e) = None"
| "received (RecvFromData d a) = Some (take 65507 d, a)"
| "received (RecvFromTruncated d a) = Some (take 65507 (d @ replicate 65507 0), a)"

definition Peer_OnReceive :: "'q UdpEnv \<Rightarrow> nat \<Rightarrow> int \<Rightarrow> recvfrom_result \<Rightarrow> 'q udp_state \<Rightarrow> 'q udp_state" where
  "Peer_OnReceive env p nErrorCode res st =
     (if nErrorCode \<noteq> 0 then st
      else case (uw_peers (snd st) p, received res) of
        (Some pe, Some (d, a)) \<Rightarrow>
          if pe_identity pe = 1 then snd (ForwardClientDatagram env p (pe_info pe) a (Some d) st)
          else if pe_identity pe = 2 then snd (ForwardServerDatagram env a (Some d) st)
          else st
      | _ \<Rightarrow> st)"

definition Peer_OnSend :: "'q UdpEnv \<Rightarrow> nat \<Rightarrow> int \<Rightarrow> 'q udp_state \<Rightarrow> 'q udp_state" where
  "Peer_OnSend env p nErrorCode st =
     (if nErrorCode \<noteq> 0 then st
      else case uw_peers (snd st) p of
        None \<Rightarrow> st
      | Some pe \<Rightarrow> if pe_identity pe = 2 then OnServerWritable env st else OnRouteWritable env p st)"

definition Peer_OnClose :: "nat \<Rightarrow> int \<Rightarrow> 'q udp_state \<Rightarrow> 'q udp_state" where
  "Peer_OnClose p nErrorCode st = OnPeerClosed p nErrorCode (fst st, Peer_Close p (snd st))"

definition Peer_OnConnect :: "'q UdpEnv \<Rightarrow> nat \<Rightarrow> int \<Rightarrow> 'q udp_state \<Rightarrow> 'q udp_state" where
  "Peer_OnConnect env p nErrorCode st =
     (case uw_peers (snd st) p of
        None \<Rightarrow> st
      | Some pe \<Rightarrow>
          if pe_identity pe \<noteq> 2 then st
          else if nErrorCode = 0 then OnServerReady env p st
          else Peer_OnClose p nErrorCode st)"

section \<open>Runs\<close>

text \<open>
  The inputs of a task: socket events, the manager's timer, new routes as the manager admits
  them, closing, and the environment moving on (clock, the results of later socket calls, the
  capture switch).
\<close>

datatype udp_input =
    UdpReceive nat int recvfrom_result | UdpWritable nat int | UdpConnected nat int | UdpClosed nat int
  | UdpTimer | UdpNewRoute PRCClient | UdpCloseTask
  | UdpEnvironment dword "sendto_result list" "sockaddr option list" "int option list" bool

fun udp_step :: "'q UdpEnv \<Rightarrow> udp_input \<Rightarrow> 'q udp_state \<Rightarrow> 'q udp_state" where
  "udp_step env (UdpReceive p e res) st = Peer_OnReceive env p e res st"
| "udp_step env (UdpWritable p e) st = Peer_OnSend env p e st"
| "udp_step env (UdpConnected p e) st = Peer_OnConnect env p e st"
| "udp_step env (UdpClosed p e) st = Peer_OnClose p e st"
| "udp_step env UdpTimer st = OnMaintenanceTimer env st"
| "udp_step env (UdpNewRoute c) st =
     (if \<not> Udp_IsClosed st \<and> (HasRoute c (fst st) \<or> CanAcceptRoute c (fst st))
      then snd (snd (AddRoute env c st)) else st)"
| "udp_step env UdpCloseTask st = CloseTask st"
| "udp_step env (UdpEnvironment now sends binds connects tap) st =
     (fst st, (snd st)\<lparr>uw_now := now, uw_sendtoScript := sends, uw_bindScript := binds,
        uw_connectScript := connects, uw_tapEnabled := tap\<rparr>)"

definition udp_run :: "'q UdpEnv \<Rightarrow> udp_input list \<Rightarrow> 'q udp_state \<Rightarrow> 'q udp_state" where
  "udp_run env is st = fold (udp_step env) is st"

end
