(* ===== verification/UdpQueues.thy ===== *)
theory UdpQueues
  imports UdpTask "HOL-Library.Sublist"
begin

text \<open>
  Every handler of the UDP task keeps its queues within their limits and their byte counts
  exact, keeps the reconnect delay in its range, starts no upstream before the first datagram,
  never leaves the closing state, and forwards datagrams in the order in which they were
  handed over. The relation \<open>keeps\<close> states this for one operation; it composes.
\<close>

section \<open>Queues with a byte count\<close>

definition queue_ok :: "('a \<Rightarrow> bytes) \<Rightarrow> 'a list \<Rightarrow> dword \<Rightarrow> bool" where
  "queue_ok dat ps bytes \<longleftrightarrow> length ps \<le> 128 \<and> unat bytes = sum_list (map (length \<circ> dat) ps) \<and> unat bytes \<le> 1048576"

lemma queue_ok_Nil [simp]: "queue_ok dat [] 0"
  by (simp add: queue_ok_def)

lemma unat_minus_len: "unat (b :: dword) = n + m \<Longrightarrow> unat (b - of_nat n) = m"
proof -
  assume b: "unat b = n + m"
  then have "n < 2 ^ 32" using unsigned_less [of b, where ?'a = nat] by simp
  then have "unat (of_nat n :: dword) = n" by (simp add: unat_of_nat)
  with b show ?thesis by (simp add: unat_sub word_le_nat_alt)
qed

lemma queue_ok_tl: "queue_ok dat (p # ps) b \<Longrightarrow> queue_ok dat ps (b - of_nat (length (dat p)))"
  using unat_minus_len [of b "length (dat p)" "sum_list (map (length \<circ> dat) ps)"]
  by (auto simp: queue_ok_def)

lemma queue_ok_remove: "queue_ok dat (xs @ p # ps) b \<Longrightarrow> queue_ok dat (xs @ ps) (b - of_nat (length (dat p)))"
  using unat_minus_len [of b "length (dat p)" "sum_list (map (length \<circ> dat) (xs @ ps))"]
  by (auto simp: queue_ok_def)

lemma drop_oldest_ok:
  assumes "drop_oldest dat len ps b = (ps', b')" and "queue_ok dat ps b" and "unat len < 2 ^ 31"
  shows "queue_ok dat ps' b' \<and> (\<exists>xs. ps = xs @ ps') \<and> (unat len \<le> 1048576 \<longrightarrow> length ps' < 128 \<and> unat b' + unat len \<le> 1048576)"
  using assms
proof (induction dat len ps b rule: drop_oldest.induct)
  case (1 dat len b)
  then show ?case by (auto simp: queue_ok_def)
next
  case (2 dat len p ps b)
  have small: "unat (b + len) = unat b + unat len"
    using 2(3,4) by (intro unat_add_lem [THEN iffD1]) (simp add: queue_ok_def)
  show ?case
  proof (cases "maxPackets \<le> length (p # ps) \<or> maxBytes < b + len")
    case True
    with 2 show ?thesis using queue_ok_tl [OF 2(3)] by fastforce
  next
    case False
    then have "unat (b + len) \<le> 1048576" by (simp add: word_le_nat_alt not_less)
    with False 2(2,3) small show ?thesis by auto
  qed
qed

lemma queue_ok_snoc:
  "queue_ok dat ps b \<Longrightarrow> length ps < 128 \<Longrightarrow> unat b + unat len \<le> 1048576 \<Longrightarrow> unat len = length (dat x) \<Longrightarrow>
   queue_ok dat (ps @ [x]) (b + len)"
proof -
  assume a: "queue_ok dat ps b" "length ps < 128" "unat b + unat len \<le> 1048576" "unat len = length (dat x)"
  then have "unat (b + len) = unat b + unat len"
    by (intro unat_add_lem [THEN iffD1]) simp
  with a show ?thesis by (simp add: queue_ok_def)
qed

section \<open>What was handed over\<close>

fun upstream_of :: "udp_event \<Rightarrow> (CSAddrInfo \<times> bytes) list" where
  "upstream_of (UpstreamSent target data) = [(target, data)]"
| "upstream_of _ = []"

definition upstream_log :: "udp_event list \<Rightarrow> (CSAddrInfo \<times> bytes) list" where
  "upstream_log es = concat (map upstream_of es)"

definition waiting_up :: "PendingDatagram list \<Rightarrow> (CSAddrInfo \<times> bytes) list" where
  "waiting_up ps = map (\<lambda>p. (pd_target p, pd_data p)) ps"

text \<open>The datagrams sent upstream, followed by those that wait.\<close>

definition up :: "'q udp_state \<Rightarrow> (CSAddrInfo \<times> bytes) list" where
  "up st = upstream_log (uw_events (snd st)) @ waiting_up (tk_pending (fst st))"

definition task_ok :: "'q UdpTask \<Rightarrow> bool" where
  "task_ok t \<longleftrightarrow> queue_ok pd_data (tk_pending t) (tk_pendingBytes t) \<and>
     queue_ok pr_data (tk_pendingReplies t) (tk_pendingReplyBytes t) \<and>
     250 \<le> tk_serverReconnectDelay t \<and> tk_serverReconnectDelay t \<le> 5000 \<and>
     (ShouldActivateUpstream (tk_upstreamState t) \<longrightarrow> tk_pServer t = None)"

definition no_quic :: "'q UdpTask \<Rightarrow> bool" where
  "no_quic t \<longleftrightarrow> (\<forall>r \<in> set (tk_routes t). rt_quic r = None)"

definition route_keys :: "'q UdpTask \<Rightarrow> (PRCClient \<times> nat) list" where
  "route_keys t = map (\<lambda>r. (rt_client r, rt_peer r)) (tk_routes t)"

text \<open>
  The relation of one operation: the invariant, the order of the datagrams (those of \<open>xs\<close> are
  handed over by the operation), the closing state, the absence of QUIC bridges and the
  clients and peers of the routes are kept.
\<close>

definition keeps_with :: "(CSAddrInfo \<times> bytes) list \<Rightarrow> 'q udp_state \<Rightarrow> 'q udp_state \<Rightarrow> bool" where
  "keeps_with xs st st' \<longleftrightarrow> (task_ok (fst st) \<longrightarrow> task_ok (fst st')) \<and> subseq (up st') (up st @ xs) \<and>
     (tk_upstreamState (fst st) = UPSTREAM_CLOSING \<longrightarrow> tk_upstreamState (fst st') = UPSTREAM_CLOSING) \<and>
     (no_quic (fst st) \<longrightarrow> no_quic (fst st')) \<and> route_keys (fst st') = route_keys (fst st)"

definition keeps :: "'q udp_state \<Rightarrow> 'q udp_state \<Rightarrow> bool" where
  "keeps st st' \<longleftrightarrow> (task_ok (fst st) \<longrightarrow> task_ok (fst st')) \<and> subseq (up st') (up st) \<and>
     (tk_upstreamState (fst st) = UPSTREAM_CLOSING \<longrightarrow> tk_upstreamState (fst st') = UPSTREAM_CLOSING) \<and>
     (no_quic (fst st) \<longrightarrow> no_quic (fst st')) \<and> route_keys (fst st') = route_keys (fst st)"

lemma keeps_refl [simp]: "keeps st st"
  by (simp add: keeps_def)

lemma keeps_trans: "keeps a b \<Longrightarrow> keeps b c \<Longrightarrow> keeps a c"
  using subseq_order.order_trans [of "up c" "up b" "up a"] by (simp add: keeps_def)

lemma upstream_log_simps [simp]:
  "upstream_log [] = []" "upstream_log (es @ fs) = upstream_log es @ upstream_log fs"
  "upstream_log [e] = upstream_of e"
  by (simp_all add: upstream_log_def)

lemma keeps_with_Nil: "keeps_with [] = keeps"
  by (intro ext) (simp add: keeps_with_def keeps_def)

lemma keeps_with_trans: "keeps_with xs a b \<Longrightarrow> keeps_with ys b c \<Longrightarrow> keeps_with (xs @ ys) a c"
proof -
  assume a: "keeps_with xs a b" "keeps_with ys b c"
  then have "subseq (up c) ((up a @ xs) @ ys)"
    unfolding keeps_with_def by (meson list_emb_append_mono subseq_order.order_refl subseq_order.order_trans)
  with a show ?thesis by (simp add: keeps_with_def)
qed

lemma keeps_keeps_with: "keeps a b \<Longrightarrow> keeps_with xs b c \<Longrightarrow> keeps_with xs a c"
  using keeps_with_trans [of "[]" a b xs c] by (simp add: keeps_with_Nil)

lemma keeps_with_keeps: "keeps_with xs a b \<Longrightarrow> keeps b c \<Longrightarrow> keeps_with xs a c"
  using keeps_with_trans [of xs a b "[]" c] by (simp add: keeps_with_Nil)

lemma keeps_imp_with: "keeps a b \<Longrightarrow> keeps_with xs a b"
  unfolding keeps_def keeps_with_def by (blast intro: subseq_rev_drop_many)

section \<open>The primitives\<close>

lemma fold_field: "(\<And>x w. f (g x w) = f w) \<Longrightarrow> f (fold g xs w) = f w"
  by (induction xs arbitrary: w) simp_all

lemma peer_prims [udp_simps, simp]:
  "uw_events (update_peer p f w) = uw_events w" "uw_now (update_peer p f w) = uw_now w"
  "uw_events (Peer_Close p w) = uw_events w" "uw_now (Peer_Close p w) = uw_now w"
  "uw_events (SetPartner q p w) = uw_events w" "uw_now (SetPartner q p w) = uw_now w"
  "uw_events (delete_peer p w) = uw_events w" "uw_now (delete_peer p w) = uw_now w"
  by (simp_all add: update_peer_def Peer_Close_def SetPartner_def delete_peer_def)

lemma fold_prims [udp_simps, simp]:
  "uw_events (close_all ps w) = uw_events w" "uw_events (fold delete_peer ps w) = uw_events w"
  "uw_events (fold (SetPartner q) ps w) = uw_events w" "uw_events (link_route s p w) = uw_events w"
  "uw_events (fold (link_route s) ps w) = uw_events w"
  by (simp_all add: close_all_def fold_field [where f = uw_events] link_route_def Let_def)

lemma new_peer_prims [udp_simps, simp]:
  "uw_events (snd (new_peer i q info w)) = uw_events w" "uw_now (snd (new_peer i q info w)) = uw_now w"
  by (simp_all add: new_peer_def)

lemma capability_prims [udp_simps, simp]:
  "uw_events (EnsureUdpCapabilityProfile pi w) = uw_events w"
  "uw_events (snd (ReportUdpAssociationFailure p e w)) = uw_events w"
  "uw_events (ReportUdpAssociationReady p w) = uw_events w"
  by (simp_all add: EnsureUdpCapabilityProfile_def FlushUdpCapabilitySummary_def ReportUdpAssociationFailure_def
      ReportUdpAssociationReady_def Let_def split: prod.splits)

lemma emit_prims [udp_simps, simp]:
  "uw_events (emit e w) = uw_events w @ [e]" "uw_now (emit e w) = uw_now w" "uw_peers (emit e w) = uw_peers w"
  by (simp_all add: emit_def)

lemma Peer_SendTo_prims:
  "Peer_SendTo p w = (n, w') \<Longrightarrow> uw_events w' = uw_events w \<and> uw_now w' = uw_now w \<and> uw_peers w' = uw_peers w"
  by (auto simp: Peer_SendTo_def split: if_splits list.splits sendto_result.splits)

lemma send_reply_prims:
  "send_reply p a d w = (n, w') \<Longrightarrow> upstream_log (uw_events w') = upstream_log (uw_events w) \<and> uw_now w' = uw_now w"
  by (auto simp: send_reply_def dest!: Peer_SendTo_prims split: prod.splits if_splits)

lemma send_upstream_prims:
  "send_upstream s target d w = (n, w') \<Longrightarrow>
   upstream_log (uw_events w') = upstream_log (uw_events w) @ (if n = SOCKET_ERROR then [] else [(target, d)])"
  by (auto simp: send_upstream_def dest!: Peer_SendTo_prims split: prod.splits if_splits)

section \<open>The queue operations\<close>

lemma waiting_up_simps [simp]:
  "waiting_up [] = []" "waiting_up (p # ps) = (pd_target p, pd_data p) # waiting_up ps"
  "waiting_up (ps @ qs) = waiting_up ps @ waiting_up qs"
  by (simp_all add: waiting_up_def)

lemma subseq_drop_mid: "subseq (as @ cs) (as @ bs @ cs)"
  by (simp add: list_emb_append_mono list_emb_append2)

lemmas subseq_skip [simp] = subseq_drop_mid subseq_drop_mid [of _ _ "[b]" for b, simplified]

lemma drop_oldest_suffix: "drop_oldest dat len ps b = (ps', b') \<Longrightarrow> \<exists>xs. ps = xs @ ps'"
  by (induction dat len ps b rule: drop_oldest.induct) (fastforce split: if_splits)+

lemma expire_ok:
  "expire now ps b = (ps', b') \<Longrightarrow> (\<exists>xs. ps = xs @ ps') \<and> (queue_ok pd_data ps b \<longrightarrow> queue_ok pd_data ps' b')"
proof (induction now ps b rule: expire.induct)
  case (2 now p ps b)
  show ?case
  proof (cases "stale now (pd_queuedAt p)")
    case True
    with 2 show ?thesis using queue_ok_tl [of pd_data p ps b] by fastforce
  qed (use 2 in auto)
qed simp

lemma keeps_Expire: "keeps st (ExpirePendingDatagrams st)"
proof (cases st)
  case (Pair t w)
  obtain ps b where e: "expire (uw_now w) (tk_pending t) (tk_pendingBytes t) = (ps, b)" by fastforce
  then obtain xs where "tk_pending t = xs @ ps" using expire_ok by blast
  with Pair e expire_ok [OF e] show ?thesis
    by (auto simp: ExpirePendingDatagrams_def keeps_def task_ok_def no_quic_def route_keys_def up_def)
qed

lemma flush_replies_ok:
  "flush_replies rp rs b w = (rs', b', w') \<Longrightarrow> upstream_log (uw_events w') = upstream_log (uw_events w) \<and>
   (queue_ok pr_data (xs @ rs) b \<longrightarrow> queue_ok pr_data (xs @ rs') b')"
proof (induction rs arbitrary: xs b w rs' b' w')
  case (Cons r rs)
  show ?case
  proof (cases "stale (uw_now w) (pr_queuedAt r) \<or> \<not> peer_open w (pr_routePeer r)")
    case True
    then have "flush_replies rp rs (b - of_nat (length (pr_data r))) w = (rs', b', w')" using Cons.prems by simp
    from Cons.IH [OF this, of xs] show ?thesis using queue_ok_remove [of pr_data xs r rs b] by blast
  next
    case False
    obtain n w1 where send: "send_reply (pr_routePeer r) (pr_application r) (pr_data r) w = (n, w1)" by fastforce
    note quiet = send_reply_prims [OF send]
    show ?thesis
    proof (cases "rp \<noteq> None \<and> rp \<noteq> Some (pr_routePeer r)")
      case True
      then obtain rs1 where r: "flush_replies rp rs b w = (rs1, b', w')" "rs' = r # rs1"
        using Cons.prems False by (auto split: prod.splits)
      from Cons.IH [OF r(1), of "xs @ [r]"] r(2) show ?thesis by simp
    next
      case all: False
      show ?thesis
      proof (cases "n = int (length (pr_data r))")
        case True
        then have "flush_replies rp rs (b - of_nat (length (pr_data r))) (emit (RecordTraffic True n) w1) = (rs', b', w')"
          using Cons.prems False all send by auto
        from Cons.IH [OF this, of xs] show ?thesis
          using queue_ok_remove [of pr_data xs r rs b] quiet by auto
      next
        case neq: False
        then obtain rs1 where r: "flush_replies rp rs b w1 = (rs1, b', w')" "rs' = r # rs1"
          using Cons.prems False all send by (auto split: prod.splits)
        from Cons.IH [OF r(1), of "xs @ [r]"] r(2) quiet show ?thesis by simp
      qed
    qed
  qed
qed simp

lemma keeps_FlushReplies: "keeps st (FlushPendingReplies rp st)"
proof (cases st)
  case (Pair t w)
  obtain rs b w' where f: "flush_replies rp (tk_pendingReplies t) (tk_pendingReplyBytes t) w = (rs, b, w')"
    using prod_cases3 by blast
  with Pair flush_replies_ok [OF f, of "[]"] show ?thesis
    by (auto simp: FlushPendingReplies_def keeps_def task_ok_def no_quic_def route_keys_def up_def)
qed

lemma flush_pending_ok:
  "flush_pending s ps b w = (ps', b', w', err) \<Longrightarrow>
   subseq (upstream_log (uw_events w') @ waiting_up ps') (upstream_log (uw_events w) @ waiting_up ps) \<and>
   (queue_ok pd_data ps b \<longrightarrow> queue_ok pd_data ps' b')"
proof (induction ps arbitrary: b w)
  case (Cons p ps)
  show ?case
  proof (cases "stale (uw_now w) (pd_queuedAt p)")
    case True
    then have "flush_pending s ps (b - of_nat (length (pd_data p))) w = (ps', b', w', err)" using Cons.prems by simp
    from Cons.IH [OF this] show ?thesis
      using queue_ok_tl [of pd_data p ps b] subseq_skip(2)
      by (auto intro: subseq_order.order_trans)
  next
    case False
    obtain n w1 where send: "send_upstream s (pd_target p) (pd_data p) w = (n, w1)" by fastforce
    note log = send_upstream_prims [OF send]
    show ?thesis
    proof (cases "n = SOCKET_ERROR")
      case True
      then show ?thesis using Cons.prems False send log by auto
    next
      case sent: False
      then have "flush_pending s ps (b - of_nat (length (pd_data p))) (emit (RecordTraffic False n) w1) = (ps', b', w', err)"
        using Cons.prems False send by simp
      from Cons.IH [OF this] show ?thesis using queue_ok_tl [of pd_data p ps b] log sent by auto
    qed
  qed
qed simp

lemma QueueDatagram_keeps:
  assumes "QueueDatagram target d st = (ok, st')" and "length d < 2 ^ 31"
  shows "(task_ok (fst st) \<longrightarrow> task_ok (fst st')) \<and> subseq (up st') (up st @ [(target, d)]) \<and>
    tk_upstreamState (fst st') = tk_upstreamState (fst st) \<and> (no_quic (fst st) \<longrightarrow> no_quic (fst st')) \<and>
    route_keys (fst st') = route_keys (fst st)"
proof -
  obtain t w where st: "st = (t, w)" by fastforce
  let ?len = "of_nat (length d) :: dword"
  obtain ps b where q: "drop_oldest pd_data ?len (tk_pending t) (tk_pendingBytes t) = (ps, b)" by fastforce
  have len: "unat ?len = length d" using assms(2) by (simp add: unat_of_nat)
  obtain xs where xs: "tk_pending t = xs @ ps" using drop_oldest_suffix [OF q] by blast
  have sub: "subseq (upstream_log (uw_events w) @ waiting_up ps) (upstream_log (uw_events w) @ waiting_up (xs @ ps) @ [(target, d)])"
    by (simp add: list_emb_append_mono list_emb_append2 subseq_rev_drop_many)
  have ok: "queue_ok pd_data ps b" "length d \<le> 1048576 \<longrightarrow> length ps < 128 \<and> unat b + length d \<le> 1048576"
    if "queue_ok pd_data (tk_pending t) (tk_pendingBytes t)"
    using drop_oldest_ok [OF q that] len assms(2) by simp_all
  have big: "maxBytes < ?len \<longleftrightarrow> 1048576 < length d" using len by (simp add: word_less_nat_alt)
  show ?thesis
  proof (cases "maxBytes < ?len")
    case True
    then have "st' = (t\<lparr>tk_pending := ps, tk_pendingBytes := b\<rparr>, w)" using assms(1) q by (simp add: QueueDatagram_def st)
    then show ?thesis using ok(1) sub xs st by (auto simp: task_ok_def no_quic_def route_keys_def up_def)
  next
    case False
    let ?x = "\<lparr>pd_target = target, pd_data = d, pd_queuedAt = uw_now w\<rparr>"
    have "st' = (t\<lparr>tk_pending := ps @ [?x], tk_pendingBytes := b + ?len\<rparr>, w)"
      using assms(1) q False by (simp add: QueueDatagram_def st)
    moreover have "queue_ok pd_data (ps @ [?x]) (b + ?len)" if "queue_ok pd_data (tk_pending t) (tk_pendingBytes t)"
      using ok [OF that] big False len by (intro queue_ok_snoc) auto
    ultimately show ?thesis using xs st by (auto simp: task_ok_def no_quic_def route_keys_def up_def)
  qed
qed

lemma QueueReply_keeps:
  assumes "QueueReply p a d st = (ok, st')" and "length d < 2 ^ 31"
  shows "keeps st st'"
proof -
  obtain t w where st: "st = (t, w)" by fastforce
  let ?len = "of_nat (length d) :: dword"
  obtain rs b where q: "drop_oldest pr_data ?len (tk_pendingReplies t) (tk_pendingReplyBytes t) = (rs, b)" by fastforce
  have len: "unat ?len = length d" using assms(2) by (simp add: unat_of_nat)
  have ok: "queue_ok pr_data rs b" "length d \<le> 1048576 \<longrightarrow> length rs < 128 \<and> unat b + length d \<le> 1048576"
    if "queue_ok pr_data (tk_pendingReplies t) (tk_pendingReplyBytes t)"
    using drop_oldest_ok [OF q that] len assms(2) by simp_all
  have big: "maxBytes < ?len \<longleftrightarrow> 1048576 < length d" using len by (simp add: word_less_nat_alt)
  show ?thesis
  proof (cases "maxBytes < ?len")
    case True
    then have "st' = (t\<lparr>tk_pendingReplies := rs, tk_pendingReplyBytes := b\<rparr>, w)"
      using assms(1) q by (simp add: QueueReply_def st)
    then show ?thesis using ok(1) st by (auto simp: keeps_def task_ok_def no_quic_def route_keys_def up_def)
  next
    case False
    let ?x = "\<lparr>pr_routePeer = p, pr_application = a, pr_data = d, pr_queuedAt = uw_now w\<rparr>"
    have "st' = (t\<lparr>tk_pendingReplies := rs @ [?x], tk_pendingReplyBytes := b + ?len\<rparr>, w)"
      using assms(1) q False by (simp add: QueueReply_def st)
    moreover have "queue_ok pr_data (rs @ [?x]) (b + ?len)" if "queue_ok pr_data (tk_pendingReplies t) (tk_pendingReplyBytes t)"
      using ok [OF that] big False len by (intro queue_ok_snoc) auto
    ultimately show ?thesis using st by (auto simp: keeps_def task_ok_def no_quic_def route_keys_def up_def)
  qed
qed

section \<open>The upstream operations\<close>

lemma keeps_CloseTask: "keeps st (CloseTask st)"
  by (cases st) (auto simp: CloseTask_def keeps_def task_ok_def no_quic_def route_keys_def up_def ShouldActivateUpstream_def Let_def split: option.splits)

lemma keeps_Schedule: "keeps st (ScheduleServerReconnect e st)"
  by (cases st) (auto simp: ScheduleServerReconnect_def keeps_def task_ok_def no_quic_def route_keys_def up_def ShouldActivateUpstream_def split: option.splits)

lemma CreateServerPeer_cases:
  assumes "CreateServerPeer env (t, w) = (ok, st')"
  shows "uw_events (snd st') = uw_events w \<and>
    tk_pending (fst st') = tk_pending t \<and> tk_pendingBytes (fst st') = tk_pendingBytes t \<and>
    tk_pendingReplies (fst st') = tk_pendingReplies t \<and> tk_pendingReplyBytes (fst st') = tk_pendingReplyBytes t \<and>
    tk_routes (fst st') = tk_routes t \<and>
    (if ok then tk_upstreamState (fst st') \<in> {UPSTREAM_READY, UPSTREAM_ASSOCIATING} \<and>
        tk_serverReconnectDelay (fst st') \<in> {250, tk_serverReconnectDelay t} \<and> tk_pServer (fst st') \<noteq> None
     else fst st' = t)"
proof -
  obtain s w1 where n: "new_peer 2 None (SetAddrInfo env (CSAddrInfo_zero\<lparr>ci_srcAddr := GetProxyDestination (tk_PRCClient t),
      ci_dstAddr := srcAddr (tk_PRCClient t)\<rparr>)) w = (s, w1)" by fastforce
  have w1: "uw_events w1 = uw_events w" using new_peer_prims(1) n by (metis snd_conv)
  show ?thesis
    using assms w1
    by (cases "uw_connectScript w1"; cases "hd (uw_connectScript w1)")
      (auto simp: CreateServerPeer_def Let_def n split: if_splits)
qed

lemma keeps_Create:
  assumes "CreateServerPeer env st = (ok, st')" and "tk_upstreamState (fst st) \<noteq> UPSTREAM_CLOSING"
  shows "keeps st st'"
proof -
  obtain t w where st: "st = (t, w)" by fastforce
  with CreateServerPeer_cases [of env t w ok st'] assms show ?thesis
    by (cases ok) (auto simp: keeps_def task_ok_def no_quic_def route_keys_def up_def ShouldActivateUpstream_def)
qed

lemma keeps_association_failed: "keeps st (association_failed e st)"
proof -
  obtain t w where st: "st = (t, w)" by fastforce
  obtain blocked w1 where r: "ReportUdpAssociationFailure (tk_ProxyInfo t) e w = (blocked, w1)" by fastforce
  then have "uw_events w1 = uw_events w" using capability_prims(2) by (metis snd_conv)
  then have k: "keeps st (t, w1)" by (simp add: st keeps_def up_def no_quic_def route_keys_def)
  obtain t2 w2 where s: "ScheduleServerReconnect e (t, w1) = (t2, w2)" by fastforce
  have "keeps (t2, w2) (t2\<lparr>tk_nextServerReconnect := uw_now w2 + 60000\<rparr>, w2)" by (simp add: keeps_def task_ok_def no_quic_def route_keys_def up_def)
  then have "keeps (t, w1) (association_failed e st)"
    using keeps_CloseTask [of "(t, w1)"] keeps_Schedule [of "(t, w1)" e] keeps_trans
    by (fastforce simp: association_failed_def st r s)
  with k show ?thesis by (rule keeps_trans)
qed

lemma keeps_drop_server: "keeps st (drop_server st)"
  by (cases st) (auto simp: drop_server_def keeps_def task_ok_def no_quic_def route_keys_def up_def Let_def split: option.splits)

lemma drop_server_state [simp]: "tk_upstreamState (fst (drop_server st)) = tk_upstreamState (fst st)"
  by (cases st) (simp add: drop_server_def Let_def)

lemma double_delay: "250 \<le> d \<Longrightarrow> d \<le> 5000 \<Longrightarrow> 250 \<le> min (d * 2) 5000" for d :: dword
  by (simp add: min_def word_le_nat_alt unat_word_ariths)

lemma keeps_reconnect:
  assumes "reconnect env st = (go, st')" and "tk_upstreamState (fst st) \<noteq> UPSTREAM_CLOSING"
  shows "keeps st st'"
proof -
  obtain ok t w where c: "CreateServerPeer env (drop_server st) = (ok, t, w)" using prod_cases3 by blast
  have k: "keeps st (t, w)"
    using keeps_trans [OF keeps_drop_server keeps_Create [OF c]] assms(2) by simp
  show ?thesis
  proof (cases ok)
    case True
    then show ?thesis using assms(1) k by (simp add: reconnect_def c)
  next
    case False
    obtain blocked w1 where r: "ReportUdpAssociationFailure (tk_ProxyInfo t) (create_error w) w = (blocked, w1)" by fastforce
    then have ev: "uw_events w1 = uw_events w" using capability_prims(2) by (metis snd_conv)
    have t: "t = fst (drop_server st)" using CreateServerPeer_cases [of env "fst (drop_server st)" "snd (drop_server st)"] c False by auto
    then have nc: "tk_upstreamState t \<noteq> UPSTREAM_CLOSING" using assms(2) by simp
    have "keeps (t, w) (CloseTask (t, w1))"
      using keeps_CloseTask [of "(t, w1)"] ev by (simp add: keeps_def up_def no_quic_def route_keys_def)
    moreover have "keeps (t, w) (t\<lparr>tk_upstreamState := UPSTREAM_RECONNECT_WAIT, tk_nextServerReconnect := n\<rparr>, w1)" for n
      using ev nc by (simp add: keeps_def up_def task_ok_def no_quic_def route_keys_def ShouldActivateUpstream_def)
    moreover have "keeps (t, w) (t\<lparr>tk_upstreamState := UPSTREAM_RECONNECT_WAIT,
        tk_serverReconnectDelay := min (tk_serverReconnectDelay t * 2) 5000, tk_nextServerReconnect := n\<rparr>, w1)" for n
      using ev nc double_delay [of "tk_serverReconnectDelay t"]
      by (simp add: keeps_def up_def task_ok_def no_quic_def route_keys_def ShouldActivateUpstream_def)
    moreover have "st' = (if blocked then if IsUdpPermanentlyUnsupported w1 then CloseTask (t, w1)
        else (t\<lparr>tk_upstreamState := UPSTREAM_RECONNECT_WAIT, tk_nextServerReconnect := uw_now w1 + 60000\<rparr>, w1)
        else (t\<lparr>tk_upstreamState := UPSTREAM_RECONNECT_WAIT, tk_serverReconnectDelay := min (tk_serverReconnectDelay t * 2) 5000,
          tk_nextServerReconnect := uw_now w1 + min (tk_serverReconnectDelay t * 2) 5000\<rparr>, w1))"
      using assms(1) False by (auto simp: reconnect_def c r Let_def)
    ultimately have "keeps (t, w) st'" by presburger
    with k show ?thesis by (rule keeps_trans)
  qed
qed

lemma keeps_handle_send_error: "keeps st (handle_send_error err st)"
  by (cases err) (simp_all add: handle_send_error_def keeps_Schedule)

lemma keeps_wake_quic: "keeps st (wake_quic st)"
proof -
  have "upstream_log (uw_events (fold (\<lambda>r. if rt_quic r \<noteq> None then emit (TriggerWrite (rt_peer r)) else id) rs x)) =
      upstream_log (uw_events x)" for rs :: "'a UdpRoute list" and x
    by (induction rs arbitrary: x) simp_all
  then show ?thesis by (simp add: wake_quic_def keeps_def up_def no_quic_def route_keys_def)
qed

lemma keeps_flush_upstream: "keeps st (flush_upstream st)"
proof -
  obtain t w where st: "st = (t, w)" by fastforce
  show ?thesis
  proof (cases "\<exists>s. tk_pServer t = Some s \<and> tk_upstreamState t = UPSTREAM_READY \<and> peer_open w s")
    case True
    then obtain s where s: "tk_pServer t = Some s" "tk_upstreamState t = UPSTREAM_READY" "peer_open w s" by blast
    obtain ps b w1 err where f: "flush_pending s (tk_pending t) (tk_pendingBytes t) w = (ps, b, w1, err)"
      using prod_cases4 by blast
    let ?t = "t\<lparr>tk_pending := ps, tk_pendingBytes := b\<rparr>"
    have k: "keeps st (?t, w1)"
      using flush_pending_ok [OF f] s by (auto simp: st keeps_def task_ok_def no_quic_def route_keys_def up_def)
    have "flush_upstream st = wake_quic (FlushPendingReplies None (handle_send_error err (?t, w1)))"
      using s f by (simp add: flush_upstream_def st)
    then show ?thesis
      using keeps_trans [OF keeps_trans [OF keeps_trans [OF k keeps_handle_send_error] keeps_FlushReplies] keeps_wake_quic]
      by simp
  next
    case False
    then have "flush_upstream st = st" by (auto simp: flush_upstream_def st split: option.splits)
    then show ?thesis by simp
  qed
qed

lemma Expire_Flush_state [simp]:
  "tk_upstreamState (fst (FlushPendingReplies rp st)) = tk_upstreamState (fst st)"
  "tk_upstreamState (fst (ExpirePendingDatagrams st)) = tk_upstreamState (fst st)"
  by (simp_all add: FlushPendingReplies_def ExpirePendingDatagrams_def Let_def split: prod.splits)

lemma keeps_purge: "keeps st (FlushPendingReplies rp (ExpirePendingDatagrams st))"
  using keeps_Expire keeps_FlushReplies keeps_trans by blast

lemma keeps_OnServerWritable: "keeps st (OnServerWritable env st)"
proof -
  obtain t w where p: "FlushPendingReplies None (ExpirePendingDatagrams st) = (t, w)" by fastforce
  obtain go st1 where r: "reconnect env (t, w) = (go, st1)" by (cases "reconnect env (t, w)") auto
  have k: "keeps st (t, w)" using keeps_purge [of st None] p by simp
  have "tk_upstreamState t = tk_upstreamState (fst st)" using p Expire_Flush_state by (metis fst_conv)
  moreover have "keeps (t, w) st1" if "tk_upstreamState t \<noteq> UPSTREAM_CLOSING" using keeps_reconnect [OF r] that by simp
  ultimately have "keeps (t, w) st1" if "tk_upstreamState (fst st) \<noteq> UPSTREAM_CLOSING" using that by simp
  then have "keeps st st1" "keeps st (flush_upstream st1)" if "tk_upstreamState (fst st) \<noteq> UPSTREAM_CLOSING"
    using that keeps_trans [OF k] keeps_trans [OF keeps_trans [OF k] keeps_flush_upstream] by simp_all
  moreover have "keeps st (flush_upstream (t, w))" using keeps_trans [OF k keeps_flush_upstream] .
  ultimately show ?thesis using k by (simp add: OnServerWritable_def p r)
qed

lemma keeps_EnterServerDormant: "keeps st (EnterServerDormant st)"
proof -
  obtain t w where st: "st = (t, w)" by fastforce
  show ?thesis
    by (auto simp: EnterServerDormant_def drop_server_def st keeps_def task_ok_def no_quic_def route_keys_def up_def Let_def split: option.splits)
qed

lemma keeps_OnMaintenanceTimer: "keeps st (OnMaintenanceTimer env st)"
proof -
  obtain t w where p: "FlushPendingReplies None (ExpirePendingDatagrams st) = (t, w)" by fastforce
  have "keeps st (t, w)" using keeps_purge [of st None] p by simp
  then have "keeps st (t, w)" "keeps st (EnterServerDormant (t, w))" "keeps st (OnServerWritable env (t, w))"
    using keeps_trans keeps_EnterServerDormant keeps_OnServerWritable by metis+
  then show ?thesis by (simp add: OnMaintenanceTimer_def p)
qed

lemma keeps_Wake: "keeps st (WakeServerAssociation env st)"
proof -
  obtain t w where st: "st = (t, w)" by fastforce
  let ?t = "t\<lparr>tk_upstreamState := UPSTREAM_ASSOCIATING, tk_serverReconnectDelay := 250\<rparr>"
  obtain ok t1 w1 where c: "CreateServerPeer env (?t, w) = (ok, t1, w1)" using prod_cases3 by blast
  show ?thesis
  proof (cases "tk_upstreamState t = UPSTREAM_CLOSING \<or> \<not> ShouldActivateUpstream (tk_upstreamState t)")
    case False
    then have "keeps st (?t, w)" by (auto simp: st keeps_def task_ok_def no_quic_def route_keys_def up_def ShouldActivateUpstream_def)
    moreover have "keeps (?t, w) (t1, w1)" using keeps_Create [OF c] by simp
    moreover have "keeps (t1, w1) (WakeServerAssociation env st)"
      using False keeps_association_failed [of "(t1, w1)"] keeps_OnServerWritable [of "(t1, w1)" env]
      by (simp add: WakeServerAssociation_def st c Let_def)
    ultimately show ?thesis using keeps_trans by blast
  qed (simp add: WakeServerAssociation_def st)
qed

lemma keeps_OnPeerClosed: "keeps st (OnPeerClosed p e st)"
  using keeps_association_failed [of st e] keeps_CloseTask [of st]
  by (cases st) (auto simp: OnPeerClosed_def)

lemma keeps_OnServerReady: "keeps st (OnServerReady env p st)"
proof -
  obtain t w where st: "st = (t, w)" by fastforce
  let ?st = "(t\<lparr>tk_upstreamState := UPSTREAM_READY, tk_serverReconnectDelay := 250, tk_lastServerError := 0\<rparr>,
    ReportUdpAssociationReady (tk_ProxyInfo t) w)"
  have "keeps st ?st" if "tk_upstreamState t = UPSTREAM_ASSOCIATING"
    using that by (simp add: st keeps_def task_ok_def no_quic_def route_keys_def up_def ShouldActivateUpstream_def)
  then show ?thesis
    using keeps_trans [OF _ keeps_OnServerWritable [of ?st env], of st] by (auto simp: OnServerReady_def st)
qed

section \<open>Forwarding\<close>

lemma QueueDatagram_with: "QueueDatagram target d st = (ok, st') \<Longrightarrow> length d < 2 ^ 31 \<Longrightarrow> keeps_with [(target, d)] st st'"
  using QueueDatagram_keeps [of target d st ok st'] by (auto simp: keeps_with_def)

lemma ForwardUpstream_with:
  assumes "ForwardUpstreamDatagram env target d st = (ok, st')" and "length d < 2 ^ 31"
  shows "keeps_with [(target, d)] st st'"
proof -
  obtain t w where st: "st = (t, w)" by fastforce
  have queue: "keeps_with [(target, d)] x (snd (QueueDatagram target d x))" for x :: "'a udp_state"
    using QueueDatagram_with [OF surjective_pairing] assms(2) by simp
  show ?thesis
  proof (cases "ShouldActivateUpstream (tk_upstreamState t)")
    case True
    obtain q st1 where q: "QueueDatagram target d st = (q, st1)" by (cases "QueueDatagram target d st") auto
    then have "st' = (if q then WakeServerAssociation env st1 else st1)"
      using assms(1) True by (auto simp: ForwardUpstreamDatagram_def st)
    then show ?thesis
      using queue [of st] q keeps_with_keeps [OF _ keeps_Wake, of "[(target, d)]" st st1] by (cases q) auto
  next
    case inactive: False
    show ?thesis
    proof (cases "\<exists>s. tk_pServer t = Some s \<and> tk_upstreamState t = UPSTREAM_READY \<and> peer_open w s \<and> tk_pending t = []")
      case True
      then obtain s where s: "tk_pServer t = Some s" "tk_upstreamState t = UPSTREAM_READY" "peer_open w s" "tk_pending t = []" by blast
      obtain n w1 where send: "send_upstream s target d w = (n, w1)" by fastforce
      note log = send_upstream_prims [OF send]
      show ?thesis
      proof (cases "n = SOCKET_ERROR")
        case True
        let ?st1 = "if uw_lastError w1 \<noteq> WSAEWOULDBLOCK then ScheduleServerReconnect (uw_lastError w1) (t, w1) else (t, w1)"
        have "keeps st (t, w1)" using log True by (simp add: st keeps_def up_def)
        then have "keeps st ?st1" using keeps_trans [OF _ keeps_Schedule, of st "(t, w1)"] by simp
        moreover have "st' = snd (QueueDatagram target d ?st1)"
          using assms(1) inactive s send True by (simp add: ForwardUpstreamDatagram_def st)
        ultimately show ?thesis using keeps_keeps_with [OF _ queue] by simp
      next
        case False
        then have "st' = (t, emit (RecordTraffic False n) w1)"
          using assms(1) inactive s send by (simp add: ForwardUpstreamDatagram_def st)
        then show ?thesis using log False s(4) by (simp add: st keeps_with_def up_def)
      qed
    next
      case False
      then have "ForwardUpstreamDatagram env target d st = QueueDatagram target d st"
        using inactive by (auto simp: ForwardUpstreamDatagram_def st split: option.splits)
      then show ?thesis using queue [of st] assms(1) by (metis snd_conv)
    qed
  qed
qed

lemma Deliver_keeps:
  assumes "DeliverServerDatagram env r d st = (ok, st')" and "length d < 2 ^ 31"
  shows "keeps st st'"
proof -
  obtain t w where st: "st = (t, w)" by fastforce
  obtain n w1 where send: "send_reply (rt_peer r) (reply_endpoint env r) d w = (n, w1)" by fastforce
  note quiet = send_reply_prims [OF send]
  have k: "keeps st (t, w1)" using quiet by (simp add: st keeps_def up_def)
  show ?thesis
  proof (cases "n = int (length d)")
    case True
    then show ?thesis using assms(1) send quiet by (auto simp: DeliverServerDatagram_def st keeps_def up_def)
  next
    case False
    then have "QueueReply (rt_peer r) (reply_endpoint env r) d (t, w1) = (ok, st')"
      using assms(1) send by (simp add: DeliverServerDatagram_def st Let_def)
    from QueueReply_keeps [OF this assms(2)] show ?thesis by (rule keeps_trans [OF k])
  qed
qed

lemma update_route_keeps:
  "(\<And>r. rt_quic r = None \<Longrightarrow> rt_quic (f r) = None) \<Longrightarrow> (\<And>r. rt_client (f r) = rt_client r \<and> rt_peer (f r) = rt_peer r) \<Longrightarrow>
   keeps st (update_route p f st)"
  by (cases st) (auto simp: update_route_def keeps_def task_ok_def up_def no_quic_def route_keys_def)

lemma update_route_state [simp]:
  "snd (update_route p f st) = snd st" "tk_pending (fst (update_route p f st)) = tk_pending (fst st)"
  "tk_upstreamState (fst (update_route p f st)) = tk_upstreamState (fst st)"
  by (cases st; simp add: update_route_def)+

lemma capture_keeps: "keeps st (capture_data p side d st)" "keeps st (capture_client p d st)"
proof -
  obtain t w where u: "update_route p (\<lambda>r. r\<lparr>rt_capture := True\<rparr>) st = (t, w)" by fastforce
  have "keeps st (t, w)" using update_route_keeps [of "\<lambda>r. r\<lparr>rt_capture := True\<rparr>" st p] u by simp
  moreover have "keeps (t, w) (t, emit (CaptureData p side d) w)" for side by (simp add: keeps_def up_def)
  ultimately have c: "keeps st (capture_data p side d st)" for side using keeps_trans u by (simp add: capture_data_def) blast
  then show "keeps st (capture_data p side d st)" .
  show "keeps st (capture_client p d st)" using c update_route_keeps [of "\<lambda>r. r\<lparr>rt_capture := False\<rparr>" st p] by (simp add: capture_client_def)
qed

text \<open>With a QUIC bridge the order is the bridge's; the invariant and the closing state are kept.\<close>

definition keeps_some :: "'q udp_state \<Rightarrow> 'q udp_state \<Rightarrow> bool" where
  "keeps_some st st' \<longleftrightarrow> (task_ok (fst st) \<longrightarrow> task_ok (fst st')) \<and>
     (tk_upstreamState (fst st) = UPSTREAM_CLOSING \<longrightarrow> tk_upstreamState (fst st') = UPSTREAM_CLOSING) \<and>
     route_keys (fst st') = route_keys (fst st)"

lemma keeps_some_trans: "keeps_some a b \<Longrightarrow> keeps_some b c \<Longrightarrow> keeps_some a c"
  by (simp add: keeps_some_def)

lemma keeps_someI: "keeps a b \<Longrightarrow> keeps_some a b" "keeps_with xs a b \<Longrightarrow> keeps_some a b"
  by (simp_all add: keeps_some_def keeps_def keeps_with_def)

lemma keeps_some_refl [simp]: "keeps_some st st"
  by (simp add: keeps_some_def)

lemma pump_step_keeps:
  assumes "find_route p (fst st) = Some r" and "rt_quic r = Some q" and "length d < 2 ^ 31"
    and "(if side = 1 then ForwardUpstreamDatagram env (rt_quicTarget r) d st else DeliverServerDatagram env r d st) = (ok, st')"
  shows "keeps_some st st'"
proof (cases "side = 1")
  case True
  then show ?thesis using assms(3,4) keeps_someI(2) [OF ForwardUpstream_with] by (metis (full_types))
next
  case False
  then show ?thesis using assms(3,4) keeps_someI(1) [OF Deliver_keeps] by (metis (full_types))
qed

lemma keeps_touch: "keeps st ((fst st)\<lparr>tk_lastActivity := x\<rparr>, if b then emit (TriggerWrite p) (snd st) else snd st)"
  by (simp add: keeps_def up_def task_ok_def no_quic_def route_keys_def)

lemma pump_side_keeps: "keeps_some st (pump_side env side p n st)"
proof (induction n arbitrary: st)
  case 0
  then show ?case by (simp add: keeps_someI)
next
  case (Suc n)
  show ?case
  proof (cases "\<exists>r q x xs. find_route p (fst st) = Some r \<and> rt_quic r = Some q \<and> take 65536 (ue_Peek env side q) = x # xs")
    case True
    then obtain r q x xs where r: "find_route p (fst st) = Some r" "rt_quic r = Some q" "take 65536 (ue_Peek env side q) = x # xs"
      by blast
    have "length (take 65536 (ue_Peek env side q)) \<le> 65536" by simp
    then have len: "length (x # xs) < 2 ^ 31" unfolding r(3) by simp
    obtain ok st1 where f: "(if side = 1 then ForwardUpstreamDatagram env (rt_quicTarget r) (x # xs) st
        else DeliverServerDatagram env r (x # xs) st) = (ok, st1)" by (meson surj_pair)
    have k1: "keeps_some st st1" by (rule pump_step_keeps [OF r(1,2) len f])
    let ?st2 = "if ue_Passthrough env q \<and> uw_tapEnabled (snd st1) then capture_data p 0 (x # xs) st1 else st1"
    let ?st3 = "update_route p (\<lambda>x. x\<lparr>rt_quic := map_option (ue_Consume env side) (rt_quic x)\<rparr>) ?st2"
    let ?st4 = "((fst ?st3)\<lparr>tk_lastActivity := uw_now (snd ?st3)\<rparr>, if n = 0 then emit (TriggerWrite p) (snd ?st3) else snd ?st3)"
    have "keeps st1 ?st2" by (simp add: capture_keeps)
    moreover have "keeps ?st2 ?st3" by (rule update_route_keeps) simp_all
    ultimately have "keeps st1 ?st3" by (rule keeps_trans)
    then have "keeps_some st1 ?st4" by (intro keeps_someI(1) keeps_trans [OF _ keeps_touch])
    then have "keeps_some st (pump_side env side p n ?st4)"
      using k1 Suc.IH keeps_some_trans by blast
    moreover have "pump_side env side p (Suc n) st = (if \<not> ok then st1 else pump_side env side p n ?st4)"
      using r f by (simp add: Let_def case_prod_beta)
    ultimately show ?thesis using k1 by (cases ok) simp_all
  next
    case False
    then have "pump_side env side p (Suc n) st = st" by (auto split: option.splits list.splits)
    then show ?thesis by (simp add: keeps_someI)
  qed
qed

lemma PumpQuic_keeps: "keeps_some st (PumpQuic env p st)"
proof -
  let ?st1 = "pump_side env 1 p 64 (pump_side env 0 p 64 st)"
  have k: "keeps_some st ?st1" using pump_side_keeps keeps_some_trans by blast
  have "keeps_some ?st1 (update_route p (\<lambda>x. x\<lparr>rt_quicRetired := b, rt_quic := None\<rparr>) ?st1)" for b
    by (intro keeps_someI update_route_keeps) simp_all
  then have "keeps_some st (update_route p (\<lambda>x. x\<lparr>rt_quicRetired := b, rt_quic := None\<rparr>) ?st1)" for b
    by (rule keeps_some_trans [OF k])
  then show ?thesis using k by (auto simp: PumpQuic_def Let_def split: option.split)
qed

lemma route_begin_keeps:
  "keeps (t, w) (update_route p (\<lambda>r. r\<lparr>rt_applicationEndpoint := a, rt_hasApplicationEndpoint := True\<rparr>)
     (t\<lparr>tk_lastActivity := x\<rparr>, w))"
  by (auto simp: update_route_def keeps_def task_ok_def up_def no_quic_def route_keys_def)

lemma forward_upstream_some: "length d < 2 ^ 31 \<Longrightarrow> keeps_some st (snd (ForwardUpstreamDatagram env target d st))"
  using ForwardUpstream_with [OF surjective_pairing] keeps_someI(2) by blast

lemma forward_first_keeps:
  "keeps_some st (snd (forward_first env p target d r st))"
  "ue_QuicOpen env = (\<lambda>_ _. None) \<Longrightarrow> \<not> fst (forward_first env p target d r st) \<and> keeps st (snd (forward_first env p target d r st))"
proof -
  let ?f = "\<lambda>x. x\<lparr>rt_firstDatagramLogged := True, rt_quicTarget := target, rt_quic := ue_QuicOpen env (rt_client r) d\<rparr>"
  have eq: "forward_first env p target d r st = (ue_QuicOpen env (rt_client r) d \<noteq> None,
      (fst (update_route p ?f st), emit (LogUdpFirstDatagram p) (snd st)))"
    by (cases st) (simp add: forward_first_def update_route_def)
  show "keeps_some st (snd (forward_first env p target d r st))"
    unfolding eq by (cases st) (simp add: update_route_def keeps_some_def task_ok_def route_keys_def)
  show "\<not> fst (forward_first env p target d r st) \<and> keeps st (snd (forward_first env p target d r st))"
    if "ue_QuicOpen env = (\<lambda>_ _. None)"
    unfolding eq using that by (cases st) (auto simp: update_route_def keeps_def task_ok_def up_def no_quic_def route_keys_def)
qed

lemma update_route_some:
  "(\<And>r. rt_client (f r) = rt_client r \<and> rt_peer (f r) = rt_peer r) \<Longrightarrow> keeps_some st (update_route p f st)"
  by (cases st) (simp add: update_route_def keeps_some_def task_ok_def route_keys_def)

lemma forward_on_route_some:
  assumes "forward_on_route env p target d r st = (res, st')" and "length d < 2 ^ 31"
  shows "keeps_some st st'"
proof -
  let ?st = "if rt_quicRetired r then update_route p (\<lambda>x. x\<lparr>rt_quicRetired := False, rt_firstDatagramLogged := False\<rparr>) st else st"
  have k: "keeps_some st ?st" by (simp add: update_route_some)
  show ?thesis
  proof (cases "rt_quicRetired r \<and> (length d < 1200 \<or> \<not> fresh_initial d)")
    case live: False
    show ?thesis
    proof (cases "rt_quic r")
      case (Some q)
      obtain kept q' where f: "ue_Feed env 0 d q = (kept, q')" by fastforce
      let ?st1 = "PumpQuic env p (update_route p (\<lambda>x. x\<lparr>rt_quic := Some q'\<rparr>) ?st)"
      have k1: "keeps_some st ?st1" by (rule keeps_some_trans [OF keeps_some_trans [OF k update_route_some] PumpQuic_keeps]) simp
      moreover have "keeps_some st (snd (ForwardUpstreamDatagram env target d ?st1))"
        using keeps_some_trans [OF k1 forward_upstream_some [OF assms(2)]] .
      moreover have "st' = (if kept then ?st1 else snd (ForwardUpstreamDatagram env target d ?st1))"
        using assms(1) live by (auto simp: forward_on_route_def Some f Let_def map_prod_def case_prod_beta split: if_splits)
      ultimately show ?thesis by (cases kept) simp_all
    next
      case None
      let ?o = "if rt_quicRetired r \<or> \<not> rt_firstDatagramLogged r then forward_first env p target d r ?st else (False, ?st)"
      have k1: "keeps_some st (snd ?o)" using keeps_some_trans [OF k forward_first_keeps(1)] k by simp
      have "keeps_some st (PumpQuic env p (snd ?o))" "keeps_some st (capture_client p d (snd ?o))"
        using keeps_some_trans [OF k1 PumpQuic_keeps] keeps_some_trans [OF k1 keeps_someI(1) [OF capture_keeps(2)]] .
      moreover have "st' = (if fst ?o then PumpQuic env p (snd ?o) else capture_client p d (snd ?o))"
        using assms(1) live by (auto simp: forward_on_route_def None Let_def case_prod_beta split: if_splits)
      ultimately show ?thesis by (cases "fst ?o") simp_all
    qed
  qed (use assms(1) in \<open>simp add: forward_on_route_def\<close>)
qed

lemma ForwardClient_some:
  assumes "length d < 2 ^ 31"
  shows "keeps_some st (snd (ForwardClientDatagram env p target a (Some d) st))"
proof -
  obtain t w where st: "st = (t, w)" by fastforce
  let ?st1 = "update_route p (\<lambda>r. r\<lparr>rt_applicationEndpoint := a, rt_hasApplicationEndpoint := True\<rparr>) (t\<lparr>tk_lastActivity := uw_now w\<rparr>, w)"
  let ?st2 = "if has_quic p ?st1 then PumpQuic env p ?st1 else ?st1"
  have "keeps_some st ?st1" using keeps_someI(1) [OF route_begin_keeps] st by simp
  then have k: "keeps_some st ?st2" using keeps_some_trans [OF _ PumpQuic_keeps, of st ?st1] by simp
  note up = keeps_some_trans [OF k forward_upstream_some [OF assms]]
  show ?thesis
  proof (cases "find_route p (fst ?st2)")
    case None
    then show ?thesis using up by (simp add: ForwardClientDatagram_def st Let_def)
  next
    case (Some r)
    obtain res st3 where f: "forward_on_route env p target d r ?st2 = (res, st3)" by (meson surj_pair)
    have k3: "keeps_some st st3" using keeps_some_trans [OF k forward_on_route_some [OF f assms]] .
    have "snd (ForwardClientDatagram env p target a (Some d) st) =
        (case res of Some b \<Rightarrow> st3 | None \<Rightarrow> snd (ForwardUpstreamDatagram env target d st3))"
      using Some f by (simp add: ForwardClientDatagram_def st Let_def split: option.split)
    then show ?thesis using k3 keeps_some_trans [OF k3 forward_upstream_some [OF assms]] by (simp split: option.split)
  qed
qed

lemma no_quic_find: "no_quic t \<Longrightarrow> find_route p t = Some r \<Longrightarrow> rt_quic r = None"
  by (auto simp: no_quic_def route_keys_def find_route_def find_Some_iff)

lemma forward_on_route_order:
  assumes "forward_on_route env p target d r st = (res, st')" and "rt_quic r = None" and "ue_QuicOpen env = (\<lambda>_ _. None)"
  shows "keeps st st'"
proof -
  let ?st = "if rt_quicRetired r then update_route p (\<lambda>x. x\<lparr>rt_quicRetired := False, rt_firstDatagramLogged := False\<rparr>) st else st"
  define os where "os = (if rt_quicRetired r \<or> \<not> rt_firstDatagramLogged r then forward_first env p target d r ?st else (False, ?st))"
  have k: "keeps st ?st" by (simp add: update_route_keeps)
  then have "\<not> fst os \<and> keeps st (snd os)"
    using forward_first_keeps(2) [OF assms(3), of p target d r ?st] keeps_trans [OF k] by (simp add: os_def split: if_split)
  moreover from this have "keeps st (capture_client p d (snd os))" using keeps_trans [OF _ capture_keeps(2)] by blast
  moreover have "st' = (if rt_quicRetired r \<and> (length d < 1200 \<or> \<not> fresh_initial d) then st
      else if fst os then PumpQuic env p (snd os) else capture_client p d (snd os))"
    using assms(1,2) by (auto simp: os_def forward_on_route_def Let_def case_prod_beta split: if_splits)
  ultimately show ?thesis by (cases "rt_quicRetired r \<and> (length d < 1200 \<or> \<not> fresh_initial d)") simp_all
qed

lemma ForwardClient_order:
  assumes "length d < 2 ^ 31" and "ue_QuicOpen env = (\<lambda>_ _. None)" and "no_quic (fst st)"
  shows "keeps_with [(target, d)] st (snd (ForwardClientDatagram env p target a (Some d) st))"
proof -
  obtain t w where st: "st = (t, w)" by fastforce
  let ?st1 = "update_route p (\<lambda>r. r\<lparr>rt_applicationEndpoint := a, rt_hasApplicationEndpoint := True\<rparr>) (t\<lparr>tk_lastActivity := uw_now w\<rparr>, w)"
  have k: "keeps st ?st1" using route_begin_keeps st by simp
  then have nq: "no_quic (fst ?st1)" using assms(3) by (simp add: keeps_def)
  then have "\<not> has_quic p ?st1" using no_quic_find by (auto simp: has_quic_def split: option.splits)
  then have eq: "ForwardClientDatagram env p target a (Some d) st = (case find_route p (fst ?st1) of
      None \<Rightarrow> ForwardUpstreamDatagram env target d ?st1
    | Some r \<Rightarrow> (case forward_on_route env p target d r ?st1 of (Some result, st) \<Rightarrow> (result, st)
        | (None, st) \<Rightarrow> ForwardUpstreamDatagram env target d st))"
    by (simp add: ForwardClientDatagram_def st Let_def)
  have up: "keeps_with [(target, d)] x (snd (ForwardUpstreamDatagram env target d x))" for x :: "'a udp_state"
    using ForwardUpstream_with [OF surjective_pairing assms(1)] .
  show ?thesis
  proof (cases "find_route p (fst ?st1)")
    case None
    then show ?thesis using keeps_keeps_with [OF k up] by (simp add: eq)
  next
    case (Some r)
    obtain res st3 where f: "forward_on_route env p target d r ?st1 = (res, st3)" by (meson surj_pair)
    have k3: "keeps st st3"
      using keeps_trans [OF k forward_on_route_order [OF f no_quic_find [OF nq Some] assms(2)]] .
    then show ?thesis using keeps_keeps_with [OF k3 up] keeps_imp_with [OF k3] Some f by (simp add: eq split: option.split)
  qed
qed

end
