(* ===== verification/UdpRuns.thy ===== *)
theory UdpRuns
  imports UdpQueues
begin

text \<open>
  Whole runs of a UDP task: every input keeps the invariant of \<open>UdpQueues\<close>, so the bounds hold
  after any sequence of socket events, timers, new routes and changes of the environment, and
  the datagrams reach the upstream in the order in which the application sent them. Then the
  activation by the first datagram, the reconnect delay, dormancy and the choice of the route
  of a reply.
\<close>

section \<open>The route of a reply\<close>

definition route_usable :: "UdpWorld \<Rightarrow> sockaddr \<Rightarrow> 'q UdpRoute \<Rightarrow> bool" where
  "route_usable w source r \<longleftrightarrow>
     peer_open w (rt_peer r) \<and> sa_GetPort (GetProxyDestination (rt_client r)) = sa_GetPort source"

definition route_literal :: "UdpWorld \<Rightarrow> sockaddr \<Rightarrow> 'q UdpRoute \<Rightarrow> bool" where
  "route_literal w source r \<longleftrightarrow> route_usable w source r \<and> \<not> IsDNValid (rt_client r) \<and>
     sa_SameAddress (GetProxyDestination (rt_client r)) source"

definition route_named :: "UdpWorld \<Rightarrow> sockaddr \<Rightarrow> 'q UdpRoute \<Rightarrow> bool" where
  "route_named w source r \<longleftrightarrow> route_usable w source r \<and> IsDNValid (rt_client r)"

text \<open>The choice as a specification: the first literal match, else the only named one, else the only route.\<close>

definition reply_route :: "UdpWorld \<Rightarrow> sockaddr \<Rightarrow> 'q UdpRoute list \<Rightarrow> 'q UdpRoute option" where
  "reply_route w source rs =
     (case find (route_literal w source) rs of Some r \<Rightarrow> Some r
      | None \<Rightarrow>
        (case filter (route_named w source) rs of
           [] \<Rightarrow> (case rs of [r] \<Rightarrow> if peer_open w (rt_peer r) then Some r else None | _ \<Rightarrow> None)
         | [r] \<Rightarrow> Some r
         | _ \<Rightarrow> None))"

lemma scan_routes_Cons:
  "scan_routes w source (r # rs) cand n =
     (if route_literal w source r then (Some r, cand, n)
      else if route_named w source r then scan_routes w source rs (Some r) (Suc n)
      else scan_routes w source rs cand n)"
  unfolding scan_routes.simps Let_def route_literal_def route_named_def route_usable_def by simp

declare scan_routes.simps(2) [simp del]

lemma scan_routes_spec:
  "scan_routes w source rs cand n =
     (case find (route_literal w source) rs of
        Some r \<Rightarrow> (Some r, snd (scan_routes w source rs cand n))
      | None \<Rightarrow> (None, if filter (route_named w source) rs = [] then cand else Some (last (filter (route_named w source) rs)),
          n + length (filter (route_named w source) rs)))"
proof (induction rs arbitrary: cand n)
  case (Cons r rs)
  show ?case
  proof (cases "route_literal w source r")
    case True
    then show ?thesis by (simp add: scan_routes_Cons)
  next
    case False
    then show ?thesis
      using Cons.IH [of cand n] Cons.IH [of "Some r" "Suc n"]
      by (simp add: scan_routes_Cons split: option.splits)
  qed
qed simp

lemma select_route_spec: "select_route w source rs = reply_route w source rs"
proof (cases "find (route_literal w source) rs")
  case (Some r)
  then have "fst (scan_routes w source rs None 0) = Some r" using scan_routes_spec [of w source rs None 0] by (metis fst_conv option.simps(5))
  then show ?thesis using Some unfolding select_route_def reply_route_def by (cases "scan_routes w source rs None 0") simp
next
  case None
  define ns where "ns = filter (route_named w source) rs"
  have "scan_routes w source rs None 0 = (None, if ns = [] then None else Some (last ns), length ns)"
    using scan_routes_spec [of w source rs None 0] None by (simp add: ns_def)
  then have "select_route w source rs = (if length ns = 1 then Some (last ns)
      else if ns = [] \<and> length rs = 1 \<and> peer_open w (rt_peer (hd rs)) then Some (hd rs) else None)"
    unfolding select_route_def by (cases ns) simp_all
  moreover have "reply_route w source rs = (case ns of
       [] \<Rightarrow> (case rs of [r] \<Rightarrow> if peer_open w (rt_peer r) then Some r else None | _ \<Rightarrow> None)
     | [r] \<Rightarrow> Some r | _ \<Rightarrow> None)"
    unfolding reply_route_def None ns_def [symmetric] by simp
  ultimately show ?thesis by (simp split: list.split)
qed

lemma reply_route_in:
  assumes "reply_route w source rs = Some r"
  shows "r \<in> set rs \<and> peer_open w (rt_peer r)"
proof (cases "find (route_literal w source) rs")
  case (Some x)
  then have "x \<in> set rs \<and> route_literal w source x" by (metis find_Some_iff nth_mem)
  then show ?thesis using assms Some unfolding reply_route_def route_literal_def route_usable_def by simp
next
  case None
  define ns where "ns = filter (route_named w source) rs"
  have sub: "x \<in> set rs \<and> peer_open w (rt_peer x)" if "x \<in> set ns" for x
    using that unfolding ns_def route_named_def route_usable_def by simp
  from assms None have r: "(case ns of
       [] \<Rightarrow> (case rs of [r] \<Rightarrow> if peer_open w (rt_peer r) then Some r else None | _ \<Rightarrow> None)
     | [r] \<Rightarrow> Some r | _ \<Rightarrow> None) = Some r"
    unfolding reply_route_def ns_def [symmetric] by simp
  show ?thesis
  proof (cases ns)
    case Nil
    then show ?thesis using r by (simp split: list.splits if_splits)
  next
    case (Cons x xs)
    then show ?thesis using r sub [of x] by (simp split: list.splits)
  qed
qed

section \<open>The inputs\<close>

lemma ForwardServer_keeps:
  assumes "length d < 2 ^ 31"
  shows "keeps_some st (snd (ForwardServerDatagram env a (Some d) st)) \<and>
    (no_quic (fst st) \<longrightarrow> keeps st (snd (ForwardServerDatagram env a (Some d) st)))"
proof -
  obtain t w where st: "st = (t, w)" by fastforce
  show ?thesis
  proof (cases "select_route w a (tk_routes t)")
    case None
    then show ?thesis by (simp add: ForwardServerDatagram_def st)
  next
    case (Some r)
    let ?st1 = "(t\<lparr>tk_lastActivity := uw_now w\<rparr>, w)"
    have k: "keeps st ?st1" by (simp add: st keeps_def task_ok_def up_def no_quic_def route_keys_def)
    show ?thesis
    proof (cases "rt_quic r")
      case q: (Some q)
      have "r \<in> set (tk_routes t)" using Some reply_route_in by (auto simp: select_route_spec)
      then have "\<not> no_quic t" using q by (auto simp: no_quic_def)
      moreover have "keeps_some st (PumpQuic env (rt_peer r) (update_route (rt_peer r) (\<lambda>x. x\<lparr>rt_quic := Some (snd (ue_Feed env 1 d q))\<rparr>) ?st1))"
        by (rule keeps_some_trans [OF keeps_some_trans [OF keeps_someI(1) [OF k] update_route_some] PumpQuic_keeps]) simp
      ultimately show ?thesis using Some q by (simp add: ForwardServerDatagram_def st Let_def)
    next
      case None
      let ?st2 = "if \<not> uw_tapEnabled w then update_route (rt_peer r) (\<lambda>x. x\<lparr>rt_capture := False\<rparr>) ?st1
        else if rt_capture r then (fst ?st1, emit (CaptureData (rt_peer r) 1 d) (snd ?st1)) else ?st1"
      have "keeps ?st1 (update_route (rt_peer r) (\<lambda>x. x\<lparr>rt_capture := False\<rparr>) ?st1)"
        by (rule update_route_keeps) simp_all
      moreover have "keeps ?st1 (fst ?st1, emit (CaptureData (rt_peer r) 1 d) (snd ?st1))"
        by (simp add: keeps_def up_def)
      ultimately have "keeps ?st1 ?st2" by simp
      then have k2: "keeps st ?st2" by (rule keeps_trans [OF k])
      have k3: "keeps st (snd (DeliverServerDatagram env r d ?st2))"
        by (rule keeps_trans [OF k2 Deliver_keeps [OF surjective_pairing assms]])
      have "keeps st (snd (ForwardServerDatagram env a (Some d) st))"
        using Some None k k3 by (simp add: ForwardServerDatagram_def st Let_def)
      then show ?thesis using keeps_someI(1) by blast
    qed
  qed
qed

lemma OnRouteWritable_keeps:
  "keeps_some st (OnRouteWritable env p st)" "no_quic (fst st) \<Longrightarrow> keeps st (OnRouteWritable env p st)"
proof -
  have k: "keeps st (FlushPendingReplies (Some p) st)" by (rule keeps_FlushReplies)
  then show "keeps_some st (OnRouteWritable env p st)"
    using keeps_some_trans [OF keeps_someI(1) [OF k] PumpQuic_keeps] keeps_someI(1) [OF k]
    by (simp add: OnRouteWritable_def Let_def)
  show "keeps st (OnRouteWritable env p st)" if "no_quic (fst st)"
  proof -
    have "\<not> has_quic p (FlushPendingReplies (Some p) st)"
      using k that no_quic_find by (auto simp: keeps_def has_quic_def split: option.splits)
    then show ?thesis using k by (simp add: OnRouteWritable_def Let_def)
  qed
qed

lemma keeps_peer_close: "keeps (t, w) (t, Peer_Close p w)"
  by (simp add: keeps_def up_def)

lemma Peer_OnClose_keeps: "keeps st (Peer_OnClose p e st)"
  unfolding Peer_OnClose_def
  using keeps_trans [OF keeps_peer_close [of "fst st" "snd st" p] keeps_OnPeerClosed [of _ p e]] by simp

lemma Peer_OnConnect_keeps: "keeps st (Peer_OnConnect env p e st)"
  by (simp add: Peer_OnConnect_def Peer_OnClose_keeps keeps_OnServerReady split: option.split)

lemma received_length: "received res = Some (d, a) \<Longrightarrow> length d < 2 ^ 31"
  by (cases res) auto

section \<open>New routes\<close>

definition same_flow :: "'q UdpTask \<Rightarrow> 'q UdpTask \<Rightarrow> bool" where
  "same_flow t t' \<longleftrightarrow> tk_pending t' = tk_pending t \<and> tk_pendingBytes t' = tk_pendingBytes t \<and>
     tk_pendingReplies t' = tk_pendingReplies t \<and> tk_pendingReplyBytes t' = tk_pendingReplyBytes t \<and>
     tk_pServer t' = tk_pServer t \<and> tk_upstreamState t' = tk_upstreamState t \<and>
     tk_serverReconnectDelay t' = tk_serverReconnectDelay t"

lemma same_flow_ok: "same_flow t t' \<Longrightarrow> task_ok t' = task_ok t"
  by (simp add: same_flow_def task_ok_def)

lemma GetUdpDestination_udpAddr [simp]: "GetUdpDestination (c\<lparr>udpAddr := a\<rparr>) = GetUdpDestination c"
  by (simp add: GetUdpDestination_def)

lemma open_route_cases:
  assumes "open_route env c (t, w) = (ok, c', t', w')"
  shows "same_flow t t' \<and> uw_events w' = uw_events w \<and>
    (tk_routes t' = tk_routes t \<or>
     (\<exists>r. tk_routes t' = tk_routes t @ [r] \<and> GetUdpDestination (rt_client r) = GetUdpDestination c \<and> rt_quic r = None))"
proof -
  obtain p w1 where n: "new_peer (Suc 0) (tk_pServer t) (SetAddrInfo env (route_info c)) w = (p, w1)" by fastforce
  have w1: "uw_events w1 = uw_events w" using new_peer_prims(1) n by (metis snd_conv)
  show ?thesis
  proof (cases "uw_bindScript w1")
    case Nil
    then show ?thesis using assms w1 by (auto simp: open_route_def n same_flow_def)
  next
    case (Cons b bs)
    then show ?thesis using assms w1
      by (cases b) (auto simp: open_route_def n same_flow_def Let_def split: option.split)
  qed
qed

definition dest_apart :: "PRCClient \<Rightarrow> PRCClient \<Rightarrow> bool" where
  "dest_apart a b \<longleftrightarrow> \<not> IsSameDestination (GetUdpDestination a) (GetUdpDestination b) \<and>
     CanShareAssociation (GetUdpDestination a) (GetUdpDestination b)"

lemma dest_apart_sym: "dest_apart a b \<Longrightarrow> dest_apart b a"
  using IsSameDestination_sym CanShareAssociation_sym by (auto simp: dest_apart_def)

lemma dest_apart_cong:
  assumes "IsSameDestination (GetUdpDestination a) (GetUdpDestination b)" and "dest_apart a x"
  shows "dest_apart b x"
proof -
  have "\<not> IsSameDestination (GetUdpDestination b) (GetUdpDestination x)"
    using assms IsSameDestination_trans by (auto simp: dest_apart_def)
  moreover have "d_port (GetUdpDestination a) = d_port (GetUdpDestination b)" "d_hasDomain (GetUdpDestination a) = d_hasDomain (GetUdpDestination b)"
    using assms(1) by (auto simp: IsSameDestination_def split: if_splits)
  ultimately show ?thesis using assms(2) by (auto simp: dest_apart_def CanShareAssociation_def)
qed

definition routes_apart :: "'q UdpTask \<Rightarrow> bool" where
  "routes_apart t \<longleftrightarrow> sorted_wrt dest_apart (map rt_client (tk_routes t))"

lemma AddRoute_cases:
  assumes "AddRoute env c (t, w) = (ok, c', t', w')"
  shows "same_flow t t' \<and> uw_events w' = uw_events w \<and> (no_quic t \<longrightarrow> no_quic t') \<and>
    (HasRoute c t \<or> CanAcceptRoute c t \<longrightarrow> routes_apart t \<longrightarrow> routes_apart t')"
proof (cases "route_of (GetUdpDestination c) (tk_routes t)")
  case None
  then have "open_route env c (t, w) = (ok, c', t', w')" using assms by (simp add: AddRoute_def)
  note o = open_route_cases [OF this]
  have "dest_apart x c" if "CanAcceptRoute c t" "x \<in> rt_client ` set (tk_routes t)" for x
    using that None by (auto simp: dest_apart_def CanAcceptRoute_def route_of_def find_None_iff list_all_iff)
  moreover have "\<not> HasRoute c t" using None by (simp add: HasRoute_def)
  moreover have "dest_apart x c \<Longrightarrow> GetUdpDestination y = GetUdpDestination c \<Longrightarrow> dest_apart x y" for x y
    by (simp add: dest_apart_def)
  ultimately show ?thesis using o by (auto simp: routes_apart_def sorted_wrt_append no_quic_def)
next
  case (Some r)
  let ?P = "\<lambda>x. IsSameDestination (GetUdpDestination (rt_client x)) (GetUdpDestination c)"
  let ?Q = "\<lambda>x. IsSameDestination (GetUdpDestination x) (GetUdpDestination c)"
  have r: "r \<in> set (tk_routes t)" "?P r"
    using Some find_Some_iff [of ?P "tk_routes t" r] nth_mem by (auto simp: route_of_def)
  show ?thesis
  proof (cases "peer_open w (rt_peer r)")
    case True
    let ?c = "c\<lparr>udpAddr := udpAddr (rt_client r)\<rparr>"
    have t': "t' = t\<lparr>tk_routes := map_first ?P (\<lambda>x. x\<lparr>rt_client := ?c\<rparr>) (tk_routes t)\<rparr>" "w' = w"
      using assms Some True by (auto simp: AddRoute_def)
    have cl: "map rt_client (map_first ?P (\<lambda>x. x\<lparr>rt_client := ?c\<rparr>) rs) = map_first ?Q (\<lambda>_. ?c) (map rt_client rs)"
      for rs :: "'a UdpRoute list" by (induction rs) simp_all
    have "sorted_wrt dest_apart (map_first ?Q (\<lambda>_. ?c) (map rt_client (tk_routes t)))" if "routes_apart t"
    proof (rule sorted_wrt_map_first)
      show "sorted_wrt dest_apart (map rt_client (tk_routes t))" using that by (simp add: routes_apart_def)
      show "dest_apart ?c y" if "?Q x" "dest_apart x y" for x y
        using dest_apart_cong [of x ?c y] that by simp
      show "dest_apart y ?c" if "?Q x" "dest_apart y x" for x y
        using dest_apart_cong [of x ?c y] that dest_apart_sym by simp
    qed
    then show ?thesis
      using t' cl set_map_first [of _ ?P "\<lambda>x. x\<lparr>rt_client := ?c\<rparr>" "tk_routes t"]
      by (fastforce simp: same_flow_def no_quic_def routes_apart_def)
  next
    case False
    let ?t = "t\<lparr>tk_routes := remove_first ?P (tk_routes t)\<rparr>"
    have "open_route env c (?t, delete_peer (rt_peer r) w) = (ok, c', t', w')" using assms Some False by (simp add: AddRoute_def)
    note o = open_route_cases [OF this]
    have cl: "map rt_client (remove_first ?P rs) = remove_first ?Q (map rt_client rs)" for rs :: "'a UdpRoute list"
      by (induction rs) simp_all
    have apart: "sorted_wrt dest_apart (remove_first ?Q (map rt_client (tk_routes t)))" if "routes_apart t"
      using that sorted_wrt_remove_first by (simp add: routes_apart_def)
    have rf: "dest_apart x c" if "sorted_wrt dest_apart xs" "x \<in> set (remove_first ?Q xs)" "\<exists>y \<in> set xs. ?Q y" for x xs
      using that
    proof (induction xs)
      case (Cons z zs)
      then show ?case
        using dest_apart_cong [of z c x] dest_apart_sym dest_apart_cong set_remove_first [of x ?Q zs]
        by (auto split: if_splits)
    qed simp
    have new: "dest_apart x c" if "routes_apart t" "x \<in> set (remove_first ?Q (map rt_client (tk_routes t)))" for x
      using that r unfolding routes_apart_def by (intro rf [of "map rt_client (tk_routes t)"]) auto
    have "dest_apart x c \<Longrightarrow> GetUdpDestination y = GetUdpDestination c \<Longrightarrow> dest_apart x y" for x y
      by (simp add: dest_apart_def)
    then show ?thesis
      using o apart new set_remove_first [of _ ?P "tk_routes t"] unfolding routes_apart_def
      by (auto simp: same_flow_def no_quic_def sorted_wrt_append cl)
  qed
qed

section \<open>Steps and runs\<close>

text \<open>The datagram an input takes from the application: the target of its route and the bytes.\<close>

fun handed_over :: "udp_input \<Rightarrow> 'q udp_state \<Rightarrow> (CSAddrInfo \<times> bytes) list" where
  "handed_over (UdpReceive p e res) st =
     (case (uw_peers (snd st) p, received res) of
        (Some pe, Some (d, a)) \<Rightarrow> if e = 0 \<and> pe_identity pe = 1 then [(pe_info pe, d)] else []
      | _ \<Rightarrow> [])"
| "handed_over _ st = []"

fun handed_run :: "'q UdpEnv \<Rightarrow> udp_input list \<Rightarrow> 'q udp_state \<Rightarrow> (CSAddrInfo \<times> bytes) list" where
  "handed_run env [] st = []"
| "handed_run env (i # is) st = handed_over i st @ handed_run env is (udp_step env i st)"

lemma step_receive:
  "keeps_some st (Peer_OnReceive env p e res st)"
  "ue_QuicOpen env = (\<lambda>_ _. None) \<Longrightarrow> no_quic (fst st) \<Longrightarrow>
   keeps_with (handed_over (UdpReceive p e res) st) st (Peer_OnReceive env p e res st)"
proof -
  consider "e \<noteq> 0 \<or> uw_peers (snd st) p = None \<or> received res = None"
    | pe d a where "e = 0" "uw_peers (snd st) p = Some pe" "received res = Some (d, a)"
    by fastforce
  note c = this
  show "keeps_some st (Peer_OnReceive env p e res st)"
  proof (cases rule: c)
    case 1
    then show ?thesis by (auto simp: Peer_OnReceive_def split: option.split)
  next
    case 2
    then show ?thesis
      using ForwardClient_some [OF received_length [OF 2(3)], of st] ForwardServer_keeps [OF received_length [OF 2(3)], of st]
      by (simp add: Peer_OnReceive_def)
  qed
  show "keeps_with (handed_over (UdpReceive p e res) st) st (Peer_OnReceive env p e res st)"
    if "ue_QuicOpen env = (\<lambda>_ _. None)" "no_quic (fst st)"
  proof (cases rule: c)
    case 1
    then show ?thesis by (auto simp: Peer_OnReceive_def intro!: keeps_imp_with split: option.split)
  next
    case 2
    then show ?thesis
      using ForwardClient_order [OF received_length [OF 2(3)] that] ForwardServer_keeps [OF received_length [OF 2(3)], of st] that
      by (auto simp: Peer_OnReceive_def intro!: keeps_imp_with)
  qed
qed

lemma step_new_route:
  assumes "st' = udp_step env (UdpNewRoute c) st"
  shows "same_flow (fst st) (fst st') \<and> uw_events (snd st') = uw_events (snd st) \<and> (no_quic (fst st) \<longrightarrow> no_quic (fst st')) \<and>
    (routes_apart (fst st) \<longrightarrow> routes_apart (fst st'))"
proof -
  obtain t w where st: "st = (t, w)" by fastforce
  obtain ok c' t' w' where a: "AddRoute env c (t, w) = (ok, c', t', w')" using prod_cases4 by blast
  show ?thesis using AddRoute_cases [OF a] assms by (auto simp: st a same_flow_def)
qed

lemma keys_routes_apart: "route_keys t' = route_keys t \<Longrightarrow> routes_apart t' = routes_apart t"
proof -
  assume "route_keys t' = route_keys t"
  then have "map fst (route_keys t') = map fst (route_keys t)" by simp
  then show ?thesis by (simp add: routes_apart_def route_keys_def comp_def)
qed

lemma other_steps:
  assumes "\<nexists>p e res. i = UdpReceive p e res" and "\<nexists>c. i = UdpNewRoute c"
  shows "keeps_some st (udp_step env i st)" "no_quic (fst st) \<Longrightarrow> keeps st (udp_step env i st)"
proof -
  have env: "keeps st (udp_step env (UdpEnvironment n a b c d) st)" for n a b c d by (simp add: keeps_def up_def)
  have send: "keeps_some st (Peer_OnSend env p e st)" "no_quic (fst st) \<Longrightarrow> keeps st (Peer_OnSend env p e st)" for p e
    by (simp_all add: Peer_OnSend_def OnRouteWritable_keeps keeps_OnServerWritable keeps_someI(1) split: option.split)
  show "keeps_some st (udp_step env i st)"
    using assms env send(1) by (cases i)
      (simp_all add: keeps_someI(1) Peer_OnConnect_keeps Peer_OnClose_keeps keeps_OnMaintenanceTimer keeps_CloseTask)
  show "keeps st (udp_step env i st)" if "no_quic (fst st)"
    using assms env send(2) [OF that] by (cases i)
      (simp_all add: Peer_OnConnect_keeps Peer_OnClose_keeps keeps_OnMaintenanceTimer keeps_CloseTask)
qed

lemma step_ok:
  "(task_ok (fst st) \<longrightarrow> task_ok (fst (udp_step env i st))) \<and> (routes_apart (fst st) \<longrightarrow> routes_apart (fst (udp_step env i st))) \<and>
   (tk_upstreamState (fst st) = UPSTREAM_CLOSING \<longrightarrow> tk_upstreamState (fst (udp_step env i st)) = UPSTREAM_CLOSING)"
proof (cases "\<exists>c. i = UdpNewRoute c")
  case True
  then obtain c where i: "i = UdpNewRoute c" ..
  note n = step_new_route [where env = env and c = c and st = st, OF refl, folded i]
  have "task_ok (fst (udp_step env i st)) = task_ok (fst st)" using n same_flow_ok by blast
  moreover have "tk_upstreamState (fst (udp_step env i st)) = tk_upstreamState (fst st)" using n unfolding same_flow_def by blast
  ultimately show ?thesis using n by metis
next
  case False
  then have "keeps_some st (udp_step env i st)"
    using other_steps(1) [of i st env] step_receive(1) [of st env] by (cases i) auto
  then show ?thesis using keys_routes_apart by (auto simp: keeps_some_def)
qed

lemma step_order:
  assumes "ue_QuicOpen env = (\<lambda>_ _. None)" and "no_quic (fst st)"
  shows "subseq (up (udp_step env i st)) (up st @ handed_over i st) \<and> no_quic (fst (udp_step env i st))"
proof (cases "\<exists>c. i = UdpNewRoute c")
  case True
  then obtain c where "i = UdpNewRoute c" ..
  then show ?thesis using step_new_route [where env = env and c = c and st = st, OF refl] assms by (simp add: same_flow_def up_def)
next
  case new: False
  show ?thesis
  proof (cases "\<exists>p e res. i = UdpReceive p e res")
    case True
    then show ?thesis using step_receive(2) [OF assms] assms(2) by (auto simp: keeps_with_def)
  next
    case False
    then have "keeps st (udp_step env i st)" "handed_over i st = []"
      using other_steps(2) [of i st env] assms(2) new by (simp, cases i, simp_all)
    then show ?thesis using assms(2) by (simp add: keeps_def)
  qed
qed

lemma run_ok:
  "(task_ok (fst st) \<longrightarrow> task_ok (fst (udp_run env is st))) \<and> (routes_apart (fst st) \<longrightarrow> routes_apart (fst (udp_run env is st))) \<and>
   (tk_upstreamState (fst st) = UPSTREAM_CLOSING \<longrightarrow> tk_upstreamState (fst (udp_run env is st)) = UPSTREAM_CLOSING)"
proof (induction "is" arbitrary: st)
  case Nil
  then show ?case by (simp add: udp_run_def)
next
  case (Cons i "is")
  have "udp_run env (i # is) st = udp_run env is (udp_step env i st)" by (simp add: udp_run_def)
  then show ?case using Cons.IH [of "udp_step env i st"] step_ok [of st env i] by metis
qed

lemma run_order:
  assumes "ue_QuicOpen env = (\<lambda>_ _. None)" and "no_quic (fst st)"
  shows "subseq (up (udp_run env is st)) (up st @ handed_run env is st)"
  using assms(2)
proof (induction "is" arbitrary: st)
  case Nil
  then show ?case by (simp add: udp_run_def)
next
  case (Cons i "is")
  let ?st = "udp_step env i st"
  note s = step_order [OF assms(1) Cons.prems, of i]
  have "subseq (up ?st @ handed_run env is ?st) ((up st @ handed_over i st) @ handed_run env is ?st)"
    using s by (simp add: list_emb_append_mono del: append_assoc)
  moreover have "subseq (up (udp_run env is ?st)) (up ?st @ handed_run env is ?st)" using Cons.IH s by blast
  ultimately have "subseq (up (udp_run env is ?st)) ((up st @ handed_over i st) @ handed_run env is ?st)"
    by (rule subseq_order.order_trans [rotated])
  then show ?case by (simp add: udp_run_def)
qed

text \<open>A new task: constructed, then given its first route.\<close>

definition udp_start :: "'q UdpEnv \<Rightarrow> PRCClient \<Rightarrow> ProxyInfo \<Rightarrow> UdpWorld \<Rightarrow> 'q udp_state" where
  "udp_start env c pi w = snd (snd (SetTaskInfo env c pi (UdpTask_new (uw_now w), w)))"

lemma udp_start_ok:
  "task_ok (fst (udp_start env c pi w)) \<and> routes_apart (fst (udp_start env c pi w)) \<and> no_quic (fst (udp_start env c pi w)) \<and>
   up (udp_start env c pi w) = upstream_log (uw_events w)"
proof -
  let ?t = "(UdpTask_new (uw_now w))\<lparr>tk_PRCClient := c, tk_ProxyInfo := pi\<rparr>"
  obtain ok c' t' w' where a: "AddRoute env c (?t, w) = (ok, c', t', w')" using prod_cases4 by blast
  have new: "CanAcceptRoute c ?t" "routes_apart ?t" "no_quic ?t"
    by (simp_all add: CanAcceptRoute_def routes_apart_def no_quic_def UdpTask_new_def)
  note n = AddRoute_cases [OF a]
  have "udp_start env c pi w = (if ok then (t'\<lparr>tk_upstreamState := UPSTREAM_ROUTE_RESERVED\<rparr>, w')
      else (t'\<lparr>tk_pServer := None\<rparr>, case tk_pServer t' of None \<Rightarrow> w' | Some s \<Rightarrow> delete_peer s w'))"
    by (simp add: udp_start_def SetTaskInfo_def a)
  moreover have "same_flow ?t t'" "uw_events w' = uw_events w" "no_quic t'" "routes_apart t'" using n new by blast+
  ultimately show ?thesis
    by (auto simp: same_flow_def UdpTask_new_def task_ok_def up_def no_quic_def routes_apart_def ShouldActivateUpstream_def)
qed

section \<open>Properties of runs\<close>

text \<open>
  C29. Bounded queues: after any run of a UDP task, whatever the sockets, the timer, the QUIC
  bridge and the clock did, each of the two queues holds at most 128 packets and 1 MiB, its byte
  count is the exact sum of its packets, the reconnect delay lies between 250 and 5000
  milliseconds, and while the task is reserved or dormant there is no upstream socket.
\<close>

theorem udp_task_bounded:
  "let t = fst (udp_run env is (udp_start env c pi w)) in
    length (tk_pending t) \<le> 128 \<and> unat (tk_pendingBytes t) = sum_list (map (length \<circ> pd_data) (tk_pending t)) \<and>
    unat (tk_pendingBytes t) \<le> 1048576 \<and>
    length (tk_pendingReplies t) \<le> 128 \<and> unat (tk_pendingReplyBytes t) = sum_list (map (length \<circ> pr_data) (tk_pendingReplies t)) \<and>
    unat (tk_pendingReplyBytes t) \<le> 1048576 \<and>
    250 \<le> tk_serverReconnectDelay t \<and> tk_serverReconnectDelay t \<le> 5000 \<and>
    (tk_upstreamState t \<in> {UPSTREAM_ASSOCIATING, UPSTREAM_READY, UPSTREAM_RECONNECT_WAIT, UPSTREAM_CLOSING} \<or> tk_pServer t = None)"
proof -
  let ?t = "fst (udp_run env is (udp_start env c pi w))"
  have "task_ok ?t" using run_ok udp_start_ok by blast
  then show ?thesis
    by (cases "tk_upstreamState ?t") (simp_all add: Let_def task_ok_def queue_ok_def ShouldActivateUpstream_def)
qed

text \<open>
  C30. Datagrams in order: without a QUIC bridge, after any run, the datagrams sent upstream
  followed by those still queued are a subsequence of the datagrams the application sent, each
  to the target of its route: none is reordered, duplicated, altered or invented, whatever
  reconnects, expiries and send errors happened in between.
\<close>

theorem udp_datagrams_in_order:
  assumes "ue_QuicOpen env = (\<lambda>_ _. None)" and "uw_events w = []"
  shows "subseq (upstream_log (uw_events (snd (udp_run env is (udp_start env c pi w)))) @
      map (\<lambda>p. (pd_target p, pd_data p)) (tk_pending (fst (udp_run env is (udp_start env c pi w)))))
    (handed_run env is (udp_start env c pi w))"
  using run_order [OF assms(1), of "udp_start env c pi w" "is"] udp_start_ok [of env c pi w] assms(2)
  by (simp add: up_def waiting_up_def)

definition world_fresh :: UdpWorld where
  "world_fresh = \<lparr>uw_now = 0, uw_peers = (\<lambda>_. None), uw_nextPeer = 0, uw_sendtoScript = [], uw_bindScript = [],
     uw_connectScript = [], uw_lastError = 0, uw_tapEnabled = False, uw_events = [],
     uw_udpCapability = Circuit_Reset, uw_udpCapabilityKey = []\<rparr>"

definition env_noquic :: "unit UdpEnv" where
  "env_noquic = \<lparr>ue_conv = (\<lambda>_ _ _. Inl 0), ue_startup = 0, ue_QuicOpen = (\<lambda>_ _. None), ue_Feed = (\<lambda>_ _ q. (False, q)),
     ue_Peek = (\<lambda>_ _. []), ue_Consume = (\<lambda>_ q. q), ue_Passthrough = (\<lambda>_. False), ue_Drained = (\<lambda>_. False),
     ue_WasMitm = (\<lambda>_. False)\<rparr>"

theorem udp_datagrams_in_order_witness:
  "handed_run env_noquic [UdpReceive 0 0 (RecvFromData [7] sa_Clear)]
     (udp_start env_noquic PRCClient_zero ProxyInfo_zero (world_fresh\<lparr>uw_bindScript := [Some sa_Clear]\<rparr>)) = [(CSAddrInfo_zero, [7])] \<and>
   subseq (upstream_log (uw_events (snd (udp_run env_noquic [UdpReceive 0 0 (RecvFromData [7] sa_Clear)]
       (udp_start env_noquic PRCClient_zero ProxyInfo_zero (world_fresh\<lparr>uw_bindScript := [Some sa_Clear]\<rparr>))))) @
     map (\<lambda>p. (pd_target p, pd_data p)) (tk_pending (fst (udp_run env_noquic [UdpReceive 0 0 (RecvFromData [7] sa_Clear)]
       (udp_start env_noquic PRCClient_zero ProxyInfo_zero (world_fresh\<lparr>uw_bindScript := [Some sa_Clear]\<rparr>))))))
     [(CSAddrInfo_zero, [7])]"
proof -
  let ?w = "world_fresh\<lparr>uw_bindScript := [Some sa_Clear]\<rparr>"
  let ?st = "udp_start env_noquic PRCClient_zero ProxyInfo_zero ?w"
  let ?is = "[UdpReceive 0 0 (RecvFromData [7] sa_Clear)]"
  have "HasProxyDestination PRCClient_zero = False" by (simp add: HasProxyDestination_def PRCClient_zero_def)
  then have "SetAddrInfo env_noquic (route_info PRCClient_zero) = CSAddrInfo_zero"
    by (simp add: SetAddrInfo_def route_info_def CSAddrInfo_zero_def PRCClient_zero_def env_noquic_def sa_SetIP_def
        ProxyInetPtonA_def ProxyStringToAddressA_def Let_def)
  then have h: "handed_run env_noquic ?is ?st = [(CSAddrInfo_zero, [7])]"
    by (simp add: udp_start_def SetTaskInfo_def AddRoute_def route_of_def open_route_def new_peer_def UdpTask_new_def
        world_fresh_def update_peer_def Let_def)
  have "ue_QuicOpen env_noquic = (\<lambda>_ _. None)" "uw_events ?w = []" by (simp_all add: env_noquic_def world_fresh_def)
  from udp_datagrams_in_order [OF this, of ?is PRCClient_zero ProxyInfo_zero] h show ?thesis by simp
qed

end
