(* ===== verification/UdpFlow.thy ===== *)
theory UdpFlow
  imports UdpRuns
begin

text \<open>
  What single handlers of the UDP task achieve: a reply goes to the route it belongs to, the
  first datagram starts the upstream and is delivered by it, and a lost upstream is retried
  with a growing delay.
\<close>

section \<open>Replies\<close>

lemma same_address_same_destination:
  assumes "sa_SameAddress (dstAddr a) s" and "sa_SameAddress (dstAddr b) s"
    and "sa_GetPort (dstAddr a) = sa_GetPort s" and "sa_GetPort (dstAddr b) = sa_GetPort s"
    and "\<not> IsDNValid a" and "\<not> IsDNValid b"
  shows "IsSameDestination (GetUdpDestination a) (GetUdpDestination b)"
  using assms
  by (auto simp: IsSameDestination_def GetUdpDestination_def IsDNValid_def sa_SameAddress_def sa_IsIPv6_def sa_IsIPv4_def
      sa_GetAddr6_def split: if_splits)

lemma literal_route_unique:
  assumes apart: "sorted_wrt dest_apart (map rt_client rs)" and r: "r \<in> set rs" and x: "x \<in> set rs"
    and same: "IsSameDestination (GetUdpDestination (rt_client x)) (GetUdpDestination (rt_client r))"
  shows "x = r"
proof (rule ccontr)
  assume "x \<noteq> r"
  obtain i j where ij: "i < length rs" "rs ! i = x" "j < length rs" "rs ! j = r" using r x by (auto simp: in_set_conv_nth)
  with \<open>x \<noteq> r\<close> have "i < j \<or> j < i" by (metis nat_neq_iff)
  moreover have "dest_apart (rt_client (rs ! k)) (rt_client (rs ! m))" if "k < m" "m < length rs" for k m
    using sorted_wrt_nth_less [OF apart, of k m] that by simp
  ultimately have "dest_apart (rt_client x) (rt_client r) \<or> dest_apart (rt_client r) (rt_client x)"
    using ij by blast
  then show False using same dest_apart_sym unfolding dest_apart_def by blast
qed

lemma literal_route_selected:
  assumes "sorted_wrt dest_apart (map rt_client rs)" and "r \<in> set rs" and "\<forall>x \<in> set rs. \<not> HasProxyDestination (rt_client x)"
    and "peer_open w (rt_peer r)" and "\<not> IsDNValid (rt_client r)" and "sa_eq (dstAddr (rt_client r)) source"
  shows "select_route w source rs = Some r"
proof -
  have lit: "route_literal w source r"
    using assms(2-6) unfolding route_literal_def route_usable_def sa_eq_def by simp
  then obtain x where x: "find (route_literal w source) rs = Some x"
    using assms(2) find_None_iff [of "route_literal w source" rs] by (cases "find (route_literal w source) rs") auto
  then have xs: "x \<in> set rs" "route_literal w source x" by (metis find_Some_iff nth_mem)+
  have "IsSameDestination (GetUdpDestination (rt_client x)) (GetUdpDestination (rt_client r))"
    using lit xs assms(2,3) by (intro same_address_same_destination [of _ source])
      (auto simp: route_literal_def route_usable_def)
  then have "x = r" by (rule literal_route_unique [OF assms(1,2) xs(1)])
  then show ?thesis using x by (simp add: select_route_spec reply_route_def)
qed

text \<open>Making room drops the oldest entries, and none when there is room.\<close>

lemma drop_oldest_drops:
  assumes "drop_oldest dat len ps b = (ps', b')"
  shows "\<exists>k. ps' = drop k ps \<and> (k = 0 \<or> maxPackets \<le> length ps \<or> maxBytes < b + len)"
proof (cases "maxPackets \<le> length ps \<or> maxBytes < b + len")
  case True
  obtain xs where "ps = xs @ ps'"
    using drop_oldest_suffix [OF assms] by blast
  then have "ps' = drop (length xs) ps"
    by simp
  then show ?thesis
    using True by blast
next
  case False
  then show ?thesis
    using assms by (cases ps) auto
qed

lemma DeliverServerDatagram_result:
  assumes "length d \<le> 65535"
  shows "case DeliverServerDatagram env r d (t, w) of (ok, (t', w')) \<Rightarrow> ok \<and>
    (uw_events w' = uw_events w @ [ReplySent (rt_peer r) (reply_endpoint env r) d, RecordTraffic True (int (length d))] \<and>
       tk_pendingReplies t' = tk_pendingReplies t \<or>
     uw_events w' = uw_events w \<and> (\<exists>k. tk_pendingReplies t' = drop k (tk_pendingReplies t) @
        [\<lparr>pr_routePeer = rt_peer r, pr_application = reply_endpoint env r, pr_data = d, pr_queuedAt = uw_now w\<rparr>] \<and>
        (k = 0 \<or> maxPackets \<le> length (tk_pendingReplies t) \<or> maxBytes < tk_pendingReplyBytes t + of_nat (length d))))"
proof -
  obtain n w1 where p: "Peer_SendTo (rt_peer r) w = (n, w1)" by fastforce
  note e = Peer_SendTo_prims [OF p]
  have small: "\<not> maxBytes < (of_nat (length d) :: dword)" using assms by (simp add: word_less_nat_alt unat_of_nat)
  show ?thesis
  proof (cases "n = int (length d)")
    case True
    then show ?thesis using e by (simp add: DeliverServerDatagram_def send_reply_def p)
  next
    case False
    obtain rs b where q: "drop_oldest pr_data (of_nat (length d)) (tk_pendingReplies t) (tk_pendingReplyBytes t) = (rs, b)"
      by fastforce
    show ?thesis using e small False drop_oldest_drops [OF q]
      by (simp add: DeliverServerDatagram_def send_reply_def p QueueReply_def Let_def q)
  qed
qed

text \<open>
  C31. A reply reaches its route: in every run, when a datagram of at most 65535 bytes arrives from
  the literal destination of an open route, and the route has no QUIC bridge and had none that was
  retired, no route of the task is redirected and the tap is off, the datagram is handed to exactly
  that route: it is sent to the application endpoint at once, with the queue of replies as it was,
  or it is queued last for that route behind what was queued, of which the oldest entries are dropped only
  when the queue has 128 entries or would exceed its bytes.
\<close>

theorem reply_reaches_its_route:
  assumes run: "udp_run env is (udp_start env c pi w0) = (t, w)"
    and r: "r \<in> set (tk_routes t)" "peer_open w (rt_peer r)" "\<not> IsDNValid (rt_client r)" "rt_quic r = None" "\<not> rt_quicRetired r"
    and direct: "\<forall>x \<in> set (tk_routes t). \<not> HasProxyDestination (rt_client x)"
    and src: "sa_eq (dstAddr (rt_client r)) source" and tap: "\<not> uw_tapEnabled w" and len: "length d \<le> 65535"
  shows "case ForwardServerDatagram env source (Some d) (t, w) of (ok, (t', w')) \<Rightarrow> ok \<and>
    (uw_events w' = uw_events w @ [ReplySent (rt_peer r) (reply_endpoint env r) d, RecordTraffic True (int (length d))] \<and>
       tk_pendingReplies t' = tk_pendingReplies t \<or>
     uw_events w' = uw_events w \<and> (\<exists>k. tk_pendingReplies t' = drop k (tk_pendingReplies t) @
        [\<lparr>pr_routePeer = rt_peer r, pr_application = reply_endpoint env r, pr_data = d, pr_queuedAt = uw_now w\<rparr>] \<and>
        (k = 0 \<or> maxPackets \<le> length (tk_pendingReplies t) \<or> maxBytes < tk_pendingReplyBytes t + of_nat (length d))))"
proof -
  have "routes_apart t" using run_ok [of "udp_start env c pi w0" env "is"] udp_start_ok [of env c pi w0] run by simp
  then have sel: "select_route w source (tk_routes t) = Some r"
    using literal_route_selected [OF _ r(1) direct r(2,3) src] by (simp add: routes_apart_def)
  let ?st = "update_route (rt_peer r) (\<lambda>x. x\<lparr>rt_capture := False\<rparr>) (t\<lparr>tk_lastActivity := uw_now w\<rparr>, w)"
  have "ForwardServerDatagram env source (Some d) (t, w) = DeliverServerDatagram env r d (fst ?st, w)"
    using sel r(4,5) tap by (simp add: ForwardServerDatagram_def Let_def update_route_def)
  moreover have "tk_pendingReplies (fst ?st) = tk_pendingReplies t" "tk_pendingReplyBytes (fst ?st) = tk_pendingReplyBytes t"
    by (simp_all add: update_route_def)
  ultimately show ?thesis using DeliverServerDatagram_result [where t = "fst ?st" and w = w and env = env and r = r, OF len] by simp
qed

definition dns_client :: PRCClient where
  "dns_client = PRCClient_zero\<lparr>dstAddr := sa_Clear\<lparr>sa_family := AF_INET, sin_addr := 0x08080808\<rparr>\<rparr>"

definition dns_start :: "unit udp_state" where
  "dns_start = udp_start env_noquic dns_client ProxyInfo_zero (world_fresh\<lparr>uw_bindScript := [Some sa_Clear]\<rparr>)"

definition dns_route :: "unit UdpRoute" where
  "dns_route = \<lparr>rt_client = dns_client, rt_peer = 0, rt_applicationEndpoint = sa_Clear, rt_hasApplicationEndpoint = False,
     rt_firstDatagramLogged = False, rt_capture = False, rt_quic = None, rt_quicRetired = False,
     rt_quicTarget = CSAddrInfo_zero\<rparr>"

lemma dns_start_simps:
  "tk_routes (fst dns_start) = [dns_route]" "peer_open (snd dns_start) 0" "\<not> uw_tapEnabled (snd dns_start)"
  "uw_events (snd dns_start) = []" "uw_now (snd dns_start) = 0" "tk_pendingReplies (fst dns_start) = []"
  by (simp_all add: dns_start_def udp_start_def SetTaskInfo_def AddRoute_def route_of_def open_route_def new_peer_def UdpTask_new_def
      world_fresh_def update_peer_def dns_route_def dns_client_def PRCClient_zero_def peer_open_def Let_def)

theorem reply_reaches_its_route_witness:
  "case ForwardServerDatagram env_noquic (dstAddr dns_client) (Some [7]) dns_start of (ok, (t', w')) \<Rightarrow> ok \<and>
    (uw_events w' = [ReplySent 0 (reply_endpoint env_noquic dns_route) [7], RecordTraffic True 1] \<and> tk_pendingReplies t' = [] \<or>
     uw_events w' = [] \<and> tk_pendingReplies t' =
        [\<lparr>pr_routePeer = 0, pr_application = reply_endpoint env_noquic dns_route, pr_data = [7], pr_queuedAt = 0\<rparr>])"
proof -
  have r: "rt_client dns_route = dns_client" "rt_peer dns_route = 0" "rt_quic dns_route = None" "\<not> rt_quicRetired dns_route"
    by (simp_all add: dns_route_def)
  have c: "\<not> IsDNValid dns_client" "\<not> HasProxyDestination dns_client" "sa_eq (dstAddr dns_client) (dstAddr dns_client)"
    by (simp_all add: dns_client_def PRCClient_zero_def IsDNValid_def HasProxyDestination_def sa_eq_refl_iff sa_IsIPv4_def)
  have run: "udp_run env_noquic [] (udp_start env_noquic dns_client ProxyInfo_zero (world_fresh\<lparr>uw_bindScript := [Some sa_Clear]\<rparr>)) =
      (fst dns_start, snd dns_start)"
    by (simp add: udp_run_def dns_start_def)
  show ?thesis
    using reply_reaches_its_route [OF run, of dns_route "dstAddr dns_client" "[7]"] r c
    by (simp add: dns_start_simps)
qed

section \<open>Activation\<close>

lemma peer_open_simps [simp]:
  "peer_open (SetPartner q p w) x = peer_open w x" "peer_open (emit e w) x = peer_open w x"
  "peer_open (link_route s p w) x = peer_open w x"
proof -
  have "peer_open (SetPartner q p w) x = peer_open w x" for q p w x
    by (simp add: peer_open_def SetPartner_def update_peer_def split: option.split)
  then show "peer_open (SetPartner q p w) x = peer_open w x" "peer_open (link_route s p w) x = peer_open w x"
    by (simp_all add: link_route_def Let_def)
  show "peer_open (emit e w) x = peer_open w x" by (simp add: peer_open_def)
qed

lemma peer_open_links [simp]: "peer_open (fold (link_route s) ps w) x = peer_open w x"
  using fold_field [of "\<lambda>w. peer_open w x" "link_route s" ps w] by simp

lemma link_script_prims [simp]:
  "uw_sendtoScript (fold (link_route s) ps w) = uw_sendtoScript w" "uw_now (fold (link_route s) ps w) = uw_now w"
proof -
  have "uw_sendtoScript (link_route s p w) = uw_sendtoScript w" "uw_now (link_route s p w) = uw_now w" for p w
    by (simp_all add: link_route_def SetPartner_def update_peer_def Let_def)
  then show "uw_sendtoScript (fold (link_route s) ps w) = uw_sendtoScript w" "uw_now (fold (link_route s) ps w) = uw_now w"
    using fold_field [of uw_sendtoScript "link_route s"] fold_field [of uw_now "link_route s"] by simp_all
qed

lemma CreateServerPeer_success:
  assumes "uw_connectScript w = None # cs"
  shows "\<exists>w'. CreateServerPeer env (t, w) =
      (True, (if GetProxyType (tk_ProxyInfo t) = PROXYTYPE_NOPROXY
        then t\<lparr>tk_pServer := Some (uw_nextPeer w), tk_upstreamState := UPSTREAM_READY, tk_serverReconnectDelay := 250, tk_lastServerError := 0\<rparr>
        else t\<lparr>tk_pServer := Some (uw_nextPeer w), tk_upstreamState := UPSTREAM_ASSOCIATING\<rparr>), w') \<and>
    peer_open w' (uw_nextPeer w) \<and> uw_events w' = uw_events w \<and> uw_sendtoScript w' = uw_sendtoScript w \<and> uw_now w' = uw_now w"
  using assms
  by (simp add: CreateServerPeer_def new_peer_def Let_def) (simp add: peer_open_def update_peer_def)

lemma send_one:
  assumes "peer_open w s" and "uw_sendtoScript w = SendToCount n # ss"
  shows "send_upstream s target d w = (int n, emit (UpstreamSent target d) (w\<lparr>uw_sendtoScript := ss\<rparr>))"
  using assms by (simp add: send_upstream_def Peer_SendTo_def)

lemma quiet_wake:
  assumes "\<forall>r \<in> set rs. rt_quic r = None"
  shows "fold (\<lambda>r. if rt_quic r \<noteq> None then emit (TriggerWrite (rt_peer r)) else id) rs x = x"
  using assms by (induction rs) simp_all

lemma flush_single:
  assumes "tk_upstreamState t = UPSTREAM_READY" "tk_pServer t = Some s" "peer_open w s" "uw_sendtoScript w = SendToCount n # ss"
    and "tk_pending t = [\<lparr>pd_target = target, pd_data = d, pd_queuedAt = q\<rparr>]" "\<not> stale (uw_now w) q"
    and "tk_pendingReplies t = []" "no_quic t"
  shows "tk_pending (fst (OnServerWritable env (t, w))) = [] \<and> tk_upstreamState (fst (OnServerWritable env (t, w))) = UPSTREAM_READY \<and>
    uw_events (snd (OnServerWritable env (t, w))) = uw_events w @ [UpstreamSent target d, RecordTraffic False (int n)]"
  using assms quiet_wake [of "tk_routes t"]
  by (simp add: OnServerWritable_def ExpirePendingDatagrams_def FlushPendingReplies_def flush_upstream_def Let_def
      send_one handle_send_error_def wake_quic_def no_quic_def)

text \<open>An expired datagram is dropped before anything is sent.\<close>

lemma flush_expired:
  assumes "tk_upstreamState t = UPSTREAM_READY" "tk_pServer t = Some s" "peer_open w s"
    and "tk_pending t = [\<lparr>pd_target = target, pd_data = d, pd_queuedAt = q\<rparr>]" "stale (uw_now w) q"
    and "tk_pendingReplies t = []" "no_quic t"
  shows "tk_pending (fst (OnServerWritable env (t, w))) = [] \<and> tk_upstreamState (fst (OnServerWritable env (t, w))) = UPSTREAM_READY \<and>
    uw_events (snd (OnServerWritable env (t, w))) = uw_events w"
  using assms quiet_wake [of "tk_routes t"]
  by (simp add: OnServerWritable_def ExpirePendingDatagrams_def FlushPendingReplies_def flush_upstream_def Let_def
      handle_send_error_def wake_quic_def no_quic_def)

lemma queue_first_datagram:
  assumes "tk_pending t = []" "tk_pendingBytes t = 0" "length d \<le> 65535"
  shows "QueueDatagram target d (t, w) = (True, (t\<lparr>tk_pending := [\<lparr>pd_target = target, pd_data = d, pd_queuedAt = uw_now w\<rparr>],
    tk_pendingBytes := of_nat (length d)\<rparr>, w))"
proof -
  have "\<not> maxBytes < (of_nat (length d) :: dword)" using assms(3) by (simp add: word_less_nat_alt unat_of_nat)
  then show ?thesis using assms by (simp add: QueueDatagram_def)
qed

text \<open>
  C32. The first datagram opens the upstream and is delivered by it: for a reserved or dormant
  task with empty queues and no QUIC bridge, and a datagram of at most 65535 bytes, when the
  connect of the upstream and the \<open>sendto\<close> succeed, a direct route sends the datagram within the
  same call, exactly once; otherwise the association is started and nothing is sent yet, and when
  it reports that it is ready, at any later clock with nothing else done in between, the datagram is sent exactly
  once if it is at most 5 seconds old and is dropped unsent if it is older.
\<close>

theorem first_datagram_activates:
  assumes idle: "ShouldActivateUpstream (tk_upstreamState t)" "tk_pending t = []" "tk_pendingBytes t = 0"
      "tk_pendingReplies t = []" "no_quic t"
    and len: "length d \<le> 65535" and w: "uw_connectScript w = None # cs" "uw_sendtoScript w = SendToCount n # ss"
  shows "case ForwardUpstreamDatagram env target d (t, w) of (ok, (t1, w1)) \<Rightarrow> ok \<and>
    (if GetProxyType (tk_ProxyInfo t) = PROXYTYPE_NOPROXY
     then tk_upstreamState t1 = UPSTREAM_READY \<and> tk_pending t1 = [] \<and>
       uw_events w1 = uw_events w @ [UpstreamSent target d, RecordTraffic False (int n)]
     else tk_upstreamState t1 = UPSTREAM_ASSOCIATING \<and> uw_events w1 = uw_events w \<and>
       (\<forall>now. case OnServerReady env (the (tk_pServer t1)) (t1, w1\<lparr>uw_now := now\<rparr>) of (t2, w2) \<Rightarrow>
          tk_upstreamState t2 = UPSTREAM_READY \<and> tk_pending t2 = [] \<and>
          uw_events w2 = uw_events w @
            (if tick_elapsed now (uw_now w) \<le> 5000 then [UpstreamSent target d, RecordTraffic False (int n)] else [])))"
proof -
  let ?x = "\<lparr>pd_target = target, pd_data = d, pd_queuedAt = uw_now w\<rparr>"
  let ?t = "t\<lparr>tk_pending := [?x], tk_pendingBytes := of_nat (length d), tk_upstreamState := UPSTREAM_ASSOCIATING, tk_serverReconnectDelay := 250\<rparr>"
  let ?s = "uw_nextPeer w"
  obtain w1 where c: "CreateServerPeer env (?t, w) =
      (True, (if GetProxyType (tk_ProxyInfo t) = PROXYTYPE_NOPROXY
        then ?t\<lparr>tk_pServer := Some ?s, tk_upstreamState := UPSTREAM_READY, tk_serverReconnectDelay := 250, tk_lastServerError := 0\<rparr>
        else ?t\<lparr>tk_pServer := Some ?s, tk_upstreamState := UPSTREAM_ASSOCIATING\<rparr>), w1)"
    and w1: "peer_open w1 ?s" "uw_events w1 = uw_events w" "uw_sendtoScript w1 = SendToCount n # ss" "uw_now w1 = uw_now w"
    using CreateServerPeer_success [OF w(1), of env ?t] w(2) by auto
  have st: "tk_upstreamState t \<noteq> UPSTREAM_CLOSING" using idle(1) by (auto simp: ShouldActivateUpstream_def)
  have fresh: "\<not> stale (uw_now w) (uw_now w)" by (simp add: stale_def)
  show ?thesis
  proof (cases "GetProxyType (tk_ProxyInfo t) = PROXYTYPE_NOPROXY")
    case True
    let ?t1 = "?t\<lparr>tk_pServer := Some ?s, tk_upstreamState := UPSTREAM_READY, tk_serverReconnectDelay := 250, tk_lastServerError := 0\<rparr>"
    have "ForwardUpstreamDatagram env target d (t, w) = (True, OnServerWritable env (?t1, w1))"
      using True c idle st
      by (simp add: ForwardUpstreamDatagram_def queue_first_datagram [OF idle(2,3) len] WakeServerAssociation_def)
    moreover note flush_single [of ?t1 ?s w1 n ss target d "uw_now w" env]
    ultimately show ?thesis using True w1 idle(4,5) fresh by (simp add: no_quic_def case_prod_beta)
  next
    case False
    let ?t1 = "?t\<lparr>tk_pServer := Some ?s, tk_upstreamState := UPSTREAM_ASSOCIATING\<rparr>"
    let ?t2 = "?t1\<lparr>tk_upstreamState := UPSTREAM_READY, tk_serverReconnectDelay := 250, tk_lastServerError := 0\<rparr>"
    let ?w2 = "\<lambda>now. ReportUdpAssociationReady (tk_ProxyInfo t) (w1\<lparr>uw_now := now\<rparr>)"
    have f: "ForwardUpstreamDatagram env target d (t, w) = (True, (?t1, w1))"
      using False c idle st
      by (simp add: ForwardUpstreamDatagram_def queue_first_datagram [OF idle(2,3) len] WakeServerAssociation_def)
    have w2: "peer_open (?w2 now) ?s" "uw_sendtoScript (?w2 now) = SendToCount n # ss" "uw_now (?w2 now) = now"
        "uw_events (?w2 now) = uw_events w" for now
      using w1 by (simp_all add: ReportUdpAssociationReady_def EnsureUdpCapabilityProfile_def FlushUdpCapabilitySummary_def
          peer_open_def Let_def)
    have ready: "OnServerReady env ?s (?t1, w1\<lparr>uw_now := now\<rparr>) = OnServerWritable env (?t2, ?w2 now)" for now
      by (simp add: OnServerReady_def)
    have "case OnServerReady env ?s (?t1, w1\<lparr>uw_now := now\<rparr>) of (t2, w2) \<Rightarrow> tk_upstreamState t2 = UPSTREAM_READY \<and> tk_pending t2 = [] \<and>
      uw_events w2 = uw_events w @ (if tick_elapsed now (uw_now w) \<le> 5000 then [UpstreamSent target d, RecordTraffic False (int n)] else [])" for now
      unfolding ready
      using flush_single [of ?t2 ?s "?w2 now" n ss target d "uw_now w" env] flush_expired [of ?t2 ?s "?w2 now" target d "uw_now w" env]
        w2 [of now] idle(4,5) by (cases "stale now (uw_now w)") (simp_all add: no_quic_def stale_def case_prod_beta)
    moreover have "the (tk_pServer ?t1) = ?s" "tk_upstreamState ?t1 = UPSTREAM_ASSOCIATING"
      by simp_all
    ultimately show ?thesis using False w1 unfolding f by (simp only: prod.case if_False simp_thms)
  qed
qed

theorem first_datagram_activates_witness:
  "case ForwardUpstreamDatagram env_noquic CSAddrInfo_zero [7]
      (UdpTask_new 0, world_fresh\<lparr>uw_connectScript := [None], uw_sendtoScript := [SendToCount 1]\<rparr>) of
    (ok, (t1, w1)) \<Rightarrow> ok \<and> uw_events w1 = [UpstreamSent CSAddrInfo_zero [7], RecordTraffic False 1]"
proof -
  have "GetProxyType (tk_ProxyInfo (UdpTask_new 0 :: unit UdpTask)) = PROXYTYPE_NOPROXY"
    by (simp add: UdpTask_new_def ProxyInfo_zero_def GetProxyType_def proxytype_of_name_def stricmp_eq_def)
  then show ?thesis
    using first_datagram_activates [where t = "UdpTask_new 0 :: unit UdpTask" and d = "[7]" and cs = "[]" and n = 1 and ss = "[]" and
        w = "world_fresh\<lparr>uw_connectScript := [None], uw_sendtoScript := [SendToCount 1]\<rparr>" and env = env_noquic and target = CSAddrInfo_zero]
    by (auto simp: UdpTask_new_def ShouldActivateUpstream_def no_quic_def world_fresh_def split: prod.splits)
qed

section \<open>Reconnecting\<close>

text \<open>The part of the world that sending replies leaves alone.\<close>

definition same_control :: "UdpWorld \<Rightarrow> UdpWorld \<Rightarrow> bool" where
  "same_control w w' \<longleftrightarrow> uw_now w' = uw_now w \<and> uw_connectScript w' = uw_connectScript w \<and>
     uw_udpCapability w' = uw_udpCapability w \<and> uw_udpCapabilityKey w' = uw_udpCapabilityKey w \<and> uw_nextPeer w' = uw_nextPeer w"

lemma same_control_trans: "same_control a b \<Longrightarrow> same_control b c \<Longrightarrow> same_control a c"
  by (simp add: same_control_def)

lemma send_reply_control: "send_reply p a d w = (n, w') \<Longrightarrow> same_control w w'"
  by (auto simp: send_reply_def Peer_SendTo_def emit_def same_control_def split: prod.splits if_splits list.splits sendto_result.splits)

lemma flush_replies_control: "flush_replies rp rs b w = (rs', b', w') \<Longrightarrow> same_control w w'"
proof (induction rs arbitrary: b w rs')
  case Nil
  then show ?case by (simp add: same_control_def)
next
  case (Cons r rs)
  obtain n w1 where send: "send_reply (pr_routePeer r) (pr_application r) (pr_data r) w = (n, w1)" by fastforce
  have "same_control w1 (emit (RecordTraffic True n) w1)" by (simp add: same_control_def emit_def)
  then have k: "same_control w w1" "same_control w (emit (RecordTraffic True n) w1)"
    using send_reply_control [OF send] same_control_trans by blast+
  then show ?case
    using Cons.prems Cons.IH send same_control_trans
    by (simp split: if_splits prod.splits)
qed

lemma purge_control:
  assumes "FlushPendingReplies None (ExpirePendingDatagrams (t, w)) = (t', w')"
  shows "same_control w w' \<and> tk_upstreamState t' = tk_upstreamState t \<and> tk_nextServerReconnect t' = tk_nextServerReconnect t \<and>
    tk_serverReconnectDelay t' = tk_serverReconnectDelay t \<and> tk_pServer t' = tk_pServer t \<and> tk_ProxyInfo t' = tk_ProxyInfo t"
proof -
  obtain ps b where e: "expire (uw_now w) (tk_pending t) (tk_pendingBytes t) = (ps, b)" by fastforce
  obtain rs c w1 where f: "flush_replies None (tk_pendingReplies t) (tk_pendingReplyBytes t) w = (rs, c, w1)" using prod_cases3 by blast
  show ?thesis using assms flush_replies_control [OF f]
    by (auto simp: FlushPendingReplies_def ExpirePendingDatagrams_def e f)
qed

lemma drop_server_control: "same_control w (snd (drop_server (t, w)))"
proof -
  have f: "same_control w (fold (SetPartner None) ps w)" for ps
  proof (induction ps arbitrary: w)
    case (Cons p ps)
    have "same_control w (SetPartner None p w)" by (simp add: SetPartner_def update_peer_def same_control_def)
    then show ?case using Cons.IH [of "SetPartner None p w"] same_control_trans by fastforce
  qed (simp add: same_control_def)
  then show ?thesis
    by (auto simp: drop_server_def Let_def delete_peer_def same_control_def split: option.split)
qed

lemma reconnect_failed:
  assumes "uw_connectScript w = Some e # cs" "e \<noteq> 0" "uw_udpCapabilityKey w = capability_key (Some (tk_ProxyInfo t))"
    and "\<not> fst (ReportFailure (uw_now w) (e = WSAEOPNOTSUPP) DEFAULT_THRESHOLD DEFAULT_COOLDOWN (uw_udpCapability w))"
  shows "case reconnect env (t, w) of (go, (t', w')) \<Rightarrow> \<not> go \<and> tk_upstreamState t' = UPSTREAM_RECONNECT_WAIT \<and>
    tk_serverReconnectDelay t' = min (tk_serverReconnectDelay t * 2) 5000 \<and>
    tk_nextServerReconnect t' = uw_now w + tk_serverReconnectDelay t' \<and> tk_pServer t' = None"
proof -
  obtain t1 w1 where d: "drop_server (t, w) = (t1, w1)" by fastforce
  have w1: "same_control w w1" using drop_server_control [of w t] d by simp
  have t1: "t1 = t\<lparr>tk_pServer := None\<rparr>" using d by (simp add: drop_server_def Let_def)
  obtain w2 where c: "CreateServerPeer env (t1, w1) = (False, t1, w2)" "same_control (w1\<lparr>uw_connectScript := cs, uw_nextPeer := Suc (uw_nextPeer w1)\<rparr>) w2"
      "uw_lastError w2 = e"
    using assms(1) w1 by (simp add: CreateServerPeer_def new_peer_def Let_def same_control_def delete_peer_def)
  have r: "\<exists>w3. ReportUdpAssociationFailure (tk_ProxyInfo t) e w2 = (False, w3) \<and> uw_now w3 = uw_now w"
    using assms(3,4) w1 c(2)
    by (auto simp: ReportUdpAssociationFailure_def EnsureUdpCapabilityProfile_def same_control_def Let_def split: prod.split)
  then obtain w3 where r: "ReportUdpAssociationFailure (tk_ProxyInfo t) e w2 = (False, w3)" "uw_now w3 = uw_now w" by blast
  show ?thesis using r assms(2) c(3) by (simp add: reconnect_def d c(1) [unfolded t1] create_error_def t1 Let_def)
qed

text \<open>
  Reconnecting backs off: while the upstream is lost, a writable event or timer before the
  deadline attempts no connection and changes neither the deadline nor the delay; at the
  deadline, an attempt that fails (and does not open the capability circuit) doubles the delay
  up to 5000 milliseconds, sets the next deadline by it and leaves no upstream socket behind.
\<close>

theorem reconnect_backs_off:
  assumes "tk_upstreamState t = UPSTREAM_RECONNECT_WAIT" and "uw_connectScript w = Some e # cs" and "e \<noteq> 0"
    and "uw_udpCapabilityKey w = capability_key (Some (tk_ProxyInfo t))"
    and "\<not> fst (ReportFailure (uw_now w) (e = WSAEOPNOTSUPP) DEFAULT_THRESHOLD DEFAULT_COOLDOWN (uw_udpCapability w))"
  shows "case OnServerWritable env (t, w) of (t', w') \<Rightarrow> tk_upstreamState t' = UPSTREAM_RECONNECT_WAIT \<and>
    (if tick_reached (uw_now w) (tk_nextServerReconnect t)
     then tk_serverReconnectDelay t' = min (tk_serverReconnectDelay t * 2) 5000 \<and>
       tk_nextServerReconnect t' = uw_now w + tk_serverReconnectDelay t' \<and> tk_pServer t' = None
     else uw_connectScript w' = Some e # cs \<and> tk_serverReconnectDelay t' = tk_serverReconnectDelay t \<and>
       tk_nextServerReconnect t' = tk_nextServerReconnect t \<and> tk_pServer t' = tk_pServer t)"
proof -
  obtain t1 w1 where p: "FlushPendingReplies None (ExpirePendingDatagrams (t, w)) = (t1, w1)" by fastforce
  note c = purge_control [OF p]
  obtain go t2 w2 where r: "reconnect env (t1, w1) = (go, (t2, w2))" using prod_cases3 by blast
  have "\<not> go \<and> tk_upstreamState t2 = UPSTREAM_RECONNECT_WAIT \<and> tk_serverReconnectDelay t2 = min (tk_serverReconnectDelay t * 2) 5000 \<and>
      tk_nextServerReconnect t2 = uw_now w + tk_serverReconnectDelay t2 \<and> tk_pServer t2 = None"
    using reconnect_failed [of w1 e cs t1 env] c assms by (simp add: r same_control_def)
  then show ?thesis using c assms(1,2) by (simp add: OnServerWritable_def p r same_control_def)
qed

theorem reconnect_backs_off_witness:
  "case OnServerWritable env_noquic ((UdpTask_new 0)\<lparr>tk_upstreamState := UPSTREAM_RECONNECT_WAIT\<rparr>,
      world_fresh\<lparr>uw_connectScript := [Some WSAECONNREFUSED], uw_udpCapabilityKey := capability_key (Some ProxyInfo_zero)\<rparr>) of
    (t', w') \<Rightarrow> tk_serverReconnectDelay t' = 500 \<and> tk_nextServerReconnect t' = 500"
  using reconnect_backs_off [of "(UdpTask_new 0)\<lparr>tk_upstreamState := UPSTREAM_RECONNECT_WAIT\<rparr>"
      "world_fresh\<lparr>uw_connectScript := [Some WSAECONNREFUSED], uw_udpCapabilityKey := capability_key (Some ProxyInfo_zero)\<rparr>"
      WSAECONNREFUSED "[]" env_noquic]
  by (auto simp: UdpTask_new_def world_fresh_def ReportFailure_def Circuit_Reset_def Let_def min_def split: prod.splits)

end
