(* ===== verification/TcpPeer.thy ===== *)
theory TcpPeer
  imports LayerSend Monitoring Policies
begin

text \<open>
  The TCP half of the forwarder: a task (\<open>TcpProxyTask.cpp\<close>) owns two peers
  (\<open>PRCTcpPeer.cpp\<close>), the application's connection and the one to the destination, and copies
  bytes between them. A task under inspection owns a TLS bridge (\<open>MitmBridge.cpp\<close>) that takes
  the bytes instead.

  A peer record holds the members of the class and, in the \<open>nk_\<close> fields, its socket: what the
  calls on it are going to answer, the bytes that were read from it and those it accepted. An
  exhausted script blocks. \<open>tp_recvbuf\<close> is the part of \<open>m_recvbuf\<close> below \<open>m_recvbufpos\<close>.
  The inspection session itself (the Rust module behind \<open>plm_io\<close>) is a parameter. Trace and
  log output is left out; what the packet observers and the protocol tap are told is recorded.
\<close>

section \<open>Data\<close>

datatype em_TMTimeOut = TM_0 | TM_DNS | TM_CONN | TM_RECV | TM_SEND | TM_IDLE | TM_SHUT | TM_CLOSE

datatype tside = Client | Server

fun other :: "tside \<Rightarrow> tside" where
  "other Client = Server"
| "other Server = Client"

fun side_number :: "tside \<Rightarrow> nat" where
  "side_number Client = 0"
| "side_number Server = 1"

record TcpPeer =
  tp_open :: bool \<comment> \<open>the socket handle is valid\<close>
  tp_lEvent :: "fd set"
  tp_pProxyLayer :: "Layer option"
  tp_pSecureLayer :: bool
  tp_recvbuf :: bytes
  tp_sentpos :: nat
  tp_DataLenRecvd :: "64 word"
  tp_DataLenSent :: "64 word"
  tp_SocketStatus :: em_TMTimeOut
  tp_TimeoutMonitor :: "em_TMTimeOut \<Rightarrow> TimeoutMonitor"
  tp_bConnShutted :: bool
  tp_bReadClosed :: bool
  tp_bWriteShutdown :: bool
  tp_bForwardingReady :: bool
  tp_bFullyClosing :: bool
  tp_dwLastError :: int
  nk_recv :: "recv_result list"
  nk_send :: "send_result list"
  nk_readable :: "int list"
  nk_writable :: "int list"
  nk_fionread :: "nat option list"
  nk_pendingRead :: "bool list"
  nk_select :: "int option list"
  nk_in :: bytes
  nk_out :: bytes
  nk_fin :: bool

record 's MitmBridge =
  mb_session :: 's
  mb_failed :: bool
  mb_paused :: "tside \<Rightarrow> bool"
  mb_window :: bool
  mb_pollHandshake :: bool

datatype tcp_event =
    TcpPosted tside fd int \<comment> \<open>\<open>TriggerEvent\<close>\<close>
  | TcpTraffic bool nat
  | TcpPacket tside bytes | TcpOnConnect int | TcpOnClose tside int
  | TapData tside bytes | TapEof tside | TapConnected int | TapClosed tside int
  | TapReleased | TcpTimeoutLogged
  | TcpDestroyed tside \<comment> \<open>the destructor of a peer closed its open socket\<close>

record 's TcpTask =
  tt_PRCClient :: PRCClient
  tt_ProxyInfo :: ProxyInfo
  tt_alive :: bool \<comment> \<open>\<open>m_pClient\<close> and \<open>m_pServer\<close> are allocated\<close>
  tt_peer :: "tside \<Rightarrow> TcpPeer"
  tt_pMitm :: "'s MitmBridge option"
  tt_pProtocol :: bool
  tt_bDeletePending :: bool
  tt_reconnectSelected :: bool
  tt_reconnectPending :: bool
  tt_now :: dword
  tt_lastError :: int
  tt_events :: "tcp_event list"

text \<open>
  \<open>plm_io\<close> with its operation, side, data and length, giving the result, the bytes of a peek and
  the new session; and whether the helper window and its timer can be had.
\<close>

record 's MitmEnv =
  me_io :: "nat \<Rightarrow> tside \<Rightarrow> bytes \<Rightarrow> nat \<Rightarrow> 's \<Rightarrow> int \<times> bytes \<times> 's"
  me_CreateWindow :: bool
  me_SetTimer :: bool

abbreviation (input) "MAXTCPBUFSIZE \<equiv> (4096 :: nat)"
abbreviation (input) "MAX_EVENT_READ_BYTES \<equiv> (65536 :: nat)"

abbreviation (input) "PLM_FEED \<equiv> (0 :: nat)"
abbreviation (input) "PLM_PEEK \<equiv> (1 :: nat)"
abbreviation (input) "PLM_CONSUME \<equiv> (2 :: nat)"
abbreviation (input) "PLM_EOF \<equiv> (3 :: nat)"
abbreviation (input) "PLM_STATUS \<equiv> (4 :: nat)"
abbreviation (input) "PLM_CONNECTED \<equiv> (5 :: nat)"
abbreviation (input) "PLM_TRANSPORT_CLOSED \<equiv> (6 :: nat)"

section \<open>Sockets (AsyncSocketEx.cpp)\<close>

definition upd :: "tside \<Rightarrow> (TcpPeer \<Rightarrow> TcpPeer) \<Rightarrow> 's TcpTask \<Rightarrow> 's TcpTask" where
  "upd s f t = t\<lparr>tt_peer := (tt_peer t)(s := f (tt_peer t s))\<rparr>"

definition tell :: "tcp_event \<Rightarrow> 's TcpTask \<Rightarrow> 's TcpTask" where
  "tell e t = t\<lparr>tt_events := tt_events t @ [e]\<rparr>"

definition tap :: "tcp_event \<Rightarrow> 's TcpTask \<Rightarrow> 's TcpTask" where
  "tap e t = (if tt_pProtocol t then tell e t else t)"

text \<open>\<open>TriggerEvent\<close> posts the error code only for a socket with layers.\<close>

definition Tcp_TriggerEvent :: "tside \<Rightarrow> fd \<Rightarrow> int \<Rightarrow> 's TcpTask \<Rightarrow> 's TcpTask" where
  "Tcp_TriggerEvent s ev err t =
     (let p = tt_peer t s in
      if \<not> tp_open p then t
      else tell (TcpPosted s ev (if tp_pProxyLayer p \<noteq> None then err else 0)) t)"

definition Tcp_AsyncSelect :: "tside \<Rightarrow> fd set \<Rightarrow> 's TcpTask \<Rightarrow> bool \<times> 's TcpTask" where
  "Tcp_AsyncSelect s ev t =
     (let t = upd s (\<lambda>p. p\<lparr>tp_lEvent := ev\<rparr>) t; p = tt_peer t s in
      if tp_pProxyLayer p \<noteq> None then (True, t)
      else if \<not> tp_open p then (False, t\<lparr>tt_lastError := WSAENOTSOCK\<rparr>)
      else case nk_select p of
        [] \<Rightarrow> (True, t)
      | None # rs \<Rightarrow> (True, upd s (\<lambda>p. p\<lparr>nk_select := rs\<rparr>) t)
      | Some e # rs \<Rightarrow> (False, (upd s (\<lambda>p. p\<lparr>nk_select := rs\<rparr>) t)\<lparr>tt_lastError := e\<rparr>))"

definition Tcp_Close :: "tside \<Rightarrow> 's TcpTask \<Rightarrow> 's TcpTask" where
  "Tcp_Close s t = upd s (\<lambda>p. p\<lparr>tp_open := False, tp_pProxyLayer := None, tp_pSecureLayer := False\<rparr>) t"

definition Tcp_Receive :: "tside \<Rightarrow> nat \<Rightarrow> 's TcpTask \<Rightarrow> bytes option \<times> 's TcpTask" where
  "Tcp_Receive s n t =
     (let p = tt_peer t s in
      if \<not> tp_open p then (None, t\<lparr>tt_lastError := WSAENOTSOCK\<rparr>)
      else case nk_recv p of
        [] \<Rightarrow> (None, t\<lparr>tt_lastError := WSAEWOULDBLOCK\<rparr>)
      | RecvError e # rs \<Rightarrow> (None, (upd s (\<lambda>p. p\<lparr>nk_recv := rs\<rparr>) t)\<lparr>tt_lastError := e\<rparr>)
      | RecvData d # rs \<Rightarrow>
          (Some (take n d), upd s (\<lambda>p. p\<lparr>nk_recv := (if n < length d then RecvData (drop n d) # rs else rs),
             nk_in := nk_in p @ take n d\<rparr>) t))"

definition Tcp_Send :: "tside \<Rightarrow> bytes \<Rightarrow> 's TcpTask \<Rightarrow> nat option \<times> 's TcpTask" where
  "Tcp_Send s data t =
     (let p = tt_peer t s in
      if \<not> tp_open p then (None, t\<lparr>tt_lastError := WSAENOTSOCK\<rparr>)
      else case nk_send p of
        [] \<Rightarrow> (None, t\<lparr>tt_lastError := WSAEWOULDBLOCK\<rparr>)
      | SendError e # rs \<Rightarrow> (None, (upd s (\<lambda>p. p\<lparr>nk_send := rs\<rparr>) t)\<lparr>tt_lastError := e\<rparr>)
      | SendCount n # rs \<Rightarrow>
          (Some (min n (length data)), upd s (\<lambda>p. p\<lparr>nk_send := rs, nk_out := nk_out p @ take n data\<rparr>) t))"

definition Tcp_ShutDown :: "tside \<Rightarrow> 's TcpTask \<Rightarrow> 's TcpTask" where
  "Tcp_ShutDown s t = upd s (\<lambda>p. p\<lparr>nk_fin := tp_open p \<or> nk_fin p\<rparr>) t"

text \<open>\<open>TestSocketStatus\<close>: negative for a broken socket, positive when the event is signalled.\<close>

definition TestReadable :: "tside \<Rightarrow> 's TcpTask \<Rightarrow> int \<times> 's TcpTask" where
  "TestReadable s t =
     (case nk_readable (tt_peer t s) of [] \<Rightarrow> (0, t)
      | r # rs \<Rightarrow> (r, upd s (\<lambda>p. p\<lparr>nk_readable := rs\<rparr>) t))"

definition TestWritable :: "tside \<Rightarrow> 's TcpTask \<Rightarrow> int \<times> 's TcpTask" where
  "TestWritable s t =
     (case nk_writable (tt_peer t s) of [] \<Rightarrow> (0, t)
      | r # rs \<Rightarrow> (r, upd s (\<lambda>p. p\<lparr>nk_writable := rs\<rparr>) t))"

definition HasPendingRead :: "tside \<Rightarrow> 's TcpTask \<Rightarrow> bool \<times> 's TcpTask" where
  "HasPendingRead s t =
     (case nk_pendingRead (tt_peer t s) of [] \<Rightarrow> (False, t)
      | b # bs \<Rightarrow> (tp_pSecureLayer (tt_peer t s) \<and> b, upd s (\<lambda>p. p\<lparr>nk_pendingRead := bs\<rparr>) t))"

definition IOCtl_FIONREAD :: "tside \<Rightarrow> 's TcpTask \<Rightarrow> nat option \<times> 's TcpTask" where
  "IOCtl_FIONREAD s t =
     (case nk_fionread (tt_peer t s) of [] \<Rightarrow> (Some 0, t)
      | r # rs \<Rightarrow> (r, upd s (\<lambda>p. p\<lparr>nk_fionread := rs\<rparr>) t))"

section \<open>The peer\<close>

definition TcpPeer_new :: "dword \<Rightarrow> TcpPeer" where
  "TcpPeer_new now = \<lparr>tp_open = False, tp_lEvent = {}, tp_pProxyLayer = None, tp_pSecureLayer = False,
     tp_recvbuf = [], tp_sentpos = 0, tp_DataLenRecvd = 0, tp_DataLenSent = 0, tp_SocketStatus = TM_0,
     tp_TimeoutMonitor = (\<lambda>_. TimeoutMonitor_new now)(TM_CONN := SetTimeoutVal 15000 (TimeoutMonitor_new now),
       TM_SEND := SetTimeoutVal 30000 (TimeoutMonitor_new now), TM_RECV := SetTimeoutVal 30000 (TimeoutMonitor_new now)),
     tp_bConnShutted = False, tp_bReadClosed = False, tp_bWriteShutdown = False, tp_bForwardingReady = False,
     tp_bFullyClosing = False, tp_dwLastError = 0,
     nk_recv = [], nk_send = [], nk_readable = [], nk_writable = [], nk_fionread = [], nk_pendingRead = [],
     nk_select = [], nk_in = [], nk_out = [], nk_fin = False\<rparr>"

definition update_monitor :: "em_TMTimeOut \<Rightarrow> (TimeoutMonitor \<Rightarrow> TimeoutMonitor) \<Rightarrow> TcpPeer \<Rightarrow> TcpPeer" where
  "update_monitor k f p = p\<lparr>tp_TimeoutMonitor := (tp_TimeoutMonitor p)(k := f (tp_TimeoutMonitor p k))\<rparr>"

text \<open>Setting \<open>m_SocketStatus\<close> and refreshing its monitor.\<close>

definition enter_status :: "em_TMTimeOut \<Rightarrow> tside \<Rightarrow> 's TcpTask \<Rightarrow> 's TcpTask" where
  "enter_status k s t = upd s (\<lambda>p. update_monitor k (tm_Update (tt_now t)) (p\<lparr>tp_SocketStatus := k\<rparr>)) t"

definition pending :: "TcpPeer \<Rightarrow> bytes" where
  "pending p = drop (tp_sentpos p) (tp_recvbuf p)"

definition GetValidDataLen :: "TcpPeer \<Rightarrow> int" where
  "GetValidDataLen p = int (length (tp_recvbuf p)) - int (tp_sentpos p)"

definition Tcp_ClearBuffer :: "tside \<Rightarrow> 's TcpTask \<Rightarrow> 's TcpTask" where
  "Tcp_ClearBuffer s t = upd s (\<lambda>p. p\<lparr>tp_recvbuf := [], tp_sentpos := 0\<rparr>) t"

definition count_sent :: "tside \<Rightarrow> nat \<Rightarrow> 's TcpTask \<Rightarrow> 's TcpTask" where
  "count_sent s k t =
     tell (TcpTraffic (tp_pProxyLayer (tt_peer t s) \<noteq> None) k)
       (upd s (\<lambda>p. p\<lparr>tp_DataLenSent := tp_DataLenSent p + of_nat k\<rparr>) t)"

text \<open>The send loop: whether no error other than blocking occurred, and the bytes accepted.\<close>

function transfer_loop :: "tside \<Rightarrow> bytes \<Rightarrow> 's TcpTask \<Rightarrow> bool \<times> nat \<times> 's TcpTask" where
  "transfer_loop s data t =
     (if data = [] then (True, 0, t)
      else case Tcp_Send (other s) data t of
        (None, t') \<Rightarrow> (tt_lastError t' = WSAEWOULDBLOCK, 0, t')
      | (Some k, t') \<Rightarrow>
          (let (ok, n, t'') = transfer_loop s (drop k data) (count_sent s k t') in (ok, k + n, t'')))"
  by pat_completeness auto
termination
proof (relation "measure (\<lambda>(s, _, t). length (nk_send (tt_peer t (other s))))", goal_cases)
  case (2 s data t r t' k)
  then show ?case
    by (cases s) (auto simp: Tcp_Send_def count_sent_def upd_def tell_def Let_def split: if_splits list.splits send_result.splits)
qed simp

declare transfer_loop.simps [simp del]

definition TransferSend :: "tside \<Rightarrow> 's TcpTask \<Rightarrow> nat option \<times> 's TcpTask" where
  "TransferSend s t =
     (let data = pending (tt_peer t s);
          (ok, n, t) = transfer_loop s data (enter_status TM_SEND (other s) t);
          t = upd s (\<lambda>p. if n < length data then p\<lparr>tp_sentpos := tp_sentpos p + n\<rparr>
                         else p\<lparr>tp_sentpos := 0, tp_recvbuf := []\<rparr>) t
      in (if ok then Some n else None, t))"

section \<open>Closing\<close>

definition Tcp_OnPeerClosed :: "'s TcpTask \<Rightarrow> 's TcpTask" where
  "Tcp_OnPeerClosed t =
     (if tt_alive t \<and> \<not> tp_open (tt_peer t Client) \<and> \<not> tp_open (tt_peer t Server)
      then t\<lparr>tt_bDeletePending := True\<rparr> else t)"

definition PropagateHalfClose :: "tside \<Rightarrow> 's TcpTask \<Rightarrow> 's TcpTask" where
  "PropagateHalfClose s t =
     (let p = tt_peer t s; q = tt_peer t (other s) in
      if \<not> tp_bReadClosed p \<or> GetValidDataLen p \<noteq> 0 \<or> \<not> tp_open q \<or> tp_bWriteShutdown q \<or>
         (tp_pProxyLayer q \<noteq> None \<and> \<not> tp_bForwardingReady q) then t
      else let (n, t) = IOCtl_FIONREAD s t in
        case n of
          Some (Suc _) \<Rightarrow> Tcp_TriggerEvent s FD_READ 0 t
        | _ \<Rightarrow> upd (other s) (\<lambda>p. p\<lparr>tp_bWriteShutdown := True\<rparr>) (Tcp_ShutDown (other s) t))"

definition TryFinishConnection :: "tside \<Rightarrow> 's TcpTask \<Rightarrow> 's TcpTask" where
  "TryFinishConnection s t =
     (let p = tt_peer t s; q = tt_peer t (other s) in
      if tp_bFullyClosing p \<or> \<not> tp_bReadClosed p \<or> \<not> tp_bReadClosed q \<or> GetValidDataLen p \<noteq> 0 \<or>
         GetValidDataLen q \<noteq> 0 then t
      else let t = upd s (\<lambda>p. p\<lparr>tp_bFullyClosing := True\<rparr>) t;
               t = upd (other s) (\<lambda>p. p\<lparr>tp_bFullyClosing := True\<rparr>) t;
               t = snd (Tcp_AsyncSelect s {} t);
               t = snd (Tcp_AsyncSelect (other s) {} t);
               t = Tcp_Close (other s) (Tcp_Close s t);
               t = upd s (\<lambda>p. p\<lparr>tp_SocketStatus := TM_CLOSE\<rparr>) t;
               t = upd (other s) (\<lambda>p. p\<lparr>tp_SocketStatus := TM_CLOSE\<rparr>) t
        in Tcp_OnPeerClosed t)"

section \<open>The inspection bridge (MitmBridge.cpp)\<close>

definition mitm_io :: "'s MitmEnv \<Rightarrow> nat \<Rightarrow> tside \<Rightarrow> bytes \<Rightarrow> nat \<Rightarrow> 's TcpTask \<Rightarrow> int \<times> bytes \<times> 's TcpTask" where
  "mitm_io env op s data len t =
     (case tt_pMitm t of None \<Rightarrow> (0, [], t)
      | Some m \<Rightarrow> (let (r, out, x) = me_io env op s data len (mb_session m)
                   in (r, out, t\<lparr>tt_pMitm := Some (m\<lparr>mb_session := x\<rparr>)\<rparr>)))"

definition mitm_tell :: "'s MitmEnv \<Rightarrow> nat \<Rightarrow> tside \<Rightarrow> int \<Rightarrow> 's TcpTask \<Rightarrow> 's TcpTask" where
  "mitm_tell env op s err t = (case mitm_io env op s [] (nat err) t of (_, _, t) \<Rightarrow> t)"

definition upd_mitm :: "('s MitmBridge \<Rightarrow> 's MitmBridge) \<Rightarrow> 's TcpTask \<Rightarrow> 's TcpTask" where
  "upd_mitm f t = t\<lparr>tt_pMitm := map_option f (tt_pMitm t)\<rparr>"

text \<open>\<open>OnClose\<close> with an error code: both connections are closed.\<close>

definition close_error :: "'s MitmEnv \<Rightarrow> tside \<Rightarrow> int \<Rightarrow> 's TcpTask \<Rightarrow> 's TcpTask" where
  "close_error env s err t =
     (let t = upd s (\<lambda>p. p\<lparr>tp_bConnShutted := True\<rparr>) t;
          side = (if tp_pProxyLayer (tt_peer t s) \<noteq> None then Server else Client);
          t = mitm_tell env PLM_TRANSPORT_CLOSED side err (tap (TapClosed side err) t);
          t = tell (TcpOnClose side err) t;
          t = upd s (\<lambda>p. p\<lparr>tp_SocketStatus := TM_CLOSE\<rparr>) t;
          t = Tcp_Close s (snd (Tcp_AsyncSelect s {} t));
          t = upd s (\<lambda>p. p\<lparr>tp_dwLastError := err\<rparr>) t;
          t = (if tp_open (tt_peer t (other s))
               then Tcp_Close (other s) (snd (Tcp_AsyncSelect (other s) {} t)) else t)
      in Tcp_OnPeerClosed t)"

definition Mitm_Fail :: "'s MitmEnv \<Rightarrow> int \<Rightarrow> 's TcpTask \<Rightarrow> 's TcpTask" where
  "Mitm_Fail env err t =
     (case tt_pMitm t of None \<Rightarrow> t
      | Some m \<Rightarrow> if mb_failed m then t
          else close_error env Server (if err = 0 then WSAECONNABORTED else err)
                 (upd_mitm (\<lambda>m. m\<lparr>mb_failed := True\<rparr>) t))"

text \<open>The status bits of a session.\<close>

fun shutdown_bit :: "tside \<Rightarrow> nat" where
  "shutdown_bit Client = 1"
| "shutdown_bit Server = 2"

fun eof_bit :: "tside \<Rightarrow> nat" where
  "eof_bit Client = 3"
| "eof_bit Server = 4"

fun can_read_bit :: "tside \<Rightarrow> nat" where
  "can_read_bit Client = 6"
| "can_read_bit Server = 7"

text \<open>Sending what the session has for one side, within a budget; \<open>False\<close> after a failure.\<close>

function pump_send :: "'s MitmEnv \<Rightarrow> tside \<Rightarrow> int \<Rightarrow> 's TcpTask \<Rightarrow> bool \<times> int \<times> 's TcpTask" where
  "pump_send env s budget t =
     (if budget \<le> 0 \<or> tp_bWriteShutdown (tt_peer t s) then (True, budget, t)
      else case mitm_io env PLM_PEEK s [] 16384 t of (n, out, t1) \<Rightarrow>
        if n < 0 then (False, budget, Mitm_Fail env 0 t1)
        else if n = 0 then (True, budget, t1)
        else case Tcp_Send s (take (nat n) out) t1 of
          (None, t2) \<Rightarrow>
            if tt_lastError t2 = WSAEWOULDBLOCK then (True, budget, t2)
            else (False, budget, Mitm_Fail env (tt_lastError t2) t2)
        | (Some k, t2) \<Rightarrow>
            if k = 0 then (True, budget, t2)
            else case mitm_io env PLM_CONSUME s [] k t2 of (r, _, t3) \<Rightarrow>
              if r < 0 then (False, budget, Mitm_Fail env 0 t3)
              else pump_send env s (budget - int k)
                (tell (TcpTraffic (s = Client) k)
                  (upd (other s) (\<lambda>p. p\<lparr>tp_DataLenSent := tp_DataLenSent p + of_nat k\<rparr>) t3)))"
  by pat_completeness auto
termination by (relation "measure (\<lambda>(_, _, budget, _). nat budget)") auto

declare pump_send.simps [simp del]

definition pump_output :: "'s MitmEnv \<Rightarrow> tside \<Rightarrow> 's TcpTask \<Rightarrow> bool \<times> 's TcpTask" where
  "pump_output env s t =
     (let (ok, budget, t) = pump_send env s 65536 t
      in (ok, if ok \<and> budget \<le> 0 then Tcp_TriggerEvent s FD_WRITE 0 t else t))"

definition poll_handshake :: "'s MitmEnv \<Rightarrow> bool \<Rightarrow> 's MitmBridge \<Rightarrow> 's MitmBridge" where
  "poll_handshake env pend m =
     (if pend \<and> \<not> mb_pollHandshake m then
        let m = m\<lparr>mb_window := mb_window m \<or> me_CreateWindow env\<rparr>
        in if mb_window m then m\<lparr>mb_pollHandshake := me_SetTimer env\<rparr> else m
      else if \<not> pend \<and> mb_pollHandshake m then m\<lparr>mb_pollHandshake := False\<rparr>
      else m)"

definition apply_status :: "'s MitmEnv \<Rightarrow> int \<Rightarrow> tside \<Rightarrow> 's TcpTask \<Rightarrow> bool \<times> 's TcpTask" where
  "apply_status env status s t =
     (let paused = (\<not> bit status (can_read_bit s));
          t = (if bit status (eof_bit s) then upd s (\<lambda>p. p\<lparr>tp_bReadClosed := True\<rparr>) t else t);
          t = (if bit status (shutdown_bit s) \<and> \<not> tp_bWriteShutdown (tt_peer t s)
               then upd s (\<lambda>p. p\<lparr>tp_bWriteShutdown := True\<rparr>) (Tcp_ShutDown s t) else t);
          events = {FD_WRITE, FD_CLOSE} \<union> (if \<not> paused \<and> \<not> tp_bReadClosed (tt_peer t s) then {FD_READ} else {});
          (ok, t) = (if tp_lEvent (tt_peer t s) \<noteq> events then Tcp_AsyncSelect s events t else (True, t))
      in if \<not> ok then (False, Mitm_Fail env (tt_lastError t) t)
         else let was = (case tt_pMitm t of Some m \<Rightarrow> mb_paused m s | None \<Rightarrow> False);
                  t = (if was \<and> \<not> paused \<and> \<not> tp_bReadClosed (tt_peer t s) then Tcp_TriggerEvent s FD_READ 0 t else t)
              in (True, upd_mitm (\<lambda>m. m\<lparr>mb_paused := (mb_paused m)(s := paused)\<rparr>) t))"

definition finish_both :: "'s TcpTask \<Rightarrow> 's TcpTask" where
  "finish_both t =
     (if tp_bReadClosed (tt_peer t Client) \<and> tp_bReadClosed (tt_peer t Server) \<and>
         tp_bWriteShutdown (tt_peer t Client) \<and> tp_bWriteShutdown (tt_peer t Server)
      then let t = snd (Tcp_AsyncSelect Server {} (snd (Tcp_AsyncSelect Client {} t)))
           in Tcp_OnPeerClosed (Tcp_Close Server (Tcp_Close Client t))
      else t)"

definition Mitm_Pump :: "'s MitmEnv \<Rightarrow> 's TcpTask \<Rightarrow> bool \<times> 's TcpTask" where
  "Mitm_Pump env t =
     (case tt_pMitm t of None \<Rightarrow> (False, t)
      | Some m \<Rightarrow>
        if mb_failed m then (False, t)
        else if \<not> tp_bForwardingReady (tt_peer t Server) then (True, t)
        else case pump_output env Client t of (ok, t) \<Rightarrow>
          if \<not> ok then (False, t)
          else case pump_output env Server t of (ok, t) \<Rightarrow>
            if \<not> ok then (False, t)
            else case mitm_io env PLM_STATUS Client [] 0 t of (status, _, t) \<Rightarrow>
              if status < 0 then (False, Mitm_Fail env 0 t)
              else case apply_status env status Client
                  (upd_mitm (poll_handshake env (bit status 8 \<or> bit status 9)) t) of (ok, t) \<Rightarrow>
                if \<not> ok then (False, t)
                else case apply_status env status Server t of (ok, t) \<Rightarrow>
                  if \<not> ok then (False, t) else (True, finish_both t))"

text \<open>
  The read loop; the budget is \<open>None\<close> when the handler returns from inside the loop. After the
  end of the stream \<open>m_bReadClosed\<close> is set, so the handler returns there too.
\<close>

function mitm_read_loop :: "'s MitmEnv \<Rightarrow> tside \<Rightarrow> int \<Rightarrow> 's TcpTask \<Rightarrow> int option \<times> 's TcpTask" where
  "mitm_read_loop env s budget t =
     (if budget \<le> 0 then (Some budget, t)
      else case mitm_io env PLM_STATUS Client [] 0 t of (status, _, t1) \<Rightarrow>
        if status < 0 then (None, Mitm_Fail env 0 t1)
        else if \<not> bit status (can_read_bit s) then (Some budget, t1)
        else case Tcp_Receive s 4096 t1 of
          (None, t2) \<Rightarrow>
            if tt_lastError t2 \<noteq> WSAEWOULDBLOCK then (None, Mitm_Fail env (tt_lastError t2) t2)
            else (Some budget, t2)
        | (Some d, t2) \<Rightarrow>
            case mitm_io env (if d \<noteq> [] then PLM_FEED else PLM_EOF) s d (length d) t2 of (r, _, t3) \<Rightarrow>
              if r < 0 then (None, Mitm_Fail env 0 t3)
              else let t4 = (if d \<noteq> [] then tell (TcpPacket s d) t3 else t3);
                       t5 = upd s (\<lambda>p. p\<lparr>tp_DataLenRecvd := tp_DataLenRecvd p + of_nat (length d),
                              tp_bReadClosed := tp_bReadClosed p \<or> d = []\<rparr>) t4;
                       (ok, t6) = Mitm_Pump env t5
                   in if \<not> ok \<or> tp_bReadClosed (tt_peer t6 s) \<or> \<not> tp_open (tt_peer t6 s) \<or> d = [] then (None, t6)
                      else mitm_read_loop env s (budget - int (length d)) t6)"
  by pat_completeness auto
termination by (relation "measure (\<lambda>(_, _, budget, _). nat budget)") auto

declare mitm_read_loop.simps [simp del]

definition Mitm_OnRead :: "'s MitmEnv \<Rightarrow> tside \<Rightarrow> int \<Rightarrow> 's TcpTask \<Rightarrow> 's TcpTask" where
  "Mitm_OnRead env s err t =
     (if err \<noteq> 0 then Mitm_Fail env err t
      else if (case tt_pMitm t of Some m \<Rightarrow> mb_failed m | None \<Rightarrow> True) \<or>
              \<not> tp_bForwardingReady (tt_peer t Server) \<or> tp_bReadClosed (tt_peer t s) then t
      else case mitm_read_loop env s 65536 t of
        (None, t) \<Rightarrow> t
      | (Some budget, t) \<Rightarrow>
          let (ok, t) = Mitm_Pump env t in
          if \<not> ok then t
          else if budget \<le> 0 \<and> \<not> (case tt_pMitm t of Some m \<Rightarrow> mb_paused m s | None \<Rightarrow> True) \<and> \<not> tp_bReadClosed (tt_peer t s)
          then Tcp_TriggerEvent s FD_READ 0 t else t)"

definition Mitm_OnWritable :: "'s MitmEnv \<Rightarrow> 's TcpTask \<Rightarrow> 's TcpTask" where
  "Mitm_OnWritable env t = snd (Mitm_Pump env t)"

section \<open>The socket handlers\<close>

definition recv_size :: "recv_result list \<Rightarrow> nat" where
  "recv_size rs = sum_list (map (\<lambda>r. case r of RecvError _ \<Rightarrow> 1 | RecvData d \<Rightarrow> Suc (length d)) rs)"

text \<open>What a peer does with the bytes it has just read: observers, counters, forwarding.\<close>

definition take_in :: "tside \<Rightarrow> bytes \<Rightarrow> 's TcpTask \<Rightarrow> 's TcpTask" where
  "take_in s d t =
     (let side = (if tp_pProxyLayer (tt_peer t s) \<noteq> None then Server else Client);
          t = tap (TapData side d) t;
          t = upd s (\<lambda>p. p\<lparr>tp_recvbuf := tp_recvbuf p @ d, tp_DataLenRecvd := tp_DataLenRecvd p + of_nat (length d)\<rparr>) t
      in tell (TcpPacket side (tp_recvbuf (tt_peer t s))) t)"

definition read_eof :: "tside \<Rightarrow> 's TcpTask \<Rightarrow> 's TcpTask" where
  "read_eof s t =
     (let side = (if tp_pProxyLayer (tt_peer t s) \<noteq> None then Server else Client)
      in snd (Tcp_AsyncSelect s {FD_WRITE, FD_CLOSE}
        (upd s (\<lambda>p. p\<lparr>tp_bConnShutted := True, tp_bReadClosed := True\<rparr>) (tap (TapEof side) t))))"

lemma nk_recv_prims [simp]:
  "nk_recv (tt_peer (enter_status k q t) s) = nk_recv (tt_peer t s)"
  "nk_recv (tt_peer (count_sent q n t) s) = nk_recv (tt_peer t s)"
  "nk_recv (tt_peer (take_in q d t) s) = nk_recv (tt_peer t s)"
  by (simp_all add: enter_status_def update_monitor_def count_sent_def take_in_def tap_def tell_def upd_def Let_def)

lemma nk_recv_Send: "Tcp_Send q data t = (r, t') \<Longrightarrow> nk_recv (tt_peer t' s) = nk_recv (tt_peer t s)"
  by (auto simp: Tcp_Send_def upd_def Let_def split: if_splits list.splits send_result.splits)

lemma nk_recv_transfer: "transfer_loop q data t = (ok, n, t') \<Longrightarrow> nk_recv (tt_peer t' s) = nk_recv (tt_peer t s)"
proof (induction q data t arbitrary: ok n t' rule: transfer_loop.induct)
  case (1 q data t)
  show ?case
  proof (cases "data = []")
    case True
    then show ?thesis using 1 by (simp add: transfer_loop.simps)
  next
    case False
    obtain r t1 where send: "Tcp_Send (other q) data t = (r, t1)" by fastforce
    then show ?thesis
      using 1 False nk_recv_Send [OF send]
      by (cases r) (auto simp: transfer_loop.simps [of q data t] split: prod.splits)
  qed
qed

lemma nk_recv_TransferSend [simp]: "nk_recv (tt_peer (snd (TransferSend q t)) s) = nk_recv (tt_peer t s)"
  using nk_recv_transfer [of q "pending (tt_peer t q)" "enter_status TM_SEND (other q) t"]
  by (auto simp: TransferSend_def upd_def Let_def split: prod.split)

lemma nk_recv_TestReadable [simp]: "nk_recv (tt_peer (snd (TestReadable q t)) s) = nk_recv (tt_peer t s)"
  by (simp add: TestReadable_def upd_def split: list.split)

lemma Receive_shrinks:
  assumes "Tcp_Receive s n t = (Some (b # d), t')"
  shows "recv_size (nk_recv (tt_peer t' s)) < recv_size (nk_recv (tt_peer t s))"
proof -
  have "tp_open (tt_peer t s)" using assms by (cases "tp_open (tt_peer t s)") (simp_all add: Tcp_Receive_def)
  moreover obtain r rs where "nk_recv (tt_peer t s) = r # rs"
    using assms calculation by (cases "nk_recv (tt_peer t s)") (simp_all add: Tcp_Receive_def)
  ultimately show ?thesis using assms
    by (cases r) (cases n; auto simp: Tcp_Receive_def recv_size_def upd_def Let_def)+
qed

text \<open>The read loop: whether all went well, the number of bytes read and the error code.\<close>

function tcp_read_loop :: "tside \<Rightarrow> nat \<Rightarrow> 's TcpTask \<Rightarrow> bool \<times> nat \<times> int \<times> 's TcpTask" where
  "tcp_read_loop s nRecvd t =
     (let p = tt_peer t s in
      if \<not> (length (tp_recvbuf p) < MAXTCPBUFSIZE \<and> (nRecvd < MAX_EVENT_READ_BYTES \<or> tp_bReadClosed p))
      then (True, nRecvd, 0, t)
      else case Tcp_Receive s (MAXTCPBUFSIZE - length (tp_recvbuf p)) t of
        (None, t) \<Rightarrow> (tt_lastError t = WSAEWOULDBLOCK, nRecvd, tt_lastError t, t)
      | (Some [], t) \<Rightarrow> (True, nRecvd, 0, read_eof s t)
      | (Some (b # d), t) \<Rightarrow>
          let t1 = take_in s (b # d) t; nValidLen = length (tp_recvbuf (tt_peer t1 s));
              nRecvd = nRecvd + length (b # d); sent = fst (TransferSend s t1); t2 = snd (TransferSend s t1)
          in case sent of
               None \<Rightarrow> (False, nRecvd, 0, t2)
             | Some n \<Rightarrow>
                 if n < nValidLen then (True, nRecvd, 0, t2)
                 else let readable = fst (TestReadable s t2); t3 = snd (TestReadable s t2)
                   in if readable < 0 then (False, nRecvd, 0, t3)
                      else if readable = 0 then (True, nRecvd, 0, t3)
                      else tcp_read_loop s nRecvd t3)"
  by pat_completeness auto
termination
proof (relation "measure (\<lambda>(s, _, t). recv_size (nk_recv (tt_peer t s)))", goal_cases)
  case 2
  show ?case using Receive_shrinks [of _ _ _ _ _ _, OF sym [OF 2(3) [unfolded 2(4,5)]]] by (simp add: 2(6,10,14))
qed simp

declare tcp_read_loop.simps [simp del]

definition Tcp_OnReceive :: "'s MitmEnv \<Rightarrow> tside \<Rightarrow> int \<Rightarrow> 's TcpTask \<Rightarrow> 's TcpTask" where
  "Tcp_OnReceive env s nErrorCode t =
     (if tt_pMitm t \<noteq> None then Mitm_OnRead env s nErrorCode t
      else if nErrorCode \<noteq> 0 then t
      else let t = enter_status TM_RECV s t in
        if tp_recvbuf (tt_peer t s) \<noteq> [] then t
        else case tcp_read_loop s 0 t of (ok, nRecvd, err, t) \<Rightarrow>
          if \<not> ok then Tcp_TriggerEvent s FD_CLOSE err (Tcp_ClearBuffer s t)
          else let t = (if \<not> tp_bReadClosed (tt_peer t s) \<and> MAX_EVENT_READ_BYTES \<le> nRecvd
                        then let (readable, t) = TestReadable s t
                             in if 0 < readable then Tcp_TriggerEvent s FD_READ 0 t else t
                        else t)
               in TryFinishConnection s (PropagateHalfClose s t))"

text \<open>\<open>OnClose\<close>: without an error code it asks for the rest of the stream.\<close>

definition Tcp_OnClose :: "'s MitmEnv \<Rightarrow> tside \<Rightarrow> int \<Rightarrow> 's TcpTask \<Rightarrow> 's TcpTask" where
  "Tcp_OnClose env s nErrorCode t =
     (if tt_pMitm t \<noteq> None \<and> nErrorCode = 0 then Mitm_OnRead env s 0 t
      else if nErrorCode \<noteq> 0 then close_error env s nErrorCode t
      else let t = upd s (\<lambda>p. p\<lparr>tp_bConnShutted := True\<rparr>) t in
        if 0 < GetValidDataLen (tt_peer t s) then t
        else if tp_bReadClosed (tt_peer t s) then TryFinishConnection s (PropagateHalfClose s t)
        else Tcp_TriggerEvent s FD_READ 0 (snd (Tcp_AsyncSelect s {FD_READ, FD_WRITE, FD_CLOSE} t)))"

definition send_drained :: "tside \<Rightarrow> 's TcpTask \<Rightarrow> 's TcpTask" where
  "send_drained s t =
     (let (readable, t) = TestReadable (other s) t in
      if readable < 0 then Tcp_TriggerEvent s FD_CLOSE 0 (Tcp_ClearBuffer (other s) (Tcp_ClearBuffer s t))
      else if 0 < readable then Tcp_TriggerEvent (other s) FD_READ 0 t
      else let (more, t) = HasPendingRead (other s) t
           in if more then Tcp_TriggerEvent (other s) FD_READ 0 t else t)"

definition Tcp_OnSend :: "'s MitmEnv \<Rightarrow> tside \<Rightarrow> int \<Rightarrow> 's TcpTask \<Rightarrow> 's TcpTask" where
  "Tcp_OnSend env s nErrorCode t =
     (if tt_pMitm t \<noteq> None then
        if nErrorCode \<noteq> 0 then Tcp_OnClose env s nErrorCode t else Mitm_OnWritable env t
      else if nErrorCode \<noteq> 0 then t
      else let t = enter_status TM_SEND s t; validlen = GetValidDataLen (tt_peer t (other s)) in
        if 0 < validlen then
          case TransferSend (other s) t of
            (None, t) \<Rightarrow> Tcp_TriggerEvent s FD_CLOSE 0 (Tcp_ClearBuffer (other s) (Tcp_ClearBuffer s t))
          | (Some n, t) \<Rightarrow>
              let t = (if int n < validlen then t else send_drained s t)
              in TryFinishConnection (other s) (PropagateHalfClose (other s) t)
        else TryFinishConnection (other s) (PropagateHalfClose (other s) t))"

definition Tcp_OnConnect :: "'s MitmEnv \<Rightarrow> tside \<Rightarrow> int \<Rightarrow> 's TcpTask \<Rightarrow> 's TcpTask" where
  "Tcp_OnConnect env s nErrorCode t =
     (let t = tell (TcpOnConnect nErrorCode) (tap (TapConnected nErrorCode) (mitm_tell env PLM_CONNECTED Client nErrorCode t)) in
      if nErrorCode \<noteq> 0 then Tcp_OnClose env s nErrorCode t
      else let c = other s;
               t = upd s (\<lambda>p. p\<lparr>tp_bForwardingReady := True\<rparr>) t;
               t = snd (Tcp_AsyncSelect c {FD_READ, FD_WRITE, FD_CLOSE} t) in
        if tt_pMitm t \<noteq> None
        then Tcp_TriggerEvent c FD_READ 0 (Tcp_TriggerEvent s FD_READ 0 (Mitm_OnWritable env t))
        else let t = (if 0 < GetValidDataLen (tt_peer t c) then Tcp_TriggerEvent s FD_WRITE 0 t else t);
                 (writable, t) = TestWritable c t;
                 t = (if 0 < writable then Tcp_TriggerEvent c FD_WRITE 0 t else t);
                 (readable, t) = TestReadable c t;
                 t = (if 0 < readable then Tcp_TriggerEvent c FD_READ 0 t else t);
                 fresh = tm_Update (tt_now t) \<circ> tm_Enable;
                 t = upd c (\<lambda>p. update_monitor TM_RECV fresh (update_monitor TM_SEND fresh p)) t
             in PropagateHalfClose c t)"

definition Tcp_OnTimer :: "'s MitmEnv \<Rightarrow> tside \<Rightarrow> 's TcpTask \<Rightarrow> 's TcpTask" where
  "Tcp_OnTimer env s t =
     (let p = tt_peer t s; timeout = (\<lambda>k. IsTimeout (tt_now t) (tp_TimeoutMonitor p k)) in
      if tt_pMitm t \<noteq> None \<and> (tp_bForwardingReady p \<or> tp_pProxyLayer p = None) then Mitm_OnWritable env t
      else case tp_SocketStatus p of
        TM_CONN \<Rightarrow> if timeout TM_CONN
          then Tcp_TriggerEvent s FD_CLOSE WSAETIMEDOUT (Tcp_ClearBuffer s (tell TcpTimeoutLogged t)) else t
      | TM_SHUT \<Rightarrow> if timeout TM_SHUT then Tcp_TriggerEvent s FD_CLOSE WSAETIMEDOUT (Tcp_ClearBuffer s t) else t
      | _ \<Rightarrow> t)"

section \<open>Connecting a task\<close>

datatype ConnectionStage = STAGE_ALLOCATE | STAGE_TRANSPORT | STAGE_SOCKET | STAGE_CONNECT | STAGE_ATTACH | STAGE_IPV6_ROUTE

text \<open>
  What the allocations and socket calls of a connection attempt answer; a failing call leaves
  its error number.
\<close>

record 's TcpSetup =
  su_AddLayer :: bool
  su_Configure :: bool
  su_AddSecureLayer :: bool
  su_Create :: "int option"
  su_AsyncSelect :: "int option"
  su_layerEnv :: LayerEnv
  su_MitmEnabled :: bool
  su_MitmInitialize :: "'s option"
  su_TapEnabled :: bool
  su_Attach :: "int option"

definition proxy_layer :: "ProxyInfo option \<Rightarrow> Layer" where
  "proxy_layer pi =
     (case pi of None \<Rightarrow> SetProxy_none layer_fresh
      | Some i \<Rightarrow>
        (case GetProxyType i of
           PROXYTYPE_NOPROXY \<Rightarrow> SetProxy_none layer_fresh
         | PROXYTYPE_SOCKS4 \<Rightarrow> SetProxy PROXYTYPE_SOCKS4 (strProxyHost i) (nProxyPort i) layer_fresh
         | PROXYTYPE_SOCKS4A \<Rightarrow> SetProxy PROXYTYPE_SOCKS4A (strProxyHost i) (nProxyPort i) layer_fresh
         | ty \<Rightarrow> SetProxy_logon ty (strProxyHost i) (nProxyPort i) (strProxyUser i) (strProxyPass i) layer_fresh))"

definition AddProxyLayer :: "'s TcpSetup \<Rightarrow> ProxyInfo option \<Rightarrow> tside \<Rightarrow> 's TcpTask \<Rightarrow> bool \<times> 's TcpTask" where
  "AddProxyLayer su pi s t =
     (if UsesGoncTlsPsk pi \<and>
         (case pi of None \<Rightarrow> False | Some i \<Rightarrow> \<not> SupportsGoncTlsPsk (GetProxyType i) \<or> strTransportPsk i = [])
      then (False, t\<lparr>tt_lastError := WSAEINVAL\<rparr>)
      else let t = upd s (\<lambda>p. p\<lparr>tp_pProxyLayer := Some (proxy_layer pi)\<rparr>) t in
        if \<not> su_AddLayer su then (False, t)
        else if UsesGoncTlsPsk pi then
          (su_Configure su \<and> su_AddSecureLayer su, upd s (\<lambda>p. p\<lparr>tp_pSecureLayer := True\<rparr>) t)
        else (True, t))"

definition connect_layer :: "LayerEnv \<Rightarrow> PRCClient \<Rightarrow> Layer \<Rightarrow> bool \<times> Layer" where
  "connect_layer le c l =
     (if IsDNValid c \<and> \<not> HasProxyDestination c
      then Connect_host le (szDomainName c) (unat (sa_GetPort (dstAddr c))) l
      else Connect_addr le (Some (GetProxyDestination c)) (sa_Size (GetProxyDestination c)) l)"

definition Tcp_ConnectProxy :: "'s TcpSetup \<Rightarrow> PRCClient \<Rightarrow> ProxyInfo \<Rightarrow> tside \<Rightarrow> 's TcpTask \<Rightarrow> bool \<times> ConnectionStage \<times> 's TcpTask" where
  "Tcp_ConnectProxy su c pi s t =
     (let (ok, t) = AddProxyLayer su (Some pi) s t in
      if \<not> ok then (False, STAGE_TRANSPORT, t)
      else case su_Create su of Some e \<Rightarrow> (False, STAGE_SOCKET, t\<lparr>tt_lastError := e\<rparr>)
      | None \<Rightarrow>
        let t = upd s (\<lambda>p. p\<lparr>tp_open := True, tp_lEvent := {FD_READ, FD_WRITE, FD_CONNECT, FD_CLOSE}\<rparr>) t in
        (case su_AsyncSelect su of Some e \<Rightarrow> (False, STAGE_SOCKET, t\<lparr>tt_lastError := e\<rparr>)
         | None \<Rightarrow>
           let (bConnect, l) = connect_layer (su_layerEnv su) c (the (tp_pProxyLayer (tt_peer t s)));
               t = (upd s (\<lambda>p. p\<lparr>tp_pProxyLayer := Some l\<rparr>) t)\<lparr>tt_lastError := nx_lastError l\<rparr> in
           if \<not> bConnect \<and> nx_lastError l \<noteq> WSAEWOULDBLOCK then (False, STAGE_CONNECT, t)
           else let t = enter_status TM_CONN s t;
                    t = upd (other s) (\<lambda>p. update_monitor TM_RECV tm_Disable (update_monitor TM_SEND tm_Disable p)) t
                in (True, STAGE_CONNECT, t)))"

definition TcpTask_new :: "dword \<Rightarrow> 's TcpTask" where
  "TcpTask_new now = \<lparr>tt_PRCClient = PRCClient_zero, tt_ProxyInfo = ProxyInfo_zero, tt_alive = False,
     tt_peer = (\<lambda>_. TcpPeer_new now), tt_pMitm = None, tt_pProtocol = False, tt_bDeletePending = False,
     tt_reconnectSelected = False, tt_reconnectPending = False, tt_now = now, tt_lastError = 0, tt_events = []\<rparr>"

definition Mitm_new :: "'s \<Rightarrow> 's MitmBridge" where
  "Mitm_new x = \<lparr>mb_session = x, mb_failed = False, mb_paused = (\<lambda>_. False), mb_window = False, mb_pollHandshake = False\<rparr>"

text \<open>
  The end of a failed \<open>SetTaskInfo\<close>: the observers are told, everything is deleted. The
  destructor of a peer closes its socket when it has one.
\<close>

definition Tcp_destroy :: "tside \<Rightarrow> 's TcpTask \<Rightarrow> 's TcpTask" where
  "Tcp_destroy s t = (if tp_open (tt_peer t s) then tell (TcpDestroyed s) t else t)"

definition setup_failed :: "'s MitmEnv \<Rightarrow> 's TcpTask \<Rightarrow> 's TcpTask" where
  "setup_failed env t =
     (let error = tt_lastError t; told = (if error = 0 then WSAECONNABORTED else error);
          t = mitm_tell env PLM_CONNECTED Client told (tap (TapConnected told) t);
          t = Tcp_destroy Server (Tcp_destroy Client t)
      in t\<lparr>tt_pProtocol := False, tt_pMitm := None, tt_alive := False, tt_peer := (\<lambda>_. TcpPeer_new (tt_now t)), tt_lastError := error\<rparr>)"

text \<open>\<open>Attach\<close> stores the socket before it asks for its events, which is what can fail.\<close>

definition Tcp_SetTaskInfo ::
    "'s MitmEnv \<Rightarrow> 's TcpSetup \<Rightarrow> PRCClient \<Rightarrow> ProxyInfo \<Rightarrow> 's TcpTask \<Rightarrow> bool \<times> ConnectionStage \<times> 's TcpTask" where
  "Tcp_SetTaskInfo env su c pi t =
     (let t = t\<lparr>tt_alive := True, tt_PRCClient := c, tt_ProxyInfo := pi\<rparr> in
      if su_MitmEnabled su \<and> su_MitmInitialize su = None
      then (False, STAGE_ALLOCATE, setup_failed env (t\<lparr>tt_lastError := WSAEPROTONOSUPPORT\<rparr>))
      else
        let t = (if su_MitmEnabled su then t\<lparr>tt_pMitm := map_option Mitm_new (su_MitmInitialize su)\<rparr>
                 else t\<lparr>tt_pProtocol := su_TapEnabled su\<rparr>);
            (ok, stage, t) = Tcp_ConnectProxy su c pi Server t in
        if \<not> ok then (False, stage, setup_failed env t)
        else let t = upd Client (\<lambda>p. p\<lparr>tp_open := True, tp_lEvent := {FD_CLOSE}\<rparr>) t in
          case su_Attach su of
            Some e \<Rightarrow> (False, STAGE_ATTACH, setup_failed env (t\<lparr>tt_lastError := e\<rparr>))
          | None \<Rightarrow> (True, STAGE_ATTACH, t))"

definition Tcp_EndTask :: "'s TcpTask \<Rightarrow> 's TcpTask" where
  "Tcp_EndTask t =
     (Tcp_Close Server (Tcp_Close Client (tap TapReleased t)))\<lparr>tt_pProtocol := False, tt_pMitm := None, tt_alive := False\<rparr>"

section \<open>Runs\<close>

text \<open>
  The inputs of a task: the socket events of both peers, the timer of the manager, and the
  environment moving on, which appends to what the socket calls of one side are going to answer.
\<close>

record net_input =
  ni_recv :: "recv_result list"
  ni_send :: "send_result list"
  ni_readable :: "int list"
  ni_writable :: "int list"
  ni_fionread :: "nat option list"
  ni_pendingRead :: "bool list"
  ni_select :: "int option list"

datatype tcp_input =
    TcpReceive tside int | TcpWritable tside int | TcpConnect int | TcpClosed tside int | TcpTimer tside
  | TcpNetwork tside dword net_input

definition feed_network :: "net_input \<Rightarrow> TcpPeer \<Rightarrow> TcpPeer" where
  "feed_network ni p = p\<lparr>nk_recv := nk_recv p @ ni_recv ni, nk_send := nk_send p @ ni_send ni,
     nk_readable := nk_readable p @ ni_readable ni, nk_writable := nk_writable p @ ni_writable ni,
     nk_fionread := nk_fionread p @ ni_fionread ni, nk_pendingRead := nk_pendingRead p @ ni_pendingRead ni,
     nk_select := nk_select p @ ni_select ni\<rparr>"

text \<open>The dispatcher drops the events of a closed socket, and so does the timer.\<close>

fun tcp_step :: "'s MitmEnv \<Rightarrow> tcp_input \<Rightarrow> 's TcpTask \<Rightarrow> 's TcpTask" where
  "tcp_step env (TcpReceive s e) t = (if tp_open (tt_peer t s) then Tcp_OnReceive env s e t else t)"
| "tcp_step env (TcpWritable s e) t = (if tp_open (tt_peer t s) then Tcp_OnSend env s e t else t)"
| "tcp_step env (TcpConnect e) t = (if tp_open (tt_peer t Server) then Tcp_OnConnect env Server e t else t)"
| "tcp_step env (TcpClosed s e) t = (if tp_open (tt_peer t s) then Tcp_OnClose env s e t else t)"
| "tcp_step env (TcpTimer s) t = (if tp_open (tt_peer t s) then Tcp_OnTimer env s t else t)"
| "tcp_step env (TcpNetwork s now ni) t = (upd s (feed_network ni) t)\<lparr>tt_now := now\<rparr>"

definition tcp_run :: "'s MitmEnv \<Rightarrow> tcp_input list \<Rightarrow> 's TcpTask \<Rightarrow> 's TcpTask" where
  "tcp_run env is t = fold (tcp_step env) is t"

end
