(* ===== verification/TcpStream.thy ===== *)
theory TcpStream
  imports TcpPeer
begin

text \<open>
  What the forwarding of a TCP task does to the two byte streams: for every handler, the bytes
  read from one side, the bytes accepted by the other and the bytes in between.
\<close>

section \<open>Projections\<close>

text \<open>The part of a peer that carries data, and the part that says whether the task lives.\<close>

definition data_of :: "TcpPeer \<Rightarrow> bytes \<times> nat \<times> bytes \<times> bytes \<times> bool" where
  "data_of p = (tp_recvbuf p, tp_sentpos p, nk_in p, nk_out p, nk_fin p)"

definition stream :: "'s TcpTask \<Rightarrow> tside \<Rightarrow> bytes \<times> nat \<times> bytes \<times> bytes \<times> bool" where
  "stream t = (\<lambda>s. data_of (tt_peer t s))"

definition life :: "'s TcpTask \<Rightarrow> bool \<times> bool \<times> bool \<times> bool \<times> bool" where
  "life t = (tt_alive t, tt_bDeletePending t, tt_pMitm t = None, tp_open (tt_peer t Client), tp_open (tt_peer t Server))"

definition status :: "'s TcpTask \<Rightarrow> tside \<Rightarrow> em_TMTimeOut" where
  "status t = (\<lambda>s. tp_SocketStatus (tt_peer t s))"

text \<open>A network whose sends fail only by blocking and whose sockets are never found broken.\<close>

definition good_peer :: "TcpPeer \<Rightarrow> bool" where
  "good_peer p \<longleftrightarrow> (\<forall>e. SendError e \<in> set (nk_send p) \<longrightarrow> e = WSAEWOULDBLOCK) \<and> (\<forall>r \<in> set (nk_readable p). 0 \<le> r)"

definition healthy :: "'s TcpTask \<Rightarrow> bool" where
  "healthy t \<longleftrightarrow> (\<forall>s. good_peer (tt_peer t s))"

lemma other_other [simp]: "other (other s) = s"
  by (cases s) simp_all

lemma other_neq [simp]: "other s \<noteq> s" "s \<noteq> other s"
  by (cases s; simp)+

lemma side_eq_other: "(q = other s) = (q \<noteq> s)"
  by (cases q; cases s; simp)

lemma tt_peer_upd [simp]: "tt_peer (upd s f t) q = (if q = s then f (tt_peer t s) else tt_peer t q)"
  by (simp add: upd_def)

lemma upd_fields [simp]:
  "tt_alive (upd s f t) = tt_alive t" "tt_bDeletePending (upd s f t) = tt_bDeletePending t"
  "tt_pMitm (upd s f t) = tt_pMitm t" "tt_lastError (upd s f t) = tt_lastError t" "tt_now (upd s f t) = tt_now t"
  "tt_events (upd s f t) = tt_events t"
  by (simp_all add: upd_def)

lemma data_of_fields [simp]:
  "data_of (p\<lparr>tp_open := x0\<rparr>) = data_of p"
  "data_of (p\<lparr>tp_lEvent := x1\<rparr>) = data_of p"
  "data_of (p\<lparr>tp_pProxyLayer := x2\<rparr>) = data_of p"
  "data_of (p\<lparr>tp_pSecureLayer := x3\<rparr>) = data_of p"
  "data_of (p\<lparr>tp_DataLenRecvd := x4\<rparr>) = data_of p"
  "data_of (p\<lparr>tp_DataLenSent := x5\<rparr>) = data_of p"
  "data_of (p\<lparr>tp_SocketStatus := x6\<rparr>) = data_of p"
  "data_of (p\<lparr>tp_TimeoutMonitor := x7\<rparr>) = data_of p"
  "data_of (p\<lparr>tp_bConnShutted := x8\<rparr>) = data_of p"
  "data_of (p\<lparr>tp_bReadClosed := x9\<rparr>) = data_of p"
  "data_of (p\<lparr>tp_bWriteShutdown := x10\<rparr>) = data_of p"
  "data_of (p\<lparr>tp_bForwardingReady := x11\<rparr>) = data_of p"
  "data_of (p\<lparr>tp_bFullyClosing := x12\<rparr>) = data_of p"
  "data_of (p\<lparr>tp_dwLastError := x13\<rparr>) = data_of p"
  "data_of (p\<lparr>nk_recv := x14\<rparr>) = data_of p"
  "data_of (p\<lparr>nk_send := x15\<rparr>) = data_of p"
  "data_of (p\<lparr>nk_readable := x16\<rparr>) = data_of p"
  "data_of (p\<lparr>nk_writable := x17\<rparr>) = data_of p"
  "data_of (p\<lparr>nk_fionread := x18\<rparr>) = data_of p"
  "data_of (p\<lparr>nk_pendingRead := x19\<rparr>) = data_of p"
  "data_of (p\<lparr>nk_select := x20\<rparr>) = data_of p"
  by (simp_all add: data_of_def)

lemma good_peer_fields [simp]:
  "good_peer (p\<lparr>tp_open := x0\<rparr>) = good_peer p"
  "good_peer (p\<lparr>tp_lEvent := x1\<rparr>) = good_peer p"
  "good_peer (p\<lparr>tp_pProxyLayer := x2\<rparr>) = good_peer p"
  "good_peer (p\<lparr>tp_pSecureLayer := x3\<rparr>) = good_peer p"
  "good_peer (p\<lparr>tp_DataLenRecvd := x4\<rparr>) = good_peer p"
  "good_peer (p\<lparr>tp_DataLenSent := x5\<rparr>) = good_peer p"
  "good_peer (p\<lparr>tp_SocketStatus := x6\<rparr>) = good_peer p"
  "good_peer (p\<lparr>tp_TimeoutMonitor := x7\<rparr>) = good_peer p"
  "good_peer (p\<lparr>tp_bConnShutted := x8\<rparr>) = good_peer p"
  "good_peer (p\<lparr>tp_bReadClosed := x9\<rparr>) = good_peer p"
  "good_peer (p\<lparr>tp_bWriteShutdown := x10\<rparr>) = good_peer p"
  "good_peer (p\<lparr>tp_bForwardingReady := x11\<rparr>) = good_peer p"
  "good_peer (p\<lparr>tp_bFullyClosing := x12\<rparr>) = good_peer p"
  "good_peer (p\<lparr>tp_dwLastError := x13\<rparr>) = good_peer p"
  "good_peer (p\<lparr>nk_recv := x14\<rparr>) = good_peer p"
  "good_peer (p\<lparr>nk_writable := x17\<rparr>) = good_peer p"
  "good_peer (p\<lparr>nk_fionread := x18\<rparr>) = good_peer p"
  "good_peer (p\<lparr>nk_pendingRead := x19\<rparr>) = good_peer p"
  "good_peer (p\<lparr>nk_select := x20\<rparr>) = good_peer p"
  "good_peer (p\<lparr>tp_recvbuf := x21\<rparr>) = good_peer p"
  "good_peer (p\<lparr>tp_sentpos := x22\<rparr>) = good_peer p"
  "good_peer (p\<lparr>nk_in := x23\<rparr>) = good_peer p"
  "good_peer (p\<lparr>nk_out := x24\<rparr>) = good_peer p"
  "good_peer (p\<lparr>nk_fin := x25\<rparr>) = good_peer p"
  by (simp_all add: good_peer_def)

lemma stream_upd [simp]: "stream (upd s f t) = (stream t)(s := data_of (f (tt_peer t s)))"
  by (simp add: stream_def fun_eq_iff)

lemma stream_same [simp]: "(stream t)(s := data_of (tt_peer t s)) = stream t"
  by (simp add: stream_def fun_eq_iff)

lemma task_fields [simp]:
  "stream (t\<lparr>tt_lastError := e\<rparr>) = stream t" "stream (t\<lparr>tt_events := es\<rparr>) = stream t" "stream (t\<lparr>tt_bDeletePending := b\<rparr>) = stream t"
  "stream (t\<lparr>tt_pMitm := m\<rparr>) = stream t" "stream (t\<lparr>tt_now := n\<rparr>) = stream t"
  "healthy (t\<lparr>tt_lastError := e\<rparr>) = healthy t" "healthy (t\<lparr>tt_events := es\<rparr>) = healthy t" "healthy (t\<lparr>tt_bDeletePending := b\<rparr>) = healthy t"
  "healthy (t\<lparr>tt_pMitm := m\<rparr>) = healthy t" "healthy (t\<lparr>tt_now := n\<rparr>) = healthy t"
  by (simp_all add: stream_def healthy_def)

lemma healthy_upd: "healthy t \<Longrightarrow> good_peer (f (tt_peer t s)) \<Longrightarrow> healthy (upd s f t)"
  by (simp add: healthy_def)

lemma healthy_peer: "healthy t \<Longrightarrow> good_peer (tt_peer t s)"
  by (simp add: healthy_def)

lemma life_upd: "tp_open (f (tt_peer t s)) = tp_open (tt_peer t s) \<Longrightarrow> life (upd s f t) = life t"
  by (auto simp: life_def)

lemma life_fields [simp]:
  "life (t\<lparr>tt_lastError := e\<rparr>) = life t" "life (t\<lparr>tt_events := es\<rparr>) = life t" "life (t\<lparr>tt_now := n\<rparr>) = life t"
  by (simp_all add: life_def)

lemma life_open: "life t = life t' \<Longrightarrow> tp_open (tt_peer t s) = tp_open (tt_peer t' s)"
  by (cases s) (simp_all add: life_def)

lemma stream_eq_iff:
  "stream t = stream t' \<longleftrightarrow> (\<forall>s. tp_recvbuf (tt_peer t s) = tp_recvbuf (tt_peer t' s) \<and> tp_sentpos (tt_peer t s) = tp_sentpos (tt_peer t' s) \<and>
     nk_in (tt_peer t s) = nk_in (tt_peer t' s) \<and> nk_out (tt_peer t s) = nk_out (tt_peer t' s) \<and> nk_fin (tt_peer t s) = nk_fin (tt_peer t' s))"
  by (auto simp: stream_def data_of_def fun_eq_iff)

lemma stream_prims [simp]:
  "stream (tell e t) = stream t"
  "stream (tap e t) = stream t"
  "stream (Tcp_TriggerEvent q ev err t) = stream t"
  "stream (enter_status k q t) = stream t"
  "stream (count_sent q n t) = stream t"
  "stream (snd (TestReadable q t)) = stream t"
  "stream (snd (TestWritable q t)) = stream t"
  "stream (snd (HasPendingRead q t)) = stream t"
  "stream (snd (IOCtl_FIONREAD q t)) = stream t"
  "stream (snd (Tcp_AsyncSelect q evs t)) = stream t"
  "stream (read_eof q t) = stream t"
  by (simp_all add: HasPendingRead_def IOCtl_FIONREAD_def Let_def Tcp_AsyncSelect_def Tcp_TriggerEvent_def TestReadable_def TestWritable_def count_sent_def enter_status_def read_eof_def tap_def tell_def update_monitor_def  split: list.split option.split)

lemma life_prims [simp]:
  "life (tell e t) = life t"
  "life (tap e t) = life t"
  "life (Tcp_TriggerEvent q ev err t) = life t"
  "life (enter_status k q t) = life t"
  "life (count_sent q n t) = life t"
  "life (snd (TestReadable q t)) = life t"
  "life (snd (TestWritable q t)) = life t"
  "life (snd (HasPendingRead q t)) = life t"
  "life (snd (IOCtl_FIONREAD q t)) = life t"
  "life (snd (Tcp_AsyncSelect q evs t)) = life t"
  "life (read_eof q t) = life t"
  by (simp_all add: HasPendingRead_def IOCtl_FIONREAD_def Let_def Tcp_AsyncSelect_def Tcp_TriggerEvent_def TestReadable_def TestWritable_def count_sent_def enter_status_def read_eof_def tap_def tell_def update_monitor_def life_upd split: list.split option.split)

lemma status_prims [simp]:
  "status (tell e t) = status t"
  "status (tap e t) = status t"
  "status (Tcp_TriggerEvent q ev err t) = status t"
  "status (count_sent q n t) = status t"
  "status (snd (TestReadable q t)) = status t"
  "status (snd (TestWritable q t)) = status t"
  "status (snd (HasPendingRead q t)) = status t"
  "status (snd (IOCtl_FIONREAD q t)) = status t"
  "status (snd (Tcp_AsyncSelect q evs t)) = status t"
  "status (read_eof q t) = status t"
  "status (enter_status k q t) = (status t)(q := k)"
  by (simp_all add: status_def fun_eq_iff HasPendingRead_def IOCtl_FIONREAD_def Let_def Tcp_AsyncSelect_def Tcp_TriggerEvent_def TestReadable_def TestWritable_def count_sent_def enter_status_def read_eof_def tap_def tell_def update_monitor_def split: list.split option.split)

lemma healthy_prims [simp]:
  "healthy t \<Longrightarrow> healthy (tell e t)"
  "healthy t \<Longrightarrow> healthy (tap e t)"
  "healthy t \<Longrightarrow> healthy (Tcp_TriggerEvent q ev err t)"
  "healthy t \<Longrightarrow> healthy (enter_status k q t)"
  "healthy t \<Longrightarrow> healthy (count_sent q n t)"
  "healthy t \<Longrightarrow> healthy (snd (TestWritable q t))"
  "healthy t \<Longrightarrow> healthy (snd (HasPendingRead q t))"
  "healthy t \<Longrightarrow> healthy (snd (IOCtl_FIONREAD q t))"
  "healthy t \<Longrightarrow> healthy (snd (Tcp_AsyncSelect q evs t))"
  "healthy t \<Longrightarrow> healthy (read_eof q t)"
  by (simp_all add: HasPendingRead_def IOCtl_FIONREAD_def Let_def Tcp_AsyncSelect_def Tcp_TriggerEvent_def TestReadable_def TestWritable_def count_sent_def enter_status_def read_eof_def tap_def tell_def update_monitor_def healthy_upd healthy_peer split: list.split option.split)

lemma good_peer_readable: "good_peer p \<Longrightarrow> nk_readable p = r # rs \<Longrightarrow> 0 \<le> r \<and> good_peer (p\<lparr>nk_readable := rs\<rparr>)"
  by (simp add: good_peer_def)

lemma healthy_TestReadable:
  assumes "healthy t" and "TestReadable q t = (r, t')"
  shows "0 \<le> r \<and> healthy t'"
proof (cases "nk_readable (tt_peer t q)")
  case Nil
  then show ?thesis using assms by (simp add: TestReadable_def)
next
  case (Cons x xs)
  then show ?thesis using assms good_peer_readable [OF healthy_peer [OF assms(1)] Cons]
    by (auto simp: TestReadable_def healthy_def)
qed

lemma stream_fields:
  assumes "stream t' = stream t"
  shows "nk_fin (tt_peer t' x) = nk_fin (tt_peer t x)" "tp_recvbuf (tt_peer t' x) = tp_recvbuf (tt_peer t x)"
    "nk_in (tt_peer t' x) = nk_in (tt_peer t x)" "nk_out (tt_peer t' x) = nk_out (tt_peer t x)"
    "tp_sentpos (tt_peer t' x) = tp_sentpos (tt_peer t x)"
  using assms by (simp_all add: stream_eq_iff)

lemma pending_stream: "stream t = stream t' \<Longrightarrow> pending (tt_peer t s) = pending (tt_peer t' s)"
  by (simp add: stream_eq_iff pending_def)

section \<open>Sending\<close>

text \<open>The socket of one side has accepted more bytes, nothing else has moved.\<close>

definition accepted :: "tside \<Rightarrow> bytes \<Rightarrow> 's TcpTask \<Rightarrow> 's TcpTask \<Rightarrow> bool" where
  "accepted q d t t' \<longleftrightarrow> (\<forall>x. tp_recvbuf (tt_peer t' x) = tp_recvbuf (tt_peer t x) \<and> tp_sentpos (tt_peer t' x) = tp_sentpos (tt_peer t x) \<and>
     nk_in (tt_peer t' x) = nk_in (tt_peer t x) \<and> nk_fin (tt_peer t' x) = nk_fin (tt_peer t x) \<and> status t' x = status t x \<and>
     nk_out (tt_peer t' x) = nk_out (tt_peer t x) @ (if x = q then d else []))"

lemma accepted_trans: "accepted q d t t1 \<Longrightarrow> accepted q e t1 t2 \<Longrightarrow> accepted q (d @ e) t t2"
  by (simp add: accepted_def)

lemma accepted_stream: "stream t' = stream t \<Longrightarrow> status t' = status t \<Longrightarrow> accepted q [] t t'"
  by (simp add: accepted_def stream_eq_iff)

lemma Tcp_Send_cases:
  assumes "Tcp_Send q data t = (r, t')"
  shows "life t' = life t \<and> (healthy t \<longrightarrow> healthy t') \<and>
    (case r of
       None \<Rightarrow> accepted q [] t t' \<and> (tt_lastError t' = WSAEWOULDBLOCK \<or> \<not> tp_open (tt_peer t q) \<or> \<not> healthy t)
     | Some k \<Rightarrow> k \<le> length data \<and> accepted q (take k data) t t')"
proof (cases "tp_open (tt_peer t q) \<and> nk_send (tt_peer t q) \<noteq> []")
  case False
  then show ?thesis using assms by (cases "tp_open (tt_peer t q)") (auto simp: Tcp_Send_def accepted_def status_def)
next
  case True
  then obtain x xs where x: "nk_send (tt_peer t q) = x # xs" by (meson neq_Nil_conv)
  let ?p = "tt_peer t q"
  have h: "healthy t \<Longrightarrow> good_peer (?p\<lparr>nk_send := xs\<rparr>)"
    using healthy_peer [of t q] by (simp add: good_peer_def x)
  show ?thesis
  proof (cases x)
    case (SendError e)
    moreover have "healthy t \<Longrightarrow> e = WSAEWOULDBLOCK" using healthy_peer [of t q] x SendError by (simp add: good_peer_def)
    ultimately show ?thesis using assms True x h
      by (auto simp: Tcp_Send_def life_upd accepted_def status_def intro: healthy_upd split: if_splits)
  next
    case (SendCount n)
    have n: "take (min n (length data)) data = take n data" by (simp add: min_def)
    have "healthy t \<Longrightarrow> good_peer (?p\<lparr>nk_send := xs, nk_out := nk_out ?p @ take n data\<rparr>)"
      using h by (simp add: good_peer_def)
    then show ?thesis using assms True x SendCount
      by (auto simp: Tcp_Send_def life_upd n accepted_def status_def intro: healthy_upd)
  qed
qed

lemma transfer_loop_sent:
  "transfer_loop s data t = (ok, n, t') \<Longrightarrow> n \<le> length data \<and> accepted (other s) (take n data) t t' \<and> life t' = life t \<and>
     (ok \<or> n < length data) \<and> (healthy t \<longrightarrow> healthy t' \<and> (tp_open (tt_peer t (other s)) \<longrightarrow> ok))"
proof (induction s data t arbitrary: ok n t' rule: transfer_loop.induct)
  case (1 s data t)
  obtain r t1 where send: "Tcp_Send (other s) data t = (r, t1)" by fastforce
  note c = Tcp_Send_cases [OF send]
  show ?case
  proof (cases "data = [] \<or> r = None")
    case True
    then have "(ok, n, t') = (True, 0, t) \<or> (ok, n, t') = (tt_lastError t1 = WSAEWOULDBLOCK, 0, t1) \<and> data \<noteq> [] \<and> r = None"
      using 1(2) send by (cases "data = []") (auto simp: transfer_loop.simps [of s data t] transfer_loop.simps [of s "[]" t])
    then show ?thesis using c True by (auto simp: accepted_stream)
  next
    case False
    then obtain k where k: "r = Some k" "data \<noteq> []" by auto
    obtain m t2 where rec: "transfer_loop s (drop k data) (count_sent s k t1) = (ok, m, t2)" "n = k + m" "t' = t2"
      using 1(2) send k by (auto simp: transfer_loop.simps [of s data t] split: prod.splits)
    let ?t1 = "count_sent s k t1"
    have "accepted (other s) (take k data) t ?t1"
      using accepted_trans [OF _ accepted_stream, of "other s" "take k data" t t1 ?t1] c k by simp
    moreover have "life ?t1 = life t" using c by simp
    then have "tp_open (tt_peer ?t1 (other s)) = tp_open (tt_peer t (other s))" by (rule life_open)
    moreover note 1(1) [OF k(2) send [unfolded k(1), symmetric] refl rec(1)]
    ultimately show ?thesis using c k(1) rec(2,3) accepted_trans [of "other s" "take k data" t ?t1 "take m (drop k data)" t2]
      by (auto simp: take_add)
  qed
qed

section \<open>Flow of bytes\<close>

text \<open>
  What has left on the far side together with what is still buffered; a step moves the stream
  on by the bytes it reads, without loss or at most losing some.
\<close>

definition lag :: "tside \<Rightarrow> 's TcpTask \<Rightarrow> bytes" where
  "lag s t = nk_out (tt_peer t (other s)) @ pending (tt_peer t s)"

definition flows :: "bool \<Rightarrow> 's TcpTask \<Rightarrow> 's TcpTask \<Rightarrow> bool" where
  "flows lossless t t' \<longleftrightarrow> (\<forall>s. \<exists>d. nk_in (tt_peer t' s) = nk_in (tt_peer t s) @ d \<and>
     (if lossless then lag s t' = lag s t @ d else subseq (lag s t') (lag s t @ d)))"

definition buf_ok :: "TcpPeer \<Rightarrow> bool" where
  "buf_ok p \<longleftrightarrow> length (tp_recvbuf p) \<le> MAXTCPBUFSIZE \<and> (tp_sentpos p < length (tp_recvbuf p) \<or> tp_recvbuf p = [] \<and> tp_sentpos p = 0)"

definition bufs_ok :: "'s TcpTask \<Rightarrow> bool" where
  "bufs_ok t \<longleftrightarrow> (\<forall>s. buf_ok (tt_peer t s))"

lemma GetValidDataLen_pending: "buf_ok p \<Longrightarrow> GetValidDataLen p = int (length (pending p))"
  by (auto simp: buf_ok_def GetValidDataLen_def pending_def)

lemma pending_Nil_iff: "buf_ok p \<Longrightarrow> pending p = [] \<longleftrightarrow> tp_recvbuf p = []"
  by (auto simp: buf_ok_def pending_def)

lemma flows_refl [simp]: "flows b t t"
  by (simp add: flows_def)

lemma flows_stream: "stream t' = stream t \<Longrightarrow> flows b t t'"
  by (simp add: flows_def stream_eq_iff lag_def pending_def)

lemma flows_weaken: "flows True t t' \<Longrightarrow> flows b t t'"
  unfolding flows_def by (metis (full_types) subseq_order.order_refl)

lemma flows_trans:
  assumes "flows b t t1" and "flows b t1 t2"
  shows "flows b t t2"
  unfolding flows_def
proof
  fix s
  obtain d where d: "nk_in (tt_peer t1 s) = nk_in (tt_peer t s) @ d" "if b then lag s t1 = lag s t @ d else subseq (lag s t1) (lag s t @ d)"
    using assms(1) by (auto simp: flows_def)
  obtain e where e: "nk_in (tt_peer t2 s) = nk_in (tt_peer t1 s) @ e" "if b then lag s t2 = lag s t1 @ e else subseq (lag s t2) (lag s t1 @ e)"
    using assms(2) by (auto simp: flows_def)
  have "subseq (lag s t2) ((lag s t @ d) @ e)" if "\<not> b"
    using d(2) e(2) that subseq_order.order_trans [of "lag s t2" "lag s t1 @ e"] list_emb_append_mono [of "(=)" "lag s t1" "lag s t @ d" e e]
    by simp
  then show "\<exists>d. nk_in (tt_peer t2 s) = nk_in (tt_peer t s) @ d \<and> (if b then lag s t2 = lag s t @ d else subseq (lag s t2) (lag s t @ d))"
    using d e by (intro exI [of _ "d @ e"]) auto
qed

lemma bufs_ok_stream: "stream t' = stream t \<Longrightarrow> bufs_ok t' = bufs_ok t"
  by (simp add: bufs_ok_def stream_eq_iff buf_ok_def)

lemma TransferSend_flow:
  assumes ok: "bufs_ok t" and tr: "TransferSend s t = (r, t')"
  shows "bufs_ok t' \<and> flows True t t' \<and> life t' = life t \<and> (\<forall>x. nk_fin (tt_peer t' x) = nk_fin (tt_peer t x)) \<and>
    tp_recvbuf (tt_peer t' (other s)) = tp_recvbuf (tt_peer t (other s)) \<and>
    (healthy t \<longrightarrow> healthy t' \<and> (tp_open (tt_peer t (other s)) \<longrightarrow> r \<noteq> None)) \<and>
    status t' = (status t)(other s := TM_SEND) \<and>
    (\<forall>n. r = Some n \<longrightarrow> n < length (pending (tt_peer t s)) \<or> tp_recvbuf (tt_peer t' s) = [])"
proof -
  let ?data = "pending (tt_peer t s)" let ?t = "enter_status TM_SEND (other s) t"
  obtain okk n t1 where l: "transfer_loop s ?data ?t = (okk, n, t1)" using prod_cases3 by blast
  note L = transfer_loop_sent [OF l]
  let ?f = "\<lambda>p. if n < length ?data then p\<lparr>tp_sentpos := tp_sentpos p + n\<rparr> else p\<lparr>tp_sentpos := 0, tp_recvbuf := []\<rparr>"
  have r: "r = (if okk then Some n else None)" "t' = upd s ?f t1" using tr by (simp_all add: TransferSend_def l Let_def)
  have a: "accepted (other s) (take n ?data) ?t t1" using L by simp
  note same = stream_eq_iff [THEN iffD1, OF stream_prims(4) [of TM_SEND "other s" t]]
  have life: "life t' = life t" using L life_prims by (simp add: r(2) life_upd)
  have b: "buf_ok (tt_peer t x)" for x using ok by (simp add: bufs_ok_def)
  have bufs: "bufs_ok t'"
    unfolding bufs_ok_def
  proof
    fix x show "buf_ok (tt_peer t' x)"
      using a same b [of x] b [of s] by (auto simp: r(2) accepted_def buf_ok_def pending_def)
  qed
  have "lag x t' = lag x t" for x
  proof (cases "x = s")
    case True
    then show ?thesis using a same L
      by (auto simp: r(2) lag_def accepted_def pending_def drop_drop add.commute simp flip: drop_drop)
  next
    case False
    then have "other x = s" by (simp add: side_eq_other [symmetric])
    then show ?thesis using a same False by (simp add: r(2) lag_def accepted_def pending_def)
  qed
  moreover have "nk_in (tt_peer t' x) = nk_in (tt_peer t x)" "nk_fin (tt_peer t' x) = nk_fin (tt_peer t x)" for x
    using a same by (auto simp: r(2) accepted_def)
  moreover have "status t' = (status t)(other s := TM_SEND)"
  proof
    fix x have "status t1 x = ((status t)(other s := TM_SEND)) x" using a by (simp add: accepted_def)
    then show "status t' x = ((status t)(other s := TM_SEND)) x" by (auto simp: r(2) status_def)
  qed
  moreover have "tp_recvbuf (tt_peer t' (other s)) = tp_recvbuf (tt_peer t (other s))" using a same by (simp add: r(2) accepted_def)
  ultimately have "flows True t t' \<and> tp_recvbuf (tt_peer t' (other s)) = tp_recvbuf (tt_peer t (other s)) \<and> status t' = (status t)(other s := TM_SEND) \<and> (\<forall>x. nk_fin (tt_peer t' x) = nk_fin (tt_peer t x))" by (simp add: flows_def)
  moreover have "healthy t \<Longrightarrow> healthy t' \<and> (tp_open (tt_peer t (other s)) \<longrightarrow> r \<noteq> None)"
    using L life_open [of ?t t "other s"] by (auto simp: r healthy_upd healthy_peer)
  ultimately show ?thesis using bufs life by (auto simp: r)
qed

section \<open>Reading\<close>

lemma Tcp_Receive_cases:
  assumes "Tcp_Receive s n t = (r, t')"
  shows "life t' = life t \<and> (healthy t \<longrightarrow> healthy t') \<and> status t' = status t \<and>
    (\<forall>x. tp_recvbuf (tt_peer t' x) = tp_recvbuf (tt_peer t x) \<and> tp_sentpos (tt_peer t' x) = tp_sentpos (tt_peer t x) \<and>
      nk_out (tt_peer t' x) = nk_out (tt_peer t x) \<and> nk_fin (tt_peer t' x) = nk_fin (tt_peer t x) \<and>
      nk_in (tt_peer t' x) = nk_in (tt_peer t x) @ (if x = s then (case r of None \<Rightarrow> [] | Some d \<Rightarrow> d) else [])) \<and>
    (\<forall>d. r = Some d \<longrightarrow> length d \<le> n)"
proof (cases "tp_open (tt_peer t s) \<and> nk_recv (tt_peer t s) \<noteq> []")
  case False
  then show ?thesis using assms by (cases "tp_open (tt_peer t s)") (auto simp: Tcp_Receive_def status_def)
next
  case True
  then obtain x xs where x: "nk_recv (tt_peer t s) = x # xs" by (meson neq_Nil_conv)
  then show ?thesis using assms True
    by (cases x) (auto simp: Tcp_Receive_def status_def life_upd healthy_upd healthy_peer fun_eq_iff)
qed

text \<open>Reading bytes into an empty buffer moves the stream on by exactly these bytes.\<close>

lemma take_in_flow:
  assumes rc: "Tcp_Receive s n t = (Some d, t')" and ok: "bufs_ok t" and empty: "tp_recvbuf (tt_peer t s) = []"
    and n: "n \<le> MAXTCPBUFSIZE"
  shows "bufs_ok (take_in s d t') \<and> flows True t (take_in s d t') \<and> pending (tt_peer (take_in s d t') s) = d \<and>
    tp_recvbuf (tt_peer (take_in s d t') s) = d \<and> tp_recvbuf (tt_peer (take_in s d t') (other s)) = tp_recvbuf (tt_peer t (other s)) \<and>
    life (take_in s d t') = life t \<and> (\<forall>x. nk_fin (tt_peer (take_in s d t') x) = nk_fin (tt_peer t x)) \<and>
    status (take_in s d t') = status t \<and> (healthy t \<longrightarrow> healthy (take_in s d t'))"
proof -
  note c = Tcp_Receive_cases [OF rc]
  have b: "buf_ok (tt_peer t x)" for x using ok by (simp add: bufs_ok_def)
  have z: "tp_sentpos (tt_peer t s) = 0" using b [of s] empty by (auto simp: buf_ok_def)
  have t: "tt_peer (take_in s d t') x = (if x = s then (tt_peer t' s)\<lparr>tp_recvbuf := tp_recvbuf (tt_peer t' s) @ d,
      tp_DataLenRecvd := tp_DataLenRecvd (tt_peer t' s) + of_nat (length d)\<rparr> else tt_peer t' x)" for x
    by (simp add: take_in_def tap_def tell_def Let_def)
  have "buf_ok (tt_peer (take_in s d t') x)" for x
    using c b [of x] empty z n by (auto simp: t buf_ok_def)
  moreover have "lag x (take_in s d t') = lag x t @ (if x = s then d else [])" for x
    using c empty z by (auto simp: t lag_def pending_def side_eq_other)
  moreover have "life (take_in s d t') = life t" "healthy t \<longrightarrow> healthy (take_in s d t')"
    using c by (auto simp: take_in_def Let_def life_upd healthy_upd healthy_peer)
  moreover have "status (take_in s d t') = status t" using c by (auto simp: status_def t fun_eq_iff)
  ultimately show ?thesis
    using c empty z by (auto simp: bufs_ok_def flows_def t pending_def)
qed

lemma read_loop_flow:
  "tcp_read_loop s m t = (ok, n, err, t') \<Longrightarrow> bufs_ok t \<Longrightarrow> tp_recvbuf (tt_peer t s) = [] \<Longrightarrow>
   bufs_ok t' \<and> flows True t t' \<and> life t' = life t \<and> (\<forall>x. nk_fin (tt_peer t' x) = nk_fin (tt_peer t x)) \<and>
   tp_recvbuf (tt_peer t' (other s)) = tp_recvbuf (tt_peer t (other s)) \<and>
   (healthy t \<longrightarrow> healthy t') \<and> (\<forall>x. status t' x \<in> {status t x, TM_SEND}) \<and>
   (healthy t \<and> tp_open (tt_peer t (other s)) \<and> \<not> ok \<longrightarrow> tp_recvbuf (tt_peer t' s) = [])"
proof (induction s m t arbitrary: ok n err t' rule: tcp_read_loop.induct)
  case (1 s m t)
  note pre = 1(3,4)
  obtain r t1 where rc: "Tcp_Receive s (MAXTCPBUFSIZE - length (tp_recvbuf (tt_peer t s))) t = (r, t1)" by fastforce
  note c = Tcp_Receive_cases [OF rc]
  have same: "bufs_ok t1 \<and> flows True t t1 \<and> tp_recvbuf (tt_peer t1 s) = []" if "r = None \<or> r = Some []"
    using c that pre by (auto simp: bufs_ok_def buf_ok_def flows_def lag_def pending_def)
  let ?go = "m < MAX_EVENT_READ_BYTES \<or> tp_bReadClosed (tt_peer t s)"
  have body: "?go \<Longrightarrow> (\<not> m < MAX_EVENT_READ_BYTES \<and> \<not> tp_bReadClosed (tt_peer t s)) = False" by simp
  consider "\<not> ?go" | "?go" "r = None" | "?go" "r = Some []" | b d where "?go" "r = Some (b # d)"
    by (metis neq_Nil_conv not_Some_eq)
  then show ?case
  proof cases
    case 1
    then show ?thesis using "1.prems" by (simp add: tcp_read_loop.simps [of s m t] Let_def)
  next
    case 2
    then have "t' = t1" using "1.prems" rc body by (simp add: tcp_read_loop.simps [of s m t] Let_def)
    then show ?thesis using same c 2 by (simp add: stream_eq_iff)
  next
    case 3
    then have t': "t' = read_eof s t1" "ok" using "1.prems" rc body by (simp_all add: tcp_read_loop.simps [of s m t] Let_def)
    have "stream t' = stream t1" "status t' = status t1" "life t' = life t1" using t' by simp_all
    then show ?thesis
      using same c 3 t' flows_trans [of True t t1 t'] flows_stream [of t' t1 True] bufs_ok_stream [of t' t1] stream_fields [of t' t1] by simp
  next
    case (4 b d)
    let ?t1 = "take_in s (b # d) t1" let ?m = "m + length (b # d)"
    obtain r2 t2 where tr: "TransferSend s ?t1 = (r2, t2)" by fastforce
    obtain readable t3 where test: "TestReadable s t2 = (readable, t3)" by fastforce
    note F = take_in_flow [OF rc [unfolded 4(2)] pre]
    note T = TransferSend_flow [OF _ tr]
    have t3: "stream t3 = stream t2" "status t3 = status t2" "life t3 = life t2" using test stream_prims(6) [of s t2] status_prims(5) [of s t2] life_prims(6) [of s t2] by simp_all
    have f2: "flows True t t2" using F T flows_trans [of True t ?t1 t2] by simp
    have f3: "flows True t t3" using flows_trans [OF f2 flows_stream [OF t3(1)]] .
    have st2: "\<forall>x. status t2 x \<in> {status t x, TM_SEND}" using F T by auto
    have open2: "tp_open (tt_peer ?t1 (other s)) = tp_open (tt_peer t (other s))" "tp_open (tt_peer t3 (other s)) = tp_open (tt_peer t (other s))"
      using F T t3 by (intro life_open; simp)+
    have rc': "Tcp_Receive s 4096 t = (Some (b # d), t1)" using rc 4(2) pre(2) by simp
    have F': "tp_recvbuf (tt_peer ?t1 s) = b # d" using F by simp
    have def: "tcp_read_loop s m t =
        (case r2 of None \<Rightarrow> (False, ?m, 0, t2)
         | Some k \<Rightarrow> if k < length (b # d) then (True, ?m, 0, t2)
             else if readable < 0 then (False, ?m, 0, t3) else if readable = 0 then (True, ?m, 0, t3)
             else tcp_read_loop s ?m t3)"
      using 4(1) by (subst tcp_read_loop.simps) (auto simp: Let_def pre(2) rc' F' tr test split: option.split)
    show ?thesis
    proof (cases "\<exists>k. r2 = Some k \<and> \<not> k < length (b # d) \<and> 0 < readable")
      case True
      then obtain k where k: "r2 = Some k" "\<not> k < length (b # d)" "0 < readable" by blast
      have empty: "tp_recvbuf (tt_peer t3 s) = []" using T F k stream_fields [OF t3(1)] by simp
      have rec: "tcp_read_loop s ?m t3 = (ok, n, err, t')" using "1.prems" def k by simp
      have "bufs_ok t3" using T F bufs_ok_stream [OF t3(1)] by simp
      have go: "\<not> \<not> (length (tp_recvbuf (tt_peer t s)) < MAXTCPBUFSIZE \<and> ?go)" using 4(1) pre by simp
      note IH = "1.IH" [OF refl go rc [symmetric, unfolded 4(2)] refl refl refl refl refl refl refl]
      have IH': "bufs_ok t' \<and> flows True t3 t' \<and> life t' = life t3 \<and> (\<forall>x. nk_fin (tt_peer t' x) = nk_fin (tt_peer t3 x)) \<and>
          tp_recvbuf (tt_peer t' (other s)) = tp_recvbuf (tt_peer t3 (other s)) \<and>
          (healthy t3 \<longrightarrow> healthy t') \<and> (\<forall>x. status t' x \<in> {status t3 x, TM_SEND}) \<and>
          (healthy t3 \<and> tp_open (tt_peer t3 (other s)) \<and> \<not> ok \<longrightarrow> tp_recvbuf (tt_peer t' s) = [])"
        by (rule IH [of k readable t3]) (use tr test k F' rec \<open>bufs_ok t3\<close> empty in simp_all)
      have a: "status t' x \<in> {status t2 x, TM_SEND}" "status t2 x \<in> {status t x, TM_SEND}" for x using IH' st2 t3(2) by simp_all
      have "status t' x \<in> {status t x, TM_SEND}" for x using a [of x] by auto
      moreover have "healthy t \<longrightarrow> healthy t3" using F T healthy_TestReadable [OF _ test] by simp
      ultimately show ?thesis using IH' flows_trans [OF f3, of t'] F T t3 open2 stream_fields(1,2) [OF t3(1)] by simp
    next
      case False
      then have split: "(t' = t2 \<and> (ok \<or> r2 = None)) \<or> (t' = t3 \<and> (ok \<or> readable < 0))"
        using "1.prems"(1) def by (auto split: option.splits if_splits)
      have h: "healthy t \<longrightarrow> healthy t2" "healthy t \<longrightarrow> healthy t3" "healthy t \<longrightarrow> \<not> readable < 0"
        using F T healthy_TestReadable [OF _ test] by auto
      have sent: "healthy t \<and> tp_open (tt_peer t (other s)) \<longrightarrow> r2 \<noteq> None" using F T open2 by simp
      have c2: "bufs_ok t2" "life t2 = life t" "tp_recvbuf (tt_peer t2 (other s)) = tp_recvbuf (tt_peer t (other s))" "\<forall>x. nk_fin (tt_peer t2 x) = nk_fin (tt_peer t x)" using F T by simp_all
      have c3: "bufs_ok t3" "life t3 = life t" "tp_recvbuf (tt_peer t3 (other s)) = tp_recvbuf (tt_peer t (other s))" "\<forall>x. nk_fin (tt_peer t3 x) = nk_fin (tt_peer t x)"
        using c2 bufs_ok_stream [OF t3(1)] t3(3) stream_fields(1,2) [OF t3(1)] by simp_all
      show ?thesis
      proof (cases "t' = t2 \<and> (ok \<or> r2 = None)")
        case True
        then have "healthy t \<and> tp_open (tt_peer t (other s)) \<and> \<not> ok \<longrightarrow> tp_recvbuf (tt_peer t' s) = []" using sent by blast
        then show ?thesis using True f2 st2 c2 h(1) by simp
      next
        case False
        then have "t' = t3" "ok \<or> readable < 0" using split by blast+
        moreover from this have "healthy t \<and> tp_open (tt_peer t (other s)) \<and> \<not> ok \<longrightarrow> tp_recvbuf (tt_peer t' s) = []" using h(3) by blast
        ultimately show ?thesis using f3 st2 t3(2) c3 h(2) by simp
      qed
    qed
  qed
qed

section \<open>Closing\<close>

lemma AsyncSelect_fields [simp]:
  "tp_open (tt_peer (snd (Tcp_AsyncSelect q evs t)) x) = tp_open (tt_peer t x)"
  "tp_bReadClosed (tt_peer (snd (Tcp_AsyncSelect q evs t)) x) = tp_bReadClosed (tt_peer t x)"
  "tt_alive (snd (Tcp_AsyncSelect q evs t)) = tt_alive t"
  "tt_bDeletePending (snd (Tcp_AsyncSelect q evs t)) = tt_bDeletePending t"
  "tt_pMitm (snd (Tcp_AsyncSelect q evs t)) = tt_pMitm t"
  by (simp_all add: Tcp_AsyncSelect_def Let_def split: list.split option.split)

lemma Tcp_Close_fields [simp]:
  "stream (Tcp_Close q t) = stream t" "status (Tcp_Close q t) = status t" "healthy t \<Longrightarrow> healthy (Tcp_Close q t)"
  "tp_bReadClosed (tt_peer (Tcp_Close q t) x) = tp_bReadClosed (tt_peer t x)"
  "tp_open (tt_peer (Tcp_Close q t) x) = (x \<noteq> q \<and> tp_open (tt_peer t x))"
  "tt_alive (Tcp_Close q t) = tt_alive t" "tt_bDeletePending (Tcp_Close q t) = tt_bDeletePending t" "tt_pMitm (Tcp_Close q t) = tt_pMitm t"
  by (auto simp: Tcp_Close_def status_def fun_eq_iff healthy_upd healthy_peer)

lemma OnPeerClosed_fields [simp]:
  "tt_peer (Tcp_OnPeerClosed t) = tt_peer t" "tt_alive (Tcp_OnPeerClosed t) = tt_alive t" "tt_pMitm (Tcp_OnPeerClosed t) = tt_pMitm t"
  "tt_bDeletePending (Tcp_OnPeerClosed t) = (tt_bDeletePending t \<or> tt_alive t \<and> \<not> tp_open (tt_peer t Client) \<and> \<not> tp_open (tt_peer t Server))"
  "stream (Tcp_OnPeerClosed t) = stream t" "status (Tcp_OnPeerClosed t) = status t" "healthy (Tcp_OnPeerClosed t) = healthy t"
  by (auto simp: Tcp_OnPeerClosed_def status_def)

lemma status_upd: "status (upd s f t) = (status t)(s := tp_SocketStatus (f (tt_peer t s)))"
  by (simp add: status_def fun_eq_iff)

lemma status_same [simp]: "(status t)(s := tp_SocketStatus (tt_peer t s)) = status t"
  by (simp add: status_def fun_eq_iff)

text \<open>Both sockets are open or both are closed, and a living task is marked for deletion exactly when they are closed.\<close>

definition alive_ok :: "'s TcpTask \<Rightarrow> bool" where
  "alive_ok t \<longleftrightarrow> tt_alive t \<and> tp_open (tt_peer t Client) = tp_open (tt_peer t Server) \<and> tt_bDeletePending t = (\<not> tp_open (tt_peer t Client))"

lemma alive_ok_life: "life t' = life t \<Longrightarrow> alive_ok t' = alive_ok t"
  by (simp add: life_def alive_ok_def)

lemma alive_ok_other: "alive_ok t \<Longrightarrow> tp_open (tt_peer t (other s)) = tp_open (tt_peer t s)"
  by (cases s) (simp_all add: alive_ok_def)

lemma data_of_peer: "data_of (tt_peer t s) = stream t s"
  by (simp add: stream_def)

lemma TryFinish_cases:
  "stream (TryFinishConnection s t) = stream t" "healthy t \<Longrightarrow> healthy (TryFinishConnection s t)"
  "tt_pMitm (TryFinishConnection s t) = tt_pMitm t" "alive_ok t \<Longrightarrow> alive_ok (TryFinishConnection s t)"
  "tp_bReadClosed (tt_peer (TryFinishConnection s t) x) = tp_bReadClosed (tt_peer t x)"
  "status (TryFinishConnection s t) x \<in> {status t x, TM_CLOSE}"
proof -
  let ?t1 = "upd (other s) (\<lambda>p. p\<lparr>tp_bFullyClosing := True\<rparr>) (upd s (\<lambda>p. p\<lparr>tp_bFullyClosing := True\<rparr>) t)"
  let ?t2 = "Tcp_Close (other s) (Tcp_Close s (snd (Tcp_AsyncSelect (other s) {} (snd (Tcp_AsyncSelect s {} ?t1)))))"
  let ?t3 = "Tcp_OnPeerClosed (upd (other s) (\<lambda>p. p\<lparr>tp_SocketStatus := TM_CLOSE\<rparr>) (upd s (\<lambda>p. p\<lparr>tp_SocketStatus := TM_CLOSE\<rparr>) ?t2))"
  have "TryFinishConnection s t = t \<or> TryFinishConnection s t = ?t3" by (simp add: TryFinishConnection_def Let_def)
  moreover have "stream ?t3 = stream t" by (simp add: data_of_peer)
  moreover have "healthy ?t3" if "healthy t" using that by (simp add: healthy_upd healthy_peer)
  moreover have "tt_pMitm ?t3 = tt_pMitm t" by simp
  moreover have "alive_ok ?t3" if "alive_ok t" using that by (cases s) (simp_all add: alive_ok_def)
  moreover have "tp_bReadClosed (tt_peer ?t3 x) = tp_bReadClosed (tt_peer t x)" by simp
  moreover have "status ?t3 x = TM_CLOSE" by (cases s; cases x) (simp_all add: status_upd)
  ultimately show "stream (TryFinishConnection s t) = stream t" "healthy t \<Longrightarrow> healthy (TryFinishConnection s t)"
    "tt_pMitm (TryFinishConnection s t) = tt_pMitm t" "alive_ok t \<Longrightarrow> alive_ok (TryFinishConnection s t)"
    "tp_bReadClosed (tt_peer (TryFinishConnection s t) x) = tp_bReadClosed (tt_peer t x)"
    "status (TryFinishConnection s t) x \<in> {status t x, TM_CLOSE}"
    by auto
qed

lemma HalfClose_cases:
  fixes s t
  defines "t' \<equiv> PropagateHalfClose s t"
  assumes "bufs_ok t"
  shows "life t' = life t" "status t' = status t" "healthy t \<Longrightarrow> healthy t'" "bufs_ok t'" "flows b t t'"
    "nk_fin (tt_peer t' x) \<Longrightarrow> nk_fin (tt_peer t x) \<or> x = other s \<and> tp_bReadClosed (tt_peer t' s) \<and> pending (tt_peer t' s) = []"
    "tp_recvbuf (tt_peer t' x) = tp_recvbuf (tt_peer t x)"
proof -
  obtain n t1 where io: "IOCtl_FIONREAD s t = (n, t1)" by fastforce
  have t1: "stream t1 = stream t" "life t1 = life t" "status t1 = status t" "healthy t \<Longrightarrow> healthy t1"
    "tt_peer t1 x = (tt_peer t x)\<lparr>nk_fionread := nk_fionread (tt_peer t1 x)\<rparr>" for x
    using io stream_prims(9) [of s t] life_prims(9) [of s t] status_prims(8) [of s t] healthy_prims(8) [of t s]
    by (auto simp: IOCtl_FIONREAD_def split: list.splits)
  let ?fin = "upd (other s) (\<lambda>p. p\<lparr>tp_bWriteShutdown := True\<rparr>) (Tcp_ShutDown (other s) t1)"
  have b: "buf_ok (tt_peer t s)" using assms(2) by (simp add: bufs_ok_def)
  have "t' = t \<or> t' = Tcp_TriggerEvent s FD_READ 0 t1 \<or> t' = ?fin \<and> tp_bReadClosed (tt_peer t s) \<and> pending (tt_peer t s) = []"
    using GetValidDataLen_pending [OF b]
    by (auto simp: t'_def PropagateHalfClose_def io Let_def split: option.split nat.split)
  then consider "t' = t" | "t' = Tcp_TriggerEvent s FD_READ 0 t1" | "t' = ?fin" "tp_bReadClosed (tt_peer t s)" "pending (tt_peer t s) = []" by blast
  then have all: "life t' = life t \<and> status t' = status t \<and> (healthy t \<longrightarrow> healthy t') \<and> bufs_ok t' \<and> flows b t t' \<and>
    (nk_fin (tt_peer t' x) \<longrightarrow> nk_fin (tt_peer t x) \<or> x = other s \<and> tp_bReadClosed (tt_peer t' s) \<and> pending (tt_peer t' s) = []) \<and>
    tp_recvbuf (tt_peer t' x) = tp_recvbuf (tt_peer t x)" for x b
  proof cases
    case 1
    then show ?thesis using assms(2) by simp
  next
    case 2
    then have st: "stream t' = stream t" using t1(1) by simp
    then show ?thesis using 2 t1 assms(2) flows_stream [OF st] bufs_ok_stream [OF st] stream_fields [OF st] by simp
  next
    case 3
    have p: "tt_peer t' x = (if x = other s then (tt_peer t1 x)\<lparr>nk_fin := tp_open (tt_peer t1 x) \<or> nk_fin (tt_peer t1 x), tp_bWriteShutdown := True\<rparr>
        else tt_peer t1 x)" for x
      by (simp add: 3(1) Tcp_ShutDown_def)
    note f = stream_fields [OF t1(1)]
    have "status t' = status t1" by (simp add: 3(1) Tcp_ShutDown_def status_upd)
    then have "life t' = life t" "status t' = status t" "healthy t \<longrightarrow> healthy t'"
      using t1(2-4) by (simp_all add: 3(1) Tcp_ShutDown_def life_upd healthy_upd healthy_peer)
    moreover have "bufs_ok t'" using assms(2) by (simp add: bufs_ok_def p buf_ok_def f)
    moreover have "flows b t t'" by (simp add: flows_def lag_def pending_def p f)
    moreover have "pending (tt_peer t' s) = []" "tp_bReadClosed (tt_peer t' s)" using 3(2,3) arg_cong [OF t1(5) [of s], of tp_bReadClosed] by (simp_all add: p pending_def f)
    moreover have "tp_recvbuf (tt_peer t' x) = tp_recvbuf (tt_peer t x)" "nk_fin (tt_peer t' x) \<Longrightarrow> nk_fin (tt_peer t x) \<or> x = other s"
      by (simp_all add: p f split: if_splits)
    ultimately show ?thesis by blast
  qed
  show "life t' = life t" "status t' = status t" "healthy t \<Longrightarrow> healthy t'" "bufs_ok t'" "flows b t t'"
    "nk_fin (tt_peer t' x) \<Longrightarrow> nk_fin (tt_peer t x) \<or> x = other s \<and> tp_bReadClosed (tt_peer t' s) \<and> pending (tt_peer t' s) = []"
    "tp_recvbuf (tt_peer t' x) = tp_recvbuf (tt_peer t x)"
    using all by blast+
qed

end
