(* ===== verification/TcpRuns.thy ===== *)
theory TcpRuns
  imports TcpStream
begin

text \<open>
  Every handler of a TCP task without an inspection bridge moves the two byte streams on, and
  so does every run of them.
\<close>

section \<open>The invariant of a task\<close>

definition idle_ok :: "'s TcpTask \<Rightarrow> bool" where
  "idle_ok t \<longleftrightarrow> (\<forall>s. status t s \<in> {TM_CONN, TM_SHUT} \<longrightarrow> tp_recvbuf (tt_peer t s) = [])"

definition tcp_inv :: "'s TcpTask \<Rightarrow> bool" where
  "tcp_inv t \<longleftrightarrow> bufs_ok t \<and> alive_ok t \<and> tt_pMitm t = None \<and> idle_ok t"

text \<open>A part of a handler that sends no end of stream.\<close>

definition smooth :: "'s TcpTask \<Rightarrow> 's TcpTask \<Rightarrow> bool" where
  "smooth t t' \<longleftrightarrow> tcp_inv t' \<and> flows (healthy t) t t' \<and> (healthy t \<longrightarrow> healthy t') \<and> (\<forall>x. nk_fin (tt_peer t' x) = nk_fin (tt_peer t x))"

text \<open>A handler: an end of stream is sent only for a stream that has ended and has left the buffer.\<close>

definition moves :: "'s TcpTask \<Rightarrow> 's TcpTask \<Rightarrow> bool" where
  "moves t t' \<longleftrightarrow> tcp_inv t' \<and> flows (healthy t) t t' \<and> (healthy t \<longrightarrow> healthy t') \<and>
     (\<forall>x. nk_fin (tt_peer t' x) \<longrightarrow> nk_fin (tt_peer t x) \<or> tp_bReadClosed (tt_peer t' (other x)) \<and> pending (tt_peer t' (other x)) = [])"

lemma flows_healthy_trans:
  assumes "flows (healthy t) t t1" "flows (healthy t1) t1 t2" "healthy t \<longrightarrow> healthy t1"
  shows "flows (healthy t) t t2"
proof (cases "healthy t")
  case True
  then show ?thesis using assms flows_trans [of True t t1 t2] by simp
next
  case False
  then have "flows False t1 t2" using assms(2) flows_weaken [of t1 t2 False] by (cases "healthy t1") simp_all
  then show ?thesis using assms False flows_trans [of False t t1 t2] by simp
qed

lemma smooth_trans: "smooth t t1 \<Longrightarrow> smooth t1 t2 \<Longrightarrow> smooth t t2"
  using flows_healthy_trans [of t t1 t2] by (simp add: smooth_def)

lemma smooth_moves: "smooth t t1 \<Longrightarrow> moves t1 t2 \<Longrightarrow> moves t t2"
  using flows_healthy_trans [of t t1 t2] by (simp add: smooth_def moves_def)

lemma smooth_moves1: "smooth t t1 \<Longrightarrow> moves t t1"
  by (simp add: smooth_def moves_def)

lemma life_mitm: "life t' = life t \<Longrightarrow> (tt_pMitm t' = None) = (tt_pMitm t = None)"
  by (simp add: life_def)

lemma smooth_stream:
  assumes "tcp_inv t" "stream t' = stream t" "life t' = life t" "healthy t \<longrightarrow> healthy t'"
    "\<And>x. status t' x \<in> {status t x, TM_RECV, TM_SEND, TM_CLOSE}"
  shows "smooth t t'"
proof -
  have "idle_ok t'"
    unfolding idle_ok_def
  proof (intro allI impI)
    fix s assume "status t' s \<in> {TM_CONN, TM_SHUT}"
    then have "status t s \<in> {TM_CONN, TM_SHUT}" using assms(5) [of s] by auto
    then show "tp_recvbuf (tt_peer t' s) = []" using assms(1) stream_fields(2) [OF assms(2)] by (auto simp: tcp_inv_def idle_ok_def)
  qed
  then show ?thesis
    using assms flows_stream [OF assms(2)] bufs_ok_stream [OF assms(2)] alive_ok_life [OF assms(3)] life_mitm [OF assms(3)] stream_fields(1) [OF assms(2)]
    by (simp add: smooth_def tcp_inv_def)
qed

lemma smooth_prims:
  assumes "tcp_inv t"
  shows "smooth t (tell e t)" "smooth t (Tcp_TriggerEvent q ev err t)" "smooth t (tap e t)"
    "smooth t (enter_status TM_RECV q t)" "smooth t (enter_status TM_SEND q t)" "smooth t (snd (Tcp_AsyncSelect q evs t))"
    "smooth t (upd q (\<lambda>p. p\<lparr>tp_bConnShutted := c\<rparr>) t)" "smooth t (upd q (\<lambda>p. p\<lparr>tp_bForwardingReady := c\<rparr>) t)"
    "smooth t (snd (HasPendingRead q t))" "smooth t (snd (TestWritable q t))" "smooth t (upd q (\<lambda>p. update_monitor k f (update_monitor m g p)) t)"
    and "smooth t (snd (TestReadable q t))"
proof -
  show "smooth t (snd (TestReadable q t))"
    by (rule smooth_stream) (use assms healthy_TestReadable [of t q "fst (TestReadable q t)" "snd (TestReadable q t)"] in simp_all)
qed (rule smooth_stream [OF assms]; simp add: life_upd status_upd healthy_upd healthy_peer update_monitor_def)+

lemma smooth_inv: "smooth t t' \<Longrightarrow> tcp_inv t'"
  by (simp add: smooth_def)

text \<open>Emptying a buffer loses its bytes; an empty buffer stays as it is.\<close>

lemma Clear_flow: "flows False t (Tcp_ClearBuffer s t)"
proof -
  have "subseq (lag x (Tcp_ClearBuffer s t)) (lag x t)" for x
    by (simp add: lag_def Tcp_ClearBuffer_def pending_def subseq_append')
  then show ?thesis by (simp add: flows_def Tcp_ClearBuffer_def)
qed

lemma Clear_smooth:
  assumes "smooth t t1" "healthy t \<longrightarrow> tp_recvbuf (tt_peer t1 s) = []"
  shows "smooth t (Tcp_ClearBuffer s t1)"
proof -
  let ?t = "Tcp_ClearBuffer s t1"
  have inv: "tcp_inv t1" using assms(1) by (rule smooth_inv)
  have "stream ?t = stream t1" if "healthy t"
  proof -
    have "buf_ok (tt_peer t1 s)" using inv by (simp add: tcp_inv_def bufs_ok_def)
    then have "tp_sentpos (tt_peer t1 s) = 0" using assms(2) that by (simp add: buf_ok_def)
    then show ?thesis using assms(2) that by (auto simp: Tcp_ClearBuffer_def data_of_def stream_def fun_eq_iff)
  qed
  then have "flows (healthy t) t1 ?t" using flows_stream [of ?t t1 True] Clear_flow [of t1 s] by (cases "healthy t") simp_all
  then have "flows (healthy t) t ?t" using assms(1) flows_trans [of "healthy t" t t1 ?t] by (simp add: smooth_def)
  moreover have "life ?t = life t1" "healthy t1 \<longrightarrow> healthy ?t" by (simp_all add: Tcp_ClearBuffer_def life_upd healthy_upd healthy_peer)
  moreover have "bufs_ok ?t" "idle_ok ?t" "\<forall>x. nk_fin (tt_peer ?t x) = nk_fin (tt_peer t1 x)"
    using inv by (simp_all add: tcp_inv_def bufs_ok_def buf_ok_def idle_ok_def Tcp_ClearBuffer_def status_def)
  ultimately show ?thesis
    using inv assms(1) alive_ok_life [of ?t t1] life_mitm [of ?t t1] by (simp add: smooth_def tcp_inv_def)
qed

text \<open>The end of the handlers: pass the end of stream on, and finish when both streams have ended.\<close>

lemma tail_moves:
  assumes "tcp_inv t"
  shows "moves t (TryFinishConnection s (PropagateHalfClose s t))" and "moves t (PropagateHalfClose s t)"
proof -
  let ?h = "PropagateHalfClose s t" let ?f = "TryFinishConnection s ?h"
  have b: "bufs_ok t" using assms by (simp add: tcp_inv_def)
  note H = HalfClose_cases [OF b, where s = s] and F = TryFinish_cases [where s = s and t = ?h]
  have fin: "nk_fin (tt_peer ?h x) \<longrightarrow> nk_fin (tt_peer t x) \<or> tp_bReadClosed (tt_peer ?h (other x)) \<and> pending (tt_peer ?h (other x)) = []" for x
    using H(6) [of x] by auto
  have inv: "tcp_inv ?h" using assms H alive_ok_life [OF H(1)] life_mitm [OF H(1)] by (simp add: tcp_inv_def idle_ok_def)
  then show "moves t ?h" using H fin by (simp add: moves_def)
  have "idle_ok ?f"
    unfolding idle_ok_def
  proof (intro allI impI)
    fix x assume "status ?f x \<in> {TM_CONN, TM_SHUT}"
    then have "status ?h x \<in> {TM_CONN, TM_SHUT}" using F(6) [of x] by auto
    then show "tp_recvbuf (tt_peer ?f x) = []" using inv stream_fields(2) [OF F(1)] by (auto simp: tcp_inv_def idle_ok_def)
  qed
  then have "tcp_inv ?f" using inv F(3,4) bufs_ok_stream [OF F(1)] by (simp add: tcp_inv_def)
  moreover have "flows (healthy t) t ?f" using flows_trans [OF H(5) flows_stream [OF F(1)]] .
  moreover have "pending (tt_peer ?f x) = pending (tt_peer ?h x)" for x using pending_stream [OF F(1)] .
  ultimately show "moves t ?f" using fin F(2,5) H(3) stream_fields(1) [OF F(1)] by (simp add: moves_def)
qed

section \<open>The handlers\<close>

lemma smooth_then: "smooth t t1 \<Longrightarrow> (tcp_inv t1 \<Longrightarrow> smooth t1 t2) \<Longrightarrow> smooth t t2"
  using smooth_inv smooth_trans by blast

lemma smooth_tail: "smooth t t1 \<Longrightarrow> moves t (TryFinishConnection s (PropagateHalfClose s t1))"
  using smooth_inv tail_moves(1) smooth_moves by blast

lemma smooth_trigger: "smooth t t1 \<Longrightarrow> smooth t (Tcp_TriggerEvent q ev err t1)"
  by (rule smooth_then) (auto intro: smooth_prims)

lemma smooth_refl: "tcp_inv t \<Longrightarrow> smooth t t"
  by (rule smooth_stream) auto

lemma loop_smooth:
  assumes inv: "tcp_inv t" and st: "status t s = TM_RECV" and empty: "tp_recvbuf (tt_peer t s) = []"
    and loop: "tcp_read_loop s 0 t = (ok, n, err, t')"
  shows "smooth t t' \<and> (healthy t \<and> tp_open (tt_peer t s) \<and> \<not> ok \<longrightarrow> tp_recvbuf (tt_peer t' s) = [])"
proof -
  have b: "bufs_ok t" "alive_ok t" using inv by (simp_all add: tcp_inv_def)
  note R = read_loop_flow [OF loop b(1) empty]
  have "idle_ok t'"
    unfolding idle_ok_def
  proof (intro allI impI)
    fix x assume x: "status t' x \<in> {TM_CONN, TM_SHUT}"
    have "status t' x \<in> {status t x, TM_SEND}" using R by blast
    with x st have "x = other s" "status t x \<in> {TM_CONN, TM_SHUT}" by (auto simp: side_eq_other)
    then show "tp_recvbuf (tt_peer t' x) = []" using R inv by (auto simp: tcp_inv_def idle_ok_def)
  qed
  then have "tcp_inv t'" using R inv alive_ok_life [of t' t] life_mitm [of t' t] by (simp add: tcp_inv_def)
  then show ?thesis using R alive_ok_other [OF b(2), of s] flows_weaken [of t t'] by (simp add: smooth_def)
qed

lemma OnReceive_moves:
  assumes inv: "tcp_inv t" and op: "tp_open (tt_peer t s)"
  shows "moves t (Tcp_OnReceive env s e t)"
proof -
  have nm: "tt_pMitm t = None" using inv by (simp add: tcp_inv_def)
  let ?t1 = "enter_status TM_RECV s t"
  have s1: "smooth t ?t1" using inv by (rule smooth_prims)
  consider "e \<noteq> 0" | "e = 0" "tp_recvbuf (tt_peer ?t1 s) \<noteq> []" | "e = 0" "tp_recvbuf (tt_peer ?t1 s) = []" by blast
  then show ?thesis
  proof cases
    case 1
    then show ?thesis using nm smooth_moves1 [OF smooth_refl [OF inv]] by (simp add: Tcp_OnReceive_def)
  next
    case 2
    then show ?thesis using nm smooth_moves1 [OF s1] by (simp add: Tcp_OnReceive_def Let_def)
  next
    case 3
    obtain ok n err t2 where loop: "tcp_read_loop s 0 ?t1 = (ok, n, err, t2)" using prod_cases4 by blast
    have "tp_open (tt_peer ?t1 s)" using op life_open [of ?t1 t s] by simp
    then have L: "smooth ?t1 t2" "healthy ?t1 \<and> \<not> ok \<longrightarrow> tp_recvbuf (tt_peer t2 s) = []"
      using loop_smooth [OF smooth_inv [OF s1] _ 3(2) loop] by simp_all
    show ?thesis
    proof (cases ok)
      case False
      have sm: "smooth ?t1 (Tcp_TriggerEvent s FD_CLOSE err (Tcp_ClearBuffer s t2))"
        using L False by (intro smooth_trigger Clear_smooth) simp_all
      have eq: "Tcp_OnReceive env s e t = Tcp_TriggerEvent s FD_CLOSE err (Tcp_ClearBuffer s t2)"
        using 3 nm False by (simp add: Tcp_OnReceive_def Let_def loop)
      show ?thesis unfolding eq by (rule smooth_moves1 [OF smooth_trans [OF s1 sm]])
    next
      case True
      let ?t3 = "snd (TestReadable s t2)"
      have L3: "smooth ?t1 ?t3" by (rule smooth_then [OF L(1)]) (rule smooth_prims)
      have "Tcp_OnReceive env s e t \<in> (\<lambda>x. TryFinishConnection s (PropagateHalfClose s x)) ` {t2, ?t3, Tcp_TriggerEvent s FD_READ 0 ?t3}"
        using 3 nm True by (simp add: Tcp_OnReceive_def Let_def loop split_beta)
      then obtain x where x: "Tcp_OnReceive env s e t = TryFinishConnection s (PropagateHalfClose s x)"
        "x \<in> {t2, ?t3, Tcp_TriggerEvent s FD_READ 0 ?t3}" by (rule imageE)
      have "smooth ?t1 x" using x(2) L(1) L3 smooth_trigger [OF L3, of s FD_READ 0] by auto
      then show ?thesis unfolding x(1) by (intro smooth_tail smooth_trans [OF s1])
    qed
  qed
qed

lemma mitm_tell_None [simp]: "tt_pMitm t = None \<Longrightarrow> mitm_tell env op q err t = t"
  by (simp add: mitm_tell_def mitm_io_def)

lemma tap_fields [simp]: "tt_pMitm (tap e t) = tt_pMitm t" "tt_pMitm (tell e t) = tt_pMitm t"
  "tt_alive (tap e t) = tt_alive t" "tt_alive (tell e t) = tt_alive t" "tt_bDeletePending (tap e t) = tt_bDeletePending t"
  "tt_bDeletePending (tell e t) = tt_bDeletePending t" "tt_peer (tap e t) = tt_peer t" "tt_peer (tell e t) = tt_peer t"
  by (simp_all add: tap_def tell_def)

lemma status_peer: "tp_SocketStatus (tt_peer t s) = status t s"
  by (simp add: status_def)

lemma close_error_smooth:
  assumes inv: "tcp_inv t"
  shows "smooth t (close_error env s err t)"
proof -
  have nm: "tt_pMitm t = None" and al: "alive_ok t" using inv by (simp_all add: tcp_inv_def)
  let ?t = "close_error env s err t"
  have st: "stream ?t = stream t" using nm by (simp add: close_error_def Let_def data_of_peer)
  have alive: "alive_ok ?t" using nm al by (cases s) (auto simp: close_error_def Let_def alive_ok_def)
  have nm': "tt_pMitm ?t = None" using nm by (simp add: close_error_def Let_def)
  have h: "healthy t \<longrightarrow> healthy ?t" using nm by (simp add: close_error_def Let_def healthy_upd healthy_peer)
  have status: "status ?t x \<in> {status t x, TM_CLOSE}" for x using nm by (simp add: close_error_def Let_def status_upd status_peer)
  have "idle_ok ?t"
    unfolding idle_ok_def
  proof (intro allI impI)
    fix x assume "status ?t x \<in> {TM_CONN, TM_SHUT}"
    then have "status t x \<in> {TM_CONN, TM_SHUT}" using status [of x] by auto
    then show "tp_recvbuf (tt_peer ?t x) = []" using inv stream_fields(2) [OF st] by (auto simp: tcp_inv_def idle_ok_def)
  qed
  then have "tcp_inv ?t" using alive nm' inv bufs_ok_stream [OF st] by (simp add: tcp_inv_def)
  then show ?thesis using h flows_stream [OF st] stream_fields(1) [OF st] by (simp add: smooth_def)
qed

lemma OnClose_moves:
  assumes inv: "tcp_inv t"
  shows "moves t (Tcp_OnClose env s e t)"
proof (cases "e = 0")
  case False
  have "tt_pMitm t = None" using inv by (simp add: tcp_inv_def)
  then show ?thesis using False smooth_moves1 [OF close_error_smooth [OF inv]] by (simp add: Tcp_OnClose_def)
next
  case True
  let ?t1 = "upd s (\<lambda>p. p\<lparr>tp_bConnShutted := True\<rparr>) t"
  let ?t2 = "snd (Tcp_AsyncSelect s {FD_READ, FD_WRITE, FD_CLOSE} ?t1)"
  have nm: "tt_pMitm t = None" using inv by (simp add: tcp_inv_def)
  have s1: "smooth t ?t1" using inv by (rule smooth_prims)
  have s2: "smooth t ?t2" by (rule smooth_then [OF s1]) (rule smooth_prims)
  have "Tcp_OnClose env s e t \<in> {?t1, TryFinishConnection s (PropagateHalfClose s ?t1), Tcp_TriggerEvent s FD_READ 0 ?t2}"
    using True nm by (simp add: Tcp_OnClose_def Let_def)
  then show ?thesis using smooth_moves1 [OF s1] smooth_tail [OF s1] smooth_moves1 [OF smooth_trigger [OF s2]] by auto
qed

lemma TransferSend_smooth:
  assumes inv: "tcp_inv t" and tr: "TransferSend s t = (r, t')"
  shows "smooth t t' \<and> (healthy t \<and> tp_open (tt_peer t (other s)) \<longrightarrow> r \<noteq> None)"
proof -
  have b: "bufs_ok t" using inv by (simp add: tcp_inv_def)
  note T = TransferSend_flow [OF b tr]
  have "idle_ok t'"
    unfolding idle_ok_def
  proof (intro allI impI)
    fix x assume x: "status t' x \<in> {TM_CONN, TM_SHUT}"
    then have "x = s" "status t s \<in> {TM_CONN, TM_SHUT}" using T by (auto simp: side_eq_other split: if_splits)
    moreover from this have "tp_recvbuf (tt_peer t s) = []" using inv by (auto simp: tcp_inv_def idle_ok_def)
    moreover from this have "pending (tt_peer t s) = []" by (simp add: pending_def)
    then have "tp_recvbuf (tt_peer t' s) = []" using tr by (auto simp: TransferSend_def transfer_loop.simps [of s "[]"] Let_def)
    ultimately show "tp_recvbuf (tt_peer t' x) = []" by simp
  qed
  then have "tcp_inv t'" using T inv alive_ok_life [of t' t] life_mitm [of t' t] by (simp add: tcp_inv_def)
  then show ?thesis using T flows_weaken [of t t'] by (simp add: smooth_def)
qed

lemma send_drained_smooth:
  assumes inv: "tcp_inv t"
  shows "smooth t (send_drained s t)"
proof -
  obtain r t1 where te: "TestReadable (other s) t = (r, t1)" by fastforce
  obtain m t2 where pe: "HasPendingRead (other s) t1 = (m, t2)" by fastforce
  have s1: "smooth t t1" using smooth_prims(12) [OF inv, of "other s"] te by simp
  have s2: "smooth t t2" by (rule smooth_then [OF s1]) (use smooth_prims(9) [of t1 "other s"] pe in simp)
  have "smooth t (Tcp_TriggerEvent s FD_CLOSE 0 (Tcp_ClearBuffer (other s) (Tcp_ClearBuffer s t1)))" if "\<not> healthy t"
    using that s1 by (intro smooth_trigger Clear_smooth) simp_all
  moreover have "healthy t \<longrightarrow> 0 \<le> r" using healthy_TestReadable [OF _ te] by blast
  ultimately show ?thesis using smooth_trigger [OF s1] smooth_trigger [OF s2] s2
    by (auto simp: send_drained_def te pe Let_def)
qed

lemma OnSend_moves:
  assumes inv: "tcp_inv t" and op: "tp_open (tt_peer t s)"
  shows "moves t (Tcp_OnSend env s e t)"
proof -
  have nm: "tt_pMitm t = None" and al: "alive_ok t" using inv by (simp_all add: tcp_inv_def)
  let ?t1 = "enter_status TM_SEND s t" let ?c = "\<lambda>x. TryFinishConnection (other s) (PropagateHalfClose (other s) x)"
  have s1: "smooth t ?t1" using inv by (rule smooth_prims)
  have op1: "tp_open (tt_peer ?t1 s)" using op life_open [of ?t1 t s] by simp
  obtain r t2 where tr: "TransferSend (other s) ?t1 = (r, t2)" by fastforce
  note T = TransferSend_smooth [OF smooth_inv [OF s1] tr]
  consider "e \<noteq> 0" | "e = 0" "\<not> 0 < GetValidDataLen (tt_peer ?t1 (other s))" | "e = 0" "0 < GetValidDataLen (tt_peer ?t1 (other s))" by blast
  then show ?thesis
  proof cases
    case 1
    then show ?thesis using nm smooth_moves1 [OF smooth_refl [OF inv]] by (simp add: Tcp_OnSend_def)
  next
    case 2
    then show ?thesis using nm smooth_tail [OF s1] by (simp add: Tcp_OnSend_def Let_def)
  next
    case 3
    show ?thesis
    proof (cases r)
      case None
      then have "\<not> healthy ?t1" using T op1 by auto
      then have sm: "smooth ?t1 (Tcp_TriggerEvent s FD_CLOSE 0 (Tcp_ClearBuffer (other s) (Tcp_ClearBuffer s t2)))"
        using T by (intro smooth_trigger Clear_smooth) simp_all
      have eq: "Tcp_OnSend env s e t = Tcp_TriggerEvent s FD_CLOSE 0 (Tcp_ClearBuffer (other s) (Tcp_ClearBuffer s t2))"
        using 3 nm None by (simp add: Tcp_OnSend_def Let_def tr)
      show ?thesis unfolding eq by (rule smooth_moves1 [OF smooth_trans [OF s1 sm]])
    next
      case (Some n)
      have s2: "smooth t t2" using smooth_trans [OF s1] T by blast
      have s3: "smooth t (send_drained s t2)" by (rule smooth_then [OF s2]) (rule send_drained_smooth)
      have "Tcp_OnSend env s e t = ?c t2 \<or> Tcp_OnSend env s e t = ?c (send_drained s t2)"
        using 3 nm Some by (simp add: Tcp_OnSend_def Let_def tr)
      then show ?thesis using smooth_tail [OF s2] smooth_tail [OF s3] by auto
    qed
  qed
qed

lemma OnConnect_moves:
  assumes inv: "tcp_inv t"
  shows "moves t (Tcp_OnConnect env s e t)"
proof -
  have nm: "tt_pMitm t = None" using inv by (simp add: tcp_inv_def)
  let ?c = "other s"
  define t0 where "t0 = tell (TcpOnConnect e) (tap (TapConnected e) t)"
  have s0: "smooth t t0" unfolding t0_def by (rule smooth_then [OF smooth_prims(3) [OF inv]]) (rule smooth_prims)
  define t1 where "t1 = snd (Tcp_AsyncSelect ?c {FD_READ, FD_WRITE, FD_CLOSE} (upd s (\<lambda>p. p\<lparr>tp_bForwardingReady := True\<rparr>) t0))"
  have s1: "smooth t t1" unfolding t1_def
    by (rule smooth_then [OF smooth_then [OF s0 smooth_prims(8)]]) (auto intro: smooth_prims)
  have nm1: "tt_pMitm t1 = None" "tt_pMitm t0 = None" using smooth_inv [OF s1] smooth_inv [OF s0] by (simp_all add: tcp_inv_def)
  define t2 where "t2 = (if 0 < GetValidDataLen (tt_peer t1 ?c) then Tcp_TriggerEvent s FD_WRITE 0 t1 else t1)"
  have s2: "smooth t t2" using s1 smooth_trigger [OF s1] by (simp add: t2_def)
  define t3 where "t3 = snd (TestWritable ?c t2)"
  have s3: "smooth t t3" unfolding t3_def by (rule smooth_then [OF s2]) (rule smooth_prims)
  define t4 where "t4 = (if 0 < fst (TestWritable ?c t2) then Tcp_TriggerEvent ?c FD_WRITE 0 t3 else t3)"
  have s4: "smooth t t4" using s3 smooth_trigger [OF s3] by (simp add: t4_def)
  define t5 where "t5 = snd (TestReadable ?c t4)"
  have s5: "smooth t t5" unfolding t5_def by (rule smooth_then [OF s4]) (rule smooth_prims)
  define t6 where "t6 = (if 0 < fst (TestReadable ?c t4) then Tcp_TriggerEvent ?c FD_READ 0 t5 else t5)"
  have s6: "smooth t t6" using s5 smooth_trigger [OF s5] by (simp add: t6_def)
  define t7 where "t7 = upd ?c (\<lambda>p. update_monitor TM_RECV (tm_Update (tt_now t6) \<circ> tm_Enable) (update_monitor TM_SEND (tm_Update (tt_now t6) \<circ> tm_Enable) p)) t6"
  have s7: "smooth t t7" unfolding t7_def by (rule smooth_then [OF s6]) (rule smooth_prims)
  have "Tcp_OnConnect env s e t = (if e \<noteq> 0 then Tcp_OnClose env s e t0 else PropagateHalfClose ?c t7)"
    using nm nm1 unfolding t7_def t6_def t5_def t4_def t3_def t2_def
    by (simp add: Tcp_OnConnect_def t0_def [symmetric] t1_def [symmetric] Let_def split_beta)
  then show ?thesis
    using smooth_moves [OF s0 OnClose_moves [OF smooth_inv [OF s0]]] smooth_moves [OF s7 tail_moves(2) [OF smooth_inv [OF s7]]] by simp
qed

lemma OnTimer_moves:
  assumes inv: "tcp_inv t"
  shows "moves t (Tcp_OnTimer env s t)"
proof -
  have nm: "tt_pMitm t = None" using inv by (simp add: tcp_inv_def)
  have idle: "status t s \<in> {TM_CONN, TM_SHUT} \<Longrightarrow> tp_recvbuf (tt_peer t s) = []" using inv by (auto simp: tcp_inv_def idle_ok_def)
  have s1: "smooth t (tell e t)" for e using inv by (rule smooth_prims)
  have c: "smooth t (Tcp_TriggerEvent s FD_CLOSE WSAETIMEDOUT (Tcp_ClearBuffer s (tell e t)))"
      "smooth t (Tcp_TriggerEvent s FD_CLOSE WSAETIMEDOUT (Tcp_ClearBuffer s t))" if "status t s \<in> {TM_CONN, TM_SHUT}" for e
    using idle [OF that] s1 smooth_refl [OF inv] by (auto intro!: smooth_trigger Clear_smooth)
  show ?thesis using nm c smooth_refl [OF inv]
    by (auto intro!: smooth_moves1 simp: Tcp_OnTimer_def Let_def status_def split: em_TMTimeOut.split)
qed

section \<open>Runs\<close>

definition good_network :: "net_input \<Rightarrow> bool" where
  "good_network ni \<longleftrightarrow> (\<forall>e. SendError e \<in> set (ni_send ni) \<longrightarrow> e = WSAEWOULDBLOCK) \<and> (\<forall>r \<in> set (ni_readable ni). 0 \<le> r)"

fun good_input :: "tcp_input \<Rightarrow> bool" where
  "good_input (TcpNetwork s now ni) = good_network ni"
| "good_input _ = True"

lemma network_step:
  "stream (tcp_step env (TcpNetwork s now ni) t) = stream t" "life (tcp_step env (TcpNetwork s now ni) t) = life t"
  "status (tcp_step env (TcpNetwork s now ni) t) = status t"
  "healthy t \<Longrightarrow> good_network ni \<Longrightarrow> healthy (tcp_step env (TcpNetwork s now ni) t)"
proof -
  show "healthy (tcp_step env (TcpNetwork s now ni) t)" if "healthy t" "good_network ni"
    using that by (auto simp: healthy_def good_network_def good_peer_def feed_network_def)
qed (simp_all add: feed_network_def life_upd, simp add: status_def feed_network_def fun_eq_iff)

lemma step_moves:
  assumes inv: "tcp_inv t"
  shows "tcp_inv (tcp_step env i t) \<and> flows (healthy t) t (tcp_step env i t) \<and> (healthy t \<and> good_input i \<longrightarrow> healthy (tcp_step env i t)) \<and>
     (\<forall>x. nk_fin (tt_peer (tcp_step env i t) x) \<longrightarrow> nk_fin (tt_peer t x) \<or>
       tp_bReadClosed (tt_peer (tcp_step env i t) (other x)) \<and> pending (tt_peer (tcp_step env i t) (other x)) = [])"
proof (cases "\<exists>s now ni. i = TcpNetwork s now ni")
  case True
  then obtain s now ni where i: "i = TcpNetwork s now ni" by blast
  note N = network_step [where env = env and s = s and now = now and ni = ni and t = t]
  show ?thesis using inv N flows_stream [OF N(1)] bufs_ok_stream [OF N(1)] alive_ok_life [OF N(2)] life_mitm [OF N(2)] stream_fields [OF N(1)]
    unfolding i tcp_inv_def idle_ok_def by simp
next
  case False
  have "moves t t" using inv smooth_moves1 smooth_refl by blast
  then have "moves t (tcp_step env i t)"
    using False inv by (cases i) (simp_all add: OnReceive_moves OnSend_moves OnConnect_moves OnClose_moves OnTimer_moves)
  then show ?thesis by (simp add: moves_def)
qed

lemma flows_mono: "flows b t t' \<Longrightarrow> (c \<longrightarrow> b) \<Longrightarrow> flows c t t'"
  using flows_weaken [of t t' c] by (cases b) simp_all

lemma run_inv: "tcp_inv t \<Longrightarrow> tcp_inv (tcp_run env is t)"
  using step_moves by (induction "is" arbitrary: t) (auto simp: tcp_run_def)

lemma run_healthy: "tcp_inv t \<Longrightarrow> healthy t \<Longrightarrow> list_all good_input is \<Longrightarrow> healthy (tcp_run env is t)"
proof (induction "is" arbitrary: t)
  case (Cons i "is")
  then show ?case using step_moves [OF Cons.prems(1), of env i] by (simp add: tcp_run_def)
qed (simp add: tcp_run_def)

lemma run_flows: "tcp_inv t \<Longrightarrow> flows (healthy t \<and> list_all good_input is) t (tcp_run env is t)"
proof (induction "is" arbitrary: t)
  case Nil
  then show ?case by (simp add: tcp_run_def)
next
  case (Cons i "is")
  let ?t = "tcp_step env i t" let ?b = "healthy t \<and> list_all good_input (i # is)"
  note S = step_moves [OF Cons.prems, of env i]
  have "flows (healthy ?t \<and> list_all good_input is) ?t (tcp_run env is ?t)" using Cons.IH S by blast
  then have "flows ?b ?t (tcp_run env is ?t)" by (rule flows_mono) (use S in simp)
  moreover have "flows ?b t ?t" by (rule flows_mono) (use S in auto)
  ultimately show ?case using flows_trans [of ?b t ?t] by (simp add: tcp_run_def)
qed

text \<open>A task without inspection whose connection attempt has begun.\<close>

definition tcp_started_uninspected :: "'s MitmEnv \<Rightarrow> 's TcpSetup \<Rightarrow> PRCClient \<Rightarrow> ProxyInfo \<Rightarrow> dword \<Rightarrow> 's TcpTask \<Rightarrow> bool" where
  "tcp_started_uninspected env su c pi now t \<longleftrightarrow> \<not> su_MitmEnabled su \<and> (\<exists>stage. Tcp_SetTaskInfo env su c pi (TcpTask_new now) = (True, stage, t))"

lemma started_peer:
  assumes "tcp_started_uninspected env su c pi now t"
  shows "tt_alive t \<and> tt_pMitm t = None \<and> \<not> tt_bDeletePending t \<and> tp_open (tt_peer t s) \<and> data_of (tt_peer t s) = ([], 0, [], [], False) \<and>
    nk_send (tt_peer t s) = [] \<and> nk_readable (tt_peer t s) = []"
proof -
  obtain stage where st: "Tcp_SetTaskInfo env su c pi (TcpTask_new now) = (True, stage, t)" and nm: "\<not> su_MitmEnabled su"
    using assms by (auto simp: tcp_started_uninspected_def)
  obtain ok stage' t1 where con: "Tcp_ConnectProxy su c pi Server ((TcpTask_new now)\<lparr>tt_alive := True, tt_PRCClient := c, tt_ProxyInfo := pi, tt_pProtocol := su_TapEnabled su\<rparr>)
      = (ok, stage', t1)" using prod_cases3 by blast
  have t: "ok" "t = upd Client (\<lambda>p. p\<lparr>tp_open := True, tp_lEvent := {FD_CLOSE}\<rparr>) t1"
    using st nm by (auto simp: Tcp_SetTaskInfo_def con Let_def split: if_splits option.splits)
  show ?thesis
    using con t(1) unfolding t(2)
    by (cases s) (auto simp: Tcp_ConnectProxy_def AddProxyLayer_def TcpTask_new_def TcpPeer_new_def data_of_def enter_status_def update_monitor_def Let_def
        split: if_splits option.splits prod.splits)
qed

lemma started_inv:
  assumes "tcp_started_uninspected env su c pi now t"
  shows "tcp_inv t \<and> healthy t \<and> lag s t = [] \<and> nk_in (tt_peer t s) = []"
proof -
  have P: "tp_recvbuf (tt_peer t x) = []" "tp_sentpos (tt_peer t x) = 0" "nk_in (tt_peer t x) = []" "nk_out (tt_peer t x) = []"
    "nk_send (tt_peer t x) = []" "nk_readable (tt_peer t x) = []" "tp_open (tt_peer t x)" for x
    using started_peer [OF assms, of x] by (simp_all add: data_of_def)
  show ?thesis using started_peer [OF assms, of Client]
    by (simp add: tcp_inv_def healthy_def good_peer_def bufs_ok_def buf_ok_def alive_ok_def lag_def pending_def idle_ok_def P)
qed

lemma flows_fresh:
  assumes "flows b t0 t" "lag s t0 = []" "nk_in (tt_peer t0 s) = []"
  shows "if b then lag s t = nk_in (tt_peer t s) else subseq (lag s t) (nk_in (tt_peer t s))"
  using assms(1) [unfolded flows_def, THEN spec, of s] assms(2,3) by auto

section \<open>Properties\<close>

text \<open>
  C5. Bytes in order: in every run of a started connection that is not inspected, whatever the sockets answer, what one
  side's socket has accepted followed by what is buffered for it is a subsequence of the bytes
  read from the other side (nothing is reordered, duplicated or invented), and a buffer never
  holds more than its 4096 bytes.
\<close>

theorem tcp_streams_in_order:
  assumes "tcp_started_uninspected env su c pi now t0"
  shows "subseq (nk_out (tt_peer (tcp_run env is t0) (other s)) @ pending (tt_peer (tcp_run env is t0) s)) (nk_in (tt_peer (tcp_run env is t0) s)) \<and>
    length (tp_recvbuf (tt_peer (tcp_run env is t0) s)) \<le> 4096"
proof -
  note S = started_inv [OF assms, of s]
  let ?t = "tcp_run env is t0"
  have "flows False t0 ?t" using run_flows [of t0 "is" env] S by (intro flows_mono [of _ t0 ?t False]) auto
  then have "subseq (lag s ?t) (nk_in (tt_peer ?t s))" using S flows_fresh [of False t0 ?t s] by simp
  moreover have "bufs_ok ?t" using run_inv [of t0 env "is"] S by (simp add: tcp_inv_def)
  ultimately show ?thesis by (simp add: lag_def bufs_ok_def buf_ok_def)
qed

text \<open>
  C6. No byte is lost: as long as sends fail only by blocking and no socket is found broken, in
  every run of a started connection that is not inspected the bytes read from one side are exactly those the other side's socket has accepted
  followed by those still buffered, however reads and writes are cut up.
\<close>

theorem tcp_streams_complete:
  assumes "tcp_started_uninspected env su c pi now t0" and "list_all good_input is"
  shows "nk_in (tt_peer (tcp_run env is t0) s) = nk_out (tt_peer (tcp_run env is t0) (other s)) @ pending (tt_peer (tcp_run env is t0) s)"
proof -
  note S = started_inv [OF assms(1), of s]
  have "flows True t0 (tcp_run env is t0)" using run_flows [of t0 "is" env] S assms(2) by simp
  then show ?thesis using S flows_fresh [of True t0 "tcp_run env is t0" s] by (simp add: lag_def)
qed

text \<open>
  C7. The end of a stream comes last: in every run of a started connection that is not inspected, as
  long as sends fail only by blocking and no socket is found broken, when a step sends the end of the
  stream to one side, the end of the other side's stream has been read and every byte of it has
  been accepted.
\<close>

theorem fin_after_all_bytes:
  assumes "tcp_started_uninspected env su c pi now t0" and "list_all good_input is" and "good_input i"
    and "\<not> nk_fin (tt_peer (tcp_run env is t0) (other s))" and "nk_fin (tt_peer (tcp_step env i (tcp_run env is t0)) (other s))"
  shows "tp_bReadClosed (tt_peer (tcp_step env i (tcp_run env is t0)) s) \<and>
    nk_out (tt_peer (tcp_step env i (tcp_run env is t0)) (other s)) = nk_in (tt_peer (tcp_step env i (tcp_run env is t0)) s)"
proof -
  let ?t = "tcp_run env is t0"
  note S = started_inv [OF assms(1), of s]
  have "tcp_inv ?t" using S by (simp add: run_inv)
  then have fin: "tp_bReadClosed (tt_peer (tcp_step env i ?t) s)" "pending (tt_peer (tcp_step env i ?t) s) = []"
    using step_moves [of ?t env i] assms(4,5) by (metis other_other)+
  have run: "tcp_run env (is @ [i]) t0 = tcp_step env i ?t" by (simp add: tcp_run_def)
  have "flows True t0 (tcp_step env i ?t)" using run_flows [of t0 "is @ [i]" env] S assms(2,3) by (simp add: run)
  then show ?thesis using S fin flows_fresh [of True t0 "tcp_step env i ?t" s] by (simp add: lag_def)
qed

section \<open>An example run\<close>

definition env_idle :: "unit MitmEnv" where
  "env_idle = \<lparr>me_io = (\<lambda>_ _ _ _ x. (0, [], x)), me_CreateWindow = False, me_SetTimer = False\<rparr>"

definition su_direct :: "unit TcpSetup" where
  "su_direct = \<lparr>su_AddLayer = True, su_Configure = True, su_AddSecureLayer = True, su_Create = None, su_AsyncSelect = None,
     su_layerEnv = env_plain, su_MitmEnabled = False, su_MitmInitialize = None, su_TapEnabled = False, su_Attach = None\<rparr>"

definition tcp_demo :: "unit TcpTask" where
  "tcp_demo = snd (snd (Tcp_SetTaskInfo env_idle su_direct PRCClient_zero ProxyInfo_zero (TcpTask_new 0)))"

definition net_none :: net_input where
  "net_none = \<lparr>ni_recv = [], ni_send = [], ni_readable = [], ni_writable = [], ni_fionread = [], ni_pendingRead = [], ni_select = []\<rparr>"

definition demo_inputs :: "tcp_input list" where
  "demo_inputs = [TcpConnect 0, TcpNetwork Server 0 (net_none\<lparr>ni_send := [SendCount 9]\<rparr>),
     TcpNetwork Client 0 (net_none\<lparr>ni_recv := [RecvData [1, 2], RecvData []], ni_readable := [1]\<rparr>)]"

lemmas setup_defs = Tcp_SetTaskInfo_def Tcp_ConnectProxy_def AddProxyLayer_def proxy_layer_def connect_layer_def Connect_addr_def ConnectNext_def
  UsesGoncTlsPsk_def enter_status_def update_monitor_def SetProxy_none_def su_direct_def env_plain_def

lemma zero_profile [simp]: "GetProxyType ProxyInfo_zero = PROXYTYPE_NOPROXY" "\<not> IsDNValid PRCClient_zero"
  by (simp_all add: ProxyInfo_zero_def GetProxyType_def proxytype_of_name_def stricmp_eq_def IsDNValid_def PRCClient_zero_def)

lemma demo_started: "tcp_started_uninspected env_idle su_direct PRCClient_zero ProxyInfo_zero 0 tcp_demo"
proof -
  have "fst (Tcp_SetTaskInfo env_idle su_direct PRCClient_zero ProxyInfo_zero (TcpTask_new 0)) = True" "\<not> su_MitmEnabled su_direct"
    by (simp_all add: setup_defs layer_fresh_def TcpTask_new_def Let_def)
  then show ?thesis unfolding tcp_started_uninspected_def tcp_demo_def by (metis prod.collapse)
qed

lemmas run_defs = tcp_run_def demo_inputs_def net_none_def feed_network_def Tcp_OnConnect_def Tcp_OnReceive_def PropagateHalfClose_def
  TryFinishConnection_def Tcp_Receive_def Tcp_Send_def take_in_def read_eof_def TransferSend_def Tcp_AsyncSelect_def TestReadable_def TestWritable_def
  Tcp_TriggerEvent_def enter_status_def update_monitor_def tell_def tap_def count_sent_def mitm_tell_def mitm_io_def GetValidDataLen_def pending_def
  IOCtl_FIONREAD_def Tcp_ShutDown_def

lemma demo_run:
  "nk_in (tt_peer (tcp_step env_idle (TcpReceive Client 0) (tcp_run env_idle demo_inputs tcp_demo)) Client) = [1, 2]"
  "nk_fin (tt_peer (tcp_step env_idle (TcpReceive Client 0) (tcp_run env_idle demo_inputs tcp_demo)) Server)"
  "\<not> nk_fin (tt_peer (tcp_run env_idle demo_inputs tcp_demo) Server)"
  by (simp_all add: run_defs tcp_demo_def setup_defs layer_fresh_def TcpTask_new_def TcpPeer_new_def Let_def tcp_read_loop.simps transfer_loop.simps upd_def)

lemma demo_good: "list_all good_input demo_inputs"
  by (simp add: demo_inputs_def good_network_def net_none_def)

theorem tcp_streams_in_order_witness:
  "subseq (nk_out (tt_peer (tcp_run env_idle demo_inputs tcp_demo) Server) @ pending (tt_peer (tcp_run env_idle demo_inputs tcp_demo) Client))
     (nk_in (tt_peer (tcp_run env_idle demo_inputs tcp_demo) Client))"
  using tcp_streams_in_order [OF demo_started, of demo_inputs Client] by simp

theorem tcp_streams_complete_witness:
  "nk_out (tt_peer (tcp_run env_idle (demo_inputs @ [TcpReceive Client 0]) tcp_demo) Server) @
     pending (tt_peer (tcp_run env_idle (demo_inputs @ [TcpReceive Client 0]) tcp_demo) Client) = [1, 2]"
proof -
  have "tcp_run env_idle (demo_inputs @ [TcpReceive Client 0]) tcp_demo = tcp_step env_idle (TcpReceive Client 0) (tcp_run env_idle demo_inputs tcp_demo)"
    by (simp add: tcp_run_def)
  then show ?thesis using tcp_streams_complete [OF demo_started, of "demo_inputs @ [TcpReceive Client 0]" Client] demo_good demo_run(1)
    by (simp del: tcp_step.simps)
qed

theorem fin_after_all_bytes_witness:
  "nk_out (tt_peer (tcp_step env_idle (TcpReceive Client 0) (tcp_run env_idle demo_inputs tcp_demo)) Server) = [1, 2]"
  using fin_after_all_bytes [OF demo_started demo_good, of "TcpReceive Client 0" Client] demo_run by (simp del: tcp_step.simps)

end
