(* ===== verification/TcpOutcome.thy ===== *)
theory TcpOutcome
  imports TcpRuns
begin

text \<open>
  The life of a TCP task with or without an inspection bridge, what the bridge does with the
  output of its session, and two paths on which an error is not reported.
\<close>

section \<open>Both connections close together\<close>

text \<open>A task under inspection with the invariant of its sockets.\<close>

definition watched :: "'s TcpTask \<Rightarrow> bool" where
  "watched t \<longleftrightarrow> alive_ok t \<and> tt_pMitm t \<noteq> None"

lemma watched_life: "life t' = life t \<Longrightarrow> watched t' = watched t"
  using alive_ok_life [of t' t] life_mitm [of t' t] by (simp add: watched_def)

lemma life_mitm_io: "mitm_io env op s d n t = (r, out, t') \<Longrightarrow> life t' = life t"
  by (auto simp: mitm_io_def life_def split: option.splits prod.splits)

lemma life_upd_mitm [simp]: "life (upd_mitm f t) = life t"
  by (simp add: upd_mitm_def life_def)

lemma life_mitm_tell [simp]: "life (mitm_tell env op s e t) = life t"
  using life_mitm_io [of env op s "[]" "nat e" t] by (auto simp: mitm_tell_def split: prod.split)

lemma mitm_tell_fields [simp]:
  "tt_alive (mitm_tell env op s e t) = tt_alive t" "tt_bDeletePending (mitm_tell env op s e t) = tt_bDeletePending t"
  "tt_peer (mitm_tell env op s e t) = tt_peer t" "(tt_pMitm (mitm_tell env op s e t) = None) = (tt_pMitm t = None)"
  by (auto simp: mitm_tell_def mitm_io_def split: option.split prod.split)

lemma alive_close_error: "watched t \<Longrightarrow> watched (close_error env s e t)"
  by (cases s) (auto simp: close_error_def Let_def watched_def alive_ok_def simp del: not_None_eq)

lemma alive_Fail: "watched t \<Longrightarrow> watched (Mitm_Fail env e t)"
  using alive_close_error [of "upd_mitm (\<lambda>m. m\<lparr>mb_failed := True\<rparr>) t"] watched_life [OF life_upd_mitm, of "\<lambda>m. m\<lparr>mb_failed := True\<rparr>" t]
  by (auto simp: Mitm_Fail_def split: option.split)

lemma alive_mitm_io: "mitm_io env op s d n t = (r, out, t') \<Longrightarrow> watched t' = watched t"
  by (rule watched_life) (rule life_mitm_io)

lemma alive_Send: "Tcp_Send s d t = (r, t') \<Longrightarrow> watched t' = watched t"
  using Tcp_Send_cases watched_life by blast

lemma alive_Receive: "Tcp_Receive s n t = (r, t') \<Longrightarrow> watched t' = watched t"
  using Tcp_Receive_cases watched_life by blast

lemma alive_prims [simp]:
  "watched (tell e t) = watched t" "watched (Tcp_TriggerEvent q ev err t) = watched t" "watched (snd (Tcp_AsyncSelect q evs t)) = watched t"
  "watched (upd_mitm g t) = watched t" "watched (upd s (\<lambda>p. p\<lparr>tp_DataLenSent := f p\<rparr>) t) = watched t"
  "watched (upd s (\<lambda>p. p\<lparr>tp_bReadClosed := b p\<rparr>) t) = watched t" "watched (upd s (\<lambda>p. p\<lparr>tp_bWriteShutdown := b p\<rparr>) t) = watched t"
  "watched (Tcp_ShutDown s t) = watched t"
  by (rule watched_life; simp add: life_upd Tcp_ShutDown_def)+

lemma alive_pump_send: "pump_send env s budget t = (ok, b, t') \<Longrightarrow> watched t \<Longrightarrow> watched t'"
proof (induction env s budget t arbitrary: ok b t' rule: pump_send.induct)
  case (1 env s budget t)
  obtain n out t1 where peek: "mitm_io env PLM_PEEK s [] 16384 t = (n, out, t1)" using prod_cases3 by blast
  obtain k t2 where send: "Tcp_Send s (take (nat n) out) t1 = (k, t2)" by fastforce
  obtain r out' t3 where con: "mitm_io env PLM_CONSUME s [] (the k) t2 = (r, out', t3)" using prod_cases3 by blast
  note al = alive_mitm_io [OF peek] alive_Send [OF send] alive_mitm_io [OF con]
  show ?case
  proof (cases "budget \<le> 0 \<or> tp_bWriteShutdown (tt_peer t s) \<or> n \<le> 0 \<or> k = None \<or> k = Some 0 \<or> r < 0")
    case True
    then have "t' \<in> {t, t1, t2, Mitm_Fail env 0 t1, Mitm_Fail env (tt_lastError t2) t2, Mitm_Fail env 0 t3}"
      using "1.prems"(1) peek send con by (subst (asm) pump_send.simps) (auto split: if_splits option.splits)
    then show ?thesis using al "1.prems"(2) alive_Fail [of t1 env] alive_Fail [of t2 env] alive_Fail [of t3 env] by auto
  next
    case False
    then obtain m where m: "k = Some m" "0 < m" by auto
    let ?t = "tell (TcpTraffic (s = Client) m) (upd (other s) (\<lambda>p. p\<lparr>tp_DataLenSent := tp_DataLenSent p + of_nat m\<rparr>) t3)"
    have rec: "pump_send env s (budget - int m) ?t = (ok, b, t')"
      using "1.prems"(1) peek send con m False by (subst (asm) pump_send.simps) auto
    have "watched ?t" using al "1.prems"(2) by simp
    moreover have "mitm_io env PLM_CONSUME s [] m t2 = (r, out', t3)" using con m by simp
    ultimately show ?thesis
      using False m by (intro "1.IH" [OF _ peek [symmetric] refl _ _ send [symmetric] m(1) _ _ refl _ rec]) auto
  qed
qed

lemma alive_pump_output: "pump_output env s t = (ok, t') \<Longrightarrow> watched t \<Longrightarrow> watched t'"
  using alive_pump_send [of env s 65536 t] by (auto simp: pump_output_def split: prod.splits if_splits)

lemma alive_apply_status:
  assumes "apply_status env st s t = (ok, t')" "watched t"
  shows "watched t'"
proof -
  define t1 where "t1 = (if bit st (eof_bit s) then upd s (\<lambda>p. p\<lparr>tp_bReadClosed := True\<rparr>) t else t)"
  define t2 where "t2 = (if bit st (shutdown_bit s) \<and> \<not> tp_bWriteShutdown (tt_peer t1 s)
    then upd s (\<lambda>p. p\<lparr>tp_bWriteShutdown := True\<rparr>) (Tcp_ShutDown s t1) else t1)"
  define ev where "ev = {FD_WRITE, FD_CLOSE} \<union> (if \<not> \<not> bit st (can_read_bit s) \<and> \<not> tp_bReadClosed (tt_peer t2 s) then {FD_READ} else {})"
  define t3 where "t3 = snd (if tp_lEvent (tt_peer t2 s) \<noteq> ev then Tcp_AsyncSelect s ev t2 else (True, t2))"
  have al: "watched t1" "watched t2" "watched t3" using assms(2) by (simp_all add: t1_def t2_def t3_def)
  have "t' = Mitm_Fail env (tt_lastError t3) t3 \<or> (\<exists>f. t' = upd_mitm f t3) \<or> (\<exists>f. t' = upd_mitm f (Tcp_TriggerEvent s FD_READ 0 t3))"
    using assms(1) unfolding apply_status_def Let_def t1_def [symmetric] t2_def [symmetric] ev_def [symmetric] split_beta t3_def [symmetric]
    by (auto split: if_splits)
  then show ?thesis using al alive_Fail [OF al(3)] by auto
qed

lemma alive_finish_both: "watched t \<Longrightarrow> watched (finish_both t)"
  by (auto simp: finish_both_def Let_def watched_def alive_ok_def simp del: not_None_eq)

lemma alive_Pump:
  assumes "Mitm_Pump env t = (ok, t')" "watched t"
  shows "watched t'"
proof -
  obtain ok1 t1 where 1: "pump_output env Client t = (ok1, t1)" by fastforce
  obtain ok2 t2 where 2: "pump_output env Server t1 = (ok2, t2)" by fastforce
  obtain st out t3 where 3: "mitm_io env PLM_STATUS Client [] 0 t2 = (st, out, t3)" using prod_cases3 by blast
  obtain ok4 t4 where 4: "apply_status env st Client (upd_mitm (poll_handshake env (bit st 8 \<or> bit st 9)) t3) = (ok4, t4)" by fastforce
  obtain ok5 t5 where 5: "apply_status env st Server t4 = (ok5, t5)" by fastforce
  have a1: "watched t1" using alive_pump_output [OF 1 assms(2)] .
  have a2: "watched t2" using alive_pump_output [OF 2 a1] .
  have a3: "watched t3" using alive_mitm_io [OF 3] a2 by simp
  have a4: "watched t4" using alive_apply_status [OF 4] a3 by simp
  have a5: "watched t5" using alive_apply_status [OF 5 a4] .
  have "t' \<in> {t, t1, t2, Mitm_Fail env 0 t3, t4, t5, finish_both t5}"
    using assms(1) by (auto simp: Mitm_Pump_def 1 2 3 4 5 split: option.splits if_splits)
  then show ?thesis using assms(2) a1 a2 a4 a5 alive_Fail [OF a3] alive_finish_both [OF a5] by auto
qed

lemma alive_read_loop: "mitm_read_loop env s budget t = (b, t') \<Longrightarrow> watched t \<Longrightarrow> watched t'"
proof (induction "nat budget" arbitrary: budget t b t' rule: less_induct)
  case less
  obtain st out t1 where 1: "mitm_io env PLM_STATUS Client [] 0 t = (st, out, t1)" using prod_cases3 by blast
  obtain d t2 where 2: "Tcp_Receive s 4096 t1 = (d, t2)" by fastforce
  obtain r out' t3 where 3: "mitm_io env (if the d \<noteq> [] then PLM_FEED else PLM_EOF) s (the d) (length (the d)) t2 = (r, out', t3)" using prod_cases3 by blast
  define t4 where "t4 = (if the d \<noteq> [] then tell (TcpPacket s (the d)) t3 else t3)"
  define t5 where "t5 = upd s (\<lambda>p. p\<lparr>tp_DataLenRecvd := tp_DataLenRecvd p + of_nat (length (the d)), tp_bReadClosed := tp_bReadClosed p \<or> the d = []\<rparr>) t4"
  obtain ok t6 where 6: "Mitm_Pump env t5 = (ok, t6)" by fastforce
  have a1: "watched t1" using alive_mitm_io [OF 1] less.prems(2) by simp
  have a2: "watched t2" using alive_Receive [OF 2] a1 by simp
  have a3: "watched t3" using alive_mitm_io [OF 3] a2 by simp
  have "watched t5 = watched t4" unfolding t5_def by (rule watched_life) (simp add: life_upd)
  then have a6: "watched t6" using alive_Pump [OF 6] a3 by (simp add: t4_def)
  let ?stop = "\<not> ok \<or> tp_bReadClosed (tt_peer t6 s) \<or> \<not> tp_open (tt_peer t6 s) \<or> the d = []"
  have def: "mitm_read_loop env s budget t =
      (if budget \<le> 0 then (Some budget, t) else if st < 0 then (None, Mitm_Fail env 0 t1)
       else if \<not> bit st (can_read_bit s) then (Some budget, t1)
       else if d = None then (if tt_lastError t2 \<noteq> WSAEWOULDBLOCK then (None, Mitm_Fail env (tt_lastError t2) t2) else (Some budget, t2))
       else if r < 0 then (None, Mitm_Fail env 0 t3)
       else if ?stop then (None, t6) else mitm_read_loop env s (budget - int (length (the d))) t6)"
  proof (cases d)
    case None
    then show ?thesis using 2 by (subst mitm_read_loop.simps) (simp add: 1)
  next
    case (Some x)
    show ?thesis
      unfolding Some
      by (subst mitm_read_loop.simps)
        (simp only: 1 2 [unfolded Some] 3 [unfolded Some option.sel] 6 [unfolded t5_def t4_def Some option.sel] prod.case option.case Let_def
          option.sel option.distinct if_False)
  qed
  show ?case
  proof (cases "budget \<le> 0 \<or> st < 0 \<or> \<not> bit st (can_read_bit s) \<or> d = None \<or> r < 0 \<or> ?stop")
    case True
    then have "t' \<in> {t, t1, t2, t6, Mitm_Fail env 0 t1, Mitm_Fail env (tt_lastError t2) t2, Mitm_Fail env 0 t3}"
      using less.prems(1) unfolding def by (auto split: if_splits)
    then show ?thesis using less.prems(2) a1 a2 a6 alive_Fail [OF a1] alive_Fail [OF a2] alive_Fail [OF a3] by auto
  next
    case False
    then have "mitm_read_loop env s (budget - int (length (the d))) t6 = (b, t')" using less.prems(1) unfolding def by (auto split: if_splits)
    moreover have "nat (budget - int (length (the d))) < nat budget" using False by simp
    ultimately show ?thesis using less.hyps a6 by blast
  qed
qed

lemma alive_OnRead: "watched t \<Longrightarrow> watched (Mitm_OnRead env s e t)"
proof -
  assume al: "watched t"
  obtain b t1 where 1: "mitm_read_loop env s 65536 t = (b, t1)" by fastforce
  obtain ok t2 where 2: "Mitm_Pump env t1 = (ok, t2)" by fastforce
  have a1: "watched t1" using alive_read_loop [OF 1 al] .
  have a2: "watched t2" using alive_Pump [OF 2 a1] .
  have "Mitm_OnRead env s e t \<in> {Mitm_Fail env e t, t, t1, t2, Tcp_TriggerEvent s FD_READ 0 t2}"
    by (simp add: Mitm_OnRead_def 1 2 Let_def split: option.split)
  then show ?thesis using al a1 a2 alive_Fail [OF al] by auto
qed

lemma alive_tcp_prims [simp]:
  "watched (tap e t) = watched t" "watched (enter_status k s t) = watched t" "watched (Tcp_ClearBuffer s t) = watched t"
  "watched (snd (TestReadable s t)) = watched t" "watched (snd (TestWritable s t)) = watched t" "watched (snd (HasPendingRead s t)) = watched t"
  "watched (mitm_tell env op s e' t) = watched t" "watched (upd s (\<lambda>p. update_monitor k f (update_monitor m g p)) t) = watched t"
  "watched (upd s (\<lambda>p. p\<lparr>tp_bConnShutted := c\<rparr>) t) = watched t" "watched (upd s (\<lambda>p. p\<lparr>tp_bForwardingReady := c\<rparr>) t) = watched t"
  by (rule watched_life; simp add: life_upd Tcp_ClearBuffer_def update_monitor_def)+

lemma watched_OnWritable: "watched t \<Longrightarrow> watched (Mitm_OnWritable env t)"
  using alive_Pump [of env t "fst (Mitm_Pump env t)"] by (simp add: Mitm_OnWritable_def)

lemma watched_OnClose: "watched t \<Longrightarrow> watched (Tcp_OnClose env s e t)"
  using alive_OnRead [of t env s 0] alive_close_error [of t env s e] by (auto simp: Tcp_OnClose_def watched_def)

lemma watched_OnConnect:
  assumes "watched t"
  shows "watched (Tcp_OnConnect env s e t)"
proof -
  define t0 where "t0 = tell (TcpOnConnect e) (tap (TapConnected e) (mitm_tell env PLM_CONNECTED Client e t))"
  define t1 where "t1 = snd (Tcp_AsyncSelect (other s) {FD_READ, FD_WRITE, FD_CLOSE} (upd s (\<lambda>p. p\<lparr>tp_bForwardingReady := True\<rparr>) t0))"
  have w: "watched t0" "watched t1" using assms by (simp_all add: t0_def t1_def)
  then have "tt_pMitm t1 \<noteq> None" by (simp add: watched_def)
  then have "Tcp_OnConnect env s e t = (if e \<noteq> 0 then Tcp_OnClose env s e t0
      else Tcp_TriggerEvent (other s) FD_READ 0 (Tcp_TriggerEvent s FD_READ 0 (Mitm_OnWritable env t1)))"
    unfolding Tcp_OnConnect_def Let_def t0_def [symmetric] t1_def [symmetric] by simp
  then show ?thesis using watched_OnClose [OF w(1)] watched_OnWritable [OF w(2)] by simp
qed

lemma watched_step:
  assumes "watched t"
  shows "watched (tcp_step env i t)"
proof -
  have m: "tt_pMitm t \<noteq> None" using assms by (simp add: watched_def)
  have "watched (Tcp_OnReceive env s e t)" for s e using m alive_OnRead [OF assms] by (simp add: Tcp_OnReceive_def)
  moreover have "watched (Tcp_OnSend env s e t)" for s e
    using m watched_OnClose [OF assms] watched_OnWritable [OF assms] by (simp add: Tcp_OnSend_def)
  moreover have "watched (Tcp_OnTimer env s t)" for s
    using m assms watched_OnWritable [OF assms] by (auto simp: Tcp_OnTimer_def Let_def split: em_TMTimeOut.split)
  moreover have "watched (tcp_step env (TcpNetwork s now ni) t)" for s now ni
    using assms watched_life [OF network_step(2)] by blast
  ultimately show ?thesis using assms watched_OnClose [OF assms] watched_OnConnect [OF assms] by (cases i) simp_all
qed

lemma watched_run: "watched t \<Longrightarrow> watched (tcp_run env is t)"
  unfolding tcp_run_def by (induction "is" arbitrary: t) (simp_all add: watched_step del: tcp_step.simps)

lemma ConnectProxy_life:
  assumes "Tcp_ConnectProxy su c pi s t = (True, stage, t')"
  shows "tt_alive t' = tt_alive t" "tt_pMitm t' = tt_pMitm t" "tt_bDeletePending t' = tt_bDeletePending t" "tp_open (tt_peer t' s)"
    "tp_open (tt_peer t' (other s)) = tp_open (tt_peer t (other s))"
  using assms
  by (auto simp: Tcp_ConnectProxy_def AddProxyLayer_def enter_status_def update_monitor_def Let_def split: if_splits option.splits prod.splits)

lemma inspected_started:
  assumes "Tcp_SetTaskInfo env su c pi (TcpTask_new now) = (True, stage, t)" "su_MitmEnabled su"
  shows "watched t"
proof -
  obtain x where x: "su_MitmInitialize su = Some x" using assms by (cases "su_MitmInitialize su") (simp_all add: Tcp_SetTaskInfo_def)
  let ?t = "(TcpTask_new now)\<lparr>tt_alive := True, tt_PRCClient := c, tt_ProxyInfo := pi, tt_pMitm := Some (Mitm_new x)\<rparr>"
  obtain ok stage' t1 where con: "Tcp_ConnectProxy su c pi Server ?t = (ok, stage', t1)" using prod_cases3 by blast
  have t: "ok" "t = upd Client (\<lambda>p. p\<lparr>tp_open := True, tp_lEvent := {FD_CLOSE}\<rparr>) t1"
    using assms x by (auto simp: Tcp_SetTaskInfo_def con Let_def split: if_splits option.splits)
  show ?thesis using ConnectProxy_life [OF con [unfolded eqTrueI [OF t(1)]]]
    by (simp add: t(2) watched_def alive_ok_def TcpTask_new_def)
qed

text \<open>
  C33. Both connections live and die together: for a started task, inspected or not, with any
  inspection session and any behaviour of the sockets, after every run the two sockets are both
  open or both closed, and the task is marked for deletion exactly when they are closed.
\<close>

theorem task_deleted_exactly_when_closed:
  assumes "Tcp_SetTaskInfo env su c pi (TcpTask_new now) = (True, stage, t0)"
  shows "tp_open (tt_peer (tcp_run env is t0) Client) = tp_open (tt_peer (tcp_run env is t0) Server) \<and>
    tt_bDeletePending (tcp_run env is t0) = (\<not> tp_open (tt_peer (tcp_run env is t0) Client))"
proof -
  have "alive_ok (tcp_run env is t0)"
  proof (cases "su_MitmEnabled su")
    case True
    then show ?thesis using watched_run [OF inspected_started [OF assms True], of env "is"] by (simp add: watched_def)
  next
    case False
    then have "tcp_started_uninspected env su c pi now t0" using assms by (auto simp: tcp_started_uninspected_def)
    then have "tcp_inv t0" using started_inv by blast
    then show ?thesis using run_inv [of t0 env "is"] by (simp add: tcp_inv_def)
  qed
  then show ?thesis by (simp add: alive_ok_def)
qed

theorem task_deleted_exactly_when_closed_witness:
  "tt_bDeletePending (tcp_run env_idle (demo_inputs @ [TcpClosed Server 10054]) tcp_demo) =
    (\<not> tp_open (tt_peer (tcp_run env_idle (demo_inputs @ [TcpClosed Server 10054]) tcp_demo) Client))"
proof -
  obtain stage where "Tcp_SetTaskInfo env_idle su_direct PRCClient_zero ProxyInfo_zero (TcpTask_new 0) = (True, stage, tcp_demo)"
    using demo_started by (auto simp: tcp_started_uninspected_def)
  from task_deleted_exactly_when_closed [OF this] show ?thesis by blast
qed

section \<open>Errors that are not reported\<close>

lemma forward_failed:
  assumes "tp_open (tt_peer t Client)" "tp_open (tt_peer t Server)" "tp_recvbuf (tt_peer t Client) = []" "tp_sentpos (tt_peer t Client) = 0"
    and "nk_recv (tt_peer t Client) = RecvData (b # d) # rs" "length (b # d) \<le> 4096"
    and "nk_send (tt_peer t Server) = SendError e # ss" "e \<noteq> WSAEWOULDBLOCK"
  shows "\<exists>t'. tcp_read_loop Client 0 t = (False, length (b # d), 0, t') \<and> life t' = life t \<and>
    nk_in (tt_peer t' Client) = nk_in (tt_peer t Client) @ b # d \<and> nk_out (tt_peer t' Server) = nk_out (tt_peer t Server) \<and>
    tp_pProxyLayer (tt_peer t' Client) = tp_pProxyLayer (tt_peer t Client) \<and> tp_bReadClosed (tt_peer t' Client) = tp_bReadClosed (tt_peer t Client)"
  using assms
  by (subst tcp_read_loop.simps)
    (simp add: Tcp_Receive_def take_in_def tap_def tell_def TransferSend_def transfer_loop.simps Tcp_Send_def enter_status_def update_monitor_def
      pending_def Let_def life_def)

text \<open>
  A destination that fails is not reported: when the destination's socket refuses the bytes
  just read from the application with an error, the bytes are dropped, the close event posted
  for it carries no error code, and handling that event does not close the connection but asks
  for more data from the application.
\<close>

theorem forward_failure_swallowed:
  assumes "tt_pMitm t = None" "tp_pProxyLayer (tt_peer t Client) = None" "\<not> tp_bReadClosed (tt_peer t Client)"
    and "tp_open (tt_peer t Client)" "tp_open (tt_peer t Server)" "tp_recvbuf (tt_peer t Client) = []" "tp_sentpos (tt_peer t Client) = 0"
    and "nk_recv (tt_peer t Client) = RecvData (b # d) # rs" "length (b # d) \<le> 4096"
    and "nk_send (tt_peer t Server) = SendError e # ss" "e \<noteq> WSAEWOULDBLOCK"
  shows "let t1 = Tcp_OnReceive env Client 0 t; t2 = Tcp_OnClose env Client 0 t1 in
    nk_in (tt_peer t1 Client) = nk_in (tt_peer t Client) @ b # d \<and>
    nk_out (tt_peer t1 Server) @ pending (tt_peer t1 Client) = nk_out (tt_peer t Server) \<and>
    last (tt_events t1) = TcpPosted Client FD_CLOSE 0 \<and>
    tp_open (tt_peer t2 Client) \<and> tp_open (tt_peer t2 Server) \<and> tt_bDeletePending t2 = tt_bDeletePending t \<and>
    last (tt_events t2) = TcpPosted Client FD_READ 0"
proof -
  let ?t = "enter_status TM_RECV Client t"
  obtain t' where l: "tcp_read_loop Client 0 ?t = (False, length (b # d), 0, t')" "life t' = life ?t"
      "nk_in (tt_peer t' Client) = nk_in (tt_peer ?t Client) @ b # d" "nk_out (tt_peer t' Server) = nk_out (tt_peer ?t Server)"
      "tp_pProxyLayer (tt_peer t' Client) = tp_pProxyLayer (tt_peer ?t Client)" "tp_bReadClosed (tt_peer t' Client) = tp_bReadClosed (tt_peer ?t Client)"
    using forward_failed [of ?t b d rs e ss] assms by (auto simp: enter_status_def update_monitor_def)
  have p: "tt_peer ?t Client = (tt_peer t Client)\<lparr>tp_SocketStatus := TM_RECV, tp_TimeoutMonitor := tp_TimeoutMonitor (tt_peer ?t Client)\<rparr>"
      "tt_peer ?t Server = tt_peer t Server"
    by (simp_all add: enter_status_def update_monitor_def)
  have o: "tp_open (tt_peer t' Client)" "tp_open (tt_peer t' Server)" "tt_bDeletePending t' = tt_bDeletePending t" "tt_pMitm t' = None"
    using trans [OF l(2) life_prims(4)] assms by (simp_all add: life_def)
  have f: "tp_pProxyLayer (tt_peer t' Client) = None" "\<not> tp_bReadClosed (tt_peer t' Client)"
      "nk_in (tt_peer t' Client) = nk_in (tt_peer t Client) @ b # d" "nk_out (tt_peer t' Server) = nk_out (tt_peer t Server)"
    using l(3-6) p assms by (simp_all add: enter_status_def update_monitor_def)
  define t1 where "t1 = Tcp_OnReceive env Client 0 t"
  have t1: "t1 = Tcp_TriggerEvent Client FD_CLOSE 0 (Tcp_ClearBuffer Client t')"
    using assms(1,6) l(1) by (simp add: t1_def Tcp_OnReceive_def Let_def enter_status_def update_monitor_def)
  have q: "tt_peer t1 x = (if x = Client then (tt_peer t' Client)\<lparr>tp_recvbuf := [], tp_sentpos := 0\<rparr> else tt_peer t' x)" for x
    by (simp add: t1 Tcp_TriggerEvent_def Tcp_ClearBuffer_def tell_def Let_def)
  have e1: "last (tt_events t1) = TcpPosted Client FD_CLOSE 0" "tt_bDeletePending t1 = tt_bDeletePending t" "tt_pMitm t1 = None"
    using o f by (simp_all add: t1 Tcp_TriggerEvent_def Tcp_ClearBuffer_def tell_def Let_def)
  let ?t2 = "snd (Tcp_AsyncSelect Client {FD_READ, FD_WRITE, FD_CLOSE} (upd Client (\<lambda>p. p\<lparr>tp_bConnShutted := True\<rparr>) t1))"
  have t2: "Tcp_OnClose env Client 0 t1 = Tcp_TriggerEvent Client FD_READ 0 ?t2"
    using e1(3) f(2) by (simp add: Tcp_OnClose_def Let_def q GetValidDataLen_def)
  have l2: "life ?t2 = life t1" by (simp add: life_upd)
  have pl: "tp_pProxyLayer (tt_peer ?t2 Client) = None"
    using f(1) by (simp add: Tcp_AsyncSelect_def q Let_def split: list.split option.split)
  have "tp_open (tt_peer ?t2 Client)" "tp_open (tt_peer ?t2 Server)" "tt_bDeletePending ?t2 = tt_bDeletePending t"
    using l2 o e1 by (simp_all add: q)
  then show ?thesis
    using f e1 pl by (simp add: t1_def [symmetric] t2 Tcp_TriggerEvent_def tell_def Let_def q pending_def)
qed

theorem forward_failure_swallowed_witness:
  "last (tt_events (Tcp_OnReceive env_idle Client 0 (upd Server (\<lambda>p. p\<lparr>tp_open := True, nk_send := [SendError WSAECONNRESET]\<rparr>)
     (upd Client (\<lambda>p. p\<lparr>tp_open := True, nk_recv := [RecvData [7]]\<rparr>) (TcpTask_new 0))))) = TcpPosted Client FD_CLOSE 0"
  using forward_failure_swallowed [of "upd Server (\<lambda>p. p\<lparr>tp_open := True, nk_send := [SendError WSAECONNRESET]\<rparr>)
     (upd Client (\<lambda>p. p\<lparr>tp_open := True, nk_recv := [RecvData [7]]\<rparr>) (TcpTask_new 0))" 7 "[]" "[]" WSAECONNRESET "[]" env_idle]
  by (simp add: TcpTask_new_def TcpPeer_new_def Let_def)

section \<open>The output of an inspection session\<close>

text \<open>
  The documented contract of \<open>plm_io\<close> (\<open>ProxyLaneMitm.h\<close>): a peek shows a prefix of the output
  for a side and keeps it, a consume takes the given number of bytes off it.
\<close>

definition session_contract :: "'s MitmEnv \<Rightarrow> (tside \<Rightarrow> 's \<Rightarrow> bytes) \<Rightarrow> bool" where
  "session_contract env output \<longleftrightarrow>
     (\<forall>s n x. case me_io env PLM_PEEK s [] n x of (r, out, x') \<Rightarrow>
        output s x' = output s x \<and> (0 < r \<longrightarrow> take (nat r) out = take (nat r) (output s x))) \<and>
     (\<forall>s k x. case me_io env PLM_CONSUME s [] k x of (r, _, x') \<Rightarrow> 0 \<le> r \<longrightarrow> output s x' = drop k (output s x))"

definition session_output :: "(tside \<Rightarrow> 's \<Rightarrow> bytes) \<Rightarrow> tside \<Rightarrow> 's TcpTask \<Rightarrow> bytes" where
  "session_output output s t = (case tt_pMitm t of None \<Rightarrow> [] | Some m \<Rightarrow> output s (mb_session m))"

lemma session_output_fields [simp]:
  "session_output output s (upd q f t) = session_output output s t" "session_output output s (tell e t) = session_output output s t"
  by (simp_all add: session_output_def)

lemma mitm_io_peek:
  assumes "session_contract env output" "mitm_io env PLM_PEEK s [] n t = (r, out, t')"
  shows "tt_peer t' = tt_peer t \<and> session_output output s t' = session_output output s t \<and>
    (0 < r \<longrightarrow> take (nat r) out = take (nat r) (session_output output s t))"
proof (cases "tt_pMitm t")
  case None
  then show ?thesis using assms(2) by (auto simp: mitm_io_def session_output_def)
next
  case (Some m)
  obtain r' out' x where io: "me_io env PLM_PEEK s [] n (mb_session m) = (r', out', x)" using prod_cases3 by blast
  have "output s x = output s (mb_session m) \<and> (0 < r' \<longrightarrow> take (nat r') out' = take (nat r') (output s (mb_session m)))"
    using assms(1) [unfolded session_contract_def, THEN conjunct1, THEN spec [of _ s], THEN spec [of _ n], THEN spec [of _ "mb_session m"]]
    unfolding io by simp
  then show ?thesis using assms(2) Some by (auto simp: mitm_io_def io session_output_def simp del: One_nat_def)
qed

lemma mitm_io_consume:
  assumes "session_contract env output" "mitm_io env PLM_CONSUME s [] k t = (r, out, t')" "0 \<le> r" "tt_pMitm t \<noteq> None"
  shows "tt_peer t' = tt_peer t \<and> session_output output s t' = drop k (session_output output s t) \<and> tt_pMitm t' \<noteq> None"
proof -
  obtain m where m: "tt_pMitm t = Some m" using assms(4) by blast
  obtain r' out' x where io: "me_io env PLM_CONSUME s [] k (mb_session m) = (r', out', x)" using prod_cases3 by blast
  have "0 \<le> r' \<longrightarrow> output s x = drop k (output s (mb_session m))"
    using assms(1) [unfolded session_contract_def, THEN conjunct2, THEN spec [of _ s], THEN spec [of _ k], THEN spec [of _ "mb_session m"]]
    unfolding io by simp
  then show ?thesis using assms(2,3) m by (auto simp: mitm_io_def io session_output_def)
qed

text \<open>
  The output of an inspection session reaches the socket in order: whatever portions the
  socket accepts, a pump that ends without a failure moves a prefix of the session's output for
  that side to the socket and removes exactly this prefix from the session, so nothing is lost,
  repeated or reordered.
\<close>

theorem session_output_in_order:
  assumes "session_contract env output" and "tt_pMitm t \<noteq> None" and "pump_send env s budget t = (True, b, t')"
  shows "\<exists>k. nk_out (tt_peer t' s) = nk_out (tt_peer t s) @ take k (session_output output s t) \<and>
    session_output output s t' = drop k (session_output output s t)"
  using assms(2,3)
proof (induction "nat budget" arbitrary: budget t rule: less_induct)
  case less
  obtain n out t1 where peek: "mitm_io env PLM_PEEK s [] 16384 t = (n, out, t1)" using prod_cases3 by blast
  obtain k t2 where send: "Tcp_Send s (take (nat n) out) t1 = (k, t2)" by fastforce
  obtain r out' t3 where con: "mitm_io env PLM_CONSUME s [] (the k) t2 = (r, out', t3)" using prod_cases3 by blast
  note P = mitm_io_peek [OF assms(1) peek]
  have c: "life t2 = life t1" "life t1 = life t" using Tcp_Send_cases [OF send] life_mitm_io [OF peek] by blast+
  have m2: "tt_pMitm t2 = tt_pMitm t1"
    using send by (auto simp: Tcp_Send_def Let_def split: if_splits list.splits send_result.splits)
  have nm: "tt_pMitm t2 \<noteq> None" using c less.prems(1) life_mitm [of t2 t] by simp
  have o2: "session_output output s t2 = session_output output s t" using P m2 by (simp add: session_output_def)
  show ?case
  proof (cases "budget \<le> 0 \<or> tp_bWriteShutdown (tt_peer t s) \<or> n \<le> 0 \<or> k = None \<or> k = Some 0")
    case True
    have "t' \<in> {t, t1, t2} \<and> (t' = t2 \<longrightarrow> k = None \<or> k = Some 0 \<or> t2 = t \<or> t2 = t1)"
      using less.prems(2) True peek send by (subst (asm) pump_send.simps) (auto split: if_splits option.splits)
    moreover have "nk_out (tt_peer t2 s) = nk_out (tt_peer t1 s)" if "k = None \<or> k = Some 0"
      using Tcp_Send_cases [OF send] that by (auto simp: accepted_def)
    ultimately show ?thesis using P o2 by (intro exI [of _ 0]) auto
  next
    case False
    then obtain j where j: "k = Some j" "0 < j" by auto
    let ?d = "take j (take (nat n) (session_output output s t))"
    have con': "mitm_io env PLM_CONSUME s [] j t2 = (r, out', t3)" using con j by simp
    let ?t = "tell (TcpTraffic (s = Client) j) (upd (other s) (\<lambda>p. p\<lparr>tp_DataLenSent := tp_DataLenSent p + of_nat j\<rparr>) t3)"
    have "0 \<le> r \<and> pump_send env s (budget - int j) ?t = (True, b, t')"
      using less.prems(2) peek send con' j False by (subst (asm) pump_send.simps) (auto split: if_splits)
    then have rec: "0 \<le> r" "pump_send env s (budget - int j) ?t = (True, b, t')" by auto
    note C = mitm_io_consume [OF assms(1) con' rec(1) nm]
    have a: "nk_out (tt_peer t2 s) = nk_out (tt_peer t s) @ take j (take (nat n) out)" "j \<le> length (take (nat n) out)"
      using Tcp_Send_cases [OF send] P j by (auto simp: accepted_def)
    have "take (nat n) out = take (nat n) (session_output output s t)" using P False by simp
    moreover have "j \<le> nat n" using a(2) by simp
    ultimately have j': "take j (take (nat n) out) = take j (session_output output s t)" by (simp add: min_absorb1 del: take_take) (simp add: min_absorb1)
    have "tt_pMitm ?t \<noteq> None" using C by simp
    moreover have "nat (budget - int j) < nat budget" using False j by simp
    ultimately obtain i where i: "nk_out (tt_peer t' s) = nk_out (tt_peer ?t s) @ take i (session_output output s ?t)"
        "session_output output s t' = drop i (session_output output s ?t)"
      using less.hyps rec(2) by blast
    then show ?thesis using C o2 a(1) j' by (intro exI [of _ "j + i"]) (simp add: take_add add.commute [of i j])
  qed
qed

definition env_queue :: "bytes MitmEnv" where
  "env_queue = \<lparr>me_io = (\<lambda>op s d n x. if op = PLM_PEEK then (int (length (take n x)), take n x, x)
      else if op = PLM_CONSUME then (0, [], drop n x) else (0, [], x)), me_CreateWindow = False, me_SetTimer = False\<rparr>"

theorem session_output_in_order_witness:
  "\<exists>k. nk_out (tt_peer (snd (snd (pump_send env_queue Client 65536 ((upd Client (\<lambda>p. p\<lparr>tp_open := True, nk_send := [SendCount 1]\<rparr>) (TcpTask_new 0))
      \<lparr>tt_pMitm := Some (Mitm_new [7, 8])\<rparr>)))) Client) = take k [7, 8]"
proof -
  let ?t = "(upd Client (\<lambda>p. p\<lparr>tp_open := True, nk_send := [SendCount 1]\<rparr>) (TcpTask_new 0))\<lparr>tt_pMitm := Some (Mitm_new [7, 8])\<rparr>"
  have c: "session_contract env_queue (\<lambda>_ x. x)" by (auto simp: session_contract_def env_queue_def)
  obtain ok b t' where p': "pump_send env_queue Client 65536 ?t = (ok, b, t')" by (rule prod_cases3)
  have "fst (pump_send env_queue Client 65536 ?t)"
    by (subst pump_send.simps, simp add: env_queue_def mitm_io_def Mitm_new_def Tcp_Send_def TcpTask_new_def TcpPeer_new_def tell_def Let_def,
      subst pump_send.simps, simp add: mitm_io_def Tcp_Send_def tell_def Let_def)
  then have p: "pump_send env_queue Client 65536 ?t = (True, b, t')" using p' by (simp only: p' fst_conv)
  have "\<exists>k. nk_out (tt_peer t' Client) = take k [7, 8]" using session_output_in_order [OF c _ p]
    by (auto simp: session_output_def Mitm_new_def TcpTask_new_def TcpPeer_new_def)
  then show ?thesis by (simp only: p snd_conv)
qed

end
