(* ===== verification/TaskMgr.thy ===== *)
theory TaskMgr
  imports UdpTask TcpPeer
begin

text \<open>
  \<open>ProxyTaskMgr.cpp\<close>: the managers that own the TCP and UDP tasks. Both keep a list of tasks
  behind one lock, run two timers while the list is not empty, tell the observers about every
  task that comes and goes, and remove tasks that ended or whose process is gone. The UDP
  manager also keeps the table of route ports that the hook asks.

  A task has an address of its own. The methods run under the list's lock, so each is one step.
  The results of \<open>SetTimer\<close> and \<open>KillTimer\<close> are not looked at by the source; both timers are
  set and killed together. Log output is left out; the pointer arguments are never null.
\<close>

section \<open>The task list\<close>

record 't TaskList =
  tl_tasklist :: "(nat \<times> 't) list"
  tl_next :: nat
  tl_timers :: bool
  tl_added :: "(nat \<times> PRCClient \<times> ProxyInfo) list" \<comment> \<open>\<open>OnAddTask\<close>\<close>
  tl_deleted :: "(nat \<times> PRCClient) list" \<comment> \<open>\<open>OnDelTask\<close>\<close>

definition TaskList_new :: "'t TaskList" where
  "TaskList_new = \<lparr>tl_tasklist = [], tl_next = 0, tl_timers = False, tl_added = [], tl_deleted = []\<rparr>"

definition add_task :: "PRCClient \<Rightarrow> ProxyInfo \<Rightarrow> 't \<Rightarrow> 't TaskList \<Rightarrow> 't TaskList" where
  "add_task c pi t l = l\<lparr>tl_added := tl_added l @ [(tl_next l, c, pi)],
     tl_timers := (tl_tasklist l = [] \<or> tl_timers l),
     tl_tasklist := tl_tasklist l @ [(tl_next l, t)], tl_next := Suc (tl_next l)\<rparr>"

definition OnDelTask :: "nat \<Rightarrow> PRCClient \<Rightarrow> 't TaskList \<Rightarrow> 't TaskList" where
  "OnDelTask i c l = l\<lparr>tl_deleted := tl_deleted l @ [(i, c)]\<rparr>"

text \<open>A pass over the list; the visitor answers whether the task is erased.\<close>

fun sweep :: "(nat \<Rightarrow> 't \<Rightarrow> 'm \<Rightarrow> bool \<times> 't \<times> 'm) \<Rightarrow> (nat \<times> 't) list \<Rightarrow> 'm \<Rightarrow> (nat \<times> 't) list \<times> 'm" where
  "sweep f [] m = ([], m)"
| "sweep f ((i, t) # ts) m =
     (let (gone, t, m) = f i t m; (ks, m) = sweep f ts m in (if gone then ks else (i, t) # ks, m))"

definition kill_timers_if_empty :: "'t TaskList \<Rightarrow> 't TaskList" where
  "kill_timers_if_empty l = l\<lparr>tl_timers := (tl_tasklist l \<noteq> [] \<and> tl_timers l)\<rparr>"

datatype mgr_timer = TIMER_TCPPERTASK | TIMER_IS_TASK_ALIVE

text \<open>What opening a process and asking for its times answers.\<close>

datatype process_answer = OpenProcessFailed int | TimesFailed | Created qword

abbreviation (input) "ERROR_ACCESS_DENIED \<equiv> (5 :: int)"

definition TestTaskByPid :: "(dword \<Rightarrow> process_answer) \<Rightarrow> PRCClient \<Rightarrow> bool" where
  "TestTaskByPid procs c =
     (case procs (dwPid c) of
        OpenProcessFailed e \<Rightarrow> e = ERROR_ACCESS_DENIED
      | TimesFailed \<Rightarrow> False
      | Created actual \<Rightarrow> processCreateTime c = 0 \<or> actual = processCreateTime c)"

section \<open>TCP\<close>

record 's TcpMgr =
  tm_tasklist :: "'s TcpTask TaskList"
  tm_lastError :: int
  tm_closed :: "qword list" \<comment> \<open>accepted sockets that the deletion of a failed task closed\<close>

definition TcpMgr_new :: "'s TcpMgr" where
  "TcpMgr_new = \<lparr>tm_tasklist = TaskList_new, tm_lastError = 0, tm_closed = []\<rparr>"

definition on_list :: "('s TcpTask TaskList \<Rightarrow> 's TcpTask TaskList) \<Rightarrow> 's TcpMgr \<Rightarrow> 's TcpMgr" where
  "on_list f m = m\<lparr>tm_tasklist := f (tm_tasklist m)\<rparr>"

text \<open>
  \<open>allocated\<close>: whether \<open>new\<close> gave a task. A deleted task is gone with all it holds. The socket of the
  call is the one that the record of the client names.
\<close>

definition Tm_OnNewTask ::
    "'s MitmEnv \<Rightarrow> 's TcpSetup \<Rightarrow> dword \<Rightarrow> bool \<Rightarrow> PRCClient \<Rightarrow> ProxyInfo \<Rightarrow> 's TcpMgr \<Rightarrow> bool \<times> ConnectionStage \<times> 's TcpMgr" where
  "Tm_OnNewTask env su now allocated c pi m =
     (if \<not> allocated then (False, STAGE_ALLOCATE, m\<lparr>tm_lastError := WSAENOBUFS\<rparr>)
      else case Tcp_SetTaskInfo env su c pi (TcpTask_new now) of
        (False, stage, t) \<Rightarrow> (False, stage, m\<lparr>tm_lastError := tt_lastError t,
          tm_closed := tm_closed m @ (if TcpDestroyed Client \<in> set (tt_events t) then [sAccept c] else [])\<rparr>)
      | (True, stage, t) \<Rightarrow> (True, stage, on_list (add_task c pi t) m))"

definition Tm_OnDeleteTask :: "nat \<Rightarrow> 's TcpMgr \<Rightarrow> 's TcpMgr" where
  "Tm_OnDeleteTask i m =
     (case map_of (tl_tasklist (tm_tasklist m)) i of
        None \<Rightarrow> m
      | Some t \<Rightarrow> on_list (\<lambda>l. kill_timers_if_empty ((OnDelTask i (tt_PRCClient t) l)
          \<lparr>tl_tasklist := filter (\<lambda>(j, _). j \<noteq> i) (tl_tasklist l)\<rparr>)) m)"

definition Tm_RemoveAllTasks :: "'s TcpMgr \<Rightarrow> 's TcpMgr" where
  "Tm_RemoveAllTasks = on_list (\<lambda>l.
     (fold (\<lambda>(i, t). OnDelTask i (tt_PRCClient (Tcp_EndTask t))) (tl_tasklist l) l)\<lparr>tl_tasklist := []\<rparr>)"

definition selects_reconnect :: "'s TcpTask \<Rightarrow> bool" where
  "selects_reconnect t \<longleftrightarrow> \<not> tt_bDeletePending t \<and> \<not> tt_reconnectPending t"

definition PrepareReconnect :: "'s TcpMgr \<Rightarrow> nat \<times> 's TcpMgr" where
  "PrepareReconnect m =
     (length (filter (selects_reconnect \<circ> snd) (tl_tasklist (tm_tasklist m))),
      on_list (\<lambda>l. l\<lparr>tl_tasklist := map (map_prod id (\<lambda>t. t\<lparr>tt_reconnectSelected := selects_reconnect t\<rparr>))
        (tl_tasklist l)\<rparr>) m)"

definition CompleteReconnect :: "bool \<Rightarrow> 's TcpMgr \<Rightarrow> 's TcpMgr" where
  "CompleteReconnect disconnect = on_list (\<lambda>l. l\<lparr>tl_tasklist := map (map_prod id (\<lambda>t. t\<lparr>
     tt_reconnectPending := (tt_reconnectSelected t \<and> disconnect \<or> tt_reconnectPending t),
     tt_reconnectSelected := False\<rparr>)) (tl_tasklist l)\<rparr>)"

definition tcp_timer_visit :: "'s MitmEnv \<Rightarrow> dword \<Rightarrow> nat \<Rightarrow> 's TcpTask \<Rightarrow> 's TcpTask TaskList \<Rightarrow> bool \<times> 's TcpTask \<times> 's TcpTask TaskList" where
  "tcp_timer_visit env now i t l =
     (if tt_reconnectPending t then let t = Tcp_EndTask t in (True, t, OnDelTask i (tt_PRCClient t) l)
      else let t = tcp_step env (TcpTimer Server) (tcp_step env (TcpTimer Client) (t\<lparr>tt_now := now\<rparr>))
        in if tt_bDeletePending t then (True, t, OnDelTask i (tt_PRCClient t) l) else (False, t, l))"

definition tcp_alive_visit :: "(dword \<Rightarrow> process_answer) \<Rightarrow> nat \<Rightarrow> 's TcpTask \<Rightarrow> 's TcpTask TaskList \<Rightarrow> bool \<times> 's TcpTask \<times> 's TcpTask TaskList" where
  "tcp_alive_visit procs i t l =
     (if \<not> TestTaskByPid procs (tt_PRCClient t)
      then let t = Tcp_EndTask t in (True, t, OnDelTask i (tt_PRCClient t) l)
      else (False, t, l))"

definition swept :: "(nat \<Rightarrow> 't \<Rightarrow> 't TaskList \<Rightarrow> bool \<times> 't \<times> 't TaskList) \<Rightarrow> 't TaskList \<Rightarrow> 't TaskList" where
  "swept f l = (let (ks, l) = sweep f (tl_tasklist l) l in l\<lparr>tl_tasklist := ks\<rparr>)"

definition Tm_OnTimer :: "'s MitmEnv \<Rightarrow> mgr_timer \<Rightarrow> dword \<Rightarrow> (dword \<Rightarrow> process_answer) \<Rightarrow> 's TcpMgr \<Rightarrow> 's TcpMgr" where
  "Tm_OnTimer env ev now procs m =
     (case ev of
        TIMER_TCPPERTASK \<Rightarrow> on_list (kill_timers_if_empty \<circ> swept (tcp_timer_visit env now)) m
      | TIMER_IS_TASK_ALIVE \<Rightarrow> on_list (swept (tcp_alive_visit procs)) m)"

section \<open>UDP\<close>

record UDPLocalProxyAddrInfo =
  clientip :: dword
  clientport :: word16
  proxyport :: word16

definition PortState_zero :: UDPLocalProxyAddrInfo where
  "PortState_zero = \<lparr>clientip = 0, clientport = 0, proxyport = 0\<rparr>"

record 'q UdpMgr =
  um_tasklist :: "'q UdpTask TaskList"
  um_PortState :: "word16 \<Rightarrow> UDPLocalProxyAddrInfo"
  um_world :: UdpWorld

definition UdpMgr_new :: "UdpWorld \<Rightarrow> 'q UdpMgr" where
  "UdpMgr_new w = \<lparr>um_tasklist = TaskList_new, um_PortState = (\<lambda>_. PortState_zero), um_world = w\<rparr>"

definition CanStartUdpAssociation :: "ProxyInfo option \<Rightarrow> UdpWorld \<Rightarrow> bool \<times> UdpWorld" where
  "CanStartUdpAssociation pi w =
     (let w = EnsureUdpCapabilityProfile pi w in
      case pi of None \<Rightarrow> (True, w)
      | Some p \<Rightarrow>
        if GetProxyType p = PROXYTYPE_NOPROXY then (True, w)
        else if GetProxyType p \<noteq> PROXYTYPE_SOCKS5 then
          (False, w\<lparr>uw_udpCapability := snd (ReportFailure (uw_now w) True DEFAULT_THRESHOLD DEFAULT_COOLDOWN (uw_udpCapability w)),
                    uw_lastError := WSAEOPNOTSUPP\<rparr>)
        else case CanAttempt (uw_now w) (uw_udpCapability w) of
          (True, c) \<Rightarrow> (True, w\<lparr>uw_udpCapability := c\<rparr>)
        | (False, c) \<Rightarrow>
            (False, w\<lparr>uw_udpCapability := c\<lparr>suppressedAttempts := suppressedAttempts c + 1\<rparr>,
                      uw_lastError := (if cc_state c = CAPABILITY_UNSUPPORTED then WSAEOPNOTSUPP else WSAEHOSTUNREACH)\<rparr>))"

definition route_port :: "'q UdpRoute \<Rightarrow> word16" where
  "route_port r = sa_GetPort (udpAddr (rt_client r))"

definition RegisterRoutePort :: "PRCClient \<Rightarrow> 'q UdpMgr \<Rightarrow> 'q UdpMgr" where
  "RegisterRoutePort c m =
     (let routePort = sa_GetPort (udpAddr c)
      in m\<lparr>um_PortState := (um_PortState m)(routePort := \<lparr>clientip = sa_GetdwIP (srcAddr c),
          clientport = sa_GetPort (srcAddr c), proxyport = routePort\<rparr>)\<rparr>)"

definition ClearTaskPortStates :: "'q UdpTask \<Rightarrow> 'q UdpMgr \<Rightarrow> 'q UdpMgr" where
  "ClearTaskPortStates t m = m\<lparr>um_PortState := fold (\<lambda>r ps.
     if proxyport (ps (route_port r)) = route_port r then ps(route_port r := PortState_zero) else ps)
     (tk_routes t) (um_PortState m)\<rparr>"

definition Um_RemoveTask :: "nat \<Rightarrow> 'q UdpTask \<Rightarrow> 'q UdpMgr \<Rightarrow> 'q UdpMgr" where
  "Um_RemoveTask i t m =
     (let m = ClearTaskPortStates t m
      in m\<lparr>um_tasklist := OnDelTask i (tk_PRCClient t) (um_tasklist m), um_world := snd (EndTask (t, um_world m))\<rparr>)"

definition um_swept :: "(nat \<Rightarrow> 'q UdpTask \<Rightarrow> 'q UdpMgr \<Rightarrow> bool \<times> 'q UdpTask \<times> 'q UdpMgr) \<Rightarrow> 'q UdpMgr \<Rightarrow> 'q UdpMgr" where
  "um_swept f m =
     (let (ks, m) = sweep f (tl_tasklist (um_tasklist m)) m in m\<lparr>um_tasklist := (um_tasklist m)\<lparr>tl_tasklist := ks\<rparr>\<rparr>)"

definition um_with_task ::
    "('q udp_state \<Rightarrow> 'q udp_state) \<Rightarrow> 'q UdpTask \<Rightarrow> 'q UdpMgr \<Rightarrow> 'q UdpTask \<times> 'q UdpMgr" where
  "um_with_task f t m = (let (t, w) = f (t, um_world m) in (t, m\<lparr>um_world := w\<rparr>))"

definition um_remove_if :: "bool \<Rightarrow> nat \<Rightarrow> 'q UdpTask \<times> 'q UdpMgr \<Rightarrow> bool \<times> 'q UdpTask \<times> 'q UdpMgr" where
  "um_remove_if b i tm = (if b then (True, fst tm, Um_RemoveTask i (fst tm) (snd tm)) else (False, tm))"

text \<open>The first task that meets the condition gets the route.\<close>

fun route_on :: "'q UdpEnv \<Rightarrow> ('q UdpTask \<Rightarrow> bool) \<Rightarrow> PRCClient \<Rightarrow> (nat \<times> 'q UdpTask) list \<Rightarrow> UdpWorld \<Rightarrow>
    (bool \<times> PRCClient \<times> (nat \<times> 'q UdpTask) list \<times> UdpWorld) option" where
  "route_on env P c [] w = None"
| "route_on env P c ((i, t) # ts) w =
     (if P t then let (ok, c, (t, w)) = AddRoute env c (t, w) in Some (ok, c, (i, t) # ts, w)
      else map_option (\<lambda>(ok, c, ts, w). (ok, c, (i, t) # ts, w)) (route_on env P c ts w))"

definition prune_closed :: "PRCClient \<Rightarrow> ProxyInfo \<Rightarrow> 'q UdpMgr \<Rightarrow> 'q UdpMgr" where
  "prune_closed c pi = um_swept (\<lambda>i t m. um_remove_if (MatchesAssociation c pi t \<and> Udp_IsClosed (t, um_world m)) i (t, m))"

definition create_task :: "'q UdpEnv \<Rightarrow> PRCClient \<Rightarrow> ProxyInfo \<Rightarrow> 'q UdpMgr \<Rightarrow> bool \<times> PRCClient \<times> 'q UdpMgr" where
  "create_task env c pi m =
     (let (ok, c, st) = SetTaskInfo env c pi (UdpTask_new (uw_now (um_world m)), um_world m) in
      if \<not> ok then (False, c, m\<lparr>um_world := snd (EndTask st)\<rparr>)
      else let m = RegisterRoutePort c (m\<lparr>um_world := snd st\<rparr>)
        in (True, c, m\<lparr>um_tasklist := add_task c pi (fst st) (um_tasklist m)\<rparr>))"

definition Um_OnNewTask :: "'q UdpEnv \<Rightarrow> PRCClient \<Rightarrow> ProxyInfo \<Rightarrow> 'q UdpMgr \<Rightarrow> bool \<times> PRCClient \<times> 'q UdpMgr" where
  "Um_OnNewTask env c pi m =
     (let (can, w) = CanStartUdpAssociation (Some pi) (um_world m); m = m\<lparr>um_world := w\<rparr> in
      if \<not> can then (False, c, m)
      else
        let m = prune_closed c pi m;
            matches = MatchesAssociation c pi;
            attempt = (\<lambda>P. route_on env P c (tl_tasklist (um_tasklist m)) (um_world m));
            placed = (\<lambda>(ok, c, ts, w).
              let m = m\<lparr>um_tasklist := (um_tasklist m)\<lparr>tl_tasklist := ts\<rparr>, um_world := w\<rparr>
              in if ok then (True, c, RegisterRoutePort c m) else (False, c, m))
        in case attempt (\<lambda>t. matches t \<and> HasRoute c t) of
             Some res \<Rightarrow> placed res
           | None \<Rightarrow>
             (case attempt (\<lambda>t. matches t \<and> CanAcceptRoute c t) of
                Some res \<Rightarrow> placed res
              | None \<Rightarrow> create_task env c pi m))"

definition Um_OnDeleteTask :: "nat \<Rightarrow> 'q UdpMgr \<Rightarrow> 'q UdpMgr" where
  "Um_OnDeleteTask i m =
     (case map_of (tl_tasklist (um_tasklist m)) i of
        None \<Rightarrow> m
      | Some t \<Rightarrow> Um_RemoveTask i t (m\<lparr>um_tasklist := kill_timers_if_empty ((um_tasklist m)
          \<lparr>tl_tasklist := filter (\<lambda>(j, _). j \<noteq> i) (tl_tasklist (um_tasklist m))\<rparr>)\<rparr>))"

definition same_socket :: "PRCClient \<Rightarrow> PRCClient \<Rightarrow> bool" where
  "same_socket a b \<longleftrightarrow> dwPid a = dwPid b \<and> processCreateTime a = processCreateTime b \<and>
     socketGeneration a = socketGeneration b \<and> c_s a = c_s b"

definition KillTasks :: "PRCClient \<Rightarrow> 'q UdpMgr \<Rightarrow> nat \<times> 'q UdpMgr" where
  "KillTasks c m =
     (length (filter (\<lambda>(_, t). same_socket (tk_PRCClient t) c) (tl_tasklist (um_tasklist m))),
      um_swept (\<lambda>i t m. if same_socket (tk_PRCClient t) c
        then (False, um_with_task CloseTask t (ClearTaskPortStates t m)) else (False, t, m)) m)"

definition Um_RemoveAllTasks :: "'q UdpMgr \<Rightarrow> 'q UdpMgr" where
  "Um_RemoveAllTasks m =
     (let m = um_swept (\<lambda>i t m. um_remove_if True i (um_with_task CloseTask t m)) m;
          w = FlushUdpCapabilitySummary (um_world m)
      in m\<lparr>um_tasklist := (um_tasklist m)\<lparr>tl_timers := False\<rparr>,
           um_world := w\<lparr>uw_udpCapability := Circuit_Reset, uw_udpCapabilityKey := []\<rparr>\<rparr>)"

definition um_timer_visit :: "'q UdpEnv \<Rightarrow> nat \<Rightarrow> 'q UdpTask \<Rightarrow> 'q UdpMgr \<Rightarrow> bool \<times> 'q UdpTask \<times> 'q UdpMgr" where
  "um_timer_visit env i t m =
     (let (t, m) = um_with_task (OnMaintenanceTimer env) t m
      in um_remove_if (Udp_IsClosed (t, um_world m)) i (t, m))"

definition um_alive_visit :: "(dword \<Rightarrow> process_answer) \<Rightarrow> nat \<Rightarrow> 'q UdpTask \<Rightarrow> 'q UdpMgr \<Rightarrow> bool \<times> 'q UdpTask \<times> 'q UdpMgr" where
  "um_alive_visit procs i t m =
     (if \<not> TestTaskByPid procs (tk_PRCClient t) then um_remove_if True i (um_with_task CloseTask t m)
      else um_remove_if (Udp_IsClosed (t, um_world m)) i (t, m))"

definition Um_OnTimer :: "'q UdpEnv \<Rightarrow> mgr_timer \<Rightarrow> (dword \<Rightarrow> process_answer) \<Rightarrow> 'q UdpMgr \<Rightarrow> 'q UdpMgr" where
  "Um_OnTimer env ev procs m =
     (case ev of
        TIMER_TCPPERTASK \<Rightarrow>
          let m = um_swept (um_timer_visit env) m in m\<lparr>um_tasklist := kill_timers_if_empty (um_tasklist m)\<rparr>
      | TIMER_IS_TASK_ALIVE \<Rightarrow> um_swept (um_alive_visit procs) m)"

definition GetUDPPortState :: "UDPLocalProxyAddrInfo \<Rightarrow> 'q UdpMgr \<Rightarrow> bool" where
  "GetUDPPortState q m =
     (let e = um_PortState m (proxyport q)
      in proxyport e \<noteq> 0 \<and> clientip e = clientip q \<and> clientport e = clientport q)"

section \<open>Runs\<close>

text \<open>
  The inputs of the managers. A socket event reaches the task that owns the peer; the
  environment sets the clock and the results of the socket calls to come.
\<close>

datatype 's tcp_mgr_input =
    TmNew "'s TcpSetup" dword bool PRCClient ProxyInfo | TmDelete nat | TmRemoveAll | TmPrepare | TmComplete bool
  | TmTimer mgr_timer dword "dword \<Rightarrow> process_answer" | TmTask nat tcp_input

fun tcp_mgr_step :: "'s MitmEnv \<Rightarrow> 's tcp_mgr_input \<Rightarrow> 's TcpMgr \<Rightarrow> 's TcpMgr" where
  "tcp_mgr_step env (TmNew su now allocated c pi) m = snd (snd (Tm_OnNewTask env su now allocated c pi m))"
| "tcp_mgr_step env (TmDelete i) m = Tm_OnDeleteTask i m"
| "tcp_mgr_step env TmRemoveAll m = Tm_RemoveAllTasks m"
| "tcp_mgr_step env TmPrepare m = snd (PrepareReconnect m)"
| "tcp_mgr_step env (TmComplete disconnect) m = CompleteReconnect disconnect m"
| "tcp_mgr_step env (TmTimer ev now procs) m = Tm_OnTimer env ev now procs m"
| "tcp_mgr_step env (TmTask i ev) m = on_list (\<lambda>l. l\<lparr>tl_tasklist :=
     map (\<lambda>(j, t). (j, if j = i then tcp_step env ev t else t)) (tl_tasklist l)\<rparr>) m"

definition tcp_mgr_run :: "'s MitmEnv \<Rightarrow> 's tcp_mgr_input list \<Rightarrow> 's TcpMgr \<Rightarrow> 's TcpMgr" where
  "tcp_mgr_run env is m = fold (tcp_mgr_step env) is m"

definition own :: "'q UdpTask \<Rightarrow> nat set" where
  "own t = rt_peer ` set (tk_routes t) \<union> set_option (tk_pServer t)"

fun event_peer :: "udp_input \<Rightarrow> nat option" where
  "event_peer (UdpReceive p e res) = Some p"
| "event_peer (UdpWritable p e) = Some p"
| "event_peer (UdpConnected p e) = Some p"
| "event_peer (UdpClosed p e) = Some p"
| "event_peer _ = None"

datatype udp_mgr_input =
    UmNew PRCClient ProxyInfo | UmDelete nat | UmKill PRCClient | UmRemoveAll
  | UmTimer mgr_timer "dword \<Rightarrow> process_answer" | UmSocket udp_input
  | UmEnvironment dword "sendto_result list" "sockaddr option list" "int option list" bool

fun udp_mgr_step :: "'q UdpEnv \<Rightarrow> udp_mgr_input \<Rightarrow> 'q UdpMgr \<Rightarrow> 'q UdpMgr" where
  "udp_mgr_step env (UmNew c pi) m = snd (snd (Um_OnNewTask env c pi m))"
| "udp_mgr_step env (UmDelete i) m = Um_OnDeleteTask i m"
| "udp_mgr_step env (UmKill c) m = snd (KillTasks c m)"
| "udp_mgr_step env UmRemoveAll m = Um_RemoveAllTasks m"
| "udp_mgr_step env (UmTimer ev procs) m = Um_OnTimer env ev procs m"
| "udp_mgr_step env (UmSocket ev) m =
     um_swept (\<lambda>i t m. (False,
       case event_peer ev of
         Some p \<Rightarrow> if p \<in> own t then um_with_task (udp_step env ev) t m else (t, m)
       | None \<Rightarrow> (t, m))) m"
| "udp_mgr_step env (UmEnvironment now sends binds connects on) m =
     m\<lparr>um_world := (um_world m)\<lparr>uw_now := now, uw_sendtoScript := sends, uw_bindScript := binds,
        uw_connectScript := connects, uw_tapEnabled := on\<rparr>\<rparr>"

definition udp_mgr_run :: "'q UdpEnv \<Rightarrow> udp_mgr_input list \<Rightarrow> 'q UdpMgr \<Rightarrow> 'q UdpMgr" where
  "udp_mgr_run env is m = fold (udp_mgr_step env) is m"

end
