(* ===== verification/MgrBooks.thy ===== *)
theory MgrBooks
  imports TaskMgr "HOL-Library.Multiset"
begin

text \<open>
  The bookkeeping that both task managers share, and passes over their lists.
\<close>

section \<open>Bookkeeping\<close>

text \<open>
  The tasks that were added are those that were reported deleted and those in the list, each
  once; the timers run while there is a task. The list is an argument, so that the invariant can
  be stated in the middle of a pass.
\<close>

definition books :: "(nat \<times> 't) list \<Rightarrow> 't TaskList \<Rightarrow> bool" where
  "books ts l \<longleftrightarrow> mset (map fst (tl_added l)) = mset (map fst (tl_deleted l)) + mset (map fst ts) \<and>
     distinct (map fst (tl_added l)) \<and> (\<forall>i \<in> set (map fst (tl_added l)). i < tl_next l) \<and> (ts \<noteq> [] \<longrightarrow> tl_timers l)"

lemma books_new: "books [] TaskList_new"
  by (simp add: books_def TaskList_new_def)

lemma books_gone: "books (ks @ (i, t) # rest) l \<Longrightarrow> books (ks @ rest) (OnDelTask i c l)"
  by (auto simp: books_def OnDelTask_def)

lemma books_keep: "books (ks @ (i, t) # rest) l \<Longrightarrow> books (ks @ (i, t') # rest) l"
  by (simp add: books_def)

lemma books_same_ids: "books ts l \<Longrightarrow> map fst ts' = map fst ts \<Longrightarrow> books ts' l"
  by (auto simp: books_def)

lemma books_add: "books (tl_tasklist l) l \<Longrightarrow> books (tl_tasklist l @ [(tl_next l, t)]) (add_task c pi t l)"
  by (auto simp: books_def add_task_def less_Suc_eq)

lemma books_list [simp]: "books ts (l\<lparr>tl_tasklist := ks\<rparr>) = books ts l"
  by (simp add: books_def)

lemma books_kill_timers: "books ts l \<Longrightarrow> tl_tasklist l = ts \<Longrightarrow> books ts (kill_timers_if_empty l)"
  by (simp add: books_def kill_timers_if_empty_def)

lemma books_ids:
  assumes "books ts l"
  shows "distinct (map fst ts)" "distinct (map fst (tl_deleted l))"
    "set (map fst (tl_added l)) = set (map fst (tl_deleted l)) \<union> set (map fst ts)"
    "set (map fst (tl_deleted l)) \<inter> set (map fst ts) = {}"
proof -
  have m: "mset (map fst (tl_added l)) = mset (map fst (tl_deleted l) @ map fst ts)" and d: "distinct (map fst (tl_added l))"
    using assms by (simp_all add: books_def)
  from m have "set (map fst (tl_added l)) = set (map fst (tl_deleted l) @ map fst ts)" by (rule mset_eq_setD)
  moreover have "distinct (map fst (tl_deleted l) @ map fst ts)" using m d by (metis mset_eq_imp_distinct_iff)
  ultimately show "distinct (map fst ts)" "distinct (map fst (tl_deleted l))"
    "set (map fst (tl_added l)) = set (map fst (tl_deleted l)) \<union> set (map fst ts)"
    "set (map fst (tl_deleted l)) \<inter> set (map fst ts) = {}" by auto
qed

text \<open>
  A pass: an invariant of the visited tasks, the tasks to come and the manager that one visit
  keeps holds after the pass; the common case does not tell visited tasks from the others.
\<close>

lemma sweep_inv:
  assumes "\<And>ks i t rest m gone t' m'. f i t m = (gone, t', m') \<Longrightarrow> I ks ((i, t) # rest) m \<Longrightarrow>
      I (ks @ (if gone then [] else [(i, t')])) rest m'"
    and "I ks ts m" and "sweep f ts m = (ts', m')"
  shows "I (ks @ ts') [] m'"
  using assms(2,3)
proof (induction ts arbitrary: ks m ts')
  case (Cons a ts)
  obtain i t where a: "a = (i, t)" by fastforce
  obtain gone t' m1 where f: "f i t m = (gone, t', m1)" using prod_cases3 by blast
  obtain ts1 m2 where s: "sweep f ts m1 = (ts1, m2)" by fastforce
  have eq: "m' = m2" "ts' = (if gone then [] else [(i, t')]) @ ts1" using Cons.prems(2) by (auto simp: a f s)
  have "I (ks @ (if gone then [] else [(i, t')])) ts m1" using assms(1) [OF f] Cons.prems(1) a by blast
  then have "I ((ks @ (if gone then [] else [(i, t')])) @ ts1) [] m'" by (rule Cons.IH) (simp add: s eq(1))
  then show ?case unfolding eq(2) by simp
qed simp

lemma sweep_list_inv:
  assumes "\<And>ks i t rest m gone t' m'. f i t m = (gone, t', m') \<Longrightarrow> I (ks @ (i, t) # rest) m \<Longrightarrow>
      I (ks @ (if gone then rest else (i, t') # rest)) m'"
    and "I ts m" and "sweep f ts m = (ts', m')"
  shows "I ts' m'"
proof -
  have "(\<lambda>ks rest. I (ks @ rest)) ([] @ ts') [] m'"
  proof (rule sweep_inv [where f = f and I = "\<lambda>ks rest. I (ks @ rest)", OF _ _ assms(3)])
    show "I ((ks @ (if gone then [] else [(i, t')])) @ rest) m'"
      if "f i t m = (gone, t', m')" "I (ks @ (i, t) # rest) m" for ks i t rest m gone t' m'
      using assms(1) [OF that] by (cases gone) simp_all
  qed (simp add: assms(2))
  then show ?thesis by simp
qed

lemma sweep_kept:
  assumes "\<And>i t m gone t' m'. f i t m = (gone, t', m') \<Longrightarrow> \<not> gone \<Longrightarrow> Q t'"
    and "sweep f ts m = (ts', m')" and "x \<in> set ts'"
  shows "Q (snd x)"
  using assms(2,3)
proof (induction ts arbitrary: m ts' m')
  case (Cons a ts)
  obtain i t where a: "a = (i, t)" by fastforce
  obtain gone t' m1 where f: "f i t m = (gone, t', m1)" using prod_cases3 by blast
  obtain ts1 m2 where s: "sweep f ts m1 = (ts1, m2)" by fastforce
  have "ts' = (if gone then ts1 else (i, t') # ts1)" using Cons.prems(1) by (simp add: a f s)
  then show ?case using Cons.prems(2) Cons.IH [OF s] assms(1) [OF f] by (auto split: if_splits)
qed simp

lemma books_all: "books ts l \<Longrightarrow> books [] (fold (\<lambda>(i, t). OnDelTask i (g t)) ts l)"
proof (induction ts arbitrary: l)
  case (Cons a ts)
  then have "books ts (OnDelTask (fst a) (g (snd a)) l)" using books_gone [of "[]" "fst a" "snd a" ts l] by simp
  then show ?case using Cons.IH by (simp add: case_prod_beta)
qed simp

lemma map_of_split:
  assumes "map_of ts i = Some t" and "distinct (map fst ts)"
  obtains ks rest where "ts = ks @ (i, t) # rest" "filter (\<lambda>(j, _). j \<noteq> i) ts = ks @ rest"
proof -
  obtain ks rest where s: "ts = ks @ (i, t) # rest" using assms(1) by (meson map_of_SomeD split_list)
  then have "\<forall>x \<in> set ks \<union> set rest. fst x \<noteq> i" using assms(2) by (force simp: image_iff)
  then have "filter (\<lambda>(j, _). j \<noteq> i) ks = ks" "filter (\<lambda>(j, _). j \<noteq> i) rest = rest"
    by (auto simp: filter_id_conv case_prod_beta)
  then show ?thesis using that [of ks rest] s by simp
qed

lemma sweep_all_gone: "\<forall>i t m. t \<in> snd ` set ts \<longrightarrow> fst (f i t m) \<Longrightarrow> fst (sweep f ts m) = []"
  by (induction ts arbitrary: m) (auto simp: case_prod_beta Let_def)

end
