(* ===== verification/TcpMgrRuns.thy ===== *)
theory TcpMgrRuns
  imports MgrBooks TcpOutcome
begin

text \<open>
  Runs of the TCP task manager: every task in its list is a running connection or waits for the
  next timer, which removes it.
\<close>

section \<open>The TCP manager\<close>

definition serves :: "'s TcpTask \<Rightarrow> bool" where
  "serves t \<longleftrightarrow> tcp_inv t \<or> watched t"

lemma serves_alive: "serves t \<Longrightarrow> alive_ok t"
  by (auto simp: serves_def tcp_inv_def watched_def)

lemma serves_step: "serves t \<Longrightarrow> serves (tcp_step env i t)"
  using step_moves [of t env i] watched_step [of t env i] by (auto simp: serves_def)

lemma serves_fields [simp]:
  "serves (t\<lparr>tt_now := n\<rparr>) = serves t" "serves (t\<lparr>tt_reconnectSelected := b\<rparr>) = serves t"
  "serves (t\<lparr>tt_reconnectPending := b\<rparr>) = serves t"
  by (simp_all add: serves_def tcp_inv_def watched_def bufs_ok_def alive_ok_def idle_ok_def status_def)

lemma serves_started:
  assumes "Tcp_SetTaskInfo env su c pi (TcpTask_new now) = (True, stage, t)"
  shows "serves t"
proof (cases "su_MitmEnabled su")
  case True
  then show ?thesis using inspected_started [OF assms] by (simp add: serves_def)
next
  case False
  then have "tcp_started_uninspected env su c pi now t" using assms by (auto simp: tcp_started_uninspected_def)
  then show ?thesis using started_inv [of env su c pi now t Client] by (simp add: serves_def)
qed

definition tm_inv :: "(nat \<times> 's TcpTask) list \<Rightarrow> 's TcpTask TaskList \<Rightarrow> bool" where
  "tm_inv ts l \<longleftrightarrow> books ts l \<and> (\<forall>x \<in> set ts. serves (snd x))"

lemma timer_visit_inv:
  assumes "tcp_timer_visit env now i t l = (gone, t', l')" and "tm_inv (ks @ (i, t) # rest) l"
  shows "tm_inv (ks @ (if gone then rest else (i, t') # rest)) l'"
proof -
  let ?t = "tcp_step env (TcpTimer Server) (tcp_step env (TcpTimer Client) (t\<lparr>tt_now := now\<rparr>))"
  have "serves ?t" using assms(2) by (intro serves_step) (simp add: tm_inv_def)
  moreover have "(gone, t', l') = (True, Tcp_EndTask t, OnDelTask i (tt_PRCClient (Tcp_EndTask t)) l) \<or>
      (gone, t', l') = (True, ?t, OnDelTask i (tt_PRCClient ?t) l) \<or> (gone, t', l') = (False, ?t, l)"
    using assms(1) by (auto simp: tcp_timer_visit_def Let_def simp del: tcp_step.simps split: if_splits)
  ultimately show ?thesis using assms(2) by (auto simp: tm_inv_def intro: books_gone books_keep)
qed

lemma alive_visit_inv:
  assumes "tcp_alive_visit procs i t l = (gone, t', l')" and "tm_inv (ks @ (i, t) # rest) l"
  shows "tm_inv (ks @ (if gone then rest else (i, t') # rest)) l'"
  using assms by (auto simp: tcp_alive_visit_def tm_inv_def Let_def intro: books_gone split: if_splits)

lemma swept_inv:
  assumes "\<And>ks i t rest l gone t' l'. f i t l = (gone, t', l') \<Longrightarrow> tm_inv (ks @ (i, t) # rest) l \<Longrightarrow>
      tm_inv (ks @ (if gone then rest else (i, t') # rest)) l'"
    and "tm_inv (tl_tasklist l) l"
  shows "tm_inv (tl_tasklist (swept f l)) (swept f l)"
proof -
  obtain ks l' where s: "sweep f (tl_tasklist l) l = (ks, l')" by fastforce
  have "tm_inv ks l'" by (rule sweep_list_inv [where f = f and I = tm_inv, OF assms(1) assms(2) s])
  then show ?thesis by (simp add: swept_def s tm_inv_def)
qed

lemma tm_inv_map:
  assumes "tm_inv ts l" and "\<And>x. x \<in> set ts \<Longrightarrow> fst (g x) = fst x \<and> serves (snd (g x))"
  shows "tm_inv (map g ts) (l\<lparr>tl_tasklist := map g ts\<rparr>)"
  using assms books_same_ids [of ts l "map g ts"] by (auto simp: tm_inv_def)

lemma tm_step_inv:
  assumes inv: "tm_inv (tl_tasklist (tm_tasklist m)) (tm_tasklist m)"
  shows "tm_inv (tl_tasklist (tm_tasklist (tcp_mgr_step env i m))) (tm_tasklist (tcp_mgr_step env i m))"
proof -
  let ?l = "tm_tasklist m"
  have map_inv: "tm_inv (map g (tl_tasklist ?l)) (?l\<lparr>tl_tasklist := map g (tl_tasklist ?l)\<rparr>)"
    if "\<And>x. x \<in> set (tl_tasklist ?l) \<Longrightarrow> fst (g x) = fst x \<and> serves (snd (g x))" for g
    using tm_inv_map [OF inv that] .
  have sv: "serves (snd x)" if "x \<in> set (tl_tasklist ?l)" for x using inv that by (auto simp: tm_inv_def)
  show ?thesis
  proof (cases i)
    case (TmNew su now allocated c pi)
    obtain ok stage t where s: "Tcp_SetTaskInfo env su c pi (TcpTask_new now) = (ok, stage, t)" using prod_cases3 by blast
    show ?thesis
    proof (cases "allocated \<and> ok")
      case True
      then have "serves t" using serves_started [of env su c pi now stage t] s by simp
      then show ?thesis using True inv books_add [of ?l t c pi] s
        by (auto simp: TmNew Tm_OnNewTask_def on_list_def tm_inv_def add_task_def)
    next
      case False
      then show ?thesis using inv s by (auto simp: TmNew Tm_OnNewTask_def split: bool.splits)
    qed
  next
    case (TmDelete j)
    show ?thesis
    proof (cases "map_of (tl_tasklist ?l) j")
      case (Some t)
      have "distinct (map fst (tl_tasklist ?l))" using inv books_ids(1) by (auto simp: tm_inv_def)
      with Some obtain ks rest where k: "tl_tasklist ?l = ks @ (j, t) # rest" "filter (\<lambda>(i, _). i \<noteq> j) (tl_tasklist ?l) = ks @ rest"
        by (rule map_of_split)
      let ?l' = "(OnDelTask j (tt_PRCClient t) ?l)\<lparr>tl_tasklist := ks @ rest\<rparr>"
      have "books (ks @ rest) ?l'" using inv books_gone [of ks j t rest ?l] by (simp add: tm_inv_def k)
      then have "books (ks @ rest) (kill_timers_if_empty ?l')" by (rule books_kill_timers) simp
      moreover have "serves (snd x)" if "x \<in> set (ks @ rest)" for x using sv that by (auto simp: k)
      ultimately show ?thesis using Some k(2)
        by (simp add: TmDelete Tm_OnDeleteTask_def on_list_def tm_inv_def kill_timers_if_empty_def)
    qed (use inv in \<open>simp add: TmDelete Tm_OnDeleteTask_def\<close>)
  next
    case TmRemoveAll
    then show ?thesis using inv books_all [of "tl_tasklist ?l" ?l]
      by (simp add: Tm_RemoveAllTasks_def on_list_def tm_inv_def)
  next
    case TmPrepare
    then show ?thesis using map_inv sv by (simp add: PrepareReconnect_def on_list_def)
  next
    case (TmComplete d)
    then show ?thesis using map_inv sv by (simp add: CompleteReconnect_def on_list_def)
  next
    case (TmTimer ev now procs)
    have "tm_inv (tl_tasklist (swept (tcp_timer_visit env now) ?l)) (swept (tcp_timer_visit env now) ?l)"
      by (rule swept_inv [OF timer_visit_inv inv])
    moreover have "tm_inv (tl_tasklist (swept (tcp_alive_visit procs) ?l)) (swept (tcp_alive_visit procs) ?l)"
      by (rule swept_inv [OF alive_visit_inv inv])
    ultimately show ?thesis
      by (cases ev) (auto simp: TmTimer Tm_OnTimer_def on_list_def tm_inv_def kill_timers_if_empty_def intro: books_kill_timers [unfolded kill_timers_if_empty_def])
  next
    case (TmTask j ev)
    then show ?thesis using map_inv sv by (simp add: on_list_def case_prod_beta serves_step del: tcp_step.simps)
  qed
qed

lemma tm_run_inv:
  "tm_inv (tl_tasklist (tm_tasklist (tcp_mgr_run env is TcpMgr_new))) (tm_tasklist (tcp_mgr_run env is TcpMgr_new))"
proof -
  have "tm_inv (tl_tasklist (tm_tasklist m)) (tm_tasklist m) \<Longrightarrow>
      tm_inv (tl_tasklist (tm_tasklist (tcp_mgr_run env is m))) (tm_tasklist (tcp_mgr_run env is m))" for m
    unfolding tcp_mgr_run_def by (induction "is" arbitrary: m) (simp_all add: tm_step_inv del: tcp_mgr_step.simps)
  moreover have "tm_inv (tl_tasklist (tm_tasklist (TcpMgr_new :: 'a TcpMgr))) (tm_tasklist TcpMgr_new)"
    using books_new by (simp add: TcpMgr_new_def tm_inv_def TaskList_new_def)
  ultimately show ?thesis by blast
qed

section \<open>Properties\<close>

text \<open>
  The books of the TCP manager balance: after every run the tasks that were announced are,
  each once, those that were reported deleted and those still in the list; so no task is
  reported deleted twice or while it is listed. The timers run while there is a task.
\<close>

theorem tcp_tasks_reported_once:
  "let l = tm_tasklist (tcp_mgr_run env is TcpMgr_new) in
     distinct (map fst (tl_deleted l) @ map fst (tl_tasklist l)) \<and>
     set (map fst (tl_added l)) = set (map fst (tl_deleted l) @ map fst (tl_tasklist l)) \<and>
     (tl_timers l \<or> tl_tasklist l = [])"
proof -
  have b: "books (tl_tasklist l) l" if "l = tm_tasklist (tcp_mgr_run env is TcpMgr_new)" for l
    using tm_run_inv [of env "is"] that by (simp add: tm_inv_def)
  show ?thesis unfolding Let_def using books_ids [OF b [OF refl]] b [OF refl] by (auto simp: books_def)
qed

lemma timer_visit_keeps:
  "tcp_timer_visit env now i t l = (gone, t', l') \<Longrightarrow> \<not> gone \<Longrightarrow> \<not> tt_bDeletePending t'"
  by (auto simp: tcp_timer_visit_def Let_def simp del: tcp_step.simps split: if_splits)

text \<open>
  The timer leaves only open connections: when the per-task timer ran last, both sockets of
  every listed task are open.
\<close>

theorem tcp_timer_leaves_open_connections:
  "list_all (\<lambda>(i, t). tp_open (tt_peer t Client) \<and> tp_open (tt_peer t Server))
     (tl_tasklist (tm_tasklist (tcp_mgr_run env (is @ [TmTimer TIMER_TCPPERTASK now procs]) TcpMgr_new)))"
proof -
  define m where "m = tcp_mgr_run env is TcpMgr_new"
  obtain ks l where s: "sweep (tcp_timer_visit env now) (tl_tasklist (tm_tasklist m)) (tm_tasklist m) = (ks, l)" by fastforce
  have run: "tcp_mgr_run env (is @ [TmTimer TIMER_TCPPERTASK now procs]) TcpMgr_new =
      on_list (kill_timers_if_empty \<circ> swept (tcp_timer_visit env now)) m"
    by (simp add: tcp_mgr_run_def m_def Tm_OnTimer_def)
  then have ks: "tl_tasklist (tm_tasklist (tcp_mgr_run env (is @ [TmTimer TIMER_TCPPERTASK now procs]) TcpMgr_new)) = ks"
    by (simp add: on_list_def kill_timers_if_empty_def swept_def s)
  have "tp_open (tt_peer t Client) \<and> tp_open (tt_peer t Server)" if "(i, t) \<in> set ks" for i t
  proof -
    have "serves t" using tm_run_inv [of env "is @ [TmTimer TIMER_TCPPERTASK now procs]"] that unfolding ks tm_inv_def by force
    moreover have "\<not> tt_bDeletePending (snd (i, t))" by (rule sweep_kept [OF timer_visit_keeps s that])
    ultimately show ?thesis using serves_alive [of t] by (auto simp: alive_ok_def)
  qed
  then show ?thesis unfolding ks by (auto simp: list_all_iff)
qed

lemma closed_timer: "\<not> tp_open (tt_peer t Client) \<Longrightarrow> \<not> tp_open (tt_peer t Server) \<Longrightarrow>
  tcp_step env (TcpTimer Server) (tcp_step env (TcpTimer Client) t) = t"
  by simp

lemma timer_visit_gone:
  assumes "serves t" and "tt_reconnectPending t \<or> tt_bDeletePending t" and "tcp_timer_visit env now i t l = (gone, t', l')"
  shows gone
proof (cases "tt_reconnectPending t")
  case False
  then have "\<not> tp_open (tt_peer t Client)" "\<not> tp_open (tt_peer t Server)"
    using assms(2) serves_alive [OF assms(1)] by (auto simp: alive_ok_def)
  then show ?thesis using assms(2,3) False closed_timer [of "t\<lparr>tt_now := now\<rparr>" env]
    by (simp add: tcp_timer_visit_def Let_def del: tcp_step.simps)
qed (use assms(3) in \<open>simp add: tcp_timer_visit_def Let_def\<close>)

text \<open>
  A new monitoring run starts clean: whatever happened before, after the reconnect was
  prepared and completed the next per-task timer ends every connection, those kept alive, those
  already closed and those an earlier reconnect had selected; none survives into the new run.
\<close>

theorem reconnect_drops_every_connection:
  "tl_tasklist (tm_tasklist (tcp_mgr_run env
     (is @ [TmPrepare, TmComplete True, TmTimer TIMER_TCPPERTASK now procs]) TcpMgr_new)) = []"
proof -
  define m where "m = tcp_mgr_run env is TcpMgr_new"
  define l where "l = tm_tasklist (CompleteReconnect True (snd (PrepareReconnect m)))"
  have run: "tcp_mgr_run env (is @ [TmPrepare, TmComplete True, TmTimer TIMER_TCPPERTASK now procs]) TcpMgr_new =
      Tm_OnTimer env TIMER_TCPPERTASK now procs (CompleteReconnect True (snd (PrepareReconnect m)))"
    by (simp add: tcp_mgr_run_def m_def)
  have inv: "tm_inv (tl_tasklist l) l"
    using tm_run_inv [of env "is @ [TmPrepare, TmComplete True]"] by (simp add: tcp_mgr_run_def m_def l_def)
  have sel: "tt_reconnectPending t \<or> tt_bDeletePending t" if "t \<in> snd ` set (tl_tasklist l)" for t
    using that by (auto simp: l_def CompleteReconnect_def PrepareReconnect_def on_list_def selects_reconnect_def)
  obtain ks l' where s: "sweep (tcp_timer_visit env now) (tl_tasklist l) l = (ks, l')" by fastforce
  have "gone" if "t \<in> snd ` set (tl_tasklist l)" "tcp_timer_visit env now i t x = (gone, t', x')" for i t x gone t' x'
  proof -
    have "serves t" using that(1) inv by (auto simp: tm_inv_def)
    then show ?thesis using timer_visit_gone [OF _ sel [OF that(1)] that(2)] by blast
  qed
  then have "ks = []" using sweep_all_gone [of "tl_tasklist l" "tcp_timer_visit env now" l] s by (metis fst_conv prod_cases3)
  then show ?thesis unfolding run
    by (simp add: Tm_OnTimer_def on_list_def kill_timers_if_empty_def swept_def s flip: l_def)
qed

end
