(* ===== verification/UdpEffects.thy ===== *)
theory UdpEffects
  imports UdpFlow TaskMgr
begin

text \<open>
  What the handlers of a UDP task may do to the sockets. Every handler is composed of a few
  effects: it changes queues and flags only, sets the upstream state, closes the task or its
  upstream, drops the upstream, or creates a new one. The locale \<open>task_effect\<close> names these
  effects for an arbitrary relation between states and proves once that every handler is in the
  relation. It is interpreted twice: for what a handler never changes, and for the isolation of
  a task, whose handlers touch only the sockets of this task and new ones.
\<close>

section \<open>The shape of a task\<close>

text \<open>The part of the state that says which sockets there are and in which state the upstream is.\<close>

definition shape :: "'q udp_state \<Rightarrow> PRCClient \<times> ProxyInfo \<times> nat option \<times> UpstreamState \<times> (PRCClient \<times> nat) list \<times>
    (nat \<Rightarrow> UdpPeer option) \<times> nat \<times> dword" where
  "shape st = (tk_PRCClient (fst st), tk_ProxyInfo (fst st), tk_pServer (fst st), tk_upstreamState (fst st),
     route_keys (fst st), uw_peers (snd st), uw_nextPeer (snd st), uw_now (snd st))"

definition bones :: "UdpWorld \<Rightarrow> (nat \<Rightarrow> UdpPeer option) \<times> nat \<times> dword" where
  "bones w = (uw_peers w, uw_nextPeer w, uw_now w)"

lemma shape_state: "shape a = shape b \<Longrightarrow> tk_upstreamState (fst a) = tk_upstreamState (fst b)"
  by (simp add: shape_def)

lemma shape_bones: "bones w' = bones w \<Longrightarrow> shape (t, w') = shape (t, w)"
  by (simp add: shape_def bones_def)

lemma bones_emit [simp]: "bones (emit e w) = bones w"
  by (simp add: bones_def emit_def)

lemma bones_SendTo: "Peer_SendTo p w = (n, w') \<Longrightarrow> bones w' = bones w"
  by (auto simp: Peer_SendTo_def bones_def split: if_splits list.splits sendto_result.splits)

lemma bones_send:
  "send_reply p a d w = (n, w') \<Longrightarrow> bones w' = bones w"
  "send_upstream s target d w = (n, w') \<Longrightarrow> bones w' = bones w"
  by (auto simp: send_reply_def send_upstream_def dest!: bones_SendTo split: prod.splits if_splits)

lemma bones_flush_replies: "flush_replies rp rs b w = (rs', b', w') \<Longrightarrow> bones w' = bones w"
proof (induction rp rs b w arbitrary: rs' b' w' rule: flush_replies.induct)
  case (2 rp r rs bytes w)
  obtain n w1 where s: "send_reply (pr_routePeer r) (pr_application r) (pr_data r) w = (n, w1)" by fastforce
  show ?case using "2.prems" "2.IH" s bones_send(1) [OF s]
    by (auto simp: Let_def split: if_splits prod.splits)
qed simp

lemma bones_flush_pending: "flush_pending s ps b w = (ps', b', w', e) \<Longrightarrow> bones w' = bones w"
proof (induction s ps b w arbitrary: ps' b' w' rule: flush_pending.induct)
  case (2 s p ps bytes w)
  obtain n w1 where u: "send_upstream s (pd_target p) (pd_data p) w = (n, w1)" by fastforce
  show ?case using "2.prems" "2.IH" u bones_send(2) [OF u]
    by (auto simp: Let_def split: if_splits)
qed simp

lemma bones_capability [simp]:
  "bones (EnsureUdpCapabilityProfile pi w) = bones w"
  "bones (snd (ReportUdpAssociationFailure p e w)) = bones w" "bones (ReportUdpAssociationReady p w) = bones w"
  by (simp_all add: EnsureUdpCapabilityProfile_def FlushUdpCapabilitySummary_def ReportUdpAssociationFailure_def
      ReportUdpAssociationReady_def bones_def Let_def split: prod.splits)

lemma shape_touch [simp]:
  "shape (t\<lparr>tk_lastActivity := x\<rparr>, w) = shape (t, w)" "shape (t\<lparr>tk_nextServerReconnect := y\<rparr>, w) = shape (t, w)"
  "shape (t\<lparr>tk_serverReconnectDelay := y\<rparr>, w) = shape (t, w)" "shape (t\<lparr>tk_lastServerError := z\<rparr>, w) = shape (t, w)"
  "shape (t\<lparr>tk_pending := ps, tk_pendingBytes := y\<rparr>, w) = shape (t, w)" "shape (t, emit e w) = shape (t, w)"
  "shape (fst st, snd st) = shape st"
  by (simp_all add: shape_def route_keys_def emit_def)

lemma shape_queues [simp]:
  "shape (snd (QueueDatagram target d st)) = shape st" "shape (snd (QueueReply p a d st)) = shape st"
  "shape (ExpirePendingDatagrams st) = shape st"
  by (cases st; simp add: QueueDatagram_def QueueReply_def ExpirePendingDatagrams_def shape_def route_keys_def Let_def
      split: prod.splits)+

lemma shape_FlushReplies [simp]: "shape (FlushPendingReplies rp st) = shape st"
proof -
  obtain rs b w' where f: "flush_replies rp (tk_pendingReplies (fst st)) (tk_pendingReplyBytes (fst st)) (snd st) = (rs, b, w')"
    using prod_cases3 by blast
  from bones_flush_replies [OF f] show ?thesis
    using f by (cases st) (simp add: FlushPendingReplies_def shape_def bones_def route_keys_def)
qed

lemma shape_update_route [simp]:
  "(\<And>r. rt_client (f r) = rt_client r) \<Longrightarrow> (\<And>r. rt_peer (f r) = rt_peer r) \<Longrightarrow> shape (update_route p f st) = shape st"
  by (cases st) (simp add: update_route_def shape_def route_keys_def)

lemma shape_capture [simp]: "shape (capture_data p side d st) = shape st" "shape (capture_client p d st) = shape st"
proof -
  have c: "shape (capture_data p side d st) = shape st" for side
    by (cases st) (simp add: capture_data_def update_route_def shape_def route_keys_def emit_def)
  then show "shape (capture_data p side d st) = shape st" "shape (capture_client p d st) = shape st"
    by (simp_all add: capture_client_def)
qed

lemma shape_Deliver [simp]: "shape (snd (DeliverServerDatagram env r d st)) = shape st"
proof -
  obtain t w where st: "st = (t, w)" by fastforce
  obtain n w1 where s: "send_reply (rt_peer r) (reply_endpoint env r) d w = (n, w1)" by fastforce
  have "shape (t, w1) = shape st" using shape_bones [OF bones_send(1) [OF s]] st by simp
  then show ?thesis by (simp add: DeliverServerDatagram_def st s Let_def)
qed

lemma shape_forward_first [simp]: "shape (snd (forward_first env p target d r st)) = shape st"
  by (cases st) (simp add: forward_first_def update_route_def shape_def route_keys_def emit_def)

lemma shape_wake_quic [simp]: "shape (wake_quic st) = shape st"
proof -
  have "bones (fold (\<lambda>r. if rt_quic r \<noteq> None then emit (TriggerWrite (rt_peer r)) else id) rs w) = bones w"
    for rs :: "'a UdpRoute list" and w
    by (rule fold_field) simp
  then show ?thesis by (simp add: wake_quic_def shape_def bones_def)
qed

section \<open>Effects\<close>

locale task_effect =
  fixes R :: "'q udp_state \<Rightarrow> 'q udp_state \<Rightarrow> bool"
  assumes calm: "shape b = shape a \<Longrightarrow> R a b"
    and trans: "R a b \<Longrightarrow> R b c \<Longrightarrow> R a c"
    and state: "tk_upstreamState t \<noteq> UPSTREAM_CLOSING \<Longrightarrow> s \<noteq> UPSTREAM_CLOSING \<Longrightarrow> R (t, w) (t\<lparr>tk_upstreamState := s\<rparr>, w)"
    and close: "R a (CloseTask a)"
    and close_route: "p \<in> rt_peer ` set (tk_routes t) \<Longrightarrow> R (t, w) (CloseTask (t, Peer_Close p w))"
    and close_server: "tk_pServer t = Some p \<Longrightarrow> R (t, w) (t, Peer_Close p w)"
    and drop: "R a (drop_server a)"
    and create: "CreateServerPeer env a = (ok, b) \<Longrightarrow> tk_upstreamState (fst a) \<noteq> UPSTREAM_CLOSING \<Longrightarrow> R a b"
begin

lemma then_calm: "R a b \<Longrightarrow> shape c = shape b \<Longrightarrow> R a c"
  using trans [OF _ calm] by blast

lemma after_calm: "shape b = shape a \<Longrightarrow> R b c \<Longrightarrow> R a c"
  using trans [OF calm] by blast

lemma Schedule: "R st (ScheduleServerReconnect e st)"
proof -
  obtain t w where st: "st = (t, w)" by fastforce
  let ?t1 = "t\<lparr>tk_nextServerReconnect := uw_now w + tk_serverReconnectDelay t, tk_lastServerError := e\<rparr>"
  define t2 where "t2 = (if tk_upstreamState t \<noteq> UPSTREAM_RECONNECT_WAIT then ?t1\<lparr>tk_upstreamState := UPSTREAM_RECONNECT_WAIT\<rparr> else t)"
  show ?thesis
  proof (cases "tk_upstreamState t = UPSTREAM_CLOSING")
    case True
    then show ?thesis using calm by (simp add: ScheduleServerReconnect_def st)
  next
    case False
    have "R (t, w) (?t1, w)" by (rule calm) simp
    moreover have "R (?t1, w) (?t1\<lparr>tk_upstreamState := UPSTREAM_RECONNECT_WAIT\<rparr>, w)" using False by (intro state) simp_all
    ultimately have "R (t, w) (?t1\<lparr>tk_upstreamState := UPSTREAM_RECONNECT_WAIT\<rparr>, w)" by (rule trans)
    then have r: "R (t, w) (t2, w)" using calm by (simp add: t2_def)
    have eq: "ScheduleServerReconnect e st = (t2, case tk_pServer t of None \<Rightarrow> w | Some p \<Rightarrow> Peer_Close p w)"
      using False by (simp add: ScheduleServerReconnect_def st t2_def)
    show ?thesis
    proof (cases "tk_pServer t")
      case None
      then show ?thesis using r unfolding eq by (simp add: st)
    next
      case (Some p)
      then have "R (t2, w) (t2, Peer_Close p w)" by (intro close_server) (simp add: t2_def)
      then show ?thesis using trans [OF r] Some unfolding eq by (simp add: st)
    qed
  qed
qed

lemma association_failed: "R st (association_failed e st)"
proof -
  obtain t w where st: "st = (t, w)" by fastforce
  obtain blocked w1 where r: "ReportUdpAssociationFailure (tk_ProxyInfo t) e w = (blocked, w1)" by fastforce
  then have "bones w1 = bones w" using bones_capability(2) by (metis snd_conv)
  then have k: "shape (t, w1) = shape st" using shape_bones st by simp
  obtain t2 w2 where s: "ScheduleServerReconnect e (t, w1) = (t2, w2)" by fastforce
  have "R st (CloseTask (t, w1))" "R st (t2, w2)"
    using after_calm [OF k close] after_calm [OF k Schedule, of e] s by simp_all
  then show ?thesis using then_calm [of st "(t2, w2)" "(t2\<lparr>tk_nextServerReconnect := uw_now w2 + 60000\<rparr>, w2)"]
    by (simp add: association_failed_def st r s)
qed

lemma reconnect:
  assumes "reconnect env st = (go, st')" and "tk_upstreamState (fst st) \<noteq> UPSTREAM_CLOSING"
  shows "R st st'"
proof -
  obtain ok t w where c: "CreateServerPeer env (drop_server st) = (ok, t, w)" using prod_cases3 by blast
  have k: "R st (t, w)" using trans [OF drop create [OF c]] assms(2) by simp
  show ?thesis
  proof (cases ok)
    case True
    then show ?thesis using assms(1) k by (simp add: reconnect_def c)
  next
    case False
    obtain blocked w1 where r: "ReportUdpAssociationFailure (tk_ProxyInfo t) (create_error w) w = (blocked, w1)" by fastforce
    then have "bones w1 = bones w" using bones_capability(2) by (metis snd_conv)
    then have s: "shape (t, w1) = shape (t, w)" by (rule shape_bones)
    have "t = fst (drop_server st)" using CreateServerPeer_cases [of env "fst (drop_server st)" "snd (drop_server st)"] c False by auto
    then have "R (t, w1) (t\<lparr>tk_upstreamState := UPSTREAM_RECONNECT_WAIT\<rparr>, w1)" using assms(2) by (intro state) simp_all
    then have wait: "R st (t\<lparr>tk_upstreamState := UPSTREAM_RECONNECT_WAIT\<rparr>, w1)" by (rule trans [OF then_calm [OF k s]])
    have "R st (t\<lparr>tk_upstreamState := UPSTREAM_RECONNECT_WAIT, tk_nextServerReconnect := n\<rparr>, w1)" for n
      by (rule then_calm [OF wait]) (simp add: shape_def route_keys_def)
    moreover have "R st (t\<lparr>tk_upstreamState := UPSTREAM_RECONNECT_WAIT, tk_serverReconnectDelay := d, tk_nextServerReconnect := n\<rparr>, w1)" for n d
      by (rule then_calm [OF wait]) (simp add: shape_def route_keys_def)
    moreover have "R st (CloseTask (t, w1))" by (rule trans [OF then_calm [OF k s] close])
    ultimately show ?thesis
      using assms(1) False by (auto simp: reconnect_def c r Let_def split: if_splits)
  qed
qed

lemma flush_upstream: "R st (flush_upstream st)"
proof -
  obtain t w where st: "st = (t, w)" by fastforce
  show ?thesis
  proof (cases "\<exists>s. tk_pServer t = Some s \<and> tk_upstreamState t = UPSTREAM_READY \<and> peer_open w s")
    case True
    then obtain s where s: "tk_pServer t = Some s" "tk_upstreamState t = UPSTREAM_READY" "peer_open w s" by blast
    obtain ps b w1 err where f: "flush_pending s (tk_pending t) (tk_pendingBytes t) w = (ps, b, w1, err)"
      using prod_cases4 by blast
    let ?st = "(t\<lparr>tk_pending := ps, tk_pendingBytes := b\<rparr>, w1)"
    have "shape ?st = shape st" using shape_bones [OF bones_flush_pending [OF f]] st by simp
    then have "R st (handle_send_error err ?st)"
      using after_calm [OF _ Schedule] calm by (simp add: handle_send_error_def split: option.split)
    then have "R st (wake_quic (FlushPendingReplies None (handle_send_error err ?st)))" by (rule then_calm) simp
    then show ?thesis using s f by (simp add: flush_upstream_def st)
  next
    case False
    then have "flush_upstream st = st" by (auto simp: flush_upstream_def st split: option.splits)
    then show ?thesis using calm by simp
  qed
qed

lemma OnServerWritable: "R st (OnServerWritable env st)"
proof -
  obtain t w where p: "FlushPendingReplies None (ExpirePendingDatagrams st) = (t, w)" by fastforce
  obtain go st1 where r: "reconnect env (t, w) = (go, st1)" by (cases "reconnect env (t, w)") auto
  have s: "shape (t, w) = shape st" by (simp flip: p)
  have "tk_upstreamState t = tk_upstreamState (fst st)" using shape_state [OF s] by simp
  then have "R st st1" "R st (flush_upstream st1)" if "tk_upstreamState (fst st) \<noteq> UPSTREAM_CLOSING"
    using that after_calm [OF s reconnect [OF r]] after_calm [OF s trans [OF reconnect [OF r] flush_upstream]] by simp_all
  moreover have "R st (t, w)" "R st (flush_upstream (t, w))" "R st st"
    using calm [OF s] after_calm [OF s flush_upstream] calm by simp_all
  ultimately show ?thesis by (simp add: OnServerWritable_def p r)
qed

lemma EnterServerDormant: "R st (EnterServerDormant st)"
proof -
  obtain t w where st: "st = (t, w)" by fastforce
  let ?t = "t\<lparr>tk_upstreamState := UPSTREAM_DORMANT, tk_serverReconnectDelay := 250, tk_lastServerError := 0\<rparr>"
  have "R (t, w) (?t, w)" if "tk_upstreamState t \<noteq> UPSTREAM_CLOSING"
    by (rule then_calm [OF state [OF that, of UPSTREAM_DORMANT]]) (simp_all add: shape_def route_keys_def)
  then have "R (t, w) (drop_server (?t, w))" if "tk_upstreamState t \<noteq> UPSTREAM_CLOSING" using that trans [OF _ drop] by blast
  then show ?thesis using calm by (simp add: EnterServerDormant_def st)
qed

lemma OnMaintenanceTimer: "R st (OnMaintenanceTimer env st)"
proof -
  obtain t w where p: "FlushPendingReplies None (ExpirePendingDatagrams st) = (t, w)" by fastforce
  have s: "shape (t, w) = shape st" by (simp flip: p)
  show ?thesis
    using calm [OF refl] calm [OF s] after_calm [OF s EnterServerDormant] after_calm [OF s OnServerWritable, of env]
    by (simp add: OnMaintenanceTimer_def p)
qed

lemma Wake: "R st (WakeServerAssociation env st)"
proof -
  obtain t w where st: "st = (t, w)" by fastforce
  let ?t = "t\<lparr>tk_upstreamState := UPSTREAM_ASSOCIATING, tk_serverReconnectDelay := 250\<rparr>"
  obtain ok t1 w1 where c: "CreateServerPeer env (?t, w) = (ok, t1, w1)" using prod_cases3 by blast
  show ?thesis
  proof (cases "tk_upstreamState t = UPSTREAM_CLOSING \<or> \<not> ShouldActivateUpstream (tk_upstreamState t)")
    case False
    then have "R (t, w) (t\<lparr>tk_upstreamState := UPSTREAM_ASSOCIATING\<rparr>, w)" by (intro state) simp_all
    then have "R st (?t, w)" unfolding st by (rule then_calm) (simp add: shape_def route_keys_def)
    then have k: "R st (t1, w1)" by (rule trans) (simp add: create [OF c])
    show ?thesis
      using False k trans [OF k association_failed] trans [OF k OnServerWritable, of env]
      by (simp add: WakeServerAssociation_def st c Let_def)
  qed (simp add: WakeServerAssociation_def st calm)
qed

lemma OnPeerClosed_server: "tk_pServer (fst st) = Some p \<Longrightarrow> R st (OnPeerClosed p e st)"
  using association_failed [of st e] calm [of st st] by (cases st) (auto simp: OnPeerClosed_def)

lemma OnServerReady: "R st (OnServerReady env p st)"
proof -
  obtain t w where st: "st = (t, w)" by fastforce
  let ?st = "(t\<lparr>tk_upstreamState := UPSTREAM_READY, tk_serverReconnectDelay := 250, tk_lastServerError := 0\<rparr>,
    ReportUdpAssociationReady (tk_ProxyInfo t) w)"
  have "R st ?st" if "tk_upstreamState t = UPSTREAM_ASSOCIATING"
  proof -
    have "R (t, w) (t\<lparr>tk_upstreamState := UPSTREAM_READY\<rparr>, w)" using that by (intro state) simp_all
    moreover have "shape ?st = shape (t\<lparr>tk_upstreamState := UPSTREAM_READY\<rparr>, w)"
      using bones_capability(3) [of "tk_ProxyInfo t" w] by (simp add: shape_def bones_def route_keys_def)
    ultimately show ?thesis unfolding st by (rule then_calm)
  qed
  then show ?thesis using trans [OF _ OnServerWritable [of ?st env], of st] calm [of st st] by (auto simp: OnServerReady_def st)
qed

lemma ForwardUpstream: "R st (snd (ForwardUpstreamDatagram env target d st))"
proof -
  obtain t w where st: "st = (t, w)" by fastforce
  obtain queued st1 where q: "QueueDatagram target d (t, w) = (queued, st1)" by (meson surj_pair)
  have s1: "shape st1 = shape st" using shape_queues(1) [of target d "(t, w)"] q st by simp
  have queue: "R st (snd (QueueDatagram target d st'))" if "R st st'" for st' using then_calm [OF that] by simp
  show ?thesis
  proof (cases "ShouldActivateUpstream (tk_upstreamState t)")
    case True
    then show ?thesis using calm [OF s1] after_calm [OF s1 Wake] by (simp add: ForwardUpstreamDatagram_def st q)
  next
    case False
    show ?thesis
    proof (cases "\<exists>s. tk_pServer t = Some s \<and> tk_upstreamState t = UPSTREAM_READY \<and> peer_open w s \<and> tk_pending t = []")
      case True
      then obtain s where s: "tk_pServer t = Some s" "tk_upstreamState t = UPSTREAM_READY" "peer_open w s" "tk_pending t = []"
        by blast
      obtain n w1 where u: "send_upstream s target d w = (n, w1)" by fastforce
      have "shape (t, w1) = shape st" using shape_bones [OF bones_send(2) [OF u]] st by simp
      then have "R st (t, w1)" "R st (ScheduleServerReconnect (uw_lastError w1) (t, w1))" "R st (t, emit e w1)" for e
        using calm after_calm [OF _ Schedule] by simp_all
      then show ?thesis using s False queue by (simp add: ForwardUpstreamDatagram_def st u)
    next
      case no: False
      then have "ForwardUpstreamDatagram env target d st = QueueDatagram target d st"
        using False by (auto simp: ForwardUpstreamDatagram_def st split: option.split)
      then show ?thesis using queue [OF calm [OF refl]] by simp
    qed
  qed
qed

lemma pump_side: "R st (pump_side env side p n st)"
proof (induction n arbitrary: st)
  case 0
  then show ?case by (simp add: calm)
next
  case (Suc n)
  show ?case
  proof (cases "\<exists>r q x xs. find_route p (fst st) = Some r \<and> rt_quic r = Some q \<and> take 65536 (ue_Peek env side q) = x # xs")
    case True
    then obtain r q x xs where r: "find_route p (fst st) = Some r" "rt_quic r = Some q" "take 65536 (ue_Peek env side q) = x # xs"
      by blast
    obtain ok st1 where f: "(if side = 1 then ForwardUpstreamDatagram env (rt_quicTarget r) (x # xs) st
        else DeliverServerDatagram env r (x # xs) st) = (ok, st1)" by (meson surj_pair)
    have k1: "R st st1"
      using f ForwardUpstream [of st env "rt_quicTarget r" "x # xs"] calm [OF shape_Deliver [of env r "x # xs" st]]
      by (cases "side = 1") simp_all
    let ?st2 = "if ue_Passthrough env q \<and> uw_tapEnabled (snd st1) then capture_data p 0 (x # xs) st1 else st1"
    define st3 where "st3 = update_route p (\<lambda>x. x\<lparr>rt_quic := map_option (ue_Consume env side) (rt_quic x)\<rparr>) ?st2"
    let ?st4 = "((fst st3)\<lparr>tk_lastActivity := uw_now (snd st3)\<rparr>, if n = 0 then emit (TriggerWrite p) (snd st3) else snd st3)"
    have "shape st3 = shape st1" by (simp add: st3_def)
    then have "shape ?st4 = shape st1" by simp
    then have "R st ?st4" by (rule then_calm [OF k1])
    then have "R st (pump_side env side p n ?st4)" using Suc.IH trans by blast
    moreover have "pump_side env side p (Suc n) st = (if \<not> ok then st1 else pump_side env side p n ?st4)"
      using r f by (simp add: st3_def Let_def case_prod_beta)
    ultimately show ?thesis using k1 by (cases ok) simp_all
  next
    case False
    then have "pump_side env side p (Suc n) st = st" by (auto split: option.splits list.splits)
    then show ?thesis by (simp add: calm)
  qed
qed

lemma PumpQuic: "R st (PumpQuic env p st)"
proof -
  have k: "R st (pump_side env 1 p 64 (pump_side env 0 p 64 st))" using pump_side trans by blast
  then show ?thesis using then_calm [OF k] by (simp add: PumpQuic_def Let_def split: option.split)
qed

lemma forward_on_route:
  assumes "forward_on_route env p target d r st = (res, st')"
  shows "R st st'"
proof -
  let ?st = "if rt_quicRetired r then update_route p (\<lambda>x. x\<lparr>rt_quicRetired := False, rt_firstDatagramLogged := False\<rparr>) st else st"
  have k: "shape ?st = shape st" by simp
  show ?thesis
  proof (cases "rt_quicRetired r \<and> (length d < 1200 \<or> \<not> fresh_initial d)")
    case live: False
    show ?thesis
    proof (cases "rt_quic r")
      case (Some q)
      obtain kept q' where f: "ue_Feed env 0 d q = (kept, q')" by fastforce
      let ?st1 = "PumpQuic env p (update_route p (\<lambda>x. x\<lparr>rt_quic := Some q'\<rparr>) ?st)"
      have k1: "R st ?st1" by (rule after_calm [OF _ PumpQuic]) simp
      moreover have "R st (snd (ForwardUpstreamDatagram env target d ?st1))" by (rule trans [OF k1 ForwardUpstream])
      moreover have "st' = (if kept then ?st1 else snd (ForwardUpstreamDatagram env target d ?st1))"
        using assms(1) live by (auto simp: forward_on_route_def Some f Let_def map_prod_def case_prod_beta split: if_splits)
      ultimately show ?thesis by (cases kept) simp_all
    next
      case None
      let ?o = "if rt_quicRetired r \<or> \<not> rt_firstDatagramLogged r then forward_first env p target d r ?st else (False, ?st)"
      have k1: "shape (snd ?o) = shape st" by simp
      have "R st (PumpQuic env p (snd ?o))" by (rule after_calm [OF k1 PumpQuic])
      moreover have "R st (capture_client p d (snd ?o))" by (rule calm) (simp only: shape_capture k1)
      moreover have "st' = (if fst ?o then PumpQuic env p (snd ?o) else capture_client p d (snd ?o))"
        using assms(1) live by (auto simp: forward_on_route_def None Let_def case_prod_beta split: if_splits)
      ultimately show ?thesis by (cases "fst ?o") simp_all
    qed
  qed (use assms(1) calm in \<open>simp add: forward_on_route_def\<close>)
qed

lemma ForwardClient: "R st (snd (ForwardClientDatagram env p target a (Some d) st))"
proof -
  obtain t w where st: "st = (t, w)" by fastforce
  let ?st1 = "update_route p (\<lambda>r. r\<lparr>rt_applicationEndpoint := a, rt_hasApplicationEndpoint := True\<rparr>) (t\<lparr>tk_lastActivity := uw_now w\<rparr>, w)"
  let ?st2 = "if has_quic p ?st1 then PumpQuic env p ?st1 else ?st1"
  have s: "shape ?st1 = shape st" by (simp add: st)
  then have k: "R st ?st2" using calm [OF s] after_calm [OF s PumpQuic] by simp
  note up = trans [OF k ForwardUpstream]
  show ?thesis
  proof (cases "find_route p (fst ?st2)")
    case None
    then show ?thesis using up by (simp add: ForwardClientDatagram_def st Let_def)
  next
    case (Some r)
    obtain res st3 where f: "forward_on_route env p target d r ?st2 = (res, st3)" by (meson surj_pair)
    have k3: "R st st3" by (rule trans [OF k forward_on_route [OF f]])
    have "snd (ForwardClientDatagram env p target a (Some d) st) =
        (case res of Some b \<Rightarrow> st3 | None \<Rightarrow> snd (ForwardUpstreamDatagram env target d st3))"
      using Some f by (simp add: ForwardClientDatagram_def st Let_def split: option.split)
    then show ?thesis using k3 trans [OF k3 ForwardUpstream] by (simp split: option.split)
  qed
qed

lemma ForwardServer: "R st (snd (ForwardServerDatagram env a (Some d) st))"
proof -
  obtain t w where st: "st = (t, w)" by fastforce
  show ?thesis
  proof (cases "select_route w a (tk_routes t)")
    case None
    then show ?thesis by (simp add: ForwardServerDatagram_def st calm)
  next
    case (Some r)
    let ?st1 = "(t\<lparr>tk_lastActivity := uw_now w\<rparr>, w)"
    have s: "shape ?st1 = shape st" by (simp add: st)
    show ?thesis
    proof (cases "rt_quic r")
      case q: (Some q)
      have "R st (PumpQuic env (rt_peer r) (update_route (rt_peer r) (\<lambda>x. x\<lparr>rt_quic := Some (snd (ue_Feed env 1 d q))\<rparr>) ?st1))"
        by (rule after_calm [OF _ PumpQuic]) (simp add: st)
      then show ?thesis using Some q by (simp add: ForwardServerDatagram_def st Let_def)
    next
      case None
      then have "shape (snd (ForwardServerDatagram env a (Some d) st)) = shape st"
        using Some by (simp add: ForwardServerDatagram_def st Let_def)
      then show ?thesis by (rule calm)
    qed
  qed
qed

lemma OnReceive: "R st (Peer_OnReceive env p e res st)"
  using ForwardClient [of st env p] ForwardServer [of st env] calm [of st st]
  by (simp add: Peer_OnReceive_def split: option.split)

lemma OnSend: "R st (Peer_OnSend env p e st)"
proof -
  have "R st (OnRouteWritable env p st)"
    using calm [OF shape_FlushReplies] after_calm [OF shape_FlushReplies PumpQuic] by (simp add: OnRouteWritable_def Let_def)
  then show ?thesis using OnServerWritable [of st env] calm [of st st] by (simp add: Peer_OnSend_def split: option.split)
qed

lemma OnClose: "p \<in> own (fst st) \<Longrightarrow> R st (Peer_OnClose p e st)"
proof -
  assume p: "p \<in> own (fst st)"
  obtain t w where st: "st = (t, w)" by fastforce
  show ?thesis
  proof (cases "tk_pServer t = Some p")
    case True
    then show ?thesis using trans [OF close_server OnPeerClosed_server] by (simp add: Peer_OnClose_def st)
  next
    case False
    then have "p \<in> rt_peer ` set (tk_routes t)" using p st by (auto simp: own_def)
    then show ?thesis using close_route False by (simp add: Peer_OnClose_def OnPeerClosed_def st)
  qed
qed

lemma OnConnect: "p \<in> own (fst st) \<Longrightarrow> R st (Peer_OnConnect env p e st)"
  using OnClose OnServerReady [of st env p] calm [of st st] by (simp add: Peer_OnConnect_def split: option.split)

theorem socket_event:
  assumes "event_peer ev = Some p" and "p \<in> own (fst st)"
  shows "R st (udp_step env ev st)"
  using assms OnReceive OnSend OnConnect OnClose by (cases ev) simp_all

end

section \<open>What a handler never changes\<close>

definition same_client :: "'q udp_state \<Rightarrow> 'q udp_state \<Rightarrow> bool" where
  "same_client a b \<longleftrightarrow> tk_PRCClient (fst b) = tk_PRCClient (fst a) \<and> tk_ProxyInfo (fst b) = tk_ProxyInfo (fst a) \<and>
     route_keys (fst b) = route_keys (fst a) \<and> uw_now (snd b) = uw_now (snd a)"

section \<open>Isolation\<close>

text \<open>
  The sockets of a task are known to the store and the upstream is not one of the routes. A
  running task has all its routes open; a task that is closed stays closed.
\<close>

definition separated :: "'q udp_state \<Rightarrow> bool" where
  "separated st \<longleftrightarrow> (\<forall>p \<in> own (fst st). p < uw_nextPeer (snd st)) \<and>
     (\<forall>s. tk_pServer (fst st) = Some s \<longrightarrow> s \<notin> rt_peer ` set (tk_routes (fst st)))"

definition routes_open :: "'q udp_state \<Rightarrow> bool" where
  "routes_open st \<longleftrightarrow> (\<forall>r \<in> set (tk_routes (fst st)). peer_open (snd st) (rt_peer r))"

definition running :: "'q udp_state \<Rightarrow> bool" where
  "running st \<longleftrightarrow> tk_upstreamState (fst st) \<noteq> UPSTREAM_CLOSING \<and> routes_open st"

definition closed_down :: "'q udp_state \<Rightarrow> bool" where
  "closed_down st \<longleftrightarrow> tk_upstreamState (fst st) = UPSTREAM_CLOSING \<and> Udp_IsClosed st"

definition isolated :: "'q udp_state \<Rightarrow> 'q udp_state \<Rightarrow> bool" where
  "isolated a b \<longleftrightarrow> (separated a \<longrightarrow> separated b \<and> uw_nextPeer (snd a) \<le> uw_nextPeer (snd b) \<and>
     own (fst b) \<subseteq> own (fst a) \<union> {uw_nextPeer (snd a)..} \<and>
     (\<forall>p < uw_nextPeer (snd a). p \<notin> own (fst a) \<longrightarrow> uw_peers (snd b) p = uw_peers (snd a) p) \<and>
     (closed_down a \<longrightarrow> closed_down b) \<and> (running a \<longrightarrow> running b \<or> closed_down b))"

lemma Udp_IsClosed_iff: "Udp_IsClosed st \<longleftrightarrow> (\<forall>p \<in> own (fst st). \<not> peer_open (snd st) p)"
  by (auto simp: Udp_IsClosed_def own_def list_ex_iff split: prod.splits option.splits)

lemma own_shape: "shape b = shape a \<Longrightarrow> own (fst b) = own (fst a) \<and> rt_peer ` set (tk_routes (fst b)) = rt_peer ` set (tk_routes (fst a))"
proof -
  assume "shape b = shape a"
  then have "snd ` set (route_keys (fst b)) = snd ` set (route_keys (fst a))" "tk_pServer (fst b) = tk_pServer (fst a)"
    by (simp_all add: shape_def)
  then show ?thesis by (simp add: route_keys_def own_def image_image)
qed

lemma routes_open_iff: "routes_open st \<longleftrightarrow> (\<forall>p \<in> rt_peer ` set (tk_routes (fst st)). peer_open (snd st) p)"
  by (simp add: routes_open_def)

lemma isolated_calm: "shape b = shape a \<Longrightarrow> isolated a b"
proof -
  assume s: "shape b = shape a"
  have "uw_peers (snd b) = uw_peers (snd a)" "uw_nextPeer (snd b) = uw_nextPeer (snd a)" "tk_pServer (fst b) = tk_pServer (fst a)"
    "tk_upstreamState (fst b) = tk_upstreamState (fst a)" using s by (simp_all add: shape_def)
  then show ?thesis using own_shape [OF s]
    by (simp add: isolated_def separated_def closed_down_def running_def routes_open_iff Udp_IsClosed_iff peer_open_def)
qed

lemma isolated_trans: "isolated a b \<Longrightarrow> isolated b c \<Longrightarrow> isolated a c"
proof (cases "separated a")
  case True
  assume "isolated a b" "isolated b c"
  with True have ab: "separated b" "uw_nextPeer (snd a) \<le> uw_nextPeer (snd b)"
      "own (fst b) \<subseteq> own (fst a) \<union> {uw_nextPeer (snd a)..}"
      "\<And>p. p < uw_nextPeer (snd a) \<Longrightarrow> p \<notin> own (fst a) \<Longrightarrow> uw_peers (snd b) p = uw_peers (snd a) p"
      "closed_down a \<Longrightarrow> closed_down b" "running a \<Longrightarrow> running b \<or> closed_down b"
    and bc: "separated c" "uw_nextPeer (snd b) \<le> uw_nextPeer (snd c)"
      "own (fst c) \<subseteq> own (fst b) \<union> {uw_nextPeer (snd b)..}"
      "\<And>p. p < uw_nextPeer (snd b) \<Longrightarrow> p \<notin> own (fst b) \<Longrightarrow> uw_peers (snd c) p = uw_peers (snd b) p"
      "closed_down b \<Longrightarrow> closed_down c" "running b \<Longrightarrow> running c \<or> closed_down c"
    by (auto simp: isolated_def)
  have "uw_peers (snd c) p = uw_peers (snd a) p" if "p < uw_nextPeer (snd a)" "p \<notin> own (fst a)" for p
  proof -
    have "p \<notin> own (fst b)" "p < uw_nextPeer (snd b)" using that ab(2,3) by auto
    then show ?thesis using ab(4) [OF that] bc(4) by simp
  qed
  moreover have "own (fst c) \<subseteq> own (fst a) \<union> {uw_nextPeer (snd a)..}" using ab(2,3) bc(3) by fastforce
  ultimately show ?thesis using ab bc by (auto simp: isolated_def)
qed (simp add: isolated_def)

lemma isolatedI:
  assumes "separated a \<Longrightarrow> separated b" "uw_nextPeer (snd a) \<le> uw_nextPeer (snd b)"
    and "own (fst b) \<subseteq> own (fst a) \<union> {uw_nextPeer (snd a)..}"
    and "\<And>p. p < uw_nextPeer (snd a) \<Longrightarrow> p \<notin> own (fst a) \<Longrightarrow> uw_peers (snd b) p = uw_peers (snd a) p"
    and "separated a \<Longrightarrow> closed_down a \<Longrightarrow> closed_down b"
    and "separated a \<Longrightarrow> running a \<Longrightarrow> running b \<or> closed_down b"
  shows "isolated a b"
  using assms by (simp add: isolated_def)

lemma peers_update [simp]:
  "uw_nextPeer (update_peer p f w) = uw_nextPeer w" "uw_nextPeer (Peer_Close p w) = uw_nextPeer w"
  "uw_nextPeer (SetPartner q p w) = uw_nextPeer w" "uw_nextPeer (delete_peer p w) = uw_nextPeer w"
  "uw_peers (Peer_Close p w) = (uw_peers w)(p := map_option (\<lambda>pe. pe\<lparr>pe_open := False\<rparr>) (uw_peers w p))"
  "uw_peers (delete_peer p w) = (uw_peers w)(p := None)"
  "peer_open (Peer_Close p w) q' = (peer_open w q' \<and> q' \<noteq> p)" "peer_open (delete_peer p w) q' = (peer_open w q' \<and> q' \<noteq> p)"
  by (auto simp: update_peer_def Peer_Close_def SetPartner_def delete_peer_def peer_open_def split: option.splits)

lemma peers_close_all [simp]:
  "uw_nextPeer (close_all ps w) = uw_nextPeer w" "uw_now (close_all ps w) = uw_now w"
  "p \<notin> set ps \<Longrightarrow> uw_peers (close_all ps w) p = uw_peers w p"
  "peer_open (close_all ps w) p = (peer_open w p \<and> p \<notin> set ps)"
proof -
  show "uw_nextPeer (close_all ps w) = uw_nextPeer w" "uw_now (close_all ps w) = uw_now w"
    by (simp_all add: close_all_def fold_field [of uw_nextPeer] fold_field [of uw_now])
  show "uw_peers (close_all ps w) p = uw_peers w p" if "p \<notin> set ps"
    using that by (induction ps arbitrary: w) (simp_all add: close_all_def)
  show "peer_open (close_all ps w) p = (peer_open w p \<and> p \<notin> set ps)"
    by (induction ps arbitrary: w) (auto simp: close_all_def)
qed

lemma CloseTask_effect:
  "own (fst (CloseTask st)) = own (fst st)" "route_keys (fst (CloseTask st)) = route_keys (fst st)"
  "tk_pServer (fst (CloseTask st)) = tk_pServer (fst st)" "tk_upstreamState (fst (CloseTask st)) = UPSTREAM_CLOSING"
  "rt_peer ` set (tk_routes (fst (CloseTask st))) = rt_peer ` set (tk_routes (fst st))"
  "tk_PRCClient (fst (CloseTask st)) = tk_PRCClient (fst st)" "tk_ProxyInfo (fst (CloseTask st)) = tk_ProxyInfo (fst st)"
  "uw_nextPeer (snd (CloseTask st)) = uw_nextPeer (snd st)" "uw_now (snd (CloseTask st)) = uw_now (snd st)"
  "p \<notin> own (fst st) \<Longrightarrow> uw_peers (snd (CloseTask st)) p = uw_peers (snd st) p"
  "peer_open (snd (CloseTask st)) q = (peer_open (snd st) q \<and> q \<notin> own (fst st))"
  by (cases st; auto simp: CloseTask_def own_def route_keys_def image_image Let_def split: option.splits)+

lemma closed_CloseTask: "closed_down (CloseTask st)"
  by (simp add: closed_down_def Udp_IsClosed_iff CloseTask_effect)

lemma isolated_close:
  assumes "own (fst a) = own (fst b)" "rt_peer ` set (tk_routes (fst a)) = rt_peer ` set (tk_routes (fst b))"
    "tk_pServer (fst a) = tk_pServer (fst b)" "uw_nextPeer (snd a) = uw_nextPeer (snd b)"
    "\<And>p. p \<notin> own (fst a) \<Longrightarrow> uw_peers (snd b) p = uw_peers (snd a) p"
  shows "isolated a (CloseTask b)"
  by (rule isolatedI) (use assms closed_CloseTask [of b] in \<open>auto simp: separated_def CloseTask_effect\<close>)

lemma fold_SetPartner [simp]:
  "uw_nextPeer (fold (SetPartner q) ps w) = uw_nextPeer w" "uw_now (fold (SetPartner q) ps w) = uw_now w"
  "peer_open (fold (SetPartner q) ps w) p = peer_open w p"
  "p \<notin> set ps \<Longrightarrow> uw_peers (fold (SetPartner q) ps w) p = uw_peers w p"
proof -
  have o: "peer_open (SetPartner q p w) x = peer_open w x" for p w x
    by (simp add: peer_open_def SetPartner_def update_peer_def split: option.split)
  show "uw_nextPeer (fold (SetPartner q) ps w) = uw_nextPeer w" "uw_now (fold (SetPartner q) ps w) = uw_now w"
    "peer_open (fold (SetPartner q) ps w) p = peer_open w p"
    using fold_field [of "\<lambda>w. peer_open w p" "SetPartner q"] o by (simp_all add: fold_field [of uw_nextPeer] fold_field [of uw_now])
  show "uw_peers (fold (SetPartner q) ps w) p = uw_peers w p" if "p \<notin> set ps"
    using that by (induction ps arbitrary: w) (simp_all add: SetPartner_def update_peer_def)
qed

lemma isolated_drop: "isolated a (drop_server a)"
proof -
  obtain t w where a: "a = (t, w)" by fastforce
  let ?w = "fold (SetPartner None) (map rt_peer (tk_routes t)) w"
  have d: "drop_server (t, w) = (t\<lparr>tk_pServer := None\<rparr>, case tk_pServer t of None \<Rightarrow> ?w | Some s \<Rightarrow> delete_peer s ?w)"
    by (simp add: drop_server_def Let_def)
  show ?thesis unfolding a d
    by (rule isolatedI) (auto simp: separated_def own_def closed_down_def running_def routes_open_def Udp_IsClosed_iff split: option.splits)
qed

lemma peers_link [simp]:
  "uw_nextPeer (fold (link_route s) ps w) = uw_nextPeer w"
  "p \<notin> set ps \<Longrightarrow> p \<noteq> s \<Longrightarrow> uw_peers (fold (link_route s) ps w) p = uw_peers w p"
proof -
  have l: "uw_nextPeer (link_route s p w) = uw_nextPeer w" for p w
    by (simp add: link_route_def Let_def)
  then show "uw_nextPeer (fold (link_route s) ps w) = uw_nextPeer w" by (simp add: fold_field [of uw_nextPeer])
  show "uw_peers (fold (link_route s) ps w) p = uw_peers w p" if "p \<notin> set ps" "p \<noteq> s"
    using that by (induction ps arbitrary: w) (simp_all add: link_route_def SetPartner_def update_peer_def Let_def)
qed

lemma create_effect:
  assumes "CreateServerPeer env (t, w) = (ok, t', w')"
  shows "uw_nextPeer w' = Suc (uw_nextPeer w) \<and> tk_routes t' = tk_routes t \<and> tk_PRCClient t' = tk_PRCClient t \<and>
    tk_ProxyInfo t' = tk_ProxyInfo t \<and> uw_now w' = uw_now w \<and>
    (if ok then tk_pServer t' = Some (uw_nextPeer w) else t' = t) \<and>
    (\<forall>p. p \<notin> rt_peer ` set (tk_routes t) \<longrightarrow> p \<noteq> uw_nextPeer w \<longrightarrow> uw_peers w' p = uw_peers w p) \<and>
    (\<forall>p. p \<noteq> uw_nextPeer w \<longrightarrow> peer_open w' p = peer_open w p)"
proof -
  obtain s w1 where n: "new_peer 2 None (SetAddrInfo env (CSAddrInfo_zero\<lparr>ci_srcAddr := GetProxyDestination (tk_PRCClient t),
      ci_dstAddr := srcAddr (tk_PRCClient t)\<rparr>)) w = (s, w1)" by fastforce
  then have w1: "s = uw_nextPeer w" "uw_nextPeer w1 = Suc (uw_nextPeer w)" "uw_now w1 = uw_now w"
      "\<And>p. p \<noteq> uw_nextPeer w \<Longrightarrow> uw_peers w1 p = uw_peers w p \<and> peer_open w1 p = peer_open w p"
    by (auto simp: new_peer_def peer_open_def)
  have u: "uw_peers (update_peer q f x) p = uw_peers x p" "peer_open (update_peer q f x) p = peer_open x p" if "p \<noteq> q" for p q f x
    using that by (simp_all add: update_peer_def peer_open_def)
  have o: "peer_open (x\<lparr>uw_connectScript := cs\<rparr>) p = peer_open x p" "peer_open (x\<lparr>uw_lastError := e\<rparr>) p = peer_open x p"
    for x cs e p by (simp_all add: peer_open_def)
  show ?thesis
  proof (cases "uw_connectScript w1")
    case Nil
    then show ?thesis using assms w1 by (auto simp: CreateServerPeer_def n Let_def o)
  next
    case (Cons x cs)
    then show ?thesis using assms w1
      by (cases x) (auto simp: CreateServerPeer_def n Let_def u o split: if_splits)
  qed
qed

lemma isolated_create:
  assumes "CreateServerPeer env a = (ok, b)" and "tk_upstreamState (fst a) \<noteq> UPSTREAM_CLOSING"
  shows "isolated a b"
proof -
  obtain t w t' w' where ab: "a = (t, w)" "b = (t', w')" by fastforce
  note e = create_effect [OF assms(1) [unfolded ab]]
  have own: "own t' \<subseteq> own t \<union> {uw_nextPeer w}" "rt_peer ` set (tk_routes t') = rt_peer ` set (tk_routes t)"
    using e by (auto simp: own_def split: if_splits)
  have other: "uw_peers w' p = uw_peers w p" if "p < uw_nextPeer w" "p \<notin> own t" for p
    using that e by (simp add: own_def)
  have new: "separated a \<Longrightarrow> p \<in> rt_peer ` set (tk_routes t) \<Longrightarrow> p < uw_nextPeer w" for p
    by (auto simp: separated_def own_def ab)
  have "p < Suc (uw_nextPeer w)" if "separated a" "p \<in> own t'" for p
    using that own(1) by (fastforce simp: separated_def ab)
  then have "separated b" if "separated a"
    using that e new [OF that] by (auto simp: separated_def ab split: if_splits)
  moreover have "routes_open b" if "separated a" "routes_open a"
  proof -
    have "peer_open w' p" if "p \<in> rt_peer ` set (tk_routes t)" for p
      using new [OF \<open>separated a\<close> that] e that \<open>routes_open a\<close> by (fastforce simp: routes_open_def ab)
    then show ?thesis using own by (simp add: routes_open_iff ab)
  qed
  moreover have "tk_upstreamState t' \<noteq> UPSTREAM_CLOSING"
    using CreateServerPeer_cases [of env t w ok b] assms by (auto simp: ab split: if_splits)
  ultimately show ?thesis
    using own e other assms(2) by (intro isolatedI) (auto simp: ab closed_down_def running_def)
qed

interpretation same: task_effect same_client
proof
  show "same_client a b" if "shape b = shape a" for a b :: "'q udp_state"
    using that by (simp add: same_client_def shape_def)
  show "same_client a b" if "CreateServerPeer env a = (ok, b)" for env ok and a b :: "'q udp_state"
    using create_effect [of env "fst a" "snd a" ok "fst b" "snd b"] that by (simp add: same_client_def route_keys_def)
  show "same_client a (drop_server a)" for a :: "'q udp_state"
    by (cases a) (simp add: same_client_def drop_server_def route_keys_def Let_def split: option.split)
  show "same_client (t, w) (t\<lparr>tk_upstreamState := s\<rparr>, w)" for s w and t :: "'q UdpTask"
    by (simp add: same_client_def route_keys_def)
qed (auto simp: same_client_def CloseTask_effect)

interpretation iso: task_effect isolated
proof
  show "isolated (t, w) (CloseTask (t, Peer_Close p w))" if "p \<in> rt_peer ` set (tk_routes t)" for p w and t :: "'q UdpTask"
    using that by (intro isolated_close) (auto simp: own_def)
  show "isolated (t, w) (t, Peer_Close p w)" if "tk_pServer t = Some p" for p w and t :: "'q UdpTask"
    using that by (intro isolatedI) (auto simp: own_def separated_def closed_down_def running_def Udp_IsClosed_iff routes_open_def)
  show "isolated (t, w) (t\<lparr>tk_upstreamState := s\<rparr>, w)"
    if "tk_upstreamState t \<noteq> UPSTREAM_CLOSING" "s \<noteq> UPSTREAM_CLOSING" for s w and t :: "'q UdpTask"
    using that by (intro isolatedI) (auto simp: own_def separated_def closed_down_def running_def routes_open_def)
qed (auto intro: isolated_calm isolated_trans isolated_close isolated_drop isolated_create)

end
