(* ===== verification/UdpMgrRuns.thy ===== *)
theory UdpMgrRuns
  imports MgrBooks UdpEffects
begin

text \<open>
  Runs of the UDP task manager. The sockets of the listed tasks are disjoint and, by the
  isolation of \<open>UdpEffects\<close>, what one task does leaves the others as they are; a listed task has
  all its routes open or is closed; and every entry of the port table belongs to a route of a
  listed task.
\<close>

section \<open>The invariant\<close>

definition entry :: "PRCClient \<Rightarrow> UDPLocalProxyAddrInfo" where
  "entry c = \<lparr>clientip = sa_GetdwIP (srcAddr c), clientport = sa_GetPort (srcAddr c), proxyport = sa_GetPort (udpAddr c)\<rparr>"

definition entries_of :: "'q UdpTask \<Rightarrow> UDPLocalProxyAddrInfo set" where
  "entries_of t = (entry \<circ> fst) ` set (route_keys t)"

definition ports_ok :: "(nat \<times> 'q UdpTask) list \<Rightarrow> (word16 \<Rightarrow> UDPLocalProxyAddrInfo) \<Rightarrow> bool" where
  "ports_ok ts ps \<longleftrightarrow> (\<forall>p. proxyport (ps p) \<noteq> 0 \<longrightarrow> proxyport (ps p) = p \<and> ps p \<in> (\<Union>x \<in> set ts. entries_of (snd x)))"

definition task_sound :: "'q udp_state \<Rightarrow> bool" where
  "task_sound st \<longleftrightarrow> separated st \<and> (running st \<or> closed_down st)"

definition apart :: "(nat \<times> 'q UdpTask) list \<Rightarrow> bool" where
  "apart ts \<longleftrightarrow> sorted_wrt (\<lambda>x y. own (snd x) \<inter> own (snd y) = {}) ts"

definition tasks_sound :: "(nat \<times> 'q UdpTask) list \<Rightarrow> UdpWorld \<Rightarrow> bool" where
  "tasks_sound ts w \<longleftrightarrow> (\<forall>x \<in> set ts. task_sound (snd x, w)) \<and> apart ts"

definition um_inv :: "(nat \<times> 'q UdpTask) list \<Rightarrow> 'q UdpMgr \<Rightarrow> bool" where
  "um_inv ts m \<longleftrightarrow> books ts (um_tasklist m) \<and> tasks_sound ts (um_world m) \<and> ports_ok ts (um_PortState m)"

section \<open>The sockets\<close>

lemma apart_split:
  "apart (ks @ (i, t) # rest) \<longleftrightarrow> apart (ks @ rest) \<and> (\<forall>x \<in> set ks \<union> set rest. own (snd x) \<inter> own t = {})"
  unfolding apart_def by (simp add: sorted_wrt_append ball_Un ball_conj_distrib Int_commute [of "own t"] conj_ac)

text \<open>A task whose sockets are untouched is as it was.\<close>

lemma frame:
  assumes "\<forall>p \<in> own t. uw_peers w' p = uw_peers w p" and "uw_nextPeer w \<le> uw_nextPeer w'"
  shows "task_sound (t, w) \<Longrightarrow> task_sound (t, w')" "Udp_IsClosed (t, w') = Udp_IsClosed (t, w)"
proof -
  have o: "\<forall>p \<in> own t. peer_open w' p = peer_open w p" using assms(1) by (simp add: peer_open_def)
  then show c: "Udp_IsClosed (t, w') = Udp_IsClosed (t, w)" by (simp add: Udp_IsClosed_iff)
  have "routes_open (t, w') = routes_open (t, w)" using o by (simp add: routes_open_def own_def)
  moreover have "separated (t, w) \<Longrightarrow> separated (t, w')" using assms(2) by (auto simp: separated_def)
  ultimately show "task_sound (t, w) \<Longrightarrow> task_sound (t, w')" using c by (auto simp: task_sound_def closed_down_def running_def)
qed

lemma bystander:
  assumes "tasks_sound (ks @ (i, t) # rest) w" and "x \<in> set ks \<union> set rest"
    and "uw_nextPeer w \<le> uw_nextPeer w'" and "\<forall>p < uw_nextPeer w. p \<notin> own t \<longrightarrow> uw_peers w' p = uw_peers w p"
  shows "task_sound (snd x, w') \<and> Udp_IsClosed (snd x, w') = Udp_IsClosed (snd x, w)"
proof -
  have x: "task_sound (snd x, w)" "own (snd x) \<inter> own t = {}"
    using assms(1,2) by (auto simp: tasks_sound_def apart_split)
  then have "\<forall>p \<in> own (snd x). uw_peers w' p = uw_peers w p"
    using assms(4) by (auto simp: task_sound_def separated_def)
  then show ?thesis using frame [of "snd x" w' w] assms(3) x(1) by simp
qed

lemma isolatedD:
  assumes "isolated (t, w) (t', w')" and "task_sound (t, w)"
  shows "task_sound (t', w')" "uw_nextPeer w \<le> uw_nextPeer w'" "\<forall>p < uw_nextPeer w. p \<notin> own t \<longrightarrow> uw_peers w' p = uw_peers w p"
    "own t' \<subseteq> own t \<union> {uw_nextPeer w..}"
  using assms by (auto simp: isolated_def task_sound_def)

lemma sound_update:
  assumes "tasks_sound (ks @ (i, t) # rest) w" and "isolated (t, w) (t', w')"
  shows "tasks_sound (ks @ (i, t') # rest) w'"
proof -
  have t: "task_sound (t, w)" using assms(1) by (simp add: tasks_sound_def)
  note I = isolatedD [OF assms(2) t]
  have "own (snd x) \<inter> own t' = {}" if "x \<in> set ks \<union> set rest" for x
  proof -
    have "own (snd x) \<inter> own t = {}" "\<forall>p \<in> own (snd x). p < uw_nextPeer w"
      using assms(1) that by (auto simp: tasks_sound_def apart_split task_sound_def separated_def)
    then show ?thesis using I(4) by force
  qed
  moreover have "task_sound (snd x, w')" if "x \<in> set ks \<union> set rest" for x
    using bystander [OF assms(1) that I(2,3)] by blast
  ultimately show ?thesis using assms(1) I(1) by (auto simp: tasks_sound_def apart_split)
qed

lemma sound_same_peers: "tasks_sound ts w \<Longrightarrow> bones w' = bones w \<Longrightarrow> tasks_sound ts w'"
  using frame(1) [of _ w' w] by (auto simp: tasks_sound_def bones_def)

lemma EndTask_peers:
  "uw_nextPeer (snd (EndTask (t, w))) = uw_nextPeer w" "p \<notin> own t \<Longrightarrow> uw_peers (snd (EndTask (t, w))) p = uw_peers w p"
proof -
  have n: "uw_nextPeer (fold delete_peer ps w) = uw_nextPeer w" for ps by (rule fold_field) simp
  have f: "p \<notin> set ps \<Longrightarrow> uw_peers (fold delete_peer ps w) p = uw_peers w p" for ps
    by (induction ps arbitrary: w) (simp_all add: delete_peer_def)
  show "uw_nextPeer (snd (EndTask (t, w))) = uw_nextPeer w" by (simp add: EndTask_def n Let_def split: option.split)
  show "p \<notin> own t \<Longrightarrow> uw_peers (snd (EndTask (t, w))) p = uw_peers w p"
    using f [of "map rt_peer (tk_routes t)"] by (auto simp: EndTask_def own_def Let_def split: option.split)
qed

lemma sound_remove:
  assumes "tasks_sound (ks @ (i, t) # rest) w"
  shows "tasks_sound (ks @ rest) (snd (EndTask (t, w)))"
  using bystander [OF assms, of _ "snd (EndTask (t, w))"] assms
  by (auto simp: tasks_sound_def apart_split EndTask_peers)

section \<open>The ports\<close>

lemma entries_of_routes: "entries_of t = (entry \<circ> rt_client) ` set (tk_routes t)"
  by (simp add: entries_of_def route_keys_def image_image)

lemma ports_zero [simp]: "proxyport PortState_zero = 0"
  by (simp add: PortState_zero_def)

lemma clear_ports:
  "um_PortState (ClearTaskPortStates t m) p =
     (if p \<in> proxyport ` entries_of t \<and> proxyport (um_PortState m p) = p then PortState_zero else um_PortState m p)"
proof -
  have port: "proxyport ` entries_of t = set (map route_port (tk_routes t))"
    by (simp add: entries_of_routes image_image entry_def route_port_def)
  have "fold (\<lambda>r ps. if proxyport (ps (route_port r)) = route_port r then ps(route_port r := PortState_zero) else ps) rs ps p =
      (if p \<in> set (map route_port rs) \<and> proxyport (ps p) = p then PortState_zero else ps p)" for rs :: "'a UdpRoute list" and ps
    by (induction rs arbitrary: ps) auto
  then show ?thesis by (simp add: ClearTaskPortStates_def port)
qed

lemma clear_fields [simp]:
  "um_tasklist (ClearTaskPortStates t m) = um_tasklist m" "um_world (ClearTaskPortStates t m) = um_world m"
  by (simp_all add: ClearTaskPortStates_def)

lemma ports_clear: "ports_ok ts (um_PortState m) \<Longrightarrow> ports_ok ts (um_PortState (ClearTaskPortStates t m))"
  by (simp add: ports_ok_def clear_ports)

lemma ports_remove:
  "ports_ok (ks @ (i, t) # rest) (um_PortState m) \<Longrightarrow> ports_ok (ks @ rest) (um_PortState (ClearTaskPortStates t m))"
  by (auto simp: ports_ok_def clear_ports) (metis imageI)

lemma ports_update:
  assumes "ports_ok (ks @ (i, t) # rest) ps" and "entries_of t \<subseteq> entries_of t'"
  shows "ports_ok (ks @ (i, t') # rest) ps"
  using assms by (auto simp: ports_ok_def)

lemma ports_register:
  assumes "ports_ok (ks @ (i, t) # rest) ps" and "entry c \<in> entries_of t'"
    and "\<forall>e \<in> entries_of t. proxyport e = sa_GetPort (udpAddr c) \<or> e \<in> entries_of t'"
  shows "ports_ok (ks @ (i, t') # rest) (ps(sa_GetPort (udpAddr c) := entry c))"
  using assms by (fastforce simp: ports_ok_def entry_def)

section \<open>Visits\<close>

lemma same_entries: "same_client (t, w) (t', w') \<Longrightarrow> entries_of t' = entries_of t"
  by (simp add: same_client_def entries_of_def)

lemma inv_update:
  assumes "um_inv (ks @ (i, t) # rest) m" and "isolated (t, um_world m) (f (t, um_world m))" and "same_client (t, um_world m) (f (t, um_world m))"
    and "um_with_task f t m = (t', m')"
  shows "um_inv (ks @ (i, t') # rest) m'"
proof -
  have f: "f (t, um_world m) = (t', um_world m')" "um_tasklist m' = um_tasklist m" "um_PortState m' = um_PortState m"
    using assms(4) by (auto simp: um_with_task_def split: prod.splits)
  then have "entries_of t \<subseteq> entries_of t'" using same_entries [of t _ t'] assms(3) by simp
  then show ?thesis
    using assms(1,2) f sound_update ports_update books_keep by (fastforce simp: um_inv_def)
qed

lemma inv_clear: "um_inv ts m \<Longrightarrow> um_inv ts (ClearTaskPortStates t m)"
  by (simp add: um_inv_def ports_clear)

lemma inv_remove: "um_inv (ks @ (i, t) # rest) m \<Longrightarrow> um_inv (ks @ rest) (Um_RemoveTask i t m)"
  using ports_remove [of ks i t rest m] books_gone [of ks i t rest "um_tasklist m"] sound_remove [of ks i t rest "um_world m"]
  by (simp add: um_inv_def Um_RemoveTask_def Let_def)

lemma inv_remove_if:
  assumes "um_inv (ks @ (i, t) # rest) m" and "um_remove_if b i (t, m) = (gone, t', m')"
  shows "um_inv (ks @ (if gone then rest else (i, t') # rest)) m'"
  using assms inv_remove by (auto simp: um_remove_if_def split: if_splits)

lemma swept_um_inv:
  assumes "\<And>ks i t rest m gone t' m'. f i t m = (gone, t', m') \<Longrightarrow> um_inv (ks @ (i, t) # rest) m \<Longrightarrow>
      um_inv (ks @ (if gone then rest else (i, t') # rest)) m'"
    and "um_inv (tl_tasklist (um_tasklist m)) m"
  shows "um_inv (tl_tasklist (um_tasklist (um_swept f m))) (um_swept f m)"
proof -
  obtain ks m' where s: "sweep f (tl_tasklist (um_tasklist m)) m = (ks, m')" by fastforce
  have "um_inv ks m'" by (rule sweep_list_inv [where f = f and I = um_inv, OF assms(1) assms(2) s])
  then show ?thesis by (simp add: um_swept_def s um_inv_def)
qed

lemmas close_visit = inv_update [where f = CloseTask, OF _ iso.close same.close]
lemmas timer_visit = inv_update [where f = "OnMaintenanceTimer env" for env, OF _ iso.OnMaintenanceTimer same.OnMaintenanceTimer]

lemma kill_visit:
  assumes "(if b then (False, um_with_task CloseTask t (ClearTaskPortStates t m)) else (False, t, m)) = (gone, t', m')"
    and "um_inv (ks @ (i, t) # rest) m"
  shows "um_inv (ks @ (if gone then rest else (i, t') # rest)) m'"
  using assms close_visit [OF inv_clear [OF assms(2), of t]] by (auto split: if_splits)

lemma close_remove_visit:
  assumes "um_remove_if True i (um_with_task CloseTask t m) = (gone, t', m')" and "um_inv (ks @ (i, t) # rest) m"
  shows "um_inv (ks @ (if gone then rest else (i, t') # rest)) m'"
proof -
  obtain t1 m1 where c: "um_with_task CloseTask t m = (t1, m1)" by fastforce
  show ?thesis using inv_remove_if [OF close_visit [OF assms(2) c]] assms(1) c by simp
qed

lemma maintenance_visit:
  assumes "um_timer_visit env i t m = (gone, t', m')" and "um_inv (ks @ (i, t) # rest) m"
  shows "um_inv (ks @ (if gone then rest else (i, t') # rest)) m'"
proof -
  obtain t1 m1 where c: "um_with_task (OnMaintenanceTimer env) t m = (t1, m1)" by fastforce
  show ?thesis using inv_remove_if [OF timer_visit [OF assms(2) c]] assms(1) c by (simp add: um_timer_visit_def)
qed

lemma process_visit:
  assumes "um_alive_visit procs i t m = (gone, t', m')" and "um_inv (ks @ (i, t) # rest) m"
  shows "um_inv (ks @ (if gone then rest else (i, t') # rest)) m'"
proof (cases "TestTaskByPid procs (tk_PRCClient t)")
  case True
  then show ?thesis using inv_remove_if [OF assms(2)] assms(1) by (simp add: um_alive_visit_def)
next
  case False
  then show ?thesis using close_remove_visit [OF _ assms(2)] assms(1) by (simp add: um_alive_visit_def)
qed

lemma socket_visit:
  assumes "(False, case event_peer ev of Some p \<Rightarrow> if p \<in> own t then um_with_task (udp_step env ev) t m else (t, m) | None \<Rightarrow> (t, m)) =
      (gone, t', m')"
    and "um_inv (ks @ (i, t) # rest) m"
  shows "um_inv (ks @ (if gone then rest else (i, t') # rest)) m'"
proof (cases "\<exists>p. event_peer ev = Some p \<and> p \<in> own t")
  case True
  then obtain p where p: "event_peer ev = Some p" "p \<in> own t" by blast
  then have "um_with_task (udp_step env ev) t m = (t', m')" "\<not> gone" using assms(1) by simp_all
  then show ?thesis
    using inv_update [where f = "udp_step env ev", OF assms(2) iso.socket_event [OF p(1)] same.socket_event [OF p(1)]] p(2) by simp
next
  case False
  then show ?thesis using assms by (auto split: option.splits)
qed

section \<open>New routes\<close>

lemma open_route_effect:
  assumes "separated (t, w)" and "running (t, w)" and "open_route env c (t, w) = (ok, c', t', w')"
  shows "isolated (t, w) (t', w') \<and> running (t', w') \<and> srcAddr c' = srcAddr c \<and>
    (if ok then \<exists>r. tk_routes t' = tk_routes t @ [r] \<and> rt_client r = c' else t' = t)"
proof -
  let ?n = "uw_nextPeer w"
  obtain p w1 where n: "new_peer (Suc 0) (tk_pServer t) (SetAddrInfo env (route_info c)) w = (p, w1)" by fastforce
  then have w1: "p = ?n" "uw_nextPeer w1 = Suc ?n" "\<And>q. q \<noteq> ?n \<Longrightarrow> uw_peers w1 q = uw_peers w q" "uw_peers w1 ?n \<noteq> None"
    by (auto simp: new_peer_def)
  have old: "q < ?n" if "q \<in> own t" for q using assms(1) that by (auto simp: separated_def)
  show ?thesis
  proof (cases "\<exists>a bs. uw_bindScript w1 = Some a # bs")
    case True
    then obtain a bs where b: "uw_bindScript w1 = Some a # bs" by blast
    define w2 where "w2 = update_peer ?n (\<lambda>pe. pe\<lparr>pe_open := True\<rparr>) (w1\<lparr>uw_bindScript := bs\<rparr>)"
    define w3 where "w3 = (case tk_pServer t of Some s \<Rightarrow> if tk_routes t = [] then SetPartner (Some ?n) s w2 else w2 | None \<Rightarrow> w2)"
    define r :: "'a UdpRoute" where "r = \<lparr>rt_client = c\<lparr>udpAddr := a\<rparr>, rt_peer = ?n, rt_applicationEndpoint = sa_Clear,
      rt_hasApplicationEndpoint = False, rt_firstDatagramLogged = False, rt_capture = False, rt_quic = None, rt_quicRetired = False,
      rt_quicTarget = CSAddrInfo_zero\<rparr>"
    have "(ok, c', t', w') = (True, c\<lparr>udpAddr := a\<rparr>, t\<lparr>tk_routes := tk_routes t @ [r],
        tk_LocalProxyUdpPort := (if tk_routes t = [] then sa_GetPort a else tk_LocalProxyUdpPort t)\<rparr>, w3)"
      using assms(3) b unfolding w3_def w2_def r_def by (auto simp: open_route_def n w1(1) Let_def)
    then have t2: "ok" "c' = c\<lparr>udpAddr := a\<rparr>" "w' = w3" "tk_routes t' = tk_routes t @ [r]" "rt_client r = c'" "rt_peer r = ?n"
        "tk_pServer t' = tk_pServer t" "tk_upstreamState t' = tk_upstreamState t"
      by (simp_all add: r_def)
    have o2: "peer_open w2 q = (q = ?n \<or> peer_open w q)" for q
      using w1 by (auto simp: w2_def peer_open_def update_peer_def)
    have o3: "peer_open w3 q = (q = ?n \<or> peer_open w q)" for q by (simp add: w3_def o2 split: option.split)
    have n3: "uw_nextPeer w3 = Suc ?n" using w1 by (simp add: w3_def w2_def split: option.split)
    have p3: "uw_peers w3 q = uw_peers w q" if "q < ?n" "q \<notin> own t" for q
    proof -
      have "uw_peers w2 q = uw_peers w q" using that w1 by (simp add: w2_def update_peer_def)
      then show ?thesis using that by (auto simp: w3_def SetPartner_def update_peer_def own_def split: option.split)
    qed
    have own: "own t' = insert ?n (own t)" using t2 by (auto simp: own_def)
    have ro: "running (t', w')" using assms(2) t2 by (auto simp: running_def routes_open_def o3)
    have "separated (t', w')"
      using assms(1) old t2 own n3 by (auto simp: separated_def own_def less_Suc_eq)
    then have "isolated (t, w) (t', w')"
      using ro n3 p3 own t2 assms(2) by (auto simp: isolated_def closed_down_def running_def)
    then show ?thesis using ro t2 by auto
  next
    case False
    then have f: "\<not> ok" "t' = t" "c' = c" "w' = delete_peer ?n (w1\<lparr>uw_bindScript := tl (uw_bindScript w1)\<rparr>)"
      using assms(3) by (auto simp: open_route_def n w1(1) Let_def split: list.splits option.splits)
    then have p: "uw_peers w' q = uw_peers w q" if "q < ?n" for q using that w1 by simp
    then have ro: "running (t, w')" using assms(2) old by (auto simp: running_def routes_open_def peer_open_def own_def)
    then have "isolated (t, w) (t', w')"
      using assms(1,2) f p w1 old ro
      by (auto simp: isolated_def separated_def closed_down_def running_def intro: less_SucI)
    then show ?thesis using f ro by simp
  qed
qed

lemma map_first_split:
  assumes "find P xs = Some x"
  shows "\<exists>as bs. xs = as @ x # bs \<and> map_first P f xs = as @ f x # bs"
  using assms
proof (induction xs)
  case (Cons a xs)
  show ?case
  proof (cases "P a")
    case True
    then show ?thesis using Cons.prems by (intro exI [of _ "[]"] exI [of _ xs]) auto
  next
    case False
    then obtain as bs where "xs = as @ x # bs" "map_first P f xs = as @ f x # bs" using Cons by auto
    then show ?thesis using False by (intro exI [of _ "a # as"] exI [of _ bs]) simp
  qed
qed simp

lemma AddRoute_effect:
  assumes "separated (t, w)" and "running (t, w)" and "AddRoute env c (t, w) = (ok, c', t', w')"
  shows "isolated (t, w) (t', w')" "running (t', w')" "srcAddr c' = srcAddr c"
    "ok \<Longrightarrow> c' \<in> rt_client ` set (tk_routes t')"
    "ok \<Longrightarrow> \<forall>e \<in> entries_of t. proxyport e = sa_GetPort (udpAddr c') \<or> e \<in> entries_of t'"
    "\<not> ok \<Longrightarrow> entries_of t \<subseteq> entries_of t'"
proof -
  have "isolated (t, w) (t', w') \<and> running (t', w') \<and> srcAddr c' = srcAddr c \<and>
    (ok \<longrightarrow> c' \<in> rt_client ` set (tk_routes t') \<and> (\<forall>e \<in> entries_of t. proxyport e = sa_GetPort (udpAddr c') \<or> e \<in> entries_of t')) \<and>
    (\<not> ok \<longrightarrow> entries_of t \<subseteq> entries_of t')"
  proof (cases "route_of (GetUdpDestination c) (tk_routes t)")
    case None
    then have "open_route env c (t, w) = (ok, c', t', w')" using assms(3) by (simp add: AddRoute_def)
    from open_route_effect [OF assms(1,2) this] show ?thesis
      by (auto simp: entries_of_routes split: if_splits)
  next
    case (Some r)
    let ?P = "\<lambda>x. IsSameDestination (GetUdpDestination (rt_client x)) (GetUdpDestination c)"
    let ?c = "c\<lparr>udpAddr := udpAddr (rt_client r)\<rparr>"
    let ?f = "\<lambda>x. x\<lparr>rt_client := ?c\<rparr>"
    obtain as bs where s: "tk_routes t = as @ r # bs" "map_first ?P ?f (tk_routes t) = as @ ?f r # bs"
      using map_first_split [of ?P "tk_routes t" r ?f] Some by (auto simp: route_of_def)
    then have "peer_open w (rt_peer r)" using assms(2) by (simp add: running_def routes_open_def)
    then have r: "ok" "c' = ?c" "t' = t\<lparr>tk_routes := as @ ?f r # bs\<rparr>" "w' = w"
      using assms(3) Some s(2) by (auto simp: AddRoute_def)
    have "own t' = own t" "rt_peer ` set (tk_routes t') = rt_peer ` set (tk_routes t)" using r(3) s(1) by (simp_all add: own_def)
    then have "isolated (t, w) (t', w')" "running (t', w')"
      using r assms(2) by (auto simp: isolated_def separated_def closed_down_def running_def Udp_IsClosed_iff routes_open_iff)
    moreover have "\<forall>e \<in> entries_of t. proxyport e = sa_GetPort (udpAddr c') \<or> e \<in> entries_of t'"
      using r s(1) by (auto simp: entries_of_routes entry_def)
    ultimately show ?thesis using r by simp
  qed
  then show "isolated (t, w) (t', w')" "running (t', w')" "srcAddr c' = srcAddr c"
    "ok \<Longrightarrow> c' \<in> rt_client ` set (tk_routes t')"
    "ok \<Longrightarrow> \<forall>e \<in> entries_of t. proxyport e = sa_GetPort (udpAddr c') \<or> e \<in> entries_of t'"
    "\<not> ok \<Longrightarrow> entries_of t \<subseteq> entries_of t'" by blast+
qed

lemma not_closed_running: "task_sound st \<Longrightarrow> \<not> Udp_IsClosed st \<Longrightarrow> running st"
  by (auto simp: task_sound_def closed_down_def)

text \<open>After a pass that removes the closed tasks among those of interest, the others are running.\<close>

lemma pass_running:
  assumes visit: "\<And>ks i t rest m gone t' m'. f i t m = (gone, t', m') \<Longrightarrow> um_inv (ks @ (i, t) # rest) m \<Longrightarrow>
      um_inv (ks @ (if gone then rest else (i, t') # rest)) m' \<and> (\<not> gone \<longrightarrow> Q t' \<longrightarrow> \<not> Udp_IsClosed (t', um_world m')) \<and>
      (\<forall>x \<in> set ks. Udp_IsClosed (snd x, um_world m') = Udp_IsClosed (snd x, um_world m))"
    and inv: "um_inv (tl_tasklist (um_tasklist m)) m"
  shows "um_inv (tl_tasklist (um_tasklist (um_swept f m))) (um_swept f m) \<and>
    (\<forall>x \<in> set (tl_tasklist (um_tasklist (um_swept f m))). Q (snd x) \<longrightarrow> running (snd x, um_world (um_swept f m)))"
proof -
  obtain ts m' where s: "sweep f (tl_tasklist (um_tasklist m)) m = (ts, m')" by fastforce
  let ?I = "\<lambda>ks rest m. um_inv (ks @ rest) m \<and> (\<forall>x \<in> set ks. Q (snd x) \<longrightarrow> \<not> Udp_IsClosed (snd x, um_world m))"
  have "?I ([] @ ts) [] m'"
  proof (rule sweep_inv [where f = f and I = ?I, OF _ _ s])
    show "?I (ks @ (if gone then [] else [(i, t')])) rest m'"
      if "f i t m = (gone, t', m')" "?I ks ((i, t) # rest) m" for ks i t rest m gone t' m'
      using visit [OF that(1)] that(2) by (cases gone) auto
  qed (simp add: inv)
  then have I: "um_inv ts m'" "\<forall>x \<in> set ts. Q (snd x) \<longrightarrow> \<not> Udp_IsClosed (snd x, um_world m')" by simp_all
  moreover have "\<forall>x \<in> set ts. task_sound (snd x, um_world m')" using I(1) by (simp add: um_inv_def tasks_sound_def)
  ultimately show ?thesis using not_closed_running by (auto simp: um_swept_def s um_inv_def)
qed

lemma removal_bystanders:
  assumes "um_inv (ks @ (i, t) # rest) m" and "x \<in> set ks"
  shows "Udp_IsClosed (snd x, um_world (Um_RemoveTask i t m)) = Udp_IsClosed (snd x, um_world m)"
  using bystander [of ks i t rest "um_world m" x "snd (EndTask (t, um_world m))"] assms
  by (simp add: um_inv_def Um_RemoveTask_def Let_def EndTask_peers)

lemma prune_closed_running:
  assumes "um_inv (tl_tasklist (um_tasklist m)) m"
  shows "um_inv (tl_tasklist (um_tasklist (prune_closed c pi m))) (prune_closed c pi m) \<and>
    (\<forall>x \<in> set (tl_tasklist (um_tasklist (prune_closed c pi m))).
       MatchesAssociation c pi (snd x) \<longrightarrow> running (snd x, um_world (prune_closed c pi m)))"
  unfolding prune_closed_def
proof (rule pass_running [OF _ assms])
  let ?b = "\<lambda>t m. MatchesAssociation c pi t \<and> Udp_IsClosed (t, um_world m)"
  show "um_inv (ks @ (if gone then rest else (i, t') # rest)) m' \<and>
      (\<not> gone \<longrightarrow> MatchesAssociation c pi t' \<longrightarrow> \<not> Udp_IsClosed (t', um_world m')) \<and>
      (\<forall>x \<in> set ks. Udp_IsClosed (snd x, um_world m') = Udp_IsClosed (snd x, um_world m))"
    if "um_remove_if (?b t m) i (t, m) = (gone, t', m')" "um_inv (ks @ (i, t) # rest) m" for ks i t rest m gone t' m'
    using inv_remove_if [OF that(2,1)] that removal_bystanders [OF that(2)] by (auto simp: um_remove_if_def split: if_splits)
qed

lemma timer_running:
  assumes "um_inv (tl_tasklist (um_tasklist m)) m"
  shows "\<forall>x \<in> set (tl_tasklist (um_tasklist (um_swept (um_timer_visit env) m))). running (snd x, um_world (um_swept (um_timer_visit env) m))"
proof -
  have "um_inv (ks @ (if gone then rest else (i, t') # rest)) m' \<and> (\<not> gone \<longrightarrow> True \<longrightarrow> \<not> Udp_IsClosed (t', um_world m')) \<and>
      (\<forall>x \<in> set ks. Udp_IsClosed (snd x, um_world m') = Udp_IsClosed (snd x, um_world m))"
    if v: "um_timer_visit env i t m = (gone, t', m')" "um_inv (ks @ (i, t) # rest) m" for ks i t rest m gone t' m'
  proof -
    obtain t1 m1 where c: "um_with_task (OnMaintenanceTimer env) t m = (t1, m1)" by fastforce
    note i1 = timer_visit [OF v(2) c]
    have r: "um_remove_if (Udp_IsClosed (t1, um_world m1)) i (t1, m1) = (gone, t', m')" using v(1) c by (simp add: um_timer_visit_def)
    have f: "OnMaintenanceTimer env (t, um_world m) = (t1, um_world m1)" using c by (auto simp: um_with_task_def split: prod.splits)
    have s: "tasks_sound (ks @ (i, t) # rest) (um_world m)" "task_sound (t, um_world m)"
      using v(2) by (simp_all add: um_inv_def tasks_sound_def)
    note I = isolatedD [OF iso.OnMaintenanceTimer [of "(t, um_world m)" env, unfolded f] s(2)]
    have "Udp_IsClosed (snd x, um_world m1) = Udp_IsClosed (snd x, um_world m)" if "x \<in> set ks" for x
      using bystander [OF s(1) _ I(2,3)] that by blast
    moreover have "Udp_IsClosed (snd x, um_world m') = Udp_IsClosed (snd x, um_world m1)" if "x \<in> set ks" for x
      using removal_bystanders [OF i1 that] r by (auto simp: um_remove_if_def split: if_splits)
    ultimately show ?thesis
      using inv_remove_if [OF i1 r] r by (auto simp: um_remove_if_def split: if_splits)
  qed
  from pass_running [where f = "um_timer_visit env" and Q = "\<lambda>_. True", OF this assms] show ?thesis by simp
qed

lemma route_on_Some:
  "route_on env P c ts w = Some (ok, c', ts', w') \<Longrightarrow>
   \<exists>ks i t rest t'. ts = ks @ (i, t) # rest \<and> P t \<and> AddRoute env c (t, w) = (ok, c', t', w') \<and> ts' = ks @ (i, t') # rest"
proof (induction env P c ts w arbitrary: ts' rule: route_on.induct)
  case (2 env P c i t ts w)
  show ?case
  proof (cases "P t")
    case True
    then show ?thesis using "2.prems" by (intro exI [of _ "[]"]) (auto split: prod.splits)
  next
    case False
    then obtain ts1 where "route_on env P c ts w = Some (ok, c', ts1, w')" "ts' = (i, t) # ts1" using "2.prems" by auto
    then obtain ks j u rest u' where "ts = ks @ (j, u) # rest \<and> P u \<and> AddRoute env c (u, w) = (ok, c', u', w') \<and> ts1 = ks @ (j, u') # rest"
      using "2.IH" [OF False] by blast
    then show ?thesis using \<open>ts' = (i, t) # ts1\<close> by (intro exI [of _ "(i, t) # ks"]) auto
  qed
qed simp

text \<open>What a successful registration promises: an open route of a listed task, and its entry in the table.\<close>

definition registered :: "PRCClient \<Rightarrow> 'q UdpMgr \<Rightarrow> bool" where
  "registered c m \<longleftrightarrow> um_PortState m (sa_GetPort (udpAddr c)) = entry c \<and>
     (\<exists>x \<in> set (tl_tasklist (um_tasklist m)). c \<in> rt_client ` set (tk_routes (snd x)) \<and> running (snd x, um_world m))"

lemma Register_eq: "RegisterRoutePort c m = m\<lparr>um_PortState := (um_PortState m)(sa_GetPort (udpAddr c) := entry c)\<rparr>"
  by (simp add: RegisterRoutePort_def entry_def Let_def)

lemma placed_effect:
  assumes inv: "um_inv (tl_tasklist (um_tasklist m)) m" and run: "\<And>x. x \<in> set (tl_tasklist (um_tasklist m)) \<Longrightarrow> P (snd x) \<Longrightarrow> running (snd x, um_world m)"
    and r: "route_on env P c (tl_tasklist (um_tasklist m)) (um_world m) = Some (ok, c', ts', w')"
    and m': "m' = (let m1 = m\<lparr>um_tasklist := (um_tasklist m)\<lparr>tl_tasklist := ts'\<rparr>, um_world := w'\<rparr> in if ok then RegisterRoutePort c' m1 else m1)"
  shows "um_inv (tl_tasklist (um_tasklist m')) m' \<and> (ok \<longrightarrow> srcAddr c' = srcAddr c \<and> registered c' m')"
proof -
  obtain ks i t rest t' where k: "tl_tasklist (um_tasklist m) = ks @ (i, t) # rest" "P t" "AddRoute env c (t, um_world m) = (ok, c', t', w')"
      "ts' = ks @ (i, t') # rest"
    using route_on_Some [OF r] by blast
  have t: "running (t, um_world m)" "tasks_sound (ks @ (i, t) # rest) (um_world m)" "separated (t, um_world m)"
    using run [of "(i, t)"] k(1,2) inv by (auto simp: um_inv_def tasks_sound_def task_sound_def)
  note A = AddRoute_effect [OF t(3,1) k(3)]
  have s: "tasks_sound ts' w'" using sound_update [OF t(2) A(1)] k(4) by simp
  have b: "books ts' (um_tasklist m)" using inv books_keep k(1,4) by (auto simp: um_inv_def)
  have p: "ports_ok (ks @ (i, t) # rest) (um_PortState m)" using inv k(1) by (simp add: um_inv_def)
  show ?thesis
  proof (cases ok)
    case True
    have "entry c' \<in> entries_of t'" using A(4) True by (auto simp: entries_of_routes)
    then have "ports_ok ts' ((um_PortState m)(sa_GetPort (udpAddr c') := entry c'))"
      using ports_register [OF p] A(5) True k(4) by simp
    then show ?thesis using True s b A(2,3,4) m' k(4) by (simp add: Register_eq um_inv_def registered_def)
  next
    case False
    then show ?thesis using s b ports_update [OF p A(6)] k(4) m' by (simp add: um_inv_def)
  qed
qed

lemma UdpTask_new_fields [simp]: "tk_routes (UdpTask_new n) = []" "tk_pServer (UdpTask_new n) = None"
  "tk_upstreamState (UdpTask_new n) = UPSTREAM_ROUTE_RESERVED"
  by (simp_all add: UdpTask_new_def)

lemma fresh_task: "separated (UdpTask_new now\<lparr>tk_PRCClient := c, tk_ProxyInfo := pi\<rparr>, w)"
  "running (UdpTask_new now\<lparr>tk_PRCClient := c, tk_ProxyInfo := pi\<rparr>, w)" "own (UdpTask_new now\<lparr>tk_PRCClient := c, tk_ProxyInfo := pi\<rparr>) = {}"
  by (simp_all add: separated_def running_def routes_open_def own_def)

lemma AddRoute_fresh:
  assumes "AddRoute env c (t, w) = (ok, c', t', w')" and "tk_routes t = []"
  shows "tk_pServer t' = tk_pServer t \<and> (\<not> ok \<longrightarrow> t' = t)"
proof -
  have "open_route env c (t, w) = (ok, c', t', w')" using assms by (simp add: AddRoute_def route_of_def)
  then show ?thesis by (auto simp: open_route_def Let_def split: prod.splits list.splits option.splits)
qed

lemma create_task_effect:
  assumes inv: "um_inv (tl_tasklist (um_tasklist m)) m" and c: "create_task env c pi m = (ok, c', m')"
  shows "um_inv (tl_tasklist (um_tasklist m')) m' \<and> (ok \<longrightarrow> srcAddr c' = srcAddr c \<and> registered c' m')"
proof -
  let ?w = "um_world m" and ?ts = "tl_tasklist (um_tasklist m)"
  let ?t0 = "UdpTask_new (uw_now ?w)\<lparr>tk_PRCClient := c, tk_ProxyInfo := pi\<rparr>"
  obtain ok1 c1 t1 w1 where a: "AddRoute env c (?t0, ?w) = (ok1, c1, t1, w1)" using prod_cases4 by blast
  have sep: "separated (?t0 :: 'a UdpTask, ?w)" by (rule fresh_task(1))
  note A = AddRoute_effect [OF fresh_task(1,2) a]
  note F = AddRoute_fresh [OF a]
  have iso: "uw_nextPeer ?w \<le> uw_nextPeer w1" "own t1 \<subseteq> {uw_nextPeer ?w..}" "\<forall>p < uw_nextPeer ?w. uw_peers w1 p = uw_peers ?w p" "separated (t1, w1)"
    using A(1) sep unfolding isolated_def fst_conv snd_conv fresh_task(3) by simp_all
  have others: "task_sound (snd x, w1)" "own (snd x) \<inter> own t1 = {}" if "x \<in> set ?ts" for x
  proof -
    have x: "task_sound (snd x, ?w)" using inv that by (simp add: um_inv_def tasks_sound_def)
    then have "\<forall>p \<in> own (snd x). p < uw_nextPeer ?w" by (auto simp: task_sound_def separated_def)
    then show "task_sound (snd x, w1)" "own (snd x) \<inter> own t1 = {}"
      using frame(1) [of "snd x" w1 ?w] iso x by force+
  qed
  show ?thesis
  proof (cases ok1)
    case True
    let ?t = "t1\<lparr>tk_upstreamState := UPSTREAM_ROUTE_RESERVED\<rparr>"
    have m': "ok" "c' = c1" "m' = (RegisterRoutePort c1 (m\<lparr>um_world := w1\<rparr>))\<lparr>um_tasklist := add_task c1 pi ?t (um_tasklist m)\<rparr>"
      using c True by (auto simp: create_task_def SetTaskInfo_def a Let_def Register_eq)
    have o: "own ?t = own t1" "entries_of ?t = entries_of t1" by (simp_all add: own_def entries_of_routes)
    have run: "running (?t, w1)" using A(2) by (simp add: running_def routes_open_def)
    have "task_sound (?t, w1)" using run iso(4) by (simp add: task_sound_def separated_def own_def)
    then have "tasks_sound (?ts @ [(tl_next (um_tasklist m), ?t)]) w1"
      using others inv apart_split [of ?ts _ ?t "[]"] o by (auto simp: tasks_sound_def um_inv_def)
    moreover have "entry c1 \<in> entries_of ?t" using A(4) True by (auto simp: entries_of_routes)
    then have "ports_ok (?ts @ [(tl_next (um_tasklist m), ?t)]) ((um_PortState m)(sa_GetPort (udpAddr c1) := entry c1))"
      using inv by (auto simp: um_inv_def ports_ok_def entry_def)
    ultimately show ?thesis
      using m' run A(3,4) True inv books_add [of "um_tasklist m" ?t c1 pi]
      by (simp add: um_inv_def registered_def Register_eq add_task_def)
  next
    case False
    then have t1: "t1 = ?t0" using F by simp
    have "\<not> ok" "m' = m\<lparr>um_world := snd (EndTask (t1\<lparr>tk_pServer := None\<rparr>, w1))\<rparr>"
      using c False t1 by (auto simp: create_task_def SetTaskInfo_def a Let_def)
    moreover have "snd (EndTask (t1\<lparr>tk_pServer := None\<rparr>, w1)) = w1" using t1 by (simp add: EndTask_def)
    ultimately show ?thesis using inv others by (simp add: um_inv_def tasks_sound_def)
  qed
qed

lemma CanStart_bones: "CanStartUdpAssociation pi w = (can, w') \<Longrightarrow> bones w' = bones w"
proof -
  assume c: "CanStartUdpAssociation pi w = (can, w')"
  have "bones (EnsureUdpCapabilityProfile pi w) = bones w" by simp
  then show ?thesis using c
    by (auto simp: CanStartUdpAssociation_def Let_def bones_def split: option.splits if_splits prod.splits bool.splits)
qed

lemma OnNewTask_effect:
  assumes inv: "um_inv (tl_tasklist (um_tasklist m)) m" and n: "Um_OnNewTask env c pi m = (ok, c', m')"
  shows "um_inv (tl_tasklist (um_tasklist m')) m' \<and> (ok \<longrightarrow> srcAddr c' = srcAddr c \<and> registered c' m')"
proof -
  obtain can w where w: "CanStartUdpAssociation (Some pi) (um_world m) = (can, w)" by fastforce
  define m1 where "m1 = prune_closed c pi (m\<lparr>um_world := w\<rparr>)"
  have inv0: "um_inv (tl_tasklist (um_tasklist m)) (m\<lparr>um_world := w\<rparr>)"
    using inv sound_same_peers [of "tl_tasklist (um_tasklist m)" "um_world m" w] CanStart_bones [OF w] by (simp add: um_inv_def)
  then have inv1: "um_inv (tl_tasklist (um_tasklist m1)) m1"
    and run1: "\<And>x. x \<in> set (tl_tasklist (um_tasklist m1)) \<Longrightarrow> MatchesAssociation c pi (snd x) \<Longrightarrow> running (snd x, um_world m1)"
    using prune_closed_running [of "m\<lparr>um_world := w\<rparr>" c pi] by (simp_all add: m1_def)
  let ?attempt = "\<lambda>P. route_on env (\<lambda>t. MatchesAssociation c pi t \<and> P t) c (tl_tasklist (um_tasklist m1)) (um_world m1)"
  have placed: ?thesis if "?attempt P = Some (ok1, c1, ts, w1)"
      "(ok, c', m') = (let m = m1\<lparr>um_tasklist := (um_tasklist m1)\<lparr>tl_tasklist := ts\<rparr>, um_world := w1\<rparr>
          in if ok1 then (True, c1, RegisterRoutePort c1 m) else (False, c1, m))" for P ok1 c1 ts w1
    using placed_effect [OF inv1 _ that(1) refl] run1 that(2) by (auto simp: Let_def split: if_splits)
  show ?thesis
  proof (cases can)
    case False
    then show ?thesis using n w inv0 by (auto simp: Um_OnNewTask_def)
  next
    case True
    show ?thesis
    proof (cases "?attempt (HasRoute c)")
      case (Some res)
      obtain ok1 c1 ts w1 where r: "res = (ok1, c1, ts, w1)" using prod_cases4 by blast
      show ?thesis using Some placed [of "HasRoute c" ok1 c1 ts w1] n w True r by (simp add: Um_OnNewTask_def flip: m1_def)
    next
      case None
      show ?thesis
      proof (cases "?attempt (CanAcceptRoute c)")
        case (Some res)
        obtain ok1 c1 ts w1 where r: "res = (ok1, c1, ts, w1)" using prod_cases4 by blast
        show ?thesis using Some None placed [of "CanAcceptRoute c" ok1 c1 ts w1] n w True r by (simp add: Um_OnNewTask_def flip: m1_def)
      next
        case no: None
        have "create_task env c pi m1 = (ok, c', m')" using None no n w True by (simp add: Um_OnNewTask_def flip: m1_def)
        then show ?thesis by (rule create_task_effect [OF inv1])
      qed
    qed
  qed
qed

section \<open>Runs\<close>

lemma um_inv_list: "um_inv ts (m\<lparr>um_tasklist := l\<rparr>) = (books ts l \<and> tasks_sound ts (um_world m) \<and> ports_ok ts (um_PortState m))"
  by (simp add: um_inv_def)

lemma remove_all_inv:
  assumes "um_inv (tl_tasklist (um_tasklist m)) m"
  shows "um_inv (tl_tasklist (um_tasklist (Um_RemoveAllTasks m))) (Um_RemoveAllTasks m)"
proof -
  let ?m = "um_swept (\<lambda>i t m. um_remove_if True i (um_with_task CloseTask t m)) m"
  have i: "um_inv (tl_tasklist (um_tasklist ?m)) ?m" by (rule swept_um_inv [OF close_remove_visit assms])
  have e: "tl_tasklist (um_tasklist ?m) = []"
    using sweep_all_gone [of "tl_tasklist (um_tasklist m)" "\<lambda>i t m. um_remove_if True i (um_with_task CloseTask t m)" m]
    by (simp add: um_swept_def um_remove_if_def case_prod_beta)
  show ?thesis using i e by (simp add: Um_RemoveAllTasks_def Let_def um_inv_def books_def tasks_sound_def apart_def ports_ok_def)
qed

lemma um_step_inv:
  assumes inv: "um_inv (tl_tasklist (um_tasklist m)) m"
  shows "um_inv (tl_tasklist (um_tasklist (udp_mgr_step env i m))) (udp_mgr_step env i m)"
proof (cases i)
  case (UmNew c pi)
  then show ?thesis using OnNewTask_effect [OF inv, of env c pi] by (cases "Um_OnNewTask env c pi m") auto
next
  case (UmDelete j)
  show ?thesis
  proof (cases "map_of (tl_tasklist (um_tasklist m)) j")
    case (Some t)
    have "distinct (map fst (tl_tasklist (um_tasklist m)))" using inv books_ids(1) by (auto simp: um_inv_def)
    with Some obtain ks rest where k: "tl_tasklist (um_tasklist m) = ks @ (j, t) # rest" "filter (\<lambda>(i, _). i \<noteq> j) (tl_tasklist (um_tasklist m)) = ks @ rest"
      by (rule map_of_split)
    have "um_inv (ks @ rest) (Um_RemoveTask j t m)" using inv inv_remove k(1) by simp
    then show ?thesis using Some k(2)
      by (auto simp: UmDelete Um_OnDeleteTask_def Um_RemoveTask_def ClearTaskPortStates_def um_inv_def books_def OnDelTask_def kill_timers_if_empty_def Let_def)
  qed (use inv in \<open>simp add: UmDelete Um_OnDeleteTask_def\<close>)
next
  case (UmKill c)
  show ?thesis unfolding UmKill udp_mgr_step.simps KillTasks_def snd_conv by (rule swept_um_inv [OF kill_visit inv])
next
  case UmRemoveAll
  then show ?thesis using remove_all_inv [OF inv] by simp
next
  case (UmTimer ev procs)
  have "um_inv (tl_tasklist (um_tasklist (um_swept (um_timer_visit env) m))) (um_swept (um_timer_visit env) m)"
    by (rule swept_um_inv [OF maintenance_visit inv])
  moreover have "um_inv (tl_tasklist (um_tasklist (um_swept (um_alive_visit procs) m))) (um_swept (um_alive_visit procs) m)"
    by (rule swept_um_inv [OF process_visit inv])
  ultimately show ?thesis
    by (cases ev) (auto simp: UmTimer Um_OnTimer_def Let_def um_inv_def kill_timers_if_empty_def books_def)
next
  case (UmSocket ev)
  show ?thesis unfolding UmSocket udp_mgr_step.simps by (rule swept_um_inv [OF socket_visit inv])
next
  case (UmEnvironment now sends binds connects on)
  have "tasks_sound (tl_tasklist (um_tasklist m)) ((um_world m)\<lparr>uw_now := now, uw_sendtoScript := sends, uw_bindScript := binds,
        uw_connectScript := connects, uw_tapEnabled := on\<rparr>)"
    using inv frame(1) [of _ "(um_world m)\<lparr>uw_now := now, uw_sendtoScript := sends, uw_bindScript := binds,
        uw_connectScript := connects, uw_tapEnabled := on\<rparr>" "um_world m"] by (auto simp: um_inv_def tasks_sound_def)
  then show ?thesis using inv by (simp add: UmEnvironment um_inv_def)
qed

lemma um_run_inv:
  "um_inv (tl_tasklist (um_tasklist (udp_mgr_run env is (UdpMgr_new w)))) (udp_mgr_run env is (UdpMgr_new w))"
proof -
  have "um_inv (tl_tasklist (um_tasklist m)) m \<Longrightarrow> um_inv (tl_tasklist (um_tasklist (udp_mgr_run env is m))) (udp_mgr_run env is m)" for m
    unfolding udp_mgr_run_def by (induction "is" arbitrary: m) (simp_all add: um_step_inv del: udp_mgr_step.simps)
  moreover have "um_inv (tl_tasklist (um_tasklist (UdpMgr_new w :: 'a UdpMgr))) (UdpMgr_new w)"
    using books_new by (simp add: UdpMgr_new_def um_inv_def TaskList_new_def tasks_sound_def apart_def ports_ok_def)
  ultimately show ?thesis by blast
qed

section \<open>Properties\<close>

text \<open>
  C20. The port table is sound: after every run of the UDP manager, when the table answers that
  a proxy port belongs to a client, a listed task has a route that is bound to this port and was
  registered for this client.
\<close>

theorem udp_ports_sound:
  assumes "GetUDPPortState q (udp_mgr_run env is (UdpMgr_new w))"
  shows "\<exists>(i, t) \<in> set (tl_tasklist (um_tasklist (udp_mgr_run env is (UdpMgr_new w)))). \<exists>r \<in> set (tk_routes t).
    route_port r = proxyport q \<and> sa_GetdwIP (srcAddr (rt_client r)) = clientip q \<and> sa_GetPort (srcAddr (rt_client r)) = clientport q"
proof -
  let ?m = "udp_mgr_run env is (UdpMgr_new w)"
  have "ports_ok (tl_tasklist (um_tasklist ?m)) (um_PortState ?m)" using um_run_inv [of env "is" w] by (simp add: um_inv_def)
  then have "um_PortState ?m (proxyport q) \<in> (\<Union>x \<in> set (tl_tasklist (um_tasklist ?m)). entries_of (snd x))"
      "proxyport (um_PortState ?m (proxyport q)) = proxyport q"
    using assms by (auto simp: GetUDPPortState_def ports_ok_def Let_def)
  then obtain x r where "x \<in> set (tl_tasklist (um_tasklist ?m))" "r \<in> set (tk_routes (snd x))"
      "um_PortState ?m (proxyport q) = entry (rt_client r)" "proxyport (entry (rt_client r)) = proxyport q"
    by (auto simp: entries_of_routes)
  then show ?thesis using assms
    by (intro bexI [of _ x]) (auto simp: GetUDPPortState_def entry_def route_port_def Let_def)
qed

text \<open>
  C23. A registration that succeeds is usable: in every run, when \<open>OnNewTask\<close> succeeds, the
  returned address is that of an open route of a listed task for this client, and the port
  table answers for it (unless the system bound port 0).
\<close>

theorem udp_registration_usable:
  assumes "Um_OnNewTask env c pi (udp_mgr_run env is (UdpMgr_new w)) = (True, c', m')" and "sa_GetPort (udpAddr c') \<noteq> 0"
  shows "srcAddr c' = srcAddr c \<and>
    GetUDPPortState \<lparr>clientip = sa_GetdwIP (srcAddr c), clientport = sa_GetPort (srcAddr c), proxyport = sa_GetPort (udpAddr c')\<rparr> m' \<and>
    (\<exists>(i, t) \<in> set (tl_tasklist (um_tasklist m')). \<exists>r \<in> set (tk_routes t). rt_client r = c' \<and> peer_open (um_world m') (rt_peer r))"
proof -
  from OnNewTask_effect [OF um_run_inv assms(1)] have r: "srcAddr c' = srcAddr c" "registered c' m'" by simp_all
  then obtain x where "x \<in> set (tl_tasklist (um_tasklist m'))" "c' \<in> rt_client ` set (tk_routes (snd x))" "running (snd x, um_world m')"
    by (auto simp: registered_def)
  then have "\<exists>(i, t) \<in> set (tl_tasklist (um_tasklist m')). \<exists>r \<in> set (tk_routes t). rt_client r = c' \<and> peer_open (um_world m') (rt_peer r)"
    by (intro bexI [of _ x]) (auto simp: running_def routes_open_def)
  moreover have "GetUDPPortState \<lparr>clientip = sa_GetdwIP (srcAddr c), clientport = sa_GetPort (srcAddr c), proxyport = sa_GetPort (udpAddr c')\<rparr> m'"
    using r assms(2) by (simp add: GetUDPPortState_def registered_def entry_def Let_def)
  ultimately show ?thesis using r(1) by blast
qed

text \<open>
  The timer leaves only running tasks, and tasks do not share sockets: when the maintenance
  timer ran last, every route of every listed task is open, and the sockets of different tasks
  are disjoint.
\<close>

theorem udp_timer_leaves_open_routes:
  "let m = udp_mgr_run env (is @ [UmTimer TIMER_TCPPERTASK procs]) (UdpMgr_new w) in
     list_all (\<lambda>(i, t). list_all (\<lambda>r. peer_open (um_world m) (rt_peer r)) (tk_routes t)) (tl_tasklist (um_tasklist m)) \<and>
     sorted_wrt (\<lambda>x y. own (snd x) \<inter> own (snd y) = {}) (tl_tasklist (um_tasklist m))"
proof -
  let ?before = "udp_mgr_run env is (UdpMgr_new w)" and ?m = "udp_mgr_run env (is @ [UmTimer TIMER_TCPPERTASK procs]) (UdpMgr_new w)"
  have m: "?m = (let m = um_swept (um_timer_visit env) ?before in m\<lparr>um_tasklist := kill_timers_if_empty (um_tasklist m)\<rparr>)"
    by (simp add: udp_mgr_run_def Um_OnTimer_def)
  have "\<forall>x \<in> set (tl_tasklist (um_tasklist ?m)). running (snd x, um_world ?m)"
    using timer_running [OF um_run_inv, of env env "is" w] unfolding m by (simp add: Let_def kill_timers_if_empty_def)
  then have "list_all (\<lambda>(i, t). list_all (\<lambda>r. peer_open (um_world ?m) (rt_peer r)) (tk_routes t)) (tl_tasklist (um_tasklist ?m))"
    by (auto simp: list_all_iff running_def routes_open_def)
  moreover have "apart (tl_tasklist (um_tasklist ?m))"
    using um_run_inv [of env "is @ [UmTimer TIMER_TCPPERTASK procs]" w] by (simp add: um_inv_def tasks_sound_def)
  ultimately show ?thesis by (simp add: Let_def apart_def)
qed

text \<open>
  The books of the UDP manager balance: after every run the tasks that were announced are,
  each once, those that were reported deleted and those still in the list, and the timers run
  while there is a task.
\<close>

theorem udp_tasks_reported_once:
  "let l = um_tasklist (udp_mgr_run env is (UdpMgr_new w)) in
     distinct (map fst (tl_deleted l) @ map fst (tl_tasklist l)) \<and>
     set (map fst (tl_added l)) = set (map fst (tl_deleted l) @ map fst (tl_tasklist l)) \<and>
     (tl_timers l \<or> tl_tasklist l = [])"
proof -
  have b: "books (tl_tasklist l) l" if "l = um_tasklist (udp_mgr_run env is (UdpMgr_new w))" for l
    using um_run_inv [of env "is" w] that by (simp add: um_inv_def)
  show ?thesis unfolding Let_def using books_ids [OF b [OF refl]] b [OF refl] by (auto simp: books_def)
qed

section \<open>Stale tasks and reused ports\<close>

lemma sweep_cleared:
  assumes "\<And>i t m gone t' m'. f i t m = (gone, t', m') \<Longrightarrow> proxyport (um_PortState m p) = 0 \<Longrightarrow> proxyport (um_PortState m' p) = 0"
    and "proxyport (um_PortState m p) = 0"
  shows "proxyport (um_PortState (snd (sweep f ts m)) p) = 0"
  using assms(2)
proof (induction ts arbitrary: m)
  case (Cons a ts)
  obtain i t where a: "a = (i, t)" by fastforce
  obtain gone t' m1 where f: "f i t m = (gone, t', m1)" using prod_cases3 by blast
  show ?case using Cons.IH [OF assms(1) [OF f Cons.prems]] by (simp add: a f case_prod_beta)
qed simp

lemma clear_keeps_cleared: "proxyport (um_PortState m p) = 0 \<Longrightarrow> proxyport (um_PortState (ClearTaskPortStates t m) p) = 0"
  by (simp add: clear_ports)

lemma timer_visit_cleared:
  assumes "um_timer_visit env i t m = (gone, t', m')" and "proxyport (um_PortState m p) = 0"
  shows "proxyport (um_PortState m' p) = 0"
  using assms clear_keeps_cleared [of "m\<lparr>um_world := w\<rparr>" p for w]
  by (auto simp: um_timer_visit_def um_with_task_def um_remove_if_def Um_RemoveTask_def Let_def split: prod.splits if_splits)

text \<open>
  A stale task takes the port of a live one with it: a task that was closed stays in the
  list until the next timer; when the system meanwhile gave one of its ports to a new route,
  whose registration the table holds, the timer clears this registration, although the new task
  is running.
\<close>

theorem stale_task_clears_reused_port:
  assumes "m = udp_mgr_run env is (UdpMgr_new w)" and "tl_tasklist (um_tasklist m) = (i, t) # rest" and "closed_down (t, um_world m)"
    and "r \<in> set (tk_routes t)" and "route_port r = proxyport q"
  shows "\<not> GetUDPPortState q (udp_mgr_step env (UmTimer TIMER_TCPPERTASK procs) m)"
proof -
  have "um_with_task (OnMaintenanceTimer env) t m = (t, m)"
    using assms(3) by (simp add: um_with_task_def OnMaintenanceTimer_def closed_down_def)
  then have v: "um_timer_visit env i t m = (True, t, Um_RemoveTask i t m)"
    using assms(3) by (simp add: um_timer_visit_def um_remove_if_def closed_down_def)
  have "route_port r \<in> proxyport ` entries_of t" using assms(4) by (force simp: entries_of_routes entry_def route_port_def)
  moreover have "proxyport (um_PortState m (proxyport q)) = 0 \<or> proxyport (um_PortState m (proxyport q)) = proxyport q"
    using um_run_inv [of env "is" w] assms(1) by (auto simp: um_inv_def ports_ok_def)
  ultimately have c: "proxyport (um_PortState (Um_RemoveTask i t m) (proxyport q)) = 0"
    using assms(5) by (auto simp: Um_RemoveTask_def Let_def clear_ports)
  have "proxyport (um_PortState (snd (sweep (um_timer_visit env) rest (Um_RemoveTask i t m))) (proxyport q)) = 0"
    by (rule sweep_cleared [OF timer_visit_cleared c])
  then show ?thesis
    by (simp add: Um_OnTimer_def um_swept_def assms(2) v GetUDPPortState_def Let_def case_prod_beta)
qed

definition route_address :: sockaddr where
  "route_address = sa_Clear\<lparr>sa_family := AF_INET, sin_port := 5\<rparr>"

definition reuse_world :: UdpWorld where
  "reuse_world = world_fresh\<lparr>uw_bindScript := [Some route_address, Some route_address],
     uw_udpCapabilityKey := capability_key (Some ProxyInfo_zero)\<rparr>"

definition reuse_inputs :: "udp_mgr_input list" where
  "reuse_inputs = [UmNew (dns_client\<lparr>c_s := 1\<rparr>) ProxyInfo_zero, UmKill (dns_client\<lparr>c_s := 1\<rparr>),
     UmNew (dns_client\<lparr>c_s := 2\<rparr>) ProxyInfo_zero]"

lemma zero_profile_type: "GetProxyType ProxyInfo_zero = PROXYTYPE_NOPROXY"
  by code_simp

lemmas reuse_defs = udp_mgr_run_def reuse_inputs_def UdpMgr_new_def TaskList_new_def Um_OnNewTask_def CanStartUdpAssociation_def
  EnsureUdpCapabilityProfile_def zero_profile_type prune_closed_def um_swept_def create_task_def SetTaskInfo_def AddRoute_def
  open_route_def new_peer_def route_of_def reuse_world_def world_fresh_def RegisterRoutePort_def add_task_def um_remove_if_def
  MatchesAssociation_def KillTasks_def same_socket_def um_with_task_def CloseTask_def ClearTaskPortStates_def UdpTask_new_def
  close_all_def Peer_Close_def update_peer_def Udp_IsClosed_def peer_open_def dns_client_def PRCClient_zero_def

lemma reuse_run:
  assumes "m = udp_mgr_run env_noquic reuse_inputs (UdpMgr_new reuse_world)"
  obtains t u r where "tl_tasklist (um_tasklist m) = [(0, t), (1, u)]" "closed_down (t, um_world m)" "running (u, um_world m)"
    "tk_routes t = [r]" "route_port r = sa_GetPort route_address"
    "um_PortState m (sa_GetPort route_address) = entry (dns_client\<lparr>c_s := 2, udpAddr := route_address\<rparr>)"
proof -
  have "\<exists>t u r. tl_tasklist (um_tasklist m) = [(0, t), (1, u)] \<and> closed_down (t, um_world m) \<and> running (u, um_world m) \<and>
    tk_routes t = [r] \<and> route_port r = sa_GetPort route_address \<and>
    um_PortState m (sa_GetPort route_address) = entry (dns_client\<lparr>c_s := 2, udpAddr := route_address\<rparr>)"
    unfolding assms by (simp add: reuse_defs Let_def closed_down_def running_def routes_open_def route_port_def entry_def)
  then show ?thesis using that by blast
qed

definition reused :: UDPLocalProxyAddrInfo where
  "reused = entry (dns_client\<lparr>c_s := 2, udpAddr := route_address\<rparr>)"

lemma reused_port: "proxyport reused = sa_GetPort route_address" "sa_GetPort route_address \<noteq> 0"
proof -
  show "proxyport reused = sa_GetPort route_address" by (simp add: reused_def entry_def)
  show "sa_GetPort route_address \<noteq> 0" by code_simp
qed

lemma reuse_answers: "GetUDPPortState reused (udp_mgr_run env_noquic reuse_inputs (UdpMgr_new reuse_world))"
  by (rule reuse_run [OF refl]) (use reused_port in \<open>simp add: GetUDPPortState_def Let_def reused_def\<close>)

theorem udp_ports_sound_witness:
  "\<exists>(i, t) \<in> set (tl_tasklist (um_tasklist (udp_mgr_run env_noquic reuse_inputs (UdpMgr_new reuse_world)))). \<exists>r \<in> set (tk_routes t).
     route_port r = proxyport reused"
  using udp_ports_sound [OF reuse_answers] by fastforce

theorem stale_task_clears_reused_port_witness:
  "GetUDPPortState reused (udp_mgr_run env_noquic reuse_inputs (UdpMgr_new reuse_world)) \<and>
   \<not> GetUDPPortState reused (udp_mgr_step env_noquic (UmTimer TIMER_TCPPERTASK (\<lambda>_. TimesFailed))
     (udp_mgr_run env_noquic reuse_inputs (UdpMgr_new reuse_world)))"
proof -
  obtain t u r where "tl_tasklist (um_tasklist (udp_mgr_run env_noquic reuse_inputs (UdpMgr_new reuse_world))) = [(0, t), (1, u)]"
      "closed_down (t, um_world (udp_mgr_run env_noquic reuse_inputs (UdpMgr_new reuse_world)))" "tk_routes t = [r]"
      "route_port r = sa_GetPort route_address"
    by (rule reuse_run [OF refl])
  then show ?thesis using reuse_answers stale_task_clears_reused_port [OF refl, of env_noquic reuse_inputs reuse_world 0 t _ r reused] reused_port
    by simp
qed

theorem udp_registration_usable_witness:
  "\<exists>c' m'. Um_OnNewTask env_noquic dns_client ProxyInfo_zero (udp_mgr_run env_noquic [] (UdpMgr_new reuse_world)) = (True, c', m') \<and>
     GetUDPPortState \<lparr>clientip = sa_GetdwIP (srcAddr dns_client), clientport = sa_GetPort (srcAddr dns_client),
       proxyport = sa_GetPort route_address\<rparr> m'"
proof -
  obtain m' where n: "Um_OnNewTask env_noquic dns_client ProxyInfo_zero (udp_mgr_run env_noquic [] (UdpMgr_new reuse_world)) =
      (True, dns_client\<lparr>udpAddr := route_address\<rparr>, m')"
    by (simp add: reuse_defs Let_def)
  from udp_registration_usable [OF n] reused_port(2) show ?thesis using n by auto
qed

end
