(* ===== verification/ChildGuard.thy ===== *)
theory ChildGuard
  imports ProcessRegistry
begin

text \<open>
  The watch over suspended children of \<open>ProxyReceptionCentre.cpp\<close>: a hooked process creates its
  children suspended and marks them with an environment variable; when the parent dies before it
  releases a child, the service terminates the orphan. Here are the snapshot of the system's
  processes (64-bit layout), the search for the marker in another process's memory, the
  registrations that exempt a child, and the check itself.

  The check reads the shared maps under a lock, tests and waits outside of it, and reads them
  again before it terminates a process: what other threads register in between is an input of
  the check. Answers of the system (snapshots, memory reads, handles) are inputs too.
\<close>

section \<open>The snapshot\<close>

record ChildGuardProcessSnapshot =
  sn_processId :: dword
  sn_parentProcessId :: dword
  sn_threadId :: dword
  sn_threadCount :: dword
  sn_createTime :: qword
  sn_cpuTime :: qword
  sn_onlyThreadSuspended :: bool

type_synonym guard_snapshot = "(dword, ChildGuardProcessSnapshot) omap"

text \<open>
  Offsets of \<open>ChildGuardSystemProcessInformation\<close> on 64-bit Windows: next entry 0, threads 4,
  creation, user and kernel time 32, 40 and 48, process and parent id 80 and 88, first thread
  256; in the thread: its id 48, state 68, wait reason 72. An entry with several threads is read
  up to the parent id only.
\<close>

definition only_thread :: "bytes \<Rightarrow> ChildGuardProcessSnapshot \<Rightarrow> ChildGuardProcessSnapshot" where
  "only_thread raw s = s\<lparr>sn_threadId := ucast (bytes_qword (drop 304 raw)),
     sn_onlyThreadSuspended := bytes_dword (drop 324 raw) = 5 \<and>
       (bytes_dword (drop 328 raw) = 5 \<or> bytes_dword (drop 328 raw) = 12)\<rparr>"

definition child_snapshot :: "bytes \<Rightarrow> ChildGuardProcessSnapshot" where
  "child_snapshot raw = \<lparr>sn_processId = ucast (bytes_qword (drop 80 raw)), sn_parentProcessId = ucast (bytes_qword (drop 88 raw)),
     sn_threadId = 0, sn_threadCount = bytes_dword (drop 4 raw), sn_createTime = bytes_qword (drop 32 raw),
     sn_cpuTime = bytes_qword (drop 48 raw) + bytes_qword (drop 40 raw), sn_onlyThreadSuspended = False\<rparr>"

text \<open>The entries are not checked against the end of the buffer: \<open>None\<close> is a read outside it.\<close>

fun guard_entries :: "nat \<Rightarrow> bytes \<Rightarrow> nat \<Rightarrow> guard_snapshot \<Rightarrow> guard_snapshot option" where
  "guard_entries 0 buffer address processes = None"
| "guard_entries (Suc fuel) buffer address processes =
     (case buffer_read buffer address 96 of None \<Rightarrow> None
      | Some raw \<Rightarrow>
        let s = child_snapshot raw; next_entry = bytes_dword raw;
            go = (\<lambda>processes. if next_entry = 0 then Some processes
                    else guard_entries fuel buffer (address + unat next_entry) processes) in
        if sn_processId s = 0 \<or> sint (sn_createTime s) \<le> 0 then go processes
        else if sn_threadCount s \<noteq> 1 then go (omap_put (sn_processId s) s processes)
        else case buffer_read buffer address 332 of None \<Rightarrow> None
          | Some entry \<Rightarrow> go (omap_put (sn_processId s) (only_thread entry s) processes))"

text \<open>The query by attempt and buffer size: status, required size and content.\<close>

type_synonym guard_query = "nat \<Rightarrow> dword \<Rightarrow> int \<times> dword \<times> bytes"

fun guard_query_loop :: "nat \<Rightarrow> guard_query \<Rightarrow> dword \<Rightarrow> int \<times> bytes" where
  "guard_query_loop 0 query bufferSize = (STATUS_INFO_LENGTH_MISMATCH, [])"
| "guard_query_loop (Suc n) query bufferSize =
     (let (status, required, buffer) = query (Suc n) bufferSize in
      if status = STATUS_INFO_LENGTH_MISMATCH \<and> n \<noteq> 0
      then guard_query_loop n query (if bufferSize < required then required + 65536 else bufferSize * 2)
      else (status, buffer))"

datatype guard_result = GuardUnreadable | GuardFault | GuardProcesses guard_snapshot

definition QueryChildGuardProcessSnapshot :: "guard_query option \<Rightarrow> guard_result" where
  "QueryChildGuardProcessSnapshot query =
     (case query of None \<Rightarrow> GuardUnreadable
      | Some q \<Rightarrow>
        let (status, buffer) = guard_query_loop 8 q 65536 in
        if status < 0 \<or> buffer = [] then GuardUnreadable
        else case guard_entries (Suc (length buffer)) buffer 0 [] of
          None \<Rightarrow> GuardFault | Some processes \<Rightarrow> GuardProcesses processes)"

section \<open>The marker\<close>

text \<open>
  Another process: whether it can be opened, whether it runs under WOW64, the addresses of its
  process environment blocks, its memory regions (readable, end) and its memory.
\<close>

record RemoteProcess =
  rp_opened :: bool
  rp_wow64 :: bool
  rp_query :: bool \<comment> \<open>\<open>NtQueryInformationProcess\<close> was found\<close>
  rp_wow64Peb :: "qword option"
  rp_peb :: "qword option"
  rp_region :: "qword \<Rightarrow> (bool \<times> qword) option"
  rp_read :: "qword \<Rightarrow> nat \<Rightarrow> bytes option"

definition ReadRemotePointer :: "RemoteProcess \<Rightarrow> qword \<Rightarrow> bool \<Rightarrow> qword option" where
  "ReadRemotePointer p address pointer32 =
     (if address = 0 then None
      else if pointer32 then
        (case rp_read p address 4 of Some b \<Rightarrow> if length b = 4 then Some (ucast (bytes_dword b)) else None | None \<Rightarrow> None)
      else
        (case rp_read p address 8 of Some b \<Rightarrow> if length b = 8 then Some (bytes_qword b) else None | None \<Rightarrow> None))"

text \<open>The search for the second of two zeros in a row: how many characters up to it, or the last flag.\<close>

fun environment_end :: "bool \<Rightarrow> 16 word list \<Rightarrow> nat option \<times> bool" where
  "environment_end previousWasNull [] = (None, previousWasNull)"
| "environment_end previousWasNull (c # cs) =
     (if c = 0 \<and> previousWasNull then (Some 1, True)
      else case environment_end (c = 0) cs of (n, flag) \<Rightarrow> (map_option Suc n, flag))"

abbreviation (input) "maximumBytes \<equiv> (1048576 :: nat)"

definition chunk_size :: "qword \<Rightarrow> qword \<Rightarrow> nat \<Rightarrow> nat" where
  "chunk_size regionEnd current totalBytes =
     (let n = min (min (unat (regionEnd - current)) (maximumBytes - totalBytes)) 4096 in n - n mod 2)"

function environment_loop :: "RemoteProcess \<Rightarrow> qword \<Rightarrow> nat \<Rightarrow> bool \<Rightarrow> 16 word list \<Rightarrow> 16 word list option" where
  "environment_loop p address totalBytes previousWasNull environment =
     (if maximumBytes \<le> totalBytes then None
      else let current = address + of_nat totalBytes in
        case rp_region p current of None \<Rightarrow> None
        | Some (readable, regionEnd) \<Rightarrow>
          if \<not> readable then None
          else let n = chunk_size regionEnd current totalBytes in
            if n = 0 then None
            else case rp_read p current n of None \<Rightarrow> None
            | Some b \<Rightarrow>
              if b = [] then None
              else let chunk = wchars (take n b) in
                case environment_end previousWasNull chunk of
                  (Some k, _) \<Rightarrow> Some (environment @ take k chunk)
                | (None, flag) \<Rightarrow> environment_loop p address (totalBytes + length (take n b)) flag (environment @ chunk))"
  by pat_completeness auto
termination
  by (relation "measure (\<lambda>(_, _, totalBytes, _, _). maximumBytes - totalBytes)") (auto intro!: diff_less_mono2)

definition ReadRemoteEnvironmentBlock :: "RemoteProcess \<Rightarrow> qword \<Rightarrow> 16 word list option" where
  "ReadRemoteEnvironmentBlock p address = environment_loop p address 0 False []"

definition wlower :: "16 word \<Rightarrow> 16 word" where
  "wlower c = (if 65 \<le> c \<and> c \<le> 90 then c + 32 else c)"

definition wcsnicmp_eq :: "16 word list \<Rightarrow> 16 word list \<Rightarrow> nat \<Rightarrow> bool" where
  "wcsnicmp_eq a b n \<longleftrightarrow> map wlower (take n a) = map wlower (take n b)"

text \<open>One entry of the block; \<open>None\<close> is a read outside it.\<close>

definition marker_entry :: "16 word list \<Rightarrow> 16 word list \<Rightarrow> nat \<Rightarrow> bool option" where
  "marker_entry marker entry len =
     (let k = length marker in
      if k + 1 < len \<and> entry ! k = 61 \<and> wcsnicmp_eq entry marker k \<and> entry ! (k + 1) = 49
      then if k + 2 < length entry then Some (entry ! (k + 2) = 0) else None
      else Some False)"

function marker_scan :: "16 word list \<Rightarrow> 16 word list \<Rightarrow> bool option" where
  "marker_scan marker entry =
     (if entry = [] \<or> hd entry = 0 then Some False
      else let len = length (takeWhile (\<lambda>c. c \<noteq> 0) entry) in
        case marker_entry marker entry len of
          None \<Rightarrow> None
        | Some True \<Rightarrow> Some True
        | Some False \<Rightarrow> marker_scan marker (drop (len + 1) entry))"
  by pat_completeness auto
termination
  by (relation "measure (\<lambda>(_, entry). length entry)") (auto simp: neq_Nil_conv)

declare environment_loop.simps [simp del] marker_scan.simps [simp del]

text \<open>The environment block of a process, found through its process environment block and parameters.\<close>

definition remote_environment :: "dword \<Rightarrow> 16 word list \<Rightarrow> RemoteProcess \<Rightarrow> 16 word list option" where
  "remote_environment pid marker p =
     (if pid = 0 \<or> marker = [] \<or> \<not> rp_opened p then None
      else
        let wow = (if rp_query p \<and> rp_wow64 p then (case rp_wow64Peb p of Some a \<Rightarrow> a | None \<Rightarrow> 0) else 0);
            pointer32 = (rp_query p \<and> rp_wow64 p \<and> rp_wow64Peb p \<noteq> None);
            peb = (if rp_query p \<and> wow = 0 then (case rp_peb p of Some a \<Rightarrow> a | None \<Rightarrow> 0) else wow)
        in if peb = 0 then None
           else case ReadRemotePointer p (peb + (if pointer32 then 0x10 else 0x20)) pointer32 of
             None \<Rightarrow> None
           | Some parameters \<Rightarrow>
             (case ReadRemotePointer p (parameters + (if pointer32 then 0x48 else 0x80)) pointer32 of
                None \<Rightarrow> None
              | Some address \<Rightarrow> ReadRemoteEnvironmentBlock p address))"

definition RemoteProcessHasChildGuard :: "dword \<Rightarrow> 16 word list \<Rightarrow> RemoteProcess \<Rightarrow> bool option" where
  "RemoteProcessHasChildGuard pid marker p =
     (case remote_environment pid marker p of
        None \<Rightarrow> Some False | Some environment \<Rightarrow> marker_scan marker environment)"

section \<open>Registrations\<close>

record SuspendedChildObservation =
  ob_processCreateTime :: qword
  ob_cpuTime :: qword
  ob_consecutiveChecks :: dword

record ChildGuard =
  cg_ReleasedChildren :: "(dword, qword) omap"
  cg_Observations :: "(dword, SuspendedChildObservation) omap"
  cg_Processed :: "(dword, qword) omap"
  cg_registry :: Registry
  cg_terminated :: "(dword \<times> qword) list" \<comment> \<open>\<open>TerminateProcess\<close>\<close>

definition ChildGuard_new :: "Registry \<Rightarrow> ChildGuard" where
  "ChildGuard_new r = \<lparr>cg_ReleasedChildren = [], cg_Observations = [], cg_Processed = [], cg_registry = r, cg_terminated = []\<rparr>"

text \<open>\<open>actual\<close>: the creation time that \<open>QueryProcessCreateTime\<close> found.\<close>

definition RegisterReleasedChild :: "dword \<Rightarrow> qword \<Rightarrow> qword option \<Rightarrow> ChildGuard \<Rightarrow> bool \<times> ChildGuard" where
  "RegisterReleasedChild pid createTime actual g =
     (if pid = 0 \<or> createTime = 0 then (False, g)
      else if actual \<noteq> None \<and> actual \<noteq> Some createTime then (False, g)
      else (True, g\<lparr>cg_ReleasedChildren := omap_put pid createTime (cg_ReleasedChildren g)\<rparr>))"

definition RegisterProcessIdentity :: "HookProcessIdentityInfo option \<Rightarrow> qword option \<Rightarrow> ChildGuard \<Rightarrow> bool \<times> ChildGuard" where
  "RegisterProcessIdentity identity actual g =
     (case identity of None \<Rightarrow> (False, g)
      | Some i \<Rightarrow>
        if dwProcessId i = 0 \<or> processCreateTime i = 0 \<or> szAppPath i = [] then (False, g)
        else if actual \<noteq> None \<and> actual \<noteq> Some (processCreateTime i) then (False, g)
        else let (ok, r) = Register identity (cg_registry g) in (ok, g\<lparr>cg_registry := r\<rparr>))"

definition UpdateProcessHookResult :: "dword \<Rightarrow> qword \<Rightarrow> dword \<Rightarrow> qword option \<Rightarrow> ChildGuard \<Rightarrow> bool \<times> ChildGuard" where
  "UpdateProcessHookResult pid createTime err actual g =
     (if pid = 0 \<or> createTime = 0 then (False, g)
      else if actual \<noteq> None \<and> actual \<noteq> Some createTime then (False, g)
      else let (ok, r) = Update pid createTime err (cg_registry g) in (ok, g\<lparr>cg_registry := r\<rparr>))"

definition GetProcessIdentity :: "dword \<Rightarrow> nat \<Rightarrow> qword option \<Rightarrow> ChildGuard \<Rightarrow> 16 word list option" where
  "GetProcessIdentity pid appPathCount actual g =
     (if pid = 0 \<or> appPathCount = 0 then None
      else case Registry_Get pid 0 (cg_registry g) of None \<Rightarrow> None
        | Some i \<Rightarrow>
          if actual \<noteq> None \<and> actual \<noteq> Some (processCreateTime i) then None
          else let path = take (appPathCount - 1) (szAppPath i) in if path = [] then None else Some path)"

definition GetProcessHookState :: "dword \<Rightarrow> qword \<Rightarrow> ChildGuard \<Rightarrow> (dword \<times> dword) option" where
  "GetProcessHookState pid createTime g =
     (if createTime = 0 then None
      else map_option (\<lambda>i. (hookState i, hookError i)) (Registry_Get pid createTime (cg_registry g)))"

section \<open>The check\<close>

datatype guard_arrival =
    ReleasedArrives dword qword "qword option"
  | IdentityArrives "HookProcessIdentityInfo option" "qword option"
  | HookResultArrives dword qword dword "qword option"

fun arrive :: "guard_arrival \<Rightarrow> ChildGuard \<Rightarrow> ChildGuard" where
  "arrive (ReleasedArrives pid t actual) g = snd (RegisterReleasedChild pid t actual g)"
| "arrive (IdentityArrives i actual) g = snd (RegisterProcessIdentity i actual g)"
| "arrive (HookResultArrives pid t err actual) g = snd (UpdateProcessHookResult pid t err actual g)"

text \<open>
  The inputs of one check: the marker and the time of this run, the snapshots before and again
  for one process, the process as it is read first and again, what other threads register before
  the last test of a process, the creation time behind its handle (or no handle, or no answer)
  and whether it can be terminated.
\<close>

record GuardCheck =
  gc_marker :: "(16 word list \<times> qword) option"
  gc_snapshot :: "guard_snapshot option"
  gc_now :: qword
  gc_remote :: "dword \<Rightarrow> RemoteProcess"
  gc_again :: "dword \<Rightarrow> guard_snapshot option"
  gc_remoteAgain :: "dword \<Rightarrow> RemoteProcess"
  gc_arrivals :: "dword \<Rightarrow> guard_arrival list"
  gc_open :: "dword \<Rightarrow> qword option option"
  gc_terminate :: "dword \<Rightarrow> bool"

abbreviation (input) "CHILD_GUARD_MINIMUM_AGE_100NS \<equiv> (600000000 :: qword)"

definition prune_times :: "guard_snapshot \<Rightarrow> (dword, qword) omap \<Rightarrow> (dword, qword) omap" where
  "prune_times processes m = filter (\<lambda>(pid, t). map_option sn_createTime (omap_find processes pid) = Some t) m"

definition prune_observations ::
    "guard_snapshot \<Rightarrow> (dword, SuspendedChildObservation) omap \<Rightarrow> (dword, SuspendedChildObservation) omap" where
  "prune_observations processes m =
     filter (\<lambda>(pid, ob). map_option sn_createTime (omap_find processes pid) = Some (ob_processCreateTime ob)) m"

definition suspended_orphan :: "guard_snapshot \<Rightarrow> qword \<Rightarrow> qword \<Rightarrow> ChildGuardProcessSnapshot \<Rightarrow> bool" where
  "suspended_orphan processes generation now child \<longleftrightarrow>
     \<not> (sn_createTime child < generation \<or> now < sn_createTime child \<or>
        now - sn_createTime child < CHILD_GUARD_MINIMUM_AGE_100NS \<or>
        sn_threadCount child \<noteq> 1 \<or> \<not> sn_onlyThreadSuspended child \<or> sn_threadId child = 0) \<and>
     \<not> (sn_parentProcessId child \<noteq> 0 \<and>
        (case omap_find processes (sn_parentProcessId child) of
           None \<Rightarrow> False | Some parent \<Rightarrow> sn_createTime parent \<le> sn_createTime child))"

definition excluded :: "ChildGuard \<Rightarrow> ChildGuardProcessSnapshot \<Rightarrow> bool" where
  "excluded g child \<longleftrightarrow> Registry_Get (sn_processId child) (sn_createTime child) (cg_registry g) \<noteq> None \<or>
     omap_find (cg_ReleasedChildren g) (sn_processId child) = Some (sn_createTime child)"

definition observe :: "ChildGuard \<Rightarrow> ChildGuardProcessSnapshot \<Rightarrow> SuspendedChildObservation" where
  "observe g child = \<lparr>ob_processCreateTime = sn_createTime child, ob_cpuTime = sn_cpuTime child,
     ob_consecutiveChecks = (case omap_find (cg_Observations g) (sn_processId child) of
        Some previous \<Rightarrow> if ob_processCreateTime previous = sn_createTime child \<and> ob_cpuTime previous = sn_cpuTime child
          then ob_consecutiveChecks previous + 1 else 1
      | None \<Rightarrow> 1)\<rparr>"

definition still_suspended :: "guard_snapshot \<Rightarrow> ChildGuardProcessSnapshot \<Rightarrow> bool" where
  "still_suspended again child =
     (case omap_find again (sn_processId child) of None \<Rightarrow> False
      | Some r \<Rightarrow> sn_createTime r = sn_createTime child \<and> sn_threadCount r = 1 \<and> sn_onlyThreadSuspended r \<and>
          sn_threadId r = sn_threadId child \<and> sn_cpuTime r = sn_cpuTime child)"

definition guarded :: "dword \<Rightarrow> 16 word list \<Rightarrow> RemoteProcess \<Rightarrow> bool" where
  "guarded pid marker p \<longleftrightarrow> RemoteProcessHasChildGuard pid marker p = Some True"

definition terminate_child :: "GuardCheck \<Rightarrow> 16 word list \<Rightarrow> ChildGuardProcessSnapshot \<Rightarrow> ChildGuard \<Rightarrow> ChildGuard" where
  "terminate_child e marker child g =
     (let pid = sn_processId child in
      case gc_again e pid of None \<Rightarrow> g
      | Some again \<Rightarrow>
        if \<not> still_suspended again child \<or> \<not> guarded pid marker (gc_remoteAgain e pid) then g
        else case gc_open e pid of
          Some (Some created) \<Rightarrow>
            if created \<noteq> sn_createTime child then g
            else let g = fold arrive (gc_arrivals e pid) g in
              if excluded g child \<or> \<not> gc_terminate e pid then g
              else g\<lparr>cg_Processed := omap_put pid (sn_createTime child) (cg_Processed g),
                     cg_terminated := cg_terminated g @ [(pid, sn_createTime child)]\<rparr>
        | _ \<Rightarrow> g)"

definition visit_child ::
    "GuardCheck \<Rightarrow> guard_snapshot \<Rightarrow> 16 word list \<Rightarrow> qword \<Rightarrow> ChildGuardProcessSnapshot \<Rightarrow>
     (dword, SuspendedChildObservation) omap \<times> ChildGuard \<Rightarrow> (dword, SuspendedChildObservation) omap \<times> ChildGuard" where
  "visit_child e processes marker generation child ng =
     (let (next, g) = ng; pid = sn_processId child in
      if \<not> suspended_orphan processes generation (gc_now e) child \<or> excluded g child \<or>
         omap_find (cg_Processed g) pid = Some (sn_createTime child) \<or> \<not> guarded pid marker (gc_remote e pid) then (next, g)
      else let observation = observe g child; next = omap_put pid observation next in
        if ob_consecutiveChecks observation < 2 then (next, g)
        else (next, terminate_child e marker child g))"

definition CheckSuspendedChildren :: "GuardCheck \<Rightarrow> ChildGuard \<Rightarrow> ChildGuard" where
  "CheckSuspendedChildren e g =
     (case gc_marker e of None \<Rightarrow> g
      | Some (marker, generation) \<Rightarrow>
        (case gc_snapshot e of None \<Rightarrow> g
         | Some processes \<Rightarrow>
           let g = g\<lparr>cg_ReleasedChildren := prune_times processes (cg_ReleasedChildren g),
                     cg_Observations := prune_observations processes (cg_Observations g),
                     cg_Processed := prune_times processes (cg_Processed g)\<rparr>;
               (next, g) = fold (\<lambda>(_, child). visit_child e processes marker generation child) processes ([], g)
           in g\<lparr>cg_Observations := next\<rparr>))"

datatype guard_input = Check GuardCheck | Arrival guard_arrival | RegistryPruned "ProcessSnapshot option"

fun guard_step :: "guard_input \<Rightarrow> ChildGuard \<Rightarrow> ChildGuard" where
  "guard_step (Check e) g = CheckSuspendedChildren e g"
| "guard_step (Arrival a) g = arrive a g"
| "guard_step (RegistryPruned s) g = g\<lparr>cg_registry := PruneExited s (cg_registry g)\<rparr>"

definition guard_run :: "guard_input list \<Rightarrow> ChildGuard \<Rightarrow> ChildGuard" where
  "guard_run is g = fold guard_step is g"

end
