(* ===== verification/Reception.thy ===== *)
theory Reception
  imports TaskMgr ChildGuard
begin

text \<open>
  Where connections of hooked processes enter the service: \<open>ProxySettings.cpp\<close> and the settings
  page that answers it, the list of registered clients of \<open>ProxyReceptionCentre.cpp\<close>, and the
  servers \<open>PRCTcpServer.cpp\<close> and \<open>PRCUdpServer.cpp\<close>, which turn a registration into a task.

  The list is used under its lock, so every operation is one step. Sockets are numbers; an
  accepted socket that the server closes again goes to a list. Log lines are events. The servers
  exist while the service runs; pointer arguments are never null.
\<close>

section \<open>Settings\<close>

text \<open>
  A settings object: \<open>GetProxyInfo\<close> may also change the client record. A handler that declines
  leaves nothing behind.
\<close>

record SettingsHandler =
  sh_GetProxyInfo :: "PRCClient \<Rightarrow> (PRCClient \<times> ProxyInfo) option"
  sh_GetProxySettings :: "ProxySettingsInfo option"

fun Settings_GetProxyInfo :: "SettingsHandler list \<Rightarrow> PRCClient \<Rightarrow> (PRCClient \<times> ProxyInfo) option" where
  "Settings_GetProxyInfo [] c = None"
| "Settings_GetProxyInfo (p # ps) c =
     (case sh_GetProxyInfo p c of Some r \<Rightarrow> Some r | None \<Rightarrow> Settings_GetProxyInfo ps c)"

fun Settings_GetProxySettings :: "SettingsHandler list \<Rightarrow> ProxySettingsInfo option" where
  "Settings_GetProxySettings [] = None"
| "Settings_GetProxySettings (p # ps) =
     (case sh_GetProxySettings p of Some r \<Rightarrow> Some r | None \<Rightarrow> Settings_GetProxySettings ps)"

text \<open>
  The settings page. \<open>PathMatchSpec\<close> and the IPv6 address text are functions of Windows. The port
  is printed in decimal.
\<close>

record PageRuntime =
  pr_runtimeSettingsValid :: bool
  pr_ProxyInfo :: ProxyInfo
  pr_runtimeSettings :: ProxySettingsInfo
  pr_filterMode :: int
  pr_patterns :: "cstr list"
  pr_PathMatchSpec :: "cstr \<Rightarrow> cstr \<Rightarrow> bool"
  pr_InetNtop6 :: "bytes \<Rightarrow> cstr"

abbreviation (input) "TARGETFILTER_MODE_PROXY \<equiv> (1 :: int)"
abbreviation (input) "SOCK_STREAM \<equiv> (1 :: int)"
abbreviation (input) "SOCK_DGRAM \<equiv> (2 :: int)"

definition target_key :: "PageRuntime \<Rightarrow> PRCClient \<Rightarrow> cstr" where
  "target_key pr c =
     (let port = '':'' @ show_nat (unat (sa_GetPort (dstAddr c))); b = dword_bytes (sa_GetdwIP (dstAddr c)) in
      if szDomainName c \<noteq> [] then szDomainName c @ port
      else if sa_IsIPv6 (dstAddr c) then ''['' @ pr_InetNtop6 pr (sin6_addr (dstAddr c)) @ '']'' @ port
      else show_nat (unat (b ! 0)) @ ''.'' @ show_nat (unat (b ! 1)) @ ''.'' @
           show_nat (unat (b ! 2)) @ ''.'' @ show_nat (unat (b ! 3)) @ port)"

definition Page1_GetProxyInfo :: "PageRuntime \<Rightarrow> PRCClient \<Rightarrow> (PRCClient \<times> ProxyInfo) option" where
  "Page1_GetProxyInfo pr c =
     (if \<not> pr_runtimeSettingsValid pr then None
      else
        let pi = pr_ProxyInfo pr;
            c' = (if sType c = SOCK_DGRAM \<and> GetProxyType pi = PROXYTYPE_SOCKS5
                  then c\<lparr>uaFlag := UAF_SET_ADDR OR UAF_SET_PORT, udpAddr := sa_SetPort 0 (sa_SetIPLong 0 (udpAddr c))\<rparr> else c);
            matched = list_ex (pr_PathMatchSpec pr (target_key pr c)) (pr_patterns pr);
            goProxy = (if pr_filterMode pr = TARGETFILTER_MODE_PROXY then matched else \<not> matched)
        in Some (c', if pr_patterns pr \<noteq> [] \<and> \<not> goProxy then UseDirectConnection pi else pi))"

definition Page1_GetProxySettings :: "PageRuntime \<Rightarrow> ProxySettingsInfo option" where
  "Page1_GetProxySettings pr = (if pr_runtimeSettingsValid pr then Some (pr_runtimeSettings pr) else None)"

definition Page1 :: "PageRuntime \<Rightarrow> SettingsHandler" where
  "Page1 pr = \<lparr>sh_GetProxyInfo = Page1_GetProxyInfo pr, sh_GetProxySettings = Page1_GetProxySettings pr\<rparr>"

section \<open>The reception centre\<close>

datatype reception_event =
    NotRegistered | SettingsFailed PRCClient | RouteBlocked PRCClient | ConnectionFailure PRCClient ConnectionStage int
  | NewProxyTask PRCClient | RouteDirect PRCClient | RouteProxy PRCClient | UdpTaskFailed int

record ('s, 'q) Reception =
  rc_RegisteredClient :: "PRCClient list"
  rc_tcp :: "'s TcpMgr"
  rc_udp :: "'q UdpMgr"
  rc_guard :: ChildGuard
  rc_closed :: "qword list" \<comment> \<open>\<open>closesocket\<close> on accepted sockets\<close>
  rc_lastError :: int
  rc_events :: "reception_event list"

definition Reception_new :: "UdpWorld \<Rightarrow> Registry \<Rightarrow> ('s, 'q) Reception" where
  "Reception_new w r = \<lparr>rc_RegisteredClient = [], rc_tcp = TcpMgr_new, rc_udp = UdpMgr_new w, rc_guard = ChildGuard_new r,
     rc_closed = [], rc_lastError = 0, rc_events = []\<rparr>"

definition report :: "reception_event \<Rightarrow> ('s, 'q) Reception \<Rightarrow> ('s, 'q) Reception" where
  "report ev rc = rc\<lparr>rc_events := rc_events rc @ [ev]\<rparr>"

text \<open>
  What a call finds outside: the settings, the route query, the creation times and images of
  processes, the clock, and what the task managers need.
\<close>

record ('s, 'q) ReceptionEnv =
  re_settings :: "SettingsHandler list"
  re_route :: "(sockaddr \<Rightarrow> dword) option"
  re_created :: "dword \<Rightarrow> qword option"
  re_image :: "dword \<Rightarrow> 16 word list option"
  re_tick :: dword
  re_mitm :: "'s MitmEnv"
  re_setup :: "'s TcpSetup"
  re_allocated :: bool
  re_udp :: "'q UdpEnv"

abbreviation (input) "WSAENETUNREACH \<equiv> (10051 :: int)"

fun replace_client :: "PRCClient \<Rightarrow> PRCClient list \<Rightarrow> PRCClient list" where
  "replace_client c [] = [c]"
| "replace_client c (d # ds) = (if same_socket c d then c # ds else d # replace_client c ds)"

definition RegisterTCPClient :: "('s, 'q) ReceptionEnv \<Rightarrow> PRCClient \<Rightarrow> ('s, 'q) Reception \<Rightarrow> bool \<times> PRCClient \<times> ('s, 'q) Reception" where
  "RegisterTCPClient e c rc =
     (let (rejected, c) =
        (if NeedsQuery c
         then case Settings_GetProxyInfo (re_settings e) c of
           None \<Rightarrow> (False, c) | Some (c, route) \<Rightarrow> (Route_ShouldReject c route (re_route e), c)
         else (False, c))
      in if rejected then
           (False, c, (report (ConnectionFailure c STAGE_IPV6_ROUTE WSAENETUNREACH) rc)\<lparr>rc_lastError := WSAENETUNREACH\<rparr>)
         else let c = c\<lparr>c_reserved := re_tick e\<rparr>
           in (True, c, rc\<lparr>rc_RegisteredClient := replace_client c (rc_RegisteredClient rc)\<rparr>))"

text \<open>The UDP server answers through a window message: \<open>TRUE\<close> or a negative error number.\<close>

definition OnLocalThreadRegister :: "('s, 'q) ReceptionEnv \<Rightarrow> PRCClient \<Rightarrow> ('s, 'q) Reception \<Rightarrow> int \<times> PRCClient \<times> ('s, 'q) Reception" where
  "OnLocalThreadRegister e c rc =
     (case Settings_GetProxyInfo (re_settings e) c of
        None \<Rightarrow> (- WSAEINVAL, c, rc)
      | Some (c, pisetting) \<Rightarrow>
        (case Settings_GetProxySettings (re_settings e) of
           None \<Rightarrow> (- WSAEINVAL, c, rc)
         | Some settings \<Rightarrow>
           let c = snd (DnsRedirect_Apply c settings pisetting);
               (ok, c, m) = Um_OnNewTask (re_udp e) c pisetting (rc_udp rc);
               rc = rc\<lparr>rc_udp := m\<rparr> in
           if \<not> ok then
             let errorCode = uw_lastError (um_world m);
                 rc = (if errorCode \<noteq> WSAEOPNOTSUPP \<and> errorCode \<noteq> WSAEHOSTUNREACH then report (UdpTaskFailed errorCode) rc else rc)
             in (- (if errorCode \<noteq> 0 then errorCode else WSAEFAULT), c, rc)
           else (1, c, report (NewProxyTask c) rc)))"

definition OnRegister :: "('s, 'q) ReceptionEnv \<Rightarrow> PRCClient \<Rightarrow> ('s, 'q) Reception \<Rightarrow> bool \<times> PRCClient \<times> ('s, 'q) Reception" where
  "OnRegister e c rc =
     (let (result, c, rc) = OnLocalThreadRegister e c rc in
      if result = 1 then (True, c, rc)
      else (False, c, rc\<lparr>rc_lastError := (if result < 0 then - result else WSAEFAULT)\<rparr>))"

definition RegisterClient :: "('s, 'q) ReceptionEnv \<Rightarrow> PRCClient \<Rightarrow> ('s, 'q) Reception \<Rightarrow> bool \<times> PRCClient \<times> ('s, 'q) Reception" where
  "RegisterClient e c rc =
     (if dwPid c = 0 \<or> PRCClient.processCreateTime c = 0 \<or> socketGeneration c = 0 then (False, c, rc)
      else if re_created e (dwPid c) \<noteq> None \<and> re_created e (dwPid c) \<noteq> Some (PRCClient.processCreateTime c) then (False, c, rc)
      else if sType c = SOCK_STREAM then RegisterTCPClient e c rc
      else if sType c = SOCK_DGRAM then OnRegister e c rc
      else (False, c, rc))"

text \<open>For a TCP client the answer is \<open>FALSE\<close> even when it was removed.\<close>

definition UnregisterClient :: "PRCClient \<Rightarrow> ('s, 'q) Reception \<Rightarrow> bool \<times> ('s, 'q) Reception" where
  "UnregisterClient c rc =
     (if sType c = SOCK_STREAM
      then (False, rc\<lparr>rc_RegisteredClient := filter (\<lambda>d. \<not> same_socket c d) (rc_RegisteredClient rc)\<rparr>)
      else if sType c = SOCK_DGRAM then let (n, m) = KillTasks c (rc_udp rc) in (n \<noteq> 0, rc\<lparr>rc_udp := m\<rparr>)
      else (False, rc))"

definition GetUDPClientPortState :: "UDPLocalProxyAddrInfo \<Rightarrow> ('s, 'q) Reception \<Rightarrow> bool" where
  "GetUDPClientPortState q rc = GetUDPPortState q (rc_udp rc)"

definition matches_peer :: "sockaddr \<Rightarrow> PRCClient \<Rightarrow> bool" where
  "matches_peer sa d \<longleftrightarrow> sa_family sa = sa_family (srcAddr d) \<and> sa_GetPort sa = sa_GetPort (srcAddr d) \<and>
     (sa_IsAny (srcAddr d) \<or> sa_SameAddress sa (srcAddr d))"

fun take_client :: "bool \<Rightarrow> sockaddr \<Rightarrow> PRCClient list \<Rightarrow> (PRCClient \<times> PRCClient list) option" where
  "take_client pop sa [] = None"
| "take_client pop sa (d # ds) =
     (if matches_peer sa d then Some (d, if pop then ds else d # ds)
      else map_option (\<lambda>(c, ds). (c, d # ds)) (take_client pop sa ds))"

text \<open>\<open>peer\<close>: what \<open>getpeername\<close> gives for the accepted socket.\<close>

definition GetClientInfo :: "sockaddr option \<Rightarrow> bool \<Rightarrow> ('s, 'q) Reception \<Rightarrow> PRCClient option \<times> ('s, 'q) Reception" where
  "GetClientInfo peer pop rc =
     (case peer of None \<Rightarrow> (None, rc)
      | Some sa \<Rightarrow>
        (case take_client pop sa (rc_RegisteredClient rc) of None \<Rightarrow> (None, rc)
         | Some (c, ds) \<Rightarrow> (Some c, rc\<lparr>rc_RegisteredClient := ds\<rparr>)))"

definition kick_out :: "dword \<Rightarrow> ('s, 'q) Reception \<Rightarrow> ('s, 'q) Reception" where
  "kick_out now rc = rc\<lparr>rc_RegisteredClient := filter (\<lambda>d. \<not> 60000 < now - c_reserved d) (rc_RegisteredClient rc)\<rparr>"

definition Rc_OnTimer :: "dword \<Rightarrow> GuardCheck \<Rightarrow> ('s, 'q) Reception \<Rightarrow> ('s, 'q) Reception" where
  "Rc_OnTimer now check rc = (kick_out now rc)\<lparr>rc_guard := CheckSuspendedChildren check (rc_guard rc)\<rparr>"

section \<open>The TCP server\<close>

text \<open>
  The path of the process is cached in the registry, or asked for and registered; here only what
  this does to the registry. A creation time that cannot be read is 0, which the registry refuses.
\<close>

definition ResolveProcPath :: "('s, 'q) ReceptionEnv \<Rightarrow> dword \<Rightarrow> ChildGuard \<Rightarrow> ChildGuard" where
  "ResolveProcPath e pid g =
     (case GetProcessIdentity pid MAX_PATH (re_created e pid) g of
        Some _ \<Rightarrow> g
      | None \<Rightarrow>
        (case re_image e pid of
           None \<Rightarrow> g
         | Some path \<Rightarrow>
           if path = [] then g
           else let t = (case re_created e pid of None \<Rightarrow> 0 | Some t \<Rightarrow> t);
                    g = snd (RegisterProcessIdentity (Some (identity_zero\<lparr>dwProcessId := pid,
                          HookProcessIdentityInfo.processCreateTime := t, szAppPath := take (MAX_PATH - 1) path\<rparr>)) (re_created e pid) g)
                in snd (UpdateProcessHookResult pid t 0 (re_created e pid) g)))"

text \<open>Only letters; other bytes of \<open>isalpha\<close> do not count in the C locale.\<close>

definition is_alpha :: "char \<Rightarrow> bool" where
  "is_alpha c \<longleftrightarrow> (let n = of_char c :: nat in 65 \<le> n \<and> n \<le> 90 \<or> 97 \<le> n \<and> n \<le> 122)"

definition isLLMNR :: "cstr \<Rightarrow> bool" where
  "isLLMNR name \<longleftrightarrow> name \<noteq> [] \<and> CHR ''.'' \<notin> set name \<and> list_all is_alpha name"

definition close_accepted :: "qword \<Rightarrow> ('s, 'q) Reception \<Rightarrow> ('s, 'q) Reception" where
  "close_accepted s rc = rc\<lparr>rc_closed := rc_closed rc @ [s]\<rparr>"

definition accept_task :: "('s, 'q) ReceptionEnv \<Rightarrow> qword \<Rightarrow> PRCClient \<Rightarrow> ProxyInfo \<Rightarrow> ('s, 'q) Reception \<Rightarrow> ('s, 'q) Reception" where
  "accept_task e s c pisetting rc =
     (let (ok, stage, m) = Tm_OnNewTask (re_mitm e) (re_setup e) (re_tick e) (re_allocated e) c pisetting (rc_tcp rc);
          rc = rc\<lparr>rc_tcp := m\<rparr> in
      if \<not> ok then close_accepted s (report (ConnectionFailure c stage (tm_lastError m)) rc)
      else report (if GetProxyType pisetting = PROXYTYPE_NOPROXY then RouteDirect c else RouteProxy c) (report (NewProxyTask c) rc))"

text \<open>\<open>accepted\<close>: the accepted socket and its peer address, or \<open>None\<close> when \<open>accept\<close> failed.\<close>

definition Server_OnAccept :: "('s, 'q) ReceptionEnv \<Rightarrow> (qword \<times> sockaddr option) option \<Rightarrow> ('s, 'q) Reception \<Rightarrow> ('s, 'q) Reception" where
  "Server_OnAccept e accepted rc =
     (case accepted of None \<Rightarrow> rc
      | Some (s, peer) \<Rightarrow>
        (case GetClientInfo peer True rc of
           (None, rc) \<Rightarrow> close_accepted s (report NotRegistered rc)
         | (Some c, rc) \<Rightarrow>
           let c = c\<lparr>sAccept := s\<rparr>; rc = rc\<lparr>rc_guard := ResolveProcPath e (dwPid c) (rc_guard rc)\<rparr> in
           (case Settings_GetProxyInfo (re_settings e) c of
              None \<Rightarrow> close_accepted s (report (SettingsFailed c) rc)
            | Some (c, pisetting) \<Rightarrow>
              (case Settings_GetProxySettings (re_settings e) of
                 None \<Rightarrow> close_accepted s (report (SettingsFailed c) rc)
               | Some psi \<Rightarrow>
                 let c = snd (DnsRedirect_Apply c psi pisetting) in
                 if bDisableLLMNR psi \<and> isLLMNR (szDomainName c) then close_accepted s (report (RouteBlocked c) rc)
                 else accept_task e s c pisetting rc))))"

section \<open>Runs\<close>

text \<open>
  The inputs of the reception centre. What its task managers do on their own, and what is
  registered with the child guard in between, happens in \<open>TcpStep\<close>, \<open>UdpStep\<close> and \<open>GuardArrival\<close>.
\<close>

datatype ('s, 'q) rc_input =
    RcRegister "('s, 'q) ReceptionEnv" PRCClient | RcUnregister PRCClient
  | RcAccept "('s, 'q) ReceptionEnv" "(qword \<times> sockaddr option) option" | RcTimer dword GuardCheck
  | TcpStep "'s MitmEnv" "'s tcp_mgr_input" | UdpStep "'q UdpEnv" udp_mgr_input | GuardArrival guard_arrival

fun rc_step :: "('s, 'q) rc_input \<Rightarrow> ('s, 'q) Reception \<Rightarrow> ('s, 'q) Reception" where
  "rc_step (RcRegister e c) rc = snd (snd (RegisterClient e c rc))"
| "rc_step (RcUnregister c) rc = snd (UnregisterClient c rc)"
| "rc_step (RcAccept e accepted) rc = Server_OnAccept e accepted rc"
| "rc_step (RcTimer now check) rc = Rc_OnTimer now check rc"
| "rc_step (TcpStep env i) rc = rc\<lparr>rc_tcp := tcp_mgr_step env i (rc_tcp rc)\<rparr>"
| "rc_step (UdpStep env i) rc = rc\<lparr>rc_udp := udp_mgr_step env i (rc_udp rc)\<rparr>"
| "rc_step (GuardArrival a) rc = rc\<lparr>rc_guard := arrive a (rc_guard rc)\<rparr>"

definition rc_run :: "('s, 'q) rc_input list \<Rightarrow> ('s, 'q) Reception \<Rightarrow> ('s, 'q) Reception" where
  "rc_run is rc = fold rc_step is rc"

end
