(* ===== verification/GuardRuns.thy ===== *)
theory GuardRuns
  imports ChildGuard
begin

text \<open>
  What the watch over suspended children guarantees: the search in another process's memory stays
  inside its buffer and finds exactly the marker; a process is only terminated after two checks in
  a row saw it as a suspended, marked orphan that did not run in between; a released child is
  never terminated; an orphan that stays suspended is terminated by the second check.
\<close>

section \<open>The marker\<close>

text \<open>The strings of an environment block: what lies between zeros, up to the first empty one.\<close>

fun split_nul :: "16 word list \<Rightarrow> 16 word list list" where
  "split_nul [] = [[]]"
| "split_nul (c # cs) =
     (if c = 0 then [] # split_nul cs
      else case split_nul cs of [] \<Rightarrow> [[c]] | e # es \<Rightarrow> (c # e) # es)"

definition environment_has :: "16 word list \<Rightarrow> 16 word list \<Rightarrow> bool" where
  "environment_has marker environment \<longleftrightarrow>
     list_ex (\<lambda>e. map wlower e = map wlower (marker @ [61, 49])) (takeWhile (\<lambda>e. e \<noteq> []) (split_nul environment))"

lemma split_nul_append: "0 \<notin> set xs \<Longrightarrow> split_nul (xs @ 0 # ys) = xs # split_nul ys"
  by (induction xs) auto

lemma wlower_sign [simp]: "wlower c = 61 \<longleftrightarrow> c = 61" "wlower c = 49 \<longleftrightarrow> c = 49"
  unfolding wlower_def by (auto simp: word_le_nat_alt unat_word_ariths word_unat_eq_iff unat_plus_if' split: if_splits)

lemma wlower_sign_self [simp]: "wlower 61 = 61" "wlower 49 = 49"
  by simp_all

lemma map_eq_append_two:
  "map f e = map f m @ [f a, f b] \<longleftrightarrow>
   length e = length m + 2 \<and> map f (take (length m) e) = map f m \<and> f (e ! length m) = f a \<and> f (e ! (length m + 1)) = f b"
  by (cases "length e = length m + 2")
    (auto simp: list_eq_iff_nth_eq nth_append less_Suc_eq dest: arg_cong [of _ _ length])

lemma marked_string:
  "map wlower e = map wlower m @ [61, 49] \<longleftrightarrow>
   length e = length m + 2 \<and> map wlower (take (length m) e) = map wlower m \<and> e ! length m = 61 \<and> e ! (length m + 1) = 49"
  using map_eq_append_two [of wlower e m 61 49] by simp

lemma marker_entry_exact:
  assumes "0 \<notin> set xs"
  shows "marker_entry marker (xs @ 0 # ys) (length xs) = Some (map wlower xs = map wlower (marker @ [61, 49]))"
proof -
  let ?k = "length marker"
  have nz: "(xs @ 0 # ys) ! (?k + 2) = 0 \<longleftrightarrow> length xs = ?k + 2" if "?k + 2 \<le> length xs"
    using that assms by (auto simp: nth_append dest: nth_mem)
  show ?thesis
    using nz by (auto simp: marker_entry_def wcsnicmp_eq_def marked_string nth_append Let_def)
qed

lemma marker_scan_exact:
  "environment = [] \<or> last environment = 0 \<Longrightarrow> marker_scan marker environment = Some (environment_has marker environment)"
proof (induction marker environment rule: marker_scan.induct)
  case (1 marker environment)
  show ?case
  proof (cases "environment = [] \<or> hd environment = 0")
    case True
    then show ?thesis
      by (cases environment) (auto simp: marker_scan.simps environment_has_def)
  next
    case False
    let ?xs = "takeWhile (\<lambda>c. c \<noteq> 0) environment"
    from False 1(2) have z: "0 \<in> set environment"
      by (metis last_in_set)
    obtain y ys where y: "dropWhile (\<lambda>c. c \<noteq> 0) environment = y # ys"
      using z by (cases "dropWhile (\<lambda>c. c \<noteq> 0) environment") auto
    then have env: "environment = ?xs @ 0 # ys"
      using dropWhile_eq_Cons_conv [of "\<lambda>c. c \<noteq> 0" environment y ys] by blast
    have nz: "0 \<notin> set ?xs"
      by (auto dest: set_takeWhileD)
    have xs: "?xs \<noteq> []"
      using False by (cases environment) auto
    have drop: "drop (length ?xs + 1) environment = ys"
      by (subst env) (simp del: takeWhile_eq_filter)
    have last: "ys = [] \<or> last ys = 0"
      using 1(2) False by (subst (asm) (2) env) (auto split: if_splits)
    have entry: "marker_entry marker environment (length ?xs) = Some (map wlower ?xs = map wlower (marker @ [61, 49]))"
      using marker_entry_exact [OF nz, of marker ys] env by simp
    have has: "environment_has marker environment \<longleftrightarrow>
        map wlower ?xs = map wlower (marker @ [61, 49]) \<or> environment_has marker ys"
      unfolding environment_has_def
      by (subst (1) env, subst split_nul_append [OF nz]) (use xs in simp)
    show ?thesis
    proof (cases "map wlower ?xs = map wlower (marker @ [61, 49])")
      case True
      then show ?thesis
        using False entry has by (simp add: marker_scan.simps [of marker environment] Let_def)
    next
      case no: False
      then have "marker_entry marker environment (length ?xs) = Some False"
        using entry by simp
      from 1(1) [OF False refl this, unfolded drop] have "marker_scan marker ys = Some (environment_has marker ys)"
        using last by simp
      then show ?thesis
        using False entry has no drop by (simp add: marker_scan.simps [of marker environment] Let_def)
    qed
  qed
qed

lemma environment_end_found:
  "environment_end b cs = (Some k, flag) \<Longrightarrow> 0 < k \<and> k \<le> length cs \<and> cs ! (k - 1) = 0"
  by (induction b cs arbitrary: k rule: environment_end.induct)
    (auto split: if_splits prod.splits simp: nth_Cons')

lemma length_wchars: "length (wchars b) = length b div 2"
  by (induction b rule: wchars.induct) auto

lemma environment_loop_found:
  assumes "environment_loop p address n b env = Some env'" and "2 * length env \<le> n"
  shows "env' \<noteq> [] \<and> last env' = 0 \<and> 2 * length env' \<le> maximumBytes"
  using assms
proof (induction p address n b env rule: environment_loop.induct)
  case (1 p address n b env)
  let ?cur = "address + word_of_nat n"
  from 1(2) obtain readable regionEnd where r: "\<not> maximumBytes \<le> n" "rp_region p ?cur = Some (readable, regionEnd)"
      "readable" "chunk_size regionEnd ?cur n \<noteq> 0"
    by (subst (asm) environment_loop.simps) (auto simp: Let_def split: if_splits option.splits prod.splits)
  let ?k = "chunk_size regionEnd ?cur n"
  from 1(2) r obtain raw where raw: "rp_read p ?cur ?k = Some raw" "raw \<noteq> []"
    by (subst (asm) environment_loop.simps) (auto simp: Let_def split: if_splits option.splits prod.splits)
  let ?chunk = "wchars (take ?k raw)"
  have k: "n + ?k \<le> maximumBytes"
    using r(1) by (auto simp: chunk_size_def Let_def min_def split: if_splits)
  have len: "2 * length ?chunk \<le> length (take ?k raw)" "length (take ?k raw) \<le> ?k"
    by (auto simp: length_wchars)
  obtain found flag where e: "environment_end b ?chunk = (found, flag)"
    by (meson surj_pair)
  have step: "environment_loop p address n b env =
      (case found of Some k \<Rightarrow> Some (env @ take k ?chunk)
       | None \<Rightarrow> environment_loop p address (n + length (take ?k raw)) flag (env @ ?chunk))"
    by (subst environment_loop.simps) (use r raw e in \<open>simp add: Let_def split: option.splits\<close>)
  show ?case
  proof (cases found)
    case None
    then show ?thesis
      using 1(1) [OF r(1) refl r(2) refl, of ?k raw ?chunk found flag] r raw e step 1(2,3) len
      by (simp del: length_take)
  next
    case (Some j)
    then have j: "0 < j" "j \<le> length ?chunk" "?chunk ! (j - 1) = 0"
      using environment_end_found e by blast+
    then have "take j ?chunk \<noteq> [] \<and> last (take j ?chunk) = 0"
      by (cases j) (auto simp: take_Suc_conv_app_nth)
    moreover have "2 * length (env @ take j ?chunk) \<le> maximumBytes"
      using j(2) len k 1(3) by simp
    ultimately show ?thesis
      using 1(2) step Some by auto
  qed
qed

lemma remote_environment_block:
  assumes "remote_environment pid marker p = Some env"
  shows "env \<noteq> [] \<and> last env = 0 \<and> 2 * length env \<le> maximumBytes"
proof -
  obtain address where "environment_loop p address 0 False [] = Some env"
    using assms by (auto simp: remote_environment_def ReadRemoteEnvironmentBlock_def Let_def split: if_splits option.splits)
  then show ?thesis
    using environment_loop_found by fastforce
qed

text \<open>
  C33. Whatever the memory of the other process holds, the search for the marker ends without a
  read outside the copied block, which is at most 1 MiB, and it answers yes exactly when one of
  the strings of the block equals the marker name followed by \<open>=1\<close>, letter case aside.
\<close>

theorem guard_marker_exact:
  "case remote_environment pid marker p of
     None \<Rightarrow> RemoteProcessHasChildGuard pid marker p = Some False
   | Some env \<Rightarrow> 2 * length env \<le> 1048576 \<and>
       RemoteProcessHasChildGuard pid marker p = Some (environment_has marker env)"
proof (cases "remote_environment pid marker p")
  case (Some env)
  then show ?thesis
    using remote_environment_block [OF Some] marker_scan_exact [of env marker]
    by (simp add: RemoteProcessHasChildGuard_def)
qed (simp add: RemoteProcessHasChildGuard_def)

section \<open>The snapshot\<close>

definition snapshot_entry_ok :: "dword \<times> ChildGuardProcessSnapshot \<Rightarrow> bool" where
  "snapshot_entry_ok e \<longleftrightarrow> sn_processId (snd e) = fst e \<and> fst e \<noteq> 0 \<and> 0 < sint (sn_createTime (snd e)) \<and>
     (sn_onlyThreadSuspended (snd e) \<longrightarrow> sn_threadCount (snd e) = 1)"

definition snapshot_ok :: "guard_snapshot \<Rightarrow> bool" where
  "snapshot_ok m \<longleftrightarrow> omap_ok m \<and> list_all snapshot_entry_ok m"

lemma omap_put_list_all: "list_all P m \<Longrightarrow> P (k, v) \<Longrightarrow> list_all P (omap_put k v m)"
  by (induction k v m rule: omap_put.induct) auto

lemma snapshot_ok_put:
  assumes "snapshot_ok m" and "snapshot_entry_ok (k, s)"
  shows "snapshot_ok (omap_put k s m)"
  using assms by (simp add: snapshot_ok_def omap_ok_put omap_put_list_all)

lemma guard_entries_ok:
  "guard_entries fuel buffer address m = Some m' \<Longrightarrow> snapshot_ok m \<Longrightarrow> snapshot_ok m'"
proof (induction fuel buffer address m rule: guard_entries.induct)
  case (2 fuel buffer address m)
  note run = 2(2) and inv = 2(3)
  from 2(2) obtain raw where raw: "buffer_read buffer address 96 = Some raw"
    by (auto split: option.splits)
  let ?s = "child_snapshot raw"
  let ?n = "bytes_dword raw"
  let ?go = "\<lambda>m. if ?n = 0 then Some m else guard_entries fuel buffer (address + unat ?n) m"
  have go: "snapshot_ok m'" if "?go q = Some m'" "snapshot_ok q" for q
    using that 2(1) [OF raw refl refl, of q] by (auto split: if_splits)
  consider "sn_processId ?s = 0 \<or> sint (sn_createTime ?s) \<le> 0"
    | "sn_processId ?s \<noteq> 0" "0 < sint (sn_createTime ?s)" "sn_threadCount ?s \<noteq> 1"
    | entry where "sn_processId ?s \<noteq> 0" "0 < sint (sn_createTime ?s)" "sn_threadCount ?s = 1"
        "buffer_read buffer address 332 = Some entry"
    using 2(2) raw by (auto simp: Let_def not_le split: if_splits option.splits)
  then show ?case
  proof cases
    case 1
    then show ?thesis
      using 1 run inv raw by (intro go [of m]) (auto simp: Let_def)
  next
    case 2
    have "snapshot_ok (omap_put (sn_processId ?s) ?s m)"
      using 2 by (intro snapshot_ok_put inv) (auto simp: snapshot_entry_ok_def child_snapshot_def)
    then show ?thesis
      using 2 run raw
      by (intro go [of "omap_put (sn_processId ?s) ?s m"]) (auto simp: Let_def)
  next
    case 3
    have "snapshot_ok (omap_put (sn_processId ?s) (only_thread entry ?s) m)"
      using 3 by (intro snapshot_ok_put inv) (auto simp: snapshot_entry_ok_def only_thread_def)
    then show ?thesis
      using 3 run raw by (intro go [of "omap_put (sn_processId ?s) (only_thread entry ?s) m"]) (auto simp: Let_def)
  qed
qed simp

text \<open>
  C36. A snapshot that the query delivers is a map in the order of the process ids without
  duplicates; every entry is filed under its own nonzero id, has a positive creation time, and
  only a process with a single thread is flagged as suspended.
\<close>

theorem guard_snapshot_typed:
  "case QueryChildGuardProcessSnapshot query of GuardProcesses m \<Rightarrow> snapshot_ok m | _ \<Rightarrow> True"
proof (cases query)
  case (Some q)
  obtain status buffer where "guard_query_loop 8 q 65536 = (status, buffer)"
    by (meson surj_pair)
  then show ?thesis
    using Some guard_entries_ok [of "Suc (length buffer)" buffer 0 "[]"]
    by (auto simp: QueryChildGuardProcessSnapshot_def snapshot_ok_def omap_ok_def split: option.splits)
qed (simp add: QueryChildGuardProcessSnapshot_def)

section \<open>One check\<close>

lemma omap_find_member: "omap_find m k = Some v \<Longrightarrow> (k, v) \<in> set m"
  by (induction m) (auto split: if_splits)

lemma set_omap_put: "set (omap_put k v m) \<subseteq> insert (k, v) (set m)"
  by (induction k v m rule: omap_put.induct) auto

lemma arrive_frame [simp]:
  "cg_Observations (arrive a g) = cg_Observations g"
  "cg_Processed (arrive a g) = cg_Processed g"
  "cg_terminated (arrive a g) = cg_terminated g"
  by (cases a; auto simp: RegisterReleasedChild_def RegisterProcessIdentity_def UpdateProcessHookResult_def
      split: option.splits prod.splits)+

lemma arrivals_frame [simp]:
  "cg_Observations (fold arrive as g) = cg_Observations g"
  "cg_Processed (fold arrive as g) = cg_Processed g"
  "cg_terminated (fold arrive as g) = cg_terminated g"
  by (induction as arbitrary: g) auto

text \<open>What must hold for \<open>terminate_child\<close> to terminate.\<close>

definition rechecked :: "GuardCheck \<Rightarrow> 16 word list \<Rightarrow> ChildGuardProcessSnapshot \<Rightarrow> bool" where
  "rechecked e marker child \<longleftrightarrow>
     (case gc_again e (sn_processId child) of None \<Rightarrow> False | Some again \<Rightarrow> still_suspended again child) \<and>
     guarded (sn_processId child) marker (gc_remoteAgain e (sn_processId child)) \<and>
     gc_open e (sn_processId child) = Some (Some (sn_createTime child)) \<and> gc_terminate e (sn_processId child)"

lemma terminate_child_eq:
  "terminate_child e marker child g =
     (let pid = sn_processId child; h = fold arrive (gc_arrivals e pid) g in
      if rechecked e marker child \<and> \<not> excluded h child
      then h\<lparr>cg_Processed := omap_put pid (sn_createTime child) (cg_Processed h),
             cg_terminated := cg_terminated h @ [(pid, sn_createTime child)]\<rparr>
      else if (case gc_again e pid of None \<Rightarrow> False | Some again \<Rightarrow> still_suspended again child) \<and>
        guarded pid marker (gc_remoteAgain e pid) \<and> gc_open e pid = Some (Some (sn_createTime child)) then h else g)"
  by (auto simp: terminate_child_def rechecked_def Let_def split: option.splits)

lemma terminate_child_frame [simp]: "cg_Observations (terminate_child e marker child g) = cg_Observations g"
  by (auto simp: terminate_child_eq Let_def)

lemma terminate_child_terminated:
  "cg_terminated (terminate_child e marker child g) = cg_terminated g \<or>
   rechecked e marker child \<and> \<not> excluded (fold arrive (gc_arrivals e (sn_processId child)) g) child \<and>
   cg_terminated (terminate_child e marker child g) = cg_terminated g @ [(sn_processId child, sn_createTime child)]"
  by (auto simp: terminate_child_eq Let_def)

text \<open>The child passes every test of the loop up to the observation.\<close>

definition candidate :: "GuardCheck \<Rightarrow> guard_snapshot \<Rightarrow> 16 word list \<Rightarrow> qword \<Rightarrow> ChildGuardProcessSnapshot \<Rightarrow> bool" where
  "candidate e processes marker generation child \<longleftrightarrow> child \<in> snd ` set processes \<and>
     suspended_orphan processes generation (gc_now e) child \<and>
     guarded (sn_processId child) marker (gc_remote e (sn_processId child))"

definition same_run :: "ChildGuardProcessSnapshot \<Rightarrow> SuspendedChildObservation \<Rightarrow> bool" where
  "same_run child ob \<longleftrightarrow> ob_processCreateTime ob = sn_createTime child \<and> ob_cpuTime ob = sn_cpuTime child"

text \<open>Why a process may be terminated by a check that began with the observations \<open>obs\<close>.\<close>

definition due :: "GuardCheck \<Rightarrow> guard_snapshot \<Rightarrow> 16 word list \<Rightarrow> qword \<Rightarrow>
    (dword, SuspendedChildObservation) omap \<Rightarrow> dword \<times> qword \<Rightarrow> bool" where
  "due e processes marker generation obs victim \<longleftrightarrow>
     (\<exists>child ob. victim = (sn_processId child, sn_createTime child) \<and> candidate e processes marker generation child \<and>
        rechecked e marker child \<and> (sn_processId child, ob) \<in> set obs \<and> same_run child ob)"

lemma observe_twice:
  "\<not> ob_consecutiveChecks (observe g child) < 2 \<Longrightarrow>
   \<exists>ob. (sn_processId child, ob) \<in> set (cg_Observations g) \<and> same_run child ob"
  by (auto simp: observe_def same_run_def dest: omap_find_member split: option.splits if_splits)

lemma same_run_observe [simp]: "same_run child (observe g child)"
  by (simp add: observe_def same_run_def)

text \<open>The loop: what is observed are candidates of this check, and every termination is due.\<close>

definition loop_inv where
  "loop_inv e processes marker generation obs old ng \<longleftrightarrow>
     cg_Observations (snd ng) = obs \<and>
     (\<exists>new. cg_terminated (snd ng) = old @ new \<and> list_all (due e processes marker generation obs) new) \<and>
     (\<forall>pid ob. (pid, ob) \<in> set (fst ng) \<longrightarrow>
        (\<exists>child. sn_processId child = pid \<and> same_run child ob \<and> candidate e processes marker generation child))"

lemma visit_child_inv:
  assumes "loop_inv e processes marker generation obs old (next_obs, g)" and "child \<in> snd ` set processes"
  shows "loop_inv e processes marker generation obs old (visit_child e processes marker generation child (next_obs, g))"
proof (cases "\<not> suspended_orphan processes generation (gc_now e) child \<or> excluded g child \<or>
    omap_find (cg_Processed g) (sn_processId child) = Some (sn_createTime child) \<or>
    \<not> guarded (sn_processId child) marker (gc_remote e (sn_processId child))")
  case True
  then show ?thesis
    using assms(1) by (simp only: visit_child_def Let_def prod.case if_True)
next
  case False
  then have c: "candidate e processes marker generation child"
    using assms(2) by (simp add: candidate_def)
  let ?next = "omap_put (sn_processId child) (observe g child) next_obs"
  have n: "\<exists>child. sn_processId child = pid \<and> same_run child ob \<and> candidate e processes marker generation child"
    if "(pid, ob) \<in> set ?next" for pid ob
  proof -
    have "(pid, ob) = (sn_processId child, observe g child) \<or> (pid, ob) \<in> set next_obs"
      using that set_omap_put [of "sn_processId child" "observe g child" next_obs] by blast
    then show ?thesis
      using c assms(1) by (auto simp: loop_inv_def)
  qed
  have v: "visit_child e processes marker generation child (next_obs, g) =
      (?next, if ob_consecutiveChecks (observe g child) < 2 then g else terminate_child e marker child g)"
    using False by (simp add: visit_child_def Let_def)
  have obs: "cg_Observations g = obs"
    using assms(1) by (simp add: loop_inv_def)
  have d: "due e processes marker generation obs (sn_processId child, sn_createTime child)"
    if "\<not> ob_consecutiveChecks (observe g child) < 2" "rechecked e marker child"
    using observe_twice [OF that(1)] that(2) c obs unfolding due_def by blast
  obtain new where new: "cg_terminated g = old @ new" "list_all (due e processes marker generation obs) new"
    using assms(1) by (auto simp: loop_inv_def)
  have "\<exists>new. cg_terminated (if ob_consecutiveChecks (observe g child) < 2 then g else terminate_child e marker child g) = old @ new \<and>
      list_all (due e processes marker generation obs) new"
    using new d terminate_child_terminated [of e marker child g] by (cases "ob_consecutiveChecks (observe g child) < 2") auto
  then show ?thesis
    using n obs unfolding v loop_inv_def by auto
qed

lemma visit_children_inv:
  assumes "loop_inv e processes marker generation obs old ng" and "snd ` set ps \<subseteq> snd ` set processes"
  shows "loop_inv e processes marker generation obs old
    (fold (\<lambda>(_, child). visit_child e processes marker generation child) ps ng)"
  using assms
proof (induction ps arbitrary: ng)
  case (Cons p ps)
  obtain next_obs g where ng: "ng = (next_obs, g)"
    by (meson surj_pair)
  have "loop_inv e processes marker generation obs old (visit_child e processes marker generation (snd p) ng)"
    using Cons.prems unfolding ng by (intro visit_child_inv) auto
  from Cons.IH [OF this] show ?case
    using Cons.prems(2) by (simp add: case_prod_unfold)
qed simp

definition pruned :: "guard_snapshot \<Rightarrow> ChildGuard \<Rightarrow> ChildGuard" where
  "pruned processes g = g\<lparr>cg_ReleasedChildren := prune_times processes (cg_ReleasedChildren g),
     cg_Observations := prune_observations processes (cg_Observations g),
     cg_Processed := prune_times processes (cg_Processed g)\<rparr>"

lemma pruned_sel [simp]:
  "cg_ReleasedChildren (pruned processes g) = prune_times processes (cg_ReleasedChildren g)"
  "cg_Observations (pruned processes g) = prune_observations processes (cg_Observations g)"
  "cg_Processed (pruned processes g) = prune_times processes (cg_Processed g)"
  "cg_registry (pruned processes g) = cg_registry g"
  "cg_terminated (pruned processes g) = cg_terminated g"
  by (simp_all add: pruned_def)

lemma check_eq:
  assumes "gc_marker e = Some (marker, generation)" and "gc_snapshot e = Some processes"
  shows "CheckSuspendedChildren e g =
    (let (next_obs, h) = fold (\<lambda>(_, child). visit_child e processes marker generation child) processes ([], pruned processes g)
     in h\<lparr>cg_Observations := next_obs\<rparr>)"
  using assms by (simp add: CheckSuspendedChildren_def pruned_def Let_def)

lemma check_due:
  assumes "gc_marker e = Some (marker, generation)" and "gc_snapshot e = Some processes"
  shows "(\<exists>new. cg_terminated (CheckSuspendedChildren e g) = cg_terminated g @ new \<and>
      list_all (due e processes marker generation (cg_Observations g)) new) \<and>
    (\<forall>pid ob. (pid, ob) \<in> set (cg_Observations (CheckSuspendedChildren e g)) \<longrightarrow>
      (\<exists>child. sn_processId child = pid \<and> same_run child ob \<and> candidate e processes marker generation child))"
proof -
  let ?obs = "prune_observations processes (cg_Observations g)"
  have "loop_inv e processes marker generation ?obs (cg_terminated g) ([], pruned processes g)"
    by (simp add: loop_inv_def)
  from visit_children_inv [OF this order.refl] obtain next_obs h where
    l: "loop_inv e processes marker generation ?obs (cg_terminated g) (next_obs, h)"
    and h: "fold (\<lambda>(_, child). visit_child e processes marker generation child) processes ([], pruned processes g) = (next_obs, h)"
    by (metis surj_pair)
  have "list_all (due e processes marker generation (cg_Observations g)) new"
    if "list_all (due e processes marker generation ?obs) new" for new
    using that by (auto simp: list_all_iff due_def prune_observations_def) blast
  then show ?thesis
    using l by (auto simp: check_eq [OF assms] h loop_inv_def)
qed

section \<open>Runs\<close>

fun effective :: "guard_input \<Rightarrow> bool" where
  "effective (Check e) \<longleftrightarrow> gc_marker e \<noteq> None \<and> gc_snapshot e \<noteq> None"
| "effective _ \<longleftrightarrow> False"

text \<open>The check \<open>e\<close> saw the process as a marked suspended orphan, with this much processor time used.\<close>

definition seen_orphan :: "GuardCheck \<Rightarrow> dword \<Rightarrow> qword \<Rightarrow> qword \<Rightarrow> bool" where
  "seen_orphan e pid createTime cpuTime \<longleftrightarrow>
     (\<exists>processes marker generation child.
        gc_marker e = Some (marker, generation) \<and> gc_snapshot e = Some processes \<and>
        candidate e processes marker generation child \<and>
        sn_processId child = pid \<and> sn_createTime child = createTime \<and> sn_cpuTime child = cpuTime)"

text \<open>Every observation stems from the last check that had a snapshot.\<close>

definition observations_recent :: "guard_input list \<Rightarrow> ChildGuard \<Rightarrow> bool" where
  "observations_recent is g \<longleftrightarrow>
     (\<forall>pid ob. (pid, ob) \<in> set (cg_Observations g) \<longrightarrow>
        (\<exists>is1 e is2. is = is1 @ Check e # is2 \<and> \<not> list_ex effective is2 \<and>
           seen_orphan e pid (ob_processCreateTime ob) (ob_cpuTime ob)))"

lemma guard_step_idle:
  assumes "\<not> effective i"
  shows "cg_Observations (guard_step i g) = cg_Observations g \<and> cg_terminated (guard_step i g) = cg_terminated g"
proof (cases i)
  case (Check e)
  then show ?thesis
    using assms by (auto simp: CheckSuspendedChildren_def split: option.splits)
qed auto

lemma observations_recent_step:
  assumes "observations_recent is g"
  shows "observations_recent (is @ [i]) (guard_step i g)"
proof (cases "effective i")
  case True
  then obtain e marker generation processes where
    e: "i = Check e" "gc_marker e = Some (marker, generation)" "gc_snapshot e = Some processes"
    by (cases i) auto
  have "seen_orphan e pid (ob_processCreateTime ob) (ob_cpuTime ob)"
    if "(pid, ob) \<in> set (cg_Observations (CheckSuspendedChildren e g))" for pid ob
    using check_due [OF e(2,3), of g] that e(2,3) unfolding seen_orphan_def same_run_def by metis
  then have "\<exists>is1 e' is2. is @ [Check e] = is1 @ Check e' # is2 \<and> \<not> list_ex effective is2 \<and>
      seen_orphan e' pid (ob_processCreateTime ob) (ob_cpuTime ob)"
    if "(pid, ob) \<in> set (cg_Observations (CheckSuspendedChildren e g))" for pid ob
    using that by (intro exI [of _ "is"] exI [of _ e] exI [of _ "[]"]) simp
  then show ?thesis
    unfolding observations_recent_def e(1) by simp
next
  case False
  show ?thesis
    unfolding observations_recent_def
  proof (intro allI impI)
    fix pid ob
    assume "(pid, ob) \<in> set (cg_Observations (guard_step i g))"
    then obtain is1 e is2 where "is = is1 @ Check e # is2" "\<not> list_ex effective is2"
        "seen_orphan e pid (ob_processCreateTime ob) (ob_cpuTime ob)"
      using assms guard_step_idle [OF False, of g] unfolding observations_recent_def by metis
    then show "\<exists>is1 e is2. is @ [i] = is1 @ Check e # is2 \<and> \<not> list_ex effective is2 \<and>
        seen_orphan e pid (ob_processCreateTime ob) (ob_cpuTime ob)"
      using False by (intro exI [of _ is1] exI [of _ e] exI [of _ "is2 @ [i]"]) auto
  qed
qed

lemma guard_run_snoc: "guard_run (is @ [i]) g = guard_step i (guard_run is g)"
  by (simp add: guard_run_def)

lemma observations_recent_run: "observations_recent is (guard_run is (ChildGuard_new r))"
proof (induction "is" rule: rev_induct)
  case Nil
  then show ?case
    by (simp add: observations_recent_def guard_run_def ChildGuard_new_def)
next
  case (snoc i "is")
  then show ?case
    unfolding guard_run_snoc by (rule observations_recent_step)
qed

text \<open>
  Two checks in a row, the second one being \<open>e\<close>: the process and its creation time, the single
  suspended thread, the age, the parent, the marker and the processor time all fit, and all but the
  age and the parent were read again before the end.
\<close>

definition termination_justified :: "guard_input list \<Rightarrow> GuardCheck \<Rightarrow> dword \<times> qword \<Rightarrow> bool" where
  "termination_justified is e victim \<longleftrightarrow>
     (\<exists>processes marker generation child is1 e0 is2.
        gc_marker e = Some (marker, generation) \<and> gc_snapshot e = Some processes \<and>
        victim = (sn_processId child, sn_createTime child) \<and> child \<in> snd ` set processes \<and>
        sn_threadCount child = 1 \<and> sn_onlyThreadSuspended child \<and>
        unat (sn_createTime child) + 600000000 \<le> unat (gc_now e) \<and>
        (case omap_find processes (sn_parentProcessId child) of None \<Rightarrow> True
         | Some parent \<Rightarrow> sn_parentProcessId child = 0 \<or> sn_createTime child < sn_createTime parent) \<and>
        guarded (sn_processId child) marker (gc_remote e (sn_processId child)) \<and>
        rechecked e marker child \<and>
        is = is1 @ Check e0 # is2 \<and> \<not> list_ex effective is2 \<and>
        seen_orphan e0 (sn_processId child) (sn_createTime child) (sn_cpuTime child))"

lemma orphan_facts:
  assumes "suspended_orphan processes generation now child"
  shows "sn_threadCount child = 1 \<and> sn_onlyThreadSuspended child \<and> unat (sn_createTime child) + 600000000 \<le> unat now \<and>
    (case omap_find processes (sn_parentProcessId child) of None \<Rightarrow> True
     | Some parent \<Rightarrow> sn_parentProcessId child = 0 \<or> sn_createTime child < sn_createTime parent)"
proof -
  have "sn_createTime child \<le> now" "600000000 \<le> now - sn_createTime child"
    using assms by (auto simp: suspended_orphan_def)
  then have "unat (sn_createTime child) + 600000000 \<le> unat now"
    by (simp add: word_le_nat_alt unat_sub)
  then show ?thesis
    using assms by (auto simp: suspended_orphan_def split: option.splits)
qed

text \<open>
  C21. In every run a check never forgets an earlier termination and only terminates processes
  for which it is justified: the process is at least 60 seconds old, has one thread, which is
  suspended, its parent is gone, its environment holds the marker, and the previous check that had
  a snapshot already saw the same process like this with the same processor time. Just before the
  end the creation time, the single suspended thread with its id, the processor time and the
  marker, but not the parent and the age, are read a second time, and the handle belongs to the
  process with that creation time.
\<close>

theorem guard_terminations_justified:
  "let before = cg_terminated (guard_run is (ChildGuard_new r));
       after = cg_terminated (guard_run (is @ [Check e]) (ChildGuard_new r))
   in take (length before) after = before \<and> list_all (termination_justified is e) (drop (length before) after)"
proof (cases "effective (Check e)")
  case True
  then obtain marker generation processes where e: "gc_marker e = Some (marker, generation)" "gc_snapshot e = Some processes"
    by auto
  let ?g = "guard_run is (ChildGuard_new r)"
  obtain new where new: "cg_terminated (CheckSuspendedChildren e ?g) = cg_terminated ?g @ new"
      "list_all (due e processes marker generation (cg_Observations ?g)) new"
    using check_due [OF e, of ?g] by blast
  have "termination_justified is e victim" if v: "due e processes marker generation (cg_Observations ?g) victim" for victim
  proof -
    obtain child ob where c: "victim = (sn_processId child, sn_createTime child)" "candidate e processes marker generation child"
        "rechecked e marker child" "(sn_processId child, ob) \<in> set (cg_Observations ?g)" "same_run child ob"
      using v by (auto simp: due_def)
    then obtain is1 e0 is2 where "is = is1 @ Check e0 # is2" "\<not> list_ex effective is2"
        "seen_orphan e0 (sn_processId child) (sn_createTime child) (sn_cpuTime child)"
      using observations_recent_run [of "is" r] unfolding observations_recent_def same_run_def by metis
    then show ?thesis
      using c(1-3) e orphan_facts [of processes generation "gc_now e" child]
      unfolding termination_justified_def candidate_def by blast
  qed
  then show ?thesis
    using new by (auto simp: guard_run_snoc list_all_iff)
next
  case False
  then show ?thesis
    using guard_step_idle [OF False] by (simp add: guard_run_snoc)
qed

section \<open>Released children\<close>

text \<open>
  Inputs that leave the release of a process in force: the process is in every snapshot, and no
  release under its id but with another creation time is accepted.
\<close>

fun release_kept :: "dword \<Rightarrow> qword \<Rightarrow> guard_arrival \<Rightarrow> bool" where
  "release_kept pid t (ReleasedArrives pid' t' actual) \<longleftrightarrow> pid' \<noteq> pid \<or> t' = t \<or> t' = 0 \<or> actual = Some t"
| "release_kept pid t _ \<longleftrightarrow> True"

fun child_kept :: "dword \<Rightarrow> qword \<Rightarrow> guard_input \<Rightarrow> bool" where
  "child_kept pid t (Check e) \<longleftrightarrow>
     (case gc_snapshot e of None \<Rightarrow> True
      | Some processes \<Rightarrow> map_option sn_createTime (omap_find processes pid) = Some t \<and>
          list_all (\<lambda>(_, child). list_all (release_kept pid t) (gc_arrivals e (sn_processId child))) processes)"
| "child_kept pid t (Arrival a) \<longleftrightarrow> release_kept pid t a"
| "child_kept pid t (RegistryPruned s) \<longleftrightarrow> True"

text \<open>The release is in force and the process was terminated \<open>n\<close> times.\<close>

definition release_inv :: "dword \<Rightarrow> qword \<Rightarrow> nat \<Rightarrow> ChildGuard \<Rightarrow> bool" where
  "release_inv pid t n g \<longleftrightarrow> omap_find (cg_ReleasedChildren g) pid = Some t \<and> count_list (cg_terminated g) (pid, t) = n"

lemma release_arrive:
  "release_kept pid t a \<Longrightarrow> release_inv pid t n g \<Longrightarrow> release_inv pid t n (arrive a g)"
  by (cases a) (auto simp: release_inv_def RegisterReleasedChild_def RegisterProcessIdentity_def UpdateProcessHookResult_def
      split: option.splits prod.splits if_splits)

lemma release_arrivals:
  "list_all (release_kept pid t) as \<Longrightarrow> release_inv pid t n g \<Longrightarrow> release_inv pid t n (fold arrive as g)"
  by (induction as arbitrary: g) (auto intro: release_arrive)

lemma release_excludes: "release_inv pid t n g \<Longrightarrow> sn_processId child = pid \<Longrightarrow> sn_createTime child = t \<Longrightarrow> excluded g child"
  by (auto simp: excluded_def release_inv_def)

lemma release_terminate:
  assumes "release_inv pid t n g" and "list_all (release_kept pid t) (gc_arrivals e (sn_processId child))"
  shows "release_inv pid t n (terminate_child e marker child g)"
proof -
  let ?h = "fold arrive (gc_arrivals e (sn_processId child)) g"
  have h: "release_inv pid t n ?h"
    using assms by (rule release_arrivals [rotated])
  then have "\<not> excluded ?h child \<Longrightarrow> (sn_processId child, sn_createTime child) \<noteq> (pid, t)"
    using release_excludes by blast
  then show ?thesis
    using h assms(1) by (auto simp: terminate_child_eq Let_def release_inv_def)
qed

lemma release_visits:
  assumes "release_inv pid t n (snd ng)"
    and "list_all (\<lambda>(_, child). list_all (release_kept pid t) (gc_arrivals e (sn_processId child))) ps"
  shows "release_inv pid t n (snd (fold (\<lambda>(_, child). visit_child e processes marker generation child) ps ng))"
  using assms
proof (induction ps arbitrary: ng)
  case (Cons p ps)
  obtain next_obs g where ng: "ng = (next_obs, g)"
    by (meson surj_pair)
  have "release_inv pid t n (snd (visit_child e processes marker generation (snd p) ng))"
    using Cons.prems release_terminate [of pid t n g e "snd p" marker]
    by (auto simp: ng visit_child_def Let_def case_prod_unfold)
  from Cons.IH [OF this] show ?case
    using Cons.prems(2) by (simp add: case_prod_unfold)
qed simp

lemma omap_find_filter_key:
  "omap_find m pid = Some v \<Longrightarrow> P (pid, v) \<Longrightarrow> omap_find (filter P m) pid = Some v"
  by (induction m) (auto split: if_splits)

lemma release_step:
  assumes "release_inv pid t n g" and "child_kept pid t i"
  shows "release_inv pid t n (guard_step i g)"
proof (cases "effective i")
  case True
  then obtain e marker generation processes where
    e: "i = Check e" "gc_marker e = Some (marker, generation)" "gc_snapshot e = Some processes"
    by (cases i) auto
  have "release_inv pid t n (snd ([] :: (dword, SuspendedChildObservation) omap, pruned processes g))"
    using assms e by (simp add: release_inv_def prune_times_def omap_find_filter_key)
  from release_visits [OF this, of e processes processes marker generation]
  show ?thesis
    using assms(2) e by (simp add: check_eq [OF e(2,3)] release_inv_def case_prod_unfold Let_def)
next
  case False
  with assms show ?thesis
  proof (cases i)
    case (Check e)
    then have "guard_step i g = g"
      using False by (auto simp: CheckSuspendedChildren_def split: option.splits)
    then show ?thesis
      using assms(1) by simp
  next
    case (Arrival a)
    with assms show ?thesis
      by (simp add: release_arrive)
  next
    case (RegistryPruned s)
    with assms show ?thesis
      by (simp add: release_inv_def)
  qed
qed

text \<open>
  C34. Once the release of a child was accepted, no check terminates it, whatever is registered and
  checked afterwards, as long as the snapshots still show the process and no release with its id
  and another creation time is accepted.
\<close>

theorem released_child_survives:
  assumes "RegisterReleasedChild pid t actual g = (True, g')" and "list_all (child_kept pid t) is"
  shows "count_list (cg_terminated (guard_run is g')) (pid, t) = count_list (cg_terminated g) (pid, t)"
proof -
  have start: "release_inv pid t (count_list (cg_terminated g) (pid, t)) g'"
    using assms(1) by (auto simp: release_inv_def RegisterReleasedChild_def split: if_splits)
  have "release_inv pid t (count_list (cg_terminated g) (pid, t)) (guard_run is g')"
    using assms(2) start unfolding guard_run_def
    by (induction "is" arbitrary: g') (auto intro: release_step)
  then show ?thesis
    by (simp add: release_inv_def)
qed

section \<open>Orphans\<close>

text \<open>No other thread registers anything while the check runs.\<close>

definition quiet :: "GuardCheck \<Rightarrow> bool" where
  "quiet e \<longleftrightarrow> (\<forall>pid. gc_arrivals e pid = [])"

lemma visit_frame:
  assumes "quiet e" and "visit_child e processes marker generation child (next_obs, g) = (next_obs', g')"
  shows "cg_ReleasedChildren g' = cg_ReleasedChildren g \<and> cg_registry g' = cg_registry g \<and>
    cg_Observations g' = cg_Observations g \<and> set (cg_terminated g) \<subseteq> set (cg_terminated g') \<and>
    (sn_processId child \<noteq> pid \<longrightarrow> ((pid, t) \<in> set (cg_Processed g') \<longrightarrow> (pid, t) \<in> set (cg_Processed g)) \<and>
       omap_find next_obs' pid = omap_find next_obs pid)"
  using assms set_omap_put [of "sn_processId child" "sn_createTime child" "cg_Processed g"]
  by (auto simp: visit_child_def Let_def terminate_child_eq quiet_def split: if_splits)

lemma visits_frame:
  assumes "quiet e" and "fold (\<lambda>(_, child). visit_child e processes marker generation child) ps (next_obs, g) = (next_obs', g')"
  shows "cg_ReleasedChildren g' = cg_ReleasedChildren g \<and> cg_registry g' = cg_registry g \<and>
    cg_Observations g' = cg_Observations g \<and> set (cg_terminated g) \<subseteq> set (cg_terminated g') \<and>
    (pid \<notin> sn_processId ` snd ` set ps \<longrightarrow> ((pid, t) \<in> set (cg_Processed g') \<longrightarrow> (pid, t) \<in> set (cg_Processed g)) \<and>
       omap_find next_obs' pid = omap_find next_obs pid)"
  using assms(2)
proof (induction ps arbitrary: next_obs g)
  case (Cons p ps)
  obtain next1 g1 where v: "visit_child e processes marker generation (snd p) (next_obs, g) = (next1, g1)"
    by (meson surj_pair)
  have "fold (\<lambda>(_, child). visit_child e processes marker generation child) ps (next1, g1) = (next_obs', g')"
    using Cons.prems v by (simp add: case_prod_unfold)
  from Cons.IH [OF this] visit_frame [OF assms(1) v, of pid t] show ?case
    by auto
qed simp

text \<open>The check sees the child as a marked orphan in a well-formed snapshot.\<close>

definition orphan_in :: "GuardCheck \<Rightarrow> guard_snapshot \<Rightarrow> 16 word list \<Rightarrow> qword \<Rightarrow> ChildGuardProcessSnapshot \<Rightarrow> bool" where
  "orphan_in e processes marker generation child \<longleftrightarrow>
     gc_marker e = Some (marker, generation) \<and> gc_snapshot e = Some processes \<and> snapshot_ok processes \<and>
     candidate e processes marker generation child"

lemma snapshot_split:
  assumes "snapshot_ok processes" and "child \<in> snd ` set processes"
  obtains ps1 ps2 where "processes = ps1 @ (sn_processId child, child) # ps2"
    "sn_processId child \<notin> sn_processId ` snd ` set ps1" "sn_processId child \<notin> sn_processId ` snd ` set ps2"
proof -
  obtain ps1 k ps2 where p: "processes = ps1 @ (k, child) # ps2"
    using assms(2) by (metis imageE split_list surjective_pairing)
  have key: "sn_processId (snd q) = fst q" if "q \<in> set processes" for q
    using assms(1) that by (auto simp: snapshot_ok_def list_all_iff snapshot_entry_ok_def)
  have "k = sn_processId child"
    using key [of "(k, child)"] p by simp
  moreover have "k \<notin> sn_processId ` snd ` set ps1" "k \<notin> sn_processId ` snd ` set ps2"
    using assms(1) key p by (fastforce simp: snapshot_ok_def omap_ok_def image_iff)+
  ultimately show ?thesis
    using that p by blast
qed

lemma prune_times_subset: "omap_find m pid = None \<Longrightarrow> omap_find (filter P m) pid = None"
  by (induction m) (auto split: if_splits)

text \<open>An unprotected child: neither registered nor released nor already terminated.\<close>

definition unprotected :: "ChildGuard \<Rightarrow> ChildGuardProcessSnapshot \<Rightarrow> bool" where
  "unprotected g child \<longleftrightarrow> Registry_Get (sn_processId child) (sn_createTime child) (cg_registry g) = None \<and>
     (sn_processId child, sn_createTime child) \<notin> set (cg_ReleasedChildren g) \<and>
     (sn_processId child, sn_createTime child) \<notin> set (cg_Processed g)"

lemma unprotected_not_excluded:
  "unprotected g child \<Longrightarrow> \<not> excluded g child \<and> omap_find (cg_Processed g) (sn_processId child) \<noteq> Some (sn_createTime child)"
  by (auto simp: unprotected_def excluded_def dest: omap_find_member)

text \<open>A check of a quiet system, at the child: the loop split around it.\<close>

lemma check_at_child:
  assumes "orphan_in e processes marker generation child" and "quiet e" and "unprotected g child"
  obtains next1 g1 next2 g2 where
    "omap_find next1 (sn_processId child) = None" and "cg_Observations g1 = prune_observations processes (cg_Observations g)"
    and "\<not> excluded g1 child" and "omap_find (cg_Processed g1) (sn_processId child) \<noteq> Some (sn_createTime child)"
    and "unprotected g1 child" and "visit_child e processes marker generation child (next1, g1) = (next2, g2)"
    and "omap_find (cg_Observations (CheckSuspendedChildren e g)) (sn_processId child) = omap_find next2 (sn_processId child)"
    and "set (cg_terminated g2) \<subseteq> set (cg_terminated (CheckSuspendedChildren e g))"
    and "unprotected g2 child \<Longrightarrow> unprotected (CheckSuspendedChildren e g) child"
proof -
  let ?v = "\<lambda>(_, child). visit_child e processes marker generation child"
  let ?pid = "sn_processId child"
  have e: "gc_marker e = Some (marker, generation)" "gc_snapshot e = Some processes"
    and ok: "snapshot_ok processes" and c: "candidate e processes marker generation child"
    using assms(1) by (auto simp: orphan_in_def)
  obtain ps1 ps2 where p: "processes = ps1 @ (?pid, child) # ps2"
      "?pid \<notin> sn_processId ` snd ` set ps1" "?pid \<notin> sn_processId ` snd ` set ps2"
    using snapshot_split [OF ok] c unfolding candidate_def by blast
  obtain next1 g1 where 1: "fold ?v ps1 ([], pruned processes g) = (next1, g1)"
    by (meson surj_pair)
  obtain next2 g2 where 2: "visit_child e processes marker generation child (next1, g1) = (next2, g2)"
    by (meson surj_pair)
  obtain next3 g3 where 3: "fold ?v ps2 (next2, g2) = (next3, g3)"
    by (meson surj_pair)
  have all: "fold ?v processes ([], pruned processes g) = (next3, g3)"
    by (subst p(1)) (simp add: 1 2 3)
  note f1 = visits_frame [OF assms(2) 1, of ?pid "sn_createTime child"]
    and f3 = visits_frame [OF assms(2) 3, of ?pid "sn_createTime child"]
  have check: "CheckSuspendedChildren e g = g3\<lparr>cg_Observations := next3\<rparr>"
    by (simp add: check_eq [OF e] all)
  have u: "unprotected g1 child"
    using assms(3) f1 p(2) by (auto simp: unprotected_def prune_times_def)
  moreover have "unprotected g2 child \<Longrightarrow> unprotected g3 child"
    using f3 p(3) by (auto simp: unprotected_def)
  then have "unprotected g2 child \<Longrightarrow> unprotected (CheckSuspendedChildren e g) child"
    by (simp add: check unprotected_def)
  ultimately show ?thesis
    using unprotected_not_excluded [OF u] f1 f3 p(2,3) 2 by (intro that [of next1 g1 next2 g2]) (simp_all add: check)
qed

lemma unprotected_same:
  "sn_processId child = sn_processId child' \<Longrightarrow> sn_createTime child = sn_createTime child' \<Longrightarrow>
   unprotected g child = unprotected g child'"
  by (simp add: unprotected_def)

text \<open>
  C35. A suspended, marked orphan that two checks in a row see with the same processor time is
  terminated by the second check, provided that it is not protected (not registered, not released
  and not already processed), has no earlier observation, nothing is registered during the two
  checks, the second reading before the end shows the same facts, and the system lets the
  service open and terminate the process.
\<close>

theorem orphan_is_terminated:
  assumes "orphan_in e1 processes1 marker generation1 child1" and "orphan_in e2 processes2 marker generation2 child2"
    and "sn_processId child2 = sn_processId child1" and "sn_createTime child2 = sn_createTime child1"
    and "sn_cpuTime child2 = sn_cpuTime child1"
    and "quiet e1" and "quiet e2" and "unprotected g child1"
    and "omap_find (cg_Observations g) (sn_processId child1) = None" and "rechecked e2 marker child2"
  shows "(sn_processId child1, sn_createTime child1)
    \<in> set (cg_terminated (CheckSuspendedChildren e2 (CheckSuspendedChildren e1 g)))"
proof -
  let ?pid = "sn_processId child1"
  let ?g = "CheckSuspendedChildren e1 g"
  obtain next1 g1 next2 g2 where
    a: "cg_Observations g1 = prune_observations processes1 (cg_Observations g)"
      "\<not> excluded g1 child1" "omap_find (cg_Processed g1) ?pid \<noteq> Some (sn_createTime child1)" "unprotected g1 child1"
      "visit_child e1 processes1 marker generation1 child1 (next1, g1) = (next2, g2)"
      "omap_find (cg_Observations ?g) ?pid = omap_find next2 ?pid"
      "unprotected g2 child1 \<Longrightarrow> unprotected ?g child1"
    using check_at_child [OF assms(1,6,8)] by metis
  have "omap_find (cg_Observations g1) ?pid = None"
    using assms(9) by (simp add: a(1) prune_observations_def prune_times_subset)
  then have first: "ob_consecutiveChecks (observe g1 child1) = 1"
    by (simp add: observe_def)
  have v: "next2 = omap_put ?pid (observe g1 child1) next1" "g2 = g1"
    using a(2,3,5) assms(1) first by (auto simp: visit_child_def Let_def orphan_in_def candidate_def)
  have obs: "omap_find (cg_Observations ?g) ?pid = Some (observe g1 child1)"
    by (simp add: a(6) v)
  have "unprotected ?g child2"
    using a(4,7) v assms(3,4) unprotected_same [of child2 child1] by simp
  then obtain next3 g3 next4 g4 where
    b: "cg_Observations g3 = prune_observations processes2 (cg_Observations ?g)"
      "\<not> excluded g3 child2" "omap_find (cg_Processed g3) (sn_processId child2) \<noteq> Some (sn_createTime child2)"
      "visit_child e2 processes2 marker generation2 child2 (next3, g3) = (next4, g4)"
      "set (cg_terminated g4) \<subseteq> set (cg_terminated (CheckSuspendedChildren e2 ?g))"
    using check_at_child [OF assms(2,7)] by metis
  have ok2: "snapshot_ok processes2" "child2 \<in> snd ` set processes2"
    using assms(2) by (auto simp: orphan_in_def candidate_def)
  have c2: "(sn_processId child2, child2) \<in> set processes2" "omap_ok processes2"
    using snapshot_split [OF ok2] ok2(1) by (fastforce, simp add: snapshot_ok_def)
  then have "omap_find processes2 (sn_processId child2) = Some child2"
    by (simp add: omap_find_in)
  then have "omap_find (cg_Observations g3) (sn_processId child2) = Some (observe g1 child1)"
    using obs assms(3,4) by (simp add: b(1) prune_observations_def omap_find_filter_key observe_def)
  then have "ob_consecutiveChecks (observe g3 child2) = 2"
    using assms(4,5) first by (simp add: observe_def)
  then have "g4 = terminate_child e2 marker child2 g3"
    using b(2,3,4) assms(2) by (auto simp: visit_child_def Let_def orphan_in_def candidate_def)
  then have "(sn_processId child2, sn_createTime child2) \<in> set (cg_terminated g4)"
    using assms(7,10) b(2) by (simp add: terminate_child_eq Let_def quiet_def)
  then show ?thesis
    using b(5) assms(3,4) by auto
qed

section \<open>Witnesses\<close>

text \<open>A process with the environment string \<open>A=1\<close>, and checks of it 60 and 70 seconds after its start.\<close>

definition sample_remote :: RemoteProcess where
  "sample_remote = \<lparr>rp_opened = True, rp_wow64 = False, rp_query = True, rp_wow64Peb = None, rp_peb = Some 4096,
     rp_region = (\<lambda>a. Some (True, 12298)),
     rp_read = (\<lambda>a n. if a = 4128 then Some [0, 32, 0, 0, 0, 0, 0, 0]
       else if a = 8320 then Some [0, 48, 0, 0, 0, 0, 0, 0]
       else if a = 12288 then Some [65, 0, 61, 0, 49, 0, 0, 0, 0, 0] else None)\<rparr>"

definition sample_child :: ChildGuardProcessSnapshot where
  "sample_child = \<lparr>sn_processId = 8, sn_parentProcessId = 4, sn_threadId = 12, sn_threadCount = 1, sn_createTime = 1000,
     sn_cpuTime = 3, sn_onlyThreadSuspended = True\<rparr>"

definition sample_check :: "qword \<Rightarrow> GuardCheck" where
  "sample_check now = \<lparr>gc_marker = Some ([65], 500), gc_snapshot = Some [(8, sample_child)], gc_now = now,
     gc_remote = (\<lambda>_. sample_remote), gc_again = (\<lambda>_. Some [(8, sample_child)]), gc_remoteAgain = (\<lambda>_. sample_remote),
     gc_arrivals = (\<lambda>_. []), gc_open = (\<lambda>_. Some (Some 1000)), gc_terminate = (\<lambda>_. True)\<rparr>"

lemma sample_guarded: "guarded 8 [65] sample_remote"
  by (simp add: guarded_def RemoteProcessHasChildGuard_def remote_environment_def sample_remote_def ReadRemotePointer_def
      ReadRemoteEnvironmentBlock_def environment_loop.simps chunk_size_def bytes_qword_def marker_scan.simps marker_entry_def
      wcsnicmp_eq_def)

lemma sample_orphan: "orphan_in (sample_check 600001000) [(8, sample_child)] [65] 500 sample_child"
    "orphan_in (sample_check 700001000) [(8, sample_child)] [65] 500 sample_child"
  using sample_guarded
  by (simp_all add: orphan_in_def sample_check_def snapshot_ok_def omap_ok_def snapshot_entry_ok_def candidate_def suspended_orphan_def
      sample_child_def)

lemma orphan_is_terminated_witness:
  "(8, 1000) \<in> set (cg_terminated (CheckSuspendedChildren (sample_check 700001000)
     (CheckSuspendedChildren (sample_check 600001000) (ChildGuard_new []))))"
  using orphan_is_terminated [OF sample_orphan, of "ChildGuard_new []"] sample_guarded
  by (simp add: sample_child_def sample_check_def quiet_def unprotected_def ChildGuard_new_def Registry_Get_def rechecked_def
      still_suspended_def)

lemma released_child_survives_witness:
  "count_list (cg_terminated (guard_run [Check (sample_check 600001000), Check (sample_check 700001000)]
     (snd (RegisterReleasedChild 8 1000 None (ChildGuard_new []))))) (8, 1000) = 0"
  using released_child_survives [of 8 1000 None "ChildGuard_new []" "snd (RegisterReleasedChild 8 1000 None (ChildGuard_new []))"
      "[Check (sample_check 600001000), Check (sample_check 700001000)]"]
  by (simp add: RegisterReleasedChild_def ChildGuard_new_def sample_check_def sample_child_def)

end
