(* ===== verification/ReceptionRuns.thy ===== *)
theory ReceptionRuns
  imports Reception MgrBooks TcpRuns UdpRuns GuardRuns
begin

text \<open>
  What the reception centre guarantees: the list of registered clients has one entry per socket; a
  registered connection becomes a task for the destination it was registered with; every accepted
  socket is either closed or handed to exactly one task. And what it does not: an older entry with
  the same endpoint takes the connection of a newer one.
\<close>

section \<open>The list of clients\<close>

lemma replace_client_subset: "set (replace_client c L) \<subseteq> insert c (set L)"
  by (induction c L rule: replace_client.induct) auto

lemma replace_client_other: "d \<in> set L \<Longrightarrow> \<not> same_socket c d \<Longrightarrow> d \<in> set (replace_client c L)"
  by (induction c L rule: replace_client.induct) auto

lemma replace_client_new: "c \<in> set (replace_client c L)"
  by (induction c L rule: replace_client.induct) auto

lemma replace_client_append: "list_all (\<lambda>d. \<not> same_socket c d) L \<Longrightarrow> replace_client c L = L @ [c]"
  by (induction c L rule: replace_client.induct) auto

lemma take_client_Some:
  "take_client pop sa L = Some (c, ds) \<Longrightarrow> matches_peer sa c \<and> c \<in> set L \<and> set ds \<subseteq> set L \<and>
     (\<forall>d \<in> set L. \<not> matches_peer sa d \<longrightarrow> d \<in> set ds)"
  by (induction pop sa L arbitrary: ds rule: take_client.induct) (auto split: if_splits)

lemma take_client_None: "take_client pop sa L = None \<longleftrightarrow> list_all (\<lambda>d. \<not> matches_peer sa d) L"
  by (induction pop sa L rule: take_client.induct) auto

lemma take_client_append: "take_client pop sa L = Some (c, ds) \<Longrightarrow> take_client pop sa (L @ L') = Some (c, ds @ L')"
  by (induction pop sa L arbitrary: ds rule: take_client.induct) (auto split: if_splits)

definition one_per_socket :: "PRCClient list \<Rightarrow> bool" where
  "one_per_socket L \<longleftrightarrow> sorted_wrt (\<lambda>a b. \<not> same_socket a b) L"

lemma same_socket_sym: "same_socket a b \<longleftrightarrow> same_socket b a"
  by (auto simp: same_socket_def)

lemma same_socket_trans: "same_socket a b \<Longrightarrow> same_socket a c \<longleftrightarrow> same_socket b c"
  by (auto simp: same_socket_def)

lemma one_per_socket_replace: "one_per_socket L \<Longrightarrow> one_per_socket (replace_client c L)"
proof (induction c L rule: replace_client.induct)
  case (2 c d ds)
  show ?case
  proof (cases "same_socket c d")
    case True
    then show ?thesis
      using 2(2) same_socket_trans [OF True] by (auto simp: one_per_socket_def)
  next
    case False
    then have "\<forall>x \<in> set (replace_client c ds). \<not> same_socket d x"
      using 2(2) replace_client_subset [of c ds] by (auto simp: one_per_socket_def same_socket_sym)
    then show ?thesis
      using 2 False by (auto simp: one_per_socket_def)
  qed
qed (simp add: one_per_socket_def)

lemma one_per_socket_take: "take_client pop sa L = Some (c, ds) \<Longrightarrow> one_per_socket L \<Longrightarrow> one_per_socket ds"
proof (induction pop sa L arbitrary: ds rule: take_client.induct)
  case (2 pop sa d L)
  show ?case
  proof (cases "matches_peer sa d")
    case False
    then obtain ds' where ds: "take_client pop sa L = Some (c, ds')" "ds = d # ds'"
      using 2(2) by auto
    have "set ds' \<subseteq> set L"
      using take_client_Some [OF ds(1)] by blast
    then show ?thesis
      using 2(1) [OF False ds(1)] 2(3) ds(2) by (auto simp: one_per_socket_def)
  qed (use 2 in \<open>auto simp: one_per_socket_def split: if_splits\<close>)
qed simp

section \<open>What the operations leave alone\<close>

lemma report_sel [simp]:
  "rc_RegisteredClient (report ev rc) = rc_RegisteredClient rc" "rc_tcp (report ev rc) = rc_tcp rc"
  "rc_closed (report ev rc) = rc_closed rc"
  by (simp_all add: report_def)

lemma close_accepted_sel [simp]:
  "rc_RegisteredClient (close_accepted s rc) = rc_RegisteredClient rc" "rc_tcp (close_accepted s rc) = rc_tcp rc"
  "rc_closed (close_accepted s rc) = rc_closed rc @ [s]"
  by (simp_all add: close_accepted_def)

text \<open>The record that a successful TCP registration stores.\<close>

definition stored_client :: "('s, 'q) ReceptionEnv \<Rightarrow> PRCClient \<Rightarrow> PRCClient" where
  "stored_client e c =
     (if NeedsQuery c then case Settings_GetProxyInfo (re_settings e) c of None \<Rightarrow> c | Some (c, _) \<Rightarrow> c else c)\<lparr>c_reserved := re_tick e\<rparr>"

lemma RegisterTCPClient_cases:
  obtains (rejected) c' where "RegisterTCPClient e c rc =
      (False, c', (report (ConnectionFailure c' STAGE_IPV6_ROUTE WSAENETUNREACH) rc)\<lparr>rc_lastError := WSAENETUNREACH\<rparr>)"
    | (stored) "RegisterTCPClient e c rc =
        (True, stored_client e c, rc\<lparr>rc_RegisteredClient := replace_client (stored_client e c) (rc_RegisteredClient rc)\<rparr>)"
proof -
  obtain rejected c' where q: "(if NeedsQuery c
      then case Settings_GetProxyInfo (re_settings e) c of
        None \<Rightarrow> (False, c) | Some (c, route) \<Rightarrow> (Route_ShouldReject c route (re_route e), c)
      else (False, c)) = (rejected, c')"
    by (meson surj_pair)
  have "c'\<lparr>c_reserved := re_tick e\<rparr> = stored_client e c"
    using q by (auto simp: stored_client_def split: if_splits option.splits prod.splits)
  then show ?thesis
    using that by (cases rejected) (simp_all add: RegisterTCPClient_def q Let_def)
qed

lemma OnRegister_frame:
  "rc_RegisteredClient (snd (snd (OnRegister e c rc))) = rc_RegisteredClient rc"
  "rc_tcp (snd (snd (OnRegister e c rc))) = rc_tcp rc" "rc_closed (snd (snd (OnRegister e c rc))) = rc_closed rc"
  by (simp_all add: OnRegister_def OnLocalThreadRegister_def Let_def case_prod_unfold split: option.split)

lemma RegisterClient_list:
  "rc_RegisteredClient (snd (snd (RegisterClient e c rc))) =
     (if fst (RegisterClient e c rc) \<and> sType c = SOCK_STREAM
      then replace_client (stored_client e c) (rc_RegisteredClient rc) else rc_RegisteredClient rc)"
proof (cases rule: RegisterTCPClient_cases [of e c rc])
  case rejected
  then show ?thesis
    using OnRegister_frame [of e c rc] by (auto simp: RegisterClient_def)
next
  case stored
  then show ?thesis
    using OnRegister_frame [of e c rc] by (auto simp: RegisterClient_def)
qed

lemma RegisterClient_frame:
  "rc_tcp (snd (snd (RegisterClient e c rc))) = rc_tcp rc" "rc_closed (snd (snd (RegisterClient e c rc))) = rc_closed rc"
  by (cases rule: RegisterTCPClient_cases [of e c rc]; auto simp: RegisterClient_def OnRegister_frame)+

lemma accept_task_list [simp]: "rc_RegisteredClient (accept_task e s c pi rc) = rc_RegisteredClient rc"
  by (auto simp: accept_task_def Let_def split: prod.splits)

definition accepted_list :: "(qword \<times> sockaddr option) option \<Rightarrow> PRCClient list \<Rightarrow> PRCClient list" where
  "accepted_list acc L =
     (case acc of Some (_, Some sa) \<Rightarrow> (case take_client True sa L of None \<Rightarrow> L | Some (_, ds) \<Rightarrow> ds) | _ \<Rightarrow> L)"

lemma OnAccept_list:
  "rc_RegisteredClient (Server_OnAccept e acc rc) = accepted_list acc (rc_RegisteredClient rc)"
  by (auto simp: Server_OnAccept_def GetClientInfo_def accepted_list_def Let_def split: option.splits prod.splits)

lemma UnregisterClient_list:
  "rc_RegisteredClient (snd (UnregisterClient c rc)) =
     (if sType c = SOCK_STREAM then filter (\<lambda>d. \<not> same_socket c d) (rc_RegisteredClient rc) else rc_RegisteredClient rc)"
  by (auto simp: UnregisterClient_def Let_def split: prod.splits)

lemma Rc_OnTimer_list:
  "rc_RegisteredClient (Rc_OnTimer now check rc) = filter (\<lambda>d. \<not> 60000 < now - c_reserved d) (rc_RegisteredClient rc)"
  by (simp add: Rc_OnTimer_def kick_out_def)

lemmas list_simps = RegisterClient_list OnAccept_list UnregisterClient_list Rc_OnTimer_list

lemma one_per_socket_step: "one_per_socket (rc_RegisteredClient rc) \<Longrightarrow> one_per_socket (rc_RegisteredClient (rc_step i rc))"
  by (cases i) (auto simp: list_simps one_per_socket_replace accepted_list_def one_per_socket_def [of "filter _ _"]
      one_per_socket_def [of "rc_RegisteredClient rc"] sorted_wrt_filter
      intro: one_per_socket_take split: option.splits prod.splits)

lemma one_per_socket_run: "one_per_socket (rc_RegisteredClient rc) \<Longrightarrow> one_per_socket (rc_RegisteredClient (rc_run is rc))"
  unfolding rc_run_def by (induction "is" arbitrary: rc) (auto intro: one_per_socket_step)

text \<open>
  Whatever is registered, unregistered, accepted and expired: the list of registered clients
  never has two entries for the same socket, that is for the same process, creation time, socket
  generation and handle.
\<close>

theorem registered_once_per_socket:
  "one_per_socket (rc_RegisteredClient (rc_run is (Reception_new w r)))"
  by (intro one_per_socket_run) (simp add: Reception_new_def one_per_socket_def)

section \<open>A registered connection\<close>

text \<open>
  Inputs that leave the registration \<open>c\<close> in place for a connection from \<open>sa\<close>: other sockets and
  other endpoints, and timers within 60 seconds.
\<close>

fun registration_kept :: "sockaddr \<Rightarrow> PRCClient \<Rightarrow> ('s, 'q) rc_input \<Rightarrow> bool" where
  "registration_kept sa c (RcRegister e d) \<longleftrightarrow>
     sType d \<noteq> SOCK_STREAM \<or> \<not> same_socket (stored_client e d) c \<and> \<not> matches_peer sa (stored_client e d)"
| "registration_kept sa c (RcUnregister d) \<longleftrightarrow> sType d \<noteq> SOCK_STREAM \<or> \<not> same_socket d c"
| "registration_kept sa c (RcAccept e acc) \<longleftrightarrow>
     (case acc of Some (_, Some sa') \<Rightarrow> \<not> matches_peer sa' c | _ \<Rightarrow> True)"
| "registration_kept sa c (RcTimer now check) \<longleftrightarrow> now - c_reserved c \<le> 60000"
| "registration_kept sa c _ \<longleftrightarrow> True"

definition only_entry :: "sockaddr \<Rightarrow> PRCClient \<Rightarrow> PRCClient list \<Rightarrow> bool" where
  "only_entry sa c L \<longleftrightarrow> c \<in> set L \<and> (\<forall>d \<in> set L. matches_peer sa d \<longrightarrow> d = c)"

lemma only_entry_subset: "only_entry sa c L \<Longrightarrow> set L' \<subseteq> set L \<Longrightarrow> c \<in> set L' \<Longrightarrow> only_entry sa c L'"
  by (auto simp: only_entry_def)

lemma only_entry_replace:
  assumes "only_entry sa c L" and "\<not> same_socket d c" and "\<not> matches_peer sa d"
  shows "only_entry sa c (replace_client d L)"
  using assms replace_client_subset [of d L] replace_client_other [of c L d] by (auto simp: only_entry_def)

lemma only_entry_step:
  assumes "only_entry sa c (rc_RegisteredClient rc)" and "registration_kept sa c i"
  shows "only_entry sa c (rc_RegisteredClient (rc_step i rc))"
proof (cases i)
  case (RcRegister e d)
  then show ?thesis
    using assms by (auto simp: RegisterClient_list intro: only_entry_replace)
next
  case (RcUnregister d)
  then show ?thesis
    using assms by (auto simp: UnregisterClient_list only_entry_def)
next
  case (RcAccept e acc)
  have c: "c \<in> set (rc_RegisteredClient rc)"
    using assms(1) by (simp add: only_entry_def)
  show ?thesis
  proof (cases "\<exists>s sa' d ds. acc = Some (s, Some sa') \<and> take_client True sa' (rc_RegisteredClient rc) = Some (d, ds)")
    case True
    then obtain s sa' d ds where a: "acc = Some (s, Some sa')" "take_client True sa' (rc_RegisteredClient rc) = Some (d, ds)"
      by blast
    have "c \<in> set ds" "set ds \<subseteq> set (rc_RegisteredClient rc)"
      using take_client_Some [OF a(2)] c assms(2) RcAccept a(1) by auto
    then show ?thesis
      using only_entry_subset [OF assms(1)] a RcAccept by (simp add: OnAccept_list accepted_list_def)
  next
    case False
    then show ?thesis
      using assms(1) RcAccept by (auto simp: OnAccept_list accepted_list_def split: option.splits)
  qed
next
  case (RcTimer now check)
  then show ?thesis
    using assms by (auto simp: Rc_OnTimer_list only_entry_def not_less)
qed (use assms in auto)

lemma only_entry_run:
  "only_entry sa c (rc_RegisteredClient rc) \<Longrightarrow> list_all (registration_kept sa c) is \<Longrightarrow>
   only_entry sa c (rc_RegisteredClient (rc_run is rc))"
  unfolding rc_run_def by (induction "is" arbitrary: rc) (auto intro: only_entry_step)

lemma only_entry_taken:
  assumes "only_entry sa c L" and "matches_peer sa c"
  obtains ds where "take_client True sa L = Some (c, ds)"
proof -
  have "take_client True sa L \<noteq> None"
    using assms by (auto simp: take_client_None only_entry_def list_all_iff)
  then obtain d ds where t: "take_client True sa L = Some (d, ds)"
    by auto
  then have "d = c"
    using take_client_Some [OF t] assms(1) by (auto simp: only_entry_def)
  then show ?thesis
    using t that by simp
qed

text \<open>The route that the settings page gives a TCP connection.\<close>

definition page_route :: "PageRuntime \<Rightarrow> PRCClient \<Rightarrow> ProxyInfo" where
  "page_route pr c =
     (if pr_patterns pr \<noteq> [] \<and>
         list_ex (pr_PathMatchSpec pr (target_key pr c)) (pr_patterns pr) \<noteq> (pr_filterMode pr = TARGETFILTER_MODE_PROXY)
      then UseDirectConnection (pr_ProxyInfo pr) else pr_ProxyInfo pr)"

lemma Page1_stream:
  "sType c = SOCK_STREAM \<Longrightarrow>
   Settings_GetProxyInfo [Page1 pr] c = (if pr_runtimeSettingsValid pr then Some (c, page_route pr c) else None)"
  by (auto simp: Page1_def Page1_GetProxyInfo_def page_route_def Let_def)

lemma stored_client_Page1:
  "sType c = SOCK_STREAM \<Longrightarrow> re_settings e = [Page1 pr] \<Longrightarrow> stored_client e c = c\<lparr>c_reserved := re_tick e\<rparr>"
  by (simp add: stored_client_def Page1_stream del: Settings_GetProxyInfo.simps)

lemma matches_peer_reserved [simp]: "matches_peer sa (c\<lparr>c_reserved := n\<rparr>) = matches_peer sa c"
  by (simp add: matches_peer_def)

lemma target_key_sAccept [simp]: "target_key pr (c\<lparr>sAccept := s\<rparr>) = target_key pr c"
    "target_key pr (c\<lparr>c_reserved := n\<rparr>) = target_key pr c"
  by (simp_all add: target_key_def Let_def)

lemma page_route_same [simp]: "page_route pr (c\<lparr>sAccept := s\<rparr>) = page_route pr c"
    "page_route pr (c\<lparr>c_reserved := n\<rparr>) = page_route pr c"
  by (simp_all add: page_route_def)

text \<open>
  A TCP connection that a hooked process registered, from an endpoint that no other entry
  matches, keeps its entry under any registrations, removals, accepts and timers of others within
  60 seconds. When it then arrives at the listener, the task manager is asked for a task with exactly
  the registered destination and domain name and with the route that the target filter gives.
\<close>

theorem registered_connection_reaches_task:
  assumes "RegisterClient e c rc = (True, c', rc1)" and "sType c = SOCK_STREAM" and "re_settings e = [Page1 pr0]"
    and "matches_peer sa c" and "list_all (\<lambda>d. \<not> matches_peer sa d) (rc_RegisteredClient rc)"
    and "list_all (registration_kept sa c') is"
    and "re_settings e2 = [Page1 pr]" and "pr_runtimeSettingsValid pr"
    and "\<not> (bDisableLLMNR (pr_runtimeSettings pr) \<and> isLLMNR (szDomainName c))"
  shows "let rc2 = rc_run is rc1;
             d = snd (DnsRedirect_Apply (c'\<lparr>sAccept := s\<rparr>) (pr_runtimeSettings pr) (page_route pr c))
         in (\<exists>rc3. Server_OnAccept e2 (Some (s, Some sa)) rc2 = accept_task e2 s d (page_route pr c) rc3 \<and>
               rc_tcp rc3 = rc_tcp rc2 \<and> rc_closed rc3 = rc_closed rc2) \<and>
            dstAddr d = dstAddr c \<and> szDomainName d = szDomainName c \<and> sAccept d = s"
proof -
  have c': "c' = c\<lparr>c_reserved := re_tick e\<rparr>" and L: "rc_RegisteredClient rc1 = replace_client c' (rc_RegisteredClient rc)"
  proof -
    have reg: "RegisterTCPClient e c rc = (True, c', rc1)"
      using assms(1,2) by (auto simp: RegisterClient_def split: if_splits)
    show "c' = c\<lparr>c_reserved := re_tick e\<rparr>" "rc_RegisteredClient rc1 = replace_client c' (rc_RegisteredClient rc)"
      using reg stored_client_Page1 [OF assms(2,3)] by (cases rule: RegisterTCPClient_cases [of e c rc]; auto)+
  qed
  have "only_entry sa c' (rc_RegisteredClient rc1)"
    using assms(5) replace_client_subset [of c' "rc_RegisteredClient rc"] replace_client_new [of c' "rc_RegisteredClient rc"]
    by (auto simp: only_entry_def L list_all_iff)
  from only_entry_run [OF this assms(6)] obtain ds where t: "take_client True sa (rc_RegisteredClient (rc_run is rc1)) = Some (c', ds)"
    using only_entry_taken assms(4) c' by (metis matches_peer_reserved)
  let ?c = "c'\<lparr>sAccept := s\<rparr>"
  have p: "Settings_GetProxyInfo [Page1 pr] ?c = Some (?c, page_route pr c)"
    using assms(2,8) by (subst Page1_stream) (simp_all add: c')
  have st: "Settings_GetProxySettings [Page1 pr] = Some (pr_runtimeSettings pr)"
    using assms(8) by (simp add: Page1_def Page1_GetProxySettings_def)
  let ?d = "snd (DnsRedirect_Apply ?c (pr_runtimeSettings pr) (page_route pr c))"
  have d: "dstAddr ?d = dstAddr c \<and> szDomainName ?d = szDomainName c \<and> sAccept ?d = s"
    by (simp add: DnsRedirect_Apply_def Let_def c')
  show ?thesis
    using assms(9) d p st
    by (auto simp: Let_def Server_OnAccept_def GetClientInfo_def t assms(7) simp del: Settings_GetProxyInfo.simps Settings_GetProxySettings.simps)
qed

text \<open>
  A connection attempt can leave its entry behind, for example when its process ends before the
  connection arrives. An entry with the same endpoint that was registered earlier takes the
  connection of a later registration: the later connection is not served with its own
  destination until the earlier entry is gone.
\<close>

theorem older_registration_wins:
  assumes "RegisterClient e c rc = (True, c', rc1)" and "sType c = SOCK_STREAM"
    and "list_all (\<lambda>d. \<not> same_socket c' d) (rc_RegisteredClient rc)"
    and "list_ex (matches_peer sa) (rc_RegisteredClient rc)"
  shows "fst (GetClientInfo (Some sa) True rc1) \<noteq> Some c' \<and>
    fst (GetClientInfo (Some sa) True rc1) = fst (GetClientInfo (Some sa) True rc)"
proof -
  have reg: "RegisterTCPClient e c rc = (True, c', rc1)"
    using assms(1,2) by (auto simp: RegisterClient_def split: if_splits)
  then have L: "rc_RegisteredClient rc1 = rc_RegisteredClient rc @ [c']"
    using replace_client_append [OF assms(3)] by (cases rule: RegisterTCPClient_cases [of e c rc]) auto
  have "take_client True sa (rc_RegisteredClient rc) \<noteq> None"
    using assms(4) by (auto simp: take_client_None list_all_iff list_ex_iff)
  then obtain d ds where t: "take_client True sa (rc_RegisteredClient rc) = Some (d, ds)"
    by auto
  then have "d \<noteq> c'"
    using take_client_Some [OF t] assms(3) by (auto simp: list_all_iff same_socket_def)
  then show ?thesis
    using t take_client_append [OF t, of "[c']"] by (simp add: GetClientInfo_def L)
qed

section \<open>Accepted sockets\<close>

lemma Tm_OnNewTask_added:
  "Tm_OnNewTask env su now allocated c pi m = (ok, stage, m') \<Longrightarrow>
   tl_added (tm_tasklist m') = tl_added (tm_tasklist m) @ (if ok then [(tl_next (tm_tasklist m), c, pi)] else [])"
  by (auto simp: Tm_OnNewTask_def on_list_def add_task_def split: if_splits prod.splits bool.splits)

lemma ConnectProxy_client:
  "Tcp_ConnectProxy su c pi Server t = (ok, stage, t') \<Longrightarrow>
   tp_open (tt_peer t' Client) = tp_open (tt_peer t Client) \<and> tt_events t' = tt_events t \<and> stage \<noteq> STAGE_ATTACH"
  by (auto simp: Tcp_ConnectProxy_def AddProxyLayer_def enter_status_def update_monitor_def upd_def Let_def
      split: prod.splits if_splits option.splits)

lemma setup_failed_destroys:
  "TcpDestroyed Client \<in> set (tt_events (setup_failed env t)) \<longleftrightarrow>
   TcpDestroyed Client \<in> set (tt_events t) \<or> tp_open (tt_peer t Client)"
  by (simp add: setup_failed_def Let_def Tcp_destroy_def tell_def tap_def mitm_tell_def mitm_io_def split: option.splits prod.splits)

lemma SetTaskInfo_destroys:
  fixes env :: "'s MitmEnv"
  assumes "Tcp_SetTaskInfo env su c pi (TcpTask_new now) = (False, stage, t)"
  shows "TcpDestroyed Client \<in> set (tt_events t) \<longleftrightarrow> stage = STAGE_ATTACH"
proof (cases "su_MitmEnabled su \<and> su_MitmInitialize su = None")
  case True
  with assms show ?thesis
    by (auto simp: Tcp_SetTaskInfo_def setup_failed_destroys TcpTask_new_def TcpPeer_new_def)
next
  case False
  define t0 :: "'s TcpTask" where "t0 = (TcpTask_new now)\<lparr>tt_alive := True, tt_PRCClient := c, tt_ProxyInfo := pi\<rparr>"
  define t1 where "t1 = (if su_MitmEnabled su then t0\<lparr>tt_pMitm := map_option Mitm_new (su_MitmInitialize su)\<rparr>
      else t0\<lparr>tt_pProtocol := su_TapEnabled su\<rparr>)"
  obtain ok st t2 where c: "Tcp_ConnectProxy su c pi Server t1 = (ok, st, t2)" by (meson prod_cases3)
  have t2: "\<not> tp_open (tt_peer t2 Client)" "tt_events t2 = []" "st \<noteq> STAGE_ATTACH"
    using ConnectProxy_client [OF c] by (simp_all add: t1_def t0_def TcpTask_new_def TcpPeer_new_def)
  show ?thesis
    using assms False c t2
    by (auto simp: Tcp_SetTaskInfo_def Let_def setup_failed_destroys upd_def simp flip: t0_def t1_def split: if_splits option.splits)
qed

text \<open>A failed \<open>Attach\<close> closes the socket in the destructor of the client's peer.\<close>

lemma Tm_OnNewTask_closed:
  assumes "Tm_OnNewTask env su now allocated c pi m = (ok, stage, m')"
  shows "tm_closed m' = tm_closed m @ (if \<not> ok \<and> stage = STAGE_ATTACH then [sAccept c] else [])"
proof (cases allocated)
  case False
  with assms show ?thesis by (auto simp: Tm_OnNewTask_def)
next
  case True
  obtain b st t where s: "Tcp_SetTaskInfo env su c pi (TcpTask_new now) = (b, st, t)" by (meson prod_cases3)
  show ?thesis
    using assms True s SetTaskInfo_destroys [of env su c pi now st t]
    by (cases b) (auto simp: Tm_OnNewTask_def on_list_def)
qed

lemma Tm_OnNewTask_attach:
  "Tm_OnNewTask env su now allocated c pi m = (False, STAGE_ATTACH, m') \<Longrightarrow> su_Attach su \<noteq> None"
  by (auto simp: Tm_OnNewTask_def Tcp_SetTaskInfo_def Let_def dest: ConnectProxy_client
      split: if_splits prod.splits bool.splits option.splits)

lemma swept_added:
  assumes "\<And>i t l gone t' l'. f i t l = (gone, t', l') \<Longrightarrow> tl_added l' = tl_added l"
  shows "tl_added (swept f l) = tl_added l"
proof -
  obtain ts l' where s: "sweep f (tl_tasklist l) l = (ts, l')"
    by (meson surj_pair)
  have "tl_added l' = tl_added l"
    using sweep_list_inv [where f = f and I = "\<lambda>_ l'. tl_added l' = tl_added l", OF _ refl s] assms by metis
  then show ?thesis
    by (simp add: swept_def s)
qed

lemma fold_deleted_added: "tl_added (fold (\<lambda>(i, t). OnDelTask i (g t)) ts l) = tl_added l"
  by (induction ts arbitrary: l) (auto simp: OnDelTask_def)

fun adds_task :: "'s tcp_mgr_input \<Rightarrow> bool" where
  "adds_task (TmNew su now allocated c pi) \<longleftrightarrow> True"
| "adds_task _ \<longleftrightarrow> False"

lemma tcp_mgr_step_closed: "\<not> adds_task i \<Longrightarrow> tm_closed (tcp_mgr_step env i m) = tm_closed m"
  by (cases i) (auto simp: Tm_OnTimer_def Tm_OnDeleteTask_def Tm_RemoveAllTasks_def PrepareReconnect_def CompleteReconnect_def
      on_list_def split: option.splits mgr_timer.splits)

lemma tcp_mgr_step_added:
  assumes "\<not> adds_task i"
  shows "tl_added (tm_tasklist (tcp_mgr_step env i m)) = tl_added (tm_tasklist m)"
proof (cases i)
  case (TmTimer ev now procs)
  have "tl_added (swept (tcp_timer_visit env now) l) = tl_added l" "tl_added (swept (tcp_alive_visit procs) l) = tl_added l" for l
    by (rule swept_added; auto simp: tcp_timer_visit_def tcp_alive_visit_def OnDelTask_def Let_def split: if_splits)+
  then show ?thesis
    using TmTimer by (cases ev) (simp_all add: Tm_OnTimer_def on_list_def kill_timers_if_empty_def)
qed (use assms in \<open>auto simp: Tm_OnDeleteTask_def Tm_RemoveAllTasks_def PrepareReconnect_def CompleteReconnect_def on_list_def
  kill_timers_if_empty_def OnDelTask_def fold_deleted_added split: option.splits\<close>)

text \<open>The accepted sockets of the inputs, and where they are: closed, or with a task.\<close>

fun accepted_socket :: "('s, 'q) rc_input \<Rightarrow> qword list" where
  "accepted_socket (RcAccept e acc) = (case acc of None \<Rightarrow> [] | Some (s, _) \<Rightarrow> [s])"
| "accepted_socket _ = []"

definition task_sockets :: "('s, 'q) Reception \<Rightarrow> qword list" where
  "task_sockets rc = map (\<lambda>(_, c, _). sAccept c) (tl_added (tm_tasklist (rc_tcp rc)))"

text \<open>Tasks only come from the listener, and the settings page answers it.\<close>

fun listener_only :: "('s, 'q) rc_input \<Rightarrow> bool" where
  "listener_only (RcAccept e acc) \<longleftrightarrow> (\<exists>pr. re_settings e = [Page1 pr])"
| "listener_only (TcpStep env i) \<longleftrightarrow> \<not> adds_task i"
| "listener_only _ \<longleftrightarrow> True"

lemma accept_task_sockets:
  "mset (rc_closed (accept_task e s c pi rc)) + mset (task_sockets (accept_task e s c pi rc)) =
   mset (rc_closed rc) + mset (task_sockets rc) + {# if fst (Tm_OnNewTask (re_mitm e) (re_setup e) (re_tick e) (re_allocated e) c pi (rc_tcp rc))
     then sAccept c else s #}"
proof -
  obtain ok stage m where t: "Tm_OnNewTask (re_mitm e) (re_setup e) (re_tick e) (re_allocated e) c pi (rc_tcp rc) = (ok, stage, m)"
    by (meson prod_cases3)
  show ?thesis
    using Tm_OnNewTask_added [OF t] by (simp add: accept_task_def t Let_def task_sockets_def)
qed

lemma Page1_sAccept:
  "Settings_GetProxyInfo [Page1 pr] c = Some (d, pi) \<Longrightarrow> sAccept d = sAccept c"
  by (auto simp: Page1_def Page1_GetProxyInfo_def Let_def split: if_splits)

lemma DnsRedirect_sAccept [simp]: "sAccept (snd (DnsRedirect_Apply c st pi)) = sAccept c"
  by (simp add: DnsRedirect_Apply_def Let_def)

text \<open>An accepted socket is closed at once or goes to \<open>accept_task\<close>.\<close>

lemma OnAccept_cases:
  assumes "re_settings e = [Page1 pr]"
  obtains (none) "acc = None" "Server_OnAccept e acc rc = rc"
  | (refused) s peer rc1 ev where "acc = Some (s, peer)" "rc_closed rc1 = rc_closed rc" "rc_tcp rc1 = rc_tcp rc"
      "Server_OnAccept e acc rc = close_accepted s (report ev rc1)"
  | (task) s peer rc1 d pi where "acc = Some (s, peer)" "rc_closed rc1 = rc_closed rc" "rc_tcp rc1 = rc_tcp rc"
      "sAccept d = s" "Server_OnAccept e acc rc = accept_task e s d pi rc1"
proof (cases acc)
  case None
  then show thesis by (simp add: none Server_OnAccept_def)
next
  case (Some a)
  obtain s peer where a: "a = (s, peer)" by (meson surj_pair)
  obtain found rc1 where g: "GetClientInfo peer True rc = (found, rc1)" by (meson surj_pair)
  have rc1: "rc_closed rc1 = rc_closed rc" "rc_tcp rc1 = rc_tcp rc"
    using g by (auto simp: GetClientInfo_def split: option.splits)
  note on = Server_OnAccept_def Some a g Let_def
  show thesis
  proof (cases found)
    case None
    then show thesis using refused [of s peer rc1 NotRegistered] rc1 by (simp add: on)
  next
    case (Some c)
    let ?c = "c\<lparr>sAccept := s\<rparr>"
    let ?rc = "rc1\<lparr>rc_guard := ResolveProcPath e (dwPid ?c) (rc_guard rc1)\<rparr>"
    have rc: "rc_closed ?rc = rc_closed rc" "rc_tcp ?rc = rc_tcp rc" using rc1 by simp_all
    show thesis
    proof (cases "Settings_GetProxyInfo (re_settings e) ?c")
      case None
      with Some show thesis using refused [OF _ rc, of s peer] \<open>acc = Some a\<close> a by (simp add: on)
    next
      case q: (Some r)
      obtain d pi where r: "r = (d, pi)" by (meson surj_pair)
      have d: "sAccept d = s" using Page1_sAccept [of pr ?c d pi] q r assms by simp
      show thesis
      proof (cases "Settings_GetProxySettings (re_settings e)")
        case None
        with Some q r show thesis using refused [OF _ rc, of s peer] \<open>acc = Some a\<close> a by (simp add: on)
      next
        case psi: (Some psi)
        show thesis
        proof (cases "bDisableLLMNR psi \<and> isLLMNR (szDomainName (snd (DnsRedirect_Apply d psi pi)))")
          case True
          with Some q r psi show thesis using refused [OF _ rc, of s peer] \<open>acc = Some a\<close> a by (simp add: on)
        next
          case False
          then have "Server_OnAccept e acc rc = accept_task e s (snd (DnsRedirect_Apply d psi pi)) pi ?rc"
            using Some q r psi by (auto simp: on)
          moreover have "sAccept (snd (DnsRedirect_Apply d psi pi)) = s" using d by simp
          ultimately show thesis using task [OF _ rc] \<open>acc = Some a\<close> a by blast
        qed
      qed
    qed
  qed
qed

lemma OnAccept_sockets:
  assumes "re_settings e = [Page1 pr]"
  shows "mset (rc_closed (Server_OnAccept e acc rc)) + mset (task_sockets (Server_OnAccept e acc rc)) =
    mset (rc_closed rc) + mset (task_sockets rc) + mset (accepted_socket (RcAccept e acc))"
  using assms
proof (cases rule: OnAccept_cases [of e pr acc rc])
  case (refused s peer rc1 ev)
  then show ?thesis by (simp add: task_sockets_def)
next
  case (task s peer rc1 d pi)
  then show ?thesis using accept_task_sockets [of e s d pi rc1] by (simp add: task_sockets_def)
qed simp

lemma step_sockets:
  assumes "listener_only i"
  shows "mset (rc_closed (rc_step i rc)) + mset (task_sockets (rc_step i rc)) =
    mset (rc_closed rc) + mset (task_sockets rc) + mset (accepted_socket i)"
proof (cases i)
  case (RcAccept e acc)
  then show ?thesis
    using assms OnAccept_sockets [of e _ acc rc] by auto
qed (use assms in \<open>auto simp: RegisterClient_frame task_sockets_def UnregisterClient_def Rc_OnTimer_def kick_out_def tcp_mgr_step_added
  Let_def split: prod.splits\<close>)

text \<open>
  The sockets that were closed before the listener closes them: the listener closes them
  too, and only a failed \<open>Attach\<close> makes one.
\<close>

fun attach_fails :: "('s, 'q) rc_input \<Rightarrow> bool" where
  "attach_fails (RcAccept e acc) \<longleftrightarrow> su_Attach (re_setup e) \<noteq> None"
| "attach_fails _ \<longleftrightarrow> False"

definition closed_early :: "('s, 'q) Reception \<Rightarrow> ('s, 'q) Reception \<Rightarrow> bool \<Rightarrow> bool" where
  "closed_early rc rc' may \<longleftrightarrow> (\<exists>xs ys. rc_closed rc' = rc_closed rc @ xs \<and> tm_closed (rc_tcp rc') = tm_closed (rc_tcp rc) @ ys \<and>
     mset ys \<subseteq># mset xs \<and> (ys \<noteq> [] \<longrightarrow> may))"

lemma closed_early_refl: "rc_closed rc' = rc_closed rc \<Longrightarrow> tm_closed (rc_tcp rc') = tm_closed (rc_tcp rc) \<Longrightarrow> closed_early rc rc' may"
  by (simp add: closed_early_def)

lemma closed_early_trans: "closed_early rc rc1 b \<Longrightarrow> closed_early rc1 rc2 c \<Longrightarrow> closed_early rc rc2 (b \<or> c)"
proof -
  assume "closed_early rc rc1 b" "closed_early rc1 rc2 c"
  then obtain xs ys xs' ys' where *: "rc_closed rc1 = rc_closed rc @ xs" "tm_closed (rc_tcp rc1) = tm_closed (rc_tcp rc) @ ys"
      "mset ys \<subseteq># mset xs" "ys \<noteq> [] \<longrightarrow> b" "rc_closed rc2 = rc_closed rc1 @ xs'"
      "tm_closed (rc_tcp rc2) = tm_closed (rc_tcp rc1) @ ys'" "mset ys' \<subseteq># mset xs'" "ys' \<noteq> [] \<longrightarrow> c"
    unfolding closed_early_def by blast
  then have "mset (ys @ ys') \<subseteq># mset (xs @ xs')" by (simp add: subset_mset.add_mono)
  with * show ?thesis unfolding closed_early_def by (intro exI [of _ "xs @ xs'"] exI [of _ "ys @ ys'"]) auto
qed

lemma accept_task_early:
  assumes "sAccept c = s"
  shows "closed_early rc (accept_task e s c pi rc) (su_Attach (re_setup e) \<noteq> None)"
proof -
  obtain ok stage m where t: "Tm_OnNewTask (re_mitm e) (re_setup e) (re_tick e) (re_allocated e) c pi (rc_tcp rc) = (ok, stage, m)"
    by (meson prod_cases3)
  have "\<not> ok \<and> stage = STAGE_ATTACH \<Longrightarrow> su_Attach (re_setup e) \<noteq> None"
    using t by (auto dest!: Tm_OnNewTask_attach)
  then show ?thesis
    using Tm_OnNewTask_closed [OF t] assms by (auto simp: closed_early_def accept_task_def t Let_def)
qed

lemma step_early:
  assumes "listener_only i"
  shows "closed_early rc (rc_step i rc) (attach_fails i)"
proof (cases i)
  case (RcAccept e acc)
  then obtain pr where "re_settings e = [Page1 pr]" using assms by auto
  then show ?thesis
  proof (cases rule: OnAccept_cases [of e pr acc rc])
    case (refused s peer rc1 ev)
    with RcAccept show ?thesis by (simp add: closed_early_def)
  next
    case (task s peer rc1 d pi)
    then show ?thesis using RcAccept accept_task_early [of d s rc1 e pi] by (simp add: closed_early_def)
  qed (use RcAccept in \<open>simp add: closed_early_refl\<close>)
qed (use assms in \<open>auto intro!: closed_early_refl simp: RegisterClient_frame UnregisterClient_def Rc_OnTimer_def kick_out_def
  tcp_mgr_step_closed Let_def split: prod.splits\<close>)

lemma run_early: "list_all listener_only is \<Longrightarrow> closed_early rc (rc_run is rc) (list_ex attach_fails is)"
  unfolding rc_run_def
proof (induction "is" arbitrary: rc)
  case (Cons i "is")
  then show ?case using closed_early_trans [OF step_early [of i rc] Cons.IH [of "rc_step i rc"]] by simp
qed (simp add: closed_early_refl)

text \<open>
  C8. No accepted socket is lost: in every run in which tasks come from the listener and the
  settings page answers it, the sockets that were accepted are, as a multiset, those that the
  listener closed again and those that were handed to a task. A socket whose \<open>Attach\<close> fails is
  closed twice, first by the deletion of the failed task and then by the listener: the
  sockets closed by a deletion are among those that the listener closes, and there are
  none when \<open>Attach\<close> never fails.
\<close>

theorem accepted_sockets_accounted:
  assumes "list_all listener_only is" and "rc = rc_run is (Reception_new w r)"
  shows "mset (concat (map accepted_socket is)) = mset (rc_closed rc) + mset (task_sockets rc) \<and>
    mset (tm_closed (rc_tcp rc)) \<subseteq># mset (rc_closed rc) \<and>
    (list_all (\<lambda>i. \<not> attach_fails i) is \<longrightarrow> tm_closed (rc_tcp rc) = [])"
proof -
  have sockets: "mset (rc_closed (rc_run is rc)) + mset (task_sockets (rc_run is rc)) =
      mset (rc_closed rc) + mset (task_sockets rc) + mset (concat (map accepted_socket is))"
    if "list_all listener_only is" for rc
    using that unfolding rc_run_def
    by (induction "is" arbitrary: rc) (simp_all add: step_sockets del: rc_step.simps)
  have new: "rc_closed (Reception_new w r) = []" "task_sockets (Reception_new w r) = []" "tm_closed (rc_tcp (Reception_new w r)) = []"
    by (simp_all add: Reception_new_def task_sockets_def TcpMgr_new_def TaskList_new_def)
  have "list_all (\<lambda>i. \<not> attach_fails i) is \<Longrightarrow> \<not> list_ex attach_fails is"
    by (auto simp: list_all_iff list_ex_iff)
  then show ?thesis
    using sockets [OF assms(1), of "Reception_new w r"] run_early [OF assms(1), of "Reception_new w r"]
    by (auto simp: assms(2) new closed_early_def)
qed

text \<open>The double close happens: an accepted and registered connection whose \<open>Attach\<close> fails.\<close>

lemma attach_failure_closes_twice:
  assumes "Tm_OnNewTask (re_mitm e) (re_setup e) (re_tick e) (re_allocated e) c pi (rc_tcp rc) = (False, STAGE_ATTACH, m)"
    and "sAccept c = s"
  shows "rc_closed (accept_task e s c pi rc) = rc_closed rc @ [s] \<and>
    tm_closed (rc_tcp (accept_task e s c pi rc)) = tm_closed (rc_tcp rc) @ [s]"
  using Tm_OnNewTask_closed [OF assms(1)] assms by (simp add: accept_task_def Let_def)

section \<open>Witnesses\<close>

definition sample_page :: PageRuntime where
  "sample_page = \<lparr>pr_runtimeSettingsValid = True, pr_ProxyInfo = example_proxy, pr_runtimeSettings = example_settings,
     pr_filterMode = 0, pr_patterns = [], pr_PathMatchSpec = (\<lambda>_ _. False), pr_InetNtop6 = (\<lambda>_. [])\<rparr>"

definition sample_env :: "dword \<Rightarrow> (unit, unit) ReceptionEnv" where
  "sample_env now = \<lparr>re_settings = [Page1 sample_page], re_route = None, re_created = (\<lambda>_. None), re_image = (\<lambda>_. None),
     re_tick = now, re_mitm = env_idle, re_setup = su_direct, re_allocated = True, re_udp = env_noquic\<rparr>"

text \<open>A connection from port 5000 to the given host, registered by the given process.\<close>

definition sample_client :: "dword \<Rightarrow> cstr \<Rightarrow> PRCClient" where
  "sample_client pid host = PRCClient_zero\<lparr>dwPid := pid, PRCClient.processCreateTime := 1, socketGeneration := 1, sType := 1,
     c_s := 9, szDomainName := host, srcAddr := example_sa4 0x0100007F 5000, dstAddr := example_sa4 0x0100FF7F 443\<rparr>"

abbreviation (input) "sample_rc \<equiv> (Reception_new world_fresh [] :: (unit, unit) Reception)"

lemma sample_registered:
  assumes "pid \<noteq> 0"
  shows "RegisterClient (sample_env now) (sample_client pid host) rc =
    (True, (sample_client pid host)\<lparr>c_reserved := now\<rparr>,
     rc\<lparr>rc_RegisteredClient := replace_client ((sample_client pid host)\<lparr>c_reserved := now\<rparr>) (rc_RegisteredClient rc)\<rparr>)"
proof -
  have "\<not> NeedsQuery (sample_client pid host)"
    by (simp add: NeedsQuery_def sample_client_def PRCClient_zero_def GetProxyDestination_def HasProxyDestination_def example_sa4_def
        sa_SetPort_def sa_IsIPv6_def Let_def)
  then show ?thesis
    using assms by (simp add: RegisterClient_def RegisterTCPClient_def sample_env_def) (simp add: sample_client_def PRCClient_zero_def Let_def)
qed

lemma sample_matches: "matches_peer (example_sa4 0x0100007F 5000) (sample_client pid host)"
  by (simp add: matches_peer_def sample_client_def example_sa4_def sa_SameAddress_def sa_SetPort_def sa_IsIPv4_def sa_IsIPv6_def)

theorem registered_connection_reaches_task_witness:
  "let c = (sample_client 7 ''a.example'')\<lparr>c_reserved := 100\<rparr>;
       rc2 = rc_run [RcTimer 50000 (sample_check 0)] (sample_rc\<lparr>rc_RegisteredClient := [c]\<rparr>);
       d = snd (DnsRedirect_Apply (c\<lparr>sAccept := 11\<rparr>) example_settings (page_route sample_page (sample_client 7 ''a.example'')))
   in (\<exists>rc3. Server_OnAccept (sample_env 60000) (Some (11, Some (example_sa4 0x0100007F 5000))) rc2 =
         accept_task (sample_env 60000) 11 d (page_route sample_page (sample_client 7 ''a.example'')) rc3 \<and>
         rc_tcp rc3 = rc_tcp rc2 \<and> rc_closed rc3 = rc_closed rc2) \<and>
      dstAddr d = dstAddr (sample_client 7 ''a.example'') \<and> szDomainName d = szDomainName (sample_client 7 ''a.example'') \<and> sAccept d = 11"
proof -
  have reg: "RegisterClient (sample_env 100) (sample_client 7 ''a.example'') sample_rc =
      (True, (sample_client 7 ''a.example'')\<lparr>c_reserved := 100\<rparr>,
       sample_rc\<lparr>rc_RegisteredClient := [(sample_client 7 ''a.example'')\<lparr>c_reserved := 100\<rparr>]\<rparr>)"
    by (subst sample_registered) (simp_all add: Reception_new_def)
  have st: "pr_runtimeSettings sample_page = example_settings" "\<not> isLLMNR (szDomainName (sample_client 7 ''a.example''))"
    by (simp_all add: sample_page_def isLLMNR_def sample_client_def)
  show ?thesis
    using registered_connection_reaches_task [OF reg _ _ sample_matches, of sample_page "[RcTimer 50000 (sample_check 0)]" "sample_env 60000" sample_page 11]
      st by (simp add: sample_env_def Reception_new_def sample_page_def sample_client_def)
qed

theorem older_registration_wins_witness:
  "fst (GetClientInfo (Some (example_sa4 0x0100007F 5000)) True
     (snd (snd (RegisterClient (sample_env 200) (sample_client 8 ''b.example'')
       (sample_rc\<lparr>rc_RegisteredClient := [sample_client 7 ''a.example'']\<rparr>))))) = Some (sample_client 7 ''a.example'')"
proof -
  let ?rc = "sample_rc\<lparr>rc_RegisteredClient := [sample_client 7 ''a.example'']\<rparr>"
  have reg: "RegisterClient (sample_env 200) (sample_client 8 ''b.example'') ?rc =
      (True, (sample_client 8 ''b.example'')\<lparr>c_reserved := 200\<rparr>, snd (snd (RegisterClient (sample_env 200) (sample_client 8 ''b.example'') ?rc)))"
    by (simp add: sample_registered)
  have "fst (GetClientInfo (Some (example_sa4 0x0100007F 5000)) True ?rc) = Some (sample_client 7 ''a.example'')"
    by (simp add: GetClientInfo_def sample_matches)
  then show ?thesis
    using older_registration_wins [OF reg, of "example_sa4 0x0100007F 5000"] sample_matches
    by (simp add: same_socket_def) (simp add: sample_client_def)
qed

theorem accepted_sockets_accounted_witness:
  "mset [11] = mset (rc_closed (rc_run [RcAccept (sample_env 0) (Some (11, None))] sample_rc)) +
     mset (task_sockets (rc_run [RcAccept (sample_env 0) (Some (11, None))] sample_rc)) \<and>
   tm_closed (rc_tcp (rc_run [RcAccept (sample_env 0) (Some (11, None))] sample_rc)) = []"
proof -
  have "list_all listener_only [RcAccept (sample_env 0) (Some (11, None))]"
    "list_all (\<lambda>i. \<not> attach_fails i) [RcAccept (sample_env 0) (Some (11, None))]"
    by (auto simp: sample_env_def su_direct_def)
  from accepted_sockets_accounted [OF this(1) refl, of world_fresh "[]"] this(2) show ?thesis
    by simp
qed

end
