(* ===== verification/HookTables.thy ===== *)
theory HookTables
  imports Policies
begin

text \<open>
  The tables that the hook keeps inside a hooked process (\<open>HookWinsock.h\<close>): \<open>CDummyDNS\<close>, which
  hands out made-up addresses for host names and finds the name again when the address is used,
  and \<open>CHackedSocket\<close>, which remembers redirected sockets, their generations and payload limits,
  and decides whether a destination is redirected at all.

  The lists are used under their locks, so each operation is one step; only \<open>GetDummyIP\<close> looks a
  name up and inserts it under two separate locks. \<open>ReplaceAddr\<close> is not called by anyone and left
  out. Addresses are kept in network order, as in memory.
\<close>

section \<open>Made-up addresses\<close>

record DummyInfo =
  di_dummyIP :: dword
  di_dummyIPv6 :: bytes
  di_szHost :: cstr

record DummyDNS =
  dd_DummyIP :: dword
  dd_DummyHandle :: dword
  dd_ls :: "DummyInfo list"

definition DummyDNS_new :: DummyDNS where
  "DummyDNS_new = \<lparr>dd_DummyIP = 0x7fff0000, dd_DummyHandle = 0x520307, dd_ls = []\<rparr>"

definition IsDummyIP :: "dword \<Rightarrow> bool" where
  "IsDummyIP dwip \<longleftrightarrow> drop_bit 16 (ntohl dwip) = 0x7fff"

definition IsDummyIPv6 :: "bytes option \<Rightarrow> bool" where
  "IsDummyIPv6 address = (case address of None \<Rightarrow> False | Some b \<Rightarrow> b ! 0 = 0xfd \<and> b ! 1 = 0xff)"

definition GetNode :: "cstr \<Rightarrow> DummyDNS \<Rightarrow> DummyInfo option" where
  "GetNode name d = find (\<lambda>i. stricmp_eq name (di_szHost i)) (dd_ls d)"

text \<open>The name is cut to the 255 characters of the entry.\<close>

definition dummy_info :: "dword \<Rightarrow> cstr \<Rightarrow> DummyInfo" where
  "dummy_info ip host = \<lparr>di_dummyIP = ntohl ip, di_dummyIPv6 = [0xfd, 0xff] @ replicate 10 0 @ dword_bytes (ntohl ip),
     di_szHost = take 255 host\<rparr>"

definition insert_node :: "cstr \<Rightarrow> DummyDNS \<Rightarrow> dword \<times> DummyDNS" where
  "insert_node host d =
     (let next_ip = dd_DummyIP d + 1; ip = (if 0x7ffffffe < next_ip then 0x7fff0000 else next_ip)
      in (ntohl ip, d\<lparr>dd_DummyIP := ip, dd_ls := dummy_info ip host # dd_ls d\<rparr>))"

definition GetDummyIP :: "cstr \<Rightarrow> DummyDNS \<Rightarrow> dword \<times> DummyDNS" where
  "GetDummyIP host d = (case GetNode host d of Some n \<Rightarrow> (di_dummyIP n, d) | None \<Rightarrow> insert_node host d)"

definition GetDummyIPv6 :: "cstr \<Rightarrow> DummyDNS \<Rightarrow> bytes \<times> DummyDNS" where
  "GetDummyIPv6 host d =
     (let d' = (case GetNode host d of Some _ \<Rightarrow> d | None \<Rightarrow> snd (GetDummyIP host d))
      in (case GetNode host d' of Some n \<Rightarrow> di_dummyIPv6 n | None \<Rightarrow> replicate 16 0, d'))"

definition GetDummyHandle :: "cstr \<Rightarrow> DummyDNS \<Rightarrow> dword \<times> dword \<times> DummyDNS" where
  "GetDummyHandle host d =
     (let d = (if 0xffff0000 < dd_DummyHandle d then d\<lparr>dd_DummyHandle := 0x520307\<rparr> else d);
          (ip, d) = GetDummyIP host d
      in (dd_DummyHandle d, ip, d\<lparr>dd_DummyHandle := dd_DummyHandle d + 1\<rparr>))"

definition GetHostByIP :: "dword \<Rightarrow> nat \<Rightarrow> DummyDNS \<Rightarrow> cstr option" where
  "GetHostByIP ip bufsize d =
     map_option (\<lambda>i. take bufsize (di_szHost i)) (find (\<lambda>i. di_dummyIP i = ip) (dd_ls d))"

definition GetHostByIPv6 :: "bytes option \<Rightarrow> nat \<Rightarrow> DummyDNS \<Rightarrow> cstr option" where
  "GetHostByIPv6 address bufsize d =
     (case address of None \<Rightarrow> None
      | Some b \<Rightarrow> if bufsize = 0 then None
          else map_option (\<lambda>i. take (bufsize - 1) (di_szHost i)) (find (\<lambda>i. di_dummyIPv6 i = b) (dd_ls d)))"

text \<open>
  What the threads of the process do with the table; \<open>Insert\<close> is the insertion of a thread that
  looked the name up before another one inserted it.
\<close>

datatype dns_op = Resolve4 cstr | Resolve6 cstr | AsyncResolve cstr | Insert cstr

fun dns_step :: "dns_op \<Rightarrow> DummyDNS \<Rightarrow> DummyDNS" where
  "dns_step (Resolve4 host) d = snd (GetDummyIP host d)"
| "dns_step (Resolve6 host) d = snd (GetDummyIPv6 host d)"
| "dns_step (AsyncResolve host) d = snd (snd (GetDummyHandle host d))"
| "dns_step (Insert host) d = snd (insert_node host d)"

definition dns_run :: "dns_op list \<Rightarrow> DummyDNS \<Rightarrow> DummyDNS" where
  "dns_run ops d = fold dns_step ops d"

section \<open>Redirected sockets\<close>

datatype HookDecision = HOOK_BYPASS | HOOK_REDIRECTED | HOOK_FAILED

record SOCKETGEN =
  sg_s :: qword
  sg_sType :: int
  sg_generation :: qword

record UDP_PAYLOAD_LIMIT =
  ul_s :: qword
  ul_generation :: qword
  ul_destination :: sockaddr
  ul_domain :: cstr
  ul_maxPayload :: nat
  ul_connected :: bool

record HackedSocket =
  hs_ls :: "PRCClient list"
  hs_socketGenerations :: "SOCKETGEN list"
  hs_udpPayloadLimits :: "UDP_PAYLOAD_LIMIT list"
  hs_nextSocketGeneration :: qword

definition HackedSocket_new :: HackedSocket where
  "HackedSocket_new = \<lparr>hs_ls = [], hs_socketGenerations = [], hs_udpPayloadLimits = [], hs_nextSocketGeneration = 0\<rparr>"

definition GetSocketGeneration :: "qword \<Rightarrow> int \<Rightarrow> HackedSocket \<Rightarrow> qword \<times> HackedSocket" where
  "GetSocketGeneration s ty h =
     (case find (\<lambda>g. sg_s g = s \<and> sg_sType g = ty) (hs_socketGenerations h) of
        Some g \<Rightarrow> (sg_generation g, h)
      | None \<Rightarrow>
        let n = hs_nextSocketGeneration h + 1; n = (if n = 0 then n + 1 else n)
        in (n, h\<lparr>hs_nextSocketGeneration := n,
                 hs_socketGenerations := hs_socketGenerations h @ [\<lparr>sg_s = s, sg_sType = ty, sg_generation = n\<rparr>]\<rparr>))"

definition same_route :: "PRCClient \<Rightarrow> PRCClient \<Rightarrow> bool" where
  "same_route d c \<longleftrightarrow> c_s d = c_s c \<and> sType d = sType c \<and> sa_GetPort (srcAddr d) = sa_GetPort (srcAddr c) \<and>
     sa_eq (dstAddr d) (dstAddr c) \<and> stricmp_eq (szDomainName d) (szDomainName c)"

fun replace_first :: "('a \<Rightarrow> bool) \<Rightarrow> ('a \<Rightarrow> 'a) \<Rightarrow> 'a list \<Rightarrow> 'a list option" where
  "replace_first P f [] = None"
| "replace_first P f (x # xs) = (if P x then Some (f x # xs) else map_option ((#) x) (replace_first P f xs))"

definition Hs_push :: "PRCClient \<Rightarrow> HackedSocket \<Rightarrow> HackedSocket" where
  "Hs_push c h = h\<lparr>hs_ls := (case replace_first (\<lambda>d. same_route d c) (\<lambda>_. c) (hs_ls h) of
     Some ls \<Rightarrow> ls | None \<Rightarrow> c # hs_ls h)\<rparr>"

definition Hs_remove :: "qword \<Rightarrow> HackedSocket \<Rightarrow> nat \<times> PRCClient option \<times> HackedSocket" where
  "Hs_remove s h =
     (length (filter (\<lambda>c. c_s c = s) (hs_ls h)), find (\<lambda>c. c_s c = s) (hs_ls h),
      h\<lparr>hs_ls := filter (\<lambda>c. c_s c \<noteq> s) (hs_ls h),
        hs_socketGenerations := filter (\<lambda>g. sg_s g \<noteq> s) (hs_socketGenerations h),
        hs_udpPayloadLimits := filter (\<lambda>l. ul_s l \<noteq> s) (hs_udpPayloadLimits h)\<rparr>)"

definition limit_of :: "PRCClient \<Rightarrow> UDP_PAYLOAD_LIMIT \<Rightarrow> bool" where
  "limit_of c l \<longleftrightarrow> ul_s l = c_s c \<and> ul_generation l = socketGeneration c \<and> sa_eq (ul_destination l) (dstAddr c) \<and>
     stricmp_eq (ul_domain l) (szDomainName c)"

definition SetUDPMaxPayload :: "PRCClient \<Rightarrow> nat \<Rightarrow> bool \<Rightarrow> HackedSocket \<Rightarrow> HackedSocket" where
  "SetUDPMaxPayload c maxPayload connected h =
     (if sType c \<noteq> 2 then h
      else h\<lparr>hs_udpPayloadLimits :=
        (case replace_first (limit_of c) (\<lambda>l. l\<lparr>ul_maxPayload := maxPayload, ul_connected := connected\<rparr>) (hs_udpPayloadLimits h) of
           Some ls \<Rightarrow> ls
         | None \<Rightarrow> \<lparr>ul_s = c_s c, ul_generation = socketGeneration c, ul_destination = dstAddr c,
               ul_domain = take 255 (szDomainName c), ul_maxPayload = maxPayload, ul_connected = connected\<rparr> # hs_udpPayloadLimits h)\<rparr>)"

definition GetUDPMaxPayload :: "PRCClient \<Rightarrow> HackedSocket \<Rightarrow> nat option" where
  "GetUDPMaxPayload c h = map_option ul_maxPayload (find (limit_of c) (hs_udpPayloadLimits h))"

definition GetConnectedUDPMaxPayload :: "qword \<Rightarrow> HackedSocket \<Rightarrow> nat option" where
  "GetConnectedUDPMaxPayload s h = map_option ul_maxPayload (find (\<lambda>l. ul_s l = s \<and> ul_connected l) (hs_udpPayloadLimits h))"

definition Hs_GetInfo :: "qword \<Rightarrow> HackedSocket \<Rightarrow> PRCClient option" where
  "Hs_GetInfo s h = find (\<lambda>c. c_s c = s) (hs_ls h)"

text \<open>The network part of the addresses, and whether the proxy shares the first three bytes.\<close>

definition lan_bypass :: "dword \<Rightarrow> dword \<Rightarrow> bool" where
  "lan_bypass dst proxy =
     (let d = dword_bytes dst; p = dword_bytes proxy; other = (p ! 0 \<noteq> d ! 0 \<or> p ! 1 \<noteq> d ! 1 \<or> p ! 2 \<noteq> d ! 2) in
      if d ! 0 = 127 then p ! 0 \<noteq> 127
      else if d ! 0 = 192 \<and> d ! 1 = 168 then other
      else if d ! 0 = 172 \<and> 16 \<le> d ! 1 \<and> d ! 1 \<le> 131 then other
      else if d ! 0 = 10 then other
      else False)"

text \<open>\<open>inet_addr\<close> reads the proxy host as an address; \<open>reply\<close> is the answer of the service over the pipe.\<close>

definition CanHackIt :: "(cstr \<Rightarrow> dword) \<Rightarrow> ProxySettingsInfo \<Rightarrow> PRCClient \<Rightarrow> ProxyInfo option \<Rightarrow> HookDecision" where
  "CanHackIt inet_addr psi c reply =
     (case reply of None \<Rightarrow> HOOK_FAILED
      | Some pi \<Rightarrow>
        if ShouldRedirect c psi pi then HOOK_REDIRECTED
        else if IsDNValid c then HOOK_REDIRECTED
        else if sa_IsIPv6 (dstAddr c) then HOOK_REDIRECTED
        else
          let dstaddr = sa_GetdwIP (dstAddr c); proxyaddr = inet_addr (strProxyHost pi) in
          if dstaddr = 0 \<or> dstaddr = 0xFFFFFFFF then HOOK_BYPASS
          else if proxyaddr = 0 \<or> proxyaddr = 0xFFFFFFFF then HOOK_REDIRECTED
          else if bHookLanIP psi then HOOK_REDIRECTED
          else if lan_bypass dstaddr proxyaddr then HOOK_BYPASS else HOOK_REDIRECTED)"

definition udp_request_matches :: "PRCClient \<Rightarrow> PRCClient \<Rightarrow> bool" where
  "udp_request_matches c d \<longleftrightarrow> c_s d = c_s c \<and> sType d = 2 \<and>
     sa_GetPort (srcAddr d) = sa_GetPort (srcAddr c) \<and>
     (sa_IsAny (srcAddr d) \<or> sa_SameAddress (srcAddr d) (srcAddr c)) \<and>
     (if IsDNValid c
      then IsDNValid d \<and> stricmp_eq (szDomainName d) (szDomainName c) \<and> sa_GetPort (dstAddr d) = sa_GetPort (dstAddr c)
      else \<not> IsDNValid d \<and> sa_eq (dstAddr d) (dstAddr c))"

definition IsUDPReqHacked :: "PRCClient \<Rightarrow> HackedSocket \<Rightarrow> sockaddr option" where
  "IsUDPReqHacked c h = map_option udpAddr (find (udp_request_matches c) (hs_ls h))"

definition IsUDPRouteAddress :: "qword \<Rightarrow> sockaddr \<Rightarrow> HackedSocket \<Rightarrow> bool" where
  "IsUDPRouteAddress s destination h =
     (if sa_family destination \<noteq> AF_INET \<and> sa_family destination \<noteq> AF_INET6 then False
      else list_ex (\<lambda>d. c_s d = s \<and> sType d = 2 \<and> sa_GetPort (udpAddr d) = sa_GetPort destination \<and>
        (sa_SameAddress (udpAddr d) destination \<or> sa_IsAny (udpAddr d) \<and> sa_IsLoopback destination)) (hs_ls h))"

end
