(* ===== verification/HookNet.thy ===== *)
theory HookNet
  imports HookTables UdpBlockLogLimiter UdpAssociationPolicy
begin

text \<open>
  The network hooks of \<open>HookWinsock.cpp\<close>: what a hooked process's call to \<open>connect\<close>, \<open>WSAConnect\<close>,
  \<open>ConnectEx\<close>, \<open>sendto\<close>, \<open>WSASendTo\<close>, \<open>WSASendMsg\<close>, \<open>getpeername\<close>, \<open>closesocket\<close> or the name resolution does
  to the original function: whether it is called and with which address.

  A call passes the locks of the tables one after the other; here one call is one step. A socket
  is known by its local name. Answers of the system and of the service over the pipe are inputs of
  the call. Traces and the notices for the QUIC policy, which keep the error number, are left out.
\<close>

section \<open>Addresses\<close>

definition NormalizeSocketAddress :: "sockaddr option \<Rightarrow> int \<Rightarrow> sockaddr option" where
  "NormalizeSocketAddress address len =
     (case address of None \<Rightarrow> None
      | Some a \<Rightarrow>
        if sa_family a = AF_INET \<and> 16 \<le> len then sa_Set (Some a) 16
        else if sa_family a \<noteq> AF_INET6 \<or> len < 28 then None
        else if \<not> IN6_IS_ADDR_V4MAPPED (sin6_addr a) then sa_Set (Some a) len
        else Some (sa_SetPort (ntohs (sin_port a))
          (sa_SetIPLong (bytes_dword (drop 12 (sin6_addr a))) (sa_Clear\<lparr>sa_family := AF_INET\<rparr>))))"

text \<open>The local name of a socket, as an endpoint for a destination of the given family.\<close>

definition socket_endpoint :: "word16 \<Rightarrow> sockaddr \<Rightarrow> sockaddr option" where
  "socket_endpoint family name =
     (if sa_family name = AF_INET then NormalizeSocketAddress (Some name) (sa_Size name)
      else if sa_family name \<noteq> AF_INET6 then None
      else if family = AF_INET6 \<and> \<not> IN6_IS_ADDR_V4MAPPED (sin6_addr name) then sa_Set (Some name) (sa_Size name)
      else if \<not> IN6_IS_ADDR_UNSPECIFIED (sin6_addr name) \<and> \<not> IN6_IS_ADDR_V4MAPPED (sin6_addr name) then None
      else let e = sa_Clear\<lparr>sa_family := AF_INET\<rparr>;
               e = (if IN6_IS_ADDR_V4MAPPED (sin6_addr name) then sa_SetIPLong (bytes_dword (drop 12 (sin6_addr name))) e else e)
           in Some (sa_SetPort (ntohs (sin_port name)) e))"

definition MakeSocketAddress :: "sockaddr option \<Rightarrow> sockaddr \<Rightarrow> (sockaddr \<times> int) option" where
  "MakeSocketAddress original redirected =
     (case original of
        None \<Rightarrow> Some (redirected, sa_Size redirected)
      | Some orig \<Rightarrow>
        if sa_family orig = sa_family redirected then Some (redirected, sa_Size redirected)
        else if sa_family orig \<noteq> AF_INET6 \<or> \<not> sa_IsIPv4 redirected then None
        else Some (sa_Clear\<lparr>sa_family := AF_INET6, sin_port := htons (sa_GetPort redirected),
               sin6_addr := replicate 10 0 @ [255, 255] @ dword_bytes (sa_GetdwIP redirected)\<rparr>, 28))"

section \<open>The hook\<close>

text \<open>\<open>HookBlockedIPv6Info\<close> and \<open>HookBlockedUdpInfo\<close>: socket type, destination and domain.\<close>

datatype hook_report = BlockedIPv6 int sockaddr cstr | BlockedUDP sockaddr cstr

record Hook =
  hk_psi :: ProxySettingsInfo
  hk_DummyDNS :: DummyDNS
  hk_HackedSocket :: HackedSocket
  hk_limiter :: UdpBlockLogLimiter
  hk_pipe :: bool \<comment> \<open>\<open>m_RequestPipe\<close> is connected\<close>
  hk_sockname :: "qword \<Rightarrow> int + sockaddr" \<comment> \<open>\<open>getsockname\<close>\<close>
  hk_lastError :: int
  hk_processId :: dword
  hk_createTime :: qword
  hk_reports :: "hook_report list"
  hk_registered :: "PRCClient list" \<comment> \<open>\<open>PRCRegisterClient\<close> that succeeded\<close>

text \<open>
  The answers during one call: socket type, real peer, a bind, the pipe with its start-up
  information (IPv4 and IPv6 listener), proxy information and registration; a failure has its
  error number.
\<close>

record HookEnv =
  he_conv :: addr_conv
  he_startup :: int
  he_inet_addr :: "cstr \<Rightarrow> dword"
  he_sockType :: "int + int"
  he_peer :: "sockaddr option"
  he_bind :: "sockaddr \<Rightarrow> int + sockaddr"
  he_connect :: "int option"
  he_startupInfo :: "int + sockaddr \<times> sockaddr"
  he_ProxyInfo :: "PRCClient \<Rightarrow> int + ProxyInfo"
  he_Register :: "PRCClient \<Rightarrow> int + PRCClient"
  he_report :: bool \<comment> \<open>\<open>PRCLogBlockedIPv6\<close>, \<open>PRCLogBlockedUDP\<close>\<close>
  he_reserved :: "PRCClient \<Rightarrow> dword" \<comment> \<open>\<open>BrowserQuicPolicy::OnUdp\<close>\<close>
  he_now :: dword
  he_threadId :: dword

abbreviation (input) "WSAENETDOWN \<equiv> (10050 :: int)"
abbreviation (input) "WSAENETUNREACH \<equiv> (10051 :: int)"

definition fail :: "int \<Rightarrow> Hook \<Rightarrow> Hook" where
  "fail e h = h\<lparr>hk_lastError := e\<rparr>"

definition IsDummy :: "sockaddr \<Rightarrow> bool" where
  "IsDummy a \<longleftrightarrow> sa_IsIPv4 a \<and> IsDummyIP (sa_GetdwIP a) \<or> sa_IsIPv6 a \<and> IsDummyIPv6 (sa_GetAddr6 a)"

definition IsUdpAllowedLoopback :: "sockaddr \<Rightarrow> bool" where
  "IsUdpAllowedLoopback a \<longleftrightarrow> sa_IsLoopback a \<and> \<not> IsDummy a"

text \<open>
  \<open>getpeername\<close> shows a redirected stream its original destination, if the caller's buffer
  (\<open>None\<close>: a null pointer) is long enough.
\<close>

definition inhook_getpeername :: "HookEnv \<Rightarrow> qword \<Rightarrow> int option \<Rightarrow> Hook \<Rightarrow> sockaddr option \<times> Hook" where
  "inhook_getpeername e s namelen h =
     (if \<not> bHookTCP (hk_psi h) \<and> \<not> bHookUDP (hk_psi h) then (he_peer e, h)
      else case Hs_GetInfo s (hk_HackedSocket h) of
        Some c \<Rightarrow>
          if sType c = 1
          then (case namelen of
              None \<Rightarrow> (None, fail WSAEFAULT h)
            | Some n \<Rightarrow> if n < sa_Size (dstAddr c) then (None, fail WSAEFAULT h) else (Some (dstAddr c), fail 0 h))
          else (he_peer e, h)
      | None \<Rightarrow> (he_peer e, h))"

text \<open>The buffer here is a whole \<open>SOCKADDR_STORAGE\<close>; only the address is used further.\<close>

definition GetSocketDestination :: "HookEnv \<Rightarrow> qword \<Rightarrow> sockaddr option \<Rightarrow> int \<Rightarrow> Hook \<Rightarrow> sockaddr option" where
  "GetSocketDestination e s destination len h =
     (case destination of
        Some a \<Rightarrow> NormalizeSocketAddress (Some a) len
      | None \<Rightarrow> (case fst (inhook_getpeername e s (Some 128) h) of
            None \<Rightarrow> None | Some a \<Rightarrow> NormalizeSocketAddress (Some a) (sa_Size a)))"

definition IsUdpLoopbackDestination :: "HookEnv \<Rightarrow> qword \<Rightarrow> sockaddr option \<Rightarrow> int \<Rightarrow> Hook \<Rightarrow> bool" where
  "IsUdpLoopbackDestination e s destination len h =
     (case GetSocketDestination e s destination len h of None \<Rightarrow> False | Some a \<Rightarrow> IsUdpAllowedLoopback a)"

definition IsBlockedIPv6Destination :: "HookEnv \<Rightarrow> qword \<Rightarrow> sockaddr option \<Rightarrow> int \<Rightarrow> Hook \<Rightarrow> sockaddr option" where
  "IsBlockedIPv6Destination e s destination len h =
     (case GetSocketDestination e s destination len h of None \<Rightarrow> None | Some a \<Rightarrow> if Ipv6_ShouldBlock a then Some a else None)"

definition mdns :: "sockaddr \<Rightarrow> bool" where
  "mdns a = IsMdnsDestination (sa_family a) (sa_GetdwIP a) (sa_GetAddr6 a) (sa_GetPort a)"

definition Hook_IsMdnsDestination :: "sockaddr option \<Rightarrow> int \<Rightarrow> bool" where
  "Hook_IsMdnsDestination destination len =
     (case NormalizeSocketAddress destination len of None \<Rightarrow> False | Some a \<Rightarrow> mdns a)"

definition EnsureRequestPipe :: "HookEnv \<Rightarrow> Hook \<Rightarrow> bool \<times> Hook" where
  "EnsureRequestPipe e h =
     (if hk_pipe h then (True, h)
      else case he_connect e of None \<Rightarrow> (True, h\<lparr>hk_pipe := True\<rparr>) | Some err \<Rightarrow> (False, fail err h))"

definition disconnect :: "Hook \<Rightarrow> Hook" where
  "disconnect h = h\<lparr>hk_pipe := False\<rparr>"

text \<open>A report is written to the pipe; one that cannot be written closes it.\<close>

definition report_blocked :: "HookEnv \<Rightarrow> hook_report \<Rightarrow> Hook \<Rightarrow> Hook" where
  "report_blocked e r h =
     (let (ok, h) = EnsureRequestPipe e h in
      if \<not> ok then h
      else if he_report e then h\<lparr>hk_reports := hk_reports h @ [r]\<rparr> else disconnect h)"

definition LogBlockedIPv6 :: "HookEnv \<Rightarrow> sockaddr \<Rightarrow> Hook \<Rightarrow> Hook" where
  "LogBlockedIPv6 e a h =
     (if \<not> sa_IsIPv6 a \<or> sa_GetAddr6 a = None then h
      else report_blocked e (BlockedIPv6 (case he_sockType e of Inr ty \<Rightarrow> ty | Inl _ \<Rightarrow> 0) a
        (if IsDummyIPv6 (sa_GetAddr6 a)
         then (case GetHostByIPv6 (sa_GetAddr6 a) 256 (hk_DummyDNS h) of Some n \<Rightarrow> n | None \<Rightarrow> []) else [])) h)"

definition LogBlockedUDP :: "HookEnv \<Rightarrow> qword \<Rightarrow> sockaddr option \<Rightarrow> int \<Rightarrow> Hook \<Rightarrow> Hook" where
  "LogBlockedUDP e s destination len h =
     (let a = (case GetSocketDestination e s destination len h of Some a \<Rightarrow> a | None \<Rightarrow> sa_Clear);
          (allowed, l) = AllowLocked a (he_now e) (hk_limiter h); h = h\<lparr>hk_limiter := l\<rparr>
      in if \<not> allowed then h
         else report_blocked e (BlockedUDP a
           (if sa_IsIPv4 a \<and> IsDummyIP (sa_GetdwIP a)
            then (case GetHostByIP (sa_GetdwIP a) 255 (hk_DummyDNS h) of Some n \<Rightarrow> n | None \<Rightarrow> [])
            else if sa_IsIPv6 a \<and> IsDummyIPv6 (sa_GetAddr6 a)
            then (case GetHostByIPv6 (sa_GetAddr6 a) 256 (hk_DummyDNS h) of Some n \<Rightarrow> n | None \<Rightarrow> []) else [])) h)"

definition do_bind :: "HookEnv \<Rightarrow> qword \<Rightarrow> sockaddr \<Rightarrow> Hook \<Rightarrow> bool \<times> Hook" where
  "do_bind e s a h =
     (case he_bind e a of Inl err \<Rightarrow> (False, fail err h)
      | Inr name \<Rightarrow> (True, h\<lparr>hk_sockname := (hk_sockname h)(s := Inr name)\<rparr>))"

definition EnsureSocketBound :: "HookEnv \<Rightarrow> qword \<Rightarrow> sockaddr option \<Rightarrow> Hook \<Rightarrow> bool \<times> Hook" where
  "EnsureSocketBound e s address h =
     (case hk_sockname h s of
        Inr _ \<Rightarrow> (True, h)
      | Inl err \<Rightarrow>
        (case address of
           None \<Rightarrow> (False, fail err h)
         | Some a \<Rightarrow> if err \<noteq> WSAEINVAL then (False, fail err h)
             else do_bind e s (sa_Clear\<lparr>sa_family := (if sa_family a = AF_INET6 then AF_INET6 else AF_INET)\<rparr>) h))"

text \<open>The endpoint of the socket; without one the socket is bound to any port, then asked again.\<close>

definition bound_endpoint :: "HookEnv \<Rightarrow> bool \<Rightarrow> qword \<Rightarrow> word16 \<Rightarrow> Hook \<Rightarrow> sockaddr option \<times> Hook" where
  "bound_endpoint e only_unbound s family h =
     (let get = (\<lambda>h. case hk_sockname h s of Inl _ \<Rightarrow> None | Inr name \<Rightarrow> socket_endpoint family name);
          h' = (case hk_sockname h s of Inl err \<Rightarrow> fail err h | Inr _ \<Rightarrow> h) in
      case get h of
        Some a \<Rightarrow> (Some a, h)
      | None \<Rightarrow>
        if only_unbound \<and> hk_lastError h' \<noteq> WSAEINVAL then (None, h')
        else let (ok, h) = do_bind e s (sa_SetPort 0 (sa_Clear\<lparr>sa_family := family\<rparr>)) h'
          in if ok then (get h, h) else (None, h))"

definition SetLoopbackAddress :: "HookEnv \<Rightarrow> word16 \<Rightarrow> sockaddr" where
  "SetLoopbackAddress e family =
     (let a = sa_Clear\<lparr>sa_family := family\<rparr> in
      if family = AF_INET6 then a\<lparr>sin6_addr := replicate 15 0 @ [1]\<rparr>
      else snd (sa_SetIP (he_conv e) (he_startup e) (Some ''127.0.0.1'') a))"

text \<open>The domain name behind a made-up destination.\<close>

definition original_name :: "sockaddr \<Rightarrow> Hook \<Rightarrow> cstr" where
  "original_name a h =
     (if IsDummyIP (sa_GetdwIP a) then (case GetHostByIP (sa_GetdwIP a) 256 (hk_DummyDNS h) of Some n \<Rightarrow> n | None \<Rightarrow> [])
      else if sa_IsIPv6 a \<and> IsDummyIPv6 (sa_GetAddr6 a)
      then (case GetHostByIPv6 (sa_GetAddr6 a) 256 (hk_DummyDNS h) of Some n \<Rightarrow> n | None \<Rightarrow> [])
      else [])"

definition new_client :: "HookEnv \<Rightarrow> int \<Rightarrow> qword \<Rightarrow> sockaddr \<Rightarrow> sockaddr \<Rightarrow> Hook \<Rightarrow> PRCClient \<times> Hook" where
  "new_client e ty s src dst h =
     (let (generation, hs) = GetSocketGeneration s ty (hk_HackedSocket h)
      in (PRCClient_zero\<lparr>sType := ty, c_s := s, dwPid := hk_processId h, dwTid := he_threadId e,
            processCreateTime := hk_createTime h, socketGeneration := generation, srcAddr := src, dstAddr := dst,
            szDomainName := original_name dst h\<rparr>, h\<lparr>hk_HackedSocket := hs\<rparr>))"

definition register :: "HookEnv \<Rightarrow> int list \<Rightarrow> PRCClient \<Rightarrow> Hook \<Rightarrow> PRCClient option \<times> Hook" where
  "register e soft c h =
     (case he_Register e c of
        Inl err \<Rightarrow> (None, let h = fail err h in if err \<in> set soft then h else disconnect h)
      | Inr c \<Rightarrow> (Some c, h\<lparr>hk_registered := hk_registered h @ [c]\<rparr>))"

definition payload_limit :: "ProxyInfo \<Rightarrow> PRCClient \<Rightarrow> nat" where
  "payload_limit pi c = MaxPayload (GetProxyType pi = PROXYTYPE_SOCKS5)
     (if IsDNValid c then Some (szDomainName c) else None) (sa_IsIPv6 (dstAddr c))"

definition local_address :: "HookEnv \<Rightarrow> word16 \<Rightarrow> sockaddr \<Rightarrow> sockaddr" where
  "local_address e family a = (if sa_IsAny a then SetLoopbackAddress e family else a)"

text \<open>The end of \<open>HackConnect\<close>: register, remember, and the address to connect to instead.\<close>

definition redirect_connect :: "HookEnv \<Rightarrow> int \<Rightarrow> ProxyInfo \<Rightarrow> sockaddr \<times> sockaddr \<Rightarrow> PRCClient \<Rightarrow> Hook \<Rightarrow> (HookDecision \<times> sockaddr) \<times> Hook" where
  "redirect_connect e ty pi prcinfo c h =
     (case register e [WSAEOPNOTSUPP, WSAEHOSTUNREACH, WSAENETUNREACH] c h of
        (None, h) \<Rightarrow> ((HOOK_FAILED, dstAddr c), h)
      | (Some c, h) \<Rightarrow>
        let hs = Hs_push c (hk_HackedSocket h);
            hs = (if ty = 2 then SetUDPMaxPayload c (payload_limit pi c) True hs else hs);
            a = (if ty = 2 then udpAddr c else if sa_IsIPv6 (dstAddr c) then snd prcinfo else fst prcinfo)
        in ((HOOK_REDIRECTED, local_address e (sa_family (dstAddr c)) a), h\<lparr>hk_HackedSocket := hs\<rparr>))"

definition ask_service :: "HookEnv \<Rightarrow> PRCClient \<Rightarrow> Hook \<Rightarrow> (HookDecision \<times> ProxyInfo option) \<times> Hook" where
  "ask_service e c h =
     (case he_ProxyInfo e c of
        Inl err \<Rightarrow> ((HOOK_FAILED, None), fail err h)
      | Inr pi \<Rightarrow> ((CanHackIt (he_inet_addr e) (hk_psi h) c (Some pi), Some pi), h))"

definition HackConnect :: "HookEnv \<Rightarrow> qword \<Rightarrow> sockaddr \<Rightarrow> Hook \<Rightarrow> (HookDecision \<times> sockaddr) \<times> Hook" where
  "HackConnect e s a h =
     (case he_sockType e of
        Inl err \<Rightarrow> ((HOOK_FAILED, a), fail err h)
      | Inr ty \<Rightarrow>
        if ty \<noteq> 2 \<and> ty \<noteq> 1 then ((HOOK_BYPASS, a), h)
        else if ty = 2 \<and> bDisableMDNS (hk_psi h) \<and> mdns a then ((HOOK_FAILED, a), fail WSAEHOSTUNREACH h)
        else if ty = 2 \<and> \<not> bHookUDP (hk_psi h) then ((HOOK_BYPASS, a), h)
        else if ty = 1 \<and> \<not> bHookTCP (hk_psi h) then ((HOOK_BYPASS, a), h)
        else if sa_IsLoopback a \<and> \<not> IsDummy a then ((HOOK_BYPASS, a), h)
        else case bound_endpoint e False s (sa_family a) h of
          (None, h) \<Rightarrow> ((HOOK_FAILED, a), h)
        | (Some src, h) \<Rightarrow>
          let (c, h) = new_client e ty s src a h; (ok, h) = EnsureRequestPipe e h in
          if \<not> ok then ((HOOK_FAILED, a), h)
          else case he_startupInfo e of
            Inl err \<Rightarrow> ((HOOK_FAILED, a), disconnect (fail err h))
          | Inr prcinfo \<Rightarrow>
            (case ask_service e c h of
               ((HOOK_REDIRECTED, Some pi), h) \<Rightarrow>
                 if ty = 1 \<and> sa_IsIPv6 (dstAddr c) \<and> \<not> sa_IsIPv6 (snd prcinfo)
                 then ((HOOK_FAILED, a), fail WSAEAFNOSUPPORT h)
                 else redirect_connect e ty pi prcinfo c h
             | ((decision, _), h) \<Rightarrow> ((decision, a), h)))"

section \<open>Connecting\<close>

text \<open>What becomes of a call: the original function with an address, or an error.\<close>

datatype hook_call = Original "sockaddr option" int | SocketError

definition refuse :: "int \<Rightarrow> Hook \<Rightarrow> hook_call \<times> Hook" where
  "refuse err h = (SocketError, fail err h)"

definition failed :: "Hook \<Rightarrow> hook_call \<times> Hook" where
  "failed h = (SocketError, if hk_lastError h = 0 then fail WSAENETDOWN h else h)"

definition redirected_call :: "sockaddr option \<Rightarrow> sockaddr \<Rightarrow> Hook \<Rightarrow> hook_call \<times> Hook" where
  "redirected_call name a h =
     (case MakeSocketAddress name a of None \<Rightarrow> refuse WSAEAFNOSUPPORT h | Some (r, len) \<Rightarrow> (Original (Some r) len, h))"

text \<open>\<open>connect\<close> and \<open>WSAConnect\<close> differ only in the arguments they pass on.\<close>

definition inhook_connect :: "HookEnv \<Rightarrow> qword \<Rightarrow> sockaddr option \<Rightarrow> int \<Rightarrow> Hook \<Rightarrow> hook_call \<times> Hook" where
  "inhook_connect e s name namelen h =
     (case NormalizeSocketAddress name namelen of
        None \<Rightarrow> (Original name namelen, h)
      | Some a \<Rightarrow>
        if bBlockIPv6 (hk_psi h) \<and> Ipv6_ShouldBlock a then refuse WSAEAFNOSUPPORT (LogBlockedIPv6 e a h)
        else let (ok, h) = EnsureSocketBound e s name h in
          if \<not> ok then (SocketError, h)
          else if bBlockUDP (hk_psi h) \<and> he_sockType e = Inr 2 \<and> \<not> IsUdpAllowedLoopback a
          then refuse WSAEACCES (LogBlockedUDP e s name namelen h)
          else case HackConnect e s a h of
            ((HOOK_FAILED, _), h) \<Rightarrow> failed h
          | ((HOOK_BYPASS, _), h) \<Rightarrow> (Original name namelen, h)
          | ((HOOK_REDIRECTED, a), h) \<Rightarrow> redirected_call name a h)"

definition inhook_WSAConnect :: "HookEnv \<Rightarrow> qword \<Rightarrow> sockaddr option \<Rightarrow> int \<Rightarrow> Hook \<Rightarrow> hook_call \<times> Hook" where
  "inhook_WSAConnect e s name namelen h = inhook_connect e s name namelen h"

definition inhook_ConnectEx :: "bool \<Rightarrow> HookEnv \<Rightarrow> qword \<Rightarrow> sockaddr option \<Rightarrow> int \<Rightarrow> Hook \<Rightarrow> hook_call \<times> Hook" where
  "inhook_ConnectEx known e s name namelen h =
     (if \<not> known then refuse WSAEOPNOTSUPP h
      else case name of
        None \<Rightarrow> (Original name namelen, h)
      | Some n \<Rightarrow>
        if sa_family n \<noteq> AF_INET \<and> sa_family n \<noteq> AF_INET6 then (Original name namelen, h)
        else case NormalizeSocketAddress name namelen of
          None \<Rightarrow> refuse WSAEFAULT h
        | Some a \<Rightarrow>
          if bBlockIPv6 (hk_psi h) \<and> Ipv6_ShouldBlock a then refuse WSAEAFNOSUPPORT (LogBlockedIPv6 e a h)
          else case HackConnect e s a h of
            ((HOOK_FAILED, _), h) \<Rightarrow> failed h
          | ((HOOK_BYPASS, _), h) \<Rightarrow> (Original name namelen, h)
          | ((HOOK_REDIRECTED, a), h) \<Rightarrow> redirected_call name a h)"

section \<open>Sending datagrams\<close>

definition known_route :: "HookEnv \<Rightarrow> PRCClient \<Rightarrow> sockaddr \<Rightarrow> Hook \<Rightarrow> (HookDecision \<times> sockaddr \<times> nat) \<times> Hook" where
  "known_route e c route h =
     ((HOOK_REDIRECTED, local_address e (sa_family (dstAddr c)) route,
       case GetUDPMaxPayload c (hk_HackedSocket h) of Some n \<Rightarrow> n | None \<Rightarrow> MAX_IPV4_UDP_PAYLOAD), h)"

definition register_route :: "HookEnv \<Rightarrow> ProxyInfo \<Rightarrow> PRCClient \<Rightarrow> Hook \<Rightarrow> (HookDecision \<times> sockaddr \<times> nat) \<times> Hook" where
  "register_route e pi c h =
     (case register e [WSAEOPNOTSUPP, WSAEHOSTUNREACH] (c\<lparr>c_reserved := he_reserved e c\<rparr>) h of
        (None, h) \<Rightarrow> ((HOOK_FAILED, dstAddr c, 0), h)
      | (Some c, h) \<Rightarrow>
        let limit = payload_limit pi c
        in ((HOOK_REDIRECTED, local_address e (sa_family (dstAddr c)) (udpAddr c), limit),
            h\<lparr>hk_HackedSocket := SetUDPMaxPayload c limit False (Hs_push c (hk_HackedSocket h))\<rparr>))"

text \<open>
  The table is asked twice, before and under the lock of the pipe; a route that another thread
  registered in between is one of the table's entries already.
\<close>

definition HackSendTo :: "HookEnv \<Rightarrow> qword \<Rightarrow> sockaddr \<Rightarrow> Hook \<Rightarrow> (HookDecision \<times> sockaddr \<times> nat) \<times> Hook" where
  "HackSendTo e s a h =
     (if \<not> bHookUDP (hk_psi h) then ((HOOK_BYPASS, a, 0), h)
      else case he_sockType e of
        Inl err \<Rightarrow> ((HOOK_FAILED, a, 0), fail err h)
      | Inr ty \<Rightarrow>
        if ty \<noteq> 2 then ((HOOK_BYPASS, a, 0), h)
        else if IsUDPRouteAddress s a (hk_HackedSocket h) then ((HOOK_BYPASS, a, 0), h)
        else case bound_endpoint e True s (sa_family a) h of
          (None, h) \<Rightarrow> ((HOOK_FAILED, a, 0), h)
        | (Some src, h) \<Rightarrow>
          let (c, h) = new_client e 2 s src a h in
          (case IsUDPReqHacked c (hk_HackedSocket h) of
             Some route \<Rightarrow> known_route e c route h
           | None \<Rightarrow>
             let (ok, h) = EnsureRequestPipe e h in
             if \<not> ok then ((HOOK_FAILED, a, 0), h)
             else case ask_service e c h of
               ((HOOK_REDIRECTED, Some pi), h) \<Rightarrow> register_route e pi c h
             | ((decision, _), h) \<Rightarrow> ((decision, a, 0), h)))"

text \<open>The lengths of the buffers against the limit; \<open>size_t\<close> does not wrap for 32-bit lengths.\<close>

fun payload_allowed :: "nat \<Rightarrow> nat \<Rightarrow> nat list \<Rightarrow> bool" where
  "payload_allowed maxPayload total_bytes [] \<longleftrightarrow> total_bytes \<le> maxPayload"
| "payload_allowed maxPayload total_bytes (n # ns) \<longleftrightarrow>
     n \<le> maxPayload - min total_bytes maxPayload \<and> payload_allowed maxPayload (total_bytes + n) ns"

text \<open>\<open>None\<close>: no buffers but a positive count, which Winsock reports.\<close>

definition IsWSABufferPayloadAllowed :: "nat list option \<Rightarrow> nat \<Rightarrow> bool" where
  "IsWSABufferPayloadAllowed buffers maxPayload =
     (case buffers of None \<Rightarrow> True | Some ns \<Rightarrow> payload_allowed maxPayload 0 ns)"

text \<open>The checks that \<open>sendto\<close>, \<open>WSASendTo\<close> and \<open>WSASendMsg\<close> begin with.\<close>

definition send_blocked :: "HookEnv \<Rightarrow> qword \<Rightarrow> sockaddr option \<Rightarrow> int \<Rightarrow> Hook \<Rightarrow> (hook_call \<times> Hook) option" where
  "send_blocked e s to len h =
     (case (if bBlockIPv6 (hk_psi h) then IsBlockedIPv6Destination e s to len h else None) of
        Some a \<Rightarrow> Some (refuse WSAEAFNOSUPPORT (LogBlockedIPv6 e a h))
      | None \<Rightarrow>
        if bBlockUDP (hk_psi h) \<and> \<not> IsUdpLoopbackDestination e s to len h
        then Some (refuse WSAEACCES (LogBlockedUDP e s to len h))
        else if bDisableMDNS (hk_psi h) \<and> Hook_IsMdnsDestination to len then Some (refuse WSAEHOSTUNREACH h)
        else None)"

definition send_datagram :: "HookEnv \<Rightarrow> qword \<Rightarrow> nat list option \<Rightarrow> sockaddr option \<Rightarrow> int \<Rightarrow> Hook \<Rightarrow> hook_call \<times> Hook" where
  "send_datagram e s buffers to len h =
     (case to of
        None \<Rightarrow>
          (case GetConnectedUDPMaxPayload s (hk_HackedSocket h) of
             Some n \<Rightarrow> if IsWSABufferPayloadAllowed buffers n then (Original to len, h) else refuse WSAEMSGSIZE h
           | None \<Rightarrow> (Original to len, h))
      | Some _ \<Rightarrow>
        (case NormalizeSocketAddress to len of
           None \<Rightarrow> (Original to len, h)
         | Some a \<Rightarrow>
           let (ok, h) = EnsureSocketBound e s to h in
           if \<not> ok then (SocketError, h)
           else case HackSendTo e s a h of
             ((HOOK_FAILED, _), h) \<Rightarrow> failed h
           | ((HOOK_BYPASS, _), h) \<Rightarrow> (Original to len, h)
           | ((HOOK_REDIRECTED, a, limit), h) \<Rightarrow>
               if \<not> IsWSABufferPayloadAllowed buffers limit then refuse WSAEMSGSIZE h else redirected_call to a h))"

definition inhook_WSASendTo :: "HookEnv \<Rightarrow> qword \<Rightarrow> nat list option \<Rightarrow> sockaddr option \<Rightarrow> int \<Rightarrow> Hook \<Rightarrow> hook_call \<times> Hook" where
  "inhook_WSASendTo e s buffers to len h =
     (case send_blocked e s to len h of
        Some r \<Rightarrow> r
      | None \<Rightarrow> if \<not> bHookUDP (hk_psi h) then (Original to len, h) else send_datagram e s buffers to len h)"

text \<open>\<open>sendto\<close> with one buffer; a negative length goes to the original function.\<close>

definition inhook_sendto :: "HookEnv \<Rightarrow> qword \<Rightarrow> int \<Rightarrow> sockaddr option \<Rightarrow> int \<Rightarrow> Hook \<Rightarrow> hook_call \<times> Hook" where
  "inhook_sendto e s n to tolen h =
     (case send_blocked e s to tolen h of
        Some r \<Rightarrow> r
      | None \<Rightarrow> if \<not> bHookUDP (hk_psi h) \<or> n < 0 then (Original to tolen, h)
          else inhook_WSASendTo e s (Some [nat n]) to tolen h)"

text \<open>\<open>msg\<close>: the destination, its length and the buffers of the message, or a null pointer.\<close>

definition inhook_WSASendMsg :: "bool \<Rightarrow> HookEnv \<Rightarrow> qword \<Rightarrow> (sockaddr option \<times> int \<times> nat list option) option \<Rightarrow> Hook \<Rightarrow> hook_call \<times> Hook" where
  "inhook_WSASendMsg known e s msg h =
     (if \<not> known then refuse WSAEOPNOTSUPP h
      else case msg of
        None \<Rightarrow> if bBlockUDP (hk_psi h) then refuse WSAEACCES (LogBlockedUDP e s None 0 h) else (Original None 0, h)
      | Some (name, len, buffers) \<Rightarrow>
        (case send_blocked e s name len h of
           Some r \<Rightarrow> r
         | None \<Rightarrow> if \<not> bHookUDP (hk_psi h) then (Original name len, h) else send_datagram e s buffers name len h))"

section \<open>Closing\<close>

text \<open>
  \<open>closesocket\<close> removes the socket from the tables and tells the service; the original function
  is always called. The result is the client that is unregistered.
\<close>

definition inhook_closesocket :: "HookEnv \<Rightarrow> qword \<Rightarrow> Hook \<Rightarrow> PRCClient option \<times> Hook" where
  "inhook_closesocket e s h =
     (if \<not> bHookTCP (hk_psi h) \<and> \<not> bHookUDP (hk_psi h) then (None, h)
      else case he_sockType e of
        Inl err \<Rightarrow> (None, fail err h)
      | Inr ty \<Rightarrow>
        if ty \<noteq> 2 \<and> ty \<noteq> 1 then (None, h)
        else let (n, removed, hs) = Hs_remove s (hk_HackedSocket h); h = h\<lparr>hk_HackedSocket := hs\<rparr>
          in if 0 < n \<and> he_connect e = None then (removed, h) else (None, h))"

section \<open>Name resolution\<close>

text \<open>\<open>canProxy\<close>: what the service answers for this process; \<open>None\<close> when it cannot be reached.\<close>

definition IsHostNameReserved :: "HookEnv \<Rightarrow> cstr \<Rightarrow> bool option \<Rightarrow> cstr \<Rightarrow> bool" where
  "IsHostNameReserved e local_name canProxy name =
     (if IsLocalhost (Some name) \<or> EqualsDnsName (Some name) (Some local_name) then True
      else if ProxyInetPtonA (he_conv e) (he_startup e) AF_INET (Some name) \<noteq> None \<or>
              ProxyInetPtonA (he_conv e) (he_startup e) AF_INET6 (Some name) \<noteq> None then True
      else case canProxy of None \<Rightarrow> True | Some can \<Rightarrow> \<not> can)"

definition HackDNS :: "HookEnv \<Rightarrow> cstr \<Rightarrow> bool option \<Rightarrow> cstr \<Rightarrow> Hook \<Rightarrow> bool" where
  "HackDNS e local_name canProxy name h =
     (if nDNSOption (hk_psi h) = PSI_DNSOPT_LOCAL then False
      else if nDNSOption (hk_psi h) = PSI_DNSOPT_REMOTE then \<not> IsHostNameReserved e local_name canProxy name
      else False)"

text \<open>The answer of a resolution: from the system, a made-up address, or an error.\<close>

datatype resolution = FromSystem | MadeUp dword | Handle dword dword | ResolveError int | Addresses "sockaddr list"

definition inhook_gethostbyname :: "HookEnv \<Rightarrow> cstr \<Rightarrow> bool option \<Rightarrow> cstr option \<Rightarrow> Hook \<Rightarrow> resolution \<times> Hook" where
  "inhook_gethostbyname e local_name canProxy name h =
     (case name of None \<Rightarrow> (FromSystem, h)
      | Some n \<Rightarrow>
        if HackDNS e local_name canProxy n h
        then let (ip, d) = GetDummyIP n (hk_DummyDNS h) in (MadeUp ip, h\<lparr>hk_DummyDNS := d\<rparr>)
        else (FromSystem, h))"

definition inhook_WSAAsyncGetHostByName :: "HookEnv \<Rightarrow> cstr \<Rightarrow> bool option \<Rightarrow> cstr option \<Rightarrow> Hook \<Rightarrow> resolution \<times> Hook" where
  "inhook_WSAAsyncGetHostByName e local_name canProxy name h =
     (case name of None \<Rightarrow> (FromSystem, h)
      | Some n \<Rightarrow>
        if HackDNS e local_name canProxy n h
        then let (handle, ip, d) = GetDummyHandle n (hk_DummyDNS h) in (Handle handle ip, h\<lparr>hk_DummyDNS := d\<rparr>)
        else (FromSystem, h))"

text \<open>
  \<open>getaddrinfo\<close>, \<open>GetAddrInfoW\<close> and \<open>GetAddrInfoExW\<close>: the addresses of \<open>localhost\<close> that the system gives
  for the family are overwritten. \<open>localhost\<close> gives the answer of the system by family.
\<close>

definition patch_address :: "dword \<Rightarrow> bytes \<Rightarrow> sockaddr \<Rightarrow> sockaddr" where
  "patch_address ip ip6 a =
     (if sa_family a = AF_INET6 then a\<lparr>sin6_addr := ip6\<rparr> else if sa_family a = AF_INET then a\<lparr>sin_addr := ip\<rparr> else a)"

type_synonym lookup_hints = "(dword \<times> word16) option" \<comment> \<open>\<open>ai_flags\<close>, \<open>ai_family\<close>\<close>

definition hooked_lookup ::
    "HookEnv \<Rightarrow> cstr \<Rightarrow> bool option \<Rightarrow> cstr \<Rightarrow> lookup_hints \<Rightarrow> (word16 \<Rightarrow> int + sockaddr list) \<Rightarrow> Hook \<Rightarrow> resolution \<times> Hook" where
  "hooked_lookup e local_name canProxy n hints localhost h =
     (if \<not> IsPassiveLookup (map_option fst hints) \<and> HackDNS e local_name canProxy n h
      then
        let family = (case hints of None \<Rightarrow> AF_UNSPEC | Some (_, f) \<Rightarrow> f);
            decision = Decide family (bBlockIPv6 (hk_psi h)) in
        if decision = REJECT_IPV6 then (ResolveError WSAEAFNOSUPPORT, h)
        else
          let (ip, d) = GetDummyIP n (hk_DummyDNS h); (ip6, d) = GetDummyIPv6 n d; h = h\<lparr>hk_DummyDNS := d\<rparr>
          in (case localhost (if decision = FORCE_IPV4 then AF_INET else family) of
                Inl err \<Rightarrow> (ResolveError err, h)
              | Inr as \<Rightarrow> (Addresses (map (patch_address ip ip6) as), h))
      else (FromSystem, h))"

definition inhook_getaddrinfo ::
    "HookEnv \<Rightarrow> cstr \<Rightarrow> bool option \<Rightarrow> cstr option \<Rightarrow> lookup_hints \<Rightarrow> (word16 \<Rightarrow> int + sockaddr list) \<Rightarrow> Hook \<Rightarrow> resolution \<times> Hook" where
  "inhook_getaddrinfo e local_name canProxy name hints localhost h =
     (case name of None \<Rightarrow> (FromSystem, h) | Some n \<Rightarrow> hooked_lookup e local_name canProxy n hints localhost h)"

text \<open>
  The wide variants narrow the name first; \<open>narrow\<close> is \<open>WideCharToMultiByte\<close> into 256 characters,
  \<open>None\<close> when it fails.
\<close>

definition inhook_GetAddrInfoW ::
    "(16 word list \<Rightarrow> cstr option) \<Rightarrow> HookEnv \<Rightarrow> cstr \<Rightarrow> bool option \<Rightarrow> 16 word list option \<Rightarrow> lookup_hints \<Rightarrow>
     (word16 \<Rightarrow> int + sockaddr list) \<Rightarrow> Hook \<Rightarrow> resolution \<times> Hook" where
  "inhook_GetAddrInfoW narrow e local_name canProxy name hints localhost h =
     (case Option.bind name narrow of
        None \<Rightarrow> (FromSystem, h) | Some n \<Rightarrow> hooked_lookup e local_name canProxy n hints localhost h)"

text \<open>An overlapped request of \<open>GetAddrInfoExW\<close> is answered at once, like the others.\<close>

definition inhook_GetAddrInfoExW ::
    "(16 word list \<Rightarrow> cstr option) \<Rightarrow> HookEnv \<Rightarrow> cstr \<Rightarrow> bool option \<Rightarrow> 16 word list option \<Rightarrow> lookup_hints \<Rightarrow>
     (word16 \<Rightarrow> int + sockaddr list) \<Rightarrow> Hook \<Rightarrow> resolution \<times> Hook" where
  "inhook_GetAddrInfoExW narrow e local_name canProxy name hints localhost h =
     (case Option.bind name narrow of
        None \<Rightarrow> (FromSystem, h) | Some n \<Rightarrow> hooked_lookup e local_name canProxy n hints localhost h)"

section \<open>Extension functions\<close>

text \<open>
  \<open>WSAIoctl\<close> hands out the hooked \<open>ConnectEx\<close> and \<open>WSASendMsg\<close> and keeps the original ones: the
  16 bytes asked for, the size of the output buffer against a pointer's, and the address that the
  system put there. The pointers given to the caller are named by what they call.
\<close>

datatype extension = SystemFunction qword | hook_ConnectEx | hook_WSASendMsg

record Extensions =
  Original_ConnectEx :: "qword option"
  Original_WSASendMsg :: "qword option"

definition WSAID_CONNECTEX :: bytes where
  "WSAID_CONNECTEX = [0xb9, 0x07, 0xa2, 0x25, 0xf3, 0xdd, 0x60, 0x46, 0x8e, 0xe9, 0x76, 0xe5, 0x8c, 0x74, 0x06, 0x3e]"

definition WSAID_WSASENDMSG :: bytes where
  "WSAID_WSASENDMSG = [0x12, 0xe7, 0x41, 0xa4, 0x4f, 0x75, 0xca, 0x43, 0x84, 0xa7, 0x0d, 0xee, 0x44, 0xcf, 0x60, 0x6d]"

definition inhook_WSAIoctl :: "nat \<Rightarrow> bytes option \<Rightarrow> nat \<Rightarrow> int + qword option \<Rightarrow> Extensions \<Rightarrow> (int + extension option) \<times> Extensions" where
  "inhook_WSAIoctl pointer_size input cbOut result x =
     (case result of
        Inl err \<Rightarrow> (Inl err, x)
      | Inr out \<Rightarrow>
        (case (input, out) of
           (Some guid, Some f) \<Rightarrow>
             if guid = WSAID_CONNECTEX \<and> pointer_size \<le> cbOut
             then (Inr (Some hook_ConnectEx), x\<lparr>Original_ConnectEx := (if f = 0 then None else Some f)\<rparr>)
             else if guid = WSAID_WSASENDMSG \<and> pointer_size \<le> cbOut
             then (Inr (Some hook_WSASendMsg), x\<lparr>Original_WSASendMsg := (if f = 0 then None else Some f)\<rparr>)
             else (Inr (Some (SystemFunction f)), x)
         | _ \<Rightarrow> (Inr (map_option SystemFunction out), x)))"

end
