(* ===== verification/HookRuns.thy ===== *)
theory HookRuns
  imports HookNet
begin

text \<open>
  What the hook guarantees: a made-up address leads back to its name, a redirected call
  reaches the service under the name that was resolved, and calls that are neither redirected
  nor let through fail.
\<close>

section \<open>Made-up addresses lead back to their names\<close>

definition dummy_number :: "nat \<Rightarrow> dword" where
  "dummy_number n = ntohl (0x7fff0000 + of_nat n)"

definition dns_ok :: "DummyDNS \<Rightarrow> bool" where
  "dns_ok d \<longleftrightarrow> dd_DummyIP d = 0x7fff0000 + of_nat (length (dd_ls d)) \<and> length (dd_ls d) \<le> 0xfffe \<and>
     map di_dummyIP (dd_ls d) = map dummy_number (rev [1..<length (dd_ls d) + 1]) \<and>
     (\<forall>i\<in>set (dd_ls d). di_dummyIPv6 i = [0xfd, 0xff] @ replicate 10 0 @ dword_bytes (di_dummyIP i) \<and> length (di_szHost i) \<le> 255)"

lemma dns_ok_new [simp]: "dns_ok DummyDNS_new"
  by (simp add: dns_ok_def DummyDNS_new_def)

lemma unat_dummy: "n \<le> 0xfffe \<Longrightarrow> unat (0x7fff0000 + of_nat n :: dword) = 0x7fff0000 + n"
  by (simp add: unat_word_ariths unat_of_nat)

lemma dummy_number_inj: "m \<le> 0xfffe \<Longrightarrow> n \<le> 0xfffe \<Longrightarrow> dummy_number m = dummy_number n \<Longrightarrow> m = n"
  unfolding dummy_number_def by (metis ntohl_ntohl unat_dummy add_left_cancel)

lemma IsDummyIP_number: "n \<le> 0xfffe \<Longrightarrow> IsDummyIP (dummy_number n)"
proof -
  assume n: "n \<le> 0xfffe"
  have "unat (drop_bit 16 (0x7fff0000 + of_nat n :: dword)) = (0x7fff0000 + n) div 2 ^ 16"
    unfolding unat_drop_bit_eq unat_dummy [OF n] by (rule drop_bit_eq_div)
  also have "\<dots> = unat (0x7fff :: dword)"
    using n by simp
  finally show ?thesis
    unfolding IsDummyIP_def dummy_number_def by (simp only: ntohl_ntohl word_unat_eq_iff)
qed

lemma dns_ok_numbers:
  assumes "dns_ok d"
  shows "map di_dummyIP (dd_ls d) = map dummy_number (rev [1..<length (dd_ls d) + 1])"
    "\<And>n. n \<in> set (rev [1..<length (dd_ls d) + 1]) \<Longrightarrow> n \<le> 0xfffe"
  using assms unfolding dns_ok_def by (blast, auto)

lemma dns_ok_distinct: "dns_ok d \<Longrightarrow> distinct (map di_dummyIP (dd_ls d))"
proof -
  assume d: "dns_ok d"
  have "inj_on dummy_number (set (rev [1..<length (dd_ls d) + 1]))"
    by (intro inj_onI) (metis dummy_number_inj dns_ok_numbers(2) [OF d])
  then show ?thesis
    unfolding dns_ok_numbers(1) [OF d] by (simp add: distinct_map)
qed

lemma dns_ok_dummy: "dns_ok d \<Longrightarrow> i \<in> set (dd_ls d) \<Longrightarrow> IsDummyIP (di_dummyIP i)"
proof -
  assume d: "dns_ok d" and i: "i \<in> set (dd_ls d)"
  have "di_dummyIP i \<in> set (map di_dummyIP (dd_ls d))"
    using i by simp
  then obtain n where "n \<in> set (rev [1..<length (dd_ls d) + 1])" "di_dummyIP i = dummy_number n"
    unfolding dns_ok_numbers(1) [OF d] set_map by blast
  then show ?thesis
    using IsDummyIP_number dns_ok_numbers(2) [OF d] by simp
qed

lemma insert_node_ls:
  "dns_ok d \<Longrightarrow> length (dd_ls d) < 0xfffe \<Longrightarrow>
   insert_node host d = (dummy_number (length (dd_ls d) + 1),
     d\<lparr>dd_DummyIP := 0x7fff0000 + of_nat (length (dd_ls d) + 1),
       dd_ls := dummy_info (0x7fff0000 + of_nat (length (dd_ls d) + 1)) host # dd_ls d\<rparr>)"
proof -
  assume d: "dns_ok d" "length (dd_ls d) < 0xfffe"
  have next_ip: "dd_DummyIP d + 1 = 0x7fff0000 + of_nat (length (dd_ls d) + 1)"
    using d by (simp add: dns_ok_def)
  have "unat (0x7fff0000 + of_nat (length (dd_ls d) + 1) :: dword) \<le> unat (0x7ffffffe :: dword)"
    using d unat_dummy [of "length (dd_ls d) + 1"] by simp
  then have "\<not> (0x7ffffffe :: dword) < 0x7fff0000 + of_nat (length (dd_ls d) + 1)"
    by (simp add: word_less_nat_alt del: of_nat_Suc)
  then show ?thesis
    unfolding insert_node_def Let_def next_ip by (simp add: dummy_number_def del: of_nat_Suc)
qed

text \<open>An operation keeps the entries and adds at most one.\<close>

definition dns_grows :: "DummyDNS \<Rightarrow> DummyDNS \<Rightarrow> bool" where
  "dns_grows d d' \<longleftrightarrow> dns_ok d' \<and> length (dd_ls d') \<le> length (dd_ls d) + 1 \<and> set (dd_ls d) \<subseteq> set (dd_ls d')"

lemma dns_grows_refl: "dns_ok d \<Longrightarrow> dns_grows d d"
  by (simp add: dns_grows_def)

lemma insert_node_grows: "dns_ok d \<Longrightarrow> length (dd_ls d) < 0xfffe \<Longrightarrow> dns_grows d (snd (insert_node host d))"
  unfolding dns_grows_def insert_node_ls dns_ok_def
  by (auto simp: insert_node_ls dns_ok_def dummy_info_def dummy_number_def)

lemma GetDummyIP_grows: "dns_ok d \<Longrightarrow> length (dd_ls d) < 0xfffe \<Longrightarrow> dns_grows d (snd (GetDummyIP host d))"
  by (auto simp: GetDummyIP_def dns_grows_refl insert_node_grows split: option.splits)

lemma dns_grows_handle: "dns_grows d (d'\<lparr>dd_DummyHandle := n\<rparr>) = dns_grows d d'"
  "dns_grows (d\<lparr>dd_DummyHandle := n\<rparr>) d' = dns_grows d d'" "dns_ok (d\<lparr>dd_DummyHandle := n\<rparr>) = dns_ok d"
  by (simp_all add: dns_grows_def dns_ok_def)

lemma GetDummyHandle_grows:
  "dns_ok d \<Longrightarrow> length (dd_ls d) < 0xfffe \<Longrightarrow> dns_grows d (snd (snd (GetDummyHandle host d)))"
  using GetDummyIP_grows [of "d\<lparr>dd_DummyHandle := 0x520307\<rparr>" host] GetDummyIP_grows [of d host]
  by (simp add: GetDummyHandle_def Let_def case_prod_unfold dns_grows_handle)

lemma dns_step_grows: "dns_ok d \<Longrightarrow> length (dd_ls d) < 0xfffe \<Longrightarrow> dns_grows d (dns_step op d)"
  by (cases op)
    (auto simp: GetDummyIP_grows insert_node_grows GetDummyHandle_grows GetDummyIPv6_def dns_grows_refl Let_def split: option.splits)

lemma dns_run_grows:
  "dns_ok d \<Longrightarrow> length (dd_ls d) + length ops \<le> 0xfffe \<Longrightarrow>
   dns_ok (dns_run ops d) \<and> length (dd_ls (dns_run ops d)) \<le> length (dd_ls d) + length ops \<and>
   set (dd_ls d) \<subseteq> set (dd_ls (dns_run ops d))"
proof (induction ops arbitrary: d)
  case Nil
  then show ?case by (simp add: dns_run_def)
next
  case (Cons op ops)
  have "dns_grows d (dns_step op d)"
    using Cons.prems by (intro dns_step_grows) auto
  then show ?case
    using Cons.IH [of "dns_step op d"] Cons.prems by (auto simp: dns_run_def dns_grows_def)
qed

lemma find_distinct: "distinct (map f xs) \<Longrightarrow> x \<in> set xs \<Longrightarrow> find (\<lambda>y. f y = f x) xs = Some x"
  by (induction xs) (auto simp: image_iff)

lemma GetHostByIP_entry:
  assumes "dns_ok d" "i \<in> set (dd_ls d)"
  shows "GetHostByIP (di_dummyIP i) 256 d = Some (di_szHost i)"
    "GetHostByIPv6 (Some (di_dummyIPv6 i)) 256 d = Some (di_szHost i)"
proof -
  have host: "length (di_szHost i) \<le> 255" and
    v6: "\<And>j. j \<in> set (dd_ls d) \<Longrightarrow> di_dummyIPv6 j = [0xfd, 0xff] @ replicate 10 0 @ dword_bytes (di_dummyIP j)"
    using assms by (auto simp: dns_ok_def)
  have eq: "\<And>j. j \<in> set (dd_ls d) \<Longrightarrow> (di_dummyIPv6 j = di_dummyIPv6 i) = (di_dummyIP j = di_dummyIP i)"
    using v6 assms(2) by (metis append_same_eq bytes_dword_dword_bytes_Nil same_append_eq)
  have "find (\<lambda>j. di_dummyIPv6 j = di_dummyIPv6 i) (dd_ls d) = find (\<lambda>j. di_dummyIP j = di_dummyIP i) (dd_ls d)"
    by (rule find_cong) (auto simp: eq)
  then show "GetHostByIP (di_dummyIP i) 256 d = Some (di_szHost i)"
    "GetHostByIPv6 (Some (di_dummyIPv6 i)) 256 d = Some (di_szHost i)"
    using host find_distinct [OF dns_ok_distinct [OF assms(1)] assms(2)]
    by (simp_all add: GetHostByIP_def GetHostByIPv6_def)
qed

text \<open>What a resolution returns is an entry for the name.\<close>

lemma GetNode_Some: "GetNode host d = Some i \<Longrightarrow> i \<in> set (dd_ls d) \<and> stricmp_eq host (di_szHost i)"
  by (auto simp: GetNode_def find_Some_iff)

lemma GetDummyIP_entry:
  assumes "dns_ok d" "length (dd_ls d) < 0xfffe" "length host \<le> 255" "GetDummyIP host d = (ip, d')"
  shows "\<exists>i\<in>set (dd_ls d'). di_dummyIP i = ip \<and> stricmp_eq host (di_szHost i)"
proof (cases "GetNode host d")
  case (Some i)
  then show ?thesis using assms(4) GetNode_Some [OF Some] by (auto simp: GetDummyIP_def)
next
  case None
  then show ?thesis using assms by (auto simp: GetDummyIP_def insert_node_ls dummy_info_def dummy_number_def)
qed

lemma GetDummyIPv6_entry:
  assumes "dns_ok d" "length (dd_ls d) < 0xfffe" "length host \<le> 255" "GetDummyIPv6 host d = (ip6, d')"
  shows "\<exists>i\<in>set (dd_ls d'). di_dummyIPv6 i = ip6 \<and> stricmp_eq host (di_szHost i)"
proof (cases "GetNode host d")
  case (Some i)
  then show ?thesis using assms(4) GetNode_Some [OF Some] by (auto simp: GetDummyIPv6_def)
next
  case None
  let ?d = "snd (GetDummyIP host d)"
  obtain i where "i \<in> set (dd_ls ?d)" "stricmp_eq host (di_szHost i)"
    using GetDummyIP_entry [OF assms(1-3), of "fst (GetDummyIP host d)" ?d] by auto
  then obtain j where j: "GetNode host ?d = Some j"
    unfolding GetNode_def by (metis find_None_iff option.exhaust)
  then show ?thesis
    using None assms(4) GetNode_Some [OF j] by (auto simp: GetDummyIPv6_def)
qed

lemma IsDummyIPv6_entry: "dns_ok d \<Longrightarrow> i \<in> set (dd_ls d) \<Longrightarrow> IsDummyIPv6 (Some (di_dummyIPv6 i))"
  by (auto simp: dns_ok_def IsDummyIPv6_def)

text \<open>
  C19. A made-up address leads back to the name it was given for. Up to 65534 operations on the
  table, whatever they are and in whatever order, the IPv4 and the IPv6 address returned for a
  host name are in the made-up ranges and still give that name (up to case) afterwards.
\<close>

theorem dummy_address_names_host:
  assumes "length before + length after < 65534" "length host \<le> 255"
    and "GetDummyIP host (dns_run before DummyDNS_new) = (ip, d4)"
    and "GetDummyIPv6 host (dns_run before DummyDNS_new) = (ip6, d6)"
  shows "IsDummyIP ip \<and> (\<exists>n. GetHostByIP ip 256 (dns_run after d4) = Some n \<and> stricmp_eq host n) \<and>
    IsDummyIPv6 (Some ip6) \<and> (\<exists>n. GetHostByIPv6 (Some ip6) 256 (dns_run after d6) = Some n \<and> stricmp_eq host n)"
proof -
  let ?d = "dns_run before DummyDNS_new"
  have len0: "length (dd_ls DummyDNS_new) = 0"
    by (simp add: DummyDNS_new_def)
  have d: "dns_ok ?d" "length (dd_ls ?d) \<le> length before"
    using dns_run_grows [of DummyDNS_new before] assms(1) len0 by auto
  then have less: "length (dd_ls ?d) < 0xfffe"
    using assms(1) by simp
  have g4: "dns_grows ?d d4" and g6: "dns_grows ?d d6"
    using dns_step_grows [OF d(1) less, of "Resolve4 host"] dns_step_grows [OF d(1) less, of "Resolve6 host"] assms(3,4)
    by simp_all
  have r4: "dns_ok (dns_run after d4) \<and> set (dd_ls d4) \<subseteq> set (dd_ls (dns_run after d4))"
    and r6: "dns_ok (dns_run after d6) \<and> set (dd_ls d6) \<subseteq> set (dd_ls (dns_run after d6))"
    using dns_run_grows [of d4 after] dns_run_grows [of d6 after] g4 g6 d(2) assms(1) unfolding dns_grows_def by linarith+
  obtain i where i: "i \<in> set (dd_ls d4)" "di_dummyIP i = ip" "stricmp_eq host (di_szHost i)"
    using GetDummyIP_entry [OF d(1) less assms(2,3)] by blast
  obtain j where j: "j \<in> set (dd_ls d6)" "di_dummyIPv6 j = ip6" "stricmp_eq host (di_szHost j)"
    using GetDummyIPv6_entry [OF d(1) less assms(2,4)] by blast
  show ?thesis
    using i j r4 r6 GetHostByIP_entry(1) [of "dns_run after d4" i] GetHostByIP_entry(2) [of "dns_run after d6" j]
      dns_ok_dummy [of "dns_run after d4" i] IsDummyIPv6_entry [of "dns_run after d6" j]
    by auto
qed

section \<open>Calls that are redirected, let through or refused\<close>

text \<open>The request that a call for a destination makes of the service.\<close>

definition request_for :: "Hook \<Rightarrow> int \<Rightarrow> qword \<Rightarrow> sockaddr \<Rightarrow> PRCClient \<Rightarrow> bool" where
  "request_for h ty s a c \<longleftrightarrow> sType c = ty \<and> c_s c = s \<and> dstAddr c = a \<and> szDomainName c = original_name a h \<and>
     dwPid c = hk_processId h \<and> processCreateTime c = hk_createTime h"

definition service_address :: "HookEnv \<Rightarrow> int \<Rightarrow> PRCClient \<Rightarrow> sockaddr \<times> sockaddr \<Rightarrow> sockaddr" where
  "service_address e ty c prcinfo = local_address e (sa_family (dstAddr c))
     (if ty = 2 then udpAddr c else if sa_IsIPv6 (dstAddr c) then snd prcinfo else fst prcinfo)"

text \<open>What a step does not touch.\<close>

definition hook_frame :: "Hook \<Rightarrow> Hook \<Rightarrow> bool" where
  "hook_frame h h' \<longleftrightarrow> hk_psi h' = hk_psi h \<and> hk_DummyDNS h' = hk_DummyDNS h \<and> hk_registered h' = hk_registered h \<and>
     hk_processId h' = hk_processId h \<and> hk_createTime h' = hk_createTime h \<and>
     hs_ls (hk_HackedSocket h') = hs_ls (hk_HackedSocket h)"

lemma hook_frame_refl [simp]: "hook_frame h h"
  by (simp add: hook_frame_def)

lemma hook_frame_trans: "hook_frame h h1 \<Longrightarrow> hook_frame h1 h2 \<Longrightarrow> hook_frame h h2"
  by (simp add: hook_frame_def)

lemma hook_frame_simps [simp]:
  "hook_frame h (fail err h1) = hook_frame h h1" "hook_frame h (disconnect h1) = hook_frame h h1"
  "hook_frame h (h1\<lparr>hk_sockname := n\<rparr>) = hook_frame h h1" "hook_frame h (h1\<lparr>hk_pipe := p\<rparr>) = hook_frame h h1"
  "hook_frame h (h1\<lparr>hk_lastError := p2\<rparr>) = hook_frame h h1"
  by (simp_all add: hook_frame_def fail_def disconnect_def)

lemma do_bind_frame: "do_bind e s a h = (ok, h') \<Longrightarrow> hook_frame h h'"
  by (auto simp: do_bind_def split: sum.splits)

lemma EnsureSocketBound_frame: "EnsureSocketBound e s a h = (ok, h') \<Longrightarrow> hook_frame h h'"
  by (auto simp: EnsureSocketBound_def do_bind_def split: sum.splits option.splits if_splits)

lemma bound_endpoint_frame: "bound_endpoint e u s f h = (r, h') \<Longrightarrow> hook_frame h h'"
  by (auto simp: bound_endpoint_def do_bind_def Let_def split: sum.splits option.splits if_splits)

lemma EnsureRequestPipe_frame: "EnsureRequestPipe e h = (ok, h') \<Longrightarrow> hook_frame h h'"
  by (auto simp: EnsureRequestPipe_def split: option.splits if_splits)

lemma GetSocketGeneration_ls: "hs_ls (snd (GetSocketGeneration s ty hs)) = hs_ls hs"
  by (auto simp: GetSocketGeneration_def Let_def split: option.splits)

lemma new_client_frame: "new_client e ty s src a h = (c, h') \<Longrightarrow> hook_frame h h'"
  by (auto simp: new_client_def case_prod_unfold Let_def hook_frame_def GetSocketGeneration_ls)

lemma new_client_request: "new_client e ty s src a h = (c, h') \<Longrightarrow> request_for h ty s a c"
  by (auto simp: new_client_def case_prod_unfold Let_def request_for_def)

lemma request_for_frame: "request_for h1 ty s a c \<Longrightarrow> hook_frame h h1 \<Longrightarrow> request_for h ty s a c"
  by (auto simp: request_for_def hook_frame_def original_name_def)

lemma ask_service_cases:
  assumes "ask_service e c h = ((decision, pi), h')"
  shows "hook_frame h h'" "decision = HOOK_BYPASS \<Longrightarrow> \<exists>q. he_ProxyInfo e c = Inr q \<and> CanHackIt (he_inet_addr e) (hk_psi h) c (Some q) = HOOK_BYPASS"
  using assms by (auto simp: ask_service_def split: sum.splits)

definition intercepts :: "ProxySettingsInfo \<Rightarrow> int \<Rightarrow> bool" where
  "intercepts psi ty \<longleftrightarrow> ty = 2 \<and> bHookUDP psi \<or> ty = 1 \<and> bHookTCP psi"

definition bypassed :: "HookEnv \<Rightarrow> Hook \<Rightarrow> int \<Rightarrow> qword \<Rightarrow> sockaddr \<Rightarrow> bool" where
  "bypassed e h ty s a \<longleftrightarrow> (\<exists>c q. request_for h ty s a c \<and> he_ProxyInfo e c = Inr q \<and>
     CanHackIt (he_inet_addr e) (hk_psi h) c (Some q) = HOOK_BYPASS)"

definition connect_registered :: "HookEnv \<Rightarrow> Hook \<Rightarrow> int \<Rightarrow> qword \<Rightarrow> sockaddr \<Rightarrow> sockaddr \<Rightarrow> Hook \<Rightarrow> bool" where
  "connect_registered e h ty s a a' h' \<longleftrightarrow> (\<exists>c c' prcinfo. request_for h ty s a c \<and> he_Register e c = Inr c' \<and>
     he_startupInfo e = Inr prcinfo \<and> hk_registered h' = hk_registered h @ [c'] \<and> a' = service_address e ty c' prcinfo)"

lemma redirect_connect_cases:
  assumes "redirect_connect e ty pi prcinfo c h = ((decision, a'), h')"
  shows "decision = HOOK_FAILED \<or> decision = HOOK_REDIRECTED \<and> (\<exists>c'. he_Register e c = Inr c' \<and>
    hk_registered h' = hk_registered h @ [c'] \<and> a' = service_address e ty c' prcinfo)"
  using assms by (cases "he_Register e c") (auto simp: redirect_connect_def register_def service_address_def Let_def)

lemma ask_service_tail:
  assumes "(case ask_service e c h of
               ((HOOK_REDIRECTED, Some pi), h) \<Rightarrow> if lost then ((HOOK_FAILED, a), fail err h) else redirect_connect e ty pi prcinfo c h
             | ((decision, _), h) \<Rightarrow> ((decision, a), h)) = ((decision, a'), h')"
    and "request_for h0 ty s a c" "hook_frame h0 h" "he_startupInfo e = Inr prcinfo"
  shows "decision = HOOK_FAILED \<or> decision = HOOK_BYPASS \<and> bypassed e h0 ty s a \<or>
    decision = HOOK_REDIRECTED \<and> connect_registered e h0 ty s a a' h'"
proof -
  obtain dec pi h1 where ask: "ask_service e c h = ((dec, pi), h1)"
    by (metis surj_pair)
  note frame = hook_frame_trans [OF assms(3) ask_service_cases(1) [OF ask]]
  have pi: "pi = None \<Longrightarrow> dec = HOOK_FAILED"
    using ask by (auto simp: ask_service_def split: sum.splits)
  show ?thesis
  proof (cases "dec = HOOK_REDIRECTED \<and> \<not> lost")
    case True
    then obtain q where "redirect_connect e ty q prcinfo c h1 = ((decision, a'), h')"
      using assms(1) ask pi by (cases pi) auto
    from redirect_connect_cases [OF this] show ?thesis
      using assms(2,4) frame unfolding connect_registered_def hook_frame_def by metis
  next
    case False
    then have "decision = HOOK_FAILED \<or> decision = dec \<and> dec = HOOK_BYPASS"
      using assms(1) ask pi by (cases dec; cases pi) (auto split: if_splits)
    then show ?thesis
      using ask_service_cases(2) [OF ask] assms(2,3) unfolding bypassed_def hook_frame_def by metis
  qed
qed

lemma HackConnect_cases:
  assumes "HackConnect e s a h = ((decision, a'), h')" "he_sockType e = Inr ty" "intercepts (hk_psi h) ty"
    and "\<not> (sa_IsLoopback a \<and> \<not> IsDummy a)"
  shows "decision = HOOK_FAILED \<or> decision = HOOK_BYPASS \<and> bypassed e h ty s a \<or>
    decision = HOOK_REDIRECTED \<and> connect_registered e h ty s a a' h'"
proof (cases "ty = 2 \<and> bDisableMDNS (hk_psi h) \<and> mdns a")
  case True
  then show ?thesis using assms by (simp add: HackConnect_def)
next
  case False
  obtain src h1 where src: "bound_endpoint e False s (sa_family a) h = (src, h1)"
    by (metis surj_pair)
  obtain c h2 where c: "new_client e ty s (the src) a h1 = (c, h2)"
    by (metis surj_pair)
  obtain ok h3 where ok: "EnsureRequestPipe e h2 = (ok, h3)"
    by (metis surj_pair)
  have f1: "hook_frame h h1" and f3: "hook_frame h h3"
    using bound_endpoint_frame [OF src] new_client_frame [OF c] EnsureRequestPipe_frame [OF ok] hook_frame_trans by blast+
  have req: "request_for h ty s a c"
    using new_client_request [OF c] f1 by (rule request_for_frame)
  have dst: "dstAddr c = a"
    using req by (simp add: request_for_def)
  have hooked: "ty = 2 \<and> bHookUDP (hk_psi h) \<or> ty = 1 \<and> bHookTCP (hk_psi h)"
    using assms(3) by (simp add: intercepts_def)
  have guards: "\<not> (ty \<noteq> 2 \<and> ty \<noteq> 1)" "\<not> (ty = 2 \<and> bDisableMDNS (hk_psi h) \<and> mdns a)"
    "\<not> (ty = 2 \<and> \<not> bHookUDP (hk_psi h))" "\<not> (ty = 1 \<and> \<not> bHookTCP (hk_psi h))"
    using hooked False by auto
  note call = assms(1) [unfolded HackConnect_def assms(2) sum.case if_not_P [OF guards(1)] if_not_P [OF guards(2)]
    if_not_P [OF guards(3)] if_not_P [OF guards(4)] if_not_P [OF assms(4)] src prod.case]
  show ?thesis
  proof (cases "src = None \<or> \<not> ok \<or> (\<exists>err. he_startupInfo e = Inl err)")
    case True
    then show ?thesis
      using call c ok by (cases src; cases ok; cases "he_startupInfo e") (simp_all add: Let_def)
  next
    case False2: False
    then obtain src' prcinfo where srcinfo: "src = Some src'" "ok" "he_startupInfo e = Inr prcinfo"
      by (cases "he_startupInfo e") auto
    have "(case ask_service e c h3 of
               ((HOOK_REDIRECTED, Some pi), h) \<Rightarrow>
                 if ty = 1 \<and> sa_IsIPv6 (dstAddr c) \<and> \<not> sa_IsIPv6 (snd prcinfo)
                 then ((HOOK_FAILED, a), fail WSAEAFNOSUPPORT h)
                 else redirect_connect e ty pi prcinfo c h
             | ((decision, _), h) \<Rightarrow> ((decision, a), h)) = ((decision, a'), h')"
      using call c ok srcinfo by (simp add: Let_def)
    then show ?thesis
      by (rule ask_service_tail [OF _ req f3 srcinfo(3)])
  qed
qed

lemma bypassed_frame: "bypassed e h1 ty s a \<Longrightarrow> hook_frame h h1 \<Longrightarrow> bypassed e h ty s a"
  using request_for_frame [of h1 ty s a _ h] unfolding bypassed_def hook_frame_def by fastforce

lemma connect_registered_frame:
  "connect_registered e h1 ty s a a' h' \<Longrightarrow> hook_frame h h1 \<Longrightarrow> connect_registered e h ty s a a' h'"
  using request_for_frame [of h1 ty s a _ h] unfolding connect_registered_def hook_frame_def by fastforce

lemma redirected_call_Original:
  "redirected_call name a h = (Original r n, h') \<Longrightarrow> h' = h \<and> (\<exists>x. r = Some x \<and> MakeSocketAddress name a = Some (x, n))"
  by (auto simp: redirected_call_def refuse_def split: option.splits)

lemma failed_fst [simp]: "fst (failed h) = SocketError" "failed h \<noteq> (Original r n, h')"
  by (simp_all add: failed_def)

definition connect_outcome :: "HookEnv \<Rightarrow> Hook \<Rightarrow> int \<Rightarrow> qword \<Rightarrow> sockaddr option \<Rightarrow> int \<Rightarrow> sockaddr \<Rightarrow> sockaddr option \<Rightarrow> int \<Rightarrow> Hook \<Rightarrow> bool" where
  "connect_outcome e h ty s name len a r n h' \<longleftrightarrow>
     (r = name \<and> n = len \<and> bypassed e h ty s a) \<or>
     (\<exists>a' x. connect_registered e h ty s a a' h' \<and> r = Some x \<and> MakeSocketAddress name a' = Some (x, n))"

lemma connect_tail:
  assumes "(case HackConnect e s a h of
            ((HOOK_FAILED, _), h) \<Rightarrow> failed h
          | ((HOOK_BYPASS, _), h) \<Rightarrow> (Original name len, h)
          | ((HOOK_REDIRECTED, a), h) \<Rightarrow> redirected_call name a h) = (Original r n, h')"
    and "hook_frame h0 h" "he_sockType e = Inr ty" "intercepts (hk_psi h0) ty" "\<not> (sa_IsLoopback a \<and> \<not> IsDummy a)"
  shows "connect_outcome e h0 ty s name len a r n h'"
proof -
  obtain decision a' h1 where hack: "HackConnect e s a h = ((decision, a'), h1)"
    by (metis surj_pair)
  have "intercepts (hk_psi h) ty" "\<not> (sa_IsLoopback a \<and> \<not> IsDummy a)"
    using assms(2,4,5) by (simp_all add: hook_frame_def IsDummy_def)
  from HackConnect_cases [OF hack assms(3) this] consider
    "decision = HOOK_FAILED" | "decision = HOOK_BYPASS" "bypassed e h0 ty s a"
    | "decision = HOOK_REDIRECTED" "connect_registered e h0 ty s a a' h1"
    using bypassed_frame [OF _ assms(2)] connect_registered_frame [OF _ assms(2)] by blast
  then show ?thesis
  proof cases
    case 3
    then show ?thesis
      using assms(1) hack redirected_call_Original [of name a' h1 r n h'] unfolding connect_outcome_def by auto
  qed (use assms(1) hack in \<open>auto simp: connect_outcome_def\<close>)
qed

lemma connect_result:
  assumes "NormalizeSocketAddress name len = Some a" "he_sockType e = Inr ty" "intercepts (hk_psi h) ty"
    and "\<not> (sa_IsLoopback a \<and> \<not> IsDummy a)"
    and "inhook_connect e s name len h = (Original r n, h') \<or> inhook_ConnectEx known e s name len h = (Original r n, h')"
  shows "connect_outcome e h ty s name len a r n h'"
  using assms(5)
proof
  assume call: "inhook_connect e s name len h = (Original r n, h')"
  obtain ok h1 where bound: "EnsureSocketBound e s name h = (ok, h1)"
    by (metis surj_pair)
  have "(case HackConnect e s a h1 of
            ((HOOK_FAILED, _), h) \<Rightarrow> failed h
          | ((HOOK_BYPASS, _), h) \<Rightarrow> (Original name len, h)
          | ((HOOK_REDIRECTED, a), h) \<Rightarrow> redirected_call name a h) = (Original r n, h')"
    using call unfolding inhook_connect_def assms(1) option.case bound Let_def prod.case refuse_def
    by (metis Pair_inject hook_call.distinct(1))
  then show ?thesis
    using EnsureSocketBound_frame [OF bound] assms(2-4) by (rule connect_tail)
next
  assume call: "inhook_ConnectEx known e s name len h = (Original r n, h')"
  obtain x where name: "name = Some x" "sa_family x = AF_INET \<or> sa_family x = AF_INET6"
    using assms(1) by (auto simp: NormalizeSocketAddress_def split: option.splits if_splits)
  then have "\<not> (sa_family x \<noteq> AF_INET \<and> sa_family x \<noteq> AF_INET6)"
    by blast
  note call' = call [unfolded inhook_ConnectEx_def assms(1) name(1) option.case if_not_P [OF this] refuse_def]
  have "(case HackConnect e s a h of
            ((HOOK_FAILED, _), h) \<Rightarrow> failed h
          | ((HOOK_BYPASS, _), h) \<Rightarrow> (Original name len, h)
          | ((HOOK_REDIRECTED, a), h) \<Rightarrow> redirected_call name a h) = (Original r n, h')"
    using call' unfolding name(1) [symmetric] assms(1) option.case by (metis Pair_inject hook_call.distinct(1))
  then show ?thesis
    using hook_frame_refl assms(2-4) by (rule connect_tail)
qed

text \<open>
  C16. An intercepted connection never leaks. When the hook intercepts the socket's type and the
  destination is not a genuine loopback one, a \<open>connect\<close>, \<open>WSAConnect\<close> or \<open>ConnectEx\<close> that goes on at
  all either goes to the original destination because the service's answer for exactly this
  request says so, or goes to the service, after the service has accepted the registration of
  this request: socket, type, process, destination and the name behind it. Failures of the
  system, of the pipe and of the service never let the original destination through.
\<close>

theorem connect_never_leaks:
  assumes "NormalizeSocketAddress name len = Some a" "he_sockType e = Inr ty" "intercepts (hk_psi h) ty"
    and "\<not> (sa_IsLoopback a \<and> \<not> IsDummy a)"
    and "inhook_connect e s name len h = (Original r n, h') \<or> inhook_ConnectEx known e s name len h = (Original r n, h')"
  shows "(r = name \<and> n = len \<and>
      (\<exists>c q. request_for h ty s a c \<and> he_ProxyInfo e c = Inr q \<and> CanHackIt (he_inet_addr e) (hk_psi h) c (Some q) = HOOK_BYPASS)) \<or>
    (\<exists>c c' prcinfo x. request_for h ty s a c \<and> he_Register e c = Inr c' \<and> hk_registered h' = hk_registered h @ [c'] \<and>
      he_startupInfo e = Inr prcinfo \<and> r = Some x \<and> MakeSocketAddress name (service_address e ty c' prcinfo) = Some (x, n))"
  using connect_result [OF assms] unfolding connect_outcome_def bypassed_def connect_registered_def by metis

section \<open>Examples\<close>

theorem dummy_address_names_host_witness:
  "\<exists>n. GetHostByIP (fst (GetDummyIP ''a.example'' DummyDNS_new)) 256
      (dns_run [Resolve4 ''B.example'', Resolve6 ''A.EXAMPLE''] (snd (GetDummyIP ''a.example'' DummyDNS_new))) = Some n \<and>
    stricmp_eq ''a.example'' n"
  using dummy_address_names_host [of "[]" "[Resolve4 ''B.example'', Resolve6 ''A.EXAMPLE'']" "''a.example''"
    "fst (GetDummyIP ''a.example'' DummyDNS_new)" "snd (GetDummyIP ''a.example'' DummyDNS_new)"
    "fst (GetDummyIPv6 ''a.example'' DummyDNS_new)" "snd (GetDummyIPv6 ''a.example'' DummyDNS_new)"]
  by (simp add: dns_run_def [of "[]"])

definition sample_hook :: Hook where
  "sample_hook = \<lparr>hk_psi = example_settings, hk_DummyDNS = DummyDNS_new, hk_HackedSocket = HackedSocket_new,
     hk_limiter = Limiter_new, hk_pipe = False, hk_sockname = (\<lambda>_. Inr (example_sa4 0x0100007F 5000)),
     hk_lastError = 0, hk_processId = 7, hk_createTime = 1, hk_reports = [], hk_registered = []\<rparr>"

definition sample_hook_env :: "int \<Rightarrow> HookEnv" where
  "sample_hook_env ty = \<lparr>he_conv = (\<lambda>_ _ _. Inr [127, 0, 0, 1]), he_startup = 0, he_inet_addr = (\<lambda>_. 0x0100000A),
     he_sockType = Inr ty, he_peer = None, he_bind = (\<lambda>_. Inr (example_sa4 0 5000)), he_connect = None,
     he_startupInfo = Inr (example_sa4 0x0100007F 8000, sa_Clear), he_ProxyInfo = (\<lambda>_. Inr example_proxy),
     he_Register = (\<lambda>c. Inr (if sType c = 2 then c\<lparr>udpAddr := example_sa4 0x0100007F 9000\<rparr> else c)),
     he_report = True, he_reserved = (\<lambda>_. 0), he_now = 0, he_threadId = 1\<rparr>"

abbreviation (input) "sample_dst \<equiv> example_sa4 0x22D8B85D 80"

lemma sample_settings [simp]: "hk_psi sample_hook = example_settings" "he_sockType (sample_hook_env ty) = Inr ty"
  by (simp_all add: sample_hook_def sample_hook_env_def)

lemma sample_connect:
  "fst (inhook_connect (sample_hook_env 1) 9 (Some sample_dst) 16 sample_hook) = Original (Some (example_sa4 0x0100007F 8000)) 16"
  by code_simp

lemma sample_dst_read: "NormalizeSocketAddress (Some sample_dst) 16 = Some sample_dst" "\<not> sa_IsLoopback sample_dst"
  "intercepts example_settings 1" "intercepts example_settings 2"
  by code_simp+

theorem connect_never_leaks_witness:
  "\<exists>c c'. request_for sample_hook 1 9 sample_dst c \<and> he_Register (sample_hook_env 1) c = Inr c' \<and>
    hk_registered (snd (inhook_connect (sample_hook_env 1) 9 (Some sample_dst) 16 sample_hook)) = [c']"
proof -
  have "inhook_connect (sample_hook_env 1) 9 (Some sample_dst) 16 sample_hook = (Original (Some (example_sa4 0x0100007F 8000)) 16,
      snd (inhook_connect (sample_hook_env 1) 9 (Some sample_dst) 16 sample_hook))"
    by (simp add: prod_eq_iff sample_connect)
  note leak = connect_never_leaks [OF sample_dst_read(1) sample_settings(2) _ _ disjI1 [OF this], unfolded sample_settings,
    OF sample_dst_read(3)]
  have "Some (example_sa4 0x0100007F 8000) \<noteq> Some sample_dst"
    by code_simp
  moreover have "hk_registered sample_hook = []"
    by (simp add: sample_hook_def)
  ultimately show ?thesis
    using leak sample_dst_read(2) by auto
qed

end
