(* ===== verification/HookFlow.thy ===== *)
theory HookFlow
  imports HookRuns
begin

text \<open>
  The hooks of name resolution and of connecting together, the datagram hooks, and the settings
  that block IPv6, UDP and multicast DNS.
\<close>

section \<open>From a resolved name to the service\<close>

lemma CanHackIt_named: "IsDNValid c \<Longrightarrow> CanHackIt inet psi c (Some q) = HOOK_REDIRECTED"
  by (simp add: CanHackIt_def)

lemma bypassed_unnamed: "bypassed e h ty s a \<Longrightarrow> original_name a h = []"
  by (auto simp: bypassed_def request_for_def CanHackIt_def IsDNValid_def split: if_splits)

lemma stricmp_eq_Nil: "stricmp_eq host [] \<Longrightarrow> host = []"
  by (simp add: stricmp_eq_def)

text \<open>An address answered for a name, given a port by the caller, is read as that address again.\<close>

lemma Normalize_patched4:
  "sa_family x = AF_INET \<Longrightarrow>
   \<exists>a. NormalizeSocketAddress (Some (sa_SetPort p (patch_address ip ip6 x))) 16 = Some a \<and>
     sa_IsIPv4 a \<and> \<not> sa_IsIPv6 a \<and> sa_GetdwIP a = ip \<and> sa_GetPort a = p"
  by (simp add: NormalizeSocketAddress_def patch_address_def sa_Set_def sa_class_defs sa_GetPort_def)

lemma fd_not_mapped [simp]: "\<not> IN6_IS_ADDR_V4MAPPED (0xfd # bs)"
proof -
  have "replicate 10 0 @ [255, 255] = (0 :: byte) # replicate 9 0 @ [255, 255]"
    by (simp add: numeral_eq_Suc)
  then show ?thesis
    unfolding IN6_IS_ADDR_V4MAPPED_def by simp
qed

lemma Normalize_patched6:
  "sa_family x = AF_INET6 \<Longrightarrow> ip6 = 0xfd # bs \<Longrightarrow>
   \<exists>a. NormalizeSocketAddress (Some (sa_SetPort p (patch_address ip ip6 x))) 28 = Some a \<and>
     sa_IsIPv6 a \<and> sa_GetAddr6 a = Some ip6 \<and> sa_GetdwIP a = 0 \<and> sa_GetPort a = p"
  by (simp add: NormalizeSocketAddress_def patch_address_def sa_Set_def sa_IsIPv6_def sa_IsIPv4_def
      sa_IsIPv4Mapped_def sa_GetAddr6_def sa_GetdwIP_def sa_GetPort_def)

lemma IsDummyIP_0 [simp]: "\<not> IsDummyIP 0"
  by (simp add: IsDummyIP_def ntohl_def dword_bytes_def)

text \<open>The name behind an address that was answered for a host, after any other resolutions.\<close>

lemma name_of_patched:
  assumes d: "dns_ok d" and i: "i \<in> set (dd_ls d)" and j: "j \<in> set (dd_ls d)"
    and host: "stricmp_eq host (di_szHost i)" "stricmp_eq host (di_szHost j)"
    and x: "x = patch_address (di_dummyIP i) (di_dummyIPv6 j) x0" "sa_family x = AF_INET \<or> sa_family x = AF_INET6"
    and h: "hk_DummyDNS h = d"
  shows "\<exists>a. NormalizeSocketAddress (Some (sa_SetPort p x)) (sa_Size x) = Some a \<and> sa_GetPort a = p \<and>
    IsDummy a \<and> stricmp_eq host (original_name a h)"
proof -
  have fam: "sa_family x0 = sa_family x"
    using x(1) by (simp add: patch_address_def)
  have v6: "di_dummyIPv6 j = 0xfd # 0xff # replicate 10 0 @ dword_bytes (di_dummyIP j)"
    using d j by (simp add: dns_ok_def)
  note dummy = dns_ok_dummy [OF d i] IsDummyIPv6_entry [OF d j]
  note names = GetHostByIP_entry(1) [OF d i] GetHostByIP_entry(2) [OF d j]
  show ?thesis
  proof (cases "sa_family x = AF_INET")
    case True
    then obtain a where a: "NormalizeSocketAddress (Some (sa_SetPort p x)) 16 = Some a" "sa_GetPort a = p"
        "sa_IsIPv4 a" "\<not> sa_IsIPv6 a" "sa_GetdwIP a = di_dummyIP i"
      using Normalize_patched4 [of x0 p "di_dummyIP i" "di_dummyIPv6 j"] fam unfolding x(1) [symmetric] by auto
    then have "stricmp_eq host (original_name a h)" "IsDummy a"
      using dummy(1) names(1) host(1) h by (simp_all add: original_name_def IsDummy_def)
    then show ?thesis
      using a(1,2) True by (simp add: sa_Size_def)
  next
    case False
    then have fam6: "sa_family x = AF_INET6"
      using x(2) by simp
    then obtain a where a: "NormalizeSocketAddress (Some (sa_SetPort p x)) 28 = Some a" "sa_GetPort a = p"
        "sa_IsIPv6 a" "sa_GetAddr6 a = Some (di_dummyIPv6 j)" "sa_GetdwIP a = 0"
      using Normalize_patched6 [of x0 "di_dummyIPv6 j" _ p "di_dummyIP i", OF _ v6] fam unfolding x(1) [symmetric] by auto
    then have "stricmp_eq host (original_name a h)" "IsDummy a"
      using dummy(2) names(2) host(2) h by (simp_all add: original_name_def IsDummy_def)
    then show ?thesis
      using a(1,2) fam6 by (simp add: sa_Size_def)
  qed
qed

lemma getaddrinfo_entries:
  assumes "inhook_getaddrinfo e ln can (Some host) hints localhost h = (Addresses as, h')"
    and "dns_ok (hk_DummyDNS h)" "length (dd_ls (hk_DummyDNS h)) < 0xfffd" "length host \<le> 255"
  shows "dns_ok (hk_DummyDNS h') \<and> length (dd_ls (hk_DummyDNS h')) \<le> length (dd_ls (hk_DummyDNS h)) + 2 \<and>
    (\<exists>i\<in>set (dd_ls (hk_DummyDNS h')). \<exists>j\<in>set (dd_ls (hk_DummyDNS h')).
      stricmp_eq host (di_szHost i) \<and> stricmp_eq host (di_szHost j) \<and>
      (\<forall>x\<in>set as. \<exists>x0. x = patch_address (di_dummyIP i) (di_dummyIPv6 j) x0))"
proof -
  let ?d = "hk_DummyDNS h"
  obtain ip d4 where d4: "GetDummyIP host ?d = (ip, d4)"
    by (metis surj_pair)
  obtain ip6 d6 where d6: "GetDummyIPv6 host d4 = (ip6, d6)"
    by (metis surj_pair)
  have as: "hk_DummyDNS h' = d6" "\<forall>x\<in>set as. \<exists>x0. x = patch_address ip ip6 x0"
    using assms(1) d4 d6 by (auto simp: inhook_getaddrinfo_def hooked_lookup_def Let_def split: if_splits sum.splits)
  have g4: "dns_grows ?d d4"
    using dns_step_grows [OF assms(2), of "Resolve4 host"] assms(3) d4 by simp
  have ok4: "dns_ok d4" "length (dd_ls d4) < 0xfffe"
    using g4 assms(3) by (auto simp: dns_grows_def)
  have g6: "dns_grows d4 d6"
    using dns_step_grows [OF ok4, of "Resolve6 host"] d6 by simp
  obtain i where i: "i \<in> set (dd_ls d4)" "di_dummyIP i = ip" "stricmp_eq host (di_szHost i)"
    using GetDummyIP_entry [OF assms(2) _ assms(4) d4] assms(3) by auto
  obtain j where j: "j \<in> set (dd_ls d6)" "di_dummyIPv6 j = ip6" "stricmp_eq host (di_szHost j)"
    using GetDummyIPv6_entry [OF ok4 assms(4) d6] by auto
  have "i \<in> set (dd_ls d6)" "dns_ok d6" "length (dd_ls d6) \<le> length (dd_ls ?d) + 2"
    using g4 g6 i(1) by (auto simp: dns_grows_def)
  then show ?thesis
    using as i(2,3) j by blast
qed

text \<open>
  C10. A resolved name reaches the service. Whatever other names the process resolves before and
  after (65530 resolutions in all), an address that \<open>getaddrinfo\<close> answered for a host name and
  that the process then connects to with any port is registered with the service under that
  name (up to case) with that port, and the connection goes to the service and nowhere else, or
  it fails.
\<close>

theorem resolved_name_reaches_service:
  assumes "hk_DummyDNS h0 = dns_run before DummyDNS_new"
    and "inhook_getaddrinfo e0 ln can (Some host) hints localhost h0 = (Addresses as, h1)"
    and "hk_DummyDNS h2 = dns_run after (hk_DummyDNS h1)" "length before + length after < 65530"
    and "host \<noteq> []" "length host \<le> 255" "x \<in> set as" "sa_family x = AF_INET \<or> sa_family x = AF_INET6"
    and "he_sockType e = Inr ty" "intercepts (hk_psi h2) ty"
    and "inhook_connect e s (Some (sa_SetPort p x)) (sa_Size x) h2 = (Original r n, h3)"
  shows "\<exists>c c' prcinfo a'. stricmp_eq host (szDomainName c) \<and> sa_GetPort (dstAddr c) = p \<and> sType c = ty \<and> c_s c = s \<and>
    dwPid c = hk_processId h2 \<and> he_Register e c = Inr c' \<and> hk_registered h3 = hk_registered h2 @ [c'] \<and> he_startupInfo e = Inr prcinfo \<and>
    r = Some a' \<and> MakeSocketAddress (Some (sa_SetPort p x)) (service_address e ty c' prcinfo) = Some (a', n)"
proof -
  have len0: "length (dd_ls DummyDNS_new) = 0"
    by (simp add: DummyDNS_new_def)
  have d0: "dns_ok (hk_DummyDNS h0)" "length (dd_ls (hk_DummyDNS h0)) \<le> length before"
    using dns_run_grows [of DummyDNS_new before] assms(1,4) len0 by auto
  then have "length (dd_ls (hk_DummyDNS h0)) < 0xfffd"
    using assms(4) by simp
  from getaddrinfo_entries [OF assms(2) d0(1) this assms(6)] obtain i j where
    d1: "dns_ok (hk_DummyDNS h1)" "length (dd_ls (hk_DummyDNS h1)) \<le> length before + 2" and
    ij: "i \<in> set (dd_ls (hk_DummyDNS h1))" "j \<in> set (dd_ls (hk_DummyDNS h1))"
      "stricmp_eq host (di_szHost i)" "stricmp_eq host (di_szHost j)" and
    x0: "\<exists>x0. x = patch_address (di_dummyIP i) (di_dummyIPv6 j) x0"
    using d0(2) assms(7) by (meson add_le_mono1 le_trans)
  have d2: "dns_ok (hk_DummyDNS h2)" "set (dd_ls (hk_DummyDNS h1)) \<subseteq> set (dd_ls (hk_DummyDNS h2))"
    using dns_run_grows [of "hk_DummyDNS h1" after] d1 assms(3,4) by auto
  obtain a where a: "NormalizeSocketAddress (Some (sa_SetPort p x)) (sa_Size x) = Some a" "sa_GetPort a = p"
      "IsDummy a" "stricmp_eq host (original_name a h2)"
    using name_of_patched [OF d2(1) _ _ ij(3,4) _ assms(8) refl] ij(1,2) d2(2) x0 by blast
  have "\<not> bypassed e h2 ty s a"
    using bypassed_unnamed stricmp_eq_Nil a(4) assms(5) by metis
  moreover have "connect_outcome e h2 ty s (Some (sa_SetPort p x)) (sa_Size x) a r n h3"
    by (rule connect_result [OF a(1) assms(9,10)]) (use a(3) assms(11) in auto)
  ultimately show ?thesis
    using a(2,4) unfolding connect_outcome_def connect_registered_def request_for_def by (metis (no_types, lifting))
qed

section \<open>Datagrams\<close>

lemma payload_allowed_sum: "payload_allowed m k ns \<longleftrightarrow> k + sum_list ns \<le> m \<or> ns = [] \<and> k \<le> m"
  by (induction m k ns rule: payload_allowed.induct) (auto simp: min_def)

lemma IsWSABufferPayloadAllowed_sum [simp]: "IsWSABufferPayloadAllowed (Some ns) m \<longleftrightarrow> sum_list ns \<le> m"
  by (auto simp: IsWSABufferPayloadAllowed_def payload_allowed_sum)

text \<open>The ways in which a datagram to a destination may leave: where to, and at most how long.\<close>

definition route_known :: "HookEnv \<Rightarrow> Hook \<Rightarrow> qword \<Rightarrow> sockaddr \<Rightarrow> sockaddr \<Rightarrow> bool" where
  "route_known e h s a a' \<longleftrightarrow> (\<exists>c d. request_for h 2 s a c \<and> d \<in> set (hs_ls (hk_HackedSocket h)) \<and>
     udp_request_matches c d \<and> a' = local_address e (sa_family a) (udpAddr d))"

definition route_registered :: "HookEnv \<Rightarrow> Hook \<Rightarrow> qword \<Rightarrow> sockaddr \<Rightarrow> sockaddr \<Rightarrow> Hook \<Rightarrow> bool" where
  "route_registered e h s a a' h' \<longleftrightarrow> (\<exists>c c'. request_for h 2 s a c \<and> he_Register e c = Inr c' \<and>
     hk_registered h' = hk_registered h @ [c'] \<and> a' = local_address e (sa_family (dstAddr c')) (udpAddr c'))"

lemma register_route_cases:
  assumes "register_route e pi c h = ((decision, a', limit), h')" "request_for h0 2 s a c" "hook_frame h0 h"
  shows "decision = HOOK_FAILED \<or> decision = HOOK_REDIRECTED \<and> route_registered e h0 s a a' h'"
proof -
  let ?c = "c\<lparr>c_reserved := he_reserved e c\<rparr>"
  have c: "request_for h0 2 s a ?c"
    using assms(2) by (simp add: request_for_def)
  show ?thesis
  proof (cases "he_Register e ?c")
    case (Inl err)
    then show ?thesis using assms(1) by (simp add: register_route_def register_def)
  next
    case (Inr c')
    then have "decision = HOOK_REDIRECTED" "hk_registered h' = hk_registered h @ [c']"
      "a' = local_address e (sa_family (dstAddr c')) (udpAddr c')"
      using assms(1) by (auto simp: register_route_def register_def Let_def)
    then show ?thesis
      using c Inr assms(3) unfolding route_registered_def hook_frame_def by auto
  qed
qed

lemma send_service_tail:
  assumes "(case ask_service e c h of
      ((HOOK_REDIRECTED, Some pi), h) \<Rightarrow> register_route e pi c h | ((decision, _), h) \<Rightarrow> ((decision, a, 0), h)) = ((decision, a', limit), h')"
    and "request_for h0 2 s a c" "hook_frame h0 h"
  shows "decision = HOOK_FAILED \<or> decision = HOOK_BYPASS \<and> bypassed e h0 2 s a \<or>
    decision = HOOK_REDIRECTED \<and> route_registered e h0 s a a' h'"
proof -
  obtain dec pi h1 where ask: "ask_service e c h = ((dec, pi), h1)"
    by (metis surj_pair)
  note frame = hook_frame_trans [OF assms(3) ask_service_cases(1) [OF ask]]
  have pi: "pi = None \<Longrightarrow> dec = HOOK_FAILED"
    using ask by (auto simp: ask_service_def split: sum.splits)
  show ?thesis
  proof (cases "dec = HOOK_REDIRECTED")
    case True
    then obtain q where "register_route e q c h1 = ((decision, a', limit), h')"
      using assms(1) ask pi by (cases pi) auto
    from register_route_cases [OF this assms(2) frame] show ?thesis
      by blast
  next
    case False
    then have "decision = HOOK_FAILED \<or> decision = dec \<and> dec = HOOK_BYPASS"
      using assms(1) ask pi by (cases dec; cases pi) (auto split: if_splits)
    then show ?thesis
      using ask_service_cases(2) [OF ask] assms(2,3) unfolding bypassed_def hook_frame_def by metis
  qed
qed

lemma HackSendTo_cases:
  assumes "HackSendTo e s a h = ((decision, a', limit), h')" "he_sockType e = Inr 2" "bHookUDP (hk_psi h)"
    and "\<not> IsUDPRouteAddress s a (hk_HackedSocket h)"
  shows "decision = HOOK_FAILED \<or> decision = HOOK_BYPASS \<and> bypassed e h 2 s a \<or>
    decision = HOOK_REDIRECTED \<and> (route_known e h s a a' \<or> route_registered e h s a a' h')"
proof -
  obtain src h1 where src: "bound_endpoint e True s (sa_family a) h = (src, h1)"
    by (metis surj_pair)
  obtain c h2 where c: "new_client e 2 s (the src) a h1 = (c, h2)"
    by (metis surj_pair)
  obtain ok h3 where ok: "EnsureRequestPipe e h2 = (ok, h3)"
    by (metis surj_pair)
  have f1: "hook_frame h h1" and f2: "hook_frame h h2" and f3: "hook_frame h h3"
    using bound_endpoint_frame [OF src] new_client_frame [OF c] EnsureRequestPipe_frame [OF ok] hook_frame_trans by blast+
  have req: "request_for h 2 s a c"
    using new_client_request [OF c] f1 by (rule request_for_frame)
  then have dst: "dstAddr c = a"
    by (simp add: request_for_def)
  have guard: "\<not> \<not> bHookUDP (hk_psi h)" "\<not> (2 :: int) \<noteq> 2"
    using assms(3) by simp_all
  note call = assms(1) [unfolded HackSendTo_def if_not_P [OF guard(1)] assms(2) sum.case if_not_P [OF guard(2)]
    if_not_P [OF assms(4)] src prod.case]
  show ?thesis
  proof (cases src)
    case None
    then show ?thesis using call by simp
  next
    case (Some src')
    note call2 = call [unfolded Some option.case c [unfolded Some option.sel] Let_def prod.case ok]
    show ?thesis
    proof (cases "IsUDPReqHacked c (hk_HackedSocket h2)")
      case None
      show ?thesis
      proof (cases ok)
        case True
        have "(case ask_service e c h3 of ((HOOK_REDIRECTED, Some pi), h) \<Rightarrow> register_route e pi c h
            | ((decision, _), h) \<Rightarrow> ((decision, a, 0), h)) = ((decision, a', limit), h')"
          using call2 None True by simp
        from send_service_tail [OF this req f3] show ?thesis
          by blast
      qed (use call2 None in simp)
    next
      case (Some route)
      then obtain d where "d \<in> set (hs_ls (hk_HackedSocket h2))" "udp_request_matches c d" "route = udpAddr d"
        unfolding IsUDPReqHacked_def by (auto simp: find_Some_iff in_set_conv_nth)
      moreover have "decision = HOOK_REDIRECTED" "a' = local_address e (sa_family (dstAddr c)) route"
        using call2 Some by (simp_all add: known_route_def)
      ultimately show ?thesis
        using req f2 dst unfolding route_known_def hook_frame_def by metis
    qed
  qed
qed

lemma route_known_frame: "route_known e h1 s a a' \<Longrightarrow> hook_frame h h1 \<Longrightarrow> route_known e h s a a'"
  using request_for_frame [of h1 2 s a _ h] unfolding route_known_def hook_frame_def by fastforce

lemma route_registered_frame: "route_registered e h1 s a a' h' \<Longrightarrow> hook_frame h h1 \<Longrightarrow> route_registered e h s a a' h'"
  using request_for_frame [of h1 2 s a _ h] unfolding route_registered_def hook_frame_def by fastforce

definition datagram_outcome :: "HookEnv \<Rightarrow> Hook \<Rightarrow> qword \<Rightarrow> sockaddr option \<Rightarrow> int \<Rightarrow> sockaddr \<Rightarrow> sockaddr option \<Rightarrow> int \<Rightarrow> Hook \<Rightarrow> bool" where
  "datagram_outcome e h s to len a r n h' \<longleftrightarrow>
     (r = to \<and> n = len \<and> (bypassed e h 2 s a \<or> IsUDPRouteAddress s a (hk_HackedSocket h))) \<or>
     (\<exists>a' x. (route_known e h s a a' \<or> route_registered e h s a a' h') \<and> r = Some x \<and> MakeSocketAddress to a' = Some (x, n))"

lemma send_datagram_result:
  assumes "NormalizeSocketAddress to len = Some a" "he_sockType e = Inr 2" "bHookUDP (hk_psi h)"
    and "send_datagram e s buffers to len h = (Original r n, h')"
  shows "datagram_outcome e h s to len a r n h'"
proof -
  obtain x where to: "to = Some x"
    using assms(1) by (auto simp: NormalizeSocketAddress_def split: option.splits)
  obtain ok h1 where bound: "EnsureSocketBound e s to h = (ok, h1)"
    by (metis surj_pair)
  note frame = EnsureSocketBound_frame [OF bound]
  obtain decision a' limit h2 where hack: "HackSendTo e s a h1 = ((decision, a', limit), h2)"
    by (metis surj_pair)
  note call = assms(4) [unfolded send_datagram_def to option.case assms(1) [unfolded to] bound [unfolded to] Let_def prod.case hack]
  have udp: "bHookUDP (hk_psi h1)" and
    route: "IsUDPRouteAddress s a (hk_HackedSocket h1) = IsUDPRouteAddress s a (hk_HackedSocket h)"
    using frame assms(3) by (simp_all add: hook_frame_def IsUDPRouteAddress_def)
  show ?thesis
  proof (cases "IsUDPRouteAddress s a (hk_HackedSocket h1)")
    case True
    then have "decision = HOOK_BYPASS"
      using hack assms(2) udp by (simp add: HackSendTo_def)
    then show ?thesis
      using call True route to by (auto simp: datagram_outcome_def split: if_splits)
  next
    case False
    from HackSendTo_cases [OF hack assms(2) udp False] consider
      "decision = HOOK_FAILED" | "decision = HOOK_BYPASS" "bypassed e h 2 s a"
      | "decision = HOOK_REDIRECTED" "route_known e h s a a' \<or> route_registered e h s a a' h2"
      using bypassed_frame [OF _ frame] route_known_frame [OF _ frame] route_registered_frame [OF _ frame] by blast
    then show ?thesis
    proof cases
      case 3
      then have "redirected_call to a' h2 = (Original r n, h')"
        using call to by (auto simp: refuse_def split: if_splits)
      from redirected_call_Original [OF this] 3 show ?thesis
        unfolding datagram_outcome_def by blast
    qed (use call to in \<open>auto simp: datagram_outcome_def split: if_splits\<close>)
  qed
qed

lemma send_blocked_not_Original: "send_blocked e s to len h = Some r \<Longrightarrow> fst r = SocketError"
  by (auto simp: send_blocked_def refuse_def split: option.splits if_splits)

lemma WSASendTo_result:
  assumes "inhook_WSASendTo e s buffers to len h = (Original r n, h')" "bHookUDP (hk_psi h)"
  shows "send_datagram e s buffers to len h = (Original r n, h')"
  using assms send_blocked_not_Original [of e s to len h] by (auto simp: inhook_WSASendTo_def split: option.splits)

text \<open>The three ways of sending a datagram to a destination.\<close>

datatype send_call = Sendto int | SendTo "nat list option" | SendMsg bool "nat list option"

fun send_hook :: "send_call \<Rightarrow> HookEnv \<Rightarrow> qword \<Rightarrow> sockaddr option \<Rightarrow> int \<Rightarrow> Hook \<Rightarrow> hook_call \<times> Hook" where
  "send_hook (Sendto n) e s to len h = inhook_sendto e s n to len h"
| "send_hook (SendTo buffers) e s to len h = inhook_WSASendTo e s buffers to len h"
| "send_hook (SendMsg known buffers) e s to len h = inhook_WSASendMsg known e s (Some (to, len, buffers)) h"

lemma send_hook_result:
  assumes "send_hook call e s to len h = (Original r n, h')" "bHookUDP (hk_psi h)" "\<forall>k<0. call \<noteq> Sendto k"
  shows "\<exists>buffers. send_datagram e s buffers to len h = (Original r n, h')"
proof (cases call)
  case (Sendto k)
  then have "inhook_WSASendTo e s (Some [nat k]) to len h = (Original r n, h')"
    using assms send_blocked_not_Original [of e s to len h] by (auto simp: inhook_sendto_def split: option.splits if_splits)
  then show ?thesis using WSASendTo_result assms(2) by blast
next
  case (SendTo buffers)
  then show ?thesis using WSASendTo_result [of e s buffers to len h r n h'] assms by auto
next
  case (SendMsg known buffers)
  then show ?thesis
    using assms send_blocked_not_Original [of e s to len h]
    by (auto simp: inhook_WSASendMsg_def refuse_def split: option.splits if_splits)
qed

text \<open>
  C17. An intercepted datagram never leaks. When the hook intercepts UDP, a datagram sent with
  \<open>sendto\<close>, \<open>WSASendTo\<close> or \<open>WSASendMsg\<close> to a destination leaves with that destination only if the
  service's answer for this request says so or the destination is itself a local route of this
  socket; otherwise it goes to the local route that the table holds for the same socket and
  destination, or to a route that the service has just registered for it; or the call fails.
\<close>

theorem datagram_never_leaks:
  assumes "NormalizeSocketAddress to len = Some a" "he_sockType e = Inr 2" "bHookUDP (hk_psi h)"
    and "send_hook call e s to len h = (Original r n, h')" "\<forall>k<0. call \<noteq> Sendto k"
  shows "datagram_outcome e h s to len a r n h'"
proof -
  obtain buffers where "send_datagram e s buffers to len h = (Original r n, h')"
    using send_hook_result [OF assms(4,3,5)] by blast
  with assms(1-3) show ?thesis
    by (rule send_datagram_result)
qed

section \<open>Blocked traffic\<close>

lemma report_blocked_registered [simp]: "hk_registered (report_blocked e r h) = hk_registered h"
  by (auto simp: report_blocked_def EnsureRequestPipe_def fail_def disconnect_def Let_def split: option.splits if_splits)

lemma LogBlocked_registered [simp]:
  "hk_registered (LogBlockedIPv6 e a h) = hk_registered h" "hk_registered (LogBlockedUDP e s to len h) = hk_registered h"
  by (simp_all add: LogBlockedIPv6_def LogBlockedUDP_def Let_def case_prod_unfold)

lemma refuse_result [simp]: "fst (refuse err h) = SocketError" "hk_registered (snd (refuse err h)) = hk_registered h"
  "hk_lastError (snd (refuse err h)) = err"
  by (simp_all add: refuse_def fail_def)

text \<open>What the settings block, and the error that the process sees.\<close>

definition blocked :: "ProxySettingsInfo \<Rightarrow> sockaddr \<Rightarrow> int option" where
  "blocked psi a =
     (if bBlockIPv6 psi \<and> Ipv6_ShouldBlock a then Some WSAEAFNOSUPPORT
      else if bBlockUDP psi \<and> \<not> IsUdpAllowedLoopback a then Some WSAEACCES
      else if bDisableMDNS psi \<and> mdns a then Some WSAEHOSTUNREACH
      else None)"

lemma send_blocked_blocked:
  assumes "NormalizeSocketAddress to len = Some a" "blocked (hk_psi h) a = Some err"
  shows "\<exists>h'. send_blocked e s to len h = Some (refuse err h') \<and> hk_registered h' = hk_registered h"
proof -
  obtain x where to: "to = Some x"
    using assms(1) by (auto simp: NormalizeSocketAddress_def split: option.splits)
  have "GetSocketDestination e s to len h = Some a"
    using assms(1) to by (simp add: GetSocketDestination_def)
  then show ?thesis
    using assms by (auto simp: send_blocked_def IsBlockedIPv6Destination_def IsUdpLoopbackDestination_def
        Hook_IsMdnsDestination_def blocked_def split: if_splits)
qed

lemma connect_blocked:
  assumes "NormalizeSocketAddress to len = Some a" "blocked (hk_psi h) a = Some err" "he_sockType e = Inr 2"
  shows "fst (inhook_connect e s to len h) = SocketError \<and>
    hk_registered (snd (inhook_connect e s to len h)) = hk_registered h"
proof -
  obtain ok h1 where bound: "EnsureSocketBound e s to h = (ok, h1)"
    by (metis surj_pair)
  note f = EnsureSocketBound_frame [OF bound]
  show ?thesis
  proof (cases "bBlockIPv6 (hk_psi h) \<and> Ipv6_ShouldBlock a \<or> \<not> ok \<or> bBlockUDP (hk_psi h) \<and> \<not> IsUdpAllowedLoopback a")
    case True
    then show ?thesis
      using assms(1,3) bound f by (auto simp: inhook_connect_def Let_def hook_frame_def)
  next
    case False
    then have "bDisableMDNS (hk_psi h) \<and> mdns a"
      using assms(2) by (auto simp: blocked_def split: if_splits)
    then have "HackConnect e s a h1 = ((HOOK_FAILED, a), fail WSAEHOSTUNREACH h1)"
      using assms(3) f by (simp add: HackConnect_def hook_frame_def)
    then show ?thesis
      using assms(1,3) bound f False by (auto simp: inhook_connect_def Let_def hook_frame_def failed_def fail_def)
  qed
qed

text \<open>
  C18. Blocked traffic is refused by every hook. For a datagram socket and a destination that the
  settings block (external IPv6, UDP beyond genuine loopback, multicast DNS), \<open>sendto\<close>, \<open>WSASendTo\<close>
  and \<open>WSASendMsg\<close> fail with the error of that block, \<open>connect\<close> and \<open>WSAConnect\<close> fail, the original
  function is not called, and nothing is registered with the service.
\<close>

theorem blocked_traffic_refused:
  assumes "NormalizeSocketAddress to len = Some a" "blocked (hk_psi h) a = Some err" "he_sockType e = Inr 2"
    and "\<And>buffers. call \<noteq> SendMsg False buffers"
  shows "fst (send_hook call e s to len h) = SocketError \<and> hk_lastError (snd (send_hook call e s to len h)) = err \<and>
    hk_registered (snd (send_hook call e s to len h)) = hk_registered h \<and>
    fst (inhook_connect e s to len h) = SocketError \<and> hk_registered (snd (inhook_connect e s to len h)) = hk_registered h"
proof -
  obtain h' where h': "send_blocked e s to len h = Some (refuse err h')" "hk_registered h' = hk_registered h"
    using send_blocked_blocked [OF assms(1,2)] by blast
  have "send_hook call e s to len h = refuse err h'"
    using h'(1) assms(4) by (cases call) (auto simp: inhook_sendto_def inhook_WSASendTo_def inhook_WSASendMsg_def)
  then show ?thesis
    using connect_blocked [OF assms(1-3)] h'(2) by simp
qed

text \<open>The first datagram to a destination, with a working service, takes the route just registered.\<close>

lemma HackSendTo_new_route:
  assumes "he_sockType e = Inr 2" "bHookUDP (hk_psi h)" "\<not> IsUDPRouteAddress s a (hk_HackedSocket h)"
    and "hk_sockname h s = Inr name" "socket_endpoint (sa_family a) name = Some src"
    and "new_client e 2 s src a h = (c, h1)" "IsUDPReqHacked c (hk_HackedSocket h1) = None" "he_connect e = None"
    and "he_ProxyInfo e c = Inr q" "CanHackIt (he_inet_addr e) (hk_psi h) c (Some q) = HOOK_REDIRECTED"
    and "he_Register e (c\<lparr>c_reserved := he_reserved e c\<rparr>) = Inr c'"
  shows "\<exists>h'. HackSendTo e s a h =
    ((HOOK_REDIRECTED, local_address e (sa_family (dstAddr c')) (udpAddr c'), payload_limit q c'), h')"
proof -
  have pipe: "\<exists>h2. EnsureRequestPipe e h1 = (True, h2) \<and> hk_psi h2 = hk_psi h"
    using assms(8) new_client_frame [OF assms(6)] by (auto simp: EnsureRequestPipe_def hook_frame_def)
  then obtain h2 where h2: "EnsureRequestPipe e h1 = (True, h2)" "hk_psi h2 = hk_psi h"
    by blast
  have "bound_endpoint e True s (sa_family a) h = (Some src, h)"
    using assms(4,5) by (simp add: bound_endpoint_def)
  then show ?thesis
    using assms(1-3,6,7,9-11) h2 by (simp add: HackSendTo_def ask_service_def register_route_def register_def Let_def)
qed

lemma WSASendTo_new_route:
  assumes "NormalizeSocketAddress to len = Some a" "blocked (hk_psi h) a = None" "hk_sockname h s = Inr name"
    and "bHookUDP (hk_psi h)" "HackSendTo e s a h = ((HOOK_REDIRECTED, a', limit), h')"
    and "IsWSABufferPayloadAllowed buffers limit" "MakeSocketAddress to a' = Some (x, n)"
  shows "inhook_WSASendTo e s buffers to len h = (Original (Some x) n, h')"
proof -
  obtain y where to: "to = Some y"
    using assms(1) by (auto simp: NormalizeSocketAddress_def split: option.splits)
  have "GetSocketDestination e s to len h = Some a"
    using assms(1) to by (simp add: GetSocketDestination_def)
  then have "send_blocked e s to len h = None"
    using assms(1,2) by (auto simp: send_blocked_def IsBlockedIPv6Destination_def IsUdpLoopbackDestination_def
        Hook_IsMdnsDestination_def blocked_def split: if_splits)
  moreover have "EnsureSocketBound e s to h = (True, h)"
    using assms(3) by (simp add: EnsureSocketBound_def)
  ultimately show ?thesis
    using assms to by (simp add: inhook_WSASendTo_def send_datagram_def redirected_call_def)
qed

section \<open>Where the hook departs from its intention\<close>

text \<open>
  C38. Public addresses are treated as local ones. The branch meant for the private range
  172.16.0.0/12 of \<open>CanHackIt\<close> reaches up to 172.131: without \<open>bHookLanIP\<close>, every destination in
  172.32 to 172.131 (none of them private by the program's own \<open>IsPrivateDnsAddress\<close>) is let through
  unproxied, whenever the proxy host is a numeric address in another network.
\<close>

theorem public_172_bypasses:
  assumes "sa_IsIPv4 (dstAddr c)" "dword_bytes (sin_addr (dstAddr c)) = [172, b, x, y]" "32 \<le> b" "b \<le> 131"
    and "\<not> bHookLanIP psi" "szDomainName c = []"
    and "dword_bytes (inet (strProxyHost q)) ! 0 \<noteq> 172" "inet (strProxyHost q) \<noteq> 0" "inet (strProxyHost q) \<noteq> 0xFFFFFFFF"
  shows "CanHackIt inet psi c (Some q) = HOOK_BYPASS \<and> \<not> IsPrivateDnsAddress (dstAddr c)"
proof -
  have ip: "sa_GetdwIP (dstAddr c) = sin_addr (dstAddr c)" "\<not> sa_IsIPv6 (dstAddr c)"
    using assms(1) by (simp_all add: sa_GetdwIP_def sa_IsIPv4_def sa_IsIPv6_def)
  have public: "\<not> IsPrivateDnsAddress (dstAddr c)"
    using assms(1-4) ip by (auto simp: IsPrivateDnsAddress_def Let_def word_le_nat_alt)
  have ne: "sin_addr (dstAddr c) \<noteq> 0 \<and> sin_addr (dstAddr c) \<noteq> 0xFFFFFFFF"
    using assms(2) by (auto simp: dword_bytes_def)
  have "16 \<le> b"
    using assms(3) by (auto simp: word_le_nat_alt)
  then have "lan_bypass (sin_addr (dstAddr c)) (inet (strProxyHost q))"
    using assms(2,4,7) by (simp add: lan_bypass_def Let_def)
  then show ?thesis
    using assms(5,6,8,9) ip ne public by (simp add: CanHackIt_def ShouldRedirect_def IsDNValid_def Let_def)
qed

text \<open>
  C39. Datagrams to the loopback address are diverted. \<open>HackConnect\<close> lets genuine loopback
  destinations through, \<open>HackSendTo\<close> does not: a datagram socket that connects to \<open>::1\<close> keeps its
  peer, while a datagram that it sends to \<open>::1\<close> goes to the service (or fails), unless \<open>::1\<close> and the
  port are one of the socket's own routes.
\<close>

theorem loopback_datagrams_diverted:
  assumes "NormalizeSocketAddress to len = Some a" "sa_IsIPv6 a" "sa_IsLoopback a" "he_sockType e = Inr 2"
    and "bHookUDP (hk_psi h)" "\<not> (bDisableMDNS (hk_psi h) \<and> mdns a)" "\<not> IsUDPRouteAddress s a (hk_HackedSocket h)"
    and "send_hook call e s to len h = (Original r n, h')" "\<forall>k<0. call \<noteq> Sendto k"
  shows "HackConnect e s a h = ((HOOK_BYPASS, a), h) \<and>
    (\<exists>a' x. (route_known e h s a a' \<or> route_registered e h s a a' h') \<and> r = Some x \<and> MakeSocketAddress to a' = Some (x, n))"
proof -
  have v6: "\<not> sa_IsIPv4 a" "sa_GetAddr6 a = Some (replicate 15 0 @ [1])"
    using assms(2,3) by (auto simp: sa_class_defs)
  then have not_dummy: "\<not> IsDummy a"
    by (auto simp: IsDummy_def IsDummyIPv6_def nth_append)
  have "HackConnect e s a h = ((HOOK_BYPASS, a), h)"
    using assms(3-6) not_dummy by (simp add: HackConnect_def)
  moreover have "\<not> bypassed e h 2 s a"
    using assms(2) by (auto simp: bypassed_def request_for_def CanHackIt_def split: if_splits)
  moreover obtain buffers where "send_datagram e s buffers to len h = (Original r n, h')"
    using send_hook_result [OF assms(8,5,9)] by blast
  then have "datagram_outcome e h s to len a r n h'"
    by (rule send_datagram_result [OF assms(1,4,5)])
  ultimately show ?thesis
    using assms(7) unfolding datagram_outcome_def by blast
qed

section \<open>Examples\<close>

definition sample_resolve :: "resolution \<times> Hook" where
  "sample_resolve = inhook_getaddrinfo (sample_hook_env 1) ''pc'' (Some True) (Some ''a.example'') None
     (\<lambda>_. Inr [example_sa4 0x0100007F 0]) sample_hook"

lemma sample_resolved: "fst sample_resolve = Addresses [example_sa4 0x0100FF7F 0]"
  by code_simp

lemma sample_resolved_psi: "hk_psi (snd sample_resolve) = example_settings"
  by code_simp

lemma sample_named_connect:
  "fst (inhook_connect (sample_hook_env 1) 9 (Some (sa_SetPort 443 (example_sa4 0x0100FF7F 0))) 16 (snd sample_resolve)) =
   Original (Some (example_sa4 0x0100007F 8000)) 16"
  by code_simp

theorem resolved_name_reaches_service_witness:
  "\<exists>c. stricmp_eq ''a.example'' (szDomainName c) \<and> sa_GetPort (dstAddr c) = 443 \<and> sType c = 1 \<and> c_s c = 9 \<and>
    he_Register (sample_hook_env 1) c \<noteq> Inl 0"
proof -
  let ?x = "example_sa4 0x0100FF7F 0"
  let ?call = "inhook_connect (sample_hook_env 1) 9 (Some (sa_SetPort 443 ?x)) 16 (snd sample_resolve)"
  have new: "hk_DummyDNS sample_hook = dns_run [] DummyDNS_new"
    "hk_DummyDNS (snd sample_resolve) = dns_run [] (hk_DummyDNS (snd sample_resolve))"
    by (simp_all add: sample_hook_def dns_run_def)
  have res: "inhook_getaddrinfo (sample_hook_env 1) ''pc'' (Some True) (Some ''a.example'') None
      (\<lambda>_. Inr [example_sa4 0x0100007F 0]) sample_hook = (Addresses [?x], snd sample_resolve)"
    using sample_resolved unfolding sample_resolve_def by (simp add: prod_eq_iff)
  have call: "inhook_connect (sample_hook_env 1) 9 (Some (sa_SetPort 443 ?x)) (sa_Size ?x) (snd sample_resolve) =
      (Original (Some (example_sa4 0x0100007F 8000)) 16, snd ?call)"
    using sample_named_connect by (simp add: prod_eq_iff sa_Size_def example_sa4_def)
  have side: "''a.example'' \<noteq> []" "length ''a.example'' \<le> 255" "?x \<in> set [?x]" "sa_family ?x = AF_INET \<or> sa_family ?x = AF_INET6"
    "intercepts (hk_psi (snd sample_resolve)) 1"
    by (simp_all add: example_sa4_def sample_resolved_psi sample_dst_read)
  obtain c c' where c: "stricmp_eq ''a.example'' (szDomainName c)" "sa_GetPort (dstAddr c) = 443" "sType c = 1" "c_s c = 9"
      "he_Register (sample_hook_env 1) c = Inr c'"
    using resolved_name_reaches_service [OF new(1) res new(2) _ side(1-4) sample_settings(2) side(5) call] by auto
  then show ?thesis
    by auto
qed

definition sample_request :: "sockaddr \<Rightarrow> PRCClient" where
  "sample_request a = fst (new_client (sample_hook_env 2) 2 9 (example_sa4 0x0100007F 5000) a sample_hook)"

lemma sample_route:
  assumes "socket_endpoint (sa_family a) (example_sa4 0x0100007F 5000) = Some (example_sa4 0x0100007F 5000)"
    and "CanHackIt (\<lambda>_. 0x0100000A) example_settings (sample_request a) (Some example_proxy) = HOOK_REDIRECTED"
    and "NormalizeSocketAddress to len = Some a" "blocked example_settings a = None"
    and "MakeSocketAddress to (example_sa4 0x0100007F 9000) = Some (x, n)"
  shows "\<exists>h'. send_hook (SendTo None) (sample_hook_env 2) 9 to len sample_hook = (Original (Some x) n, h')"
proof -
  let ?h1 = "snd (new_client (sample_hook_env 2) 2 9 (example_sa4 0x0100007F 5000) a sample_hook)"
  have c: "new_client (sample_hook_env 2) 2 9 (example_sa4 0x0100007F 5000) a sample_hook = (sample_request a, ?h1)"
    by (simp add: sample_request_def)
  have ls: "hs_ls (hk_HackedSocket ?h1) = []"
    using new_client_frame [OF c] by (simp add: hook_frame_def sample_hook_def HackedSocket_new_def)
  have ty: "sType (sample_request a) = 2"
    using new_client_request [OF c] by (simp add: request_for_def)
  have sock: "hk_sockname sample_hook 9 = Inr (example_sa4 0x0100007F 5000)" "bHookUDP (hk_psi sample_hook)"
      "hk_psi sample_hook = example_settings"
    by (simp_all add: sample_hook_def example_settings_def)
  have side: "\<not> IsUDPRouteAddress 9 a (hk_HackedSocket sample_hook)" "IsUDPReqHacked (sample_request a) (hk_HackedSocket ?h1) = None"
    using ls by (simp_all add: IsUDPRouteAddress_def IsUDPReqHacked_def sample_hook_def HackedSocket_new_def)
  have env: "he_connect (sample_hook_env 2) = None" "he_ProxyInfo (sample_hook_env 2) (sample_request a) = Inr example_proxy"
    "CanHackIt (he_inet_addr (sample_hook_env 2)) (hk_psi sample_hook) (sample_request a) (Some example_proxy) = HOOK_REDIRECTED"
    "he_Register (sample_hook_env 2) ((sample_request a)\<lparr>c_reserved := he_reserved (sample_hook_env 2) (sample_request a)\<rparr>) =
       Inr ((sample_request a)\<lparr>c_reserved := 0, udpAddr := example_sa4 0x0100007F 9000\<rparr>)"
    using assms(2) ty by (simp_all add: sample_hook_env_def sock(3))
  obtain h' where "HackSendTo (sample_hook_env 2) 9 a sample_hook = ((HOOK_REDIRECTED,
      local_address (sample_hook_env 2) (sa_family (dstAddr (sample_request a))) (example_sa4 0x0100007F 9000),
      payload_limit example_proxy ((sample_request a)\<lparr>c_reserved := 0, udpAddr := example_sa4 0x0100007F 9000\<rparr>)), h')"
    using HackSendTo_new_route [OF sample_settings(2) sock(2) side(1) sock(1) assms(1) c side(2) env] by auto
  moreover have "local_address (sample_hook_env 2) f (example_sa4 0x0100007F 9000) = example_sa4 0x0100007F 9000" for f
    by (simp add: local_address_def sa_IsAny_def example_sa4_def sa_IsIPv4_def sa_IsIPv6_def)
  ultimately have "inhook_WSASendTo (sample_hook_env 2) 9 None to len sample_hook = (Original (Some x) n, h')"
    using assms(3-5) sock by (intro WSASendTo_new_route) (auto simp: IsWSABufferPayloadAllowed_def)
  then show ?thesis
    by simp
qed

lemma sample_send:
  "\<exists>h'. send_hook (SendTo None) (sample_hook_env 2) 9 (Some sample_dst) 16 sample_hook =
    (Original (Some (example_sa4 0x0100007F 9000)) 16, h')"
  by (rule sample_route [of sample_dst]) code_simp+

theorem datagram_never_leaks_witness:
  "\<exists>h'. datagram_outcome (sample_hook_env 2) sample_hook 9 (Some sample_dst) 16 sample_dst (Some (example_sa4 0x0100007F 9000)) 16 h'"
proof -
  obtain h' where h': "send_hook (SendTo None) (sample_hook_env 2) 9 (Some sample_dst) 16 sample_hook =
      (Original (Some (example_sa4 0x0100007F 9000)) 16, h')"
    using sample_send by blast
  have "bHookUDP (hk_psi sample_hook)"
    by (simp add: example_settings_def)
  from datagram_never_leaks [OF sample_dst_read(1) sample_settings(2) this h'] show ?thesis
    by auto
qed

theorem blocked_traffic_refused_witness:
  "fst (send_hook (Sendto 3) (sample_hook_env 2) 9 (Some sample_dst) 16 (sample_hook\<lparr>hk_psi := example_settings\<lparr>bBlockUDP := True\<rparr>\<rparr>)) = SocketError"
proof -
  have "blocked (hk_psi (sample_hook\<lparr>hk_psi := example_settings\<lparr>bBlockUDP := True\<rparr>\<rparr>)) sample_dst = Some WSAEACCES"
    by code_simp
  from blocked_traffic_refused [OF sample_dst_read(1) this sample_settings(2), of "Sendto 3"] show ?thesis
    by simp
qed

theorem public_172_bypasses_witness:
  "CanHackIt (\<lambda>_. 0x0100000A) example_settings (PRCClient_zero\<lparr>dstAddr := example_sa4 0x010120AC 80\<rparr>) (Some example_proxy) = HOOK_BYPASS"
  using public_172_bypasses [of "PRCClient_zero\<lparr>dstAddr := example_sa4 0x010120AC 80\<rparr>" 32 1 1 example_settings "\<lambda>_. 0x0100000A" example_proxy]
  by (simp add: example_sa4_def sa_SetPort_def sa_IsIPv4_def dword_bytes_def example_settings_def PRCClient_zero_def)

abbreviation (input) "sample_loopback \<equiv> sa_SetPort 5000 (sa_Clear\<lparr>sa_family := AF_INET6, sin6_addr := replicate 15 0 @ [1]\<rparr>)"

lemma sample_loopback_checks:
  "NormalizeSocketAddress (Some sample_loopback) 28 = Some sample_loopback" "sa_IsIPv6 sample_loopback" "sa_IsLoopback sample_loopback"
  "\<not> (bDisableMDNS (hk_psi sample_hook) \<and> mdns sample_loopback)" "\<not> IsUDPRouteAddress 9 sample_loopback (hk_HackedSocket sample_hook)"
  by code_simp+

lemma sample_loopback_send:
  "\<exists>h'. send_hook (SendTo None) (sample_hook_env 2) 9 (Some sample_loopback) 28 sample_hook =
   (Original (Some (sa_SetPort 9000 (sa_Clear\<lparr>sa_family := AF_INET6, sin6_addr := replicate 10 0 @ [255, 255, 127, 0, 0, 1]\<rparr>))) 28, h')"
  by (rule sample_route [of sample_loopback]) code_simp+

theorem loopback_datagrams_diverted_witness:
  "HackConnect (sample_hook_env 2) 9 sample_loopback sample_hook = ((HOOK_BYPASS, sample_loopback), sample_hook)"
proof -
  obtain r n h' where "send_hook (SendTo None) (sample_hook_env 2) 9 (Some sample_loopback) 28 sample_hook = (Original r n, h')"
    using sample_loopback_send by blast
  from loopback_datagrams_diverted [OF sample_loopback_checks(1-3) sample_settings(2) _ sample_loopback_checks(4,5) this] show ?thesis
    by (simp add: example_settings_def)
qed

end
