(* ===== verification/PipeRecords.thy ===== *)
theory PipeRecords
  imports Reception
begin

text \<open>
  The records that cross the pipe between a hooked process and the service (\<open>structinfo.h\<close>,
  \<open>AppLauncherProtocol.h\<close>, \<open>ProcessIdentity.h\<close>) as bytes. All of them are packed; numbers are stored
  low byte first. Reading turns a character array into the string before its first NUL.

  The locale \<open>wire_record\<close> is what the two sides of the pipe rely on: a record has its size, and
  reading it gives back what was written. It is interpreted for the records of the protocol.
\<close>

section \<open>Fields\<close>

definition qword_bytes :: "qword \<Rightarrow> bytes" where
  "qword_bytes w = dword_bytes (ucast w) @ dword_bytes (ucast (drop_bit 32 w))"

definition int_bytes :: "int \<Rightarrow> bytes" where
  "int_bytes i = dword_bytes (word_of_int i)"

definition bytes_int :: "bytes \<Rightarrow> int" where
  "bytes_int b = sint (bytes_dword b)"

definition bool_bytes :: "bool \<Rightarrow> bytes" where
  "bool_bytes b = int_bytes (if b then 1 else 0)"

definition bytes_bool :: "bytes \<Rightarrow> bool" where
  "bytes_bool b \<longleftrightarrow> bytes_int b \<noteq> 0"

text \<open>A character array of the given capacity, filled up with NUL characters.\<close>

definition array_bytes :: "nat \<Rightarrow> cstr \<Rightarrow> bytes" where
  "array_bytes n s = cstr_bytes s @ replicate (n - length s) 0"

definition bytes_array :: "nat \<Rightarrow> bytes \<Rightarrow> cstr" where
  "bytes_array n b = bytes_cstr (take n b)"

definition warray_bytes :: "nat \<Rightarrow> 16 word list \<Rightarrow> bytes" where
  "warray_bytes n s = concat (map word16_bytes (s @ replicate (n - length s) 0))"

definition bytes_warray :: "nat \<Rightarrow> bytes \<Rightarrow> 16 word list" where
  "bytes_warray n b = takeWhile (\<lambda>w. w \<noteq> 0) (wchars (take (2 * n) b))"

definition array_ok :: "nat \<Rightarrow> cstr \<Rightarrow> bool" where
  "array_ok n s \<longleftrightarrow> length s < n \<and> cstr_ok s"

definition warray_ok :: "nat \<Rightarrow> 16 word list \<Rightarrow> bool" where
  "warray_ok n s \<longleftrightarrow> length s < n \<and> 0 \<notin> set s"

definition int_ok :: "int \<Rightarrow> bool" where
  "int_ok i \<longleftrightarrow> - (2 ^ 31) \<le> i \<and> i < 2 ^ 31"

section \<open>Records\<close>

definition sockaddr_bytes :: "sockaddr \<Rightarrow> bytes" where
  "sockaddr_bytes a = word16_bytes (sa_family a) @ word16_bytes (sin_port a) @ dword_bytes (sin_addr a) @
     sin6_addr a @ dword_bytes (sin6_scope a)"

definition bytes_sockaddr :: "bytes \<Rightarrow> sockaddr" where
  "bytes_sockaddr b = \<lparr>sa_family = bytes_word16 b, sin_port = bytes_word16 (drop 2 b), sin_addr = bytes_dword (drop 4 b),
     sin6_addr = take 16 (drop 8 b), sin6_scope = bytes_dword (drop 24 b)\<rparr>"

definition client_bytes :: "PRCClient \<Rightarrow> bytes" where
  "client_bytes c = dword_bytes (dwPid c) @ dword_bytes (dwTid c) @ qword_bytes (PRCClient.processCreateTime c) @
     qword_bytes (socketGeneration c) @ int_bytes (sType c) @ qword_bytes (c_s c) @ qword_bytes (sAccept c) @
     array_bytes 256 (szDomainName c) @ sockaddr_bytes (srcAddr c) @ sockaddr_bytes (dstAddr c) @
     sockaddr_bytes (proxyDstAddr c) @ dword_bytes (routingFlags c) @ dword_bytes (uaFlag c) @
     sockaddr_bytes (udpAddr c) @ dword_bytes (c_reserved c)"

definition bytes_client :: "bytes \<Rightarrow> PRCClient" where
  "bytes_client b = \<lparr>dwPid = bytes_dword b, dwTid = bytes_dword (drop 4 b), processCreateTime = bytes_qword (drop 8 b),
     socketGeneration = bytes_qword (drop 16 b), sType = bytes_int (drop 24 b), c_s = bytes_qword (drop 28 b),
     sAccept = bytes_qword (drop 36 b), szDomainName = bytes_array 256 (drop 44 b), srcAddr = bytes_sockaddr (drop 300 b),
     dstAddr = bytes_sockaddr (drop 328 b), proxyDstAddr = bytes_sockaddr (drop 356 b), routingFlags = bytes_dword (drop 384 b),
     uaFlag = bytes_dword (drop 388 b), udpAddr = bytes_sockaddr (drop 392 b), c_reserved = bytes_dword (drop 420 b)\<rparr>"

definition client_ok :: "PRCClient \<Rightarrow> bool" where
  "client_ok c \<longleftrightarrow> int_ok (sType c) \<and> array_ok 256 (szDomainName c) \<and> sa_wf (srcAddr c) \<and> sa_wf (dstAddr c) \<and>
     sa_wf (proxyDstAddr c) \<and> sa_wf (udpAddr c)"

definition proxy_bytes :: "ProxyInfo \<Rightarrow> bytes" where
  "proxy_bytes p = array_bytes 128 (szItemName p) @ array_bytes 32 (strProxyType p) @ array_bytes 128 (strProxyHost p) @
     int_bytes (nProxyPort p) @ array_bytes 128 (strProxyUser p) @ array_bytes 128 (strProxyPass p) @
     dword_bytes (pi_reserved p) @ array_bytes 256 (strTransportPsk p)"

definition bytes_proxy :: "bytes \<Rightarrow> ProxyInfo" where
  "bytes_proxy b = \<lparr>szItemName = bytes_array 128 b, strProxyType = bytes_array 32 (drop 128 b),
     strProxyHost = bytes_array 128 (drop 160 b), nProxyPort = bytes_int (drop 288 b), strProxyUser = bytes_array 128 (drop 292 b),
     strProxyPass = bytes_array 128 (drop 420 b), pi_reserved = bytes_dword (drop 548 b), strTransportPsk = bytes_array 256 (drop 552 b)\<rparr>"

definition proxy_ok :: "ProxyInfo \<Rightarrow> bool" where
  "proxy_ok p \<longleftrightarrow> array_ok 128 (szItemName p) \<and> array_ok 32 (strProxyType p) \<and> array_ok 128 (strProxyHost p) \<and>
     int_ok (nProxyPort p) \<and> array_ok 128 (strProxyUser p) \<and> array_ok 128 (strProxyPass p) \<and> array_ok 256 (strTransportPsk p)"

definition settings_bytes :: "ProxySettingsInfo \<Rightarrow> bytes" where
  "settings_bytes s = bool_bytes (bHookTCP s) @ bool_bytes (bHookUDP s) @ int_bytes (nDNSOption s) @ bool_bytes (bHookCreateProcess s) @
     bool_bytes (bHookLanIP s) @ bool_bytes (bDisableLLMNR s) @ bool_bytes (bDisableMDNS s) @ bool_bytes (bBlockUDP s) @
     bool_bytes (bBlockIPv6 s) @ bool_bytes (bRedirectPrivateDNS s) @ sockaddr_bytes (redirectDNSAddr s)"

definition bytes_settings :: "bytes \<Rightarrow> ProxySettingsInfo" where
  "bytes_settings b = \<lparr>bHookTCP = bytes_bool b, bHookUDP = bytes_bool (drop 4 b), nDNSOption = bytes_int (drop 8 b),
     bHookCreateProcess = bytes_bool (drop 12 b), bHookLanIP = bytes_bool (drop 16 b), bDisableLLMNR = bytes_bool (drop 20 b),
     bDisableMDNS = bytes_bool (drop 24 b), bBlockUDP = bytes_bool (drop 28 b), bBlockIPv6 = bytes_bool (drop 32 b),
     bRedirectPrivateDNS = bytes_bool (drop 36 b), redirectDNSAddr = bytes_sockaddr (drop 40 b)\<rparr>"

definition settings_ok :: "ProxySettingsInfo \<Rightarrow> bool" where
  "settings_ok s \<longleftrightarrow> int_ok (nDNSOption s) \<and> sa_wf (redirectDNSAddr s)"

text \<open>The start-up information.\<close>

record PRCINFO =
  tcpaddr :: sockaddr
  tcpaddr6 :: sockaddr
  udpaddr :: sockaddr
  childGuardName :: "16 word list"
  childGuardGenerationTime :: qword

definition info_bytes :: "PRCINFO \<Rightarrow> bytes" where
  "info_bytes i = sockaddr_bytes (tcpaddr i) @ sockaddr_bytes (tcpaddr6 i) @ sockaddr_bytes (udpaddr i) @
     warray_bytes 64 (childGuardName i) @ qword_bytes (childGuardGenerationTime i)"

definition bytes_info :: "bytes \<Rightarrow> PRCINFO" where
  "bytes_info b = \<lparr>tcpaddr = bytes_sockaddr b, tcpaddr6 = bytes_sockaddr (drop 28 b), udpaddr = bytes_sockaddr (drop 56 b),
     childGuardName = bytes_warray 64 (drop 84 b), childGuardGenerationTime = bytes_qword (drop 212 b)\<rparr>"

definition info_ok :: "PRCINFO \<Rightarrow> bool" where
  "info_ok i \<longleftrightarrow> sa_wf (tcpaddr i) \<and> sa_wf (tcpaddr6 i) \<and> sa_wf (udpaddr i) \<and> warray_ok 64 (childGuardName i)"

text \<open>The header before every request and reply.\<close>

record PRCPipeDataHead =
  hd_action :: byte
  hd_flag :: byte
  hd_dataSize :: dword

definition head_bytes :: "PRCPipeDataHead \<Rightarrow> bytes" where
  "head_bytes h = [hd_action h, hd_flag h] @ dword_bytes (hd_dataSize h)"

definition bytes_head :: "bytes \<Rightarrow> PRCPipeDataHead" where
  "bytes_head b = \<lparr>hd_action = b ! 0, hd_flag = b ! 1, hd_dataSize = bytes_dword (drop 2 b)\<rparr>"

text \<open>Processes: a new child, the notice of its creation, the identity and the result of hooking.\<close>

record HookNewProcessInfo =
  np_szAppPath :: "16 word list"
  np_szCommandLine :: "16 word list"
  np_dwProcessId :: dword
  np_dwThreadId :: dword
  np_processCreateTime :: qword

definition bytes_newprocess :: "bytes \<Rightarrow> HookNewProcessInfo" where
  "bytes_newprocess b = \<lparr>np_szAppPath = bytes_warray 260 b, np_szCommandLine = bytes_warray 260 (drop 520 b),
     np_dwProcessId = bytes_dword (drop 1040 b), np_dwThreadId = bytes_dword (drop 1044 b), np_processCreateTime = bytes_qword (drop 1048 b)\<rparr>"

definition newprocess_bytes :: "HookNewProcessInfo \<Rightarrow> bytes" where
  "newprocess_bytes p = warray_bytes 260 (np_szAppPath p) @ warray_bytes 260 (np_szCommandLine p) @
     dword_bytes (np_dwProcessId p) @ dword_bytes (np_dwThreadId p) @ qword_bytes (np_processCreateTime p)"

definition newprocess_ok :: "HookNewProcessInfo \<Rightarrow> bool" where
  "newprocess_ok p \<longleftrightarrow> warray_ok 260 (np_szAppPath p) \<and> warray_ok 260 (np_szCommandLine p)"

definition identity_bytes :: "HookProcessIdentityInfo \<Rightarrow> bytes" where
  "identity_bytes i = dword_bytes (dwProcessId i) @ qword_bytes (HookProcessIdentityInfo.processCreateTime i) @
     warray_bytes 260 (szAppPath i) @ dword_bytes (hookState i) @ dword_bytes (hookError i)"

definition bytes_identity :: "bytes \<Rightarrow> HookProcessIdentityInfo" where
  "bytes_identity b = \<lparr>dwProcessId = bytes_dword b, processCreateTime = bytes_qword (drop 4 b),
     szAppPath = bytes_warray 260 (drop 12 b), hookState = bytes_dword (drop 532 b), hookError = bytes_dword (drop 536 b)\<rparr>"

definition identity_ok :: "HookProcessIdentityInfo \<Rightarrow> bool" where
  "identity_ok i \<longleftrightarrow> warray_ok 260 (szAppPath i)"

record HookWSockResult =
  wr_dwProcessId :: dword
  wr_processCreateTime :: qword
  wr_err :: dword

definition result_bytes :: "HookWSockResult \<Rightarrow> bytes" where
  "result_bytes r = dword_bytes (wr_dwProcessId r) @ qword_bytes (wr_processCreateTime r) @ dword_bytes (wr_err r)"

definition bytes_result :: "bytes \<Rightarrow> HookWSockResult" where
  "bytes_result b = \<lparr>wr_dwProcessId = bytes_dword b, wr_processCreateTime = bytes_qword (drop 4 b), wr_err = bytes_dword (drop 12 b)\<rparr>"

text \<open>A blocked destination: domain and process name are kept as they are on the wire.\<close>

record HookBlockedInfo =
  bi_processId :: dword
  bi_socketType :: int
  bi_destination :: sockaddr
  bi_domain :: bytes
  bi_processName :: "16 word list"

definition bytes_blocked :: "bytes \<Rightarrow> HookBlockedInfo" where
  "bytes_blocked b = \<lparr>bi_processId = bytes_dword b, bi_socketType = bytes_int (drop 4 b), bi_destination = bytes_sockaddr (drop 8 b),
     bi_domain = take 256 (drop 36 b), bi_processName = wchars (take 520 (drop 292 b))\<rparr>"

definition bytes_portinfo :: "bytes \<Rightarrow> UDPLocalProxyAddrInfo" where
  "bytes_portinfo b = \<lparr>clientip = bytes_dword b, clientport = bytes_word16 (drop 4 b), proxyport = bytes_word16 (drop 6 b)\<rparr>"

definition portinfo_bytes :: "UDPLocalProxyAddrInfo \<Rightarrow> bytes" where
  "portinfo_bytes i = dword_bytes (clientip i) @ word16_bytes (clientport i) @ word16_bytes (proxyport i)"

section \<open>Reading back\<close>

locale wire_record =
  fixes enc :: "'a \<Rightarrow> bytes" and dec :: "bytes \<Rightarrow> 'a" and size :: nat and ok :: "'a \<Rightarrow> bool"
  assumes enc_length: "ok x \<Longrightarrow> length (enc x) = size"
    and dec_enc: "ok x \<Longrightarrow> dec (enc x @ rest) = x"
begin

lemma dec_enc_alone: "ok x \<Longrightarrow> dec (enc x) = x"
  using dec_enc [of x "[]"] by simp

lemma enc_inject: "ok x \<Longrightarrow> ok y \<Longrightarrow> enc x = enc y \<longleftrightarrow> x = y"
  using dec_enc_alone by metis

text \<open>A field of a longer record, behind \<open>pre\<close>.\<close>

lemma dec_at: "ok x \<Longrightarrow> length pre = n \<Longrightarrow> dec (drop n (pre @ enc x @ rest)) = x"
  by (simp add: dec_enc)

end

lemma length_qword_bytes [simp]: "length (qword_bytes w) = 8"
  by (simp add: qword_bytes_def)

lemma bytes_qword_qword_bytes [simp]: "bytes_qword (qword_bytes w @ xs) = w"
proof -
  have "bytes_qword (qword_bytes w @ xs) = ucast (ucast w :: dword) OR push_bit 32 (ucast (ucast (drop_bit 32 w) :: dword))"
    by (simp add: bytes_qword_def qword_bytes_def)
  also have "\<dots> = w"
    by (rule bit_word_eqI) (auto simp: bit_simps)
  finally show ?thesis .
qed

lemma length_int_bytes [simp]: "length (int_bytes i) = 4"
  by (simp add: int_bytes_def)

lemma bytes_int_int_bytes [simp]: "int_ok i \<Longrightarrow> bytes_int (int_bytes i @ xs) = i"
  by (simp add: bytes_int_def int_bytes_def int_ok_def signed_of_int signed_take_bit_int_eq_self)

lemma length_bool_bytes [simp]: "length (bool_bytes b) = 4"
  by (simp add: bool_bytes_def)

lemma bytes_bool_bool_bytes [simp]: "bytes_bool (bool_bytes b @ xs) = b"
  by (simp add: bytes_bool_def bool_bytes_def int_ok_def)

lemma length_array_bytes [simp]: "length s \<le> n \<Longrightarrow> length (array_bytes n s) = n"
  by (simp add: array_bytes_def)

lemma bytes_cstr_append_0: "cstr_ok s \<Longrightarrow> bytes_cstr (cstr_bytes s @ 0 # xs) = s"
proof -
  assume s: "cstr_ok s"
  then have "takeWhile (\<lambda>b. b \<noteq> 0) (cstr_bytes s @ 0 # xs) = cstr_bytes s"
    by (subst takeWhile_append2) (auto simp: cstr_ok_def cstr_bytes_def list_all_iff)
  then show ?thesis
    using bytes_cstr_cstr_bytes [OF s] unfolding bytes_cstr_def by (simp add: cstr_bytes_def comp_def)
qed

lemma bytes_array_array_bytes [simp]: "array_ok n s \<Longrightarrow> bytes_array n (array_bytes n s @ xs) = s"
proof -
  assume s: "array_ok n s"
  then obtain k where "n - length s = Suc k"
    by (metis Suc_diff_Suc array_ok_def)
  then show ?thesis
    using s by (simp add: bytes_array_def array_bytes_def array_ok_def bytes_cstr_append_0)
qed

lemma wchars_concat: "wchars (concat (map word16_bytes ws)) = ws"
proof (induction ws)
  case (Cons w ws)
  have "bytes_word16 [ucast w, ucast (drop_bit 8 w)] = w"
    using bytes_word16_word16_bytes_Nil [of w] by (simp add: word16_bytes_def)
  then show ?case
    using Cons by (simp add: word16_bytes_def del: bytes_word16.simps)
qed simp

lemma length_concat_words: "length (concat (map word16_bytes ws)) = 2 * length ws"
  by (induction ws) auto

lemma length_warray_bytes [simp]: "length s \<le> n \<Longrightarrow> length (warray_bytes n s) = 2 * n"
  unfolding warray_bytes_def length_concat_words by simp

lemma bytes_warray_warray_bytes [simp]: "warray_ok n s \<Longrightarrow> bytes_warray n (warray_bytes n s @ xs) = s"
proof -
  assume s: "warray_ok n s"
  then obtain k where k: "n - length s = Suc k"
    by (metis Suc_diff_Suc warray_ok_def)
  have "take (2 * n) (warray_bytes n s @ xs) = warray_bytes n s"
    using s by (simp add: warray_ok_def)
  moreover have "takeWhile (\<lambda>w. w \<noteq> 0) (s @ replicate (n - length s) 0) = s"
    using s unfolding k by (subst takeWhile_append2) (auto simp: warray_ok_def)
  ultimately show ?thesis
    by (simp only: bytes_warray_def warray_bytes_def wchars_concat)
qed

lemma length_sockaddr_bytes [simp]: "sa_wf a \<Longrightarrow> length (sockaddr_bytes a) = 28"
  by (simp add: sockaddr_bytes_def sa_wf_def)

lemma bytes_sockaddr_sockaddr_bytes [simp]: "sa_wf a \<Longrightarrow> bytes_sockaddr (sockaddr_bytes a @ xs) = a"
  by (simp add: sockaddr_bytes_def bytes_sockaddr_def sa_wf_def)

lemmas wire_oks = array_ok_def warray_ok_def

interpretation client: wire_record client_bytes bytes_client 424 client_ok
proof
  fix c assume "client_ok c"
  then show "length (client_bytes c) = 424"
    by (simp add: client_bytes_def client_ok_def array_ok_def)
next
  fix c rest assume "client_ok c"
  then show "bytes_client (client_bytes c @ rest) = c"
    by (simp add: client_bytes_def bytes_client_def client_ok_def array_ok_def drop_append)
qed

interpretation proxy: wire_record proxy_bytes bytes_proxy 808 proxy_ok
  by unfold_locales (simp_all add: proxy_bytes_def bytes_proxy_def proxy_ok_def array_ok_def)

interpretation settings: wire_record settings_bytes bytes_settings 68 settings_ok
  by unfold_locales (simp_all add: settings_bytes_def bytes_settings_def settings_ok_def)

interpretation info: wire_record info_bytes bytes_info 220 info_ok
  by unfold_locales (simp_all add: info_bytes_def bytes_info_def info_ok_def warray_ok_def)

interpretation head: wire_record head_bytes bytes_head 6 "\<lambda>_. True"
  by unfold_locales (simp_all add: head_bytes_def bytes_head_def)

interpretation newprocess: wire_record newprocess_bytes bytes_newprocess 1056 newprocess_ok
  by unfold_locales (simp_all add: newprocess_bytes_def bytes_newprocess_def newprocess_ok_def warray_ok_def)

interpretation identity: wire_record identity_bytes bytes_identity 540 identity_ok
  by unfold_locales (simp_all add: identity_bytes_def bytes_identity_def identity_ok_def warray_ok_def)

interpretation hookresult: wire_record result_bytes bytes_result 16 "\<lambda>_. True"
  by unfold_locales (simp_all add: result_bytes_def bytes_result_def)

interpretation portinfo: wire_record portinfo_bytes bytes_portinfo 8 "\<lambda>_. True"
  by unfold_locales (simp_all add: portinfo_bytes_def bytes_portinfo_def)

end
