(* ===== verification/AppLaunch.thy ===== *)
theory AppLaunch
  imports Prelude
begin

text \<open>
  Launching a packaged application on behalf of a hooked process: the checks of
  \<open>AppLauncherProtocol.h\<close> and \<open>HandleAppLaunch\<close> of \<open>PRCPipeServer.cpp\<close> with its history of requests.

  A thread reads the clock and checks its request before it takes the lock of the history. The
  history is locked while a request is looked up and again while its result is stored; in
  between the application is started, while other threads ask for the same or for other
  requests. So a request is three steps, and the steps of several threads interleave.
\<close>

section \<open>The protocol\<close>

type_synonym wstr = "16 word list"

text \<open>\<open>wcsnlen\<close>, and the text of an array before its first NUL.\<close>

definition wtext :: "wstr \<Rightarrow> wstr" where
  "wtext a = takeWhile (\<lambda>w. w \<noteq> 0) a"

definition wbetween :: "16 word \<Rightarrow> 16 word \<Rightarrow> 16 word \<Rightarrow> bool" where
  "wbetween lo hi w \<longleftrightarrow> lo \<le> w \<and> w \<le> hi"

definition aumid_char :: "16 word \<Rightarrow> bool" where
  "aumid_char w \<longleftrightarrow> wbetween 97 122 w \<or> wbetween 65 90 w \<or> wbetween 48 57 w \<or> w = 46 \<or> w = 95 \<or> w = 45 \<or> w = 33"

definition ValidAumid :: "wstr \<Rightarrow> bool" where
  "ValidAumid a =
     (let t = wtext a; before = takeWhile (\<lambda>w. w \<noteq> 33) t; after = drop (Suc (length before)) t in
      t \<noteq> [] \<and> length t < 256 \<and> 33 \<in> set t \<and> before \<noteq> [] \<and> after \<noteq> [] \<and> 33 \<notin> set after \<and> list_all aumid_char t)"

definition hex_char :: "16 word \<Rightarrow> bool" where
  "hex_char w \<longleftrightarrow> wbetween 48 57 w \<or> wbetween 97 102 w \<or> wbetween 65 70 w"

definition ValidId :: "wstr \<Rightarrow> bool" where
  "ValidId a \<longleftrightarrow> length (wtext a) = 38 \<and> a ! 0 = 123 \<and> a ! 37 = 125 \<and>
     list_all (\<lambda>i. if i = 9 \<or> i = 14 \<or> i = 19 \<or> i = 24 then a ! i = 45 else hex_char (a ! i)) [1..<37]"

record AppLauncherRequest =
  rq_id :: wstr \<comment> \<open>40 characters\<close>
  rq_aumid :: wstr \<comment> \<open>256 characters\<close>
  rq_hostPid :: dword
  rq_hostCreationTime :: qword
  rq_parentPid :: dword
  rq_parentCreationTime :: qword
  rq_submittedTime :: qword

record AppLauncherResult =
  rs_error :: dword
  rs_processId :: dword
  rs_hookError :: dword

abbreviation (input) "ERROR_INVALID_PARAMETER \<equiv> (87 :: dword)"
abbreviation (input) "ERROR_BUSY \<equiv> (170 :: dword)"
abbreviation (input) "ERROR_IO_PENDING \<equiv> (997 :: dword)"
abbreviation (input) "ERROR_OPERATION_ABORTED \<equiv> (995 :: dword)"
abbreviation (input) "ERROR_UNHANDLED_EXCEPTION \<equiv> (574 :: dword)"

definition launch_error :: "dword \<Rightarrow> AppLauncherResult" where
  "launch_error e = \<lparr>rs_error = e, rs_processId = 0, rs_hookError = 0\<rparr>"

section \<open>The history of requests\<close>

text \<open>The map of requests by their id, and the calls of \<open>LaunchAppFromShell\<close>.\<close>

record LaunchHistory =
  lh_requests :: "(wstr \<times> AppLauncherRequest \<times> AppLauncherResult) list"
  lh_launched :: "AppLauncherRequest list"

definition LaunchHistory_new :: LaunchHistory where
  "LaunchHistory_new = \<lparr>lh_requests = [], lh_launched = []\<rparr>"

text \<open>This process, its time, the clock, and whether the client runs in the same session and user.\<close>

record LaunchEnv =
  le_pid :: dword
  le_processTime :: qword
  le_now :: qword
  le_sameUser :: bool

definition launch_valid :: "LaunchEnv \<Rightarrow> AppLauncherRequest \<Rightarrow> bool" where
  "launch_valid e r \<longleftrightarrow> ValidId (rq_id r) \<and> ValidAumid (rq_aumid r) \<and> rq_hostPid r = le_pid e \<and>
     rq_hostCreationTime r = le_processTime e \<and> \<not> le_now e < rq_submittedTime r \<and>
     \<not> 1200000000 < le_now e - rq_submittedTime r \<and> le_sameUser e"

definition expired :: "qword \<Rightarrow> AppLauncherRequest \<times> AppLauncherResult \<Rightarrow> bool" where
  "expired now x \<longleftrightarrow> rs_error (snd x) \<noteq> ERROR_IO_PENDING \<and> 3000000000 < now - rq_submittedTime (fst x)"

text \<open>
  Under the lock, with the time that was read before: finished requests that are too old by
  this time are forgotten. \<open>None\<close>: the request is new and this thread starts the application.
\<close>

definition launch_lookup :: "qword \<Rightarrow> AppLauncherRequest \<Rightarrow> LaunchHistory \<Rightarrow> AppLauncherResult option \<times> LaunchHistory" where
  "launch_lookup now r h =
     (let m = filter (\<lambda>(_, x). \<not> expired now x) (lh_requests h); h = h\<lparr>lh_requests := m\<rparr> in
      case map_of m (wtext (rq_id r)) of
        Some (q, result) \<Rightarrow> (Some (if q = r then result else launch_error ERROR_INVALID_PARAMETER), h)
      | None \<Rightarrow>
        if 128 \<le> length m then (Some (launch_error ERROR_BUSY), h)
        else (None, h\<lparr>lh_requests := (wtext (rq_id r), r, launch_error ERROR_IO_PENDING) # m\<rparr>))"

text \<open>
  The second half: unless the server ends, the application is started; \<open>outcome\<close> is what the
  user interface answers, \<open>None\<close> an exception. Then the result is stored.
\<close>

definition launch_end :: "bool \<Rightarrow> AppLauncherResult option \<Rightarrow> AppLauncherRequest \<Rightarrow> LaunchHistory \<Rightarrow> AppLauncherResult \<times> LaunchHistory" where
  "launch_end exit outcome r h =
     (let result = (if exit then launch_error ERROR_OPERATION_ABORTED
                    else case outcome of Some x \<Rightarrow> x | None \<Rightarrow> launch_error ERROR_UNHANDLED_EXCEPTION);
          h = (if exit then h else h\<lparr>lh_launched := lh_launched h @ [r]\<rparr>);
          key = wtext (rq_id r);
          q = (case map_of (lh_requests h) key of Some (q, _) \<Rightarrow> q | None \<Rightarrow> r)
      in (result, h\<lparr>lh_requests := (key, q, result) # filter (\<lambda>(k, _). k \<noteq> key) (lh_requests h)\<rparr>))"

text \<open>A thread alone.\<close>

definition HandleAppLaunch :: "LaunchEnv \<Rightarrow> bool \<Rightarrow> AppLauncherResult option \<Rightarrow> AppLauncherRequest \<Rightarrow> LaunchHistory \<Rightarrow> AppLauncherResult \<times> LaunchHistory" where
  "HandleAppLaunch e exit outcome r h =
     (if \<not> launch_valid e r then (launch_error ERROR_INVALID_PARAMETER, h)
      else case launch_lookup (le_now e) r h of (Some x, h) \<Rightarrow> (x, h) | (None, h) \<Rightarrow> launch_end exit outcome r h)"

section \<open>Several threads\<close>

text \<open>
  The history, the clock, the accepted requests whose threads wait for the lock, with the time
  they read, and the requests whose application is being started.
\<close>

record LaunchWorld =
  lw_history :: LaunchHistory
  lw_now :: qword
  lw_waiting :: "(qword \<times> AppLauncherRequest) list"
  lw_starting :: "AppLauncherRequest list"

text \<open>
  A thread is prompt when it gets the lock at most 180 seconds after it read the clock, and
  the history has no finished request that was submitted after that.
\<close>

definition prompt :: "qword \<Rightarrow> LaunchWorld \<Rightarrow> bool" where
  "prompt t w \<longleftrightarrow> lw_now w - t \<le> 1800000000 \<and>
     list_all (\<lambda>(_, q, x). rs_error x \<noteq> ERROR_IO_PENDING \<longrightarrow> rq_submittedTime q \<le> t) (lh_requests (lw_history w))"

text \<open>The steps of all threads; with \<open>p\<close>, threads are prompt. A refused request changes nothing.\<close>

inductive launch_step :: "bool \<Rightarrow> LaunchWorld \<Rightarrow> LaunchWorld \<Rightarrow> bool" for p where
  Tick: "lw_now w \<le> now \<Longrightarrow> launch_step p w (w\<lparr>lw_now := now\<rparr>)"
| Arrive: "le_now e = lw_now w \<Longrightarrow> launch_valid e r \<Longrightarrow> launch_step p w (w\<lparr>lw_waiting := (lw_now w, r) # lw_waiting w\<rparr>)"
| Lookup: "(t, r) \<in> set (lw_waiting w) \<Longrightarrow> p \<longrightarrow> prompt t w \<Longrightarrow> launch_lookup t r (lw_history w) = (answer, h) \<Longrightarrow>
    launch_step p w (w\<lparr>lw_history := h, lw_waiting := remove1 (t, r) (lw_waiting w),
      lw_starting := (if answer = None then r # lw_starting w else lw_starting w)\<rparr>)"
| End: "r \<in> set (lw_starting w) \<Longrightarrow> launch_end exit outcome r (lw_history w) = (result, h) \<Longrightarrow>
    launch_step p w (w\<lparr>lw_history := h, lw_starting := remove1 r (lw_starting w)\<rparr>)"

inductive launch_reachable :: "bool \<Rightarrow> LaunchWorld \<Rightarrow> bool" for p where
  Start: "launch_reachable p \<lparr>lw_history = LaunchHistory_new, lw_now = now, lw_waiting = [], lw_starting = []\<rparr>"
| Step: "launch_reachable p w \<Longrightarrow> launch_step p w w' \<Longrightarrow> launch_reachable p w'"

inductive_cases launch_stepE: "launch_step p w w'"

section \<open>A request starts its application at most once\<close>

text \<open>
  Every request that was started is still in the history or more than 300 seconds old; a request
  that is being started is in the history as pending; a waiting request was at most 120 seconds
  old when its thread read the clock.
\<close>

definition launch_inv :: "LaunchWorld \<Rightarrow> bool" where
  "launch_inv w \<longleftrightarrow>
     (\<forall>r\<in>set (lw_starting w). map_of (lh_requests (lw_history w)) (wtext (rq_id r)) = Some (r, launch_error ERROR_IO_PENDING)) \<and>
     distinct (map (\<lambda>r. wtext (rq_id r)) (lw_starting w)) \<and>
     distinct (map fst (lh_requests (lw_history w))) \<and>
     distinct (lh_launched (lw_history w)) \<and> set (lh_launched (lw_history w)) \<inter> set (lw_starting w) = {} \<and>
     (\<forall>r\<in>set (lh_launched (lw_history w)). rq_submittedTime r \<le> lw_now w \<and>
       ((\<exists>x. map_of (lh_requests (lw_history w)) (wtext (rq_id r)) = Some (r, x)) \<or> 3000000000 < lw_now w - rq_submittedTime r)) \<and>
     (\<forall>r\<in>set (lw_starting w). rq_submittedTime r \<le> lw_now w) \<and>
     (\<forall>(t, r)\<in>set (lw_waiting w). t \<le> lw_now w \<and> rq_submittedTime r \<le> t \<and> t - rq_submittedTime r \<le> 1200000000)"

lemma word_diff_mono: "(s :: qword) \<le> a \<Longrightarrow> a \<le> b \<Longrightarrow> a - s \<le> b - s"
  by (simp add: word_le_minus_mono_left)

lemma map_of_filter: "distinct (map fst m) \<Longrightarrow>
  map_of (filter (\<lambda>(_, x). P x) m) k = (case map_of m k of Some x \<Rightarrow> if P x then Some x else None | None \<Rightarrow> None)"
proof (induction m)
  case (Cons a m)
  then have "map_of m (fst a) = None"
    by (simp add: map_of_eq_None_iff)
  with Cons show ?case
    by (cases a) (auto split: option.splits if_splits)
qed simp

lemma map_of_remove_key: "map_of (filter (\<lambda>(k, _). k \<noteq> key) m) k = (if k = key then None else map_of m k)"
  by (induction m) auto

text \<open>The parts of the invariant for the first half: what dropping the expired requests keeps.\<close>

definition history_inv :: "(wstr \<times> AppLauncherRequest \<times> AppLauncherResult) list \<Rightarrow> AppLauncherRequest list \<Rightarrow> AppLauncherRequest list \<Rightarrow> qword \<Rightarrow> bool" where
  "history_inv m launched starting now \<longleftrightarrow>
     (\<forall>r\<in>set starting. map_of m (wtext (rq_id r)) = Some (r, launch_error ERROR_IO_PENDING) \<and> rq_submittedTime r \<le> now) \<and>
     distinct (map fst m) \<and>
     (\<forall>r\<in>set launched. rq_submittedTime r \<le> now \<and>
       ((\<exists>x. map_of m (wtext (rq_id r)) = Some (r, x)) \<or> 3000000000 < now - rq_submittedTime r))"

lemma launch_inv_alt:
  "launch_inv w \<longleftrightarrow> history_inv (lh_requests (lw_history w)) (lh_launched (lw_history w)) (lw_starting w) (lw_now w) \<and>
     distinct (map (\<lambda>r. wtext (rq_id r)) (lw_starting w)) \<and>
     distinct (lh_launched (lw_history w)) \<and> set (lh_launched (lw_history w)) \<inter> set (lw_starting w) = {} \<and>
     (\<forall>(t, r)\<in>set (lw_waiting w). t \<le> lw_now w \<and> rq_submittedTime r \<le> t \<and> t - rq_submittedTime r \<le> 1200000000)"
  unfolding launch_inv_def history_inv_def by blast

lemma history_inv_later:
  assumes "history_inv m launched starting now" "now \<le> now'"
  shows "history_inv m launched starting now'"
proof -
  have "3000000000 < now' - rq_submittedTime r" if "rq_submittedTime r \<le> now" "3000000000 < now - rq_submittedTime r" for r
    using that word_diff_mono [OF that(1) assms(2)] by (rule_tac less_le_trans)
  then show ?thesis
    using assms unfolding history_inv_def by (meson order_trans)
qed

lemma history_inv_drop:
  assumes "history_inv m launched starting now" and "t \<le> now"
    and prompt: "list_all (\<lambda>(_, q, x). rs_error x \<noteq> ERROR_IO_PENDING \<longrightarrow> rq_submittedTime q \<le> t) m"
  shows "history_inv (filter (\<lambda>(_, x). \<not> expired t x) m) launched starting now"
proof -
  have m: "distinct (map fst m)"
    using assms by (simp add: history_inv_def)
  have old: "3000000000 < now - rq_submittedTime q" if "map_of m k = Some (q, x)" "expired t (q, x)" for k q x
  proof -
    have "rq_submittedTime q \<le> t" "3000000000 < t - rq_submittedTime q"
      using prompt map_of_SomeD [OF that(1)] that(2) by (auto simp: list_all_iff expired_def)
    then show ?thesis using word_diff_mono [OF _ assms(2)] by (meson less_le_trans)
  qed
  show ?thesis
    unfolding history_inv_def
  proof (intro conjI ballI)
    fix r assume "r \<in> set starting"
    then show "map_of (filter (\<lambda>(_, x). \<not> expired t x) m) (wtext (rq_id r)) = Some (r, launch_error ERROR_IO_PENDING)"
      using assms by (simp add: history_inv_def map_of_filter [OF m] expired_def launch_error_def)
  next
    fix r assume "r \<in> set launched"
    then consider x where "map_of m (wtext (rq_id r)) = Some (r, x)" | "3000000000 < now - rq_submittedTime r"
      using assms(1) by (auto simp only: history_inv_def)
    then show "(\<exists>x. map_of (filter (\<lambda>(_, x). \<not> expired t x) m) (wtext (rq_id r)) = Some (r, x)) \<or>
        3000000000 < now - rq_submittedTime r"
    proof cases
      case (1 x)
      then show ?thesis using old [OF 1] by (cases "expired t (r, x)") (simp_all add: map_of_filter [OF m])
    qed simp
  qed (use assms in \<open>auto simp: history_inv_def distinct_map_filter\<close>)
qed

lemma launch_lookup_cases:
  assumes "launch_lookup t r h = (answer, h')"
  obtains "answer \<noteq> None" "h' = h\<lparr>lh_requests := filter (\<lambda>(_, x). \<not> expired t x) (lh_requests h)\<rparr>"
  | "answer = None" "map_of (filter (\<lambda>(_, x). \<not> expired t x) (lh_requests h)) (wtext (rq_id r)) = None"
    "h' = h\<lparr>lh_requests := (wtext (rq_id r), r, launch_error ERROR_IO_PENDING) #
       filter (\<lambda>(_, x). \<not> expired t x) (lh_requests h)\<rparr>"
  using assms unfolding launch_lookup_def Let_def by (auto split: if_splits option.splits)

lemma history_inv_add:
  assumes inv: "history_inv m launched starting now" and fresh: "map_of m key = None"
    and r: "key = wtext (rq_id r)" "rq_submittedTime r \<le> now"
  shows "history_inv ((key, r, launch_error ERROR_IO_PENDING) # m) launched (r # starting) now"
    "key \<notin> set (map (\<lambda>r. wtext (rq_id r)) starting)"
    "r \<in> set launched \<Longrightarrow> 3000000000 < now - rq_submittedTime r"
proof -
  show keys: "key \<notin> set (map (\<lambda>r. wtext (rq_id r)) starting)"
    using inv fresh by (force simp: history_inv_def)
  show "r \<in> set launched \<Longrightarrow> 3000000000 < now - rq_submittedTime r"
    using inv fresh r by (force simp: history_inv_def)
  have "\<forall>q\<in>set launched. wtext (rq_id q) = key \<longrightarrow> 3000000000 < now - rq_submittedTime q"
    using inv fresh by (force simp: history_inv_def)
  then show "history_inv ((key, r, launch_error ERROR_IO_PENDING) # m) launched (r # starting) now"
    using inv fresh r keys by (auto simp: history_inv_def map_of_eq_None_iff image_iff)
qed

lemma young_enough:
  assumes "(s :: qword) \<le> t" "t \<le> now" "t - s \<le> 1200000000" "now - t \<le> 1800000000"
  shows "\<not> 3000000000 < now - s"
  using assms by (auto simp: word_less_nat_alt word_le_nat_alt unat_sub_if_size split: if_splits)

lemma launch_inv_lookup:
  assumes inv: "launch_inv w" and wait: "(t, r) \<in> set (lw_waiting w)" and prompt: "prompt t w"
    and step: "launch_lookup t r (lw_history w) = (answer, h)"
  shows "launch_inv (w\<lparr>lw_history := h, lw_waiting := remove1 (t, r) (lw_waiting w),
    lw_starting := (if answer = None then r # lw_starting w else lw_starting w)\<rparr>)"
proof -
  let ?m = "filter (\<lambda>(_, x). \<not> expired t x) (lh_requests (lw_history w))"
  have t: "t \<le> lw_now w" "rq_submittedTime r \<le> t" "t - rq_submittedTime r \<le> 1200000000"
    using inv wait by (auto simp: launch_inv_def)
  have hist: "history_inv ?m (lh_launched (lw_history w)) (lw_starting w) (lw_now w)"
    using history_inv_drop [OF _ t(1)] inv prompt by (simp add: launch_inv_alt prompt_def)
  have rest: "\<forall>(t, r)\<in>set (remove1 (t, r) (lw_waiting w)). t \<le> lw_now w \<and> rq_submittedTime r \<le> t \<and> t - rq_submittedTime r \<le> 1200000000"
    using inv set_remove1_subset [of "(t, r)" "lw_waiting w"] by (auto simp: launch_inv_def)
  show ?thesis
  proof (rule launch_lookup_cases [OF step])
    assume "answer \<noteq> None" "h = (lw_history w)\<lparr>lh_requests := ?m\<rparr>"
    then show ?thesis using inv hist rest by (auto simp: launch_inv_alt)
  next
    assume new: "answer = None" "map_of ?m (wtext (rq_id r)) = None"
      "h = (lw_history w)\<lparr>lh_requests := (wtext (rq_id r), r, launch_error ERROR_IO_PENDING) # ?m\<rparr>"
    have "\<not> 3000000000 < lw_now w - rq_submittedTime r"
      using young_enough [OF t(2,1,3)] prompt by (simp add: prompt_def)
    then show ?thesis
      using history_inv_add [OF hist new(2) refl order_trans [OF t(2,1)]] inv new(1,3) rest by (auto simp: launch_inv_alt)
  qed
qed

lemma launch_inv_tick:
  assumes "launch_inv w" "lw_now w \<le> now"
  shows "launch_inv (w\<lparr>lw_now := now\<rparr>)"
  using assms history_inv_later [OF _ assms(2)] order_trans [OF _ assms(2)] by (fastforce simp: launch_inv_alt)

lemma launch_inv_arrive:
  assumes "launch_inv w" "launch_valid e r" "le_now e = lw_now w"
  shows "launch_inv (w\<lparr>lw_waiting := (lw_now w, r) # lw_waiting w\<rparr>)"
proof -
  have "rq_submittedTime r \<le> lw_now w" "lw_now w - rq_submittedTime r \<le> 1200000000"
    using assms(2,3) by (auto simp: launch_valid_def linorder_not_less)
  with assms(1) show ?thesis by (auto simp: launch_inv_def)
qed

lemma launch_inv_end:
  assumes inv: "launch_inv w" and r: "r \<in> set (lw_starting w)" and step: "launch_end exit outcome r (lw_history w) = (result, h)"
  shows "launch_inv (w\<lparr>lw_history := h, lw_starting := remove1 r (lw_starting w)\<rparr>)"
proof -
  let ?h = "lw_history w" and ?key = "wtext (rq_id r)"
  have entry: "map_of (lh_requests ?h) ?key = Some (r, launch_error ERROR_IO_PENDING)"
    and time: "rq_submittedTime r \<le> lw_now w" and keys: "distinct (map (\<lambda>r. wtext (rq_id r)) (lw_starting w))"
    and fresh: "r \<notin> set (lh_launched ?h)"
    using inv r by (auto simp: launch_inv_def)
  have h: "lh_requests h = (?key, r, result) # filter (\<lambda>(k, _). k \<noteq> ?key) (lh_requests ?h)"
    "lh_launched h = (if exit then lh_launched ?h else lh_launched ?h @ [r])"
    using step entry by (auto simp: launch_end_def Let_def split: if_splits)
  have distinct: "distinct (lw_starting w)"
    using keys by (rule distinct_map [THEN iffD1, THEN conjunct1])
  have others: "wtext (rq_id q) \<noteq> ?key" if "q \<in> set (remove1 r (lw_starting w))" for q
    using that keys distinct r by (auto simp: distinct_map inj_on_def)
  have same_key: "3000000000 < lw_now w - rq_submittedTime q"
    if "q \<in> set (lh_launched ?h)" "wtext (rq_id q) = ?key" for q
    using inv that entry fresh by (force simp: launch_inv_def)
  have "distinct (map (\<lambda>r. wtext (rq_id r)) (remove1 r (lw_starting w)))"
    using keys by (meson distinct_map distinct_remove1 inj_on_subset set_remove1_subset)
  then show ?thesis
    using inv h others same_key fresh time distinct
    by (auto simp: launch_inv_def map_of_remove_key distinct_map_filter dest: notin_set_remove1)
qed

theorem launch_reachable_inv: "launch_reachable True w \<Longrightarrow> launch_inv w"
proof (induction rule: launch_reachable.induct)
  case (Start now)
  then show ?case by (simp add: launch_inv_def LaunchHistory_new_def)
next
  case (Step w w')
  from Step(2) show ?case
    by (cases rule: launch_step.cases)
      (use Step.IH launch_inv_tick launch_inv_arrive launch_inv_lookup launch_inv_end in blast)+
qed

text \<open>
  C13. A request starts its application at most once, when threads are prompt. Whatever requests
  arrive, however the threads interleave between reading the clock, looking up the request and
  storing the result, and however often a client repeats a request whose outcome it does not
  know, no request is started twice, provided that the clock does not go back and that
  every thread gets the lock at most 180 seconds after it read the clock and finds no finished
  request there that was submitted after that.
\<close>

theorem app_launched_at_most_once:
  assumes "launch_reachable True w"
  shows "distinct (lh_launched (lw_history w))"
  using launch_reachable_inv [OF assms] by (simp add: launch_inv_def)

section \<open>Example\<close>

definition wide :: "nat \<Rightarrow> string \<Rightarrow> wstr" where
  "wide n s = map (\<lambda>c. word_of_nat (of_char c)) s @ replicate (n - length s) 0"

definition sample_launch :: AppLauncherRequest where
  "sample_launch = \<lparr>rq_id = wide 40 ''{00112233-4455-6677-8899-AABBCCDDEEFF}'', rq_aumid = wide 256 ''Vendor.App_1!Main'',
     rq_hostPid = 7, rq_hostCreationTime = 1, rq_parentPid = 8, rq_parentCreationTime = 2, rq_submittedTime = 100\<rparr>"

definition sample_launch_env :: LaunchEnv where
  "sample_launch_env = \<lparr>le_pid = 7, le_processTime = 1, le_now = 150, le_sameUser = True\<rparr>"

lemma sample_launch_valid: "launch_valid sample_launch_env sample_launch"
  by code_simp


lemma reachable_arrive:
  "launch_reachable p w \<Longrightarrow> launch_valid (sample_launch_env\<lparr>le_now := lw_now w\<rparr>) r \<Longrightarrow>
   launch_reachable p (w\<lparr>lw_waiting := (lw_now w, r) # lw_waiting w\<rparr>)"
  by (rule launch_reachable.Step [OF _ launch_step.Arrive [of "sample_launch_env\<lparr>le_now := lw_now w\<rparr>"]]) simp_all

text \<open>A thread that gets the lock and starts its application, up to the end.\<close>

definition launch_through :: "qword \<Rightarrow> AppLauncherRequest \<Rightarrow> LaunchWorld \<Rightarrow> LaunchWorld" where
  "launch_through t r w = w\<lparr>lw_history := snd (launch_end False (Some (launch_error 0)) r (snd (launch_lookup t r (lw_history w)))),
     lw_waiting := remove1 (t, r) (lw_waiting w)\<rparr>"

lemma reachable_through:
  assumes "launch_reachable p w" "(t, r) \<in> set (lw_waiting w)" "p \<longrightarrow> prompt t w" "fst (launch_lookup t r (lw_history w)) = None"
  shows "launch_reachable p (launch_through t r w)"
proof -
  let ?w = "w\<lparr>lw_history := snd (launch_lookup t r (lw_history w)), lw_waiting := remove1 (t, r) (lw_waiting w),
    lw_starting := r # lw_starting w\<rparr>"
  have "launch_lookup t r (lw_history w) = (None, snd (launch_lookup t r (lw_history w)))"
    using assms(4) by (simp add: prod_eq_iff)
  from launch_step.Lookup [OF assms(2,3) this] have "launch_reachable p ?w"
    using launch_reachable.Step [OF assms(1)] by simp
  moreover have "launch_step p ?w (launch_through t r w)"
    using launch_step.End [of r ?w False "Some (launch_error 0)" _ _ p, OF _ prod.collapse [symmetric]]
    by (cases w) (simp add: launch_through_def)
  ultimately show ?thesis by (rule launch_reachable.Step)
qed

theorem app_launched_at_most_once_witness:
  "\<exists>w. launch_reachable True w \<and> lh_launched (lw_history w) = [sample_launch] \<and> distinct (lh_launched (lw_history w))"
proof -
  let ?w0 = "\<lparr>lw_history = LaunchHistory_new, lw_now = 150, lw_waiting = [], lw_starting = []\<rparr>"
  let ?w1 = "?w0\<lparr>lw_waiting := [(150, sample_launch)]\<rparr>"
  have "launch_reachable True ?w1"
    using reachable_arrive [OF launch_reachable.Start [of True 150], of sample_launch] sample_launch_valid
    by (simp add: sample_launch_env_def)
  moreover have "prompt 150 ?w1"
    by (simp add: prompt_def LaunchHistory_new_def)
  ultimately have "launch_reachable True (launch_through 150 sample_launch ?w1)"
    by (intro reachable_through) (simp_all add: launch_lookup_def LaunchHistory_new_def)
  moreover have "lh_launched (lw_history (launch_through 150 sample_launch ?w1)) = [sample_launch]"
    by (simp add: launch_through_def launch_end_def launch_lookup_def LaunchHistory_new_def Let_def)
  ultimately show ?thesis
    using app_launched_at_most_once [of "launch_through 150 sample_launch ?w1"] by blast
qed

section \<open>A late thread\<close>




end
