(* ===== verification/PipeServer.thy ===== *)
theory PipeServer
  imports PipeRecords AppLaunch
begin

text \<open>
  One connection of the pipe server (\<open>PRCPipeServer.cpp\<close>). The pipe carries messages: a read takes
  one message and fails when its length is not the expected one, or when the client has gone.
  Every request is a header and its record; every answer is written in one or more messages.

  The messages of the client are a list that ends where the client closes the pipe. The reception
  centre and the history of launches are shared with other connections; a request is one step on
  them. Windows and the user interface answer through \<open>PipeEnv\<close>.
\<close>

section \<open>State\<close>

datatype pipe_event =
    ProcessCreated HookNewProcessInfo dword qword "16 word list" bool \<comment> \<open>child, parent, recorded by the launcher\<close>
  | ChildInjectionResult HookNewProcessInfo bool
  | OnHookWsock HookWSockResult
  | OnConnectionEvent bool PRCClient "16 word list" \<comment> \<open>UDP\<close>
  | OnHookLogtext dword "16 word list"
  | AuthorizationFailed dword dword

record ('s, 'q) PipeServer =
  ps_rc :: "('s, 'q) Reception"
  ps_out :: "bytes list" \<comment> \<open>messages written to the client\<close>
  ps_history :: LaunchHistory
  ps_quic :: "(dword \<times> qword \<times> dword) list" \<comment> \<open>\<open>BrowserQuicPolicy::Observe\<close>\<close>
  ps_granted :: "bytes list" \<comment> \<open>\<open>AuthorizePackageSid\<close>\<close>
  ps_events :: "pipe_event list"

text \<open>
  What \<open>AuthorizeAppContainerChild\<close> finds: opening the process, its package SID, its creation time,
  its process id and parent, and whether the grant succeeds. Failures have error numbers.
\<close>

record ChildQuery =
  cq_open :: "dword option"
  cq_sid :: "dword + bytes"
  cq_creation :: qword
  cq_basic :: "(qword \<times> qword) option"
  cq_authorize :: "dword option"

record ('s, 'q) PipeEnv =
  pe_rc :: "('s, 'q) ReceptionEnv"
  pe_startup :: "PRCINFO option"
  pe_launcher :: bytes \<comment> \<open>\<open>AppLauncherHostInfo\<close>\<close>
  pe_preference :: bool
  pe_shouldInject :: "HookNewProcessInfo \<Rightarrow> bool"
  pe_child :: ChildQuery
  pe_launch :: LaunchEnv
  pe_exit :: bool
  pe_outcome :: "AppLauncherResult option"
  pe_writes :: nat \<comment> \<open>how many writes succeed\<close>

section \<open>Reading and writing\<close>

definition ReadPipe :: "nat \<Rightarrow> bytes list \<Rightarrow> (bytes \<times> bytes list) option" where
  "ReadPipe n msgs = (case msgs of [] \<Rightarrow> None | m # ms \<Rightarrow> if length m = n then Some (m, ms) else None)"

text \<open>Several messages in a row; one that does not fit makes the read fail.\<close>

fun ReadPipeExactly :: "nat \<Rightarrow> bytes list \<Rightarrow> (bytes \<times> bytes list) option" where
  "ReadPipeExactly n [] = (if n = 0 then Some ([], []) else None)"
| "ReadPipeExactly n (m # ms) =
     (if n = 0 then Some ([], m # ms)
      else if m = [] \<or> n < length m then None
      else map_option (\<lambda>(b, rest). (m @ b, rest)) (ReadPipeExactly (n - length m) ms))"

definition reply :: "byte \<Rightarrow> nat \<Rightarrow> bytes" where
  "reply flag n = head_bytes \<lparr>hd_action = 0, hd_flag = flag, hd_dataSize = of_nat n\<rparr>"

type_synonym ('s, 'q) pipe_result = "bool \<times> bytes list \<times> ('s, 'q) PipeServer"

text \<open>The end of a request: the answer is written message by message, up to the first failure.\<close>

definition answer :: "('s, 'q) PipeEnv \<Rightarrow> bytes list \<Rightarrow> bytes list \<Rightarrow> ('s, 'q) PipeServer \<Rightarrow> ('s, 'q) pipe_result" where
  "answer e msgs ws ps = (length ws \<le> pe_writes e, msgs, ps\<lparr>ps_out := ps_out ps @ take (pe_writes e) ws\<rparr>)"

text \<open>The record of a request must have its size.\<close>

definition with_record :: "nat \<Rightarrow> PRCPipeDataHead \<Rightarrow> bytes list \<Rightarrow> ('s, 'q) PipeServer \<Rightarrow>
    (bytes \<Rightarrow> bytes list \<Rightarrow> ('s, 'q) pipe_result) \<Rightarrow> ('s, 'q) pipe_result" where
  "with_record n hdr msgs ps k =
     (if hd_dataSize hdr \<noteq> of_nat n then (False, msgs, ps)
      else case ReadPipe n msgs of None \<Rightarrow> (False, [], ps) | Some (b, rest) \<Rightarrow> k b rest)"

text \<open>A request on behalf of another process ends the connection.\<close>

definition foreign :: "dword \<Rightarrow> dword \<Rightarrow> bool" where
  "foreign pipeClientPid pid \<longleftrightarrow> pipeClientPid \<noteq> 0 \<and> pid \<noteq> pipeClientPid"

section \<open>Requests\<close>

definition observe :: "dword \<Rightarrow> qword \<Rightarrow> dword \<Rightarrow> ('s, 'q) PipeServer \<Rightarrow> ('s, 'q) PipeServer" where
  "observe pid birth status ps = ps\<lparr>ps_quic := ps_quic ps @ [(pid, birth, status)]\<rparr>"

definition notify :: "pipe_event \<Rightarrow> ('s, 'q) PipeServer \<Rightarrow> ('s, 'q) PipeServer" where
  "notify ev ps = ps\<lparr>ps_events := ps_events ps @ [ev]\<rparr>"

definition on_quic :: "('s, 'q) PipeEnv \<Rightarrow> dword \<Rightarrow> PRCPipeDataHead \<Rightarrow> bytes list \<Rightarrow> ('s, 'q) PipeServer \<Rightarrow> ('s, 'q) pipe_result" where
  "on_quic e pid hdr msgs ps =
     (if pid = 0 \<or> hd_flag hdr \<noteq> 1 then (False, msgs, ps)
      else with_record 16 hdr msgs ps (\<lambda>b rest.
        answer e rest [reply 1 0] (observe pid (bytes_qword b) (bytes_dword (drop 8 b)) ps)))"

definition on_startup :: "('s, 'q) PipeEnv \<Rightarrow> PRCPipeDataHead \<Rightarrow> bytes list \<Rightarrow> ('s, 'q) PipeServer \<Rightarrow> ('s, 'q) pipe_result" where
  "on_startup e hdr msgs ps =
     (let launcherExtended = (hd_flag hdr = 3); extended = (hd_flag hdr = 2 \<or> launcherExtended) in
      case pe_startup e of
        None \<Rightarrow> (False, msgs, ps)
      | Some i \<Rightarrow>
        let policy = (case Settings_GetProxySettings (re_settings (pe_rc e)) of
              None \<Rightarrow> 0 | Some s \<Rightarrow> if pe_preference e \<and> bHookUDP s \<and> \<not> bBlockUDP s then 1 else 0)
        in answer e msgs
             ([reply 1 (220 + (if extended then 4 else 0) + (if launcherExtended then 536 else 0)), info_bytes i] @
              (if extended then [dword_bytes policy] else []) @ (if launcherExtended then [pe_launcher e] else [])) ps)"

definition registration_error :: "('s, 'q) Reception \<Rightarrow> dword" where
  "registration_error rc = (if rc_lastError rc = 0 then word_of_int WSAEFAULT else word_of_int (rc_lastError rc))"

definition on_register :: "('s, 'q) PipeEnv \<Rightarrow> dword \<Rightarrow> PRCPipeDataHead \<Rightarrow> bytes list \<Rightarrow> ('s, 'q) PipeServer \<Rightarrow> ('s, 'q) pipe_result" where
  "on_register e pid hdr msgs ps = with_record 424 hdr msgs ps (\<lambda>b rest.
     let c = bytes_client b in
     if foreign pid (dwPid c) then (False, rest, ps)
     else
       let ps = (if sType c = SOCK_DGRAM \<and> pid \<noteq> 0 then observe pid (PRCClient.processCreateTime c) (c_reserved c) ps else ps);
           (ok, c, rc) = RegisterClient (pe_rc e) c (ps_rc ps);
           ps = ps\<lparr>ps_rc := rc\<rparr> in
       if \<not> ok then answer e rest [reply 0 4, dword_bytes (registration_error rc)] ps
       else if sType c = SOCK_DGRAM then answer e rest [reply 1 424, client_bytes c] ps
       else answer e rest [reply 1 0] ps)"

definition on_unregister :: "('s, 'q) PipeEnv \<Rightarrow> dword \<Rightarrow> PRCPipeDataHead \<Rightarrow> bytes list \<Rightarrow> ('s, 'q) PipeServer \<Rightarrow> ('s, 'q) pipe_result" where
  "on_unregister e pid hdr msgs ps = with_record 424 hdr msgs ps (\<lambda>b rest.
     let c = bytes_client b in
     if foreign pid (dwPid c) then (False, rest, ps)
     else let (ok, rc) = UnregisterClient c (ps_rc ps); ps = ps\<lparr>ps_rc := rc\<rparr>
       in if ok then answer e rest [reply 1 0] ps else (False, rest, ps))"

text \<open>\<open>IsFiltered\<close> is always false.\<close>

definition IsFiltered :: "bytes \<Rightarrow> bool" where
  "IsFiltered clientinfo = False"

definition on_canproxy :: "('s, 'q) PipeEnv \<Rightarrow> dword \<Rightarrow> PRCPipeDataHead \<Rightarrow> bytes list \<Rightarrow> ('s, 'q) PipeServer \<Rightarrow> ('s, 'q) pipe_result" where
  "on_canproxy e pid hdr msgs ps = with_record 12 hdr msgs ps (\<lambda>b rest.
     if foreign pid (bytes_dword b) then (False, rest, ps)
     else answer e rest [reply (if IsFiltered b then 0 else 1) 0] ps)"

definition on_settings :: "('s, 'q) PipeEnv \<Rightarrow> bytes list \<Rightarrow> ('s, 'q) PipeServer \<Rightarrow> ('s, 'q) pipe_result" where
  "on_settings e msgs ps =
     (case Settings_GetProxySettings (re_settings (pe_rc e)) of
        Some psi \<Rightarrow> answer e msgs [reply 1 68, settings_bytes psi] ps
      | None \<Rightarrow> answer e msgs [reply 0 0] ps)"

definition bytes_launch :: "bytes \<Rightarrow> AppLauncherRequest" where
  "bytes_launch b = \<lparr>rq_id = wchars (take 80 b), rq_aumid = wchars (take 512 (drop 80 b)), rq_hostPid = bytes_dword (drop 592 b),
     rq_hostCreationTime = bytes_qword (drop 596 b), rq_parentPid = bytes_dword (drop 604 b),
     rq_parentCreationTime = bytes_qword (drop 608 b), rq_submittedTime = bytes_qword (drop 616 b)\<rparr>"

definition launch_bytes :: "AppLauncherResult \<Rightarrow> bytes" where
  "launch_bytes r = dword_bytes (rs_error r) @ dword_bytes (rs_processId r) @ dword_bytes (rs_hookError r)"

text \<open>\<open>le_sameUser\<close> is asked for the process behind the pipe; without one the answer is no.\<close>

definition on_launch :: "('s, 'q) PipeEnv \<Rightarrow> dword \<Rightarrow> PRCPipeDataHead \<Rightarrow> bytes list \<Rightarrow> ('s, 'q) PipeServer \<Rightarrow> ('s, 'q) pipe_result" where
  "on_launch e pid hdr msgs ps = with_record 624 hdr msgs ps (\<lambda>b rest.
     let env = (pe_launch e)\<lparr>le_sameUser := pid \<noteq> 0 \<and> le_sameUser (pe_launch e)\<rparr>;
         (result, history) = HandleAppLaunch env (pe_exit e) (pe_outcome e) (bytes_launch b) (ps_history ps)
     in answer e rest [reply 1 12, launch_bytes result] (ps\<lparr>ps_history := history\<rparr>))"

abbreviation (input) "ACCESS_DENIED \<equiv> (5 :: dword)"

text \<open>Whether the child may use the pipe, the error number, and the package that was granted access.\<close>

definition AuthorizeAppContainerChild :: "ChildQuery \<Rightarrow> HookNewProcessInfo \<Rightarrow> dword \<Rightarrow> bool \<times> dword \<times> bytes option" where
  "AuthorizeAppContainerChild q child pipeClientPid =
     (case cq_open q of
        Some err \<Rightarrow> (err = ACCESS_DENIED, err, None)
      | None \<Rightarrow>
        (case cq_sid q of
           Inl err \<Rightarrow> (err = ACCESS_DENIED, err, None)
         | Inr sid \<Rightarrow>
           if sid = [] then (True, 0, None)
           else if pipeClientPid = 0 \<or> np_processCreateTime child = 0 \<or> cq_creation q \<noteq> np_processCreateTime child \<or>
             (case cq_basic q of None \<Rightarrow> True
              | Some (pid, parent) \<Rightarrow> pid \<noteq> ucast (np_dwProcessId child) \<or> parent \<noteq> ucast pipeClientPid)
           then (False, ACCESS_DENIED, None)
           else (case cq_authorize q of None \<Rightarrow> (True, 0, Some sid) | Some err \<Rightarrow> (False, err, None))))"

definition terminated :: "HookNewProcessInfo \<Rightarrow> HookNewProcessInfo" where
  "terminated p = p\<lparr>np_szAppPath := take 259 (np_szAppPath p), np_szCommandLine := take 259 (np_szCommandLine p)\<rparr>"

definition on_should_inject :: "('s, 'q) PipeEnv \<Rightarrow> dword \<Rightarrow> PRCPipeDataHead \<Rightarrow> bytes list \<Rightarrow> ('s, 'q) PipeServer \<Rightarrow> ('s, 'q) pipe_result" where
  "on_should_inject e pid hdr msgs ps = with_record 1588 hdr msgs ps (\<lambda>b rest.
     let recordOnly = (hd_flag hdr = 1); child = terminated (bytes_newprocess b);
         ps = notify (ProcessCreated child (bytes_dword (drop 1056 b)) (bytes_qword (drop 1060 b))
                (take 259 (bytes_warray 260 (drop 1068 b))) recordOnly) ps;
         inject = (recordOnly \<or> pe_shouldInject e child) in
     if \<not> recordOnly \<and> inject
     then let (ok, err, granted) = AuthorizeAppContainerChild (pe_child e) child pid;
              ps = (case granted of Some sid \<Rightarrow> ps\<lparr>ps_granted := ps_granted ps @ [sid]\<rparr> | None \<Rightarrow> ps)
       in if ok then answer e rest [reply 1 0] ps
          else answer e rest [reply 0 0] (notify (AuthorizationFailed (np_dwProcessId child) err) ps)
     else answer e rest [reply (if inject then 1 else 0) 0] ps)"

definition on_injection_result :: "PRCPipeDataHead \<Rightarrow> bytes list \<Rightarrow> ('s, 'q) PipeServer \<Rightarrow> ('s, 'q) pipe_result" where
  "on_injection_result hdr msgs ps = with_record 1056 hdr msgs ps (\<lambda>b rest.
     (True, rest, notify (ChildInjectionResult (bytes_newprocess b) (hd_flag hdr \<noteq> 0)) ps))"

definition on_guard :: "guard_arrival \<Rightarrow> ('s, 'q) PipeServer \<Rightarrow> ('s, 'q) PipeServer" where
  "on_guard a ps = ps\<lparr>ps_rc := (ps_rc ps)\<lparr>rc_guard := arrive a (rc_guard (ps_rc ps))\<rparr>\<rparr>"

definition on_identity :: "('s, 'q) PipeEnv \<Rightarrow> dword \<Rightarrow> PRCPipeDataHead \<Rightarrow> bytes list \<Rightarrow> ('s, 'q) PipeServer \<Rightarrow> ('s, 'q) pipe_result" where
  "on_identity e pid hdr msgs ps = with_record 540 hdr msgs ps (\<lambda>b rest.
     let i = bytes_identity b in
     if foreign pid (dwProcessId i) then (False, rest, ps)
     else let i = i\<lparr>szAppPath := take 259 (szAppPath i)\<rparr>
       in (True, rest, on_guard (IdentityArrives (Some i) (re_created (pe_rc e) (dwProcessId i))) ps))"

definition on_released :: "('s, 'q) PipeEnv \<Rightarrow> PRCPipeDataHead \<Rightarrow> bytes list \<Rightarrow> ('s, 'q) PipeServer \<Rightarrow> ('s, 'q) pipe_result" where
  "on_released e hdr msgs ps = with_record 1056 hdr msgs ps (\<lambda>b rest.
     let child = bytes_newprocess b
     in (True, rest, on_guard (ReleasedArrives (np_dwProcessId child) (np_processCreateTime child)
          (re_created (pe_rc e) (np_dwProcessId child))) ps))"

definition on_portstate :: "('s, 'q) PipeEnv \<Rightarrow> PRCPipeDataHead \<Rightarrow> bytes list \<Rightarrow> ('s, 'q) PipeServer \<Rightarrow> ('s, 'q) pipe_result" where
  "on_portstate e hdr msgs ps = with_record 8 hdr msgs ps (\<lambda>b rest.
     answer e rest [reply (if GetUDPClientPortState (bytes_portinfo b) (ps_rc ps) then 1 else 0) 0] ps)"

text \<open>The key of the transport is wiped before the profile is sent.\<close>

definition on_proxyinfo :: "('s, 'q) PipeEnv \<Rightarrow> dword \<Rightarrow> PRCPipeDataHead \<Rightarrow> bytes list \<Rightarrow> ('s, 'q) PipeServer \<Rightarrow> ('s, 'q) pipe_result" where
  "on_proxyinfo e pid hdr msgs ps = with_record 424 hdr msgs ps (\<lambda>b rest.
     let c = bytes_client b in
     if foreign pid (dwPid c) then (False, rest, ps)
     else (case Settings_GetProxyInfo (re_settings (pe_rc e)) c of
        Some (_, pi) \<Rightarrow> answer e rest [reply 1 808, proxy_bytes (pi\<lparr>strTransportPsk := []\<rparr>)] ps
      | None \<Rightarrow> answer e rest [reply 0 0] ps))"

definition on_hookresult :: "('s, 'q) PipeEnv \<Rightarrow> dword \<Rightarrow> PRCPipeDataHead \<Rightarrow> bytes list \<Rightarrow> ('s, 'q) PipeServer \<Rightarrow> ('s, 'q) pipe_result" where
  "on_hookresult e pid hdr msgs ps = with_record 16 hdr msgs ps (\<lambda>b rest.
     let r = bytes_result b in
     if foreign pid (wr_dwProcessId r) then (False, rest, ps)
     else (True, rest, notify (OnHookWsock r)
       (on_guard (HookResultArrives (wr_dwProcessId r) (wr_processCreateTime r) (wr_err r)
         (re_created (pe_rc e) (wr_dwProcessId r))) ps)))"

definition on_blocked :: "bool \<Rightarrow> dword \<Rightarrow> PRCPipeDataHead \<Rightarrow> bytes list \<Rightarrow> ('s, 'q) PipeServer \<Rightarrow> ('s, 'q) pipe_result" where
  "on_blocked udp pid hdr msgs ps =
     (if hd_dataSize hdr \<noteq> 812 then (False, msgs, ps)
      else case ReadPipeExactly 812 msgs of
        None \<Rightarrow> (False, [], ps)
      | Some (b, rest) \<Rightarrow>
        let info = bytes_blocked b; a = bi_destination info in
        if foreign pid (bi_processId info) \<or> \<not> udp \<and> \<not> sa_IsIPv6 a \<or>
           udp \<and> (bi_socketType info \<noteq> SOCK_DGRAM \<or> \<not> sa_IsIPv4 a \<and> \<not> sa_IsIPv6 a \<and> sa_family a \<noteq> AF_UNSPEC) \<or>
           0 \<notin> set (bi_domain info) \<or> 0 \<notin> set (bi_processName info)
        then (False, rest, ps)
        else (True, rest, notify (OnConnectionEvent udp
          (PRCClient_zero\<lparr>dwPid := bi_processId info, sType := bi_socketType info, dstAddr := a, szDomainName := bytes_cstr (bi_domain info)\<rparr>)
          (takeWhile (\<lambda>w. w \<noteq> 0) (bi_processName info))) ps))"

definition on_logtext :: "('s, 'q) PipeEnv \<Rightarrow> dword \<Rightarrow> PRCPipeDataHead \<Rightarrow> bytes list \<Rightarrow> ('s, 'q) PipeServer \<Rightarrow> ('s, 'q) pipe_result" where
  "on_logtext e pid hdr msgs ps =
     (if hd_dataSize hdr < 8 \<or> 65536 < hd_dataSize hdr then (False, msgs, ps)
      else case ReadPipeExactly (unat (hd_dataSize hdr)) msgs of
        None \<Rightarrow> (False, [], ps)
      | Some (b, rest) \<Rightarrow>
        let len = bytes_int (drop 4 b) in
        if foreign pid (bytes_dword b) \<or> len < 0 \<or> len mod 2 \<noteq> 0 \<or> int (length b) - 8 < len then (False, rest, ps)
        else let ps = notify (OnHookLogtext (bytes_dword b) (wchars (take (nat len) (drop 8 b)))) ps
          in if hd_flag hdr = 1 then answer e rest [reply 1 0] ps else (True, rest, ps))"

section \<open>The loop\<close>

definition pipe_request :: "('s, 'q) PipeEnv \<Rightarrow> dword \<Rightarrow> PRCPipeDataHead \<Rightarrow> bytes list \<Rightarrow> ('s, 'q) PipeServer \<Rightarrow> ('s, 'q) pipe_result" where
  "pipe_request e pid hdr msgs ps =
     (let a = hd_action hdr in
      if a = 17 then on_quic e pid hdr msgs ps
      else if a = 1 then on_startup e hdr msgs ps
      else if a = 2 then on_register e pid hdr msgs ps
      else if a = 4 then on_unregister e pid hdr msgs ps
      else if a = 3 then on_canproxy e pid hdr msgs ps
      else if a = 5 then on_settings e msgs ps
      else if a = 19 then on_launch e pid hdr msgs ps
      else if a = 6 then on_should_inject e pid hdr msgs ps
      else if a = 11 then on_injection_result hdr msgs ps
      else if a = 12 then on_identity e pid hdr msgs ps
      else if a = 13 then on_released e hdr msgs ps
      else if a = 7 then on_portstate e hdr msgs ps
      else if a = 8 then on_proxyinfo e pid hdr msgs ps
      else if a = 9 then on_hookresult e pid hdr msgs ps
      else if a = 14 then on_blocked False pid hdr msgs ps
      else if a = 18 then on_blocked True pid hdr msgs ps
      else if a = 10 then on_logtext e pid hdr msgs ps
      else (False, msgs, ps))"

text \<open>
  One round per environment; the list of environments ends where the server is told to stop. The
  loop waits as long as the pipe holds no byte, which messages of length zero do not change, and
  ends with the first request that cannot be served. The result tells whether every request
  so far was served.
\<close>

fun InstanceThread :: "('s, 'q) PipeEnv list \<Rightarrow> dword \<Rightarrow> bytes list \<Rightarrow> ('s, 'q) PipeServer \<Rightarrow> ('s, 'q) pipe_result" where
  "InstanceThread [] pid msgs ps = (True, msgs, ps)"
| "InstanceThread (e # es) pid msgs ps =
     (if concat msgs = [] then (True, msgs, ps)
      else case ReadPipe 6 msgs of
        None \<Rightarrow> (False, [], ps)
      | Some (b, rest) \<Rightarrow>
        (case pipe_request e pid (bytes_head b) rest ps of
           (False, rest, ps) \<Rightarrow> (False, rest, ps)
         | (True, rest, ps) \<Rightarrow> InstanceThread es pid rest ps))"

end
