(* ===== verification/PipeClient.thy ===== *)
theory PipeClient
  imports PipeServer
begin

text \<open>
  The hooked process's side of the pipe (\<open>PRCPipeClient.cpp\<close>). A call writes its request and reads
  the answer. \<open>transact\<close> stands for the connection: the messages of the answer, or the error number
  of a failed write. A call that fails leaves an error number; 0 stands for none.
\<close>

section \<open>Reading\<close>

type_synonym transact = "bytes list \<Rightarrow> int + bytes list"

abbreviation (input) "ERROR_BROKEN_PIPE \<equiv> (109 :: int)"
abbreviation (input) "ERROR_MORE_DATA \<equiv> (234 :: int)"
abbreviation (input) "ERROR_INVALID_DATA \<equiv> (13 :: int)"

definition Client_ReadPipe :: "nat \<Rightarrow> bytes list \<Rightarrow> int + bytes \<times> bytes list" where
  "Client_ReadPipe n msgs =
     (case msgs of [] \<Rightarrow> Inl ERROR_BROKEN_PIPE
      | m # ms \<Rightarrow> if n < length m then Inl ERROR_MORE_DATA
          else if length m < n then Inl ERROR_INVALID_DATA else Inr (m, ms))"

definition request :: "byte \<Rightarrow> byte \<Rightarrow> nat \<Rightarrow> bytes" where
  "request action flag n = head_bytes \<lparr>hd_action = action, hd_flag = flag, hd_dataSize = of_nat n\<rparr>"

text \<open>Write the messages, read the header of the answer and go on with the rest.\<close>

definition call :: "transact \<Rightarrow> bytes list \<Rightarrow> (PRCPipeDataHead \<Rightarrow> bytes list \<Rightarrow> int + 'a) \<Rightarrow> int + 'a" where
  "call tr ws k =
     (case tr ws of Inl err \<Rightarrow> Inl err
      | Inr msgs \<Rightarrow> (case Client_ReadPipe 6 msgs of Inl err \<Rightarrow> Inl err | Inr (b, rest) \<Rightarrow> k (bytes_head b) rest))"

definition read_record :: "nat \<Rightarrow> (bytes \<Rightarrow> 'a) \<Rightarrow> bytes list \<Rightarrow> int + 'a" where
  "read_record n dec msgs = map_sum id (dec \<circ> fst) (Client_ReadPipe n msgs)"

section \<open>Calls\<close>

text \<open>
  The start-up information, with the flag of the QUIC policy and the application launcher when
  they are asked for. An incomplete launcher record is cleared.
\<close>

definition launcher_valid :: "bytes \<Rightarrow> bool" where
  "launcher_valid b \<longleftrightarrow> bytes_dword b = 1 \<and> bytes_dword (drop 4 b) \<noteq> 0 \<and> bytes_qword (drop 8 b) \<noteq> 0 \<and>
     bytes_word16 (drop 16 b) \<noteq> 0 \<and> bytes_word16 (drop 534 b) = 0"

definition GetPRCStartupInfo :: "transact \<Rightarrow> bool \<Rightarrow> bool \<Rightarrow> int + PRCINFO \<times> bool \<times> bytes option" where
  "GetPRCStartupInfo tr quicPolicy launcher =
     call tr [request 1 (if launcher then 3 else if quicPolicy then 2 else 0) 0] (\<lambda>hdr msgs.
       if hd_action hdr \<noteq> 0 \<or> hd_flag hdr \<noteq> 1 \<or>
          hd_dataSize hdr \<noteq> 220 \<and> (\<not> (quicPolicy \<or> launcher) \<or> hd_dataSize hdr \<noteq> 224) \<and>
          (\<not> launcher \<or> hd_dataSize hdr \<noteq> 760)
       then Inl ERROR_INVALID_DATA
       else case Client_ReadPipe 220 msgs of
         Inl err \<Rightarrow> Inl err
       | Inr (b, msgs) \<Rightarrow>
         (case (if 220 < hd_dataSize hdr then map_sum id (map_prod bytes_dword id) (Client_ReadPipe 4 msgs) else Inr (0, msgs)) of
            Inl err \<Rightarrow> Inl err
          | Inr (flags, msgs) \<Rightarrow>
            (case (if launcher \<and> hd_dataSize hdr = 760 then map_sum id (Some \<circ> fst) (Client_ReadPipe 536 msgs) else Inr None) of
               Inl err \<Rightarrow> Inl err
             | Inr l \<Rightarrow> Inr (bytes_info b, quicPolicy \<and> flags AND 1 \<noteq> 0,
                 case l of Some x \<Rightarrow> if launcher_valid x then Some x else None | None \<Rightarrow> None))))"

definition PRCReportQuicStatus :: "transact \<Rightarrow> qword \<Rightarrow> dword \<Rightarrow> dword \<Rightarrow> bool" where
  "PRCReportQuicStatus tr birth status zero =
     (case call tr [request 17 1 16, qword_bytes birth @ dword_bytes status @ dword_bytes zero]
        (\<lambda>hdr _. Inr (hd_action hdr = 0 \<and> hd_flag hdr = 1 \<and> hd_dataSize hdr = 0)) of
        Inr ok \<Rightarrow> ok | Inl _ \<Rightarrow> False)"

definition PRCRegisterClient :: "transact \<Rightarrow> PRCClient \<Rightarrow> int + PRCClient" where
  "PRCRegisterClient tr c = call tr [request 2 0 424, client_bytes c] (\<lambda>hdr msgs.
     if hd_action hdr \<noteq> 0 then Inl WSAEPROTONOSUPPORT
     else if hd_flag hdr = 0 then
       (if hd_dataSize hdr \<noteq> 4 then Inl 0
        else case read_record 4 bytes_dword msgs of Inl err \<Rightarrow> Inl err | Inr err \<Rightarrow> Inl (sint err))
     else if hd_flag hdr \<noteq> 1 then Inl WSAEPROTONOSUPPORT
     else if sType c = SOCK_STREAM \<and> hd_dataSize hdr = 0 then Inr c
     else if sType c \<noteq> SOCK_DGRAM \<or> hd_dataSize hdr \<noteq> 424 then Inl 0
     else read_record 424 bytes_client msgs)"

definition PRCUnregisterClient :: "transact \<Rightarrow> PRCClient \<Rightarrow> bool" where
  "PRCUnregisterClient tr c =
     (case call tr [request 4 0 424, client_bytes c] (\<lambda>hdr _. Inr (hd_action hdr = 0 \<and> hd_flag hdr = 1)) of
        Inr ok \<Rightarrow> ok | Inl _ \<Rightarrow> False)"

text \<open>\<open>PRCClientInfo\<close>: process, thread and protocol.\<close>

definition PRCCanProxyMe :: "transact \<Rightarrow> dword \<Rightarrow> dword \<Rightarrow> dword \<Rightarrow> bool" where
  "PRCCanProxyMe tr pid tid protype =
     (case call tr [request 3 0 12, dword_bytes pid @ dword_bytes tid @ dword_bytes protype]
        (\<lambda>hdr _. Inr (hd_action hdr = 0 \<and> hd_flag hdr \<noteq> 0 \<and> hd_dataSize hdr = 0)) of
        Inr ok \<Rightarrow> ok | Inl _ \<Rightarrow> False)"

definition PRCGetProxySettingsInfo :: "transact \<Rightarrow> int + ProxySettingsInfo" where
  "PRCGetProxySettingsInfo tr = call tr [request 5 0 68] (\<lambda>hdr msgs.
     if hd_action hdr \<noteq> 0 \<or> hd_flag hdr \<noteq> 1 \<or> hd_dataSize hdr \<noteq> 68 then Inl ERROR_INVALID_DATA
     else read_record 68 bytes_settings msgs)"

text \<open>\<open>parent\<close> is the snapshot of this process in the notice.\<close>

definition PRCShouldInjectNewProcess :: "transact \<Rightarrow> HookNewProcessInfo \<Rightarrow> dword \<Rightarrow> qword \<Rightarrow> 16 word list \<Rightarrow> bool \<Rightarrow> bool" where
  "PRCShouldInjectNewProcess tr child parent parentTime parentPath recordOnly =
     (case call tr [request 6 (if recordOnly then 1 else 0) 1588,
          newprocess_bytes child @ dword_bytes parent @ qword_bytes parentTime @ warray_bytes 260 parentPath]
        (\<lambda>hdr _. Inr (hd_action hdr = 0 \<and> hd_flag hdr = 1 \<and> hd_dataSize hdr = 0)) of
        Inr ok \<Rightarrow> ok | Inl _ \<Rightarrow> False)"

definition PRCGetUDPClientPortState :: "transact \<Rightarrow> UDPLocalProxyAddrInfo \<Rightarrow> bool" where
  "PRCGetUDPClientPortState tr i =
     (case call tr [request 7 0 8, portinfo_bytes i] (\<lambda>hdr _. Inr (hd_action hdr = 0 \<and> hd_flag hdr \<noteq> 0 \<and> hd_dataSize hdr = 0)) of
        Inr ok \<Rightarrow> ok | Inl _ \<Rightarrow> False)"

definition PRCGetProxyInfo :: "transact \<Rightarrow> PRCClient \<Rightarrow> int + ProxyInfo" where
  "PRCGetProxyInfo tr c = call tr [request 8 0 424, client_bytes c] (\<lambda>hdr msgs.
     if hd_action hdr \<noteq> 0 \<or> hd_flag hdr = 0 \<or> hd_dataSize hdr \<noteq> 808 then Inl 0
     else read_record 808 bytes_proxy msgs)"

text \<open>Notices without an answer: the messages that are written, or none when a check refuses.\<close>

definition PRCNotifyChildInjectionResult :: "HookNewProcessInfo \<Rightarrow> bool \<Rightarrow> bytes list" where
  "PRCNotifyChildInjectionResult child succeeded = [request 11 (if succeeded then 1 else 0) 1056, newprocess_bytes child]"

definition PRCNotifyChildReleased :: "HookNewProcessInfo option \<Rightarrow> bytes list option" where
  "PRCNotifyChildReleased child =
     (case child of None \<Rightarrow> None
      | Some p \<Rightarrow> if np_dwProcessId p = 0 \<or> np_processCreateTime p = 0 then None
          else Some [request 13 0 1056, newprocess_bytes p])"

definition PRCRegisterProcessIdentity :: "HookProcessIdentityInfo option \<Rightarrow> bytes list option" where
  "PRCRegisterProcessIdentity identity =
     (case identity of None \<Rightarrow> None
      | Some i \<Rightarrow> if dwProcessId i = 0 \<or> szAppPath i = [] then None else Some [request 12 0 540, identity_bytes i])"

definition PRCNotifyHookWSockResult :: "dword \<Rightarrow> dword \<Rightarrow> qword \<Rightarrow> bytes list" where
  "PRCNotifyHookWSockResult pid err createTime =
     [request 9 0 16, result_bytes \<lparr>wr_dwProcessId = pid, wr_processCreateTime = createTime, wr_err = err\<rparr>]"

definition blocked_bytes :: "dword \<Rightarrow> int \<Rightarrow> sockaddr \<Rightarrow> cstr \<Rightarrow> 16 word list \<Rightarrow> bytes" where
  "blocked_bytes pid ty a domain name = dword_bytes pid @ int_bytes ty @ sockaddr_bytes a @ array_bytes 256 domain @ warray_bytes 260 name"

definition PRCLogBlockedIPv6 :: "dword \<Rightarrow> int \<Rightarrow> sockaddr \<Rightarrow> cstr \<Rightarrow> 16 word list \<Rightarrow> bytes list" where
  "PRCLogBlockedIPv6 pid ty a domain name = [request 14 0 812, blocked_bytes pid ty a domain name]"

definition PRCLogBlockedUDP :: "dword \<Rightarrow> int \<Rightarrow> sockaddr \<Rightarrow> cstr \<Rightarrow> 16 word list \<Rightarrow> bytes list" where
  "PRCLogBlockedUDP pid ty a domain name = [request 18 0 812, blocked_bytes pid ty a domain name]"

definition PRCLogtext :: "dword \<Rightarrow> 16 word list \<Rightarrow> bytes list" where
  "PRCLogtext pid text =
     (let len = 2 * (length text + 1)
      in [request 10 0 (8 + len), dword_bytes pid @ int_bytes (int len), concat (map word16_bytes (text @ [0]))])"

end
