(* ===== verification/PipeRuns.thy ===== *)
theory PipeRuns
  imports PipeClient ReceptionRuns
begin

text \<open>
  What the pipe guarantees: a call of the client does on the service what the call says and brings
  its answer back; a process cannot act for another one; the loop of a connection ends.
\<close>

section \<open>Handlers\<close>

lemma ReadPipe_Cons [simp]: "ReadPipe n (m # ms) = (if length m = n then Some (m, ms) else None)" "ReadPipe n [] = None"
  by (simp_all add: ReadPipe_def)

lemma Client_ReadPipe_Cons [simp]: "length m = n \<Longrightarrow> Client_ReadPipe n (m # ms) = Inr (m, ms)"
  by (simp add: Client_ReadPipe_def)

lemma length_head_bytes [simp]: "length (head_bytes h) = 6"
  using head.enc_length by simp

lemma length_request [simp]: "length (request a f n) = 6" "length (reply f n) = 6"
  by (simp_all add: request_def reply_def)

lemma request_not_empty [simp]: "request a f n \<noteq> []"
  using length_request(1) [of a f n] by (metis list.size(3) zero_neq_numeral)

lemma bytes_head_request [simp]:
  "bytes_head (request a f n) = \<lparr>hd_action = a, hd_flag = f, hd_dataSize = of_nat n\<rparr>"
  "bytes_head (reply f n) = \<lparr>hd_action = 0, hd_flag = f, hd_dataSize = of_nat n\<rparr>"
  using head.dec_enc_alone by (simp_all add: request_def reply_def)

lemmas handler_defs = on_quic_def on_startup_def on_register_def on_unregister_def on_canproxy_def on_settings_def
  on_launch_def on_should_inject_def on_injection_result_def on_identity_def on_released_def on_portstate_def
  on_proxyinfo_def on_hookresult_def on_blocked_def on_logtext_def

lemma with_record_cases:
  assumes "with_record n hdr msgs ps k = r"
  obtains "fst r = False" "snd (snd r) = ps" "length (fst (snd r)) \<le> length msgs"
  | b rest where "hd_dataSize hdr = of_nat n" "length b = n" "msgs = b # rest" "r = k b rest"
  using assms unfolding with_record_def ReadPipe_def by (auto split: if_splits list.splits)

lemma ReadPipeExactly_length: "ReadPipeExactly n msgs = Some (b, rest) \<Longrightarrow> length rest \<le> length msgs \<and> length b = n"
proof (induction msgs arbitrary: n b rest)
  case (Cons m ms)
  show ?case
  proof (cases "n = 0 \<or> m = [] \<or> n < length m")
    case False
    then obtain b' where "ReadPipeExactly (n - length m) ms = Some (b', rest)" "b = m @ b'"
      using Cons.prems by auto
    then show ?thesis
      using Cons.IH [of "n - length m" b' rest] False by auto
  qed (use Cons.prems in \<open>auto split: if_splits\<close>)
qed (auto split: if_splits)

lemma answer_simps [simp]:
  "fst (answer e msgs ws ps) = (length ws \<le> pe_writes e)" "fst (snd (answer e msgs ws ps)) = msgs"
  "ps_rc (snd (snd (answer e msgs ws ps))) = ps_rc ps" "ps_granted (snd (snd (answer e msgs ws ps))) = ps_granted ps"
  by (simp_all add: answer_def)

lemma ps_updates [simp]:
  "ps_rc (observe p b s ps) = ps_rc ps" "ps_rc (notify ev ps) = ps_rc ps" "ps_out (observe p b s ps) = ps_out ps"
  "ps_out (notify ev ps) = ps_out ps" "ps_granted (observe p b s ps) = ps_granted ps" "ps_granted (notify ev ps) = ps_granted ps"
  "ps_granted (on_guard a ps) = ps_granted ps" "rc_RegisteredClient (ps_rc (on_guard a ps)) = rc_RegisteredClient (ps_rc ps)"
  by (simp_all add: observe_def notify_def on_guard_def)

section \<open>Calls over the pipe\<close>

text \<open>The connection of a process to the service in the given state.\<close>

definition pipe_after :: "('s, 'q) PipeEnv \<Rightarrow> dword \<Rightarrow> ('s, 'q) PipeServer \<Rightarrow> bytes list \<Rightarrow> ('s, 'q) PipeServer" where
  "pipe_after e pid ps msgs = snd (snd (InstanceThread [e] pid msgs ps))"

definition pipe_transact :: "('s, 'q) PipeEnv \<Rightarrow> dword \<Rightarrow> ('s, 'q) PipeServer \<Rightarrow> transact" where
  "pipe_transact e pid ps msgs = Inr (drop (length (ps_out ps)) (ps_out (pipe_after e pid ps msgs)))"

lemma pipe_after_request:
  "pipe_after e pid ps (request a f n # msgs) = snd (snd (pipe_request e pid \<lparr>hd_action = a, hd_flag = f, hd_dataSize = of_nat n\<rparr> msgs ps))"
  by (simp add: pipe_after_def case_prod_unfold split: bool.splits)

lemma with_record_enough [simp]:
  "hd_dataSize hdr = of_nat n \<Longrightarrow> length b = n \<Longrightarrow> with_record n hdr (b # rest) ps k = k b rest"
  by (simp add: with_record_def)

lemma answer_out: "length ws \<le> pe_writes e \<Longrightarrow> ps_out (snd (snd (answer e msgs ws ps))) = ps_out ps @ ws"
  by (simp add: answer_def)

lemma read_record_Cons [simp]: "length b = n \<Longrightarrow> read_record n dec (b # rest) = Inr (dec b)"
  by (simp add: read_record_def)

lemma call_reply [simp]:
  "tr ws = Inr (reply f n # msgs) \<Longrightarrow> call tr ws k = k \<lparr>hd_action = 0, hd_flag = f, hd_dataSize = of_nat n\<rparr> msgs"
  by (simp add: call_def)

lemma client_bytes_facts:
  "client_ok c \<Longrightarrow> length (client_bytes c) = 424" "client_ok c \<Longrightarrow> bytes_client (client_bytes c) = c"
  by (rule client.enc_length client.dec_enc_alone; assumption)+

lemma pipe_register:
  assumes "client_ok c" "\<not> foreign pid (dwPid c)" "sType c = SOCK_STREAM \<or> sType c = SOCK_DGRAM" "2 \<le> pe_writes e"
    and "RegisterClient (pe_rc e) c (ps_rc ps) = (ok, c', rc')" "sType c' = sType c" "ok \<Longrightarrow> client_ok c'"
  shows "PRCRegisterClient (pipe_transact e pid ps) c =
      (if \<not> ok then Inl (sint (registration_error rc')) else Inr (if sType c = SOCK_DGRAM then c' else c)) \<and>
    ps_rc (pipe_after e pid ps [request 2 0 424, client_bytes c]) = rc'"
proof -
  let ?ps = "if sType c = SOCK_DGRAM \<and> pid \<noteq> 0 then observe pid (PRCClient.processCreateTime c) (c_reserved c) ps else ps"
  let ?ws = "if \<not> ok then [reply 0 4, dword_bytes (registration_error rc')]
    else if sType c = SOCK_DGRAM then [reply 1 424, client_bytes c'] else [reply 1 0]"
  have rc: "ps_rc ?ps = ps_rc ps" and out: "ps_out ?ps = ps_out ps"
    by simp_all
  have req: "pipe_request e pid \<lparr>hd_action = 2, hd_flag = 0, hd_dataSize = of_nat 424\<rparr> [client_bytes c] ps =
      answer e [] ?ws (?ps\<lparr>ps_rc := rc'\<rparr>)"
    using assms client_bytes_facts [of c] rc by (simp add: pipe_request_def on_register_def Let_def)
  have after: "pipe_after e pid ps [request 2 0 424, client_bytes c] = snd (snd (answer e [] ?ws (?ps\<lparr>ps_rc := rc'\<rparr>)))"
    unfolding pipe_after_request req ..
  have "length ?ws \<le> pe_writes e"
    using assms(4) by simp
  then have tr: "pipe_transact e pid ps [request 2 0 424, client_bytes c] = Inr ?ws"
    unfolding pipe_transact_def after by (simp add: answer_out out del: length_0_conv)
  have "PRCRegisterClient (pipe_transact e pid ps) c =
      (if \<not> ok then Inl (sint (registration_error rc')) else Inr (if sType c = SOCK_DGRAM then c' else c))"
    using assms(3,7) tr client_bytes_facts [of c'] by (auto simp: PRCRegisterClient_def)
  then show ?thesis
    unfolding after by simp
qed

lemma proxy_ok_psk: "proxy_ok q \<Longrightarrow> proxy_ok (q\<lparr>strTransportPsk := []\<rparr>)"
  by (simp add: proxy_ok_def array_ok_def cstr_ok_def)

lemma pipe_proxyinfo:
  assumes "client_ok c" "\<not> foreign pid (dwPid c)" "2 \<le> pe_writes e"
    and "\<And>c' q. Settings_GetProxyInfo (re_settings (pe_rc e)) c = Some (c', q) \<Longrightarrow> proxy_ok q"
  shows "PRCGetProxyInfo (pipe_transact e pid ps) c =
      (case Settings_GetProxyInfo (re_settings (pe_rc e)) c of
         Some (_, q) \<Rightarrow> Inr (q\<lparr>strTransportPsk := []\<rparr>) | None \<Rightarrow> Inl 0) \<and>
    ps_rc (pipe_after e pid ps [request 8 0 424, client_bytes c]) = ps_rc ps"
proof -
  let ?ws = "case Settings_GetProxyInfo (re_settings (pe_rc e)) c of
      Some (_, q) \<Rightarrow> [reply 1 808, proxy_bytes (q\<lparr>strTransportPsk := []\<rparr>)] | None \<Rightarrow> [reply 0 0]"
  have req: "pipe_request e pid \<lparr>hd_action = 8, hd_flag = 0, hd_dataSize = of_nat 424\<rparr> [client_bytes c] ps = answer e [] ?ws ps"
    using assms(1,2) client_bytes_facts [of c]
    by (auto simp: pipe_request_def on_proxyinfo_def Let_def split: option.splits)
  have after: "pipe_after e pid ps [request 8 0 424, client_bytes c] = snd (snd (answer e [] ?ws ps))"
    unfolding pipe_after_request req ..
  have "length ?ws \<le> pe_writes e"
    using assms(3) by (auto split: option.splits)
  then have tr: "pipe_transact e pid ps [request 8 0 424, client_bytes c] = Inr ?ws"
    unfolding pipe_transact_def after by (simp add: answer_out)
  have "PRCGetProxyInfo (pipe_transact e pid ps) c =
      (case Settings_GetProxyInfo (re_settings (pe_rc e)) c of Some (_, q) \<Rightarrow> Inr (q\<lparr>strTransportPsk := []\<rparr>) | None \<Rightarrow> Inl 0)"
    using tr assms(4) proxy.enc_length [OF proxy_ok_psk] proxy.dec_enc_alone [OF proxy_ok_psk]
    by (auto simp: PRCGetProxyInfo_def split: option.splits)
  then show ?thesis
    unfolding after by simp
qed

lemma pipe_startup:
  assumes "pe_startup e = Some i" "info_ok i" "2 \<le> pe_writes e"
  shows "GetPRCStartupInfo (pipe_transact e pid ps) False False = Inr (i, False, None)"
    "ps_rc (pipe_after e pid ps [request 1 0 0]) = ps_rc ps"
proof -
  let ?ws = "[reply 1 220, info_bytes i]"
  have after: "pipe_after e pid ps [request 1 0 0] = snd (snd (answer e [] ?ws ps))"
    unfolding pipe_after_request using assms(1) by (simp add: pipe_request_def on_startup_def Let_def)
  then have tr: "pipe_transact e pid ps [request 1 0 0] = Inr ?ws"
    using assms(3) by (simp add: pipe_transact_def answer_out)
  show "GetPRCStartupInfo (pipe_transact e pid ps) False False = Inr (i, False, None)"
    using tr info.enc_length [OF assms(2)] info.dec_enc_alone [OF assms(2)] by (simp add: GetPRCStartupInfo_def)
  show "ps_rc (pipe_after e pid ps [request 1 0 0]) = ps_rc ps"
    unfolding after by simp
qed

text \<open>
  C10. Calls over the pipe do what they say. On a lasting connection, a process that asks for the
  route of a client of its own gets the profile that the settings give, but with the key of the
  transport wiped; a process that registers a client of its own leaves the reception centre as
  \<open>RegisterClient\<close> leaves it and sees its decision: success with the record of the route for UDP
  and its own record for TCP, or the error number of the refusal. Asking changes nothing.
\<close>

theorem pipe_calls_faithful:
  assumes "client_ok c" "\<not> foreign pid (dwPid c)" "sType c = SOCK_STREAM \<or> sType c = SOCK_DGRAM" "2 \<le> pe_writes e"
    and "Settings_GetProxyInfo (re_settings (pe_rc e)) c = Some (c0, q)" "proxy_ok q"
    and "RegisterClient (pe_rc e) c (ps_rc ps) = (ok, c', rc')" "sType c' = sType c" "ok \<Longrightarrow> client_ok c'"
  shows "PRCGetProxyInfo (pipe_transact e pid ps) c = Inr (q\<lparr>strTransportPsk := []\<rparr>) \<and>
    ps_rc (pipe_after e pid ps [request 8 0 424, client_bytes c]) = ps_rc ps \<and>
    PRCRegisterClient (pipe_transact e pid ps) c =
      (if \<not> ok then Inl (sint (registration_error rc')) else Inr (if sType c = SOCK_DGRAM then c' else c)) \<and>
    ps_rc (pipe_after e pid ps [request 2 0 424, client_bytes c]) = rc'"
  using pipe_register [OF assms(1-4,7-9)] pipe_proxyinfo [OF assms(1,2,4), of ps] assms(5,6) by simp

section \<open>A process acts for itself only\<close>

text \<open>The entries of other processes.\<close>

definition others :: "dword \<Rightarrow> PRCClient list \<Rightarrow> PRCClient list" where
  "others pid L = filter (\<lambda>d. dwPid d \<noteq> pid) L"

lemma others_replace: "dwPid c = pid \<Longrightarrow> others pid (replace_client c L) = others pid L"
  unfolding others_def by (induction L) (auto simp: same_socket_def)

lemma others_unregister: "dwPid c = pid \<Longrightarrow> others pid (filter (\<lambda>d. \<not> same_socket c d) L) = others pid L"
  unfolding others_def by (induction L) (auto simp: same_socket_def)

definition settings_keep_pid :: "SettingsHandler list \<Rightarrow> bool" where
  "settings_keep_pid hs \<longleftrightarrow> (\<forall>c c' q. Settings_GetProxyInfo hs c = Some (c', q) \<longrightarrow> dwPid c' = dwPid c)"

lemma settings_keep_pid_Page1: "settings_keep_pid [Page1 pr]"
  by (auto simp: settings_keep_pid_def Page1_def Page1_GetProxyInfo_def Let_def split: if_splits)

lemma stored_client_pid: "settings_keep_pid (re_settings e) \<Longrightarrow> dwPid (stored_client e c) = dwPid c"
  by (auto simp: stored_client_def settings_keep_pid_def split: option.splits)

lemma on_register_others:
  assumes "pid \<noteq> 0" "settings_keep_pid (re_settings (pe_rc e))"
  shows "others pid (rc_RegisteredClient (ps_rc (snd (snd (on_register e pid hdr msgs ps))))) =
    others pid (rc_RegisteredClient (ps_rc ps))"
proof (rule with_record_cases [OF on_register_def [symmetric]])
  fix b rest
  assume r: "on_register e pid hdr msgs ps = (let c = bytes_client b in
     if foreign pid (dwPid c) then (False, rest, ps)
     else
       let ps = (if sType c = SOCK_DGRAM \<and> pid \<noteq> 0 then observe pid (PRCClient.processCreateTime c) (c_reserved c) ps else ps);
           (ok, c, rc) = RegisterClient (pe_rc e) c (ps_rc ps);
           ps = ps\<lparr>ps_rc := rc\<rparr> in
       if \<not> ok then answer e rest [reply 0 4, dword_bytes (registration_error rc)] ps
       else if sType c = SOCK_DGRAM then answer e rest [reply 1 424, client_bytes c] ps
       else answer e rest [reply 1 0] ps)"
  let ?c = "bytes_client b"
  show ?thesis
  proof (cases "foreign pid (dwPid ?c)")
    case False
    then have pid: "dwPid ?c = pid"
      using assms(1) by (simp add: foreign_def)
    let ?ps = "if sType ?c = SOCK_DGRAM \<and> pid \<noteq> 0 then observe pid (PRCClient.processCreateTime ?c) (c_reserved ?c) ps else ps"
    have "ps_rc (snd (snd (on_register e pid hdr msgs ps))) = snd (snd (RegisterClient (pe_rc e) ?c (ps_rc ?ps)))"
      unfolding r using False by (simp add: Let_def case_prod_unfold)
    then show ?thesis
      using others_replace [of "stored_client (pe_rc e) ?c" pid] pid stored_client_pid [OF assms(2), of ?c]
      by (simp add: RegisterClient_list)
  qed (simp add: r)
qed (simp_all)

lemma on_unregister_others:
  assumes "pid \<noteq> 0"
  shows "others pid (rc_RegisteredClient (ps_rc (snd (snd (on_unregister e pid hdr msgs ps))))) =
    others pid (rc_RegisteredClient (ps_rc ps))"
proof (rule with_record_cases [OF on_unregister_def [symmetric]])
  fix b rest
  assume r: "on_unregister e pid hdr msgs ps = (let c = bytes_client b in
     if foreign pid (dwPid c) then (False, rest, ps)
     else let (ok, rc) = UnregisterClient c (ps_rc ps); ps = ps\<lparr>ps_rc := rc\<rparr>
       in if ok then answer e rest [reply 1 0] ps else (False, rest, ps))"
  show ?thesis
  proof (cases "foreign pid (dwPid (bytes_client b))")
    case False
    then show ?thesis
      using assms others_unregister [of "bytes_client b" pid]
      by (auto simp: r Let_def case_prod_unfold foreign_def UnregisterClient_def)
  qed (simp add: r)
qed (simp_all)

text \<open>The other requests do not touch the list at all.\<close>

definition list_kept :: "('s, 'q) PipeServer \<Rightarrow> ('s, 'q) pipe_result \<Rightarrow> bool" where
  "list_kept ps r \<longleftrightarrow> rc_RegisteredClient (ps_rc (snd (snd r))) = rc_RegisteredClient (ps_rc ps)"

lemma list_kept_with_record:
  "(\<And>b rest. list_kept ps (k b rest)) \<Longrightarrow> list_kept ps (with_record n hdr msgs ps k)"
  unfolding with_record_def by (auto simp: list_kept_def split: option.splits)

lemma list_kept_simps [simp]:
  "list_kept ps (ok, rest, ps') \<longleftrightarrow> rc_RegisteredClient (ps_rc ps') = rc_RegisteredClient (ps_rc ps)"
  "list_kept ps (answer e rest ws ps') \<longleftrightarrow> rc_RegisteredClient (ps_rc ps') = rc_RegisteredClient (ps_rc ps)"
  by (simp_all add: list_kept_def)

lemma handlers_keep_list:
  "list_kept ps (on_quic e pid hdr msgs ps)" "list_kept ps (on_startup e hdr msgs ps)" "list_kept ps (on_canproxy e pid hdr msgs ps)"
  "list_kept ps (on_settings e msgs ps)" "list_kept ps (on_launch e pid hdr msgs ps)" "list_kept ps (on_should_inject e pid hdr msgs ps)"
  "list_kept ps (on_injection_result hdr msgs ps)" "list_kept ps (on_identity e pid hdr msgs ps)"
  "list_kept ps (on_released e hdr msgs ps)" "list_kept ps (on_portstate e hdr msgs ps)" "list_kept ps (on_proxyinfo e pid hdr msgs ps)"
  "list_kept ps (on_hookresult e pid hdr msgs ps)" "list_kept ps (on_blocked udp pid hdr msgs ps)" "list_kept ps (on_logtext e pid hdr msgs ps)"
  unfolding handler_defs Let_def case_prod_unfold
  by (auto intro!: list_kept_with_record split: option.split prod.split)

lemma pipe_request_others:
  assumes "pid \<noteq> 0" "settings_keep_pid (re_settings (pe_rc e))"
  shows "others pid (rc_RegisteredClient (ps_rc (snd (snd (pipe_request e pid hdr msgs ps))))) =
    others pid (rc_RegisteredClient (ps_rc ps))"
  using on_register_others [OF assms, of hdr msgs ps] on_unregister_others [OF assms(1), of e hdr msgs ps]
    handlers_keep_list [of ps, unfolded list_kept_def]
  by (simp add: pipe_request_def Let_def)

text \<open>
  C11. A process acts for itself only. Whatever messages a process sends over its connection, and
  whatever process ids it puts into them, the registered connections of all other processes
  stay as they are, in the same order.
\<close>

theorem pipe_other_processes_untouched:
  assumes "pid \<noteq> 0" "\<forall>e\<in>set es. settings_keep_pid (re_settings (pe_rc e))"
  shows "filter (\<lambda>d. dwPid d \<noteq> pid) (rc_RegisteredClient (ps_rc (snd (snd (InstanceThread es pid msgs ps))))) =
    filter (\<lambda>d. dwPid d \<noteq> pid) (rc_RegisteredClient (ps_rc ps))"
  using assms(2)
proof (induction es arbitrary: msgs ps)
  case (Cons e es)
  show ?case
  proof (cases "concat msgs = [] \<or> ReadPipe 6 msgs = None")
    case False
    then obtain b rest where read: "ReadPipe 6 msgs = Some (b, rest)"
      by auto
    obtain ok rest' ps' where req: "pipe_request e pid (bytes_head b) rest ps = (ok, rest', ps')"
      by (metis surj_pair)
    have "filter (\<lambda>d. dwPid d \<noteq> pid) (rc_RegisteredClient (ps_rc ps')) = filter (\<lambda>d. dwPid d \<noteq> pid) (rc_RegisteredClient (ps_rc ps))"
      using pipe_request_others [OF assms(1), of e "bytes_head b" rest ps] Cons.prems req by (simp add: others_def)
    then show ?thesis
      using False read req Cons.IH [of rest' ps'] Cons.prems by (cases ok) auto
  qed auto
qed simp

section \<open>Messages that are left\<close>

text \<open>A request takes messages from the front only.\<close>

definition consumes :: "bytes list \<Rightarrow> ('s, 'q) pipe_result \<Rightarrow> bool" where
  "consumes msgs r \<longleftrightarrow> suffix (fst (snd r)) msgs"

lemma consumes_with_record:
  "(\<And>b rest. msgs = b # rest \<Longrightarrow> consumes msgs (k b rest)) \<Longrightarrow> consumes msgs (with_record n hdr msgs ps k)"
  unfolding with_record_def ReadPipe_def by (auto simp: consumes_def split: list.splits)

lemma consumes_simps [simp]:
  "consumes msgs (ok, rest, ps) \<longleftrightarrow> suffix rest msgs" "consumes msgs (answer e rest ws ps) \<longleftrightarrow> suffix rest msgs"
  by (simp_all add: consumes_def)

lemma handlers_consume:
  "consumes msgs (on_quic e pid hdr msgs ps)" "consumes msgs (on_startup e hdr msgs ps)" "consumes msgs (on_register e pid hdr msgs ps)"
  "consumes msgs (on_unregister e pid hdr msgs ps)" "consumes msgs (on_canproxy e pid hdr msgs ps)" "consumes msgs (on_settings e msgs ps)"
  "consumes msgs (on_launch e pid hdr msgs ps)" "consumes msgs (on_should_inject e pid hdr msgs ps)"
  "consumes msgs (on_injection_result hdr msgs ps)" "consumes msgs (on_identity e pid hdr msgs ps)"
  "consumes msgs (on_released e hdr msgs ps)" "consumes msgs (on_portstate e hdr msgs ps)" "consumes msgs (on_proxyinfo e pid hdr msgs ps)"
  "consumes msgs (on_hookresult e pid hdr msgs ps)"
  unfolding handler_defs Let_def case_prod_unfold
  by (auto intro!: consumes_with_record simp: suffix_ConsI split: option.split prod.split)

lemma ReadPipeExactly_suffix: "ReadPipeExactly n msgs = Some (b, rest) \<Longrightarrow> suffix rest msgs"
  by (induction n msgs arbitrary: b rest rule: ReadPipeExactly.induct) (auto simp: suffix_ConsI split: if_splits)

lemma exact_handlers_consume:
  "consumes msgs (on_blocked udp pid hdr msgs ps)" "consumes msgs (on_logtext e pid hdr msgs ps)"
  unfolding on_blocked_def on_logtext_def Let_def
  by (auto dest: ReadPipeExactly_suffix split: option.split)

lemma pipe_request_consumes: "consumes msgs (pipe_request e pid hdr msgs ps)"
  by (simp add: pipe_request_def Let_def handlers_consume exact_handlers_consume)

section \<open>Access for packaged children\<close>

text \<open>The child of the process behind the pipe, as the system and the notice describe it.\<close>

definition true_child :: "('s, 'q) PipeEnv \<Rightarrow> dword \<Rightarrow> HookNewProcessInfo \<Rightarrow> bytes \<Rightarrow> bool" where
  "true_child e pid child sid \<longleftrightarrow> pid \<noteq> 0 \<and> cq_sid (pe_child e) = Inr sid \<and> np_processCreateTime child \<noteq> 0 \<and>
     cq_creation (pe_child e) = np_processCreateTime child \<and>
     cq_basic (pe_child e) = Some (ucast (np_dwProcessId child), ucast pid) \<and> pe_shouldInject e child"

lemma AuthorizeAppContainerChild_granted:
  "AuthorizeAppContainerChild q child pid = (ok, err, Some sid) \<Longrightarrow>
   pid \<noteq> 0 \<and> cq_sid q = Inr sid \<and> np_processCreateTime child \<noteq> 0 \<and> cq_creation q = np_processCreateTime child \<and>
   cq_basic q = Some (ucast (np_dwProcessId child), ucast pid)"
  by (auto simp: AuthorizeAppContainerChild_def split: option.splits sum.splits if_splits)

text \<open>A notice of a created process in the messages: a header that asks for it, then its record.\<close>

definition notice_in :: "bytes list \<Rightarrow> bytes \<Rightarrow> bool" where
  "notice_in msgs b \<longleftrightarrow> (\<exists>h post. suffix (h # b # post) msgs \<and> length h = 6 \<and> hd_action (bytes_head h) = 6 \<and>
     hd_flag (bytes_head h) \<noteq> 1 \<and> length b = 1588)"

lemma notice_in_suffix: "notice_in rest b \<Longrightarrow> suffix rest msgs \<Longrightarrow> notice_in msgs b"
  unfolding notice_in_def by (meson suffix_order.trans)

definition grants :: "(bytes \<Rightarrow> bool) \<Rightarrow> ('s, 'q) PipeServer \<Rightarrow> ('s, 'q) pipe_result \<Rightarrow> bool" where
  "grants P ps r \<longleftrightarrow> (\<exists>gs. ps_granted (snd (snd r)) = ps_granted ps @ gs \<and> (\<forall>sid\<in>set gs. P sid))"

lemma grants_simps [simp]:
  "ps_granted ps' = ps_granted ps \<Longrightarrow> grants P ps (ok, rest, ps')" "ps_granted ps' = ps_granted ps \<Longrightarrow> grants P ps (answer e' rest ws ps')"
  by (simp_all add: grants_def)

lemma grants_with_record:
  "(\<And>b rest. msgs = b # rest \<Longrightarrow> length b = n \<Longrightarrow> grants P ps (k b rest)) \<Longrightarrow> grants P ps (with_record n hdr msgs ps k)"
  unfolding with_record_def ReadPipe_def by (auto split: option.splits list.splits)

lemma on_should_inject_grants:
  "grants (\<lambda>sid. hd_flag hdr \<noteq> 1 \<and> (\<exists>b rest. msgs = b # rest \<and> length b = 1588 \<and> true_child e pid (terminated (bytes_newprocess b)) sid))
     ps (on_should_inject e pid hdr msgs ps)"
  unfolding on_should_inject_def
proof (rule grants_with_record)
  fix b rest
  assume msgs: "msgs = b # rest" "length b = 1588"
  let ?child = "terminated (bytes_newprocess b)"
  let ?P = "\<lambda>sid. hd_flag hdr \<noteq> 1 \<and> (\<exists>b rest. msgs = b # rest \<and> length b = 1588 \<and> true_child e pid (terminated (bytes_newprocess b)) sid)"
  obtain ok err granted where auth: "AuthorizeAppContainerChild (pe_child e) ?child pid = (ok, err, granted)"
    by (metis surj_pair)
  show "grants ?P ps (let recordOnly = (hd_flag hdr = 1); child = terminated (bytes_newprocess b);
         ps = notify (ProcessCreated child (bytes_dword (drop 1056 b)) (bytes_qword (drop 1060 b))
                (take 259 (bytes_warray 260 (drop 1068 b))) recordOnly) ps;
         inject = (recordOnly \<or> pe_shouldInject e child) in
     if \<not> recordOnly \<and> inject
     then let (ok, err, granted) = AuthorizeAppContainerChild (pe_child e) child pid;
              ps = (case granted of Some sid \<Rightarrow> ps\<lparr>ps_granted := ps_granted ps @ [sid]\<rparr> | None \<Rightarrow> ps)
       in if ok then answer e rest [reply 1 0] ps
          else answer e rest [reply 0 0] (notify (AuthorizationFailed (np_dwProcessId child) err) ps)
     else answer e rest [reply (if inject then 1 else 0) 0] ps)"
    using auth AuthorizeAppContainerChild_granted [of "pe_child e" ?child pid ok err] msgs
    by (cases granted) (auto simp: Let_def grants_def true_child_def)
qed

lemma handlers_grant_nothing:
  "grants P ps (on_quic e pid hdr msgs ps)" "grants P ps (on_startup e hdr msgs ps)" "grants P ps (on_canproxy e pid hdr msgs ps)"
  "grants P ps (on_register e pid hdr msgs ps)" "grants P ps (on_unregister e pid hdr msgs ps)"
  "grants P ps (on_settings e msgs ps)" "grants P ps (on_launch e pid hdr msgs ps)"
  "grants P ps (on_injection_result hdr msgs ps)" "grants P ps (on_identity e pid hdr msgs ps)"
  "grants P ps (on_released e hdr msgs ps)" "grants P ps (on_portstate e hdr msgs ps)" "grants P ps (on_proxyinfo e pid hdr msgs ps)"
  "grants P ps (on_hookresult e pid hdr msgs ps)" "grants P ps (on_blocked udp pid hdr msgs ps)" "grants P ps (on_logtext e pid hdr msgs ps)"
  unfolding handler_defs Let_def case_prod_unfold
  by (auto intro!: grants_with_record split: option.split prod.split)

lemma pipe_request_grants:
  assumes "length h = 6"
  shows "grants (\<lambda>sid. \<exists>b. notice_in (h # msgs) b \<and> true_child e pid (terminated (bytes_newprocess b)) sid)
    ps (pipe_request e pid (bytes_head h) msgs ps)"
proof (cases "hd_action (bytes_head h) = 6")
  case True
  then have "pipe_request e pid (bytes_head h) msgs ps = on_should_inject e pid (bytes_head h) msgs ps"
    by (simp add: pipe_request_def)
  then show ?thesis
    using on_should_inject_grants [of "bytes_head h" msgs e pid ps] True assms
    unfolding grants_def notice_in_def by fastforce
next
  case False
  then show ?thesis
    by (simp add: pipe_request_def Let_def handlers_grant_nothing)
qed

text \<open>
  C12. Access to the pipe is granted to true children only. Whatever a process sends, every
  package that gets access during its connection belongs to a notice among these messages: the
  package is that of the process whose id the notice gives, the system names this process as
  a child of exactly the process behind the pipe, created at the time that the notice
  states, and the child is to be injected.
\<close>

theorem package_grants_justified:
  "\<exists>gs. ps_granted (snd (snd (InstanceThread es pid msgs ps))) = ps_granted ps @ gs \<and>
    (\<forall>sid\<in>set gs. \<exists>e\<in>set es. \<exists>b. notice_in msgs b \<and> true_child e pid (terminated (bytes_newprocess b)) sid)"
proof (induction es arbitrary: msgs ps)
  case (Cons e es)
  show ?case
  proof (cases "concat msgs = [] \<or> ReadPipe 6 msgs = None")
    case False
    then obtain b rest where read: "ReadPipe 6 msgs = Some (b, rest)" "msgs = b # rest" "length b = 6"
      by (auto simp: ReadPipe_def split: list.splits if_splits)
    obtain ok rest' ps' where req: "pipe_request e pid (bytes_head b) rest ps = (ok, rest', ps')"
      by (metis surj_pair)
    have left: "suffix rest' msgs"
      using pipe_request_consumes [of rest e pid "bytes_head b" ps] req read(2) by (simp add: suffix_ConsI)
    obtain gs where gs: "ps_granted ps' = ps_granted ps @ gs"
        "\<forall>sid\<in>set gs. \<exists>c. notice_in msgs c \<and> true_child e pid (terminated (bytes_newprocess c)) sid"
      using pipe_request_grants [OF read(3), of rest e pid ps] req read(2) by (auto simp: grants_def)
    obtain gs' where gs': "ps_granted (snd (snd (InstanceThread es pid rest' ps'))) = ps_granted ps' @ gs'"
        "\<forall>sid\<in>set gs'. \<exists>e\<in>set es. \<exists>c. notice_in rest' c \<and> true_child e pid (terminated (bytes_newprocess c)) sid"
      using Cons.IH [of rest' ps'] by blast
    show ?thesis
    proof (cases ok)
      case True
      then have "InstanceThread (e # es) pid msgs ps = InstanceThread es pid rest' ps'"
        using False read(1) req by auto
      then show ?thesis
        using gs gs' notice_in_suffix [OF _ left] by (intro exI [of _ "gs @ gs'"]) fastforce
    next
      case not_ok: False
      then have "InstanceThread (e # es) pid msgs ps = (False, rest', ps')"
        using False read(1) req by auto
      then show ?thesis
        using gs by (intro exI [of _ gs]) auto
    qed
  qed auto
qed simp

section \<open>Names without an end\<close>

lemma takeWhile_all: "0 \<notin> set b \<Longrightarrow> takeWhile (\<lambda>x. x \<noteq> (0 :: byte)) b = b"
  by (simp add: takeWhile_eq_all_conv) (metis)

text \<open>
  A registration is not checked for the end of its name. Unlike the reports of blocked
  destinations, a registration whose name fills its 256 bytes without a NUL is accepted: the
  list then holds a client whose name has no terminator, which the string functions of the
  service read beyond the array.
\<close>

theorem unterminated_name_registered:
  assumes "length b = 424" "0 \<notin> set (take 256 (drop 44 b))" "sType (bytes_client b) = SOCK_STREAM"
    and "\<not> foreign pid (dwPid (bytes_client b))" "re_settings (pe_rc e) = [Page1 pr]"
    and "RegisterClient (pe_rc e) (bytes_client b) (ps_rc ps) = (True, c', rc')"
  shows "\<exists>d\<in>set (rc_RegisteredClient (ps_rc (pipe_after e pid ps [request 2 0 424, b]))).
    length (szDomainName d) = 256 \<and> \<not> PRCClient_wf d"
proof -
  let ?c = "bytes_client b"
  have "szDomainName ?c = map char_of_byte (take 256 (drop 44 b))"
    unfolding bytes_client_def PRCClient.select_convs bytes_array_def bytes_cstr_def takeWhile_all [OF assms(2)] ..
  then have name: "length (szDomainName ?c) = 256"
    using assms(1) by simp
  have "ps_rc (pipe_after e pid ps [request 2 0 424, b]) = rc'"
    unfolding pipe_after_request using assms(1,3,4,6) by (simp add: pipe_request_def on_register_def Let_def)
  moreover have "stored_client (pe_rc e) ?c \<in> set (rc_RegisteredClient rc')"
    using RegisterClient_list [of "pe_rc e" ?c "ps_rc ps"] assms(3,6) replace_client_new [of "stored_client (pe_rc e) ?c"] by simp
  moreover have "szDomainName (stored_client (pe_rc e) ?c) = szDomainName ?c"
    using stored_client_Page1 [OF assms(3,5)] by simp
  ultimately show ?thesis
    using name by (intro bexI [of _ "stored_client (pe_rc e) ?c"]) (auto simp: PRCClient_wf_def)
qed

section \<open>Examples\<close>

definition sample_info :: PRCINFO where
  "sample_info = \<lparr>tcpaddr = example_sa4 0x0100007F 8000, tcpaddr6 = sa_Clear, udpaddr = sa_Clear, childGuardName = [65], childGuardGenerationTime = 3\<rparr>"

definition sample_pipe :: "dword \<Rightarrow> (unit, unit) PipeEnv" where
  "sample_pipe now = \<lparr>pe_rc = sample_env now, pe_startup = Some sample_info, pe_launcher = [], pe_preference = False,
     pe_shouldInject = (\<lambda>_. True),
     pe_child = \<lparr>cq_open = None, cq_sid = Inr [1], cq_creation = 5, cq_basic = Some (8, 7), cq_authorize = None\<rparr>,
     pe_launch = sample_launch_env, pe_exit = False, pe_outcome = None, pe_writes = 5\<rparr>"

definition sample_service :: "(unit, unit) PipeServer" where
  "sample_service = \<lparr>ps_rc = sample_rc, ps_out = [], ps_history = LaunchHistory_new, ps_quic = [], ps_granted = [], ps_events = []\<rparr>"

lemma sample_pipe_sel [simp]:
  "pe_rc (sample_pipe now) = sample_env now" "pe_writes (sample_pipe now) = 5" "ps_rc sample_service = sample_rc"
  "re_settings (sample_env now) = [Page1 sample_page]" "pe_startup (sample_pipe now) = Some sample_info"
  by (simp_all add: sample_pipe_def sample_service_def sample_env_def)

lemma sample_client_sel [simp]:
  "dwPid (sample_client pid host) = pid" "sType (sample_client pid host) = SOCK_STREAM"
  "szDomainName (sample_client pid host) = host"
  by (simp_all add: sample_client_def)

lemma example_sa4_wf [simp]: "sa_wf (example_sa4 ip port)"
  by (simp add: sa_wf_def example_sa4_def)

lemma sample_client_ok: "array_ok 256 host \<Longrightarrow> client_ok ((sample_client pid host)\<lparr>c_reserved := n\<rparr>)"
  by (simp add: client_ok_def sample_client_def PRCClient_zero_def int_ok_def)

lemma sample_client_ok0: "array_ok 256 host \<Longrightarrow> client_ok (sample_client pid host)"
  by (simp add: client_ok_def sample_client_def PRCClient_zero_def int_ok_def)

lemma sample_name_ok: "array_ok 256 ''a.example''"
  by code_simp

lemma sample_page_route: "Settings_GetProxyInfo [Page1 sample_page] (sample_client 7 ''a.example'') = Some (sample_client 7 ''a.example'', example_proxy)"
  by (subst Page1_stream) (simp_all add: sample_page_def page_route_def)

lemma example_proxy_ok: "proxy_ok example_proxy"
  by code_simp

theorem pipe_calls_faithful_witness:
  "PRCGetProxyInfo (pipe_transact (sample_pipe 100) 7 sample_service) (sample_client 7 ''a.example'') = Inr (example_proxy\<lparr>strTransportPsk := []\<rparr>) \<and>
   PRCRegisterClient (pipe_transact (sample_pipe 100) 7 sample_service) (sample_client 7 ''a.example'') = Inr (sample_client 7 ''a.example'')"
proof -
  let ?c = "sample_client 7 ''a.example''"
  have reg: "RegisterClient (pe_rc (sample_pipe 100)) ?c (ps_rc sample_service) =
      (True, ?c\<lparr>c_reserved := 100\<rparr>, sample_rc\<lparr>rc_RegisteredClient := replace_client (?c\<lparr>c_reserved := 100\<rparr>) (rc_RegisteredClient sample_rc)\<rparr>)"
    using sample_registered [of 7 100 "''a.example''" sample_rc] by simp
  have route: "Settings_GetProxyInfo (re_settings (pe_rc (sample_pipe 100))) ?c = Some (?c, example_proxy)"
    using sample_page_route by (simp del: Settings_GetProxyInfo.simps)
  have "\<not> foreign 7 (dwPid ?c)" "sType ?c = SOCK_STREAM \<or> sType ?c = SOCK_DGRAM" "2 \<le> pe_writes (sample_pipe 100)"
    by (simp_all add: foreign_def)
  from pipe_calls_faithful [OF sample_client_ok0 [OF sample_name_ok] this route example_proxy_ok reg _ sample_client_ok [OF sample_name_ok]]
  show ?thesis by simp
qed

theorem pipe_other_processes_untouched_witness:
  "filter (\<lambda>d. dwPid d \<noteq> 7) (rc_RegisteredClient (ps_rc (snd (snd (InstanceThread [sample_pipe 100] 7
     [request 2 0 424, client_bytes (sample_client 9 ''a.example'')] sample_service))))) = []"
  using pipe_other_processes_untouched [of 7 "[sample_pipe 100]" "[request 2 0 424, client_bytes (sample_client 9 ''a.example'')]" sample_service]
    settings_keep_pid_Page1 [of sample_page]
  by (simp add: Reception_new_def del: InstanceThread.simps)

text \<open>The notice of a child with process id 8, created at time 5, of the process 7.\<close>

definition sample_notice :: bytes where
  "sample_notice = newprocess_bytes \<lparr>np_szAppPath = [], np_szCommandLine = [], np_dwProcessId = 8, np_dwThreadId = 9,
     np_processCreateTime = 5\<rparr> @ replicate 532 0"

theorem package_grants_justified_witness:
  "ps_granted (snd (snd (InstanceThread [sample_pipe 100] 7 [request 6 0 1588, sample_notice] sample_service))) = [[1]] \<and>
   (\<exists>b. notice_in [request 6 0 1588, sample_notice] b \<and> true_child (sample_pipe 100) 7 (terminated (bytes_newprocess b)) [1])"
proof -
  let ?child = "\<lparr>np_szAppPath = [], np_szCommandLine = [], np_dwProcessId = 8, np_dwThreadId = 9, np_processCreateTime = 5\<rparr>"
  have child: "bytes_newprocess sample_notice = ?child" "length sample_notice = 1588"
    using newprocess.dec_enc [of ?child] newprocess.enc_length [of ?child]
    by (simp_all add: sample_notice_def newprocess_ok_def warray_ok_def)
  then have granted: "ps_granted (snd (snd (InstanceThread [sample_pipe 100] 7 [request 6 0 1588, sample_notice] sample_service))) = [[1]]"
    by (auto simp: pipe_request_def on_should_inject_def AuthorizeAppContainerChild_def terminated_def sample_pipe_def sample_service_def
        answer_def notify_def Let_def)
  then show ?thesis
    using package_grants_justified [of "[sample_pipe 100]" 7 "[request 6 0 1588, sample_notice]" sample_service]
    by (auto simp: sample_service_def simp del: InstanceThread.simps)
qed

lemma bytes_array_full: "length s = n \<Longrightarrow> cstr_ok s \<Longrightarrow> bytes_array n (array_bytes n s @ xs) = s"
  using bytes_cstr_cstr_bytes [of s] by (simp add: bytes_array_def array_bytes_def)

abbreviation (input) "long_name \<equiv> replicate 256 CHR ''a''"

lemma long_name_facts: "length long_name = 256" "cstr_ok long_name"
  by (simp, code_simp)

lemma long_client: "bytes_client (client_bytes (sample_client 7 long_name)) = sample_client 7 long_name"
    "length (client_bytes (sample_client 7 long_name)) = 424"
    "take 256 (drop 44 (client_bytes (sample_client 7 long_name))) = cstr_bytes long_name"
  using long_name_facts
    apply (simp add: client_bytes_def bytes_client_def sample_client_def PRCClient_zero_def bytes_array_full int_ok_def)
   apply (simp add: client_bytes_def sample_client_def PRCClient_zero_def)
  apply (simp add: client_bytes_def sample_client_def PRCClient_zero_def array_bytes_def)
  done

theorem unterminated_name_registered_witness:
  "\<exists>d\<in>set (rc_RegisteredClient (ps_rc (pipe_after (sample_pipe 100) 7 sample_service [request 2 0 424, client_bytes (sample_client 7 long_name)]))).
    length (szDomainName d) = 256"
proof -
  let ?b = "client_bytes (sample_client 7 long_name)" and ?c = "sample_client 7 long_name"
  have reg: "RegisterClient (pe_rc (sample_pipe 100)) (bytes_client ?b) (ps_rc sample_service) =
      (True, ?c\<lparr>c_reserved := 100\<rparr>, sample_rc\<lparr>rc_RegisteredClient := replace_client (?c\<lparr>c_reserved := 100\<rparr>) (rc_RegisteredClient sample_rc)\<rparr>)"
    unfolding long_client(1) using sample_registered [of 7 100 long_name sample_rc] by simp
  have "0 \<notin> set (take 256 (drop 44 ?b))"
    unfolding long_client(3) using long_name_facts(2) by (auto simp: cstr_ok_def cstr_bytes_def list_all_iff)
  from unterminated_name_registered [OF long_client(2) this _ _ _ reg, where pr = sample_page] show ?thesis
    unfolding long_client(1) by (auto simp: foreign_def)
qed

end
