(* ===== verification/EndToEnd.thy ===== *)
theory EndToEnd
  imports HookFlow PipeRuns
begin

text \<open>
  The parts together: a hooked process resolves a name and connects; the hook asks the service
  over the pipe; the redirected connection arrives at the service's listener and becomes a task.
\<close>

text \<open>
  A hook whose calls go over the pipe to the service in the given state. A record with fields
  that do not fit their arrays cannot be stored in memory, so it cannot be sent.
\<close>

definition hook_on_pipe :: "HookEnv \<Rightarrow> ('s, 'q) PipeEnv \<Rightarrow> dword \<Rightarrow> ('s, 'q) PipeServer \<Rightarrow> HookEnv" where
  "hook_on_pipe e pe pid ps = e\<lparr>
     he_startupInfo := map_sum id (\<lambda>(i, _). (tcpaddr i, tcpaddr6 i)) (GetPRCStartupInfo (pipe_transact pe pid ps) False False),
     he_ProxyInfo := (\<lambda>c. if client_ok c then PRCGetProxyInfo (pipe_transact pe pid ps) c else Inl 0),
     he_Register := (\<lambda>c. if client_ok c then PRCRegisterClient (pipe_transact pe pid ps) c else Inl 0)\<rparr>"

lemma hook_on_pipe_sel [simp]:
  "he_sockType (hook_on_pipe e pe pid ps) = he_sockType e"
  "he_Register (hook_on_pipe e pe pid ps) c = (if client_ok c then PRCRegisterClient (pipe_transact pe pid ps) c else Inl 0)"
  by (simp_all add: hook_on_pipe_def)

text \<open>What a successful registration of a stream over the pipe means for the service.\<close>

lemma registered_over_pipe:
  assumes "he_Register (hook_on_pipe e pe pid ps) c = Inr c1" "sType c = SOCK_STREAM" "dwPid c = pid"
    and "re_settings (pe_rc pe) = [Page1 pr0]" "2 \<le> pe_writes pe"
  shows "\<exists>rc1. RegisterClient (pe_rc pe) c (ps_rc ps) = (True, c\<lparr>c_reserved := re_tick (pe_rc pe)\<rparr>, rc1) \<and>
    ps_rc (pipe_after pe pid ps [request 2 0 424, client_bytes c]) = rc1 \<and> c1 = c"
proof -
  have ok: "client_ok c" and reg: "PRCRegisterClient (pipe_transact pe pid ps) c = Inr c1"
    using assms(1) by (auto split: if_splits)
  obtain okr c' rc1 where r: "RegisterClient (pe_rc pe) c (ps_rc ps) = (okr, c', rc1)"
    by (metis surj_pair)
  have stored: "okr \<Longrightarrow> c' = c\<lparr>c_reserved := re_tick (pe_rc pe)\<rparr>"
  proof -
    assume "okr"
    then have "RegisterTCPClient (pe_rc pe) c (ps_rc ps) = (True, c', rc1)"
      using r assms(2) by (auto simp: RegisterClient_def split: if_splits)
    then show ?thesis
      using stored_client_Page1 [OF assms(2,4)] by (cases rule: RegisterTCPClient_cases [of "pe_rc pe" c "ps_rc ps"]) auto
  qed
  have ty: "sType c' = sType c"
  proof (cases "okr")
    case False
    have "sType c' = SOCK_STREAM"
      using r False assms(2,4) Page1_stream [OF assms(2), of pr0]
      by (auto simp: RegisterClient_def RegisterTCPClient_def Let_def simp del: Settings_GetProxyInfo.simps split: if_splits)
    then show ?thesis using assms(2) by simp
  qed (simp add: stored)
  have ok': "okr \<Longrightarrow> client_ok c'"
    using ok stored by (simp add: client_ok_def)
  have "\<not> foreign pid (dwPid c)"
    using assms(3) by (simp add: foreign_def)
  from pipe_register [OF ok this disjI1 [OF assms(2)] assms(5) r ty ok'] reg
  show ?thesis
    using r stored assms(2) by (cases "okr") auto
qed

text \<open>
  C9. A hooked connection reaches the task with its name. A process resolves a host name of at most
  255 characters with the hooked \<open>getaddrinfo\<close>; with fewer than 65530 operations on the table of made-up
  addresses before and after, it then connects a TCP socket to one of the addresses it
  got, with any port, while TCP is hooked and the two writes to the pipe succeed, and the hook
  lets the call go on. Then the service has registered this
  connection for this process, the hook remembers it, and when a connection from the registered local endpoint arrives
  at the listener - after any other inputs that do not remove, replace or take this entry, add no
  entry with the same endpoint, and with timers only within 60 seconds, when no older entry has that endpoint,
  the settings page answers and the name is not refused as LLMNR - the task manager is asked for a task to
  this name, up to case, and this port, over the route that the target filter gives.
\<close>

theorem hooked_connection_reaches_task:
  assumes "hk_DummyDNS h0 = dns_run before DummyDNS_new"
    and "inhook_getaddrinfo e0 ln can (Some host) hints localhost h0 = (Addresses as, h1)"
    and "hk_DummyDNS h2 = dns_run after (hk_DummyDNS h1)" "length before + length after < 65530"
    and "host \<noteq> []" "length host \<le> 255" "x \<in> set as" "sa_family x = AF_INET \<or> sa_family x = AF_INET6"
    and "he_sockType e = Inr 1" "bHookTCP (hk_psi h2)" "re_settings (pe_rc pe) = [Page1 pr0]" "2 \<le> pe_writes pe"
    and "inhook_connect (hook_on_pipe e pe (hk_processId h2) ps) s (Some (sa_SetPort p x)) (sa_Size x) h2 = (Original r n, h3)"
  shows "\<exists>c rc1. RegisterClient (pe_rc pe) c (ps_rc ps) = (True, c\<lparr>c_reserved := re_tick (pe_rc pe)\<rparr>, rc1) \<and>
    ps_rc (pipe_after pe (hk_processId h2) ps [request 2 0 424, client_bytes c]) = rc1 \<and> dwPid c = hk_processId h2 \<and> c_s c = s \<and>
    hk_registered h3 = hk_registered h2 @ [c] \<and>
    (\<forall>is e2 pr sa sk. matches_peer sa c \<longrightarrow> list_all (\<lambda>d. \<not> matches_peer sa d) (rc_RegisteredClient (ps_rc ps)) \<longrightarrow>
      list_all (registration_kept sa (c\<lparr>c_reserved := re_tick (pe_rc pe)\<rparr>)) is \<longrightarrow>
      re_settings e2 = [Page1 pr] \<longrightarrow> pr_runtimeSettingsValid pr \<longrightarrow>
      \<not> (bDisableLLMNR (pr_runtimeSettings pr) \<and> isLLMNR (szDomainName c)) \<longrightarrow>
      (\<exists>d rc3. Server_OnAccept e2 (Some (sk, Some sa)) (rc_run is rc1) = accept_task e2 sk d (page_route pr c) rc3 \<and>
        stricmp_eq host (szDomainName d) \<and> sa_GetPort (dstAddr d) = p \<and> sAccept d = sk))"
proof -
  let ?e = "hook_on_pipe e pe (hk_processId h2) ps"
  have "he_sockType ?e = Inr 1" "intercepts (hk_psi h2) 1"
    using assms(9,10) by (simp_all add: intercepts_def)
  from resolved_name_reaches_service [OF assms(1-8) this assms(13)] obtain c c1 where
    c: "stricmp_eq host (szDomainName c)" "sa_GetPort (dstAddr c) = p" "sType c = SOCK_STREAM" "c_s c = s"
      "dwPid c = hk_processId h2" "he_Register ?e c = Inr c1" "hk_registered h3 = hk_registered h2 @ [c1]"
    by blast
  from registered_over_pipe [OF c(6,3,5) assms(11,12)] obtain rc1 where
    reg: "RegisterClient (pe_rc pe) c (ps_rc ps) = (True, c\<lparr>c_reserved := re_tick (pe_rc pe)\<rparr>, rc1)"
      "ps_rc (pipe_after pe (hk_processId h2) ps [request 2 0 424, client_bytes c]) = rc1" "c1 = c"
    by blast
  have "\<exists>d rc3. Server_OnAccept e2 (Some (sk, Some sa)) (rc_run is rc1) = accept_task e2 sk d (page_route pr c) rc3 \<and>
        stricmp_eq host (szDomainName d) \<and> sa_GetPort (dstAddr d) = p \<and> sAccept d = sk"
    if "matches_peer sa c" "list_all (\<lambda>d. \<not> matches_peer sa d) (rc_RegisteredClient (ps_rc ps))"
      "list_all (registration_kept sa (c\<lparr>c_reserved := re_tick (pe_rc pe)\<rparr>)) is"
      "re_settings e2 = [Page1 pr]" "pr_runtimeSettingsValid pr"
      "\<not> (bDisableLLMNR (pr_runtimeSettings pr) \<and> isLLMNR (szDomainName c))" for "is" e2 pr sa sk
    using registered_connection_reaches_task [OF reg(1) c(3) assms(11) that, of sk] c(1,2) unfolding Let_def by metis
  then show ?thesis
    using reg c(4,5,7) by blast
qed

section \<open>A run of the whole chain\<close>

text \<open>A stream whose questions are all answered is redirected, and what is remembered is what was registered.\<close>

lemma connect_redirected:
  assumes "NormalizeSocketAddress name len = Some a" "\<not> (bBlockIPv6 (hk_psi h) \<and> Ipv6_ShouldBlock a)"
    and "hk_sockname h s = Inr nm" "socket_endpoint (sa_family a) nm = Some src"
    and "he_sockType e = Inr 1" "bHookTCP (hk_psi h)" "\<not> (sa_IsLoopback a \<and> \<not> IsDummy a)"
    and "new_client e 1 s src a h = (c, h1)" "he_connect e = None" "he_startupInfo e = Inr prcinfo"
    and "he_ProxyInfo e c = Inr q" "CanHackIt (he_inet_addr e) (hk_psi h) c (Some q) = HOOK_REDIRECTED"
    and "he_Register e c = Inr c" "\<not> sa_IsIPv6 (dstAddr c)"
    and "MakeSocketAddress name (local_address e (sa_family (dstAddr c)) (fst prcinfo)) = Some (r, n)"
  shows "\<exists>h'. inhook_connect e s name len h = (Original (Some r) n, h') \<and> hk_registered h' = hk_registered h @ [c]"
proof -
  obtain h2 where h2: "EnsureRequestPipe e h1 = (True, h2)" "hk_psi h2 = hk_psi h" "hk_registered h2 = hk_registered h"
    using assms(9) new_client_frame [OF assms(8)] by (cases "hk_pipe h1") (auto simp: EnsureRequestPipe_def hook_frame_def)
  have "bound_endpoint e False s (sa_family a) h = (Some src, h)"
    using assms(3,4) by (simp add: bound_endpoint_def)
  then have "\<exists>h'. HackConnect e s a h = ((HOOK_REDIRECTED, local_address e (sa_family (dstAddr c)) (fst prcinfo)), h') \<and>
      hk_registered h' = hk_registered h @ [c]"
    using assms(5-8,10-14) h2 by (simp add: HackConnect_def ask_service_def redirect_connect_def register_def Let_def)
  moreover have "EnsureSocketBound e s name h = (True, h)"
    using assms(3) by (simp add: EnsureSocketBound_def)
  ultimately show ?thesis
    using assms(1,2,5,15) by (auto simp: inhook_connect_def redirected_call_def)
qed

definition sample_stream_env :: HookEnv where
  "sample_stream_env = (sample_hook_env 1)\<lparr>he_threadId := 0\<rparr>"

abbreviation (input) "sample_over_pipe \<equiv> hook_on_pipe sample_stream_env (sample_pipe 100) 7 sample_service"

lemma sample_stream_client:
  "fst (new_client sample_stream_env 1 9 (example_sa4 0x0100007F 5000) (example_sa4 0x0100FF7F 443) (snd sample_resolve)) =
   sample_client 7 ''a.example''"
  by code_simp

lemma sample_resolved_state:
  "hk_processId (snd sample_resolve) = 7" "hk_sockname (snd sample_resolve) 9 = Inr (example_sa4 0x0100007F 5000)"
  "hk_registered (snd sample_resolve) = []"
  by code_simp+

lemma sample_stream_checks:
  "socket_endpoint AF_INET (example_sa4 0x0100007F 5000) = Some (example_sa4 0x0100007F 5000)"
  "CanHackIt (\<lambda>_. 0x0100000A) example_settings (sample_client 7 ''a.example'') (Some (example_proxy\<lparr>strTransportPsk := []\<rparr>)) = HOOK_REDIRECTED"
  "NormalizeSocketAddress (Some (sa_SetPort 443 (example_sa4 0x0100FF7F 0))) 16 = Some (example_sa4 0x0100FF7F 443)"
  "IsDummy (example_sa4 0x0100FF7F 443)" "\<not> sa_IsIPv6 (dstAddr (sample_client 7 ''a.example''))"
  "sa_GetPort (dstAddr (sample_client 7 ''a.example'')) = 443"
  "matches_peer (example_sa4 0x0100007F 5000) (sample_client 7 ''a.example'')"
  by code_simp+

lemma sample_service_answers:
  "he_startupInfo sample_over_pipe = Inr (example_sa4 0x0100007F 8000, sa_Clear)"
  "he_ProxyInfo sample_over_pipe (sample_client 7 ''a.example'') = Inr (example_proxy\<lparr>strTransportPsk := []\<rparr>)"
  "he_Register sample_over_pipe (sample_client 7 ''a.example'') = Inr (sample_client 7 ''a.example'')"
proof -
  let ?c = "sample_client 7 ''a.example''"
  note ok = sample_client_ok0 [OF sample_name_ok, of 7]
  have mine: "\<not> foreign 7 (dwPid ?c)" "sType ?c = SOCK_STREAM \<or> sType ?c = SOCK_DGRAM" "2 \<le> pe_writes (sample_pipe 100)"
    by (simp_all add: foreign_def)
  have "info_ok sample_info"
    by code_simp
  from pipe_startup(1) [OF _ this mine(3)] show "he_startupInfo sample_over_pipe = Inr (example_sa4 0x0100007F 8000, sa_Clear)"
    by (simp add: hook_on_pipe_def sample_info_def)
  have route: "Settings_GetProxyInfo (re_settings (pe_rc (sample_pipe 100))) ?c = Some (?c, example_proxy)"
    using sample_page_route by (simp del: Settings_GetProxyInfo.simps)
  from pipe_proxyinfo [OF ok mine(1,3), of sample_service] show
      "he_ProxyInfo sample_over_pipe ?c = Inr (example_proxy\<lparr>strTransportPsk := []\<rparr>)"
    using ok route example_proxy_ok by (simp add: hook_on_pipe_def del: Settings_GetProxyInfo.simps)
  have reg: "RegisterClient (pe_rc (sample_pipe 100)) ?c (ps_rc sample_service) =
      (True, ?c\<lparr>c_reserved := 100\<rparr>, sample_rc\<lparr>rc_RegisteredClient := replace_client (?c\<lparr>c_reserved := 100\<rparr>) (rc_RegisteredClient sample_rc)\<rparr>)"
    using sample_registered [of 7 100 "''a.example''" sample_rc] by simp
  from pipe_register [OF ok mine reg _ sample_client_ok [OF sample_name_ok]] show "he_Register sample_over_pipe ?c = Inr ?c"
    using ok by simp
qed

lemma sample_over_pipe_sel [simp]:
  "he_sockType sample_stream_env = Inr 1" "he_connect sample_over_pipe = None" "he_inet_addr sample_over_pipe = (\<lambda>_. 0x0100000A)"
  "new_client sample_over_pipe ty s src a h = new_client sample_stream_env ty s src a h"
  by (simp_all add: hook_on_pipe_def sample_stream_env_def sample_hook_env_def new_client_def)

lemma sample_stream_connects:
  "\<exists>h'. inhook_connect sample_over_pipe 9 (Some (sa_SetPort 443 (example_sa4 0x0100FF7F 0))) 16 (snd sample_resolve) =
     (Original (Some (example_sa4 0x0100007F 8000)) 16, h') \<and> hk_registered h' = [sample_client 7 ''a.example'']"
proof -
  let ?nc = "new_client sample_over_pipe 1 9 (example_sa4 0x0100007F 5000) (example_sa4 0x0100FF7F 443) (snd sample_resolve)"
  have c: "?nc = (sample_client 7 ''a.example'', snd ?nc)"
    using sample_stream_client by (simp add: prod_eq_iff)
  have psi: "\<not> (bBlockIPv6 (hk_psi (snd sample_resolve)) \<and> Ipv6_ShouldBlock (example_sa4 0x0100FF7F 443))"
    "bHookTCP (hk_psi (snd sample_resolve))" "hk_psi (snd sample_resolve) = example_settings"
    by (simp_all add: sample_resolved_psi example_settings_def)
  have fam: "socket_endpoint (sa_family (example_sa4 0x0100FF7F 443)) (example_sa4 0x0100007F 5000) = Some (example_sa4 0x0100007F 5000)"
    using sample_stream_checks(1) by (simp add: example_sa4_def)
  have "local_address sample_over_pipe f (example_sa4 0x0100007F 8000) = example_sa4 0x0100007F 8000" for f
    by (simp add: local_address_def sa_IsAny_def example_sa4_def sa_IsIPv4_def sa_IsIPv6_def)
  moreover have "MakeSocketAddress (Some (sa_SetPort 443 (example_sa4 0x0100FF7F 0))) (example_sa4 0x0100007F 8000) =
      Some (example_sa4 0x0100007F 8000, 16)"
    by code_simp
  ultimately show ?thesis
    using connect_redirected [OF sample_stream_checks(3) psi(1) sample_resolved_state(2) fam _ psi(2) _ c _ sample_service_answers(1,2) _
        sample_service_answers(3) sample_stream_checks(5)] sample_stream_checks(2,4) psi(3) sample_resolved_state(3)
    by simp
qed

text \<open>The sample resolved name is connected to over the pipe and arrives, with its name, at a task.\<close>

theorem hooked_connection_reaches_task_witness:
  "\<exists>d rc1 rc3. Server_OnAccept (sample_env 200) (Some (5, Some (example_sa4 0x0100007F 5000))) rc1 =
     accept_task (sample_env 200) 5 d (page_route sample_page (sample_client 7 ''a.example'')) rc3 \<and>
   stricmp_eq ''a.example'' (szDomainName d) \<and> sa_GetPort (dstAddr d) = 443"
proof -
  let ?x = "example_sa4 0x0100FF7F 0" and ?c = "sample_client 7 ''a.example''"
  have new: "hk_DummyDNS sample_hook = dns_run [] DummyDNS_new"
    "hk_DummyDNS (snd sample_resolve) = dns_run [] (hk_DummyDNS (snd sample_resolve))"
    by (simp_all add: sample_hook_def dns_run_def)
  have res: "inhook_getaddrinfo (sample_hook_env 1) ''pc'' (Some True) (Some ''a.example'') None
      (\<lambda>_. Inr [example_sa4 0x0100007F 0]) sample_hook = (Addresses [?x], snd sample_resolve)"
    using sample_resolved unfolding sample_resolve_def by (simp add: prod_eq_iff)
  obtain h3 where h3: "inhook_connect (hook_on_pipe sample_stream_env (sample_pipe 100) (hk_processId (snd sample_resolve)) sample_service)
      9 (Some (sa_SetPort 443 ?x)) (sa_Size ?x) (snd sample_resolve) = (Original (Some (example_sa4 0x0100007F 8000)) 16, h3)"
    "hk_registered h3 = [?c]"
    using sample_stream_connects sample_resolved_state(1) by (auto simp: sa_Size_def example_sa4_def)
  have side: "length ([] :: dns_op list) + length ([] :: dns_op list) < 65530" "''a.example'' \<noteq> []" "length ''a.example'' \<le> 255"
    "?x \<in> set [?x]" "sa_family ?x = AF_INET \<or> sa_family ?x = AF_INET6" "he_sockType sample_stream_env = Inr 1"
    "bHookTCP (hk_psi (snd sample_resolve))" "re_settings (pe_rc (sample_pipe 100)) = [Page1 sample_page]" "2 \<le> pe_writes (sample_pipe 100)"
    by (simp_all add: example_sa4_def sample_resolved_psi example_settings_def)
  have "\<not> isLLMNR ''a.example''"
    by code_simp
  then have here: "\<not> (bDisableLLMNR (pr_runtimeSettings sample_page) \<and> isLLMNR (szDomainName ?c))" "pr_runtimeSettingsValid sample_page"
    "rc_RegisteredClient (ps_rc sample_service) = []"
    by (simp_all add: sample_page_def example_settings_def sample_service_def Reception_new_def)
  from hooked_connection_reaches_task [OF new(1) res new(2) side h3(1)] show ?thesis
  proof (elim exE conjE)
    fix c and rc1 :: "(unit, unit) Reception"
    assume c: "hk_registered h3 = hk_registered (snd sample_resolve) @ [c]"
    have [simp]: "c = ?c"
      using c h3(2) sample_resolved_state(3) by simp
    assume "\<forall>is e2 pr sa sk. matches_peer sa c \<longrightarrow> list_all (\<lambda>d. \<not> matches_peer sa d) (rc_RegisteredClient (ps_rc sample_service)) \<longrightarrow>
      list_all (registration_kept sa (c\<lparr>c_reserved := re_tick (pe_rc (sample_pipe 100))\<rparr>)) is \<longrightarrow>
      re_settings e2 = [Page1 pr] \<longrightarrow> pr_runtimeSettingsValid pr \<longrightarrow>
      \<not> (bDisableLLMNR (pr_runtimeSettings pr) \<and> isLLMNR (szDomainName c)) \<longrightarrow>
      (\<exists>d rc3. Server_OnAccept e2 (Some (sk, Some sa)) (rc_run is rc1) = accept_task e2 sk d (page_route pr c) rc3 \<and>
        stricmp_eq ''a.example'' (szDomainName d) \<and> sa_GetPort (dstAddr d) = 443 \<and> sAccept d = sk)"
    from this [rule_format, of "example_sa4 0x0100007F 5000" "[]" "sample_env 200" sample_page 5] show ?thesis
      using here sample_stream_checks(7) by auto
  qed
qed

end
