(* ===== verification/ExLayer.thy ===== *)
theory ExLayer
  imports ProxyLayer
begin

text \<open>
  The base class of the socket layers, \<open>CAsyncSocketExLayer\<close>
  (\<open>asynsocket/AsyncSocketExLayer.cpp\<close>): the state of a layer, the error that ends it, the
  messages it posts to the helper window and the calls to the next layer. A subclass extends
  the record. The layer below is the socket; what its calls answer is a script, an exhausted
  script blocks. \<open>PostMessage\<close> answers from \<open>xl_posts\<close>, an exhausted list is success. A message is
  kept with its event, its error and whether it is for the previous layer or for the layer
  itself; \<open>xl_posted\<close> are the messages in the queue of the window. For the statements, \<open>xl_tried\<close> has
  those that could not be posted too, and \<open>xl_lost\<close> says that there was one.
\<close>

abbreviation (input) "WSAESHUTDOWN \<equiv> (10058 :: int)"

record ExLayer =
  xl_state :: layer_state
  xl_critical :: int
  xl_socket :: bool \<comment> \<open>the owner has a socket handle\<close>
  xl_posts :: "bool list"
  xl_posted :: "(fd \<times> int \<times> bool) list"
  xl_tried :: "(fd \<times> int \<times> bool) list"
  xl_lost :: bool
  xl_changes :: "(layer_state \<times> layer_state) list" \<comment> \<open>state callbacks: new and old\<close>
  xl_sendScript :: "send_result list"
  xl_recvScript :: "recv_result list"
  xl_shutdownOk :: bool
  xl_sent :: bytes
  xl_received :: bytes
  xl_shutdowns :: "(int \<times> bytes) list" \<comment> \<open>how, and the bytes sent before\<close>
  xl_lastError :: int

definition Xl_SetLastError :: "int \<Rightarrow> 'z ExLayer_scheme \<Rightarrow> 'z ExLayer_scheme" where
  "Xl_SetLastError e l = l\<lparr>xl_lastError := e\<rparr>"

definition Xl_SetLayerState :: "layer_state \<Rightarrow> 'z ExLayer_scheme \<Rightarrow> 'z ExLayer_scheme" where
  "Xl_SetLayerState st l =
     (if xl_state l = st then l else l\<lparr>xl_state := st, xl_changes := xl_changes l @ [(st, xl_state l)]\<rparr>)"

definition Xl_PostMessage :: "fd \<Rightarrow> int \<Rightarrow> bool \<Rightarrow> 'z ExLayer_scheme \<Rightarrow> bool \<times> 'z ExLayer_scheme" where
  "Xl_PostMessage ev err pass l =
     (case xl_posts l of
        False # ps \<Rightarrow> (False, l\<lparr>xl_posts := ps, xl_tried := xl_tried l @ [(ev, err, pass)], xl_lost := True\<rparr>)
      | ps \<Rightarrow> (True, l\<lparr>xl_posts := tl ps, xl_posted := xl_posted l @ [(ev, err, pass)], xl_tried := xl_tried l @ [(ev, err, pass)]\<rparr>))"

definition Xl_TriggerEvent :: "fd \<Rightarrow> int \<Rightarrow> bool \<Rightarrow> 'z ExLayer_scheme \<Rightarrow> bool \<times> 'z ExLayer_scheme" where
  "Xl_TriggerEvent ev err pass l =
     (if \<not> xl_socket l then (False, l)
      else Xl_PostMessage ev err pass
        (if ev = FD_CONNECT \<and> err \<noteq> 0 \<or> ev = FD_CLOSE \<and> err \<noteq> 0 then (Xl_SetLayerState aborted l)\<lparr>xl_critical := err\<rparr>
         else if ev = FD_CLOSE then Xl_SetLayerState closed l
         else l))"

text \<open>A message for the layer: whether its handler is called, and the layer when it is.\<close>

definition Xl_CallEvent :: "fd \<Rightarrow> int \<Rightarrow> 'z ExLayer_scheme \<Rightarrow> bool \<times> 'z ExLayer_scheme" where
  "Xl_CallEvent ev err l =
     (if xl_critical l \<noteq> 0 then (False, l)
      else
        let l = l\<lparr>xl_critical := err\<rparr> in
        case ev of
          FD_READ \<Rightarrow> if xl_state l = connected then (True, if err \<noteq> 0 then Xl_SetLayerState aborted l else l) else (False, l)
        | FD_WRITE \<Rightarrow> if xl_state l = connected then (True, if err \<noteq> 0 then Xl_SetLayerState aborted l else l) else (False, l)
        | FD_CONNECT \<Rightarrow> if xl_state l = connecting then (True, Xl_SetLayerState (if err = 0 then connected else aborted) l) else (False, l)
        | FD_ACCEPT \<Rightarrow> if xl_state l = listening then (True, Xl_SetLayerState (if err = 0 then connected else aborted) l) else (False, l)
        | FD_CLOSE \<Rightarrow> if xl_state l = connected then (True, Xl_SetLayerState (if err = 0 then closed else aborted) l) else (False, l))"

text \<open>The checks before a stream call of the next layer.\<close>

definition next_error :: "'z ExLayer_scheme \<Rightarrow> int option" where
  "next_error l =
     (if xl_critical l \<noteq> 0 then Some (xl_critical l)
      else if xl_state l = notsock then Some WSAENOTSOCK
      else if xl_state l = unconnected \<or> xl_state l = connecting \<or> xl_state l = listening then Some WSAENOTCONN
      else None)"

definition Xl_SendNext :: "bytes \<Rightarrow> 'z ExLayer_scheme \<Rightarrow> nat option \<times> 'z ExLayer_scheme" where
  "Xl_SendNext data l =
     (case next_error l of
        Some e \<Rightarrow> (None, Xl_SetLastError e l)
      | None \<Rightarrow>
        (case xl_sendScript l of
           [] \<Rightarrow> (None, Xl_SetLastError WSAEWOULDBLOCK l)
         | SendError e # rs \<Rightarrow> (None, Xl_SetLastError e (l\<lparr>xl_sendScript := rs\<rparr>))
         | SendCount n # rs \<Rightarrow>
             (Some (min n (length data)), l\<lparr>xl_sendScript := rs, xl_sent := xl_sent l @ take n data\<rparr>)))"

text \<open>The socket itself; a segment longer than the buffer stays for the next call.\<close>

definition raw_recv :: "nat \<Rightarrow> 'z ExLayer_scheme \<Rightarrow> bytes option \<times> 'z ExLayer_scheme" where
  "raw_recv n l =
     (case xl_recvScript l of
        [] \<Rightarrow> (None, Xl_SetLastError WSAEWOULDBLOCK l)
      | RecvError e # rs \<Rightarrow> (None, Xl_SetLastError e (l\<lparr>xl_recvScript := rs\<rparr>))
      | RecvData d # rs \<Rightarrow>
          (Some (take n d),
           l\<lparr>xl_recvScript := (if n < length d then RecvData (drop n d) # rs else rs),
             xl_received := xl_received l @ take n d\<rparr>))"

definition Xl_ReceiveNext :: "nat \<Rightarrow> 'z ExLayer_scheme \<Rightarrow> bytes option \<times> 'z ExLayer_scheme" where
  "Xl_ReceiveNext n l = (case next_error l of Some e \<Rightarrow> (None, Xl_SetLastError e l) | None \<Rightarrow> raw_recv n l)"

text \<open>\<open>shutdown\<close> returns 0 for success, and this value is passed on as a \<open>BOOL\<close>.\<close>

definition Xl_ShutDownNext :: "int \<Rightarrow> 'z ExLayer_scheme \<Rightarrow> bool \<times> 'z ExLayer_scheme" where
  "Xl_ShutDownNext how l =
     (case next_error l of
        Some e \<Rightarrow> (False, Xl_SetLastError e l)
      | None \<Rightarrow> (\<not> xl_shutdownOk l, if xl_shutdownOk l then l\<lparr>xl_shutdowns := xl_shutdowns l @ [(how, xl_sent l)]\<rparr> else l))"

definition Xl_CloseNext :: "'z ExLayer_scheme \<Rightarrow> 'z ExLayer_scheme" where
  "Xl_CloseNext l = Xl_SetLayerState notsock l"

text \<open>What a call changed of the state after the next layer connected, was created or listens.\<close>

definition Xl_ConnectNext :: "bool \<Rightarrow> int \<Rightarrow> 'z ExLayer_scheme \<Rightarrow> bool \<times> 'z ExLayer_scheme" where
  "Xl_ConnectNext res err l =
     (res, let l = (if res then l else Xl_SetLastError err l)
           in if res \<or> err = WSAEWOULDBLOCK then Xl_SetLayerState connecting l else l)"

definition Xl_CreateNext :: "bool \<Rightarrow> int \<Rightarrow> 'z ExLayer_scheme \<Rightarrow> bool \<times> 'z ExLayer_scheme" where
  "Xl_CreateNext res ty l =
     (res, if res \<and> xl_state l = notsock then Xl_SetLayerState (if ty = 1 then unconnected else connected) l else l)"

text \<open>The result of \<open>listen\<close>, 0 for success, is taken as a \<open>BOOL\<close> too.\<close>

definition Xl_ListenNext :: "int \<Rightarrow> 'z ExLayer_scheme \<Rightarrow> bool \<times> 'z ExLayer_scheme" where
  "Xl_ListenNext res l = (res \<noteq> 0, if res \<noteq> 0 then Xl_SetLayerState listening l else l)"

end
