(* ===== verification/SecureLayer.thy ===== *)
theory SecureLayer
  imports ExLayer
begin

text \<open>
  The TLS-PSK layer between the proxy layer and the socket: \<open>CAsyncSecureSocketLayer\<close>
  (\<open>asynsocket/AsyncSecureSocketLayer.cpp\<close>). The record extends the base layer by the members of
  the class. The TLS session lives in a module of its own that is loaded at run time; its
  functions are the fields of \<open>SecureEnv\<close>, and the session is a value they take and return. A call
  of a function of the module without a session is a call through a null pointer:
  \<open>sl_fault\<close> records it. Four further fields record what crossed the session: the bytes it gave
  for the wire, the plaintext it gave, the bytes it was fed, and the plaintext handed to the
  layer above. Trace output is left out.
\<close>

abbreviation (input) "PLST_OK \<equiv> (0 :: int)"
abbreviation (input) "PLST_EOF \<equiv> (1 :: int)"
abbreviation (input) "PLST_WOULD_BLOCK \<equiv> (- 2 :: int)"
abbreviation (input) "TLS_CHUNK \<equiv> (16384 :: nat)"
abbreviation (input) "PLAINTEXT_LOW_WATER \<equiv> (262144 :: nat)"
abbreviation (input) "PLAINTEXT_HIGH_WATER \<equiv> (524288 :: nat)"
abbreviation (input) "MAX_BUFFERED_DATA \<equiv> (1048576 :: nat)"
abbreviation (input) "SD_SEND \<equiv> (1 :: int)"
abbreviation (input) "SD_BOTH \<equiv> (2 :: int)"
abbreviation (input) "ERROR_NOT_SUPPORTED32 \<equiv> (50 :: dword)"
abbreviation (input) "ERROR_PROC_NOT_FOUND \<equiv> (127 :: dword)"
abbreviation (input) "ERROR_DLL_INIT_FAILED \<equiv> (1114 :: dword)"

section \<open>State\<close>

record 's SecureLayer = ExLayer +
  sl_hTransport :: bool
  sl_session :: "'s option"
  sl_psk :: cstr
  sl_serverName :: cstr
  sl_pendingTls :: bytes
  sl_pendingTlsOffset :: nat
  sl_plaintext :: bytes
  sl_plaintextOffset :: nat
  sl_udpKey :: bytes
  sl_bUdpKeyReady :: bool
  sl_bHandshakeStarted :: bool
  sl_bHandshakeReady :: bool
  sl_bConnectNotified :: bool
  sl_bPeerReadClosed :: bool
  sl_bPeerEofDelivered :: bool
  sl_bReceivePaused :: bool
  sl_pendingShutdown :: int
  sl_transportLoadError :: dword
  \<comment> \<open>observations\<close>
  sl_drained :: bytes
  sl_read :: bytes
  sl_fed :: bytes
  sl_delivered :: bytes
  sl_printed :: "int list"
  sl_fault :: bool

text \<open>
  Loading: whether the platform supports modules, the path of the program is found, the library
  loads (or the error), all functions are there in the right version, and the new session. Then
  the functions of the module.
\<close>

record 's SecureEnv =
  se_modules :: bool
  se_path :: bool
  se_library :: "dword option"
  se_exports :: bool
  se_create :: "bytes \<Rightarrow> cstr \<Rightarrow> 's option"
  se_is_ready :: "'s \<Rightarrow> int"
  se_feed_tls :: "'s \<Rightarrow> bytes \<Rightarrow> (int \<times> nat) \<times> 's"
  se_drain_tls :: "'s \<Rightarrow> nat \<Rightarrow> (int \<times> bytes) \<times> 's"
  se_write_plain :: "'s \<Rightarrow> bytes \<Rightarrow> (int \<times> nat) \<times> 's"
  se_read_plain :: "'s \<Rightarrow> nat \<Rightarrow> (int \<times> bytes) \<times> 's"
  se_close_notify :: "'s \<Rightarrow> int \<times> 's"
  se_export_key :: "'s \<Rightarrow> (int \<times> bytes) \<times> 's"
  se_udp_encrypt :: "bytes \<Rightarrow> bytes \<Rightarrow> nat \<Rightarrow> int \<times> bytes"
  se_udp_decrypt :: "bytes \<Rightarrow> bytes \<Rightarrow> nat \<Rightarrow> int \<times> bytes"

definition Secure_new :: "'s SecureLayer" where
  "Secure_new = \<lparr>xl_state = notsock, xl_critical = 0, xl_socket = True, xl_posts = [], xl_posted = [], xl_tried = [], xl_lost = False, xl_changes = [],
     xl_sendScript = [], xl_recvScript = [], xl_shutdownOk = True, xl_sent = [], xl_received = [], xl_shutdowns = [], xl_lastError = 0,
     sl_hTransport = False, sl_session = None, sl_psk = [], sl_serverName = [], sl_pendingTls = [], sl_pendingTlsOffset = 0,
     sl_plaintext = [], sl_plaintextOffset = 0, sl_udpKey = replicate 32 0, sl_bUdpKeyReady = False,
     sl_bHandshakeStarted = False, sl_bHandshakeReady = False, sl_bConnectNotified = False, sl_bPeerReadClosed = False,
     sl_bPeerEofDelivered = False, sl_bReceivePaused = False, sl_pendingShutdown = -1, sl_transportLoadError = 0,
     sl_drained = [], sl_read = [], sl_fed = [], sl_delivered = [], sl_printed = [], sl_fault = False\<rparr>"

section \<open>Loading the module\<close>

definition Secure_Configure :: "bool \<Rightarrow> cstr \<Rightarrow> cstr \<Rightarrow> 's SecureLayer \<Rightarrow> bool \<times> 's SecureLayer" where
  "Secure_Configure modules psk serverName l =
     (if \<not> modules then (False, Xl_SetLastError WSAEOPNOTSUPP l)
      else if psk = [] then (False, Xl_SetLastError WSAEINVAL l)
      else (True, l\<lparr>sl_psk := psk, sl_serverName := (if serverName = [] then ''localhost'' else serverName)\<rparr>))"

definition LoadTransport :: "'s SecureEnv \<Rightarrow> 's SecureLayer \<Rightarrow> bool \<times> 's SecureLayer" where
  "LoadTransport p l =
     (if \<not> se_modules p then (False, l\<lparr>sl_transportLoadError := ERROR_NOT_SUPPORTED32\<rparr>)
      else if sl_hTransport l then (True, l)
      else
        let l = l\<lparr>sl_transportLoadError := 0\<rparr> in
        if \<not> se_path p then (False, l)
        else case se_library p of
          Some err \<Rightarrow> (False, l\<lparr>sl_transportLoadError := err\<rparr>)
        | None \<Rightarrow>
          if \<not> se_exports p then (False, l\<lparr>sl_transportLoadError := ERROR_PROC_NOT_FOUND\<rparr>)
          else case se_create p (cstr_bytes (sl_psk l)) (sl_serverName l) of
            None \<Rightarrow> (False, l\<lparr>sl_transportLoadError := ERROR_DLL_INIT_FAILED\<rparr>)
          | Some s \<Rightarrow> (True, l\<lparr>sl_hTransport := True, sl_session := Some s\<rparr>))"

definition HasPendingTls :: "'s SecureLayer \<Rightarrow> bool" where
  "HasPendingTls l \<longleftrightarrow> sl_pendingTlsOffset l < length (sl_pendingTls l)"

definition BufferedPlaintext :: "'s SecureLayer \<Rightarrow> nat" where
  "BufferedPlaintext l =
     (if sl_plaintextOffset l < length (sl_plaintext l) then length (sl_plaintext l) - sl_plaintextOffset l else 0)"

definition HasPendingRead :: "'s SecureLayer \<Rightarrow> bool" where
  "HasPendingRead l \<longleftrightarrow> BufferedPlaintext l \<noteq> 0 \<or> (sl_bPeerReadClosed l \<and> \<not> sl_bPeerEofDelivered l)"

section \<open>Pumping\<close>

text \<open>A call through a null function pointer.\<close>

definition null_call :: "'s SecureLayer \<Rightarrow> bool \<times> 's SecureLayer" where
  "null_call l = (False, l\<lparr>sl_fault := True\<rparr>)"

lemma Xl_SendNext_script:
  "Xl_SendNext data l = (Some n, l') \<Longrightarrow> length (xl_sendScript l') < length (xl_sendScript l)"
  by (auto simp: Xl_SendNext_def Xl_SetLastError_def split: option.splits list.splits send_result.splits)

text \<open>Both loops of \<open>FlushTls\<close>: send what is pending, then ask the session for more.\<close>

function FlushTls :: "'s SecureEnv \<Rightarrow> 's SecureLayer \<Rightarrow> bool \<times> 's SecureLayer" where
  "FlushTls p l =
     (case sl_session l of
        None \<Rightarrow> (True, l)
      | Some s \<Rightarrow>
        if HasPendingTls l then
          (case Xl_SendNext (drop (sl_pendingTlsOffset l) (sl_pendingTls l)) l of
             (None, l') \<Rightarrow> (xl_lastError l' = WSAEWOULDBLOCK, l')
           | (Some n, l') \<Rightarrow>
             if n = 0 then (False, Xl_SetLastError WSAECONNRESET l')
             else FlushTls p (l'\<lparr>sl_pendingTlsOffset := sl_pendingTlsOffset l + n\<rparr>))
        else
          (case se_drain_tls p s TLS_CHUNK of
             ((res, chunk), s') \<Rightarrow>
               let l' = l\<lparr>sl_pendingTls := [], sl_pendingTlsOffset := 0, sl_session := Some s'\<rparr> in
               if res \<noteq> PLST_OK then (False, Xl_SetLastError WSAECONNABORTED l')
               else if chunk = [] then (True, l')
               else FlushTls p (l'\<lparr>sl_pendingTls := chunk, sl_drained := sl_drained l @ chunk\<rparr>)))"
  by pat_completeness auto
termination
proof (relation "measure (\<lambda>(p, l). 2 * length (xl_sendScript l) + (if HasPendingTls l then 0 else 1))", goal_cases)
  case 1
  show ?case by simp
next
  case (2 p l s x l' n)
  then show ?case
    using Xl_SendNext_script [of _ l n l'] by fastforce
next
  case (3 p l s x res s' chunk l')
  then show ?case
    by (cases chunk) (auto simp: HasPendingTls_def)
qed

text \<open>The loop of \<open>DrainPlaintext\<close>.\<close>

function drain_loop :: "'s SecureEnv \<Rightarrow> 's SecureLayer \<Rightarrow> bool \<times> 's SecureLayer" where
  "drain_loop p l =
     (if MAX_BUFFERED_DATA \<le> BufferedPlaintext l then (False, Xl_SetLastError WSAENOBUFS l)
      else case sl_session l of
        None \<Rightarrow> null_call l
      | Some s \<Rightarrow>
        (case se_read_plain p s (min TLS_CHUNK (MAX_BUFFERED_DATA - BufferedPlaintext l)) of
           ((res, bs), s') \<Rightarrow>
             let l' = l\<lparr>sl_session := Some s'\<rparr> in
             if res = PLST_EOF then (True, l'\<lparr>sl_bPeerReadClosed := True\<rparr>)
             else if res = PLST_WOULD_BLOCK then
               (True, if PLAINTEXT_HIGH_WATER \<le> BufferedPlaintext l then l'\<lparr>sl_bReceivePaused := True\<rparr> else l')
             else if res \<noteq> PLST_OK then (False, Xl_SetLastError WSAECONNABORTED l')
             else if bs = [] then (True, l')
             else drain_loop p (l'\<lparr>sl_plaintext := sl_plaintext l @ bs, sl_read := sl_read l @ bs\<rparr>)))"
  by pat_completeness auto
termination
proof (relation "measure (\<lambda>(p, l). MAX_BUFFERED_DATA + sl_plaintextOffset l - length (sl_plaintext l))", goal_cases)
  case 1
  show ?case by simp
next
  case (2 p l s x res s' bs l')
  then show ?case
    by (cases bs) (auto simp: BufferedPlaintext_def split: if_splits)
qed

definition DrainPlaintext :: "'s SecureEnv \<Rightarrow> 's SecureLayer \<Rightarrow> bool \<times> 's SecureLayer" where
  "DrainPlaintext p l =
     drain_loop p (l\<lparr>sl_plaintext := drop (sl_plaintextOffset l) (sl_plaintext l), sl_plaintextOffset := 0\<rparr>)"

definition ResumeTlsReceive :: "'s SecureLayer \<Rightarrow> 's SecureLayer" where
  "ResumeTlsReceive l =
     (if \<not> sl_bReceivePaused l \<or> sl_session l = None \<or> sl_bPeerReadClosed l \<or> PLAINTEXT_LOW_WATER < BufferedPlaintext l then l
      else let (ok, l) = Xl_TriggerEvent FD_READ 0 False (l\<lparr>sl_bReceivePaused := False\<rparr>)
        in if ok then l else l\<lparr>sl_bReceivePaused := True\<rparr>)"

definition FinishHandshake :: "'s SecureEnv \<Rightarrow> 's SecureLayer \<Rightarrow> bool \<times> 's SecureLayer" where
  "FinishHandshake p l =
     (if sl_bHandshakeReady l then (True, l)
      else case sl_session l of
        None \<Rightarrow> null_call l
      | Some s \<Rightarrow>
        let ready = se_is_ready p s in
        if ready < 0 then (False, Xl_SetLastError WSAECONNABORTED l)
        else if ready = 0 then (True, l)
        else
          let ((res, key), s) = se_export_key p s;
              l = l\<lparr>sl_bHandshakeReady := True, sl_session := Some s\<rparr>;
              l = (if res = PLST_OK then l\<lparr>sl_udpKey := key, sl_bUdpKeyReady := True\<rparr> else l)
          in (True, if sl_bConnectNotified l then l
                    else snd (Xl_TriggerEvent FD_CONNECT 0 True (l\<lparr>sl_bConnectNotified := True\<rparr>))))"

definition StartHandshake :: "'s SecureEnv \<Rightarrow> 's SecureLayer \<Rightarrow> bool \<times> 's SecureLayer" where
  "StartHandshake p l =
     (if sl_bHandshakeStarted l then (True, l)
      else let (ok, l) = LoadTransport p l
        in if \<not> ok then (False, l) else FlushTls p (l\<lparr>sl_bHandshakeStarted := True\<rparr>))"

text \<open>\<open>DrainPlaintext() && FlushTls() && FinishHandshake()\<close>.\<close>

definition pump_step :: "'s SecureEnv \<Rightarrow> 's SecureLayer \<Rightarrow> bool \<times> 's SecureLayer" where
  "pump_step p l =
     (let (ok, l) = DrainPlaintext p l in
      if \<not> ok then (False, l)
      else let (ok, l) = FlushTls p l in if \<not> ok then (False, l) else FinishHandshake p l)"

text \<open>Feeding a received chunk, with what is done after each portion.\<close>

function feed_loop :: "('s SecureLayer \<Rightarrow> bool \<times> 's SecureLayer) \<Rightarrow> 's SecureEnv \<Rightarrow> bytes \<Rightarrow> 's SecureLayer \<Rightarrow> bool \<times> 's SecureLayer" where
  "feed_loop after p chunk l =
     (if chunk = [] then (True, l)
      else case sl_session l of
        None \<Rightarrow> null_call l
      | Some s \<Rightarrow>
        (case se_feed_tls p s chunk of
           ((res, consumed), s') \<Rightarrow>
             let l' = l\<lparr>sl_session := Some s'\<rparr> in
             if res \<noteq> PLST_OK \<or> consumed = 0 then (False, Xl_SetLastError WSAECONNABORTED l')
             else
               (case after (l'\<lparr>sl_fed := sl_fed l @ take consumed chunk\<rparr>) of
                  (False, l'') \<Rightarrow> (False, l'')
                | (True, l'') \<Rightarrow> feed_loop after p (drop consumed chunk) l'')))"
  by pat_completeness auto
termination
  by (relation "measure (\<lambda>(after, p, chunk, l). length chunk)") auto

declare FlushTls.simps [simp del] drain_loop.simps [simp del] feed_loop.simps [simp del]

text \<open>What the calls of the base layer leave as it is.\<close>

lemma Xl_TriggerEvent_base [simp]:
  "xl_socket (snd (Xl_TriggerEvent ev err pass l)) = xl_socket l"
  "xl_sendScript (snd (Xl_TriggerEvent ev err pass l)) = xl_sendScript l"
  "xl_recvScript (snd (Xl_TriggerEvent ev err pass l)) = xl_recvScript l"
  "xl_shutdownOk (snd (Xl_TriggerEvent ev err pass l)) = xl_shutdownOk l"
  "xl_sent (snd (Xl_TriggerEvent ev err pass l)) = xl_sent l"
  "xl_received (snd (Xl_TriggerEvent ev err pass l)) = xl_received l"
  "xl_shutdowns (snd (Xl_TriggerEvent ev err pass l)) = xl_shutdowns l"
  "xl_lastError (snd (Xl_TriggerEvent ev err pass l)) = xl_lastError l"
  "ExLayer.more (snd (Xl_TriggerEvent ev err pass l)) = ExLayer.more l"
  by (auto simp: Xl_TriggerEvent_def Xl_PostMessage_def Xl_SetLayerState_def split: list.split bool.split)

lemma Xl_SetLastError_base [simp]:
  "xl_state (Xl_SetLastError e l) = xl_state l" "xl_critical (Xl_SetLastError e l) = xl_critical l"
  "xl_socket (Xl_SetLastError e l) = xl_socket l" "xl_posts (Xl_SetLastError e l) = xl_posts l"
  "xl_posted (Xl_SetLastError e l) = xl_posted l" "xl_tried (Xl_SetLastError e l) = xl_tried l" "xl_lost (Xl_SetLastError e l) = xl_lost l"
  "xl_changes (Xl_SetLastError e l) = xl_changes l"
  "xl_sendScript (Xl_SetLastError e l) = xl_sendScript l" "xl_recvScript (Xl_SetLastError e l) = xl_recvScript l"
  "xl_shutdownOk (Xl_SetLastError e l) = xl_shutdownOk l" "xl_sent (Xl_SetLastError e l) = xl_sent l"
  "xl_received (Xl_SetLastError e l) = xl_received l" "xl_shutdowns (Xl_SetLastError e l) = xl_shutdowns l"
  "xl_lastError (Xl_SetLastError e l) = e" "ExLayer.more (Xl_SetLastError e l) = ExLayer.more l"
  by (simp_all add: Xl_SetLastError_def)

text \<open>The members of the class depend on the extension only.\<close>

lemma own_sel:
  assumes "ExLayer.more l' = ExLayer.more (l :: 's SecureLayer)"
  shows "sl_hTransport l' = sl_hTransport l" "sl_session l' = sl_session l" "sl_psk l' = sl_psk l" "sl_serverName l' = sl_serverName l"
    "sl_pendingTls l' = sl_pendingTls l" "sl_pendingTlsOffset l' = sl_pendingTlsOffset l" "sl_plaintext l' = sl_plaintext l"
    "sl_plaintextOffset l' = sl_plaintextOffset l" "sl_udpKey l' = sl_udpKey l" "sl_bUdpKeyReady l' = sl_bUdpKeyReady l"
    "sl_bHandshakeStarted l' = sl_bHandshakeStarted l" "sl_bHandshakeReady l' = sl_bHandshakeReady l"
    "sl_bConnectNotified l' = sl_bConnectNotified l" "sl_bPeerReadClosed l' = sl_bPeerReadClosed l"
    "sl_bPeerEofDelivered l' = sl_bPeerEofDelivered l" "sl_bReceivePaused l' = sl_bReceivePaused l"
    "sl_pendingShutdown l' = sl_pendingShutdown l" "sl_transportLoadError l' = sl_transportLoadError l"
    "sl_drained l' = sl_drained l" "sl_read l' = sl_read l" "sl_fed l' = sl_fed l" "sl_delivered l' = sl_delivered l"
    "sl_printed l' = sl_printed l" "sl_fault l' = sl_fault l"
  using assms by (cases l; cases l'; simp)+

lemmas Xl_TriggerEvent_own [simp] = own_sel [OF Xl_TriggerEvent_base(9)]
lemmas Xl_SetLastError_own [simp] = own_sel [OF Xl_SetLastError_base(16)]

text \<open>What comes from the network is taken by \<open>recv\<close> only.\<close>

definition recv_kept :: "'z ExLayer_scheme \<Rightarrow> 'z ExLayer_scheme \<Rightarrow> bool" where
  "recv_kept l l' \<longleftrightarrow> xl_recvScript l' = xl_recvScript l \<and> xl_received l' = xl_received l"

lemma recv_kept_refl [simp]: "recv_kept l l"
  by (simp add: recv_kept_def)

lemma recv_kept_trans: "recv_kept l l' \<Longrightarrow> recv_kept l' l'' \<Longrightarrow> recv_kept l l''"
  by (simp add: recv_kept_def)

lemma Xl_SendNext_recv_kept: "Xl_SendNext d l = (r, l') \<Longrightarrow> recv_kept l l'"
  by (auto simp: recv_kept_def Xl_SendNext_def split: option.splits list.splits send_result.splits)

lemma FlushTls_recv_kept: "recv_kept l (snd (FlushTls p l))"
proof (induction p l rule: FlushTls.induct)
  case (1 p l)
  then show ?case
    using Xl_SendNext_recv_kept by (subst FlushTls.simps) (fastforce simp: recv_kept_def Let_def split: option.split prod.split)
qed

lemma drain_loop_recv_kept: "recv_kept l (snd (drain_loop p l))"
proof (induction p l rule: drain_loop.induct)
  case (1 p l)
  then show ?case
    by (subst drain_loop.simps) (auto simp: recv_kept_def Let_def null_call_def split: option.split prod.split)
qed

lemma FinishHandshake_recv_kept: "recv_kept l (snd (FinishHandshake p l))"
  by (auto simp: FinishHandshake_def recv_kept_def Let_def null_call_def split: option.split prod.split)

lemma pump_step_recv_kept: "recv_kept l (snd (pump_step p l))"
proof -
  obtain b1 l1 where 1: "DrainPlaintext p l = (b1, l1)" by fastforce
  obtain b2 l2 where 2: "FlushTls p l1 = (b2, l2)" by fastforce
  have "recv_kept l l1"
    using drain_loop_recv_kept [of "l\<lparr>sl_plaintext := drop (sl_plaintextOffset l) (sl_plaintext l), sl_plaintextOffset := 0\<rparr>" p] 1
    by (simp add: DrainPlaintext_def recv_kept_def)
  moreover have "recv_kept l1 l2"
    using FlushTls_recv_kept [of l1 p] 2 by simp
  ultimately show ?thesis
    using 1 2 FinishHandshake_recv_kept [of l2 p] by (auto simp: pump_step_def intro: recv_kept_trans)
qed

lemma feed_loop_recv_kept:
  assumes "\<And>l. recv_kept l (snd (after l))"
  shows "recv_kept l (snd (feed_loop after p chunk l))"
  using assms
proof (induction after p chunk l rule: feed_loop.induct)
  case (1 after p chunk l)
  note IH = 1(1)
  show ?case
  proof (cases "chunk = [] \<or> sl_session l = None")
    case True
    then show ?thesis
      by (subst feed_loop.simps) (auto simp: null_call_def recv_kept_def)
  next
    case False
    then obtain s where s: "sl_session l = Some s" "chunk \<noteq> []"
      by auto
    obtain res consumed s' where f: "se_feed_tls p s chunk = ((res, consumed), s')"
      by (metis surj_pair)
    let ?l = "l\<lparr>sl_session := Some s', sl_fed := sl_fed l @ take consumed chunk\<rparr>"
    obtain ok l2 where a: "after ?l = (ok, l2)"
      by fastforce
    have k: "recv_kept l l2"
      using 1(2) [of ?l] a by (simp add: recv_kept_def)
    have "recv_kept l2 (snd (feed_loop after p (drop consumed chunk) l2))" if "res = PLST_OK" "consumed \<noteq> 0" "ok"
      using IH [OF s(2,1) f [symmetric] refl refl _ a [symmetric] _ 1(2)] that by simp
    then show ?thesis
      using k s f a by (subst feed_loop.simps) (auto simp: recv_kept_def Let_def split: bool.split)
  qed
qed

lemma pump_feed_recv_kept: "recv_kept l (snd (feed_loop (pump_step p) p chunk l))"
  by (rule feed_loop_recv_kept) (rule pump_step_recv_kept)

lemma DrainPlaintext_recv_kept: "recv_kept l (snd (DrainPlaintext p l))"
  using drain_loop_recv_kept [of "l\<lparr>sl_plaintext := drop (sl_plaintextOffset l) (sl_plaintext l), sl_plaintextOffset := 0\<rparr>" p]
  by (simp add: DrainPlaintext_def recv_kept_def)

definition script_size :: "recv_result list \<Rightarrow> nat" where
  "script_size rs = sum_list (map (\<lambda>r. case r of RecvError e \<Rightarrow> 1 | RecvData d \<Rightarrow> Suc (length d)) rs)"

lemma raw_recv_size:
  assumes "raw_recv n l = (Some bs, l')" "bs \<noteq> []"
  shows "script_size (xl_recvScript l') < script_size (xl_recvScript l)"
  using assms by (auto simp: raw_recv_def script_size_def split: list.splits recv_result.splits)

lemma Xl_ReceiveNext_size:
  assumes "Xl_ReceiveNext n l = (Some bs, l')" "bs \<noteq> []"
  shows "script_size (xl_recvScript l') < script_size (xl_recvScript l)"
  using assms raw_recv_size by (auto simp: Xl_ReceiveNext_def split: option.splits)

text \<open>The receive loop of \<open>PumpTls\<close>.\<close>

function pump_loop :: "'s SecureEnv \<Rightarrow> 's SecureLayer \<Rightarrow> bool \<times> 's SecureLayer" where
  "pump_loop p l =
     (case Xl_ReceiveNext TLS_CHUNK l of
        (None, l') \<Rightarrow> (xl_lastError l' = WSAEWOULDBLOCK, l')
      | (Some bs, l') \<Rightarrow>
        if bs = [] then (False, Xl_SetLastError WSAECONNRESET l')
        else (case feed_loop (pump_step p) p bs l' of
           (False, l'') \<Rightarrow> (False, l'')
         | (True, l'') \<Rightarrow> if sl_bReceivePaused l'' then (True, l'') else pump_loop p l''))"
  by pat_completeness auto
termination
proof (relation "measure (\<lambda>(p, l). script_size (xl_recvScript l))", goal_cases)
  case 1
  show ?case by simp
next
  case (2 p l r l' bs ok l'')
  have "recv_kept l' l''"
    using pump_feed_recv_kept [of l' p bs] 2(4) by (metis snd_conv)
  then show ?case
    using Xl_ReceiveNext_size [of _ l bs l'] 2 by (simp add: recv_kept_def)
qed

declare pump_loop.simps [simp del]

definition PumpTls :: "'s SecureEnv \<Rightarrow> 's SecureLayer \<Rightarrow> bool \<times> 's SecureLayer" where
  "PumpTls p l =
     (let (ok, l) = pump_step p l in
      if \<not> ok then (False, l) else if sl_bReceivePaused l then (True, l) else pump_loop p l)"

section \<open>Events of the layer below\<close>

definition Secure_ReportFailure :: "'s SecureLayer \<Rightarrow> 's SecureLayer" where
  "Secure_ReportFailure l =
     (let winsockError = (if xl_lastError l = 0 then WSAECONNABORTED else xl_lastError l);
          routine = (sl_bHandshakeReady l \<and> (winsockError = WSAECONNRESET \<or> winsockError = WSAECONNABORTED \<or> winsockError = WSAESHUTDOWN));
          l = Xl_SetLastError winsockError (l\<lparr>sl_printed := sl_printed l @ (if routine then [] else [winsockError])\<rparr>)
      in snd (if \<not> sl_bConnectNotified l
              then Xl_TriggerEvent FD_CONNECT
                (if sl_transportLoadError l \<noteq> 0 then PROXYLANE_SECURE_LOAD_FAILED else PROXYLANE_SECURE_HANDSHAKE_FAILED) True l
              else Xl_TriggerEvent FD_CLOSE WSAECONNABORTED True l))"

definition Secure_OnConnect :: "'s SecureEnv \<Rightarrow> int \<Rightarrow> 's SecureLayer \<Rightarrow> 's SecureLayer" where
  "Secure_OnConnect p err l =
     (if err \<noteq> 0 then snd (Xl_TriggerEvent FD_CONNECT err True l)
      else let (ok, l) = StartHandshake p l; (ok, l) = (if ok then FinishHandshake p l else (False, l))
        in if ok then l else Secure_ReportFailure l)"

definition Secure_OnReceive :: "'s SecureEnv \<Rightarrow> int \<Rightarrow> 's SecureLayer \<Rightarrow> 's SecureLayer" where
  "Secure_OnReceive p err l =
     (if err \<noteq> 0 then Secure_ReportFailure (Xl_SetLastError err l)
      else let (ok, l) = PumpTls p l in
        if \<not> ok then Secure_ReportFailure l
        else if sl_bHandshakeReady l \<and> HasPendingRead l then snd (Xl_TriggerEvent FD_READ 0 True l)
        else l)"

definition Secure_OnSend :: "'s SecureEnv \<Rightarrow> int \<Rightarrow> 's SecureLayer \<Rightarrow> 's SecureLayer" where
  "Secure_OnSend p err l =
     (if err \<noteq> 0 then Secure_ReportFailure (Xl_SetLastError err l)
      else let (ok, l) = FlushTls p l; (ok, l) = (if ok then FinishHandshake p l else (False, l)) in
        if \<not> ok then Secure_ReportFailure l
        else
          let how = sl_pendingShutdown l;
              l = (if 0 \<le> how \<and> \<not> HasPendingTls l then snd (Xl_ShutDownNext how (l\<lparr>sl_pendingShutdown := -1\<rparr>)) else l)
          in if sl_bConnectNotified l then snd (Xl_TriggerEvent FD_WRITE 0 True l) else l)"

text \<open>The drain of \<open>OnClose\<close>, which calls \<open>recv\<close> itself; a result of 0 or an error ends it.\<close>

lemma close_feed_recv_kept: "recv_kept l (snd (feed_loop (DrainPlaintext p) p chunk l))"
  by (rule feed_loop_recv_kept) (rule DrainPlaintext_recv_kept)

function close_loop :: "'s SecureEnv \<Rightarrow> 's SecureLayer \<Rightarrow> bool \<times> 's SecureLayer" where
  "close_loop p l =
     (case raw_recv TLS_CHUNK l of
        (None, l') \<Rightarrow> (True, l')
      | (Some bs, l') \<Rightarrow>
        if bs = [] then (True, l')
        else (case feed_loop (DrainPlaintext p) p bs l' of (False, l'') \<Rightarrow> (False, l'') | (True, l'') \<Rightarrow> close_loop p l''))"
  by pat_completeness auto
termination
proof (relation "measure (\<lambda>(p, l). script_size (xl_recvScript l))", goal_cases)
  case 1
  show ?case by simp
next
  case (2 p l r l' bs ok l'')
  have "recv_kept l' l''"
    using close_feed_recv_kept [of l' p bs] 2(4) by (metis snd_conv)
  then show ?case
    using raw_recv_size [of _ l bs l'] 2 by (simp add: recv_kept_def)
qed

declare close_loop.simps [simp del]

definition Secure_OnClose :: "'s SecureEnv \<Rightarrow> int \<Rightarrow> 's SecureLayer \<Rightarrow> 's SecureLayer" where
  "Secure_OnClose p err l =
     (let (ok, l) =
        (if err = 0 \<and> sl_session l \<noteq> None then
           let (ok, l) = close_loop p l; (ok, l) = (if ok then DrainPlaintext p l else (False, l))
           in (ok, l\<lparr>sl_bPeerReadClosed := True\<rparr>)
         else (True, l)) in
      if \<not> ok then Secure_ReportFailure l
      else if err = 0 \<and> sl_bHandshakeReady l \<and> HasPendingRead l then snd (Xl_TriggerEvent FD_READ 0 True l)
      else if err \<noteq> 0 then snd (Xl_TriggerEvent FD_CLOSE err True l)
      else if \<not> sl_bHandshakeReady l then snd (Xl_TriggerEvent FD_CLOSE 0 True l)
      else l)"

text \<open>A message for the layer, dispatched by the helper window while the owner has its socket.\<close>

definition Secure_event :: "'s SecureEnv \<Rightarrow> fd \<Rightarrow> int \<Rightarrow> 's SecureLayer \<Rightarrow> 's SecureLayer" where
  "Secure_event p ev err l =
     (if \<not> xl_socket l then l
      else case Xl_CallEvent ev err l of
        (False, l) \<Rightarrow> l
      | (True, l) \<Rightarrow>
        (case ev of FD_CONNECT \<Rightarrow> Secure_OnConnect p err l | FD_READ \<Rightarrow> Secure_OnReceive p err l
         | FD_WRITE \<Rightarrow> Secure_OnSend p err l | FD_CLOSE \<Rightarrow> Secure_OnClose p err l | FD_ACCEPT \<Rightarrow> l))"

section \<open>Calls of the layer above\<close>

definition Secure_Send :: "'s SecureEnv \<Rightarrow> int \<Rightarrow> bytes option \<Rightarrow> 's SecureLayer \<Rightarrow> int \<times> 's SecureLayer" where
  "Secure_Send p nBufLen buf l =
     (case (if sl_bHandshakeReady l then sl_session l else None) of
        None \<Rightarrow> (SOCKET_ERROR, Xl_SetLastError WSAEWOULDBLOCK l)
      | Some s \<Rightarrow>
        if nBufLen < 0 \<or> (nBufLen \<noteq> 0 \<and> buf = None) then (SOCKET_ERROR, Xl_SetLastError WSAEFAULT l)
        else
          let ((res, written), s) = se_write_plain p s (take (nat nBufLen) (case buf of Some b \<Rightarrow> b | None \<Rightarrow> []));
              l = l\<lparr>sl_session := Some s\<rparr> in
          if res = PLST_WOULD_BLOCK then (SOCKET_ERROR, Xl_SetLastError WSAEWOULDBLOCK l)
          else
            let (ok, l) = (if res = PLST_OK then FlushTls p l else (False, l)) in
            if ok then (int written, l) else (SOCKET_ERROR, Xl_SetLastError WSAECONNABORTED l))"

text \<open>The bytes that are copied to the caller's buffer are in the result.\<close>

definition Secure_Receive :: "int \<Rightarrow> bool \<Rightarrow> 's SecureLayer \<Rightarrow> (int \<times> bytes) \<times> 's SecureLayer" where
  "Secure_Receive nBufLen buffer l =
     (if nBufLen < 0 \<or> (nBufLen \<noteq> 0 \<and> \<not> buffer) then ((SOCKET_ERROR, []), Xl_SetLastError WSAEFAULT l)
      else if \<not> sl_bHandshakeReady l then ((SOCKET_ERROR, []), Xl_SetLastError WSAEWOULDBLOCK l)
      else if length (sl_plaintext l) \<le> sl_plaintextOffset l then
        (if sl_bPeerReadClosed l then ((0, []), l\<lparr>sl_bPeerEofDelivered := True\<rparr>)
         else ((SOCKET_ERROR, []), Xl_SetLastError WSAEWOULDBLOCK l))
      else
        let count = min (nat nBufLen) (length (sl_plaintext l) - sl_plaintextOffset l);
            data = take count (drop (sl_plaintextOffset l) (sl_plaintext l));
            l = l\<lparr>sl_plaintextOffset := sl_plaintextOffset l + count, sl_delivered := sl_delivered l @ data\<rparr>;
            l = (if sl_plaintextOffset l = length (sl_plaintext l) then
                   let l = l\<lparr>sl_plaintext := [], sl_plaintextOffset := 0\<rparr>
                   in if sl_bPeerReadClosed l \<and> \<not> sl_bPeerEofDelivered l then snd (Xl_TriggerEvent FD_READ 0 True l) else l
                 else snd (Xl_TriggerEvent FD_READ 0 True l))
        in ((int count, data), ResumeTlsReceive l))"

definition Secure_ShutDown :: "'s SecureEnv \<Rightarrow> int \<Rightarrow> 's SecureLayer \<Rightarrow> bool \<times> 's SecureLayer" where
  "Secure_ShutDown p how l =
     (case (if how = SD_SEND \<or> how = SD_BOTH then sl_session l else None) of
        None \<Rightarrow> Xl_ShutDownNext how l
      | Some s \<Rightarrow>
        let (res, s) = se_close_notify p s; l = l\<lparr>sl_session := Some s\<rparr>;
            (ok, l) = (if res = PLST_OK then FlushTls p l else (False, l)) in
        if \<not> ok then (False, l)
        else if HasPendingTls l then (True, l\<lparr>sl_pendingShutdown := how\<rparr>)
        else Xl_ShutDownNext how l)"

definition Secure_EncryptUdp :: "'s SecureEnv \<Rightarrow> bytes \<Rightarrow> nat \<Rightarrow> 's SecureLayer \<Rightarrow> bytes option" where
  "Secure_EncryptUdp p plain capacity l =
     (if \<not> sl_bUdpKeyReady l then None
      else let (res, out) = se_udp_encrypt p (sl_udpKey l) plain capacity in if res = PLST_OK then Some out else None)"

definition Secure_DecryptUdp :: "'s SecureEnv \<Rightarrow> bytes \<Rightarrow> nat \<Rightarrow> 's SecureLayer \<Rightarrow> bytes option" where
  "Secure_DecryptUdp p packet capacity l =
     (if \<not> sl_bUdpKeyReady l then None
      else let (res, out) = se_udp_decrypt p (sl_udpKey l) packet capacity in if res = PLST_OK then Some out else None)"

definition ResetTransport :: "'s SecureLayer \<Rightarrow> 's SecureLayer" where
  "ResetTransport l = l\<lparr>sl_session := None, sl_hTransport := False, sl_psk := [], sl_serverName := [], sl_udpKey := replicate 32 0,
     sl_pendingTls := [], sl_plaintext := [], sl_pendingTlsOffset := 0, sl_plaintextOffset := 0, sl_bUdpKeyReady := False,
     sl_bHandshakeStarted := False, sl_bHandshakeReady := False, sl_bConnectNotified := False, sl_bPeerReadClosed := False,
     sl_bPeerEofDelivered := False, sl_bReceivePaused := False, sl_pendingShutdown := -1\<rparr>"

definition Secure_Close :: "'s SecureLayer \<Rightarrow> 's SecureLayer" where
  "Secure_Close l = Xl_CloseNext (ResetTransport l)"

end
