(* ===== verification/SecurePump.thy ===== *)
theory SecurePump
  imports SecureLayer "HOL-Library.Sublist"
begin

text \<open>
  What the parts of the TLS-PSK layer do to the bytes and the flags: flushing, draining, finishing
  the handshake, feeding, and the two receive loops. Each part has a frame, the fields it leaves
  alone, and the frames compose.
\<close>

section \<open>What the parts of a step change\<close>

text \<open>Flushing touches the output only.\<close>

definition flush_frame :: "'s SecureLayer \<Rightarrow> 's SecureLayer \<Rightarrow> bool" where
  "flush_frame l l' \<longleftrightarrow>
     xl_state l' = xl_state l \<and> xl_critical l' = xl_critical l \<and> xl_socket l' = xl_socket l \<and>
     xl_posts l' = xl_posts l \<and> xl_posted l' = xl_posted l \<and> xl_tried l' = xl_tried l \<and> xl_lost l' = xl_lost l \<and> xl_changes l' = xl_changes l \<and>
     xl_recvScript l' = xl_recvScript l \<and> xl_shutdownOk l' = xl_shutdownOk l \<and> xl_received l' = xl_received l \<and>
     xl_shutdowns l' = xl_shutdowns l \<and> sl_hTransport l' = sl_hTransport l \<and> sl_psk l' = sl_psk l \<and>
     sl_serverName l' = sl_serverName l \<and> sl_plaintext l' = sl_plaintext l \<and>
     sl_plaintextOffset l' = sl_plaintextOffset l \<and> sl_udpKey l' = sl_udpKey l \<and>
     sl_bUdpKeyReady l' = sl_bUdpKeyReady l \<and> sl_bHandshakeStarted l' = sl_bHandshakeStarted l \<and>
     sl_bHandshakeReady l' = sl_bHandshakeReady l \<and> sl_bConnectNotified l' = sl_bConnectNotified l \<and>
     sl_bPeerReadClosed l' = sl_bPeerReadClosed l \<and> sl_bPeerEofDelivered l' = sl_bPeerEofDelivered l \<and>
     sl_bReceivePaused l' = sl_bReceivePaused l \<and> sl_pendingShutdown l' = sl_pendingShutdown l \<and>
     sl_transportLoadError l' = sl_transportLoadError l \<and> sl_read l' = sl_read l \<and> sl_fed l' = sl_fed l \<and>
     sl_delivered l' = sl_delivered l \<and> sl_printed l' = sl_printed l \<and>
     sl_fault l' = sl_fault l \<and> (sl_session l' = None \<longleftrightarrow> sl_session l = None)"

lemma flush_frame_refl [simp]: "flush_frame l l"
  by (simp add: flush_frame_def)

lemma flush_frame_trans: "flush_frame l l' \<Longrightarrow> flush_frame l' l'' \<Longrightarrow> flush_frame l l''"
  by (simp add: flush_frame_def)

text \<open>The bytes for the wire, and the plaintext for the layer above.\<close>

definition out_ok :: "'s SecureLayer \<Rightarrow> bool" where
  "out_ok l \<longleftrightarrow> sl_pendingTlsOffset l \<le> length (sl_pendingTls l) \<and>
     xl_sent l @ drop (sl_pendingTlsOffset l) (sl_pendingTls l) = sl_drained l"

definition in_ok :: "'s SecureLayer \<Rightarrow> bool" where
  "in_ok l \<longleftrightarrow> sl_plaintextOffset l \<le> length (sl_plaintext l) \<and>
     sl_delivered l @ drop (sl_plaintextOffset l) (sl_plaintext l) = sl_read l"

lemma Xl_SendNext_sent:
  assumes "Xl_SendNext d l = (r, l')"
  shows "flush_frame l l'" "sl_session l' = sl_session l" "sl_pendingTls l' = sl_pendingTls l" "sl_pendingTlsOffset l' = sl_pendingTlsOffset l"
    "sl_drained l' = sl_drained l" "r = None \<Longrightarrow> xl_sent l' = xl_sent l"
    "r = Some n \<Longrightarrow> xl_sent l' = xl_sent l @ take n d \<and> n \<le> length d"
  using assms by (auto simp: Xl_SendNext_def flush_frame_def min_def split: option.splits list.splits send_result.splits)

lemma FlushTls_sent:
  assumes "HasPendingTls l" "Xl_SendNext (drop (sl_pendingTlsOffset l) (sl_pendingTls l)) l = (Some n, l')" "out_ok l"
  shows "out_ok (l'\<lparr>sl_pendingTlsOffset := sl_pendingTlsOffset l + n\<rparr>)"
proof -
  have "take n (drop (sl_pendingTlsOffset l) (sl_pendingTls l)) @ drop (sl_pendingTlsOffset l + n) (sl_pendingTls l) =
      drop (sl_pendingTlsOffset l) (sl_pendingTls l)"
    by (metis append_take_drop_id drop_drop add.commute)
  then show ?thesis
    using Xl_SendNext_sent(2-5) [OF assms(2)] Xl_SendNext_sent(7) [OF assms(2) refl] assms(1,3) by (auto simp: out_ok_def HasPendingTls_def)
qed

text \<open>What a flush that succeeds leaves is blocked or nothing.\<close>

lemma FlushTls_result:
  assumes "FlushTls p l = (ok, l')"
  shows "flush_frame l l' \<and> (out_ok l \<longrightarrow> out_ok l')"
  using assms
proof (induction p l arbitrary: ok l' rule: FlushTls.induct)
  case (1 p l)
  show ?case
  proof (cases "sl_session l")
    case None
    then show ?thesis using 1(3) by (subst (asm) FlushTls.simps) simp
  next
    case (Some s)
    show ?thesis
    proof (cases "HasPendingTls l")
      case True
      obtain r l1 where r: "Xl_SendNext (drop (sl_pendingTlsOffset l) (sl_pendingTls l)) l = (r, l1)"
        by fastforce
      note sent = Xl_SendNext_sent [OF r]
      have eq: "FlushTls p l = (case r of None \<Rightarrow> (xl_lastError l1 = WSAEWOULDBLOCK, l1)
          | Some n \<Rightarrow> if n = 0 then (False, Xl_SetLastError WSAECONNRESET l1)
              else FlushTls p (l1\<lparr>sl_pendingTlsOffset := sl_pendingTlsOffset l + n\<rparr>))"
        using Some True r by (subst FlushTls.simps) simp
      show ?thesis
      proof (cases "r = None \<or> r = Some 0")
        case True
        then have "l' = l1 \<or> l' = Xl_SetLastError WSAECONNRESET l1"
          using eq 1(3) by auto
        moreover have "xl_sent l1 = xl_sent l"
          using True sent(6) sent(7) [of 0] by auto
        ultimately show ?thesis
          using sent(1-5) by (elim disjE) (simp_all add: flush_frame_def out_ok_def)
      next
        case False
        then obtain n where n: "r = Some n" "n \<noteq> 0"
          by auto
        have "flush_frame l (l1\<lparr>sl_pendingTlsOffset := sl_pendingTlsOffset l + n\<rparr>)"
          using sent(1) by (simp add: flush_frame_def)
        moreover have "out_ok l \<Longrightarrow> out_ok (l1\<lparr>sl_pendingTlsOffset := sl_pendingTlsOffset l + n\<rparr>)"
          using FlushTls_sent [OF True r [unfolded n(1)]] .
        moreover have "FlushTls p (l1\<lparr>sl_pendingTlsOffset := sl_pendingTlsOffset l + n\<rparr>) = (ok, l')"
          using eq 1(3) n by simp
        ultimately show ?thesis
          using 1(1) [OF Some True r [symmetric] n] flush_frame_trans by blast
      qed
    next
      case False
      obtain res chunk s' where d: "se_drain_tls p s TLS_CHUNK = ((res, chunk), s')"
        by (metis surj_pair)
      let ?l = "l\<lparr>sl_pendingTls := [], sl_pendingTlsOffset := 0, sl_session := Some s'\<rparr>"
      let ?l2 = "?l\<lparr>sl_pendingTls := chunk, sl_drained := sl_drained l @ chunk\<rparr>"
      have eq: "FlushTls p l = (if res \<noteq> PLST_OK then (False, Xl_SetLastError WSAECONNABORTED ?l) else if chunk = [] then (True, ?l)
          else FlushTls p ?l2)"
        using Some False d by (subst FlushTls.simps) (simp add: Let_def)
      have "flush_frame l ?l" "flush_frame l ?l2" "out_ok l \<Longrightarrow> out_ok ?l" "out_ok l \<Longrightarrow> out_ok ?l2"
        using Some False by (auto simp: flush_frame_def out_ok_def HasPendingTls_def)
      note step = this
      show ?thesis
      proof (cases "res = PLST_OK \<and> chunk \<noteq> []")
        case True
        then have "FlushTls p ?l2 = (ok, l')"
          using eq 1(3) by simp
        then show ?thesis
          using 1(2) [OF Some False d [symmetric] refl refl, of ok l'] True step(2,4) flush_frame_trans by blast
      next
        case False
        then show ?thesis
          using eq 1(3) step(1,3) by (auto simp: flush_frame_def out_ok_def split: if_splits)
      qed
    qed
  qed
qed

text \<open>Draining touches the plaintext only.\<close>

definition drain_frame :: "'s SecureLayer \<Rightarrow> 's SecureLayer \<Rightarrow> bool" where
  "drain_frame l l' \<longleftrightarrow>
     xl_state l' = xl_state l \<and> xl_critical l' = xl_critical l \<and> xl_socket l' = xl_socket l \<and>
     xl_posts l' = xl_posts l \<and> xl_posted l' = xl_posted l \<and> xl_tried l' = xl_tried l \<and> xl_lost l' = xl_lost l \<and> xl_changes l' = xl_changes l \<and>
     xl_sendScript l' = xl_sendScript l \<and> xl_recvScript l' = xl_recvScript l \<and>
     xl_shutdownOk l' = xl_shutdownOk l \<and> xl_sent l' = xl_sent l \<and> xl_received l' = xl_received l \<and>
     xl_shutdowns l' = xl_shutdowns l \<and> sl_hTransport l' = sl_hTransport l \<and> sl_psk l' = sl_psk l \<and>
     sl_serverName l' = sl_serverName l \<and> sl_pendingTls l' = sl_pendingTls l \<and>
     sl_pendingTlsOffset l' = sl_pendingTlsOffset l \<and> sl_udpKey l' = sl_udpKey l \<and>
     sl_bUdpKeyReady l' = sl_bUdpKeyReady l \<and> sl_bHandshakeStarted l' = sl_bHandshakeStarted l \<and>
     sl_bHandshakeReady l' = sl_bHandshakeReady l \<and> sl_bConnectNotified l' = sl_bConnectNotified l \<and>
     sl_bPeerEofDelivered l' = sl_bPeerEofDelivered l \<and> sl_pendingShutdown l' = sl_pendingShutdown l \<and>
     sl_transportLoadError l' = sl_transportLoadError l \<and> sl_drained l' = sl_drained l \<and> sl_fed l' = sl_fed l \<and>
     sl_delivered l' = sl_delivered l \<and>
     sl_printed l' = sl_printed l \<and> (sl_session l' = None \<longleftrightarrow> sl_session l = None) \<and>
     (sl_session l \<noteq> None \<longrightarrow> sl_fault l' = sl_fault l)"

lemma drain_frame_refl [simp]: "drain_frame l l"
  by (simp add: drain_frame_def)

lemma drain_frame_trans: "drain_frame l l' \<Longrightarrow> drain_frame l' l'' \<Longrightarrow> drain_frame l l''"
  by (simp add: drain_frame_def)

definition paused_ok :: "'s SecureLayer \<Rightarrow> bool" where
  "paused_ok l \<longleftrightarrow> (\<not> xl_lost l \<and> sl_bReceivePaused l \<longrightarrow> PLAINTEXT_LOW_WATER < BufferedPlaintext l \<or> sl_bPeerReadClosed l)"

lemma drain_loop_result:
  assumes "drain_loop p l = (ok, l')"
  shows "drain_frame l l' \<and> (in_ok l \<longrightarrow> in_ok l') \<and> (paused_ok l \<longrightarrow> paused_ok l')"
  using assms
proof (induction p l arbitrary: ok l' rule: drain_loop.induct)
  case (1 p l)
  show ?case
  proof (cases "MAX_BUFFERED_DATA \<le> BufferedPlaintext l \<or> sl_session l = None")
    case True
    then show ?thesis
      using 1(2) by (subst (asm) drain_loop.simps)
        (auto simp: drain_frame_def in_ok_def paused_ok_def BufferedPlaintext_def null_call_def split: if_splits)
  next
    case False
    then obtain s where s: "\<not> MAX_BUFFERED_DATA \<le> BufferedPlaintext l" "sl_session l = Some s"
      by auto
    obtain res bs s' where r: "se_read_plain p s (min TLS_CHUNK (MAX_BUFFERED_DATA - BufferedPlaintext l)) = ((res, bs), s')"
      by (metis surj_pair)
    let ?l = "l\<lparr>sl_session := Some s'\<rparr>"
    let ?l2 = "?l\<lparr>sl_plaintext := sl_plaintext l @ bs, sl_read := sl_read l @ bs\<rparr>"
    have eq: "drain_loop p l = (if res = PLST_EOF then (True, ?l\<lparr>sl_bPeerReadClosed := True\<rparr>)
        else if res = PLST_WOULD_BLOCK then (True, if PLAINTEXT_HIGH_WATER \<le> BufferedPlaintext l then ?l\<lparr>sl_bReceivePaused := True\<rparr> else ?l)
        else if res \<noteq> PLST_OK then (False, Xl_SetLastError WSAECONNABORTED ?l)
        else if bs = [] then (True, ?l) else drain_loop p ?l2)"
      using s r by (subst drain_loop.simps) (simp add: Let_def)
    show ?thesis
    proof (cases "res = PLST_OK \<and> bs \<noteq> []")
      case True
      then have "drain_loop p ?l2 = (ok, l')"
        using eq 1(2) by simp
      then have "drain_frame ?l2 l' \<and> (in_ok ?l2 \<longrightarrow> in_ok l') \<and> (paused_ok ?l2 \<longrightarrow> paused_ok l')"
        using 1(1) [OF s r [symmetric] refl refl, of ok l'] True by simp
      moreover have "drain_frame l ?l2" "in_ok l \<Longrightarrow> in_ok ?l2" "paused_ok l \<Longrightarrow> paused_ok ?l2"
        using s(2) by (auto simp: drain_frame_def in_ok_def paused_ok_def BufferedPlaintext_def split: if_splits)
      ultimately show ?thesis
        using drain_frame_trans by blast
    next
      case False
      then show ?thesis
        using eq 1(2) s(2) by (auto simp: drain_frame_def in_ok_def paused_ok_def BufferedPlaintext_def split: if_splits)
    qed
  qed
qed

lemma DrainPlaintext_result:
  assumes "DrainPlaintext p l = (ok, l')"
  shows "drain_frame l l'" "in_ok l \<Longrightarrow> in_ok l'" "paused_ok l \<Longrightarrow> paused_ok l'"
proof -
  let ?l = "l\<lparr>sl_plaintext := drop (sl_plaintextOffset l) (sl_plaintext l), sl_plaintextOffset := 0\<rparr>"
  have "drain_frame l ?l" "in_ok l \<Longrightarrow> in_ok ?l" "paused_ok l \<Longrightarrow> paused_ok ?l"
    by (auto simp: drain_frame_def in_ok_def paused_ok_def BufferedPlaintext_def)
  then show "drain_frame l l'" "in_ok l \<Longrightarrow> in_ok l'" "paused_ok l \<Longrightarrow> paused_ok l'"
    using drain_loop_result [OF assms [unfolded DrainPlaintext_def]] drain_frame_trans by blast+
qed

text \<open>The end of the handshake touches the flags and the messages only.\<close>

definition finish_frame :: "'s SecureLayer \<Rightarrow> 's SecureLayer \<Rightarrow> bool" where
  "finish_frame l l' \<longleftrightarrow>
     xl_state l' = xl_state l \<and> xl_critical l' = xl_critical l \<and> xl_socket l' = xl_socket l \<and>
     xl_changes l' = xl_changes l \<and> xl_sendScript l' = xl_sendScript l \<and> xl_recvScript l' = xl_recvScript l \<and>
     xl_shutdownOk l' = xl_shutdownOk l \<and> xl_sent l' = xl_sent l \<and> xl_received l' = xl_received l \<and>
     xl_shutdowns l' = xl_shutdowns l \<and> sl_hTransport l' = sl_hTransport l \<and> sl_psk l' = sl_psk l \<and>
     sl_serverName l' = sl_serverName l \<and> sl_pendingTls l' = sl_pendingTls l \<and>
     sl_pendingTlsOffset l' = sl_pendingTlsOffset l \<and> sl_plaintext l' = sl_plaintext l \<and>
     sl_plaintextOffset l' = sl_plaintextOffset l \<and> sl_bHandshakeStarted l' = sl_bHandshakeStarted l \<and>
     sl_bPeerReadClosed l' = sl_bPeerReadClosed l \<and> sl_bPeerEofDelivered l' = sl_bPeerEofDelivered l \<and>
     sl_bReceivePaused l' = sl_bReceivePaused l \<and> sl_pendingShutdown l' = sl_pendingShutdown l \<and>
     sl_transportLoadError l' = sl_transportLoadError l \<and> sl_drained l' = sl_drained l \<and> sl_read l' = sl_read l \<and>
     sl_fed l' = sl_fed l \<and> sl_delivered l' = sl_delivered l \<and>
     sl_printed l' = sl_printed l \<and> (sl_session l' = None \<longleftrightarrow> sl_session l = None) \<and>
     (sl_session l \<noteq> None \<longrightarrow> sl_fault l' = sl_fault l) \<and> (xl_lost l \<longrightarrow> xl_lost l')"

text \<open>The connection is reported once, and before anything else; what could not be posted counts too.\<close>

fun connect_first :: "(fd \<times> int \<times> bool) list \<Rightarrow> bool" where
  "connect_first [] = True"
| "connect_first ((ev, err, pass) # ms) =
     (if ev = FD_CONNECT \<and> err = 0 \<and> pass then True
      else if pass \<and> (ev = FD_READ \<or> ev = FD_WRITE) then False else connect_first ms)"

lemma connect_first_append:
  "connect_first (ms @ ns) \<longleftrightarrow> connect_first ms \<and> ((FD_CONNECT, 0, True) \<in> set ms \<or> connect_first ns)"
  by (induction ms rule: connect_first.induct) auto

definition connects :: "'s SecureLayer \<Rightarrow> nat" where
  "connects l = length (filter (\<lambda>m. fst m = FD_CONNECT) (xl_tried l))"

definition conn_ok :: "'s SecureLayer \<Rightarrow> bool" where
  "conn_ok l \<longleftrightarrow> xl_socket l \<and> (\<not> xl_lost l \<longrightarrow> xl_posted l = xl_tried l) \<and> connect_first (xl_tried l) \<and>
     (sl_bHandshakeReady l \<longrightarrow> sl_bConnectNotified l) \<and>
     (if sl_bConnectNotified l then connects l = 1 \<and> (FD_CONNECT, 0, True) \<in> set (xl_tried l) else connects l = 0)"

lemma Xl_PostMessage_posted:
  assumes "l' = snd (Xl_PostMessage ev err pass l)"
  shows "xl_tried l' = xl_tried l @ [(ev, err, pass)]" "xl_lost l \<Longrightarrow> xl_lost l'"
    "xl_lost l' \<or> xl_posted l' = xl_posted l @ [(ev, err, pass)]" "xl_lost l' \<or> fst (Xl_PostMessage ev err pass l)"
  using assms by (auto simp: Xl_PostMessage_def split: list.split bool.split)

lemma Xl_TriggerEvent_posts:
  assumes "xl_socket l"
  obtains m where "Xl_TriggerEvent ev err pass l = Xl_PostMessage ev err pass m"
    "xl_tried m = xl_tried l" "xl_lost m = xl_lost l" "xl_posted m = xl_posted l"
proof
  show "Xl_TriggerEvent ev err pass l = Xl_PostMessage ev err pass
      (if ev = FD_CONNECT \<and> err \<noteq> 0 \<or> ev = FD_CLOSE \<and> err \<noteq> 0 then (Xl_SetLayerState aborted l)\<lparr>xl_critical := err\<rparr>
       else if ev = FD_CLOSE then Xl_SetLayerState closed l else l)"
    using assms by (simp add: Xl_TriggerEvent_def)
qed (simp_all add: Xl_SetLayerState_def)

lemma Xl_TriggerEvent_posted:
  assumes "xl_socket l"
  shows "xl_tried (snd (Xl_TriggerEvent ev err pass l)) = xl_tried l @ [(ev, err, pass)]"
    "xl_lost (snd (Xl_TriggerEvent ev err pass l)) \<or> xl_posted (snd (Xl_TriggerEvent ev err pass l)) = xl_posted l @ [(ev, err, pass)]"
    "xl_lost (snd (Xl_TriggerEvent ev err pass l)) \<or> fst (Xl_TriggerEvent ev err pass l)"
proof -
  obtain m where m: "Xl_TriggerEvent ev err pass l = Xl_PostMessage ev err pass m"
      "xl_tried m = xl_tried l" "xl_lost m = xl_lost l" "xl_posted m = xl_posted l"
    using assms by (rule Xl_TriggerEvent_posts)
  show "xl_tried (snd (Xl_TriggerEvent ev err pass l)) = xl_tried l @ [(ev, err, pass)]"
    "xl_lost (snd (Xl_TriggerEvent ev err pass l)) \<or> xl_posted (snd (Xl_TriggerEvent ev err pass l)) = xl_posted l @ [(ev, err, pass)]"
    "xl_lost (snd (Xl_TriggerEvent ev err pass l)) \<or> fst (Xl_TriggerEvent ev err pass l)"
    unfolding m(1) using Xl_PostMessage_posted(1,3,4) [OF refl, where l = m] m(2-4) by simp_all
qed

lemma Xl_TriggerEvent_lost [simp]:
  assumes "xl_lost l"
  shows "xl_lost (snd (Xl_TriggerEvent ev err pass l))"
proof (cases "xl_socket l")
  case True
  obtain m where m: "Xl_TriggerEvent ev err pass l = Xl_PostMessage ev err pass m" "xl_lost m = xl_lost l"
    by (rule Xl_TriggerEvent_posts [OF True])
  then show ?thesis
    using Xl_PostMessage_posted(2) [OF refl, where l = m] assms by simp
qed (simp add: Xl_TriggerEvent_def assms)

lemma Xl_TriggerEvent_state [simp]:
  "xl_state (snd (Xl_TriggerEvent FD_CONNECT 0 pass l)) = xl_state l" "xl_critical (snd (Xl_TriggerEvent FD_CONNECT 0 pass l)) = xl_critical l"
  "xl_changes (snd (Xl_TriggerEvent FD_CONNECT 0 pass l)) = xl_changes l"
  "xl_state (snd (Xl_TriggerEvent FD_READ err pass l)) = xl_state l" "xl_critical (snd (Xl_TriggerEvent FD_READ err pass l)) = xl_critical l"
  "xl_changes (snd (Xl_TriggerEvent FD_READ err pass l)) = xl_changes l"
  "xl_state (snd (Xl_TriggerEvent FD_WRITE err pass l)) = xl_state l" "xl_critical (snd (Xl_TriggerEvent FD_WRITE err pass l)) = xl_critical l"
  "xl_changes (snd (Xl_TriggerEvent FD_WRITE err pass l)) = xl_changes l"
  by (auto simp: Xl_TriggerEvent_def Xl_PostMessage_def split: list.split bool.split)

lemma FinishHandshake_result:
  assumes "FinishHandshake p l = (ok, l')"
  shows "finish_frame l l'" "conn_ok l \<Longrightarrow> conn_ok l'"
proof -
  show "finish_frame l l'"
    using assms by (auto simp: FinishHandshake_def null_call_def Let_def finish_frame_def split: if_splits option.splits prod.splits)
  have post: "conn_ok (snd (Xl_TriggerEvent FD_CONNECT 0 True m))"
    if "conn_ok l" "xl_socket m = xl_socket l" "xl_tried m = xl_tried l" "xl_lost m = xl_lost l" "xl_posted m = xl_posted l"
      "sl_bConnectNotified m" "\<not> sl_bConnectNotified l" for m
    using that Xl_TriggerEvent_posted [of m FD_CONNECT 0 True] Xl_TriggerEvent_lost [of m FD_CONNECT 0 True]
    by (auto simp: conn_ok_def connects_def connect_first_append)
  show "conn_ok l \<Longrightarrow> conn_ok l'"
    using assms by (auto simp: FinishHandshake_def null_call_def Let_def split: if_splits option.splits prod.splits intro!: post)
      (auto simp: conn_ok_def connects_def)
qed

section \<open>Pumping\<close>

definition pump_frame :: "'s SecureLayer \<Rightarrow> 's SecureLayer \<Rightarrow> bool" where
  "pump_frame l l' \<longleftrightarrow>
     xl_state l' = xl_state l \<and> xl_critical l' = xl_critical l \<and> xl_socket l' = xl_socket l \<and>
     xl_changes l' = xl_changes l \<and> xl_recvScript l' = xl_recvScript l \<and> xl_shutdownOk l' = xl_shutdownOk l \<and>
     xl_received l' = xl_received l \<and> xl_shutdowns l' = xl_shutdowns l \<and> sl_hTransport l' = sl_hTransport l \<and>
     sl_psk l' = sl_psk l \<and> sl_serverName l' = sl_serverName l \<and>
     sl_bHandshakeStarted l' = sl_bHandshakeStarted l \<and> sl_bPeerEofDelivered l' = sl_bPeerEofDelivered l \<and>
     sl_pendingShutdown l' = sl_pendingShutdown l \<and> sl_transportLoadError l' = sl_transportLoadError l \<and>
     sl_fed l' = sl_fed l \<and> sl_delivered l' = sl_delivered l \<and> sl_printed l' = sl_printed l"

lemma pump_frame_refl [simp]: "pump_frame l l"
  by (simp add: pump_frame_def)

lemma pump_frame_trans: "pump_frame l l' \<Longrightarrow> pump_frame l' l'' \<Longrightarrow> pump_frame l l''"
  by (simp add: pump_frame_def)

lemma parts_pump_frame:
  "flush_frame l l' \<Longrightarrow> pump_frame l l'" "drain_frame l l' \<Longrightarrow> pump_frame l l'" "finish_frame l l' \<Longrightarrow> pump_frame l l'"
  by (simp_all add: flush_frame_def drain_frame_def finish_frame_def pump_frame_def)

text \<open>The fields each part reads.\<close>

lemma frame_congs:
  "xl_tried l' = xl_tried l \<Longrightarrow> xl_lost l' = xl_lost l \<Longrightarrow> xl_posted l' = xl_posted l \<Longrightarrow> xl_socket l' = xl_socket l \<Longrightarrow>
     sl_bHandshakeReady l' = sl_bHandshakeReady l \<Longrightarrow> sl_bConnectNotified l' = sl_bConnectNotified l \<Longrightarrow> conn_ok l' \<longleftrightarrow> conn_ok l"
  "sl_pendingTls l' = sl_pendingTls l \<Longrightarrow> sl_pendingTlsOffset l' = sl_pendingTlsOffset l \<Longrightarrow> xl_sent l' = xl_sent l \<Longrightarrow>
     sl_drained l' = sl_drained l \<Longrightarrow> out_ok l' \<longleftrightarrow> out_ok l"
  "sl_plaintext l' = sl_plaintext l \<Longrightarrow> sl_plaintextOffset l' = sl_plaintextOffset l \<Longrightarrow> sl_delivered l' = sl_delivered l \<Longrightarrow>
     sl_read l' = sl_read l \<Longrightarrow> in_ok l' \<longleftrightarrow> in_ok l"
  "sl_plaintext l' = sl_plaintext l \<Longrightarrow> sl_plaintextOffset l' = sl_plaintextOffset l \<Longrightarrow> sl_bReceivePaused l' = sl_bReceivePaused l \<Longrightarrow>
     sl_bPeerReadClosed l' = sl_bPeerReadClosed l \<Longrightarrow> xl_lost l' = xl_lost l \<Longrightarrow> paused_ok l' \<longleftrightarrow> paused_ok l"
  "sl_plaintext l' = sl_plaintext l \<Longrightarrow> sl_plaintextOffset l' = sl_plaintextOffset l \<Longrightarrow> BufferedPlaintext l' = BufferedPlaintext l"
  by (simp_all add: conn_ok_def connects_def out_ok_def in_ok_def paused_ok_def BufferedPlaintext_def)

lemma flush_frame_parts:
  assumes "flush_frame l l'"
  shows "conn_ok l' \<longleftrightarrow> conn_ok l" "in_ok l' \<longleftrightarrow> in_ok l" "paused_ok l' \<longleftrightarrow> paused_ok l" "BufferedPlaintext l' = BufferedPlaintext l"
  by (rule frame_congs; use assms in \<open>simp add: flush_frame_def\<close>)+

lemma drain_frame_parts:
  assumes "drain_frame l l'"
  shows "conn_ok l' \<longleftrightarrow> conn_ok l" "out_ok l' \<longleftrightarrow> out_ok l"
  by (rule frame_congs; use assms in \<open>simp add: drain_frame_def\<close>)+

lemma finish_frame_parts:
  assumes "finish_frame l l'"
  shows "in_ok l' \<longleftrightarrow> in_ok l" "out_ok l' \<longleftrightarrow> out_ok l" "BufferedPlaintext l' = BufferedPlaintext l" "paused_ok l \<Longrightarrow> paused_ok l'"
proof -
  show "in_ok l' \<longleftrightarrow> in_ok l" "out_ok l' \<longleftrightarrow> out_ok l" "BufferedPlaintext l' = BufferedPlaintext l"
    by (rule frame_congs; use assms in \<open>simp add: finish_frame_def\<close>)+
  then show "paused_ok l \<Longrightarrow> paused_ok l'"
    using assms by (auto simp: finish_frame_def paused_ok_def)
qed

text \<open>What holds while a session lives.\<close>

definition live :: "'s SecureLayer \<Rightarrow> bool" where
  "live l \<longleftrightarrow> out_ok l \<and> in_ok l \<and> conn_ok l \<and> paused_ok l \<and> sl_session l \<noteq> None \<and> \<not> sl_fault l"

lemma live_parts:
  "FlushTls p l = (ok, l') \<Longrightarrow> live l \<Longrightarrow> live l'"
  "DrainPlaintext p l = (ok, l') \<Longrightarrow> live l \<Longrightarrow> live l'"
  "FinishHandshake p l = (ok, l') \<Longrightarrow> live l \<Longrightarrow> live l'"
proof -
  show "live l'" if r: "FlushTls p l = (ok, l')" and l: "live l"
    using FlushTls_result [OF r] flush_frame_parts [of l l'] l by (auto simp: live_def flush_frame_def)
  show "live l'" if r: "DrainPlaintext p l = (ok, l')" and l: "live l"
    using DrainPlaintext_result [OF r] drain_frame_parts [OF DrainPlaintext_result(1) [OF r]] l by (auto simp: live_def drain_frame_def)
  show "live l'" if r: "FinishHandshake p l = (ok, l')" and l: "live l"
    using FinishHandshake_result [OF r] finish_frame_parts [OF FinishHandshake_result(1) [OF r]] l by (auto simp: live_def finish_frame_def)
qed

text \<open>
  What the session promises: it gives plaintext, or the end of it, only after the handshake, and
  reading and writing do not undo the handshake.
\<close>

definition session_ok :: "'s SecureEnv \<Rightarrow> bool" where
  "session_ok p \<longleftrightarrow>
     (\<forall>s n r bs s'. se_read_plain p s n = ((r, bs), s') \<longrightarrow>
        (0 < se_is_ready p s \<longrightarrow> 0 < se_is_ready p s') \<and> (r = PLST_EOF \<or> (r = PLST_OK \<and> bs \<noteq> []) \<longrightarrow> 0 < se_is_ready p s')) \<and>
     (\<forall>s n r bs s'. se_drain_tls p s n = ((r, bs), s') \<longrightarrow> 0 < se_is_ready p s \<longrightarrow> 0 < se_is_ready p s')"

definition session_ready :: "'s SecureEnv \<Rightarrow> 's SecureLayer \<Rightarrow> bool" where
  "session_ready p l \<longleftrightarrow> (\<exists>s. sl_session l = Some s \<and> 0 < se_is_ready p s)"

definition data_ready :: "'s SecureLayer \<Rightarrow> bool" where
  "data_ready l \<longleftrightarrow> (BufferedPlaintext l \<noteq> 0 \<or> sl_bPeerReadClosed l \<longrightarrow> sl_bHandshakeReady l)"

definition data_expected :: "'s SecureEnv \<Rightarrow> 's SecureLayer \<Rightarrow> bool" where
  "data_expected p l \<longleftrightarrow> (BufferedPlaintext l \<noteq> 0 \<or> sl_bPeerReadClosed l \<longrightarrow> sl_bHandshakeReady l \<or> session_ready p l)"

lemma drain_loop_expected:
  assumes "drain_loop p l = (ok, l')" "session_ok p" "data_expected p l"
  shows "data_expected p l'"
  using assms
proof (induction p l arbitrary: ok l' rule: drain_loop.induct)
  case (1 p l)
  show ?case
  proof (cases "MAX_BUFFERED_DATA \<le> BufferedPlaintext l \<or> sl_session l = None")
    case True
    then show ?thesis
      using 1(2,4) by (subst (asm) drain_loop.simps)
        (auto simp: data_expected_def session_ready_def BufferedPlaintext_def null_call_def split: if_splits)
  next
    case False
    then obtain s where s: "\<not> MAX_BUFFERED_DATA \<le> BufferedPlaintext l" "sl_session l = Some s"
      by auto
    obtain res bs s' where r: "se_read_plain p s (min TLS_CHUNK (MAX_BUFFERED_DATA - BufferedPlaintext l)) = ((res, bs), s')"
      by (metis surj_pair)
    let ?l = "l\<lparr>sl_session := Some s'\<rparr>"
    let ?l2 = "?l\<lparr>sl_plaintext := sl_plaintext l @ bs, sl_read := sl_read l @ bs\<rparr>"
    have eq: "drain_loop p l = (if res = PLST_EOF then (True, ?l\<lparr>sl_bPeerReadClosed := True\<rparr>)
        else if res = PLST_WOULD_BLOCK then (True, if PLAINTEXT_HIGH_WATER \<le> BufferedPlaintext l then ?l\<lparr>sl_bReceivePaused := True\<rparr> else ?l)
        else if res \<noteq> PLST_OK then (False, Xl_SetLastError WSAECONNABORTED ?l)
        else if bs = [] then (True, ?l) else drain_loop p ?l2)"
      using s r by (subst drain_loop.simps) (simp add: Let_def)
    have keeps: "0 < se_is_ready p s \<Longrightarrow> 0 < se_is_ready p s'" and gives: "res = PLST_EOF \<or> (res = PLST_OK \<and> bs \<noteq> []) \<Longrightarrow> 0 < se_is_ready p s'"
      using 1(3) r unfolding session_ok_def by blast+
    show ?thesis
    proof (cases "res = PLST_OK \<and> bs \<noteq> []")
      case True
      then have "drain_loop p ?l2 = (ok, l')"
        using eq 1(2) by simp
      moreover have "data_expected p ?l2"
        using gives True by (simp add: data_expected_def session_ready_def)
      ultimately show ?thesis
        using 1(1) [OF s r [symmetric] refl refl, of ok l'] 1(3) True by simp
    next
      case False
      have "data_expected p ?l"
        using 1(4) s(2) keeps by (auto simp: data_expected_def session_ready_def BufferedPlaintext_def)
      then show ?thesis
        using eq 1(2) False gives by (auto simp: data_expected_def session_ready_def BufferedPlaintext_def split: if_splits)
    qed
  qed
qed

lemma FlushTls_ready:
  assumes "FlushTls p l = (ok, l')" "session_ok p" "session_ready p l"
  shows "session_ready p l'"
  using assms
proof (induction p l arbitrary: ok l' rule: FlushTls.induct)
  case (1 p l)
  then obtain s where s: "sl_session l = Some s" "0 < se_is_ready p s"
    by (auto simp: session_ready_def)
  show ?case
  proof (cases "HasPendingTls l")
    case True
    obtain r l1 where r: "Xl_SendNext (drop (sl_pendingTlsOffset l) (sl_pendingTls l)) l = (r, l1)"
      by fastforce
    have ready: "session_ready p l1"
      using Xl_SendNext_sent(2) [OF r] s by (simp add: session_ready_def)
    have eq: "FlushTls p l = (case r of None \<Rightarrow> (xl_lastError l1 = WSAEWOULDBLOCK, l1)
        | Some n \<Rightarrow> if n = 0 then (False, Xl_SetLastError WSAECONNRESET l1)
            else FlushTls p (l1\<lparr>sl_pendingTlsOffset := sl_pendingTlsOffset l + n\<rparr>))"
      using s True r by (subst FlushTls.simps) simp
    show ?thesis
    proof (cases "r = None \<or> r = Some 0")
      case True
      then show ?thesis
        using eq 1(3) ready by (auto simp: session_ready_def)
    next
      case False
      then obtain n where n: "r = Some n" "n \<noteq> 0"
        by auto
      moreover have "session_ready p (l1\<lparr>sl_pendingTlsOffset := sl_pendingTlsOffset l + n\<rparr>)"
        using ready by (simp add: session_ready_def)
      ultimately show ?thesis
        using 1(1) [OF s(1) True r [symmetric] n, of ok l'] 1(3,4) eq by simp
    qed
  next
    case False
    obtain res chunk s' where d: "se_drain_tls p s TLS_CHUNK = ((res, chunk), s')"
      by (metis surj_pair)
    let ?l = "l\<lparr>sl_pendingTls := [], sl_pendingTlsOffset := 0, sl_session := Some s'\<rparr>"
    let ?l2 = "?l\<lparr>sl_pendingTls := chunk, sl_drained := sl_drained l @ chunk\<rparr>"
    have eq: "FlushTls p l = (if res \<noteq> PLST_OK then (False, Xl_SetLastError WSAECONNABORTED ?l) else if chunk = [] then (True, ?l)
        else FlushTls p ?l2)"
      using s False d by (subst FlushTls.simps) (simp add: Let_def)
    have "session_ready p ?l" "session_ready p ?l2"
      using s(2) d 1(4) unfolding session_ready_def session_ok_def by auto
    then show ?thesis
      using 1(2) [OF s(1) False d [symmetric] refl refl, of ok l'] 1(3,4) eq by (auto simp: session_ready_def split: if_splits)
  qed
qed

lemma pump_step_result:
  assumes "pump_step p l = (ok, l')"
  shows "pump_frame l l'" "live l \<Longrightarrow> live l'" "session_ok p \<Longrightarrow> live l \<Longrightarrow> data_ready l \<Longrightarrow> ok \<Longrightarrow> data_ready l'"
proof -
  obtain b1 l1 where 1: "DrainPlaintext p l = (b1, l1)" by fastforce
  obtain b2 l2 where 2: "FlushTls p l1 = (b2, l2)" by fastforce
  obtain b3 l3 where 3: "FinishHandshake p l2 = (b3, l3)" by fastforce
  have l': "l' = l1 \<or> l' = l2 \<or> l' = l3" and ok: "ok \<Longrightarrow> b1 \<and> b2 \<and> b3 \<and> l' = l3"
    using assms 1 2 3 by (auto simp: pump_step_def split: if_splits)
  have f: "pump_frame l l1" "pump_frame l l2" "pump_frame l l3"
    using DrainPlaintext_result(1) [OF 1] FlushTls_result [OF 2] FinishHandshake_result(1) [OF 3] parts_pump_frame pump_frame_trans by blast+
  then show "pump_frame l l'"
    using l' by blast
  show "live l \<Longrightarrow> live l'"
    using l' live_parts(2) [OF 1] live_parts(1) [OF 2] live_parts(3) [OF 3] by blast
  show "data_ready l'" if "session_ok p" "live l" "data_ready l" ok
  proof -
    have "data_expected p (l\<lparr>sl_plaintext := drop (sl_plaintextOffset l) (sl_plaintext l), sl_plaintextOffset := 0\<rparr>)"
      using that(3) by (auto simp: data_expected_def data_ready_def BufferedPlaintext_def)
    then have "data_expected p l1"
      using drain_loop_expected [OF 1 [unfolded DrainPlaintext_def] that(1)] by blast
    moreover have "sl_bHandshakeReady l2 = sl_bHandshakeReady l1" "sl_bPeerReadClosed l2 = sl_bPeerReadClosed l1"
      using FlushTls_result [OF 2] by (simp_all add: flush_frame_def)
    ultimately have "data_expected p l2"
      using FlushTls_ready [OF 2 that(1)] FlushTls_result [OF 2] flush_frame_parts(4) [of l1 l2] unfolding data_expected_def by metis
    moreover have "sl_bHandshakeReady l3 \<longleftrightarrow> sl_bHandshakeReady l2 \<or> session_ready p l2"
      using 3 ok that(4) by (auto simp: FinishHandshake_def session_ready_def null_call_def Let_def split: if_splits option.splits prod.splits)
    ultimately show ?thesis
      using FinishHandshake_result(1) [OF 3] finish_frame_parts(3) [OF FinishHandshake_result(1) [OF 3]] ok that(4)
      by (simp add: data_ready_def data_expected_def finish_frame_def)
  qed
qed

lemma feed_loop_unfold:
  assumes "chunk \<noteq> []" "sl_session l = Some s" "se_feed_tls p s chunk = ((res, consumed), s')"
    and "after (l\<lparr>sl_session := Some s', sl_fed := sl_fed l @ take consumed chunk\<rparr>) = (b, l1)"
  shows "feed_loop after p chunk l =
    (if res \<noteq> PLST_OK \<or> consumed = 0 then (False, Xl_SetLastError WSAECONNABORTED (l\<lparr>sl_session := Some s'\<rparr>))
     else if b then feed_loop after p (drop consumed chunk) l1 else (False, l1))"
  using assms by (subst feed_loop.simps) (simp add: Let_def split: bool.split)

lemma live_cong:
  assumes "live l" "xl_tried l' = xl_tried l" "xl_lost l' = xl_lost l" "xl_posted l' = xl_posted l" "xl_socket l' = xl_socket l" "sl_bHandshakeReady l' = sl_bHandshakeReady l"
    "sl_bConnectNotified l' = sl_bConnectNotified l" "sl_pendingTls l' = sl_pendingTls l" "sl_pendingTlsOffset l' = sl_pendingTlsOffset l"
    "xl_sent l' = xl_sent l" "sl_drained l' = sl_drained l" "sl_plaintext l' = sl_plaintext l" "sl_plaintextOffset l' = sl_plaintextOffset l"
    "sl_delivered l' = sl_delivered l" "sl_read l' = sl_read l" "sl_bReceivePaused l' = sl_bReceivePaused l"
    "sl_bPeerReadClosed l' = sl_bPeerReadClosed l" "sl_session l' \<noteq> None" "\<not> sl_fault l'"
  shows "live l'"
  using assms(1,18,19) frame_congs(1) [OF assms(2-7)] frame_congs(2) [OF assms(8-11)] frame_congs(3) [OF assms(12-15)]
    frame_congs(4) [OF assms(12,13,16,17,3)] by (simp add: live_def)

lemma live_session: "live l \<Longrightarrow> sl_session l \<noteq> None \<and> \<not> sl_fault l"
  by (simp add: live_def)

lemma live_update:
  "live l \<Longrightarrow> live (l\<lparr>sl_session := Some s'\<rparr>)" "live l \<Longrightarrow> live (l\<lparr>sl_session := Some s', sl_fed := b\<rparr>)"
  "live l \<Longrightarrow> live (Xl_SetLastError e l)"
  by (rule live_cong [of l]; use live_session [of l] in simp)+

text \<open>What holds of a whole fed chunk; \<open>after\<close> is the pumping step or the draining alone.\<close>

definition feed_after :: "'s SecureEnv \<Rightarrow> ('s SecureLayer \<Rightarrow> bool \<times> 's SecureLayer) \<Rightarrow> bool" where
  "feed_after p after \<longleftrightarrow> (\<forall>l ok l'. after l = (ok, l') \<longrightarrow> live l \<longrightarrow> pump_frame l l' \<and> live l')"

lemma feed_after_steps: "feed_after p (pump_step p)" "feed_after p (DrainPlaintext p)"
  unfolding feed_after_def using pump_step_result(1,2) apply blast
  using DrainPlaintext_result(1) parts_pump_frame(2) live_parts(2) by blast

lemma feed_loop_result:
  assumes "feed_loop after p chunk l = (ok, l')" "feed_after p after" "live l"
  shows "live l' \<and> (\<exists>k. pump_frame (l\<lparr>sl_fed := sl_fed l @ take k chunk\<rparr>) l' \<and> (ok \<longrightarrow> length chunk \<le> k))"
  using assms
proof (induction "length chunk" arbitrary: chunk l ok l' rule: less_induct)
  case less
  show ?case
  proof (cases "chunk = []")
    case True
    then show ?thesis
      using less.prems by (subst (asm) feed_loop.simps) auto
  next
    case False
    obtain s where s: "sl_session l = Some s"
      using less.prems(3) by (auto simp: live_def)
    obtain res consumed s' where f: "se_feed_tls p s chunk = ((res, consumed), s')"
      by (metis surj_pair)
    let ?l = "l\<lparr>sl_session := Some s', sl_fed := sl_fed l @ take consumed chunk\<rparr>"
    obtain b l1 where a: "after ?l = (b, l1)"
      by fastforce
    have l1: "pump_frame ?l l1" "live l1"
      using less.prems(2) live_update(2) [OF less.prems(3)] a unfolding feed_after_def by blast+
    note eq = feed_loop_unfold [where after = after, OF False s f a]
    consider (bad) "res \<noteq> PLST_OK \<or> consumed = 0" | (stop) "res = PLST_OK" "consumed \<noteq> 0" "\<not> b" | (go) "res = PLST_OK" "consumed \<noteq> 0" "b"
      by blast
    then show ?thesis
    proof cases
      case bad
      then have "l' = Xl_SetLastError WSAECONNABORTED (l\<lparr>sl_session := Some s'\<rparr>)" "\<not> ok"
        using eq less.prems(1) by auto
      moreover from this have "pump_frame (l\<lparr>sl_fed := sl_fed l @ take 0 chunk\<rparr>) l'"
        by (simp add: pump_frame_def)
      ultimately show ?thesis
        using live_update(3) [OF live_update(1) [OF less.prems(3)]] by blast
    next
      case stop
      then have "l' = l1" "\<not> ok"
        using eq less.prems(1) by auto
      moreover from this have "pump_frame (l\<lparr>sl_fed := sl_fed l @ take consumed chunk\<rparr>) l'"
        using l1(1) by (simp add: pump_frame_def)
      ultimately show ?thesis
        using l1(2) by blast
    next
      case go
      then have "feed_loop after p (drop consumed chunk) l1 = (ok, l')"
        using eq less.prems(1) by simp
      moreover have "length (drop consumed chunk) < length chunk"
        using go False by simp
      ultimately obtain k where k: "live l'" "pump_frame (l1\<lparr>sl_fed := sl_fed l1 @ take k (drop consumed chunk)\<rparr>) l'"
          "ok \<longrightarrow> length (drop consumed chunk) \<le> k"
        using less.hyps [of "drop consumed chunk" l1 ok l'] less.prems(2) l1(2) by blast
      have "take consumed chunk @ take k (drop consumed chunk) = take (consumed + k) chunk"
        by (simp add: take_add)
      then have "pump_frame (l\<lparr>sl_fed := sl_fed l @ take (consumed + k) chunk\<rparr>) l'"
        using k(2) l1(1) by (simp add: pump_frame_def)
      moreover have "ok \<longrightarrow> length chunk \<le> consumed + k"
        using k(3) by auto
      ultimately show ?thesis
        using k(1) by blast
    qed
  qed
qed

lemma feed_loop_data_ready:
  assumes "feed_loop (pump_step p) p chunk l = (True, l')" "session_ok p" "live l" "data_ready l"
  shows "data_ready l'"
  using assms
proof (induction "length chunk" arbitrary: chunk l rule: less_induct)
  case less
  show ?case
  proof (cases "chunk = []")
    case True
    then show ?thesis
      using less.prems by (subst (asm) feed_loop.simps) auto
  next
    case False
    obtain s where s: "sl_session l = Some s"
      using less.prems(3) by (auto simp: live_def)
    obtain res consumed s' where f: "se_feed_tls p s chunk = ((res, consumed), s')"
      by (metis surj_pair)
    let ?l = "l\<lparr>sl_session := Some s', sl_fed := sl_fed l @ take consumed chunk\<rparr>"
    obtain b l1 where a: "pump_step p ?l = (b, l1)"
      by fastforce
    have go: "res = PLST_OK" "consumed \<noteq> 0" "b" "feed_loop (pump_step p) p (drop consumed chunk) l1 = (True, l')"
      using feed_loop_unfold [where after = "pump_step p", OF False s f a] less.prems(1) by (auto split: if_splits)
    have "data_ready ?l"
      using less.prems(4) by (simp add: data_ready_def BufferedPlaintext_def)
    then have "live l1" "data_ready l1"
      using pump_step_result [OF a] live_update(2) [OF less.prems(3)] less.prems(2) go(3) by blast+
    then show ?thesis
      using less.hyps [of "drop consumed chunk" l1] go less.prems(2) False by simp
  qed
qed

text \<open>The loop over the network.\<close>

definition loop_frame :: "'s SecureLayer \<Rightarrow> 's SecureLayer \<Rightarrow> bool" where
  "loop_frame l l' \<longleftrightarrow>
     xl_state l' = xl_state l \<and> xl_critical l' = xl_critical l \<and> xl_socket l' = xl_socket l \<and>
     xl_changes l' = xl_changes l \<and> xl_shutdownOk l' = xl_shutdownOk l \<and> xl_shutdowns l' = xl_shutdowns l \<and>
     sl_hTransport l' = sl_hTransport l \<and> sl_psk l' = sl_psk l \<and> sl_serverName l' = sl_serverName l \<and>
     sl_bHandshakeStarted l' = sl_bHandshakeStarted l \<and> sl_bPeerEofDelivered l' = sl_bPeerEofDelivered l \<and>
     sl_pendingShutdown l' = sl_pendingShutdown l \<and> sl_transportLoadError l' = sl_transportLoadError l \<and>
     sl_delivered l' = sl_delivered l \<and> sl_printed l' = sl_printed l"

lemma loop_frame_refl [simp]: "loop_frame l l"
  by (simp add: loop_frame_def)

lemma loop_frame_trans: "loop_frame l l' \<Longrightarrow> loop_frame l' l'' \<Longrightarrow> loop_frame l l''"
  by (simp add: loop_frame_def)

lemma pump_loop_frame: "pump_frame l l' \<Longrightarrow> loop_frame l l'"
  by (simp add: pump_frame_def loop_frame_def)

lemma raw_recv_result:
  assumes "raw_recv n l = (r, l')"
  shows "loop_frame l l'" "live l \<Longrightarrow> live l'" "sl_fed l' = sl_fed l" "r = None \<Longrightarrow> xl_received l' = xl_received l"
    "r = Some bs \<Longrightarrow> xl_received l' = xl_received l @ bs" "data_ready l' = data_ready l"
proof -
  show "loop_frame l l'" "sl_fed l' = sl_fed l" "r = None \<Longrightarrow> xl_received l' = xl_received l"
      "r = Some bs \<Longrightarrow> xl_received l' = xl_received l @ bs" "data_ready l' = data_ready l"
    using assms by (auto simp: raw_recv_def loop_frame_def data_ready_def BufferedPlaintext_def split: list.splits recv_result.splits)
  show "live l \<Longrightarrow> live l'"
    by (rule live_cong [of l]; use assms live_session [of l] in \<open>auto simp: raw_recv_def split: list.splits recv_result.splits\<close>)
qed

lemma loop_frame_error [simp]: "loop_frame l (Xl_SetLastError e l)" "data_ready (Xl_SetLastError e l) = data_ready l"
  by (simp_all add: loop_frame_def data_ready_def BufferedPlaintext_def)

lemma Xl_ReceiveNext_result:
  assumes "Xl_ReceiveNext n l = (r, l')"
  shows "loop_frame l l'" "live l \<Longrightarrow> live l'" "sl_fed l' = sl_fed l" "r = None \<Longrightarrow> xl_received l' = xl_received l"
    "r = Some bs \<Longrightarrow> xl_received l' = xl_received l @ bs" "data_ready l' = data_ready l"
proof -
  have all: "loop_frame l l' \<and> (live l \<longrightarrow> live l') \<and> sl_fed l' = sl_fed l \<and> (r = None \<longrightarrow> xl_received l' = xl_received l) \<and>
    (\<forall>bs. r = Some bs \<longrightarrow> xl_received l' = xl_received l @ bs) \<and> data_ready l' = data_ready l"
  proof (cases "next_error l")
    case None
    then have "raw_recv n l = (r, l')"
      using assms by (simp add: Xl_ReceiveNext_def)
    from raw_recv_result [OF this] show ?thesis
      by blast
  next
    case (Some e)
    then have "r = None" "l' = Xl_SetLastError e l"
      using assms by (simp_all add: Xl_ReceiveNext_def)
    then show ?thesis
      using live_update(3) [of l] by simp
  qed
  then show "loop_frame l l'" "live l \<Longrightarrow> live l'" "sl_fed l' = sl_fed l" "r = None \<Longrightarrow> xl_received l' = xl_received l"
      "r = Some bs \<Longrightarrow> xl_received l' = xl_received l @ bs" "data_ready l' = data_ready l"
    by blast+
qed

text \<open>A chunk from the network, fed.\<close>

lemma fed_chunk:
  assumes "feed_loop after p bs l = (ok, l')" "feed_after p after" "live l" "sl_fed l @ bs = xl_received l"
  shows "live l'" "loop_frame l l'" "ok \<Longrightarrow> sl_fed l' = xl_received l'" "prefix (sl_fed l') (xl_received l')"
proof -
  obtain k where k: "live l'" "pump_frame (l\<lparr>sl_fed := sl_fed l @ take k bs\<rparr>) l'" "ok \<longrightarrow> length bs \<le> k"
    using feed_loop_result [OF assms(1-3)] by blast
  have eq: "sl_fed l' = sl_fed l @ take k bs" "xl_received l' = sl_fed l @ bs"
    using k(2) assms(4) by (simp_all add: pump_frame_def)
  show "loop_frame l l'"
    using k(2) by (simp add: pump_frame_def loop_frame_def)
  show "live l'" "ok \<Longrightarrow> sl_fed l' = xl_received l'" "prefix (sl_fed l') (xl_received l')"
    using k(1,3) eq by (simp_all add: take_is_prefix)
qed

lemma pump_loop_result:
  assumes "pump_loop p l = (ok, l')" "live l" "sl_fed l = xl_received l"
  shows "live l' \<and> loop_frame l l' \<and> (ok \<longrightarrow> sl_fed l' = xl_received l') \<and> prefix (sl_fed l') (xl_received l') \<and>
    (session_ok p \<longrightarrow> data_ready l \<longrightarrow> ok \<longrightarrow> data_ready l')"
  using assms
proof (induction p l arbitrary: ok l' rule: pump_loop.induct)
  case (1 p l)
  obtain r l1 where r: "Xl_ReceiveNext TLS_CHUNK l = (r, l1)"
    by fastforce
  note rr = Xl_ReceiveNext_result [OF r]
  show ?case
  proof (cases "r = None \<or> r = Some []")
    case True
    then have "l' = l1 \<or> \<not> ok \<and> l' = Xl_SetLastError WSAECONNRESET l1"
      using 1(2) r by (subst (asm) pump_loop.simps) auto
    moreover have "sl_fed l1 = xl_received l1"
      using True rr(3,4) rr(5) [of "[]"] 1(4) by auto
    ultimately show ?thesis
      using rr(1,6) rr(2) [OF 1(3)] live_update(3) [of l1] loop_frame_trans [OF rr(1) loop_frame_error(1)] by (elim disjE) simp_all
  next
    case False
    then obtain bs where bs: "r = Some bs" "bs \<noteq> []"
      by auto
    obtain b l2 where f: "feed_loop (pump_step p) p bs l1 = (b, l2)"
      by fastforce
    have "sl_fed l1 @ bs = xl_received l1"
      using rr(3) rr(5) [OF bs(1)] 1(4) by simp
    note fc = fed_chunk [OF f feed_after_steps(1) rr(2) [OF 1(3)] this]
    have frame: "loop_frame l l2"
      using rr(1) fc(2) by (rule loop_frame_trans)
    have dr: "session_ok p \<Longrightarrow> data_ready l \<Longrightarrow> b \<Longrightarrow> data_ready l2"
      using feed_loop_data_ready [of p bs l1 l2] f rr(2) [OF 1(3)] rr(6) by (cases b) simp_all
    have eq: "pump_loop p l = (if \<not> b then (False, l2) else if sl_bReceivePaused l2 then (True, l2) else pump_loop p l2)"
      using r bs f by (subst pump_loop.simps) (simp split: bool.split)
    show ?thesis
    proof (cases "b \<and> \<not> sl_bReceivePaused l2")
      case True
      then have "pump_loop p l2 = (ok, l')"
        using eq 1(2) by simp
      then show ?thesis
        using 1(1) [OF r [symmetric] bs f [symmetric], of ok l'] True fc dr frame loop_frame_trans by blast
    next
      case False
      then show ?thesis
        using eq 1(2) fc dr frame by (auto split: if_splits)
    qed
  qed
qed

lemma PumpTls_result:
  assumes "PumpTls p l = (ok, l')" "live l" "sl_fed l = xl_received l"
  shows "live l'" "loop_frame l l'" "ok \<Longrightarrow> sl_fed l' = xl_received l'" "prefix (sl_fed l') (xl_received l')"
    "session_ok p \<Longrightarrow> data_ready l \<Longrightarrow> ok \<Longrightarrow> data_ready l'"
proof -
  obtain b l1 where s: "pump_step p l = (b, l1)"
    by fastforce
  note ps = pump_step_result [OF s]
  have fed: "sl_fed l1 = xl_received l1"
    using ps(1) assms(3) by (simp add: pump_frame_def)
  have cases: "l' = l1 \<and> (ok \<longrightarrow> b) \<or> pump_loop p l1 = (ok, l') \<and> b"
    using assms(1) s by (auto simp: PumpTls_def split: if_splits)
  show "live l'" "loop_frame l l'" "ok \<Longrightarrow> sl_fed l' = xl_received l'" "prefix (sl_fed l') (xl_received l')"
      "session_ok p \<Longrightarrow> data_ready l \<Longrightarrow> ok \<Longrightarrow> data_ready l'"
    using cases ps assms(2) fed pump_loop_result [of p l1 ok l'] pump_loop_frame [of l l1] loop_frame_trans [of l l1 l'] by auto
qed

lemma close_loop_result:
  assumes "close_loop p l = (ok, l')" "live l" "sl_fed l = xl_received l"
  shows "live l' \<and> loop_frame l l' \<and> (ok \<longrightarrow> sl_fed l' = xl_received l') \<and> prefix (sl_fed l') (xl_received l')"
  using assms
proof (induction p l arbitrary: ok l' rule: close_loop.induct)
  case (1 p l)
  obtain r l1 where r: "raw_recv TLS_CHUNK l = (r, l1)"
    by fastforce
  note rr = raw_recv_result [OF r]
  show ?case
  proof (cases "r = None \<or> r = Some []")
    case True
    then have "l' = l1"
      using 1(2) r by (subst (asm) close_loop.simps) auto
    moreover have "sl_fed l1 = xl_received l1"
      using True rr(3,4) rr(5) [of "[]"] 1(4) by auto
    ultimately show ?thesis
      using rr(1) rr(2) [OF 1(3)] by simp
  next
    case False
    then obtain bs where bs: "r = Some bs" "bs \<noteq> []"
      by auto
    obtain b l2 where f: "feed_loop (DrainPlaintext p) p bs l1 = (b, l2)"
      by fastforce
    have "sl_fed l1 @ bs = xl_received l1"
      using rr(3) rr(5) [OF bs(1)] 1(4) by simp
    note fc = fed_chunk [OF f feed_after_steps(2) rr(2) [OF 1(3)] this]
    have frame: "loop_frame l l2"
      using rr(1) fc(2) by (rule loop_frame_trans)
    have eq: "close_loop p l = (if b then close_loop p l2 else (False, l2))"
      using r bs f by (subst close_loop.simps) (simp split: bool.split)
    show ?thesis
    proof (cases b)
      case True
      then have "close_loop p l2 = (ok, l')"
        using eq 1(2) by simp
      then show ?thesis
        using 1(1) [OF r [symmetric] bs f [symmetric], of ok l'] True fc frame loop_frame_trans by blast
    next
      case False
      then show ?thesis
        using eq 1(2) fc frame by simp
    qed
  qed
qed

end
