(* ===== verification/SecureInv.thy ===== *)
theory SecureInv
  imports SecurePump
begin

text \<open>
  The invariant of the TLS-PSK layer, kept by every message and every call. The messages of the helper window and the calls of the layer above
  arrive in any order; the bytes keep their order in both directions, the connection is
  reported once and first, and as long as the layer lives data that waits to be read has a
  message that says so.
\<close>

section \<open>Invariants\<close>

text \<open>The messages: the connection is reported at most once and first, and the queue is complete unless a message was lost.\<close>

definition msgs_ok :: "'s SecureLayer \<Rightarrow> bool" where
  "msgs_ok l \<longleftrightarrow> xl_socket l \<and> (\<not> xl_lost l \<longrightarrow> xl_posted l = xl_tried l) \<and> connect_first (xl_tried l) \<and> connects l \<le> 1 \<and>
     (sl_bHandshakeReady l \<longrightarrow> sl_bConnectNotified l) \<and>
     (sl_bConnectNotified l \<longrightarrow> connects l = 1 \<and> (FD_CONNECT, 0, True) \<in> set (xl_tried l))"

lemma conn_ok_msgs: "conn_ok l \<longleftrightarrow> msgs_ok l \<and> (\<not> sl_bConnectNotified l \<longrightarrow> connects l = 0)"
  by (auto simp: conn_ok_def msgs_ok_def)

text \<open>What holds in every state.\<close>

definition base_ok :: "'s SecureLayer \<Rightarrow> bool" where
  "base_ok l \<longleftrightarrow> msgs_ok l \<and> \<not> sl_fault l \<and> prefix (xl_sent l) (sl_drained l) \<and> prefix (sl_delivered l) (sl_read l) \<and>
     prefix (sl_fed l) (xl_received l) \<and> xl_state l \<noteq> listening \<and> (xl_state l \<noteq> notsock \<longrightarrow> out_ok l \<and> in_ok l) \<and>
     (xl_state l = notsock \<longrightarrow> sl_session l = None \<and> \<not> sl_bHandshakeReady l)"

text \<open>Before the connection there is nothing.\<close>

definition fresh :: "'s SecureLayer \<Rightarrow> bool" where
  "fresh l \<longleftrightarrow> sl_session l = None \<and> \<not> sl_hTransport l \<and> \<not> sl_bHandshakeStarted l \<and> \<not> sl_bHandshakeReady l \<and> \<not> sl_bConnectNotified l \<and>
     \<not> sl_bPeerReadClosed l \<and> \<not> sl_bReceivePaused l \<and> sl_plaintext l = [] \<and> sl_plaintextOffset l = 0 \<and> sl_pendingTls l = [] \<and>
     sl_pendingTlsOffset l = 0 \<and> connects l = 0 \<and> sl_fed l = xl_received l"

text \<open>Waiting data has a message for the layer above, if it could be posted.\<close>

definition wake :: "'s SecureLayer \<Rightarrow> bool" where
  "wake l \<longleftrightarrow> (sl_bHandshakeReady l \<and> HasPendingRead l \<longrightarrow> (FD_READ, 0, True) \<in> set (xl_tried l))"

text \<open>What holds as long as no error ended the layer.\<close>

definition alive_ok :: "'s SecureLayer \<Rightarrow> bool" where
  "alive_ok l \<longleftrightarrow>
     (xl_state l = connecting \<longrightarrow> fresh l) \<and>
     (xl_state l = connected \<longrightarrow> live l \<and> sl_fed l = xl_received l \<and> data_ready l) \<and>
     (xl_state l = closed \<longrightarrow> sl_bPeerReadClosed l \<or> \<not> sl_bHandshakeReady l)"

definition secure_inv :: "'s SecureLayer \<Rightarrow> bool" where
  "secure_inv l \<longleftrightarrow> base_ok l \<and>
     (xl_critical l = 0 \<longrightarrow> alive_ok l \<and> (xl_state l = connected \<or> xl_state l = closed \<longrightarrow> wake l))"

lemma streams_prefix: "out_ok l \<Longrightarrow> prefix (xl_sent l) (sl_drained l)" "in_ok l \<Longrightarrow> prefix (sl_delivered l) (sl_read l)"
  by (auto simp: out_ok_def in_ok_def prefix_def intro: sym)

lemma live_base:
  assumes "live l" "prefix (sl_fed l) (xl_received l)" "xl_state l \<noteq> notsock" "xl_state l \<noteq> listening"
  shows "base_ok l"
  using assms streams_prefix [of l] by (simp add: base_ok_def live_def conn_ok_msgs)

text \<open>A message that is posted later for the layer above comes after the report of the connection.\<close>

lemma msgs_ok_post:
  assumes "msgs_ok l" "xl_socket l'" "xl_tried l' = xl_tried l @ [(ev, err, pass)]"
    "xl_lost l \<Longrightarrow> xl_lost l'" "xl_lost l' \<or> xl_posted l' = xl_posted l @ [(ev, err, pass)]"
    "sl_bHandshakeReady l' = sl_bHandshakeReady l" "sl_bConnectNotified l' = sl_bConnectNotified l" "ev \<noteq> FD_CONNECT"
    "pass \<and> (ev = FD_READ \<or> ev = FD_WRITE) \<longrightarrow> sl_bConnectNotified l"
  shows "msgs_ok l'"
  using assms by (auto simp: msgs_ok_def connects_def connect_first_append)

lemma Xl_TriggerEvent_dead:
  assumes "xl_socket l" "err \<noteq> 0" "ev = FD_CONNECT \<or> ev = FD_CLOSE"
  shows "xl_state (snd (Xl_TriggerEvent ev err pass l)) = aborted" "xl_critical (snd (Xl_TriggerEvent ev err pass l)) = err"
  using assms by (auto simp: Xl_TriggerEvent_def Xl_PostMessage_def Xl_SetLayerState_def split: list.split bool.split)

text \<open>An error report ends the layer, whatever was going on.\<close>

lemma reported_failure:
  assumes "out_ok l" "in_ok l" "conn_ok l" "\<not> sl_fault l" "prefix (sl_fed l) (xl_received l)" "err \<noteq> 0"
    and "ev = FD_CONNECT \<and> \<not> sl_bConnectNotified l \<or> ev = FD_CLOSE"
  shows "secure_inv (snd (Xl_TriggerEvent ev err True l))"
proof -
  let ?l = "snd (Xl_TriggerEvent ev err True l)"
  have post: "xl_socket l"
    using assms(3) by (simp add: conn_ok_def)
  note posted = Xl_TriggerEvent_posted [OF post, of ev err True] Xl_TriggerEvent_lost [of l ev err True]
  have dead: "xl_state ?l = aborted" "xl_critical ?l \<noteq> 0"
    using Xl_TriggerEvent_dead [OF post assms(6), of ev True] assms(6,7) by auto
  have "msgs_ok ?l"
    using assms(3,6,7) posted(1,2,4) post by (auto simp: conn_ok_def msgs_ok_def connects_def connect_first_append split: if_splits)
  moreover have "out_ok ?l" "in_ok ?l"
    using assms(1,2) by (simp_all add: out_ok_def in_ok_def)
  ultimately show ?thesis
    using dead assms(4,5) streams_prefix [of ?l] by (simp add: secure_inv_def base_ok_def)
qed

lemma Secure_ReportFailure_dead:
  assumes "out_ok l" "in_ok l" "conn_ok l" "\<not> sl_fault l" "prefix (sl_fed l) (xl_received l)"
  shows "secure_inv (Secure_ReportFailure l)"
proof -
  define l1 where "l1 = Xl_SetLastError (if xl_lastError l = 0 then WSAECONNABORTED else xl_lastError l)
    (l\<lparr>sl_printed := sl_printed l @ (if sl_bHandshakeReady l \<and> ((if xl_lastError l = 0 then WSAECONNABORTED else xl_lastError l) = WSAECONNRESET \<or>
      (if xl_lastError l = 0 then WSAECONNABORTED else xl_lastError l) = WSAECONNABORTED \<or>
      (if xl_lastError l = 0 then WSAECONNABORTED else xl_lastError l) = WSAESHUTDOWN) then []
      else [if xl_lastError l = 0 then WSAECONNABORTED else xl_lastError l])\<rparr>)"
  have l1: "out_ok l1" "in_ok l1" "\<not> sl_fault l1" "prefix (sl_fed l1) (xl_received l1)" "conn_ok l1"
    using assms frame_congs(1) [of l1 l] by (simp_all add: l1_def out_ok_def in_ok_def)
  have eq: "Secure_ReportFailure l = snd (if \<not> sl_bConnectNotified l1
      then Xl_TriggerEvent FD_CONNECT
        (if sl_transportLoadError l1 \<noteq> 0 then PROXYLANE_SECURE_LOAD_FAILED else PROXYLANE_SECURE_HANDSHAKE_FAILED) True l1
      else Xl_TriggerEvent FD_CLOSE WSAECONNABORTED True l1)"
    unfolding Secure_ReportFailure_def Let_def l1_def ..
  show ?thesis
    unfolding eq using reported_failure [OF l1(1,2,5,3,4)] by auto
qed

lemma live_failure:
  assumes "live l" "prefix (sl_fed l) (xl_received l)"
  shows "secure_inv (Secure_ReportFailure l)"
  using assms by (intro Secure_ReportFailure_dead) (simp_all add: live_def)

section \<open>Events\<close>

lemma Xl_CallEvent_cases:
  assumes "Xl_CallEvent ev err l = (called, l')"
  obtains (ended) "xl_critical l \<noteq> 0" "\<not> called" "l' = l"
  | (ignored) "xl_critical l = 0" "\<not> called" "l' = l\<lparr>xl_critical := err\<rparr>"
  | (handled) st where "xl_critical l = 0" "called" "l' = Xl_SetLayerState st (l\<lparr>xl_critical := err\<rparr>)"
      "st = (if err \<noteq> 0 then aborted else if ev = FD_CONNECT \<or> ev = FD_ACCEPT then connected else if ev = FD_CLOSE then closed else connected)"
      "xl_state l = (if ev = FD_CONNECT then connecting else if ev = FD_ACCEPT then listening else connected)"
  using assms by (cases ev; auto simp: Xl_CallEvent_def Xl_SetLayerState_def Let_def split: if_splits)

text \<open>Posting for the layer above keeps what lives.\<close>

lemma live_post:
  assumes "live l" "ev = FD_READ \<or> ev = FD_WRITE" "pass \<longrightarrow> sl_bConnectNotified l"
  shows "live (snd (Xl_TriggerEvent ev err pass l))"
proof -
  let ?l = "snd (Xl_TriggerEvent ev err pass l)"
  have post: "xl_socket l" "conn_ok l"
    using assms(1) by (simp_all add: live_def conn_ok_def)
  note posted = Xl_TriggerEvent_posted [OF post(1), of ev err pass] Xl_TriggerEvent_lost [of l ev err pass]
  have "msgs_ok ?l"
    using post assms(2,3) posted(1,2,4) by (intro msgs_ok_post [of l ?l ev err pass]) (auto simp: conn_ok_msgs)
  then have "conn_ok ?l"
    using post(2) assms(2) posted(1) by (auto simp: conn_ok_msgs connects_def)
  moreover have "paused_ok l \<Longrightarrow> paused_ok ?l"
    using posted(4) by (auto simp: paused_ok_def BufferedPlaintext_def)
  ultimately show ?thesis
    using assms(1) frame_congs(2,3) [of ?l l] by (simp add: live_def)
qed

text \<open>A live layer in the connected state, after data may have come.\<close>

lemma connected_inv:
  assumes "live l" "sl_fed l = xl_received l" "data_ready l" "xl_state l = connected" "wake l"
  shows "secure_inv l"
  using assms live_base [of l] by (simp add: secure_inv_def alive_ok_def live_def)

lemma announce:
  assumes "live l" "sl_bHandshakeReady l"
  shows "live (snd (Xl_TriggerEvent FD_READ 0 True l))" "wake (snd (Xl_TriggerEvent FD_READ 0 True l))"
    "data_ready (snd (Xl_TriggerEvent FD_READ 0 True l)) = data_ready l"
proof -
  have post: "xl_socket l" "sl_bConnectNotified l"
    using assms by (simp_all add: live_def conn_ok_def)
  show "live (snd (Xl_TriggerEvent FD_READ 0 True l))"
    using assms(1) post(2) by (intro live_post) auto
  show "wake (snd (Xl_TriggerEvent FD_READ 0 True l))"
    using Xl_TriggerEvent_posted(1) [OF post(1)] by (simp add: wake_def)
  show "data_ready (snd (Xl_TriggerEvent FD_READ 0 True l)) = data_ready l"
    by (simp add: data_ready_def BufferedPlaintext_def)
qed

text \<open>What a state change of the layer does not touch.\<close>

lemma Xl_SetLayerState_own:
  "ExLayer.more (Xl_SetLayerState st l) = ExLayer.more l" "xl_state (Xl_SetLayerState st l) = st"
  "xl_critical (Xl_SetLayerState st l) = xl_critical l" "xl_socket (Xl_SetLayerState st l) = xl_socket l"
  "xl_posts (Xl_SetLayerState st l) = xl_posts l" "xl_posted (Xl_SetLayerState st l) = xl_posted l"
  "xl_tried (Xl_SetLayerState st l) = xl_tried l" "xl_lost (Xl_SetLayerState st l) = xl_lost l"
  "xl_sendScript (Xl_SetLayerState st l) = xl_sendScript l" "xl_recvScript (Xl_SetLayerState st l) = xl_recvScript l"
  "xl_sent (Xl_SetLayerState st l) = xl_sent l" "xl_received (Xl_SetLayerState st l) = xl_received l"
  "xl_shutdowns (Xl_SetLayerState st l) = xl_shutdowns l" "xl_lastError (Xl_SetLayerState st l) = xl_lastError l"
  "xl_shutdownOk (Xl_SetLayerState st l) = xl_shutdownOk l"
  by (simp_all add: Xl_SetLayerState_def)

lemmas Xl_SetLayerState_sel [simp] = Xl_SetLayerState_own own_sel [OF Xl_SetLayerState_own(1)]

lemma moved:
  assumes "l' = Xl_SetLayerState st (l\<lparr>xl_critical := c\<rparr>)"
  shows "live l' = live l" "data_ready l' = data_ready l" "wake l' = wake l" "fresh l' = fresh l" "conn_ok l' = conn_ok l" "msgs_ok l' = msgs_ok l"
    "out_ok l' = out_ok l" "in_ok l' = in_ok l"
proof -
  show "live l' = live l"
    using live_cong [of l l'] live_cong [of l' l] live_session [of l] live_session [of l'] assms by auto
  show "data_ready l' = data_ready l" "wake l' = wake l" "fresh l' = fresh l" "msgs_ok l' = msgs_ok l" "out_ok l' = out_ok l" "in_ok l' = in_ok l"
    "conn_ok l' = conn_ok l"
    using assms by (simp_all add: data_ready_def wake_def fresh_def msgs_ok_def out_ok_def in_ok_def conn_ok_def connects_def HasPendingRead_def
        BufferedPlaintext_def)
qed

lemma OnReceive_inv:
  assumes "live l" "sl_fed l = xl_received l" "data_ready l" "xl_state l = connected" "session_ok p"
  shows "secure_inv (Secure_OnReceive p 0 l)"
proof -
  obtain ok l1 where pump: "PumpTls p l = (ok, l1)"
    by fastforce
  note pt = PumpTls_result [OF pump assms(1,2)]
  show ?thesis
  proof (cases ok)
    case True
    have l1: "sl_fed l1 = xl_received l1" "data_ready l1" "xl_state l1 = connected"
      using pt(2,3,5) assms(3,4,5) True by (simp_all add: loop_frame_def)
    show ?thesis
    proof (cases "sl_bHandshakeReady l1 \<and> HasPendingRead l1")
      case True
      then show ?thesis
        using announce [OF pt(1)] l1 pump \<open>ok\<close> by (simp add: Secure_OnReceive_def connected_inv)
    next
      case False
      then have "wake l1"
        by (auto simp: wake_def)
      then show ?thesis
        using False l1 pt(1) pump \<open>ok\<close> by (auto simp: Secure_OnReceive_def intro: connected_inv)
    qed
  next
    case False
    then show ?thesis
      using live_failure [OF pt(1,4)] pump by (simp add: Secure_OnReceive_def)
  qed
qed

lemma FinishHandshake_flags:
  assumes "FinishHandshake p l = (ok, l')" "xl_socket l"
  shows "set (xl_tried l) \<subseteq> set (xl_tried l')" "sl_bHandshakeReady l \<Longrightarrow> sl_bHandshakeReady l'"
  using assms by (auto simp: FinishHandshake_def null_call_def Let_def Xl_TriggerEvent_posted split: if_splits option.splits prod.splits)

lemma finish_wake:
  assumes "FinishHandshake p l = (ok, l')" "live l" "data_ready l" "wake l"
  shows "data_ready l'" "wake l'"
proof -
  have post: "xl_socket l"
    using assms(2) by (simp add: live_def conn_ok_def)
  note fl = FinishHandshake_flags [OF assms(1) post]
  have frame: "BufferedPlaintext l' = BufferedPlaintext l" "sl_bPeerReadClosed l' = sl_bPeerReadClosed l" "sl_bPeerEofDelivered l' = sl_bPeerEofDelivered l"
    using FinishHandshake_result(1) [OF assms(1)] finish_frame_parts(3) [OF FinishHandshake_result(1) [OF assms(1)]] by (simp_all add: finish_frame_def)
  show "data_ready l'"
    using assms(3) fl(2) frame by (auto simp: data_ready_def)
  show "wake l'"
    using assms(3,4) fl(1) frame by (auto simp: wake_def data_ready_def HasPendingRead_def)
qed

lemma flush_wake:
  assumes "FlushTls p l = (ok, l')"
  shows "data_ready l' = data_ready l" "wake l' = wake l"
proof -
  have "flush_frame l l'"
    using FlushTls_result [OF assms] by blast
  then show "data_ready l' = data_ready l" "wake l' = wake l"
    using flush_frame_parts(4) [of l l'] by (simp_all add: data_ready_def wake_def HasPendingRead_def flush_frame_def)
qed

text \<open>Flushing and finishing the handshake, as \<open>OnConnect\<close> and \<open>OnSend\<close> do.\<close>

lemma flush_finish:
  assumes "FlushTls p l = (b, l1)" "(if b then FinishHandshake p l1 else (False, l1)) = (ok, l2)"
    and "live l" "sl_fed l = xl_received l" "data_ready l" "wake l"
  shows "live l2" "sl_fed l2 = xl_received l2" "data_ready l2" "wake l2" "xl_state l2 = xl_state l" "xl_critical l2 = xl_critical l"
proof -
  have l1: "live l1" "sl_fed l1 = xl_received l1" "data_ready l1" "wake l1" "xl_state l1 = xl_state l" "xl_critical l1 = xl_critical l"
    using live_parts(1) [OF assms(1,3)] flush_wake [OF assms(1)] FlushTls_result [OF assms(1)] assms(4-6) by (simp_all add: flush_frame_def)
  have "live l2 \<and> sl_fed l2 = xl_received l2 \<and> data_ready l2 \<and> wake l2 \<and> xl_state l2 = xl_state l \<and> xl_critical l2 = xl_critical l"
  proof (cases b)
    case True
    then have f: "FinishHandshake p l1 = (ok, l2)"
      using assms(2) by simp
    then show ?thesis
      using live_parts(3) [OF f l1(1)] finish_wake [OF f l1(1,3,4)] FinishHandshake_result(1) [OF f] l1 by (simp add: finish_frame_def)
  next
    case False
    then show ?thesis
      using assms(2) l1 by simp
  qed
  then show "live l2" "sl_fed l2 = xl_received l2" "data_ready l2" "wake l2" "xl_state l2 = xl_state l" "xl_critical l2 = xl_critical l"
    by blast+
qed

lemma LoadTransport_result:
  assumes "LoadTransport p l = (ok, l')"
  shows "l' = l\<lparr>sl_transportLoadError := sl_transportLoadError l', sl_hTransport := sl_hTransport l', sl_session := sl_session l'\<rparr>"
    "ok \<Longrightarrow> fresh l \<Longrightarrow> sl_session l' \<noteq> None"
  using assms by (auto simp: LoadTransport_def Let_def fresh_def split: if_splits option.splits)

lemma OnConnect_inv:
  assumes "fresh l" "base_ok l" "sl_fed l = xl_received l" "xl_state l = connected"
  shows "secure_inv (Secure_OnConnect p 0 l)"
proof -
  obtain b l1 where load: "LoadTransport p l = (b, l1)"
    by fastforce
  note ld = LoadTransport_result [OF load]
  have l1_sel: "out_ok l1 = out_ok l" "in_ok l1 = in_ok l" "conn_ok l1 = conn_ok l" "sl_fault l1 = sl_fault l"
    "sl_fed l1 = sl_fed l" "xl_received l1 = xl_received l"
    by (subst ld(1); simp add: out_ok_def in_ok_def conn_ok_def connects_def)+
  have ok: "out_ok l" "in_ok l" "conn_ok l" "\<not> sl_fault l"
    using assms(1,2,4) by (simp_all add: base_ok_def conn_ok_msgs fresh_def)
  have started: "\<not> sl_bHandshakeStarted l"
    using assms(1) by (simp add: fresh_def)
  show ?thesis
  proof (cases b)
    case False
    then have "Secure_OnConnect p 0 l = Secure_ReportFailure l1"
      using load started by (simp add: Secure_OnConnect_def StartHandshake_def)
    then show ?thesis
      using Secure_ReportFailure_dead [of l1] l1_sel ok assms(3) by simp
  next
    case True
    let ?l = "l1\<lparr>sl_bHandshakeStarted := True\<rparr>"
    have sess: "sl_session l1 \<noteq> None"
      using ld(2) True assms(1) by blast
    have fr: "sl_bReceivePaused l1 = sl_bReceivePaused l" "sl_plaintext l1 = sl_plaintext l" "sl_plaintextOffset l1 = sl_plaintextOffset l"
      "sl_bPeerReadClosed l1 = sl_bPeerReadClosed l" "sl_bHandshakeReady l1 = sl_bHandshakeReady l" "xl_state l1 = xl_state l"
      by (subst ld(1); simp)+
    have l: "live ?l" "sl_fed ?l = xl_received ?l" "data_ready ?l" "wake ?l"
      using sess l1_sel ok assms(1,3) fr frame_congs(1-3) [of ?l l1]
      by (simp_all add: live_def paused_ok_def data_ready_def wake_def fresh_def BufferedPlaintext_def)
    obtain b1 l2 where f: "FlushTls p ?l = (b1, l2)"
      by fastforce
    obtain ok l3 where h: "(if b1 then FinishHandshake p l2 else (False, l2)) = (ok, l3)"
      by fastforce
    note ff = flush_finish [OF f h l]
    have "Secure_OnConnect p 0 l = (if ok then l3 else Secure_ReportFailure l3)"
      using load True started f h by (auto simp: Secure_OnConnect_def StartHandshake_def split: if_splits)
    then show ?thesis
      using ff live_failure [of l3] connected_inv [of l3] fr(6) assms(4) by simp
  qed
qed

lemma Xl_ShutDownNext_base:
  "xl_state (snd (Xl_ShutDownNext how l)) = xl_state l" "xl_critical (snd (Xl_ShutDownNext how l)) = xl_critical l"
  "xl_socket (snd (Xl_ShutDownNext how l)) = xl_socket l"
  "xl_posted (snd (Xl_ShutDownNext how l)) = xl_posted l" "xl_tried (snd (Xl_ShutDownNext how l)) = xl_tried l"
  "xl_lost (snd (Xl_ShutDownNext how l)) = xl_lost l" "xl_sent (snd (Xl_ShutDownNext how l)) = xl_sent l"
  "xl_received (snd (Xl_ShutDownNext how l)) = xl_received l" "ExLayer.more (snd (Xl_ShutDownNext how l)) = ExLayer.more l"
  "xl_shutdowns (snd (Xl_ShutDownNext how l)) = xl_shutdowns l \<or> xl_shutdowns (snd (Xl_ShutDownNext how l)) = xl_shutdowns l @ [(how, xl_sent l)]"
  by (auto simp: Xl_ShutDownNext_def split: option.split)

text \<open>Fields that no invariant reads.\<close>

lemma inv_cong:
  assumes "xl_state l' = xl_state l" "xl_critical l' = xl_critical l" "xl_socket l' = xl_socket l"
    "xl_posted l' = xl_posted l" "xl_tried l' = xl_tried l" "xl_lost l' = xl_lost l" "xl_sent l' = xl_sent l" "xl_received l' = xl_received l" "ExLayer.more l' = ExLayer.more l"
  shows "live l' = live l" "data_ready l' = data_ready l" "wake l' = wake l" "paused_ok l' = paused_ok l" "secure_inv l' = secure_inv l"
proof -
  note sel = assms(1-8) own_sel [OF assms(9)]
  have parts: "conn_ok l' = conn_ok l" "out_ok l' = out_ok l" "in_ok l' = in_ok l" "paused_ok l' = paused_ok l" "BufferedPlaintext l' = BufferedPlaintext l"
    by (rule frame_congs; simp only: sel)+
  show 1: "live l' = live l" "data_ready l' = data_ready l" "wake l' = wake l" "paused_ok l' = paused_ok l"
    unfolding live_def data_ready_def wake_def HasPendingRead_def parts sel by (rule refl)+
  have "msgs_ok l' = msgs_ok l" "fresh l' = fresh l"
    unfolding msgs_ok_def fresh_def connects_def sel by (rule refl)+
  then show "secure_inv l' = secure_inv l"
    unfolding secure_inv_def base_ok_def alive_ok_def parts 1 sel by simp
qed

lemma pending_shutdown_inv:
  "live (l\<lparr>sl_pendingShutdown := n\<rparr>) = live l" "data_ready (l\<lparr>sl_pendingShutdown := n\<rparr>) = data_ready l"
  "wake (l\<lparr>sl_pendingShutdown := n\<rparr>) = wake l" "paused_ok (l\<lparr>sl_pendingShutdown := n\<rparr>) = paused_ok l"
  "base_ok (l\<lparr>sl_pendingShutdown := n\<rparr>) = base_ok l" "fresh (l\<lparr>sl_pendingShutdown := n\<rparr>) = fresh l"
proof -
  let ?l = "l\<lparr>sl_pendingShutdown := n\<rparr>"
  have parts: "conn_ok ?l = conn_ok l" "out_ok ?l = out_ok l" "in_ok ?l = in_ok l" "paused_ok ?l = paused_ok l" "BufferedPlaintext ?l = BufferedPlaintext l"
    by (rule frame_congs; simp)+
  have "msgs_ok ?l = msgs_ok l"
    by (simp add: msgs_ok_def connects_def)
  then show "live ?l = live l" "data_ready ?l = data_ready l" "wake ?l = wake l" "paused_ok ?l = paused_ok l" "base_ok ?l = base_ok l" "fresh ?l = fresh l"
    using parts by (simp_all add: live_def data_ready_def wake_def HasPendingRead_def base_ok_def fresh_def connects_def)
qed

lemma OnSend_inv:
  assumes "live l" "sl_fed l = xl_received l" "data_ready l" "wake l" "xl_state l = connected"
  shows "secure_inv (Secure_OnSend p 0 l)"
proof -
  obtain b1 l1 where f: "FlushTls p l = (b1, l1)"
    by fastforce
  obtain ok l2 where h: "(if b1 then FinishHandshake p l1 else (False, l1)) = (ok, l2)"
    by fastforce
  note ff = flush_finish [OF f h assms(1-4)]
  show ?thesis
  proof (cases ok)
    case False
    then have "Secure_OnSend p 0 l = Secure_ReportFailure l2"
      using f h by (auto simp: Secure_OnSend_def split: if_splits)
    then show ?thesis
      using ff live_failure [of l2] by simp
  next
    case True
    define l3 where "l3 = (if 0 \<le> sl_pendingShutdown l2 \<and> \<not> HasPendingTls l2
      then snd (Xl_ShutDownNext (sl_pendingShutdown l2) (l2\<lparr>sl_pendingShutdown := -1\<rparr>)) else l2)"
    let ?s = "l2\<lparr>sl_pendingShutdown := -1\<rparr>"
    have "live (snd (Xl_ShutDownNext how ?s)) = live ?s" "data_ready (snd (Xl_ShutDownNext how ?s)) = data_ready ?s"
        "wake (snd (Xl_ShutDownNext how ?s)) = wake ?s" for how
      by (rule inv_cong; rule Xl_ShutDownNext_base)+
    moreover have "sl_fed (snd (Xl_ShutDownNext how ?s)) = sl_fed l2" for how
      using own_sel(21) [OF Xl_ShutDownNext_base(9), of how ?s] by simp
    ultimately
    have l3: "live l3" "sl_fed l3 = xl_received l3" "data_ready l3" "wake l3" "xl_state l3 = connected"
      using ff assms(5) by (simp_all add: l3_def pending_shutdown_inv Xl_ShutDownNext_base(1,8))
    have "Secure_OnSend p 0 l = (if sl_bConnectNotified l3 then snd (Xl_TriggerEvent FD_WRITE 0 True l3) else l3)"
      using f h True by (auto simp: Secure_OnSend_def l3_def Let_def split: if_splits)
    moreover have "secure_inv (snd (Xl_TriggerEvent FD_WRITE 0 True l3))" if "sl_bConnectNotified l3"
    proof (rule connected_inv)
      show "live (snd (Xl_TriggerEvent FD_WRITE 0 True l3))"
        using l3(1) that by (intro live_post) auto
      have post: "xl_socket l3"
        using l3(1) by (simp add: live_def conn_ok_def)
      show "wake (snd (Xl_TriggerEvent FD_WRITE 0 True l3))"
        using l3(4) Xl_TriggerEvent_posted(1) [OF post] by (auto simp: wake_def HasPendingRead_def BufferedPlaintext_def)
    qed (use l3 in \<open>simp_all add: data_ready_def BufferedPlaintext_def\<close>)
    ultimately show ?thesis
      using connected_inv [OF l3(1-3,5,4)] by simp
  qed
qed

lemma closed_inv:
  assumes "live l" "prefix (sl_fed l) (xl_received l)" "xl_state l = closed" "wake l" "sl_bPeerReadClosed l"
  shows "secure_inv l"
  using assms live_base [of l] by (simp add: secure_inv_def alive_ok_def live_def)

lemma OnClose_inv:
  assumes "live l" "sl_fed l = xl_received l" "xl_state l = closed"
  shows "secure_inv (Secure_OnClose p 0 l)"
proof -
  obtain b1 l1 where c: "close_loop p l = (b1, l1)"
    by fastforce
  note cl = close_loop_result [OF c assms(1,2)]
  obtain b2 l2 where d: "(if b1 then DrainPlaintext p l1 else (False, l1)) = (b2, l2)"
    by fastforce
  have l2: "live l2" "prefix (sl_fed l2) (xl_received l2)" "xl_state l2 = closed"
    using d cl assms(3) live_parts(2) [of p l1 b2 l2] DrainPlaintext_result(1) [of p l1 b2 l2]
    by (auto simp: loop_frame_def drain_frame_def split: if_splits)
  let ?l = "l2\<lparr>sl_bPeerReadClosed := True\<rparr>"
  have l: "live ?l"
    using l2(1) frame_congs(1-3) [of ?l l2] by (simp add: live_def paused_ok_def)
  have eq: "Secure_OnClose p 0 l = (if \<not> b2 then Secure_ReportFailure ?l
      else if sl_bHandshakeReady ?l \<and> HasPendingRead ?l then snd (Xl_TriggerEvent FD_READ 0 True ?l)
      else if \<not> sl_bHandshakeReady ?l then snd (Xl_TriggerEvent FD_CLOSE 0 True ?l) else ?l)"
    using live_session [OF assms(1)] c d by (auto simp: Secure_OnClose_def split: if_splits)
  consider (fail) "\<not> b2" | (read) "b2" "sl_bHandshakeReady ?l" "HasPendingRead ?l" | (early) "b2" "\<not> sl_bHandshakeReady ?l"
    | (quiet) "b2" "sl_bHandshakeReady ?l" "\<not> HasPendingRead ?l"
    by blast
  then show ?thesis
  proof cases
    case fail
    then show ?thesis
      using eq live_failure [OF l] l2(2) by simp
  next
    case read
    then show ?thesis
      using eq announce [OF l read(2)] l2 by (intro closed_inv) simp_all
  next
    case early
    let ?m = "snd (Xl_TriggerEvent FD_CLOSE 0 True ?l)"
    have post: "xl_socket ?l" "msgs_ok ?l" "out_ok ?l" "in_ok ?l" "\<not> sl_fault ?l"
      using l by (simp_all add: live_def conn_ok_msgs msgs_ok_def)
    have "msgs_ok ?m"
      using Xl_TriggerEvent_posted(1,2) [OF post(1), of FD_CLOSE 0 True] post(1,2) by (intro msgs_ok_post [of ?l ?m FD_CLOSE 0 True]) simp_all
    moreover have "xl_state ?m = closed"
      using l2(3) post(1) by (simp add: Xl_TriggerEvent_def Xl_PostMessage_def Xl_SetLayerState_def split: list.split bool.split)
    moreover have "out_ok ?m" "in_ok ?m" "wake ?m"
      using post(3,4) early(2) by (simp_all add: out_ok_def in_ok_def wake_def)
    ultimately have "secure_inv ?m"
      using post(5) l2(2) streams_prefix [of ?m] by (simp add: secure_inv_def base_ok_def alive_ok_def)
    then show ?thesis
      using eq early by simp
  next
    case quiet
    then have "wake ?l"
      by (simp add: wake_def)
    then show ?thesis
      using eq quiet l l2 closed_inv [of ?l] by simp
  qed
qed

lemma Secure_event_inv:
  assumes "secure_inv l" "session_ok p"
  shows "secure_inv (Secure_event p ev err l)"
proof -
  obtain called l1 where c: "Xl_CallEvent ev err l = (called, l1)"
    by fastforce
  have sock: "xl_socket l" and base: "base_ok l"
    using assms(1) by (simp_all add: secure_inv_def base_ok_def msgs_ok_def)
  from c show ?thesis
  proof (cases rule: Xl_CallEvent_cases)
    case ended
    then show ?thesis
      using c assms(1) sock by (simp add: Secure_event_def)
  next
    case ignored
    have "secure_inv (l\<lparr>xl_critical := err\<rparr>)"
    proof (cases "err = 0")
      case True
      then have "l\<lparr>xl_critical := err\<rparr> = l"
        using ignored(1) by simp
      then show ?thesis
        using assms(1) by simp
    next
      case False
      then show ?thesis
        using base by (simp add: secure_inv_def base_ok_def msgs_ok_def connects_def out_ok_def in_ok_def)
    qed
    then show ?thesis
      using c ignored sock by (simp add: Secure_event_def)
  next
    case (handled st)
    note mv = moved [OF handled(3)]
    have alive: "alive_ok l" and crit: "xl_critical l1 = err" and state: "xl_state l1 = st"
      using assms(1) handled by (simp_all add: secure_inv_def)
    have base1: "base_ok l1" if "st \<noteq> notsock" "xl_state l \<noteq> notsock" "st \<noteq> listening"
      using base that state handled(3) mv(6-8) by (simp add: base_ok_def)
    have eq: "Secure_event p ev err l = (case ev of FD_CONNECT \<Rightarrow> Secure_OnConnect p err l1 | FD_READ \<Rightarrow> Secure_OnReceive p err l1
         | FD_WRITE \<Rightarrow> Secure_OnSend p err l1 | FD_CLOSE \<Rightarrow> Secure_OnClose p err l1 | FD_ACCEPT \<Rightarrow> l1)"
      using c handled(2) sock by (simp add: Secure_event_def)
    have b1: "base_ok l1"
      using base1 handled(4,5) by (cases ev) auto
    have fed: "prefix (sl_fed l1) (xl_received l1)" "\<not> sl_fault l1" "out_ok l1" "in_ok l1"
      using b1 state handled(4) by (simp_all add: base_ok_def split: if_splits)
    have wakes: "wake l" if "xl_state l = connected"
      using assms(1) handled(1) that by (simp add: secure_inv_def)
    have live_now: "live l1" "sl_fed l1 = xl_received l1" "data_ready l1" "wake l1" if "ev \<noteq> FD_CONNECT" "ev \<noteq> FD_ACCEPT"
      using alive wakes handled(3,5) mv(1-3) that by (simp_all add: alive_ok_def)
    show ?thesis
    proof (cases "err = 0")
      case True
      show ?thesis
      proof (cases ev)
        case FD_CONNECT
        have "fresh l1" "xl_state l1 = connected"
          using alive handled(4,5) mv(4) state True FD_CONNECT by (simp_all add: alive_ok_def)
        then show ?thesis
          using eq FD_CONNECT True OnConnect_inv [of l1 p] b1 by (simp add: fresh_def)
      next
        case FD_READ
        then show ?thesis
          using eq True OnReceive_inv [of l1 p] live_now handled(4) state assms(2) by simp
      next
        case FD_WRITE
        then show ?thesis
          using eq True OnSend_inv [of l1 p] live_now handled(4) state by simp
      next
        case FD_CLOSE
        then show ?thesis
          using eq True OnClose_inv [of l1 p] live_now handled(4) state by simp
      next
        case FD_ACCEPT
        then show ?thesis
          using base handled(5) by (simp add: base_ok_def)
      qed
    next
      case False
      have conn: "conn_ok l1" if "ev \<noteq> FD_ACCEPT"
      proof (cases "ev = FD_CONNECT")
        case True
        then have "fresh l"
          using alive handled(5) by (simp add: alive_ok_def)
        then show ?thesis
          using mv(5) base by (simp add: conn_ok_msgs fresh_def base_ok_def)
      qed (use live_now that in \<open>simp add: live_def\<close>)
      have dead: "secure_inv (Secure_ReportFailure (Xl_SetLastError err l1))" if "ev \<noteq> FD_ACCEPT"
        using conn [OF that] fed frame_congs(1) [of "Xl_SetLastError err l1" l1]
        by (intro Secure_ReportFailure_dead) (simp_all add: out_ok_def in_ok_def)
      show ?thesis
      proof (cases ev)
        case FD_CONNECT
        then have "\<not> sl_bConnectNotified l1"
          using alive handled(3,5) by (simp add: alive_ok_def fresh_def)
        then show ?thesis
          using eq False FD_CONNECT reported_failure [OF fed(3,4) conn fed(2,1) False] by (simp add: Secure_OnConnect_def)
      next
        case FD_CLOSE
        then show ?thesis
          using eq False reported_failure [OF fed(3,4) conn fed(2,1) False, of FD_CLOSE] by (simp add: Secure_OnClose_def)
      next
        case FD_ACCEPT
        then show ?thesis
          using base handled(5) by (simp add: base_ok_def)
      qed (use eq False dead in \<open>simp_all add: Secure_OnReceive_def Secure_OnSend_def\<close>)
    qed
  qed
qed

section \<open>Calls from above\<close>

lemma error_inv [simp]: "secure_inv (Xl_SetLastError e l) = secure_inv l"
  by (rule inv_cong) simp_all

text \<open>With a session the layer is neither closed nor still connecting, unless an error ended it.\<close>

lemma session_inv:
  assumes "secure_inv l" "sl_session l \<noteq> None"
  shows "secure_inv (l\<lparr>sl_session := Some s\<rparr>)"
proof -
  let ?l = "l\<lparr>sl_session := Some s\<rparr>"
  have parts: "conn_ok ?l = conn_ok l" "out_ok ?l = out_ok l" "in_ok ?l = in_ok l" "paused_ok ?l = paused_ok l" "BufferedPlaintext ?l = BufferedPlaintext l"
    by (rule frame_congs; simp)+
  have "msgs_ok ?l = msgs_ok l"
    by (simp add: msgs_ok_def connects_def)
  moreover have "data_ready ?l = data_ready l" "wake ?l = wake l"
    using parts(5) by (simp_all add: data_ready_def wake_def HasPendingRead_def)
  moreover have "live l \<Longrightarrow> live ?l"
    by (rule live_update)
  ultimately show ?thesis
    using assms parts by (auto simp: secure_inv_def base_ok_def alive_ok_def fresh_def)
qed

lemma flush_inv:
  assumes "FlushTls p l = (ok, l')" "secure_inv l" "sl_session l \<noteq> None"
  shows "secure_inv l'"
proof -
  have f: "flush_frame l l'" "out_ok l \<Longrightarrow> out_ok l'"
    using FlushTls_result [OF assms(1)] by blast+
  have same: "xl_state l' = xl_state l" "xl_critical l' = xl_critical l" "sl_fed l' = sl_fed l" "xl_received l' = xl_received l" "sl_fault l' = sl_fault l"
    "sl_delivered l' = sl_delivered l" "sl_read l' = sl_read l"
    using f(1) by (simp_all add: flush_frame_def)
  have state: "xl_state l \<noteq> notsock" "xl_critical l = 0 \<Longrightarrow> xl_state l \<noteq> connecting" and base: "base_ok l"
    using assms(2,3) by (auto simp: secure_inv_def base_ok_def alive_ok_def fresh_def)
  have "msgs_ok l'"
    using f(1) base by (simp add: flush_frame_def base_ok_def msgs_ok_def connects_def)
  moreover have "out_ok l'" "in_ok l'"
    using f(2) base state flush_frame_parts(2) [OF f(1)] by (simp_all add: base_ok_def)
  ultimately have "base_ok l'"
    using base state(1) same streams_prefix [of l'] by (simp add: base_ok_def)
  moreover have "alive_ok l'" if "xl_critical l = 0"
    using assms(2) that state(2) same live_parts(1) [OF assms(1)] flush_wake [OF assms(1)] f(1)
    by (simp add: secure_inv_def alive_ok_def flush_frame_def)
  ultimately show ?thesis
    using same(1,2) assms(2) flush_wake(2) [OF assms(1)] by (simp add: secure_inv_def)
qed

lemma Secure_Send_inv:
  assumes "secure_inv l"
  shows "secure_inv (snd (Secure_Send p n buf l))"
proof (cases "sl_bHandshakeReady l \<and> sl_session l \<noteq> None \<and> \<not> (n < 0 \<or> (n \<noteq> 0 \<and> buf = None))")
  case True
  then obtain s where s: "sl_session l = Some s" "sl_bHandshakeReady l" "\<not> (n < 0 \<or> (n \<noteq> 0 \<and> buf = None))"
    by auto
  obtain res written s' where w: "se_write_plain p s (take (nat n) (case buf of Some b \<Rightarrow> b | None \<Rightarrow> [])) = ((res, written), s')"
    by (metis surj_pair)
  let ?l = "l\<lparr>sl_session := Some s'\<rparr>"
  have l: "secure_inv ?l"
    using session_inv [OF assms] s(1) by simp
  obtain ok l2 where f: "FlushTls p ?l = (ok, l2)"
    by fastforce
  have "secure_inv l2"
    using flush_inv [OF f l] by simp
  then show ?thesis
    using s w f l assms by (simp add: Secure_Send_def Let_def)
next
  case False
  then show ?thesis
    using assms by (auto simp: Secure_Send_def split: option.split)
qed

lemma Secure_ShutDown_inv:
  assumes "secure_inv l"
  shows "secure_inv (snd (Secure_ShutDown p how l))"
proof -
  have next_inv: "secure_inv (snd (Xl_ShutDownNext how l)) = secure_inv l" for l :: "'a SecureLayer"
    by (rule inv_cong; rule Xl_ShutDownNext_base)
  show ?thesis
  proof (cases "(how = SD_SEND \<or> how = SD_BOTH) \<and> sl_session l \<noteq> None")
    case True
    then obtain s where s: "sl_session l = Some s" "how = SD_SEND \<or> how = SD_BOTH"
      by auto
    obtain res s' where c: "se_close_notify p s = (res, s')"
      by fastforce
    let ?l = "l\<lparr>sl_session := Some s'\<rparr>"
    have l: "secure_inv ?l"
      using session_inv [OF assms] s(1) by simp
    obtain ok l2 where f: "FlushTls p ?l = (ok, l2)"
      by fastforce
    have l2: "secure_inv l2"
      using flush_inv [OF f l] by simp
    then have "secure_inv (l2\<lparr>sl_pendingShutdown := how\<rparr>)"
      using pending_shutdown_inv [where l = l2 and n = how] by (simp add: secure_inv_def alive_ok_def)
    then show ?thesis
      using s c f l l2 next_inv [of l2] by (auto simp: Secure_ShutDown_def Let_def)
  next
    case False
    then show ?thesis
      using assms next_inv [of l] by (auto simp: Secure_ShutDown_def split: option.split)
  qed
qed

lemma Secure_Close_inv:
  assumes "secure_inv l"
  shows "secure_inv (Secure_Close l)"
proof -
  have "msgs_ok (Secure_Close l)"
    using assms by (simp add: secure_inv_def base_ok_def msgs_ok_def Secure_Close_def Xl_CloseNext_def ResetTransport_def connects_def)
  then show ?thesis
    using assms by (simp add: secure_inv_def base_ok_def alive_ok_def Secure_Close_def Xl_CloseNext_def ResetTransport_def)
qed

text \<open>What a read relies on: the invariant without a message for the data that waits.\<close>

definition read_base :: "'s SecureLayer \<Rightarrow> bool" where
  "read_base l \<longleftrightarrow> base_ok l \<and> sl_bHandshakeReady l \<and>
     (xl_critical l = 0 \<longrightarrow> xl_state l \<noteq> connecting \<and>
        (xl_state l = connected \<longrightarrow> conn_ok l \<and> sl_session l \<noteq> None \<and> sl_fed l = xl_received l) \<and>
        (xl_state l = closed \<longrightarrow> sl_bPeerReadClosed l))"

lemma read_base_inv:
  assumes "read_base l" "wake l" "paused_ok l \<or> sl_session l = None"
  shows "secure_inv l"
  using assms by (auto simp: read_base_def secure_inv_def alive_ok_def live_def base_ok_def data_ready_def)

lemma read_base_post:
  fixes l :: "'s SecureLayer" and pass :: bool
  assumes "read_base l"
  defines "m \<equiv> snd (Xl_TriggerEvent FD_READ 0 pass l)"
  shows "read_base m" "wake l \<Longrightarrow> wake m" "pass \<Longrightarrow> wake m"
proof -
  have post: "xl_socket l" "msgs_ok l"
    using assms by (simp_all add: read_base_def base_ok_def msgs_ok_def)
  note posted = Xl_TriggerEvent_posted [OF post(1), of FD_READ 0 pass] Xl_TriggerEvent_lost [of l FD_READ 0 pass]
  have notified: "sl_bConnectNotified l"
    using assms(1) post(2) by (simp add: read_base_def msgs_ok_def)
  have ms: "msgs_ok m"
    using post posted(1,2,4) [folded m_def] notified by (intro msgs_ok_post [of l m FD_READ 0 pass]) (simp_all, simp_all add: m_def)
  have "out_ok m = out_ok l" "in_ok m = in_ok l" "BufferedPlaintext m = BufferedPlaintext l"
    unfolding m_def by (rule frame_congs; simp)+
  moreover have "connects m = connects l"
    using posted(1) by (simp add: m_def connects_def)
  moreover have "xl_state l \<noteq> notsock"
    using assms(1) by (auto simp: read_base_def base_ok_def)
  ultimately show "read_base m"
    using assms(1) ms by (simp add: m_def read_base_def base_ok_def conn_ok_msgs)
  show "wake l \<Longrightarrow> wake m" "pass \<Longrightarrow> wake m"
    using posted(1) by (auto simp: m_def wake_def HasPendingRead_def BufferedPlaintext_def)
qed

lemma paused_read_base: "read_base (l\<lparr>sl_bReceivePaused := b\<rparr>) = read_base l" "wake (l\<lparr>sl_bReceivePaused := b\<rparr>) = wake l"
proof -
  let ?l = "l\<lparr>sl_bReceivePaused := b\<rparr>"
  have "msgs_ok ?l = msgs_ok l" "conn_ok ?l = conn_ok l" "out_ok ?l = out_ok l" "in_ok ?l = in_ok l"
    by (simp_all add: msgs_ok_def conn_ok_def connects_def out_ok_def in_ok_def)
  then show "read_base ?l = read_base l" "wake ?l = wake l"
    by (simp_all add: read_base_def base_ok_def wake_def HasPendingRead_def BufferedPlaintext_def)
qed

text \<open>The end of a read: the layer resumes reading from the network when enough was taken, unless the message for it is lost.\<close>

lemma Resume_inv:
  assumes "read_base l" "wake l"
  shows "secure_inv (ResumeTlsReceive l)"
proof (cases "\<not> sl_bReceivePaused l \<or> sl_session l = None \<or> sl_bPeerReadClosed l \<or> PLAINTEXT_LOW_WATER < BufferedPlaintext l")
  case True
  then show ?thesis
    using read_base_inv [OF assms] by (auto simp: ResumeTlsReceive_def paused_ok_def)
next
  case False
  let ?l = "l\<lparr>sl_bReceivePaused := False\<rparr>"
  let ?m = "snd (Xl_TriggerEvent FD_READ 0 False ?l)"
  have l: "read_base ?l" "wake ?l"
    using assms by (simp_all add: paused_read_base)
  then have m: "read_base ?m" "wake ?m"
    using read_base_post(1,2) [OF l(1), of False] by simp_all
  show ?thesis
  proof (cases "fst (Xl_TriggerEvent FD_READ 0 False ?l)")
    case True
    then have "ResumeTlsReceive l = ?m"
      using False by (auto simp: ResumeTlsReceive_def Let_def case_prod_beta)
    then show ?thesis
      using m by (auto simp: paused_ok_def intro: read_base_inv)
  next
    case lost: False
    then have eq: "ResumeTlsReceive l = ?m\<lparr>sl_bReceivePaused := True\<rparr>"
      using False by (auto simp: ResumeTlsReceive_def Let_def case_prod_beta)
    have "xl_socket ?l"
      using l(1) by (simp add: read_base_def base_ok_def msgs_ok_def)
    then have "xl_lost ?m"
      using lost Xl_TriggerEvent_posted(3) by blast
    then show ?thesis
      unfolding eq using m paused_read_base [where l = ?m and b = True] by (intro read_base_inv) (simp_all add: paused_ok_def)
  qed
qed

lemma taken_in_ok:
  assumes "in_ok l" "count \<le> length (sl_plaintext l) - sl_plaintextOffset l"
  shows "in_ok (l\<lparr>sl_plaintextOffset := sl_plaintextOffset l + count,
     sl_delivered := sl_delivered l @ take count (drop (sl_plaintextOffset l) (sl_plaintext l))\<rparr>)"
proof -
  have "take count (drop (sl_plaintextOffset l) (sl_plaintext l)) @ drop (count + sl_plaintextOffset l) (sl_plaintext l)
      = drop (sl_plaintextOffset l) (sl_plaintext l)"
    by (metis append_take_drop_id drop_drop)
  then show ?thesis
    using assms by (auto simp: in_ok_def add.commute)
qed

lemma Secure_Receive_inv:
  assumes "base_ok l" "xl_critical l = 0 \<Longrightarrow> alive_ok l" "0 \<le> n"
  shows "secure_inv (snd (Secure_Receive n True l))"
proof (cases "sl_bHandshakeReady l \<and> sl_plaintextOffset l < length (sl_plaintext l)")
  case False
  have eof: "base_ok (l\<lparr>sl_bPeerEofDelivered := b\<rparr>) = base_ok l" "alive_ok (l\<lparr>sl_bPeerEofDelivered := b\<rparr>) = alive_ok l" for b
    by (simp_all add: base_ok_def msgs_ok_def connects_def out_ok_def in_ok_def alive_ok_def fresh_def live_def conn_ok_def
        paused_ok_def BufferedPlaintext_def data_ready_def)
  have idle: "secure_inv l" if "\<not> sl_bHandshakeReady l \<or> \<not> HasPendingRead l"
    using assms that by (auto simp: secure_inv_def wake_def)
  show ?thesis
  proof (cases "sl_bHandshakeReady l \<and> sl_bPeerReadClosed l")
    case True
    then have "secure_inv (l\<lparr>sl_bPeerEofDelivered := True\<rparr>)"
      using False assms by (simp add: secure_inv_def eof wake_def HasPendingRead_def BufferedPlaintext_def)
    then show ?thesis
      using True False assms(3) by (simp add: Secure_Receive_def)
  next
    case other: False
    then have "secure_inv l"
      using False by (intro idle) (auto simp: HasPendingRead_def BufferedPlaintext_def)
    then show ?thesis
      using other False assms(3) by (auto simp: Secure_Receive_def)
  qed
next
  case True
  define count where "count = min (nat n) (length (sl_plaintext l) - sl_plaintextOffset l)"
  define m where "m = l\<lparr>sl_plaintextOffset := sl_plaintextOffset l + count,
     sl_delivered := sl_delivered l @ take count (drop (sl_plaintextOffset l) (sl_plaintext l))\<rparr>"
  let ?m0 = "m\<lparr>sl_plaintext := [], sl_plaintextOffset := 0\<rparr>"
  have "in_ok l" if "xl_state l \<noteq> notsock"
    using assms(1) that by (simp add: base_ok_def)
  then have in_m: "in_ok m" if "xl_state l \<noteq> notsock"
    unfolding m_def using that by (intro taken_in_ok) (simp_all add: count_def)
  have base: "read_base m"
  proof -
    have kept: "msgs_ok m = msgs_ok l" "conn_ok m = conn_ok l" "out_ok m = out_ok l"
      by (simp_all add: m_def msgs_ok_def conn_ok_def connects_def out_ok_def)
    have "xl_state l \<noteq> notsock"
      using assms(1) True by (auto simp: base_ok_def)
    then have "base_ok m"
      using assms(1) in_m kept streams_prefix(2) [of m] by (simp add: base_ok_def) (simp add: m_def)
    then show ?thesis
      using assms(2) True kept(2) by (auto simp: read_base_def alive_ok_def fresh_def live_def m_def)
  qed
  have all: "sl_plaintextOffset m = length (sl_plaintext m) \<Longrightarrow> read_base ?m0"
  proof -
    assume "sl_plaintextOffset m = length (sl_plaintext m)"
    then have "msgs_ok ?m0 = msgs_ok m" "conn_ok ?m0 = conn_ok m" "out_ok ?m0 = out_ok m" "in_ok ?m0 = in_ok m"
      by (simp_all add: msgs_ok_def conn_ok_def connects_def out_ok_def in_ok_def)
    then show "read_base ?m0"
      using base by (auto simp: read_base_def base_ok_def)
  qed
  define m' where "m' = (if sl_plaintextOffset m = length (sl_plaintext m)
     then if sl_bPeerReadClosed m \<and> \<not> sl_bPeerEofDelivered m then snd (Xl_TriggerEvent FD_READ 0 True ?m0) else ?m0
     else snd (Xl_TriggerEvent FD_READ 0 True m))"
  have "read_base m'" "wake m'"
    using base all read_base_post(1,3) [where pass = True]
    by (auto simp: m'_def wake_def HasPendingRead_def BufferedPlaintext_def)
  moreover have "snd (Secure_Receive n True l) = ResumeTlsReceive m'"
    using True assms(3) by (simp add: Secure_Receive_def Let_def m'_def m_def count_def)
  ultimately show ?thesis
    using Resume_inv by metis
qed

end
