(* ===== verification/SecureRuns.thy ===== *)
theory SecureRuns
  imports SecureInv
begin

text \<open>
  Runs of the TLS-PSK layer: from the connect call on, messages of the helper window, answers of the
  network and of \<open>PostMessage\<close>, and calls of the layer above in any order. Both byte streams stay
  exact, also when messages cannot be posted; the connection is reported once and first; and as
  long as no message is lost a layer above that reads when it is told to gets everything.
\<close>

section \<open>Runs\<close>

text \<open>The layer after \<open>Configure\<close>, \<open>Create\<close> and a connect that does not complete at once.\<close>

definition secure_start :: "cstr \<Rightarrow> cstr \<Rightarrow> 's SecureLayer" where
  "secure_start psk name =
     snd (Xl_ConnectNext False WSAEWOULDBLOCK (snd (Xl_CreateNext True 1 (snd (Secure_Configure True psk name Secure_new)))))"

text \<open>
  The layer above reads when it handles its message (\<open>AppReceive\<close>), or unasked (\<open>AppPoll\<close>).
  \<open>Posting\<close> gives the next answers of \<open>PostMessage\<close>. \<open>AppShutDown\<close> is a call of the method of the layer;
  \<open>SocketShutDown\<close> is \<open>CAsyncSocketEx::ShutDown\<close> with the proxy layer in front: the proxy layer calls \<open>ShutDownNext\<close>,
  which calls \<open>ShutDownNext\<close> of this layer and so goes past the method.
\<close>

datatype secure_op =
    Event fd int
  | Network "send_result list" "recv_result list"
  | AppSend int "bytes option"
  | AppReceive nat
  | AppPoll nat
  | Posting "bool list"
  | AppShutDown int
  | SocketShutDown int
  | AppClose

definition take_read :: "'s SecureLayer \<Rightarrow> 's SecureLayer" where
  "take_read l = l\<lparr>xl_posted := remove1 (FD_READ, 0, True) (xl_posted l), xl_tried := remove1 (FD_READ, 0, True) (xl_tried l)\<rparr>"

fun secure_step :: "'s SecureEnv \<Rightarrow> secure_op \<Rightarrow> 's SecureLayer \<Rightarrow> 's SecureLayer" where
  "secure_step p (Event ev err) l = Secure_event p ev err l"
| "secure_step p (Network ss rs) l = l\<lparr>xl_sendScript := xl_sendScript l @ ss, xl_recvScript := xl_recvScript l @ rs\<rparr>"
| "secure_step p (AppSend n buf) l = snd (Secure_Send p n buf l)"
| "secure_step p (AppReceive n) l =
     (if (FD_READ, 0, True) \<in> set (xl_posted l) then snd (Secure_Receive (int n) True (take_read l)) else l)"
| "secure_step p (AppPoll n) l = snd (Secure_Receive (int n) True l)"
| "secure_step p (Posting bs) l = l\<lparr>xl_posts := xl_posts l @ bs\<rparr>"
| "secure_step p (AppShutDown how) l = snd (Secure_ShutDown p how l)"
| "secure_step p (SocketShutDown how) l = snd (Xl_ShutDownNext how l)"
| "secure_step p AppClose l = Secure_Close l"

definition secure_run :: "'s SecureEnv \<Rightarrow> secure_op list \<Rightarrow> 's SecureLayer \<Rightarrow> 's SecureLayer" where
  "secure_run p ops l = fold (secure_step p) ops l"

lemma secure_run_simps [simp]:
  "secure_run p [] l = l" "secure_run p (op # ops) l = secure_run p ops (secure_step p op l)"
  by (simp_all add: secure_run_def)

lemma secure_start_inv: "secure_inv (secure_start psk name)"
  by (simp add: secure_start_def Xl_ConnectNext_def Xl_CreateNext_def Secure_Configure_def Secure_new_def Xl_SetLayerState_def
      Xl_SetLastError_def secure_inv_def base_ok_def msgs_ok_def connects_def out_ok_def in_ok_def alive_ok_def fresh_def)

lemma connect_first_remove1: "connect_first ms \<Longrightarrow> connect_first (remove1 (FD_READ, 0, True) ms)"
  by (induction ms rule: connect_first.induct) auto

text \<open>Taking the read message leaves all but the promise of one.\<close>

lemma take_read_ok:
  assumes "secure_inv l"
  shows "base_ok (take_read l)" "xl_critical (take_read l) = 0 \<Longrightarrow> alive_ok (take_read l)"
proof -
  let ?l = "take_read l"
  have connects: "connects ?l = connects l"
    by (simp add: connects_def take_read_def filter_remove1 remove1_idem)
  have "msgs_ok l"
    using assms by (simp add: secure_inv_def base_ok_def)
  then have ms: "msgs_ok ?l"
    using connects connect_first_remove1 [of "xl_tried l"] by (auto simp: msgs_ok_def take_read_def in_set_remove1)
  have parts: "out_ok ?l = out_ok l" "in_ok ?l = in_ok l" "paused_ok ?l = paused_ok l" "BufferedPlaintext ?l = BufferedPlaintext l"
    by (rule frame_congs; simp add: take_read_def)+
  have conn: "conn_ok l \<Longrightarrow> conn_ok ?l"
    using ms connects by (simp add: conn_ok_msgs) (simp add: take_read_def)
  show "base_ok ?l"
    using assms ms parts(1,2) by (simp add: secure_inv_def base_ok_def) (simp add: take_read_def)
  show "xl_critical ?l = 0 \<Longrightarrow> alive_ok ?l"
    using assms parts conn connects
    by (simp add: secure_inv_def alive_ok_def live_def fresh_def data_ready_def) (simp add: take_read_def)
qed

lemma AppReceive_inv: "secure_inv l \<Longrightarrow> secure_inv (secure_step p (AppReceive n) l)"
  using Secure_Receive_inv [of "take_read l" "int n"] take_read_ok [of l] by simp

lemma secure_step_inv:
  assumes "secure_inv l" "session_ok p"
  shows "secure_inv (secure_step p op l)"
proof (cases op)
  case (Network ss rs)
  have "secure_inv (l\<lparr>xl_sendScript := ss, xl_recvScript := rs\<rparr>) = secure_inv l" for ss rs
    by (rule inv_cong) simp_all
  then show ?thesis
    using Network assms(1) by simp
next
  case (AppReceive n)
  show ?thesis
    unfolding AppReceive using assms(1) by (rule AppReceive_inv)
next
  case (AppPoll n)
  then show ?thesis
    using assms(1) Secure_Receive_inv [of l "int n"] by (simp add: secure_inv_def)
next
  case (Posting bs)
  have "secure_inv (l\<lparr>xl_posts := bs\<rparr>) = secure_inv l" for bs
    by (rule inv_cong) simp_all
  then show ?thesis
    using Posting assms(1) by simp
next
  case (SocketShutDown how)
  have "secure_inv (snd (Xl_ShutDownNext how l)) = secure_inv l"
    by (rule inv_cong; rule Xl_ShutDownNext_base)
  then show ?thesis
    using SocketShutDown assms(1) by simp
qed (use assms Secure_event_inv Secure_Send_inv Secure_ShutDown_inv Secure_Close_inv in simp_all)

lemma secure_run_inv:
  assumes "secure_inv l" "session_ok p"
  shows "secure_inv (secure_run p ops l)"
  using assms(1)
proof (induction ops arbitrary: l)
  case (Cons op ops)
  then show ?case
    using secure_step_inv [OF _ assms(2)] by simp
qed simp

lemmas reached_inv = secure_run_inv [OF secure_start_inv]

section \<open>Reading everything\<close>

text \<open>What a read with something to read changes.\<close>

lemma Secure_Receive_takes:
  assumes "sl_bHandshakeReady l" "0 < n"
  defines "l' \<equiv> snd (Secure_Receive (int n) True l)"
  shows "xl_state l' = xl_state l" "xl_critical l' = xl_critical l" "sl_read l' = sl_read l" "sl_bHandshakeReady l'"
    "sl_bPeerReadClosed l' = sl_bPeerReadClosed l" "BufferedPlaintext l' = BufferedPlaintext l - n"
    "BufferedPlaintext l = 0 \<Longrightarrow> sl_bPeerReadClosed l \<Longrightarrow> sl_bPeerEofDelivered l'"
    "BufferedPlaintext l \<noteq> 0 \<Longrightarrow> sl_bPeerEofDelivered l' = sl_bPeerEofDelivered l"
proof -
  have resume: "xl_state (ResumeTlsReceive m) = xl_state m" "xl_critical (ResumeTlsReceive m) = xl_critical m" "sl_read (ResumeTlsReceive m) = sl_read m"
    "sl_bHandshakeReady (ResumeTlsReceive m) = sl_bHandshakeReady m" "sl_bPeerReadClosed (ResumeTlsReceive m) = sl_bPeerReadClosed m"
    "BufferedPlaintext (ResumeTlsReceive m) = BufferedPlaintext m" "sl_bPeerEofDelivered (ResumeTlsReceive m) = sl_bPeerEofDelivered m"
    for m :: "'a SecureLayer"
    by (simp_all add: ResumeTlsReceive_def BufferedPlaintext_def Let_def case_prod_beta)
  note defs = l'_def Secure_Receive_def Let_def resume
  show "xl_state l' = xl_state l" "xl_critical l' = xl_critical l" "sl_read l' = sl_read l" "sl_bHandshakeReady l'"
    "sl_bPeerReadClosed l' = sl_bPeerReadClosed l"
    using assms(1) by (simp_all add: defs)
  show "BufferedPlaintext l' = BufferedPlaintext l - n"
    using assms(1,2) by (auto simp: defs) (auto simp: BufferedPlaintext_def)
  show "BufferedPlaintext l = 0 \<Longrightarrow> sl_bPeerReadClosed l \<Longrightarrow> sl_bPeerEofDelivered l'"
    "BufferedPlaintext l \<noteq> 0 \<Longrightarrow> sl_bPeerEofDelivered l' = sl_bPeerEofDelivered l"
    using assms(1) by (auto simp: defs BufferedPlaintext_def split: if_splits)
qed

text \<open>Nothing was lost and nothing will be.\<close>

definition posting :: "'s SecureLayer \<Rightarrow> bool" where
  "posting l \<longleftrightarrow> \<not> xl_lost l \<and> False \<notin> set (xl_posts l)"

lemma posting_post: "posting l \<Longrightarrow> posting (snd (Xl_TriggerEvent ev err pass l))"
  by (auto simp: posting_def Xl_TriggerEvent_def Xl_PostMessage_def Xl_SetLayerState_def split: list.split bool.split)

lemma Secure_Receive_posting:
  assumes "posting l"
  shows "posting (snd (Secure_Receive n b l))"
proof -
  have upd: "posting (m\<lparr>sl_bReceivePaused := x\<rparr>) = posting m" "posting (m\<lparr>sl_plaintext := t\<rparr>) = posting m"
    "posting (m\<lparr>sl_plaintextOffset := k\<rparr>) = posting m" "posting (m\<lparr>sl_delivered := t\<rparr>) = posting m"
    "posting (m\<lparr>sl_bPeerEofDelivered := x\<rparr>) = posting m" "posting (Xl_SetLastError e m) = posting m"
    for m :: "'a SecureLayer" and x t k e
    by (simp_all add: posting_def)
  have resume: "posting (ResumeTlsReceive m)" if "posting m" for m :: "'a SecureLayer"
    using that posting_post [of "m\<lparr>sl_bReceivePaused := False\<rparr>"] by (simp add: ResumeTlsReceive_def Let_def case_prod_beta upd)
  then show ?thesis
    using assms by (simp add: Secure_Receive_def Let_def upd posting_post resume)
qed

text \<open>Messages left to handle: one read per byte at most, and one for the end.\<close>

definition reads_left :: "'s SecureLayer \<Rightarrow> nat" where
  "reads_left l = BufferedPlaintext l + (if sl_bPeerReadClosed l \<and> \<not> sl_bPeerEofDelivered l then 1 else 0)"

lemma reads_left_zero: "reads_left l = 0 \<longleftrightarrow> \<not> HasPendingRead l"
  by (auto simp: reads_left_def HasPendingRead_def)

lemma take_read_sel [simp]:
  "xl_state (take_read l) = xl_state l" "xl_critical (take_read l) = xl_critical l" "sl_read (take_read l) = sl_read l"
  "sl_bHandshakeReady (take_read l) = sl_bHandshakeReady l" "sl_bPeerReadClosed (take_read l) = sl_bPeerReadClosed l"
  "sl_bPeerEofDelivered (take_read l) = sl_bPeerEofDelivered l" "BufferedPlaintext (take_read l) = BufferedPlaintext l"
  by (simp_all add: take_read_def BufferedPlaintext_def)

lemma AppReceive_step:
  fixes p :: "'s SecureEnv"
  assumes "secure_inv l" "xl_critical l = 0" "xl_state l = connected \<or> xl_state l = closed" "sl_bHandshakeReady l" "0 < n" "reads_left l \<noteq> 0" "posting l"
  defines "l' \<equiv> secure_step p (AppReceive n) l"
  shows "secure_inv l'" "xl_critical l' = 0" "xl_state l' = xl_state l" "sl_bHandshakeReady l'" "sl_read l' = sl_read l"
    "sl_bPeerReadClosed l' = sl_bPeerReadClosed l" "reads_left l' < reads_left l" "posting l'"
proof -
  have "wake l" "xl_posted l = xl_tried l"
    using assms(1-3,7) by (auto simp: secure_inv_def base_ok_def msgs_ok_def posting_def)
  then have l': "l' = snd (Secure_Receive (int n) True (take_read l))"
    using assms(4,6) by (simp add: wake_def l'_def reads_left_zero)
  show "posting l'"
    unfolding l' using assms(7) by (intro Secure_Receive_posting) (simp add: posting_def take_read_def)
  note r = Secure_Receive_takes [of "take_read l" n, folded l']
  show "secure_inv l'"
    unfolding l'_def using assms(1) by (rule AppReceive_inv)
  show "xl_critical l' = 0" "xl_state l' = xl_state l" "sl_bHandshakeReady l'" "sl_read l' = sl_read l"
    "sl_bPeerReadClosed l' = sl_bPeerReadClosed l"
    using r(1-5) assms(2,4,5) by simp_all
  show "reads_left l' < reads_left l"
    using r(5-8) assms(4-6) by (cases "BufferedPlaintext l = 0") (auto simp: reads_left_def split: if_splits)
qed

lemma reads_reach_end:
  assumes "secure_inv l" "xl_critical l = 0" "xl_state l = connected \<or> xl_state l = closed" "sl_bHandshakeReady l" "posting l" "0 < n"
  shows "\<exists>k\<le>reads_left l. let l' = secure_run p (replicate k (AppReceive n)) l
     in \<not> HasPendingRead l' \<and> sl_delivered l' = sl_read l \<and> (sl_bPeerReadClosed l \<longrightarrow> sl_bPeerEofDelivered l')"
  using assms(1-5)
proof (induction "reads_left l" arbitrary: l rule: less_induct)
  case less
  show ?case
  proof (cases "reads_left l = 0")
    case True
    have "in_ok l"
      using less.prems by (auto simp: secure_inv_def base_ok_def)
    then have "sl_delivered l = sl_read l"
      using True by (auto simp: in_ok_def reads_left_def BufferedPlaintext_def split: if_splits)
    then show ?thesis
      using True by (auto simp: reads_left_zero HasPendingRead_def)
  next
    case False
    note s = AppReceive_step [OF less.prems(1-4) assms(6) False less.prems(5), of p]
    obtain k where "k \<le> reads_left (secure_step p (AppReceive n) l)"
      "let l' = secure_run p (replicate k (AppReceive n)) (secure_step p (AppReceive n) l)
       in \<not> HasPendingRead l' \<and> sl_delivered l' = sl_read l \<and> (sl_bPeerReadClosed l \<longrightarrow> sl_bPeerEofDelivered l')"
      using less.hyps [OF s(7) s(1,2) _ s(4,8)] s(3,5,6) less.prems(3) by auto
    then show ?thesis
      using s(7) by (intro exI [of _ "Suc k"]) (simp del: secure_step.simps)
  qed
qed

section \<open>A session to run\<close>

text \<open>
  A session whose handshake is one byte each way and that sends and receives its plaintext as
  it is; the layer connects, is told two bytes and reads one of them.
\<close>

definition plain_env :: "(bool \<times> bytes \<times> bytes) SecureEnv" where
  "plain_env = \<lparr>se_modules = True, se_path = True, se_library = None, se_exports = True,
     se_create = (\<lambda>k n. Some (False, [1], [])),
     se_is_ready = (\<lambda>(r, w, b). if r then 1 else 0),
     se_feed_tls = (\<lambda>(r, w, b) d. if r then ((0, length d), (True, w, b @ d)) else ((0, 1), (True, w, b))),
     se_drain_tls = (\<lambda>(r, w, b) n. ((0, take n w), (r, drop n w, b))),
     se_write_plain = (\<lambda>(r, w, b) d. ((0, length d), (r, w @ d, b))),
     se_read_plain = (\<lambda>(r, w, b) n. if \<not> r \<or> b = [] then ((-2, []), (r, w, b)) else ((0, take n b), (r, w, drop n b))),
     se_close_notify = (\<lambda>(r, w, b). (0, (r, w @ [21], b))),
     se_export_key = (\<lambda>s. ((0, replicate 32 7), s)),
     se_udp_encrypt = (\<lambda>k d n. (0, d)), se_udp_decrypt = (\<lambda>k d n. (0, d))\<rparr>"

lemma plain_env_ok: "session_ok plain_env"
  by (auto simp: session_ok_def plain_env_def split: if_splits)

lemmas secure_eval = secure_start_def Secure_Configure_def Secure_new_def Xl_ConnectNext_def Xl_CreateNext_def Xl_SetLayerState_def Xl_SetLastError_def
  Secure_event_def Xl_CallEvent_def Secure_OnConnect_def Secure_OnReceive_def Secure_OnSend_def StartHandshake_def LoadTransport_def
  FinishHandshake_def FlushTls.simps drain_loop.simps feed_loop.simps pump_loop.simps pump_step_def PumpTls_def DrainPlaintext_def
  HasPendingTls_def BufferedPlaintext_def HasPendingRead_def Xl_SendNext_def Xl_ReceiveNext_def raw_recv_def next_error_def
  Xl_TriggerEvent_def Xl_PostMessage_def Secure_Receive_def ResumeTlsReceive_def Secure_ShutDown_def Xl_ShutDownNext_def Secure_Send_def take_read_def Let_def
  plain_env_def

definition plain_ops :: "secure_op list" where
  "plain_ops = [Network [SendCount 9] [RecvData [2, 65, 66]], Event FD_CONNECT 0, Event FD_READ 0, AppReceive 1]"

definition plain_layer :: "(bool \<times> bytes \<times> bytes) SecureLayer" where
  "plain_layer = secure_run plain_env plain_ops (secure_start ''k'' ''h'')"

lemma plain_layer_reached:
  "xl_critical plain_layer = 0" "xl_state plain_layer = connected" "sl_bHandshakeReady plain_layer" "sl_session plain_layer \<noteq> None"
  "xl_sent plain_layer = [1]" "xl_received plain_layer = [2, 65, 66]" "sl_read plain_layer = [65, 66]" "sl_delivered plain_layer = [65]"
  "xl_posted plain_layer = [(FD_CONNECT, 0, True), (FD_READ, 0, True)]" "reads_left plain_layer = 1" "xl_posts plain_layer = []"
  "\<not> xl_lost plain_layer"
  by (simp_all add: plain_layer_def plain_ops_def secure_eval reads_left_def)

section \<open>Guarantees\<close>

text \<open>
  C14. Both byte streams of the TLS layer are exact in every run: what the socket accepted followed
  by what is pending is what the session gave for the wire, what the layer above read followed by
  what is buffered is the plaintext the session gave, and as long as no error ended the connection
  the session was fed all that was received. After an error or a close nothing is
  duplicated or reordered, and no function of the module is called without a session.
\<close>

theorem secure_streams_exact:
  assumes "session_ok p"
  shows "let l = secure_run p ops (secure_start psk name) in
      (xl_state l \<noteq> notsock \<longrightarrow>
         xl_sent l @ drop (sl_pendingTlsOffset l) (sl_pendingTls l) = sl_drained l \<and>
         sl_delivered l @ drop (sl_plaintextOffset l) (sl_plaintext l) = sl_read l) \<and>
      (xl_state l = connected \<and> xl_critical l = 0 \<longrightarrow> sl_fed l = xl_received l) \<and>
      prefix (xl_sent l) (sl_drained l) \<and> prefix (sl_delivered l) (sl_read l) \<and> prefix (sl_fed l) (xl_received l) \<and> \<not> sl_fault l"
  using reached_inv [OF assms, of ops psk name]
  by (simp add: Let_def secure_inv_def base_ok_def alive_ok_def out_ok_def in_ok_def)

theorem secure_streams_exact_witness:
  "let l = plain_layer in xl_sent l = [1] \<and> sl_delivered l = [65] \<and> sl_fed l = [2, 65, 66] \<and>
      sl_delivered l @ drop (sl_plaintextOffset l) (sl_plaintext l) = [65, 66]"
  using secure_streams_exact [OF plain_env_ok, of plain_ops "''k''" "''h''", folded plain_layer_def] plain_layer_reached
  by (simp add: Let_def)

text \<open>
  C40. In every run the layer sends the report of the end of the connect at most once, and before
  any message about reading or writing for the layer above; when the handshake is done the success
  has been sent. Posts that fail count as sent here; without one, these are the messages in the queue.
\<close>

theorem secure_connect_once:
  assumes "session_ok p"
  shows "let l = secure_run p ops (secure_start psk name) in
      connects l \<le> 1 \<and> connect_first (xl_tried l) \<and> (sl_bHandshakeReady l \<longrightarrow> (FD_CONNECT, 0, True) \<in> set (xl_tried l)) \<and>
      (\<not> xl_lost l \<longrightarrow> xl_posted l = xl_tried l)"
  using reached_inv [OF assms, of ops psk name] by (simp add: Let_def secure_inv_def base_ok_def msgs_ok_def)

theorem secure_connect_once_witness:
  "connects plain_layer \<le> 1 \<and> connect_first (xl_posted plain_layer) \<and> (FD_CONNECT, 0, True) \<in> set (xl_posted plain_layer)"
  using secure_connect_once [OF plain_env_ok, of plain_ops "''k''" "''h''", folded plain_layer_def] plain_layer_reached
  by (simp add: Let_def)

text \<open>
  C15. No wakeup is lost as long as \<open>PostMessage\<close> works: from every state of a run in which the
  handshake is done, no error ended the connection, no message could not be posted so far and none
  of the following posts fails, a layer above that does nothing but read a positive number of
  bytes whenever it handles a read message gets, after at most one message per buffered byte and
  one for the end, all the plaintext the session gave so far, and the end of the stream when the
  peer ended it; and in such a state reading from the network is paused only while more than 256 KiB
  wait for the layer above or after the end of the peer's stream. (\<open>Receive\<close> ignores a post that
  fails: then the data waits without a message.)
\<close>

theorem secure_no_lost_wakeup:
  assumes "session_ok p" "0 < n" "l = secure_run p ops (secure_start psk name)"
    "xl_critical l = 0" "xl_state l = connected \<or> xl_state l = closed" "sl_bHandshakeReady l"
    "\<not> xl_lost l" "False \<notin> set (xl_posts l)"
  shows "(\<exists>k\<le>reads_left l. let l' = secure_run p (replicate k (AppReceive n)) l
       in sl_delivered l' = sl_read l \<and> (sl_bPeerReadClosed l \<longrightarrow> sl_bPeerEofDelivered l')) \<and>
     (xl_state l = connected \<and> sl_bReceivePaused l \<longrightarrow> PLAINTEXT_LOW_WATER < BufferedPlaintext l \<or> sl_bPeerReadClosed l)"
proof
  have inv: "secure_inv l"
    unfolding assms(3) using assms(1) by (rule reached_inv)
  show "\<exists>k\<le>reads_left l. let l' = secure_run p (replicate k (AppReceive n)) l
      in sl_delivered l' = sl_read l \<and> (sl_bPeerReadClosed l \<longrightarrow> sl_bPeerEofDelivered l')"
    using reads_reach_end [OF inv assms(4-6) _ assms(2), of p] assms(7,8) by (auto simp: Let_def posting_def)
  show "xl_state l = connected \<and> sl_bReceivePaused l \<longrightarrow> PLAINTEXT_LOW_WATER < BufferedPlaintext l \<or> sl_bPeerReadClosed l"
    using inv assms(4,7) by (auto simp: secure_inv_def alive_ok_def live_def paused_ok_def)
qed

theorem secure_no_lost_wakeup_witness:
  "\<exists>k\<le>1. sl_delivered (secure_run plain_env (replicate k (AppReceive 4)) plain_layer) = [65, 66]"
  using secure_no_lost_wakeup [OF plain_env_ok _ plain_layer_def, of 4] plain_layer_reached by (auto simp: Let_def)

end
