(* ===== verification/Base64Url.thy ===== *)
theory Base64Url
  imports Prelude
begin

text \<open>
  Unpadded Base64URL, twice: the functions of \<open>ElevatedLaunchProtocol.h\<close>, which take groups of three
  bytes or four characters into buffers of a given size, and those of \<open>ProfileShareCodec.h\<close>, which
  shift bits through an accumulator of 32 bits. Both encoders agree, both decoders agree, and
  a decoder accepts exactly what the encoder gives.
\<close>

unbundle bit_operations_syntax

section \<open>Groups\<close>

definition url_alphabet :: cstr where
  "url_alphabet = ''ABCDEFGHIJKLMNOPQRSTUVWXYZabcdefghijklmnopqrstuvwxyz0123456789-_''"

definition url_char :: "byte \<Rightarrow> char" where
  "url_char w = url_alphabet ! unat w"

text \<open>The result -1 is \<open>None\<close>.\<close>

definition ProxyLaneBase64UrlDigitValue :: "char \<Rightarrow> byte option" where
  "ProxyLaneBase64UrlDigitValue c =
     (let n = of_char c :: nat in
      if 65 \<le> n \<and> n \<le> 90 then Some (of_nat (n - 65))
      else if 97 \<le> n \<and> n \<le> 122 then Some (of_nat (n - 97 + 26))
      else if 48 \<le> n \<and> n \<le> 57 then Some (of_nat (n - 48 + 52))
      else if n = 45 then Some 62
      else if n = 95 then Some 63
      else None)"

abbreviation "digit \<equiv> ProxyLaneBase64UrlDigitValue"

definition ProxyLaneBase64UrlEncodedLength :: "nat \<Rightarrow> nat" where
  "ProxyLaneBase64UrlEncodedLength n = n div 3 * 4 + (if n mod 3 \<noteq> 0 then n mod 3 + 1 else 0)"

definition ProxyLaneBase64UrlDecodedLength :: "nat \<Rightarrow> nat option" where
  "ProxyLaneBase64UrlDecodedLength n =
     (if n mod 4 = 1 then None else Some (n div 4 * 3 + (if n mod 4 \<noteq> 0 then n mod 4 - 1 else 0)))"

text \<open>The loop over groups and the rest behind it.\<close>

fun url_encode :: "bytes \<Rightarrow> cstr" where
  "url_encode (a # b # c # src) =
     url_char (drop_bit 2 a) # url_char (push_bit 4 (a AND 0x03) OR drop_bit 4 b) #
     url_char (push_bit 2 (b AND 0x0F) OR drop_bit 6 c) # url_char (c AND 0x3F) # url_encode src"
| "url_encode [a, b] =
     [url_char (drop_bit 2 a), url_char (push_bit 4 (a AND 0x03) OR drop_bit 4 b), url_char (push_bit 2 (b AND 0x0F))]"
| "url_encode [a] = [url_char (drop_bit 2 a), url_char (push_bit 4 (a AND 0x03))]"
| "url_encode [] = []"

definition ProxyLaneBase64UrlEncode :: "bytes \<Rightarrow> nat \<Rightarrow> cstr option" where
  "ProxyLaneBase64UrlEncode source destinationSize =
     (if destinationSize \<le> ProxyLaneBase64UrlEncodedLength (length source) then None else Some (url_encode source))"

fun url_decode :: "cstr \<Rightarrow> bytes option" where
  "url_decode (a # b # c # d # src) =
     (case (digit a, digit b, digit c, digit d) of
        (Some first, Some second, Some third, Some fourth) \<Rightarrow>
          map_option (\<lambda>rest. (push_bit 2 first OR drop_bit 4 second) # (push_bit 4 second OR drop_bit 2 third) #
            (push_bit 6 third OR fourth) # rest) (url_decode src)
      | _ \<Rightarrow> None)"
| "url_decode [a, b, c] =
     (case (digit a, digit b) of
        (Some first, Some second) \<Rightarrow>
          (case digit c of
             Some third \<Rightarrow>
               if third AND 0x03 \<noteq> 0 then None
               else Some [push_bit 2 first OR drop_bit 4 second, push_bit 4 second OR drop_bit 2 third]
           | None \<Rightarrow> None)
      | _ \<Rightarrow> None)"
| "url_decode [a, b] =
     (case (digit a, digit b) of
        (Some first, Some second) \<Rightarrow>
          if second AND 0x0F \<noteq> 0 then None else Some [push_bit 2 first OR drop_bit 4 second]
      | _ \<Rightarrow> None)"
| "url_decode [a] = None"
| "url_decode [] = Some []"

definition ProxyLaneBase64UrlDecode :: "cstr \<Rightarrow> nat \<Rightarrow> bytes option" where
  "ProxyLaneBase64UrlDecode source destinationSize =
     (case ProxyLaneBase64UrlDecodedLength (length source) of
        None \<Rightarrow> None
      | Some requiredLength \<Rightarrow>
        if destinationSize < requiredLength then None
        else (case url_decode source of
           Some out \<Rightarrow> if length out = requiredLength then Some out else None
         | None \<Rightarrow> None))"

section \<open>Shifting\<close>

text \<open>The inner loop of \<open>Base64Url\<close>, and the loop over the input.\<close>

fun share_emit :: "dword \<Rightarrow> nat \<Rightarrow> cstr \<times> nat" where
  "share_emit bits count =
     (if 6 \<le> count then
        let (out, rest) = share_emit bits (count - 6)
        in (url_alphabet ! unat (drop_bit (count - 6) bits AND 63) # out, rest)
      else ([], count))"

fun share_encode :: "dword \<Rightarrow> nat \<Rightarrow> bytes \<Rightarrow> cstr" where
  "share_encode bits count [] = (if count \<noteq> 0 then [url_alphabet ! unat (push_bit (6 - count) bits AND 63)] else [])"
| "share_encode bits count (ch # input) =
     (let bits = push_bit 8 bits OR ucast ch; (out, count) = share_emit bits (count + 8)
      in out @ share_encode bits count input)"

definition Base64Url :: "bytes \<Rightarrow> cstr" where
  "Base64Url input = share_encode 0 0 input"

text \<open>The digits of the decoder are computed in place, as \<open>ProxyLaneBase64UrlDigitValue\<close> does.\<close>

fun share_decode :: "dword \<Rightarrow> nat \<Rightarrow> cstr \<Rightarrow> bytes option" where
  "share_decode bits count [] = (if count \<noteq> 0 \<and> bits AND (push_bit count 1 - 1) \<noteq> 0 then None else Some [])"
| "share_decode bits count (ch # encoded) =
     (case digit ch of
        None \<Rightarrow> None
      | Some n \<Rightarrow>
        let bits = push_bit 6 bits OR ucast n; count = count + 6 in
        if 8 \<le> count
        then map_option (\<lambda>json. ucast (drop_bit (count - 8) bits AND 255) # json) (share_decode bits (count - 8) encoded)
        else share_decode bits count encoded)"

definition share_base64_decode :: "cstr \<Rightarrow> bytes option" where
  "share_base64_decode encoded =
     (if encoded = [] \<or> length encoded mod 4 = 1 then None else share_decode 0 0 encoded)"

declare share_emit.simps [simp del]

section \<open>Digits\<close>

lemma digit_char_all: "list_all (\<lambda>k. digit (url_alphabet ! k) = Some (of_nat k)) [0..<64]"
  by (simp add: upt_rec url_alphabet_def ProxyLaneBase64UrlDigitValue_def)

lemma digit_url_char: "unat w < 64 \<Longrightarrow> digit (url_char w) = Some w"
  using digit_char_all by (auto simp: list_all_iff url_char_def)

definition digit_code :: "nat \<Rightarrow> nat" where
  "digit_code m = (if m < 26 then m + 65 else if m < 52 then m + 71 else if m < 62 then m - 4 else if m = 62 then 45 else 95)"

lemma digit_code:
  assumes "digit c = Some v"
  shows "unat v < 64 \<and> of_char c = digit_code (unat v)"
proof -
  define n where "n = (of_char c :: nat)"
  have "\<exists>m<64. v = of_nat m \<and> n = digit_code m"
  proof -
    consider "65 \<le> n" "n \<le> 90" "v = of_nat (n - 65)" | "97 \<le> n" "n \<le> 122" "v = of_nat (n - 97 + 26)"
      | "48 \<le> n" "n \<le> 57" "v = of_nat (n - 48 + 52)" | "n = 45" "v = 62" | "n = 95" "v = 63"
      using assms unfolding ProxyLaneBase64UrlDigitValue_def Let_def n_def by (metis option.inject option.discI)
    then show ?thesis
    proof cases
      case 1
      then show ?thesis by (intro exI [of _ "n - 65"]) (auto simp: digit_code_def)
    next
      case 2
      then show ?thesis by (intro exI [of _ "n - 97 + 26"]) (auto simp: digit_code_def)
    next
      case 3
      then show ?thesis by (intro exI [of _ "n - 48 + 52"]) (auto simp: digit_code_def)
    next
      case 4
      then show ?thesis by (intro exI [of _ 62]) (simp add: digit_code_def)
    next
      case 5
      then show ?thesis by (intro exI [of _ 63]) (simp add: digit_code_def)
    qed
  qed
  then show ?thesis
    by (auto simp: n_def unat_of_nat)
qed

lemma digit_Some:
  assumes "digit c = Some v"
  shows "unat v < 64" "url_char v = c"
proof -
  show v: "unat v < 64"
    using digit_code [OF assms] by blast
  have "of_char (url_char v) = (of_char c :: nat)"
    using digit_code [OF assms] digit_code [OF digit_url_char [OF v]] by simp
  then show "url_char v = c"
    by (metis char_of_char)
qed

section \<open>Bits\<close>

lemma six_bits: "unat (v :: byte) < 64 \<longleftrightarrow> take_bit 6 v = v"
proof -
  have "take_bit 6 v = v \<longleftrightarrow> unat v mod 64 = unat v"
    by (simp add: word_unat_eq_iff unsigned_take_bit_eq take_bit_eq_mod unat_mod)
  then show ?thesis
    by (metis mod_less mod_less_divisor zero_less_numeral)
qed

text \<open>Two bytes are equal bit by bit.\<close>

lemma byte_eqI:
  assumes "bit a 0 = bit b 0" "bit a 1 = bit b 1" "bit a 2 = bit b 2" "bit a 3 = bit b 3"
    "bit a 4 = bit b 4" "bit a 5 = bit b 5" "bit a 6 = bit b 6" "bit a 7 = bit b 7"
  shows "a = (b :: byte)"
proof (rule bit_word_eqI)
  fix n assume "n < LENGTH(8)"
  then have "n \<in> {0, 1, 2, 3, 4, 5, 6, 7}"
    by auto
  then show "bit a n = bit b n"
    using assms by auto
qed

lemma high_bits: "unat (v :: byte) < 64 \<Longrightarrow> 6 \<le> n \<Longrightarrow> \<not> bit v n"
  by (metis six_bits bit_take_bit_iff not_le)

lemma byte_high: "8 \<le> n \<Longrightarrow> \<not> bit (a :: byte) n"
  using bit_imp_le_length [of a n] by auto

lemma masks: "(0x03 :: byte) = mask 2" "(0x0F :: byte) = mask 4" "(0x3F :: byte) = mask 6"
  by (simp_all add: mask_eq_exp_minus_1)

lemma sextets_small:
  "unat (drop_bit 2 (a :: byte)) < 64" "unat (push_bit 4 (a AND 0x03) OR drop_bit 4 (b :: byte)) < 64"
  "unat (push_bit 2 (b AND 0x0F) OR drop_bit 6 (c :: byte)) < 64" "unat (c AND 0x3F) < 64"
  "unat (push_bit 2 (b AND 0x0F)) < 64" "unat (push_bit 4 (a AND 0x03)) < 64"
  unfolding six_bits masks by (rule byte_eqI; simp add: bit_simps byte_high)+

text \<open>The octets of the sextets of a group.\<close>

lemma octets:
  "push_bit 2 (drop_bit 2 a) OR drop_bit 4 (push_bit 4 (a AND 0x03) OR drop_bit 4 b) = (a :: byte)"
  "push_bit 4 (push_bit 4 (a AND 0x03) OR drop_bit 4 b) OR drop_bit 2 (push_bit 2 (b AND 0x0F) OR drop_bit 6 c) = (b :: byte)"
  "push_bit 6 (push_bit 2 (b AND 0x0F) OR drop_bit 6 c) OR (c AND 0x3F) = (c :: byte)"
  "push_bit 2 (drop_bit 2 a) OR drop_bit 4 (push_bit 4 (a AND 0x03)) = (a :: byte)"
  "push_bit 4 (push_bit 4 (a AND 0x03) OR drop_bit 4 b) OR drop_bit 2 (push_bit 2 (b AND 0x0F)) = (b :: byte)"
  "push_bit 4 (drop_bit 4 b) OR drop_bit 2 (push_bit 2 (b AND 0x0F)) = (b :: byte)" "push_bit 6 (drop_bit 6 c) OR (c AND 0x3F) = (c :: byte)"
  "push_bit 2 (b AND 0x0F) AND 0x03 = (0 :: byte)" "push_bit 4 (a AND 0x03) AND 0x0F = (0 :: byte)"
  unfolding masks by (rule byte_eqI; simp add: bit_simps byte_high)+

text \<open>The sextets of the octets of a group.\<close>

lemma sextets:
  assumes "unat a < 64" "unat b < 64" "unat c < 64" "unat d < 64"
  shows "drop_bit 2 (push_bit 2 a OR drop_bit 4 b) = (a :: byte)"
    "push_bit 4 ((push_bit 2 a OR drop_bit 4 b) AND 0x03) OR drop_bit 4 (push_bit 4 b OR drop_bit 2 c) = (b :: byte)"
    "push_bit 2 ((push_bit 4 b OR drop_bit 2 c) AND 0x0F) OR drop_bit 6 (push_bit 6 c OR d) = (c :: byte)"
    "(push_bit 6 c OR d) AND 0x3F = (d :: byte)"
    "c AND 0x03 = 0 \<Longrightarrow> push_bit 2 ((push_bit 4 b OR drop_bit 2 c) AND 0x0F) = c"
    "b AND 0x0F = 0 \<Longrightarrow> push_bit 4 ((push_bit 2 a OR drop_bit 4 b) AND 0x03) = b"
proof -
  have bits: "\<not> bit a 6" "\<not> bit a 7" "\<not> bit b 6" "\<not> bit b 7" "\<not> bit c 6" "\<not> bit c 7" "\<not> bit d 6" "\<not> bit d 7"
    using assms high_bits by simp_all
  show "drop_bit 2 (push_bit 2 a OR drop_bit 4 b) = a"
    "push_bit 4 ((push_bit 2 a OR drop_bit 4 b) AND 0x03) OR drop_bit 4 (push_bit 4 b OR drop_bit 2 c) = b"
    "push_bit 2 ((push_bit 4 b OR drop_bit 2 c) AND 0x0F) OR drop_bit 6 (push_bit 6 c OR d) = c"
    "(push_bit 6 c OR d) AND 0x3F = d"
    unfolding masks using bits by - (rule byte_eqI; simp add: bit_simps byte_high)+
  show "push_bit 2 ((push_bit 4 b OR drop_bit 2 c) AND 0x0F) = c" if "c AND 0x03 = 0"
  proof -
    have "\<not> bit (c AND 0x03) 0" "\<not> bit (c AND 0x03) 1"
      unfolding that by simp_all
    then show ?thesis
      unfolding masks using bits by - (rule byte_eqI; simp add: bit_simps byte_high)
  qed
  show "push_bit 4 ((push_bit 2 a OR drop_bit 4 b) AND 0x03) = b" if "b AND 0x0F = 0"
  proof -
    have "\<not> bit (b AND 0x0F) 0" "\<not> bit (b AND 0x0F) 1" "\<not> bit (b AND 0x0F) 2" "\<not> bit (b AND 0x0F) 3"
      unfolding that by simp_all
    then show ?thesis
      unfolding masks using bits by - (rule byte_eqI; simp add: bit_simps byte_high)
  qed
qed

section \<open>The two directions\<close>

lemma length_url_encode: "length (url_encode src) = ProxyLaneBase64UrlEncodedLength (length src)"
proof (induction src rule: url_encode.induct)
  case (1 a b c src)
  have "Suc (Suc (Suc n)) div 3 = Suc (n div 3)" "Suc (Suc (Suc n)) mod 3 = n mod 3" for n :: nat
    by presburger+
  then show ?case
    using 1 by (simp add: ProxyLaneBase64UrlEncodedLength_def)
qed (simp_all add: ProxyLaneBase64UrlEncodedLength_def)

lemma url_decode_encode: "url_decode (url_encode src) = Some src"
  by (induction src rule: url_encode.induct) (simp_all add: digit_url_char sextets_small octets del: push_bit_and push_bit_or drop_bit_and drop_bit_or)

lemma url_encode_decode: "url_decode s = Some src \<Longrightarrow> url_encode src = s"
proof (induction s arbitrary: src rule: url_decode.induct)
  case (1 a b c d s)
  then obtain x y z w rest where v: "digit a = Some x" "digit b = Some y" "digit c = Some z" "digit d = Some w" "url_decode s = Some rest"
    and src: "src = (push_bit 2 x OR drop_bit 4 y) # (push_bit 4 y OR drop_bit 2 z) # (push_bit 6 z OR w) # rest"
    by (auto split: option.splits)
  have "url_encode rest = s"
    using 1(1) v by auto
  then show ?case
    using digit_Some [OF v(1)] digit_Some [OF v(2)] digit_Some [OF v(3)] digit_Some [OF v(4)] by (simp add: src sextets del: push_bit_and push_bit_or drop_bit_and drop_bit_or)
next
  case (2 a b c)
  then obtain x y z where v: "digit a = Some x" "digit b = Some y" "digit c = Some z" "z AND 0x03 = 0"
    and src: "src = [push_bit 2 x OR drop_bit 4 y, push_bit 4 y OR drop_bit 2 z]"
    by (auto split: option.splits if_splits)
  then show ?case
    using digit_Some [OF v(1)] digit_Some [OF v(2)] digit_Some [OF v(3)] sextets [of x y z 0] by (simp del: push_bit_and push_bit_or drop_bit_and drop_bit_or)
next
  case (3 a b)
  then obtain x y where v: "digit a = Some x" "digit b = Some y" "y AND 0x0F = 0" and src: "src = [push_bit 2 x OR drop_bit 4 y]"
    by (auto split: option.splits if_splits)
  then show ?case
    using digit_Some [OF v(1)] digit_Some [OF v(2)] sextets [of x y 0 0] by (simp del: push_bit_and push_bit_or drop_bit_and drop_bit_or)
qed simp_all

lemma decoded_length: "ProxyLaneBase64UrlDecodedLength (ProxyLaneBase64UrlEncodedLength n) = Some n"
proof -
  have "\<exists>k. n = k * 3 \<or> n = k * 3 + 1 \<or> n = k * 3 + 2"
    by presburger
  then obtain k where n: "n = k * 3 \<or> n = k * 3 + 1 \<or> n = k * 3 + 2"
    by blast
  have thirds: "(k * 3 + 1) div 3 = k" "(k * 3 + 1) mod 3 = 1" "(k * 3 + 2) div 3 = k" "(k * 3 + 2) mod 3 = 2"
    by presburger+
  have quarters: "(k * 4 + 2) div 4 = k" "(k * 4 + 2) mod 4 = 2" "(k * 4 + 3) div 4 = k" "(k * 4 + 3) mod 4 = 3"
    by presburger+
  show ?thesis
    using n thirds quarters by (elim disjE) (simp_all add: ProxyLaneBase64UrlDecodedLength_def ProxyLaneBase64UrlEncodedLength_def)
qed

lemma base64url_decode_encode:
  "length src \<le> n \<Longrightarrow> ProxyLaneBase64UrlDecode (url_encode src) n = Some src"
  using url_decode_encode [of src] length_url_encode [of src] decoded_length [of "length src"]
  by (simp add: ProxyLaneBase64UrlDecode_def)

text \<open>
  The decoder of the launch protocol accepts exactly the texts that the encoder gives for some
  bytes that fit into the destination, and then gives these bytes: no text decodes to bytes
  that encode differently, and none of the checks refuses a text of the encoder.
\<close>

theorem base64url_exact:
  "ProxyLaneBase64UrlDecode s n = Some src \<longleftrightarrow>
     ProxyLaneBase64UrlEncode src (Suc (length s)) = Some s \<and> length src \<le> n"
proof
  assume *: "ProxyLaneBase64UrlDecode s n = Some src"
  then have dec: "url_decode s = Some src" "length src \<le> n"
    by (auto simp: ProxyLaneBase64UrlDecode_def split: option.splits if_splits)
  then show "ProxyLaneBase64UrlEncode src (Suc (length s)) = Some s \<and> length src \<le> n"
    using url_encode_decode length_url_encode [of src] by (simp add: ProxyLaneBase64UrlEncode_def)
next
  assume "ProxyLaneBase64UrlEncode src (Suc (length s)) = Some s \<and> length src \<le> n"
  then show "ProxyLaneBase64UrlDecode s n = Some src"
    using base64url_decode_encode [of src n] by (auto simp: ProxyLaneBase64UrlEncode_def split: if_splits)
qed

section \<open>The two codecs agree\<close>

lemma share_emit_steps:
  "share_emit bits 8 = ([url_alphabet ! unat (drop_bit 2 bits AND 63)], 2)"
  "share_emit bits 10 = ([url_alphabet ! unat (drop_bit 4 bits AND 63)], 4)"
  "share_emit bits 12 = ([url_alphabet ! unat (drop_bit 6 bits AND 63), url_alphabet ! unat (bits AND 63)], 0)"
  by (simp_all add: share_emit.simps)

lemma unat_widened: "unat (ucast (v :: byte) :: dword) = unat v"
  using unsigned_less [of v, where 'a = nat] by (simp add: unsigned_ucast_eq take_bit_nat_eq_self_iff)

lemma dword_sextet:
  assumes small: "unat (v :: byte) < 64"
    and low: "bit w 0 = bit v 0" "bit w 1 = bit v 1" "bit w 2 = bit v 2" "bit w 3 = bit v 3" "bit w 4 = bit v 4" "bit w 5 = bit v 5"
  shows "url_alphabet ! unat ((w :: dword) AND 63) = url_char v"
proof -
  have "w AND 63 = (ucast v :: dword)"
  proof (rule bit_word_eqI)
    fix n assume "n < LENGTH(32)"
    have m: "(63 :: dword) = mask 6"
      by (simp add: mask_eq_exp_minus_1)
    have same: "bit w n = bit v n" if "n < 6"
    proof -
      have "n \<in> {0, 1, 2, 3, 4, 5}"
        using that by auto
      then show ?thesis
        using low by auto
    qed
    show "bit (w AND 63) n = bit (ucast v :: dword) n"
      unfolding m using same high_bits [OF small, of n] \<open>n < LENGTH(32)\<close> by (cases "n < 6") (auto simp: bit_simps)
  qed
  then show ?thesis
    by (simp add: url_char_def unat_widened)
qed

lemma share_encode_url: "share_encode bits 0 src = url_encode src"
proof (induction src arbitrary: bits rule: url_encode.induct)
  case (1 a b c src)
  let ?w1 = "push_bit 8 bits OR ucast a :: dword" let ?w2 = "push_bit 8 ?w1 OR ucast b :: dword" let ?w3 = "push_bit 8 ?w2 OR ucast c :: dword"
  have "url_alphabet ! unat (drop_bit 2 ?w1 AND 63) = url_char (drop_bit 2 a)"
    "url_alphabet ! unat (drop_bit 4 ?w2 AND 63) = url_char (push_bit 4 (a AND 0x03) OR drop_bit 4 b)"
    "url_alphabet ! unat (drop_bit 6 ?w3 AND 63) = url_char (push_bit 2 (b AND 0x0F) OR drop_bit 6 c)"
    "url_alphabet ! unat (?w3 AND 63) = url_char (c AND 0x3F)"
    by (rule dword_sextet [OF sextets_small(1)] dword_sextet [OF sextets_small(2)] dword_sextet [OF sextets_small(3)]
        dword_sextet [OF sextets_small(4)]; simp add: masks bit_simps byte_high)+
  then show ?case
    using 1 by (simp add: share_emit_steps Let_def)
next
  case (2 a b)
  let ?w1 = "push_bit 8 bits OR ucast a :: dword" let ?w2 = "push_bit 8 ?w1 OR ucast b :: dword"
  have "url_alphabet ! unat (drop_bit 2 ?w1 AND 63) = url_char (drop_bit 2 a)"
    "url_alphabet ! unat (drop_bit 4 ?w2 AND 63) = url_char (push_bit 4 (a AND 0x03) OR drop_bit 4 b)"
    "url_alphabet ! unat (push_bit 2 ?w2 AND 63) = url_char (push_bit 2 (b AND 0x0F))"
    by (rule dword_sextet [OF sextets_small(1)] dword_sextet [OF sextets_small(2)] dword_sextet [OF sextets_small(5)];
        simp add: masks bit_simps byte_high)+
  then show ?case
    by (simp add: share_emit_steps Let_def)
next
  case (3 a)
  let ?w1 = "push_bit 8 bits OR ucast a :: dword"
  have "url_alphabet ! unat (drop_bit 2 ?w1 AND 63) = url_char (drop_bit 2 a)"
    "url_alphabet ! unat (push_bit 4 ?w1 AND 63) = url_char (push_bit 4 (a AND 0x03))"
    by (rule dword_sextet [OF sextets_small(1)] dword_sextet [OF sextets_small(6)]; simp add: masks bit_simps byte_high)+
  then show ?case
    by (simp add: share_emit_steps Let_def)
qed simp

lemma shifted_octets:
  fixes bits :: dword and x y z w :: byte
  assumes "unat x < 64" "unat y < 64" "unat z < 64" "unat w < 64"
  defines "w2 \<equiv> push_bit 6 (push_bit 6 bits OR ucast x) OR ucast y :: dword"
  defines "w3 \<equiv> push_bit 6 w2 OR ucast z" defines "w4 \<equiv> push_bit 6 w3 OR ucast w"
  shows "ucast (drop_bit 4 w2 AND 255) = push_bit 2 x OR drop_bit 4 y" "ucast (drop_bit 2 w3 AND 255) = push_bit 4 y OR drop_bit 2 z"
    "ucast (w4 AND 255) = push_bit 6 z OR w" "w2 AND 15 = 0 \<longleftrightarrow> y AND 0x0F = 0" "w3 AND 3 = 0 \<longleftrightarrow> z AND 0x03 = 0"
proof -
  have bits: "\<not> bit y 6" "\<not> bit y 7" "\<not> bit z 6" "\<not> bit z 7" "\<not> bit w 6" "\<not> bit w 7" "\<not> bit x 6" "\<not> bit x 7"
    using assms(1-4) high_bits by simp_all
  have m: "(255 :: dword) = mask 8" "(15 :: dword) = mask 4" "(3 :: dword) = mask 2"
    by (simp_all add: mask_eq_exp_minus_1)
  show "ucast (drop_bit 4 w2 AND 255) = push_bit 2 x OR drop_bit 4 y" "ucast (drop_bit 2 w3 AND 255) = push_bit 4 y OR drop_bit 2 z"
    "ucast (w4 AND 255) = push_bit 6 z OR w"
    unfolding m w2_def w3_def w4_def using bits by - (rule byte_eqI; simp add: bit_simps byte_high)+
  have low: "w2 AND 15 = ucast (y AND 0x0F)" "w3 AND 3 = ucast (z AND 0x03)"
    unfolding m masks w2_def w3_def by (rule bit_word_eqI; auto simp: bit_simps)+
  have "(ucast v :: dword) = 0 \<longleftrightarrow> v = 0" for v :: byte
    by (metis unat_widened unsigned_eq_0_iff)
  then show "w2 AND 15 = 0 \<longleftrightarrow> y AND 0x0F = 0" "w3 AND 3 = 0 \<longleftrightarrow> z AND 0x03 = 0"
    unfolding low by blast+
qed

lemma share_decode_url: "length s mod 4 \<noteq> 1 \<Longrightarrow> share_decode bits 0 s = url_decode s"
proof (induction s arbitrary: bits rule: url_decode.induct)
  case (1 a b c d s)
  show ?case
  proof (cases "digit a = None \<or> digit b = None \<or> digit c = None \<or> digit d = None")
    case True
    then show ?thesis
      by (auto simp: Let_def split: option.split)
  next
    case False
    then obtain x y z w where v: "digit a = Some x" "digit b = Some y" "digit c = Some z" "digit d = Some w"
      by auto
    have "Suc (Suc (Suc (Suc n))) mod 4 = n mod 4" for n :: nat
      by presburger
    then have "share_decode bits 0 s = url_decode s" for bits
      using 1(1) v 1(2) by simp
    then show ?thesis
      using v shifted_octets(1-3) [OF digit_Some(1) [OF v(1)] digit_Some(1) [OF v(2)] digit_Some(1) [OF v(3)] digit_Some(1) [OF v(4)], of bits]
      by (simp add: Let_def option.map_comp comp_def)
  qed
next
  case (2 a b c)
  then show ?case
    using shifted_octets [OF digit_Some(1) digit_Some(1) digit_Some(1), of a _ b _ c _ 0 bits]
    by (auto simp: Let_def split: option.split)
next
  case (3 a b)
  then show ?case
    using shifted_octets [OF digit_Some(1) digit_Some(1), of a _ b _ 0 0 bits] by (auto simp: Let_def split: option.split)
qed simp_all

lemma share_decode_encode: "src \<noteq> [] \<Longrightarrow> share_base64_decode (Base64Url src) = Some src"
proof -
  assume "src \<noteq> []"
  then have "url_encode src \<noteq> []"
    by (cases src rule: url_encode.cases) simp_all
  moreover have "length (url_encode src) mod 4 \<noteq> 1"
    using decoded_length [of "length src"] by (auto simp: length_url_encode ProxyLaneBase64UrlDecodedLength_def split: if_splits)
  ultimately show ?thesis
    by (simp add: share_base64_decode_def Base64Url_def share_encode_url share_decode_url url_decode_encode)
qed

lemma url_encode_alphabet: "set (url_encode src) \<subseteq> set url_alphabet"
proof -
  have "url_char w \<in> set url_alphabet" if "unat w < 64" for w
  proof -
    have "length url_alphabet = 64"
      by (simp add: url_alphabet_def)
    then show ?thesis
      using that by (simp add: url_char_def)
  qed
  then show ?thesis
    by (induction src rule: url_encode.induct) (simp_all add: sextets_small del: push_bit_and)
qed

text \<open>
  C25. The two implementations of unpadded Base64URL, one by groups and one by shifting bits through an
  accumulator that overflows, give the same text for the same bytes and the same result for the
  same text.
\<close>

theorem base64url_codecs_agree:
  "Base64Url src = url_encode src \<and> (s \<noteq> [] \<longrightarrow> share_base64_decode s = ProxyLaneBase64UrlDecode s (length s))"
proof (intro conjI impI)
  show "Base64Url src = url_encode src"
    by (simp add: Base64Url_def share_encode_url)
  assume "s \<noteq> []"
  show "share_base64_decode s = ProxyLaneBase64UrlDecode s (length s)"
  proof (cases "length s mod 4 = 1")
    case True
    then show ?thesis
      by (simp add: share_base64_decode_def ProxyLaneBase64UrlDecode_def ProxyLaneBase64UrlDecodedLength_def)
  next
    case False
    have "ProxyLaneBase64UrlDecode s (length s) = url_decode s"
    proof (cases "url_decode s")
      case (Some out)
      then have "ProxyLaneBase64UrlEncodedLength (length out) = length s"
        using url_encode_decode length_url_encode by metis
      moreover have "length out \<le> length out div 3 * 4 + length out mod 3"
        using div_mult_mod_eq [of "length out" 3] by linarith
      then have "length out \<le> ProxyLaneBase64UrlEncodedLength (length out)"
        by (auto simp: ProxyLaneBase64UrlEncodedLength_def)
      ultimately show ?thesis
        using Some decoded_length [of "length out"] by (simp add: ProxyLaneBase64UrlDecode_def)
    qed (simp add: ProxyLaneBase64UrlDecode_def split: option.split)
    then show ?thesis
      using False \<open>s \<noteq> []\<close> by (simp add: share_base64_decode_def share_decode_url)
  qed
qed

theorem base64url_codecs_agree_witness:
  "Base64Url [72, 105, 33, 7] = ''SGkhBw'' \<and> share_base64_decode ''SGkhBw'' = ProxyLaneBase64UrlDecode ''SGkhBw'' (length ''SGkhBw'')"
  using base64url_codecs_agree [of "[72, 105, 33, 7]" "''SGkhBw''"] by (simp add: url_char_def url_alphabet_def)

end
