(* ===== verification/ElevatedLaunch.thy ===== *)
theory ElevatedLaunch
  imports PipeRecords Base64Url
begin

text \<open>
  Launching an application with elevated rights. The user interface packs the request into bytes
  and Base64URL text (\<open>LaunchElevatedAndProxy\<close> of \<open>Page3.cpp\<close>), the system starts \<open>rundll32\<close> with this
  text, and \<open>ElevatedLaunch\<close> of \<open>ElevatedLauncher.cpp\<close> unpacks it (\<open>ElevatedLaunchProtocol.h\<close>), checks it,
  creates the process suspended, injects the library and resumes it. The two UTF-8 conversions
  of Windows are parameters; strings are without their terminator.
\<close>

type_synonym wstr = "16 word list"

section \<open>The request as bytes\<close>

record LaunchHeader =
  lh_magic :: dword
  lh_version :: word16
  lh_headerSize :: word16
  lh_totalSize :: dword
  lh_targetPathBytes :: dword
  lh_commandLineBytes :: dword
  lh_workingDirectoryBytes :: dword
  lh_pipeNameBytes :: dword
  lh_flags :: dword

definition header_bytes :: "LaunchHeader \<Rightarrow> bytes" where
  "header_bytes h = dword_bytes (lh_magic h) @ word16_bytes (lh_version h) @ word16_bytes (lh_headerSize h) @
     dword_bytes (lh_totalSize h) @ dword_bytes (lh_targetPathBytes h) @ dword_bytes (lh_commandLineBytes h) @
     dword_bytes (lh_workingDirectoryBytes h) @ dword_bytes (lh_pipeNameBytes h) @ dword_bytes (lh_flags h)"

definition bytes_header :: "bytes \<Rightarrow> LaunchHeader" where
  "bytes_header b = \<lparr>lh_magic = bytes_dword b, lh_version = bytes_word16 (drop 4 b), lh_headerSize = bytes_word16 (drop 6 b),
     lh_totalSize = bytes_dword (drop 8 b), lh_targetPathBytes = bytes_dword (drop 12 b), lh_commandLineBytes = bytes_dword (drop 16 b),
     lh_workingDirectoryBytes = bytes_dword (drop 20 b), lh_pipeNameBytes = bytes_dword (drop 24 b), lh_flags = bytes_dword (drop 28 b)\<rparr>"

abbreviation (input) "ELEVATED_MAGIC \<equiv> (0x4C454C50 :: dword)"
abbreviation (input) "ELEVATED_TARGET_CCH \<equiv> (1284 :: nat)"
abbreviation (input) "ELEVATED_COMMAND_CCH \<equiv> (4096 :: nat)"
abbreviation (input) "ELEVATED_DIRECTORY_CCH \<equiv> (260 :: nat)"
abbreviation (input) "ELEVATED_PIPE_CCH \<equiv> (128 :: nat)"
abbreviation (input) "ELEVATED_MAX_WIRE_BYTES \<equiv> (32 + 1283 * 3 + 4095 * 3 + 259 * 3 + 127 :: nat)"

text \<open>One field: the macro \<open>PROXYLANE_ASSIGN_WIRE_FIELD\<close>, with the bytes behind the offset.\<close>

definition wire_field :: "dword \<Rightarrow> bytes \<Rightarrow> (bytes \<times> bytes) option" where
  "wire_field n rest = (if length rest < unat n then None else Some (take (unat n) rest, drop (unat n) rest))"

definition header_valid :: "LaunchHeader \<Rightarrow> nat \<Rightarrow> bool" where
  "header_valid h dataSize \<longleftrightarrow>
     \<not> (lh_magic h \<noteq> ELEVATED_MAGIC \<or> lh_version h \<noteq> 2 \<or> lh_headerSize h \<noteq> 32 \<or> unat (lh_totalSize h) \<noteq> dataSize \<or>
        lh_flags h \<noteq> 0 \<or> lh_targetPathBytes h = 0 \<or> lh_commandLineBytes h = 0 \<or> lh_pipeNameBytes h = 0)"

definition ProxyLaneParseElevatedRequest :: "bytes \<Rightarrow> (bytes \<times> bytes \<times> bytes \<times> bytes) option" where
  "ProxyLaneParseElevatedRequest data =
     (if length data < 32 \<or> ELEVATED_MAX_WIRE_BYTES < length data then None
      else
        let h = bytes_header data in
        if \<not> header_valid h (length data) then None
        else
          case wire_field (lh_targetPathBytes h) (drop 32 data) of None \<Rightarrow> None | Some (t, rest) \<Rightarrow>
          case wire_field (lh_commandLineBytes h) rest of None \<Rightarrow> None | Some (c, rest) \<Rightarrow>
          case wire_field (lh_workingDirectoryBytes h) rest of None \<Rightarrow> None | Some (w, rest) \<Rightarrow>
          case wire_field (lh_pipeNameBytes h) rest of None \<Rightarrow> None | Some (p, rest) \<Rightarrow>
          if rest = [] then Some (t, c, w, p) else None)"

section \<open>Sending\<close>

datatype AppLaunchResult = APP_LAUNCH_INVALID_TARGET | APP_LAUNCH_ELEVATED_HELPER_FAILED

definition launch_header :: "bytes \<Rightarrow> bytes \<Rightarrow> bytes \<Rightarrow> bytes \<Rightarrow> LaunchHeader" where
  "launch_header t c w p =
     \<lparr>lh_magic = ELEVATED_MAGIC, lh_version = 2, lh_headerSize = 32, lh_totalSize = of_nat (32 + length t + length c + length w + length p),
      lh_targetPathBytes = of_nat (length t), lh_commandLineBytes = of_nat (length c), lh_workingDirectoryBytes = of_nat (length w),
      lh_pipeNameBytes = of_nat (length p), lh_flags = 0\<rparr>"

definition wire_request :: "bytes \<Rightarrow> bytes \<Rightarrow> bytes \<Rightarrow> bytes \<Rightarrow> bytes option" where
  "wire_request t c w p =
     (if ELEVATED_MAX_WIRE_BYTES < 32 + length t + length c + length w + length p then None
      else Some (header_bytes (launch_header t c w p) @ t @ c @ w @ p))"

definition utf8_field :: "(wstr \<Rightarrow> bytes option) \<Rightarrow> wstr \<Rightarrow> bytes option" where
  "utf8_field to_utf w = (if w = [] then Some [] else case to_utf w of Some b \<Rightarrow> if b = [] then None else Some b | None \<Rightarrow> None)"

text \<open>
  The text that is passed on the command line of the helper. The path of the library and the start of
  the helper follow.
\<close>

definition elevated_request ::
  "(wstr \<Rightarrow> bytes option) \<Rightarrow> wstr option \<Rightarrow> wstr option \<Rightarrow> wstr option \<Rightarrow> cstr option \<Rightarrow> AppLaunchResult + cstr" where
  "elevated_request to_utf targetPath commandLine workingDirectory pipeName =
     (case (targetPath, commandLine) of
        (Some target, Some command) \<Rightarrow>
          let dir = (case workingDirectory of Some d \<Rightarrow> d | None \<Rightarrow> []) in
          if ELEVATED_TARGET_CCH \<le> length target \<or> ELEVATED_COMMAND_CCH \<le> length command \<or> ELEVATED_DIRECTORY_CCH \<le> length dir
          then Inl APP_LAUNCH_INVALID_TARGET
          else (case pipeName of
             None \<Rightarrow> Inl APP_LAUNCH_ELEVATED_HELPER_FAILED
           | Some pipe \<Rightarrow>
             (case (utf8_field to_utf target, utf8_field to_utf command, utf8_field to_utf dir) of
                (Some t, Some c, Some w) \<Rightarrow>
                  (case wire_request t c w (cstr_bytes pipe) of
                     None \<Rightarrow> Inl APP_LAUNCH_ELEVATED_HELPER_FAILED
                   | Some wire \<Rightarrow>
                     let encodedLength = ProxyLaneBase64UrlEncodedLength (length wire) in
                     (case ProxyLaneBase64UrlEncode wire (encodedLength + 1) of
                        None \<Rightarrow> Inl APP_LAUNCH_ELEVATED_HELPER_FAILED
                      | Some text \<Rightarrow>
                        if length text \<noteq> encodedLength then Inl APP_LAUNCH_ELEVATED_HELPER_FAILED else Inr text))
              | _ \<Rightarrow> Inl APP_LAUNCH_ELEVATED_HELPER_FAILED))
      | _ \<Rightarrow> Inl APP_LAUNCH_INVALID_TARGET)"

section \<open>Receiving\<close>

definition Utf8FieldToWide :: "(bytes \<Rightarrow> wstr option) \<Rightarrow> bytes \<Rightarrow> nat \<Rightarrow> wstr option" where
  "Utf8FieldToWide from_utf source maximumCharacterCount =
     (if source = [] then Some []
      else case from_utf source of
        None \<Rightarrow> None
      | Some w \<Rightarrow> if w = [] \<or> maximumCharacterCount \<le> length w then None else if 0 \<in> set w then None else Some w)"

definition absolute_path :: "wstr \<Rightarrow> bool" where
  "absolute_path p \<longleftrightarrow> (3 \<le> length p \<and> p ! 1 = 58 \<and> (p ! 2 = 92 \<or> p ! 2 = 47)) \<or> (2 \<le> length p \<and> p ! 0 = 92 \<and> p ! 1 = 92)"

definition pipe_prefix :: cstr where
  "pipe_prefix = CHR 0x5C # CHR 0x5C # CHR 0x2E # CHR 0x5C # ''pipe'' @ CHR 0x5C # ''PRCPipeName''"

definition ValidateDecodedElevatedRequest :: "wstr \<Rightarrow> wstr \<Rightarrow> wstr \<Rightarrow> cstr \<Rightarrow> bool" where
  "ValidateDecodedElevatedRequest targetPath commandLine workingDirectory pipeName \<longleftrightarrow>
     targetPath \<noteq> [] \<and> commandLine \<noteq> [] \<and> pipeName \<noteq> [] \<and> absolute_path targetPath \<and>
     (workingDirectory \<noteq> [] \<longrightarrow> absolute_path workingDirectory) \<and>
     length pipe_prefix \<le> length pipeName \<and> take (length pipe_prefix) pipeName = pipe_prefix"

text \<open>The first part of \<open>ElevatedLaunch\<close>: from the command line to the strings of the request.\<close>

definition request_prefix :: cstr where
  "request_prefix = ''--request=''"

definition decode_request :: "(bytes \<Rightarrow> wstr option) \<Rightarrow> cstr option \<Rightarrow> (wstr \<times> wstr \<times> wstr \<times> cstr) option" where
  "decode_request from_utf commandLine =
     (case commandLine of
        None \<Rightarrow> None
      | Some line \<Rightarrow>
        let line = dropWhile (\<lambda>ch. ch = CHR '' '' \<or> ch = CHR 0x09) line in
        if take (length request_prefix) line \<noteq> request_prefix then None
        else
          let encoded = drop (length request_prefix) line in
          case ProxyLaneBase64UrlDecodedLength (length encoded) of
            None \<Rightarrow> None
          | Some capacity \<Rightarrow>
            if capacity < 32 \<or> ELEVATED_MAX_WIRE_BYTES < capacity then None
            else case ProxyLaneBase64UrlDecode encoded capacity of
              None \<Rightarrow> None
            | Some decoded \<Rightarrow>
              case ProxyLaneParseElevatedRequest decoded of
                None \<Rightarrow> None
              | Some (t, c, w, p) \<Rightarrow>
                case (Utf8FieldToWide from_utf t ELEVATED_TARGET_CCH, Utf8FieldToWide from_utf c ELEVATED_COMMAND_CCH,
                      Utf8FieldToWide from_utf w ELEVATED_DIRECTORY_CCH) of
                  (Some target, Some command, Some dir) \<Rightarrow>
                    if p = [] \<or> ELEVATED_PIPE_CCH \<le> length p \<or> 0 \<in> set p then None
                    else Some (target, command, dir, map char_of_byte p)
                | _ \<Rightarrow> None)"

text \<open>What the rest of \<open>ElevatedLaunch\<close> meets and does.\<close>

record ElevatedEnv =
  ee_from_utf8 :: "bytes \<Rightarrow> wstr option"
  ee_elevated :: bool
  ee_isFile :: "wstr \<Rightarrow> bool"
  ee_create :: bool
  ee_inject :: bool
  ee_resume :: bool

datatype launch_effect =
    CreateSuspended wstr wstr wstr
  | NotifyService cstr
  | InjectLibrary cstr
  | ResumeChild
  | TerminateChild int

abbreviation (input) "ELEVATED_SUCCESS \<equiv> (0 :: int)"
abbreviation (input) "ELEVATED_INVALID_REQUEST \<equiv> (10 :: int)"
abbreviation (input) "ELEVATED_NOT_ELEVATED \<equiv> (11 :: int)"
abbreviation (input) "ELEVATED_INVALID_TARGET \<equiv> (12 :: int)"
abbreviation (input) "ELEVATED_CREATE_FAILED \<equiv> (13 :: int)"
abbreviation (input) "ELEVATED_INJECTION_FAILED \<equiv> (14 :: int)"
abbreviation (input) "ELEVATED_RESUME_FAILED \<equiv> (15 :: int)"

definition ElevatedLaunch :: "ElevatedEnv \<Rightarrow> cstr option \<Rightarrow> int \<times> launch_effect list" where
  "ElevatedLaunch e commandLine =
     (case decode_request (ee_from_utf8 e) commandLine of
        None \<Rightarrow> (ELEVATED_INVALID_REQUEST, [])
      | Some (target, command, dir, pipe) \<Rightarrow>
        if \<not> ValidateDecodedElevatedRequest target command dir pipe then (ELEVATED_INVALID_REQUEST, [])
        else if \<not> ee_elevated e then (ELEVATED_NOT_ELEVATED, [])
        else if \<not> ee_isFile e target then (ELEVATED_INVALID_TARGET, [])
        else if \<not> ee_create e then (ELEVATED_CREATE_FAILED, [])
        else
          let done_so_far = [CreateSuspended target command dir, NotifyService pipe, InjectLibrary pipe] in
          if \<not> ee_inject e then (ELEVATED_INJECTION_FAILED, done_so_far @ [TerminateChild ELEVATED_INJECTION_FAILED])
          else if \<not> ee_resume e then (ELEVATED_RESUME_FAILED, done_so_far @ [ResumeChild, TerminateChild ELEVATED_RESUME_FAILED])
          else (ELEVATED_SUCCESS, done_so_far @ [ResumeChild]))"

section \<open>The header\<close>

interpretation header: wire_record header_bytes bytes_header 32 "\<lambda>_. True"
  by unfold_locales (simp_all add: header_bytes_def bytes_header_def)

lemma dword_bytes_take:
  assumes "4 \<le> length b"
  shows "dword_bytes (bytes_dword b) = take 4 b"
proof -
  obtain x y z w rest where b: "b = x # y # z # w # rest"
    using assms by (cases b rule: bytes_dword.cases) auto
  then have "bytes_dword b = bytes_dword [x, y, z, w]"
    by simp
  then show ?thesis
    by (simp only: dword_bytes_bytes_dword) (simp add: b)
qed

lemma word16_bytes_take:
  assumes "2 \<le> length b"
  shows "word16_bytes (bytes_word16 b) = take 2 b"
proof -
  obtain x y rest where b: "b = x # y # rest"
    using assms by (cases b rule: bytes_word16.cases) auto
  have "ucast (ucast x OR push_bit 8 (ucast y) :: word16) = x" "ucast (drop_bit 8 (ucast x OR push_bit 8 (ucast y) :: word16)) = y"
    by (rule byte_eqI; simp add: bit_simps byte_high)+
  then show ?thesis
    by (simp add: b word16_bytes_def)
qed

lemma header_bytes_take:
  assumes "32 \<le> length b"
  shows "header_bytes (bytes_header b) = take 32 b"
proof -
  have "header_bytes (bytes_header b) = take 4 b @ take 2 (drop 4 b) @ take 2 (drop 6 b) @ take 4 (drop 8 b) @ take 4 (drop 12 b) @
      take 4 (drop 16 b) @ take 4 (drop 20 b) @ take 4 (drop 24 b) @ take 4 (drop 28 b)"
    using assms by (simp add: header_bytes_def bytes_header_def dword_bytes_take word16_bytes_take)
  also have "\<dots> = take 32 b"
    using take_add [of 4 2 b] take_add [of 6 2 b] take_add [of 8 4 b] take_add [of 12 4 b] take_add [of 16 4 b] take_add [of 20 4 b]
      take_add [of 24 4 b] take_add [of 28 4 b] by simp
  finally show ?thesis .
qed

section \<open>Parsing\<close>

lemma wire_field_Some: "wire_field n rest = Some (x, rest') \<longleftrightarrow> rest = x @ rest' \<and> unat n = length x"
  by (auto simp: wire_field_def)

lemma unat_length: "length (xs :: bytes) < 2 ^ 32 \<Longrightarrow> unat (of_nat (length xs) :: dword) = length xs"
  by (simp add: unat_of_nat)

lemma launch_header_length: "length (header_bytes h) = 32"
  by (simp add: header.enc_length)

text \<open>The header that a request with these fields has, and no other.\<close>

lemma launch_header_iff:
  assumes "length t + length c + length w + length p + 32 < 2 ^ 32"
  shows "h = launch_header t c w p \<longleftrightarrow> lh_magic h = ELEVATED_MAGIC \<and> lh_version h = 2 \<and> lh_headerSize h = 32 \<and>
     unat (lh_totalSize h) = 32 + length t + length c + length w + length p \<and> unat (lh_targetPathBytes h) = length t \<and>
     unat (lh_commandLineBytes h) = length c \<and> unat (lh_workingDirectoryBytes h) = length w \<and> unat (lh_pipeNameBytes h) = length p \<and>
     lh_flags h = 0"
proof -
  have eq: "x = of_nat n \<longleftrightarrow> unat x = n" if "n < 2 ^ 32" for x :: dword and n
    using that by (auto simp: unat_of_nat)
  show ?thesis
    unfolding launch_header_def using assms by (cases h) (simp add: eq del: of_nat_add of_nat_numeral)
qed

lemma parse_sound:
  assumes parsed: "ProxyLaneParseElevatedRequest data = Some (t, c, w, p)"
  shows "wire_request t c w p = Some data \<and> t \<noteq> [] \<and> c \<noteq> [] \<and> p \<noteq> []"
proof -
  let ?h = "bytes_header data"
  have size: "32 \<le> length data" "length data \<le> ELEVATED_MAX_WIRE_BYTES" and valid: "header_valid ?h (length data)"
    using parsed by (simp_all add: ProxyLaneParseElevatedRequest_def Let_def split: if_splits)
  then obtain r1 r2 r3 where "wire_field (lh_targetPathBytes ?h) (drop 32 data) = Some (t, r1)" "wire_field (lh_commandLineBytes ?h) r1 = Some (c, r2)"
      "wire_field (lh_workingDirectoryBytes ?h) r2 = Some (w, r3)" "wire_field (lh_pipeNameBytes ?h) r3 = Some (p, [])"
    using parsed by (auto simp: ProxyLaneParseElevatedRequest_def Let_def split: option.splits if_splits)
  then have fields: "drop 32 data = t @ c @ w @ p" "unat (lh_targetPathBytes ?h) = length t" "unat (lh_commandLineBytes ?h) = length c"
      "unat (lh_workingDirectoryBytes ?h) = length w" "unat (lh_pipeNameBytes ?h) = length p"
    by (simp_all add: wire_field_Some)
  have len: "length data = 32 + length t + length c + length w + length p"
    using arg_cong [OF fields(1), of length] size(1) by simp
  have "?h = launch_header t c w p"
    using size(2) valid fields(2-5) len by (subst launch_header_iff) (simp_all add: header_valid_def)
  then have "data = header_bytes (launch_header t c w p) @ t @ c @ w @ p"
    using header_bytes_take [OF size(1)] fields(1) append_take_drop_id [of 32 data] by simp
  moreover have "t \<noteq> []" "c \<noteq> []" "p \<noteq> []"
    using valid fields(2,3,5) by (auto simp: header_valid_def unsigned_eq_0_iff)
  ultimately show "wire_request t c w p = Some data \<and> t \<noteq> [] \<and> c \<noteq> [] \<and> p \<noteq> []"
    using size(2) len by (simp add: wire_request_def)
qed

lemma parse_wire_request:
  assumes "wire_request t c w p = Some data" "t \<noteq> []" "c \<noteq> []" "p \<noteq> []"
  shows "ProxyLaneParseElevatedRequest data = Some (t, c, w, p)"
proof -
  let ?h = "launch_header t c w p"
  have data: "data = header_bytes ?h @ t @ c @ w @ p" and small: "32 + length t + length c + length w + length p \<le> ELEVATED_MAX_WIRE_BYTES"
    using assms by (auto simp: wire_request_def split: if_splits)
  have h: "bytes_header data = ?h"
    unfolding data by (simp add: header.dec_enc)
  have vals: "unat (lh_totalSize ?h) = length data" "unat (lh_targetPathBytes ?h) = length t" "unat (lh_commandLineBytes ?h) = length c"
      "unat (lh_workingDirectoryBytes ?h) = length w" "unat (lh_pipeNameBytes ?h) = length p"
      "lh_magic ?h = ELEVATED_MAGIC" "lh_version ?h = 2" "lh_headerSize ?h = 32" "lh_flags ?h = 0"
    using launch_header_iff [of t c w p ?h] small by (simp_all add: data launch_header_length)
  have nonzero: "lh_targetPathBytes ?h \<noteq> 0" "lh_commandLineBytes ?h \<noteq> 0" "lh_pipeNameBytes ?h \<noteq> 0"
    using assms vals(2,3,5) by (metis length_0_conv unsigned_0)+
  have rest: "drop 32 data = t @ c @ w @ p" "32 \<le> length data" "length data \<le> ELEVATED_MAX_WIRE_BYTES"
    using small by (simp_all add: data launch_header_length)
  show "ProxyLaneParseElevatedRequest data = Some (t, c, w, p)"
    using rest(2,3) nonzero vals(6-9) unfolding ProxyLaneParseElevatedRequest_def Let_def h
    by (simp add: vals(1-5) rest(1) wire_field_def header_valid_def)
qed

text \<open>
  The parser of a launch request accepts exactly the requests the user interface builds: a header
  with the right magic, version, sizes and flags, followed by the four fields it counts and nothing
  else, none of the required fields empty, within the size limit; the fields it gives are
  those of the request, so no read is outside of the data.
\<close>

theorem elevated_parse_exact:
  "ProxyLaneParseElevatedRequest data = Some (t, c, w, p) \<longleftrightarrow>
     wire_request t c w p = Some data \<and> t \<noteq> [] \<and> c \<noteq> [] \<and> p \<noteq> []"
  using parse_sound parse_wire_request by blast

section \<open>Requests\<close>

lemma cstr_bytes_back:
  assumes "cstr_ok s"
  shows "0 \<notin> set (cstr_bytes s)" "map char_of_byte (cstr_bytes s) = s"
  using assms by (auto simp: cstr_ok_def cstr_bytes_def list_all_iff comp_def)

text \<open>
  C22. What the user interface sends is what the elevated helper receives: whenever it could build a
  request, the helper reads from its command line, after any blanks, the same target,
  command line, working directory and pipe name, provided that the two UTF-8 conversions of Windows are
  inverse to each other and the strings have no NUL character inside.
\<close>

theorem elevated_request_roundtrip:
  assumes "\<And>w b. to_utf w = Some b \<Longrightarrow> from_utf b = Some w"
    and "elevated_request to_utf (Some target) (Some command) dir (Some pipe) = Inr text"
    and "target \<noteq> []" "command \<noteq> []" "0 \<notin> set target" "0 \<notin> set command" "case dir of None \<Rightarrow> True | Some d \<Rightarrow> 0 \<notin> set d"
    and "pipe \<noteq> []" "length pipe < ELEVATED_PIPE_CCH" "cstr_ok pipe" "list_all (\<lambda>ch. ch = CHR '' '') blanks"
  shows "decode_request from_utf (Some (blanks @ request_prefix @ text)) =
     Some (target, command, case dir of None \<Rightarrow> [] | Some d \<Rightarrow> d, pipe)"
proof -
  define d where "d = (case dir of None \<Rightarrow> [] | Some d \<Rightarrow> d)"
  obtain t c w wire where sizes: "length target < ELEVATED_TARGET_CCH" "length command < ELEVATED_COMMAND_CCH" "length d < ELEVATED_DIRECTORY_CCH"
    and utf: "utf8_field to_utf target = Some t" "utf8_field to_utf command = Some c" "utf8_field to_utf d = Some w"
    and wire: "wire_request t c w (cstr_bytes pipe) = Some wire" and encoded: "text = url_encode wire"
    using assms(2) by (auto simp: elevated_request_def Let_def d_def ProxyLaneBase64UrlEncode_def split: option.splits if_splits)
  have wide: "Utf8FieldToWide from_utf b n = Some x" "x \<noteq> [] \<Longrightarrow> b \<noteq> []"
    if "utf8_field to_utf x = Some b" "length x < n" "0 \<notin> set x" for x b n
    using that assms(1) by (auto simp: utf8_field_def Utf8FieldToWide_def split: option.splits if_splits)
  have "0 \<notin> set d"
    using assms(7) by (simp add: d_def split: option.splits)
  note fields = wide [OF utf(1) sizes(1) assms(5)] wide [OF utf(2) sizes(2) assms(6)] wide(1) [OF utf(3) sizes(3) \<open>0 \<notin> set d\<close>]
  have parsed: "ProxyLaneParseElevatedRequest wire = Some (t, c, w, cstr_bytes pipe)"
    using parse_wire_request [OF wire] fields(2,4) assms(3,4,8) by simp
  have size: "32 \<le> length wire" "length wire \<le> ELEVATED_MAX_WIRE_BYTES"
    using wire by (auto simp: wire_request_def launch_header_length split: if_splits)
  have skip: "dropWhile (\<lambda>ch. ch = CHR '' '' \<or> ch = CHR 0x09) (blanks @ request_prefix @ x) = request_prefix @ x" for x
    using assms(11) by (induction blanks) (simp_all add: request_prefix_def)
  note pipe = cstr_bytes_back [OF assms(10)]
  show ?thesis
    using size assms(8,9) by (simp add: decode_request_def Let_def skip encoded length_url_encode decoded_length base64url_decode_encode parsed fields pipe
        flip: d_def)
qed

text \<open>
  C23. A process that the elevated helper creates never runs without the library: it is created
  suspended, only when the helper is elevated and the request names an existing file by an absolute
  path and a pipe of the service; it is resumed only after a successful injection, and whenever
  anything fails after the creation it is terminated and the failure is the exit code.
\<close>

theorem elevated_child_never_unproxied:
  assumes "ElevatedLaunch e commandLine = (code, effects)" "CreateSuspended target command dir \<in> set effects"
  shows "ee_elevated e \<and> ee_isFile e target \<and> absolute_path target \<and> (dir \<noteq> [] \<longrightarrow> absolute_path dir) \<and>
     (\<exists>pipe. take (length pipe_prefix) pipe = pipe_prefix \<and>
        (code = ELEVATED_SUCCESS \<and> ee_inject e \<and> ee_resume e \<and>
           effects = [CreateSuspended target command dir, NotifyService pipe, InjectLibrary pipe, ResumeChild] \<or>
         code \<noteq> ELEVATED_SUCCESS \<and> last effects = TerminateChild code \<and> (ResumeChild \<in> set effects \<longrightarrow> ee_inject e \<and> \<not> ee_resume e)))"
  using assms by (auto simp: ElevatedLaunch_def ValidateDecodedElevatedRequest_def Let_def split: option.splits if_splits prod.splits)

section \<open>An example\<close>

text \<open>Latin letters only, where the conversion is the identity on each character.\<close>

definition ascii_utf8 :: "wstr \<Rightarrow> bytes option" where
  "ascii_utf8 w = (if list_all (\<lambda>x. x < 128) w then Some (map ucast w) else None)"

definition utf8_ascii :: "bytes \<Rightarrow> wstr option" where
  "utf8_ascii b = (if list_all (\<lambda>x. x < 128) b then Some (map ucast b) else None)"

lemma ascii_char: "x < 128 \<Longrightarrow> ucast (ucast (x :: word16) :: byte) = x \<and> (ucast x :: byte) < 128"
proof -
  assume "x < 128"
  then have "unat x < 128"
    by (simp add: word_less_nat_alt)
  then show ?thesis
    by (simp add: word_unat_eq_iff word_less_nat_alt unsigned_ucast_eq unsigned_take_bit_eq take_bit_nat_eq_self)
qed

lemma ascii_utf8_inverse: "ascii_utf8 w = Some b \<Longrightarrow> utf8_ascii b = Some w"
  using ascii_char by (auto simp: ascii_utf8_def utf8_ascii_def list_all_iff map_idI split: if_splits)

definition sample_target :: wstr where "sample_target = [67, 58, 92, 97]"
definition sample_command :: wstr where "sample_command = [97]"

lemma pipe_prefix_facts: "cstr_ok pipe_prefix" "length pipe_prefix = 20" "pipe_prefix \<noteq> []"
  by (simp_all add: pipe_prefix_def cstr_ok_def byte_of_char_def)

definition sample_wire :: bytes where
  "sample_wire = header_bytes (launch_header [67, 58, 92, 97] [97] [] (cstr_bytes pipe_prefix)) @ [67, 58, 92, 97, 97] @ cstr_bytes pipe_prefix"

definition sample_text :: cstr where
  "sample_text = url_encode sample_wire"

lemma launch_sample_request: "elevated_request ascii_utf8 (Some sample_target) (Some sample_command) None (Some pipe_prefix) = Inr sample_text"
  by (simp add: elevated_request_def sample_target_def sample_command_def utf8_field_def ascii_utf8_def wire_request_def pipe_prefix_def launch_header_length
      ProxyLaneBase64UrlEncode_def sample_text_def sample_wire_def length_url_encode)

theorem elevated_request_roundtrip_witness:
  "decode_request utf8_ascii (Some (request_prefix @ sample_text)) = Some (sample_target, sample_command, [], pipe_prefix)"
  using elevated_request_roundtrip [where blanks = "[]" and from_utf = utf8_ascii, OF ascii_utf8_inverse launch_sample_request] pipe_prefix_facts
  by (simp add: sample_target_def sample_command_def)

definition launch_env :: "bool \<Rightarrow> ElevatedEnv" where
  "launch_env inject = \<lparr>ee_from_utf8 = utf8_ascii, ee_elevated = True, ee_isFile = \<lambda>_. True, ee_create = True, ee_inject = inject, ee_resume = True\<rparr>"

lemma launch_sample_created:
  "CreateSuspended sample_target sample_command [] \<in> set (snd (ElevatedLaunch (launch_env inject) (Some (request_prefix @ sample_text))))"
proof -
  have size: "length sample_wire = 57"
    using pipe_prefix_facts by (simp add: launch_header_length sample_wire_def)
  have "wire_request [67, 58, 92, 97] [97] [] (cstr_bytes pipe_prefix) = Some sample_wire"
    using pipe_prefix_facts by (simp add: wire_request_def sample_wire_def)
  from parse_wire_request [OF this] have parsed: "ProxyLaneParseElevatedRequest sample_wire = Some ([67, 58, 92, 97], [97], [], cstr_bytes pipe_prefix)"
    using pipe_prefix_facts by simp
  have skip: "dropWhile (\<lambda>ch. ch = CHR '' '' \<or> ch = CHR 0x09) (request_prefix @ x) = request_prefix @ x" for x
    by (simp add: request_prefix_def)
  have decoded: "ProxyLaneBase64UrlDecodedLength (length (url_encode sample_wire)) = Some 57" "ProxyLaneBase64UrlDecode (url_encode sample_wire) 57 = Some sample_wire"
    using size decoded_length [of 57] base64url_decode_encode [of sample_wire 57] by (simp_all only: length_url_encode)
  have "decode_request utf8_ascii (Some (request_prefix @ url_encode sample_wire)) = Some (sample_target, sample_command, [], pipe_prefix)"
    unfolding decode_request_def Let_def option.case skip append_eq_conv_conj
    using pipe_prefix_facts cstr_bytes_back [OF pipe_prefix_facts(1)]
    by (simp add: decoded parsed Utf8FieldToWide_def utf8_ascii_def sample_target_def sample_command_def)
  then show ?thesis
    using pipe_prefix_facts
    by (simp add: ElevatedLaunch_def Let_def sample_text_def launch_env_def ValidateDecodedElevatedRequest_def absolute_path_def sample_target_def sample_command_def)
qed

theorem elevated_child_never_unproxied_witness:
  "last (snd (ElevatedLaunch (launch_env False) (Some (request_prefix @ sample_text)))) =
     TerminateChild (fst (ElevatedLaunch (launch_env False) (Some (request_prefix @ sample_text))))"
  using elevated_child_never_unproxied [OF surjective_pairing launch_sample_created [of False]] by (auto simp: launch_env_def)

end
