(* ===== verification/ProfileShare.thy ===== *)
theory ProfileShare
  imports Base64Url "HOL-Library.Sublist"
begin

text \<open>
  Sharing a proxy profile as a text, \<open>ProfileShareCodec.h\<close>. The JSON library is third-party code: \<open>json\<close> is
  its value type as far as the code asks for it (an object is its list of members, which the library keeps in a
  map, sorted by key; a floating-point number is its bits), and \<open>dump\<close> and \<open>parse\<close> are
  parameters. The parser calls back with its events; the result of \<open>parse\<close> is this list of
  events and the value, unless the text is malformed. An error carries the key of its message; \<open>JsonError\<close> is an
  exception of the library.
\<close>

datatype json = JNull | JBool bool | JInt int | JFloat qword | JStr cstr | JArr "json list" | JObj "(cstr \<times> json) list"

datatype share_error = ShareError cstr | JsonError

datatype json_event = ObjectStart int | Key int cstr | ObjectEnd int | OtherEvent int

section \<open>Validation\<close>

fun jget :: "json \<Rightarrow> cstr \<Rightarrow> json option" where
  "jget (JObj ms) k = map_of ms k"
| "jget _ k = None"

definition bind_ok :: "share_error + 'a \<Rightarrow> ('a \<Rightarrow> share_error + 'b) \<Rightarrow> share_error + 'b" where
  "bind_ok r f = (case r of Inl e \<Rightarrow> Inl e | Inr x \<Rightarrow> f x)"

definition require :: "bool \<Rightarrow> cstr \<Rightarrow> share_error + unit" where
  "require b key = (if b then Inr () else Inl (ShareError key))"

text \<open>\<open>String\<close>; all calls are for a single line.\<close>

definition share_string :: "json option \<Rightarrow> nat \<Rightarrow> share_error + cstr" where
  "share_string member limit =
     (case member of
        Some (JStr value) \<Rightarrow>
          if limit < length value then Inl (ShareError ''share.field_too_long'')
          else if \<exists>ch\<in>set value. ch = CHR 0x00 \<or> ch = CHR 0x0D \<or> ch = CHR 0x0A then Inl (ShareError ''share.invalid_fields'')
          else Inr value
      | _ \<Rightarrow> Inl (ShareError ''share.invalid_fields''))"

definition name_ok :: "cstr \<Rightarrow> bool" where
  "name_ok name \<longleftrightarrow> name \<noteq> [] \<and> (\<forall>ch\<in>set name. ch \<notin> {CHR ''['', CHR '']'', CHR 0x0D, CHR 0x0A, CHR 0x09}) \<and>
     hd name \<noteq> CHR '' '' \<and> last name \<noteq> CHR '' ''"

definition type_ok :: "cstr \<Rightarrow> bool" where
  "type_ok ty \<longleftrightarrow> ty \<in> {''NOPROXY'', ''SOCKS5'', ''HTTP'', ''HTTP10'', ''HTTP11''}"

definition endpoint_ok :: "json option \<Rightarrow> cstr \<Rightarrow> cstr \<Rightarrow> bool" where
  "endpoint_ok member ty host \<longleftrightarrow>
     (case member of
        Some (JInt port) \<Rightarrow> 0 \<le> port \<and> port \<le> 65535 \<and>
          (ty \<noteq> ''NOPROXY'' \<longrightarrow> host \<noteq> [] \<and> port \<noteq> 0 \<and> (\<forall>ch\<in>set host. ch \<noteq> CHR '' '' \<and> ch \<noteq> CHR 0x09))
      | _ \<Rightarrow> False)"

definition boolean_ok :: "json option \<Rightarrow> bool" where
  "boolean_ok member \<longleftrightarrow> (case member of Some (JBool b) \<Rightarrow> True | _ \<Rightarrow> False)"

definition mode_ok :: "json option \<Rightarrow> bool" where
  "mode_ok member \<longleftrightarrow> (case member of Some (JInt n) \<Rightarrow> n = 0 \<or> n = 1 | _ \<Rightarrow> False)"

text \<open>The lines of a filter, with the bytes counted so far.\<close>

fun filter_lines :: "nat \<Rightarrow> json list \<Rightarrow> share_error + unit" where
  "filter_lines bytes [] = Inr ()"
| "filter_lines bytes (line # lines) =
     bind_ok (share_string (Some line) 32767) (\<lambda>text.
       if 32767 < bytes + length text + 2 then Inl (ShareError ''share.invalid_rules'')
       else filter_lines (bytes + length text + 2) lines)"

definition filter_check :: "json option \<Rightarrow> share_error + unit" where
  "filter_check member =
     (case member of
        Some (JArr lines) \<Rightarrow> if 4096 < length lines then Inl (ShareError ''share.invalid_rules'') else filter_lines 0 lines
      | _ \<Rightarrow> Inl (ShareError ''share.invalid_rules''))"

definition share_booleans :: "cstr list" where
  "share_booleans = [''hook_tcp'', ''hook_udp'', ''block_udp'', ''block_ipv6'', ''hook_children'', ''redirect_private_dns'']"

definition share_modes :: "cstr list" where
  "share_modes = [''dns_mode'', ''child_mode'', ''target_mode'']"

definition Validate :: "json \<Rightarrow> share_error + unit" where
  "Validate value =
     bind_ok (require (case value of JObj _ \<Rightarrow> True | _ \<Rightarrow> False) ''share.invalid_fields'') (\<lambda>_.
     bind_ok (share_string (jget value ''name'') 512) (\<lambda>name.
     bind_ok (require (name_ok name) ''share.invalid_name'') (\<lambda>_.
     bind_ok (share_string (jget value ''type'') 16) (\<lambda>ty.
     bind_ok (require (type_ok ty) ''share.invalid_type'') (\<lambda>_.
     bind_ok (share_string (jget value ''host'') 127) (\<lambda>host.
     bind_ok (share_string (jget value ''user'') 127) (\<lambda>_.
     bind_ok (share_string (jget value ''password'') 127) (\<lambda>_.
     bind_ok (share_string (jget value ''psk'') 255) (\<lambda>psk.
     bind_ok (share_string (jget value ''transport'') 32) (\<lambda>transport.
     bind_ok (require (transport = ''PLAIN'' \<or> transport = ''GONC_TLS_PSK'') ''share.invalid_transport'') (\<lambda>_.
     bind_ok (require (endpoint_ok (jget value ''port'') ty host) ''profile.invalid_endpoint'') (\<lambda>_.
     bind_ok (require (list_all (\<lambda>key. boolean_ok (jget value key)) share_booleans) ''share.invalid_fields'') (\<lambda>_.
     bind_ok (require (list_all (\<lambda>key. mode_ok (jget value key)) share_modes) ''share.invalid_fields'') (\<lambda>_.
     bind_ok (share_string (jget value ''redirect_dns'') 127) (\<lambda>_.
     bind_ok (filter_check (jget value ''child_rules'')) (\<lambda>_.
     bind_ok (filter_check (jget value ''target_rules'')) (\<lambda>_.
     bind_ok (require (transport = ''GONC_TLS_PSK'' \<longrightarrow> ty \<noteq> ''NOPROXY'') ''profile.secure_transport_unsupported'') (\<lambda>_.
     bind_ok (require (transport = ''GONC_TLS_PSK'' \<longrightarrow> psk \<noteq> []) ''profile.psk_required'') (\<lambda>_.
     require (ty = ''SOCKS5'' \<or> ty = ''NOPROXY'' \<or> jget value ''hook_udp'' \<noteq> Some (JBool True)) ''share.invalid_udp'')))))))))))))))))))"

section \<open>Encoding\<close>

abbreviation (input) "MaxCodeBytes \<equiv> (262144 :: nat)"
abbreviation (input) "MaxJsonBytes \<equiv> (196608 :: nat)"

definition share_prefix :: cstr where
  "share_prefix = ''proxylane://profile/v1/''"

fun jset :: "cstr \<Rightarrow> json \<Rightarrow> json \<Rightarrow> json" where
  "jset k x (JObj ms) = JObj (map (\<lambda>(k', y). (k', if k' = k then x else y)) ms)"
| "jset k x v = v"

text \<open>The last step of both directions: the old names of the HTTP proxy types.\<close>

definition canonical :: "json \<Rightarrow> json" where
  "canonical value =
     (if jget value ''type'' = Some (JStr ''HTTP10'') \<or> jget value ''type'' = Some (JStr ''HTTP11'')
      then jset ''type'' (JStr ''HTTP'') value else value)"

text \<open>\<open>dump\<close> is the serializer of the library; it gives nothing when a string is not valid UTF-8.\<close>

definition Share_Encode :: "(json \<Rightarrow> bytes option) \<Rightarrow> json \<Rightarrow> share_error + cstr" where
  "Share_Encode dump value =
     bind_ok (Validate value) (\<lambda>_.
       case dump (canonical value) of
         None \<Rightarrow> Inl JsonError
       | Some json \<Rightarrow>
         if MaxJsonBytes < length json then Inl (ShareError ''share.too_large'')
         else
           let result = share_prefix @ Base64Url json in
           if MaxCodeBytes < length result then Inl (ShareError ''share.too_large'') else Inr result)"

section \<open>Decoding\<close>

definition share_blank :: "char \<Rightarrow> bool" where
  "share_blank ch \<longleftrightarrow> ch = CHR '' '' \<or> ch = CHR 0x09 \<or> ch = CHR 0x0D \<or> ch = CHR 0x0A"

definition share_trim :: "cstr \<Rightarrow> cstr" where
  "share_trim code = rev (dropWhile share_blank (rev (dropWhile share_blank code)))"

text \<open>The callback of the parser, with the stack of key sets. The library reports a key only inside of an object.\<close>

fun share_events :: "cstr list list \<Rightarrow> json_event list \<Rightarrow> bool" where
  "share_events keys [] = True"
| "share_events keys (ObjectStart depth # evs) = (depth \<le> 8 \<and> share_events ([] # keys) evs)"
| "share_events keys (Key depth name # evs) =
     (depth \<le> 8 \<and> (case keys of ks # rest \<Rightarrow> name \<notin> set ks \<and> share_events ((name # ks) # rest) evs | [] \<Rightarrow> False))"
| "share_events keys (ObjectEnd depth # evs) = (depth \<le> 8 \<and> share_events (tl keys) evs)"
| "share_events keys (OtherEvent depth # evs) = (depth \<le> 8 \<and> share_events keys evs)"

definition Share_Decode :: "(bytes \<Rightarrow> json_event list \<times> json option) \<Rightarrow> cstr \<Rightarrow> share_error + json" where
  "Share_Decode parse code =
     (if MaxCodeBytes < length code then Inl (ShareError ''share.too_large'')
      else if list_all share_blank code then Inl (ShareError ''share.invalid_code'')
      else
        let code = share_trim code in
        if take (length share_prefix) code \<noteq> share_prefix then
          (if take 20 code = ''proxylane://profile/v'' then Inl (ShareError ''share.unsupported_version'')
           else Inl (ShareError ''share.invalid_code''))
        else
          case share_base64_decode (drop (length share_prefix) code) of
            None \<Rightarrow> Inl (ShareError ''share.invalid_code'')
          | Some json \<Rightarrow>
            if MaxJsonBytes < length json then Inl (ShareError ''share.invalid_code'')
            else
              let (events, result) = parse json in
              if \<not> share_events [] events then Inl (ShareError ''share.invalid_fields'')
              else case result of
                None \<Rightarrow> Inl JsonError
              | Some value \<Rightarrow> bind_ok (Validate value) (\<lambda>_. Inr (canonical value)))"

section \<open>What validation accepts\<close>

lemma bind_ok_Inr [simp]: "bind_ok r f = Inr y \<longleftrightarrow> (\<exists>x. r = Inr x \<and> f x = Inr y)"
  by (cases r) (simp_all add: bind_ok_def)

lemma require_Inr [simp]: "require b key = Inr u \<longleftrightarrow> b"
  by (simp add: require_def)

lemma jget_jset: "jget (jset k x v) k' = (if k' = k then map_option (\<lambda>_. x) (jget v k) else jget v k')"
proof (cases v)
  case (JObj ms)
  have "map_of (map (\<lambda>(k', y). (k', if k' = k then x else y)) ms) k' = (if k' = k then map_option (\<lambda>_. x) (map_of ms k) else map_of ms k')"
    by (induction ms) auto
  then show ?thesis
    by (simp add: JObj)
qed simp_all

lemma jget_object: "jget v k = Some x \<Longrightarrow> \<exists>ms. v = JObj ms"
  by (cases v) simp_all

text \<open>What holds of a valid profile does not depend on the version of HTTP.\<close>

lemma canonical_valid:
  assumes "Validate v = Inr ()"
  shows "Validate (canonical v) = Inr ()"
proof (cases "canonical v = v")
  case False
  then have http: "jget v ''type'' = Some (JStr ''HTTP10'') \<or> jget v ''type'' = Some (JStr ''HTTP11'')" and c: "canonical v = jset ''type'' (JStr ''HTTP'') v"
    by (auto simp: canonical_def split: if_splits)
  then obtain ms where v: "v = JObj ms"
    using jget_object by blast
  have obj: "case canonical v of JObj _ \<Rightarrow> True | _ \<Rightarrow> False"
    using c by (simp add: v)
  have get: "jget (canonical v) k = (if k = ''type'' then Some (JStr ''HTTP'') else jget v k)" for k
    using http by (auto simp: c jget_jset)
  have string: "share_string (Some (JStr ''HTTP'')) 16 = Inr ''HTTP''"
    by (simp add: share_string_def)
  have keys: "list_all (\<lambda>key. boolean_ok (jget (canonical v) key)) share_booleans = list_all (\<lambda>key. boolean_ok (jget v key)) share_booleans"
    "list_all (\<lambda>key. mode_ok (jget (canonical v) key)) share_modes = list_all (\<lambda>key. mode_ok (jget v key)) share_modes"
    by (simp_all add: share_booleans_def share_modes_def get)
  have old: "share_string (jget v ''type'') 16 = Inr ty \<Longrightarrow> ty = ''HTTP10'' \<or> ty = ''HTTP11''" for ty
    using http by (auto simp: share_string_def split: if_splits)
  obtain name ty host user password psk transport dns u u' where parts:
    "share_string (jget v ''name'') 512 = Inr name" "name_ok name" "share_string (jget v ''type'') 16 = Inr ty"
    "share_string (jget v ''host'') 127 = Inr host" "share_string (jget v ''user'') 127 = Inr user"
    "share_string (jget v ''password'') 127 = Inr password" "share_string (jget v ''psk'') 255 = Inr psk"
    "share_string (jget v ''transport'') 32 = Inr transport" "transport = ''PLAIN'' \<or> transport = ''GONC_TLS_PSK''"
    "endpoint_ok (jget v ''port'') ty host" "list_all (\<lambda>key. boolean_ok (jget v key)) share_booleans"
    "list_all (\<lambda>key. mode_ok (jget v key)) share_modes" "share_string (jget v ''redirect_dns'') 127 = Inr dns"
    "filter_check (jget v ''child_rules'') = Inr u" "filter_check (jget v ''target_rules'') = Inr u'"
    "transport = ''GONC_TLS_PSK'' \<longrightarrow> psk \<noteq> []" "ty = ''SOCKS5'' \<or> ty = ''NOPROXY'' \<or> jget v ''hook_udp'' \<noteq> Some (JBool True)"
    using assms unfolding Validate_def bind_ok_Inr require_Inr by (elim exE conjE) (rule that; assumption)
  have ends: "endpoint_ok (jget v ''port'') ''HTTP'' host" "jget v ''hook_udp'' \<noteq> Some (JBool True)"
    using parts(10,17) old [OF parts(3)] by (auto simp: endpoint_ok_def split: option.splits json.splits)
  show ?thesis
    unfolding Validate_def using obj parts ends string keys by (simp add: get type_ok_def)
qed (use assms in simp)

section \<open>The events of a value\<close>

text \<open>
  The events that the parser reports for the text of a value, with their depths, and the values that
  the callback lets through.
\<close>

function json_events :: "int \<Rightarrow> json \<Rightarrow> json_event list" where
  "json_events d (JObj ms) = ObjectStart d # concat (map (\<lambda>m. Key (d + 1) (fst m) # json_events (d + 1) (snd m)) ms) @ [ObjectEnd d]"
| "json_events d (JArr xs) = OtherEvent d # concat (map (json_events (d + 1)) xs) @ [OtherEvent d]"
| "json_events d JNull = [OtherEvent d]"
| "json_events d (JBool b) = [OtherEvent d]"
| "json_events d (JInt n) = [OtherEvent d]"
| "json_events d (JFloat q) = [OtherEvent d]"
| "json_events d (JStr s) = [OtherEvent d]"
  by pat_completeness auto
termination
proof (relation "measure (\<lambda>(d, v). size v)", goal_cases)
  case 1
  show ?case by simp
next
  case (2 d ms m)
  then show ?case
    by (induction ms) auto
next
  case (3 d xs x)
  then show ?case
    by (induction xs) auto
qed

function json_ok :: "int \<Rightarrow> json \<Rightarrow> bool" where
  "json_ok d (JObj ms) \<longleftrightarrow> d \<le> 8 \<and> distinct (map fst ms) \<and> list_all (\<lambda>m. d + 1 \<le> 8 \<and> json_ok (d + 1) (snd m)) ms"
| "json_ok d (JArr xs) \<longleftrightarrow> d \<le> 8 \<and> list_all (json_ok (d + 1)) xs"
| "json_ok d JNull \<longleftrightarrow> d \<le> 8"
| "json_ok d (JBool b) \<longleftrightarrow> d \<le> 8"
| "json_ok d (JInt n) \<longleftrightarrow> d \<le> 8"
| "json_ok d (JFloat q) \<longleftrightarrow> d \<le> 8"
| "json_ok d (JStr s) \<longleftrightarrow> d \<le> 8"
  by pat_completeness auto
termination
proof (relation "measure (\<lambda>(d, v). size v)", goal_cases)
  case 1
  show ?case by simp
next
  case (2 d ms m)
  then show ?case
    by (induction ms) auto
next
  case (3 d xs x)
  then show ?case
    by (induction xs) auto
qed

lemma share_events_members:
  assumes "\<And>m keys evs. m \<in> set ms \<Longrightarrow> share_events keys (json_events d (snd m) @ evs) = share_events keys evs"
    "d \<le> 8" "distinct (map fst ms)" "set (map fst ms) \<inter> set ks = {}"
  shows "\<exists>ks'. share_events (ks # keys) (concat (map (\<lambda>m. Key d (fst m) # json_events d (snd m)) ms) @ evs) = share_events (ks' # keys) evs"
  using assms
proof (induction ms arbitrary: ks)
  case (Cons m ms)
  obtain ks' where "share_events ((fst m # ks) # keys) (concat (map (\<lambda>m. Key d (fst m) # json_events d (snd m)) ms) @ evs) = share_events (ks' # keys) evs"
    using Cons.IH [of "fst m # ks"] Cons.prems by auto
  then show ?case
    using Cons.prems by auto
qed auto

lemma share_events_json: "json_ok d v \<Longrightarrow> share_events keys (json_events d v @ evs) = share_events keys evs"
proof (induction d v arbitrary: keys evs rule: json_events.induct)
  case (1 d ms)
  obtain ks' where "share_events ([] # keys) (concat (map (\<lambda>m. Key (d + 1) (fst m) # json_events (d + 1) (snd m)) ms) @ ObjectEnd d # evs)
      = share_events (ks' # keys) (ObjectEnd d # evs)"
  proof (cases "ms = []")
    case False
    have "share_events keys (json_events (d + 1) (snd m) @ evs) = share_events keys evs" if "m \<in> set ms" for m keys evs
      using 1 that by (auto simp: list_all_iff)
    moreover have "d + 1 \<le> 8" "distinct (map fst ms)"
      using 1(2) False by (cases ms; simp)+
    ultimately show ?thesis
      using that share_events_members [of ms "d + 1" "[]" keys "ObjectEnd d # evs"] by auto
  qed (use that in auto)
  then show ?case
    using 1(2) by simp
next
  case (2 d xs)
  have "share_events keys (concat (map (json_events (d + 1)) ys) @ evs') = share_events keys evs'" if "set ys \<subseteq> set xs" for ys evs'
    using that 2 by (induction ys) (auto simp: list_all_iff)
  then show ?case
    using 2(2) by simp
qed simp_all

lemma json_ok_canonical: "json_ok 0 v \<Longrightarrow> json_ok 0 (canonical v)"
proof (cases "canonical v = v")
  case False
  assume ok: "json_ok 0 v"
  then obtain ms where v: "v = JObj ms" "canonical v = jset ''type'' (JStr ''HTTP'') v"
    using False jget_object by (fastforce simp: canonical_def split: if_splits)
  then have c: "canonical v = JObj (map (\<lambda>(k', y). (k', if k' = ''type'' then JStr ''HTTP'' else y)) ms)"
    by simp
  have "map (fst \<circ> (\<lambda>(k', y). (k', if k' = ''type'' then JStr ''HTTP'' else y))) ms = map fst ms"
    by auto
  from arg_cong [OF this, of distinct] show ?thesis
    unfolding c using ok by (auto simp: v(1) list_all_iff)
qed simp

text \<open>
  The values that the library writes and reads back unchanged: integers of 64 bits, finite numbers (infinities and
  NaN are written as \<open>null\<close>), and objects with the members in the order of their keys, each key once.
\<close>

fun key_less :: "cstr \<Rightarrow> cstr \<Rightarrow> bool" where
  "key_less xs [] = False"
| "key_less [] (y # ys) = True"
| "key_less (x # xs) (y # ys) = (of_char x < (of_char y :: nat) \<or> x = y \<and> key_less xs ys)"

function json_plain :: "json \<Rightarrow> bool" where
  "json_plain (JObj ms) \<longleftrightarrow> sorted_wrt key_less (map fst ms) \<and> list_all (\<lambda>m. json_plain (snd m)) ms"
| "json_plain (JArr xs) \<longleftrightarrow> list_all json_plain xs"
| "json_plain JNull \<longleftrightarrow> True"
| "json_plain (JBool b) \<longleftrightarrow> True"
| "json_plain (JInt n) \<longleftrightarrow> - (2 ^ 63) \<le> n \<and> n < 2 ^ 64"
| "json_plain (JFloat q) \<longleftrightarrow> take_bit 11 (drop_bit 52 q) \<noteq> 0x7FF"
| "json_plain (JStr s) \<longleftrightarrow> True"
  by pat_completeness auto
termination
proof (relation "measure size", goal_cases)
  case 1
  show ?case by simp
next
  case (2 ms m)
  then show ?case
    by (induction ms) auto
next
  case (3 xs x)
  then show ?case
    by (induction xs) auto
qed

lemma json_plain_canonical: "json_plain v \<Longrightarrow> json_plain (canonical v)"
proof (cases "canonical v = v")
  case False
  assume plain: "json_plain v"
  then obtain ms where v: "v = JObj ms" "canonical v = jset ''type'' (JStr ''HTTP'') v"
    using False jget_object by (fastforce simp: canonical_def split: if_splits)
  then have c: "canonical v = JObj (map (\<lambda>(k', y). (k', if k' = ''type'' then JStr ''HTTP'' else y)) ms)"
    by simp
  have "map (fst \<circ> (\<lambda>(k', y). (k', if k' = ''type'' then JStr ''HTTP'' else y))) ms = map fst ms"
    by auto
  from arg_cong [OF this, of "sorted_wrt key_less"] show ?thesis
    unfolding c using plain by (auto simp: v(1) list_all_iff)
qed simp

section \<open>Guarantees\<close>

lemma share_trim_blanks:
  assumes "list_all share_blank before" "list_all share_blank after" "x \<noteq> []" "\<not> share_blank (hd x)" "\<not> share_blank (last x)"
  shows "share_trim (before @ x @ after) = x" "\<not> list_all share_blank (before @ x @ after)"
proof -
  have "dropWhile share_blank (before @ x @ after) = x @ after"
    using assms by (induction before) (simp_all add: dropWhile_eq_self_iff)
  moreover have "dropWhile share_blank (rev after @ rev x) = rev x"
    using assms(2,3,5) by (subst dropWhile_append2) (simp_all add: list_all_iff dropWhile_eq_self_iff hd_rev)
  ultimately show "share_trim (before @ x @ after) = x"
    by (simp add: share_trim_def)
  show "\<not> list_all share_blank (before @ x @ after)"
    using assms(3,4) by (auto simp: list_all_iff dest: hd_in_set)
qed

lemma canonical_idem: "canonical (canonical v) = canonical v"
  by (auto simp: canonical_def jget_jset)

text \<open>
  C24. A shared profile comes back: if a profile can be encoded, decoding the text, with any blanks
  before and after it as long as all of it has at most 256 KiB, gives the profile with the current
  name of its proxy type. The profile has no member twice and is nested at most 8 deep (\<open>Encode\<close> does not check
  this, \<open>Decode\<close> does), and its numbers are 64-bit integers or finite; for such values the JSON library
  reads what it wrote, reporting the events of the value.
\<close>

theorem profile_share_roundtrip:
  assumes "\<And>v b. json_plain v \<Longrightarrow> dump v = Some b \<Longrightarrow> b \<noteq> [] \<and> parse b = (json_events 0 v, Some v)"
    and "Share_Encode dump v = Inr code" "json_ok 0 v" "json_plain v" "list_all share_blank before" "list_all share_blank after"
    and "length (before @ code @ after) \<le> MaxCodeBytes"
  shows "Share_Decode parse (before @ code @ after) = Inr (canonical v)"
proof -
  obtain json where valid: "Validate v = Inr ()" and json: "dump (canonical v) = Some json" "length json \<le> MaxJsonBytes"
    and code: "code = share_prefix @ Base64Url json"
    using assms(2) by (auto simp: Share_Encode_def Let_def split: option.splits if_splits)
  note parsed = assms(1) [OF json_plain_canonical [OF assms(4)] json(1)]
  have b64: "share_base64_decode (Base64Url json) = Some json" "Base64Url json \<noteq> []"
    using share_decode_encode [of json] parsed by (auto simp: share_base64_decode_def split: if_splits)
  have "last (Base64Url json) \<in> set url_alphabet"
    using url_encode_alphabet [of json] b64(2) last_in_set by (fastforce simp: Base64Url_def share_encode_url)
  then have "\<not> share_blank (last code)"
    using b64(2) by (auto simp: code share_blank_def url_alphabet_def)
  moreover have "code \<noteq> []" "\<not> share_blank (hd code)"
    by (simp_all add: code share_prefix_def share_blank_def)
  ultimately have trim: "share_trim (before @ code @ after) = code" "\<not> list_all share_blank (before @ code @ after)"
    using share_trim_blanks assms(5,6) by blast+
  have events: "share_events [] (json_events 0 (canonical v))"
    using share_events_json [of 0 "canonical v" "[]" "[]"] json_ok_canonical [OF assms(3)] by simp
  show ?thesis
    unfolding Share_Decode_def Let_def trim(1)
    using assms(7) trim(2) json(2) parsed events canonical_valid [OF valid]
    by (simp add: code b64(1) bind_ok_def canonical_idem)
qed

text \<open>Which errors the parts can give.\<close>

lemma bind_ok_not:
  assumes "r \<noteq> Inl e" "\<And>x. f x \<noteq> Inl e"
  shows "bind_ok r f \<noteq> Inl e"
  using assms by (cases r) (simp_all add: bind_ok_def)

lemma leaf_errors:
  "key \<noteq> e \<Longrightarrow> require b key \<noteq> Inl (ShareError e)"
  "e \<notin> {''share.field_too_long'', ''share.invalid_fields''} \<Longrightarrow> share_string m n \<noteq> Inl (ShareError e)"
  by (auto simp: require_def share_string_def split: option.splits json.splits)

lemma filter_errors:
  assumes "e \<notin> {''share.field_too_long'', ''share.invalid_fields'', ''share.invalid_rules''}"
  shows "filter_check m \<noteq> Inl (ShareError e)"
proof -
  have "filter_lines n lines \<noteq> Inl (ShareError e)" for n lines
  proof (induction lines arbitrary: n)
    case (Cons line lines)
    then show ?case
      unfolding filter_lines.simps using assms by (intro bind_ok_not leaf_errors(2)) auto
  qed simp
  then show ?thesis
    using assms by (auto simp: filter_check_def split: option.splits json.splits)
qed

lemma Validate_errors: "Validate v \<noteq> Inl (ShareError ''share.unsupported_version'')"
  unfolding Validate_def by (intro bind_ok_not leaf_errors filter_errors) simp_all

text \<open>
  C39. The code for a newer version of the format is never told apart: the comparison takes 20 characters
  of a literal of 21, so no text at all, whatever its version, is answered with the error for an
  unsupported version.
\<close>

theorem unsupported_version_unreachable:
  "Share_Decode parse code \<noteq> Inl (ShareError ''share.unsupported_version'')"
proof -
  have never: "take 20 x \<noteq> ''proxylane://profile/v''" for x :: cstr
  proof
    assume "take 20 x = ''proxylane://profile/v''"
    from arg_cong [OF this, of length] show False
      by simp
  qed
  have "bind_ok (Validate v) (\<lambda>_. Inr (canonical v)) \<noteq> Inl (ShareError ''share.unsupported_version'')" for v
    using Validate_errors by (intro bind_ok_not) simp_all
  then show ?thesis
    unfolding Share_Decode_def Let_def using never by (simp split: option.split prod.split)
qed

text \<open>
  A profile that decoding accepts can be used as it is: its type is one of the current names, its port is
  in range, a proxy has a host and a port, a secure transport has a key and a proxy to go with, UDP
  is hooked only where the proxy type can carry it, and every text fits the field it goes to.
\<close>

theorem decoded_profile_usable:
  assumes "Share_Decode parse code = Inr v"
  shows "\<exists>ty host port psk transport.
     jget v ''type'' = Some (JStr ty) \<and> ty \<in> {''NOPROXY'', ''SOCKS5'', ''HTTP''} \<and>
     jget v ''host'' = Some (JStr host) \<and> length host \<le> 127 \<and> jget v ''port'' = Some (JInt port) \<and> 0 \<le> port \<and> port \<le> 65535 \<and>
     (ty \<noteq> ''NOPROXY'' \<longrightarrow> host \<noteq> [] \<and> port \<noteq> 0) \<and>
     jget v ''psk'' = Some (JStr psk) \<and> length psk \<le> 255 \<and> jget v ''transport'' = Some (JStr transport) \<and>
     (transport = ''GONC_TLS_PSK'' \<longrightarrow> ty \<noteq> ''NOPROXY'' \<and> psk \<noteq> []) \<and>
     (jget v ''hook_udp'' = Some (JBool True) \<longrightarrow> ty = ''SOCKS5'' \<or> ty = ''NOPROXY'')"
proof -
  obtain w where w: "v = canonical w" "Validate w = Inr ()"
    using assms by (auto simp: Share_Decode_def Let_def split: option.splits if_splits prod.splits)
  have string: "share_string m n = Inr s \<Longrightarrow> m = Some (JStr s) \<and> length s \<le> n" for m n s
    by (auto simp: share_string_def split: option.splits json.splits if_splits)
  obtain ty host psk transport where parts:
    "share_string (jget v ''type'') 16 = Inr ty" "type_ok ty" "share_string (jget v ''host'') 127 = Inr host"
    "share_string (jget v ''psk'') 255 = Inr psk" "share_string (jget v ''transport'') 32 = Inr transport"
    "endpoint_ok (jget v ''port'') ty host" "transport = ''GONC_TLS_PSK'' \<longrightarrow> ty \<noteq> ''NOPROXY''"
    "transport = ''GONC_TLS_PSK'' \<longrightarrow> psk \<noteq> []" "ty = ''SOCKS5'' \<or> ty = ''NOPROXY'' \<or> jget v ''hook_udp'' \<noteq> Some (JBool True)"
    using canonical_valid [OF w(2)] unfolding w(1) [symmetric] Validate_def bind_ok_Inr require_Inr by (elim exE conjE) (rule that; assumption)
  note texts = string [OF parts(1)] string [OF parts(3)] string [OF parts(4)] string [OF parts(5)]
  have "ty \<noteq> ''HTTP10''" "ty \<noteq> ''HTTP11''"
    using texts(1) by (auto simp: w(1) canonical_def jget_jset split: if_splits)
  moreover obtain port where "jget v ''port'' = Some (JInt port)" "0 \<le> port" "port \<le> 65535" "ty \<noteq> ''NOPROXY'' \<longrightarrow> host \<noteq> [] \<and> port \<noteq> 0"
    using parts(6) by (auto simp: endpoint_ok_def split: option.splits json.splits)
  ultimately show ?thesis
    using texts parts(2,7,8,9) by (auto simp: type_ok_def)
qed

section \<open>An example\<close>

text \<open>A library for one value: its text is one byte.\<close>

definition sample_profile :: json where
  "sample_profile = JObj [(''block_ipv6'', JBool False), (''block_udp'', JBool True), (''child_mode'', JInt 0),
     (''child_rules'', JArr [JStr ''a.exe'']), (''dns_mode'', JInt 1), (''hook_children'', JBool True), (''hook_tcp'', JBool True),
     (''hook_udp'', JBool False), (''host'', JStr ''proxy''), (''name'', JStr ''work''), (''password'', JStr []), (''port'', JInt 8080),
     (''psk'', JStr []), (''redirect_dns'', JStr []), (''redirect_private_dns'', JBool False), (''target_mode'', JInt 0),
     (''target_rules'', JArr []), (''transport'', JStr ''PLAIN''), (''type'', JStr ''HTTP11''), (''user'', JStr [])]"

definition sample_dump :: "json \<Rightarrow> bytes option" where
  "sample_dump v = (if v = canonical sample_profile then Some [123] else None)"

definition sample_parse :: "bytes \<Rightarrow> json_event list \<times> json option" where
  "sample_parse b = (if b = [123] then (json_events 0 (canonical sample_profile), Some (canonical sample_profile)) else ([], None))"

lemma sample_profile_facts: "Validate sample_profile = Inr ()" "json_ok 0 sample_profile"
  by (simp_all add: sample_profile_def Validate_def share_string_def name_ok_def type_ok_def endpoint_ok_def boolean_ok_def mode_ok_def
      share_booleans_def share_modes_def filter_check_def bind_ok_def require_def)

lemma sample_profile_plain: "json_plain sample_profile"
  by (simp add: sample_profile_def)

lemma sample_base64: "Base64Url [123] = ''ew''"
  by (simp add: Base64Url_def share_emit_steps url_alphabet_def Let_def)

lemma sample_library: "sample_dump v = Some b \<Longrightarrow> b \<noteq> [] \<and> sample_parse b = (json_events 0 v, Some v)"
  by (simp add: sample_dump_def sample_parse_def split: if_splits)

lemma share_sample_encoded: "Share_Encode sample_dump sample_profile = Inr (share_prefix @ ''ew'')"
  using sample_profile_facts(1) sample_base64 by (simp add: Share_Encode_def bind_ok_def sample_dump_def share_prefix_def)

theorem profile_share_roundtrip_witness:
  "Share_Decode sample_parse ('' '' @ (share_prefix @ ''ew'') @ [CHR 0x0A]) = Inr (canonical sample_profile)"
  using profile_share_roundtrip [OF sample_library share_sample_encoded sample_profile_facts(2) sample_profile_plain, of "'' ''" "[CHR 0x0A]"]
  by (simp add: share_blank_def share_prefix_def)

lemma share_sample_decoded: "Share_Decode sample_parse (share_prefix @ ''ew'') = Inr (canonical sample_profile)"
proof -
  have "share_base64_decode ''ew'' = Some [123]"
    using share_decode_encode [of "[123]"] sample_base64 by simp
  moreover have "share_trim (share_prefix @ ''ew'') = share_prefix @ ''ew''"
    by (simp add: share_trim_def share_prefix_def share_blank_def)
  moreover have "share_events [] (json_events 0 (canonical sample_profile))"
    using share_events_json [of 0 "canonical sample_profile" "[]" "[]"] json_ok_canonical [OF sample_profile_facts(2)] by simp
  ultimately show ?thesis
    using canonical_valid [OF sample_profile_facts(1)]
    by (simp add: Share_Decode_def Let_def sample_parse_def bind_ok_def canonical_idem) (simp add: share_prefix_def share_blank_def)
qed

theorem decoded_profile_usable_witness:
  "\<exists>ty. jget (canonical sample_profile) ''type'' = Some (JStr ty) \<and> ty \<in> {''NOPROXY'', ''SOCKS5'', ''HTTP''}"
  using decoded_profile_usable [OF share_sample_decoded] by auto

end
