(* ===== verification/Spec2Isabelle.thy ===== *)
theory Spec2Isabelle
  imports Policies Socks5UdpCodec UdpAssociationPolicy Monitoring UdpBlockLogLimiter ProcessRegistry Base64 LayerOutcome UdpFlow TcpOutcome TcpMgrRuns UdpMgrRuns ReceptionRuns HookFlow EndToEnd SecureRuns ElevatedLaunch ProfileShare
begin

text \<open>
  A verification library of ProxyLane, a Windows program that sends the network traffic of chosen
  processes through a proxy.

  \<^bold>\<open>The program.\<close> A library is injected into a process and hooks Winsock
  (\<open>src/src/ProxyLaneHook/HookWinsock.cpp\<close>). A hooked name lookup is answered with a made-up
  address; a hooked \<open>connect\<close> or \<open>sendto\<close> registers its destination with the service over a named
  pipe (\<open>PRCPipeClient.cpp\<close>, \<open>PRCPipeServer.cpp\<close>) and goes to a local listener of the service
  instead (\<open>PRCTcpServer.cpp\<close>, \<open>PRCUdpServer.cpp\<close>, \<open>ProxyReceptionCentre.cpp\<close>). The service finds the
  registered destination, creates a task (\<open>ProxyTaskMgr.cpp\<close>, \<open>TcpProxyTask.cpp\<close>,
  \<open>UdpProxyTask.cpp\<close>) and forwards bytes or datagrams, directly or through a proxy whose protocol is
  spoken by a socket layer (\<open>asynsocket/AsyncProxySocketLayer.cpp\<close>), if configured over TLS with
  a shared key (\<open>asynsocket/AsyncSecureSocketLayer.cpp\<close>). Child processes are created suspended,
  marked, injected and released; the service watches over those that are never released.

  \<^bold>\<open>Conventions.\<close> \<open>Prelude\<close> has the machine types (\<open>BYTE\<close>, \<open>WORD\<close>, \<open>DWORD\<close> and \<open>ULONGLONG\<close> as words
  of their width), the error numbers and the generic lemmas. A class is a record, a method is a
  function from the state to its results and the new state, an early return or a failed call is a
  branch. Calls into Windows are either inputs (what a socket call answers is a script in the
  state, an exhausted script blocks) or arguments of the definition. A locked method body is one
  step, and what is read before the lock is a step of its own where it matters (\<open>AppLaunch\<close>). Handlers that the message loop calls are steps of a run, a list of inputs in any order.
  Trace and log output is left out unless a theorem speaks about it.

  \<^bold>\<open>Pure parts.\<close>
  \<^item> \<open>SockAddr\<close>, \<open>Structs\<close>: \<open>structinfo.h\<close> and \<open>InetCompat.h\<close>: socket addresses, their text forms, the
    proxy profile, the settings and the client record.
  \<^item> \<open>Policies\<close>: the decision headers on payload sizes, DNS names and queries, redirection of DNS, IPv6 and
    the transport of a profile.
  \<^item> \<open>Socks5UdpCodec\<close>: the header in front of relayed datagrams; decoding accepts exactly the
    well-formed packets.
  \<^item> \<open>UdpAssociationPolicy\<close>, \<open>UdpBlockLogLimiter\<close>, \<open>Monitoring\<close>: the circuit breaker, the log limiter,
    the bounded queues and counters. The locale \<open>bounded_fifo\<close> states what the two
    queues share and is interpreted for both.
  \<^item> \<open>Base64\<close>: both codecs; \<open>ProcessRegistry\<close>: the registry of hooked processes and the reading of
    the system process list from raw bytes.

  \<^bold>\<open>The proxy layer.\<close> \<open>ProxyLayer\<close> translates \<open>AsyncProxySocketLayer.cpp\<close>: SOCKS4, SOCKS4A, SOCKS5
  and HTTP requests and replies, the queue of the request, the datagram calls. \<open>LayerSend\<close> shows that
  requests leave in order under any partial writes; \<open>LayerReceive\<close> that a reply is understood
  in every segmentation and nothing behind it is consumed (locale \<open>framed_reader\<close>, interpreted for the
  three SOCKS readers), over any number of receive events and with any bytes behind it; \<open>LayerOutcome\<close> that a
  connect is completed exactly once in a whole run (the UDP associate differs, see the theorem there).

  \<^bold>\<open>The TLS layer.\<close> \<open>ExLayer\<close> is the base class of the layers (\<open>AsyncSocketExLayer.cpp\<close>): state, critical
  error, posted messages, stream calls. \<open>SecureLayer\<close> is \<open>AsyncSecureSocketLayer.cpp\<close>; the TLS
  session is a value that the functions of the loaded module take and return, and these functions
  are the record \<open>SecureEnv\<close>. \<open>SecurePump\<close> has the effect of each part of a step, \<open>SecureInv\<close> the invariant
  that all messages and calls keep, \<open>SecureRuns\<close> the guarantees: exact streams, one report of the
  connect, no lost wakeup. The runs include posts of messages that fail and the shutdown that goes past the
  layer (\<open>SocketShutDown\<close>); the theorem on wakeups is for runs without a failed post, the others are for
  all. What is assumed of the module is
  \<open>session_ok\<close>: plaintext comes only after the handshake, and the handshake is not undone.

  \<^bold>\<open>Tasks.\<close> \<open>TcpPeer\<close> is the TCP task with its two peers and the transport half of the inspection
  bridge (\<open>TcpProxyTask.cpp\<close>, \<open>PRCTcpPeer.cpp\<close>, \<open>MitmBridge.cpp\<close>); \<open>TcpStream\<close> and \<open>TcpRuns\<close> show for every
  handler and every run of a connection that is not inspected that both byte streams are forwarded in order,
  within the buffer, and completely as long as no send fails and no socket breaks; \<open>TcpOutcome\<close> has the life of a task and the bridge. \<open>UdpTask\<close> is \<open>UdpProxyTask.cpp\<close> with
  \<open>PRCUdpPeer.cpp\<close>; \<open>UdpQueues\<close> and \<open>UdpRuns\<close> have bounds and order of the queues, \<open>UdpEffects\<close> what a
  handler may do to sockets (locale \<open>task_effect\<close>, interpreted for keeping the client side and for
  isolation), \<open>UdpFlow\<close> replies, activation and retry. \<open>TaskMgr\<close> is \<open>ProxyTaskMgr.cpp\<close>; \<open>MgrBooks\<close>,
  \<open>TcpMgrRuns\<close> and \<open>UdpMgrRuns\<close> show that its lists and its port table stay sound.

  \<^bold>\<open>The service.\<close> \<open>Reception\<close> and \<open>ReceptionRuns\<close>: registered clients, listeners and settings; every
  accepted socket is closed or handed to one task (one whose \<open>Attach\<close> fails is closed twice). \<open>ChildGuard\<close> and \<open>GuardRuns\<close>: the watch over suspended
  children; only orphans are terminated. \<open>PipeRecords\<close>: the records of the pipe as bytes (locale
  \<open>wire_record\<close>, interpreted for every record and for the header of a launch request); \<open>AppLaunch\<close>: launches of packaged applications, each at most
  once when the threads are prompt, and twice in a race of the clock with the lock otherwise; \<open>PipeServer\<close>, \<open>PipeClient\<close>, \<open>PipeRuns\<close>: both ends of the pipe at byte level; a call over the pipe
  does what it says, a process acts only for itself, and pipe access is granted only to its true children.

  \<^bold>\<open>The hooks.\<close> \<open>HookTables\<close>: made-up addresses and redirected sockets; \<open>HookNet\<close>: the hooked functions;
  \<open>HookRuns\<close> and \<open>HookFlow\<close>: an intercepted call goes to its destination only when the service says so,
  blocked traffic is refused, a made-up address gives its name back. \<open>EndToEnd\<close> composes hook,
  pipe, reception and task: a connection of a hooked process becomes a task for the name it resolved.

  \<^bold>\<open>Text formats.\<close> \<open>Base64Url\<close> is the codec of both text formats; decoding accepts exactly what
  encoding writes. \<open>ElevatedLaunch\<close> is the request for the elevated helper: how \<open>Page3.cpp\<close> builds it, how
  \<open>ElevatedLaunchProtocol.h\<close> encodes it, and how \<open>ElevatedLauncher.cpp\<close> parses it and starts the process; a
  child is never released without the hook. \<open>ProfileShare\<close> is \<open>ProfileShareCodec.h\<close>: a shared profile is read
  back as it was, and a profile that is accepted is usable. The UTF-8 conversions of Windows and the
  JSON library are arguments of these definitions; the library is described by its
  output, its parse result and the sequence of its parser events (\<open>json_events\<close>), and what it writes is
  assumed to be read back for the values of \<open>json_plain\<close> only: finite numbers and sorted members.

  \<^bold>\<open>Loops and bounds.\<close> Loops over data are structural or have a termination proof. Loops over socket
  calls end with the script of the socket; the measures are in \<open>ProxyLayer\<close>, \<open>TcpPeer\<close> and \<open>SecureLayer\<close>. The loop
  of a pipe connection takes the environment of each round from a list; a round reads a request, and the loop waits
  while the messages that have arrived hold no byte. The counter of made-up addresses wraps after 65534 names,
  which bounds the theorem about them.

  \<^bold>\<open>Not modelled.\<close> The MFC user interface under \<open>src/src/ProxyLane\<close> (except the log queue, the codecs,
  the launch request and the answers of the settings page): windows and controls around library calls,
  dialogs and the clipboard. Injection and the remote code: writes to process memory. Starting the
  elevated helper through the shell. The Rust crates and the
  QUIC bridge in front of them. Creating the pipe, the listeners and their threads. The attachment of the
  detours and the hooks of process creation. Of the base socket class only what the tasks call, and of
  the base layer not its address and datagram calls. Third-party code.
\<close>

end
